(* ===== verification/Prelude.thy ===== *)
theory Prelude
  imports Main "HOL-Library.Word"
begin

text \<open>
  Shared vocabulary of the development: bytes and fixed-width integers, Go slices with their
  run-time bounds checks, big-endian fields (package encoding/binary), the fallible-result
  combinators, and the generic list and word facts the component theories rely on.
  A Go value of type \<open>byte\<close>, \<open>uint16\<close>, \<open>uint32\<close>, \<open>uint64\<close> is a word of that width, so that
  conversions truncate and sums wrap as they do in Go; a length is a \<open>nat\<close>.
\<close>

unbundle bit_operations_syntax

type_synonym byte = "8 word"
type_synonym bytes = "8 word list"
type_synonym u16 = "16 word"
type_synonym u32 = "32 word"
type_synonym u64 = "64 word"

named_theorems wire_defs \<open>definitions of the framing codecs\<close>
named_theorems res_simps \<open>evaluation of fallible results\<close>

subsection \<open>Fallible results\<close>

text \<open>
  A Go function \<open>f(...) (T, error)\<close> that returns either a value or an error has type
  \<open>'e + 'a\<close>: \<open>Inl e\<close> is the early return with error \<open>e\<close>. \<open>andThen\<close> is the pattern
  \<open>x, err := f(); if err != nil { return err }; ...\<close>, and \<open>guard\<close> is
  \<open>if cond { return err }; ...\<close>.
\<close>

definition andThen :: "'e + 'a \<Rightarrow> ('a \<Rightarrow> 'e + 'b) \<Rightarrow> 'e + 'b" where
  "andThen r f = (case r of Inl e \<Rightarrow> Inl e | Inr x \<Rightarrow> f x)"

definition failIf :: "bool \<Rightarrow> 'e \<Rightarrow> 'e + 'b \<Rightarrow> 'e + 'b" where
  "failIf b e r = (if b then Inl e else r)"

lemma andThen_simps [simp, res_simps]:
  "andThen (Inl e) f = Inl e"
  "andThen (Inr x) f = f x"
  by (simp_all add: andThen_def)

lemma failIf_simps [simp, res_simps]:
  "failIf True e r = Inl e"
  "failIf False e r = r"
  by (simp_all add: failIf_def)

lemma andThen_Inr_conv: "andThen r f = Inr y \<longleftrightarrow> (\<exists>x. r = Inr x \<and> f x = Inr y)"
  by (cases r) simp_all

lemma andThen_Inl_conv:
  "andThen r f = Inl e \<longleftrightarrow> r = Inl e \<or> (\<exists>x. r = Inr x \<and> f x = Inl e)"
  by (cases r) auto

lemma failIf_Inr_conv: "failIf b e r = Inr y \<longleftrightarrow> \<not> b \<and> r = Inr y"
  by (simp add: failIf_def)

lemma failIf_Inl_conv: "failIf b e r = Inl e' \<longleftrightarrow> (b \<and> e' = e) \<or> (\<not> b \<and> r = Inl e')"
  by (auto simp: failIf_def)

lemmas res_conv = andThen_Inr_conv andThen_Inl_conv failIf_Inr_conv failIf_Inl_conv

subsection \<open>Slices\<close>

text \<open>
  \<open>slice xs i j\<close> is Go's \<open>xs[i:j]\<close>; the expression panics unless \<open>i \<le> j \<le> len(xs)\<close>
  (\<open>slice_ok\<close>). A model that slices where the code does not guarantee the bounds uses the
  predicate explicitly.
\<close>

definition slice :: "'a list \<Rightarrow> nat \<Rightarrow> nat \<Rightarrow> 'a list" where
  "slice xs i j = take (j - i) (drop i xs)"

definition slice_ok :: "'a list \<Rightarrow> nat \<Rightarrow> nat \<Rightarrow> bool" where
  "slice_ok xs i j \<longleftrightarrow> i \<le> j \<and> j \<le> length xs"

lemma length_slice [simp]: "slice_ok xs i j \<Longrightarrow> length (slice xs i j) = j - i"
  by (auto simp: slice_def slice_ok_def)

lemma slice_append_middle:
  "length a = i \<Longrightarrow> length b = j - i \<Longrightarrow> slice (a @ b @ c) i j = b"
  by (simp add: slice_def)

lemma slice_zero [simp]: "slice xs 0 j = take j xs"
  by (simp add: slice_def)

lemma length_slice_le: "length (slice xs i j) \<le> j - i"
  by (simp add: slice_def)

lemma take_min_length [simp]: "take (min (length xs) n) xs = take n xs"
  by (simp add: min_def)

lemma drop_min_length: "drop (min (length xs) n) xs = drop n xs"
  by (simp add: min_def)

text \<open>\<open>copy(dst[k:], src)\<close> over a zeroed buffer of \<open>n\<close> bytes: zero padding on the right.\<close>

definition pad_to :: "nat \<Rightarrow> bytes \<Rightarrow> bytes" where
  "pad_to n xs = take n xs @ replicate (n - length xs) 0"

lemma length_pad_to [simp]: "length (pad_to n xs) = n"
  by (simp add: pad_to_def)

lemma take_pad_to: "k \<le> length xs \<Longrightarrow> k \<le> n \<Longrightarrow> take k (pad_to n xs) = take k xs"
  by (simp add: pad_to_def min_def)

lemma drop_pad_to: "k \<le> length xs \<Longrightarrow> length xs \<le> n \<Longrightarrow> drop k (pad_to n xs) = pad_to (n - k) (drop k xs)"
  by (simp add: pad_to_def)

subsection \<open>Big-endian fields\<close>

text \<open>\<open>binary.BigEndian.PutUint16/32\<close> and \<open>Uint16/32\<close>; the readers look at the first 2 or 4
  bytes of the slice the caller selected.\<close>

definition be16 :: "u16 \<Rightarrow> bytes" where
  "be16 w = [ucast (drop_bit 8 w), ucast w]"

definition be32 :: "u32 \<Rightarrow> bytes" where
  "be32 w = [ucast (drop_bit 24 w), ucast (drop_bit 16 w), ucast (drop_bit 8 w), ucast w]"

definition get16 :: "bytes \<Rightarrow> u16" where
  "get16 bs = push_bit 8 (ucast (bs ! 0)) OR ucast (bs ! 1)"

definition get32 :: "bytes \<Rightarrow> u32" where
  "get32 bs = push_bit 24 (ucast (bs ! 0)) OR push_bit 16 (ucast (bs ! 1))
     OR push_bit 8 (ucast (bs ! 2)) OR ucast (bs ! 3)"

lemma length_be16 [simp]: "length (be16 w) = 2"
  by (simp add: be16_def)

lemma length_be32 [simp]: "length (be32 w) = 4"
  by (simp add: be32_def)

lemma get16_be16 [simp]: "get16 (be16 w @ xs) = w"
  unfolding get16_def be16_def
  by (rule bit_word_eqI) (auto simp: bit_simps nth_append)

lemma get32_be32 [simp]: "get32 (be32 w @ xs) = w"
  unfolding get32_def be32_def
proof (rule bit_word_eqI, goal_cases)
  case (1 n)
  consider "n < 8" | "8 \<le> n" "n < 16" | "16 \<le> n" "n < 24" | "24 \<le> n" by linarith
  then show ?case using 1 by cases (auto simp: bit_simps)
qed

lemma get16_be16' [simp]: "get16 (be16 w) = w"
  using get16_be16 [of w "[]"] by simp

lemma get32_be32' [simp]: "get32 (be32 w) = w"
  using get32_be32 [of w "[]"] by simp

text \<open>And back, for slices of the right length.\<close>

lemma be16_get16: "length bs = 2 \<Longrightarrow> be16 (get16 bs) = bs"
proof -
  assume "length bs = 2"
  then obtain a b where bs: "bs = [a, b]" by (auto simp: length_Suc_conv numeral_2_eq_2)
  show ?thesis
    unfolding bs be16_def get16_def by (auto intro!: bit_word_eqI simp: bit_simps) (drule bit_imp_le_length, simp)+
qed

lemma be32_get32: "length bs = 4 \<Longrightarrow> be32 (get32 bs) = bs"
proof -
  assume "length bs = 4"
  then obtain a b c d where bs: "bs = [a, b, c, d]" by (auto simp: length_Suc_conv numeral_eq_Suc)
  show ?thesis
    unfolding bs be32_def get32_def by (auto intro!: bit_word_eqI simp: bit_simps) (drule bit_imp_le_length, simp)+
qed

text \<open>Go's conversion of a length to a narrower unsigned integer truncates; it is exact below the
  width's modulus.\<close>

lemma unat_of_nat_u16 [simp]: "n < 65536 \<Longrightarrow> unat (word_of_nat n :: u16) = n"
  by (simp add: unat_of_nat take_bit_eq_mod)

lemma unat_of_nat_u8 [simp]: "n < 256 \<Longrightarrow> unat (word_of_nat n :: byte) = n"
  by (simp add: unat_of_nat take_bit_eq_mod)

lemma unat_u16_less [simp]: "unat (w :: u16) < 65536"
  using unsigned_less [of w] by simp

lemma unat_u8_less [simp]: "unat (w :: byte) < 256"
  using unsigned_less [of w] by simp

lemma word_of_nat_Suc_u8: "word_of_nat k + 1 = (word_of_nat (Suc k) :: byte)"
  by simp

text \<open>The high bit of a byte distinguishes CTAPHID initialization packets from continuations.\<close>

lemma high_bit_clear: "unat w < 128 \<Longrightarrow> (w :: byte) AND 0x80 = 0"
proof -
  assume "unat w < 128"
  then have "\<not> bit (unat w) 7" by (simp add: bit_iff_odd)
  then have "\<not> bit w 7" by (simp add: bit_unsigned_iff)
  moreover have "bit (2 ^ 7 :: byte) n \<longleftrightarrow> n = 7" for n
    by (simp only: bit_exp_iff) auto
  ultimately have "w AND 2 ^ 7 = 0"
    by (intro bit_word_eqI) (simp only: bit_and_iff bit_0_eq, auto)
  then show ?thesis by simp
qed

subsection \<open>Chunking loops\<close>

text \<open>
  The send loops of the framing codecs cut \<open>remaining\<close> into pieces of at most \<open>n\<close> bytes:
  \<open>for len(remaining) > 0 { chunk := min(len(remaining), n); ...; remaining = remaining[chunk:] }\<close>.
  \<open>chunks\<close> is the list of pieces; for \<open>n = 0\<close> the loop would not make progress, and no codec
  accepts that size.
\<close>

function chunks :: "nat \<Rightarrow> 'a list \<Rightarrow> 'a list list" where
  "chunks n xs = (if xs = [] \<or> n = 0 then [] else take n xs # chunks n (drop n xs))"
  by pat_completeness auto
termination
  by (relation "measure (\<lambda>(n, xs). length xs)") auto

declare chunks.simps [simp del]

lemma chunks_Nil [simp]: "chunks n [] = []"
  by (subst chunks.simps) simp

lemma chunks_Cons: "xs \<noteq> [] \<Longrightarrow> 0 < n \<Longrightarrow> chunks n xs = take n xs # chunks n (drop n xs)"
  by (subst chunks.simps) simp

lemma concat_chunks: "0 < n \<Longrightarrow> concat (chunks n xs) = xs"
proof (induction n xs rule: chunks.induct)
  case (1 n xs)
  then show ?case by (cases "xs = []") (simp_all add: chunks_Cons)
qed

lemma chunks_bounds: "0 < n \<Longrightarrow> c \<in> set (chunks n xs) \<Longrightarrow> 0 < length c \<and> length c \<le> n"
proof (induction n xs rule: chunks.induct)
  case (1 n xs)
  then show ?case by (cases "xs = []") (auto simp: chunks_Cons)
qed

lemma length_chunks: "0 < n \<Longrightarrow> length xs \<le> k * n \<Longrightarrow> length (chunks n xs) \<le> k"
proof (induction k arbitrary: xs)
  case 0
  then show ?case by simp
next
  case (Suc k)
  show ?case
  proof (cases "xs = []")
    case False
    moreover have "length (drop n xs) \<le> k * n" using Suc.prems by simp
    ultimately show ?thesis using Suc by (simp add: chunks_Cons)
  qed simp
qed

lemma chunks_take_drop:
  "0 < n \<Longrightarrow> xs \<noteq> [] \<Longrightarrow> i < length (chunks n xs) \<Longrightarrow> chunks n xs ! i = take n (drop (i * n) xs)"
proof (induction n xs arbitrary: i rule: chunks.induct)
  case (1 n xs)
  show ?case
  proof (cases i)
    case 0
    with 1 show ?thesis by (simp add: chunks_Cons)
  next
    case (Suc j)
    with 1 have "drop n xs \<noteq> []" by (auto simp: chunks_Cons)
    with 1 Suc show ?thesis by (simp add: chunks_Cons add.commute)
  qed
qed

end
