(* ===== verification/GoErrors.thy ===== *)
theory GoErrors
  imports Prelude
begin

text \<open>
  Error values. Go errors are trees: an error wraps others through \<open>Unwrap\<close>, and callers inspect
  the tree with \<open>errors.Is\<close> and \<open>errors.As\<close>. This theory has one constructor per error type of the
  repository (and one for errors made by code outside it), the pre-order traversal that
  \<open>errors.Is\<close>/\<open>errors.As\<close> perform, and the repository's own error helpers: the transport
  categories of \<open>pkg/transport/errors.go\<close> and \<open>operationError\<close> of \<open>pkg/hid/errors.go\<close>.
  The locale \<open>cause_preserving\<close> is the contract callers rely on: annotating an error never
  hides a cause from \<open>errors.Is\<close>/\<open>errors.As\<close>.
\<close>

subsection \<open>Sentinels\<close>

datatype wirehid_error =
    PayloadTooLarge | InvalidReportSize | InvalidCommand | InvalidPacket
  | MismatchedChannel | UnexpectedCommand | UnexpectedSeq | IncompletePayload

datatype wirenfc_error = InvalidChunkSize | InvalidResponse | StatusWord | IncompleteAPDU

datatype wireble_error = BlePayloadTooLarge | InvalidMTU | InvalidFragment | IncompleteValue

datatype transport_category = ErrDisconnected | ErrPermissionDenied | ErrTemporary | ErrUnsupported

datatype registry_error = ErrBackendRequired | ErrDuplicateBackend | ErrBackendNotFound

datatype hid_error =
    HidClosed | HidRemoved | HidPermission | HidBusy | HidUnsupported | HidInvalidArgument
  | HidInvalidReport | HidStaleEndpoint | HidTimeout | HidIO | HidResourceLimit

datatype client_error =
    ErrSessionRequired | ErrRawInvokerRequired | ErrMiddlewareRequired
  | ErrInteractionHandlerRequired | ErrTraceRecorderRequired | ErrPINRequired
  | ErrNewPINRequired | ErrNoCapableProtocol

text \<open>\<open>errResetConfirmationRequired\<close> of \<open>cmd/fidoctl\<close>.\<close>

datatype cli_error = ErrResetConfirmationRequired

text \<open>\<open>context.Canceled\<close> and \<open>context.DeadlineExceeded\<close>.\<close>

datatype context_error = Canceled | DeadlineExceeded

datatype sentinel =
    SWireHid wirehid_error | SWireNfc wirenfc_error | SWireBle wireble_error
  | STransport transport_category | SRegistry registry_error | SHid hid_error
  | SClient client_error | SContext context_error | SCli cli_error

datatype driver_kind =
    KindIO | KindClosed | KindRemoved | KindPermission | KindBusy | KindUnsupported
  | KindInvalidArgument | KindInvalidReport | KindStaleEndpoint | KindTimeout | KindResourceLimit

subsection \<open>Other enumerations carried by errors\<close>

datatype exchange_stage = StageINIT | StagePING | StageRequest | StageResponse

datatype write_outcome = OutcomeUnknown | OutcomeNotSubmitted | OutcomeCompleted

text \<open>The status of a diagnostic scenario (\<open>internal/diagnostics\<close>).\<close>

datatype diag_status = Pass | Fail | Skip | Inconclusive

record native_error =
  ne_domain :: string
  ne_code :: u64
  ne_message :: string

subsection \<open>Error values\<close>

text \<open>
  \<open>Sentinel\<close> is a package-level \<open>errors.New\<close> value, compared by identity. \<open>TextError\<close> is a
  formatted message that wraps nothing; \<open>WrapError\<close> is \<open>fmt.Errorf\<close> with \<open>%w\<close> verbs.
  \<open>Errno n\<close> is a \<open>syscall.Errno\<close>, with the numbers of Linux or Windows. \<open>ForeignError i perm temp\<close> is an error of code outside the repository: \<open>perm\<close> is what
  \<open>os.IsPermission\<close> answers for it and \<open>temp\<close> what its \<open>Temporary\<close> method returns, if it has
  one. \<open>GoPanic\<close> is a run-time panic (an index or slice expression out of range).
\<close>

datatype err =
    Sentinel sentinel
  | TextError string
  | WrapError string "err list"
  | JoinError "err list"
  | TransportError string err
  | HidOpError string string hid_error "native_error option" err
  | NativeError native_error
  | DriverError string driver_kind string u64 string "err option"
  | StatusError byte byte
  | AppletSelectionError byte byte
  | Ctap1Error u16
  | Ctap2Error byte
  | HIDError byte
  | ExchangeError exchange_stage nat write_outcome bool err
  | HidLocalWaitError err
  | InvalidHIDCommandError byte
  | UnknownFamilyError string
  | UnsupportedProtocolError string
  | DuplicateRawInvokerError string
  | UnsupportedVerificationMethodError string string
  | VerificationMethodUnavailableError string string string
  | DeviceNotFoundError string
  | CTAP2UnavailableError string
  | DispositionError diag_status string
  | Errno u64
  | ForeignError nat bool "bool option"
  | GoPanic

type_synonym 'a res = "err + 'a"

text \<open>The direct causes of an error: its \<open>Unwrap\<close> method.\<close>

fun unwrap :: "err \<Rightarrow> err list" where
  "unwrap (WrapError m es) = es"
| "unwrap (JoinError es) = es"
| "unwrap (TransportError op e) = [e]"
| "unwrap (HidOpError op ep k native cause) =
     Sentinel (SHid k) # (case native of None \<Rightarrow> [] | Some n \<Rightarrow> [NativeError n]) @ [cause]"
| "unwrap (DriverError op k dmn code msg cause) = (case cause of None \<Rightarrow> [] | Some e \<Rightarrow> [e])"
| "unwrap (StatusError sw1 sw2) = [Sentinel (SWireNfc StatusWord)]"
| "unwrap (ExchangeError st n out amb cause) = [cause]"
| "unwrap (HidLocalWaitError cause) = [cause]"
| "unwrap _ = []"

text \<open>The pre-order traversal of the error tree, the order in which \<open>errors.Is\<close> and
  \<open>errors.As\<close> look at it.\<close>

fun error_tree :: "err \<Rightarrow> err list" where
  "error_tree (WrapError m es) = WrapError m es # concat (map error_tree es)"
| "error_tree (JoinError es) = JoinError es # concat (map error_tree es)"
| "error_tree (TransportError op e) = TransportError op e # error_tree e"
| "error_tree (HidOpError op ep k native cause) =
     HidOpError op ep k native cause # Sentinel (SHid k) #
       (case native of None \<Rightarrow> [] | Some n \<Rightarrow> [NativeError n]) @ error_tree cause"
| "error_tree (DriverError op k dmn code msg cause) =
     DriverError op k dmn code msg cause # (case cause of None \<Rightarrow> [] | Some e \<Rightarrow> error_tree e)"
| "error_tree (StatusError sw1 sw2) = [StatusError sw1 sw2, Sentinel (SWireNfc StatusWord)]"
| "error_tree (ExchangeError st n out amb cause) = ExchangeError st n out amb cause # error_tree cause"
| "error_tree (HidLocalWaitError cause) = HidLocalWaitError cause # error_tree cause"
| "error_tree e = [e]"

lemma error_tree_unwrap: "error_tree e = e # concat (map error_tree (unwrap e))"
  by (cases e) (auto split: option.splits)

lemma error_tree_root [simp]: "e \<in> set (error_tree e)"
  by (simp add: error_tree_unwrap [of e])

text \<open>Sub-errors are reachable by repeated unwrapping: the tree is closed downwards.\<close>

lemma error_tree_trans: "x \<in> set (error_tree e) \<Longrightarrow> y \<in> set (error_tree x) \<Longrightarrow> y \<in> set (error_tree e)"
  by (induction e rule: error_tree.induct) (auto split: option.splits)

definition errors_is :: "err \<Rightarrow> sentinel \<Rightarrow> bool" where
  "errors_is e s \<longleftrightarrow> Sentinel s \<in> set (error_tree e)"

text \<open>\<open>errors.Is\<close> with an errno.\<close>

definition errno_is :: "err \<Rightarrow> u64 \<Rightarrow> bool" where
  "errno_is e n \<longleftrightarrow> Errno n \<in> set (error_tree e)"

primrec first_some :: "'a option list \<Rightarrow> 'a option" where
  "first_some [] = None"
| "first_some (x # xs) = (case x of None \<Rightarrow> first_some xs | Some y \<Rightarrow> Some y)"

text \<open>\<open>errors.As\<close> with the accessor \<open>f\<close> of the wanted type: the first match in pre-order.\<close>

definition errors_as :: "(err \<Rightarrow> 'a option) \<Rightarrow> err \<Rightarrow> 'a option" where
  "errors_as f e = first_some (map f (error_tree e))"

lemma first_some_None: "first_some xs = None \<longleftrightarrow> (\<forall>x \<in> set xs. x = None)"
  by (induction xs) (auto split: option.splits)

lemma first_some_SomeD: "first_some xs = Some y \<Longrightarrow> Some y \<in> set xs"
  by (induction xs) (auto split: option.splits)

lemma errors_as_None: "errors_as f e = None \<longleftrightarrow> (\<forall>x \<in> set (error_tree e). f x = None)"
  by (simp add: errors_as_def first_some_None)

lemma errors_as_SomeD: "errors_as f e = Some y \<Longrightarrow> \<exists>x \<in> set (error_tree e). f x = Some y"
  using first_some_SomeD [of "map f (error_tree e)" y] by (force simp: errors_as_def)

text \<open>Accessors for the concrete types the code asks for.\<close>

fun as_HIDError :: "err \<Rightarrow> byte option" where
  "as_HIDError (HIDError c) = Some c" | "as_HIDError _ = None"

fun as_LocalWait :: "err \<Rightarrow> err option" where
  "as_LocalWait (HidLocalWaitError c) = Some c" | "as_LocalWait _ = None"

fun as_Ctap2Error :: "err \<Rightarrow> byte option" where
  "as_Ctap2Error (Ctap2Error c) = Some c" | "as_Ctap2Error _ = None"

fun as_DriverError :: "err \<Rightarrow> (driver_kind \<times> string \<times> u64 \<times> string) option" where
  "as_DriverError (DriverError op k dmn code msg cause) = Some (k, dmn, code, msg)"
| "as_DriverError _ = None"

fun as_DeviceNotFound :: "err \<Rightarrow> string option" where
  "as_DeviceNotFound (DeviceNotFoundError d) = Some d" | "as_DeviceNotFound _ = None"

fun as_AppletSelection :: "err \<Rightarrow> (byte \<times> byte) option" where
  "as_AppletSelection (AppletSelectionError a b) = Some (a, b)" | "as_AppletSelection _ = None"

fun as_Disposition :: "err \<Rightarrow> (diag_status \<times> string) option" where
  "as_Disposition (DispositionError st reason) = Some (st, reason)" | "as_Disposition _ = None"

fun as_Errno :: "err \<Rightarrow> u64 option" where
  "as_Errno (Errno n) = Some n" | "as_Errno _ = None"

text \<open>The interface \<open>Temporary() bool\<close>: \<open>context.DeadlineExceeded\<close> implements it (and answers true),
  as do \<open>syscall.Errno\<close> (true for \<open>EINTR\<close>, \<open>EAGAIN\<close>, \<open>ENFILE\<close>, \<open>EMFILE\<close> and \<open>ETIMEDOUT\<close>) and some foreign
  errors.\<close>

fun as_temporary :: "err \<Rightarrow> bool option" where
  "as_temporary (Sentinel (SContext DeadlineExceeded)) = Some True"
| "as_temporary (Errno n) = Some (n \<in> {4, 11, 23, 24, 110})"
| "as_temporary (ForeignError i p t) = t"
| "as_temporary _ = None"

text \<open>\<open>os.IsPermission\<close> looks through the os package's own wrappers only, never through
  \<open>fmt.Errorf\<close> or the repository's types; it is true of \<open>EPERM\<close> and \<open>EACCES\<close>.\<close>

fun os_IsPermission :: "err \<Rightarrow> bool" where
  "os_IsPermission (ForeignError i p t) = p"
| "os_IsPermission (Errno n) \<longleftrightarrow> n \<in> {1, 13}"
| "os_IsPermission _ = False"

text \<open>\<open>errors.Join\<close> drops nil errors and is nil when none is left.\<close>

definition errors_join :: "err option list \<Rightarrow> err option" where
  "errors_join es = (case [e. Some e \<leftarrow> es] of [] \<Rightarrow> None | xs \<Rightarrow> Some (JoinError xs))"

subsection \<open>Annotating errors\<close>

text \<open>An annotation keeps every cause visible. \<open>errors.Is\<close> and \<open>errors.As\<close> on the annotated
  error find at least what they found before.\<close>

locale cause_preserving =
  fixes ann :: "err \<Rightarrow> err"
  assumes keeps: "set (error_tree e) \<subseteq> set (error_tree (ann e))"
begin

lemma is_keeps: "errors_is e s \<Longrightarrow> errors_is (ann e) s"
  using keeps [of e] by (auto simp: errors_is_def)

lemma as_keeps: "errors_as f e \<noteq> None \<Longrightarrow> errors_as f (ann e) \<noteq> None"
  using keeps [of e] by (auto simp: errors_as_None)

end

text \<open>Two annotations in a row are one.\<close>

locale cause_preserving_pair = outer: cause_preserving f + inner: cause_preserving g
  for f :: "err \<Rightarrow> err" and g :: "err \<Rightarrow> err"
begin

lemma keeps_comp: "set (error_tree e) \<subseteq> set (error_tree (f (g e)))"
  using inner.keeps [of e] outer.keeps [of "g e"] by blast

end

subsection \<open>transport/errors.go\<close>

definition transport_Wrap :: "string \<Rightarrow> err option \<Rightarrow> err option" where
  "transport_Wrap op e = (case e of None \<Rightarrow> None | Some x \<Rightarrow> Some (TransportError op x))"

definition withCategory :: "err \<Rightarrow> transport_category \<Rightarrow> err" where
  "withCategory e category =
     (if errors_is e (STransport category) then e
      else WrapError ''%w: %w'' [Sentinel (STransport category), e])"

definition Disconnected :: "err \<Rightarrow> err" where
  "Disconnected e = withCategory e ErrDisconnected"

definition PermissionDenied :: "err \<Rightarrow> err" where
  "PermissionDenied e = withCategory e ErrPermissionDenied"

definition Temporary :: "err \<Rightarrow> err" where
  "Temporary e = withCategory e ErrTemporary"

definition Unsupported :: "err \<Rightarrow> err" where
  "Unsupported e = withCategory e ErrUnsupported"

definition hasCategory :: "err \<Rightarrow> bool" where
  "hasCategory e \<longleftrightarrow>
     errors_is e (STransport ErrDisconnected) \<or> errors_is e (STransport ErrPermissionDenied) \<or>
     errors_is e (STransport ErrTemporary) \<or> errors_is e (STransport ErrUnsupported)"

definition ClassifyCommon :: "err \<Rightarrow> err" where
  "ClassifyCommon e =
     (if hasCategory e then e
      else if os_IsPermission e then PermissionDenied e
      else case errors_as as_temporary e of
             Some True \<Rightarrow> Temporary e
           | _ \<Rightarrow> e)"

lemma withCategory_keeps: "set (error_tree e) \<subseteq> set (error_tree (withCategory e c))"
  by (auto simp: withCategory_def)

interpretation transport_error: cause_preserving "TransportError op" for op
  by unfold_locales auto

interpretation with_category: cause_preserving "\<lambda>e. withCategory e c" for c
  by unfold_locales (rule withCategory_keeps)

interpretation classify_common: cause_preserving ClassifyCommon
  by unfold_locales
    (auto simp: ClassifyCommon_def PermissionDenied_def Temporary_def
      dest: subsetD [OF withCategory_keeps] split: option.splits bool.splits)

interpretation wrap_classified: cause_preserving_pair "TransportError op" ClassifyCommon for op
  by unfold_locales

lemma errors_is_withCategory:
  "errors_is (withCategory e c) s \<longleftrightarrow> s = STransport c \<or> errors_is e s"
  by (auto simp: withCategory_def errors_is_def)

lemma hasCategory_iff: "hasCategory e \<longleftrightarrow> (\<exists>c. errors_is e (STransport c))"
  unfolding hasCategory_def by (metis transport_category.exhaust)

lemma errors_is_transport_Wrap [simp]: "errors_is (TransportError op e) s \<longleftrightarrow> errors_is e s"
  by (simp add: errors_is_def)

lemma ClassifyCommon_idem: "ClassifyCommon (ClassifyCommon e) = ClassifyCommon e"
proof (cases "hasCategory (ClassifyCommon e)")
  case True
  then show ?thesis by (simp add: ClassifyCommon_def [of "ClassifyCommon e"])
next
  case False
  then have "ClassifyCommon e = e"
    by (auto simp: ClassifyCommon_def PermissionDenied_def Temporary_def hasCategory_iff
        errors_is_withCategory split: if_splits option.splits bool.splits)
  then show ?thesis by simp
qed

lemma errors_is_ClassifyCommon:
  "errors_is (ClassifyCommon e) s \<longleftrightarrow> errors_is e s \<or>
     \<not> hasCategory e \<and>
       (if os_IsPermission e then s = STransport ErrPermissionDenied
        else errors_as as_temporary e = Some True \<and> s = STransport ErrTemporary)"
  by (auto simp: ClassifyCommon_def PermissionDenied_def Temporary_def errors_is_withCategory
      split: option.splits bool.splits)

subsection \<open>hid/errors.go\<close>

text \<open>The kinds table of \<open>operationError\<close>, indexed by the driver's kind.\<close>

fun driver_kind_error :: "driver_kind \<Rightarrow> hid_error" where
  "driver_kind_error KindIO = HidIO"
| "driver_kind_error KindClosed = HidClosed"
| "driver_kind_error KindRemoved = HidRemoved"
| "driver_kind_error KindPermission = HidPermission"
| "driver_kind_error KindBusy = HidBusy"
| "driver_kind_error KindUnsupported = HidUnsupported"
| "driver_kind_error KindInvalidArgument = HidInvalidArgument"
| "driver_kind_error KindInvalidReport = HidInvalidReport"
| "driver_kind_error KindStaleEndpoint = HidStaleEndpoint"
| "driver_kind_error KindTimeout = HidTimeout"
| "driver_kind_error KindResourceLimit = HidResourceLimit"

definition hid_candidates :: "hid_error list" where
  "hid_candidates = [HidClosed, HidRemoved, HidPermission, HidBusy, HidUnsupported,
     HidInvalidArgument, HidInvalidReport, HidStaleEndpoint, HidTimeout, HidResourceLimit]"

definition operationError :: "string \<Rightarrow> string \<Rightarrow> err \<Rightarrow> err" where
  "operationError op ep e =
     (case errors_as as_DriverError e of
        Some (k, dmn, code, msg) \<Rightarrow>
          HidOpError op ep (driver_kind_error k)
            (if dmn \<noteq> [] then Some \<lparr>ne_domain = dmn, ne_code = code, ne_message = msg\<rparr> else None) e
      | None \<Rightarrow>
          HidOpError op ep
            (case List.find (\<lambda>k. errors_is e (SHid k)) hid_candidates of
               Some k \<Rightarrow> k | None \<Rightarrow> HidIO) None e)"

text \<open>\<open>operationError\<close> of a nil error is nil.\<close>

definition operationError_opt :: "string \<Rightarrow> string \<Rightarrow> err option \<Rightarrow> err option" where
  "operationError_opt op ep e = map_option (operationError op ep) e"

interpretation operation_error: cause_preserving "operationError op ep" for op ep
  by unfold_locales (auto simp: operationError_def split: option.splits)

text \<open>The category \<open>operationError\<close> assigns to an error that already carries a hid sentinel.\<close>

lemma operationError_Sentinel:
  "operationError op ep (Sentinel (SHid k)) = HidOpError op ep k None (Sentinel (SHid k))"
  by (cases k) (simp_all add: operationError_def errors_as_def hid_candidates_def errors_is_def)

lemma operationError_root:
  "\<exists>k native. operationError op ep e = HidOpError op ep k native e"
  by (auto simp: operationError_def split: option.splits)

end
