(* ===== verification/Framing.thy ===== *)
theory Framing
  imports GoErrors
begin

text \<open>
  The interface between a framing codec and the session that uses it. A session writes the
  packets of \<open>Fragment\<close> and then runs \<open>for !assembler.Done() { packet := read(); assembler.Add(packet) }\<close>
  followed by \<open>assembler.Payload()\<close>; \<open>assemble_loop\<close> is that loop, over the outcomes of the read
  calls. When the outcomes run out the loop is still waiting for input, and the result is
  \<open>None\<close>. The locale \<open>framing\<close> states what a session needs of a codec, and its lemmas are the
  consequences every session has.
\<close>

subsection \<open>The receive loop of a session\<close>

text \<open>The last list of the result holds the read outcomes that were not consumed.\<close>

fun assemble_loop ::
  "('a \<Rightarrow> bytes \<Rightarrow> 'a \<times> err option) \<Rightarrow> ('a \<Rightarrow> bool) \<Rightarrow> ('a \<Rightarrow> bytes res) \<Rightarrow> string \<Rightarrow> string \<Rightarrow>
   'a \<Rightarrow> bytes res list \<Rightarrow> (bytes res \<times> bytes res list) option" where
  "assemble_loop add isDone payload opRead opAdd a reads =
     (if isDone a then
        (case payload a of
           Inl e \<Rightarrow> Some (Inl (TransportError opAdd (ClassifyCommon e)), reads)
         | Inr m \<Rightarrow> Some (Inr m, reads))
      else case reads of
        [] \<Rightarrow> None
      | Inl e # rest \<Rightarrow> Some (Inl (TransportError opRead (ClassifyCommon e)), rest)
      | Inr p # rest \<Rightarrow>
          (case add a p of
             (a', Some e) \<Rightarrow> Some (Inl (TransportError opAdd (ClassifyCommon e)), rest)
           | (a', None) \<Rightarrow> assemble_loop add isDone payload opRead opAdd a' rest))"

declare assemble_loop.simps [simp del]

lemma assemble_loop_done:
  "isDone a \<Longrightarrow> payload a = Inr m \<Longrightarrow>
     assemble_loop add isDone payload opRead opAdd a reads = Some (Inr m, reads)"
  by (simp add: assemble_loop.simps)

lemma assemble_loop_packet:
  "\<not> isDone a \<Longrightarrow> add a p = (a', None) \<Longrightarrow>
     assemble_loop add isDone payload opRead opAdd a (Inr p # reads) =
     assemble_loop add isDone payload opRead opAdd a' reads"
  by (simp add: assemble_loop.simps)

lemma assemble_loop_read_error:
  "\<not> isDone a \<Longrightarrow>
     assemble_loop add isDone payload opRead opAdd a (Inl e # reads) =
     Some (Inl (TransportError opRead (ClassifyCommon e)), reads)"
  by (simp add: assemble_loop.simps)

text \<open>A read error is never swallowed: the loop's error carries it as a cause.\<close>

lemma assemble_loop_causes:
  assumes "assemble_loop add isDone payload opRead opAdd a reads = Some (Inl e, rest)"
  shows "\<exists>op e0. e = TransportError op (ClassifyCommon e0) \<and> op \<in> {opRead, opAdd}"
  using assms
proof (induction reads arbitrary: a)
  case Nil
  then show ?case by (auto simp: assemble_loop.simps split: if_splits sum.splits)
next
  case (Cons r rs)
  then show ?case
    by (subst (asm) (2) assemble_loop.simps)
      (fastforce split: if_splits sum.splits prod.splits option.splits)
qed

subsection \<open>Delivery of one message\<close>

text \<open>\<open>delivers\<close>: adding the packets one after the other succeeds, the assembler is done after
  the last packet and not before, and it then holds the message.\<close>

fun delivers ::
  "('a \<Rightarrow> bytes \<Rightarrow> 'a \<times> err option) \<Rightarrow> ('a \<Rightarrow> bool) \<Rightarrow> ('a \<Rightarrow> bytes res) \<Rightarrow>
   'a \<Rightarrow> bytes list \<Rightarrow> bytes \<Rightarrow> bool" where
  "delivers add isDone payload a [] m \<longleftrightarrow> isDone a \<and> payload a = Inr m"
| "delivers add isDone payload a (p # ps) m \<longleftrightarrow>
     \<not> isDone a \<and> snd (add a p) = None \<and> delivers add isDone payload (fst (add a p)) ps m"

lemma delivers_assemble:
  "delivers add isDone payload a ps m \<Longrightarrow>
     assemble_loop add isDone payload opRead opAdd a (map Inr ps @ reads) = Some (Inr m, reads)"
proof (induction ps arbitrary: a)
  case Nil
  then show ?case by (simp add: assemble_loop_done)
next
  case (Cons p ps)
  then have "add a p = (fst (add a p), None)" by (metis prod.collapse delivers.simps(2))
  then have "assemble_loop add isDone payload opRead opAdd a (Inr p # map Inr ps @ reads) =
      assemble_loop add isDone payload opRead opAdd (fst (add a p)) (map Inr ps @ reads)"
    using Cons.prems by (intro assemble_loop_packet) auto
  with Cons show ?case by simp
qed

lemma delivers_unique:
  "delivers add isDone payload a ps m \<Longrightarrow> delivers add isDone payload a (ps @ qs) m' \<Longrightarrow>
     qs = [] \<and> m' = m"
  by (induction ps arbitrary: a) (auto elim: delivers.elims)

subsection \<open>The contract of a codec\<close>

locale framing =
  fixes frag :: "'c \<Rightarrow> bytes \<Rightarrow> bytes list res"
    and start :: "'c \<Rightarrow> 'a"
    and add :: "'a \<Rightarrow> bytes \<Rightarrow> 'a \<times> err option"
    and isDone :: "'a \<Rightarrow> bool"
    and payload :: "'a \<Rightarrow> bytes res"
    and valid :: "'c \<Rightarrow> bool"
  assumes frag_delivers: "valid c \<Longrightarrow> frag c m = Inr ps \<Longrightarrow> delivers add isDone payload (start c) ps m"
    and start_not_done: "valid c \<Longrightarrow> \<not> isDone (start c)"
begin

text \<open>A session that reads the packets of a message gets the message, and leaves what follows
  unread.\<close>

lemma session_receives:
  "valid c \<Longrightarrow> frag c m = Inr ps \<Longrightarrow>
     assemble_loop add isDone payload opRead opAdd (start c) (map Inr ps @ reads) = Some (Inr m, reads)"
  by (rule delivers_assemble [OF frag_delivers])

lemma frag_nonempty: "valid c \<Longrightarrow> frag c m = Inr ps \<Longrightarrow> ps \<noteq> []"
  using frag_delivers start_not_done by (metis delivers.simps(1))

text \<open>Different messages never have the same packets, and the packets of one message are never
  the beginning of another's.\<close>

lemma frag_prefix_free:
  "valid c \<Longrightarrow> frag c m = Inr ps \<Longrightarrow> frag c m' = Inr (ps @ qs) \<Longrightarrow> qs = [] \<and> m' = m"
  by (rule delivers_unique [OF frag_delivers frag_delivers])

lemma frag_inj: "valid c \<Longrightarrow> frag c m = Inr ps \<Longrightarrow> frag c m' = Inr ps \<Longrightarrow> m' = m"
  using frag_prefix_free [of c m ps m' "[]"] by simp

end

end
