(* ===== verification/WireHid.thy ===== *)
theory WireHid
  imports Framing
begin

text \<open>
  CTAPHID framing: \<open>pkg/wire/hid/codec.go\<close>. A message is cut into reports of \<open>reportSize\<close> bytes:
  one initialization packet (channel, command, 16-bit length, data) and continuation packets
  (channel, 7-bit sequence number, data).
\<close>

subsection \<open>Codec and assembler\<close>

text \<open>\<open>Codec\<close>. Its fields are unexported and \<open>NewCodec\<close> is the only constructor used, so the
  report size is the positive number that passed \<open>NewCodec\<close>'s check.\<close>

record hid_codec =
  hc_channel :: u32
  hc_command :: byte
  hc_reportSize :: nat

text \<open>\<open>Assembler\<close>; \<open>total\<close> is \<open>-1\<close> until the first packet.\<close>

record hid_assembler =
  ha_codec :: hid_codec
  ha_started :: bool
  ha_done :: bool
  ha_total :: int
  ha_nextSeq :: byte
  ha_buffer :: bytes

abbreviation wirehid :: "wirehid_error \<Rightarrow> err" where
  "wirehid e \<equiv> WrapError ''wire/hid: %w'' [Sentinel (SWireHid e)]"

definition hid_NewCodec :: "u32 \<Rightarrow> byte \<Rightarrow> int \<Rightarrow> hid_codec res" where
  "hid_NewCodec channel command reportSize =
     (if reportSize \<le> 7 then Inl (wirehid InvalidReportSize)
      else if command AND 0x80 = 0 then Inl (wirehid InvalidCommand)
      else Inr \<lparr>hc_channel = channel, hc_command = command, hc_reportSize = nat reportSize\<rparr>)"

definition hid_valid :: "hid_codec \<Rightarrow> bool" where
  "hid_valid c \<longleftrightarrow> 7 < hc_reportSize c \<and> hc_command c AND 0x80 \<noteq> 0"

subsection \<open>Fragment\<close>

definition hid_maxPayloadSize :: "int \<Rightarrow> int" where
  "hid_maxPayloadSize reportSize = (reportSize - 7) + 128 * (reportSize - 5)"

text \<open>The initialization packet: \<open>make([]byte, reportSize)\<close>, filled at offsets 0, 4, 5 and 7.\<close>

definition hid_initial :: "hid_codec \<Rightarrow> bytes \<Rightarrow> bytes" where
  "hid_initial c payload =
     be32 (hc_channel c) @ [hc_command c] @ be16 (word_of_nat (length payload)) @
     pad_to (hc_reportSize c - 7) (take (min (length payload) (hc_reportSize c - 7)) payload)"

definition hid_continuation :: "hid_codec \<Rightarrow> byte \<Rightarrow> bytes \<Rightarrow> bytes" where
  "hid_continuation c sequence chunk =
     be32 (hc_channel c) @ [sequence] @ pad_to (hc_reportSize c - 5) chunk"

text \<open>The loop over \<open>remaining\<close>. With a report size of at most 5 it would make no progress;
  such a codec does not exist.\<close>

function hid_fragment_loop :: "hid_codec \<Rightarrow> byte \<Rightarrow> bytes \<Rightarrow> bytes list" where
  "hid_fragment_loop c sequence remaining =
     (if remaining = [] \<or> hc_reportSize c \<le> 5 then []
      else let chunkSize = min (length remaining) (hc_reportSize c - 5) in
        hid_continuation c sequence (take chunkSize remaining) #
        hid_fragment_loop c (sequence + 1) (drop chunkSize remaining))"
  by pat_completeness auto
termination
  by (relation "measure (\<lambda>(c, s, r). length r)") auto

declare hid_fragment_loop.simps [simp del]

definition hid_Fragment :: "hid_codec \<Rightarrow> bytes \<Rightarrow> bytes list res" where
  "hid_Fragment c payload =
     (if int (length payload) > hid_maxPayloadSize (int (hc_reportSize c)) \<or> length payload > 65535
      then Inl (wirehid PayloadTooLarge)
      else let firstSize = min (length payload) (hc_reportSize c - 7) in
        Inr (hid_initial c payload # hid_fragment_loop c 0 (drop firstSize payload)))"

subsection \<open>Assembler\<close>

definition hid_NewAssembler :: "hid_codec \<Rightarrow> hid_assembler" where
  "hid_NewAssembler c =
     \<lparr>ha_codec = c, ha_started = False, ha_done = False, ha_total = - 1, ha_nextSeq = 0,
      ha_buffer = []\<rparr>"

text \<open>\<open>Add\<close> returns the updated assembler and the error, nil being \<open>None\<close>.\<close>

definition hid_Add :: "hid_assembler \<Rightarrow> bytes \<Rightarrow> hid_assembler \<times> err option" where
  "hid_Add a packet =
     (if ha_done a then (a, Some (wirehid InvalidPacket))
      else if length packet \<noteq> hc_reportSize (ha_codec a) then (a, Some (wirehid InvalidPacket))
      else if get32 (slice packet 0 4) \<noteq> hc_channel (ha_codec a) then (a, Some (wirehid MismatchedChannel))
      else if \<not> ha_started a then
        (if packet ! 4 \<noteq> hc_command (ha_codec a) then (a, Some (wirehid UnexpectedCommand))
         else
           let total = int (unat (get16 (slice packet 5 7)));
               chunkSize = min (nat total) (length packet - 7);
               buffer = ha_buffer a @ slice packet 7 (7 + chunkSize)
           in (a\<lparr>ha_started := True, ha_total := total, ha_buffer := buffer,
                  ha_done := int (length buffer) \<ge> total\<rparr>, None))
      else if packet ! 4 \<noteq> ha_nextSeq a then (a, Some (wirehid UnexpectedSeq))
      else
        let remaining = ha_total a - int (length (ha_buffer a));
            chunkSize = min (nat remaining) (length packet - 5);
            buffer = ha_buffer a @ slice packet 5 (5 + chunkSize)
        in (a\<lparr>ha_nextSeq := ha_nextSeq a + 1, ha_buffer := buffer,
               ha_done := int (length buffer) \<ge> ha_total a\<rparr>, None))"

definition hid_Done :: "hid_assembler \<Rightarrow> bool" where
  "hid_Done a = ha_done a"

text \<open>\<open>Payload\<close> slices \<open>buffer[:total]\<close>, which panics when \<open>total\<close> is out of range.\<close>

definition hid_Payload :: "hid_assembler \<Rightarrow> bytes res" where
  "hid_Payload a =
     (if \<not> ha_done a then Inl (wirehid IncompletePayload)
      else if ha_total a < 0 \<or> int (length (ha_buffer a)) < ha_total a then Inl GoPanic
      else Inr (take (nat (ha_total a)) (ha_buffer a)))"

lemmas hid_wire_defs [wire_defs] =
  hid_initial_def hid_continuation_def hid_NewAssembler_def hid_Done_def hid_Payload_def
  hid_maxPayloadSize_def hid_valid_def

subsection \<open>Packets\<close>

lemma hid_NewCodec_valid: "hid_NewCodec ch cmd n = Inr c \<Longrightarrow> hid_valid c"
  by (auto simp: hid_NewCodec_def hid_valid_def split: if_splits)

lemma length_hid_initial [simp]: "7 \<le> hc_reportSize c \<Longrightarrow> length (hid_initial c p) = hc_reportSize c"
  by (simp add: hid_initial_def)

lemma length_hid_continuation [simp]:
  "5 \<le> hc_reportSize c \<Longrightarrow> length (hid_continuation c s ch) = hc_reportSize c"
  by (simp add: hid_continuation_def)

lemma hid_fragment_loop_step:
  assumes "remaining \<noteq> []" "5 < hc_reportSize c"
  shows "hid_fragment_loop c s remaining =
    hid_continuation c s (take (hc_reportSize c - 5) remaining) #
    hid_fragment_loop c (s + 1) (drop (hc_reportSize c - 5) remaining)"
  using assms by (subst hid_fragment_loop.simps) (auto simp: Let_def min_def)

lemma hid_fragment_loop_Nil [simp]: "hid_fragment_loop c s [] = []"
  by (subst hid_fragment_loop.simps) simp

text \<open>The loop is the chunking of \<open>remaining\<close>, with consecutive sequence numbers.\<close>

lemma hid_fragment_loop_chunks:
  assumes "5 < hc_reportSize c"
  shows "hid_fragment_loop c s xs =
    map (\<lambda>(i, ch). hid_continuation c (s + word_of_nat i) ch)
      (enumerate 0 (chunks (hc_reportSize c - 5) xs))"
proof (induction "hc_reportSize c - 5" xs arbitrary: s rule: chunks.induct)
  case (1 xs)
  show ?case
  proof (cases "xs = []")
    case False
    let ?n = "hc_reportSize c - 5"
    have IH: "hid_fragment_loop c (s + 1) (drop ?n xs) =
        map (\<lambda>(i, ch). hid_continuation c (s + 1 + word_of_nat i) ch)
          (enumerate 0 (chunks ?n (drop ?n xs)))"
      using 1 False assms by simp
    have shift: "map (\<lambda>(i, ch). hid_continuation c (s + 1 + word_of_nat i) ch) (enumerate 0 cs) =
        map (\<lambda>(i, ch). hid_continuation c (s + word_of_nat i) ch) (enumerate 1 cs)" for cs
      by (simp add: list_eq_iff_nth_eq nth_enumerate_eq algebra_simps)
    from IH shift have "hid_fragment_loop c (s + 1) (drop ?n xs) =
        map (\<lambda>(i, ch). hid_continuation c (s + word_of_nat i) ch) (enumerate 1 (chunks ?n (drop ?n xs)))"
      by simp
    with False assms show ?thesis by (simp add: hid_fragment_loop_step chunks_Cons)
  qed simp
qed

subsection \<open>Assembling what was fragmented\<close>

lemma hid_Add_continuation:
  assumes "5 < hc_reportSize (ha_codec a)" "ha_started a" "\<not> ha_done a" "s = ha_nextSeq a"
    and "length ch \<le> hc_reportSize (ha_codec a) - 5"
    and "int (length ch) \<le> ha_total a - int (length (ha_buffer a))"
    and "int (length ch) = ha_total a - int (length (ha_buffer a)) \<or> length ch = hc_reportSize (ha_codec a) - 5"
  shows "hid_Add a (hid_continuation (ha_codec a) s ch) =
    (a\<lparr>ha_nextSeq := ha_nextSeq a + 1, ha_buffer := ha_buffer a @ ch,
       ha_done := int (length (ha_buffer a @ ch)) \<ge> ha_total a\<rparr>, None)"
proof -
  let ?c = "ha_codec a" and ?p = "hid_continuation (ha_codec a) s ch"
  have "slice ?p 0 4 = be32 (hc_channel ?c)" and "?p ! 4 = s"
    by (simp_all add: hid_continuation_def nth_append)
  moreover have "min (nat (ha_total a - int (length (ha_buffer a)))) (length ?p - 5) = length ch"
    using assms by auto
  moreover have "slice ?p 5 (5 + length ch) = ch"
    using assms by (simp add: hid_continuation_def slice_def take_pad_to)
  ultimately show ?thesis
    using assms by (simp add: hid_Add_def Let_def)
qed

lemma hid_continuations_deliver:
  assumes "5 < hc_reportSize (ha_codec a)" "ha_started a"
    and "ha_done a \<longleftrightarrow> remaining = []" "s = ha_nextSeq a"
    and "ha_total a = int (length (ha_buffer a @ remaining))"
  shows "delivers hid_Add hid_Done hid_Payload a (hid_fragment_loop (ha_codec a) s remaining)
    (ha_buffer a @ remaining)"
  using assms
proof (induction remaining arbitrary: a s rule: length_induct)
  case (1 r)
  show ?case
  proof (cases "r = []")
    case True
    with 1 show ?thesis by (simp add: hid_Done_def hid_Payload_def)
  next
    case False
    let ?n = "hc_reportSize (ha_codec a) - 5"
    let ?a' = "a\<lparr>ha_nextSeq := ha_nextSeq a + 1, ha_buffer := ha_buffer a @ take ?n r,
       ha_done := int (length (ha_buffer a @ take ?n r)) \<ge> ha_total a\<rparr>"
    have add: "hid_Add a (hid_continuation (ha_codec a) s (take ?n r)) = (?a', None)"
      using 1 False by (intro hid_Add_continuation) auto
    have "0 < length r" using False by simp
    then have "length (drop ?n r) < length r" using 1(2) by (simp only: length_drop)
    then have "delivers hid_Add hid_Done hid_Payload ?a'
        (hid_fragment_loop (ha_codec ?a') (s + 1) (drop ?n r)) (ha_buffer ?a' @ drop ?n r)"
      using 1 False by (intro 1(1)[rule_format]) auto
    moreover have "\<not> hid_Done a" using 1 False by (simp add: hid_Done_def)
    ultimately show ?thesis
      using 1(2) False add by (simp add: hid_fragment_loop_step)
  qed
qed

lemma hid_Add_initial:
  assumes "7 < hc_reportSize c" "length p \<le> 65535"
  shows "hid_Add (hid_NewAssembler c) (hid_initial c p) =
    (\<lparr>ha_codec = c, ha_started = True,
      ha_done = (length p \<le> hc_reportSize c - 7), ha_total = int (length p), ha_nextSeq = 0,
      ha_buffer = take (hc_reportSize c - 7) p\<rparr>, None)"
proof -
  let ?i = "hid_initial c p"
  have "slice ?i 0 4 = be32 (hc_channel c)" and "?i ! 4 = hc_command c"
    by (simp_all add: hid_initial_def nth_append)
  moreover have "slice ?i 5 7 = be16 (word_of_nat (length p))"
    by (simp add: hid_initial_def slice_def)
  moreover have "slice ?i 7 (7 + min (length p) (hc_reportSize c - 7)) = take (hc_reportSize c - 7) p"
    by (auto simp: hid_initial_def slice_def pad_to_def min_def)
  ultimately show ?thesis
    using assms by (auto simp: hid_Add_def hid_NewAssembler_def Let_def)
qed

lemma hid_Fragment_delivers:
  assumes "hid_valid c" "hid_Fragment c p = Inr ps"
  shows "delivers hid_Add hid_Done hid_Payload (hid_NewAssembler c) ps p"
proof -
  from assms have sz: "7 < hc_reportSize c" and len: "length p \<le> 65535"
    and ps: "ps = hid_initial c p # hid_fragment_loop c 0 (drop (hc_reportSize c - 7) p)"
    by (auto simp: hid_valid_def hid_Fragment_def Let_def min_def split: if_splits)
  let ?a = "fst (hid_Add (hid_NewAssembler c) (hid_initial c p))"
  have "delivers hid_Add hid_Done hid_Payload ?a
      (hid_fragment_loop (ha_codec ?a) 0 (drop (hc_reportSize c - 7) p))
      (ha_buffer ?a @ drop (hc_reportSize c - 7) p)"
    using sz len by (intro hid_continuations_deliver) (simp_all add: hid_Add_initial)
  with sz len ps show ?thesis
    by (simp add: hid_Add_initial) (simp add: hid_NewAssembler_def hid_Done_def)
qed

interpretation hid_framing: framing hid_Fragment hid_NewAssembler hid_Add hid_Done hid_Payload hid_valid
  by unfold_locales (simp_all only: hid_Fragment_delivers, simp add: hid_NewAssembler_def hid_Done_def)


subsection \<open>Shape of the reports\<close>

lemma hid_Fragment_Inr:
  assumes "hid_Fragment c m = Inr ps" "7 < hc_reportSize c"
  shows "ps = hid_initial c m # map (\<lambda>(i, ch). hid_continuation c (word_of_nat i) ch)
      (enumerate 0 (chunks (hc_reportSize c - 5) (drop (hc_reportSize c - 7) m)))"
    and "length (chunks (hc_reportSize c - 5) (drop (hc_reportSize c - 7) m)) \<le> 128"
proof -
  have "length (drop (hc_reportSize c - 7) m) \<le> 128 * (hc_reportSize c - 5)"
    using assms by (auto simp: hid_Fragment_def hid_maxPayloadSize_def Let_def split: if_splits)
  then show "length (chunks (hc_reportSize c - 5) (drop (hc_reportSize c - 7) m)) \<le> 128"
    using assms(2) by (intro length_chunks) simp_all
  show "ps = hid_initial c m # map (\<lambda>(i, ch). hid_continuation c (word_of_nat i) ch)
      (enumerate 0 (chunks (hc_reportSize c - 5) (drop (hc_reportSize c - 7) m)))"
    using assms by (auto simp: hid_Fragment_def hid_fragment_loop_chunks Let_def min_def split: if_splits)
qed

subsection \<open>Invariant of the assembler\<close>

text \<open>What \<open>Add\<close> keeps: nothing is buffered before the first packet, the declared length is a
  16-bit value, the buffer never exceeds it, and \<open>done\<close> says that they are equal.\<close>

definition hid_asm_inv :: "hid_assembler \<Rightarrow> bool" where
  "hid_asm_inv a \<longleftrightarrow>
     7 < hc_reportSize (ha_codec a) \<and>
     (if ha_started a
      then 0 \<le> ha_total a \<and> ha_total a \<le> 65535 \<and> int (length (ha_buffer a)) \<le> ha_total a \<and>
           (ha_done a \<longleftrightarrow> int (length (ha_buffer a)) = ha_total a)
      else \<not> ha_done a \<and> ha_buffer a = [])"

lemma hid_asm_inv_start: "hid_valid c \<Longrightarrow> hid_asm_inv (hid_NewAssembler c)"
  by (simp add: hid_asm_inv_def hid_NewAssembler_def hid_valid_def)

lemma hid_Add_inv:
  assumes "hid_asm_inv a"
  shows "hid_asm_inv (fst (hid_Add a p))"
proof -
  have first: "int (min (unat x) k) \<le> uint x" for x :: u16 and k
    by (simp add: uint_nat del: of_nat_unat)
  have u: "uint (get16 (slice p 5 7)) \<le> 65535"
    using unat_u16_less [of "get16 (slice p 5 7)"] unfolding uint_nat by linarith
  show ?thesis
    using assms first u
    by (auto simp: hid_Add_def hid_asm_inv_def Let_def slice_def intro: order_antisym split: if_splits)
qed

definition hid_add_all :: "hid_assembler \<Rightarrow> bytes list \<Rightarrow> hid_assembler" where
  "hid_add_all a ps = foldl (\<lambda>a p. fst (hid_Add a p)) a ps"

lemma hid_add_all_inv: "hid_asm_inv a \<Longrightarrow> hid_asm_inv (hid_add_all a ps)"
  by (induction ps arbitrary: a) (simp_all add: hid_add_all_def hid_Add_inv)

lemma hid_Payload_safe: "hid_asm_inv a \<Longrightarrow> hid_Payload a \<noteq> Inl GoPanic"
  by (auto simp: hid_asm_inv_def hid_Payload_def split: if_splits)

subsection \<open>Properties\<close>

text \<open>C12. Round trip of CTAPHID framing: for every codec that \<open>NewCodec\<close> accepts and every message
  that \<open>Fragment\<close> accepts, a session that reads the resulting reports assembles exactly the
  message, stops after its last report and leaves the following reports unread.\<close>

theorem hid_roundtrip:
  assumes "hid_NewCodec channel command reportSize = Inr c" and "hid_Fragment c m = Inr ps"
  shows "assemble_loop hid_Add hid_Done hid_Payload opRead opAdd (hid_NewAssembler c) (map Inr ps @ reads)
    = Some (Inr m, reads)"
  using hid_NewCodec_valid [OF assms(1)] assms(2) by (rule hid_framing.session_receives)

theorem hid_roundtrip_witness:
  "\<exists>c ps. hid_NewCodec 5 0x90 8 = Inr c \<and> hid_Fragment c [1, 2, 3, 4, 5] = Inr ps \<and> length ps = 3 \<and>
     assemble_loop hid_Add hid_Done hid_Payload ''r'' ''a'' (hid_NewAssembler c) (map Inr ps @ [Inr [9]])
     = Some (Inr [1, 2, 3, 4, 5], [Inr [9]])"
proof -
  let ?c = "\<lparr>hc_channel = 5, hc_command = 0x90, hc_reportSize = 8\<rparr>"
  have c: "hid_NewCodec 5 0x90 8 = Inr ?c" by (simp add: hid_NewCodec_def)
  obtain ps where ps: "hid_Fragment ?c [1, 2, 3, 4, 5] = Inr ps" and "length ps = 3"
    by (simp add: hid_Fragment_def hid_maxPayloadSize_def Let_def hid_fragment_loop.simps)
  then show ?thesis using c hid_roundtrip [OF c ps] by blast
qed

text \<open>Shape of the reports: \<open>Fragment\<close> fails exactly when the message exceeds the channel's
  capacity or the 16-bit length field; otherwise it makes at most 129 reports, all of the report
  size and of the codec's channel, the first one with the command byte and the length, and the
  continuation \<open>i\<close> (from 1) with sequence number \<open>i - 1 < 128\<close>, so that the sequence counter
  never wraps and no continuation looks like an initialization packet.\<close>

theorem hid_Fragment_shape:
  assumes "hid_NewCodec channel command reportSize = Inr c"
  shows "(hid_Fragment c m = Inl (wirehid PayloadTooLarge) \<longleftrightarrow>
      65535 < length m \<or> (reportSize - 7) + 128 * (reportSize - 5) < int (length m)) \<and>
    (\<forall>e. hid_Fragment c m = Inl e \<longrightarrow> e = wirehid PayloadTooLarge) \<and>
    (\<forall>ps. hid_Fragment c m = Inr ps \<longrightarrow>
      length ps \<le> 129 \<and>
      (\<forall>p \<in> set ps. length p = nat reportSize \<and> take 4 p = be32 channel) \<and>
      slice (hd ps) 4 7 = command # be16 (word_of_nat (length m)) \<and>
      (\<forall>i. 0 < i \<and> i < length ps \<longrightarrow> unat (ps ! i ! 4) = i - 1 \<and> ps ! i ! 4 AND 0x80 = 0))"
proof -
  from assms have c: "c = \<lparr>hc_channel = channel, hc_command = command, hc_reportSize = nat reportSize\<rparr>"
    and sz: "7 < reportSize" by (auto simp: hid_NewCodec_def split: if_splits)
  have seq: "(word_of_nat i :: byte) AND 0x80 = 0" if "i < 128" for i
    using that by (intro high_bit_clear) simp
  let ?cs = "chunks (hc_reportSize c - 5) (drop (hc_reportSize c - 7) m)"
  have shape: "length ps \<le> 129 \<and>
      (\<forall>p \<in> set ps. length p = nat reportSize \<and> take 4 p = be32 channel) \<and>
      slice (hd ps) 4 7 = command # be16 (word_of_nat (length m)) \<and>
      (\<forall>i. 0 < i \<and> i < length ps \<longrightarrow> unat (ps ! i ! 4) = i - 1 \<and> ps ! i ! 4 AND 0x80 = 0)"
    if F: "hid_Fragment c m = Inr ps" for ps
  proof -
    have ps: "ps = hid_initial c m # map (\<lambda>(i, ch). hid_continuation c (word_of_nat i) ch) (enumerate 0 ?cs)"
      and n: "length ?cs \<le> 128"
      using hid_Fragment_Inr [OF F] sz c by simp_all
    have nth: "unat (ps ! i ! 4) = i - 1 \<and> ps ! i ! 4 AND 0x80 = 0" if i: "0 < i" "i < length ps" for i
    proof -
      obtain j where j: "i = Suc j" using i by (cases i) auto
      then have "j < 128" and "ps ! i ! 4 = word_of_nat j"
        using i n by (simp_all add: ps nth_enumerate_eq hid_continuation_def nth_append)
      then show ?thesis using j seq by simp
    qed
    have "\<forall>p \<in> set ps. length p = nat reportSize \<and> take 4 p = be32 channel"
      using sz by (auto simp: ps c hid_initial_def hid_continuation_def)
    moreover have "slice (hd ps) 4 7 = command # be16 (word_of_nat (length m))"
      by (simp add: ps c hid_initial_def slice_def)
    moreover have "length ps \<le> 129" using n by (simp add: ps)
    ultimately show ?thesis using nth by blast
  qed
  have fail: "hid_Fragment c m = (if 65535 < length m \<or> (reportSize - 7) + 128 * (reportSize - 5) < int (length m)
      then Inl (wirehid PayloadTooLarge) else Inr (the (case hid_Fragment c m of Inl _ \<Rightarrow> None | Inr ps \<Rightarrow> Some ps)))"
    using sz by (simp add: c hid_Fragment_def hid_maxPayloadSize_def Let_def)
  have "hid_Fragment c m = Inl (wirehid PayloadTooLarge) \<longleftrightarrow>
      65535 < length m \<or> (reportSize - 7) + 128 * (reportSize - 5) < int (length m)"
    and "\<forall>e. hid_Fragment c m = Inl e \<longrightarrow> e = wirehid PayloadTooLarge"
    by (subst fail, simp)+
  with shape show ?thesis by blast
qed

theorem hid_Fragment_shape_witness:
  "\<exists>c ps. hid_NewCodec 5 0x90 8 = Inr c \<and> hid_Fragment c [1, 2, 3, 4, 5] = Inr ps \<and>
     length ps \<le> 129 \<and> unat (ps ! 2 ! 4) = 1"
proof -
  let ?c = "\<lparr>hc_channel = 5, hc_command = 0x90, hc_reportSize = 8\<rparr>"
  have c: "hid_NewCodec 5 0x90 8 = Inr ?c" by (simp add: hid_NewCodec_def)
  obtain ps where ps: "hid_Fragment ?c [1, 2, 3, 4, 5] = Inr ps" and "length ps = 3"
    by (simp add: hid_Fragment_def hid_maxPayloadSize_def Let_def hid_fragment_loop.simps)
  with hid_Fragment_shape [OF c, of "[1, 2, 3, 4, 5]"]
  have "length ps \<le> 129" and "\<forall>i. 0 < i \<and> i < 3 \<longrightarrow> unat (ps ! i ! 4) = i - 1" by simp_all
  then have "length ps \<le> 129 \<and> unat (ps ! 2 ! 4) = 1" by (auto dest: spec [of _ 2])
  with c ps show ?thesis by blast
qed



text \<open>Rejection: \<open>Add\<close> accepts a packet exactly when the message is incomplete and the packet has
  the report size, the codec's channel, and the command byte (first packet) or the expected sequence
  number (continuation); a rejected packet leaves the assembler unchanged, and an accepted one only
  appends to the buffer.\<close>

theorem hid_Add_accepts:
  "(snd (hid_Add a p) = None \<longleftrightarrow>
      \<not> hid_Done a \<and> length p = hc_reportSize (ha_codec a) \<and>
      get32 (take 4 p) = hc_channel (ha_codec a) \<and>
      p ! 4 = (if ha_started a then ha_nextSeq a else hc_command (ha_codec a))) \<and>
   (snd (hid_Add a p) \<noteq> None \<longrightarrow> fst (hid_Add a p) = a) \<and>
   (\<exists>d. ha_buffer (fst (hid_Add a p)) = ha_buffer a @ d)"
  by (auto simp: hid_Add_def hid_Done_def Let_def split: if_splits)

theorem hid_Add_accepts_witness:
  "let a = hid_NewAssembler \<lparr>hc_channel = 5, hc_command = 0x90, hc_reportSize = 8\<rparr> in
     hid_Add a [0, 0, 0, 6, 0x90, 0, 1, 7] = (a, Some (wirehid MismatchedChannel))"
proof -
  let ?a = "hid_NewAssembler \<lparr>hc_channel = 5, hc_command = 0x90, hc_reportSize = 8\<rparr>"
  have "snd (hid_Add ?a [0, 0, 0, 6, 0x90, 0, 1, 7]) = Some (wirehid MismatchedChannel)"
    by (simp add: hid_Add_def hid_NewAssembler_def get32_def)
  then show ?thesis
    using hid_Add_accepts [of ?a "[0, 0, 0, 6, 0x90, 0, 1, 7]"] by (auto simp: Let_def prod_eq_iff)
qed

end
