(* ===== verification/WireBle.thy ===== *)
theory WireBle
  imports Framing
begin

text \<open>
  BLE framing: \<open>pkg/wire/ble/codec.go\<close>. A message is cut into fragments of at most \<open>mtu\<close> bytes; the
  first one starts with the 16-bit message length. Ordering is left to the transport, so the
  fragments carry no sequence numbers.
\<close>

subsection \<open>Codec and assembler\<close>

text \<open>\<open>Codec\<close>; \<open>NewCodec\<close> is its only constructor, so \<open>mtu\<close> is a number above 2.\<close>

record ble_codec =
  bc_mtu :: nat

record ble_assembler =
  ba_codec :: ble_codec
  ba_started :: bool
  ba_done :: bool
  ba_total :: int
  ba_buffer :: bytes

abbreviation wireble :: "wireble_error \<Rightarrow> err" where
  "wireble e \<equiv> WrapError ''wire/ble: %w'' [Sentinel (SWireBle e)]"

definition ble_NewCodec :: "int \<Rightarrow> ble_codec res" where
  "ble_NewCodec mtu = (if mtu \<le> 2 then Inl (wireble InvalidMTU) else Inr \<lparr>bc_mtu = nat mtu\<rparr>)"

definition ble_valid :: "ble_codec \<Rightarrow> bool" where
  "ble_valid c \<longleftrightarrow> 2 < bc_mtu c"

text \<open>The loop over \<open>remaining\<close>; with an MTU of 0 it would make no progress.\<close>

function ble_fragment_loop :: "ble_codec \<Rightarrow> bytes \<Rightarrow> bytes list" where
  "ble_fragment_loop c remaining =
     (if remaining = [] \<or> bc_mtu c = 0 then []
      else let chunkSize = min (length remaining) (bc_mtu c) in
        take chunkSize remaining # ble_fragment_loop c (drop chunkSize remaining))"
  by pat_completeness auto
termination
  by (relation "measure (\<lambda>(c, r). length r)") auto

declare ble_fragment_loop.simps [simp del]

definition ble_Fragment :: "ble_codec \<Rightarrow> bytes \<Rightarrow> bytes list res" where
  "ble_Fragment c payload =
     (if length payload > 65535 then Inl (wireble BlePayloadTooLarge)
      else
        let firstSize = min (length payload) (bc_mtu c - 2);
            first = be16 (word_of_nat (length payload)) @ take firstSize payload
        in Inr (first # ble_fragment_loop c (drop firstSize payload)))"

definition ble_NewAssembler :: "ble_codec \<Rightarrow> ble_assembler" where
  "ble_NewAssembler c =
     \<lparr>ba_codec = c, ba_started = False, ba_done = False, ba_total = - 1, ba_buffer = []\<rparr>"

definition ble_Add :: "ble_assembler \<Rightarrow> bytes \<Rightarrow> ble_assembler \<times> err option" where
  "ble_Add a fragment =
     (if ba_done a then (a, Some (wireble InvalidFragment))
      else if length fragment > bc_mtu (ba_codec a) then (a, Some (wireble InvalidFragment))
      else if \<not> ba_started a then
        (if length fragment < 2 then (a, Some (wireble InvalidFragment))
         else
           let total = int (unat (get16 (slice fragment 0 2)));
               chunkSize = min (nat total) (length fragment - 2);
               buffer = ba_buffer a @ slice fragment 2 (2 + chunkSize)
           in (a\<lparr>ba_started := True, ba_total := total, ba_buffer := buffer,
                  ba_done := int (length buffer) \<ge> total\<rparr>, None))
      else
        let remaining = ba_total a - int (length (ba_buffer a));
            chunkSize = min (nat remaining) (length fragment);
            buffer = ba_buffer a @ slice fragment 0 chunkSize
        in (a\<lparr>ba_buffer := buffer, ba_done := int (length buffer) \<ge> ba_total a\<rparr>, None))"

definition ble_Done :: "ble_assembler \<Rightarrow> bool" where
  "ble_Done a = ba_done a"

text \<open>\<open>Payload\<close> slices \<open>buffer[:total]\<close>, which panics when \<open>total\<close> is out of range.\<close>

definition ble_Payload :: "ble_assembler \<Rightarrow> bytes res" where
  "ble_Payload a =
     (if \<not> ba_done a then Inl (wireble IncompleteValue)
      else if ba_total a < 0 \<or> int (length (ba_buffer a)) < ba_total a then Inl GoPanic
      else Inr (take (nat (ba_total a)) (ba_buffer a)))"

subsection \<open>Assembling what was fragmented\<close>

lemma ble_NewCodec_valid: "ble_NewCodec mtu = Inr c \<Longrightarrow> ble_valid c"
  by (auto simp: ble_NewCodec_def ble_valid_def split: if_splits)

lemma ble_fragment_loop_chunks: "ble_fragment_loop c xs = chunks (bc_mtu c) xs"
proof (induction c xs rule: ble_fragment_loop.induct)
  case (1 c xs)
  then show ?case
    by (subst ble_fragment_loop.simps, subst chunks.simps) (auto simp: Let_def min_def)
qed

lemma ble_continuations_deliver:
  assumes "0 < bc_mtu (ba_codec a)" "ba_started a" "ba_done a \<longleftrightarrow> remaining = []"
    and "ba_total a = int (length (ba_buffer a @ remaining))"
  shows "delivers ble_Add ble_Done ble_Payload a (chunks (bc_mtu (ba_codec a)) remaining)
    (ba_buffer a @ remaining)"
  using assms
proof (induction remaining arbitrary: a rule: length_induct)
  case (1 r)
  show ?case
  proof (cases "r = []")
    case True
    with 1 show ?thesis by (simp add: ble_Done_def ble_Payload_def)
  next
    case False
    let ?n = "bc_mtu (ba_codec a)"
    let ?a' = "a\<lparr>ba_buffer := ba_buffer a @ take ?n r,
       ba_done := int (length (ba_buffer a @ take ?n r)) \<ge> ba_total a\<rparr>"
    have add: "ble_Add a (take ?n r) = (?a', None)"
      using 1(2-) False by (simp add: ble_Add_def Let_def)
    have "length (drop ?n r) < length r" using False 1(2) by simp
    then have "delivers ble_Add ble_Done ble_Payload ?a'
        (chunks (bc_mtu (ba_codec ?a')) (drop ?n r)) (ba_buffer ?a' @ drop ?n r)"
      using 1 False by (intro 1(1)[rule_format]) auto
    moreover have "\<not> ble_Done a" using 1 False by (simp add: ble_Done_def)
    ultimately show ?thesis
      using 1(2) False add by (simp add: chunks_Cons)
  qed
qed

lemma ble_Add_initial:
  assumes "2 < bc_mtu c" "length p \<le> 65535"
  shows "ble_Add (ble_NewAssembler c) (be16 (word_of_nat (length p)) @ take (bc_mtu c - 2) p) =
    (\<lparr>ba_codec = c, ba_started = True, ba_done = (length p \<le> bc_mtu c - 2),
      ba_total = int (length p), ba_buffer = take (bc_mtu c - 2) p\<rparr>, None)"
  using assms by (auto simp: ble_Add_def ble_NewAssembler_def Let_def slice_def)

lemma ble_Fragment_Inr:
  assumes "ble_Fragment c p = Inr ps"
  shows "length p \<le> 65535"
    and "ps = (be16 (word_of_nat (length p)) @ take (bc_mtu c - 2) p) # chunks (bc_mtu c) (drop (bc_mtu c - 2) p)"
  using assms by (auto simp: ble_Fragment_def ble_fragment_loop_chunks Let_def min_def split: if_splits)

lemma ble_Fragment_delivers:
  assumes "ble_valid c" "ble_Fragment c p = Inr ps"
  shows "delivers ble_Add ble_Done ble_Payload (ble_NewAssembler c) ps p"
proof -
  have sz: "2 < bc_mtu c" using assms by (simp add: ble_valid_def)
  note len = ble_Fragment_Inr(1) [OF assms(2)] and ps = ble_Fragment_Inr(2) [OF assms(2)]
  let ?a = "fst (ble_Add (ble_NewAssembler c) (be16 (word_of_nat (length p)) @ take (bc_mtu c - 2) p))"
  have "delivers ble_Add ble_Done ble_Payload ?a
      (chunks (bc_mtu (ba_codec ?a)) (drop (bc_mtu c - 2) p)) (ba_buffer ?a @ drop (bc_mtu c - 2) p)"
    using sz len by (intro ble_continuations_deliver) (simp_all add: ble_Add_initial)
  with sz len ps show ?thesis
    by (simp add: ble_Add_initial) (simp add: ble_NewAssembler_def ble_Done_def)
qed

interpretation ble_framing: framing ble_Fragment ble_NewAssembler ble_Add ble_Done ble_Payload ble_valid
  by unfold_locales (simp_all only: ble_Fragment_delivers, simp add: ble_NewAssembler_def ble_Done_def)

subsection \<open>Invariant of the assembler\<close>

definition ble_asm_inv :: "ble_assembler \<Rightarrow> bool" where
  "ble_asm_inv a \<longleftrightarrow>
     (if ba_started a
      then 0 \<le> ba_total a \<and> ba_total a \<le> 65535 \<and> int (length (ba_buffer a)) \<le> ba_total a \<and>
           (ba_done a \<longleftrightarrow> int (length (ba_buffer a)) = ba_total a)
      else \<not> ba_done a \<and> ba_buffer a = [])"

lemma ble_asm_inv_start: "ble_asm_inv (ble_NewAssembler c)"
  by (simp add: ble_asm_inv_def ble_NewAssembler_def)

lemma ble_Add_inv:
  assumes "ble_asm_inv a"
  shows "ble_asm_inv (fst (ble_Add a p))"
proof -
  have first: "int (min (unat x) k) \<le> uint x" for x :: u16 and k
    by (simp add: uint_nat del: of_nat_unat)
  have u: "uint (get16 (slice p 0 2)) \<le> 65535"
    using unat_u16_less [of "get16 (slice p 0 2)"] unfolding uint_nat by linarith
  show ?thesis
    using assms first u
    by (auto simp: ble_Add_def ble_asm_inv_def Let_def slice_def intro: order_antisym split: if_splits)
qed

definition ble_add_all :: "ble_assembler \<Rightarrow> bytes list \<Rightarrow> ble_assembler" where
  "ble_add_all a ps = foldl (\<lambda>a p. fst (ble_Add a p)) a ps"

lemma ble_add_all_inv: "ble_asm_inv a \<Longrightarrow> ble_asm_inv (ble_add_all a ps)"
  by (induction ps arbitrary: a) (simp_all add: ble_add_all_def ble_Add_inv)

subsection \<open>Properties\<close>

text \<open>Round trip of BLE framing: for every codec that \<open>NewCodec\<close> accepts and every message of at
  most 65535 bytes \<open>Fragment\<close> succeeds with fragments of at most \<open>mtu\<close> bytes, and a session that
  reads them assembles exactly the message and leaves the following fragments unread; a longer message
  is refused.\<close>

theorem ble_roundtrip:
  assumes "ble_NewCodec mtu = Inr c"
  shows "if length m \<le> 65535
    then \<exists>ps. ble_Fragment c m = Inr ps \<and> (\<forall>p \<in> set ps. 0 < length p \<and> int (length p) \<le> mtu) \<and>
      assemble_loop ble_Add ble_Done ble_Payload opRead opAdd (ble_NewAssembler c) (map Inr ps @ reads)
        = Some (Inr m, reads)
    else ble_Fragment c m = Inl (wireble BlePayloadTooLarge)"
proof (cases "length m \<le> 65535")
  case True
  from assms have c: "c = \<lparr>bc_mtu = nat mtu\<rparr>" and sz: "2 < mtu"
    by (auto simp: ble_NewCodec_def split: if_splits)
  obtain ps where F: "ble_Fragment c m = Inr ps"
    using True by (auto simp: ble_Fragment_def Let_def)
  have chunk: "0 < length p \<and> int (length p) \<le> mtu" if "p \<in> set (chunks (nat mtu) xs)" for p xs
    using chunks_bounds [OF _ that] sz by auto
  have "\<forall>p \<in> set ps. 0 < length p \<and> int (length p) \<le> mtu"
    using ble_Fragment_Inr(2) [OF F] sz chunk by (auto simp: c be16_def)
  with True F ble_framing.session_receives [OF ble_NewCodec_valid [OF assms] F] show ?thesis by simp
qed (simp add: ble_Fragment_def)

theorem ble_roundtrip_witness:
  "\<exists>c ps. ble_NewCodec 3 = Inr c \<and> ble_Fragment c [1, 2, 3, 4, 5] = Inr ps \<and>
     assemble_loop ble_Add ble_Done ble_Payload ''r'' ''a'' (ble_NewAssembler c) (map Inr ps @ [Inr [9]])
     = Some (Inr [1, 2, 3, 4, 5], [Inr [9]])"
proof -
  obtain c where c: "ble_NewCodec 3 = Inr c" by (simp add: ble_NewCodec_def)
  with ble_roundtrip [OF c, of "[1, 2, 3, 4, 5]" "''r''" "''a''" "[Inr [9]]"] show ?thesis by auto
qed

text \<open>The BLE assembler is safe on arbitrary input: whatever fragments are added, the buffer never
  exceeds the declared 16-bit length, \<open>Payload\<close> never panics, and once the assembler is done it
  returns a message of exactly the declared length and accepts nothing more.\<close>

theorem ble_assembler_safe:
  "let a = ble_add_all (ble_NewAssembler c) ps in
    length (ba_buffer a) \<le> 65535 \<and> ble_Payload a \<noteq> Inl GoPanic \<and>
    (ble_Done a \<longrightarrow> (\<exists>m. ble_Payload a = Inr m \<and> int (length m) = ba_total a) \<and>
       (\<forall>p. ble_Add a p = (a, Some (wireble InvalidFragment))))"
proof -
  have "ble_asm_inv (ble_add_all (ble_NewAssembler c) ps)"
    by (intro ble_add_all_inv ble_asm_inv_start)
  then show ?thesis
    by (auto simp: Let_def ble_asm_inv_def ble_Done_def ble_Payload_def ble_Add_def split: if_splits)
qed

theorem ble_assembler_safe_witness:
  "let a = ble_add_all (ble_NewAssembler \<lparr>bc_mtu = 4\<rparr>) [[0, 3, 1, 2], [], [3, 4]] in
     ble_Done a \<and> (\<forall>p. ble_Add a p = (a, Some (wireble InvalidFragment)))"
proof -
  let ?a = "ble_add_all (ble_NewAssembler \<lparr>bc_mtu = 4\<rparr>) [[0, 3, 1, 2], [], [3, 4]]"
  have "ble_Done ?a"
    by (simp add: ble_add_all_def ble_NewAssembler_def ble_Add_def ble_Done_def get16_def slice_def)
  then show ?thesis
    using ble_assembler_safe [of "\<lparr>bc_mtu = 4\<rparr>" "[[0, 3, 1, 2], [], [3, 4]]"] by (simp add: Let_def)
qed

end
