(* ===== verification/WireNfc.thy ===== *)
theory WireNfc
  imports GoErrors
begin

text \<open>
  APDU framing over NFC: \<open>pkg/wire/nfc/apdu.go\<close>. A command body is cut into chained short APDUs
  (chain bit \<open>0x10\<close> of the class byte), and a response body is collected over GET RESPONSE rounds.
  \<open>nfc_card_receive\<close> and \<open>nfc_card_respond\<close> are the reference definitions of the other side: how a
  card puts a chained command together and how it hands out a response in blocks.
\<close>

subsection \<open>Codec\<close>

text \<open>\<open>Codec\<close>; \<open>NewCodec\<close> bounds the chunk size by 1 and 255.\<close>

record nfc_codec =
  nc_class :: byte
  nc_instruction :: byte
  nc_parameter1 :: byte
  nc_parameter2 :: byte
  nc_maxChunkSize :: nat

record nfc_assembler =
  na_done :: bool
  na_buffer :: bytes
  na_moreDataHint :: byte

abbreviation wirenfc :: "wirenfc_error \<Rightarrow> err" where
  "wirenfc e \<equiv> WrapError ''wire/nfc: %w'' [Sentinel (SWireNfc e)]"

definition getResponseInstruction :: byte where
  "getResponseInstruction = 0xC0"

definition nfc_NewCodec :: "byte \<Rightarrow> byte \<Rightarrow> byte \<Rightarrow> byte \<Rightarrow> int \<Rightarrow> nfc_codec res" where
  "nfc_NewCodec cls ins p1 p2 maxChunkSize =
     (if maxChunkSize \<le> 0 \<or> maxChunkSize > 255 then Inl (wirenfc InvalidChunkSize)
      else Inr \<lparr>nc_class = cls, nc_instruction = ins, nc_parameter1 = p1, nc_parameter2 = p2,
                nc_maxChunkSize = nat maxChunkSize\<rparr>)"

function nfc_fragment_loop :: "nfc_codec \<Rightarrow> bytes \<Rightarrow> bytes list" where
  "nfc_fragment_loop c remaining =
     (if remaining = [] \<or> nc_maxChunkSize c = 0 then []
      else
        let chunkSize = min (length remaining) (nc_maxChunkSize c);
            cla = (if chunkSize \<noteq> length remaining then nc_class c OR 0x10 else nc_class c);
            packet = [cla, nc_instruction c, nc_parameter1 c, nc_parameter2 c, word_of_nat chunkSize]
                       @ take chunkSize remaining
        in packet # nfc_fragment_loop c (drop chunkSize remaining))"
  by pat_completeness auto
termination
  by (relation "measure (\<lambda>(c, r). length r)") auto

declare nfc_fragment_loop.simps [simp del]

text \<open>\<open>Fragment\<close> never fails; its error result is always nil.\<close>

definition nfc_Fragment :: "nfc_codec \<Rightarrow> bytes \<Rightarrow> bytes list res" where
  "nfc_Fragment c payload =
     (if payload = [] then
        Inr [[nc_class c, nc_instruction c, nc_parameter1 c, nc_parameter2 c, 0]]
      else Inr (nfc_fragment_loop c payload))"

definition nfc_NewAssembler :: "nfc_codec \<Rightarrow> nfc_assembler" where
  "nfc_NewAssembler c = \<lparr>na_done = False, na_buffer = [], na_moreDataHint = 0\<rparr>"

definition nfc_ValidateInterimResponse :: "nfc_codec \<Rightarrow> bytes \<Rightarrow> err option" where
  "nfc_ValidateInterimResponse c response =
     (if length response \<noteq> 2 then Some (wirenfc InvalidResponse)
      else if response ! 0 \<noteq> 0x90 \<or> response ! 1 \<noteq> 0 then
        Some (StatusError (response ! 0) (response ! 1))
      else None)"

definition nfc_GetResponsePacket :: "nfc_codec \<Rightarrow> byte \<Rightarrow> bytes" where
  "nfc_GetResponsePacket c expectedLength =
     [nc_class c, getResponseInstruction, 0, 0, expectedLength]"

text \<open>\<open>Add\<close> appends the body before it looks at the status word, also when the status is an
  error.\<close>

definition nfc_Add :: "nfc_assembler \<Rightarrow> bytes \<Rightarrow> nfc_assembler \<times> err option" where
  "nfc_Add a response =
     (if length response < 2 then (a, Some (wirenfc InvalidResponse))
      else
        let status1 = response ! (length response - 2);
            status2 = response ! (length response - 1);
            a' = a\<lparr>na_buffer := na_buffer a @ take (length response - 2) response\<rparr>
        in if status1 = 0x90 \<and> status2 = 0 then (a'\<lparr>na_done := True, na_moreDataHint := 0\<rparr>, None)
           else if status1 = 0x61 then (a'\<lparr>na_done := False, na_moreDataHint := status2\<rparr>, None)
           else (a', Some (StatusError status1 status2)))"

definition nfc_Done :: "nfc_assembler \<Rightarrow> bool" where
  "nfc_Done a = na_done a"

definition nfc_MoreDataHint :: "nfc_assembler \<Rightarrow> byte" where
  "nfc_MoreDataHint a = na_moreDataHint a"

definition nfc_Payload :: "nfc_assembler \<Rightarrow> bytes res" where
  "nfc_Payload a = (if \<not> na_done a then Inl (wirenfc IncompleteAPDU) else Inr (na_buffer a))"

subsection \<open>Reference: command chaining on the card\<close>

text \<open>A card concatenates the data fields of the APDUs of one chain. A short APDU with data is
  \<open>CLA INS P1 P2 Lc data\<close>; one of five bytes has no data field (the fifth byte is Le). The chain
  ends with the first APDU whose class byte has no chain bit; the result is the collected body
  and the rest of the APDUs, or nothing when an APDU is malformed or the chain does not end.\<close>

fun nfc_card_receive :: "byte \<Rightarrow> byte \<Rightarrow> byte \<Rightarrow> bytes list \<Rightarrow> (bytes \<times> bytes list) option" where
  "nfc_card_receive ins p1 p2 [] = None"
| "nfc_card_receive ins p1 p2 (p # ps) =
     (if length p < 5 \<or> p ! 1 \<noteq> ins \<or> p ! 2 \<noteq> p1 \<or> p ! 3 \<noteq> p2 then None
      else if 5 < length p \<and> unat (p ! 4) \<noteq> length p - 5 then None
      else if (p ! 0) AND 0x10 = 0 then Some (drop 5 p, ps)
      else map_option (\<lambda>(body, rest). (drop 5 p @ body, rest)) (nfc_card_receive ins p1 p2 ps))"

lemma nfc_fragment_loop_last:
  "remaining \<noteq> [] \<Longrightarrow> length remaining \<le> nc_maxChunkSize c \<Longrightarrow>
     nfc_fragment_loop c remaining =
     [[nc_class c, nc_instruction c, nc_parameter1 c, nc_parameter2 c, word_of_nat (length remaining)] @ remaining]"
  by (subst nfc_fragment_loop.simps) (cases remaining, auto simp: Let_def nfc_fragment_loop.simps [of c "[]"])

lemma nfc_fragment_loop_chain:
  "nc_maxChunkSize c < length remaining \<Longrightarrow> 0 < nc_maxChunkSize c \<Longrightarrow>
     nfc_fragment_loop c remaining =
     ([nc_class c OR 0x10, nc_instruction c, nc_parameter1 c, nc_parameter2 c, word_of_nat (nc_maxChunkSize c)]
        @ take (nc_maxChunkSize c) remaining) # nfc_fragment_loop c (drop (nc_maxChunkSize c) remaining)"
  by (subst nfc_fragment_loop.simps) (auto simp: Let_def)

lemma chain_bit_set: "(b OR 0x10) AND 0x10 \<noteq> (0 :: byte)"
proof -
  have "bit ((b OR 0x10) AND 0x10 :: byte) 4" by (simp add: bit_simps)
  then show ?thesis by auto
qed

lemma nfc_fragment_loop_received:
  assumes "0 < nc_maxChunkSize c" "nc_maxChunkSize c \<le> 255" "nc_class c AND 0x10 = 0" "m \<noteq> []"
  shows "nfc_card_receive (nc_instruction c) (nc_parameter1 c) (nc_parameter2 c)
    (nfc_fragment_loop c m @ rest) = Some (m, rest)"
  using assms
proof (induction m rule: length_induct)
  case (1 m)
  show ?case
  proof (cases "length m \<le> nc_maxChunkSize c")
    case True
    with 1 show ?thesis by (simp add: nfc_fragment_loop_last)
  next
    case False
    let ?n = "nc_maxChunkSize c"
    have "length (drop ?n m) < length m" "drop ?n m \<noteq> []" using False 1 by simp_all
    with 1 have "nfc_card_receive (nc_instruction c) (nc_parameter1 c) (nc_parameter2 c)
        (nfc_fragment_loop c (drop ?n m) @ rest) = Some (drop ?n m, rest)" by blast
    with False 1(2-) show ?thesis by (simp add: nfc_fragment_loop_chain chain_bit_set min_def)
  qed
qed

lemma nfc_fragment_loop_bounds:
  assumes "0 < nc_maxChunkSize c" "p \<in> set (nfc_fragment_loop c m)"
  shows "5 < length p \<and> length p \<le> 5 + nc_maxChunkSize c"
  using assms
proof (induction m rule: length_induct)
  case (1 m)
  consider "m = []" | "m \<noteq> []" "length m \<le> nc_maxChunkSize c" | "nc_maxChunkSize c < length m"
    by (meson not_le)
  then show ?case
  proof cases
    case 3
    let ?d = "drop (nc_maxChunkSize c) m"
    have "length ?d < length m" using 1 3 by simp
    with 1 have "p \<in> set (nfc_fragment_loop c ?d) \<longrightarrow> 5 < length p \<and> length p \<le> 5 + nc_maxChunkSize c"
      by blast
    with 1(2-) 3 show ?thesis by (auto simp: nfc_fragment_loop_chain)
  qed (use 1 in \<open>auto simp: nfc_fragment_loop_last nfc_fragment_loop.simps [of c "[]"]\<close>)
qed

subsection \<open>Reference: response blocks of a card\<close>

text \<open>The card's side of GET RESPONSE: every block but the last is followed by a status word
  \<open>61 xx\<close>, the last one by \<open>90 00\<close>.\<close>

fun nfc_card_respond :: "(bytes \<times> byte) list \<Rightarrow> bytes \<Rightarrow> bytes list" where
  "nfc_card_respond [] final = [final @ [0x90, 0]]"
| "nfc_card_respond ((block, left) # blocks) final = (block @ [0x61, left]) # nfc_card_respond blocks final"

text \<open>Adding responses until an error or until done; the rest of the responses is returned.\<close>

fun nfc_collect :: "nfc_assembler \<Rightarrow> bytes list \<Rightarrow> (nfc_assembler \<times> err option) \<times> bytes list" where
  "nfc_collect a [] = ((a, None), [])"
| "nfc_collect a (r # rs) =
     (case nfc_Add a r of
        (a', Some e) \<Rightarrow> ((a', Some e), rs)
      | (a', None) \<Rightarrow> if nfc_Done a' then ((a', None), rs) else nfc_collect a' rs)"

lemma nfc_Add_final:
  "nfc_Add a (b @ [0x90, 0]) = (a\<lparr>na_buffer := na_buffer a @ b, na_done := True, na_moreDataHint := 0\<rparr>, None)"
  by (simp add: nfc_Add_def Let_def nth_append)

lemma nfc_Add_more:
  "nfc_Add a (b @ [0x61, h]) = (a\<lparr>na_buffer := na_buffer a @ b, na_done := False, na_moreDataHint := h\<rparr>, None)"
  by (simp add: nfc_Add_def Let_def nth_append)

lemma nfc_collect_respond:
  "nfc_collect a (nfc_card_respond blocks final @ rest) =
     ((a\<lparr>na_buffer := na_buffer a @ concat (map fst blocks) @ final, na_done := True, na_moreDataHint := 0\<rparr>, None), rest)"
  by (induction blocks arbitrary: a) (auto simp: nfc_Add_final nfc_Add_more nfc_Done_def)

subsection \<open>Properties\<close>

text \<open>Command chaining round trip: for every codec that \<open>NewCodec\<close> accepts whose class byte has
  no chain bit and every body, \<open>Fragment\<close> succeeds, each APDU has at most \<open>maxChunkSize\<close> bytes of data,
  and a card that collects the chain gets exactly the body and leaves what follows.\<close>

theorem nfc_command_roundtrip:
  assumes "nfc_NewCodec cls ins p1 p2 maxChunkSize = Inr c" and "cls AND 0x10 = 0"
  shows "\<exists>ps. nfc_Fragment c m = Inr ps \<and> (\<forall>p \<in> set ps. 5 \<le> length p \<and> int (length p) \<le> 5 + maxChunkSize) \<and>
    nfc_card_receive ins p1 p2 (ps @ rest) = Some (m, rest)"
proof -
  from assms(1) have c: "c = \<lparr>nc_class = cls, nc_instruction = ins, nc_parameter1 = p1, nc_parameter2 = p2,
      nc_maxChunkSize = nat maxChunkSize\<rparr>" and sz: "0 < maxChunkSize" "maxChunkSize \<le> 255"
    by (auto simp: nfc_NewCodec_def split: if_splits)
  show ?thesis
  proof (cases "m = []")
    case True
    with sz assms(2) show ?thesis by (auto simp: nfc_Fragment_def c)
  next
    case False
    have "\<forall>p \<in> set (nfc_fragment_loop c m). 5 \<le> length p \<and> int (length p) \<le> 5 + maxChunkSize"
      using nfc_fragment_loop_bounds [of c _ m] sz by (force simp: c)
    moreover have "nfc_card_receive ins p1 p2 (nfc_fragment_loop c m @ rest) = Some (m, rest)"
      using nfc_fragment_loop_received [of c m rest] sz assms(2) False by (simp add: c)
    ultimately show ?thesis using False by (simp add: nfc_Fragment_def)
  qed
qed

theorem nfc_command_roundtrip_witness:
  "\<exists>c ps. nfc_NewCodec 0x80 0x10 0 0 2 = Inr c \<and> nfc_Fragment c [1, 2, 3, 4, 5] = Inr ps \<and>
     nfc_card_receive 0x10 0 0 (ps @ [[7]]) = Some ([1, 2, 3, 4, 5], [[7]])"
proof -
  obtain c where c: "nfc_NewCodec 0x80 0x10 0 0 2 = Inr c" by (simp add: nfc_NewCodec_def)
  with nfc_command_roundtrip [OF c, of "[1, 2, 3, 4, 5]" "[[7]]"] show ?thesis by auto
qed

text \<open>Response collection: a fresh assembler that is fed the blocks a card hands out (any
  number of \<open>61 xx\<close> blocks and the final \<open>90 00\<close> block) stops at the final block with the
  concatenation of all block bodies as the payload.\<close>

theorem nfc_response_roundtrip:
  "\<exists>a. nfc_collect (nfc_NewAssembler c) (nfc_card_respond blocks final @ rest) = ((a, None), rest) \<and>
     nfc_Done a \<and> nfc_MoreDataHint a = 0 \<and> nfc_Payload a = Inr (concat (map fst blocks) @ final)"
  by (simp add: nfc_collect_respond nfc_Done_def nfc_Payload_def nfc_MoreDataHint_def nfc_NewAssembler_def)

end
