(* ===== verification/Transport.thy ===== *)
theory Transport
  imports GoErrors
begin

text \<open>
  The transport-neutral layer: device descriptors (\<open>pkg/transport/descriptor.go\<close>), protocol families
  (\<open>pkg/protocol/family.go\<close>), the backend registry (\<open>pkg/transport/registry.go\<close>) and middleware chains
  (\<open>pkg/middleware\<close>). A backend is an interface of the code, so it is a record of operations over
  an environment \<open>'w\<close> that they may change.
\<close>

subsection \<open>Device descriptors and families\<close>

record device_descriptor =
  dd_ID :: string
  dd_Transport :: string
  dd_Path :: string
  dd_Manufacturer :: string
  dd_Product :: string
  dd_SerialNumber :: string
  dd_VendorID :: u16
  dd_ProductID :: u16

definition KindUSB :: string where "KindUSB = ''usb''"
definition KindNFC :: string where "KindNFC = ''nfc''"
definition KindBLE :: string where "KindBLE = ''ble''"
definition KindUnknown :: string where "KindUnknown = ''unknown''"

definition DisplayName :: "device_descriptor \<Rightarrow> string" where
  "DisplayName d =
     (if dd_Product d \<noteq> [] \<and> dd_SerialNumber d \<noteq> [] then
        dd_Product d @ '' ('' @ dd_SerialNumber d @ '')''
      else if dd_Product d \<noteq> [] then dd_Product d
      else if dd_ID d \<noteq> [] then dd_ID d
      else dd_Transport d)"

definition FamilyCTAP1 :: string where "FamilyCTAP1 = ''ctap1''"
definition FamilyCTAP2 :: string where "FamilyCTAP2 = ''ctap2''"

definition family_IsKnown :: "string \<Rightarrow> bool" where
  "family_IsKnown family \<longleftrightarrow> family = FamilyCTAP1 \<or> family = FamilyCTAP2"

definition family_Validate :: "string \<Rightarrow> err option" where
  "family_Validate family = (if family_IsKnown family then None else Some (UnknownFamilyError family))"

subsection \<open>Backends and the registry\<close>

record ('w, 's) backend =
  bk_Kind :: string
  bk_Discover :: "'w \<Rightarrow> (device_descriptor list \<times> err option) \<times> 'w"
  bk_Open :: "device_descriptor \<Rightarrow> 'w \<Rightarrow> 's res \<times> 'w"

record ('w, 's) registry =
  rg_backends :: "string \<rightharpoonup> ('w, 's) backend"
  rg_order :: "string list"

definition registry_empty :: "('w, 's) registry" where
  "registry_empty = \<lparr>rg_backends = Map.empty, rg_order = []\<rparr>"

text \<open>The body of \<open>NewRegistry\<close>'s loop; a nil backend is \<open>None\<close>.\<close>

definition registry_add :: "('w, 's) registry \<Rightarrow> ('w, 's) backend option \<Rightarrow> ('w, 's) registry res" where
  "registry_add r b =
     (case b of
        None \<Rightarrow> Inl (TransportError ''new registry'' (Sentinel (SRegistry ErrBackendRequired)))
      | Some backend \<Rightarrow>
          let kind = bk_Kind backend in
          if kind = [] \<or> kind = KindUnknown then
            Inl (TransportError ''new registry''
              (Unsupported (TextError (''transport: unsupported backend kind '' @ kind))))
          else if rg_backends r kind \<noteq> None then
            Inl (TransportError ''new registry''
              (WrapError (''transport: %w: '' @ kind) [Sentinel (SRegistry ErrDuplicateBackend)]))
          else Inr (r\<lparr>rg_backends := (rg_backends r)(kind \<mapsto> backend), rg_order := rg_order r @ [kind]\<rparr>))"

fun registry_add_all :: "('w, 's) registry \<Rightarrow> ('w, 's) backend option list \<Rightarrow> ('w, 's) registry res" where
  "registry_add_all r [] = Inr r"
| "registry_add_all r (b # bs) = andThen (registry_add r b) (\<lambda>r'. registry_add_all r' bs)"

definition NewRegistry :: "('w, 's) backend option list \<Rightarrow> ('w, 's) registry res" where
  "NewRegistry backends = registry_add_all registry_empty backends"

text \<open>The loop of \<open>Registry.Discover\<close>. A kind of \<open>order\<close> without a backend would be a nil interface,
  and calling it panics; the registry invariant rules it out.\<close>

fun registry_discover_loop ::
  "('w, 's) registry \<Rightarrow> string list \<Rightarrow> device_descriptor list \<Rightarrow> err list \<Rightarrow> 'w \<Rightarrow>
   (device_descriptor list \<times> err list) res \<times> 'w" where
  "registry_discover_loop r [] devices errs w = (Inr (devices, errs), w)"
| "registry_discover_loop r (kind # kinds) devices errs w =
     (case rg_backends r kind of
        None \<Rightarrow> (Inl GoPanic, w)
      | Some backend \<Rightarrow>
          (case bk_Discover backend w of
             ((found, Some e), w') \<Rightarrow>
               registry_discover_loop r kinds devices
                 (errs @ [TransportError (''discover '' @ kind @ '' devices'') e]) w'
           | ((found, None), w') \<Rightarrow> registry_discover_loop r kinds (devices @ found) errs w'))"

definition registry_Discover :: "('w, 's) registry \<Rightarrow> 'w \<Rightarrow> (device_descriptor list \<times> err option) res \<times> 'w" where
  "registry_Discover r w =
     (case registry_discover_loop r (rg_order r) [] [] w of
        (Inl e, w') \<Rightarrow> (Inl e, w')
      | (Inr (devices, errs), w') \<Rightarrow>
          (Inr (devices, if errs \<noteq> [] then errors_join (map Some errs) else None), w'))"

definition registry_Open :: "('w, 's) registry \<Rightarrow> device_descriptor \<Rightarrow> 'w \<Rightarrow> 's res \<times> 'w" where
  "registry_Open r device w =
     (case rg_backends r (dd_Transport device) of
        None \<Rightarrow>
          (Inl (TransportError ''open device''
             (Unsupported (WrapError (''transport: %w: '' @ dd_Transport device)
                [Sentinel (SRegistry ErrBackendNotFound)]))), w)
      | Some backend \<Rightarrow> bk_Open backend device w)"

subsection \<open>Middleware\<close>

text \<open>\<open>Chain\<close> and \<open>ChainHID\<close> walk the list from the last index down to 0; an exchange is any function
  type, so one definition serves both.\<close>

fun chain_loop :: "'x \<Rightarrow> ('x \<Rightarrow> 'x) list \<Rightarrow> nat \<Rightarrow> 'x" where
  "chain_loop wrapped middlewares 0 = wrapped"
| "chain_loop wrapped middlewares (Suc index) =
     chain_loop ((middlewares ! index) wrapped) middlewares index"

definition Chain :: "'x \<Rightarrow> ('x \<Rightarrow> 'x) list \<Rightarrow> 'x" where
  "Chain base middlewares = chain_loop base middlewares (length middlewares)"

definition ChainHID :: "'x \<Rightarrow> ('x \<Rightarrow> 'x) list \<Rightarrow> 'x" where
  "ChainHID base middlewares = chain_loop base middlewares (length middlewares)"

lemma chain_loop_foldr: "n \<le> length ms \<Longrightarrow> chain_loop b ms n = foldr (\<lambda>m x. m x) (take n ms) b"
proof (induction n arbitrary: b)
  case (Suc n)
  then show ?case by (simp add: take_Suc_conv_app_nth)
qed simp

lemma Chain_foldr: "Chain b ms = foldr (\<lambda>m x. m x) ms b" "ChainHID b ms = foldr (\<lambda>m x. m x) ms b"
  by (simp_all add: Chain_def ChainHID_def chain_loop_foldr)

subsection \<open>What the constructor accepts\<close>

lemma registry_add_Inr:
  "registry_add r b = Inr r' \<longleftrightarrow>
     (\<exists>x. b = Some x \<and> bk_Kind x \<notin> {[], KindUnknown} \<and> rg_backends r (bk_Kind x) = None \<and>
        r' = r\<lparr>rg_backends := (rg_backends r)(bk_Kind x \<mapsto> x), rg_order := rg_order r @ [bk_Kind x]\<rparr>)"
  by (auto simp: registry_add_def Let_def split: option.splits)

text \<open>What the constructor's loop builds when every backend is acceptable.\<close>

lemma registry_add_all_success:
  assumes "distinct (map bk_Kind bs)" "\<forall>b \<in> set bs. bk_Kind b \<notin> {[], KindUnknown} \<and> rg_backends r (bk_Kind b) = None"
  shows "registry_add_all r (map Some bs) =
    Inr (r\<lparr>rg_backends := rg_backends r ++ map_of (map (\<lambda>b. (bk_Kind b, b)) bs),
           rg_order := rg_order r @ map bk_Kind bs\<rparr>)"
  using assms
proof (induction bs arbitrary: r)
  case (Cons b bs)
  let ?r = "r\<lparr>rg_backends := (rg_backends r)(bk_Kind b \<mapsto> b), rg_order := rg_order r @ [bk_Kind b]\<rparr>"
  have step: "registry_add r (Some b) = Inr ?r" using Cons.prems by (simp add: registry_add_Inr)
  have "map_of (map (\<lambda>b. (bk_Kind b, b)) bs) (bk_Kind b) = None"
    using Cons.prems by (auto simp: map_of_eq_None_iff)
  moreover have "\<forall>x \<in> set bs. bk_Kind x \<notin> {[], KindUnknown} \<and> rg_backends ?r (bk_Kind x) = None"
    using Cons.prems by (simp add: image_iff) metis
  with Cons have "registry_add_all ?r (map Some bs) =
      Inr (?r\<lparr>rg_backends := rg_backends ?r ++ map_of (map (\<lambda>b. (bk_Kind b, b)) bs),
             rg_order := rg_order ?r @ map bk_Kind bs\<rparr>)" by simp
  ultimately show ?case using step
    by (auto simp: map_add_def fun_eq_iff split: option.splits)
qed simp

lemma registry_add_all_Inr:
  assumes "registry_add_all r bs = Inr r'"
  shows "\<exists>xs. bs = map Some xs \<and> distinct (map bk_Kind xs) \<and>
    (\<forall>x \<in> set xs. bk_Kind x \<notin> {[], KindUnknown} \<and> rg_backends r (bk_Kind x) = None)"
  using assms
proof (induction bs arbitrary: r)
  case (Cons b bs)
  then obtain x where b: "b = Some x" "bk_Kind x \<notin> {[], KindUnknown}" "rg_backends r (bk_Kind x) = None"
    and rest: "registry_add_all (r\<lparr>rg_backends := (rg_backends r)(bk_Kind x \<mapsto> x),
        rg_order := rg_order r @ [bk_Kind x]\<rparr>) bs = Inr r'"
    by (auto simp: andThen_Inr_conv registry_add_Inr)
  from Cons.IH [OF rest] obtain xs where xs: "bs = map Some xs" "distinct (map bk_Kind xs)"
    "\<forall>y \<in> set xs. bk_Kind y \<notin> {[], KindUnknown} \<and> ((rg_backends r)(bk_Kind x \<mapsto> x)) (bk_Kind y) = None"
    by auto
  then have "b # bs = map Some (x # xs) \<and> distinct (map bk_Kind (x # xs)) \<and>
      (\<forall>y \<in> set (x # xs). bk_Kind y \<notin> {[], KindUnknown} \<and> rg_backends r (bk_Kind y) = None)"
    using b by (auto split: if_splits)
  then show ?case by (intro exI [of _ "x # xs"])
qed simp

lemma NewRegistry_Inr:
  "NewRegistry bs = Inr r \<longleftrightarrow>
     (\<exists>xs. bs = map Some xs \<and> distinct (map bk_Kind xs) \<and> (\<forall>x \<in> set xs. bk_Kind x \<notin> {[], KindUnknown}) \<and>
        r = \<lparr>rg_backends = map_of (map (\<lambda>b. (bk_Kind b, b)) xs), rg_order = map bk_Kind xs\<rparr>)"
  using registry_add_all_Inr [of registry_empty bs r] registry_add_all_success [of _ registry_empty]
  by (auto simp: NewRegistry_def registry_empty_def)

lemma NewRegistry_ok:
  "distinct (map bk_Kind xs) \<Longrightarrow> \<forall>x \<in> set xs. bk_Kind x \<notin> {[], KindUnknown} \<Longrightarrow>
     \<exists>r. NewRegistry (map Some xs) = Inr r"
  unfolding NewRegistry_Inr by blast

lemma map_of_kind:
  "distinct (map bk_Kind xs) \<Longrightarrow> x \<in> set xs \<Longrightarrow> map_of (map (\<lambda>b. (bk_Kind b, b)) xs) (bk_Kind x) = Some x"
  by (rule map_of_is_SomeI) (simp_all add: comp_def)

subsection \<open>Discovery\<close>

text \<open>The abstract outcome of a discovery: the answers of the backends, in order, each asked once in
  the environment the previous one left.\<close>

fun backend_answers :: "('w, 's) backend list \<Rightarrow> 'w \<Rightarrow> (string \<times> device_descriptor list \<times> err option) list \<times> 'w" where
  "backend_answers [] w = ([], w)"
| "backend_answers (b # bs) w =
     (case bk_Discover b w of (ans, w') \<Rightarrow>
        (case backend_answers bs w' of (rest, w'') \<Rightarrow> ((bk_Kind b, ans) # rest, w'')))"

definition answers_devices :: "(string \<times> device_descriptor list \<times> err option) list \<Rightarrow> device_descriptor list" where
  "answers_devices as = concat [found. (k, found, None) \<leftarrow> as]"

definition answers_errors :: "(string \<times> device_descriptor list \<times> err option) list \<Rightarrow> err list" where
  "answers_errors as = [TransportError (''discover '' @ k @ '' devices'') e. (k, found, Some e) \<leftarrow> as]"

lemma registry_discover_loop_answers:
  assumes "\<forall>b \<in> set bs. rg_backends r (bk_Kind b) = Some b"
  shows "registry_discover_loop r (map bk_Kind bs) ds es w =
    (case backend_answers bs w of (as, w') \<Rightarrow>
       (Inr (ds @ answers_devices as, es @ answers_errors as), w'))"
  using assms
  by (induction bs arbitrary: ds es w)
    (auto simp: answers_devices_def answers_errors_def split: prod.splits option.splits)

subsection \<open>Properties\<close>

text \<open>Building and using a registry: \<open>NewRegistry\<close> succeeds exactly when no backend is nil, every
  kind is set and known, and no kind occurs twice. The registry then opens a device with the backend
  of the device's transport kind, and refuses any other kind with an error that is both
  "unsupported" and "backend not registered".\<close>

theorem registry_new_open:
  "((\<exists>r. NewRegistry bs = Inr r) \<longleftrightarrow>
     (\<exists>xs. bs = map Some xs \<and> distinct (map bk_Kind xs) \<and> (\<forall>x \<in> set xs. bk_Kind x \<notin> {[], KindUnknown}))) \<and>
   (NewRegistry bs = Inr r \<longrightarrow>
     (\<forall>b. Some b \<in> set bs \<and> dd_Transport d = bk_Kind b \<longrightarrow> registry_Open r d w = bk_Open b d w) \<and>
     ((\<forall>b. Some b \<in> set bs \<longrightarrow> bk_Kind b \<noteq> dd_Transport d) \<longrightarrow>
       (\<exists>e. registry_Open r d w = (Inl e, w) \<and> errors_is e (STransport ErrUnsupported) \<and>
          errors_is e (SRegistry ErrBackendNotFound))))"
proof (intro conjI impI allI)
  show "(\<exists>r. NewRegistry bs = Inr r) \<longleftrightarrow>
     (\<exists>xs. bs = map Some xs \<and> distinct (map bk_Kind xs) \<and> (\<forall>x \<in> set xs. bk_Kind x \<notin> {[], KindUnknown}))"
    unfolding NewRegistry_Inr by blast
next
  fix b
  assume "NewRegistry bs = Inr r" "Some b \<in> set bs \<and> dd_Transport d = bk_Kind b"
  then show "registry_Open r d w = bk_Open b d w"
    by (auto simp: NewRegistry_Inr registry_Open_def map_of_kind)
next
  assume r: "NewRegistry bs = Inr r" and none: "\<forall>b. Some b \<in> set bs \<longrightarrow> bk_Kind b \<noteq> dd_Transport d"
  then have "rg_backends r (dd_Transport d) = None"
    by (fastforce simp: NewRegistry_Inr map_of_eq_None_iff)
  then show "\<exists>e. registry_Open r d w = (Inl e, w) \<and> errors_is e (STransport ErrUnsupported) \<and>
      errors_is e (SRegistry ErrBackendNotFound)"
    by (simp add: registry_Open_def Unsupported_def errors_is_withCategory) (simp add: errors_is_def)
qed

text \<open>A backend over the empty environment, for concrete instances.\<close>

definition fixed_backend :: "string \<Rightarrow> device_descriptor list \<Rightarrow> err option \<Rightarrow> (unit, string) backend" where
  "fixed_backend kind ds e =
     \<lparr>bk_Kind = kind, bk_Discover = (\<lambda>w. ((ds, e), w)), bk_Open = (\<lambda>d w. (Inr kind, w))\<rparr>"

definition sample_device :: "string \<Rightarrow> device_descriptor" where
  "sample_device kind =
     \<lparr>dd_ID = ''id'', dd_Transport = kind, dd_Path = [], dd_Manufacturer = [], dd_Product = [],
      dd_SerialNumber = [], dd_VendorID = 1, dd_ProductID = 2\<rparr>"

theorem registry_new_open_witness:
  "\<exists>r. NewRegistry [Some (fixed_backend ''usb'' [] None), Some (fixed_backend ''nfc'' [] None)] = Inr r \<and>
     registry_Open r (sample_device ''nfc'') () = (Inr ''nfc'', ()) \<and>
     (\<exists>e. registry_Open r (sample_device ''ble'') () = (Inl e, ()) \<and> errors_is e (STransport ErrUnsupported))"
proof -
  let ?n = "fixed_backend ''nfc'' [] None"
  let ?l = "[fixed_backend ''usb'' [] None, ?n]"
  let ?bs = "[Some (fixed_backend ''usb'' [] None), Some ?n]"
  obtain r where r: "NewRegistry ?bs = Inr r"
    using NewRegistry_ok [of "?l"] by (auto simp: fixed_backend_def KindUnknown_def)
  have k: "bk_Kind ?n = ''nfc''" "bk_Kind (fixed_backend ''usb'' [] None) = ''usb''"
    "bk_Open ?n d w = (Inr ''nfc'', w)" "dd_Transport (sample_device x) = x" for d w x
    by (simp_all add: fixed_backend_def sample_device_def)
  have "registry_Open r (sample_device ''nfc'') () = (Inr ''nfc'', ())"
    using registry_new_open [of ?bs r "sample_device ''nfc''" "()"] r
    by (metis k list.set_intros(1,2))
  moreover have "\<exists>e. registry_Open r (sample_device ''ble'') () = (Inl e, ()) \<and> errors_is e (STransport ErrUnsupported)"
    using registry_new_open [of ?bs r "sample_device ''ble''" "()"] r by (auto simp: k)
  ultimately show ?thesis using r by blast
qed

text \<open>Discovery never stops at a failing backend: \<open>Discover\<close> asks every registered backend once,
  in registration order, returns the devices of all that answered, and reports an error exactly when
  some backend failed; the error joins every failure, each wrapped with its transport kind.\<close>

theorem registry_discover_all:
  assumes "NewRegistry (map Some bs) = Inr r" and "backend_answers bs w = (as, w')"
  shows "registry_Discover r w =
    (Inr (answers_devices as, if answers_errors as = [] then None else Some (JoinError (answers_errors as))), w')"
proof -
  from assms(1) have r: "rg_order r = map bk_Kind bs" "\<forall>b \<in> set bs. rg_backends r (bk_Kind b) = Some b"
    by (auto simp: NewRegistry_Inr map_of_kind inj_map_eq_map)
  have join: "errors_join (map Some es) = (if es = [] then None else Some (JoinError es))" for es
  proof -
    have "[e. Some e \<leftarrow> map Some es] = es" by (induction es) simp_all
    then show ?thesis by (cases es) (simp_all add: errors_join_def)
  qed
  show ?thesis
    using registry_discover_loop_answers [OF r(2), of "[]" "[]" w] assms(2)
    by (simp add: registry_Discover_def r(1) join)
qed

theorem registry_discover_all_witness:
  "\<exists>r. NewRegistry (map Some [fixed_backend ''usb'' [] (Some GoPanic),
         fixed_backend ''nfc'' [sample_device ''nfc''] None]) = Inr r \<and>
     registry_Discover r () = (Inr ([sample_device ''nfc''],
       Some (JoinError [TransportError ''discover usb devices'' GoPanic])), ())"
proof -
  let ?bs = "[fixed_backend ''usb'' [] (Some GoPanic), fixed_backend ''nfc'' [sample_device ''nfc''] None]"
  obtain r where r: "NewRegistry (map Some ?bs) = Inr r"
    using NewRegistry_ok [of "?bs"] by (auto simp: fixed_backend_def KindUnknown_def)
  have "backend_answers ?bs () =
      ([(''usb'', [], Some GoPanic), (''nfc'', [sample_device ''nfc''], None)], ())"
    by (simp add: fixed_backend_def)
  from registry_discover_all [OF r this] r show ?thesis
    by (simp add: answers_devices_def answers_errors_def)
qed

text \<open>A middleware that records an entry before and after the exchange it wraps.\<close>

definition recording ::
  "'n \<Rightarrow> ('q \<Rightarrow> ('n \<times> bool) list \<Rightarrow> 'r \<times> ('n \<times> bool) list) \<Rightarrow> 'q \<Rightarrow> ('n \<times> bool) list \<Rightarrow> 'r \<times> ('n \<times> bool) list" where
  "recording n nxt req log =
     (case nxt req (log @ [(n, True)]) of (resp, log') \<Rightarrow> (resp, log' @ [(n, False)]))"

text \<open>Middleware order: in a chain of middlewares that record an entry before and after the
  next exchange, the first registered one is outermost: entries appear in registration order before
  the device exchange and in the opposite order after it, and each sees the inner result.\<close>

theorem chain_order:
  assumes "\<forall>req log. base req log = (result req, log @ [device])"
  shows "Chain base (map recording names) req [] =
    (result req, map (\<lambda>n. (n, True)) names @ [device] @ map (\<lambda>n. (n, False)) (rev names))"
proof -
  have "foldr (\<lambda>m x. m x) (map recording names) base req log =
      (result req, log @ map (\<lambda>n. (n, True)) names @ [device] @ map (\<lambda>n. (n, False)) (rev names))" for log
    using assms by (induction names arbitrary: log) (simp_all add: recording_def)
  then show ?thesis by (simp add: Chain_foldr)
qed

theorem chain_order_witness:
  "Chain (\<lambda>req log. (req + 1, log @ [(''device'', True)])) (map recording [''first'', ''second'']) (5 :: int) [] =
     (6, [(''first'', True), (''second'', True), (''device'', True), (''second'', False), (''first'', False)])"
  using chain_order [of "\<lambda>req log. (req + 1, log @ [(''device'', True)])" "\<lambda>req. req + 1" "(''device'', True)"
      "[''first'', ''second'']" "5 :: int"]
  by simp

end
