(* ===== verification/GoIO.thy ===== *)
theory GoIO
  imports Framing
begin

text \<open>
  Effectful code. A Go function that performs I/O through its collaborators is a function of the
  world \<open>'w\<close> (its own mutable state and the environment behind the interfaces it calls): it returns
  a value or an error and the world it leaves, or \<open>None\<close> when it never returns (a loop that
  runs forever, or a call that blocks forever). Loops that may not end are defined with
  \<open>partial_function (option)\<close>; the monotonicity rules below let it see through the combinators.
\<close>

type_synonym ('w, 'a) io = "'w \<Rightarrow> ('a res \<times> 'w) option"

definition io_return :: "'a \<Rightarrow> ('w, 'a) io" where
  "io_return x w = Some (Inr x, w)"

definition io_fail :: "err \<Rightarrow> ('w, 'a) io" where
  "io_fail e w = Some (Inl e, w)"

definition io_of :: "'a res \<Rightarrow> ('w, 'a) io" where
  "io_of r w = Some (r, w)"

text \<open>\<open>x, err := m(); if err != nil { return err }; f(x)\<close>.\<close>

definition io_bind :: "('w, 'a) io \<Rightarrow> ('a \<Rightarrow> ('w, 'b) io) \<Rightarrow> ('w, 'b) io" where
  "io_bind m f w =
     Option.bind (m w) (\<lambda>(r, w'). case r of Inl e \<Rightarrow> Some (Inl e, w') | Inr x \<Rightarrow> f x w')"

text \<open>\<open>x, err := m()\<close> with both results in hand.\<close>

definition io_try :: "('w, 'a) io \<Rightarrow> ('w, 'a res) io" where
  "io_try m w = map_option (\<lambda>(r, w'). (Inr r, w')) (m w)"

text \<open>\<open>if err != nil { return wrap(err) }\<close>.\<close>

definition io_wrap :: "(err \<Rightarrow> err) \<Rightarrow> ('w, 'a) io \<Rightarrow> ('w, 'a) io" where
  "io_wrap g m w = map_option (\<lambda>(r, w'). (case r of Inl e \<Rightarrow> Inl (g e) | Inr x \<Rightarrow> Inr x, w')) (m w)"

definition io_gets :: "('w \<Rightarrow> 'a) \<Rightarrow> ('w, 'a) io" where
  "io_gets f w = Some (Inr (f w), w)"

definition io_modify :: "('w \<Rightarrow> 'w) \<Rightarrow> ('w, unit) io" where
  "io_modify f w = Some (Inr (), f w)"

text \<open>A query of the environment that answers a value, such as \<open>ctx.Err()\<close>.\<close>

definition io_ask :: "('w \<Rightarrow> 'a \<times> 'w) \<Rightarrow> ('w, 'a) io" where
  "io_ask q w = (case q w of (x, w') \<Rightarrow> Some (Inr x, w'))"

text \<open>A call that returns only an error: nil lets the caller go on.\<close>

definition io_check :: "('w \<Rightarrow> err option \<times> 'w) \<Rightarrow> ('w, unit) io" where
  "io_check q w = (case q w of (None, w') \<Rightarrow> Some (Inr (), w') | (Some e, w') \<Rightarrow> Some (Inl e, w'))"

lemmas io_defs = io_return_def io_fail_def io_of_def io_bind_def io_try_def io_wrap_def
  io_gets_def io_modify_def io_ask_def io_check_def

lemma io_bind_Some [simp]:
  "m w = Some (Inr x, w') \<Longrightarrow> io_bind m f w = f x w'"
  "m w = Some (Inl e, w') \<Longrightarrow> io_bind m f w = Some (Inl e, w')"
  "m w = None \<Longrightarrow> io_bind m f w = None"
  by (simp_all add: io_bind_def)

lemma io_prim [simp]:
  "io_return x w = Some (Inr x, w)"
  "io_fail e w = Some (Inl e, w)"
  "io_of r w = Some (r, w)"
  "io_gets g w = Some (Inr (g w), w)"
  "io_modify h w = Some (Inr (), h w)"
  by (simp_all add: io_defs)

lemma io_bind_conv:
  "io_bind m f w = Some (r, w'') \<longleftrightarrow>
     (\<exists>e. m w = Some (Inl e, w'') \<and> r = Inl e) \<or> (\<exists>x w'. m w = Some (Inr x, w') \<and> f x w' = Some (r, w''))"
  by (auto simp: io_bind_def split: sum.splits bind_splits)

lemma io_try_conv [simp]: "io_try m w = Some (r, w') \<longleftrightarrow> (\<exists>x. m w = Some (x, w') \<and> r = Inr x)"
  by (auto simp: io_try_def)

lemma io_wrap_conv:
  "io_wrap g m w = Some (r, w') \<longleftrightarrow>
     (\<exists>e. m w = Some (Inl e, w') \<and> r = Inl (g e)) \<or> (\<exists>x. m w = Some (Inr x, w') \<and> r = Inr x)"
  by (cases "m w") (auto simp: io_wrap_def split: sum.splits prod.splits)

lemma io_ask_conv: "io_ask q w = Some (r, w') \<longleftrightarrow> (\<exists>x. q w = (x, w') \<and> r = Inr x)"
  by (auto simp: io_ask_def split: prod.splits)

lemma io_check_conv:
  "io_check q w = Some (r, w') \<longleftrightarrow> (\<exists>e. q w = (Some e, w') \<and> r = Inl e) \<or> (q w = (None, w') \<and> r = Inr ())"
  by (auto simp: io_check_def split: prod.splits option.splits)

lemmas io_conv = io_bind_conv io_wrap_conv io_ask_conv io_check_conv

lemma io_check_nil: "q w = (None, w') \<Longrightarrow> io_check q w = Some (Inr (), w')"
  by (simp add: io_check_def)

lemma io_bind_mono [partial_function_mono]:
  assumes "\<And>w. mono_option (\<lambda>f. B f w)" and "\<And>x w. mono_option (\<lambda>f. C f x w)"
  shows "mono_option (\<lambda>f. io_bind (B f) (C f) w)"
  unfolding io_bind_def
proof (rule bind_mono [OF assms(1)], goal_cases)
  case (1 rw)
  show ?case
  proof (cases rw)
    case (Pair r w')
    then show ?thesis by (cases r) (simp_all add: assms(2) option.const_mono)
  qed
qed

lemma io_wrap_mono [partial_function_mono]:
  assumes "\<And>w. mono_option (\<lambda>f. B f w)"
  shows "mono_option (\<lambda>f. io_wrap g (B f) w)"
proof -
  have "(\<lambda>f. io_wrap g (B f) w) =
      (\<lambda>f. Option.bind (B f w) (\<lambda>(r, w'). Some (case r of Inl e \<Rightarrow> Inl (g e) | Inr x \<Rightarrow> Inr x, w')))"
    by (auto simp: io_wrap_def fun_eq_iff split: sum.splits bind_splits option.splits)
  then show ?thesis
    by (simp only:) (rule bind_mono [OF assms option.const_mono])
qed

subsection \<open>What a computation preserves, and that it returns\<close>

text \<open>\<open>io_inv P m\<close>: \<open>m\<close> preserves the condition \<open>P\<close> on the world, whether it returns a value or an error.
  \<open>io_keeps f m\<close>: it leaves the part \<open>f\<close> of the world as it was. \<open>ask_inv\<close> and \<open>ask_keeps\<close> say the same of
  queries. \<open>io_total m\<close>: \<open>m\<close> always returns.\<close>

definition io_inv :: "('w \<Rightarrow> bool) \<Rightarrow> ('w, 'a) io \<Rightarrow> bool" where
  "io_inv P m \<longleftrightarrow> (\<forall>w r w'. P w \<longrightarrow> m w = Some (r, w') \<longrightarrow> P w')"

definition ask_inv :: "('w \<Rightarrow> bool) \<Rightarrow> ('w \<Rightarrow> 'a \<times> 'w) \<Rightarrow> bool" where
  "ask_inv P q \<longleftrightarrow> (\<forall>w. P w \<longrightarrow> P (snd (q w)))"

definition io_keeps :: "('w \<Rightarrow> 'v) \<Rightarrow> ('w, 'a) io \<Rightarrow> bool" where
  "io_keeps f m \<longleftrightarrow> (\<forall>w r w'. m w = Some (r, w') \<longrightarrow> f w' = f w)"

definition ask_keeps :: "('w \<Rightarrow> 'v) \<Rightarrow> ('w \<Rightarrow> 'a \<times> 'w) \<Rightarrow> bool" where
  "ask_keeps f q \<longleftrightarrow> (\<forall>w. f (snd (q w)) = f w)"

definition io_total :: "('w, 'a) io \<Rightarrow> bool" where
  "io_total m \<longleftrightarrow> (\<forall>w. m w \<noteq> None)"

named_theorems inv_intros \<open>preservation rules for effectful code\<close>

lemma io_invD: "io_inv P m \<Longrightarrow> P w \<Longrightarrow> m w = Some (r, w') \<Longrightarrow> P w'"
  by (simp add: io_inv_def)

lemma io_invI: "(\<And>w y. m w = Some y \<Longrightarrow> P w \<Longrightarrow> P (snd y)) \<Longrightarrow> io_inv P m"
  unfolding io_inv_def by fastforce

lemma io_keepsD: "io_keeps f m \<Longrightarrow> m w = Some (r, w') \<Longrightarrow> f w' = f w"
  by (simp add: io_keeps_def)

text \<open>Leaving \<open>f\<close> unchanged is preserving every condition \<open>f w = v\<close>.\<close>

lemma io_keeps_inv: "io_keeps f m \<longleftrightarrow> (\<forall>v. io_inv (\<lambda>w. f w = v) m)"
  by (auto simp: io_keeps_def io_inv_def)

lemma ask_keeps_inv: "ask_keeps f q \<longleftrightarrow> (\<forall>v. ask_inv (\<lambda>w. f w = v) q)"
  by (auto simp: ask_keeps_def ask_inv_def)

lemma io_keepsI: "(\<And>v. io_inv (\<lambda>w. f w = v) m) \<Longrightarrow> io_keeps f m"
  by (simp add: io_keeps_inv)

lemma io_inv_prim [inv_intros]:
  "io_inv P (io_return x)" "io_inv P (io_fail e)" "io_inv P (io_of r)" "io_inv P (io_gets g)"
  by (simp_all add: io_inv_def)

lemma io_inv_modify [inv_intros]: "(\<And>w. P w \<Longrightarrow> P (h w)) \<Longrightarrow> io_inv P (io_modify h)"
  by (simp add: io_inv_def)

lemma io_inv_bind [inv_intros]:
  "io_inv P m \<Longrightarrow> (\<And>x. io_inv P (k x)) \<Longrightarrow> io_inv P (io_bind m k)"
  unfolding io_inv_def io_bind_conv by blast

lemma io_inv_bindD:
  "io_bind m k w = Some y \<Longrightarrow> io_inv P m \<Longrightarrow> (\<And>x. io_inv P (k x)) \<Longrightarrow> P w \<Longrightarrow> P (snd y)"
  by (rule io_invD [of P "io_bind m k" w "fst y"]) (auto intro: io_inv_bind)

lemma io_inv_wrap [inv_intros]: "io_inv P m \<Longrightarrow> io_inv P (io_wrap g m)"
  by (auto simp: io_inv_def io_wrap_conv)

lemma io_inv_try [inv_intros]: "io_inv P m \<Longrightarrow> io_inv P (io_try m)"
  by (auto simp: io_inv_def)

lemma io_inv_ask [inv_intros]: "ask_inv P q \<Longrightarrow> io_inv P (io_ask q)"
  by (auto simp: io_inv_def ask_inv_def io_ask_conv)

lemma io_inv_check [inv_intros]: "ask_inv P q \<Longrightarrow> io_inv P (io_check q)"
  by (auto simp: io_inv_def ask_inv_def io_check_conv)

lemma io_inv_if [inv_intros]:
  "(b \<Longrightarrow> io_inv P m) \<Longrightarrow> (\<not> b \<Longrightarrow> io_inv P n) \<Longrightarrow> io_inv P (if b then m else n)"
  "(b \<Longrightarrow> io_inv P m) \<Longrightarrow> (\<not> b \<Longrightarrow> io_inv P n) \<Longrightarrow> io_inv P (\<lambda>w. if b then m w else n w)"
  by (cases b; simp)+

lemma io_inv_option [inv_intros]:
  "io_inv P m \<Longrightarrow> (\<And>x. io_inv P (k x)) \<Longrightarrow> io_inv P (case z of None \<Rightarrow> m | Some x \<Rightarrow> k x)"
  by (cases z) simp_all

lemma io_inv_sum [inv_intros]:
  "(\<And>x. io_inv P (j x)) \<Longrightarrow> (\<And>x. io_inv P (k x)) \<Longrightarrow> io_inv P (case z of Inl x \<Rightarrow> j x | Inr x \<Rightarrow> k x)"
  by (cases z) simp_all

lemma io_inv_prod [inv_intros]: "(\<And>x y. io_inv P (k x y)) \<Longrightarrow> io_inv P (case z of (x, y) \<Rightarrow> k x y)"
  by (cases z) simp

lemma io_inv_let [inv_intros]: "io_inv P (k x) \<Longrightarrow> io_inv P (Let x k)"
  by simp

named_theorems total_intros \<open>effectful code that always returns\<close>

lemma io_total_prim [total_intros]:
  "io_total (io_return x)" "io_total (io_fail e)" "io_total (io_of r)" "io_total (io_gets g)"
  "io_total (io_modify h)" "io_total (io_ask q)" "io_total (io_check c)"
  by (auto simp: io_total_def io_ask_def io_check_def split: prod.splits option.splits)

lemma io_total_bind [total_intros]:
  "io_total m \<Longrightarrow> (\<And>x. io_total (k x)) \<Longrightarrow> io_total (io_bind m k)"
  by (auto simp: io_total_def io_bind_def split: sum.splits bind_splits)

lemma io_total_wrap [total_intros]: "io_total m \<Longrightarrow> io_total (io_wrap g m)"
  by (simp add: io_total_def io_wrap_def)

lemma io_total_try [total_intros]: "io_total m \<Longrightarrow> io_total (io_try m)"
  by (simp add: io_total_def io_try_def)

lemma io_total_if [total_intros]:
  "(b \<Longrightarrow> io_total m) \<Longrightarrow> (\<not> b \<Longrightarrow> io_total n) \<Longrightarrow> io_total (if b then m else n)"
  "(b \<Longrightarrow> io_total m) \<Longrightarrow> (\<not> b \<Longrightarrow> io_total n) \<Longrightarrow> io_total (\<lambda>w. if b then m w else n w)"
  by (cases b; simp)+

lemma io_totalE: "io_total m \<Longrightarrow> (\<And>r w'. m w = Some (r, w') \<Longrightarrow> P) \<Longrightarrow> P"
  unfolding io_total_def by (metis option.exhaust prod.exhaust)

subsection \<open>Total correctness\<close>

text \<open>\<open>io_yields P m Q\<close>: from every world with \<open>P\<close>, \<open>m\<close> returns a value without an error, and \<open>Q\<close> holds of the
  value and the world it leaves.\<close>

definition io_yields :: "('w \<Rightarrow> bool) \<Rightarrow> ('w, 'a) io \<Rightarrow> ('a \<Rightarrow> 'w \<Rightarrow> bool) \<Rightarrow> bool" where
  "io_yields P m Q \<longleftrightarrow> (\<forall>w. P w \<longrightarrow> (\<exists>x w'. m w = Some (Inr x, w') \<and> Q x w'))"

lemma io_yieldsD: "io_yields P m Q \<Longrightarrow> P w \<Longrightarrow> \<exists>x w'. m w = Some (Inr x, w') \<and> Q x w'"
  by (simp add: io_yields_def)

lemma io_yields_return: "(\<And>w. P w \<Longrightarrow> Q x w) \<Longrightarrow> io_yields P (io_return x) Q"
  by (simp add: io_yields_def)

lemma io_yields_of: "(\<And>w. P w \<Longrightarrow> \<exists>x. r = Inr x \<and> Q x w) \<Longrightarrow> io_yields P (io_of r) Q"
  by (fastforce simp: io_yields_def)

lemma io_yields_bind:
  assumes "io_yields P m Q" and "\<And>x. io_yields (Q x) (k x) R"
  shows "io_yields P (io_bind m k) R"
  unfolding io_yields_def
proof (intro allI impI)
  fix w assume "P w"
  with assms(1) obtain x w' where m: "m w = Some (Inr x, w')" "Q x w'" by (auto simp: io_yields_def)
  with assms(2) [of x] obtain y w'' where "k x w' = Some (Inr y, w'')" "R y w''" by (auto simp: io_yields_def)
  with m show "\<exists>y w''. io_bind m k w = Some (Inr y, w'') \<and> R y w''" by simp
qed

lemma io_yields_conseq:
  "io_yields P' m Q' \<Longrightarrow> (\<And>w. P w \<Longrightarrow> P' w) \<Longrightarrow> (\<And>x w. Q' x w \<Longrightarrow> Q x w) \<Longrightarrow> io_yields P m Q"
  unfolding io_yields_def by blast

lemma io_yields_pure: "(C \<Longrightarrow> io_yields P m Q) \<Longrightarrow> io_yields (\<lambda>w. C \<and> P w) m Q"
  by (auto simp: io_yields_def)

lemma io_yields_try: "io_yields P m Q \<Longrightarrow> io_yields P (io_try m) (\<lambda>r w. \<exists>x. r = Inr x \<and> Q x w)"
  by (fastforce simp: io_yields_def)

subsection \<open>Resource bounds\<close>

text \<open>\<open>io_costs f n m\<close>: a run of \<open>m\<close>, successful or not, raises the counter \<open>f\<close> of the world by at most \<open>n\<close>.\<close>

definition io_costs :: "('w \<Rightarrow> nat) \<Rightarrow> nat \<Rightarrow> ('w, 'a) io \<Rightarrow> bool" where
  "io_costs f n m \<longleftrightarrow> (\<forall>w r w'. m w = Some (r, w') \<longrightarrow> f w' \<le> f w + n)"

lemma io_costsD: "io_costs f n m \<Longrightarrow> m w = Some (r, w') \<Longrightarrow> f w' \<le> f w + n"
  by (simp add: io_costs_def)

lemma io_costs_mono: "io_costs f n m \<Longrightarrow> n \<le> n' \<Longrightarrow> io_costs f n' m"
  unfolding io_costs_def by (meson add_left_mono order_trans)

lemma io_costs_prim:
  "io_costs f n (io_return x)" "io_costs f n (io_fail e)" "io_costs f n (io_of r)" "io_costs f n (io_gets g)"
  by (simp_all add: io_costs_def)

lemma io_costs_ask: "ask_keeps f q \<Longrightarrow> io_costs f n (io_ask q)"
  by (auto simp: io_costs_def ask_keeps_def io_ask_conv) (metis le_add1 snd_conv)

lemma io_costs_wrap: "io_costs f n m \<Longrightarrow> io_costs f n (io_wrap g m)"
  by (auto simp: io_costs_def io_wrap_conv)

lemma io_costs_try: "io_costs f n m \<Longrightarrow> io_costs f n (io_try m)"
  by (auto simp: io_costs_def)

lemma io_costs_bind:
  assumes "io_costs f a m" and "\<And>x. io_costs f b (k x)"
  shows "io_costs f (a + b) (io_bind m k)"
  unfolding io_costs_def
proof (intro allI impI)
  fix w r w' assume "io_bind m k w = Some (r, w')"
  then consider e where "m w = Some (Inl e, w')" | x w1 where "m w = Some (Inr x, w1)" "k x w1 = Some (r, w')"
    by (auto simp: io_bind_conv)
  then show "f w' \<le> f w + (a + b)"
  proof cases
    case 1
    from io_costsD [OF assms(1) this] show ?thesis by simp
  next
    case (2 x w1)
    from io_costsD [OF assms(1) 2(1)] io_costsD [OF assms(2) 2(2)] show ?thesis by simp
  qed
qed

subsection \<open>Deferred calls\<close>

text \<open>\<open>defer c()\<close>, and a deferred clean-up that only runs when the function fails.\<close>

definition io_defer :: "('w \<Rightarrow> err option \<times> 'w) \<Rightarrow> ('w, 'a) io \<Rightarrow> ('w, 'a) io" where
  "io_defer c m = io_bind (io_try m) (\<lambda>r. io_bind (io_ask c) (\<lambda>_. io_of r))"

definition io_on_error :: "('w \<Rightarrow> err option \<times> 'w) \<Rightarrow> ('w, 'a) io \<Rightarrow> ('w, 'a) io" where
  "io_on_error c m =
     io_bind (io_try m) (\<lambda>r. case r of
       Inl e \<Rightarrow> io_bind (io_ask c) (\<lambda>_. io_fail e)
     | Inr x \<Rightarrow> io_return x)"

named_theorems keep_intros \<open>code that leaves a part of the world alone\<close>

lemma io_defer_eq: "io_defer c m w = (case m w of None \<Rightarrow> None | Some (r, w1) \<Rightarrow> Some (r, snd (c w1)))"
  by (cases "m w") (auto simp: io_defer_def io_bind_def io_try_def io_ask_def split: prod.splits)

lemma io_defer_conv: "io_defer c m w = Some (r, w') \<longleftrightarrow> (\<exists>w1. m w = Some (r, w1) \<and> w' = snd (c w1))"
  by (auto simp: io_defer_eq split: option.splits)

lemma io_on_error_eq:
  "io_on_error c m w =
     (case m w of None \<Rightarrow> None | Some (Inl e, w1) \<Rightarrow> Some (Inl e, snd (c w1)) | Some (Inr x, w1) \<Rightarrow> Some (Inr x, w1))"
  by (cases "m w") (auto simp: io_on_error_def io_bind_def io_try_def io_ask_def split: prod.splits sum.splits)

lemma io_on_error_conv:
  "io_on_error c m w = Some (r, w') \<longleftrightarrow>
     (\<exists>x. m w = Some (Inr x, w') \<and> r = Inr x) \<or> (\<exists>e w1. m w = Some (Inl e, w1) \<and> r = Inl e \<and> w' = snd (c w1))"
  by (auto simp: io_on_error_eq split: option.splits prod.splits sum.splits)

lemma keeps_prim [keep_intros]:
  "io_keeps f (io_return x)" "io_keeps f (io_fail e)" "io_keeps f (io_of r)"
  by (simp_all add: io_keeps_def)

lemma keeps_bind [keep_intros]: "io_keeps f m \<Longrightarrow> (\<And>x. io_keeps f (k x)) \<Longrightarrow> io_keeps f (io_bind m k)"
  unfolding io_keeps_def io_bind_conv by metis

lemma keeps_try [keep_intros]: "io_keeps f m \<Longrightarrow> io_keeps f (io_try m)"
  by (auto simp: io_keeps_def)

lemma keeps_wrap [keep_intros]: "io_keeps f m \<Longrightarrow> io_keeps f (io_wrap g m)"
  by (auto simp: io_keeps_def io_wrap_conv)

lemma keeps_ask [keep_intros]: "ask_keeps f q \<Longrightarrow> io_keeps f (io_ask q)"
  by (auto simp: io_keeps_def ask_keeps_def io_ask_conv) (metis snd_conv)

lemma keeps_split [keep_intros]:
  "(\<And>x. io_keeps f (j x)) \<Longrightarrow> (\<And>x. io_keeps f (k x)) \<Longrightarrow> io_keeps f (case z of Inl x \<Rightarrow> j x | Inr x \<Rightarrow> k x)"
  "(\<And>x y. io_keeps f (h x y)) \<Longrightarrow> io_keeps f (case p of (x, y) \<Rightarrow> h x y)"
  "io_keeps f m \<Longrightarrow> (\<And>x. io_keeps f (l x)) \<Longrightarrow> io_keeps f (case o' of None \<Rightarrow> m | Some x \<Rightarrow> l x)"
  "(b \<Longrightarrow> io_keeps f m) \<Longrightarrow> (\<not> b \<Longrightarrow> io_keeps f n) \<Longrightarrow> io_keeps f (if b then m else n)"
  "io_keeps f (v x) \<Longrightarrow> io_keeps f (Let x v)"
  by (auto split: sum.splits prod.splits option.splits)

subsection \<open>What a successful call establishes\<close>

text \<open>\<open>io_post m Q\<close>: every value that \<open>m\<close> returns without an error satisfies \<open>Q\<close>. \<open>returns m x\<close>: \<open>x\<close> is such a value.\<close>

definition io_post :: "('w, 'a) io \<Rightarrow> ('a \<Rightarrow> bool) \<Rightarrow> bool" where
  "io_post m Q \<longleftrightarrow> (\<forall>w x w'. m w = Some (Inr x, w') \<longrightarrow> Q x)"

definition returns :: "('w, 'a) io \<Rightarrow> 'a \<Rightarrow> bool" where
  "returns m x \<longleftrightarrow> (\<exists>w w'. m w = Some (Inr x, w'))"

lemma io_postD: "io_post m Q \<Longrightarrow> m w = Some (Inr x, w') \<Longrightarrow> Q x"
  unfolding io_post_def by blast

lemma returnsI: "m w = Some (Inr x, w') \<Longrightarrow> returns m x"
  by (auto simp: returns_def)

lemma returns_post: "io_post m Q \<Longrightarrow> returns m x \<Longrightarrow> Q x"
  by (auto simp: io_post_def returns_def)

lemma post_call: "io_post m (returns m)"
  by (auto simp: io_post_def returns_def)

lemma post_prim:
  "io_post (io_fail e) Q" "Q x \<Longrightarrow> io_post (io_return x) Q" "(\<And>x. r = Inr x \<Longrightarrow> Q x) \<Longrightarrow> io_post (io_of r) Q"
  by (auto simp: io_post_def)

lemma post_bind: "io_post m P \<Longrightarrow> (\<And>x. P x \<Longrightarrow> io_post (k x) Q) \<Longrightarrow> io_post (io_bind m k) Q"
  unfolding io_post_def io_bind_conv by blast

lemma post_wrap: "io_post m Q \<Longrightarrow> io_post (io_wrap g m) Q"
  by (auto simp: io_post_def io_wrap_conv)

lemma post_try: "io_post m Q \<Longrightarrow> io_post (io_try m) (\<lambda>r. \<forall>x. r = Inr x \<longrightarrow> Q x)"
  by (auto simp: io_post_def)

lemma post_defer: "io_post m Q \<Longrightarrow> io_post (io_defer c m) Q"
  by (auto simp: io_post_def io_defer_conv)

lemma post_on_error: "io_post m Q \<Longrightarrow> io_post (io_on_error c m) Q"
  by (auto simp: io_post_def io_on_error_conv)

lemma post_split:
  "(b \<Longrightarrow> io_post m Q) \<Longrightarrow> (\<not> b \<Longrightarrow> io_post n Q) \<Longrightarrow> io_post (if b then m else n) Q"
  "(\<And>x. z = Inl x \<Longrightarrow> io_post (j x) Q) \<Longrightarrow> (\<And>x. z = Inr x \<Longrightarrow> io_post (k x) Q) \<Longrightarrow>
   io_post (case z of Inl x \<Rightarrow> j x | Inr x \<Rightarrow> k x) Q"
  "(\<And>x y. p = (x, y) \<Longrightarrow> io_post (h x y) Q) \<Longrightarrow> io_post (case p of (x, y) \<Rightarrow> h x y) Q"
  "(q = None \<Longrightarrow> io_post m Q) \<Longrightarrow> (\<And>x. q = Some x \<Longrightarrow> io_post (l x) Q) \<Longrightarrow>
   io_post (case q of None \<Rightarrow> m | Some x \<Rightarrow> l x) Q"
  "io_post (v x) Q \<Longrightarrow> io_post (Let x v) Q"
  by (auto split: sum.splits prod.splits option.splits)

text \<open>Decomposition of a body from its first call on.\<close>

lemmas post_steps = post_prim post_defer post_on_error post_split post_bind [OF post_wrap [OF post_call]]
  post_bind [OF post_try [OF post_call]] post_bind [OF post_call]

text \<open>\<open>io_ok m Q\<close>: \<open>m\<close> never returns an error, and its value satisfies \<open>Q\<close>.\<close>

definition io_ok :: "('w, 'a) io \<Rightarrow> ('a \<Rightarrow> bool) \<Rightarrow> bool" where
  "io_ok m Q \<longleftrightarrow> (\<forall>w r w'. m w = Some (r, w') \<longrightarrow> (\<exists>x. r = Inr x \<and> Q x))"

lemma ok_return: "Q x \<Longrightarrow> io_ok (io_return x) Q"
  by (simp add: io_ok_def)

lemma ok_bind: "io_ok m P \<Longrightarrow> (\<And>x. P x \<Longrightarrow> io_ok (k x) Q) \<Longrightarrow> io_ok (io_bind m k) Q"
  unfolding io_ok_def io_bind_conv by blast

lemma ok_try: "io_post m Q \<Longrightarrow> io_ok (io_try m) (\<lambda>r. \<forall>x. r = Inr x \<longrightarrow> Q x)"
  unfolding io_ok_def io_post_def by (fastforce simp del: split_paired_All)

lemma ok_ask: "io_ok (io_ask q) (\<lambda>_. True)"
  by (auto simp: io_ok_def io_ask_conv)

lemma ok_defer: "io_ok m Q \<Longrightarrow> io_ok (io_defer c m) Q"
  by (auto simp: io_ok_def io_defer_conv)

lemma ok_split:
  "(b \<Longrightarrow> io_ok m Q) \<Longrightarrow> (\<not> b \<Longrightarrow> io_ok n Q) \<Longrightarrow> io_ok (if b then m else n) Q"
  "(\<And>x. z = Inl x \<Longrightarrow> io_ok (j x) Q) \<Longrightarrow> (\<And>x. z = Inr x \<Longrightarrow> io_ok (k x) Q) \<Longrightarrow>
   io_ok (case z of Inl x \<Rightarrow> j x | Inr x \<Rightarrow> k x) Q"
  "(\<And>x y. p = (x, y) \<Longrightarrow> io_ok (h x y) Q) \<Longrightarrow> io_ok (case p of (x, y) \<Rightarrow> h x y) Q"
  "(q = None \<Longrightarrow> io_ok m Q) \<Longrightarrow> (\<And>x. q = Some x \<Longrightarrow> io_ok (l x) Q) \<Longrightarrow>
   io_ok (case q of None \<Rightarrow> m | Some x \<Rightarrow> l x) Q"
  "io_ok (v x) Q \<Longrightarrow> io_ok (Let x v) Q"
  by (auto split: sum.splits prod.splits option.splits)

lemma ok_conseq: "io_ok m P \<Longrightarrow> (\<And>x. P x \<Longrightarrow> Q x) \<Longrightarrow> io_ok m Q"
  unfolding io_ok_def by blast

end
