(* ===== verification/UsbProtocol.thy ===== *)
theory UsbProtocol
  imports GoIO WireHid
begin

text \<open>
  CTAPHID transactions over one packet connection: \<open>pkg/transport/usb/hid_protocol.go\<close>,
  \<open>hid_exchange.go\<close>, \<open>hid_error.go\<close>, \<open>hid.go\<close> and the retry loop of \<open>hid_init.go\<close>. The packet connection
  and the context are parameters: \<open>ctxErr\<close> answers \<open>ctx.Err()\<close>, \<open>rd\<close> and \<open>wr\<close> are the functions
  \<open>readPacket\<close> and \<open>writePacket\<close> that the code passes around. The locale \<open>packet_source\<close> is the
  contract between a reader of packets and the transactions built on it.
\<close>

type_synonym 'w ctx_poll = "'w \<Rightarrow> err option \<times> 'w"

subsection \<open>Commands\<close>

definition hidCommandPing :: byte where "hidCommandPing = 0x81"
definition hidCommandInit :: byte where "hidCommandInit = 0x86"
definition hidCommandMsg :: byte where "hidCommandMsg = 0x83"
definition hidCommandCBOR :: byte where "hidCommandCBOR = 0x90"
definition hidCommandKeepalive :: byte where "hidCommandKeepalive = 0xbb"
definition hidCommandError :: byte where "hidCommandError = 0xbf"
definition hidErrorChannelBusy :: byte where "hidErrorChannelBusy = 0x06"
definition hidInitBusyRetries :: nat where "hidInitBusyRetries = 20"
definition hidBroadcastCID :: u32 where "hidBroadcastCID = 0xffffffff"
definition hidReportSize :: nat where "hidReportSize = 64"

definition validateHIDCommand :: "byte \<Rightarrow> err option" where
  "validateHIDCommand command =
     (if command = 0 \<or> command AND 0x80 \<noteq> 0 then Some (InvalidHIDCommandError command)
      else if command \<in> {0x06, 0x11, 0x3b, 0x3f} then Some (InvalidHIDCommandError command)
      else None)"

definition isCTAP1APDU :: "bytes \<Rightarrow> bool" where
  "isCTAP1APDU req =
     (if length req < 4 \<or> req ! 0 \<noteq> 0 then False else req ! 1 \<in> {1, 2, 3})"

definition hidCommandForRequest :: "bytes \<Rightarrow> byte" where
  "hidCommandForRequest req = (if isCTAP1APDU req then hidCommandMsg else hidCommandCBOR)"

definition classifyHIDError :: "err \<Rightarrow> err" where
  "classifyHIDError e =
     (if errors_is e (SHid HidRemoved) then Disconnected e
      else if errors_is e (SHid HidPermission) then PermissionDenied e
      else if errors_is e (SHid HidUnsupported) then Unsupported e
      else ClassifyCommon e)"

interpretation classify_hid: cause_preserving classifyHIDError
  by unfold_locales
    (auto simp: classifyHIDError_def Disconnected_def PermissionDenied_def Unsupported_def
      dest: subsetD [OF withCategory_keeps] subsetD [OF classify_common.keeps])

subsection \<open>Reading messages\<close>

text \<open>\<open>hidChannelReader\<close>: packets of full size for another channel are skipped.\<close>

partial_function (option) hidChannelReader ::
  "int \<Rightarrow> u32 \<Rightarrow> 'w ctx_poll \<Rightarrow> ('w, bytes) io \<Rightarrow> 'w \<Rightarrow> (bytes res \<times> 'w) option" where
  "hidChannelReader reportSize channelID ctxErr rd w =
     io_bind (io_check ctxErr) (\<lambda>_. io_bind rd (\<lambda>packet w.
       if int (length packet) = reportSize \<and> get32 (take 4 packet) \<noteq> channelID
       then hidChannelReader reportSize channelID ctxErr rd w
       else io_return packet w)) w"

definition isHIDCommandPacket :: "bytes \<Rightarrow> int \<Rightarrow> u32 \<Rightarrow> byte \<Rightarrow> bool" where
  "isHIDCommandPacket packet reportSize channelID command =
     (if int (length packet) \<noteq> reportSize then False
      else if get32 (take 4 packet) \<noteq> channelID then False
      else packet ! 4 = command)"

definition isHIDKeepalivePacket :: "bytes \<Rightarrow> int \<Rightarrow> u32 \<Rightarrow> bool" where
  "isHIDKeepalivePacket packet reportSize channelID =
     isHIDCommandPacket packet reportSize channelID hidCommandKeepalive"

text \<open>\<open>if err := assembler.Add(packet); err != nil { return err }\<close>; a failed \<open>Add\<close> ends the
  function, so the assembler is not needed any more.\<close>

definition hid_Add_res :: "hid_assembler \<Rightarrow> bytes \<Rightarrow> hid_assembler res" where
  "hid_Add_res a packet = (case hid_Add a packet of (a', None) \<Rightarrow> Inr a' | (a', Some e) \<Rightarrow> Inl e)"

text \<open>The loop shared by \<open>discardHIDMessage\<close> and \<open>readHIDError\<close>, and the \<open>Payload\<close> call after it.\<close>

partial_function (option) hid_assemble_rest ::
  "'w ctx_poll \<Rightarrow> ('w, bytes) io \<Rightarrow> hid_assembler \<Rightarrow> 'w \<Rightarrow> (bytes res \<times> 'w) option" where
  "hid_assemble_rest ctxErr rd a w =
     (if hid_Done a then io_of (hid_Payload a) w
      else io_bind (io_check ctxErr) (\<lambda>_. io_bind rd (\<lambda>packet. io_bind (io_of (hid_Add_res a packet))
        (\<lambda>a' w. hid_assemble_rest ctxErr rd a' w))) w)"

definition discardHIDMessage ::
  "'w ctx_poll \<Rightarrow> int \<Rightarrow> u32 \<Rightarrow> byte \<Rightarrow> bytes \<Rightarrow> ('w, bytes) io \<Rightarrow> ('w, unit) io" where
  "discardHIDMessage ctxErr reportSize channelID command firstPacket rd =
     io_bind (io_of (hid_NewCodec channelID command reportSize)) (\<lambda>codec.
     io_bind (io_of (hid_Add_res (hid_NewAssembler codec) firstPacket)) (\<lambda>a.
     io_bind (hid_assemble_rest ctxErr rd a) (\<lambda>_. io_return ())))"

text \<open>\<open>readHIDError\<close> always returns an error.\<close>

definition readHIDError ::
  "'w ctx_poll \<Rightarrow> int \<Rightarrow> u32 \<Rightarrow> bytes \<Rightarrow> ('w, bytes) io \<Rightarrow> ('w, 'a) io" where
  "readHIDError ctxErr reportSize channelID firstPacket rd =
     io_bind (io_of (hid_NewCodec channelID hidCommandError reportSize)) (\<lambda>codec.
     io_bind (io_of (hid_Add_res (hid_NewAssembler codec) firstPacket)) (\<lambda>a.
     io_bind (hid_assemble_rest ctxErr rd a) (\<lambda>payload.
       if length payload \<noteq> 1
       then io_fail (TextError ''transport/usb: invalid CTAPHID error payload length'')
       else io_fail (HIDError (payload ! 0)))))"

partial_function (option) readHIDMessage_loop ::
  "'w ctx_poll \<Rightarrow> int \<Rightarrow> u32 \<Rightarrow> ('w, bytes) io \<Rightarrow> hid_assembler \<Rightarrow> bool \<Rightarrow> 'w \<Rightarrow> (bytes res \<times> 'w) option" where
  "readHIDMessage_loop ctxErr reportSize channelID rd a firstPacket w =
     (if hid_Done a then io_of (hid_Payload a) w
      else io_bind (io_check ctxErr) (\<lambda>_. io_bind rd (\<lambda>packet w.
        if firstPacket \<and> isHIDKeepalivePacket packet reportSize channelID then
          io_bind (discardHIDMessage ctxErr reportSize channelID hidCommandKeepalive packet rd)
            (\<lambda>_ w. readHIDMessage_loop ctxErr reportSize channelID rd a firstPacket w) w
        else if firstPacket \<and> isHIDCommandPacket packet reportSize channelID hidCommandError then
          readHIDError ctxErr reportSize channelID packet rd w
        else io_bind (io_of (hid_Add_res a packet))
          (\<lambda>a' w. readHIDMessage_loop ctxErr reportSize channelID rd a' False w) w)) w)"

definition readHIDMessage ::
  "'w ctx_poll \<Rightarrow> int \<Rightarrow> u32 \<Rightarrow> byte \<Rightarrow> ('w, bytes) io \<Rightarrow> ('w, bytes) io" where
  "readHIDMessage ctxErr reportSize channelID command rd =
     io_bind (io_of (hid_NewCodec channelID command reportSize)) (\<lambda>codec.
       readHIDMessage_loop ctxErr reportSize channelID
         (hidChannelReader reportSize channelID ctxErr rd) (hid_NewAssembler codec) True)"

subsection \<open>One transaction\<close>

fun exchange_write ::
  "'w ctx_poll \<Rightarrow> (bytes \<Rightarrow> ('w, unit) io) \<Rightarrow> bytes list \<Rightarrow> ('w, unit) io" where
  "exchange_write ctxErr wr [] = io_return ()"
| "exchange_write ctxErr wr (packet # packets) =
     io_bind (io_wrap (TransportError ''write usb hid packet'') (io_check ctxErr)) (\<lambda>_.
     io_bind (io_wrap (\<lambda>e. TransportError ''write usb hid packet'' (classifyHIDError e)) (wr packet)) (\<lambda>_.
       exchange_write ctxErr wr packets))"

definition exchangeHIDMessage ::
  "'w ctx_poll \<Rightarrow> u32 \<Rightarrow> byte \<Rightarrow> int \<Rightarrow> bytes \<Rightarrow> (bytes \<Rightarrow> ('w, unit) io) \<Rightarrow> ('w, bytes) io \<Rightarrow> ('w, bytes) io" where
  "exchangeHIDMessage ctxErr channelID command reportSize payload wr rd =
     io_bind (io_wrap (\<lambda>e. TransportError ''fragment usb hid request'' (classifyHIDError e))
       (io_of (hid_NewCodec channelID command reportSize))) (\<lambda>codec.
     io_bind (io_wrap (\<lambda>e. TransportError ''fragment usb hid request'' (classifyHIDError e))
       (io_of (hid_Fragment codec payload))) (\<lambda>packets.
     io_bind (exchange_write ctxErr wr packets) (\<lambda>_.
       io_wrap (\<lambda>e. TransportError ''read usb hid response'' (classifyHIDError e))
         (readHIDMessage ctxErr reportSize channelID command rd))))"

subsection \<open>Handshake retries\<close>

definition handshake_retryable :: "'a res \<Rightarrow> bool" where
  "handshake_retryable r =
     (case r of
        Inr _ \<Rightarrow> False
      | Inl e \<Rightarrow> errors_as as_LocalWait e \<noteq> None \<or> errors_as as_HIDError e = Some hidErrorChannelBusy)"

text \<open>\<open>delay\<close> is the \<open>select\<close> between the retry timer (nil) and \<open>ctx.Done()\<close> (the context's error).\<close>

partial_function (option) retryHIDHandshake_loop ::
  "'w ctx_poll \<Rightarrow> 'w ctx_poll \<Rightarrow> ('w, 'a) io \<Rightarrow> nat \<Rightarrow> 'w \<Rightarrow> ('a res \<times> 'w) option" where
  "retryHIDHandshake_loop ctxErr delay exchange attempt w =
     io_bind (io_check ctxErr) (\<lambda>_. io_bind (io_try exchange) (\<lambda>r w.
       if \<not> handshake_retryable r \<or> attempt = hidInitBusyRetries then io_of r w
       else io_bind (io_check delay)
         (\<lambda>_ w. retryHIDHandshake_loop ctxErr delay exchange (Suc attempt) w) w)) w"

definition retryHIDHandshake :: "'w ctx_poll \<Rightarrow> 'w ctx_poll \<Rightarrow> ('w, 'a) io \<Rightarrow> ('w, 'a) io" where
  "retryHIDHandshake ctxErr delay exchange = retryHIDHandshake_loop ctxErr delay exchange 0"

subsection \<open>The contract of a packet source\<close>

text \<open>\<open>incoming w\<close> are the packets that reads will deliver from world \<open>w\<close>, while the context stays
  alive.\<close>

locale packet_source =
  fixes ctxErr :: "'w ctx_poll" and rd :: "('w, bytes) io" and incoming :: "'w \<Rightarrow> bytes list"
  assumes alive: "incoming w \<noteq> [] \<Longrightarrow> \<exists>w'. ctxErr w = (None, w') \<and> incoming w' = incoming w"
    and next_packet: "incoming w = p # ps \<Longrightarrow> \<exists>w'. rd w = Some (Inr p, w') \<and> incoming w' = ps"
begin

lemma poll_then_read:
  assumes "incoming w = p # ps"
  shows "\<exists>w'. incoming w' = ps \<and>
    (\<forall>k :: bytes \<Rightarrow> ('w, 'b) io. io_bind (io_check ctxErr) (\<lambda>_. io_bind rd k) w = k p w')"
proof -
  obtain w1 where w1: "ctxErr w = (None, w1)" "incoming w1 = p # ps" using alive [of w] assms by auto
  obtain w2 where "rd w1 = Some (Inr p, w2)" "incoming w2 = ps" using next_packet [OF w1(2)] by auto
  then show ?thesis using w1 by (auto simp: io_check_nil)
qed

text \<open>The channel filter turns a packet source into one for its channel.\<close>

lemma channel_reader_next:
  "filter (\<lambda>q. \<not> (int (length q) = n \<and> get32 (take 4 q) \<noteq> ch)) (incoming w) = p # ps \<Longrightarrow>
     \<exists>w'. hidChannelReader n ch ctxErr rd w = Some (Inr p, w') \<and>
       filter (\<lambda>q. \<not> (int (length q) = n \<and> get32 (take 4 q) \<noteq> ch)) (incoming w') = ps"
proof (induction "incoming w" arbitrary: w)
  case (Cons q qs)
  obtain w' where w': "incoming w' = qs"
    "hidChannelReader n ch ctxErr rd w =
      (if int (length q) = n \<and> get32 (take 4 q) \<noteq> ch then hidChannelReader n ch ctxErr rd w'
       else io_return q w')"
    using poll_then_read [OF Cons(2) [symmetric], where 'b = bytes]
    by (auto simp: hidChannelReader.simps [of n ch ctxErr rd w])
  show ?case
  proof (cases "int (length q) = n \<and> get32 (take 4 q) \<noteq> ch")
    case True
    have "filter (\<lambda>q. \<not> (int (length q) = n \<and> get32 (take 4 q) \<noteq> ch)) (incoming w') = p # ps"
      using Cons.prems w'(1) True by (simp flip: Cons(2))
    from Cons(1) [OF w'(1) [symmetric] this] w'(2) True show ?thesis by simp
  next
    case False
    with Cons.prems w' show ?thesis by (simp flip: Cons(2))
  qed
qed simp

lemma assemble_rest_delivers:
  "delivers hid_Add hid_Done hid_Payload a ps m \<Longrightarrow> incoming w = ps @ rest \<Longrightarrow>
     \<exists>w'. hid_assemble_rest ctxErr rd a w = Some (Inr m, w') \<and> incoming w' = rest"
proof (induction ps arbitrary: a w)
  case Nil
  then show ?case by (subst hid_assemble_rest.simps) simp
next
  case (Cons p ps)
  then have add: "\<not> hid_Done a" "hid_Add_res a p = Inr (fst (hid_Add a p))"
    by (auto simp: hid_Add_res_def split: prod.splits)
  have "incoming w = p # ps @ rest" using Cons.prems by simp
  from poll_then_read [OF this, where 'b = bytes] obtain w' where w': "incoming w' = ps @ rest"
    "hid_assemble_rest ctxErr rd a w = hid_assemble_rest ctxErr rd (fst (hid_Add a p)) w'"
    using add by (auto simp: hid_assemble_rest.simps [of ctxErr rd a w])
  from Cons.IH [OF _ w'(1)] Cons.prems w'(2) show ?case by simp
qed

text \<open>A whole message of the codec's channel and command, discarded.\<close>

lemma discard_message:
  assumes "hid_NewCodec ch cmd n = Inr c" "hid_Fragment c m = Inr (p # ps)" "incoming w = ps @ rest"
  shows "\<exists>w'. discardHIDMessage ctxErr n ch cmd p rd w = Some (Inr (), w') \<and> incoming w' = rest"
proof -
  have "delivers hid_Add hid_Done hid_Payload (hid_NewAssembler c) (p # ps) m"
    using hid_framing.frag_delivers hid_NewCodec_valid assms by blast
  then have add: "hid_Add_res (hid_NewAssembler c) p = Inr (fst (hid_Add (hid_NewAssembler c) p))"
    and rest: "delivers hid_Add hid_Done hid_Payload (fst (hid_Add (hid_NewAssembler c) p)) ps m"
    by (auto simp: hid_Add_res_def split: prod.splits)
  from assemble_rest_delivers [OF rest assms(3)] show ?thesis
    by (auto simp: discardHIDMessage_def assms(1) add)
qed

lemma read_error:
  assumes "hid_NewCodec ch hidCommandError n = Inr c" "hid_Fragment c [code] = Inr (p # ps)" "incoming w = ps @ rest"
  shows "\<exists>w'. readHIDError ctxErr n ch p rd w = Some (Inl (HIDError code), w') \<and> incoming w' = rest"
proof -
  have "delivers hid_Add hid_Done hid_Payload (hid_NewAssembler c) (p # ps) [code]"
    using hid_framing.frag_delivers hid_NewCodec_valid assms by blast
  then have add: "hid_Add_res (hid_NewAssembler c) p = Inr (fst (hid_Add (hid_NewAssembler c) p))"
    and rest: "delivers hid_Add hid_Done hid_Payload (fst (hid_Add (hid_NewAssembler c) p)) ps [code]"
    by (auto simp: hid_Add_res_def split: prod.splits)
  from assemble_rest_delivers [OF rest assms(3)] show ?thesis
    by (auto simp: readHIDError_def assms(1) add)
qed

text \<open>After its first packet, the main loop is the assembling loop.\<close>

lemma loop_delivers:
  "delivers hid_Add hid_Done hid_Payload a ps m \<Longrightarrow> incoming w = ps @ rest \<Longrightarrow>
     \<exists>w'. readHIDMessage_loop ctxErr n ch rd a False w = Some (Inr m, w') \<and> incoming w' = rest"
proof (induction ps arbitrary: a w)
  case Nil
  then show ?case by (subst readHIDMessage_loop.simps) simp
next
  case (Cons p ps)
  then have add: "\<not> hid_Done a" "hid_Add_res a p = Inr (fst (hid_Add a p))"
    by (auto simp: hid_Add_res_def split: prod.splits)
  have "incoming w = p # ps @ rest" using Cons.prems by simp
  from poll_then_read [OF this, where 'b = bytes] obtain w' where w': "incoming w' = ps @ rest"
    "readHIDMessage_loop ctxErr n ch rd a False w = readHIDMessage_loop ctxErr n ch rd (fst (hid_Add a p)) False w'"
    using add by (auto simp: readHIDMessage_loop.simps [of ctxErr n ch rd a False w])
  from Cons.IH [OF _ w'(1)] Cons.prems w'(2) show ?case by simp
qed

lemma loop_first:
  assumes "incoming w = p # ps" "\<not> hid_Done a"
  shows "\<exists>w'. incoming w' = ps \<and> readHIDMessage_loop ctxErr n ch rd a True w =
    (if isHIDKeepalivePacket p n ch then
       io_bind (discardHIDMessage ctxErr n ch hidCommandKeepalive p rd)
         (\<lambda>_ w. readHIDMessage_loop ctxErr n ch rd a True w) w'
     else if isHIDCommandPacket p n ch hidCommandError then readHIDError ctxErr n ch p rd w'
     else io_bind (io_of (hid_Add_res a p)) (\<lambda>a' w. readHIDMessage_loop ctxErr n ch rd a' False w) w')"
  using poll_then_read [OF assms(1), where 'b = bytes] assms(2)
  by (auto simp: readHIDMessage_loop.simps [of ctxErr n ch rd a True w])

lemma channel_source:
  "packet_source ctxErr (hidChannelReader n ch ctxErr rd)
     (\<lambda>w. filter (\<lambda>q. \<not> (int (length q) = n \<and> get32 (take 4 q) \<noteq> ch)) (incoming w))"
proof (unfold_locales, goal_cases)
  case (1 w)
  then have "incoming w \<noteq> []" by auto
  from alive [OF this] show ?case by auto
next
  case (2 w p ps)
  then show ?case by (rule channel_reader_next)
qed

end

subsection \<open>Receiving a response\<close>

lemma hid_first_packet:
  assumes "hid_NewCodec ch cmd n = Inr c" "hid_Fragment c m = Inr (p # ps)"
  shows "isHIDCommandPacket p n ch x \<longleftrightarrow> x = cmd"
proof -
  from assms(1) have c: "c = \<lparr>hc_channel = ch, hc_command = cmd, hc_reportSize = nat n\<rparr>" and n: "7 < n"
    by (auto simp: hid_NewCodec_def split: if_splits)
  with assms(2) have "p = hid_initial c m" by (auto simp: hid_Fragment_def Let_def split: if_splits)
  with c n show ?thesis by (auto simp: isHIDCommandPacket_def hid_initial_def nth_append)
qed

text \<open>Complete keepalive messages of one channel.\<close>

definition keepalives :: "int \<Rightarrow> u32 \<Rightarrow> bytes list list \<Rightarrow> bool" where
  "keepalives n ch ks \<longleftrightarrow>
     (\<forall>k \<in> set ks. \<exists>c m. hid_NewCodec ch hidCommandKeepalive n = Inr c \<and> hid_Fragment c m = Inr k)"

text \<open>What a channel's reader keeps of a packet sequence.\<close>

definition channel_packets :: "int \<Rightarrow> u32 \<Rightarrow> bytes list \<Rightarrow> bytes list" where
  "channel_packets n ch ps = filter (\<lambda>q. \<not> (int (length q) = n \<and> get32 (take 4 q) \<noteq> ch)) ps"

context packet_source
begin

lemma loop_keepalives:
  assumes "keepalives n ch ks" "incoming w = concat ks @ rest" "\<not> hid_Done a"
  shows "\<exists>w'. incoming w' = rest \<and>
    readHIDMessage_loop ctxErr n ch rd a True w = readHIDMessage_loop ctxErr n ch rd a True w'"
  using assms
proof (induction ks arbitrary: w)
  case (Cons k ks)
  then obtain c m where c: "hid_NewCodec ch hidCommandKeepalive n = Inr c" and F: "hid_Fragment c m = Inr k"
    by (auto simp: keepalives_def)
  obtain p ps where k: "k = p # ps"
    using hid_framing.frag_nonempty [OF hid_NewCodec_valid [OF c] F] by (cases k) auto
  then have "incoming w = p # ps @ concat ks @ rest" using Cons.prems by simp
  from loop_first [OF this Cons.prems(3), of n ch] obtain w1 where w1: "incoming w1 = ps @ concat ks @ rest"
    "readHIDMessage_loop ctxErr n ch rd a True w =
      io_bind (discardHIDMessage ctxErr n ch hidCommandKeepalive p rd)
         (\<lambda>_ w. readHIDMessage_loop ctxErr n ch rd a True w) w1"
    using hid_first_packet [OF c F [unfolded k]] by (auto simp: isHIDKeepalivePacket_def)
  from discard_message [OF c F [unfolded k] w1(1)] obtain w2 where
    w2: "discardHIDMessage ctxErr n ch hidCommandKeepalive p rd w1 = Some (Inr (), w2)"
      "incoming w2 = concat ks @ rest" by auto
  have "keepalives n ch ks" using Cons.prems(1) by (simp add: keepalives_def)
  from Cons.IH [OF this w2(2) Cons.prems(3)] show ?case using w1(2) w2(1) by simp
qed auto

lemma loop_receives:
  assumes "hid_NewCodec ch cmd n = Inr c" "hid_Fragment c m = Inr ps"
    and "cmd \<noteq> hidCommandKeepalive" "cmd \<noteq> hidCommandError"
    and "keepalives n ch ks" "incoming w = concat ks @ ps @ rest"
  shows "\<exists>w'. readHIDMessage_loop ctxErr n ch rd (hid_NewAssembler c) True w = Some (Inr m, w') \<and>
    incoming w' = rest"
proof -
  have start: "\<not> hid_Done (hid_NewAssembler c)" by (simp add: hid_NewAssembler_def hid_Done_def)
  have d: "delivers hid_Add hid_Done hid_Payload (hid_NewAssembler c) ps m"
    using hid_framing.frag_delivers hid_NewCodec_valid assms by blast
  then obtain p qs where ps: "ps = p # qs" using start by (cases ps) auto
  from loop_keepalives [OF assms(5,6) start] obtain w1 where w1: "incoming w1 = p # qs @ rest"
    "readHIDMessage_loop ctxErr n ch rd (hid_NewAssembler c) True w =
     readHIDMessage_loop ctxErr n ch rd (hid_NewAssembler c) True w1"
    using ps by auto
  have add: "hid_Add_res (hid_NewAssembler c) p = Inr (fst (hid_Add (hid_NewAssembler c) p))"
    using d ps by (auto simp: hid_Add_res_def split: prod.splits)
  from loop_first [OF w1(1) start, of n ch] obtain w2 where w2: "incoming w2 = qs @ rest"
    "readHIDMessage_loop ctxErr n ch rd (hid_NewAssembler c) True w1 =
     readHIDMessage_loop ctxErr n ch rd (fst (hid_Add (hid_NewAssembler c) p)) False w2"
    using assms(3,4) hid_first_packet [OF assms(1) assms(2) [unfolded ps]]
    by (auto simp: isHIDKeepalivePacket_def add)
  have "delivers hid_Add hid_Done hid_Payload (fst (hid_Add (hid_NewAssembler c) p)) qs m"
    using d ps by simp
  from loop_delivers [OF this w2(1)] w1(2) w2(2) show ?thesis by simp
qed

lemma loop_error:
  assumes "hid_NewCodec ch hidCommandError n = Inr c" "hid_Fragment c [code] = Inr ps"
    and "keepalives n ch ks" "incoming w = concat ks @ ps @ rest" "\<not> hid_Done a"
  shows "\<exists>w'. readHIDMessage_loop ctxErr n ch rd a True w = Some (Inl (HIDError code), w') \<and>
    incoming w' = rest"
proof -
  obtain p qs where ps: "ps = p # qs"
    using hid_framing.frag_nonempty [OF hid_NewCodec_valid [OF assms(1)] assms(2)] by (cases ps) auto
  from loop_keepalives [OF assms(3-5)] obtain w1 where w1: "incoming w1 = p # qs @ rest"
    "readHIDMessage_loop ctxErr n ch rd a True w = readHIDMessage_loop ctxErr n ch rd a True w1"
    using ps by auto
  from loop_first [OF w1(1) assms(5), of n ch] obtain w2 where w2: "incoming w2 = qs @ rest"
    "readHIDMessage_loop ctxErr n ch rd a True w1 = readHIDError ctxErr n ch p rd w2"
    using hid_first_packet [OF assms(1) assms(2) [unfolded ps]]
    by (auto simp: isHIDKeepalivePacket_def hidCommandKeepalive_def hidCommandError_def)
  from read_error [OF assms(1) assms(2) [unfolded ps] w2(1)] w1(2) w2(2) show ?thesis by simp
qed

end

subsection \<open>What the transactions preserve\<close>

lemma inv_channel_reader [inv_intros]:
  assumes "ask_inv P ctxErr" "io_inv P rd"
  shows "io_inv P (hidChannelReader n ch ctxErr rd)"
proof -
  have "ask_inv P ctxErr \<longrightarrow> io_inv P rd \<longrightarrow> P w \<longrightarrow> P (snd y)"
    if "hidChannelReader n ch ctxErr rd w = Some y" for w y
  proof (rule hidChannelReader.raw_induct [where P = "\<lambda>n ch c rd w y. ask_inv P c \<longrightarrow> io_inv P rd \<longrightarrow> P w \<longrightarrow> P (snd y)",
        OF _ that], intro impI, goal_cases)
    case (1 reader n ch c rd w y)
    have IH: "io_inv P (reader n ch c rd)" using 1(1) [rule_format, OF _ 1(3,4)] by (rule io_invI)
    show ?case
      by (rule io_inv_bindD [where P = P, OF 1(2)]) (intro inv_intros IH 1(3-5))+
  qed
  with assms show ?thesis by (intro io_invI) blast
qed

lemma inv_assemble_rest [inv_intros]:
  assumes "ask_inv P ctxErr" "io_inv P rd"
  shows "io_inv P (hid_assemble_rest ctxErr rd a)"
proof -
  have "ask_inv P ctxErr \<longrightarrow> io_inv P rd \<longrightarrow> P w \<longrightarrow> P (snd y)"
    if "hid_assemble_rest ctxErr rd a w = Some y" for w y
  proof (rule hid_assemble_rest.raw_induct [where P = "\<lambda>c rd a w y. ask_inv P c \<longrightarrow> io_inv P rd \<longrightarrow> P w \<longrightarrow> P (snd y)",
        OF _ that], intro impI, goal_cases)
    case (1 rest c rd a w y)
    have IH: "io_inv P (rest c rd a')" for a' using 1(1) [rule_format, OF _ 1(3,4)] by (rule io_invI)
    show ?case
    proof (cases "hid_Done a")
      case False
      then show ?thesis
        by (intro io_inv_bindD [where P = P, OF 1(2) [simplified if_not_P [OF False]]] inv_intros IH 1(3-5))
    qed (use 1(2,5) in auto)
  qed
  with assms show ?thesis by (intro io_invI) blast
qed

lemma inv_discard [inv_intros]:
  "ask_inv P ctxErr \<Longrightarrow> io_inv P rd \<Longrightarrow> io_inv P (discardHIDMessage ctxErr n ch cmd p rd)"
  unfolding discardHIDMessage_def by (intro inv_intros)

lemma inv_read_error [inv_intros]:
  "ask_inv P ctxErr \<Longrightarrow> io_inv P rd \<Longrightarrow> io_inv P (readHIDError ctxErr n ch p rd)"
  unfolding readHIDError_def by (intro inv_intros)

lemma inv_read_loop [inv_intros]:
  assumes "ask_inv P ctxErr" "io_inv P rd"
  shows "io_inv P (readHIDMessage_loop ctxErr n ch rd a b)"
proof -
  have "ask_inv P ctxErr \<longrightarrow> io_inv P rd \<longrightarrow> P w \<longrightarrow> P (snd y)"
    if "readHIDMessage_loop ctxErr n ch rd a b w = Some y" for w y
  proof (rule readHIDMessage_loop.raw_induct
        [where P = "\<lambda>c n ch rd a b w y. ask_inv P c \<longrightarrow> io_inv P rd \<longrightarrow> P w \<longrightarrow> P (snd y)",
        OF _ that], intro impI, goal_cases)
    case (1 loop c n ch rd a b w y)
    have IH: "io_inv P (loop c n ch rd a' b')" for a' b' using 1(1) [rule_format, OF _ 1(3,4)] by (rule io_invI)
    show ?case
    proof (cases "hid_Done a")
      case False
      then show ?thesis
        by (intro io_inv_bindD [where P = P, OF 1(2) [simplified if_not_P [OF False]]] inv_intros IH 1(3-5))
    qed (use 1(2,5) in auto)
  qed
  with assms show ?thesis by (intro io_invI) blast
qed

lemma inv_read_message [inv_intros]:
  "ask_inv P ctxErr \<Longrightarrow> io_inv P rd \<Longrightarrow> io_inv P (readHIDMessage ctxErr n ch cmd rd)"
  unfolding readHIDMessage_def by (intro inv_intros)

lemma inv_exchange_write [inv_intros]:
  "ask_inv P ctxErr \<Longrightarrow> (\<And>p. io_inv P (wr p)) \<Longrightarrow> io_inv P (exchange_write ctxErr wr ps)"
  by (induction ps) (auto intro!: inv_intros)

lemma inv_exchange [inv_intros]:
  "ask_inv P ctxErr \<Longrightarrow> (\<And>p. io_inv P (wr p)) \<Longrightarrow> io_inv P rd \<Longrightarrow>
     io_inv P (exchangeHIDMessage ctxErr ch cmd n req wr rd)"
  unfolding exchangeHIDMessage_def by (intro inv_intros)

lemma keeps_read_message:
  "ask_keeps f ctxErr \<Longrightarrow> io_keeps f rd \<Longrightarrow> io_keeps f (readHIDMessage ctxErr n ch cmd rd)"
  by (auto simp: io_keeps_inv ask_keeps_inv intro!: inv_read_message)

lemma inv_retry [inv_intros]:
  assumes "ask_inv P ctxErr" "ask_inv P delay" "io_inv P exchange"
  shows "io_inv P (retryHIDHandshake ctxErr delay exchange)"
proof -
  have "ask_inv P ctxErr \<longrightarrow> ask_inv P delay \<longrightarrow> io_inv P exchange \<longrightarrow> P w \<longrightarrow> P (snd y)"
    if "retryHIDHandshake_loop ctxErr delay exchange k w = Some y" for k w y
  proof (rule retryHIDHandshake_loop.raw_induct
        [where P = "\<lambda>c d x k w y. ask_inv P c \<longrightarrow> ask_inv P d \<longrightarrow> io_inv P x \<longrightarrow> P w \<longrightarrow> P (snd y)",
        OF _ that], intro impI, goal_cases)
    case (1 loop c d x k w y)
    have IH: "io_inv P (loop c d x k')" for k' using 1(1) [rule_format, OF _ 1(3-5)] by (rule io_invI)
    show ?case
      by (rule io_inv_bindD [where P = P, OF 1(2)]) (intro inv_intros IH 1(3-6))+
  qed
  with assms show ?thesis unfolding retryHIDHandshake_def by (intro io_invI) blast
qed

subsection \<open>The contract of a packet connection\<close>

text \<open>\<open>written w\<close> are the packets handed to the connection so far; a write that succeeds has recorded
  its packet, and one that fails has recorded it or never reached the connection.\<close>

locale packet_sink =
  fixes ctxErr :: "'w ctx_poll" and wr :: "bytes \<Rightarrow> ('w, unit) io" and rd :: "('w, bytes) io"
    and written :: "'w \<Rightarrow> bytes list"
  assumes poll_keeps: "ask_keeps written ctxErr"
    and read_keeps: "io_keeps written rd"
    and write_logs: "wr p w = Some (r, w') \<Longrightarrow>
      written w' = written w @ [p] \<or> (\<exists>e. r = Inl e) \<and> written w' = written w"
begin

lemma exchange_write_log:
  "exchange_write ctxErr wr ps w = Some (r, w') \<Longrightarrow>
     \<exists>k \<le> length ps. written w' = written w @ take k ps \<and> (r = Inr () \<longrightarrow> k = length ps)"
proof (induction ps arbitrary: w)
  case (Cons p ps)
  have poll: "written w' = written w" if "ctxErr w = (x, w')" for x w w'
    using poll_keeps that by (metis ask_keeps_def snd_conv)
  from Cons.prems consider
    (polled) e where "ctxErr w = (Some e, w')" "r \<noteq> Inr ()"
  | (failed) w1 e where "ctxErr w = (None, w1)" "wr p w1 = Some (Inl e, w')" "r \<noteq> Inr ()"
  | (sent) w1 w2 where "ctxErr w = (None, w1)" "wr p w1 = Some (Inr (), w2)" "exchange_write ctxErr wr ps w2 = Some (r, w')"
    by (auto simp: io_conv)
  then show ?case
  proof cases
    case polled
    with poll show ?thesis by (intro exI [of _ 0]) auto
  next
    case failed
    from write_logs [OF failed(2)] show ?thesis
    proof
      assume "written w' = written w1 @ [p]"
      with failed poll show ?thesis by (intro exI [of _ 1]) fastforce
    next
      assume "(\<exists>e'. Inl e = Inl e') \<and> written w' = written w1"
      with failed poll show ?thesis by (intro exI [of _ 0]) fastforce
    qed
  next
    case sent
    from Cons.IH [OF sent(3)] obtain k where "k \<le> length ps" "written w' = written w2 @ take k ps"
      "r = Inr () \<longrightarrow> k = length ps" by blast
    with poll [OF sent(1)] write_logs [OF sent(2)] show ?thesis by (intro exI [of _ "Suc k"]) auto
  qed
qed simp

lemma exchange_log:
  assumes "exchangeHIDMessage ctxErr ch cmd n req wr rd w = Some (r, w')"
    and "hid_NewCodec ch cmd n = Inr c" "hid_Fragment c req = Inr ps"
  shows "\<exists>k \<le> length ps. written w' = written w @ take k ps \<and> ((\<exists>m. r = Inr m) \<longrightarrow> k = length ps)"
proof -
  have rdm: "io_keeps written (readHIDMessage ctxErr n ch cmd rd)"
    by (intro keeps_read_message poll_keeps read_keeps)
  from assms consider e where "exchange_write ctxErr wr ps w = Some (Inl e, w')" "r = Inl e"
    | w1 r' where "exchange_write ctxErr wr ps w = Some (Inr (), w1)"
        "readHIDMessage ctxErr n ch cmd rd w1 = Some (r', w')"
    by (auto simp: exchangeHIDMessage_def io_conv)
  then show ?thesis
  proof cases
    case 1
    with exchange_write_log [OF 1(1)] show ?thesis by auto
  next
    case 2
    from exchange_write_log [OF 2(1)] have "written w1 = written w @ ps" by auto
    with io_keepsD [OF rdm 2(2)] show ?thesis by (intro exI [of _ "length ps"]) simp
  qed
qed

end

text \<open>A connection that works: as long as packets are coming, writes succeed.\<close>

locale packet_conn = packet_source ctxErr rd incoming + packet_sink ctxErr wr rd written
  for ctxErr :: "'w ctx_poll" and wr and rd and incoming and written +
  assumes write_ok: "incoming w \<noteq> [] \<Longrightarrow> \<exists>w'. wr p w = Some (Inr (), w') \<and> incoming w' = incoming w"
begin

lemma exchange_write_ok:
  "incoming w \<noteq> [] \<Longrightarrow>
     \<exists>w'. exchange_write ctxErr wr ps w = Some (Inr (), w') \<and> incoming w' = incoming w"
proof (induction ps arbitrary: w)
  case (Cons p ps)
  obtain w1 where w1: "ctxErr w = (None, w1)" "incoming w1 = incoming w" using alive Cons.prems by blast
  obtain w2 where w2: "wr p w1 = Some (Inr (), w2)" "incoming w2 = incoming w"
    using write_ok [of w1 p] w1 Cons.prems by auto
  with Cons obtain w3 where "exchange_write ctxErr wr ps w2 = Some (Inr (), w3)" "incoming w3 = incoming w"
    by metis
  with w1 w2 show ?case by (auto simp: io_bind_def io_check_def io_wrap_def)
qed simp

lemma exchange_write_then:
  assumes "hid_NewCodec ch cmd n = Inr c" "hid_Fragment c req = Inr ps" "incoming w \<noteq> []"
  shows "\<exists>w'. incoming w' = incoming w \<and> exchangeHIDMessage ctxErr ch cmd n req wr rd w =
    io_wrap (\<lambda>e. TransportError ''read usb hid response'' (classifyHIDError e))
      (readHIDMessage_loop ctxErr n ch (hidChannelReader n ch ctxErr rd) (hid_NewAssembler c) True) w'"
proof -
  obtain w' where "exchange_write ctxErr wr ps w = Some (Inr (), w')" "incoming w' = incoming w"
    using exchange_write_ok [OF assms(3)] by blast
  with assms show ?thesis
    by (intro exI [of _ w'])
      (simp add: exchangeHIDMessage_def readHIDMessage_def io_bind_def io_wrap_def)
qed

end

context packet_conn
begin

lemma exchange_response:
  assumes "hid_NewCodec ch cmd n = Inr c" "cmd \<notin> {hidCommandKeepalive, hidCommandError}"
    and "hid_Fragment c req = Inr ps" "hid_Fragment c m = Inr rs"
    and "keepalives n ch ks" "channel_packets n ch (incoming w) = concat ks @ rs @ later"
  shows "\<exists>w'. exchangeHIDMessage ctxErr ch cmd n req wr rd w = Some (Inr m, w') \<and>
    written w' = written w @ ps \<and> channel_packets n ch (incoming w') = later"
proof -
  have "rs \<noteq> []" using hid_framing.frag_nonempty [OF hid_NewCodec_valid [OF assms(1)] assms(4)] .
  then have "incoming w \<noteq> []" using assms(6) by (auto simp: channel_packets_def)
  from exchange_write_then [OF assms(1,3) this] obtain w1 where w1: "incoming w1 = incoming w"
    "exchangeHIDMessage ctxErr ch cmd n req wr rd w =
      io_wrap (\<lambda>e. TransportError ''read usb hid response'' (classifyHIDError e))
        (readHIDMessage_loop ctxErr n ch (hidChannelReader n ch ctxErr rd) (hid_NewAssembler c) True) w1" by blast
  from packet_source.loop_receives [OF channel_source [of n ch] assms(1,4) _ _ assms(5), where w = w1 and rest = later]
  obtain w2 where w2: "exchangeHIDMessage ctxErr ch cmd n req wr rd w = Some (Inr m, w2)"
    "channel_packets n ch (incoming w2) = later"
    using assms(2,6) w1 by (auto simp: channel_packets_def io_wrap_def)
  from exchange_log [OF w2(1) assms(1,3)] w2 show ?thesis by auto
qed

end

subsection \<open>Retrying the handshake\<close>

lemma retry_loop_bound:
  assumes "ask_keeps count ctxErr" "ask_keeps count delay"
    and "\<And>w r w'. exchange w = Some (r, w') \<Longrightarrow> count w' \<le> Suc (count w)"
    and "attempt \<le> hidInitBusyRetries"
    and "retryHIDHandshake_loop ctxErr delay exchange attempt w = Some (r, w')"
  shows "count w' + attempt \<le> count w + Suc hidInitBusyRetries"
  using assms(4,5)
proof (induction "hidInitBusyRetries - attempt" arbitrary: attempt w)
  case (0 attempt w)
  then have "attempt = hidInitBusyRetries" by simp
  moreover have poll: "count w' = count w" if "ctxErr w = (x, w')" for x w w'
    using assms(1) that by (metis ask_keeps_def snd_conv)
  ultimately show ?case
    using 0(3) assms(3) by (subst (asm) retryHIDHandshake_loop.simps) (fastforce simp: io_conv dest!: poll)
next
  case (Suc n attempt w)
  have poll: "count w' = count w" if "ctxErr w = (x, w') \<or> delay w = (x, w')" for x w w'
    using assms(1,2) that by (metis ask_keeps_def snd_conv)
  from Suc(4) consider e where "ctxErr w = (Some e, w')"
    | w1 r' where "ctxErr w = (None, w1)" "exchange w1 = Some (r', w')"
    | w1 r' w2 e where "ctxErr w = (None, w1)" "exchange w1 = Some (r', w2)" "delay w2 = (Some e, w')"
    | w1 r' w2 w3 where "ctxErr w = (None, w1)" "exchange w1 = Some (r', w2)" "delay w2 = (None, w3)"
        "retryHIDHandshake_loop ctxErr delay exchange (Suc attempt) w3 = Some (r, w')"
    by (subst (asm) retryHIDHandshake_loop.simps) (auto simp: io_conv split: if_splits)
  then show ?case
  proof cases
    case 4
    have "count w' + Suc attempt \<le> count w3 + Suc hidInitBusyRetries"
      using Suc(1) [of "Suc attempt" w3] Suc(2,3) 4(4) by simp
    moreover have "count w3 \<le> Suc (count w)" using poll 4(1-3) assms(3) by metis
    ultimately show ?thesis by simp
  qed (use poll assms(3) Suc(2,3) in \<open>fastforce+\<close>)
qed

lemma retry_loop_unfold:
  "retryHIDHandshake_loop ctxErr delay exchange attempt =
     io_bind (io_check ctxErr) (\<lambda>_. io_bind (io_try exchange) (\<lambda>r w.
       if \<not> handshake_retryable r \<or> attempt = hidInitBusyRetries then io_of r w
       else io_bind (io_check delay)
         (\<lambda>_ w. retryHIDHandshake_loop ctxErr delay exchange (Suc attempt) w) w))"
  by (rule ext) (rule retryHIDHandshake_loop.simps)

lemma retry_loop_returns:
  assumes "io_total exchange" "attempt \<le> hidInitBusyRetries"
  shows "io_total (retryHIDHandshake_loop ctxErr delay exchange attempt)"
  using assms(2)
proof (induction "hidInitBusyRetries - attempt" arbitrary: attempt)
  case (0 attempt)
  then have "attempt = hidInitBusyRetries" by simp
  then show ?case by (subst retry_loop_unfold) (intro total_intros assms(1); simp)
next
  case (Suc n attempt)
  have "io_total (retryHIDHandshake_loop ctxErr delay exchange (Suc attempt))"
    using Suc(1) [of "Suc attempt"] Suc(2,3) by simp
  then show ?case by (subst retry_loop_unfold) (intro total_intros assms(1))
qed

subsection \<open>A scripted connection\<close>

text \<open>A connection that delivers a fixed list of packets and records what is written.\<close>

record tape =
  tp_incoming :: "bytes list"
  tp_written :: "bytes list"

definition tape_ctxErr :: "tape ctx_poll" where
  "tape_ctxErr w = (None, w)"

definition tape_read :: "(tape, bytes) io" where
  "tape_read w = (case tp_incoming w of [] \<Rightarrow> None | p # ps \<Rightarrow> Some (Inr p, w\<lparr>tp_incoming := ps\<rparr>))"

definition tape_write :: "bytes \<Rightarrow> (tape, unit) io" where
  "tape_write p w = Some (Inr (), w\<lparr>tp_written := tp_written w @ [p]\<rparr>)"

interpretation tape_conn: packet_conn tape_ctxErr tape_write tape_read tp_incoming tp_written
  by unfold_locales
    (auto simp: tape_ctxErr_def tape_write_def tape_read_def ask_keeps_def io_keeps_def split: list.splits)

subsection \<open>Properties\<close>

text \<open>A transaction returns the device's response. On a working connection, if the packets of the
  transaction's channel are complete keepalive messages followed by the reports of a response
  \<open>m\<close>, arbitrarily interleaved with reports of other channels, then \<open>exchangeHIDMessage\<close> returns
  exactly \<open>m\<close>; it has written exactly the reports of the request, in order, and the channel's
  later packets are left unread.\<close>

theorem exchange_returns_response:
  assumes "packet_conn ctxErr wr rd incoming written"
    and "hid_NewCodec ch cmd n = Inr c" and "cmd \<notin> {hidCommandKeepalive, hidCommandError}"
    and "hid_Fragment c req = Inr ps" and "hid_Fragment c m = Inr rs"
    and "keepalives n ch ks"
    and "channel_packets n ch (incoming w) = concat ks @ rs @ later"
  shows "\<exists>w'. exchangeHIDMessage ctxErr ch cmd n req wr rd w = Some (Inr m, w') \<and>
    written w' = written w @ ps \<and> channel_packets n ch (incoming w') = later"
  by (rule packet_conn.exchange_response [OF assms])

theorem exchange_returns_response_witness:
  "\<exists>c ps rs w'. hid_NewCodec 5 0x90 8 = Inr c \<and> hid_Fragment c [1] = Inr ps \<and> hid_Fragment c [7, 8] = Inr rs \<and>
     exchangeHIDMessage tape_ctxErr 5 0x90 8 [1] tape_write tape_read
       \<lparr>tp_incoming = [0, 0, 0, 9, 0x90, 0, 1, 3] # [0, 0, 0, 5, 0xbb, 0, 1, 2] # rs, tp_written = []\<rparr>
       = Some (Inr [7, 8], w') \<and> tp_written w' = ps"
proof -
  let ?c = "\<lparr>hc_channel = 5, hc_command = 0x90, hc_reportSize = 8\<rparr>"
  let ?k = "\<lparr>hc_channel = 5, hc_command = 0xbb, hc_reportSize = 8\<rparr>"
  note ev = hid_NewCodec_def hid_Fragment_def hid_maxPayloadSize_def Let_def hid_fragment_loop.simps
    hid_initial_def hid_continuation_def be32_def be16_def pad_to_def
  have two: "replicate 2 x = [x, x]" for x :: byte by (simp add: numeral_2_eq_2)
  have c: "hid_NewCodec 5 0x90 8 = Inr ?c" and k: "hid_NewCodec 5 0xbb 8 = Inr ?k" by (simp_all add: ev)
  have p: "hid_Fragment ?c [1] = Inr [[0, 0, 0, 5, 0x90, 0, 1, 1]]"
    and r: "hid_Fragment ?c [7, 8] = Inr [[0, 0, 0, 5, 0x90, 0, 2, 7], [0, 0, 0, 5, 0, 8, 0, 0]]"
    and kf: "hid_Fragment ?k [2] = Inr [[0, 0, 0, 5, 0xbb, 0, 1, 2]]"
    by (simp_all add: ev two)
  have ka: "keepalives 8 5 [[[0, 0, 0, 5, 0xbb, 0, 1, 2]]]"
    using k kf by (auto simp: keepalives_def hidCommandKeepalive_def)
  let ?rs = "[[0, 0, 0, 5, 0x90, 0, 2, 7], [0, 0, 0, 5, 0, 8, 0, 0]] :: bytes list"
  let ?w = "\<lparr>tp_incoming = [0, 0, 0, 9, 0x90, 0, 1, 3] # [0, 0, 0, 5, 0xbb, 0, 1, 2] # ?rs, tp_written = []\<rparr>"
  have "channel_packets 8 5 (tp_incoming ?w) = concat [[[0, 0, 0, 5, 0xbb, 0, 1, 2]]] @ ?rs @ []"
    by (simp add: channel_packets_def get32_def)
  from exchange_returns_response [where incoming = tp_incoming and w = ?w and later = "[]", OF tape_conn.packet_conn_axioms c _ p r ka this]
  show ?thesis using c p r by (auto simp: hidCommandKeepalive_def hidCommandError_def)
qed

text \<open>A device error is reported as such: if the channel's packets are keepalive messages and then
  a CTAPHID ERROR message with one byte \<open>code\<close>, \<open>exchangeHIDMessage\<close> fails, and \<open>errors.As\<close> finds in its error
  the \<open>HIDError\<close> with that code.\<close>

theorem exchange_reports_device_error:
  assumes "packet_conn ctxErr wr rd incoming written"
    and "hid_NewCodec ch cmd n = Inr c" and "hid_Fragment c req = Inr ps"
    and "hid_NewCodec ch hidCommandError n = Inr ce" and "hid_Fragment ce [code] = Inr es"
    and "keepalives n ch ks"
    and "channel_packets n ch (incoming w) = concat ks @ es @ later"
  shows "\<exists>e w'. exchangeHIDMessage ctxErr ch cmd n req wr rd w = Some (Inl e, w') \<and>
    errors_as as_HIDError e = Some code \<and> written w' = written w @ ps"
proof -
  have src: "packet_source ctxErr rd incoming" and snk: "packet_sink ctxErr wr rd written"
    using assms(1) by (simp_all add: packet_conn_def)
  have "es \<noteq> []" using hid_framing.frag_nonempty [OF hid_NewCodec_valid [OF assms(4)] assms(5)] .
  then have "incoming w \<noteq> []" using assms(7) by (auto simp: channel_packets_def)
  from packet_conn.exchange_write_ok [OF assms(1) this, where ps = ps] obtain w1 where
    w1: "exchange_write ctxErr wr ps w = Some (Inr (), w1)" "incoming w1 = incoming w" by blast
  have "\<not> hid_Done (hid_NewAssembler c)" by (simp add: hid_NewAssembler_def hid_Done_def)
  with packet_source.loop_error [OF packet_source.channel_source [OF src, of n ch] assms(4,5,6),
      where w = w1 and rest = later and a = "hid_NewAssembler c"]
  obtain w2 where w2: "readHIDMessage ctxErr n ch cmd rd w1 = Some (Inl (HIDError code), w2)"
    using assms(2,7) w1 by (auto simp: channel_packets_def readHIDMessage_def)
  then have "exchangeHIDMessage ctxErr ch cmd n req wr rd w =
      Some (Inl (TransportError ''read usb hid response'' (classifyHIDError (HIDError code))), w2)"
    using assms(2,3) w1 by (simp add: exchangeHIDMessage_def io_bind_def io_wrap_def)
  moreover have "written w2 = written w @ ps"
  proof -
    have "io_keeps written (readHIDMessage ctxErr n ch cmd rd)"
      using snk by (intro keeps_read_message) (simp_all add: packet_sink_def)
    from io_keepsD [OF this w2] packet_sink.exchange_write_log [OF snk w1(1)] show ?thesis by auto
  qed
  ultimately show ?thesis
    by (simp add: classifyHIDError_def ClassifyCommon_def errors_is_def hasCategory_def errors_as_def)
qed

theorem exchange_reports_device_error_witness:
  "\<exists>e w'. exchangeHIDMessage tape_ctxErr 5 0x90 8 [1] tape_write tape_read
       \<lparr>tp_incoming = [[0, 0, 0, 5, 0xbf, 0, 1, 6]], tp_written = []\<rparr> = Some (Inl e, w') \<and>
     errors_as as_HIDError e = Some 6"
proof -
  let ?c = "\<lparr>hc_channel = 5, hc_command = 0x90, hc_reportSize = 8\<rparr>"
  let ?e = "\<lparr>hc_channel = 5, hc_command = 0xbf, hc_reportSize = 8\<rparr>"
  note ev = hid_NewCodec_def hid_Fragment_def hid_maxPayloadSize_def Let_def hid_fragment_loop.simps
    hid_initial_def be32_def be16_def pad_to_def hidCommandError_def
  have c: "hid_NewCodec 5 0x90 8 = Inr ?c" and k: "hid_NewCodec 5 hidCommandError 8 = Inr ?e" by (simp_all add: ev)
  have p: "hid_Fragment ?c [1] = Inr [[0, 0, 0, 5, 0x90, 0, 1, 1]]"
    and e: "hid_Fragment ?e [6] = Inr [[0, 0, 0, 5, 0xbf, 0, 1, 6]]"
    by (simp_all add: ev)
  let ?w = "\<lparr>tp_incoming = [[0, 0, 0, 5, 0xbf, 0, 1, 6]], tp_written = []\<rparr>"
  have ka: "keepalives 8 5 []" by (simp add: keepalives_def)
  have "channel_packets 8 5 (tp_incoming ?w) = concat [] @ [[0, 0, 0, 5, 0xbf, 0, 1, 6]] @ []"
    by (simp add: channel_packets_def get32_def)
  from exchange_reports_device_error [where incoming = tp_incoming and w = ?w and later = "[]", OF tape_conn.packet_conn_axioms c p k e ka this]
  show ?thesis by blast
qed

text \<open>C8. A request is never sent twice: over any connection that records writes, whatever the outcome
  of \<open>exchangeHIDMessage\<close>, the packets written are a prefix of the request's reports, each written
  once and in order, and all of them when a response is returned.\<close>

theorem exchange_sends_once:
  assumes "packet_sink ctxErr wr rd written"
    and "hid_NewCodec ch cmd n = Inr c" and "hid_Fragment c req = Inr ps"
    and "exchangeHIDMessage ctxErr ch cmd n req wr rd w = Some (r, w')"
  shows "\<exists>k \<le> length ps. written w' = written w @ take k ps \<and> ((\<exists>m. r = Inr m) \<longrightarrow> k = length ps)"
  by (rule packet_sink.exchange_log [OF assms(1,4,2,3)])

theorem exchange_sends_once_witness:
  "\<exists>r w'. exchangeHIDMessage tape_ctxErr 5 0x90 8 [1] tape_write tape_read
       \<lparr>tp_incoming = [[1]], tp_written = []\<rparr> = Some (r, w') \<and>
     (\<exists>k \<le> 1. tp_written w' = take k [[0, 0, 0, 5, 0x90, 0, 1, 1]])"
proof -
  let ?c = "\<lparr>hc_channel = 5, hc_command = 0x90, hc_reportSize = 8\<rparr>"
  let ?w = "\<lparr>tp_incoming = [[1]], tp_written = []\<rparr>"
  note ev = hid_NewCodec_def hid_Fragment_def hid_maxPayloadSize_def Let_def hid_fragment_loop.simps
    hid_initial_def be32_def be16_def pad_to_def hidCommandError_def
  have c: "hid_NewCodec 5 0x90 8 = Inr ?c" by (simp add: ev)
  have p: "hid_Fragment ?c [1] = Inr [[0, 0, 0, 5, 0x90, 0, 1, 1]]" by (simp add: ev)
  have a: "\<not> hid_Done (hid_NewAssembler ?c)" "hid_Add_res (hid_NewAssembler ?c) [1] = Inl (wirehid InvalidPacket)"
    by (simp_all add: hid_Done_def hid_NewAssembler_def hid_Add_res_def hid_Add_def)
  have "\<exists>r w'. exchangeHIDMessage tape_ctxErr 5 0x90 8 [1] tape_write tape_read ?w = Some (r, w')"
    using c p a
    by (simp add: exchangeHIDMessage_def readHIDMessage_def io_bind_def io_wrap_def io_check_def tape_ctxErr_def
        tape_write_def readHIDMessage_loop.simps [of _ _ _ _ "hid_NewAssembler ?c"] hidChannelReader.simps
        tape_read_def isHIDKeepalivePacket_def isHIDCommandPacket_def)
  then obtain r w' where x: "exchangeHIDMessage tape_ctxErr 5 0x90 8 [1] tape_write tape_read ?w = Some (r, w')"
    by blast
  from exchange_sends_once [OF tape_conn.packet_sink_axioms c p x] show ?thesis using x by auto
qed

text \<open>The handshake retry loop ends: if the exchange and the delay always return, so does
  \<open>retryHIDHandshake\<close>, and it makes at most 21 exchanges (the first one and \<open>hidInitBusyRetries\<close> retries),
  counted by any counter that an exchange increases by at most one.\<close>

theorem retry_bounded:
  assumes "io_total exchange" and "ask_keeps count ctxErr" and "ask_keeps count delay"
    and "\<And>w r w'. exchange w = Some (r, w') \<Longrightarrow> count w' \<le> Suc (count w)"
  shows "\<exists>r w'. retryHIDHandshake ctxErr delay exchange w = Some (r, w') \<and> count w' \<le> count w + 21"
proof -
  obtain r w' where x: "retryHIDHandshake ctxErr delay exchange w = Some (r, w')"
    using retry_loop_returns [OF assms(1) le0, of ctxErr delay] unfolding retryHIDHandshake_def
    by (elim io_totalE) auto
  have "count w' + 0 \<le> count w + Suc hidInitBusyRetries"
    by (rule retry_loop_bound [OF assms(2-4)]) (use x in \<open>simp_all add: retryHIDHandshake_def\<close>)
  with x show ?thesis by (simp add: hidInitBusyRetries_def)
qed

theorem retry_bounded_witness:
  "\<exists>r w'. retryHIDHandshake (\<lambda>w. (None, w)) (\<lambda>w. (None, w))
       (\<lambda>w. Some (Inl (HIDError hidErrorChannelBusy) :: unit res, Suc w)) 0 = Some (r, w') \<and> w' \<le> 21"
  using retry_bounded [of "\<lambda>w. Some (Inl (HIDError hidErrorChannelBusy) :: unit res, Suc w)" "\<lambda>w. w"
      "\<lambda>w. (None, w)" "\<lambda>w. (None, w)" 0]
  by (simp add: io_total_def ask_keeps_def)

end
