(* ===== verification/HidTypes.thy ===== *)
theory HidTypes
  imports GoErrors
begin

text \<open>
  Data of the HID package: reports (\<open>pkg/hid/report.go\<close>), endpoints, filters and snapshots
  (\<open>endpoint.go\<close>), metadata matching (\<open>metadata.go\<close>), the shared resource admission
  (\<open>resources.go\<close>), and what \<open>Native.Enumerate\<close> makes of a driver's inventory (\<open>native.go\<close>).
  The driver package (\<open>internal/driver/driver.go\<close>) has the same field, usage, bus, endpoint and report
  types under its own name; the conversions between the two copy every field, so one type serves both.
\<close>

subsection \<open>Reports and endpoints\<close>

record report_spec =
  rs_ID :: byte
  rs_Size :: int

record report_layout =
  rl_Input :: report_spec
  rl_Output :: report_spec

record report =
  rp_ID :: byte
  rp_Data :: bytes

record 'a field =
  fd_Value :: 'a
  fd_Known :: bool

record usage =
  us_Page :: u16
  us_ID :: u16

datatype bus = BusUnknown | BusUSB | BusBluetooth | BusI2C | BusSPI | BusOther

record endpoint =
  ep_ID :: string
  ep_Path :: string
  ep_VendorID :: "u16 field"
  ep_ProductID :: "u16 field"
  ep_Usage :: "usage field"
  ep_Interface :: "int field"
  ep_Bus :: bus
  ep_Serial :: "string field"
  ep_Manufacturer :: "string field"
  ep_Product :: "string field"

text \<open>A nil pointer of \<open>Filter\<close> is \<open>None\<close>.\<close>

record hid_filter =
  hf_VendorID :: "u16 option"
  hf_ProductID :: "u16 option"
  hf_Usage :: "usage option"
  hf_Bus :: "bus option"

record enumerate_options =
  eo_Filter :: hid_filter
  eo_ResolveStrings :: bool

record hid_snapshot =
  sn_Endpoints :: "endpoint list"
  sn_Complete :: bool
  sn_Warnings :: "err option list"

definition MaxReportSize :: int where "MaxReportSize = 4096"
definition InputQueueSize :: nat where "InputQueueSize = 64"
definition MaxInventoryEndpoints :: nat where "MaxInventoryEndpoints = 1024"
definition MaxMetadataSize :: nat where "MaxMetadataSize = 4096"

subsection \<open>Metadata matching\<close>

definition matchesField :: "'a field \<Rightarrow> 'a field \<Rightarrow> bool" where
  "matchesField expected actual \<longleftrightarrow>
     \<not> fd_Known expected \<or> fd_Known actual \<and> fd_Value expected = fd_Value actual"

definition matchesEndpoint :: "endpoint \<Rightarrow> endpoint \<Rightarrow> bool" where
  "matchesEndpoint expected actual \<longleftrightarrow>
     ep_ID expected = ep_ID actual \<and> (ep_Path expected = [] \<or> ep_Path expected = ep_Path actual) \<and>
     matchesField (ep_VendorID expected) (ep_VendorID actual) \<and>
     matchesField (ep_ProductID expected) (ep_ProductID actual) \<and>
     matchesField (ep_Usage expected) (ep_Usage actual) \<and>
     matchesField (ep_Interface expected) (ep_Interface actual) \<and>
     matchesField (ep_Serial expected) (ep_Serial actual) \<and>
     matchesField (ep_Manufacturer expected) (ep_Manufacturer actual) \<and>
     matchesField (ep_Product expected) (ep_Product actual) \<and>
     (ep_Bus expected = BusUnknown \<or> ep_Bus expected = ep_Bus actual)"

text \<open>The closure \<open>check\<close> of \<open>matchFilter\<close>, on the pair of its variables \<open>match\<close> and \<open>unknown\<close>.\<close>

definition filter_check :: "bool \<Rightarrow> bool \<Rightarrow> bool \<Rightarrow> bool \<times> bool \<Rightarrow> bool \<times> bool" where
  "filter_check requested known equal mu =
     (if \<not> requested then mu
      else if \<not> known then (fst mu, True)
      else if \<not> equal then (False, snd mu)
      else mu)"

definition matchFilter :: "endpoint \<Rightarrow> hid_filter \<Rightarrow> bool \<times> bool" where
  "matchFilter e f =
     (let mu0 = (True, False);
          mu1 = (case hf_VendorID f of None \<Rightarrow> mu0
                 | Some v \<Rightarrow> filter_check True (fd_Known (ep_VendorID e)) (fd_Value (ep_VendorID e) = v) mu0);
          mu2 = (case hf_ProductID f of None \<Rightarrow> mu1
                 | Some v \<Rightarrow> filter_check True (fd_Known (ep_ProductID e)) (fd_Value (ep_ProductID e) = v) mu1);
          mu3 = (case hf_Usage f of None \<Rightarrow> mu2
                 | Some v \<Rightarrow> filter_check True (fd_Known (ep_Usage e)) (fd_Value (ep_Usage e) = v) mu2);
          mu4 = (case hf_Bus f of None \<Rightarrow> mu3
                 | Some v \<Rightarrow> filter_check True (ep_Bus e \<noteq> BusUnknown) (ep_Bus e = v) mu3)
      in if \<not> fst mu4 then (False, False) else (\<not> snd mu4, snd mu4))"

definition boundedEndpoint :: "endpoint \<Rightarrow> bool" where
  "boundedEndpoint e \<longleftrightarrow>
     list_all (\<lambda>value. length value \<le> MaxMetadataSize)
       [ep_ID e, ep_Path e, fd_Value (ep_Serial e), fd_Value (ep_Manufacturer e), fd_Value (ep_Product e)]"

subsection \<open>Enumeration\<close>

text \<open>The bounds that \<open>Enumerate\<close>'s worker puts on a driver's raw answer.\<close>

definition enumerate_bound :: "hid_snapshot \<times> err option \<Rightarrow> hid_snapshot \<times> err option" where
  "enumerate_bound r =
     (let (raw, e) = r;
          (raw1, e1) =
            (if length (sn_Endpoints raw) > MaxInventoryEndpoints
             then (raw\<lparr>sn_Endpoints := take MaxInventoryEndpoints (sn_Endpoints raw), sn_Complete := False\<rparr>,
                   errors_join [e, Some (Sentinel (SHid HidResourceLimit))])
             else (raw, e))
      in if length (sn_Warnings raw1) > MaxInventoryEndpoints
         then (raw1\<lparr>sn_Warnings := take MaxInventoryEndpoints (sn_Warnings raw1), sn_Complete := False\<rparr>,
               errors_join [e1, Some (Sentinel (SHid HidResourceLimit))])
         else (raw1, e1))"

definition hide_strings :: "bool \<Rightarrow> endpoint \<Rightarrow> endpoint" where
  "hide_strings resolve e =
     (if \<not> resolve
      then e\<lparr>ep_Serial := \<lparr>fd_Value = [], fd_Known = False\<rparr>,
             ep_Manufacturer := \<lparr>fd_Value = [], fd_Known = False\<rparr>,
             ep_Product := \<lparr>fd_Value = [], fd_Known = False\<rparr>\<rparr>
      else e)"

definition enumerate_item :: "enumerate_options \<Rightarrow> endpoint \<Rightarrow> hid_snapshot \<Rightarrow> hid_snapshot" where
  "enumerate_item opt item s =
     (let e = hide_strings (eo_ResolveStrings opt) item;
          (match, unknown) = matchFilter e (eo_Filter opt);
          s1 = (if unknown
                then s\<lparr>sn_Complete := False,
                       sn_Warnings := sn_Warnings s @ [Some (operationError ''filter'' (ep_ID e)
                         (WrapError ''metadata required by the filter is unknown: %w'' [Sentinel (SHid HidIO)]))]\<rparr>
                else s)
      in if match then s1\<lparr>sn_Endpoints := sn_Endpoints s1 @ [e]\<rparr> else s1)"

text \<open>The body of the worker goroutine of \<open>Native.Enumerate\<close>: the snapshot and the error that
  \<open>Enumerate\<close> returns when the caller waits for the worker.\<close>

definition enumerate_worker :: "enumerate_options \<Rightarrow> hid_snapshot \<times> err option \<Rightarrow> hid_snapshot \<times> err option" where
  "enumerate_worker opt r =
     (let (raw, e) = enumerate_bound r;
          s0 = \<lparr>sn_Endpoints = [], sn_Complete = sn_Complete raw,
                sn_Warnings = [Some (operationError ''enumerate'' [] w). Some w \<leftarrow> sn_Warnings raw]\<rparr>;
          s1 = fold (enumerate_item opt) (sn_Endpoints raw) s0;
          s2 = (if e \<noteq> None then s1\<lparr>sn_Complete := False\<rparr> else s1)
      in (s2, operationError_opt ''enumerate'' [] e))"

subsection \<open>Resource admission\<close>

definition maxConnections :: nat where "maxConnections = 64"
definition maxNativeBytes :: int where "maxNativeBytes = 64 * 1024 * 1024"
definition connectionBytes :: int where "connectionBytes = 768 * 1024"
definition enumerationBytes :: int where "enumerationBytes = 16 * 1024 * 1024"

text \<open>The map of endpoints holds true values only, so it is a set, as a list without repetitions;
  \<open>rc_enumeration\<close> says that the one-slot semaphore is taken.\<close>

record resources =
  rc_endpoints :: "string list"
  rc_bytes :: int
  rc_enumeration :: bool

definition shared_init :: resources where
  "shared_init = \<lparr>rc_endpoints = [], rc_bytes = 0, rc_enumeration = False\<rparr>"

definition reserveEndpoint :: "string \<Rightarrow> resources \<Rightarrow> err option \<times> resources" where
  "reserveEndpoint i r =
     (if i \<in> set (rc_endpoints r) then (Some (Sentinel (SHid HidBusy)), r)
      else if length (rc_endpoints r) \<ge> maxConnections \<or> rc_bytes r > maxNativeBytes - connectionBytes
        then (Some (Sentinel (SHid HidResourceLimit)), r)
      else (None, r\<lparr>rc_endpoints := i # rc_endpoints r, rc_bytes := rc_bytes r + connectionBytes\<rparr>))"

definition releaseEndpoint :: "string \<Rightarrow> resources \<Rightarrow> resources" where
  "releaseEndpoint i r =
     r\<lparr>rc_endpoints := removeAll i (rc_endpoints r), rc_bytes := rc_bytes r - connectionBytes\<rparr>"

text \<open>\<open>reserveEnumeration\<close> once the slot was granted by the \<open>select\<close>, which is possible only while it
  is free; the other branch of the \<open>select\<close> returns \<open>ctx.Err()\<close> and changes nothing.\<close>

definition reserveEnumeration :: "resources \<Rightarrow> err option \<times> resources" where
  "reserveEnumeration r =
     (let r1 = r\<lparr>rc_enumeration := True\<rparr> in
      if rc_bytes r1 > maxNativeBytes - enumerationBytes
      then (Some (Sentinel (SHid HidResourceLimit)), r1\<lparr>rc_enumeration := False\<rparr>)
      else (None, r1\<lparr>rc_bytes := rc_bytes r1 + enumerationBytes\<rparr>))"

definition releaseEnumeration :: "resources \<Rightarrow> resources" where
  "releaseEnumeration r = r\<lparr>rc_bytes := rc_bytes r - enumerationBytes, rc_enumeration := False\<rparr>"

text \<open>The uses of the admission by the package: a release follows a successful reservation
  of the same endpoint (or of the slot), which its owner still holds.\<close>

inductive resource_step :: "resources \<Rightarrow> resources \<Rightarrow> bool" where
  res_endpoint: "resource_step r (snd (reserveEndpoint i r))"
| rel_endpoint: "i \<in> set (rc_endpoints r) \<Longrightarrow> resource_step r (releaseEndpoint i r)"
| res_enumeration: "\<not> rc_enumeration r \<Longrightarrow> resource_step r (snd (reserveEnumeration r))"
| rel_enumeration: "rc_enumeration r \<Longrightarrow> resource_step r (releaseEnumeration r)"

definition resource_inv :: "resources \<Rightarrow> bool" where
  "resource_inv r \<longleftrightarrow>
     distinct (rc_endpoints r) \<and> length (rc_endpoints r) \<le> maxConnections \<and>
     rc_bytes r = connectionBytes * int (length (rc_endpoints r)) + (if rc_enumeration r then enumerationBytes else 0) \<and>
     rc_bytes r \<le> maxNativeBytes"

lemmas resource_consts = maxConnections_def maxNativeBytes_def connectionBytes_def enumerationBytes_def

lemma length_removeAll_distinct:
  "distinct xs \<Longrightarrow> x \<in> set xs \<Longrightarrow> int (length (removeAll x xs)) = int (length xs) - 1"
  using length_pos_if_in_set [of x xs]
  by (simp add: distinct_remove1_removeAll [symmetric] length_remove1 of_nat_diff Suc_leI)

lemma resource_step_inv: "resource_step r r' \<Longrightarrow> resource_inv r \<Longrightarrow> resource_inv r'"
proof (induction rule: resource_step.induct)
  case (res_endpoint r i)
  then show ?case by (auto simp: reserveEndpoint_def resource_inv_def resource_consts)
next
  case (rel_endpoint i r)
  then show ?case
    using length_removeAll_distinct [of "rc_endpoints r" i]
    by (auto simp: releaseEndpoint_def resource_inv_def resource_consts distinct_removeAll)
next
  case (res_enumeration r)
  then show ?case by (auto simp: reserveEnumeration_def resource_inv_def resource_consts Let_def)
next
  case (rel_enumeration r)
  then show ?case by (auto simp: releaseEnumeration_def resource_inv_def resource_consts)
qed

lemma resource_reachable_inv: "resource_step\<^sup>*\<^sup>* shared_init r \<Longrightarrow> resource_inv r"
proof (induction rule: rtranclp_induct)
  case base
  show ?case by (simp add: resource_inv_def shared_init_def resource_consts)
qed (rule resource_step_inv)

subsection \<open>What a filter selects\<close>

text \<open>The meaning of a filter, constraint by constraint: a constraint on a known value holds or
  fails, a constraint on an unknown value is undetermined.\<close>

definition constraints :: "endpoint \<Rightarrow> hid_filter \<Rightarrow> (bool \<times> bool) list" where
  "constraints e f =
     (case hf_VendorID f of None \<Rightarrow> [] | Some v \<Rightarrow> [(fd_Known (ep_VendorID e), fd_Value (ep_VendorID e) = v)]) @
     (case hf_ProductID f of None \<Rightarrow> [] | Some v \<Rightarrow> [(fd_Known (ep_ProductID e), fd_Value (ep_ProductID e) = v)]) @
     (case hf_Usage f of None \<Rightarrow> [] | Some v \<Rightarrow> [(fd_Known (ep_Usage e), fd_Value (ep_Usage e) = v)]) @
     (case hf_Bus f of None \<Rightarrow> [] | Some v \<Rightarrow> [(ep_Bus e \<noteq> BusUnknown, ep_Bus e = v)])"

definition satisfies :: "endpoint \<Rightarrow> hid_filter \<Rightarrow> bool" where
  "satisfies e f \<longleftrightarrow> list_all (\<lambda>(known, equal). known \<and> equal) (constraints e f)"

definition undetermined :: "endpoint \<Rightarrow> hid_filter \<Rightarrow> bool" where
  "undetermined e f \<longleftrightarrow>
     list_all (\<lambda>(known, equal). known \<longrightarrow> equal) (constraints e f) \<and> \<not> list_all fst (constraints e f)"

lemma matchFilter_spec: "matchFilter e f = (satisfies e f, undetermined e f)"
  unfolding matchFilter_def satisfies_def undetermined_def constraints_def filter_check_def Let_def
  by (cases "hf_VendorID f"; cases "hf_ProductID f"; cases "hf_Usage f"; cases "hf_Bus f") auto

lemma enumerate_fold:
  fixes opt s
  defines "es xs \<equiv> map (hide_strings (eo_ResolveStrings opt)) xs"
  shows "sn_Endpoints (fold (enumerate_item opt) xs s) = sn_Endpoints s @ filter (\<lambda>e. satisfies e (eo_Filter opt)) (es xs)"
    and "sn_Complete (fold (enumerate_item opt) xs s) \<longleftrightarrow>
      sn_Complete s \<and> (\<forall>e \<in> set (es xs). \<not> undetermined e (eo_Filter opt))"
  unfolding es_def
  by (induction xs arbitrary: s) (auto simp: enumerate_item_def matchFilter_spec Let_def)

lemma enumerate_bound_endpoints:
  "enumerate_bound (raw, e) = (raw', e') \<Longrightarrow>
     sn_Endpoints raw' = take MaxInventoryEndpoints (sn_Endpoints raw) \<and>
     (sn_Complete raw' \<longrightarrow> sn_Complete raw \<and> length (sn_Endpoints raw) \<le> MaxInventoryEndpoints \<and> e' = e)"
  by (auto simp: enumerate_bound_def Let_def split: if_splits prod.splits)

subsection \<open>Properties\<close>

text \<open>C25. Inventory: whatever the driver answers, \<open>Enumerate\<close> returns only endpoints that satisfy every
  constraint of the filter with known metadata, in the driver's order and at most 1024 of them; and a
  snapshot marked complete comes from a driver answer without error, and misses no endpoint
  that satisfies the filter or could satisfy it.\<close>

theorem enumerate_sound_complete:
  assumes "enumerate_worker opt (raw, e) = (s, e')"
  shows "sn_Endpoints s = filter (\<lambda>x. satisfies x (eo_Filter opt))
      (map (hide_strings (eo_ResolveStrings opt)) (take 1024 (sn_Endpoints raw))) \<and>
    (sn_Complete s \<longrightarrow> e = None \<and> e' = None \<and> sn_Complete raw \<and> length (sn_Endpoints raw) \<le> 1024 \<and>
      (\<forall>x \<in> set (sn_Endpoints raw). \<not> undetermined (hide_strings (eo_ResolveStrings opt) x) (eo_Filter opt)))"
proof -
  obtain raw' e1 where b: "enumerate_bound (raw, e) = (raw', e1)" by fastforce
  note bound = enumerate_bound_endpoints [OF b, unfolded MaxInventoryEndpoints_def]
  have "sn_Endpoints s = filter (\<lambda>x. satisfies x (eo_Filter opt)) (map (hide_strings (eo_ResolveStrings opt)) (sn_Endpoints raw'))"
    and "sn_Complete s \<longleftrightarrow> e1 = None \<and> sn_Complete raw' \<and>
       (\<forall>x \<in> set (sn_Endpoints raw'). \<not> undetermined (hide_strings (eo_ResolveStrings opt) x) (eo_Filter opt))"
    and "e' = operationError_opt ''enumerate'' [] e1"
    using assms by (cases e1; auto simp: enumerate_worker_def b enumerate_fold Let_def)+
  with bound show ?thesis by (auto simp: operationError_opt_def)
qed

text \<open>A USB endpoint with a known usage, for concrete instances.\<close>

definition sample_endpoint :: "string \<Rightarrow> usage field \<Rightarrow> endpoint" where
  "sample_endpoint i u =
     \<lparr>ep_ID = i, ep_Path = ''p'' @ i, ep_VendorID = \<lparr>fd_Value = 1, fd_Known = True\<rparr>,
      ep_ProductID = \<lparr>fd_Value = 2, fd_Known = True\<rparr>, ep_Usage = u,
      ep_Interface = \<lparr>fd_Value = 0, fd_Known = False\<rparr>, ep_Bus = BusUSB,
      ep_Serial = \<lparr>fd_Value = [], fd_Known = False\<rparr>, ep_Manufacturer = \<lparr>fd_Value = [], fd_Known = False\<rparr>,
      ep_Product = \<lparr>fd_Value = [], fd_Known = False\<rparr>\<rparr>"

theorem enumerate_sound_complete_witness:
  "\<exists>s e'. enumerate_worker
      \<lparr>eo_Filter = \<lparr>hf_VendorID = None, hf_ProductID = None, hf_Usage = Some \<lparr>us_Page = 0xf1d0, us_ID = 1\<rparr>,
         hf_Bus = None\<rparr>, eo_ResolveStrings = True\<rparr>
      (\<lparr>sn_Endpoints = [sample_endpoint ''a'' \<lparr>fd_Value = \<lparr>us_Page = 0xf1d0, us_ID = 1\<rparr>, fd_Known = True\<rparr>,
         sample_endpoint ''b'' \<lparr>fd_Value = \<lparr>us_Page = 1, us_ID = 1\<rparr>, fd_Known = True\<rparr>],
        sn_Complete = True, sn_Warnings = []\<rparr>, None) = (s, e') \<and>
     sn_Complete s \<and> map ep_ID (sn_Endpoints s) = [''a'']"
proof -
  let ?opt = "\<lparr>eo_Filter = \<lparr>hf_VendorID = None, hf_ProductID = None, hf_Usage = Some \<lparr>us_Page = 0xf1d0, us_ID = 1\<rparr>,
         hf_Bus = None\<rparr>, eo_ResolveStrings = True\<rparr>"
  let ?raw = "\<lparr>sn_Endpoints = [sample_endpoint ''a'' \<lparr>fd_Value = \<lparr>us_Page = 0xf1d0, us_ID = 1\<rparr>, fd_Known = True\<rparr>,
         sample_endpoint ''b'' \<lparr>fd_Value = \<lparr>us_Page = 1, us_ID = 1\<rparr>, fd_Known = True\<rparr>],
        sn_Complete = True, sn_Warnings = []\<rparr>"
  obtain s e' where w: "enumerate_worker ?opt (?raw, None) = (s, e')" by fastforce
  then have "sn_Complete s"
    by (auto simp: enumerate_worker_def enumerate_bound_def MaxInventoryEndpoints_def enumerate_item_def
        hide_strings_def matchFilter_def filter_check_def sample_endpoint_def Let_def)
  moreover have "map ep_ID (sn_Endpoints s) = [''a'']"
    using enumerate_sound_complete [OF w]
    by (simp add: satisfies_def constraints_def hide_strings_def sample_endpoint_def)
  ultimately show ?thesis using w by (intro exI conjI)
qed

text \<open>Resource admission: in every state reachable from the initial one by reservations and by
  releases of what is held, at most 64 endpoints are leased, each at most once, the accounted bytes
  are exactly those of the leases and of a running enumeration and never exceed 64 MiB; and a
  reservation of an endpoint succeeds exactly when it is not leased and both limits allow one more,
  failing with \<open>ErrBusy\<close> when it is leased.\<close>

theorem resource_limits:
  assumes "resource_step\<^sup>*\<^sup>* shared_init r"
  shows "distinct (rc_endpoints r) \<and> length (rc_endpoints r) \<le> 64 \<and> rc_bytes r \<le> 67108864 \<and>
    rc_bytes r = 786432 * int (length (rc_endpoints r)) + (if rc_enumeration r then 16777216 else 0) \<and>
    (fst (reserveEndpoint i r) = None \<longleftrightarrow>
      i \<notin> set (rc_endpoints r) \<and> length (rc_endpoints r) < 64 \<and> rc_bytes r + 786432 \<le> 67108864) \<and>
    (i \<in> set (rc_endpoints r) \<longrightarrow> reserveEndpoint i r = (Some (Sentinel (SHid HidBusy)), r))"
proof -
  have "distinct (rc_endpoints r) \<and> length (rc_endpoints r) \<le> 64 \<and> rc_bytes r \<le> 67108864 \<and>
    rc_bytes r = 786432 * int (length (rc_endpoints r)) + (if rc_enumeration r then 16777216 else 0)"
    using resource_reachable_inv [OF assms] unfolding resource_inv_def resource_consts by (simp split: if_splits)
  moreover have "fst (reserveEndpoint i r) = None \<longleftrightarrow>
      i \<notin> set (rc_endpoints r) \<and> length (rc_endpoints r) < 64 \<and> rc_bytes r + 786432 \<le> 67108864"
    by (simp add: reserveEndpoint_def resource_consts not_le not_less)
  moreover have "i \<in> set (rc_endpoints r) \<longrightarrow> reserveEndpoint i r = (Some (Sentinel (SHid HidBusy)), r)"
    by (simp add: reserveEndpoint_def)
  ultimately show ?thesis by blast
qed

theorem resource_limits_witness:
  "let r = snd (reserveEndpoint ''a'' (snd (reserveEnumeration shared_init))) in
     rc_bytes r \<le> 67108864 \<and> reserveEndpoint ''a'' r = (Some (Sentinel (SHid HidBusy)), r)"
proof -
  let ?r1 = "snd (reserveEnumeration shared_init)"
  let ?r = "snd (reserveEndpoint ''a'' ?r1)"
  have "resource_step shared_init ?r1" by (rule res_enumeration) (simp add: shared_init_def)
  moreover have "resource_step ?r1 ?r" by (rule res_endpoint)
  ultimately have reach: "resource_step\<^sup>*\<^sup>* shared_init ?r" 
    by (simp only: rtranclp.rtrancl_into_rtrancl [OF r_into_rtranclp])
  have "''a'' \<in> set (rc_endpoints ?r)"
    by (simp add: reserveEndpoint_def reserveEnumeration_def shared_init_def resource_consts)
  then show ?thesis using resource_limits [OF reach, of "''a''"] unfolding Let_def by blast
qed

end
