(* ===== verification/UsbSession.thy ===== *)
theory UsbSession
  imports UsbProtocol HidTypes Transport
begin

text \<open>
  The native USB session: \<open>pkg/transport/usb/hid_session.go\<close>, \<open>hid_init.go\<close>, \<open>hid_lifetime.go\<close>, \<open>hid_error.go\<close>,
  the mutex of \<open>hid_exchange.go\<close>, and the endpoint selection of \<open>hid_backend.go\<close>. What lies behind the session
  (the \<open>hid.Conn\<close> interface, contexts and timers, the random source, other goroutines that close
  the session or hold its mutex) is the environment \<open>'c\<close> with the operations of the record \<open>hid_env_ops\<close>.
\<close>

subsection \<open>The environment\<close>

text \<open>\<open>co_ctxErr\<close>, \<open>co_initErr\<close>, \<open>co_writeErr\<close>: \<open>Err()\<close> of the caller's context, of the context with the
  handshake timeout and of the one with the write timeout. \<open>co_turn\<close>: the \<open>select\<close> in the mutex, true when
  the slot was taken, false when the context was done, \<open>None\<close> when neither ever happens. \<open>co_closing\<close>: whether
  another goroutine has closed the session by now. \<open>co_delay\<close>: the \<open>select\<close> of the retry delay.
  \<open>co_Write\<close>, \<open>co_Read\<close>, \<open>co_Close\<close>: the connection, \<open>co_Close\<close> with an already canceled context.\<close>

record 'c hid_env_ops =
  co_ctxErr :: "'c ctx_poll"
  co_initErr :: "'c ctx_poll"
  co_writeErr :: "'c ctx_poll"
  co_turn :: "'c \<Rightarrow> (bool \<times> 'c) option"
  co_closing :: "'c \<Rightarrow> bool \<times> 'c"
  co_delay :: "'c ctx_poll"
  co_rand :: "'c \<Rightarrow> bytes res \<times> 'c"
  co_Write :: "report \<Rightarrow> 'c \<Rightarrow> ((write_outcome \<times> err option) \<times> 'c) option"
  co_Read :: "int \<Rightarrow> ('c, report) io"
  co_Close :: "'c ctx_poll"

record exchange_progress =
  pr_stage :: exchange_stage
  pr_packets :: nat
  pr_outcome :: write_outcome
  pr_ambiguous :: bool

definition new_progress :: "exchange_stage \<Rightarrow> exchange_progress" where
  "new_progress stage =
     \<lparr>pr_stage = stage, pr_packets = 0, pr_outcome = OutcomeNotSubmitted, pr_ambiguous = False\<rparr>"

definition progress_wrap :: "exchange_progress \<Rightarrow> err \<Rightarrow> err" where
  "progress_wrap p e = ExchangeError (pr_stage p) (pr_packets p) (pr_outcome p) (pr_ambiguous p) e"

record 'c hid_session =
  hs_device :: device_descriptor
  hs_layout :: report_layout
  hs_reportSize :: int
  hs_closing :: bool
  hs_busy :: bool
  hs_channelID :: u32
  hs_progress :: "exchange_progress option"
  hs_env :: 'c

text \<open>Environment calls made by session code.\<close>

definition env_ask :: "('c \<Rightarrow> 'a \<times> 'c) \<Rightarrow> 'c hid_session \<Rightarrow> 'a \<times> 'c hid_session" where
  "env_ask q w = (case q (hs_env w) of (x, c) \<Rightarrow> (x, w\<lparr>hs_env := c\<rparr>))"

definition env_call :: "('c \<Rightarrow> ('a \<times> 'c) option) \<Rightarrow> ('c hid_session, 'a) io" where
  "env_call m w = map_option (\<lambda>(x, c). (Inr x, w\<lparr>hs_env := c\<rparr>)) (m (hs_env w))"

definition env_io :: "('c, 'a) io \<Rightarrow> ('c hid_session, 'a) io" where
  "env_io m w = map_option (\<lambda>(r, c). (r, w\<lparr>hs_env := c\<rparr>)) (m (hs_env w))"

subsection \<open>Lifetime\<close>

text \<open>\<open>closing.Load()\<close>: the flag, which another goroutine may have set meanwhile.\<close>

definition load_closing :: "'c hid_env_ops \<Rightarrow> 'c hid_session \<Rightarrow> bool \<times> 'c hid_session" where
  "load_closing ops w =
     (case env_ask (co_closing ops) w of (b, w1) \<Rightarrow>
        let w2 = (if b then w1\<lparr>hs_closing := True\<rparr> else w1) in (hs_closing w2, w2))"

definition hidCallError ::
  "'c hid_env_ops \<Rightarrow> 'c hid_session ctx_poll \<Rightarrow> 'c hid_session \<Rightarrow> err option \<times> 'c hid_session" where
  "hidCallError ops ctxErr w =
     (case ctxErr w of
        (Some e, w1) \<Rightarrow> (Some e, w1)
      | (None, w1) \<Rightarrow>
          (case load_closing ops w1 of (closing, w2) \<Rightarrow>
             (if closing then Some (Sentinel (SHid HidClosed)) else None, w2)))"

definition retire :: "'c hid_env_ops \<Rightarrow> 'c hid_session \<Rightarrow> 'c hid_session" where
  "retire ops w = snd (env_ask (co_Close ops) (w\<lparr>hs_closing := True\<rparr>))"

text \<open>\<open>CloseContext\<close>, with the answer of \<open>conn.Close(ctx)\<close>.\<close>

definition hidSession_CloseContext ::
  "'c hid_env_ops \<Rightarrow> 'c ctx_poll \<Rightarrow> bool \<Rightarrow> 'c hid_session \<Rightarrow> err option \<times> 'c hid_session" where
  "hidSession_CloseContext ops connClose ctxNil w =
     (let w1 = w\<lparr>hs_closing := True\<rparr> in
      if ctxNil then
        (case env_ask (co_Close ops) w1 of (_, w2) \<Rightarrow>
           (transport_Wrap ''close usb hid session'' (Some (Sentinel (SHid HidInvalidArgument))), w2))
      else
        (case env_ask connClose w1 of (e, w2) \<Rightarrow>
           (transport_Wrap ''close usb hid session'' (map_option classifyHIDError e), w2)))"

subsection \<open>Packets\<close>

definition note_outcome :: "write_outcome \<Rightarrow> exchange_progress \<Rightarrow> exchange_progress" where
  "note_outcome outcome p =
     (let p1 = p\<lparr>pr_outcome := outcome\<rparr>;
          p2 = (if outcome = OutcomeCompleted then p1\<lparr>pr_packets := pr_packets p1 + 1\<rparr> else p1)
      in if outcome = OutcomeUnknown then p2\<lparr>pr_ambiguous := True\<rparr> else p2)"

text \<open>The part of \<open>writePacket\<close> after \<open>conn.Write\<close>: a local write deadline becomes a timeout error, the outcome
  is noted, and anything but a completed write is an error.\<close>

definition writePacket_result ::
  "'c hid_env_ops \<Rightarrow> 'c hid_session ctx_poll \<Rightarrow> write_outcome \<times> err option \<Rightarrow> ('c hid_session, unit) io" where
  "writePacket_result ops ctxErr res =
     (let (outcome, err0) = res in
     io_bind (case err0 of
         None \<Rightarrow> io_return None
       | Some e \<Rightarrow>
           io_bind (io_ask ctxErr) (\<lambda>ce.
             if ce \<noteq> None then io_return (Some e)
             else io_bind (io_ask (env_ask (co_writeErr ops))) (\<lambda>we.
               if we = None then io_return (Some e)
               else io_return (Some (WrapError ''transport/usb: HID report write exceeded: %w''
                      [JoinError [Sentinel (SHid HidTimeout), e]]))))) (\<lambda>err1.
     io_bind (io_modify (\<lambda>w. w\<lparr>hs_progress := map_option (note_outcome outcome) (hs_progress w)\<rparr>)) (\<lambda>_.
       case err1 of
         Some e \<Rightarrow> io_fail e
       | None \<Rightarrow> if outcome \<noteq> OutcomeCompleted then io_fail (Sentinel (SHid HidIO)) else io_return ())))"

definition writePacket ::
  "'c hid_env_ops \<Rightarrow> 'c hid_session ctx_poll \<Rightarrow> bytes \<Rightarrow> ('c hid_session, unit) io" where
  "writePacket ops ctxErr packet =
     io_bind (io_check (hidCallError ops ctxErr)) (\<lambda>_.
     io_bind (io_gets hs_layout) (\<lambda>layout.
     io_bind (env_call (co_Write ops \<lparr>rp_ID = rs_ID (rl_Output layout), rp_Data = packet\<rparr>))
       (writePacket_result ops ctxErr)))"

definition readPacketWithTimeout ::
  "'c hid_env_ops \<Rightarrow> 'c hid_session ctx_poll \<Rightarrow> int \<Rightarrow> ('c hid_session, bytes) io" where
  "readPacketWithTimeout ops ctxErr wait =
     io_bind (io_check (hidCallError ops ctxErr)) (\<lambda>_.
     io_bind (env_io (co_Read ops wait)) (\<lambda>report.
     io_bind (io_gets (\<lambda>w. (hs_layout w, hs_reportSize w))) (\<lambda>(layout, size).
       if rp_ID report \<noteq> rs_ID (rl_Input layout) \<or> int (length (rp_Data report)) \<noteq> size
       then io_fail (Sentinel (SHid HidInvalidReport))
       else io_return (rp_Data report))))"

definition readPacket :: "'c hid_env_ops \<Rightarrow> 'c hid_session ctx_poll \<Rightarrow> ('c hid_session, bytes) io" where
  "readPacket ops ctxErr = readPacketWithTimeout ops ctxErr 0"

definition hidInitResponseWait :: int where "hidInitResponseWait = 300"

definition readInitPacket :: "'c hid_env_ops \<Rightarrow> 'c hid_session ctx_poll \<Rightarrow> ('c hid_session, bytes) io" where
  "readInitPacket ops ctxErr =
     io_bind (io_try (readPacketWithTimeout ops ctxErr hidInitResponseWait)) (\<lambda>r.
     io_bind (io_ask ctxErr) (\<lambda>ce.
       case r of
         Inl e \<Rightarrow> if ce = None \<and> errors_is e (SHid HidTimeout) then io_fail (HidLocalWaitError e) else io_fail e
       | Inr p \<Rightarrow> io_return p))"

subsection \<open>Channel allocation\<close>

fun init_write :: "(bytes \<Rightarrow> ('w, unit) io) \<Rightarrow> bytes list \<Rightarrow> ('w, unit) io" where
  "init_write wr [] = io_return ()"
| "init_write wr (p # ps) = io_bind (wr p) (\<lambda>_. init_write wr ps)"

partial_function (option) init_read ::
  "'w ctx_poll \<Rightarrow> int \<Rightarrow> ('w, bytes) io \<Rightarrow> bytes \<Rightarrow> 'w \<Rightarrow> (bytes res \<times> 'w) option" where
  "init_read ctxErr reportSize rd nonce w =
     io_bind (readHIDMessage ctxErr reportSize hidBroadcastCID hidCommandInit rd) (\<lambda>response w.
       if length response < 17 then io_fail (TextError ''transport/usb: init response is too short'') w
       else if take 8 response = nonce then io_return response w
       else init_read ctxErr reportSize rd nonce w) w"

definition exchangeInit ::
  "'c hid_env_ops \<Rightarrow> 'c hid_session ctx_poll \<Rightarrow> bytes \<Rightarrow> ('c hid_session, bytes) io" where
  "exchangeInit ops ctxErr nonce =
     io_bind (io_gets hs_reportSize) (\<lambda>size.
     io_bind (io_of (hid_NewCodec hidBroadcastCID hidCommandInit size)) (\<lambda>codec.
     io_bind (io_of (hid_Fragment codec nonce)) (\<lambda>packets.
     io_bind (init_write (writePacket ops ctxErr) packets) (\<lambda>_.
       init_read ctxErr size (readInitPacket ops ctxErr) nonce))))"

definition set_progress :: "exchange_progress option \<Rightarrow> ('c hid_session, unit) io" where
  "set_progress p = io_modify (\<lambda>w. w\<lparr>hs_progress := p\<rparr>)"

text \<open>One handshake: INIT on the broadcast channel, then the readiness PING on the allocated one.
  The result is the value left in the closure's variable \<open>channelID\<close>.\<close>

definition handshake :: "'c hid_env_ops \<Rightarrow> ('c hid_session, u32) io" where
  "handshake ops =
     (let ctxErr = env_ask (co_initErr ops) in
      io_bind (io_ask (env_ask (co_rand ops))) (\<lambda>r. io_bind (io_of r) (\<lambda>nonce.
      io_bind (set_progress (Some (new_progress StageINIT))) (\<lambda>_.
      io_bind (exchangeInit ops ctxErr nonce) (\<lambda>response.
        let channelID = get32 (slice response 8 12) in
        if channelID = 0 \<or> channelID = hidBroadcastCID
        then io_fail (TextError ''transport/usb: invalid allocated channel'')
        else
          io_bind (set_progress (Some (new_progress StagePING))) (\<lambda>_.
          io_bind (io_gets hs_reportSize) (\<lambda>size.
          io_bind (exchangeHIDMessage ctxErr channelID hidCommandPing size [] (writePacket ops ctxErr)
            (readInitPacket ops ctxErr)) (\<lambda>echo.
            if length echo \<noteq> 0 then io_fail (TextError ''transport/usb: invalid initialization PING echo'')
            else io_return channelID))))))))"

definition initializeChannel :: "'c hid_env_ops \<Rightarrow> ('c hid_session, unit) io" where
  "initializeChannel ops =
     io_bind (retryHIDHandshake (env_ask (co_initErr ops)) (env_ask (co_delay ops)) (handshake ops)) (\<lambda>channelID.
       io_modify (\<lambda>w. w\<lparr>hs_channelID := channelID\<rparr>))"

definition ensureChannel :: "'c hid_env_ops \<Rightarrow> ('c hid_session, unit) io" where
  "ensureChannel ops =
     io_bind (io_gets hs_channelID) (\<lambda>ch. if ch \<noteq> 0 then io_return () else initializeChannel ops)"

subsection \<open>Exchange\<close>

text \<open>\<open>exchangeMutex.lock\<close> and \<open>unlock\<close>; \<open>hs_busy\<close> is the occupied slot of the channel.\<close>

definition unlock :: "'c hid_session \<Rightarrow> 'c hid_session" where
  "unlock w = w\<lparr>hs_busy := False\<rparr>"

definition mutex_lock :: "'c hid_env_ops \<Rightarrow> ('c hid_session, unit) io" where
  "mutex_lock ops =
     io_bind (io_check (env_ask (co_ctxErr ops))) (\<lambda>_.
     io_bind (env_call (co_turn ops)) (\<lambda>turn.
       if turn then
         io_bind (io_modify (\<lambda>w. w\<lparr>hs_busy := True\<rparr>)) (\<lambda>_.
         io_bind (io_ask (env_ask (co_ctxErr ops))) (\<lambda>e.
           case e of Some x \<Rightarrow> io_bind (io_modify unlock) (\<lambda>_. io_fail x) | None \<Rightarrow> io_return ()))
       else io_check (env_ask (co_ctxErr ops))))"

text \<open>The deferred function of \<open>exchange\<close>, on the result of the body. \<open>progress\<close> is dereferenced, which
  would panic if it were nil.\<close>

definition exchange_deferred ::
  "'c hid_env_ops \<Rightarrow> bytes res \<times> 'c hid_session \<Rightarrow> bytes res \<times> 'c hid_session" where
  "exchange_deferred ops rw =
     (let (r, w) = rw; w1 = w\<lparr>hs_progress := None\<rparr> in
      case r of
        Inr x \<Rightarrow> (Inr x, w1)
      | Inl e \<Rightarrow>
          (case hs_progress w of
             None \<Rightarrow> (Inl GoPanic, w1)
           | Some p \<Rightarrow>
               if errors_as as_HIDError e \<noteq> None then (Inl (progress_wrap p (classifyHIDError e)), w1)
               else (Inl (progress_wrap (p\<lparr>pr_ambiguous := pr_ambiguous p \<or> pr_packets p > 0\<rparr>) (classifyHIDError e)),
                     retire ops w1)))"

definition exchange_body :: "'c hid_env_ops \<Rightarrow> byte \<Rightarrow> bytes \<Rightarrow> ('c hid_session, bytes) io" where
  "exchange_body ops command payload =
     (let ctxErr = env_ask (co_ctxErr ops) in
      io_bind (io_wrap (TransportError ''initialize usb hid channel'') (ensureChannel ops)) (\<lambda>_.
      io_bind (set_progress (Some (new_progress StageRequest))) (\<lambda>_.
      io_bind (io_gets (\<lambda>w. (hs_channelID w, hs_reportSize w))) (\<lambda>(ch, size).
        exchangeHIDMessage ctxErr ch command size payload (writePacket ops ctxErr)
          (io_bind (io_modify (\<lambda>w. w\<lparr>hs_progress := map_option (\<lambda>p. p\<lparr>pr_stage := StageResponse\<rparr>) (hs_progress w)\<rparr>))
            (\<lambda>_. readPacket ops ctxErr))))))"

text \<open>What \<open>exchange\<close> does while it holds the mutex.\<close>

definition exchange_locked :: "'c hid_env_ops \<Rightarrow> byte \<Rightarrow> bytes \<Rightarrow> ('c hid_session, bytes) io" where
  "exchange_locked ops command payload =
     io_bind (io_ask (hidCallError ops (env_ask (co_ctxErr ops)))) (\<lambda>refused.
       case refused of
         Some e \<Rightarrow>
           io_bind (io_ask (env_ask (co_ctxErr ops))) (\<lambda>ce.
           io_bind (io_modify (\<lambda>w. if ce \<noteq> None then retire ops w else w)) (\<lambda>_.
             io_fail (TransportError ''exchange usb hid message'' (classifyHIDError e))))
       | None \<Rightarrow>
           io_bind (set_progress (Some (new_progress StageINIT))) (\<lambda>_.
             (\<lambda>w. map_option (exchange_deferred ops) (exchange_body ops command payload w))))"

definition hidSession_exchange :: "'c hid_env_ops \<Rightarrow> bool \<Rightarrow> byte \<Rightarrow> bytes \<Rightarrow> ('c hid_session, bytes) io" where
  "hidSession_exchange ops ctxNil command payload =
     (if ctxNil then io_fail (TransportError ''exchange usb hid message'' (Sentinel (SHid HidInvalidArgument)))
      else
        io_bind (io_gets hs_reportSize) (\<lambda>size.
        io_bind (io_wrap (TransportError ''fragment usb hid request'') (io_of (hid_NewCodec 1 command size))) (\<lambda>codec.
        io_bind (io_wrap (TransportError ''fragment usb hid request'') (io_of (hid_Fragment codec payload))) (\<lambda>_.
        io_bind (io_wrap (TransportError ''exchange usb hid message'') (mutex_lock ops)) (\<lambda>_.
          (\<lambda>w. map_option (\<lambda>(r, w'). (r, unlock w')) (exchange_locked ops command payload w)))))))"

definition hidSession_Exchange :: "'c hid_env_ops \<Rightarrow> bool \<Rightarrow> bytes \<Rightarrow> ('c hid_session, bytes) io" where
  "hidSession_Exchange ops ctxNil req = hidSession_exchange ops ctxNil (hidCommandForRequest req) req"

definition hidSession_ExchangeHID :: "'c hid_env_ops \<Rightarrow> bool \<Rightarrow> byte \<Rightarrow> bytes \<Rightarrow> ('c hid_session, bytes) io" where
  "hidSession_ExchangeHID ops ctxNil command payload =
     (case validateHIDCommand command of
        Some e \<Rightarrow> io_fail (TransportError ''exchange usb hid command'' e)
      | None \<Rightarrow> hidSession_exchange ops ctxNil (command OR 0x80) payload)"

subsection \<open>What session code preserves\<close>

text \<open>Environment calls change the environment only.\<close>

definition env_closed :: "('c hid_session \<Rightarrow> bool) \<Rightarrow> bool" where
  "env_closed P \<longleftrightarrow> (\<forall>w c. P w \<longrightarrow> P (w\<lparr>hs_env := c\<rparr>))"

lemma env_ask_inv: "env_closed P \<Longrightarrow> ask_inv P (env_ask q)"
  by (auto simp: ask_inv_def env_ask_def env_closed_def split: prod.splits)

lemma env_call_inv: "env_closed P \<Longrightarrow> io_inv P (env_call m)"
  by (auto simp: io_inv_def env_call_def env_closed_def)

lemma env_io_inv: "env_closed P \<Longrightarrow> io_inv P (env_io m)"
  by (auto simp: io_inv_def env_io_def env_closed_def)

lemmas env_intros = env_ask_inv env_call_inv env_io_inv

text \<open>The progress record exists and tells an unknown outcome as ambiguous.\<close>

definition progress_ok :: "'c hid_session \<Rightarrow> bool" where
  "progress_ok w \<longleftrightarrow>
     (\<exists>p. hs_progress w = Some p \<and> (pr_outcome p = OutcomeUnknown \<longrightarrow> pr_ambiguous p))"

lemma progress_ok_env: "env_closed progress_ok"
  by (simp add: env_closed_def progress_ok_def)

lemma progress_ok_load: "ask_inv progress_ok (load_closing ops)"
  by (auto simp: ask_inv_def load_closing_def env_ask_def progress_ok_def Let_def split: prod.splits)

lemma progress_ok_call: "ask_inv progress_ok ctxErr \<Longrightarrow> ask_inv progress_ok (hidCallError ops ctxErr)"
  using progress_ok_load [of ops]
  by (auto simp: ask_inv_def hidCallError_def split: prod.splits option.splits)

lemma progress_ok_note: "progress_ok w \<Longrightarrow> progress_ok (w\<lparr>hs_progress := map_option (note_outcome x) (hs_progress w)\<rparr>)"
  by (cases x) (auto simp: progress_ok_def note_outcome_def)

lemma progress_ok_set: "(pr_outcome p = OutcomeUnknown \<longrightarrow> pr_ambiguous p) \<Longrightarrow> io_inv progress_ok (set_progress (Some p))"
  unfolding set_progress_def by (intro inv_intros) (simp add: progress_ok_def)

lemma progress_ok_write: "ask_inv progress_ok ctxErr \<Longrightarrow> io_inv progress_ok (writePacket ops ctxErr p)"
  unfolding writePacket_def writePacket_result_def
  by (intro inv_intros env_intros progress_ok_call progress_ok_env progress_ok_note)

lemma progress_ok_read: "ask_inv progress_ok ctxErr \<Longrightarrow> io_inv progress_ok (readPacketWithTimeout ops ctxErr t)"
  unfolding readPacketWithTimeout_def by (intro inv_intros env_intros progress_ok_call progress_ok_env)

lemma progress_ok_readInit: "ask_inv progress_ok ctxErr \<Longrightarrow> io_inv progress_ok (readInitPacket ops ctxErr)"
  unfolding readInitPacket_def by (intro inv_intros progress_ok_read)

lemma inv_init_write [inv_intros]: "(\<And>p. io_inv P (wr p)) \<Longrightarrow> io_inv P (init_write wr ps)"
  by (induction ps) (auto intro!: inv_intros)

lemma inv_init_read [inv_intros]:
  assumes "ask_inv P ctxErr" "io_inv P rd"
  shows "io_inv P (init_read ctxErr n rd nonce)"
proof -
  have "ask_inv P ctxErr \<longrightarrow> io_inv P rd \<longrightarrow> P w \<longrightarrow> P (snd y)" if "init_read ctxErr n rd nonce w = Some y" for w y
  proof (rule init_read.raw_induct
        [where P = "\<lambda>c n rd nonce w y. ask_inv P c \<longrightarrow> io_inv P rd \<longrightarrow> P w \<longrightarrow> P (snd y)", OF _ that],
        intro impI, goal_cases)
    case (1 rest c n rd nonce w y)
    have IH: "io_inv P (rest c n rd nonce)" using 1(1) [rule_format, OF _ 1(3,4)] by (rule io_invI)
    show ?case by (rule io_inv_bindD [where P = P, OF 1(2)]) (intro inv_intros IH 1(3-5))+
  qed
  with assms show ?thesis by (intro io_invI) blast
qed

lemma progress_ok_handshake: "io_inv progress_ok (handshake ops)"
  unfolding handshake_def exchangeInit_def
  by (intro inv_intros env_intros progress_ok_env progress_ok_set progress_ok_write progress_ok_readInit) (simp_all add: new_progress_def)

lemma progress_ok_ensure: "io_inv progress_ok (ensureChannel ops)"
  unfolding ensureChannel_def initializeChannel_def
  by (intro inv_intros env_intros progress_ok_env progress_ok_handshake) (simp add: progress_ok_def)

lemma progress_ok_body: "io_inv progress_ok (exchange_body ops command payload)"
  unfolding exchange_body_def readPacket_def
  by (intro inv_intros env_intros progress_ok_env progress_ok_ensure progress_ok_set progress_ok_write progress_ok_read)
    (auto simp: new_progress_def progress_ok_def)

subsection \<open>Errors of an exchange\<close>

lemma errors_as_HIDError_category: "errors_as as_HIDError (withCategory e c) = errors_as as_HIDError e"
  by (simp add: withCategory_def errors_as_def)

lemma errors_as_HIDError_classify: "errors_as as_HIDError (classifyHIDError e) = errors_as as_HIDError e"
  by (simp add: classifyHIDError_def ClassifyCommon_def Disconnected_def PermissionDenied_def Unsupported_def
      Temporary_def errors_as_HIDError_category split: option.splits bool.splits)

lemma retire_fields [simp]:
  "hs_closing (retire ops w)" "hs_progress (retire ops w) = hs_progress w" "hs_busy (retire ops w) = hs_busy w"
  by (simp_all add: retire_def env_ask_def split: prod.splits)

lemma exchange_deferred_error:
  assumes "progress_ok w" "exchange_deferred ops (r, w) = (Inl e, w')"
  shows "hs_progress w' = None \<and> (\<exists>st n out amb c. e = ExchangeError st n out amb c \<and>
    (errors_as as_HIDError c = None \<longrightarrow> hs_closing w' \<and> (0 < n \<or> out = OutcomeUnknown \<longrightarrow> amb)))"
  using assms
  by (auto simp: exchange_deferred_def progress_ok_def progress_wrap_def errors_as_HIDError_classify Let_def
      split: sum.splits if_splits)

lemma exchange_locked_error:
  assumes "exchange_locked ops cmd payload w = Some (Inl e, w')"
  shows "(\<exists>op c. e = TransportError op c) \<or> hs_progress w' = None \<and> (\<exists>st n out amb c. e = ExchangeError st n out amb c \<and>
    (errors_as as_HIDError c = None \<longrightarrow> hs_closing w' \<and> (0 < n \<or> out = OutcomeUnknown \<longrightarrow> amb)))"
proof -
  from assms consider c where "e = TransportError ''exchange usb hid message'' c"
    | w1 r w2 where "exchange_body ops cmd payload (w1\<lparr>hs_progress := Some (new_progress StageINIT)\<rparr>) = Some (r, w2)"
        "exchange_deferred ops (r, w2) = (Inl e, w')"
    by (auto simp: exchange_locked_def io_conv set_progress_def split: option.splits)
  then show ?thesis
  proof cases
    case 2
    have "progress_ok (w1\<lparr>hs_progress := Some (new_progress StageINIT)\<rparr>)"
      by (simp add: progress_ok_def new_progress_def)
    from exchange_deferred_error [OF io_invD [OF progress_ok_body this 2(1)] 2(2)] show ?thesis by blast
  qed blast
qed

subsection \<open>The contract of the environment\<close>

text \<open>\<open>log\<close> is the data of the reports handed to \<open>hid.Conn.Write\<close> so far: only \<open>Write\<close> extends it.\<close>

locale hid_env =
  fixes ops :: "'c hid_env_ops" and log :: "'c \<Rightarrow> bytes list"
  assumes polls: "ask_keeps log (co_ctxErr ops)" "ask_keeps log (co_initErr ops)" "ask_keeps log (co_writeErr ops)"
      "ask_keeps log (co_closing ops)" "ask_keeps log (co_delay ops)" "ask_keeps log (co_Close ops)"
    and turn: "co_turn ops c = Some (b, c') \<Longrightarrow> log c' = log c"
    and reads: "io_keeps log (co_Read ops t)"
    and writes: "co_Write ops report c = Some (x, c') \<Longrightarrow> log c' = log c @ [rp_Data report]"
begin

definition sent :: "'c hid_session \<Rightarrow> bytes list" where
  "sent w = log (hs_env w)"

lemma sent_fields [simp]:
  "sent (w\<lparr>hs_progress := p\<rparr>) = sent w" "sent (w\<lparr>hs_closing := b\<rparr>) = sent w" "sent (w\<lparr>hs_busy := b\<rparr>) = sent w"
  "sent (unlock w) = sent w"
  by (simp_all add: sent_def unlock_def)

lemma sent_ask: "ask_keeps log q \<Longrightarrow> ask_keeps sent (env_ask q)"
  by (auto simp: ask_keeps_def env_ask_def sent_def split: prod.splits) (metis snd_conv)

lemma sent_load: "ask_keeps sent (load_closing ops)"
  using sent_ask [OF polls(4)] by (auto simp: ask_keeps_def load_closing_def Let_def split: prod.splits) (metis snd_conv)+

lemma sent_call: "ask_keeps sent ctxErr \<Longrightarrow> ask_keeps sent (hidCallError ops ctxErr)"
  using sent_load by (auto simp: ask_keeps_def hidCallError_def split: prod.splits option.splits) (metis snd_conv)+

lemma sent_retire [simp]: "sent (retire ops w) = sent w"
  using sent_ask [OF polls(6)] by (simp add: retire_def ask_keeps_def)

lemma sent_read:
  assumes "ask_keeps sent ctxErr"
  shows "io_keeps sent (readPacketWithTimeout ops ctxErr t)"
proof (rule io_keepsI)
  fix v
  have "io_inv (\<lambda>w. sent w = v) (env_io (co_Read ops t))"
    using reads [of t] by (auto simp: io_inv_def env_io_def sent_def io_keeps_def)
  moreover have "ask_inv (\<lambda>w. sent w = v) (hidCallError ops ctxErr)"
    using sent_call [OF assms] by (simp add: ask_keeps_inv)
  ultimately show "io_inv (\<lambda>w. sent w = v) (readPacketWithTimeout ops ctxErr t)"
    unfolding readPacketWithTimeout_def by (intro inv_intros)
qed

lemma sent_write_result:
  assumes "ask_keeps sent ctxErr"
  shows "io_keeps sent (writePacket_result ops ctxErr x)"
proof (rule io_keepsI)
  fix v
  have "ask_inv (\<lambda>w. sent w = v) ctxErr" "ask_inv (\<lambda>w. sent w = v) (env_ask (co_writeErr ops))"
    using assms sent_ask [OF polls(3)] by (simp_all add: ask_keeps_inv)
  then show "io_inv (\<lambda>w. sent w = v) (writePacket_result ops ctxErr x)"
    unfolding writePacket_result_def by (intro inv_intros) simp_all
qed

lemma sent_write:
  assumes "ask_keeps sent ctxErr" "writePacket ops ctxErr p w = Some (r, w')"
  shows "sent w' = sent w @ [p] \<or> (\<exists>e. r = Inl e) \<and> sent w' = sent w"
proof -
  obtain x w1 where h: "hidCallError ops ctxErr w = (x, w1)" by fastforce
  have s1: "sent w1 = sent w" using sent_call [OF assms(1)] h by (metis ask_keeps_def snd_conv)
  show ?thesis
  proof (cases x)
    case (Some e)
    with assms(2) h s1 show ?thesis by (auto simp: writePacket_def io_check_def)
  next
    case None
    with assms(2) h obtain y w2 where
      wr: "env_call (co_Write ops \<lparr>rp_ID = rs_ID (rl_Output (hs_layout w1)), rp_Data = p\<rparr>) w1 = Some (Inr y, w2)"
      and rest: "writePacket_result ops ctxErr y w2 = Some (r, w')"
      by (auto simp: writePacket_def io_check_def io_bind_conv env_call_def)
    have "sent w2 = sent w1 @ [p]" using wr writes by (auto simp: env_call_def sent_def)
    with io_keepsD [OF sent_write_result [OF assms(1)] rest] s1 show ?thesis by simp
  qed
qed

text \<open>The request phase of a session is a packet sink.\<close>

lemma session_sink:
  "packet_sink (env_ask (co_ctxErr ops)) (writePacket ops (env_ask (co_ctxErr ops)))
     (io_bind (io_modify (\<lambda>w. w\<lparr>hs_progress := map_option (\<lambda>p. p\<lparr>pr_stage := StageResponse\<rparr>) (hs_progress w)\<rparr>))
       (\<lambda>_. readPacket ops (env_ask (co_ctxErr ops)))) sent"
proof (unfold_locales, goal_cases)
  case 1
  show ?case by (rule sent_ask [OF polls(1)])
next
  case 2
  have "io_inv (\<lambda>w. sent w = v) (readPacket ops (env_ask (co_ctxErr ops)))" for v
    using sent_read [OF sent_ask [OF polls(1)]] by (simp add: readPacket_def io_keeps_inv)
  then show ?case by (intro io_keepsI inv_intros) simp_all
next
  case (3 p w r w')
  then show ?case by (rule sent_write [OF sent_ask [OF polls(1)]])
qed

lemma sent_lock: "io_keeps sent (mutex_lock ops)"
proof (rule io_keepsI)
  fix v
  have "ask_inv (\<lambda>w. sent w = v) (env_ask (co_ctxErr ops))"
    using sent_ask [OF polls(1)] by (simp add: ask_keeps_inv)
  moreover have "io_inv (\<lambda>w. sent w = v) (env_call (co_turn ops))"
    using turn by (auto simp: io_inv_def env_call_def sent_def)
  ultimately show "io_inv (\<lambda>w. sent w = v) (mutex_lock ops)"
    unfolding mutex_lock_def by (intro inv_intros) simp_all
qed

lemma hidCallError_closing:
  assumes "hs_closing w" "hidCallError ops (env_ask q) w = (x, w')"
  shows "x \<noteq> None"
  using assms by (auto simp: hidCallError_def load_closing_def env_ask_def Let_def split: prod.splits option.splits if_splits)

lemma closed_locked:
  assumes "hs_closing w" "exchange_locked ops cmd payload w = Some (r, w')"
  shows "(\<exists>e. r = Inl e) \<and> sent w' = sent w"
proof -
  have call: "sent w2 = sent w1" if "hidCallError ops (env_ask (co_ctxErr ops)) w1 = (x, w2)" for x w1 w2
    using sent_call [OF sent_ask [OF polls(1)]] that by (metis ask_keeps_def snd_conv)
  have poll: "sent w2 = sent w1" if "env_ask (co_ctxErr ops) w1 = (x, w2)" for x w1 w2
    using sent_ask [OF polls(1)] that by (metis ask_keeps_def snd_conv)
  obtain x w1 where h: "hidCallError ops (env_ask (co_ctxErr ops)) w = (x, w1)" by fastforce
  then obtain e where x: "x = Some e" using hidCallError_closing [OF assms(1)] by blast
  show ?thesis
    using assms(2) h x call [OF h] unfolding exchange_locked_def
    by (auto simp: io_conv dest!: poll split: if_splits)
qed

lemma lock_closing:
  assumes "mutex_lock ops w = Some (r, w')" "hs_closing w"
  shows "hs_closing w'"
proof -
  have "env_closed hs_closing" by (simp add: env_closed_def)
  then have "io_inv hs_closing (mutex_lock ops)"
    unfolding mutex_lock_def by (intro inv_intros env_intros) (simp_all add: unlock_def)
  from io_invD [OF this assms(2,1)] show ?thesis .
qed

lemma exchange_stages:
  assumes "hidSession_exchange ops ctxNil cmd payload w = Some (r, w')"
  shows "(\<exists>op c. r = Inl (TransportError op c)) \<and> sent w' = sent w \<or>
    (\<exists>w1 w2. mutex_lock ops w = Some (Inr (), w1) \<and> exchange_locked ops cmd payload w1 = Some (r, w2) \<and> w' = unlock w2)"
proof -
  from assms consider op c where "r = Inl (TransportError op c)" "w' = w"
    | e where "mutex_lock ops w = Some (Inl e, w')" "r = Inl (TransportError ''exchange usb hid message'' e)"
    | w1 w2 where "mutex_lock ops w = Some (Inr (), w1)" "exchange_locked ops cmd payload w1 = Some (r, w2)" "w' = unlock w2"
    unfolding hidSession_exchange_def by (auto simp: io_bind_conv io_wrap_conv split: if_splits)
  then show ?thesis
    by cases (auto dest: io_keepsD [OF sent_lock])
qed

lemma closed_exchange:
  assumes "hs_closing w" "hidSession_exchange ops ctxNil cmd payload w = Some (r, w')"
  shows "(\<exists>e. r = Inl e) \<and> sent w' = sent w"
  using exchange_stages [OF assms(2)]
proof
  assume "\<exists>w1 w2. mutex_lock ops w = Some (Inr (), w1) \<and> exchange_locked ops cmd payload w1 = Some (r, w2) \<and> w' = unlock w2"
  then obtain w1 w2 where *: "mutex_lock ops w = Some (Inr (), w1)" "exchange_locked ops cmd payload w1 = Some (r, w2)" "w' = unlock w2"
    by blast
  from closed_locked [OF lock_closing [OF *(1) assms(1)] *(2)] io_keepsD [OF sent_lock *(1)] *(3) show ?thesis by simp
qed blast

end

subsection \<open>A live environment\<close>

text \<open>While packets are coming, contexts are alive, nobody else closes the session, the mutex is granted,
  writes complete and reads deliver the packets as reports with identifier \<open>rid\<close>.\<close>

locale hid_env_live = hid_env ops log for ops :: "'c hid_env_ops" and log +
  fixes incoming :: "'c \<Rightarrow> bytes list" and rid :: byte
  assumes ctx_live: "incoming c \<noteq> [] \<Longrightarrow> \<exists>c'. co_ctxErr ops c = (None, c') \<and> incoming c' = incoming c"
    and open_live: "incoming c \<noteq> [] \<Longrightarrow> \<exists>c'. co_closing ops c = (False, c') \<and> incoming c' = incoming c"
    and turn_live: "incoming c \<noteq> [] \<Longrightarrow> \<exists>c'. co_turn ops c = Some (True, c') \<and> incoming c' = incoming c"
    and write_live: "incoming c \<noteq> [] \<Longrightarrow>
      \<exists>c'. co_Write ops report c = Some ((OutcomeCompleted, None), c') \<and> incoming c' = incoming c"
    and read_live: "incoming c = p # ps \<Longrightarrow>
      \<exists>c'. co_Read ops t c = Some (Inr \<lparr>rp_ID = rid, rp_Data = p\<rparr>, c') \<and> incoming c' = ps"
begin

text \<open>The packets a session will read: nothing when it is closing or the reports do not fit it.\<close>

definition session_incoming :: "'c hid_session \<Rightarrow> bytes list" where
  "session_incoming w =
     (if \<not> hs_closing w \<and> rs_ID (rl_Input (hs_layout w)) = rid \<and>
         list_all (\<lambda>p. int (length p) = hs_reportSize w) (incoming (hs_env w))
      then incoming (hs_env w) else [])"

lemma session_incoming_fields [simp]:
  "session_incoming (w\<lparr>hs_progress := p\<rparr>) = session_incoming w"
  "session_incoming (w\<lparr>hs_busy := b\<rparr>) = session_incoming w"
  "session_incoming (w\<lparr>hs_busy := b, hs_env := c\<rparr>) = session_incoming (w\<lparr>hs_env := c\<rparr>)"
  by (simp_all add: session_incoming_def)

lemma session_incomingD:
  "session_incoming w = p # ps \<Longrightarrow>
     incoming (hs_env w) = p # ps \<and> \<not> hs_closing w \<and> rs_ID (rl_Input (hs_layout w)) = rid \<and>
     list_all (\<lambda>p. int (length p) = hs_reportSize w) (p # ps)"
  by (auto simp: session_incoming_def split: if_splits)

lemma session_incoming_env:
  "session_incoming w = p # ps \<Longrightarrow> incoming c = p # ps \<Longrightarrow> session_incoming (w\<lparr>hs_env := c\<rparr>) = p # ps"
  by (auto simp: session_incoming_def split: if_splits)

lemma live_ctx:
  "session_incoming w \<noteq> [] \<Longrightarrow> \<exists>c. env_ask (co_ctxErr ops) w = (None, w\<lparr>hs_env := c\<rparr>) \<and>
     session_incoming (w\<lparr>hs_env := c\<rparr>) = session_incoming w"
proof -
  assume "session_incoming w \<noteq> []"
  then obtain p ps where ne: "session_incoming w = p # ps" by (cases "session_incoming w") auto
  then obtain c where "co_ctxErr ops (hs_env w) = (None, c)" "incoming c = p # ps"
    using ctx_live [of "hs_env w"] session_incomingD by auto
  with ne show ?thesis by (intro exI [of _ c]) (simp add: env_ask_def session_incoming_env)
qed

lemma live_call:
  assumes "session_incoming w \<noteq> []"
  shows "\<exists>c. hidCallError ops (env_ask (co_ctxErr ops)) w = (None, w\<lparr>hs_env := c\<rparr>) \<and>
    session_incoming (w\<lparr>hs_env := c\<rparr>) = session_incoming w"
proof -
  obtain p ps where ne: "session_incoming w = p # ps" using assms by (cases "session_incoming w") auto
  obtain c where c: "env_ask (co_ctxErr ops) w = (None, w\<lparr>hs_env := c\<rparr>)"
    "session_incoming (w\<lparr>hs_env := c\<rparr>) = p # ps" using live_ctx [OF assms] ne by auto
  have i: "incoming c = p # ps" using session_incomingD [OF c(2)] by simp
  obtain c' where c': "co_closing ops c = (False, c')" "incoming c' = p # ps"
    using open_live [of c] i by auto
  have "load_closing ops (w\<lparr>hs_env := c\<rparr>) = (False, w\<lparr>hs_env := c'\<rparr>)"
    using c' session_incomingD [OF ne] by (simp add: load_closing_def env_ask_def)
  with c(1) ne session_incoming_env [OF ne c'(2)] show ?thesis
    by (intro exI [of _ c']) (simp add: hidCallError_def)
qed

lemma live_source:
  "packet_source (env_ask (co_ctxErr ops))
     (io_bind (io_modify (\<lambda>w. w\<lparr>hs_progress := map_option (\<lambda>p. p\<lparr>pr_stage := StageResponse\<rparr>) (hs_progress w)\<rparr>))
       (\<lambda>_. readPacket ops (env_ask (co_ctxErr ops)))) session_incoming"
proof (unfold_locales, goal_cases)
  case (1 w)
  then show ?case using live_ctx by blast
next
  case (2 w p ps)
  let ?w = "w\<lparr>hs_progress := map_option (\<lambda>p. p\<lparr>pr_stage := StageResponse\<rparr>) (hs_progress w)\<rparr>"
  have ne: "session_incoming ?w = p # ps" using 2 by simp
  then obtain c where c: "hidCallError ops (env_ask (co_ctxErr ops)) ?w = (None, ?w\<lparr>hs_env := c\<rparr>)"
    "session_incoming (?w\<lparr>hs_env := c\<rparr>) = p # ps" using live_call [of ?w] by auto
  note d = session_incomingD [OF c(2)]
  then obtain c' where c': "co_Read ops 0 c = Some (Inr \<lparr>rp_ID = rid, rp_Data = p\<rparr>, c')" "incoming c' = ps"
    using read_live [of c p ps 0] by auto
  have "session_incoming (?w\<lparr>hs_env := c'\<rparr>) = ps" using d c'(2) by (simp add: session_incoming_def)
  with c(1) c'(1) d show ?case
    by (simp add: readPacket_def readPacketWithTimeout_def io_check_def io_bind_def env_io_def)
qed

lemma live_write:
  assumes "session_incoming w \<noteq> []"
  shows "\<exists>w'. writePacket ops (env_ask (co_ctxErr ops)) p w = Some (Inr (), w') \<and> session_incoming w' = session_incoming w"
proof -
  obtain q qs where ne: "session_incoming w = q # qs" using assms by (cases "session_incoming w") auto
  obtain c where c: "hidCallError ops (env_ask (co_ctxErr ops)) w = (None, w\<lparr>hs_env := c\<rparr>)"
    "session_incoming (w\<lparr>hs_env := c\<rparr>) = q # qs" using live_call [OF assms] ne by auto
  let ?r = "\<lparr>rp_ID = rs_ID (rl_Output (hs_layout w)), rp_Data = p\<rparr>"
  obtain c' where c': "co_Write ops ?r c = Some ((OutcomeCompleted, None), c')" "incoming c' = q # qs"
    using write_live [of c ?r] session_incomingD [OF c(2)] by auto
  let ?w' = "w\<lparr>hs_env := c'\<rparr>\<lparr>hs_progress := map_option (note_outcome OutcomeCompleted) (hs_progress w)\<rparr>"
  have "writePacket ops (env_ask (co_ctxErr ops)) p w = Some (Inr (), ?w')"
    using c(1) c'(1) by (simp add: writePacket_def writePacket_result_def io_check_def io_bind_def env_call_def)
  with session_incoming_env [OF ne c'(2)] ne show ?thesis by auto
qed

lemma live_conn:
  "packet_conn (env_ask (co_ctxErr ops)) (writePacket ops (env_ask (co_ctxErr ops)))
     (io_bind (io_modify (\<lambda>w. w\<lparr>hs_progress := map_option (\<lambda>p. p\<lparr>pr_stage := StageResponse\<rparr>) (hs_progress w)\<rparr>))
       (\<lambda>_. readPacket ops (env_ask (co_ctxErr ops)))) session_incoming sent"
  by (intro packet_conn.intro live_source session_sink packet_conn_axioms.intro live_write)

lemma live_lock:
  assumes "session_incoming w \<noteq> []"
  shows "\<exists>c. mutex_lock ops w = Some (Inr (), w\<lparr>hs_env := c, hs_busy := True\<rparr>) \<and>
    session_incoming (w\<lparr>hs_env := c, hs_busy := True\<rparr>) = session_incoming w"
proof -
  obtain p ps where ne: "session_incoming w = p # ps" using assms by (cases "session_incoming w") auto
  obtain c1 where c1: "env_ask (co_ctxErr ops) w = (None, w\<lparr>hs_env := c1\<rparr>)" "session_incoming (w\<lparr>hs_env := c1\<rparr>) = p # ps"
    using live_ctx [OF assms] ne by auto
  obtain c2 where c2: "co_turn ops c1 = Some (True, c2)" "incoming c2 = p # ps"
    using turn_live [of c1] session_incomingD [OF c1(2)] by auto
  let ?w = "w\<lparr>hs_env := c2, hs_busy := True\<rparr>"
  have "session_incoming ?w = p # ps" using session_incoming_env [OF ne c2(2)] by simp
  with live_ctx [of ?w] obtain c3 where
    c3: "env_ask (co_ctxErr ops) ?w = (None, ?w\<lparr>hs_env := c3\<rparr>)" "session_incoming (?w\<lparr>hs_env := c3\<rparr>) = p # ps"
    by auto
  have "mutex_lock ops w = Some (Inr (), w\<lparr>hs_env := c3, hs_busy := True\<rparr>)"
    using c1 c2 c3 by (simp add: mutex_lock_def io_check_def io_ask_def io_bind_def env_call_def)
  with c3(2) ne show ?thesis by (intro exI [of _ c3]) simp
qed

end

lemma hid_codec_channel:
  assumes "hid_NewCodec ch cmd n = Inr c" "hid_Fragment c m = Inr ps"
  shows "\<exists>c' ps'. hid_NewCodec ch' cmd n = Inr c' \<and> hid_Fragment c' m = Inr ps'"
  using assms by (auto simp: hid_NewCodec_def hid_Fragment_def Let_def split: if_splits)

subsection \<open>A scripted environment\<close>

definition tape_ops :: "tape hid_env_ops" where
  "tape_ops =
     \<lparr>co_ctxErr = (\<lambda>c. (None, c)), co_initErr = (\<lambda>c. (None, c)), co_writeErr = (\<lambda>c. (None, c)),
      co_turn = (\<lambda>c. Some (True, c)), co_closing = (\<lambda>c. (False, c)), co_delay = (\<lambda>c. (None, c)),
      co_rand = (\<lambda>c. (Inr [1, 2, 3, 4, 5, 6, 7, 8], c)),
      co_Write = (\<lambda>r c. Some ((OutcomeCompleted, None), c\<lparr>tp_written := tp_written c @ [rp_Data r]\<rparr>)),
      co_Read = (\<lambda>t c. case tp_incoming c of
         [] \<Rightarrow> Some (Inl (Sentinel (SHid HidTimeout)), c)
       | p # ps \<Rightarrow> Some (Inr \<lparr>rp_ID = 0, rp_Data = p\<rparr>, c\<lparr>tp_incoming := ps\<rparr>)),
      co_Close = (\<lambda>c. (None, c))\<rparr>"

interpretation tape_env: hid_env_live tape_ops tp_written tp_incoming 0
  by unfold_locales (auto simp: tape_ops_def ask_keeps_def io_keeps_def split: list.splits)

definition tape_session :: "bytes list \<Rightarrow> tape hid_session" where
  "tape_session ps =
     \<lparr>hs_device = sample_device ''usb'',
      hs_layout = \<lparr>rl_Input = \<lparr>rs_ID = 0, rs_Size = 8\<rparr>, rl_Output = \<lparr>rs_ID = 0, rs_Size = 8\<rparr>\<rparr>,
      hs_reportSize = 8, hs_closing = False, hs_busy = False, hs_channelID = 5, hs_progress = None,
      hs_env = \<lparr>tp_incoming = ps, tp_written = []\<rparr>\<rparr>"

subsection \<open>Properties\<close>

lemma session_exchange_response:
  assumes "hid_env_live ops log incoming rid"
    and "\<not> hs_closing w" and "hs_channelID w \<noteq> 0" and "rs_ID (rl_Input (hs_layout w)) = rid"
    and "list_all (\<lambda>p. int (length p) = hs_reportSize w) (incoming (hs_env w))"
    and "hid_NewCodec (hs_channelID w) cmd (hs_reportSize w) = Inr c"
    and "cmd \<notin> {hidCommandKeepalive, hidCommandError}"
    and "hid_Fragment c req = Inr ps" and "hid_Fragment c m = Inr rs"
    and "keepalives (hs_reportSize w) (hs_channelID w) ks"
    and "channel_packets (hs_reportSize w) (hs_channelID w) (incoming (hs_env w)) = concat ks @ rs @ later"
  shows "\<exists>w'. hidSession_exchange ops False cmd req w = Some (Inr m, w') \<and>
    log (hs_env w') = log (hs_env w) @ ps \<and> \<not> hs_busy w' \<and> hs_progress w' = None"
proof -
  note live = assms(1)
  have env: "hid_env ops log" using live by (simp add: hid_env_live_def)
  let ?n = "hs_reportSize w" and ?ch = "hs_channelID w" and ?ctx = "env_ask (co_ctxErr ops)"
  have inc: "hid_env_live.session_incoming incoming rid w = incoming (hs_env w)"
    using assms(2,4,5) by (simp add: hid_env_live.session_incoming_def [OF live])
  have "rs \<noteq> []" using hid_framing.frag_nonempty [OF hid_NewCodec_valid [OF assms(6)] assms(9)] .
  then have ne: "incoming (hs_env w) \<noteq> []" using assms(11) by (auto simp: channel_packets_def)
  obtain c1 ps1 where codec: "hid_NewCodec 1 cmd ?n = Inr c1" "hid_Fragment c1 req = Inr ps1"
    using hid_codec_channel [OF assms(6,8), of 1] by blast
  obtain e1 where lock: "mutex_lock ops w = Some (Inr (), w\<lparr>hs_env := e1, hs_busy := True\<rparr>)"
    "hid_env_live.session_incoming incoming rid (w\<lparr>hs_env := e1, hs_busy := True\<rparr>) = incoming (hs_env w)"
    using hid_env_live.live_lock [OF live, of w] inc ne by auto
  let ?w1 = "w\<lparr>hs_env := e1, hs_busy := True\<rparr>"
  obtain e2 where call: "hidCallError ops ?ctx ?w1 = (None, ?w1\<lparr>hs_env := e2\<rparr>)"
    "hid_env_live.session_incoming incoming rid (?w1\<lparr>hs_env := e2\<rparr>) = incoming (hs_env w)"
    using hid_env_live.live_call [OF live, of ?w1] lock(2) ne by auto
  let ?w2 = "?w1\<lparr>hs_env := e2, hs_progress := Some (new_progress StageRequest)\<rparr>"
  have "channel_packets ?n ?ch (hid_env_live.session_incoming incoming rid ?w2) = concat ks @ rs @ later"
    using call(2) assms(11) by (simp add: hid_env_live.session_incoming_fields [OF live])
  from packet_conn.exchange_response [OF hid_env_live.live_conn [OF live], where w = ?w2, OF assms(6-10) this]
  obtain w3 where x: "exchangeHIDMessage ?ctx ?ch cmd ?n req (writePacket ops ?ctx)
      (io_bind (io_modify (\<lambda>w. w\<lparr>hs_progress := map_option (\<lambda>p. p\<lparr>pr_stage := StageResponse\<rparr>) (hs_progress w)\<rparr>))
       (\<lambda>_. readPacket ops ?ctx)) ?w2 = Some (Inr m, w3)"
    and sent: "hid_env.sent log w3 = hid_env.sent log ?w2 @ ps" by blast
  let ?w2' = "?w1\<lparr>hs_env := e2, hs_progress := Some (new_progress StageINIT)\<rparr>"
  have "exchange_body ops cmd req ?w2' = Some (Inr m, w3)"
    using x assms(3) by (simp add: exchange_body_def ensureChannel_def set_progress_def io_bind_def io_wrap_def Let_def)
  then have "exchange_locked ops cmd req ?w1 = Some (Inr m, w3\<lparr>hs_progress := None\<rparr>)"
    using call(1) by (simp add: exchange_locked_def io_ask_def set_progress_def exchange_deferred_def io_bind_def)
  then have "hidSession_exchange ops False cmd req w = Some (Inr m, unlock (w3\<lparr>hs_progress := None\<rparr>))"
    using codec lock(1) by (simp add: hidSession_exchange_def io_bind_def io_wrap_def)
  moreover have "log (hs_env w3) = log (hs_env w) @ ps"
  proof -
    have "log e1 = log (hs_env w)"
      using io_keepsD [OF hid_env.sent_lock [OF env] lock(1)] by (simp add: hid_env.sent_def [OF env])
    moreover have "hid_env.sent log (snd (hidCallError ops ?ctx ?w1)) = hid_env.sent log ?w1"
      using hid_env.sent_call [OF env hid_env.sent_ask [OF env hid_env.polls(1) [OF env]]]
      unfolding ask_keeps_def by blast
    then have "log e2 = log e1" using call(1) by (simp add: hid_env.sent_def [OF env])
    ultimately show ?thesis using sent by (simp add: hid_env.sent_def [OF env])
  qed
  ultimately show ?thesis by (simp add: unlock_def)
qed

text \<open>C1. A session exchange returns the device's response: on an open session with an allocated channel
  over a live connection, if the channel's reports are keepalive messages and then the reports of a
  response \<open>m\<close> (other channels' reports in between), \<open>exchange\<close> returns \<open>m\<close>, has handed exactly the reports of the
  request to the connection, once and in order, and has released the mutex and its progress record.\<close>

theorem session_returns_response:
  assumes "hid_env_live ops log incoming rid"
    and "\<not> hs_closing w" and "hs_channelID w \<noteq> 0" and "rs_ID (rl_Input (hs_layout w)) = rid"
    and "list_all (\<lambda>p. int (length p) = hs_reportSize w) (incoming (hs_env w))"
    and "hid_NewCodec (hs_channelID w) cmd (hs_reportSize w) = Inr c"
    and "cmd \<notin> {hidCommandKeepalive, hidCommandError}"
    and "hid_Fragment c req = Inr ps" and "hid_Fragment c m = Inr rs"
    and "keepalives (hs_reportSize w) (hs_channelID w) ks"
    and "channel_packets (hs_reportSize w) (hs_channelID w) (incoming (hs_env w)) = concat ks @ rs @ later"
  shows "\<exists>w'. hidSession_exchange ops False cmd req w = Some (Inr m, w') \<and>
    log (hs_env w') = log (hs_env w) @ ps \<and> \<not> hs_busy w' \<and> hs_progress w' = None"
  using assms by (rule session_exchange_response)

theorem session_returns_response_witness:
  "\<exists>w'. hidSession_exchange tape_ops False 0x90 [1]
       (tape_session [[0, 0, 0, 5, 0xbb, 0, 1, 2], [0, 0, 0, 5, 0x90, 0, 1, 7]]) = Some (Inr [7], w') \<and>
     tp_written (hs_env w') = [[0, 0, 0, 5, 0x90, 0, 1, 1]] \<and> \<not> hs_busy w'"
proof -
  let ?c = "\<lparr>hc_channel = 5, hc_command = 0x90, hc_reportSize = 8\<rparr>"
  let ?k = "\<lparr>hc_channel = 5, hc_command = 0xbb, hc_reportSize = 8\<rparr>"
  let ?w = "tape_session [[0, 0, 0, 5, 0xbb, 0, 1, 2], [0, 0, 0, 5, 0x90, 0, 1, 7]]"
  note ev = hid_NewCodec_def hid_Fragment_def hid_maxPayloadSize_def Let_def hid_fragment_loop.simps
    hid_initial_def be32_def be16_def pad_to_def
  have w: "hs_channelID ?w = 5" "hs_reportSize ?w = 8" "\<not> hs_closing ?w" "rs_ID (rl_Input (hs_layout ?w)) = 0"
    "tp_incoming (hs_env ?w) = [[0, 0, 0, 5, 0xbb, 0, 1, 2], [0, 0, 0, 5, 0x90, 0, 1, 7]]"
    "tp_written (hs_env ?w) = []" by (simp_all add: tape_session_def)
  have c: "hid_NewCodec 5 0x90 8 = Inr ?c" and k: "hid_NewCodec 5 0xbb 8 = Inr ?k" by (simp_all add: ev)
  have p: "hid_Fragment ?c [1] = Inr [[0, 0, 0, 5, 0x90, 0, 1, 1]]"
    and r: "hid_Fragment ?c [7] = Inr [[0, 0, 0, 5, 0x90, 0, 1, 7]]"
    and kf: "hid_Fragment ?k [2] = Inr [[0, 0, 0, 5, 0xbb, 0, 1, 2]]"
    by (simp_all add: ev)
  have ka: "keepalives 8 5 [[[0, 0, 0, 5, 0xbb, 0, 1, 2]]]"
    using k kf by (auto simp: keepalives_def hidCommandKeepalive_def)
  have l: "list_all (\<lambda>p. int (length p) = hs_reportSize ?w) (tp_incoming (hs_env ?w))" by (simp add: w)
  have "channel_packets 8 5 (tp_incoming (hs_env ?w)) =
      concat [[[0, 0, 0, 5, 0xbb, 0, 1, 2]]] @ [[0, 0, 0, 5, 0x90, 0, 1, 7]] @ []"
    by (simp add: channel_packets_def get32_def w)
  from session_returns_response [where w = ?w and later = "[]", OF tape_env.hid_env_live_axioms w(3) _ w(4) l,
      unfolded w, OF _ c _ p r ka this [unfolded w]]
  show ?thesis by (auto simp: hidCommandKeepalive_def hidCommandError_def w)
qed



text \<open>A closed session is silent: once the session is closing, every exchange fails and hands no report
  to the connection.\<close>

theorem closed_session_silent:
  assumes "hid_env ops log" and "hs_closing w" and "hidSession_exchange ops ctxNil cmd payload w = Some (r, w')"
  shows "(\<exists>e. r = Inl e) \<and> log (hs_env w') = log (hs_env w)"
  using hid_env.closed_exchange [OF assms] by (simp add: hid_env.sent_def [OF assms(1)])

theorem closed_session_silent_witness:
  "\<exists>r w'. hidSession_exchange tape_ops False 0x90 [1] ((tape_session [[1]])\<lparr>hs_closing := True\<rparr>) = Some (r, w') \<and>
     tp_written (hs_env w') = []"
proof -
  let ?w = "(tape_session [[1]])\<lparr>hs_closing := True\<rparr>"
  have "\<exists>r w'. hidSession_exchange tape_ops False 0x90 [1] ?w = Some (r, w')"
    by (simp add: hidSession_exchange_def tape_session_def tape_ops_def hid_NewCodec_def hid_Fragment_def
        hid_maxPayloadSize_def Let_def io_bind_def io_wrap_def io_check_def io_ask_def mutex_lock_def env_ask_def
        env_call_def exchange_locked_def hidCallError_def load_closing_def)
  then obtain r w' where x: "hidSession_exchange tape_ops False 0x90 [1] ?w = Some (r, w')" by blast
  with closed_session_silent [OF tape_env.hid_env_axioms _ x] show ?thesis by (auto simp: tape_session_def)
qed

end
