(* ===== verification/Sessions.thy ===== *)
theory Sessions
  imports UsbSession WireBle WireNfc
begin

text \<open>
  Sessions over injected connections: \<open>pkg/transport/usb/backend.go\<close>, \<open>pkg/transport/ble/backend.go\<close>,
  \<open>pkg/transport/nfc/backend.go\<close>. The three backends are written alike: discovery normalizes the transport
  kind, \<open>Open\<close> checks the descriptor and the codec, \<open>Exchange\<close> fragments the request, writes the
  packets and assembles the response. The injected discoverer, opener and connection are parameters over a
  world \<open>'w\<close>. The mutex of the BLE and NFC sessions only serializes exchanges, and one exchange is modelled at
  a time.
\<close>

subsection \<open>Backends\<close>

type_synonym 'w discoverer = "'w \<Rightarrow> (device_descriptor list \<times> err option) \<times> 'w"

text \<open>The common body of the three \<open>Discover\<close> methods.\<close>

definition discover_as :: "string \<Rightarrow> string \<Rightarrow> 'w discoverer \<Rightarrow> 'w discoverer" where
  "discover_as kind op discover w =
     (case discover w of ((devices, e), w') \<Rightarrow>
        ((map (\<lambda>d. d\<lparr>dd_Transport := kind\<rparr>) devices,
          case e of None \<Rightarrow> None | Some x \<Rightarrow> transport_Wrap op (Some (ClassifyCommon x))), w'))"

definition usb_Discover :: "'w discoverer \<Rightarrow> 'w discoverer" where
  "usb_Discover discover = discover_as KindUSB ''discover usb devices'' discover"

definition ble_Discover :: "'w discoverer \<Rightarrow> 'w discoverer" where
  "ble_Discover discover = discover_as KindBLE ''discover ble devices'' discover"

definition nfc_Discover :: "'w discoverer \<Rightarrow> 'w discoverer" where
  "nfc_Discover discover = discover_as KindNFC ''discover nfc devices'' discover"

text \<open>The common body of the three \<open>Open\<close> methods: \<open>opener\<close> opens a connection, \<open>close\<close> closes it, and
  \<open>codec\<close> is the result of \<open>NewCodec\<close> on the backend's parameters.\<close>

definition open_as ::
  "string \<Rightarrow> string \<Rightarrow> (device_descriptor \<Rightarrow> 'w \<Rightarrow> 'conn res \<times> 'w) \<Rightarrow> ('conn \<Rightarrow> 'w \<Rightarrow> err option \<times> 'w) \<Rightarrow>
   'codec res \<Rightarrow> device_descriptor \<Rightarrow> 'w \<Rightarrow> (device_descriptor \<times> 'conn \<times> 'codec) res \<times> 'w" where
  "open_as kind op opener close codec device w =
     (if dd_Transport device \<noteq> [] \<and> dd_Transport device \<noteq> KindUnknown \<and> dd_Transport device \<noteq> kind then
        (Inl (TransportError op (Unsupported (TextError (''transport/'' @ kind @ '': unsupported transport '' @ dd_Transport device)))), w)
      else
        (case opener device w of
           (Inl e, w1) \<Rightarrow> (Inl (TransportError op (ClassifyCommon e)), w1)
         | (Inr conn, w1) \<Rightarrow>
             (case codec of
                Inl e \<Rightarrow> (Inl (TransportError op (ClassifyCommon e)), snd (close conn w1))
              | Inr c \<Rightarrow> (Inr (device\<lparr>dd_Transport := kind\<rparr>, conn, c), w1))))"

definition usb_Open where
  "usb_Open opener close channel command reportSize device w =
     open_as KindUSB ''open usb session'' opener close (hid_NewCodec channel command reportSize) device w"

definition ble_Open where
  "ble_Open opener close mtu device w =
     open_as KindBLE ''open ble session'' opener close (ble_NewCodec mtu) device w"

definition nfc_Open where
  "nfc_Open opener close cls ins p1 p2 chunkSize device w =
     open_as KindNFC ''open nfc session'' opener close (nfc_NewCodec cls ins p1 p2 chunkSize) device w"

subsection \<open>Packet sessions\<close>

abbreviation classified :: "string \<Rightarrow> err \<Rightarrow> err" where
  "classified op e \<equiv> TransportError op (ClassifyCommon e)"

fun write_all :: "string \<Rightarrow> (bytes \<Rightarrow> ('w, unit) io) \<Rightarrow> bytes list \<Rightarrow> ('w, unit) io" where
  "write_all op wr [] = io_return ()"
| "write_all op wr (p # ps) = io_bind (io_wrap (classified op) (wr p)) (\<lambda>_. write_all op wr ps)"

text \<open>The assembling loop of the USB and BLE sessions, with its reads.\<close>

definition add_res :: "('a \<Rightarrow> bytes \<Rightarrow> 'a \<times> err option) \<Rightarrow> 'a \<Rightarrow> bytes \<Rightarrow> 'a res" where
  "add_res add a p = (case add a p of (a', None) \<Rightarrow> Inr a' | (a', Some e) \<Rightarrow> Inl e)"

partial_function (option) session_assemble ::
  "('a \<Rightarrow> bytes \<Rightarrow> 'a \<times> err option) \<Rightarrow> ('a \<Rightarrow> bool) \<Rightarrow> ('a \<Rightarrow> bytes res) \<Rightarrow> string \<Rightarrow> string \<Rightarrow>
   ('w, bytes) io \<Rightarrow> 'a \<Rightarrow> 'w \<Rightarrow> (bytes res \<times> 'w) option" where
  "session_assemble add isDone payload opRead opAdd rd a w =
     (if isDone a then io_wrap (classified opAdd) (io_of (payload a)) w
      else io_bind (io_wrap (classified opRead) rd) (\<lambda>p.
        io_bind (io_wrap (classified opAdd) (io_of (add_res add a p)))
          (\<lambda>a' w. session_assemble add isDone payload opRead opAdd rd a' w)) w)"

text \<open>The lock of the USB session's exchange mutex: \<open>turn\<close> is the \<open>select\<close>, true when the slot was free and false
  when the context was done first.\<close>

definition usb_lock :: "'w ctx_poll \<Rightarrow> ('w, bool) io \<Rightarrow> ('w, unit) io" where
  "usb_lock ctxErr turn =
     io_bind (io_check ctxErr) (\<lambda>_.
     io_bind turn (\<lambda>got. io_check ctxErr))"

definition usb_Exchange ::
  "'w ctx_poll \<Rightarrow> ('w, bool) io \<Rightarrow> u32 \<Rightarrow> byte \<Rightarrow> int \<Rightarrow> (bytes \<Rightarrow> ('w, unit) io) \<Rightarrow> ('w, bytes) io \<Rightarrow> bytes \<Rightarrow>
   ('w, bytes) io" where
  "usb_Exchange ctxErr turn channel command reportSize wr rd req =
     io_bind (io_wrap (TransportError ''exchange usb session'') (usb_lock ctxErr turn)) (\<lambda>_.
     io_bind (io_wrap (classified ''fragment usb request'') (io_of (hid_NewCodec channel command reportSize))) (\<lambda>codec.
     io_bind (io_wrap (classified ''fragment usb request'') (io_of (hid_Fragment codec req))) (\<lambda>packets.
     io_bind (write_all ''write usb packet'' wr packets) (\<lambda>_.
       session_assemble hid_Add hid_Done hid_Payload ''read usb packet'' ''reassemble usb response'' rd
         (hid_NewAssembler codec)))))"

definition usb_ExchangeHID ::
  "'w ctx_poll \<Rightarrow> ('w, bool) io \<Rightarrow> u32 \<Rightarrow> int \<Rightarrow> (bytes \<Rightarrow> ('w, unit) io) \<Rightarrow> ('w, bytes) io \<Rightarrow> byte \<Rightarrow> bytes \<Rightarrow> ('w, bytes) io" where
  "usb_ExchangeHID ctxErr turn channel reportSize wr rd command payload =
     (case validateHIDCommand command of
        Some e \<Rightarrow> io_fail (TransportError ''exchange usb hid command'' e)
      | None \<Rightarrow>
          io_bind (io_wrap (TransportError ''exchange usb hid message'') (usb_lock ctxErr turn)) (\<lambda>_.
            exchangeHIDMessage ctxErr channel (command OR 0x80) reportSize payload wr rd))"

definition ble_Exchange ::
  "ble_codec \<Rightarrow> (bytes \<Rightarrow> ('w, unit) io) \<Rightarrow> ('w, bytes) io \<Rightarrow> bytes \<Rightarrow> ('w, bytes) io" where
  "ble_Exchange codec wr rd req =
     io_bind (io_wrap (classified ''fragment ble request'') (io_of (ble_Fragment codec req))) (\<lambda>fragments.
     io_bind (write_all ''write ble fragment'' wr fragments) (\<lambda>_.
       session_assemble ble_Add ble_Done ble_Payload ''read ble fragment'' ''reassemble ble response'' rd
         (ble_NewAssembler codec)))"

definition session_Close :: "string \<Rightarrow> ('w \<Rightarrow> err option \<times> 'w) \<Rightarrow> 'w \<Rightarrow> err option \<times> 'w" where
  "session_Close op close w =
     (case close w of
        (Some e, w') \<Rightarrow> (transport_Wrap op (Some (ClassifyCommon e)), w')
      | (None, w') \<Rightarrow> (None, w'))"

subsection \<open>The NFC session\<close>

text \<open>The loop over the command packets: interim responses are checked, the last one is the first
  response packet.\<close>

fun nfc_send :: "nfc_codec \<Rightarrow> (bytes \<Rightarrow> ('w, bytes) io) \<Rightarrow> nfc_assembler \<Rightarrow> bytes list \<Rightarrow> ('w, nfc_assembler) io" where
  "nfc_send codec tx a [] = io_return a"
| "nfc_send codec tx a [p] =
     io_bind (io_wrap (classified ''transceive nfc packet'') (tx p)) (\<lambda>response.
       io_wrap (classified ''reassemble nfc response'') (io_of (add_res nfc_Add a response)))"
| "nfc_send codec tx a (p # q # ps) =
     io_bind (io_wrap (classified ''transceive nfc packet'') (tx p)) (\<lambda>response.
       case nfc_ValidateInterimResponse codec response of
         Some e \<Rightarrow> io_fail (classified ''validate nfc chain response'' e)
       | None \<Rightarrow> nfc_send codec tx a (q # ps))"

partial_function (option) nfc_continue ::
  "nfc_codec \<Rightarrow> (bytes \<Rightarrow> ('w, bytes) io) \<Rightarrow> nfc_assembler \<Rightarrow> 'w \<Rightarrow> (bytes res \<times> 'w) option" where
  "nfc_continue codec tx a w =
     (if nfc_Done a then io_wrap (classified ''reassemble nfc response'') (io_of (nfc_Payload a)) w
      else io_bind (io_wrap (classified ''continue nfc response'') (tx (nfc_GetResponsePacket codec (nfc_MoreDataHint a))))
        (\<lambda>response. io_bind (io_wrap (classified ''reassemble nfc response'') (io_of (add_res nfc_Add a response)))
          (\<lambda>a' w. nfc_continue codec tx a' w)) w)"

definition nfc_Exchange :: "nfc_codec \<Rightarrow> (bytes \<Rightarrow> ('w, bytes) io) \<Rightarrow> bytes \<Rightarrow> ('w, bytes) io" where
  "nfc_Exchange codec tx req =
     io_bind (io_wrap (classified ''fragment nfc request'') (io_of (nfc_Fragment codec req))) (\<lambda>packets.
     io_bind (nfc_send codec tx (nfc_NewAssembler codec) packets) (\<lambda>a. nfc_continue codec tx a))"

subsection \<open>Packet sessions deliver what the codec fragments\<close>

lemma session_assemble_delivers:
  assumes "packet_source ctxErr rd incoming"
  shows "delivers add isDone payload a ps m \<Longrightarrow> incoming w = ps @ rest \<Longrightarrow>
    \<exists>w'. session_assemble add isDone payload opRead opAdd rd a w = Some (Inr m, w') \<and> incoming w' = rest"
proof (induction ps arbitrary: a w)
  case Nil
  then show ?case by (subst session_assemble.simps) (auto simp: io_wrap_def)
next
  case (Cons p ps)
  obtain w1 where w1: "rd w = Some (Inr p, w1)" "incoming w1 = ps @ rest"
    using packet_source.next_packet [OF assms, of w p "ps @ rest"] Cons.prems by auto
  have add: "\<not> isDone a" "add_res add a p = Inr (fst (add a p))"
    using Cons.prems by (auto simp: add_res_def split: prod.splits)
  have "session_assemble add isDone payload opRead opAdd rd a w =
      session_assemble add isDone payload opRead opAdd rd (fst (add a p)) w1"
    by (subst session_assemble.simps) (use w1 add in \<open>simp add: io_wrap_def io_bind_def\<close>)
  with Cons.IH [of "fst (add a p)" w1] Cons.prems w1(2) show ?case by simp
qed

lemma write_all_ok:
  assumes "packet_conn ctxErr wr rd incoming written"
  shows "incoming w \<noteq> [] \<Longrightarrow>
    \<exists>w'. write_all op wr ps w = Some (Inr (), w') \<and> incoming w' = incoming w \<and> written w' = written w @ ps"
proof (induction ps arbitrary: w)
  case (Cons p ps)
  have snk: "packet_sink ctxErr wr rd written" using assms by (simp add: packet_conn_def)
  obtain w1 where w1: "wr p w = Some (Inr (), w1)" "incoming w1 = incoming w"
    using packet_conn.write_ok [OF assms Cons.prems] by blast
  have "written w1 = written w @ [p]" using packet_sink.write_logs [OF snk w1(1)] by auto
  with Cons.IH [of w1] Cons.prems w1 show ?case by (auto simp: io_bind_def io_wrap_def)
qed simp

context framing
begin

text \<open>The exchange of a packet session: the request's packets are written, then the response is
  assembled.\<close>

lemma exchange_delivers:
  assumes "packet_conn ctxErr wr rd incoming written" "valid c" "frag c req = Inr ps" "frag c m = Inr rs"
    and "incoming w = rs @ rest"
  shows "\<exists>w'. io_bind (write_all opWrite wr ps)
      (\<lambda>_. session_assemble add isDone payload opRead opAdd rd (start c)) w = Some (Inr m, w') \<and>
    written w' = written w @ ps \<and> incoming w' = rest"
proof -
  have src: "packet_source ctxErr rd incoming" and snk: "packet_sink ctxErr wr rd written"
    using assms(1) by (simp_all add: packet_conn_def)
  have "incoming w \<noteq> []" using frag_nonempty [OF assms(2,4)] assms(5) by simp
  from write_all_ok [OF assms(1) this] obtain w1 where w1: "write_all opWrite wr ps w = Some (Inr (), w1)"
    "incoming w1 = rs @ rest" "written w1 = written w @ ps" using assms(5) by metis
  from session_assemble_delivers [OF src frag_delivers [OF assms(2,4)] w1(2)] obtain w2 where
    w2: "session_assemble add isDone payload opRead opAdd rd (start c) w1 = Some (Inr m, w2)" "incoming w2 = rest" by blast
  have "written w2 = written w1"
  proof -
    have "io_keeps written (session_assemble add isDone payload opRead opAdd rd a)" for a
    proof (rule io_keepsI, rule io_invI)
      fix v x y
      assume x: "session_assemble add isDone payload opRead opAdd rd a x = Some y" and v: "written x = v"
      have "io_inv (\<lambda>w. written w = v) rd \<longrightarrow> written x = v \<longrightarrow> written (snd y) = v"
      proof (rule session_assemble.raw_induct [where P = "\<lambda>add isDone payload opRead opAdd rd a x y.
            io_inv (\<lambda>w. written w = v) rd \<longrightarrow> written x = v \<longrightarrow> written (snd y) = v", OF _ x], intro impI, goal_cases)
        case (1 loop add isDone payload opRead opAdd rd a x y)
        have IH: "io_inv (\<lambda>w. written w = v) (loop add isDone payload opRead opAdd rd a')" for a'
          using 1(1) [rule_format, OF _ 1(3)] by (rule io_invI)
        show ?case
        proof (cases "isDone a")
          case False
          then show ?thesis
            by (intro io_inv_bindD [where P = "\<lambda>w. written w = v", OF 1(2) [simplified if_not_P [OF False]]]
                inv_intros IH 1(3,4))
        qed (use 1(2,4) in \<open>auto simp: io_wrap_def\<close>)
      qed
      then show "written (snd y) = v"
        using packet_sink.read_keeps [OF snk] v by (simp add: io_keeps_inv)
    qed
    from io_keepsD [OF this w2(1)] show ?thesis .
  qed
  with w1 w2 show ?thesis by (auto simp: io_bind_def)
qed

end

subsection \<open>A reference card\<close>

text \<open>A card that follows the chaining rules: it collects the APDUs of a chain, computes its answer
  (response blocks with their status hints, and the final block) from the collected body, and hands out the
  blocks on GET RESPONSE.\<close>

record nfc_card =
  cd_apdus :: "bytes list"
  cd_blocks :: "bytes list"

definition card_transceive ::
  "byte \<Rightarrow> byte \<Rightarrow> byte \<Rightarrow> (bytes \<Rightarrow> (bytes \<times> byte) list \<times> bytes) \<Rightarrow> bytes \<Rightarrow> (nfc_card, bytes) io" where
  "card_transceive ins p1 p2 answer p s =
     (if p ! 1 = getResponseInstruction then
        (case cd_blocks s of
           [] \<Rightarrow> Some (Inr [0x6F, 0], s)
         | b # bs \<Rightarrow> Some (Inr b, s\<lparr>cd_blocks := bs\<rparr>))
      else if (p ! 0) AND 0x10 \<noteq> 0 then Some (Inr [0x90, 0], s\<lparr>cd_apdus := cd_apdus s @ [p]\<rparr>)
      else
        (case nfc_card_receive ins p1 p2 (cd_apdus s @ [p]) of
           None \<Rightarrow> Some (Inr [0x6F, 0], s)
         | Some (body, _) \<Rightarrow>
             (case nfc_card_respond (fst (answer body)) (snd (answer body)) of
                [] \<Rightarrow> Some (Inr [0x6F, 0], s)
              | b # bs \<Rightarrow> Some (Inr b, \<lparr>cd_apdus = [], cd_blocks = bs\<rparr>))))"

lemma nfc_continue_blocks:
  assumes "na_buffer a0 @ concat (map fst blocks) @ final = m" "nfc_card_respond blocks final = b # bs"
    and "add_res nfc_Add a0 b = Inr a1"
  shows "nfc_continue codec (card_transceive ins p1 p2 answer) a1 \<lparr>cd_apdus = qs, cd_blocks = bs\<rparr> =
    Some (Inr m, \<lparr>cd_apdus = qs, cd_blocks = []\<rparr>)"
  using assms
proof (induction blocks arbitrary: a0 a1 b bs)
  case Nil
  then have "a1 = a0\<lparr>na_buffer := na_buffer a0 @ final, na_done := True, na_moreDataHint := 0\<rparr>" "bs = []"
    by (auto simp: add_res_def nfc_Add_final)
  with Nil show ?case by (subst nfc_continue.simps) (auto simp: nfc_Done_def nfc_Payload_def io_wrap_def)
next
  case (Cons blk blocks)
  obtain d h where blk: "blk = (d, h)" by fastforce
  with Cons.prems have a1: "a1 = a0\<lparr>na_buffer := na_buffer a0 @ d, na_done := False, na_moreDataHint := h\<rparr>"
    and bs: "bs = nfc_card_respond blocks final" by (auto simp: add_res_def nfc_Add_more)
  obtain b' bs' where r: "nfc_card_respond blocks final = b' # bs'" by (cases blocks) auto
  obtain a2 where a2: "add_res nfc_Add a1 b' = Inr a2"
    using r by (cases blocks) (auto simp: add_res_def nfc_Add_final nfc_Add_more)
  have "nfc_continue codec (card_transceive ins p1 p2 answer) a1 \<lparr>cd_apdus = qs, cd_blocks = bs\<rparr> =
      nfc_continue codec (card_transceive ins p1 p2 answer) a2 \<lparr>cd_apdus = qs, cd_blocks = bs'\<rparr>"
    by (subst nfc_continue.simps)
      (simp add: a1 [symmetric] a2 bs r nfc_Done_def io_bind_def io_wrap_def card_transceive_def
        nfc_GetResponsePacket_def, simp add: a1)
  also have "\<dots> = Some (Inr m, \<lparr>cd_apdus = qs, cd_blocks = []\<rparr>)"
    by (rule Cons.IH [OF _ r a2]) (use Cons.prems blk a1 in simp)
  finally show ?case .
qed

lemma nfc_send_single:
  assumes "nfc_card_receive ins p1 p2 (qs @ [p]) = Some (body, r)" "p ! 1 \<noteq> getResponseInstruction" "p ! 0 AND 0x10 = 0"
  shows "\<exists>a1 b bs. nfc_card_respond (fst (answer body)) (snd (answer body)) = b # bs \<and>
    add_res nfc_Add a b = Inr a1 \<and>
    nfc_send codec (card_transceive ins p1 p2 answer) a [p] \<lparr>cd_apdus = qs, cd_blocks = []\<rparr> =
      Some (Inr a1, \<lparr>cd_apdus = [], cd_blocks = bs\<rparr>)"
proof -
  obtain b bs where r: "nfc_card_respond (fst (answer body)) (snd (answer body)) = b # bs"
    by (cases "fst (answer body)") auto
  obtain a1 where "add_res nfc_Add a b = Inr a1"
    using r by (cases "fst (answer body)") (auto simp: add_res_def nfc_Add_final nfc_Add_more)
  with r assms show ?thesis by (simp add: card_transceive_def io_bind_def io_wrap_def)
qed

lemma nfc_send_chain:
  assumes "0 < nc_maxChunkSize c" "nc_maxChunkSize c \<le> 255" "nc_class c AND 0x10 = 0"
    and "nc_instruction c \<noteq> getResponseInstruction" "m \<noteq> []"
    and "nfc_card_receive (nc_instruction c) (nc_parameter1 c) (nc_parameter2 c) (qs @ nfc_fragment_loop c m) = Some (body, r)"
  shows "\<exists>a1 b bs. nfc_card_respond (fst (answer body)) (snd (answer body)) = b # bs \<and>
    add_res nfc_Add a b = Inr a1 \<and>
    nfc_send c (card_transceive (nc_instruction c) (nc_parameter1 c) (nc_parameter2 c) answer) a (nfc_fragment_loop c m)
      \<lparr>cd_apdus = qs, cd_blocks = []\<rparr> = Some (Inr a1, \<lparr>cd_apdus = [], cd_blocks = bs\<rparr>)"
  using assms
proof (induction m arbitrary: qs rule: length_induct)
  case (1 m)
  show ?case
  proof (cases "length m \<le> nc_maxChunkSize c")
    case True
    note last = nfc_fragment_loop_last [OF 1(6) True]
    show ?thesis unfolding last by (rule nfc_send_single [OF 1(7) [unfolded last]]) (use 1(4,5) in simp_all)
  next
    case False
    let ?n = "nc_maxChunkSize c"
    let ?p = "[nc_class c OR 0x10, nc_instruction c, nc_parameter1 c, nc_parameter2 c, word_of_nat ?n] @ take ?n m"
    have m: "nfc_fragment_loop c m = ?p # nfc_fragment_loop c (drop ?n m)"
      using False 1(2) by (simp add: nfc_fragment_loop_chain)
    have d: "drop ?n m \<noteq> []" "length (drop ?n m) < length m" using False 1(2) by auto
    obtain q ps where rest: "nfc_fragment_loop c (drop ?n m) = q # ps"
      using d(1) 1(2) by (subst (asm) nfc_fragment_loop.simps) (auto simp: Let_def)
    have "nfc_card_receive (nc_instruction c) (nc_parameter1 c) (nc_parameter2 c)
        ((qs @ [?p]) @ nfc_fragment_loop c (drop ?n m)) = Some (body, r)"
      using 1(7) m by simp
    note IH = 1(1) [rule_format, OF d(2) 1(2-5) d(1) this]
    have "card_transceive (nc_instruction c) (nc_parameter1 c) (nc_parameter2 c) answer ?p \<lparr>cd_apdus = qs, cd_blocks = []\<rparr> =
        Some (Inr [0x90, 0], \<lparr>cd_apdus = qs @ [?p], cd_blocks = []\<rparr>)"
      using 1(5) by (simp add: card_transceive_def chain_bit_set)
    with IH show ?thesis
      by (simp add: m rest nfc_ValidateInterimResponse_def io_bind_def io_wrap_def)
  qed
qed

subsection \<open>Properties\<close>

text \<open>C28. NFC end to end: a session over any card that follows the chaining rules, for a codec that
  \<open>NewCodec\<close> accepts (with a class byte without chain bit and an instruction other than GET RESPONSE),
  sends a request of any length so that the card receives exactly that request, and \<open>Exchange\<close> returns exactly
  the card's answer, however many response blocks the card splits it into.\<close>

theorem nfc_exchange_roundtrip:
  assumes "nfc_NewCodec cls ins p1 p2 chunkSize = Inr c" and "cls AND 0x10 = 0" and "ins \<noteq> 0xC0"
    and "answer req = (blocks, final)"
  shows "nfc_Exchange c (card_transceive ins p1 p2 answer) req \<lparr>cd_apdus = [], cd_blocks = []\<rparr> =
    Some (Inr (concat (map fst blocks) @ final), \<lparr>cd_apdus = [], cd_blocks = []\<rparr>)"
proof -
  from assms(1) have c: "c = \<lparr>nc_class = cls, nc_instruction = ins, nc_parameter1 = p1, nc_parameter2 = p2,
      nc_maxChunkSize = nat chunkSize\<rparr>" and sz: "0 < nc_maxChunkSize c" "nc_maxChunkSize c \<le> 255"
    by (auto simp: nfc_NewCodec_def split: if_splits)
  have ins: "nc_instruction c \<noteq> getResponseInstruction" using assms(3) by (simp add: c getResponseInstruction_def)
  let ?tx = "card_transceive ins p1 p2 answer" and ?s = "\<lparr>cd_apdus = [], cd_blocks = []\<rparr>"
  have "\<exists>a1 b bs. nfc_card_respond blocks final = b # bs \<and> add_res nfc_Add (nfc_NewAssembler c) b = Inr a1 \<and>
      io_bind (io_wrap (classified ''fragment nfc request'') (io_of (nfc_Fragment c req)))
        (nfc_send c ?tx (nfc_NewAssembler c)) ?s = Some (Inr a1, \<lparr>cd_apdus = [], cd_blocks = bs\<rparr>)"
  proof (cases "req = []")
    case True
    let ?p = "[cls, ins, p1, p2, 0] :: bytes"
    have "nfc_card_receive ins p1 p2 ([] @ [?p]) = Some ([], [])" using assms(2) by simp
    from nfc_send_single [OF this, of answer "nfc_NewAssembler c" c] show ?thesis
      using True assms(2-4) by (simp add: nfc_Fragment_def c getResponseInstruction_def io_bind_def io_wrap_def)
  next
    case False
    have "nfc_card_receive ins p1 p2 ([] @ nfc_fragment_loop c req) = Some (req, [])"
      using nfc_fragment_loop_received [of c req "[]"] sz assms(2) False by (simp add: c)
    with nfc_send_chain [OF sz _ ins False, of "[]" req "[]" answer "nfc_NewAssembler c"] False assms(2,4)
    show ?thesis by (simp add: nfc_Fragment_def c io_bind_def io_wrap_def)
  qed
  then obtain a1 b bs where r: "nfc_card_respond blocks final = b # bs" "add_res nfc_Add (nfc_NewAssembler c) b = Inr a1"
    "io_bind (io_wrap (classified ''fragment nfc request'') (io_of (nfc_Fragment c req)))
        (nfc_send c ?tx (nfc_NewAssembler c)) ?s = Some (Inr a1, \<lparr>cd_apdus = [], cd_blocks = bs\<rparr>)" by blast
  have "na_buffer (nfc_NewAssembler c) @ concat (map fst blocks) @ final = concat (map fst blocks) @ final"
    by (simp add: nfc_NewAssembler_def)
  from nfc_continue_blocks [OF this r(1,2)] r(3) show ?thesis
    by (auto simp: nfc_Exchange_def io_bind_conv io_bind_def split: sum.splits bind_splits)
qed

theorem nfc_exchange_roundtrip_witness:
  "\<exists>c. nfc_NewCodec 0x80 0x10 0 0 2 = Inr c \<and>
     nfc_Exchange c (card_transceive 0x10 0 0 (\<lambda>body. ([([9], 1)], rev body))) [1, 2, 3] \<lparr>cd_apdus = [], cd_blocks = []\<rparr> =
       Some (Inr [9, 3, 2, 1], \<lparr>cd_apdus = [], cd_blocks = []\<rparr>)"
proof -
  obtain c where c: "nfc_NewCodec 0x80 0x10 0 0 2 = Inr c" by (simp add: nfc_NewCodec_def)
  from nfc_exchange_roundtrip [OF c, of "\<lambda>body. ([([9], 1)], rev body)" "[1, 2, 3]"] c show ?thesis by simp
qed

text \<open>BLE end to end: over a working connection a session of a codec that \<open>NewCodec\<close> accepts writes exactly
  the fragments of the request and returns exactly the response whose fragments arrive, leaving what follows unread.\<close>

theorem ble_exchange_roundtrip:
  assumes "packet_conn ctxErr wr rd incoming written" and "ble_NewCodec mtu = Inr c"
    and "ble_Fragment c req = Inr ps" and "ble_Fragment c m = Inr rs" and "incoming w = rs @ rest"
  shows "\<exists>w'. ble_Exchange c wr rd req w = Some (Inr m, w') \<and> written w' = written w @ ps \<and> incoming w' = rest"
  using ble_framing.exchange_delivers [OF assms(1) ble_NewCodec_valid [OF assms(2)] assms(3-5)] assms(3)
  by (simp add: ble_Exchange_def io_bind_def io_wrap_def)

theorem ble_exchange_roundtrip_witness:
  "\<exists>c rs w'. ble_NewCodec 3 = Inr c \<and> ble_Fragment c [7, 8] = Inr rs \<and>
     ble_Exchange c tape_write tape_read [1] \<lparr>tp_incoming = rs, tp_written = []\<rparr> = Some (Inr [7, 8], w')"
proof -
  obtain c where c: "ble_NewCodec 3 = Inr c" by (simp add: ble_NewCodec_def)
  obtain ps rs where f: "ble_Fragment c [1] = Inr ps" "ble_Fragment c [7, 8] = Inr rs"
    by (simp add: ble_Fragment_def Let_def)
  from ble_exchange_roundtrip [OF tape_conn.packet_conn_axioms c f, of "\<lparr>tp_incoming = rs, tp_written = []\<rparr>" "[]"]
  show ?thesis using c f by auto
qed

end
