(* ===== verification/GoStrings.thy ===== *)
theory GoStrings
  imports Prelude "HOL-Library.Sublist"
begin

text \<open>
  The functions of Go's \<open>strings\<close> package that the sources use on byte strings: \<open>TrimSpace\<close>, \<open>TrimPrefix\<close>, and the test
  whether the lower-cased string contains a lower-case ASCII text.
\<close>

text \<open>The UTF-8 encodings of the runes for which \<open>unicode.IsSpace\<close> holds.\<close>

definition space_runes :: "string list" where
  "space_runes =
     map (map (char_of :: nat \<Rightarrow> char))
       ([[9], [10], [11], [12], [13], [32], [0xc2, 0x85], [0xc2, 0xa0], [0xe1, 0x9a, 0x80]] @
        map (\<lambda>b. [0xe2, 0x80, b]) [0x80..<0x8b] @
        [[0xe2, 0x80, 0xa8], [0xe2, 0x80, 0xa9], [0xe2, 0x80, 0xaf], [0xe2, 0x81, 0x9f], [0xe3, 0x80, 0x80]])"

lemma space_runes_ne: "r \<in> set space_runes \<Longrightarrow> r \<noteq> []"
  by (auto simp: space_runes_def)

function trim_left :: "string \<Rightarrow> string" where
  "trim_left s = (case List.find (\<lambda>r. prefix r s) space_runes of None \<Rightarrow> s | Some r \<Rightarrow> trim_left (drop (length r) s))"
  by auto

lemma find_rune: "List.find P space_runes = Some r \<Longrightarrow> r \<noteq> [] \<and> P r"
  using space_runes_ne by (auto simp: find_Some_iff)

termination trim_left
proof (relation "measure length")
  fix s r
  assume "List.find (\<lambda>r. prefix r s) space_runes = Some r"
  then have "r \<noteq> []" "prefix r s" using find_rune by auto
  then show "(drop (length r) s, s) \<in> measure length" by (cases s) auto
qed simp

function trim_right :: "string \<Rightarrow> string" where
  "trim_right s =
     (case List.find (\<lambda>r. suffix r s) space_runes of None \<Rightarrow> s | Some r \<Rightarrow> trim_right (take (length s - length r) s))"
  by auto

termination trim_right
proof (relation "measure length")
  fix s r
  assume "List.find (\<lambda>r. suffix r s) space_runes = Some r"
  then have "r \<noteq> []" "suffix r s" using find_rune by auto
  then show "(take (length s - length r) s, s) \<in> measure length" by (cases s) auto
qed simp

declare trim_left.simps [simp del] trim_right.simps [simp del]

definition TrimSpace :: "string \<Rightarrow> string" where
  "TrimSpace s = trim_right (trim_left s)"

definition TrimPrefix :: "string \<Rightarrow> string \<Rightarrow> string" where
  "TrimPrefix s p = (if prefix p s then drop (length p) s else s)"

text \<open>\<open>strings.Contains(strings.ToLower(s), p)\<close> for a text \<open>p\<close> without the letters i and k: no rune outside ASCII
  has another lower-case ASCII letter as its lower case.\<close>

definition ascii_lower :: "char \<Rightarrow> char" where
  "ascii_lower c = (let n = of_char c :: nat in if 65 \<le> n \<and> n \<le> 90 then char_of (n + 32) else c)"

definition contains_fold :: "string \<Rightarrow> string \<Rightarrow> bool" where
  "contains_fold s p \<longleftrightarrow> list_ex (\<lambda>t. prefix p t) (suffixes (map ascii_lower s))"

lemma trim_left_length: "length (trim_left s) \<le> length s"
proof (induction s rule: trim_left.induct)
  case (1 s)
  show ?case
  proof (cases "List.find (\<lambda>r. prefix r s) space_runes")
    case (Some r)
    from 1 [OF Some] Some show ?thesis by (subst trim_left.simps) simp
  qed (simp add: trim_left.simps)
qed

lemma trim_right_length: "length (trim_right s) \<le> length s"
proof (induction s rule: trim_right.induct)
  case (1 s)
  show ?case
  proof (cases "List.find (\<lambda>r. suffix r s) space_runes")
    case (Some r)
    from 1 [OF Some] Some show ?thesis by (subst trim_right.simps) simp
  qed (simp add: trim_right.simps)
qed

lemma trim_left_step:
  "trim_left s = s \<and> (\<forall>r \<in> set space_runes. \<not> prefix r s) \<or>
   length (trim_left s) < length s \<and> (\<exists>r \<in> set space_runes. prefix r s)"
proof (cases "List.find (\<lambda>r. prefix r s) space_runes")
  case None
  then have "trim_left s = s" by (subst trim_left.simps) simp
  with None show ?thesis by (simp add: find_None_iff)
next
  case (Some r)
  then have r: "r \<noteq> []" "prefix r s" "r \<in> set space_runes" using find_rune by (auto simp: find_Some_iff)
  have "trim_left s = trim_left (drop (length r) s)" using Some by (subst trim_left.simps) simp
  moreover have "length (drop (length r) s) < length s" using r(1,2) by (cases s) auto
  ultimately show ?thesis using trim_left_length [of "drop (length r) s"] r by auto
qed

lemma trim_right_step:
  "trim_right s = s \<and> (\<forall>r \<in> set space_runes. \<not> suffix r s) \<or>
   length (trim_right s) < length s \<and> (\<exists>r \<in> set space_runes. suffix r s)"
proof (cases "List.find (\<lambda>r. suffix r s) space_runes")
  case None
  then have "trim_right s = s" by (subst trim_right.simps) simp
  with None show ?thesis by (simp add: find_None_iff)
next
  case (Some r)
  then have r: "r \<noteq> []" "suffix r s" "r \<in> set space_runes" using find_rune by (auto simp: find_Some_iff)
  have "trim_right s = trim_right (take (length s - length r) s)" using Some by (subst trim_right.simps) simp
  moreover have "length (take (length s - length r) s) < length s" using r(1,2) by (cases s) auto
  ultimately show ?thesis using trim_right_length [of "take (length s - length r) s"] r by auto
qed

text \<open>A string is unchanged by \<open>TrimSpace\<close> exactly when no white space starts or ends it.\<close>

lemma TrimSpace_fix: "TrimSpace s = s \<longleftrightarrow> (\<forall>r \<in> set space_runes. \<not> prefix r s \<and> \<not> suffix r s)"
proof -
  consider "trim_left s = s" "\<forall>r \<in> set space_runes. \<not> prefix r s" | "length (trim_left s) < length s" "\<exists>r \<in> set space_runes. prefix r s"
    using trim_left_step [of s] by blast
  then show ?thesis
  proof cases
    case 1
    with trim_right_step [of s] show ?thesis by (auto simp: TrimSpace_def)
  next
    case 2
    then have "length (TrimSpace s) < length s" using trim_right_length [of "trim_left s"] by (simp add: TrimSpace_def)
    with 2 show ?thesis by auto
  qed
qed

lemma trim_left_clean: "\<forall>r \<in> set space_runes. \<not> prefix r (trim_left s)"
proof (induction s rule: trim_left.induct)
  case (1 s)
  show ?case
  proof (cases "List.find (\<lambda>r. prefix r s) space_runes")
    case None
    then have "trim_left s = s" by (subst trim_left.simps) simp
    with None show ?thesis by (simp add: find_None_iff)
  next
    case (Some r)
    from 1 [OF Some] Some show ?thesis by (subst trim_left.simps) simp
  qed
qed

lemma trim_right_clean: "(\<forall>r \<in> set space_runes. \<not> suffix r (trim_right s)) \<and> prefix (trim_right s) s"
proof (induction s rule: trim_right.induct)
  case (1 s)
  show ?case
  proof (cases "List.find (\<lambda>r. suffix r s) space_runes")
    case None
    then have "trim_right s = s" by (subst trim_right.simps) simp
    with None show ?thesis by (simp add: find_None_iff)
  next
    case (Some r)
    have "trim_right s = trim_right (take (length s - length r) s)" using Some by (subst trim_right.simps) simp
    with 1 [OF Some] show ?thesis using prefix_order.trans take_is_prefix by metis
  qed
qed

lemma TrimSpace_idem [simp]: "TrimSpace (TrimSpace s) = TrimSpace s"
proof -
  have "\<not> prefix r (TrimSpace s)" if "r \<in> set space_runes" for r
    using that trim_left_clean [of s] trim_right_clean [of "trim_left s"] prefix_order.trans [of r "TrimSpace s" "trim_left s"]
    by (auto simp: TrimSpace_def)
  then show ?thesis using trim_right_clean [of "trim_left s"] by (simp add: TrimSpace_fix) (simp add: TrimSpace_def)
qed

end
