(* ===== verification/GoPath.thy ===== *)
theory GoPath
  imports GoStrings
begin

text \<open>
  More of Go's library on byte strings, as far as the native drivers and the command line use it: cutting and splitting
  (\<open>strings\<close>), decimal and hexadecimal numbers (\<open>strconv\<close>) and Unix paths (\<open>path/filepath\<close>), with the
  round trips between printing and parsing.
\<close>

subsection \<open>strings\<close>

text \<open>\<open>string(data)\<close> of a byte slice.\<close>

definition bytes_string :: "bytes \<Rightarrow> string" where
  "bytes_string = map (\<lambda>b. char_of (unat b))"

text \<open>\<open>strings.Cut\<close> around the first occurrence of a separator; None is the answer \<open>false\<close>.\<close>

fun Cut :: "string \<Rightarrow> string \<Rightarrow> (string \<times> string) option" where
  "Cut [] sep = (if sep = [] then Some ([], []) else None)"
| "Cut (c # s) sep =
     (if prefix sep (c # s) then Some ([], drop (length sep) (c # s))
      else map_option (map_prod (Cons c) id) (Cut s sep))"

text \<open>\<open>strings.Split\<close> by a separator of one byte.\<close>

fun Split :: "char \<Rightarrow> string \<Rightarrow> string list" where
  "Split sep [] = [[]]"
| "Split sep (c # s) =
     (if c = sep then [] # Split sep s
      else case Split sep s of [] \<Rightarrow> [[c]] | p # ps \<Rightarrow> (c # p) # ps)"

definition TrimSuffix :: "string \<Rightarrow> string \<Rightarrow> string" where
  "TrimSuffix s p = (if suffix p s then take (length s - length p) s else s)"

lemma Cut_SomeD: "Cut s sep = Some (a, b) \<Longrightarrow> s = a @ sep @ b"
  by (induction s sep arbitrary: a rule: Cut.induct) (auto simp: prefix_def split: if_splits)

lemma Cut_first:
  assumes "h \<notin> set a"
  shows "Cut (a @ (h # sep) @ b) (h # sep) = Some (a, b)"
  using assms by (induction a) auto

lemma Split_nonempty [simp]: "Split sep s \<noteq> []"
  by (induction s) (auto split: list.splits)

lemma Split_length: "x \<in> set (Split sep s) \<Longrightarrow> length x \<le> length s"
proof (induction s arbitrary: x)
  case (Cons c s)
  show ?case
  proof (cases "c = sep")
    case True
    with Cons.prems Cons.IH [of x] show ?thesis by auto
  next
    case False
    obtain p ps where s: "Split sep s = p # ps" using Split_nonempty by (meson list.exhaust)
    then have "length y \<le> length s" if "y \<in> set (p # ps)" for y using Cons.IH that by simp
    with Cons.prems False s show ?thesis by fastforce
  qed
qed simp

lemma Split_no_sep: "x \<in> set (Split sep s) \<Longrightarrow> sep \<notin> set x"
  by (induction s arbitrary: x) (fastforce split: if_splits list.splits)+

text \<open>Splitting is undone by joining with the separator.\<close>

fun join_with :: "string \<Rightarrow> string list \<Rightarrow> string" where
  "join_with sep [] = []"
| "join_with sep [p] = p"
| "join_with sep (p # q # ps) = p @ sep @ join_with sep (q # ps)"

lemma join_Split: "join_with [sep] (Split sep s) = s"
proof (induction s)
  case (Cons c s)
  obtain p ps where s: "Split sep s = p # ps" using Split_nonempty by (meson list.exhaust)
  with Cons show ?case by (cases ps) auto
qed simp

lemma Split_no: "sep \<notin> set s \<Longrightarrow> Split sep s = [s]"
  by (induction s) auto

lemma Split_append: "sep \<notin> set p \<Longrightarrow> Split sep (p @ sep # s) = p # Split sep s"
  by (induction p) auto

lemma Split_join:
  assumes "ps \<noteq> []" and "\<And>p. p \<in> set ps \<Longrightarrow> sep \<notin> set p"
  shows "Split sep (join_with [sep] ps) = ps"
  using assms by (induction "[sep]" ps rule: join_with.induct) (auto simp: Split_no Split_append)

subsection \<open>strconv\<close>

definition digit_char :: "nat \<Rightarrow> char" where
  "digit_char d = char_of (48 + d)"

fun nat_decimal :: "nat \<Rightarrow> string" where
  "nat_decimal n = (if n < 10 then [digit_char n] else nat_decimal (n div 10) @ [digit_char (n mod 10)])"

declare nat_decimal.simps [simp del]

definition Itoa :: "int \<Rightarrow> string" where
  "Itoa i = (if i < 0 then CHR ''-'' # nat_decimal (nat (- i)) else nat_decimal (nat i))"

definition digit_value :: "char \<Rightarrow> nat option" where
  "digit_value c =
     (let n = of_char c :: nat in
      if 48 \<le> n \<and> n \<le> 57 then Some (n - 48)
      else if 97 \<le> n \<and> n \<le> 122 then Some (n - 87)
      else if 65 \<le> n \<and> n \<le> 90 then Some (n - 55)
      else None)"

fun parse_digits :: "nat \<Rightarrow> nat \<Rightarrow> string \<Rightarrow> nat option" where
  "parse_digits base n [] = Some n"
| "parse_digits base n (c # s) =
     (case digit_value c of
        None \<Rightarrow> None
      | Some d \<Rightarrow> if d < base then parse_digits base (n * base + d) s else None)"

text \<open>\<open>strconv.ParseUint\<close> for a base of at least 2; every caller only asks whether there was an error.\<close>

definition ParseUint :: "string \<Rightarrow> nat \<Rightarrow> nat \<Rightarrow> nat option" where
  "ParseUint s base bits =
     (if s = [] then None
      else Option.bind (parse_digits base 0 s) (\<lambda>n. if n < 2 ^ bits then Some n else None))"

text \<open>\<open>strconv.Atoi\<close>, with an \<open>int\<close> of 64 bits.\<close>

definition Atoi :: "string \<Rightarrow> int option" where
  "Atoi s =
     (case s of
        [] \<Rightarrow> None
      | c # t \<Rightarrow>
          let neg = (c = CHR ''-''); body = (if neg \<or> c = CHR ''+'' then t else s) in
          Option.bind (ParseUint body 10 64) (\<lambda>n.
            if neg then (if n \<le> 2 ^ 63 then Some (- int n) else None)
            else if n < 2 ^ 63 then Some (int n) else None))"

lemma digit_value_char: "d < 10 \<Longrightarrow> digit_value (digit_char d) = Some d"
  by (simp add: digit_value_def digit_char_def)

lemma parse_digits_append:
  "parse_digits b n (s @ t) = Option.bind (parse_digits b n s) (\<lambda>m. parse_digits b m t)"
  by (induction b n s rule: parse_digits.induct) (auto split: option.splits)

lemma parse_decimal: "parse_digits 10 0 (nat_decimal n) = Some n"
proof (induction n rule: nat_decimal.induct)
  case (1 n)
  show ?case
  proof (cases "n < 10")
    case True
    then show ?thesis by (simp add: nat_decimal.simps [of n] digit_value_char)
  next
    case False
    then show ?thesis
      by (simp add: nat_decimal.simps [of n] parse_digits_append 1 digit_value_char)
  qed
qed

lemma nat_decimal_nonempty [simp]: "nat_decimal n \<noteq> []"
  by (subst nat_decimal.simps) simp

lemma nat_decimal_digits: "c \<in> set (nat_decimal n) \<Longrightarrow> 48 \<le> (of_char c :: nat) \<and> (of_char c :: nat) \<le> 57"
proof (induction n rule: nat_decimal.induct)
  case (1 n)
  have d: "(of_char (digit_char m) :: nat) = 48 + m" if "m < 10" for m using that by (simp add: digit_char_def)
  from 1 show ?case by (cases "n < 10") (auto simp: nat_decimal.simps [of n] d)
qed

lemma nat_decimal_sign: "hd (nat_decimal n) \<noteq> CHR ''-''" "hd (nat_decimal n) \<noteq> CHR ''+''"
  using nat_decimal_digits [of "hd (nat_decimal n)" n] by (auto dest!: arg_cong [of _ _ "of_char :: char \<Rightarrow> nat"])

text \<open>Printing and parsing a number: \<open>Atoi\<close> reads what \<open>Itoa\<close> prints, for every \<open>int\<close> of 64 bits.\<close>

lemma Atoi_Itoa:
  assumes "- (2 ^ 63) \<le> i" and "i < 2 ^ 63"
  shows "Atoi (Itoa i) = Some i"
proof (cases "i < 0")
  case True
  with assms have "nat (- i) \<le> 2 ^ 63" by simp
  with True show ?thesis by (simp add: Itoa_def Atoi_def ParseUint_def parse_decimal)
next
  case False
  obtain c t where n: "nat_decimal (nat i) = c # t" using nat_decimal_nonempty by (meson list.exhaust)
  moreover have "c \<noteq> CHR ''-''" "c \<noteq> CHR ''+''" using nat_decimal_sign [of "nat i"] n by simp_all
  moreover have "nat i < 2 ^ 63" using False assms by simp
  ultimately show ?thesis
    using False parse_decimal [of "nat i"] by (simp add: Itoa_def Atoi_def ParseUint_def)
qed

lemma Itoa_inj: "- (2 ^ 63) \<le> i \<Longrightarrow> i < 2 ^ 63 \<Longrightarrow> - (2 ^ 63) \<le> j \<Longrightarrow> j < 2 ^ 63 \<Longrightarrow> Itoa i = Itoa j \<Longrightarrow> i = j"
  by (metis Atoi_Itoa option.inject)

lemma ParseUint_bound: "ParseUint s b bits = Some n \<Longrightarrow> n < 2 ^ bits"
  by (auto simp: ParseUint_def split: if_splits bind_splits)

lemma nat_decimal_length: "n < 10 ^ Suc k \<Longrightarrow> length (nat_decimal n) \<le> Suc k"
proof (induction k arbitrary: n)
  case 0
  then show ?case by (subst nat_decimal.simps) simp
next
  case (Suc k)
  show ?case
  proof (cases "n < 10")
    case False
    have "n div 10 < 10 ^ Suc k" using Suc.prems by (simp add: less_mult_imp_div_less mult.commute)
    from Suc.IH [OF this] False show ?thesis by (subst nat_decimal.simps) simp
  qed (subst nat_decimal.simps, simp)
qed

subsection \<open>path/filepath on Unix\<close>

text \<open>One component in \<open>filepath.Clean\<close>, on the reversed list of the components kept so far.\<close>

definition clean_step :: "bool \<Rightarrow> string \<Rightarrow> string list \<Rightarrow> string list" where
  "clean_step rooted p kept =
     (if p = [] \<or> p = ''.'' then kept
      else if p = ''..'' then
        (case kept of
           [] \<Rightarrow> if rooted then [] else [''..'']
         | q # qs \<Rightarrow> if q = ''..'' then ''..'' # kept else qs)
      else p # kept)"

definition Clean :: "string \<Rightarrow> string" where
  "Clean path =
     (let rooted = prefix ''/'' path;
          body = join_with ''/'' (rev (fold (clean_step rooted) (Split CHR ''/'' path) []))
      in if rooted then CHR ''/'' # body else if body = [] then ''.'' else body)"

definition path_Join :: "string list \<Rightarrow> string" where
  "path_Join elems =
     (case filter (\<lambda>e. e \<noteq> []) elems of [] \<Rightarrow> [] | es \<Rightarrow> Clean (join_with ''/'' es))"

definition path_Base :: "string \<Rightarrow> string" where
  "path_Base path =
     (if path = [] then ''.''
      else case dropWhile (\<lambda>c. c = CHR ''/'') (rev path) of
          [] \<Rightarrow> ''/''
        | r \<Rightarrow> rev (takeWhile (\<lambda>c. c \<noteq> CHR ''/'') r))"

definition path_Dir :: "string \<Rightarrow> string" where
  "path_Dir path = Clean (rev (dropWhile (\<lambda>c. c \<noteq> CHR ''/'') (rev path)))"

text \<open>The components of a cleaned rooted path: no empty one, no dot and no double dot.\<close>

definition plain_component :: "string \<Rightarrow> bool" where
  "plain_component p \<longleftrightarrow> p \<noteq> [] \<and> p \<noteq> ''.'' \<and> p \<noteq> ''..'' \<and> CHR ''/'' \<notin> set p"

lemma clean_fold_plain:
  assumes "\<And>p. p \<in> set ps \<Longrightarrow> CHR ''/'' \<notin> set p" and "\<And>p. p \<in> set kept \<Longrightarrow> plain_component p"
  shows "p \<in> set (fold (clean_step True) ps kept) \<Longrightarrow> plain_component p"
  using assms
proof (induction ps arbitrary: kept)
  case (Cons q ps)
  have "plain_component r" if "r \<in> set (clean_step True q kept)" for r
    using that Cons.prems(2) [of q] Cons.prems(3) by (auto simp: clean_step_def plain_component_def split: list.splits if_splits)
  with Cons show ?case by simp
qed simp

lemma clean_fold_id:
  assumes "\<And>p. p \<in> set ps \<Longrightarrow> plain_component p"
  shows "fold (clean_step True) ps kept = rev ps @ kept"
  using assms by (induction ps arbitrary: kept) (auto simp: clean_step_def plain_component_def)

lemma Clean_rooted:
  obtains ps where "Clean (CHR ''/'' # s) = CHR ''/'' # join_with ''/'' ps" and "\<And>p. p \<in> set ps \<Longrightarrow> plain_component p"
proof -
  let ?ps = "rev (fold (clean_step True) (Split CHR ''/'' (CHR ''/'' # s)) [])"
  have "plain_component p" if "p \<in> set ?ps" for p
    using that clean_fold_plain [of "Split CHR ''/'' (CHR ''/'' # s)" "[]" p] Split_no_sep [of _ "CHR ''/''" "CHR ''/'' # s"]
    by auto
  then show ?thesis by (intro that [of ?ps]) (simp_all add: Clean_def)
qed

lemma Clean_plain:
  assumes "\<And>p. p \<in> set ps \<Longrightarrow> plain_component p"
  shows "Clean (CHR ''/'' # join_with ''/'' ps) = CHR ''/'' # join_with ''/'' ps"
proof (cases "ps = []")
  case True
  then show ?thesis by (simp add: Clean_def clean_step_def)
next
  case False
  then have "Split CHR ''/'' (join_with ''/'' ps) = ps" using assms by (intro Split_join) (auto simp: plain_component_def)
  moreover have "fold (clean_step True) ps [] = rev ps" using clean_fold_id [of ps "[]"] assms by auto
  ultimately show ?thesis by (simp add: Clean_def clean_step_def)
qed

text \<open>Cleaning a rooted path is idempotent.\<close>

lemma Clean_idem: "Clean (Clean (CHR ''/'' # s)) = Clean (CHR ''/'' # s)"
proof -
  obtain ps where "Clean (CHR ''/'' # s) = CHR ''/'' # join_with ''/'' ps" "\<And>p. p \<in> set ps \<Longrightarrow> plain_component p"
    using Clean_rooted [of s] by blast
  with Clean_plain [of ps] show ?thesis by simp
qed

end
