(* ===== verification/PcscBackend.thy ===== *)
theory PcscBackend
  imports Sessions GoPath
begin

text \<open>
  The NFC backend over PC/SC, \<open>pkg/transport/nfc/pcsc_backend.go\<close>: discovery probes every reader for the FIDO applet, \<open>Open\<close> connects
  to one reader and selects the applet. The PC/SC library is a parameter: a factory of contexts, with the readers and cards
  behind them. The messages of its errors, which \<open>shouldIgnorePCSCConnectError\<close> reads, are the
  parameter \<open>message\<close>, the library's \<open>Error\<close> method.
\<close>

subsection \<open>The PC/SC interfaces\<close>

record 'w pcsc_card =
  pk_Transmit :: "bytes \<Rightarrow> 'w \<Rightarrow> bytes res \<times> 'w"
  pk_Close :: "'w \<Rightarrow> err option \<times> 'w"

record 'w pcsc_context =
  px_ListReaders :: "'w \<Rightarrow> string list res \<times> 'w"
  px_Connect :: "string \<Rightarrow> 'w \<Rightarrow> 'w pcsc_card res \<times> 'w"
  px_Release :: "'w \<Rightarrow> err option \<times> 'w"

type_synonym 'w pcsc_factory = "'w \<Rightarrow> 'w pcsc_context res \<times> 'w"

record 'w pcsc_transceiver =
  pt_context :: "'w pcsc_context"
  pt_card :: "'w pcsc_card"

definition defaultAPDUClass :: byte where "defaultAPDUClass = 0x80"
definition defaultAPDUInstruction :: byte where "defaultAPDUInstruction = 0x10"
definition defaultAPDUParameter1 :: byte where "defaultAPDUParameter1 = 0"
definition defaultAPDUParameter2 :: byte where "defaultAPDUParameter2 = 0"
definition defaultAPDUChunkSize :: int where "defaultAPDUChunkSize = 240"

definition fidoAppletSelectCommand :: bytes where
  "fidoAppletSelectCommand = [0x00, 0xA4, 0x04, 0x00, 0x08, 0xA0, 0x00, 0x00, 0x06, 0x47, 0x2F, 0x00, 0x01, 0x00]"

subsection \<open>Selecting the applet\<close>

definition applet_answer :: "bytes \<Rightarrow> bytes res" where
  "applet_answer response =
     (if length response < 2 then Inl (TextError ''transport/nfc: applet selection response is too short'')
      else
        let status1 = response ! (length response - 2); status2 = response ! (length response - 1) in
        if status1 \<noteq> 0x90 \<or> status2 \<noteq> 0 then Inl (AppletSelectionError status1 status2)
        else Inr (take (length response - 2) response))"

definition selectFIDOApplet :: "'w pcsc_card \<Rightarrow> 'w \<Rightarrow> bytes res \<times> 'w" where
  "selectFIDOApplet pcard w =
     (case pk_Transmit pcard fidoAppletSelectCommand w of
        (Inl e, w') \<Rightarrow> (Inl e, w')
      | (Inr response, w') \<Rightarrow> (applet_answer response, w'))"

definition shouldIgnorePCSCConnectError :: "(err \<Rightarrow> string) \<Rightarrow> err \<Rightarrow> bool" where
  "shouldIgnorePCSCConnectError message e = contains_fold (message e) ''no card''"

definition no_applet :: "err \<Rightarrow> bool" where
  "no_applet e \<longleftrightarrow> errors_as as_AppletSelection e = Some (0x6A, 0x82)"

text \<open>\<open>probePCSCReader\<close>: the version of the applet, or None when the reader has no card or the card no FIDO applet. The deferred
  close runs after the selection.\<close>

definition probePCSCReader ::
  "(err \<Rightarrow> string) \<Rightarrow> 'w pcsc_context \<Rightarrow> string \<Rightarrow> 'w \<Rightarrow> bytes option res \<times> 'w" where
  "probePCSCReader message ctx reader w =
     (case px_Connect ctx reader w of
        (Inl e, w1) \<Rightarrow> (if shouldIgnorePCSCConnectError message e then Inr None else Inl e, w1)
      | (Inr pcard, w1) \<Rightarrow>
          (case selectFIDOApplet pcard w1 of
             (Inl e, w2) \<Rightarrow> (if no_applet e then Inr None else Inl e, snd (pk_Close pcard w2))
           | (Inr version, w2) \<Rightarrow> (Inr (Some version), snd (pk_Close pcard w2))))"

definition newPCSCDeviceDescriptor :: "string \<Rightarrow> bytes \<Rightarrow> device_descriptor" where
  "newPCSCDeviceDescriptor reader version =
     (let name = (if TrimSpace reader = [] then ''PC/SC reader'' else TrimSpace reader);
          versionText = TrimSpace (bytes_string version)
      in \<lparr>dd_ID = ''pcsc:'' @ name, dd_Transport = KindNFC, dd_Path = name, dd_Manufacturer = [],
          dd_Product = (if versionText \<noteq> [] then name @ '' ['' @ versionText @ '']'' else name),
          dd_SerialNumber = [], dd_VendorID = 0, dd_ProductID = 0\<rparr>)"

subsection \<open>Discovery\<close>

text \<open>The loop over the readers, with the devices and errors so far; \<open>ctxErr\<close> answers \<open>ctx.Err()\<close>. The context was released by the
  deferred call of the caller.\<close>

fun pcsc_probe_loop ::
  "(err \<Rightarrow> string) \<Rightarrow> ('w \<Rightarrow> err option \<times> 'w) \<Rightarrow> 'w pcsc_context \<Rightarrow> string list \<Rightarrow> device_descriptor list \<Rightarrow> err list \<Rightarrow> 'w \<Rightarrow>
   (device_descriptor list \<times> err option) \<times> 'w" where
  "pcsc_probe_loop message ctxErr ctx [] devices errs w = ((devices, errors_join (map Some errs)), w)"
| "pcsc_probe_loop message ctxErr ctx (reader # readers) devices errs w =
     (case ctxErr w of
        (Some e, w1) \<Rightarrow> (([], Some e), w1)
      | (None, w1) \<Rightarrow>
          (case probePCSCReader message ctx reader w1 of
             (Inl e, w2) \<Rightarrow>
               pcsc_probe_loop message ctxErr ctx readers devices
                 (errs @ [WrapError (''transport/nfc: probe reader '' @ reader @ '': %w'') [e]]) w2
           | (Inr None, w2) \<Rightarrow> pcsc_probe_loop message ctxErr ctx readers devices errs w2
           | (Inr (Some version), w2) \<Rightarrow>
               pcsc_probe_loop message ctxErr ctx readers (devices @ [newPCSCDeviceDescriptor reader version]) errs w2))"

definition pcsc_Discover ::
  "(err \<Rightarrow> string) \<Rightarrow> 'w pcsc_factory \<Rightarrow> ('w \<Rightarrow> err option \<times> 'w) \<Rightarrow> 'w discoverer" where
  "pcsc_Discover message factory ctxErr w =
     (case ctxErr w of
        (Some e, w1) \<Rightarrow> (([], Some e), w1)
      | (None, w1) \<Rightarrow>
          (case factory w1 of
             (Inl e, w2) \<Rightarrow> (([], Some e), w2)
           | (Inr ctx, w2) \<Rightarrow>
               (case px_ListReaders ctx w2 of
                  (Inl e, w3) \<Rightarrow> (([], Some e), snd (px_Release ctx w3))
                | (Inr readers, w3) \<Rightarrow>
                    (case pcsc_probe_loop message ctxErr ctx readers [] [] w3 of
                       (r, w4) \<Rightarrow> (r, snd (px_Release ctx w4))))))"

subsection \<open>Opening\<close>

definition pcsc_reader :: "device_descriptor \<Rightarrow> string" where
  "pcsc_reader device =
     (let reader = TrimSpace (dd_Path device) in
      if reader = [] then TrimPrefix (TrimSpace (dd_ID device)) ''pcsc:'' else reader)"

definition pcsc_Open ::
  "'w pcsc_factory \<Rightarrow> ('w \<Rightarrow> err option \<times> 'w) \<Rightarrow> device_descriptor \<Rightarrow> 'w \<Rightarrow> 'w pcsc_transceiver res \<times> 'w" where
  "pcsc_Open factory ctxErr device w =
     (case ctxErr w of
        (Some e, w1) \<Rightarrow> (Inl e, w1)
      | (None, w1) \<Rightarrow>
          if pcsc_reader device = [] then (Inl (TextError ''transport/nfc: PC/SC reader path is required''), w1)
          else (case factory w1 of
             (Inl e, w2) \<Rightarrow> (Inl e, w2)
           | (Inr ctx, w2) \<Rightarrow>
               (case px_Connect ctx (pcsc_reader device) w2 of
                  (Inl e, w3) \<Rightarrow> (Inl e, snd (px_Release ctx w3))
                | (Inr pcard, w3) \<Rightarrow>
                    (case selectFIDOApplet pcard w3 of
                       (Inl e, w4) \<Rightarrow> (Inl e, snd (px_Release ctx (snd (pk_Close pcard w4))))
                     | (Inr version, w4) \<Rightarrow> (Inr \<lparr>pt_context = ctx, pt_card = pcard\<rparr>, w4)))))"

definition pcsc_Transceive ::
  "('w \<Rightarrow> err option \<times> 'w) \<Rightarrow> 'w pcsc_transceiver \<Rightarrow> bytes \<Rightarrow> 'w \<Rightarrow> bytes res \<times> 'w" where
  "pcsc_Transceive ctxErr transceiver packet w =
     (case ctxErr w of
        (Some e, w1) \<Rightarrow> (Inl e, w1)
      | (None, w1) \<Rightarrow> pk_Transmit (pt_card transceiver) packet w1)"

definition pcsc_Close :: "'w pcsc_transceiver \<Rightarrow> 'w \<Rightarrow> err option \<times> 'w" where
  "pcsc_Close transceiver w =
     (case pk_Close (pt_card transceiver) w of
        (cardErr, w1) \<Rightarrow>
          (case px_Release (pt_context transceiver) w1 of
             (contextErr, w2) \<Rightarrow> (if cardErr \<noteq> None then cardErr else contextErr, w2)))"

text \<open>The backend of \<open>NewPCSCBackendWithFactory\<close>, over the NFC backend of \<open>Sessions\<close>; a nil factory is None.\<close>

definition NewPCSCBackendWithFactory ::
  "(err \<Rightarrow> string) \<Rightarrow> ('w \<Rightarrow> err option \<times> 'w) \<Rightarrow> 'w pcsc_factory option \<Rightarrow>
   ('w discoverer \<times> (device_descriptor \<Rightarrow> 'w \<Rightarrow> (device_descriptor \<times> 'w pcsc_transceiver \<times> nfc_codec) res \<times> 'w)) res" where
  "NewPCSCBackendWithFactory message ctxErr factory =
     (case factory of
        None \<Rightarrow> Inl (TextError ''transport/nfc: pcsc context factory is required'')
      | Some f \<Rightarrow>
          andThen (nfc_NewCodec defaultAPDUClass defaultAPDUInstruction defaultAPDUParameter1 defaultAPDUParameter2 defaultAPDUChunkSize) (\<lambda>_.
            Inr (nfc_Discover (pcsc_Discover message f ctxErr),
                 nfc_Open (pcsc_Open f ctxErr) pcsc_Close defaultAPDUClass defaultAPDUInstruction defaultAPDUParameter1
                   defaultAPDUParameter2 defaultAPDUChunkSize)))"

text \<open>The descriptor of a reader carries the trimmed name, and \<open>Open\<close> connects to that name: a reader whose name starts or ends
  with white space is discovered under a name that is not its own.\<close>

lemma pcsc_reopen_trimmed: "TrimSpace reader \<noteq> [] \<Longrightarrow> pcsc_reader (newPCSCDeviceDescriptor reader version) = TrimSpace reader"
  by (simp add: pcsc_reader_def newPCSCDeviceDescriptor_def Let_def)

subsection \<open>Cards and contexts are given back\<close>

text \<open>What the PC/SC library promises, for counters \<open>contexts\<close> and \<open>cards\<close> of the open handles: a handle is opened by a successful
  call and ended by its close, and nothing else changes the counts.\<close>

definition same_handles :: "('w \<Rightarrow> nat) \<Rightarrow> ('w \<Rightarrow> nat) \<Rightarrow> 'w \<Rightarrow> 'w \<Rightarrow> bool" where
  "same_handles contexts cards w w' \<longleftrightarrow> contexts w' = contexts w \<and> cards w' = cards w"

definition card_counted :: "('w \<Rightarrow> nat) \<Rightarrow> ('w \<Rightarrow> nat) \<Rightarrow> 'w pcsc_card \<Rightarrow> bool" where
  "card_counted contexts cards c \<longleftrightarrow>
     (\<forall>p w. same_handles contexts cards w (snd (pk_Transmit c p w))) \<and>
     (\<forall>w. contexts (snd (pk_Close c w)) = contexts w \<and> cards (snd (pk_Close c w)) = cards w - 1)"

definition context_counted :: "('w \<Rightarrow> nat) \<Rightarrow> ('w \<Rightarrow> nat) \<Rightarrow> 'w pcsc_context \<Rightarrow> bool" where
  "context_counted contexts cards ctx \<longleftrightarrow>
     (\<forall>w. same_handles contexts cards w (snd (px_ListReaders ctx w))) \<and>
     (\<forall>r w. case px_Connect ctx r w of
        (Inl e, w') \<Rightarrow> same_handles contexts cards w w'
      | (Inr c, w') \<Rightarrow> contexts w' = contexts w \<and> cards w' = Suc (cards w) \<and> card_counted contexts cards c) \<and>
     (\<forall>w. contexts (snd (px_Release ctx w)) = contexts w - 1 \<and> cards (snd (px_Release ctx w)) = cards w)"

definition pcsc_counted ::
  "('w \<Rightarrow> nat) \<Rightarrow> ('w \<Rightarrow> nat) \<Rightarrow> 'w pcsc_factory \<Rightarrow> ('w \<Rightarrow> err option \<times> 'w) \<Rightarrow> bool" where
  "pcsc_counted contexts cards factory ctxErr \<longleftrightarrow>
     (\<forall>w. same_handles contexts cards w (snd (ctxErr w))) \<and>
     (\<forall>w. case factory w of
        (Inl e, w') \<Rightarrow> same_handles contexts cards w w'
      | (Inr ctx, w') \<Rightarrow> contexts w' = Suc (contexts w) \<and> cards w' = cards w \<and> context_counted contexts cards ctx)"

lemma select_handles: "card_counted contexts cards c \<Longrightarrow> selectFIDOApplet c w = (r, w') \<Longrightarrow> same_handles contexts cards w w'"
  unfolding card_counted_def selectFIDOApplet_def by (auto split: prod.splits sum.splits) (metis snd_conv)+

lemma connect_handles:
  assumes "context_counted contexts cards ctx" "px_Connect ctx r w = (q, w')"
  shows "case q of Inl e \<Rightarrow> same_handles contexts cards w w'
    | Inr c \<Rightarrow> contexts w' = contexts w \<and> cards w' = Suc (cards w) \<and> card_counted contexts cards c"
proof -
  have "case px_Connect ctx r w of
        (Inl e, w') \<Rightarrow> same_handles contexts cards w w'
      | (Inr c, w') \<Rightarrow> contexts w' = contexts w \<and> cards w' = Suc (cards w) \<and> card_counted contexts cards c"
    using assms(1) by (simp add: context_counted_def)
  with assms(2) show ?thesis by (cases q) auto
qed

lemma close_handles:
  "card_counted contexts cards c \<Longrightarrow> contexts (snd (pk_Close c w)) = contexts w \<and> cards (snd (pk_Close c w)) = cards w - 1"
  by (simp add: card_counted_def)

lemma probe_handles:
  assumes ctx: "context_counted contexts cards ctx" and run: "probePCSCReader message ctx reader w = (r, w')"
  shows "same_handles contexts cards w w'"
proof -
  obtain q w1 where c: "px_Connect ctx reader w = (q, w1)" by fastforce
  note conn = connect_handles [OF ctx c]
  show ?thesis
  proof (cases q)
    case (Inl e)
    with run c conn show ?thesis by (auto simp: probePCSCReader_def)
  next
    case (Inr pcard)
    obtain s w2 where s: "selectFIDOApplet pcard w1 = (s, w2)" by fastforce
    have "w' = snd (pk_Close pcard w2)" using run c Inr s by (cases s) (auto simp: probePCSCReader_def)
    moreover have counted: "card_counted contexts cards pcard" and w1: "contexts w1 = contexts w" "cards w1 = Suc (cards w)"
      using conn Inr by auto
    ultimately show ?thesis using select_handles [OF counted s] close_handles [OF counted, of w2] by (simp add: same_handles_def)
  qed
qed

lemma same_trans: "same_handles contexts cards u v \<Longrightarrow> same_handles contexts cards v w \<Longrightarrow> same_handles contexts cards u w"
  by (simp add: same_handles_def)

lemma probe_loop_handles:
  assumes ctx: "context_counted contexts cards ctx" and alive: "\<And>w. same_handles contexts cards w (snd (ctxErr w))"
  shows "same_handles contexts cards w (snd (pcsc_probe_loop message ctxErr ctx readers devices errs w))"
proof (induction readers arbitrary: devices errs w)
  case Nil
  show ?case by (simp add: same_handles_def)
next
  case (Cons reader readers)
  obtain e w1 where e: "ctxErr w = (e, w1)" by fastforce
  obtain r w2 where r: "probePCSCReader message ctx reader w1 = (r, w2)" by fastforce
  have "same_handles contexts cards w w1" using alive [of w] e by simp
  moreover have "same_handles contexts cards w1 w2" by (rule probe_handles [OF ctx r])
  ultimately have w2: "same_handles contexts cards w w2" by (rule same_trans)
  show ?case
    using alive [of w] e r same_trans [OF w2 Cons.IH]
    by (auto split: option.split sum.split)
qed

subsection \<open>Properties\<close>

text \<open>Both operations once the context is established.\<close>

lemma release_handles:
  "context_counted contexts cards ctx \<Longrightarrow> contexts (snd (px_Release ctx v)) = contexts v - 1 \<and> cards (snd (px_Release ctx v)) = cards v"
  by (simp add: context_counted_def)

lemma discover_handles:
  assumes start: "ctxErr w = (None, w1)" "factory w1 = (Inr ctx, w2)"
    and ctx: "context_counted contexts cards ctx" "contexts w2 = Suc (contexts w)" "cards w2 = cards w"
    and alive: "\<And>v. same_handles contexts cards v (snd (ctxErr v))"
  shows "same_handles contexts cards w (snd (pcsc_Discover message factory ctxErr w))"
proof -
  obtain rs w3 where l: "px_ListReaders ctx w2 = (rs, w3)" by fastforce
  have w3: "same_handles contexts cards w2 w3" using ctx(1) l unfolding context_counted_def by (metis snd_conv)
  note rel = release_handles [OF ctx(1)]
  show ?thesis
  proof (cases rs)
    case (Inl x)
    with start l w3 ctx(2,3) rel show ?thesis by (simp add: pcsc_Discover_def same_handles_def)
  next
    case (Inr readers)
    obtain res w4 where "pcsc_probe_loop message ctxErr ctx readers [] [] w3 = (res, w4)" by fastforce
    with Inr start l w3 ctx(2,3) rel probe_loop_handles [OF ctx(1) alive, of w3 message readers "[]" "[]"] show ?thesis
      by (simp add: pcsc_Discover_def same_handles_def)
  qed
qed

lemma open_handles:
  assumes start: "ctxErr w = (None, w1)" "factory w1 = (Inr ctx, w2)" and w1: "same_handles contexts cards w w1"
    and ctx: "context_counted contexts cards ctx" "contexts w2 = Suc (contexts w)" "cards w2 = cards w"
  shows "case pcsc_Open factory ctxErr device w of
      (Inl e, w') \<Rightarrow> same_handles contexts cards w w'
    | (Inr t, w') \<Rightarrow> contexts w' = Suc (contexts w) \<and> cards w' = Suc (cards w) \<and>
        (\<forall>v. contexts (snd (pcsc_Close t v)) = contexts v - 1 \<and> cards (snd (pcsc_Close t v)) = cards v - 1)"
proof -
  obtain c w4 where c: "px_Connect ctx (pcsc_reader device) w2 = (c, w4)" by fastforce
  note conn = connect_handles [OF ctx(1) c] and rel = release_handles [OF ctx(1)]
  show ?thesis
  proof (cases "pcsc_reader device = [] \<or> (\<exists>x. c = Inl x)")
    case True
    with start c conn ctx(2,3) rel w1 show ?thesis by (auto simp: pcsc_Open_def same_handles_def)
  next
    case False
    then obtain pcard where p: "c = Inr pcard" "pcsc_reader device \<noteq> []" by (cases c) auto
    then have pc: "contexts w4 = contexts w2" "cards w4 = Suc (cards w2)" "card_counted contexts cards pcard" using conn by auto
    obtain s w5 where s: "selectFIDOApplet pcard w4 = (s, w5)" by fastforce
    note sel = select_handles [OF pc(3) s] and cl = close_handles [OF pc(3)]
    show ?thesis
    proof (cases s)
      case (Inl x)
      with start c p s sel cl ctx(2,3) pc(1,2) rel show ?thesis by (simp add: pcsc_Open_def same_handles_def)
    next
      case (Inr x)
      have "contexts (snd (pcsc_Close \<lparr>pt_context = ctx, pt_card = pcard\<rparr> v)) = contexts v - 1 \<and>
          cards (snd (pcsc_Close \<lparr>pt_context = ctx, pt_card = pcard\<rparr> v)) = cards v - 1" for v
        using cl [of v] rel by (simp add: pcsc_Close_def split: prod.splits) (metis snd_conv)
      with Inr start c p s sel ctx(2,3) pc(1,2) show ?thesis by (simp add: pcsc_Open_def same_handles_def)
    qed
  qed
qed

text \<open>C24. PC/SC handles are never leaked: \<open>Discover\<close> gives back every card and context it opened, whatever the readers and
  cards answer; an \<open>Open\<close> that fails leaves none open, and one that succeeds leaves exactly one card and one
  context, which the transceiver's \<open>Close\<close> gives back.\<close>

theorem pcsc_handles_balanced:
  assumes counted: "pcsc_counted contexts cards factory ctxErr"
  shows "same_handles contexts cards w (snd (pcsc_Discover message factory ctxErr w)) \<and>
    (case pcsc_Open factory ctxErr device w of
       (Inl e, w') \<Rightarrow> same_handles contexts cards w w'
     | (Inr t, w') \<Rightarrow> contexts w' = Suc (contexts w) \<and> cards w' = Suc (cards w) \<and>
         (\<forall>v. contexts (snd (pcsc_Close t v)) = contexts v - 1 \<and> cards (snd (pcsc_Close t v)) = cards v - 1))"
proof -
  obtain e w1 where e: "ctxErr w = (e, w1)" by fastforce
  obtain q w2 where f: "factory w1 = (q, w2)" by fastforce
  have alive: "same_handles contexts cards v (snd (ctxErr v))" for v using counted by (simp add: pcsc_counted_def)
  have w1: "same_handles contexts cards w w1" using alive [of w] e by simp
  have "case factory w1 of
        (Inl e, w') \<Rightarrow> same_handles contexts cards w1 w'
      | (Inr ctx, w') \<Rightarrow> contexts w' = Suc (contexts w1) \<and> cards w' = cards w1 \<and> context_counted contexts cards ctx"
    using counted by (simp add: pcsc_counted_def)
  then have fac: "case q of Inl e \<Rightarrow> same_handles contexts cards w1 w2
      | Inr ctx \<Rightarrow> contexts w2 = Suc (contexts w1) \<and> cards w2 = cards w1 \<and> context_counted contexts cards ctx"
    using f by (cases q) auto
  show ?thesis
  proof (cases "e = None \<and> (\<exists>ctx. q = Inr ctx)")
    case False
    then show ?thesis using e f w1 fac same_trans [OF w1]
      by (cases e; cases q) (auto simp: pcsc_Discover_def pcsc_Open_def)
  next
    case True
    then obtain ctx where t: "e = None" "q = Inr ctx" by blast
    have ctx: "context_counted contexts cards ctx" "contexts w2 = Suc (contexts w)" "cards w2 = cards w"
      using fac w1 t by (auto simp: same_handles_def)
    note start = e [unfolded t] f [unfolded t]
    show ?thesis
      by (rule conjI [OF discover_handles [where ctxErr = ctxErr and factory = factory and w = w, OF start ctx alive]
        open_handles [where ctxErr = ctxErr and factory = factory and w = w, OF start w1 ctx]])
  qed
qed

text \<open>A reader with a FIDO card and an empty one, over a world that counts open contexts and cards.\<close>

definition sample_card :: "(nat \<times> nat) pcsc_card" where
  "sample_card = \<lparr>pk_Transmit = (\<lambda>p w. (Inr [0x55, 0x32, 0x46, 0x90, 0], w)), pk_Close = (\<lambda>w. (None, (fst w, snd w - 1)))\<rparr>"

definition sample_factory :: "(nat \<times> nat) pcsc_factory" where
  "sample_factory w =
     (Inr \<lparr>px_ListReaders = (\<lambda>w. (Inr [''A'', ''B''], w)),
           px_Connect = (\<lambda>r w. if r = ''A'' then (Inr sample_card, (fst w, Suc (snd w))) else (Inl (TextError ''no card''), w)),
           px_Release = (\<lambda>w. (None, (fst w - 1, snd w)))\<rparr>, (Suc (fst w), snd w))"

theorem pcsc_handles_balanced_witness:
  "pcsc_counted fst snd sample_factory (\<lambda>w. (None, w)) \<and>
     (\<exists>t. pcsc_Open sample_factory (\<lambda>w. (None, w)) (newPCSCDeviceDescriptor ''A'' []) (0, 0) = (Inr t, (1, 1)) \<and>
        snd (pcsc_Close t (1, 1)) = (0, 0))"
proof -
  have c: "pcsc_counted fst snd sample_factory (\<lambda>w. (None, w))"
    by (auto simp: pcsc_counted_def same_handles_def sample_factory_def context_counted_def card_counted_def sample_card_def)
  have reader: "pcsc_reader (newPCSCDeviceDescriptor ''A'' []) = ''A''"
  proof -
    have "TrimSpace ''A'' = ''A''" unfolding TrimSpace_fix by code_simp
    then show ?thesis by (simp add: newPCSCDeviceDescriptor_def pcsc_reader_def Let_def)
  qed
  then obtain t w' where t: "pcsc_Open sample_factory (\<lambda>w. (None, w)) (newPCSCDeviceDescriptor ''A'' []) (0, 0) = (Inr t, w')"
    by (simp add: pcsc_Open_def sample_factory_def selectFIDOApplet_def sample_card_def applet_answer_def)
  from pcsc_handles_balanced [OF c, of "(0, 0)" "\<lambda>_. []" "newPCSCDeviceDescriptor ''A'' []"] t c show ?thesis
    by (auto simp: prod_eq_iff)
qed

end
