(* ===== verification/UsbBackend.thy ===== *)
theory UsbBackend
  imports UsbSession
begin

text \<open>
  Discovery and selection of native FIDO endpoints: \<open>pkg/transport/usb/hid_backend.go\<close>. The HID backend behind
  it (\<open>hid.Backend\<close> and the connections it returns) is the record \<open>hid_backend_ops\<close> over an
  environment \<open>'b\<close>.
\<close>

subsection \<open>The HID backend interface\<close>

text \<open>\<open>hb_Open\<close> may return a nil connection without an error, as an interface value can be nil;
  \<open>hb_Close\<close> closes with the cleanup timeout.\<close>

record ('b, 'conn) hid_backend_ops =
  hb_ctxErr :: "'b ctx_poll"
  hb_Enumerate :: "enumerate_options \<Rightarrow> 'b \<Rightarrow> (hid_snapshot \<times> err option) \<times> 'b"
  hb_Open :: "endpoint \<Rightarrow> 'b \<Rightarrow> 'conn option res \<times> 'b"
  hb_Layout :: "'conn \<Rightarrow> report_layout"
  hb_Endpoint :: "'conn \<Rightarrow> endpoint"
  hb_Close :: "'conn \<Rightarrow> 'b ctx_poll"

subsection \<open>Endpoints\<close>

definition fido_usage :: usage where
  "fido_usage = \<lparr>us_Page = 0xf1d0, us_ID = 0x01\<rparr>"

definition fidoOptions :: enumerate_options where
  "fidoOptions =
     \<lparr>eo_Filter = \<lparr>hf_VendorID = None, hf_ProductID = None, hf_Usage = Some fido_usage, hf_Bus = Some BusUSB\<rparr>,
      eo_ResolveStrings = True\<rparr>"

definition isFIDOEndpoint :: "endpoint \<Rightarrow> bool" where
  "isFIDOEndpoint e \<longleftrightarrow> ep_Bus e = BusUSB \<and> fd_Known (ep_Usage e) \<and> fd_Value (ep_Usage e) = fido_usage"

definition endpointDescriptor :: "endpoint \<Rightarrow> device_descriptor" where
  "endpointDescriptor e =
     \<lparr>dd_ID = ep_ID e, dd_Transport = KindUSB, dd_Path = ep_Path e, dd_Manufacturer = fd_Value (ep_Manufacturer e),
      dd_Product = fd_Value (ep_Product e), dd_SerialNumber = fd_Value (ep_Serial e),
      dd_VendorID = fd_Value (ep_VendorID e), dd_ProductID = fd_Value (ep_ProductID e)\<rparr>"

definition incompleteInventory :: "hid_snapshot \<Rightarrow> err option" where
  "incompleteInventory s =
     errors_join (Some (TextError ''transport/usb: incomplete FIDO HID inventory'') # sn_Warnings s)"

definition backend_inventory ::
  "('b, 'conn) hid_backend_ops \<Rightarrow> 'b \<Rightarrow> (hid_snapshot \<times> err option) \<times> 'b" where
  "backend_inventory ops b =
     (case hb_Enumerate ops fidoOptions b of
        ((s, Some e), b') \<Rightarrow> ((s, Some e), b')
      | ((s, None), b') \<Rightarrow> ((s, if \<not> sn_Complete s then incompleteInventory s else None), b'))"

definition descriptorMatches :: "device_descriptor \<Rightarrow> endpoint \<Rightarrow> bool" where
  "descriptorMatches expected actual \<longleftrightarrow>
     (dd_Path expected = [] \<or> dd_Path expected = ep_Path actual) \<and>
     (dd_VendorID expected = 0 \<or> fd_Known (ep_VendorID actual) \<and> dd_VendorID expected = fd_Value (ep_VendorID actual)) \<and>
     (dd_ProductID expected = 0 \<or> fd_Known (ep_ProductID actual) \<and> dd_ProductID expected = fd_Value (ep_ProductID actual)) \<and>
     (dd_SerialNumber expected = [] \<or> fd_Known (ep_Serial actual) \<and> dd_SerialNumber expected = fd_Value (ep_Serial actual)) \<and>
     (dd_Manufacturer expected = [] \<or> fd_Known (ep_Manufacturer actual) \<and> dd_Manufacturer expected = fd_Value (ep_Manufacturer actual)) \<and>
     (dd_Product expected = [] \<or> fd_Known (ep_Product actual) \<and> dd_Product expected = fd_Value (ep_Product actual))"

subsection \<open>Discover and Open\<close>

definition HIDBackend_Discover ::
  "('b, 'conn) hid_backend_ops \<Rightarrow> bool \<Rightarrow> 'b \<Rightarrow> device_descriptor list res \<times> 'b" where
  "HIDBackend_Discover ops ctxNil b =
     (if ctxNil then (Inl (TransportError ''discover usb hid devices'' (Sentinel (SHid HidInvalidArgument))), b)
      else
        (case backend_inventory ops b of
           ((s, Some e), b') \<Rightarrow> (Inl (TransportError ''discover usb hid devices'' (classifyHIDError e)), b')
         | ((s, None), b') \<Rightarrow> (Inr (map endpointDescriptor (filter isFIDOEndpoint (sn_Endpoints s))), b')))"

text \<open>The selection loop of \<open>Open\<close>: the last matching endpoint and the number of matches.\<close>

definition selects :: "device_descriptor \<Rightarrow> endpoint \<Rightarrow> bool" where
  "selects device e \<longleftrightarrow> isFIDOEndpoint e \<and>
     (if dd_ID device = [] then ep_Path e = dd_Path device else ep_ID e = dd_ID device)"

fun select_loop :: "device_descriptor \<Rightarrow> endpoint list \<Rightarrow> endpoint option \<times> nat \<Rightarrow> endpoint option \<times> nat" where
  "select_loop device [] sel = sel"
| "select_loop device (e # es) sel =
     select_loop device es (if selects device e then (Some e, snd sel + 1) else sel)"

definition open_error :: "err \<Rightarrow> err" where
  "open_error e = TransportError ''open usb hid session'' (classifyHIDError e)"

text \<open>The choice of the endpoint that \<open>Open\<close> will open, from its snapshot.\<close>

definition open_select :: "device_descriptor \<Rightarrow> hid_snapshot \<Rightarrow> endpoint res" where
  "open_select device s =
     (case select_loop device (sn_Endpoints s) (None, 0) of (selected, count) \<Rightarrow>
        if count = 0 then
          (if \<not> sn_Complete s then Inl (open_error (the (incompleteInventory s)))
           else Inl (open_error (Sentinel (SHid HidRemoved))))
        else if dd_ID device = [] \<and> \<not> sn_Complete s then Inl (open_error (the (incompleteInventory s)))
        else if count \<noteq> 1 then
          Inl (open_error (WrapError ''transport/usb: ambiguous endpoint selection: %w'' [Sentinel (SHid HidInvalidArgument)]))
        else if \<not> descriptorMatches device (the selected) then Inl (open_error (Sentinel (SHid HidStaleEndpoint)))
        else Inr (the selected))"

definition open_layout ::
  "('b, 'conn) hid_backend_ops \<Rightarrow> 'conn \<Rightarrow> 'b \<Rightarrow> 'conn hid_session res \<times> 'b" where
  "open_layout ops conn b =
     (let layout = hb_Layout ops conn in
      if rs_Size (rl_Input layout) \<noteq> int hidReportSize \<or> rs_Size (rl_Output layout) \<noteq> int hidReportSize then
        (case hb_Close ops conn b of (e, b') \<Rightarrow>
           (Inl (open_error (the (errors_join [Some (Sentinel (SHid HidUnsupported)), e]))), b'))
      else
        (Inr \<lparr>hs_device = endpointDescriptor (hb_Endpoint ops conn), hs_layout = layout,
              hs_reportSize = int hidReportSize, hs_closing = False, hs_busy = False, hs_channelID = 0,
              hs_progress = None, hs_env = conn\<rparr>, b))"

definition HIDBackend_Open ::
  "('b, 'conn) hid_backend_ops \<Rightarrow> bool \<Rightarrow> device_descriptor \<Rightarrow> 'b \<Rightarrow> 'conn hid_session res \<times> 'b" where
  "HIDBackend_Open ops ctxNil device b =
     (if ctxNil then (Inl (open_error (Sentinel (SHid HidInvalidArgument))), b)
      else
        (case hb_ctxErr ops b of
           (Some e, b1) \<Rightarrow> (Inl (open_error e), b1)
         | (None, b1) \<Rightarrow>
             if dd_Transport device \<noteq> [] \<and> dd_Transport device \<noteq> KindUnknown \<and> dd_Transport device \<noteq> KindUSB then
               (Inl (open_error (Sentinel (SHid HidUnsupported))), b1)
             else if dd_ID device = [] \<and> dd_Path device = [] then
               (Inl (open_error (Sentinel (SHid HidInvalidArgument))), b1)
             else
               (case hb_Enumerate ops fidoOptions b1 of
                  ((s, Some e), b2) \<Rightarrow> (Inl (open_error e), b2)
                | ((s, None), b2) \<Rightarrow>
                    (case open_select device s of
                       Inl e \<Rightarrow> (Inl e, b2)
                     | Inr selected \<Rightarrow>
                         (case hb_Open ops selected b2 of
                            (Inl e, b3) \<Rightarrow> (Inl (open_error e), b3)
                          | (Inr None, b3) \<Rightarrow> (Inl (open_error (Sentinel (SHid HidIO))), b3)
                          | (Inr (Some conn), b3) \<Rightarrow> open_layout ops conn b3)))))"

subsection \<open>What is selected\<close>

lemma select_loop_filter:
  "select_loop device es (sel, n) =
     (if filter (selects device) es = [] then sel else Some (last (filter (selects device) es)),
      n + length (filter (selects device) es))"
  by (induction es arbitrary: sel n) auto

lemma open_select_Inr:
  "open_select device s = Inr e \<longleftrightarrow>
     filter (selects device) (sn_Endpoints s) = [e] \<and> descriptorMatches device e \<and>
     (dd_ID device = [] \<longrightarrow> sn_Complete s)"
  by (auto simp: open_select_def select_loop_filter length_Suc_conv split: if_splits)

lemma errors_is_open_error:
  "errors_is (open_error e) (SHid k) \<longleftrightarrow> errors_is e (SHid k)"
  by (simp add: open_error_def classifyHIDError_def Disconnected_def PermissionDenied_def Unsupported_def
      errors_is_withCategory errors_is_ClassifyCommon)

subsection \<open>Properties\<close>

text \<open>Opening an exact endpoint: \<open>Open\<close> succeeds only for a descriptor that selects exactly one FIDO endpoint of a
  fresh inventory (by identifier, or by path in a complete inventory), whose metadata agrees with
  everything the descriptor states; it opens that endpoint and no other, and the session then has
  64-byte reports, no channel yet, and the opened connection's own metadata.\<close>

theorem open_exact_endpoint:
  assumes "HIDBackend_Open ops ctxNil device b = (Inr session, b')"
  shows "\<exists>s b1 b2 b3 e. hb_ctxErr ops b = (None, b1) \<and> hb_Enumerate ops fidoOptions b1 = ((s, None), b2) \<and>
    filter (selects device) (sn_Endpoints s) = [e] \<and> isFIDOEndpoint e \<and> descriptorMatches device e \<and>
    (dd_ID device = [] \<longrightarrow> sn_Complete s) \<and> hb_Open ops e b2 = (Inr (Some (hs_env session)), b3) \<and>
    hs_device session = endpointDescriptor (hb_Endpoint ops (hs_env session)) \<and>
    hs_reportSize session = 64 \<and> rs_Size (rl_Input (hs_layout session)) = 64 \<and>
    rs_Size (rl_Output (hs_layout session)) = 64 \<and> hs_channelID session = 0 \<and> \<not> hs_closing session"
proof -
  from assms obtain b1 s b2 e conn b3 where steps: "hb_ctxErr ops b = (None, b1)"
    "hb_Enumerate ops fidoOptions b1 = ((s, None), b2)" "open_select device s = Inr e"
    "hb_Open ops e b2 = (Inr (Some conn), b3)" "open_layout ops conn b3 = (Inr session, b')"
    by (auto simp: HIDBackend_Open_def split: if_splits prod.splits option.splits sum.splits)
  from steps(3) have sel: "filter (selects device) (sn_Endpoints s) = [e]" "descriptorMatches device e"
    "dd_ID device = [] \<longrightarrow> sn_Complete s" by (simp_all add: open_select_Inr)
  have "e \<in> set (filter (selects device) (sn_Endpoints s))" using sel(1) by simp
  then have "isFIDOEndpoint e" by (simp add: selects_def)
  moreover have "hs_env session = conn" "hs_device session = endpointDescriptor (hb_Endpoint ops conn)"
    "hs_reportSize session = 64" "rs_Size (rl_Input (hs_layout session)) = 64"
    "rs_Size (rl_Output (hs_layout session)) = 64" "hs_channelID session = 0" "\<not> hs_closing session"
    using steps(5) by (auto simp: open_layout_def hidReportSize_def Let_def split: if_splits prod.splits)
  ultimately show ?thesis using steps sel by blast
qed

text \<open>A backend with one FIDO endpoint, for concrete instances.\<close>

definition one_endpoint_ops :: "bool \<Rightarrow> (unit, string) hid_backend_ops" where
  "one_endpoint_ops complete =
     (let e = sample_endpoint ''a'' \<lparr>fd_Value = fido_usage, fd_Known = True\<rparr> in
      \<lparr>hb_ctxErr = (\<lambda>b. (None, b)),
       hb_Enumerate = (\<lambda>opt b. ((\<lparr>sn_Endpoints = [e], sn_Complete = complete, sn_Warnings = []\<rparr>, None), b)),
       hb_Open = (\<lambda>x b. (Inr (Some (ep_ID x)), b)),
       hb_Layout = (\<lambda>c. \<lparr>rl_Input = \<lparr>rs_ID = 0, rs_Size = 64\<rparr>, rl_Output = \<lparr>rs_ID = 0, rs_Size = 64\<rparr>\<rparr>),
       hb_Endpoint = (\<lambda>c. e), hb_Close = (\<lambda>c b. (None, b))\<rparr>)"

theorem open_exact_endpoint_witness:
  "\<exists>session b'. HIDBackend_Open (one_endpoint_ops True) False ((sample_device ''usb'')\<lparr>dd_ID := ''a''\<rparr>) () = (Inr session, b') \<and>
     hs_reportSize session = 64 \<and> hs_env session = ''a''"
proof -
  let ?d = "(sample_device ''usb'')\<lparr>dd_ID := ''a''\<rparr>"
  obtain session b' where x: "HIDBackend_Open (one_endpoint_ops True) False ?d () = (Inr session, b')" and env: "hs_env session = ''a''"
    by (simp add: HIDBackend_Open_def one_endpoint_ops_def open_select_def selects_def isFIDOEndpoint_def
        sample_endpoint_def sample_device_def fido_usage_def descriptorMatches_def open_layout_def hidReportSize_def
        KindUSB_def KindUnknown_def Let_def)
  from open_exact_endpoint [OF x] x env show ?thesis by blast
qed



end
