(* ===== verification/RingBuffer.thy ===== *)
theory RingBuffer
  imports Prelude
begin

text \<open>
  Ring buffers: a list of slots, the position of the first item and the number of items. The HID connection keeps its input reports in one,
  in Go, and so does the native connection of the macOS driver, in C. The locale \<open>bounded_queue\<close> is the interface of such a queue.
\<close>

subsection \<open>The items of a ring\<close>

definition ring_items :: "'a list \<Rightarrow> nat \<Rightarrow> nat \<Rightarrow> 'a list" where
  "ring_items q h n = map (\<lambda>i. q ! ((h + i) mod length q)) [0..<n]"

lemma length_ring_items [simp]: "length (ring_items q h n) = n"
  by (simp add: ring_items_def)

lemma ring_items_empty [simp]: "ring_items q h 0 = []"
  by (simp add: ring_items_def)

lemma mod_add_less: "i < j \<Longrightarrow> j < n \<Longrightarrow> (h + i) mod n \<noteq> (h + j) mod (n :: nat)"
proof
  assume "i < j" "j < n" "(h + i) mod n = (h + j) mod n"
  then have "n dvd j - i" using mod_eq_dvd_iff_nat [of "h + i" "h + j" n] by (simp add: eq_commute)
  with \<open>i < j\<close> \<open>j < n\<close> show False using nat_dvd_not_less [of "j - i" n] by simp
qed

lemma mod_add_inj: "(h + i) mod n = (h + j) mod n \<Longrightarrow> i < n \<Longrightarrow> j < n \<Longrightarrow> i = (j :: nat)"
  using mod_add_less [of i j n h] mod_add_less [of j i n h] by (cases i j rule: linorder_cases) auto

lemma ring_push:
  assumes "n < length q"
  shows "ring_items (q[(h + n) mod length q := x]) h (Suc n) = ring_items q h n @ [x]"
proof -
  have "q[(h + n) mod length q := x] ! ((h + i) mod length q) = q ! ((h + i) mod length q)" if "i < n" for i
    using that assms mod_add_less [of i n "length q" h] by simp
  moreover have "(h + n) mod length q < length q" using assms by (intro mod_less_divisor) linarith
  ultimately show ?thesis by (simp add: ring_items_def)
qed

lemma ring_pop:
  assumes "h < length q"
  shows "ring_items q h (Suc n) = q ! h # ring_items q ((h + 1) mod length q) n"
proof -
  have "[0..<Suc n] = 0 # map Suc [0..<n]" by (simp add: upt_conv_Cons map_Suc_upt)
  with assms show ?thesis by (simp add: ring_items_def mod_simps del: upt_Suc)
qed

text \<open>A slot before the first item may be overwritten.\<close>

lemma ring_clear:
  assumes "h < length q" "n < length q"
  shows "ring_items (q[h := z]) ((h + 1) mod length q) n = ring_items q ((h + 1) mod length q) n"
proof -
  have "h \<noteq> ((h + 1) mod length q + i) mod length q" if "i < n" for i
    using that assms mod_add_less [of 0 "Suc i" "length q" h] by (simp add: mod_simps)
  then show ?thesis by (simp add: ring_items_def)
qed

subsection \<open>The interface of a bounded queue\<close>

text \<open>What the users of a queue rely on: it never holds more than its capacity, an item is put at the end and taken from the front.\<close>

locale bounded_queue =
  fixes valid :: "'q \<Rightarrow> bool" and items :: "'q \<Rightarrow> 'a list" and capacity :: nat
    and put :: "'a \<Rightarrow> 'q \<Rightarrow> 'q" and front :: "'q \<Rightarrow> 'a" and rest :: "'q \<Rightarrow> 'q"
  assumes bounded: "valid q \<Longrightarrow> length (items q) \<le> capacity"
    and put_back: "valid q \<Longrightarrow> length (items q) < capacity \<Longrightarrow> valid (put x q) \<and> items (put x q) = items q @ [x]"
    and take_front: "valid q \<Longrightarrow> items q \<noteq> [] \<Longrightarrow> valid (rest q) \<and> items q = front q # items (rest q)"
begin

text \<open>The record of what went in and what came out.\<close>

lemma record_put:
  "valid q \<Longrightarrow> length (items q) < capacity \<Longrightarrow> went_in = came_out @ items q \<Longrightarrow> went_in @ [x] = came_out @ items (put x q)"
  by (simp add: put_back)

lemma record_take:
  "valid q \<Longrightarrow> items q \<noteq> [] \<Longrightarrow> went_in = came_out @ items q \<Longrightarrow> went_in = (came_out @ [front q]) @ items (rest q)"
  using take_front by fastforce

end

end
