(* ===== verification/HidConnection.thy ===== *)
theory HidConnection
  imports HidTypes RingBuffer
begin

text \<open>
  The HID connection supervisor: \<open>pkg/hid/connection.go\<close>, \<open>read.go\<close>, \<open>write.go\<close>. A connection is shared by
  the pump goroutine that polls the device, at most one reader and one writer, the worker of a
  write, closers, and the cleanup goroutine that retirement starts. Every critical section under
  \<open>c.mu\<close> is one function here (its answers of \<open>ctx.Err()\<close> are arguments), and the step relation
  \<open>conn_step\<close> interleaves them, together with the steps between critical sections: native calls,
  channel operations, \<open>WaitGroup\<close> updates.
\<close>

subsection \<open>State\<close>

record conn =
  cn_layout :: report_layout
  cn_id :: string
  cn_retiring :: bool
  cn_reason :: "err option"
  cn_readBusy :: bool
  cn_writeBusy :: bool
  cn_queue :: "report list"
  cn_head :: nat
  cn_count :: nat
  cn_ready :: bool
  cn_done :: bool
  cn_closeErr :: "err option"
  cn_workers :: nat

definition zero_report :: report where
  "zero_report = \<lparr>rp_ID = 0, rp_Data = []\<rparr>"

definition newConnection :: "report_layout \<Rightarrow> string \<Rightarrow> conn" where
  "newConnection layout i =
     \<lparr>cn_layout = layout, cn_id = i, cn_retiring = False, cn_reason = None, cn_readBusy = False,
      cn_writeBusy = False, cn_queue = replicate InputQueueSize zero_report, cn_head = 0, cn_count = 0,
      cn_ready = False, cn_done = False, cn_closeErr = None, cn_workers = 1\<rparr>"

text \<open>\<open>retireLocked\<close>; the cleanup goroutine it starts is a component of the step relation below.\<close>

definition retireLocked :: "err option \<Rightarrow> conn \<Rightarrow> conn" where
  "retireLocked reason c =
     (if cn_retiring c then c
      else c\<lparr>cn_retiring := True, cn_reason := reason,
             cn_queue := replicate (length (cn_queue c)) zero_report, cn_count := 0\<rparr>)"

definition closedErrorLocked :: "string \<Rightarrow> conn \<Rightarrow> err" where
  "closedErrorLocked op c =
     (case cn_reason c of
        Some r \<Rightarrow> operationError op (cn_id c) (JoinError [Sentinel (SHid HidClosed), r])
      | None \<Rightarrow> operationError op (cn_id c) (Sentinel (SHid HidClosed)))"

subsection \<open>The pump\<close>

definition is_timeout :: "err \<Rightarrow> bool" where
  "is_timeout e \<longleftrightarrow> (case errors_as as_DriverError e of Some (k, d) \<Rightarrow> k = KindTimeout | None \<Rightarrow> False)"

text \<open>What the pump does with one result of \<open>device.Read\<close>; the second component tells whether the
  loop goes on.\<close>

definition pump_handle :: "report res \<Rightarrow> conn \<Rightarrow> conn \<times> bool" where
  "pump_handle r c =
     (case r of
        Inl e \<Rightarrow>
          if is_timeout e then (c, True)
          else (retireLocked (Some (operationError ''read'' (cn_id c) e)) c, False)
      | Inr report \<Rightarrow>
          if cn_retiring c then (c, False)
          else if rp_ID report \<noteq> rs_ID (rl_Input (cn_layout c)) \<or>
                  int (length (rp_Data report)) \<noteq> rs_Size (rl_Input (cn_layout c)) then
            (retireLocked (Some (operationError ''read'' (cn_id c) (Sentinel (SHid HidInvalidReport)))) c, False)
          else if cn_count c = length (cn_queue c) then
            (retireLocked (Some (operationError ''read'' (cn_id c) (Sentinel (SHid HidIO)))) c, False)
          else
            (c\<lparr>cn_queue := (cn_queue c)[(cn_head c + cn_count c) mod length (cn_queue c) := report],
               cn_count := cn_count c + 1, cn_ready := True\<rparr>, True))"

subsection \<open>Read\<close>

definition read_admit :: "bool \<Rightarrow> int \<Rightarrow> err option \<Rightarrow> err option \<Rightarrow> conn \<Rightarrow> err option \<times> conn" where
  "read_admit ctxNil wait err1 err2 c =
     (if ctxNil \<or> wait < 0 then (Some (operationError ''read'' (cn_id c) (Sentinel (SHid HidInvalidArgument))), c)
      else case err1 of Some e \<Rightarrow> (Some (operationError ''read'' (cn_id c) e), c)
      | None \<Rightarrow> (case err2 of Some e \<Rightarrow> (Some (operationError ''read'' (cn_id c) e), c)
      | None \<Rightarrow>
          if cn_retiring c then (Some (closedErrorLocked ''read'' c), c)
          else if cn_readBusy c then (Some (operationError ''read'' (cn_id c) (Sentinel (SHid HidBusy))), c)
          else (None, c\<lparr>cn_readBusy := True\<rparr>)))"

text \<open>The critical section of \<open>Read\<close>'s loop: it returns, or (None) goes to the \<open>select\<close>.\<close>

definition read_poll :: "err option \<Rightarrow> err option \<Rightarrow> conn \<Rightarrow> report res option \<times> conn" where
  "read_poll ctxErr wakeError c =
     (case ctxErr of
        Some e \<Rightarrow>
          (Some (Inl (operationError ''read'' (cn_id c) e)),
           retireLocked (Some (operationError ''read'' (cn_id c) e)) c)
      | None \<Rightarrow>
          if cn_retiring c then (Some (Inl (closedErrorLocked ''read'' c)), c)
          else if cn_count c > 0 then
            (Some (Inr (cn_queue c ! cn_head c)),
             c\<lparr>cn_queue := (cn_queue c)[cn_head c := zero_report],
               cn_head := (cn_head c + 1) mod length (cn_queue c), cn_count := cn_count c - 1\<rparr>)
          else case wakeError of
              Some e \<Rightarrow>
                (Some (Inl (operationError ''read'' (cn_id c) e)),
                 if e \<noteq> Sentinel (SHid HidTimeout)
                 then retireLocked (Some (operationError ''read'' (cn_id c) e)) c else c)
            | None \<Rightarrow> (None, c))"

subsection \<open>Write\<close>

type_synonym write_result = "write_outcome \<times> err option"

definition write_admit :: "bool \<Rightarrow> err option \<Rightarrow> err option \<Rightarrow> report \<Rightarrow> conn \<Rightarrow> err option \<times> conn" where
  "write_admit ctxNil err1 err2 report c =
     (if ctxNil then (Some (operationError ''write'' (cn_id c) (Sentinel (SHid HidInvalidArgument))), c)
      else case err1 of Some e \<Rightarrow> (Some (operationError ''write'' (cn_id c) e), c)
      | None \<Rightarrow>
          if rp_ID report \<noteq> rs_ID (rl_Output (cn_layout c)) \<or>
             int (length (rp_Data report)) \<noteq> rs_Size (rl_Output (cn_layout c)) then
            (Some (operationError ''write'' (cn_id c) (Sentinel (SHid HidInvalidReport))), c)
          else case err2 of Some e \<Rightarrow> (Some (operationError ''write'' (cn_id c) e), c)
          | None \<Rightarrow>
              if cn_retiring c then (Some (closedErrorLocked ''write'' c), c)
              else if cn_writeBusy c then
                (Some (operationError ''write'' (cn_id c) (Sentinel (SHid HidBusy))), c)
              else (None, c\<lparr>cn_writeBusy := True, cn_workers := cn_workers c + 1\<rparr>))"

text \<open>The first critical section of \<open>performWrite\<close>: the write completes without native submission, or
  (None) is submitted.\<close>

definition performWrite_submit :: "err option \<Rightarrow> conn \<Rightarrow> write_result option \<times> conn" where
  "performWrite_submit ctxErr c =
     (let c1 = (case ctxErr of
                  Some e \<Rightarrow> retireLocked (Some (operationError ''write'' (cn_id c) e)) c
                | None \<Rightarrow> c)
      in if cn_retiring c1
         then (Some (OutcomeNotSubmitted, Some (closedErrorLocked ''write'' c1)), c1)
         else (None, c1))"

text \<open>The last critical section of \<open>performWrite\<close>, from the raw outcome (None: a value above
  \<open>OutcomeCompleted\<close>) and error of \<open>device.Write\<close>.\<close>

definition performWrite_complete :: "write_outcome option \<Rightarrow> err option \<Rightarrow> conn \<Rightarrow> write_result \<times> conn" where
  "performWrite_complete raw err0 c =
     (let (outcome, err1) =
            (case raw of
               None \<Rightarrow> (OutcomeUnknown, errors_join [err0, Some (Sentinel (SHid HidIO))])
             | Some x \<Rightarrow> (x, err0));
          err2 = (if err1 = None \<and> outcome \<noteq> OutcomeCompleted then Some (Sentinel (SHid HidIO)) else err1);
          result = (outcome, operationError_opt ''write'' (cn_id c) err2)
      in (result, if err2 \<noteq> None then retireLocked (snd result) c else c))"

text \<open>The critical section of \<open>Write\<close> after its \<open>select\<close>; \<open>pending\<close> is the completed result and
  \<open>submitted\<close> the flag of the pending write.\<close>

definition write_finish :: "err option \<Rightarrow> write_result option \<Rightarrow> bool \<Rightarrow> conn \<Rightarrow> write_result \<times> conn" where
  "write_finish ctxErr pending submitted c =
     (case pending of
        Some (outcome, perr) \<Rightarrow>
          (case ctxErr of
             Some e \<Rightarrow>
               ((outcome, operationError_opt ''write'' (cn_id c) (errors_join [perr, Some e])),
                retireLocked (Some (operationError ''write'' (cn_id c) e)) c)
           | None \<Rightarrow> ((outcome, perr), c))
      | None \<Rightarrow>
          (case ctxErr of
             Some e \<Rightarrow>
               ((if submitted then OutcomeUnknown else OutcomeNotSubmitted,
                 Some (operationError ''write'' (cn_id c) e)),
                retireLocked (Some (operationError ''write'' (cn_id c) e)) c)
           | None \<Rightarrow> ((OutcomeUnknown, Some (closedErrorLocked ''write'' c)), c)))"

subsection \<open>Close\<close>

text \<open>The first critical section of \<open>Close\<close>: it returns, or (None) waits for \<open>done\<close> or the context.\<close>

definition close_begin :: "bool \<Rightarrow> conn \<Rightarrow> err option option \<times> conn" where
  "close_begin ctxNil c =
     (let c1 = retireLocked None c in
      if ctxNil then (Some (Some (operationError ''close'' (cn_id c1) (Sentinel (SHid HidInvalidArgument)))), c1)
      else if cn_done c1 then (Some (cn_closeErr c1), c1)
      else (None, c1))"

definition close_finish :: "err option \<Rightarrow> conn \<Rightarrow> err option" where
  "close_finish ctxErr c =
     (if cn_done c then cn_closeErr c else operationError_opt ''close'' (cn_id c) ctxErr)"

text \<open>The cleanup goroutine's critical section, with the error of \<open>device.Close\<close>.\<close>

definition cleanup_finish :: "err option \<Rightarrow> conn \<Rightarrow> conn" where
  "cleanup_finish e c = c\<lparr>cn_closeErr := operationError_opt ''close'' (cn_id c) e, cn_done := True\<rparr>"

subsection \<open>Interleavings\<close>

datatype pump_pc = PumpTop | PumpRead | PumpExit | PumpDone
datatype work_pc = WorkNone | WorkStart | WorkNative
datatype cleanup_pc = CleanNone | CleanWait | CleanClosed | CleanReleased | CleanDone
datatype reader_pc = ReaderIdle | ReaderPoll "err option" | ReaderSelect "err option" | ReaderReturn
datatype writer_pc = WriterIdle | WriterWait | WriterReturn

text \<open>The connection with the program counters of its goroutines. \<open>sy_exiting\<close> counts write workers
  between their last unlock and \<open>workers.Done()\<close>; \<open>sy_closes\<close> counts calls of \<open>device.Close\<close>;
  \<open>sy_leased\<close> says that the endpoint lease is held; \<open>sy_accepted\<close> and \<open>sy_returned\<close> are the
  reports queued by the pump and returned by \<open>Read\<close>, in order.\<close>

record conn_sys =
  sy_conn :: conn
  sy_pump :: pump_pc
  sy_work :: work_pc
  sy_exiting :: nat
  sy_pending :: "write_result option"
  sy_submitted :: bool
  sy_reader :: reader_pc
  sy_writer :: writer_pc
  sy_cleanup :: cleanup_pc
  sy_closes :: nat
  sy_leased :: bool
  sy_accepted :: "report list"
  sy_returned :: "report list"

definition conn_start :: "report_layout \<Rightarrow> string \<Rightarrow> conn_sys" where
  "conn_start layout i =
     \<lparr>sy_conn = newConnection layout i, sy_pump = PumpTop, sy_work = WorkNone, sy_exiting = 0,
      sy_pending = None, sy_submitted = False, sy_reader = ReaderIdle, sy_writer = WriterIdle,
      sy_cleanup = CleanNone, sy_closes = 0, sy_leased = True, sy_accepted = [], sy_returned = []\<rparr>"

text \<open>Storing the connection after a critical section: a section that retired it has started the cleanup
  goroutine.\<close>

definition put_conn :: "conn \<Rightarrow> conn_sys \<Rightarrow> conn_sys" where
  "put_conn c s =
     s\<lparr>sy_conn := c,
       sy_cleanup := (if cn_retiring c \<and> \<not> cn_retiring (sy_conn s) then CleanWait else sy_cleanup s)\<rparr>"

inductive conn_step :: "conn_sys \<Rightarrow> conn_sys \<Rightarrow> bool" where
  pump_top: "sy_pump s = PumpTop \<Longrightarrow>
    conn_step s (s\<lparr>sy_pump := if cn_retiring (sy_conn s) then PumpExit else PumpRead\<rparr>)"
| pump_result: "sy_pump s = PumpRead \<Longrightarrow> pump_handle r (sy_conn s) = (c, go) \<Longrightarrow>
    conn_step s ((put_conn c s)\<lparr>sy_pump := if go then PumpTop else PumpExit,
      sy_accepted := (if cn_count c > cn_count (sy_conn s) then sy_accepted s @ [projr r] else sy_accepted s)\<rparr>)"
| pump_done: "sy_pump s = PumpExit \<Longrightarrow>
    conn_step s (s\<lparr>sy_pump := PumpDone, sy_conn := (sy_conn s)\<lparr>cn_workers := cn_workers (sy_conn s) - 1\<rparr>\<rparr>)"
| read_refused: "read_admit ctxNil wait e1 e2 (sy_conn s) = (Some e, c) \<Longrightarrow> conn_step s (put_conn c s)"
| read_admitted: "read_admit ctxNil wait e1 e2 (sy_conn s) = (None, c) \<Longrightarrow>
    conn_step s ((put_conn c s)\<lparr>sy_reader := ReaderPoll None\<rparr>)"
| read_returns: "sy_reader s = ReaderPoll wake \<Longrightarrow> read_poll e wake (sy_conn s) = (Some r, c) \<Longrightarrow>
    conn_step s ((put_conn c s)\<lparr>sy_reader := ReaderReturn,
      sy_returned := (case r of Inr report \<Rightarrow> sy_returned s @ [report] | Inl _ \<Rightarrow> sy_returned s)\<rparr>)"
| read_waits: "sy_reader s = ReaderPoll wake \<Longrightarrow> read_poll e wake (sy_conn s) = (None, c) \<Longrightarrow>
    conn_step s ((put_conn c s)\<lparr>sy_reader := ReaderSelect wake\<rparr>)"
| read_ready: "sy_reader s = ReaderSelect wake \<Longrightarrow> cn_ready (sy_conn s) \<Longrightarrow>
    conn_step s (s\<lparr>sy_reader := ReaderPoll wake, sy_conn := (sy_conn s)\<lparr>cn_ready := False\<rparr>\<rparr>)"
| read_retired: "sy_reader s = ReaderSelect wake \<Longrightarrow> cn_retiring (sy_conn s) \<Longrightarrow>
    conn_step s (s\<lparr>sy_reader := ReaderPoll wake\<rparr>)"
| read_woken: "sy_reader s = ReaderSelect wake \<Longrightarrow> conn_step s (s\<lparr>sy_reader := ReaderPoll (Some e)\<rparr>)"
| read_release: "sy_reader s = ReaderReturn \<Longrightarrow>
    conn_step s (s\<lparr>sy_reader := ReaderIdle, sy_conn := (sy_conn s)\<lparr>cn_readBusy := False\<rparr>\<rparr>)"
| write_refused: "write_admit ctxNil e1 e2 report (sy_conn s) = (Some e, c) \<Longrightarrow> conn_step s (put_conn c s)"
| write_admitted: "write_admit ctxNil e1 e2 report (sy_conn s) = (None, c) \<Longrightarrow>
    conn_step s ((put_conn c s)\<lparr>sy_writer := WriterWait, sy_work := WorkStart, sy_pending := None,
      sy_submitted := False\<rparr>)"
| work_unsubmitted: "sy_work s = WorkStart \<Longrightarrow> performWrite_submit e (sy_conn s) = (Some r, c) \<Longrightarrow>
    conn_step s ((put_conn c s)\<lparr>sy_work := WorkNone, sy_exiting := sy_exiting s + 1, sy_pending := Some r\<rparr>)"
| work_submitted: "sy_work s = WorkStart \<Longrightarrow> performWrite_submit e (sy_conn s) = (None, c) \<Longrightarrow>
    conn_step s ((put_conn c s)\<lparr>sy_work := WorkNative, sy_submitted := True\<rparr>)"
| work_complete: "sy_work s = WorkNative \<Longrightarrow> performWrite_complete raw e (sy_conn s) = (r, c) \<Longrightarrow>
    conn_step s ((put_conn c s)\<lparr>sy_work := WorkNone, sy_exiting := sy_exiting s + 1, sy_pending := Some r\<rparr>)"
| work_done: "sy_exiting s = Suc n \<Longrightarrow>
    conn_step s (s\<lparr>sy_exiting := n, sy_conn := (sy_conn s)\<lparr>cn_workers := cn_workers (sy_conn s) - 1\<rparr>\<rparr>)"
| write_wakes: "sy_writer s = WriterWait \<Longrightarrow> sy_pending s \<noteq> None \<or> e \<noteq> None \<Longrightarrow>
    write_finish e (sy_pending s) (sy_submitted s) (sy_conn s) = (r, c) \<Longrightarrow>
    conn_step s ((put_conn c s)\<lparr>sy_writer := WriterReturn\<rparr>)"
| write_release: "sy_writer s = WriterReturn \<Longrightarrow>
    conn_step s (s\<lparr>sy_writer := WriterIdle, sy_conn := (sy_conn s)\<lparr>cn_writeBusy := False\<rparr>\<rparr>)"
| close_call: "close_begin ctxNil (sy_conn s) = (r, c) \<Longrightarrow> conn_step s (put_conn c s)"
| cleanup_close: "sy_cleanup s = CleanWait \<Longrightarrow> cn_workers (sy_conn s) = 0 \<Longrightarrow>
    conn_step s (s\<lparr>sy_cleanup := CleanClosed, sy_closes := sy_closes s + 1\<rparr>)"
| cleanup_release: "sy_cleanup s = CleanClosed \<Longrightarrow>
    conn_step s (s\<lparr>sy_cleanup := CleanReleased, sy_leased := False\<rparr>)"
| cleanup_done: "sy_cleanup s = CleanReleased \<Longrightarrow>
    conn_step s (s\<lparr>sy_cleanup := CleanDone, sy_conn := cleanup_finish e (sy_conn s)\<rparr>)"

subsection \<open>Lifetime invariant\<close>

text \<open>The part of the connection that the lifetime depends on, and how a critical section may change it:
  it may retire the connection, and it never un-retires it or changes the worker count.\<close>

definition same_life :: "conn \<Rightarrow> conn \<Rightarrow> bool" where
  "same_life c c' \<longleftrightarrow>
     cn_workers c' = cn_workers c \<and> cn_done c' = cn_done c \<and> cn_readBusy c' = cn_readBusy c \<and>
     cn_writeBusy c' = cn_writeBusy c \<and> (cn_retiring c \<longrightarrow> cn_retiring c')"

lemma same_life_retire [simp]: "same_life c (retireLocked r c)"
  by (simp add: same_life_def retireLocked_def)

lemma same_life_refl [simp]: "same_life c c"
  by (simp add: same_life_def)

lemma pump_handle_life: "pump_handle r c = (c', go) \<Longrightarrow> same_life c c'"
  by (auto simp: pump_handle_def same_life_def retireLocked_def split: sum.splits if_splits)

lemma read_poll_life: "read_poll e w c = (r, c') \<Longrightarrow> same_life c c'"
  by (auto simp: read_poll_def same_life_def retireLocked_def split: option.splits if_splits)

lemma performWrite_submit_life: "performWrite_submit e c = (r, c') \<Longrightarrow> same_life c c' \<and> (r = None \<longleftrightarrow> \<not> cn_retiring c')"
  by (auto simp: performWrite_submit_def same_life_def retireLocked_def Let_def split: option.splits if_splits)

lemma performWrite_complete_life: "performWrite_complete raw e c = (r, c') \<Longrightarrow> same_life c c'"
  by (auto simp: performWrite_complete_def Let_def split: option.splits if_splits prod.splits)

lemma write_finish_life:
  "write_finish e p sub c = (r, c') \<Longrightarrow> same_life c c' \<and> (p = None \<and> e \<noteq> None \<longrightarrow> cn_retiring c')"
  by (auto simp: write_finish_def same_life_def retireLocked_def split: option.splits if_splits prod.splits)

lemma close_begin_life: "close_begin ctxNil c = (r, c') \<Longrightarrow> same_life c c' \<and> cn_retiring c'"
  by (auto simp: close_begin_def same_life_def retireLocked_def Let_def split: if_splits)

lemma read_admit_life:
  "read_admit ctxNil wait e1 e2 c = (Some e, c') \<Longrightarrow> c' = c"
  "read_admit ctxNil wait e1 e2 c = (None, c') \<Longrightarrow>
     c' = c\<lparr>cn_readBusy := True\<rparr> \<and> \<not> cn_retiring c \<and> \<not> cn_readBusy c"
  by (auto simp: read_admit_def split: option.splits if_splits)

lemma write_admit_life:
  "write_admit ctxNil e1 e2 rp c = (Some e, c') \<Longrightarrow> c' = c"
  "write_admit ctxNil e1 e2 rp c = (None, c') \<Longrightarrow>
     c' = c\<lparr>cn_writeBusy := True, cn_workers := cn_workers c + 1\<rparr> \<and> \<not> cn_retiring c \<and> \<not> cn_writeBusy c"
  by (auto simp: write_admit_def split: option.splits if_splits)

lemmas sections_life = pump_handle_life read_poll_life performWrite_submit_life performWrite_complete_life
  write_finish_life close_begin_life read_admit_life write_admit_life

text \<open>How many goroutines of the wait group are alive.\<close>

definition live_workers :: "conn_sys \<Rightarrow> nat" where
  "live_workers s =
     (if sy_pump s = PumpDone then 0 else 1) + sy_exiting s + (if sy_work s = WorkNone then 0 else 1)"

definition life_inv :: "conn_sys \<Rightarrow> bool" where
  "life_inv s \<longleftrightarrow>
     cn_workers (sy_conn s) = live_workers s \<and>
     (cn_retiring (sy_conn s) \<longleftrightarrow> sy_cleanup s \<noteq> CleanNone) \<and>
     (sy_cleanup s \<in> {CleanClosed, CleanReleased, CleanDone} \<longrightarrow> live_workers s = 0) \<and>
     sy_closes s = (if sy_cleanup s \<in> {CleanNone, CleanWait} then 0 else 1) \<and>
     (sy_leased s \<longleftrightarrow> sy_cleanup s \<in> {CleanNone, CleanWait, CleanClosed}) \<and>
     (cn_done (sy_conn s) \<longleftrightarrow> sy_cleanup s = CleanDone) \<and>
     (cn_readBusy (sy_conn s) \<longleftrightarrow> sy_reader s \<noteq> ReaderIdle) \<and>
     (cn_writeBusy (sy_conn s) \<longleftrightarrow> sy_writer s \<noteq> WriterIdle) \<and>
     (sy_work s \<noteq> WorkNone \<longrightarrow> cn_writeBusy (sy_conn s) \<or> cn_retiring (sy_conn s)) \<and>
     (sy_work s \<noteq> WorkNone \<and> \<not> cn_retiring (sy_conn s) \<longrightarrow> sy_writer s = WriterWait \<and> sy_pending s = None)"

lemma life_inv_start: "life_inv (conn_start layout i)"
  by (simp add: life_inv_def conn_start_def newConnection_def live_workers_def)

lemma life_inv_section: "life_inv s \<Longrightarrow> same_life (sy_conn s) c \<Longrightarrow> life_inv (put_conn c s)"
  unfolding life_inv_def same_life_def put_conn_def live_workers_def
  by (cases "cn_retiring (sy_conn s)"; cases "cn_retiring c") auto

text \<open>What a program counter update needs of the state that the critical section left.\<close>

lemma put_conn_simps [simp]:
  "sy_conn (put_conn c s) = c" "sy_pump (put_conn c s) = sy_pump s" "sy_work (put_conn c s) = sy_work s"
  "sy_exiting (put_conn c s) = sy_exiting s" "sy_writer (put_conn c s) = sy_writer s"
  "sy_reader (put_conn c s) = sy_reader s" "sy_pending (put_conn c s) = sy_pending s"
  "sy_accepted (put_conn c s) = sy_accepted s" "sy_returned (put_conn c s) = sy_returned s"
  by (simp_all add: put_conn_def)

lemma put_conn_same: "put_conn (sy_conn s) s = s"
  by (simp add: put_conn_def)

lemma life_inv_step: "conn_step s s' \<Longrightarrow> life_inv s \<Longrightarrow> life_inv s'"
proof (induction rule: conn_step.induct)
  case (pump_result s r c go)
  then have "life_inv (put_conn c s)" by (simp add: life_inv_section pump_handle_life)
  with pump_result(1) show ?case by (auto simp: life_inv_def live_workers_def)
next
  case (read_refused ctxNil wait e1 e2 s e c)
  then show ?case using read_admit_life(1) [OF read_refused(1)] by (simp add: put_conn_same)
next
  case (read_admitted ctxNil wait e1 e2 s c)
  then show ?case using read_admit_life(2) [OF read_admitted(1)]
    by (simp add: life_inv_def live_workers_def put_conn_def)
next
  case (read_returns s wake e r c)
  then have "life_inv (put_conn c s)" by (simp add: life_inv_section read_poll_life)
  with read_returns(1) show ?case by (auto simp: life_inv_def live_workers_def)
next
  case (read_waits s wake e c)
  then have "life_inv (put_conn c s)" by (simp add: life_inv_section read_poll_life)
  with read_waits(1) show ?case by (auto simp: life_inv_def live_workers_def)
next
  case (write_refused ctxNil e1 e2 report s e c)
  then show ?case using write_admit_life(1) [OF write_refused(1)] by (simp add: put_conn_same)
next
  case (write_admitted ctxNil e1 e2 report s c)
  then show ?case using write_admit_life(2) [OF write_admitted(1)]
    by (auto simp: life_inv_def live_workers_def put_conn_def)
next
  case (work_unsubmitted s e r c)
  then have "life_inv (put_conn c s)" by (simp add: life_inv_section performWrite_submit_life)
  with work_unsubmitted(1) show ?case by (auto simp: life_inv_def live_workers_def)
next
  case (work_submitted s e c)
  then have "life_inv (put_conn c s)" by (simp add: life_inv_section performWrite_submit_life)
  with work_submitted(1) show ?case by (auto simp: life_inv_def live_workers_def)
next
  case (work_complete s raw e r c)
  then have "life_inv (put_conn c s)" by (simp add: life_inv_section performWrite_complete_life)
  with work_complete(1) show ?case by (auto simp: life_inv_def live_workers_def)
next
  case (write_wakes s e r c)
  then have "life_inv (put_conn c s)" by (simp add: life_inv_section write_finish_life)
  moreover have "sy_work s \<noteq> WorkNone \<longrightarrow> cn_retiring c"
    using write_wakes(2,4) write_finish_life [OF write_wakes(3)]
    by (cases "cn_retiring (sy_conn s)") (auto simp: life_inv_def same_life_def)
  ultimately show ?case using write_wakes(1) by (auto simp: life_inv_def live_workers_def)
next
  case (close_call ctxNil s r c)
  then show ?case by (simp add: life_inv_section close_begin_life)
next
  case (write_release s)
  then show ?case by (auto simp: life_inv_def live_workers_def)
qed (auto simp: life_inv_def live_workers_def cleanup_finish_def)

subsection \<open>The input queue is first-in first-out\<close>

text \<open>The ring buffer \<open>queue\<close>, \<open>head\<close>, \<open>count\<close> represents this list.\<close>

definition queued :: "conn \<Rightarrow> report list" where
  "queued c = ring_items (cn_queue c) (cn_head c) (cn_count c)"

definition ring_wf :: "conn \<Rightarrow> bool" where
  "ring_wf c \<longleftrightarrow> length (cn_queue c) = InputQueueSize \<and> cn_head c < InputQueueSize \<and> cn_count c \<le> InputQueueSize \<and>
     (cn_retiring c \<longrightarrow> cn_count c = 0)"

text \<open>What the pump does with a report and what a read does with the first one.\<close>

definition queue_put :: "report \<Rightarrow> conn \<Rightarrow> conn" where
  "queue_put r c =
     c\<lparr>cn_queue := (cn_queue c)[(cn_head c + cn_count c) mod length (cn_queue c) := r], cn_count := cn_count c + 1, cn_ready := True\<rparr>"

definition queue_rest :: "conn \<Rightarrow> conn" where
  "queue_rest c =
     c\<lparr>cn_queue := (cn_queue c)[cn_head c := zero_report], cn_head := (cn_head c + 1) mod length (cn_queue c), cn_count := cn_count c - 1\<rparr>"

lemma queued_put: "ring_wf c \<Longrightarrow> cn_count c < InputQueueSize \<Longrightarrow> queued (queue_put r c) = queued c @ [r]"
  using ring_push [of "cn_count c" "cn_queue c" "cn_head c" r] by (simp add: queued_def queue_put_def ring_wf_def)

lemma queued_rest: "ring_wf c \<Longrightarrow> 0 < cn_count c \<Longrightarrow> queued c = cn_queue c ! cn_head c # queued (queue_rest c)"
  using ring_pop [of "cn_head c" "cn_queue c" "cn_count c - 1"] ring_clear [of "cn_head c" "cn_queue c" "cn_count c - 1" zero_report]
  by (cases "cn_count c") (auto simp: queued_def queue_rest_def ring_wf_def)

interpretation cq: bounded_queue "\<lambda>c. ring_wf c \<and> \<not> cn_retiring c" queued InputQueueSize queue_put "\<lambda>c. cn_queue c ! cn_head c" queue_rest
proof unfold_locales
  fix c r
  show "ring_wf c \<and> \<not> cn_retiring c \<Longrightarrow> length (queued c) \<le> InputQueueSize" by (simp add: queued_def ring_wf_def)
  show "ring_wf c \<and> \<not> cn_retiring c \<Longrightarrow> length (queued c) < InputQueueSize \<Longrightarrow>
      (ring_wf (queue_put r c) \<and> \<not> cn_retiring (queue_put r c)) \<and> queued (queue_put r c) = queued c @ [r]"
    using queued_put [of c r] by (auto simp: queued_def [of c] ring_wf_def queue_put_def)
  show "ring_wf c \<and> \<not> cn_retiring c \<Longrightarrow> queued c \<noteq> [] \<Longrightarrow>
      (ring_wf (queue_rest c) \<and> \<not> cn_retiring (queue_rest c)) \<and> queued c = cn_queue c ! cn_head c # queued (queue_rest c)"
    using queued_rest [of c] by (cases "cn_count c") (auto simp: queued_def [of c] ring_wf_def queue_rest_def InputQueueSize_def)
qed

lemma ring_wf_retire [simp]: "ring_wf c \<Longrightarrow> ring_wf (retireLocked r c)"
  by (auto simp: ring_wf_def retireLocked_def)

text \<open>The critical sections other than the pump's and the reader's leave the queue alone or retire.\<close>

definition same_queue :: "conn \<Rightarrow> conn \<Rightarrow> bool" where
  "same_queue c c' \<longleftrightarrow> (ring_wf c \<longrightarrow> ring_wf c') \<and> (\<not> cn_retiring c' \<longrightarrow> queued c' = queued c \<and> \<not> cn_retiring c)"

lemma same_queue_retire [simp]: "same_queue c (retireLocked r c)" and same_queue_refl [simp]: "same_queue c c"
  by (auto simp: same_queue_def) (auto simp: retireLocked_def split: if_splits)

lemma sections_queue:
  "performWrite_submit e c = (wr, c') \<Longrightarrow> same_queue c c'"
  "performWrite_complete raw e c = (w, c') \<Longrightarrow> same_queue c c'"
  "write_finish e p sub c = (w, c') \<Longrightarrow> same_queue c c'"
  "close_begin ctxNil c = (x, c') \<Longrightarrow> same_queue c c'"
  by (auto simp: performWrite_submit_def performWrite_complete_def write_finish_def close_begin_def Let_def
      split: option.splits if_splits prod.splits)

lemma busy_queue [simp]:
  "queued (c\<lparr>cn_readBusy := b\<rparr>) = queued c" "queued (c\<lparr>cn_writeBusy := b\<rparr>) = queued c"
  "queued (c\<lparr>cn_workers := n\<rparr>) = queued c" "queued (c\<lparr>cn_ready := b\<rparr>) = queued c"
  "ring_wf (c\<lparr>cn_readBusy := b\<rparr>) = ring_wf c" "ring_wf (c\<lparr>cn_writeBusy := b\<rparr>) = ring_wf c"
  "ring_wf (c\<lparr>cn_workers := n\<rparr>) = ring_wf c" "ring_wf (c\<lparr>cn_ready := b\<rparr>) = ring_wf c"
  by (simp_all add: queued_def ring_wf_def)

definition queue_inv :: "conn_sys \<Rightarrow> bool" where
  "queue_inv s \<longleftrightarrow> ring_wf (sy_conn s) \<and>
     (\<exists>d. sy_accepted s = sy_returned s @ d \<and> (\<not> cn_retiring (sy_conn s) \<longrightarrow> d = queued (sy_conn s)))"

lemma queue_inv_start: "queue_inv (conn_start layout i)"
  by (simp add: queue_inv_def conn_start_def newConnection_def queued_def ring_wf_def InputQueueSize_def)

lemma queue_inv_section: "queue_inv s \<Longrightarrow> same_queue (sy_conn s) c \<Longrightarrow> queue_inv (put_conn c s)"
  by (auto simp: queue_inv_def same_queue_def)

lemma queue_inv_pump:
  assumes "queue_inv s" "pump_handle r (sy_conn s) = (c, go)"
  shows "queue_inv ((put_conn c s)\<lparr>sy_pump := x,
      sy_accepted := (if cn_count c > cn_count (sy_conn s) then sy_accepted s @ [projr r] else sy_accepted s)\<rparr>)"
proof (cases "cn_count c > cn_count (sy_conn s)")
  case True
  then obtain rp where r: "r = Inr rp" "\<not> cn_retiring (sy_conn s)" "cn_count (sy_conn s) \<noteq> length (cn_queue (sy_conn s))"
    "c = queue_put rp (sy_conn s)"
    using assms(2) by (auto simp: pump_handle_def retireLocked_def queue_put_def split: sum.splits if_splits)
  have "length (queued (sy_conn s)) < InputQueueSize" "ring_wf (sy_conn s) \<and> \<not> cn_retiring (sy_conn s)"
    using assms(1) r(2,3) by (auto simp: queue_inv_def ring_wf_def queued_def)
  then have "queued c = queued (sy_conn s) @ [rp]" "ring_wf c" "\<not> cn_retiring c" using cq.put_back r(4) by simp_all
  with r True have "queued c = queued (sy_conn s) @ [rp] \<and> ring_wf c \<and> \<not> cn_retiring c" by simp
  then show ?thesis using assms(1) r(1,2) True by (auto simp: queue_inv_def)
next
  case False
  then have "same_queue (sy_conn s) c"
    using assms(2) by (auto simp: pump_handle_def split: sum.splits if_splits)
  from queue_inv_section [OF assms(1) this] False show ?thesis by (simp add: queue_inv_def)
qed

lemma queue_inv_read:
  assumes "queue_inv s" "read_poll e wake (sy_conn s) = (Some r, c)"
  shows "queue_inv ((put_conn c s)\<lparr>sy_reader := x,
      sy_returned := (case r of Inr report \<Rightarrow> sy_returned s @ [report] | Inl _ \<Rightarrow> sy_returned s)\<rparr>)"
proof (cases r)
  case (Inl e)
  then have "same_queue (sy_conn s) c"
    using assms(2) by (auto simp: read_poll_def split: option.splits if_splits)
  from queue_inv_section [OF assms(1) this] Inl show ?thesis by (simp add: queue_inv_def)
next
  case (Inr rp)
  then have c: "\<not> cn_retiring (sy_conn s)" "0 < cn_count (sy_conn s)" "rp = cn_queue (sy_conn s) ! cn_head (sy_conn s)"
    "c = queue_rest (sy_conn s)"
    using assms(2) by (auto simp: read_poll_def queue_rest_def split: option.splits if_splits)
  have wf: "ring_wf (sy_conn s) \<and> \<not> cn_retiring (sy_conn s)" "queued (sy_conn s) \<noteq> []"
    using assms(1) c(1,2) by (auto simp: queue_inv_def queued_def simp flip: length_0_conv)
  have "ring_wf c" "\<not> cn_retiring c" "queued (sy_conn s) = rp # queued c" using cq.take_front [OF wf] c(3,4) by simp_all
  with assms(1) Inr c(1) show ?thesis by (auto simp: queue_inv_def)
qed

lemma queue_inv_step: "conn_step s s' \<Longrightarrow> queue_inv s \<Longrightarrow> queue_inv s'"
proof (induction rule: conn_step.induct)
  case (pump_result s r c go)
  from pump_result(3,2) show ?case by (rule queue_inv_pump)
next
  case (read_returns s wake e r c)
  then show ?case by (simp add: queue_inv_read)
next
  case (read_waits s wake e c)
  then have "same_queue (sy_conn s) c" by (auto simp: read_poll_def split: option.splits if_splits)
  from queue_inv_section [OF read_waits(3) this] show ?case by (simp add: queue_inv_def)
next
  case (read_refused ctxNil wait e1 e2 s e c)
  then show ?case using read_admit_life(1) [OF read_refused(1)] by (simp add: put_conn_same)
next
  case (read_admitted ctxNil wait e1 e2 s c)
  then show ?case using read_admit_life(2) [OF read_admitted(1)] by (auto simp: queue_inv_def)
next
  case (write_refused ctxNil e1 e2 report s e c)
  then show ?case using write_admit_life(1) [OF write_refused(1)] by (simp add: put_conn_same)
next
  case (write_admitted ctxNil e1 e2 report s c)
  then show ?case using write_admit_life(2) [OF write_admitted(1)] by (auto simp: queue_inv_def)
next
  case (work_unsubmitted s e r c)
  from queue_inv_section [OF work_unsubmitted(3) sections_queue(1) [OF work_unsubmitted(2)]] show ?case
    by (simp add: queue_inv_def)
next
  case (work_submitted s e c)
  from queue_inv_section [OF work_submitted(3) sections_queue(1) [OF work_submitted(2)]] show ?case
    by (simp add: queue_inv_def)
next
  case (work_complete s raw e r c)
  from queue_inv_section [OF work_complete(3) sections_queue(2) [OF work_complete(2)]] show ?case
    by (simp add: queue_inv_def)
next
  case (write_wakes s e r c)
  from queue_inv_section [OF write_wakes(4) sections_queue(3) [OF write_wakes(3)]] show ?case
    by (simp add: queue_inv_def)
next
  case (close_call ctxNil s r c)
  from queue_inv_section [OF close_call(2) sections_queue(4) [OF close_call(1)]] show ?case .
qed (auto simp: queue_inv_def cleanup_finish_def queued_def ring_wf_def)

subsection \<open>Reachable states\<close>

definition reachable :: "report_layout \<Rightarrow> string \<Rightarrow> conn_sys \<Rightarrow> bool" where
  "reachable layout i s \<longleftrightarrow> conn_step\<^sup>*\<^sup>* (conn_start layout i) s"

lemma reachable_inv: "reachable layout i s \<Longrightarrow> life_inv s \<and> queue_inv s"
  unfolding reachable_def
proof (induction rule: rtranclp_induct)
  case base
  show ?case by (simp add: life_inv_start queue_inv_start)
qed (auto intro: life_inv_step queue_inv_step)

subsection \<open>A retired connection can finish\<close>

text \<open>From a retired state, each goroutine of the wait group has a step towards its end.\<close>

definition pump_left :: "pump_pc \<Rightarrow> nat" where
  "pump_left pc = (case pc of PumpRead \<Rightarrow> 3 | PumpTop \<Rightarrow> 2 | PumpExit \<Rightarrow> 1 | PumpDone \<Rightarrow> 0)"

definition work_left :: "work_pc \<Rightarrow> nat" where
  "work_left pc = (case pc of WorkNone \<Rightarrow> 0 | _ \<Rightarrow> 2)"

definition clean_left :: "cleanup_pc \<Rightarrow> nat" where
  "clean_left pc = (case pc of CleanNone \<Rightarrow> 4 | CleanWait \<Rightarrow> 3 | CleanClosed \<Rightarrow> 2 | CleanReleased \<Rightarrow> 1 | CleanDone \<Rightarrow> 0)"

definition steps_left :: "conn_sys \<Rightarrow> nat" where
  "steps_left s = pump_left (sy_pump s) + work_left (sy_work s) + sy_exiting s + clean_left (sy_cleanup s)"

lemma retire_retired [simp]: "cn_retiring c \<Longrightarrow> retireLocked r c = c"
  by (simp add: retireLocked_def)

lemma finishI:
  "conn_step s s' \<Longrightarrow> cn_retiring (sy_conn s') \<Longrightarrow> steps_left s' < steps_left s \<Longrightarrow>
     \<exists>s'. conn_step s s' \<and> cn_retiring (sy_conn s') \<and> steps_left s' < steps_left s"
  by blast

lemma finish_step_exists:
  assumes "life_inv s" "cn_retiring (sy_conn s)" "sy_cleanup s \<noteq> CleanDone"
  shows "\<exists>s'. conn_step s s' \<and> cn_retiring (sy_conn s') \<and> steps_left s' < steps_left s"
proof -
  let ?to = "Inl (DriverError [] KindTimeout [] 0 [] None)"
  consider (top) "sy_pump s = PumpTop" | (read) "sy_pump s = PumpRead" | (exit) "sy_pump s = PumpExit"
    | (start) "sy_pump s = PumpDone" "sy_work s = WorkStart" | (native) "sy_pump s = PumpDone" "sy_work s = WorkNative"
    | (exiting) n where "sy_pump s = PumpDone" "sy_exiting s = Suc n"
    | (quiet) "sy_pump s = PumpDone" "sy_work s = WorkNone" "sy_exiting s = 0"
    by (metis pump_pc.exhaust work_pc.exhaust old.nat.exhaust)
  then show ?thesis
  proof cases
    case top
    with assms conn_step.pump_top [OF top] show ?thesis
      by (intro exI [of _ "s\<lparr>sy_pump := PumpExit\<rparr>"]) (simp add: steps_left_def pump_left_def)
  next
    case read
    have h: "pump_handle ?to (sy_conn s) = (sy_conn s, True)"
      by (simp add: pump_handle_def is_timeout_def errors_as_def)
    from conn_step.pump_result [OF read h] assms(2) read show ?thesis
      by (intro exI [of _ "s\<lparr>sy_pump := PumpTop\<rparr>"]) (simp add: put_conn_same steps_left_def pump_left_def)
  next
    case exit
    show ?thesis
      by (rule finishI [OF conn_step.pump_done [OF exit]]) (use assms(2) exit in \<open>auto simp: steps_left_def pump_left_def\<close>)
  next
    case start
    have h: "performWrite_submit None (sy_conn s) = (Some (OutcomeNotSubmitted, Some (closedErrorLocked ''write'' (sy_conn s))), sy_conn s)"
      using assms(2) by (simp add: performWrite_submit_def Let_def)
    show ?thesis
      by (rule finishI [OF conn_step.work_unsubmitted [OF start(2) h]]) (use assms(2) start in \<open>auto simp: put_conn_same steps_left_def work_left_def\<close>)
  next
    case native
    have h: "performWrite_complete (Some OutcomeCompleted) None (sy_conn s) = ((OutcomeCompleted, None), sy_conn s)"
      by (simp add: performWrite_complete_def operationError_opt_def)
    show ?thesis
      by (rule finishI [OF conn_step.work_complete [OF native(2) h]]) (use assms(2) native in \<open>auto simp: put_conn_same steps_left_def work_left_def\<close>)
  next
    case exiting
    show ?thesis
      by (rule finishI [OF conn_step.work_done [OF exiting(2)]]) (use assms(2) exiting in \<open>auto simp: steps_left_def\<close>)
  next
    case quiet
    then have w: "cn_workers (sy_conn s) = 0" and c: "sy_cleanup s \<in> {CleanWait, CleanClosed, CleanReleased}"
      using assms by (cases "sy_cleanup s"; auto simp: life_inv_def live_workers_def)+
    from c consider "sy_cleanup s = CleanWait" | "sy_cleanup s = CleanClosed" | "sy_cleanup s = CleanReleased" by blast
    then show ?thesis
    proof cases
      case 1
      show ?thesis
      by (rule finishI [OF conn_step.cleanup_close [OF 1 w]]) (use 1 assms(2) in \<open>auto simp: steps_left_def clean_left_def\<close>)
    next
      case 2
      show ?thesis
      by (rule finishI [OF conn_step.cleanup_release [OF 2]]) (use 2 assms(2) in \<open>auto simp: steps_left_def clean_left_def\<close>)
    next
      case 3
      show ?thesis
      by (rule finishI [OF conn_step.cleanup_done [OF 3]]) (use 3 assms(2) in \<open>auto simp: steps_left_def clean_left_def cleanup_finish_def\<close>)
    qed
  qed
qed

lemma retired_finishes:
  "life_inv s \<Longrightarrow> cn_retiring (sy_conn s) \<Longrightarrow> \<exists>s'. conn_step\<^sup>*\<^sup>* s s' \<and> sy_cleanup s' = CleanDone"
proof (induction "steps_left s" arbitrary: s rule: less_induct)
  case less
  show ?case
  proof (cases "sy_cleanup s = CleanDone")
    case False
    from finish_step_exists [OF less(2,3) False] obtain s' where s': "conn_step s s'"
      "cn_retiring (sy_conn s')" "steps_left s' < steps_left s" by blast
    from less(1) [OF s'(3) life_inv_step [OF s'(1) less(2)] s'(2)] s'(1) show ?thesis
      by (meson converse_rtranclp_into_rtranclp)
  qed blast
qed

subsection \<open>Properties\<close>

text \<open>C10. Native lifetime: in every interleaving of the pump, a reader, a writer, the write workers, closers
  and the cleanup, the device is closed at most once, and when it has been closed no native read or write is
  in progress or can start any more; the endpoint lease is released only after the device is
  closed, \<open>Close\<close> reports completion only after that, and a write is admitted only while no other
  write worker runs.\<close>

theorem connection_lifetime:
  assumes "reachable layout i s"
  shows "sy_closes s \<le> 1 \<and>
    (sy_closes s = 1 \<longrightarrow> sy_pump s = PumpDone \<and> sy_work s = WorkNone \<and> cn_retiring (sy_conn s)) \<and>
    (\<not> sy_leased s \<longrightarrow> sy_closes s = 1) \<and> (cn_done (sy_conn s) \<longrightarrow> \<not> sy_leased s) \<and>
    (fst (write_admit ctxNil e1 e2 report (sy_conn s)) = None \<longrightarrow> sy_work s = WorkNone)"
proof -
  have inv: "life_inv s" using reachable_inv [OF assms] ..
  have admit: "sy_work s = WorkNone" if "fst (write_admit ctxNil e1 e2 report (sy_conn s)) = None"
    using that write_admit_life(2) [of ctxNil e1 e2 report "sy_conn s"] inv
    by (cases "write_admit ctxNil e1 e2 report (sy_conn s)") (auto simp: life_inv_def)
  with inv show ?thesis
    by (cases "sy_cleanup s") (auto simp: life_inv_def live_workers_def split: if_splits)
qed

theorem connection_lifetime_witness:
  "\<exists>s. reachable \<lparr>rl_Input = \<lparr>rs_ID = 0, rs_Size = 64\<rparr>, rl_Output = \<lparr>rs_ID = 0, rs_Size = 64\<rparr>\<rparr> ''a'' s \<and>
     cn_retiring (sy_conn s) \<and> sy_closes s \<le> 1"
proof -
  let ?l = "\<lparr>rl_Input = \<lparr>rs_ID = 0, rs_Size = 64\<rparr>, rl_Output = \<lparr>rs_ID = 0, rs_Size = 64\<rparr>\<rparr>"
  let ?s0 = "conn_start ?l ''a''"
  obtain r c where b: "close_begin False (sy_conn ?s0) = (r, c)" by fastforce
  have "reachable ?l ''a'' (put_conn c ?s0)"
    unfolding reachable_def by (rule r_into_rtranclp) (rule conn_step.close_call [OF b])
  with connection_lifetime [OF this] close_begin_life [OF b] show ?thesis by (intro exI [of _ "put_conn c ?s0"]) simp
qed

text \<open>C14. Input order: in every interleaving, the reports returned by \<open>Read\<close> are a prefix of the reports the
  pump accepted, in the same order, with none lost or duplicated while the connection is not retired; the
  ring buffer never holds more than 64 reports.\<close>

theorem connection_fifo:
  assumes "reachable layout i s"
  shows "cn_count (sy_conn s) \<le> 64 \<and>
    (\<exists>d. sy_accepted s = sy_returned s @ d \<and>
      (\<not> cn_retiring (sy_conn s) \<longrightarrow> d = queued (sy_conn s) \<and> length d = cn_count (sy_conn s)))"
proof -
  have "queue_inv s" using reachable_inv [OF assms] ..
  then show ?thesis by (auto simp: queue_inv_def ring_wf_def InputQueueSize_def queued_def)
qed

theorem connection_fifo_witness:
  "\<exists>s. reachable \<lparr>rl_Input = \<lparr>rs_ID = 0, rs_Size = 1\<rparr>, rl_Output = \<lparr>rs_ID = 0, rs_Size = 1\<rparr>\<rparr> ''a'' s \<and>
     sy_accepted s = [\<lparr>rp_ID = 0, rp_Data = [7]\<rparr>] \<and> cn_count (sy_conn s) \<le> 64"
proof -
  let ?l = "\<lparr>rl_Input = \<lparr>rs_ID = 0, rs_Size = 1\<rparr>, rl_Output = \<lparr>rs_ID = 0, rs_Size = 1\<rparr>\<rparr>"
  let ?s0 = "conn_start ?l ''a''"
  let ?s1 = "?s0\<lparr>sy_pump := if cn_retiring (sy_conn ?s0) then PumpExit else PumpRead\<rparr>"
  let ?r = "Inr \<lparr>rp_ID = 0, rp_Data = [7]\<rparr> :: report res"
  obtain c go where h: "pump_handle ?r (sy_conn ?s1) = (c, go)" by fastforce
  let ?s2 = "(put_conn c ?s1)\<lparr>sy_pump := if go then PumpTop else PumpExit,
      sy_accepted := (if cn_count c > cn_count (sy_conn ?s1) then sy_accepted ?s1 @ [projr ?r] else sy_accepted ?s1)\<rparr>"
  have s1: "conn_step ?s0 ?s1" by (rule conn_step.pump_top) (simp add: conn_start_def)
  have "sy_pump ?s1 = PumpRead" by (simp add: conn_start_def newConnection_def)
  from conn_step.pump_result [OF this h] have "conn_step ?s1 ?s2" .
  with s1 have reach: "reachable ?l ''a'' ?s2"
    unfolding reachable_def by (simp only: rtranclp.rtrancl_into_rtrancl [OF r_into_rtranclp])
  have "cn_count c > cn_count (sy_conn ?s1)" and "sy_accepted ?s1 = []"
    using h by (auto simp: pump_handle_def conn_start_def newConnection_def InputQueueSize_def)
  then have "sy_accepted ?s2 = [\<lparr>rp_ID = 0, rp_Data = [7]\<rparr>]" by simp
  with reach connection_fifo [OF reach] show ?thesis by blast
qed

text \<open>C27. Retirement is final and cleanup cannot deadlock: once a connection is retiring, no read or write
  is admitted and no step makes it usable again, and from every reachable retiring state the goroutines can
  run on to a state in which the device is closed, the lease released and \<open>done\<close> signalled.\<close>

theorem connection_retires:
  assumes "reachable layout i s" and "cn_retiring (sy_conn s)"
  shows "fst (read_admit ctxNil wait e1 e2 (sy_conn s)) \<noteq> None \<and>
    fst (write_admit ctxNil e1 e2 report (sy_conn s)) \<noteq> None \<and>
    (\<forall>s'. conn_step s s' \<longrightarrow> cn_retiring (sy_conn s')) \<and>
    (\<exists>s'. conn_step\<^sup>*\<^sup>* s s' \<and> sy_closes s' = 1 \<and> \<not> sy_leased s' \<and> cn_done (sy_conn s'))"
proof -
  have inv: "life_inv s" using reachable_inv [OF assms(1)] ..
  obtain s' where s': "conn_step\<^sup>*\<^sup>* s s'" "sy_cleanup s' = CleanDone"
    using retired_finishes [OF inv assms(2)] by blast
  then have "reachable layout i s'" using assms(1) unfolding reachable_def by (meson rtranclp_trans)
  then have "life_inv s'" using reachable_inv by blast
  with s' have "\<exists>s'. conn_step\<^sup>*\<^sup>* s s' \<and> sy_closes s' = 1 \<and> \<not> sy_leased s' \<and> cn_done (sy_conn s')"
    by (intro exI [of _ s']) (simp add: life_inv_def)
  moreover have "cn_retiring (sy_conn t)" if "conn_step s t" for t
    using that assms(2)
    by (cases rule: conn_step.cases)
      (auto simp: same_life_def cleanup_finish_def dest!: sections_life)
  moreover have "fst (read_admit ctxNil wait e1 e2 (sy_conn s)) \<noteq> None"
    "fst (write_admit ctxNil e1 e2 report (sy_conn s)) \<noteq> None"
    using assms(2) by (auto simp: read_admit_def write_admit_def split: option.splits)
  ultimately show ?thesis by blast
qed

theorem connection_retires_witness:
  "\<exists>s. reachable \<lparr>rl_Input = \<lparr>rs_ID = 0, rs_Size = 64\<rparr>, rl_Output = \<lparr>rs_ID = 0, rs_Size = 64\<rparr>\<rparr> ''a'' s \<and>
     cn_retiring (sy_conn s) \<and> (\<exists>s'. conn_step\<^sup>*\<^sup>* s s' \<and> sy_closes s' = 1 \<and> \<not> sy_leased s' \<and> cn_done (sy_conn s'))"
proof -
  let ?l = "\<lparr>rl_Input = \<lparr>rs_ID = 0, rs_Size = 64\<rparr>, rl_Output = \<lparr>rs_ID = 0, rs_Size = 64\<rparr>\<rparr>"
  let ?s0 = "conn_start ?l ''a''"
  obtain r c where b: "close_begin False (sy_conn ?s0) = (r, c)" by fastforce
  have reach: "reachable ?l ''a'' (put_conn c ?s0)"
    unfolding reachable_def by (rule r_into_rtranclp) (rule conn_step.close_call [OF b])
  have ret: "cn_retiring (sy_conn (put_conn c ?s0))" using close_begin_life [OF b] by simp
  from connection_retires [OF reach ret] reach ret show ?thesis by blast
qed

end
