(* ===== verification/HidNative.thy ===== *)
theory HidNative
  imports HidConnection "HOL-Library.Multiset"
begin

text \<open>
  The native HID backend, \<open>pkg/hid/native.go\<close>: \<open>Native.Enumerate\<close> and \<open>Native.Open\<close> with their worker
  goroutines, over the resource admission that all backends of the process share
  (\<open>resources.go\<close>). Every call of the process is an entry of a list; \<open>native_step\<close> interleaves the
  callers, the workers and (through \<open>conn_step\<close> of \<open>HidConnection\<close>) the opened connections. Each
  step is one critical section, one native call or one call of the shared admission. The driver's
  answers are free, and a context may be cancelled at any time.
\<close>

subsection \<open>Open\<close>

text \<open>A native device: what \<open>Endpoint()\<close> and \<open>Layout()\<close> answer.\<close>

record native_device =
  nd_endpoint :: endpoint
  nd_layout :: report_layout

text \<open>The worker goroutine of \<open>Open\<close>: inside the driver's \<open>open\<close>; before its critical section; in the branch
  that gives the device up, before closing it, before releasing the lease and before reporting; ended.
  The caller waits in the \<open>select\<close>, or has returned (whether a connection, and the error).\<close>

datatype open_worker =
    OpenNative | OpenChecked "native_device option" "err option" | OpenClose "native_device option" "err option"
  | OpenRelease "err option" | OpenReport "err option" | OpenDone

datatype open_caller = OpenWaits | OpenReturned bool "err option"

text \<open>The variables that a call of \<open>Open\<close> shares with its worker; \<open>op_conn\<close> is \<open>result\<close>, with the
  goroutines of the connection. \<open>op_device\<close> is the device the driver returned and \<open>op_closes\<close> counts
  the worker's calls of \<open>device.Close\<close>.\<close>

record open_call =
  op_endpoint :: endpoint
  op_worker :: open_worker
  op_caller :: open_caller
  op_completed :: bool
  op_abandoned :: bool
  op_conn :: "conn_sys option"
  op_resultErr :: "err option"
  op_device :: "native_device option"
  op_closes :: nat

abbreviation op_id :: "open_call \<Rightarrow> string" where
  "op_id c \<equiv> ep_ID (op_endpoint c)"

definition open_admit :: "bool \<Rightarrow> err option \<Rightarrow> endpoint \<Rightarrow> resources \<Rightarrow> err option \<times> resources" where
  "open_admit ctxNil ctxErr ep r =
     (if ctxNil \<or> ep_ID ep = [] \<or> \<not> boundedEndpoint ep
      then (Some (operationError ''open'' (ep_ID ep) (Sentinel (SHid HidInvalidArgument))), r)
      else case ctxErr of
          Some e \<Rightarrow> (Some (operationError ''open'' (ep_ID ep) e), r)
        | None \<Rightarrow> map_prod (operationError_opt ''open'' (ep_ID ep)) id (reserveEndpoint (ep_ID ep) r))"

definition open_start :: "endpoint \<Rightarrow> open_call" where
  "open_start ep =
     \<lparr>op_endpoint = ep, op_worker = OpenNative, op_caller = OpenWaits, op_completed = False, op_abandoned = False,
      op_conn = None, op_resultErr = None, op_device = None, op_closes = 0\<rparr>"

text \<open>A call that returns before it starts a worker.\<close>

definition open_refusal :: "endpoint \<Rightarrow> err \<Rightarrow> open_call" where
  "open_refusal ep e = (open_start ep)\<lparr>op_worker := OpenDone, op_caller := OpenReturned False (Some e)\<rparr>"

definition layout_supported :: "report_layout \<Rightarrow> bool" where
  "layout_supported l \<longleftrightarrow>
     \<not> (rs_Size (rl_Input l) \<le> 0 \<or> rs_Size (rl_Output l) \<le> 0 \<or>
        rs_Size (rl_Input l) > MaxReportSize \<or> rs_Size (rl_Output l) > MaxReportSize)"

text \<open>The checks of the worker on the driver's answer.\<close>

definition open_validate :: "endpoint \<Rightarrow> native_device option \<Rightarrow> err option \<Rightarrow> err option" where
  "open_validate ep device e =
     (case e of
        Some x \<Rightarrow> Some x
      | None \<Rightarrow>
          (case device of
             None \<Rightarrow> Some (Sentinel (SHid HidIO))
           | Some d \<Rightarrow>
               if \<not> matchesEndpoint ep (nd_endpoint d) then Some (Sentinel (SHid HidStaleEndpoint))
               else if \<not> layout_supported (nd_layout d) then Some (Sentinel (SHid HidUnsupported))
               else None))"

text \<open>The worker's critical section: it gives the device up when the caller left or a check failed, and hands
  over a connection otherwise. (Without an error there is a device, by the checks.)\<close>

definition open_decide :: "native_device option \<Rightarrow> err option \<Rightarrow> open_call \<Rightarrow> open_call" where
  "open_decide device e c =
     (if op_abandoned c \<or> e \<noteq> None then c\<lparr>op_worker := OpenClose device e\<rparr>
      else c\<lparr>op_conn := map_option (\<lambda>d. conn_start (nd_layout d) (op_id c)) device,
             op_completed := True, op_worker := OpenDone\<rparr>)"

definition open_close :: "err option \<Rightarrow> native_device option \<Rightarrow> err option \<Rightarrow> open_call \<Rightarrow> open_call" where
  "open_close closeErr device e c =
     (case device of
        None \<Rightarrow> c\<lparr>op_worker := OpenRelease e\<rparr>
      | Some d \<Rightarrow> c\<lparr>op_worker := OpenRelease (errors_join [e, closeErr]), op_closes := op_closes c + 1\<rparr>)"

definition open_report :: "err option \<Rightarrow> open_call \<Rightarrow> open_call" where
  "open_report e c =
     c\<lparr>op_resultErr := operationError_opt ''open'' (op_id c) e, op_completed := True, op_worker := OpenDone\<rparr>"

text \<open>The caller's critical section after its \<open>select\<close>.\<close>

definition open_return :: "err option \<Rightarrow> open_call \<Rightarrow> open_call" where
  "open_return ctxErr c =
     (if op_completed c then c\<lparr>op_caller := OpenReturned (op_conn c \<noteq> None) (op_resultErr c)\<rparr>
      else c\<lparr>op_abandoned := True, op_caller := OpenReturned False (operationError_opt ''open'' (op_id c) ctxErr)\<rparr>)"

subsection \<open>Enumerate\<close>

datatype enum_worker = EnumNative | EnumRelease hid_snapshot "err option" | EnumReport hid_snapshot "err option" | EnumDone

datatype enum_caller = EnumWaits | EnumReturned hid_snapshot "err option"

record enum_call =
  en_options :: enumerate_options
  en_worker :: enum_worker
  en_caller :: enum_caller
  en_completed :: bool
  en_result :: "hid_snapshot \<times> err option"

definition empty_snapshot :: hid_snapshot where
  "empty_snapshot = \<lparr>sn_Endpoints = [], sn_Complete = False, sn_Warnings = []\<rparr>"

text \<open>The admission of \<open>Enumerate\<close>: the caller's context is nil, has ended (\<open>ctxErr\<close>), ends while the caller
  queues for the slot (\<open>waitErr\<close>), or the slot is free. None: the caller still queues.\<close>

definition enum_admit :: "bool \<Rightarrow> err option \<Rightarrow> err option \<Rightarrow> resources \<Rightarrow> (err option \<times> resources) option" where
  "enum_admit ctxNil ctxErr waitErr r =
     (if ctxNil then Some (Some (operationError ''enumerate'' [] (Sentinel (SHid HidInvalidArgument))), r)
      else case ctxErr of
          Some e \<Rightarrow> Some (Some (operationError ''enumerate'' [] e), r)
        | None \<Rightarrow>
            (case waitErr of
               Some e \<Rightarrow> Some (Some (operationError ''enumerate'' [] e), r)
             | None \<Rightarrow>
                 if rc_enumeration r then None
                 else Some (map_prod (operationError_opt ''enumerate'' []) id (reserveEnumeration r))))"

definition enum_start :: "enumerate_options \<Rightarrow> enum_call" where
  "enum_start opt =
     \<lparr>en_options = opt, en_worker = EnumNative, en_caller = EnumWaits, en_completed = False,
      en_result = (empty_snapshot, None)\<rparr>"

definition enum_refusal :: "enumerate_options \<Rightarrow> err \<Rightarrow> enum_call" where
  "enum_refusal opt e =
     (enum_start opt)\<lparr>en_worker := EnumDone, en_caller := EnumReturned empty_snapshot (Some e)\<rparr>"

definition enum_answer :: "hid_snapshot \<times> err option \<Rightarrow> enum_call \<Rightarrow> enum_call" where
  "enum_answer raw c = (case enumerate_worker (en_options c) raw of (s, e) \<Rightarrow> c\<lparr>en_worker := EnumRelease s e\<rparr>)"

definition enum_report :: "hid_snapshot \<Rightarrow> err option \<Rightarrow> enum_call \<Rightarrow> enum_call" where
  "enum_report s e c = c\<lparr>en_result := (s, e), en_completed := True, en_worker := EnumDone\<rparr>"

definition enum_return :: "err option \<Rightarrow> enum_call \<Rightarrow> enum_call" where
  "enum_return ctxErr c =
     (if en_completed c then c\<lparr>en_caller := EnumReturned (fst (en_result c)) (snd (en_result c))\<rparr>
      else c\<lparr>en_caller := EnumReturned empty_snapshot (operationError_opt ''enumerate'' [] ctxErr)\<rparr>)"

subsection \<open>Interleavings\<close>

record native_sys =
  nv_shared :: resources
  nv_opens :: "open_call list"
  nv_enums :: "enum_call list"

definition native_start :: native_sys where
  "native_start = \<lparr>nv_shared = shared_init, nv_opens = [], nv_enums = []\<rparr>"

definition set_open :: "nat \<Rightarrow> open_call \<Rightarrow> native_sys \<Rightarrow> native_sys" where
  "set_open i c s = s\<lparr>nv_opens := (nv_opens s)[i := c]\<rparr>"

definition set_enum :: "nat \<Rightarrow> enum_call \<Rightarrow> native_sys \<Rightarrow> native_sys" where
  "set_enum i c s = s\<lparr>nv_enums := (nv_enums s)[i := c]\<rparr>"

text \<open>\<open>open_connection\<close> is a step of an opened connection; the step that ends its lease calls
  \<open>shared.releaseEndpoint\<close>.\<close>

inductive native_step :: "native_sys \<Rightarrow> native_sys \<Rightarrow> bool" where
  open_refused: "open_admit ctxNil ctxErr ep (nv_shared s) = (Some e, r) \<Longrightarrow>
    native_step s (s\<lparr>nv_shared := r, nv_opens := nv_opens s @ [open_refusal ep e]\<rparr>)"
| open_admitted: "open_admit ctxNil ctxErr ep (nv_shared s) = (None, r) \<Longrightarrow>
    native_step s (s\<lparr>nv_shared := r, nv_opens := nv_opens s @ [open_start ep]\<rparr>)"
| open_native: "i < length (nv_opens s) \<Longrightarrow> c = nv_opens s ! i \<Longrightarrow> op_worker c = OpenNative \<Longrightarrow>
    native_step s (set_open i (c\<lparr>op_device := d, op_worker := OpenChecked d (open_validate (op_endpoint c) d e)\<rparr>) s)"
| open_decides: "i < length (nv_opens s) \<Longrightarrow> c = nv_opens s ! i \<Longrightarrow> op_worker c = OpenChecked d e \<Longrightarrow>
    native_step s (set_open i (open_decide d e c) s)"
| open_closes: "i < length (nv_opens s) \<Longrightarrow> c = nv_opens s ! i \<Longrightarrow> op_worker c = OpenClose d e \<Longrightarrow>
    native_step s (set_open i (open_close closeErr d e c) s)"
| open_releases: "i < length (nv_opens s) \<Longrightarrow> c = nv_opens s ! i \<Longrightarrow> op_worker c = OpenRelease e \<Longrightarrow>
    native_step s (set_open i (c\<lparr>op_worker := OpenReport e\<rparr>)
      (s\<lparr>nv_shared := releaseEndpoint (op_id c) (nv_shared s)\<rparr>))"
| open_reports: "i < length (nv_opens s) \<Longrightarrow> c = nv_opens s ! i \<Longrightarrow> op_worker c = OpenReport e \<Longrightarrow>
    native_step s (set_open i (open_report e c) s)"
| open_returns: "i < length (nv_opens s) \<Longrightarrow> c = nv_opens s ! i \<Longrightarrow> op_caller c = OpenWaits \<Longrightarrow>
    op_completed c \<or> ctxErr \<noteq> None \<Longrightarrow> native_step s (set_open i (open_return ctxErr c) s)"
| open_connection: "i < length (nv_opens s) \<Longrightarrow> c = nv_opens s ! i \<Longrightarrow> op_conn c = Some cs \<Longrightarrow> conn_step cs cs' \<Longrightarrow>
    native_step s (set_open i (c\<lparr>op_conn := Some cs'\<rparr>)
      (if sy_leased cs \<and> \<not> sy_leased cs' then s\<lparr>nv_shared := releaseEndpoint (op_id c) (nv_shared s)\<rparr> else s))"
| enum_refused: "enum_admit ctxNil ctxErr waitErr (nv_shared s) = Some (Some e, r) \<Longrightarrow>
    native_step s (s\<lparr>nv_shared := r, nv_enums := nv_enums s @ [enum_refusal opt e]\<rparr>)"
| enum_admitted: "enum_admit ctxNil ctxErr waitErr (nv_shared s) = Some (None, r) \<Longrightarrow>
    native_step s (s\<lparr>nv_shared := r, nv_enums := nv_enums s @ [enum_start opt]\<rparr>)"
| enum_native: "i < length (nv_enums s) \<Longrightarrow> c = nv_enums s ! i \<Longrightarrow> en_worker c = EnumNative \<Longrightarrow>
    native_step s (set_enum i (enum_answer raw c) s)"
| enum_releases: "i < length (nv_enums s) \<Longrightarrow> c = nv_enums s ! i \<Longrightarrow> en_worker c = EnumRelease sn e \<Longrightarrow>
    native_step s (set_enum i (c\<lparr>en_worker := EnumReport sn e\<rparr>) (s\<lparr>nv_shared := releaseEnumeration (nv_shared s)\<rparr>))"
| enum_reports: "i < length (nv_enums s) \<Longrightarrow> c = nv_enums s ! i \<Longrightarrow> en_worker c = EnumReport sn e \<Longrightarrow>
    native_step s (set_enum i (enum_report sn e c) s)"
| enum_returns: "i < length (nv_enums s) \<Longrightarrow> c = nv_enums s ! i \<Longrightarrow> en_caller c = EnumWaits \<Longrightarrow>
    en_completed c \<or> ctxErr \<noteq> None \<Longrightarrow> native_step s (set_enum i (enum_return ctxErr c) s)"

subsection \<open>Who owns a device\<close>

text \<open>The calls that hold the lease of their endpoint, and those whose native handle may be open: the driver
  is opening it, or it returned a device that neither the worker nor the connection has closed.\<close>

definition holds_lease :: "open_call \<Rightarrow> bool" where
  "holds_lease c \<longleftrightarrow>
     (case op_worker c of OpenReport e \<Rightarrow> False | OpenDone \<Rightarrow> False | _ \<Rightarrow> True) \<or>
     (case op_conn c of None \<Rightarrow> False | Some cs \<Rightarrow> sy_leased cs)"

definition handle_open :: "open_call \<Rightarrow> bool" where
  "handle_open c \<longleftrightarrow>
     op_worker c = OpenNative \<or>
     op_device c \<noteq> None \<and> op_closes c = 0 \<and> (case op_conn c of None \<Rightarrow> True | Some cs \<Rightarrow> sy_closes cs = 0)"

definition holds_slot :: "enum_call \<Rightarrow> bool" where
  "holds_slot c \<longleftrightarrow> (case en_worker c of EnumNative \<Rightarrow> True | EnumRelease s e \<Rightarrow> True | _ \<Rightarrow> False)"

definition device_accepted :: "endpoint \<Rightarrow> native_device \<Rightarrow> bool" where
  "device_accepted ep d \<longleftrightarrow>
     matchesEndpoint ep (nd_endpoint d) \<and> rs_Size (rl_Input (nd_layout d)) \<in> {1..4096} \<and>
     rs_Size (rl_Output (nd_layout d)) \<in> {1..4096}"

lemma open_validate_None: "open_validate ep d e = None \<longleftrightarrow> e = None \<and> (\<exists>x. d = Some x \<and> device_accepted ep x)"
  by (auto simp: open_validate_def device_accepted_def layout_supported_def MaxReportSize_def split: option.splits if_splits)

text \<open>The state of one call, by the position of its worker.\<close>

definition given_up :: "err option \<Rightarrow> open_call \<Rightarrow> bool" where
  "given_up e c \<longleftrightarrow> (e \<noteq> None \<or> op_abandoned c) \<and> op_closes c = (if op_device c = None then 0 else 1)"

definition worker_inv :: "open_call \<Rightarrow> bool" where
  "worker_inv c =
     (case op_worker c of
        OpenNative \<Rightarrow> op_device c = None \<and> op_closes c = 0 \<and> op_conn c = None \<and> \<not> op_completed c \<and>
          op_resultErr c = None
      | OpenChecked d e \<Rightarrow> op_device c = d \<and> op_closes c = 0 \<and> op_conn c = None \<and> \<not> op_completed c \<and>
          op_resultErr c = None \<and> (e = None \<longrightarrow> (\<exists>x. d = Some x \<and> device_accepted (op_endpoint c) x))
      | OpenClose d e \<Rightarrow> op_device c = d \<and> op_closes c = 0 \<and> op_conn c = None \<and> \<not> op_completed c \<and>
          (e \<noteq> None \<or> op_abandoned c)
      | OpenRelease e \<Rightarrow> given_up e c \<and> op_conn c = None \<and> \<not> op_completed c
      | OpenReport e \<Rightarrow> given_up e c \<and> op_conn c = None \<and> \<not> op_completed c
      | OpenDone \<Rightarrow>
          (case op_conn c of
             None \<Rightarrow> op_closes c = (if op_device c = None then 0 else 1) \<and>
               (op_completed c \<longrightarrow> op_resultErr c \<noteq> None \<or> op_abandoned c)
           | Some cs \<Rightarrow> life_inv cs \<and> op_completed c \<and> op_closes c = 0 \<and> op_resultErr c = None \<and> \<not> op_abandoned c \<and>
               (\<exists>x. op_device c = Some x \<and> device_accepted (op_endpoint c) x)))"

definition caller_inv :: "open_call \<Rightarrow> bool" where
  "caller_inv c =
     (case op_caller c of
        OpenWaits \<Rightarrow> \<not> op_abandoned c
      | OpenReturned got e \<Rightarrow>
          if got then op_conn c \<noteq> None \<and> e = None
          else op_conn c = None \<and> e \<noteq> None \<and> (op_abandoned c \<or> op_worker c = OpenDone))"

lemmas open_inv_defs = worker_inv_def caller_inv_def given_up_def

lemma handle_leased: "worker_inv c \<Longrightarrow> handle_open c \<Longrightarrow> holds_lease c"
  by (auto simp: worker_inv_def handle_open_def holds_lease_def given_up_def life_inv_def
      split: open_worker.splits option.splits if_splits)

lemma op_error_some [simp]:
  "operationError_opt op i None = None" "operationError_opt op i (Some e) = Some (operationError op i e)"
  by (simp_all add: operationError_opt_def)

text \<open>Every step of a worker, a caller or a connection keeps the state of its call.\<close>

lemma call_inv_start: "worker_inv (open_start ep) \<and> caller_inv (open_start ep)"
  and call_inv_refusal: "worker_inv (open_refusal ep e) \<and> caller_inv (open_refusal ep e)"
  by (simp_all add: open_start_def open_refusal_def open_inv_defs)

lemma call_inv_native:
  assumes "worker_inv c" "caller_inv c" "op_worker c = OpenNative"
  shows "worker_inv (c\<lparr>op_device := d, op_worker := OpenChecked d (open_validate (op_endpoint c) d e)\<rparr>) \<and>
    caller_inv (c\<lparr>op_device := d, op_worker := OpenChecked d (open_validate (op_endpoint c) d e)\<rparr>)"
  using assms by (auto simp: open_inv_defs open_validate_None split: open_caller.splits)

lemma call_inv_decide:
  assumes "worker_inv c" "caller_inv c" "op_worker c = OpenChecked d e"
  shows "worker_inv (open_decide d e c) \<and> caller_inv (open_decide d e c)"
  using assms by (auto simp: open_inv_defs open_decide_def life_inv_start split: open_caller.splits if_splits)

lemma call_inv_close:
  assumes "worker_inv c" "caller_inv c" "op_worker c = OpenClose d e"
  shows "worker_inv (open_close closeErr d e c) \<and> caller_inv (open_close closeErr d e c)"
  using assms
  by (cases e) (auto simp: open_inv_defs open_close_def errors_join_def split: open_caller.splits option.splits if_splits)

lemma call_inv_release:
  assumes "worker_inv c" "caller_inv c" "op_worker c = OpenRelease e"
  shows "worker_inv (c\<lparr>op_worker := OpenReport e\<rparr>) \<and> caller_inv (c\<lparr>op_worker := OpenReport e\<rparr>)"
  using assms by (auto simp: open_inv_defs split: open_caller.splits if_splits)

lemma call_inv_report:
  assumes "worker_inv c" "caller_inv c" "op_worker c = OpenReport e"
  shows "worker_inv (open_report e c) \<and> caller_inv (open_report e c)"
  using assms by (auto simp: open_inv_defs open_report_def split: open_caller.splits if_splits)

lemma call_inv_return:
  assumes "worker_inv c" "caller_inv c" "op_caller c = OpenWaits" "op_completed c \<or> ctxErr \<noteq> None"
  shows "worker_inv (open_return ctxErr c) \<and> caller_inv (open_return ctxErr c)"
  using assms by (auto simp: open_inv_defs open_return_def split: open_worker.splits option.splits if_splits)

lemma call_inv_connection:
  assumes "worker_inv c" "caller_inv c" "op_conn c = Some cs" "conn_step cs cs'"
  shows "worker_inv (c\<lparr>op_conn := Some cs'\<rparr>) \<and> caller_inv (c\<lparr>op_conn := Some cs'\<rparr>)"
  using assms life_inv_step [OF assms(4)]
  by (auto simp: open_inv_defs split: open_worker.splits open_caller.splits if_splits)

lemmas call_inv_steps = call_inv_native call_inv_decide call_inv_close call_inv_release call_inv_report
  call_inv_return call_inv_connection

subsection \<open>Leases and the enumeration slot\<close>

definition leases :: "open_call list \<Rightarrow> string list" where
  "leases os = map op_id (filter holds_lease os)"

definition native_inv :: "native_sys \<Rightarrow> bool" where
  "native_inv s \<longleftrightarrow>
     resource_inv (nv_shared s) \<and>
     (\<forall>c \<in> set (nv_opens s). worker_inv c \<and> caller_inv c) \<and>
     mset (leases (nv_opens s)) = mset (rc_endpoints (nv_shared s)) \<and>
     length (filter holds_slot (nv_enums s)) = (if rc_enumeration (nv_shared s) then 1 else 0)"

lemma leases_append [simp]: "leases (os @ [c]) = leases os @ (if holds_lease c then [op_id c] else [])"
  by (simp add: leases_def)

lemma mset_filter_update:
  "i < length xs \<Longrightarrow> mset (map f (filter P (xs[i := c]))) + (if P (xs ! i) then {#f (xs ! i)#} else {#}) =
     mset (map f (filter P xs)) + (if P c then {#f c#} else {#})"
proof (induction xs arbitrary: i)
  case (Cons x xs)
  show ?case
  proof (cases i)
    case (Suc j)
    with Cons.prems have "j < length xs" by simp
    from Cons.IH [OF this] Suc show ?thesis by (auto split: if_splits)
  qed simp
qed simp

lemma leases_same:
  "i < length os \<Longrightarrow> op_id c = op_id (os ! i) \<Longrightarrow> holds_lease c = holds_lease (os ! i) \<Longrightarrow>
     mset (leases (os[i := c])) = mset (leases os)"
  using mset_filter_update [of i os op_id holds_lease c] by (simp add: leases_def split: if_splits)

lemma leases_release:
  "i < length os \<Longrightarrow> holds_lease (os ! i) \<Longrightarrow> \<not> holds_lease c \<Longrightarrow>
     add_mset (op_id (os ! i)) (mset (leases (os[i := c]))) = mset (leases os)"
  using mset_filter_update [of i os op_id holds_lease c] by (simp add: leases_def)

lemma slot_update:
  "i < length es \<Longrightarrow> length (filter holds_slot (es[i := c])) + (if holds_slot (es ! i) then 1 else 0) =
     length (filter holds_slot es) + (if holds_slot c then 1 else 0)"
  using arg_cong [OF mset_filter_update [of i es id holds_slot c], of size]
  by (simp del: mset_filter mset_map split: if_splits)

text \<open>A release by the owner takes exactly one lease off the shared map.\<close>

lemma native_release:
  assumes inv: "native_inv s" and i: "i < length (nv_opens s)" and c: "holds_lease (nv_opens s ! i)"
    and c': "\<not> holds_lease c'" "worker_inv c'" "caller_inv c'" and r: "x = op_id (nv_opens s ! i)"
  shows "native_inv (set_open i c' (s\<lparr>nv_shared := releaseEndpoint x (nv_shared s)\<rparr>))"
proof -
  let ?r = "nv_shared s"
  have m: "mset (leases (nv_opens s)) = mset (rc_endpoints ?r)" and d: "distinct (rc_endpoints ?r)"
    using inv by (auto simp: native_inv_def resource_inv_def)
  have "op_id (nv_opens s ! i) \<in> set (leases (nv_opens s))" using i c by (simp add: leases_def)
  then have "op_id (nv_opens s ! i) \<in> set (rc_endpoints ?r)" by (simp only: mset_eq_setD [OF m])
  then have "resource_inv (releaseEndpoint x ?r)"
    unfolding r using resource_step_inv [OF resource_step.rel_endpoint] inv by (simp add: native_inv_def)
  moreover have "mset (leases ((nv_opens s)[i := c'])) = mset (removeAll (op_id (nv_opens s ! i)) (rc_endpoints ?r))"
    using leases_release [OF i c c'(1)] m d
    by (metis add_mset_remove_trivial distinct_remove1_removeAll mset_remove1)
  ultimately show ?thesis
    using inv c' r by (auto simp: native_inv_def set_open_def releaseEndpoint_def dest: set_update_subset_insert [THEN subsetD])
qed

lemma native_same:
  assumes "native_inv s" "i < length (nv_opens s)" "op_id c = op_id (nv_opens s ! i)"
    "holds_lease c = holds_lease (nv_opens s ! i)" "worker_inv c \<and> caller_inv c"
  shows "native_inv (set_open i c s)"
  using assms leases_same [of i "nv_opens s" c]
  by (auto simp: native_inv_def set_open_def dest: set_update_subset_insert [THEN subsetD])

lemma native_enum:
  assumes "native_inv s" "i < length (nv_enums s)" "holds_slot c = holds_slot (nv_enums s ! i)"
  shows "native_inv (set_enum i c s)"
  using assms slot_update [of i "nv_enums s" c] by (simp add: native_inv_def set_enum_def split: if_splits)

lemma nth_inv: "native_inv s \<Longrightarrow> i < length (nv_opens s) \<Longrightarrow> worker_inv (nv_opens s ! i) \<and> caller_inv (nv_opens s ! i)"
  by (simp add: native_inv_def)

lemma lease_simps:
  "holds_lease (open_start ep)" "\<not> holds_lease (open_refusal ep e)" "op_id (open_start ep) = ep_ID ep"
  "\<not> holds_slot (enum_refusal opt e)" "holds_slot (enum_start opt)"
  by (simp_all add: holds_lease_def holds_slot_def open_start_def open_refusal_def enum_start_def enum_refusal_def)

lemma open_admit_shared:
  "open_admit ctxNil ctxErr ep r = (Some e, r') \<Longrightarrow> r' = r"
  "open_admit ctxNil ctxErr ep r = (None, r') \<Longrightarrow> reserveEndpoint (ep_ID ep) r = (None, r')"
  by (auto simp: open_admit_def reserveEndpoint_def split: if_splits option.splits)

lemma enum_admit_shared:
  "enum_admit ctxNil ctxErr waitErr r = Some (Some e, r') \<Longrightarrow> r' = r"
  "enum_admit ctxNil ctxErr waitErr r = Some (None, r') \<Longrightarrow> \<not> rc_enumeration r \<and> reserveEnumeration r = (None, r')"
  by (cases r; auto simp: enum_admit_def reserveEnumeration_def Let_def split: if_splits option.splits)+

lemma conn_lease: "conn_step cs cs' \<Longrightarrow> sy_leased cs' \<Longrightarrow> sy_leased cs"
  by (induction rule: conn_step.induct) (auto simp: put_conn_def)

lemma native_inv_step: "native_step s s' \<Longrightarrow> native_inv s \<Longrightarrow> native_inv s'"
proof (induction rule: native_step.induct)
  case (open_refused ctxNil ctxErr ep s e r)
  then show ?case using open_admit_shared(1) [OF open_refused(1)] call_inv_refusal [of ep e]
    by (simp add: native_inv_def lease_simps)
next
  case (open_admitted ctxNil ctxErr ep s r)
  note res = open_admit_shared(2) [OF open_admitted(1)]
  have "resource_inv r" using resource_step_inv [OF resource_step.res_endpoint [of "nv_shared s" "ep_ID ep"]] open_admitted res
    by (simp add: native_inv_def)
  moreover have "rc_endpoints r = ep_ID ep # rc_endpoints (nv_shared s)" "rc_enumeration r = rc_enumeration (nv_shared s)"
    using res by (auto simp: reserveEndpoint_def split: if_splits)
  ultimately show ?case using open_admitted(2) call_inv_start [of ep] by (simp add: native_inv_def lease_simps)
next
  case (open_native i s c d e)
  then show ?case using call_inv_native [of c d e] nth_inv [of s i]
    by (intro native_same) (auto simp: holds_lease_def)
next
  case (open_decides i s c d e)
  have "worker_inv c" using nth_inv [of s i] open_decides by simp
  then show ?case using open_decides call_inv_decide [of c d e] nth_inv [of s i]
    by (intro native_same) (auto simp: holds_lease_def open_decide_def worker_inv_def conn_start_def)
next
  case (open_closes i s c d e closeErr)
  then show ?case using call_inv_close [of c d e closeErr] nth_inv [of s i]
    by (intro native_same) (auto simp: holds_lease_def open_close_def split: option.splits)
next
  case (open_releases i s c e)
  then show ?case using call_inv_release [of c e] nth_inv [of s i]
    by (intro native_release) (auto simp: holds_lease_def worker_inv_def)
next
  case (open_reports i s c e)
  then show ?case using call_inv_report [of c e] nth_inv [of s i]
    by (intro native_same) (auto simp: holds_lease_def open_report_def)
next
  case (open_returns i s c ctxErr)
  then show ?case using call_inv_return [of c ctxErr] nth_inv [of s i]
    by (intro native_same) (auto simp: holds_lease_def open_return_def)
next
  case (open_connection i s c cs cs')
  have w: "worker_inv c" "caller_inv c" using open_connection nth_inv [of s i] by auto
  have "op_worker c = OpenDone" using w(1) open_connection(3) by (auto simp: worker_inv_def split: open_worker.splits)
  with open_connection call_inv_connection [OF w open_connection(3,4)] conn_lease [OF open_connection(4)]
  show ?case
    by (cases "sy_leased cs \<and> \<not> sy_leased cs'")
      (auto intro: native_release native_same simp: holds_lease_def)
next
  case (enum_refused ctxNil ctxErr waitErr s e r opt)
  then show ?case using enum_admit_shared(1) [OF enum_refused(1)] by (simp add: native_inv_def lease_simps)
next
  case (enum_admitted ctxNil ctxErr waitErr s r opt)
  note res = enum_admit_shared(2) [OF enum_admitted(1)]
  have "resource_inv r" using resource_step_inv [OF resource_step.res_enumeration [of "nv_shared s"]] enum_admitted res
    by (simp add: native_inv_def)
  moreover have "rc_endpoints r = rc_endpoints (nv_shared s)" "rc_enumeration r"
    using res by (auto simp: reserveEnumeration_def Let_def split: if_splits)
  ultimately show ?case using enum_admitted(2) res by (simp add: native_inv_def lease_simps)
next
  case (enum_native i s c raw)
  then show ?case by (intro native_enum) (auto simp: holds_slot_def enum_answer_def split: prod.splits)
next
  case (enum_releases i s c sn e)
  let ?c = "c\<lparr>en_worker := EnumReport sn e\<rparr>"
  have "length (filter holds_slot ((nv_enums s)[i := ?c])) + 1 = length (filter holds_slot (nv_enums s))"
    using slot_update [of i "nv_enums s" ?c] enum_releases(1-3) by (simp add: holds_slot_def)
  moreover from this have slot: "rc_enumeration (nv_shared s)" using enum_releases(4)
    by (auto simp: native_inv_def split: if_splits)
  moreover have "resource_inv (releaseEnumeration (nv_shared s))"
    using resource_step_inv [OF resource_step.rel_enumeration [OF slot]] enum_releases(4) by (simp add: native_inv_def)
  ultimately show ?case using enum_releases(4) by (simp add: native_inv_def set_enum_def releaseEnumeration_def)
next
  case (enum_reports i s c sn e)
  then show ?case by (intro native_enum) (auto simp: holds_slot_def enum_report_def)
next
  case (enum_returns i s c ctxErr)
  then show ?case by (intro native_enum) (auto simp: holds_slot_def enum_return_def)
qed

definition native_reachable :: "native_sys \<Rightarrow> bool" where
  "native_reachable s \<longleftrightarrow> native_step\<^sup>*\<^sup>* native_start s"

lemma native_reachable_inv: "native_reachable s \<Longrightarrow> native_inv s"
  unfolding native_reachable_def
proof (induction rule: rtranclp_induct)
  case base
  show ?case by (simp add: native_inv_def native_start_def leases_def resource_inv_def shared_init_def resource_consts)
qed (rule native_inv_step)

subsection \<open>Giving a lease back\<close>

lemma distinct_filter_nth:
  "distinct (map f (filter P xs)) \<Longrightarrow> i < length xs \<Longrightarrow> j < length xs \<Longrightarrow> P (xs ! i) \<Longrightarrow> P (xs ! j) \<Longrightarrow>
     f (xs ! i) = f (xs ! j) \<Longrightarrow> i = j"
proof (induction xs arbitrary: i j)
  case (Cons x xs)
  have out: "f x \<notin> f ` set (filter P xs)" if "P x" using Cons.prems(1) that by simp
  have "distinct (map f (filter P xs))" using Cons.prems(1) by (simp split: if_splits)
  then show ?case
    using Cons.IH Cons.prems out by (cases i; cases j) (auto simp: image_iff Ball_def dest!: nth_mem)
qed simp

text \<open>A run of the system that changes only call \<open>i\<close> and ends with its lease given back.\<close>

definition release_run :: "nat \<Rightarrow> native_sys \<Rightarrow> bool" where
  "release_run i s \<longleftrightarrow>
     (\<exists>s' c. native_step\<^sup>*\<^sup>* s s' \<and> nv_opens s' = (nv_opens s)[i := c] \<and> worker_inv c \<and> \<not> holds_lease c)"

lemma release_runI:
  "native_step s s1 \<Longrightarrow> nv_opens s1 = (nv_opens s)[i := c] \<Longrightarrow> release_run i s1 \<Longrightarrow> release_run i s"
  unfolding release_run_def by (metis converse_rtranclp_into_rtranclp list_update_overwrite)

lemma release_run_end:
  "native_inv s \<Longrightarrow> i < length (nv_opens s) \<Longrightarrow> \<not> holds_lease (nv_opens s ! i) \<Longrightarrow> release_run i s"
  unfolding release_run_def using nth_inv [of s i] by (metis list_update_id rtranclp.rtrancl_refl)

lemma set_open_opens [simp]: "nv_opens (set_open i c s) = (nv_opens s)[i := c]"
  by (simp add: set_open_def)

lemma release_from_release:
  assumes "native_inv s" "i < length (nv_opens s)" "op_worker (nv_opens s ! i) = OpenRelease e"
  shows "release_run i s"
proof -
  note step = native_step.open_releases [OF assms(2) refl assms(3)]
  have "op_conn (nv_opens s ! i) = None" using nth_inv [OF assms(1,2)] assms(3) by (simp add: worker_inv_def)
  then show ?thesis
    using assms(2) native_inv_step [OF step assms(1)]
    by (intro release_runI [OF step] release_run_end) (auto simp: holds_lease_def)
qed

lemma release_from_close:
  assumes "native_inv s" "i < length (nv_opens s)" "op_worker (nv_opens s ! i) = OpenClose d e"
  shows "release_run i s"
proof -
  note step = native_step.open_closes [OF assms(2) refl assms(3), of None]
  have "\<exists>x. op_worker (open_close None d e (nv_opens s ! i)) = OpenRelease x"
    by (simp add: open_close_def split: option.splits)
  then obtain x where "op_worker (open_close None d e (nv_opens s ! i)) = OpenRelease x" ..
  then show ?thesis
    using assms(2) native_inv_step [OF step assms(1)]
    by (intro release_runI [OF step], simp, intro release_from_release) auto
qed

lemma release_from_checked:
  assumes "native_inv s" "i < length (nv_opens s)" "op_worker (nv_opens s ! i) = OpenChecked d e"
    "op_abandoned (nv_opens s ! i)"
  shows "release_run i s"
proof -
  note step = native_step.open_decides [OF assms(2) refl assms(3)]
  show ?thesis
    using assms(2,4) native_inv_step [OF step assms(1)]
    by (intro release_runI [OF step], simp, intro release_from_close) (auto simp: open_decide_def)
qed

lemma release_from_native:
  assumes "native_inv s" "i < length (nv_opens s)" "op_worker (nv_opens s ! i) = OpenNative"
    "op_abandoned (nv_opens s ! i)"
  shows "release_run i s"
proof -
  note step = native_step.open_native [OF assms(2) refl assms(3), of None None]
  show ?thesis
    using assms(2,4) native_inv_step [OF step assms(1)]
    by (intro release_runI [OF step], simp, intro release_from_checked) auto
qed

lemma release_abandoned:
  assumes "native_inv s" "i < length (nv_opens s)" "op_abandoned (nv_opens s ! i)"
  shows "release_run i s"
proof (cases "holds_lease (nv_opens s ! i)")
  case True
  with nth_inv [OF assms(1,2)] assms(3) obtain d e where
    "op_worker (nv_opens s ! i) \<in> {OpenNative, OpenChecked d e, OpenClose d e, OpenRelease e}"
    by (cases "op_worker (nv_opens s ! i)") (auto simp: holds_lease_def worker_inv_def split: option.splits)
  with assms show ?thesis
    using release_from_native release_from_checked release_from_close release_from_release by blast
qed (rule release_run_end [OF assms(1,2)])

text \<open>The steps of a connection are steps of the system.\<close>

lemma connection_run:
  "conn_step\<^sup>*\<^sup>* cs cs' \<Longrightarrow> i < length (nv_opens s) \<Longrightarrow> op_conn (nv_opens s ! i) = Some cs \<Longrightarrow>
     \<exists>s'. native_step\<^sup>*\<^sup>* s s' \<and> nv_opens s' = (nv_opens s)[i := (nv_opens s ! i)\<lparr>op_conn := Some cs'\<rparr>]"
proof (induction rule: rtranclp_induct)
  case base
  then have "nv_opens s = (nv_opens s)[i := (nv_opens s ! i)\<lparr>op_conn := Some cs\<rparr>]"
    by (metis (mono_tags, lifting) list_update_id open_call.surjective open_call.update_convs(6))
  then show ?case by blast
next
  case (step y z)
  then obtain s1 where s1: "native_step\<^sup>*\<^sup>* s s1" "nv_opens s1 = (nv_opens s)[i := (nv_opens s ! i)\<lparr>op_conn := Some y\<rparr>]"
    by blast
  then have "i < length (nv_opens s1)" "op_conn (nv_opens s1 ! i) = Some y" using step by simp_all
  note next_step = native_step.open_connection [OF this(1) refl this(2) step(2)]
  show ?case
    by (rule exI, rule conjI, rule rtranclp.rtrancl_into_rtrancl [OF s1(1) next_step]) (use s1(2) step(4) in simp)
qed

lemma release_retired:
  assumes inv: "native_inv s" "i < length (nv_opens s)" and cs: "op_conn (nv_opens s ! i) = Some cs" "cn_retiring (sy_conn cs)"
  shows "release_run i s"
proof -
  have w: "worker_inv (nv_opens s ! i)" "life_inv cs"
    using nth_inv [OF inv] cs(1) by (auto simp: worker_inv_def split: open_worker.splits)
  obtain cs' where run: "conn_step\<^sup>*\<^sup>* cs cs'" "sy_cleanup cs' = CleanDone" using retired_finishes [OF w(2) cs(2)] by blast
  have life: "life_inv cs'" using run(1) w(2) by (induction rule: rtranclp_induct) (auto intro: life_inv_step)
  from connection_run [OF run(1) inv(2) cs(1)] obtain s' where
    s': "native_step\<^sup>*\<^sup>* s s'" "nv_opens s' = (nv_opens s)[i := (nv_opens s ! i)\<lparr>op_conn := Some cs'\<rparr>]" by blast
  have "op_worker (nv_opens s ! i) = OpenDone" using w(1) cs(1) by (auto simp: worker_inv_def split: open_worker.splits)
  then have "worker_inv ((nv_opens s ! i)\<lparr>op_conn := Some cs'\<rparr>)" "\<not> holds_lease ((nv_opens s ! i)\<lparr>op_conn := Some cs'\<rparr>)"
    using life run(2) w cs(1) by (auto simp: worker_inv_def holds_lease_def life_inv_def)
  with s' show ?thesis unfolding release_run_def by blast
qed

lemma released_endpoint:
  assumes "native_inv s" "native_inv s'" "i < length (nv_opens s)" "holds_lease (nv_opens s ! i)"
    "nv_opens s' = (nv_opens s)[i := c]" "\<not> holds_lease c"
  shows "op_id (nv_opens s ! i) \<notin> set (rc_endpoints (nv_shared s'))"
proof -
  have "distinct (leases (nv_opens s))" using assms(1)
    by (auto simp: native_inv_def resource_inv_def dest: mset_eq_imp_distinct_iff)
  moreover have "mset (op_id (nv_opens s ! i) # leases (nv_opens s')) = mset (leases (nv_opens s))"
    using leases_release [OF assms(3,4,6)] assms(5) by simp
  ultimately have "op_id (nv_opens s ! i) \<notin> set (leases (nv_opens s'))"
    using mset_eq_imp_distinct_iff by fastforce
  moreover have "mset (leases (nv_opens s')) = mset (rc_endpoints (nv_shared s'))" using assms(2) by (simp add: native_inv_def)
  ultimately show ?thesis using mset_eq_setD by blast
qed

subsection \<open>Properties\<close>

text \<open>C5. Endpoint exclusion across the process: in every interleaving of opens, enumerations, cancellations and
  connections, of all backend values together, two calls never have a native handle of the same endpoint
  open (or being opened) at the same time, at most 64 handles are open, and at most one inventory
  runs in the driver.\<close>

theorem native_exclusion:
  assumes "native_reachable s"
  shows "(\<forall>i < length (nv_opens s). \<forall>j < length (nv_opens s).
      i \<noteq> j \<and> handle_open (nv_opens s ! i) \<and> handle_open (nv_opens s ! j) \<longrightarrow> op_id (nv_opens s ! i) \<noteq> op_id (nv_opens s ! j)) \<and>
    length (filter handle_open (nv_opens s)) \<le> 64 \<and> length (filter holds_slot (nv_enums s)) \<le> 1"
proof -
  have inv: "native_inv s" by (rule native_reachable_inv [OF assms])
  have lease: "holds_lease c" if "c \<in> set (nv_opens s)" "handle_open c" for c
    using inv that handle_leased [of c] by (simp add: native_inv_def)
  have d: "distinct (leases (nv_opens s))" "length (leases (nv_opens s)) = length (rc_endpoints (nv_shared s))"
    using inv by (auto simp: native_inv_def resource_inv_def dest: mset_eq_imp_distinct_iff mset_eq_length)
  have "length (filter handle_open (nv_opens s)) \<le> length (filter holds_lease (nv_opens s))"
    using lease by (metis (no_types, lifting) filter_cong filter_filter length_filter_le)
  then have "length (filter handle_open (nv_opens s)) \<le> 64"
    using d(2) inv by (simp add: leases_def native_inv_def resource_inv_def maxConnections_def)
  moreover have "length (filter holds_slot (nv_enums s)) \<le> 1" using inv by (auto simp: native_inv_def)
  ultimately show ?thesis
    using distinct_filter_nth [OF d(1) [unfolded leases_def]] lease nth_mem by blast
qed

definition sample_native :: native_device where
  "sample_native = \<lparr>nd_endpoint = sample_endpoint ''a'' \<lparr>fd_Value = \<lparr>us_Page = 0xf1d0, us_ID = 1\<rparr>, fd_Known = True\<rparr>,
     nd_layout = \<lparr>rl_Input = \<lparr>rs_ID = 0, rs_Size = 64\<rparr>, rl_Output = \<lparr>rs_ID = 0, rs_Size = 64\<rparr>\<rparr>\<rparr>"

abbreviation sample_target :: endpoint where
  "sample_target \<equiv> nd_endpoint sample_native"

text \<open>An admitted call of \<open>Open\<close> for the sample endpoint, and the states of a run in which the caller gives up
  before the driver answers.\<close>

definition sample_opening :: native_sys where
  "sample_opening = native_start\<lparr>nv_shared := snd (reserveEndpoint ''a'' shared_init), nv_opens := [open_start sample_target]\<rparr>"

lemma sample_opening_step: "native_step native_start sample_opening"
proof -
  have "open_admit False None sample_target (nv_shared native_start) = (None, snd (reserveEndpoint ''a'' shared_init))"
    by (simp add: open_admit_def native_start_def reserveEndpoint_def shared_init_def sample_native_def sample_endpoint_def
        boundedEndpoint_def MaxMetadataSize_def maxConnections_def resource_consts)
  from native_step.open_admitted [OF this] show ?thesis by (simp add: sample_opening_def native_start_def)
qed

lemma sample_opening_reachable: "native_reachable sample_opening"
  unfolding native_reachable_def using sample_opening_step by blast

definition sample_abandoned :: native_sys where
  "sample_abandoned =
     set_open 0 (open_return (Some (Sentinel (SContext Canceled))) (open_start sample_target)) sample_opening"

lemma sample_abandoned_opens:
  "nv_opens sample_abandoned = [open_return (Some (Sentinel (SContext Canceled))) (open_start sample_target)]"
  by (simp add: sample_abandoned_def sample_opening_def)

lemma sample_abandoned_reachable: "native_reachable sample_abandoned"
proof -
  have "native_step sample_opening sample_abandoned"
    using native_step.open_returns [of 0 sample_opening "open_start sample_target" "Some (Sentinel (SContext Canceled))"]
    by (simp add: sample_abandoned_def sample_opening_def open_start_def)
  with sample_opening_reachable show ?thesis unfolding native_reachable_def by (rule rtranclp.rtrancl_into_rtrancl)
qed

theorem native_exclusion_witness:
  "native_reachable sample_opening \<and> handle_open (nv_opens sample_opening ! 0) \<and>
     length (filter handle_open (nv_opens sample_opening)) \<le> 64"
  using native_exclusion [OF sample_opening_reachable] sample_opening_reachable
  by (simp add: sample_opening_def handle_open_def open_start_def)

text \<open>C15. Ownership of an opened device: in every interleaving, a call of \<open>Open\<close> that returned a connection returned no
  error and its device is the one asked for (the metadata matches and both report sizes are between 1 and 4096);
  a call that returned an error returned no connection and never gets one; the worker closes a
  device at most once; and a worker that ended without a connection has closed the device it got and holds no lease.\<close>

theorem open_ownership:
  assumes "native_reachable s" "i < length (nv_opens s)" "c = nv_opens s ! i"
  shows "(case op_caller c of
       OpenWaits \<Rightarrow> True
     | OpenReturned got e \<Rightarrow>
         if got then e = None \<and> (\<exists>cs d. op_conn c = Some cs \<and> op_device c = Some d \<and> device_accepted (op_endpoint c) d)
         else e \<noteq> None \<and> op_conn c = None) \<and>
    op_closes c \<le> 1 \<and>
    (op_worker c = OpenDone \<and> op_conn c = None \<longrightarrow> \<not> holds_lease c \<and> op_closes c = (if op_device c = None then 0 else 1))"
  using nth_inv [OF native_reachable_inv [OF assms(1)] assms(2)] assms(3)
  by (auto simp: open_inv_defs holds_lease_def split: open_caller.splits open_worker.splits option.splits if_splits)

theorem open_ownership_witness:
  "native_reachable sample_abandoned \<and>
     op_caller (nv_opens sample_abandoned ! 0) = OpenReturned False (Some (operationError ''open'' ''a'' (Sentinel (SContext Canceled)))) \<and>
     op_conn (nv_opens sample_abandoned ! 0) = None \<and> op_closes (nv_opens sample_abandoned ! 0) \<le> 1"
  using open_ownership [OF sample_abandoned_reachable, of 0, OF _ refl] sample_abandoned_reachable
  by (simp add: sample_abandoned_opens open_return_def open_start_def sample_native_def sample_endpoint_def)



end
