(* ===== verification/ReportDesc.thy ===== *)
theory ReportDesc
  imports HidTypes
begin

text \<open>
  The HID report descriptor parser: \<open>pkg/hid/internal/reportdesc/parser.go\<close> and \<open>inventory.go\<close>. A descriptor is a
  stream of items of at most four data bytes; \<open>Parse\<close> interprets it strictly and computes report
  layouts, \<open>scanUsages\<close> only follows collection nesting and usages. The read position of the code is the
  remaining list of bytes here.
\<close>

subsection \<open>Data\<close>

record collection =
  cl_Index :: nat
  cl_Usage :: usage
  cl_Layout :: report_layout
  cl_Supported :: bool

record globals =
  gl_page :: u32
  gl_size :: u32
  gl_count :: u32
  gl_id :: u32

text \<open>The maps from report identifiers to bits are association lists in insertion order. Go iterates a
  map in any order; \<open>finish\<close> only depends on it for collections with several identifiers in a
  direction, which are unsupported.\<close>

record reports =
  rt_input :: "(byte \<times> u64) list"
  rt_output :: "(byte \<times> u64) list"
  rt_unsupported :: bool

record parser =
  pa_result :: "collection list"
  pa_reports :: "reports list"
  pa_global :: globals
  pa_stack :: "globals list"
  pa_collections :: "int list"
  pa_usages :: "u32 list"
  pa_minimum :: u32
  pa_hasMinimum :: bool
  pa_invalidLayout :: bool

definition invalid :: "string \<Rightarrow> err" where
  "invalid message =
     DriverError ''parse descriptor'' KindUnsupported [] 0 (''invalid or unsupported HID descriptor: '' @ message) None"

definition MaxDescriptorSize :: nat where "MaxDescriptorSize = 65536"

definition zero_layout :: report_layout where
  "zero_layout = \<lparr>rl_Input = \<lparr>rs_ID = 0, rs_Size = 0\<rparr>, rl_Output = \<lparr>rs_ID = 0, rs_Size = 0\<rparr>\<rparr>"

definition parser_init :: parser where
  "parser_init =
     \<lparr>pa_result = [], pa_reports = [], pa_global = \<lparr>gl_page = 0, gl_size = 0, gl_count = 0, gl_id = 0\<rparr>,
      pa_stack = [], pa_collections = [], pa_usages = [], pa_minimum = 0, pa_hasMinimum = False,
      pa_invalidLayout = False\<rparr>"

subsection \<open>Items\<close>

text \<open>The size of an item's data from the low bits of its prefix, and its little-endian value.\<close>

definition item_size :: "byte \<Rightarrow> nat" where
  "item_size prefix = (let size = unat (prefix AND 3) in if size = 3 then 4 else size)"

fun item_value :: "bytes \<Rightarrow> nat \<Rightarrow> u32" where
  "item_value [] i = 0"
| "item_value (b # bs) i = push_bit (8 * i) (ucast b) OR item_value bs (Suc i)"

definition globalItem :: "byte \<Rightarrow> u32 \<Rightarrow> parser \<Rightarrow> parser res" where
  "globalItem tag value p =
     (if tag = 0 then
        if value > 0xffff then Inl (invalid ''usage page exceeds 16 bits'')
        else Inr (p\<lparr>pa_global := (pa_global p)\<lparr>gl_page := value\<rparr>\<rparr>)
      else if tag = 7 then Inr (p\<lparr>pa_global := (pa_global p)\<lparr>gl_size := value\<rparr>\<rparr>)
      else if tag = 8 then
        if value > 255 then Inl (invalid ''invalid report ID'')
        else Inr (p\<lparr>pa_invalidLayout := (if value = 0 then True else pa_invalidLayout p),
                    pa_global := (pa_global p)\<lparr>gl_id := value\<rparr>\<rparr>)
      else if tag = 9 then Inr (p\<lparr>pa_global := (pa_global p)\<lparr>gl_count := value\<rparr>\<rparr>)
      else if tag = 10 then
        if length (pa_stack p) = 32 then Inl (invalid ''global stack depth'')
        else Inr (p\<lparr>pa_stack := pa_stack p @ [pa_global p]\<rparr>)
      else if tag = 11 then
        if pa_stack p = [] then Inl (invalid ''global stack underflow'')
        else Inr (p\<lparr>pa_global := last (pa_stack p), pa_stack := butlast (pa_stack p)\<rparr>)
      else Inr p)"

text \<open>The deferred reset of local items in \<open>main\<close>; it leaves \<open>minimum\<close> as it is.\<close>

definition reset_locals :: "parser \<Rightarrow> parser" where
  "reset_locals p = p\<lparr>pa_usages := [], pa_hasMinimum := False\<rparr>"

definition current_collection :: "parser \<Rightarrow> int" where
  "current_collection p = (if pa_collections p \<noteq> [] then last (pa_collections p) else - 1)"

definition main_collection :: "u32 \<Rightarrow> parser \<Rightarrow> parser res" where
  "main_collection value p =
     (if length (pa_collections p) = 32 then Inl (invalid ''collection depth'')
      else if pa_collections p = [] \<and> value = 1 then
        if length (pa_result p) = 256 then Inl (invalid ''too many collections'')
        else
          let usage = (if pa_usages p \<noteq> [] then hd (pa_usages p) else pa_minimum p);
              page = (if usage > 0xffff then drop_bit 16 usage else gl_page (pa_global p));
              current = length (pa_result p)
          in Inr (p\<lparr>pa_result := pa_result p @
                 [\<lparr>cl_Index = current, cl_Usage = \<lparr>us_Page = ucast page, us_ID = ucast usage\<rparr>,
                   cl_Layout = zero_layout, cl_Supported = False\<rparr>],
               pa_reports := pa_reports p @ [\<lparr>rt_input = [], rt_output = [], rt_unsupported = False\<rparr>],
               pa_collections := pa_collections p @ [int current]\<rparr>)
      else Inr (p\<lparr>pa_collections := pa_collections p @ [current_collection p]\<rparr>))"

definition bits_limit :: u64 where "bits_limit = 4096 * 8"

text \<open>\<open>target[id] += bits\<close> on a Go map, a missing entry counting as zero.\<close>

definition bits_of :: "(byte \<times> u64) list \<Rightarrow> byte \<Rightarrow> u64" where
  "bits_of target i = (case map_of target i of Some b \<Rightarrow> b | None \<Rightarrow> 0)"

fun add_bits :: "(byte \<times> u64) list \<Rightarrow> byte \<Rightarrow> u64 \<Rightarrow> (byte \<times> u64) list" where
  "add_bits [] i bits = [(i, bits)]"
| "add_bits ((k, b) # target) i bits = (if k = i then (k, b + bits) # target else (k, b) # add_bits target i bits)"

text \<open>Adding \<open>bits\<close> to the report of identifier \<open>i\<close>, in the direction given by the tag.\<close>

definition add_report :: "byte \<Rightarrow> byte \<Rightarrow> u64 \<Rightarrow> reports \<Rightarrow> reports res" where
  "add_report tag i bits r =
     (let target = (if tag = 9 then rt_output r else rt_input r) in
      if bits_of target i > bits_limit - bits then Inl (invalid ''report exceeds size limit'')
      else if tag = 9 then Inr (r\<lparr>rt_output := add_bits target i bits\<rparr>)
      else Inr (r\<lparr>rt_input := add_bits target i bits\<rparr>))"

text \<open>The Input (8), Output (9) and Feature (11) items; \<open>p.reports[current]\<close> would panic out of range.\<close>

definition main_report :: "byte \<Rightarrow> parser \<Rightarrow> parser res" where
  "main_report tag p =
     (let bits = ucast (gl_size (pa_global p)) * ucast (gl_count (pa_global p)) :: u64;
          current = current_collection p
      in if bits > bits_limit then Inl (invalid ''report exceeds size limit'')
         else if current < 0 then Inl (invalid ''report outside Application collection'')
         else if tag = 11 then Inr p
         else if length (pa_reports p) \<le> nat current then Inl GoPanic
         else andThen (add_report tag (ucast (gl_id (pa_global p))) bits (pa_reports p ! nat current)) (\<lambda>r.
           Inr (p\<lparr>pa_reports := (pa_reports p)[nat current := r]\<rparr>)))"

definition main_item :: "byte \<Rightarrow> u32 \<Rightarrow> parser \<Rightarrow> parser res" where
  "main_item tag value p =
     andThen
       (if tag = 10 then main_collection value p
        else if tag = 12 then
          (if pa_collections p = [] then Inl (invalid ''collection underflow'')
           else Inr (p\<lparr>pa_collections := butlast (pa_collections p)\<rparr>))
        else if tag \<in> {8, 9, 11} then main_report tag p
        else Inr p)
       (\<lambda>p'. Inr (reset_locals p'))"

definition local_item :: "byte \<Rightarrow> u32 \<Rightarrow> parser \<Rightarrow> parser res" where
  "local_item tag value p =
     (if tag = 0 then
        if length (pa_usages p) \<ge> 1024 then Inl (invalid ''too many local usages'')
        else Inr (p\<lparr>pa_usages := pa_usages p @ [value]\<rparr>)
      else if tag = 1 then Inr (p\<lparr>pa_minimum := value, pa_hasMinimum := True\<rparr>)
      else if tag = 2 then
        if \<not> pa_hasMinimum p \<or> value < pa_minimum p then Inl (invalid ''invalid usage range'') else Inr p
      else if tag = 10 then Inl (invalid ''usage delimiters unsupported'')
      else Inr p)"

definition parse_item :: "byte \<Rightarrow> u32 \<Rightarrow> parser \<Rightarrow> parser res" where
  "parse_item prefix value p =
     (let kind = drop_bit 2 prefix AND 3; tag = drop_bit 4 prefix in
      if kind = 0 then main_item tag value p
      else if kind = 1 then globalItem tag value p
      else if kind = 2 then local_item tag value p
      else Inl (invalid ''reserved item type''))"

function parse_loop :: "parser \<Rightarrow> bytes \<Rightarrow> parser res" where
  "parse_loop p [] = Inr p"
| "parse_loop p (prefix # rest) =
     (if prefix = 0xfe then Inl (invalid ''long item unsupported'')
      else if item_size prefix > length rest then Inl (invalid ''truncated item'')
      else andThen (parse_item prefix (item_value (take (item_size prefix) rest) 0) p)
        (\<lambda>p'. parse_loop p' (drop (item_size prefix) rest)))"
  by pat_completeness auto
termination
  by (relation "measure (\<lambda>(p, bs). length bs)") auto

subsection \<open>Layouts\<close>

text \<open>One report identifier of collection \<open>i\<close> in one direction: sharing marks both owners as
  unsupported.\<close>

definition mark :: "nat \<Rightarrow> reports list \<Rightarrow> reports list" where
  "mark i rs = rs[i := (rs ! i)\<lparr>rt_unsupported := True\<rparr>]"

definition claim :: "nat \<Rightarrow> byte \<Rightarrow> (byte \<times> nat) list \<times> reports list \<Rightarrow> (byte \<times> nat) list \<times> reports list" where
  "claim i k st =
     (let (owners, rs) = st in
      case map_of owners k of
        Some owner \<Rightarrow> (owners, mark i (mark owner rs))
      | None \<Rightarrow> (owners @ [(k, i)], rs))"

definition spec_of :: "byte \<Rightarrow> u64 \<Rightarrow> report_spec" where
  "spec_of k bits = \<lparr>rs_ID = k, rs_Size = int (unat ((bits + 7) div 8))\<rparr>"

definition collection_layout :: "bool \<Rightarrow> reports \<Rightarrow> collection \<Rightarrow> collection" where
  "collection_layout invalidLayout r c =
     (let c1 = c\<lparr>cl_Supported := \<not> invalidLayout \<and> length (rt_input r) = 1 \<and> length (rt_output r) = 1\<rparr>;
          c2 = fold (\<lambda>(k, bits) c. c\<lparr>cl_Layout := (cl_Layout c)\<lparr>rl_Input := spec_of k bits\<rparr>,
                      cl_Supported := cl_Supported c \<and> bits \<noteq> 0\<rparr>) (rt_input r) c1
      in fold (\<lambda>(k, bits) c. c\<lparr>cl_Layout := (cl_Layout c)\<lparr>rl_Output := spec_of k bits\<rparr>,
                      cl_Supported := cl_Supported c \<and> bits \<noteq> 0\<rparr>) (rt_output r) c2)"

text \<open>The first loop of \<open>finish\<close> for the collections \<open>i, i+1, ...\<close>: owners of input and of output
  identifiers, and the reports with their marks. The reports' maps do not change here.\<close>

fun claim_loop ::
  "nat list \<Rightarrow> (byte \<times> nat) list \<times> (byte \<times> nat) list \<times> reports list \<Rightarrow>
   (byte \<times> nat) list \<times> (byte \<times> nat) list \<times> reports list" where
  "claim_loop [] st = st"
| "claim_loop (i # is) (ins, outs, rs) =
     (let (ins', rs1) = fold (claim i) (map fst (rt_input (rs ! i))) (ins, rs);
          (outs', rs2) = fold (claim i) (map fst (rt_output (rs1 ! i))) (outs, rs1)
      in claim_loop is (ins', outs', rs2))"

definition mixed_ids :: "(byte \<times> nat) list \<Rightarrow> (byte \<times> nat) list \<Rightarrow> reports \<Rightarrow> bool" where
  "mixed_ids ins outs r \<longleftrightarrow>
     map_of ins 0 \<noteq> None \<and> length ins > 1 \<and> length (rt_input r) > 0 \<or>
     map_of outs 0 \<noteq> None \<and> length outs > 1 \<and> length (rt_output r) > 0"

definition finish :: "parser \<Rightarrow> collection list" where
  "finish p =
     (case claim_loop [0..<length (pa_reports p)] ([], [], pa_reports p) of (ins, outs, rs) \<Rightarrow>
        map (\<lambda>(r, c). let c' = collection_layout (pa_invalidLayout p) r c in
               if rt_unsupported r \<or> mixed_ids ins outs r then c'\<lparr>cl_Supported := False\<rparr> else c')
          (zip rs (pa_result p)))"

definition Parse :: "bytes \<Rightarrow> collection list res" where
  "Parse data =
     (if data = [] \<or> length data > MaxDescriptorSize then Inl (invalid ''descriptor size'')
      else andThen (parse_loop parser_init data) (\<lambda>p.
        if pa_collections p \<noteq> [] \<or> pa_stack p \<noteq> [] then Inl (invalid ''unbalanced descriptor'')
        else Inr (finish p)))"

subsection \<open>The usage scan\<close>

record scanner =
  sc_result :: "collection list"
  sc_page :: u32
  sc_stack :: "u32 list"
  sc_usages :: nat
  sc_first :: u32
  sc_minimum :: u32
  sc_hasMin :: bool
  sc_depth :: nat

definition scan_init :: scanner where
  "scan_init =
     \<lparr>sc_result = [], sc_page = 0, sc_stack = [], sc_usages = 0, sc_first = 0, sc_minimum = 0, sc_hasMin = False,
      sc_depth = 0\<rparr>"

definition scan_main :: "byte \<Rightarrow> u32 \<Rightarrow> scanner \<Rightarrow> scanner res" where
  "scan_main tag value s =
     andThen
       (if tag = 10 then
          andThen
            (if sc_depth s = 0 \<and> value = 1 then
               if length (sc_result s) = 256 then Inl (invalid ''too many collections'')
               else
                 let usage = (if sc_usages s \<noteq> 0 \<or> \<not> sc_hasMin s then sc_first s else sc_minimum s);
                     page = (if usage > 0xffff then drop_bit 16 usage else sc_page s AND 0xffff)
                 in Inr (s\<lparr>sc_result := sc_result s @
                        [\<lparr>cl_Index = length (sc_result s), cl_Usage = \<lparr>us_Page = ucast page, us_ID = ucast usage\<rparr>,
                          cl_Layout = zero_layout, cl_Supported = False\<rparr>]\<rparr>)
             else Inr s)
            (\<lambda>s'. Inr (s'\<lparr>sc_depth := sc_depth s' + 1\<rparr>))
        else if tag = 12 then Inr (s\<lparr>sc_depth := sc_depth s - 1\<rparr>)
        else Inr s)
       (\<lambda>s'. Inr (s'\<lparr>sc_usages := 0, sc_hasMin := False\<rparr>))"

definition scan_item :: "byte \<Rightarrow> u32 \<Rightarrow> scanner \<Rightarrow> scanner res" where
  "scan_item prefix value s =
     (let kind = drop_bit 2 prefix AND 3; tag = drop_bit 4 prefix in
      if kind = 0 then scan_main tag value s
      else if kind = 1 then
        (if tag = 0 then Inr (s\<lparr>sc_page := value\<rparr>)
         else if tag = 10 then
           Inr (if length (sc_stack s) < 32 then s\<lparr>sc_stack := sc_stack s @ [sc_page s]\<rparr> else s)
         else if tag = 11 then
           Inr (if sc_stack s \<noteq> [] then s\<lparr>sc_page := last (sc_stack s), sc_stack := butlast (sc_stack s)\<rparr> else s)
         else Inr s)
      else if kind = 2 then
        (if tag = 0 then
           Inr (s\<lparr>sc_first := (if sc_usages s = 0 then value else sc_first s), sc_usages := sc_usages s + 1\<rparr>)
         else if tag = 1 then Inr (s\<lparr>sc_minimum := value, sc_hasMin := True\<rparr>)
         else Inr s)
      else Inr s)"

function scan_loop :: "scanner \<Rightarrow> bytes \<Rightarrow> scanner res" where
  "scan_loop s [] = Inr s"
| "scan_loop s (prefix # rest) =
     (if prefix = 0xfe then
        if length rest < 2 then Inl (invalid ''truncated long item'')
        else if unat (rest ! 0) > length rest - 2 then Inl (invalid ''truncated long item'')
        else scan_loop s (drop (2 + unat (rest ! 0)) rest)
      else if item_size prefix > length rest then Inl (invalid ''truncated item'')
      else andThen (scan_item prefix (item_value (take (item_size prefix) rest) 0) s)
        (\<lambda>s'. scan_loop s' (drop (item_size prefix) rest)))"
  by pat_completeness auto
termination
  by (relation "measure (\<lambda>(s, bs). length bs)") auto

definition scanUsages :: "bytes \<Rightarrow> collection list res" where
  "scanUsages data =
     (if data = [] \<or> length data > MaxDescriptorSize then Inl (invalid ''descriptor size'')
      else andThen (scan_loop scan_init data) (\<lambda>s. Inr (sc_result s)))"

text \<open>\<open>Inventory\<close> returns a description and the layout error.\<close>

definition Inventory :: "bytes \<Rightarrow> collection list \<times> err option" where
  "Inventory data =
     (case Parse data of
        Inr desc \<Rightarrow> (desc, None)
      | Inl e \<Rightarrow>
          (case scanUsages data of
             Inl _ \<Rightarrow> ([], Some e)
           | Inr fallback \<Rightarrow> if fallback = [] then ([], Some e) else (fallback, Some e)))"

subsection \<open>Parser invariant\<close>

definition bits_ok :: "(byte \<times> u64) list \<Rightarrow> bool" where
  "bits_ok target \<longleftrightarrow> distinct (map fst target) \<and> (\<forall>(k, b) \<in> set target. b \<le> bits_limit)"

definition reports_ok :: "reports \<Rightarrow> bool" where
  "reports_ok r \<longleftrightarrow> bits_ok (rt_input r) \<and> bits_ok (rt_output r) \<and> \<not> rt_unsupported r"

definition parser_inv :: "parser \<Rightarrow> bool" where
  "parser_inv p \<longleftrightarrow>
     length (pa_reports p) = length (pa_result p) \<and> length (pa_result p) \<le> 256 \<and>
     map cl_Index (pa_result p) = [0..<length (pa_result p)] \<and>
     length (pa_stack p) \<le> 32 \<and> length (pa_collections p) \<le> 32 \<and> length (pa_usages p) \<le> 1024 \<and>
     (\<forall>c \<in> set (pa_collections p). - 1 \<le> c \<and> c < int (length (pa_reports p))) \<and>
     (\<forall>r \<in> set (pa_reports p). reports_ok r)"

lemma parser_inv_init: "parser_inv parser_init"
  by (simp add: parser_inv_def parser_init_def)

lemma add_bits_sum:
  fixes b bits :: u64
  assumes "bits \<le> bits_limit" "\<not> b > bits_limit - bits"
  shows "b + bits \<le> bits_limit"
proof -
  have l: "unat bits_limit = 32768" by (simp add: bits_limit_def)
  have "unat (bits_limit - bits) = 32768 - unat bits"
    using assms(1) l by (simp add: unat_sub)
  then have "unat b + unat bits \<le> 32768"
    using assms l by (simp add: word_le_nat_alt not_less)
  then have "unat (b + bits) = unat b + unat bits" by (intro unat_plus_simple [THEN iffD1] unat_add_lem [THEN iffD1]) simp
  with \<open>unat b + unat bits \<le> 32768\<close> l show ?thesis by (simp add: word_le_nat_alt)
qed

lemma fst_add_bits: "fst ` set (add_bits t i bits) = insert i (fst ` set t)"
  by (induction t i bits rule: add_bits.induct) auto

lemma bits_ok_add:
  assumes "bits_ok t" "bits \<le> bits_limit" "\<not> bits_of t i > bits_limit - bits"
  shows "bits_ok (add_bits t i bits)"
  using assms
proof (induction t i bits rule: add_bits.induct)
  case (1 i bits)
  then show ?case by (simp add: bits_ok_def)
next
  case (2 k b t i bits)
  show ?case
  proof (cases "k = i")
    case True
    then have "b + bits \<le> bits_limit" using 2 by (intro add_bits_sum) (simp_all add: bits_of_def)
    with 2 True show ?thesis by (auto simp: bits_ok_def)
  next
    case False
    then have "bits_ok (add_bits t i bits)" using 2 by (auto simp: bits_ok_def bits_of_def)
    moreover have "k \<notin> fst ` set (add_bits t i bits)" "b \<le> bits_limit"
      using 2(2) False by (auto simp: fst_add_bits bits_ok_def)
    ultimately show ?thesis using False by (simp add: bits_ok_def)
  qed
qed

lemma current_collection_bounds:
  "parser_inv p \<Longrightarrow> - 1 \<le> current_collection p \<and> current_collection p < int (length (pa_reports p))"
  by (auto simp: parser_inv_def current_collection_def)

lemma main_collection_inv:
  assumes inv: "parser_inv p" and q: "main_collection v p = Inr q"
  shows "parser_inv q"
proof (cases "pa_collections p = [] \<and> v = 1")
  case True
  let ?new = "\<lparr>rt_input = [], rt_output = [], rt_unsupported = False\<rparr>"
  from q True obtain u where r: "length (pa_result p) \<noteq> 256"
    "pa_result q = pa_result p @ [\<lparr>cl_Index = length (pa_result p), cl_Usage = u, cl_Layout = zero_layout, cl_Supported = False\<rparr>]"
    "pa_reports q = pa_reports p @ [?new]" "pa_collections q = [int (length (pa_result p))]"
    "pa_stack q = pa_stack p" "pa_usages q = pa_usages p"
    by (auto simp: main_collection_def Let_def split: if_splits)
  have "reports_ok ?new" by (simp add: reports_ok_def bits_ok_def)
  with inv r show ?thesis by (auto simp: parser_inv_def)
next
  case False
  with q have r: "length (pa_collections p) \<noteq> 32" "q = p\<lparr>pa_collections := pa_collections p @ [current_collection p]\<rparr>"
    by (auto simp: main_collection_def split: if_splits)
  with inv current_collection_bounds [OF inv] show ?thesis by (auto simp: parser_inv_def)
qed

lemma add_report_ok:
  "reports_ok r \<Longrightarrow> bits \<le> bits_limit \<Longrightarrow> add_report tag i bits r = Inr r' \<Longrightarrow> reports_ok r'"
  by (auto simp: add_report_def reports_ok_def Let_def split: if_splits intro!: bits_ok_add)

lemma main_report_inv:
  assumes "parser_inv p" "main_report tag p = Inr q"
  shows "parser_inv q"
proof (cases "q = p")
  case False
  with assms(2) obtain r bits i where r: "nat (current_collection p) < length (pa_reports p)" "bits \<le> bits_limit"
    "add_report tag i bits (pa_reports p ! nat (current_collection p)) = Inr r"
    "q = p\<lparr>pa_reports := (pa_reports p)[nat (current_collection p) := r]\<rparr>"
    by (fastforce simp: main_report_def Let_def andThen_Inr_conv not_less split: if_splits)
  have "reports_ok (pa_reports p ! nat (current_collection p))" using assms(1) r(1) by (simp add: parser_inv_def)
  from add_report_ok [OF this r(2,3)] assms(1) r(4) show ?thesis
    by (auto simp: parser_inv_def dest!: set_update_subset_insert [THEN subsetD])
qed (use assms in simp)

lemma main_report_safe: "parser_inv p \<Longrightarrow> main_report tag p \<noteq> Inl GoPanic"
  using current_collection_bounds [of p]
  by (auto simp: main_report_def add_report_def invalid_def andThen_Inl_conv Let_def split: if_splits)

lemma parse_item_inv:
  assumes "parser_inv p"
  shows "parse_item prefix value p \<noteq> Inl GoPanic" and "parse_item prefix value p = Inr p' \<Longrightarrow> parser_inv p'"
proof -
  have reset: "parser_inv (reset_locals q)" if "parser_inv q" for q
    using that by (auto simp: parser_inv_def reset_locals_def)
  have "main_item tag v p \<noteq> Inl GoPanic" for tag v
    using main_report_safe [OF assms, of tag]
    by (auto simp: main_item_def main_collection_def invalid_def andThen_Inl_conv Let_def split: if_splits)
  then show "parse_item prefix value p \<noteq> Inl GoPanic"
    by (auto simp: parse_item_def Let_def globalItem_def local_item_def invalid_def)
  have pop: "parser_inv (p\<lparr>pa_collections := butlast (pa_collections p)\<rparr>)"
    using assms by (auto simp: parser_inv_def dest: in_set_butlastD)
  have main: "parser_inv q" if "main_item tag v p = Inr q" for tag v q
    using that assms pop main_collection_inv [OF assms] main_report_inv [OF assms]
    by (auto simp: main_item_def andThen_Inr_conv split: if_splits intro!: reset)
  have glob: "parser_inv q" if "globalItem tag v p = Inr q" for tag v q
    using that assms by (auto simp: globalItem_def parser_inv_def split: if_splits)
  have loc: "parser_inv q" if "local_item tag v p = Inr q" for tag v q
    using that assms by (auto simp: local_item_def parser_inv_def split: if_splits)
  show "parse_item prefix value p = Inr p' \<Longrightarrow> parser_inv p'"
    using main glob loc by (auto simp: parse_item_def Let_def split: if_splits)
qed

lemma parse_loop_inv:
  assumes "parser_inv p"
  shows "parse_loop p bs \<noteq> Inl GoPanic \<and> (\<forall>p'. parse_loop p bs = Inr p' \<longrightarrow> parser_inv p')"
  using assms
proof (induction p bs rule: parse_loop.induct)
  case (2 p prefix rest)
  let ?v = "item_value (take (item_size prefix) rest) 0"
  show ?case
  proof (cases "parse_item prefix ?v p")
    case (Inl e)
    with parse_item_inv(1) [OF 2(2), of prefix ?v] show ?thesis by (auto simp: invalid_def)
  next
    case (Inr q)
    with 2 parse_item_inv(2) [OF 2(2) Inr] show ?thesis by (auto simp: invalid_def)
  qed
qed simp

subsection \<open>Owners of report identifiers\<close>

text \<open>\<open>marked rs rs'\<close>: the same reports with possibly more of them marked as unsupported.\<close>

definition marked :: "reports list \<Rightarrow> reports list \<Rightarrow> bool" where
  "marked rs rs' \<longleftrightarrow> length rs' = length rs \<and>
     (\<forall>i < length rs. rt_input (rs' ! i) = rt_input (rs ! i) \<and> rt_output (rs' ! i) = rt_output (rs ! i) \<and>
        (rt_unsupported (rs ! i) \<longrightarrow> rt_unsupported (rs' ! i)))"

lemma marked_refl [simp]: "marked rs rs"
  by (simp add: marked_def)

lemma marked_trans: "marked a b \<Longrightarrow> marked b c \<Longrightarrow> marked a c"
  by (auto simp: marked_def)

lemma marked_mark [simp]: "marked rs (mark i rs)"
  unfolding marked_def
proof (intro conjI allI impI, goal_cases)
  case (2 j)
  then show ?case by (cases "i = j") (simp_all add: mark_def)
next
  case (3 j)
  then show ?case by (cases "i = j") (simp_all add: mark_def)
next
  case (4 j)
  then show ?case by (cases "i = j") (simp_all add: mark_def)
qed (simp add: mark_def)

lemma mark_unsupported: "j < length rs \<Longrightarrow> rt_unsupported (mark i rs ! j) \<longleftrightarrow> i = j \<or> rt_unsupported (rs ! j)"
  by (cases "i = j") (simp_all add: mark_def)

lemma length_mark [simp]: "length (mark i rs) = length rs"
  by (simp add: mark_def)

text \<open>The identifiers \<open>S\<close> claimed so far (pairs of collection and identifier): each has an owner, and
  identifiers claimed twice have marked all their collections.\<close>

definition claims :: "(nat \<times> byte) set \<Rightarrow> (byte \<times> nat) list \<Rightarrow> reports list \<Rightarrow> bool" where
  "claims S owners rs \<longleftrightarrow>
     (\<forall>(i, x) \<in> S. i < length rs) \<and> distinct (map fst owners) \<and> fst ` set owners = snd ` S \<and>
     (\<forall>x ow. map_of owners x = Some ow \<longrightarrow> (ow, x) \<in> S) \<and>
     (\<forall>i x. (i, x) \<in> S \<longrightarrow> map_of owners x = Some i \<or> rt_unsupported (rs ! i)) \<and>
     (\<forall>i j x. (i, x) \<in> S \<longrightarrow> (j, x) \<in> S \<longrightarrow> i \<noteq> j \<longrightarrow> rt_unsupported (rs ! i) \<and> rt_unsupported (rs ! j))"

lemma claims_empty: "claims {} [] rs"
  by (simp add: claims_def)

lemma claimsD:
  assumes "claims S owners rs"
  shows "(i, x) \<in> S \<Longrightarrow> i < length rs" and "distinct (map fst owners)" and "fst ` set owners = snd ` S"
    and "map_of owners x = Some ow \<Longrightarrow> (ow, x) \<in> S"
    and "(i, x) \<in> S \<Longrightarrow> map_of owners x = Some i \<or> rt_unsupported (rs ! i)"
    and "(i, x) \<in> S \<Longrightarrow> (j, x) \<in> S \<Longrightarrow> i \<noteq> j \<Longrightarrow> rt_unsupported (rs ! i)"
  using assms unfolding claims_def by blast+

lemma claimsI:
  assumes "\<And>i x. (i, x) \<in> S \<Longrightarrow> i < length rs" "distinct (map fst owners)" "fst ` set owners = snd ` S"
    and "\<And>x ow. map_of owners x = Some ow \<Longrightarrow> (ow, x) \<in> S"
    and "\<And>i x. (i, x) \<in> S \<Longrightarrow> map_of owners x = Some i \<or> rt_unsupported (rs ! i)"
    and "\<And>i j x. (i, x) \<in> S \<Longrightarrow> (j, x) \<in> S \<Longrightarrow> i \<noteq> j \<Longrightarrow> rt_unsupported (rs ! i)"
  shows "claims S owners rs"
  unfolding claims_def
proof (intro conjI allI impI ballI, goal_cases)
  case (1 z)
  then show ?case using assms(1) by (cases z) simp
next
  case (7 i j x)
  then show ?case using assms(6) [of j x i] by simp
qed (use assms in auto)

lemma claims_marked:
  assumes "claims S owners rs" "marked rs rs'"
  shows "claims S owners rs'"
proof -
  note d = claimsD [OF assms(1)]
  have len: "length rs' = length rs" and u: "(i, x) \<in> S \<Longrightarrow> rt_unsupported (rs ! i) \<Longrightarrow> rt_unsupported (rs' ! i)" for i x
    using assms(2) d(1) [of i x] by (auto simp: marked_def)
  show ?thesis
  proof (rule claimsI, goal_cases)
    case (1 i x)
    then show ?case using d(1) len by simp
  next
    case (5 i x)
    then show ?case using d(5) u by blast
  next
    case (6 i j x)
    then show ?case using d(6) u by blast
  qed (use d(2-4) in blast)+
qed

lemma claim_step:
  assumes S: "claims S owners rs" and k: "k < length rs" and c: "claim k x (owners, rs) = (owners', rs')"
  shows "claims (insert (k, x) S) owners' rs' \<and> marked rs rs'"
proof (cases "map_of owners x")
  case None
  then have new: "x \<notin> snd ` S" using S by (auto simp: claims_def map_of_eq_None_iff)
  have c': "owners' = owners @ [(x, k)]" "rs' = rs" using c None by (auto simp: claim_def)
  have mo: "map_of owners' y = (if y = x then Some k else map_of owners y)" for y
    using None c' by (auto simp: map_add_def split: option.splits)
  have fresh: "(i, x) \<notin> S" for i using new by force
  note d = claimsD [OF S]
  have "claims (insert (k, x) S) owners' rs"
  proof (rule claimsI, goal_cases)
    case 2
    show ?case using d(2,3) c' new by simp
  next
    case 3
    show ?case using d(3) c' by auto
  next
    case (4 y ow)
    then show ?case using mo d(4) by (auto split: if_splits)
  next
    case (5 i y)
    then show ?case using mo d(5) fresh by auto
  next
    case (6 i j y)
    then show ?case using d(6) fresh by auto
  qed (use d(1) k in auto)
  with c' show ?thesis by simp
next
  case (Some ow)
  then have c': "owners' = owners" "rs' = mark k (mark ow rs)" using c by (auto simp: claim_def)
  have ow: "(ow, x) \<in> S" "ow < length rs" using claimsD(1,4) [OF S] Some by blast+
  have m: "marked rs rs'" using c' marked_trans marked_mark by blast
  have u: "rt_unsupported (rs' ! k)" "rt_unsupported (rs' ! ow)" using c' k ow by (simp_all add: mark_unsupported)
  have old: "rt_unsupported (rs' ! i)" if "(i, x) \<in> S" for i
    using claimsD(1,6) [OF S that] ow(1) u(2) m that by (cases "i = ow") (auto simp: marked_def)
  note d = claimsD [OF claims_marked [OF S m]]
  have "length rs' = length rs" using m by (simp add: marked_def)
  moreover have "x \<in> snd ` S" using ow(1) by force
  moreover have "rt_unsupported (rs' ! i)" if "(i, y) \<in> insert (k, x) S" "(j, y) \<in> insert (k, x) S" "i \<noteq> j" for i j y
    using that u(1) old d(6) by auto
  moreover have "map_of owners y = Some i \<or> rt_unsupported (rs' ! i)" if "(i, y) \<in> insert (k, x) S" for i y
    using that u(1) d(5) by auto
  ultimately have "claims (insert (k, x) S) owners rs'"
    using k d(1-4) by (intro claimsI) (auto simp: insert_absorb)
  with c' m show ?thesis by simp
qed

lemma claim_fold:
  assumes "claims S owners rs" "k < length rs" "fold (claim k) xs (owners, rs) = (owners', rs')"
  shows "claims (S \<union> {k} \<times> set xs) owners' rs' \<and> marked rs rs'"
  using assms
proof (induction xs arbitrary: S owners rs)
  case (Cons x xs)
  obtain o1 rs1 where c: "claim k x (owners, rs) = (o1, rs1)" by fastforce
  from claim_step [OF Cons.prems(1,2) c] have s: "claims (insert (k, x) S) o1 rs1" "marked rs rs1" by auto
  moreover have "k < length rs1" using s(2) Cons.prems(2) by (simp add: marked_def)
  moreover have "fold (claim k) xs (o1, rs1) = (owners', rs')" using Cons.prems(3) c by simp
  ultimately have "claims (insert (k, x) S \<union> {k} \<times> set xs) owners' rs' \<and> marked rs1 rs'" by (intro Cons.IH) auto
  moreover have "insert (k, x) S \<union> {k} \<times> set xs = S \<union> {k} \<times> set (x # xs)" by auto
  ultimately show ?case using s(2) marked_trans by metis
qed simp

definition inputs_of :: "reports list \<Rightarrow> nat set \<Rightarrow> (nat \<times> byte) set" where
  "inputs_of rs I = {(i, x). i \<in> I \<and> x \<in> fst ` set (rt_input (rs ! i))}"

definition outputs_of :: "reports list \<Rightarrow> nat set \<Rightarrow> (nat \<times> byte) set" where
  "outputs_of rs I = {(i, x). i \<in> I \<and> x \<in> fst ` set (rt_output (rs ! i))}"

lemma claim_loop_claims:
  assumes "claims Si ins rs" "claims So outs rs" "\<forall>i \<in> set is. i < length rs"
    and "claim_loop is (ins, outs, rs) = (ins', outs', rs')"
  shows "claims (Si \<union> inputs_of rs (set is)) ins' rs' \<and> claims (So \<union> outputs_of rs (set is)) outs' rs' \<and> marked rs rs'"
  using assms
proof (induction "is" arbitrary: Si So ins outs rs)
  case Nil
  then show ?case by (simp add: inputs_of_def outputs_of_def)
next
  case (Cons i "is")
  obtain o1 rs1 where f1: "fold (claim i) (map fst (rt_input (rs ! i))) (ins, rs) = (o1, rs1)" by fastforce
  obtain o2 rs2 where f2: "fold (claim i) (map fst (rt_output (rs1 ! i))) (outs, rs1) = (o2, rs2)" by fastforce
  have i: "i < length rs" using Cons.prems(3) by simp
  from claim_fold [OF Cons.prems(1) i f1] have c1: "claims (Si \<union> {i} \<times> fst ` set (rt_input (rs ! i))) o1 rs1" "marked rs rs1"
    by (simp_all only: set_map)
  have i1: "i < length rs1" and out1: "rt_output (rs1 ! i) = rt_output (rs ! i)" using c1(2) i by (auto simp: marked_def)
  from claim_fold [OF claims_marked [OF Cons.prems(2) c1(2)] i1 f2]
  have c2: "claims (So \<union> {i} \<times> fst ` set (rt_output (rs ! i))) o2 rs2" "marked rs1 rs2" by (simp_all only: set_map out1)
  have m: "marked rs rs2" using c1(2) c2(2) marked_trans by blast
  have "\<forall>j \<in> set is. j < length rs2" using Cons.prems(3) m by (simp add: marked_def)
  moreover have "claim_loop is (o1, o2, rs2) = (ins', outs', rs')" using Cons.prems(4) f1 f2 by simp
  ultimately have IH: "claims ((Si \<union> {i} \<times> fst ` set (rt_input (rs ! i))) \<union> inputs_of rs2 (set is)) ins' rs' \<and>
      claims ((So \<union> {i} \<times> fst ` set (rt_output (rs ! i))) \<union> outputs_of rs2 (set is)) outs' rs' \<and> marked rs2 rs'"
    using claims_marked [OF c1(1) c2(2)] c2(1) by (intro Cons.IH) auto
  have "inputs_of rs2 (set is) = inputs_of rs (set is)" "outputs_of rs2 (set is) = outputs_of rs (set is)"
    using m Cons.prems(3) by (auto simp: inputs_of_def outputs_of_def marked_def)
  moreover have "Si \<union> {i} \<times> fst ` set (rt_input (rs ! i)) \<union> inputs_of rs (set is) = Si \<union> inputs_of rs (set (i # is))"
    "So \<union> {i} \<times> fst ` set (rt_output (rs ! i)) \<union> outputs_of rs (set is) = So \<union> outputs_of rs (set (i # is))"
    by (auto simp: inputs_of_def outputs_of_def)
  ultimately show ?case using IH marked_trans [OF m] by (simp only:)
qed

subsection \<open>Supported collections\<close>

lemma layout_fold:
  fixes g :: "byte \<Rightarrow> u64 \<Rightarrow> collection \<Rightarrow> report_layout" and xs :: "(byte \<times> u64) list"
  defines "F \<equiv> \<lambda>(k, bits) c. c\<lparr>cl_Layout := g k bits c, cl_Supported := cl_Supported c \<and> bits \<noteq> 0\<rparr>"
  shows "cl_Index (fold F xs c0) = cl_Index c0" and "cl_Supported (fold F xs c0) \<Longrightarrow> cl_Supported c0"
proof -
  show "cl_Index (fold F xs c0) = cl_Index c0"
    by (induction xs arbitrary: c0) (simp_all add: F_def split_beta)
  show "cl_Supported (fold F xs c0) \<Longrightarrow> cl_Supported c0"
  proof (induction xs arbitrary: c0)
    case (Cons x xs)
    then have "cl_Supported (F x c0)" by simp
    then show ?case by (simp add: F_def split_beta)
  qed simp
qed

lemma collection_layout_index: "cl_Index (collection_layout bad r c) = cl_Index c"
  by (simp add: collection_layout_def Let_def layout_fold(1))

lemma collection_layout_supported:
  assumes "cl_Supported (collection_layout bad r c)"
  shows "length (rt_input r) = 1" "length (rt_output r) = 1" "\<not> bad"
proof -
  from assms have "\<not> bad \<and> length (rt_input r) = 1 \<and> length (rt_output r) = 1"
    unfolding collection_layout_def Let_def
    by (drule_tac layout_fold(2)) (drule layout_fold(2), simp)
  then show "length (rt_input r) = 1" "length (rt_output r) = 1" "\<not> bad" by simp_all
qed

lemma collection_layout_cases:
  assumes "cl_Supported (collection_layout bad r c)"
  obtains ki bi ko bo where "rt_input r = [(ki, bi)]" "rt_output r = [(ko, bo)]" "bi \<noteq> 0" "bo \<noteq> 0"
    "cl_Layout (collection_layout bad r c) = \<lparr>rl_Input = spec_of ki bi, rl_Output = spec_of ko bo\<rparr>"
proof -
  from collection_layout_supported [OF assms] obtain ki bi ko bo where
    "rt_input r = [(ki, bi)]" "rt_output r = [(ko, bo)]" by (auto simp: length_Suc_conv)
  with assms show thesis by (intro that) (auto simp: collection_layout_def Let_def)
qed

text \<open>The size in bytes of a report of at most 4096 bytes that is not empty.\<close>

lemma spec_of_size:
  assumes "bits \<noteq> 0" "bits \<le> bits_limit"
  shows "1 \<le> rs_Size (spec_of k bits) \<and> rs_Size (spec_of k bits) \<le> 4096"
proof -
  have "unat bits \<le> 32768" "0 < unat bits"
    using assms by (simp_all add: word_le_nat_alt bits_limit_def unat_gt_0)
  then have "unat (bits + 7) = unat bits + 7" by (subst unat_add_lem [THEN iffD1]) simp_all
  moreover have "1 \<le> (unat bits + 7) div 8" "(unat bits + 7) div 8 \<le> 4096"
    using \<open>unat bits \<le> 32768\<close> \<open>0 < unat bits\<close> by arith+
  ultimately show ?thesis by (simp add: spec_of_def unat_div)
qed

lemma finish_supported:
  assumes inv: "parser_inv p" and i: "i < length (finish p)" and s: "cl_Supported (finish p ! i)"
  obtains ki bi ko bo where "rt_input (pa_reports p ! i) = [(ki, bi)]" "rt_output (pa_reports p ! i) = [(ko, bo)]"
    "bi \<noteq> 0" "bo \<noteq> 0" "cl_Layout (finish p ! i) = \<lparr>rl_Input = spec_of ki bi, rl_Output = spec_of ko bo\<rparr>"
    "\<And>j. j < length (pa_reports p) \<Longrightarrow> j \<noteq> i \<Longrightarrow>
       ki \<notin> fst ` set (rt_input (pa_reports p ! j)) \<and> ko \<notin> fst ` set (rt_output (pa_reports p ! j))"
    "\<And>j k b. j < length (pa_reports p) \<Longrightarrow> (k, b) \<in> set (rt_input (pa_reports p ! j)) \<Longrightarrow> ki = 0 \<Longrightarrow> k = 0"
proof -
  let ?rs = "pa_reports p" let ?n = "length ?rs"
  obtain ins outs rs where loop: "claim_loop [0..<?n] ([], [], ?rs) = (ins, outs, rs)" by (metis prod_cases3)
  have c: "claims (inputs_of ?rs {0..<?n}) ins rs" "claims (outputs_of ?rs {0..<?n}) outs rs" "marked ?rs rs"
    using claim_loop_claims [OF claims_empty claims_empty _ loop] by auto
  have len: "length rs = ?n" and eq: "j < ?n \<Longrightarrow> rt_input (rs ! j) = rt_input (?rs ! j) \<and> rt_output (rs ! j) = rt_output (?rs ! j)" for j
    using c(3) by (auto simp: marked_def)
  have n: "length (pa_result p) = ?n" using inv by (simp add: parser_inv_def)
  have i': "i < ?n" using i loop len n by (simp add: finish_def)
  let ?c = "collection_layout (pa_invalidLayout p) (rs ! i) (pa_result p ! i)"
  have fi: "finish p ! i = (if rt_unsupported (rs ! i) \<or> mixed_ids ins outs (rs ! i) then ?c\<lparr>cl_Supported := False\<rparr> else ?c)"
    using loop i' len n by (simp add: finish_def Let_def)
  with s have ok: "\<not> rt_unsupported (rs ! i)" "\<not> mixed_ids ins outs (rs ! i)" "finish p ! i = ?c" "cl_Supported ?c"
    by (auto split: if_splits)
  from collection_layout_cases [OF ok(4)] obtain ki bi ko bo where
    l: "rt_input (rs ! i) = [(ki, bi)]" "rt_output (rs ! i) = [(ko, bo)]" "bi \<noteq> 0" "bo \<noteq> 0"
       "cl_Layout ?c = \<lparr>rl_Input = spec_of ki bi, rl_Output = spec_of ko bo\<rparr>" by metis
  have own: "(i, ki) \<in> inputs_of ?rs {0..<?n}" "(i, ko) \<in> outputs_of ?rs {0..<?n}"
    using i' eq [OF i', THEN conjunct1, symmetric] eq [OF i', THEN conjunct2, symmetric] l(1,2)
    by (simp_all add: inputs_of_def outputs_of_def)
  show thesis
  proof (rule that)
    fix j assume j: "j < ?n" "j \<noteq> i"
    show "ki \<notin> fst ` set (rt_input (?rs ! j)) \<and> ko \<notin> fst ` set (rt_output (?rs ! j))"
      using claimsD(6) [OF c(1) own(1), of j] claimsD(6) [OF c(2) own(2), of j] j ok(1)
      by (auto simp: inputs_of_def outputs_of_def)
  next
    fix j k b assume j: "j < ?n" "(k, b) \<in> set (rt_input (?rs ! j))" "ki = 0"
    have "k \<in> fst ` set ins"
      unfolding claimsD(3) [OF c(1)] using j(1,2) by (force simp: inputs_of_def)
    moreover have "ki \<in> fst ` set ins" unfolding claimsD(3) [OF c(1)] using own(1) by force
    moreover have "length ins \<le> 1" using ok(2) l(1) j(3) \<open>ki \<in> fst ` set ins\<close>
      by (auto simp: mixed_ids_def map_of_eq_None_iff)
    ultimately show "k = 0" using j(3) by (cases ins) auto
  qed (use l ok(3) eq [OF i'] in auto)
qed

lemma Parse_cases:
  assumes "Parse data = Inr cs"
  obtains p where "parse_loop parser_init data = Inr p" "parser_inv p" "cs = finish p"
    "pa_collections p = []" "pa_stack p = []"
  using assms parse_loop_inv [OF parser_inv_init, of data]
  by (auto simp: Parse_def andThen_Inr_conv split: if_splits)

lemma finish_length: "parser_inv p \<Longrightarrow> length (finish p) = length (pa_result p)"
  using claim_loop_claims [OF claims_empty claims_empty, of "[0..<length (pa_reports p)]" "pa_reports p"]
  by (auto simp: finish_def parser_inv_def marked_def split: prod.splits)

lemma finish_index:
  assumes "parser_inv p"
  shows "map cl_Index (finish p) = [0..<length (finish p)]"
proof -
  have "map cl_Index (finish p) = map cl_Index (take (length (finish p)) (pa_result p))"
    by (rule nth_equalityI) (auto simp: finish_def Let_def collection_layout_index split: prod.splits)
  with finish_length [OF assms] assms show ?thesis by (simp add: parser_inv_def)
qed

lemma Parse_supported_size:
  assumes "Parse data = Inr cs" and "i < length cs" and "cl_Supported (cs ! i)"
  shows "rs_Size (rl_Input (cl_Layout (cs ! i))) \<in> {1..4096}" "rs_Size (rl_Output (cl_Layout (cs ! i))) \<in> {1..4096}"
proof -
  from assms(1) obtain p where p: "parser_inv p" "cs = finish p" by (blast elim: Parse_cases)
  have len: "length (finish p) = length (pa_reports p)" using finish_length [OF p(1)] p(1) by (simp add: parser_inv_def)
  from finish_supported [OF p(1)] assms(2,3) p(2) obtain ki bi ko bo where
    i: "rt_input (pa_reports p ! i) = [(ki, bi)]" "rt_output (pa_reports p ! i) = [(ko, bo)]" "bi \<noteq> 0" "bo \<noteq> 0"
      "cl_Layout (cs ! i) = \<lparr>rl_Input = spec_of ki bi, rl_Output = spec_of ko bo\<rparr>" by metis
  have "reports_ok (pa_reports p ! i)" using p assms(2) len by (simp add: parser_inv_def)
  then have b: "bi \<le> bits_limit" "bo \<le> bits_limit" using i(1,2) by (simp_all add: reports_ok_def bits_ok_def)
  then show "rs_Size (rl_Input (cl_Layout (cs ! i))) \<in> {1..4096}" "rs_Size (rl_Output (cl_Layout (cs ! i))) \<in> {1..4096}"
    using spec_of_size [OF i(3) b(1)] spec_of_size [OF i(4) b(2)] i(5) by simp_all
qed

text \<open>The collections of either reading are numbered below 256.\<close>

lemma Parse_index: "Parse data = Inr cs \<Longrightarrow> c \<in> set cs \<Longrightarrow> cl_Index c < 256"
proof -
  assume "Parse data = Inr cs" and c: "c \<in> set cs"
  then obtain p where p: "parser_inv p" "cs = finish p" by (blast elim: Parse_cases)
  have "length cs \<le> 256" using finish_length [OF p(1)] p by (simp add: parser_inv_def)
  moreover have "cl_Index c \<in> set [0..<length cs]" using finish_index [OF p(1)] p(2) c by (metis image_eqI set_map)
  ultimately show ?thesis by simp
qed

lemma scan_item_index:
  "scan_item prefix v s = Inr s' \<Longrightarrow> length (sc_result s) \<le> 256 \<and> (\<forall>c \<in> set (sc_result s). cl_Index c < 256) \<Longrightarrow>
   length (sc_result s') \<le> 256 \<and> (\<forall>c \<in> set (sc_result s'). cl_Index c < 256)"
  by (auto simp: scan_item_def scan_main_def andThen_Inr_conv Let_def split: if_splits)

lemma scan_loop_index:
  "scan_loop s bs = Inr s' \<Longrightarrow> length (sc_result s) \<le> 256 \<and> (\<forall>c \<in> set (sc_result s). cl_Index c < 256) \<Longrightarrow>
   length (sc_result s') \<le> 256 \<and> (\<forall>c \<in> set (sc_result s'). cl_Index c < 256)"
proof (induction s bs rule: scan_loop.induct)
  case (2 s prefix rest)
  show ?case
  proof (cases "prefix = 0xfe")
    case True
    with 2 show ?thesis by (auto split: if_splits)
  next
    case False
    then obtain s1 where s1: "scan_item prefix (item_value (take (item_size prefix) rest) 0) s = Inr s1"
      "scan_loop s1 (drop (item_size prefix) rest) = Inr s'" "\<not> item_size prefix > length rest"
      using "2.prems"(1) by (auto simp: andThen_Inr_conv split: if_splits)
    show ?thesis by (rule "2.IH"(2) [OF False s1(3,2) scan_item_index [OF s1(1) "2.prems"(2)]])
  qed
qed simp

lemma Inventory_index: "c \<in> set (fst (Inventory data)) \<Longrightarrow> cl_Index c < 256"
  using scan_loop_index [of scan_init data] Parse_index [of data _ c]
  by (auto simp: Inventory_def scanUsages_def andThen_Inr_conv scan_init_def split: sum.splits if_splits)

subsection \<open>The two readings of a descriptor\<close>

text \<open>The usage scan follows the strict parser: on every item the parser accepts, both see the same
  nesting, usage page and number of collections.\<close>

definition follows :: "parser \<Rightarrow> scanner \<Rightarrow> bool" where
  "follows p s \<longleftrightarrow>
     length (sc_result s) = length (pa_result p) \<and> sc_depth s = length (pa_collections p) \<and>
     sc_page s = gl_page (pa_global p) \<and> sc_stack s = map gl_page (pa_stack p) \<and>
     sc_usages s = length (pa_usages p) \<and> sc_hasMin s = pa_hasMinimum p \<and> length (pa_stack p) \<le> 32"

lemma main_report_frame:
  "main_report tag p = Inr p' \<Longrightarrow> \<exists>rs. p' = p\<lparr>pa_reports := rs\<rparr>"
  by (auto simp: main_report_def Let_def andThen_Inr_conv split: if_splits intro: exI [of _ "pa_reports p"])

lemma follows_main:
  assumes "follows p s" "main_item tag v p = Inr p'"
  shows "\<exists>s'. scan_main tag v s = Inr s' \<and> follows p' s'"
proof -
  consider "tag = 10" | "tag = 12" | "tag \<notin> {10, 12}" by blast
  then show ?thesis
  proof cases
    case 1
    with assms show ?thesis
      by (auto simp: main_item_def main_collection_def scan_main_def follows_def reset_locals_def andThen_Inr_conv Let_def
          split: if_splits)
  next
    case 2
    with assms show ?thesis
      by (auto simp: main_item_def scan_main_def follows_def reset_locals_def andThen_Inr_conv split: if_splits)
  next
    case 3
    then have "\<exists>rs. p' = reset_locals (p\<lparr>pa_reports := rs\<rparr>)"
      using assms(2) by (auto simp: main_item_def andThen_Inr_conv dest!: main_report_frame split: if_splits
          intro: exI [of _ "pa_reports p"])
    with 3 assms(1) show ?thesis by (auto simp: scan_main_def follows_def reset_locals_def)
  qed
qed

lemma follows_item:
  assumes "follows p s" "parse_item prefix v p = Inr p'"
  shows "\<exists>s'. scan_item prefix v s = Inr s' \<and> follows p' s'"
proof -
  have glob: ?thesis if "drop_bit 2 prefix AND 3 = 1"
    using assms that
    by (auto simp: parse_item_def scan_item_def globalItem_def follows_def Let_def last_map map_butlast split: if_splits)
  have loc: ?thesis if "drop_bit 2 prefix AND 3 = 2"
    using assms that
    by (auto simp: parse_item_def scan_item_def local_item_def follows_def Let_def split: if_splits)
  show ?thesis
    using assms(2) glob loc follows_main [OF assms(1)]
    by (auto simp: parse_item_def scan_item_def Let_def split: if_splits)
qed

lemma follows_loop:
  "follows p s \<Longrightarrow> parse_loop p bs = Inr p' \<Longrightarrow> \<exists>s'. scan_loop s bs = Inr s' \<and> follows p' s'"
proof (induction p bs arbitrary: s rule: parse_loop.induct)
  case (2 p prefix rest)
  from 2(3) obtain q where q: "prefix \<noteq> 0xfe" "\<not> item_size prefix > length rest"
    "parse_item prefix (item_value (take (item_size prefix) rest) 0) p = Inr q"
    "parse_loop q (drop (item_size prefix) rest) = Inr p'"
    by (auto simp: andThen_Inr_conv split: if_splits)
  from follows_item [OF 2(2) q(3)] obtain s' where s': "scan_item prefix (item_value (take (item_size prefix) rest) 0) s = Inr s'"
    "follows q s'" by blast
  from 2(1) [OF q(1,2) s'(2) q(4)] q s' show ?case by simp
qed simp

subsection \<open>Properties\<close>

text \<open>A FIDO descriptor: usage page 0xF1D0, usage 1, one input and one output report of 64 bytes.\<close>

definition fido_descriptor :: bytes where
  "fido_descriptor =
     [0x06, 0xD0, 0xF1, 0x09, 0x01, 0xA1, 0x01, 0x75, 0x08, 0x95, 0x40, 0x81, 0x02, 0x91, 0x02, 0xC0]"

lemmas scan_simps = scanUsages_def MaxDescriptorSize_def item_size_def scan_item_def scan_init_def scan_main_def

lemmas parse_simps = Parse_def MaxDescriptorSize_def item_size_def parse_item_def parser_init_def main_item_def
  main_collection_def main_report_def current_collection_def add_report_def bits_of_def bits_limit_def globalItem_def
  local_item_def reset_locals_def finish_def upt_rec claim_def mark_def collection_layout_def mixed_ids_def spec_of_def
  zero_layout_def invalid_def

lemma Parse_fido:
  "Parse fido_descriptor =
     Inr [\<lparr>cl_Index = 0, cl_Usage = \<lparr>us_Page = 0xF1D0, us_ID = 1\<rparr>,
           cl_Layout = \<lparr>rl_Input = \<lparr>rs_ID = 0, rs_Size = 64\<rparr>, rl_Output = \<lparr>rs_ID = 0, rs_Size = 64\<rparr>\<rparr>,
           cl_Supported = True\<rparr>]"
  by (simp add: fido_descriptor_def parse_simps)




text \<open>Two collections with numbered reports 1 and 2.\<close>

definition two_descriptor :: bytes where
  "two_descriptor =
     [0x75, 0x08, 0x95, 0x40, 0x85, 0x01, 0xA1, 0x01, 0x81, 0x02, 0x91, 0x02, 0xC0,
      0x85, 0x02, 0xA1, 0x01, 0x81, 0x02, 0x91, 0x02, 0xC0]"

definition numbered :: "nat \<Rightarrow> byte \<Rightarrow> collection" where
  "numbered i k =
     \<lparr>cl_Index = i, cl_Usage = \<lparr>us_Page = 0, us_ID = 0\<rparr>,
      cl_Layout = \<lparr>rl_Input = \<lparr>rs_ID = k, rs_Size = 64\<rparr>, rl_Output = \<lparr>rs_ID = k, rs_Size = 64\<rparr>\<rparr>, cl_Supported = True\<rparr>"


text \<open>\<open>Inventory\<close> never presents a collection as usable when the strict parser rejected the
  descriptor: its error is that of \<open>Parse\<close>, and every collection of the fallback scan is unsupported.\<close>

theorem inventory_fallback_unsupported:
  assumes "Inventory data = (cs, Some e)"
  shows "Parse data = Inl e \<and> (\<forall>c \<in> set cs. \<not> cl_Supported c)"
proof
  show "Parse data = Inl e" using assms by (auto simp: Inventory_def split: sum.splits if_splits)
  have main: "\<forall>c \<in> set (sc_result s'). \<not> cl_Supported c"
    if "scan_item prefix v s = Inr s'" "\<forall>c \<in> set (sc_result s). \<not> cl_Supported c" for prefix v s s'
    using that by (auto simp: scan_item_def scan_main_def andThen_Inr_conv Let_def split: if_splits)
  have loop: "\<forall>c \<in> set (sc_result s'). \<not> cl_Supported c"
    if "scan_loop s bs = Inr s'" "\<forall>c \<in> set (sc_result s). \<not> cl_Supported c" for s bs s'
    using that
  proof (induction s bs rule: scan_loop.induct)
    case (2 s prefix rest)
    then show ?case by (auto simp: andThen_Inr_conv split: if_splits dest: main)
  qed simp
  have "\<forall>c \<in> set (sc_result s'). \<not> cl_Supported c" if "scan_loop scan_init data = Inr s'" for s'
    by (rule loop [OF that]) (simp add: scan_init_def)
  with assms show "\<forall>c \<in> set cs. \<not> cl_Supported c"
    by (auto simp: Inventory_def scanUsages_def andThen_Inr_conv split: sum.splits if_splits)
qed

theorem inventory_fallback_unsupported_witness:
  "\<exists>c e. Inventory [0x09, 0x01, 0xA1, 0x01] = ([c], Some e) \<and> \<not> cl_Supported c"
proof -
  let ?c = "\<lparr>cl_Index = 0, cl_Usage = \<lparr>us_Page = 0, us_ID = 1\<rparr>, cl_Layout = zero_layout, cl_Supported = False\<rparr>"
  obtain e where "Parse [0x09, 0x01, 0xA1, 0x01] = Inl e" by (simp add: parse_simps)
  moreover have "scanUsages [0x09, 0x01, 0xA1, 0x01] = Inr [?c]" by (simp add: scan_simps)
  ultimately have i: "Inventory [0x09, 0x01, 0xA1, 0x01] = ([?c], Some e)" by (simp add: Inventory_def)
  from inventory_fallback_unsupported [OF i] i show ?thesis by auto
qed

text \<open>The fallback scan is as complete as the strict parser: on every descriptor \<open>Parse\<close> accepts,
  \<open>scanUsages\<close> succeeds and finds the same number of Application collections.\<close>

theorem scan_finds_all_collections:
  assumes "Parse data = Inr cs"
  shows "\<exists>ds. scanUsages data = Inr ds \<and> length ds = length cs"
proof -
  from assms obtain p where p: "parse_loop parser_init data = Inr p" "parser_inv p" "cs = finish p" by (blast elim: Parse_cases)
  have "follows parser_init scan_init" by (simp add: follows_def parser_init_def scan_init_def)
  from follows_loop [OF this p(1)] obtain s where "scan_loop scan_init data = Inr s" "follows p s" by blast
  moreover have "data \<noteq> [] \<and> \<not> length data > MaxDescriptorSize" using assms by (auto simp: Parse_def split: if_splits)
  ultimately show ?thesis using p(3) finish_length [OF p(2)] by (auto simp: scanUsages_def follows_def)
qed

theorem scan_finds_all_collections_witness:
  "\<exists>c d. Parse fido_descriptor = Inr [c] \<and> scanUsages fido_descriptor = Inr [d]"
  using scan_finds_all_collections [OF Parse_fido] Parse_fido by (auto simp: length_Suc_conv)

text \<open>The two readings differ in the usage of a collection that has no local usage of its own: the parser
  uses the usage minimum of an earlier item, the scan the first usage of an earlier item. Here the second
  collection follows one declared by usage minimum 5.\<close>

definition stale_descriptor :: bytes where
  "stale_descriptor = [0x19, 0x05, 0xA1, 0x01, 0xC0, 0xA1, 0x01, 0xC0]"

lemma stale_usage_minimum:
  "map (us_ID \<circ> cl_Usage) (projr (Parse stale_descriptor)) = [5, 5]"
  "map (us_ID \<circ> cl_Usage) (projr (scanUsages stale_descriptor)) = [5, 0]"
  by (simp_all add: stale_descriptor_def scan_simps parse_simps)

end
