(* ===== verification/Ctap1.thy ===== *)
theory Ctap1
  imports GoErrors
begin

text \<open>
  CTAP1/U2F messages: \<open>pkg/ctap1/apdu.go\<close>, \<open>errors.go\<close>, \<open>version.go\<close>, \<open>register.go\<close>, \<open>authenticate.go\<close>.
  Commands are encoded as short or extended APDUs, responses are a payload and a status word. The
  dynamic type test of a decoding target is the argument \<open>ok\<close>. A registration response contains a
  certificate whose length is found by \<open>encoding/asn1\<close>: the part of that package the code uses, reading one
  DER element into a raw value, is modelled below; \<open>x509.ParseCertificate\<close> is the parameter
  \<open>parseCert\<close>, which returns an error or nil.
\<close>

subsection \<open>APDUs\<close>

definition maxShortResponseLength :: u32 where "maxShortResponseLength = 256"
definition maxExtendedResponseLength :: u32 where "maxExtendedResponseLength = 65536"
definition successStatusWord :: u16 where "successStatusWord = 0x9000"

definition encode_short :: "byte \<Rightarrow> byte \<Rightarrow> byte \<Rightarrow> bytes \<Rightarrow> u32 \<Rightarrow> bytes" where
  "encode_short command p1 p2 data maxResponseLength =
     [0x00, command, p1, p2] @
     (if length data > 0 then word_of_nat (length data) # data else []) @
     (if maxResponseLength > 0
      then [if maxResponseLength = maxShortResponseLength then 0x00 else ucast maxResponseLength]
      else [])"

definition encode_extended :: "byte \<Rightarrow> byte \<Rightarrow> byte \<Rightarrow> bytes \<Rightarrow> u32 \<Rightarrow> bytes" where
  "encode_extended command p1 p2 data maxResponseLength =
     [0x00, command, p1, p2, 0x00] @
     (if length data > 0 then [word_of_nat (length data div 256), word_of_nat (length data)] @ data else []) @
     (if maxResponseLength > 0
      then (let le = if maxResponseLength = maxExtendedResponseLength then 0 else maxResponseLength
            in [ucast (drop_bit 8 le), ucast le])
      else [])"

definition encodeAPDU :: "byte \<Rightarrow> byte \<Rightarrow> byte \<Rightarrow> bytes \<Rightarrow> u32 \<Rightarrow> bytes res" where
  "encodeAPDU command p1 p2 data maxResponseLength =
     (if maxResponseLength > maxExtendedResponseLength then Inl (TextError ''ctap1: unsupported response length'')
      else if length data > 0xffff then Inl (TextError ''ctap1: APDU payload exceeds extended encoding limit'')
      else if length data \<le> 0xff \<and> maxResponseLength \<le> maxShortResponseLength
        then Inr (encode_short command p1 p2 data maxResponseLength)
      else Inr (encode_extended command p1 p2 data maxResponseLength))"

definition EncodeShortAPDU :: "byte \<Rightarrow> bytes \<Rightarrow> bytes res" where
  "EncodeShortAPDU command data = encodeAPDU command 0x00 0x00 data maxShortResponseLength"

definition EncodeRawAPDU :: "byte \<Rightarrow> bytes \<Rightarrow> bytes res" where
  "EncodeRawAPDU command data = encodeAPDU command 0x00 0x00 data maxExtendedResponseLength"

text \<open>The payload of a response whose status word is the success word.\<close>

definition decodeResponse :: "bytes \<Rightarrow> bytes res" where
  "decodeResponse data =
     (if length data < 2 then Inl (TextError ''ctap1: response is too short'')
      else
        let statusWord = get16 (drop (length data - 2) data) in
        if statusWord \<noteq> successStatusWord then Inl (Ctap1Error statusWord)
        else Inr (take (length data - 2) data))"

definition ctap1_statusText :: "u16 \<Rightarrow> string" where
  "ctap1_statusText statusWord =
     (if statusWord = 0x6985 then ''conditions not satisfied''
      else if statusWord = 0x6a80 then ''invalid request data''
      else if statusWord = 0x6a82 then ''file not found''
      else if statusWord = successStatusWord then ''success''
      else ''unknown status'')"

subsection \<open>Version\<close>

definition CommandVersion :: byte where "CommandVersion = 0x03"
definition CommandRegister :: byte where "CommandRegister = 0x01"
definition CommandAuthenticate :: byte where "CommandAuthenticate = 0x02"

text \<open>The conversion \<open>string(payload)\<close>.\<close>

definition go_string :: "bytes \<Rightarrow> string" where
  "go_string bs = map (\<lambda>b. char_of (unat b)) bs"

definition VersionCommand_Encode :: "bytes res" where
  "VersionCommand_Encode = EncodeRawAPDU CommandVersion []"

definition VersionCommand_DecodeResponse :: "bool \<Rightarrow> bytes \<Rightarrow> string res" where
  "VersionCommand_DecodeResponse ok data =
     (if \<not> ok then Inl (TextError ''ctap1: version response target must be *VersionResponse'')
      else andThen (decodeResponse data) (\<lambda>payload. Inr (go_string payload)))"

subsection \<open>One DER element\<close>

text \<open>\<open>parseBase128Int\<close>: \<open>shifted\<close> octets have been read, with value \<open>acc\<close>.\<close>

fun asn1_base128 :: "nat \<Rightarrow> nat \<Rightarrow> bytes \<Rightarrow> (nat \<times> bytes) res" where
  "asn1_base128 shifted acc [] = Inl (TextError ''truncated base 128 integer'')"
| "asn1_base128 shifted acc (b # bs) =
     (if shifted = 5 then Inl (TextError ''base 128 integer too large'')
      else if shifted = 0 \<and> b = 0x80 then Inl (TextError ''integer is not minimally encoded'')
      else
        let v = acc * 128 + unat (b AND 0x7f) in
        if b AND 0x80 = 0 then
          if v > 2147483647 then Inl (TextError ''base 128 integer too large'') else Inr (v, bs)
        else asn1_base128 (Suc shifted) v bs)"

text \<open>The \<open>n\<close> octets of a long form length.\<close>

fun asn1_long_length :: "nat \<Rightarrow> nat \<Rightarrow> bytes \<Rightarrow> (nat \<times> bytes) res" where
  "asn1_long_length 0 acc bs = Inr (acc, bs)"
| "asn1_long_length (Suc n) acc [] = Inl (TextError ''truncated tag or length'')"
| "asn1_long_length (Suc n) acc (b # bs) =
     (if acc \<ge> 2 ^ 23 then Inl (TextError ''length too large'')
      else
        let v = acc * 256 + unat b in
        if v = 0 then Inl (TextError ''superfluous leading zeros in length'')
        else asn1_long_length n v bs)"

definition asn1_tag :: "bytes \<Rightarrow> bytes res" where
  "asn1_tag bs =
     (case bs of
        [] \<Rightarrow> Inl (TextError ''sequence truncated'')
      | b # bs1 \<Rightarrow>
          if b AND 0x1f = 0x1f then
            andThen (asn1_base128 0 0 bs1) (\<lambda>(tag, bs2).
              if tag < 0x1f then Inl (TextError ''non-minimal tag'') else Inr bs2)
          else Inr bs1)"

definition asn1_length :: "bytes \<Rightarrow> (nat \<times> bytes) res" where
  "asn1_length bs =
     (case bs of
        [] \<Rightarrow> Inl (TextError ''truncated tag or length'')
      | b # bs1 \<Rightarrow>
          if b AND 0x80 = 0 then Inr (unat (b AND 0x7f), bs1)
          else
            let numBytes = unat (b AND 0x7f) in
            if numBytes = 0 then Inl (TextError ''indefinite length found (not DER)'')
            else andThen (asn1_long_length numBytes 0 bs1) (\<lambda>(n, bs2).
              if n < 0x80 then Inl (TextError ''non-minimal length'') else Inr (n, bs2)))"

text \<open>\<open>asn1.Unmarshal\<close> into a raw value: the bytes that follow the element.\<close>

definition asn1_Unmarshal :: "bytes \<Rightarrow> bytes res" where
  "asn1_Unmarshal bs =
     andThen (asn1_tag bs) (\<lambda>bs1. andThen (asn1_length bs1) (\<lambda>(n, bs2).
       if n > length bs2 then Inl (TextError ''data truncated'') else Inr (drop n bs2)))"

subsection \<open>Register\<close>

record ctap1_register_response =
  rr_ReservedByte :: byte
  rr_PublicKey :: bytes
  rr_KeyHandle :: bytes
  rr_AttestationCertificate :: bytes
  rr_Signature :: bytes

record ctap1_register_command =
  rc_Challenge :: bytes
  rc_Application :: bytes

definition RegisterCommand_Encode :: "ctap1_register_command \<Rightarrow> bytes res" where
  "RegisterCommand_Encode command =
     (if length (rc_Challenge command) \<noteq> 32 then Inl (TextError ''ctap1: register challenge must be 32 bytes'')
      else if length (rc_Application command) \<noteq> 32
        then Inl (TextError ''ctap1: register application parameter must be 32 bytes'')
      else encodeAPDU CommandRegister 0x00 0x00 (rc_Challenge command @ rc_Application command) maxExtendedResponseLength)"

text \<open>The part of \<open>DecodeResponse\<close> after the status word.\<close>

definition register_payload :: "(bytes \<Rightarrow> err option) \<Rightarrow> bytes \<Rightarrow> ctap1_register_response res" where
  "register_payload parseCert payload =
     (if length payload < 67 then Inl (TextError ''ctap1: register response payload is too short'')
      else if payload ! 0 \<noteq> 0x05 then Inl (TextError ''ctap1: register response reserved byte must be 0x05'')
      else
        let keyHandleLength = unat (payload ! 66); keyHandleOffset = 67 in
        if length payload < keyHandleOffset + keyHandleLength
          then Inl (TextError ''ctap1: register response key handle is truncated'')
        else
          let remaining = drop (keyHandleOffset + keyHandleLength) payload in
          if remaining = [] then Inl (TextError ''ctap1: register response missing attestation certificate'')
          else
            (case asn1_Unmarshal remaining of
               Inl e \<Rightarrow> Inl (WrapError ''ctap1: parse attestation certificate'' [e])
             | Inr rest \<Rightarrow>
                 let certificateLength = length remaining - length rest in
                 if certificateLength = 0 then Inl (TextError ''ctap1: register response missing certificate bytes'')
                 else
                   let certificateBytes = take certificateLength remaining in
                   case parseCert certificateBytes of
                     Some e \<Rightarrow> Inl (WrapError ''ctap1: parse attestation certificate'' [e])
                   | None \<Rightarrow>
                       if rest = [] then Inl (TextError ''ctap1: register response missing signature bytes'')
                       else Inr \<lparr>rr_ReservedByte = payload ! 0, rr_PublicKey = slice payload 1 66,
                                 rr_KeyHandle = slice payload keyHandleOffset (keyHandleOffset + keyHandleLength),
                                 rr_AttestationCertificate = certificateBytes, rr_Signature = rest\<rparr>))"

definition RegisterCommand_DecodeResponse ::
  "(bytes \<Rightarrow> err option) \<Rightarrow> bool \<Rightarrow> bytes \<Rightarrow> ctap1_register_response res" where
  "RegisterCommand_DecodeResponse parseCert ok data =
     (if \<not> ok then Inl (TextError ''ctap1: register response target must be *RegisterResponse'')
      else andThen (decodeResponse data) (register_payload parseCert))"

subsection \<open>Authenticate\<close>

text \<open>\<open>Control\<close> is a byte; the three constants of the source are the valid ones.\<close>

definition ControlEnforceUserPresenceAndSign :: byte where "ControlEnforceUserPresenceAndSign = 0x03"
definition ControlCheckOnly :: byte where "ControlCheckOnly = 0x07"
definition ControlDontEnforceUserPresenceAndSign :: byte where "ControlDontEnforceUserPresenceAndSign = 0x08"

definition Control_Validate :: "byte \<Rightarrow> err option" where
  "Control_Validate control =
     (if control \<in> {ControlEnforceUserPresenceAndSign, ControlCheckOnly, ControlDontEnforceUserPresenceAndSign} then None
      else Some (TextError ''ctap1: unsupported authenticate control byte''))"

record ctap1_authenticate_response =
  ar_UserPresence :: byte
  ar_Counter :: u32
  ar_Signature :: bytes

record ctap1_authenticate_command =
  ac_Control :: byte
  ac_Challenge :: bytes
  ac_Application :: bytes
  ac_KeyHandle :: bytes

definition UserPresent :: "ctap1_authenticate_response \<Rightarrow> bool" where
  "UserPresent response \<longleftrightarrow> ar_UserPresence response AND 0x01 = 0x01"

definition AuthenticateCommand_Encode :: "ctap1_authenticate_command \<Rightarrow> bytes res" where
  "AuthenticateCommand_Encode command =
     (case Control_Validate (ac_Control command) of
        Some e \<Rightarrow> Inl e
      | None \<Rightarrow>
          if length (ac_Challenge command) \<noteq> 32 then Inl (TextError ''ctap1: authenticate challenge must be 32 bytes'')
          else if length (ac_Application command) \<noteq> 32
            then Inl (TextError ''ctap1: authenticate application parameter must be 32 bytes'')
          else if length (ac_KeyHandle command) = 0
            then Inl (TextError ''ctap1: authenticate key handle must not be empty'')
          else if length (ac_KeyHandle command) > 0xff
            then Inl (TextError ''ctap1: authenticate key handle exceeds 255 bytes'')
          else encodeAPDU CommandAuthenticate (ac_Control command) 0x00
                 (ac_Challenge command @ ac_Application command @
                  [word_of_nat (length (ac_KeyHandle command))] @ ac_KeyHandle command)
                 maxExtendedResponseLength)"

definition AuthenticateCommand_DecodeResponse :: "bool \<Rightarrow> bytes \<Rightarrow> ctap1_authenticate_response res" where
  "AuthenticateCommand_DecodeResponse ok data =
     (if \<not> ok then Inl (TextError ''ctap1: authenticate response target must be *AuthenticateResponse'')
      else andThen (decodeResponse data) (\<lambda>payload.
        if length payload < 6 then Inl (TextError ''ctap1: authenticate response payload is too short'')
        else if drop 5 payload = [] then Inl (TextError ''ctap1: authenticate response missing signature'')
        else Inr \<lparr>ar_UserPresence = payload ! 0, ar_Counter = get32 (slice payload 1 5),
                  ar_Signature = drop 5 payload\<rparr>))"

subsection \<open>Reference APDU decoding\<close>

text \<open>The command APDU of ISO 7816-4: data and expected response length from the bytes after the header,
  for the short and the extended forms.\<close>

definition ne8 :: "byte \<Rightarrow> nat" where
  "ne8 le = (if le = 0 then 256 else unat le)"

definition ext16 :: "byte \<Rightarrow> byte \<Rightarrow> nat" where
  "ext16 h l = unat h * 256 + unat l"

definition ne16 :: "byte \<Rightarrow> byte \<Rightarrow> nat" where
  "ne16 h l = (if ext16 h l = 0 then 65536 else ext16 h l)"

definition apdu_extended :: "bytes \<Rightarrow> (bytes \<times> nat) option" where
  "apdu_extended rest =
     (case rest of
        h # l # ds \<Rightarrow>
          if ds = [] then Some ([], ne16 h l)
          else if length ds = ext16 h l then Some (ds, 0)
          else if length ds = ext16 h l + 2
            then Some (take (ext16 h l) ds, ne16 (ds ! ext16 h l) (ds ! Suc (ext16 h l)))
          else None
      | _ \<Rightarrow> None)"

definition apdu_body :: "bytes \<Rightarrow> (bytes \<times> nat) option" where
  "apdu_body body =
     (case body of
        [] \<Rightarrow> Some ([], 0)
      | lc # rest \<Rightarrow>
          if rest = [] then Some ([], ne8 lc)
          else if lc \<noteq> 0 then
            if length rest = unat lc then Some (rest, 0)
            else if length rest = unat lc + 1 then Some (butlast rest, ne8 (last rest))
            else None
          else apdu_extended rest)"

definition apdu_decode :: "bytes \<Rightarrow> (byte \<times> byte \<times> byte \<times> byte \<times> bytes \<times> nat) option" where
  "apdu_decode bs =
     (case bs of
        cla # ins # p1 # p2 # body \<Rightarrow> map_option (\<lambda>(data, ne). (cla, ins, p1, p2, data, ne)) (apdu_body body)
      | _ \<Rightarrow> None)"

lemma ext16_of_nat: "n < 65536 \<Longrightarrow> ext16 (word_of_nat (n div 256)) (word_of_nat n) = n"
  by (simp add: ext16_def unat_of_nat take_bit_eq_mod div_less_iff_less_mult)

lemma ext16_ucast: "unat (le :: u32) < 65536 \<Longrightarrow> ext16 (ucast (drop_bit 8 le)) (ucast le) = unat le"
  by (simp add: ext16_def unsigned_ucast_eq unat_drop_bit_eq drop_bit_eq_div take_bit_eq_mod unat_div
      div_less_iff_less_mult)

lemma apdu_short:
  assumes "length data \<le> 0xff" "m \<le> maxShortResponseLength"
  shows "apdu_decode (encode_short c p1 p2 data m) = Some (0, c, p1, p2, data, unat m)"
proof -
  have m: "unat m \<le> 256" using assms(2) by (simp add: word_le_nat_alt maxShortResponseLength_def)
  have lc: "unat (word_of_nat (length data) :: byte) = length data" using assms(1) by simp
  have lc0: "data \<noteq> [] \<Longrightarrow> (word_of_nat (length data) :: byte) \<noteq> 0"
    using lc by (metis length_0_conv unat_0)
  have le: "ne8 (if m = maxShortResponseLength then 0 else ucast m) = unat m" if "m > 0"
  proof (cases "m = maxShortResponseLength")
    case False
    then have "unat m < 256" using m by (simp add: maxShortResponseLength_def word_unat_eq_iff)
    moreover from this have "unat (ucast m :: byte) = unat m" by (simp add: unsigned_ucast_eq take_bit_eq_mod)
    moreover have "0 < unat m" using that by (simp add: word_less_nat_alt)
    ultimately have "ucast m \<noteq> (0 :: byte)" by (metis less_irrefl unsigned_0)
    then show ?thesis using False \<open>unat (ucast m :: byte) = unat m\<close> by (simp add: ne8_def)
  qed (simp add: ne8_def maxShortResponseLength_def)
  show ?thesis
  proof (cases "m > 0")
    case True
    then show ?thesis using lc lc0 le by (auto simp: apdu_decode_def apdu_body_def encode_short_def)
  next
    case False
    then have "m = 0" by (simp add: word_gt_0)
    then show ?thesis using lc lc0 by (auto simp: apdu_decode_def apdu_body_def encode_short_def)
  qed
qed

lemma apdu_long:
  assumes d: "length data \<le> 0xffff" and m: "m \<le> maxExtendedResponseLength"
    and long: "\<not> (length data \<le> 0xff \<and> m \<le> maxShortResponseLength)"
  shows "apdu_decode (encode_extended c p1 p2 data m) = Some (0, c, p1, p2, data, unat m)"
proof -
  have m': "unat m \<le> 65536" using m by (simp add: word_le_nat_alt maxExtendedResponseLength_def)
  define l where "l = (if m = maxExtendedResponseLength then 0 else m)"
  have le: "ne16 (ucast (drop_bit 8 l)) (ucast l) = unat m" if "m > 0"
  proof (cases "m = maxExtendedResponseLength")
    case False
    then have "unat m < 65536" using m' by (simp add: maxExtendedResponseLength_def word_unat_eq_iff)
    moreover have "0 < unat m" using that by (simp add: word_less_nat_alt)
    ultimately show ?thesis using False by (simp add: ne16_def l_def ext16_ucast)
  qed (simp add: ne16_def ext16_def l_def maxExtendedResponseLength_def)
  have lc: "ext16 (word_of_nat (length data div 256)) (word_of_nat (length data)) = length data"
    using d by (simp add: ext16_of_nat)
  show ?thesis
  proof (cases "m > 0")
    case True
    then have "encode_extended c p1 p2 data m = [0, c, p1, p2, 0] @
        (if length data > 0 then [word_of_nat (length data div 256), word_of_nat (length data)] @ data else []) @
        [ucast (drop_bit 8 l), ucast l]" by (simp add: encode_extended_def l_def Let_def)
    then show ?thesis using le [OF True] lc
      by (auto simp: apdu_decode_def apdu_body_def apdu_extended_def nth_append)
  next
    case False
    then have "m = 0" by (simp add: word_gt_0)
    moreover from this have "data \<noteq> []" using long by auto
    ultimately show ?thesis using lc by (auto simp: apdu_decode_def apdu_body_def apdu_extended_def encode_extended_def)
  qed
qed

lemma encodeAPDU_decodes:
  assumes "encodeAPDU c p1 p2 data m = Inr bs"
  shows "apdu_decode bs = Some (0, c, p1, p2, data, unat m)"
  using assms apdu_short [of data m c p1 p2] apdu_long [of data m c p1 p2]
  by (auto simp: encodeAPDU_def not_less split: if_splits)

lemma encodeAPDU_total:
  "length data \<le> 0xffff \<Longrightarrow> m \<le> maxExtendedResponseLength \<Longrightarrow> \<exists>bs. encodeAPDU c p1 p2 data m = Inr bs"
  by (cases "length data \<le> 0xff \<and> m \<le> maxShortResponseLength") (simp_all add: encodeAPDU_def not_less)

subsection \<open>The DER reader consumes a prefix\<close>

text \<open>A successful read depends only on the bytes before the rest it returns.\<close>

definition consumes :: "(bytes \<Rightarrow> 'a res) \<Rightarrow> ('a \<Rightarrow> bytes) \<Rightarrow> (bytes \<Rightarrow> 'a \<Rightarrow> 'a) \<Rightarrow> bool" where
  "consumes f rest upd \<longleftrightarrow>
     (\<forall>bs r. f bs = Inr r \<longrightarrow> (\<exists>h. bs = h @ rest r \<and> (\<forall>ys. f (h @ ys) = Inr (upd ys r))))"

lemma consumesD:
  "consumes f rest upd \<Longrightarrow> f bs = Inr r \<Longrightarrow> \<exists>h. bs = h @ rest r \<and> (\<forall>ys. f (h @ ys) = Inr (upd ys r))"
  by (simp add: consumes_def)

lemma asn1_base128_prefix:
  "asn1_base128 k acc bs = Inr (v, rest) \<Longrightarrow> \<exists>h. bs = h @ rest \<and> (\<forall>ys. asn1_base128 k acc (h @ ys) = Inr (v, ys))"
proof (induction k acc bs rule: asn1_base128.induct)
  case (2 k acc b bs)
  show ?case
  proof (cases "b AND 0x80 = 0")
    case True
    with 2(2) show ?thesis by (auto simp: Let_def split: if_splits intro!: exI [of _ "[b]"])
  next
    case False
    with 2(2) have g: "k \<noteq> 5" "\<not> (k = 0 \<and> b = 0x80)"
      "asn1_base128 (Suc k) (acc * 128 + unat (b AND 0x7f)) bs = Inr (v, rest)"
      by (auto simp: Let_def split: if_splits)
    from 2(1) [OF g(1,2) refl False g(3)] obtain h where
      "bs = h @ rest" "\<forall>ys. asn1_base128 (Suc k) (acc * 128 + unat (b AND 0x7f)) (h @ ys) = Inr (v, ys)" by blast
    with g(1,2) False show ?thesis by (intro exI [of _ "b # h"]) auto
  qed
qed simp

lemma asn1_long_length_prefix:
  "asn1_long_length n acc bs = Inr (v, rest) \<Longrightarrow> \<exists>h. bs = h @ rest \<and> (\<forall>ys. asn1_long_length n acc (h @ ys) = Inr (v, ys))"
proof (induction n acc bs rule: asn1_long_length.induct)
  case (3 n acc b bs)
  then have g: "\<not> acc \<ge> 2 ^ 23" "acc * 256 + unat b \<noteq> 0" "asn1_long_length n (acc * 256 + unat b) bs = Inr (v, rest)"
    by (auto simp: Let_def split: if_splits)
  from 3(1) [OF g(1) refl g(2,3)] obtain h where
    "bs = h @ rest" "\<forall>ys. asn1_long_length n (acc * 256 + unat b) (h @ ys) = Inr (v, ys)" by blast
  with g show ?case by (intro exI [of _ "b # h"]) auto
qed auto

lemma asn1_tag_consumes: "consumes asn1_tag id (\<lambda>ys r. ys)"
  unfolding consumes_def
proof (intro allI impI)
  fix bs r assume t: "asn1_tag bs = Inr r"
  then obtain b bs1 where bs: "bs = b # bs1" by (cases bs) (auto simp: asn1_tag_def)
  show "\<exists>h. bs = h @ id r \<and> (\<forall>ys. asn1_tag (h @ ys) = Inr ys)"
  proof (cases "b AND 0x1f = 0x1f")
    case True
    with t bs obtain tag where g: "asn1_base128 0 0 bs1 = Inr (tag, r)" "\<not> tag < 0x1f"
      by (auto simp: asn1_tag_def andThen_Inr_conv split: if_splits)
    from asn1_base128_prefix [OF g(1)] obtain h where
      "bs1 = h @ r" "\<forall>ys. asn1_base128 0 0 (h @ ys) = Inr (tag, ys)" by blast
    with bs True g(2) show ?thesis by (intro exI [of _ "b # h"]) (simp add: asn1_tag_def)
  next
    case False
    with t bs show ?thesis by (intro exI [of _ "[b]"]) (simp add: asn1_tag_def)
  qed
qed

lemma asn1_length_consumes: "consumes asn1_length snd (\<lambda>ys r. (fst r, ys))"
  unfolding consumes_def
proof (intro allI impI)
  fix bs r assume t: "asn1_length bs = Inr r"
  then obtain b bs1 where bs: "bs = b # bs1" by (cases bs) (auto simp: asn1_length_def)
  show "\<exists>h. bs = h @ snd r \<and> (\<forall>ys. asn1_length (h @ ys) = Inr (fst r, ys))"
  proof (cases "b AND 0x80 = 0")
    case True
    with t bs show ?thesis by (intro exI [of _ "[b]"]) (auto simp: asn1_length_def)
  next
    case False
    with t bs have g: "unat (b AND 0x7f) \<noteq> 0" "asn1_long_length (unat (b AND 0x7f)) 0 bs1 = Inr (fst r, snd r)" "\<not> fst r < 0x80"
      by (auto simp: asn1_length_def andThen_Inr_conv Let_def split: if_splits)
    from asn1_long_length_prefix [OF g(2)] obtain h where
      "bs1 = h @ snd r" "\<forall>ys. asn1_long_length (unat (b AND 0x7f)) 0 (h @ ys) = Inr (fst r, ys)" by blast
    with bs False g(1,3) show ?thesis by (intro exI [of _ "b # h"]) (simp add: asn1_length_def)
  qed
qed

lemma asn1_Unmarshal_consumes: "consumes asn1_Unmarshal id (\<lambda>ys r. ys)"
  unfolding consumes_def
proof (intro allI impI)
  fix bs r assume "asn1_Unmarshal bs = Inr r"
  then obtain bs1 n bs2 where g: "asn1_tag bs = Inr bs1" "asn1_length bs1 = Inr (n, bs2)" "n \<le> length bs2" "r = drop n bs2"
    by (auto simp: asn1_Unmarshal_def andThen_Inr_conv split: if_splits)
  from consumesD [OF asn1_tag_consumes g(1)] obtain h1 where h1: "bs = h1 @ bs1" "\<And>ys. asn1_tag (h1 @ ys) = Inr ys" by auto
  from consumesD [OF asn1_length_consumes g(2)] obtain h2 where h2: "bs1 = h2 @ bs2" "\<And>ys. asn1_length (h2 @ ys) = Inr (n, ys)"
    by auto
  have "asn1_Unmarshal ((h1 @ h2 @ take n bs2) @ ys) = Inr ys" for ys
    using h1(2) h2(2) g(3) by (simp add: asn1_Unmarshal_def)
  moreover have "bs = (h1 @ h2 @ take n bs2) @ r" using h1(1) h2(1) g(4) by simp
  ultimately show "\<exists>h. bs = h @ id r \<and> (\<forall>ys. asn1_Unmarshal (h @ ys) = Inr ys)" by (metis id_apply)
qed

lemma asn1_split:
  "asn1_Unmarshal bs = Inr rest \<longleftrightarrow> (\<exists>h. bs = h @ rest \<and> asn1_Unmarshal h = Inr [])"
proof
  assume "asn1_Unmarshal bs = Inr rest"
  from consumesD [OF asn1_Unmarshal_consumes this] obtain h where
    "bs = h @ rest" "\<forall>ys. asn1_Unmarshal (h @ ys) = Inr ys" by auto
  then show "\<exists>h. bs = h @ rest \<and> asn1_Unmarshal h = Inr []" by (metis append_Nil2)
next
  assume "\<exists>h. bs = h @ rest \<and> asn1_Unmarshal h = Inr []"
  then obtain h where h: "bs = h @ rest" "asn1_Unmarshal h = Inr []" by blast
  from consumesD [OF asn1_Unmarshal_consumes h(2)] h(1) show "asn1_Unmarshal bs = Inr rest" by auto
qed

subsection \<open>Properties\<close>

text \<open>An authenticate command is encoded exactly when its control byte is one of the three defined values,
  challenge and application parameter have 32 bytes and the key handle has 1 to 255 bytes; the APDU then
  carries the control byte as P1, the key handle with its true length, and asks for the largest response,
  as an ISO 7816-4 reader decodes it.\<close>

theorem authenticate_apdu:
  assumes "ac_Control c \<in> {ControlEnforceUserPresenceAndSign, ControlCheckOnly, ControlDontEnforceUserPresenceAndSign}"
    and "length (ac_Challenge c) = 32" and "length (ac_Application c) = 32"
    and "ac_KeyHandle c \<noteq> []" and "length (ac_KeyHandle c) \<le> 255"
  shows "\<exists>bs n. AuthenticateCommand_Encode c = Inr bs \<and> unat n = length (ac_KeyHandle c) \<and>
    apdu_decode bs = Some (0, CommandAuthenticate, ac_Control c, 0,
      ac_Challenge c @ ac_Application c @ [n] @ ac_KeyHandle c, 65536)"
proof -
  let ?d = "ac_Challenge c @ ac_Application c @ [word_of_nat (length (ac_KeyHandle c))] @ ac_KeyHandle c"
  have e: "AuthenticateCommand_Encode c = encodeAPDU CommandAuthenticate (ac_Control c) 0 ?d maxExtendedResponseLength"
    using assms by (simp add: AuthenticateCommand_Encode_def Control_Validate_def)
  obtain bs where bs: "encodeAPDU CommandAuthenticate (ac_Control c) 0 ?d maxExtendedResponseLength = Inr bs"
    using encodeAPDU_total [of ?d maxExtendedResponseLength CommandAuthenticate "ac_Control c" 0] assms(2,3,5) by auto
  have "unat (word_of_nat (length (ac_KeyHandle c)) :: byte) = length (ac_KeyHandle c)"
    using assms(5) by simp
  with e bs encodeAPDU_decodes [OF bs] show ?thesis
    by (intro exI [of _ bs] exI [of _ "word_of_nat (length (ac_KeyHandle c))"]) (simp add: maxExtendedResponseLength_def)
qed

theorem authenticate_apdu_witness:
  "\<exists>bs n. AuthenticateCommand_Encode
      \<lparr>ac_Control = 7, ac_Challenge = replicate 32 1, ac_Application = replicate 32 2, ac_KeyHandle = [3]\<rparr> = Inr bs \<and>
    unat n = 1 \<and> apdu_decode bs = Some (0, 2, 7, 0, replicate 32 1 @ replicate 32 2 @ [n, 3], 65536)"
  using authenticate_apdu [of "\<lparr>ac_Control = 7, ac_Challenge = replicate 32 1, ac_Application = replicate 32 2,
    ac_KeyHandle = [3]\<rparr>"]
  by (simp add: ControlCheckOnly_def CommandAuthenticate_def)

text \<open>The wire form of a registration response, and the responses that are well formed.\<close>

definition register_bytes :: "ctap1_register_response \<Rightarrow> bytes" where
  "register_bytes r =
     rr_ReservedByte r # rr_PublicKey r @ [word_of_nat (length (rr_KeyHandle r))] @ rr_KeyHandle r @
     rr_AttestationCertificate r @ rr_Signature r @ be16 successStatusWord"

definition register_wf :: "(bytes \<Rightarrow> err option) \<Rightarrow> ctap1_register_response \<Rightarrow> bool" where
  "register_wf parseCert r \<longleftrightarrow>
     rr_ReservedByte r = 5 \<and> length (rr_PublicKey r) = 65 \<and> length (rr_KeyHandle r) < 256 \<and>
     asn1_Unmarshal (rr_AttestationCertificate r) = Inr [] \<and> parseCert (rr_AttestationCertificate r) = None \<and>
     rr_Signature r \<noteq> []"

lemma decodeResponse_iff: "decodeResponse data = Inr payload \<longleftrightarrow> data = payload @ be16 successStatusWord"
proof
  assume d: "decodeResponse data = Inr payload"
  then have g: "2 \<le> length data" "get16 (drop (length data - 2) data) = successStatusWord" "payload = take (length data - 2) data"
    by (auto simp: decodeResponse_def Let_def split: if_splits)
  have "length (drop (length data - 2) data) = 2" using g(1) by simp
  then obtain a b where ab: "drop (length data - 2) data = [a, b]"
    by (simp only: numeral_2_eq_2 length_Suc_conv length_0_conv) blast
  have high: "\<not> bit b (8 + n)" for n using bit_imp_le_length [of b "8 + n"] by auto
  have "be16 (get16 [a, b]) = [a, b]"
    unfolding be16_def get16_def by (auto intro!: bit_word_eqI simp: bit_simps high)
  with g ab show "data = payload @ be16 successStatusWord" by (metis append_take_drop_id)
next
  assume "data = payload @ be16 successStatusWord"
  then show "decodeResponse data = Inr payload" by (simp add: decodeResponse_def Let_def)
qed

lemma register_payload_iff:
  "register_payload parseCert p = Inr r \<longleftrightarrow> register_wf parseCert r \<and> p @ be16 successStatusWord = register_bytes r"
proof
  assume d: "register_payload parseCert p = Inr r"
  define n where "n = unat (p ! 66)"
  define rem where "rem = drop (67 + n) p"
  from d obtain rest where g: "67 \<le> length p" "p ! 0 = 5" "67 + n \<le> length p" "asn1_Unmarshal rem = Inr rest"
    "parseCert (take (length rem - length rest) rem) = None" "rest \<noteq> []"
    "r = \<lparr>rr_ReservedByte = p ! 0, rr_PublicKey = slice p 1 66, rr_KeyHandle = slice p 67 (67 + n),
          rr_AttestationCertificate = take (length rem - length rest) rem, rr_Signature = rest\<rparr>"
    by (auto simp: register_payload_def Let_def n_def rem_def not_less split: if_splits sum.splits option.splits)
  from g(4) obtain h where h: "rem = h @ rest" "asn1_Unmarshal h = Inr []" using asn1_split [of rem rest] by blast
  have "p = p ! 0 # slice p 1 66 @ p ! 66 # slice p 67 (67 + n) @ h @ rest"
  proof -
    have "p = take 1 p @ drop 1 p" "drop 1 p = take 65 (drop 1 p) @ drop 65 (drop 1 p)" by (simp_all only: append_take_drop_id)
    then have "p = take 1 p @ slice p 1 66 @ drop 66 p" by (simp add: slice_def)
    moreover have "drop 66 p = p ! 66 # drop 67 p" using g(1) by (subst Cons_nth_drop_Suc [symmetric]) simp_all
    moreover have "drop 67 p = slice p 67 (67 + n) @ rem"
      using append_take_drop_id [of n "drop 67 p"] by (simp add: rem_def slice_def add.commute)
    moreover have "take 1 p = [p ! 0]" using g(1) by (cases p) auto
    ultimately show ?thesis using h(1) by simp
  qed
  moreover have "(word_of_nat (length (slice p 67 (67 + n))) :: byte) = p ! 66"
    using g(3) by (simp add: slice_def n_def)
  moreover have "length (slice p 1 66) = 65" "length (slice p 67 (67 + n)) = n" using g(1,3) by (simp_all add: slice_def)
  moreover have "n < 256" by (simp add: n_def)
  ultimately show "register_wf parseCert r \<and> p @ be16 successStatusWord = register_bytes r"
    using g h by (simp add: register_wf_def register_bytes_def)
next
  assume w: "register_wf parseCert r \<and> p @ be16 successStatusWord = register_bytes r"
  let ?n = "length (rr_KeyHandle r)" and ?rem = "rr_AttestationCertificate r @ rr_Signature r"
  from w have wf: "rr_ReservedByte r = 5" "length (rr_PublicKey r) = 65" "?n < 256"
    "asn1_Unmarshal (rr_AttestationCertificate r) = Inr []" "parseCert (rr_AttestationCertificate r) = None"
    "rr_Signature r \<noteq> []" by (simp_all add: register_wf_def)
  have p: "p = 5 # rr_PublicKey r @ word_of_nat ?n # rr_KeyHandle r @ ?rem"
    using w wf(1) by (simp add: register_bytes_def)
  have u: "asn1_Unmarshal ?rem = Inr (rr_Signature r)" using wf(4) asn1_split by blast
  have "rr_AttestationCertificate r \<noteq> []" using wf(4) by (auto simp: asn1_Unmarshal_def asn1_tag_def)
  moreover have "p ! 66 = word_of_nat ?n" using p wf(2) by (simp add: nth_append nth_Cons')
  moreover have "drop (67 + ?n) p = ?rem"
  proof -
    let ?q = "5 # rr_PublicKey r @ word_of_nat ?n # rr_KeyHandle r"
    have "drop (length ?q) (?q @ ?rem) = ?rem" using append_eq_conv_conj [of ?q ?rem "?q @ ?rem"] by metis
    moreover have "length ?q = 67 + ?n" using wf(2) by simp
    moreover have "?q @ ?rem = p" using p by simp
    ultimately show ?thesis by (simp only:)
  qed
  moreover have "slice p 67 (67 + ?n) = rr_KeyHandle r" "slice p 1 66 = rr_PublicKey r" using p wf(2) by (simp_all add: slice_def)
  moreover have "length p = 67 + ?n + length ?rem" using p wf(2) by simp
  ultimately show "register_payload parseCert p = Inr r"
    using wf u p by (simp add: register_payload_def Let_def)
qed

text \<open>The registration decoder accepts exactly the wire forms of well-formed responses (reserved byte 5,
  a 65 byte public key, a key handle of at most 255 bytes, one DER element that parses as a certificate,
  a signature that is not empty, status 0x9000), and returns exactly the response that was encoded.\<close>

theorem register_response_exact:
  "RegisterCommand_DecodeResponse parseCert True data = Inr r \<longleftrightarrow> register_wf parseCert r \<and> data = register_bytes r"
proof -
  have "RegisterCommand_DecodeResponse parseCert True data = Inr r \<longleftrightarrow>
      (\<exists>p. data = p @ be16 successStatusWord \<and> register_wf parseCert r \<and> p @ be16 successStatusWord = register_bytes r)"
    by (simp add: RegisterCommand_DecodeResponse_def andThen_Inr_conv decodeResponse_iff register_payload_iff)
  moreover have "\<exists>p. register_bytes r = p @ be16 successStatusWord"
    by (intro exI [of _ "rr_ReservedByte r # rr_PublicKey r @ [word_of_nat (length (rr_KeyHandle r))] @ rr_KeyHandle r @
      rr_AttestationCertificate r @ rr_Signature r"]) (simp add: register_bytes_def)
  ultimately show ?thesis by auto
qed

end
