(* ===== verification/Ctap2.thy ===== *)
theory Ctap2
  imports GoErrors
begin

text \<open>
  CTAP2 messages: \<open>pkg/ctap2\<close>. A request is a command byte and the CBOR encoding of a struct, a response is a
  status byte and CBOR. Structs are translated to CBOR values by their field tags (integer or text keys,
  \<open>omitempty\<close>); the byte encoding of CBOR values and the decoding of responses belong to the package
  \<open>github.com/fxamacker/cbor/v2\<close>, and are the fields of the parameter \<open>cbor_ops\<close>. A decoding function gets the
  target's value and returns the new one, with an error or nil. The dynamic type test of a decoding target
  is the argument \<open>ok\<close>. Go's nil and empty slices are both the empty list.
\<close>

subsection \<open>Data\<close>

datatype cbor =
    CInt int | CBytes bytes | CText string | CBool bool | CArray "cbor list" | CMap "(cbor \<times> cbor) list"

record cose_key =
  ck_KeyType :: int
  ck_Algorithm :: int
  ck_Curve :: int
  ck_X :: bytes
  ck_Y :: bytes

record relying_party =
  rp_id :: string
  rp_Name :: string

record user_entity =
  ue_ID :: bytes
  ue_Name :: string
  ue_DisplayName :: string

record credential_parameter =
  cp_Type :: string
  cp_Alg :: int

record credential_descriptor =
  cd_Type :: string
  cd_ID :: bytes
  cd_Transports :: "string list"

record mc_options =
  mo_ResidentKey :: bool
  mo_UserPresence :: bool
  mo_UserVerification :: bool

record ga_options =
  go_UserPresence :: bool
  go_UserVerification :: bool

definition COSEKeyTypeEC2 :: int where "COSEKeyTypeEC2 = 2"
definition COSEAlgorithmECDHESHKDF256 :: int where "COSEAlgorithmECDHESHKDF256 = -25"
definition COSECurveP256 :: int where "COSECurveP256 = 1"

definition PermissionMakeCredential :: byte where "PermissionMakeCredential = 0x01"
definition PermissionGetAssertion :: byte where "PermissionGetAssertion = 0x02"
definition PermissionCredentialManagement :: byte where "PermissionCredentialManagement = 0x04"

definition ValidateEC2 :: "cose_key \<Rightarrow> err option" where
  "ValidateEC2 key =
     (if ck_KeyType key \<noteq> COSEKeyTypeEC2 then Some (TextError ''ctap2: COSE key type must be 2'')
      else if ck_Algorithm key \<noteq> 0 \<and> ck_Algorithm key \<noteq> COSEAlgorithmECDHESHKDF256
        then Some (TextError ''ctap2: COSE key algorithm must be -25'')
      else if ck_Curve key \<noteq> COSECurveP256 then Some (TextError ''ctap2: COSE key curve must be 1'')
      else if ck_X key = [] \<or> ck_Y key = [] then Some (TextError ''ctap2: COSE key must include both EC2 coordinates'')
      else if length (ck_X key) > 32 \<or> length (ck_Y key) > 32
        then Some (TextError ''ctap2: COSE key coordinates must be at most 32 bytes'')
      else None)"

subsection \<open>Struct tags\<close>

text \<open>A field with \<open>omitempty\<close> is absent when its value is empty.\<close>

definition omitempty :: "bool \<Rightarrow> 'k \<Rightarrow> 'v \<Rightarrow> ('k \<times> 'v) list" where
  "omitempty isEmpty k v = (if isEmpty then [] else [(k, v)])"

definition cbor_bytes_opt :: "int \<Rightarrow> bytes \<Rightarrow> (cbor \<times> cbor) list" where
  "cbor_bytes_opt k bs = omitempty (bs = []) (CInt k) (CBytes bs)"

definition cbor_uint_opt :: "int \<Rightarrow> u64 \<Rightarrow> (cbor \<times> cbor) list" where
  "cbor_uint_opt k n = omitempty (n = 0) (CInt k) (CInt (uint n))"

definition cbor_int_opt :: "int \<Rightarrow> int \<Rightarrow> (cbor \<times> cbor) list" where
  "cbor_int_opt k n = omitempty (n = 0) (CInt k) (CInt n)"

definition cbor_flag :: "string \<Rightarrow> bool \<Rightarrow> (cbor \<times> cbor) list" where
  "cbor_flag k b = omitempty (\<not> b) (CText k) (CBool b)"

definition cbor_ptr_opt :: "int \<Rightarrow> ('a \<Rightarrow> cbor) \<Rightarrow> 'a option \<Rightarrow> (cbor \<times> cbor) list" where
  "cbor_ptr_opt k f p = (case p of None \<Rightarrow> [] | Some x \<Rightarrow> [(CInt k, f x)])"

definition cose_key_cbor :: "cose_key \<Rightarrow> cbor" where
  "cose_key_cbor key =
     CMap ([(CInt 1, CInt (ck_KeyType key))] @ cbor_int_opt 3 (ck_Algorithm key) @ cbor_int_opt (- 1) (ck_Curve key) @
           cbor_bytes_opt (- 2) (ck_X key) @ cbor_bytes_opt (- 3) (ck_Y key))"

definition relying_party_cbor :: "relying_party \<Rightarrow> cbor" where
  "relying_party_cbor rp =
     CMap ([(CText ''id'', CText (rp_id rp))] @ omitempty (rp_Name rp = []) (CText ''name'') (CText (rp_Name rp)))"

definition user_entity_cbor :: "user_entity \<Rightarrow> cbor" where
  "user_entity_cbor u =
     CMap ([(CText ''id'', CBytes (ue_ID u))] @ omitempty (ue_Name u = []) (CText ''name'') (CText (ue_Name u)) @
           omitempty (ue_DisplayName u = []) (CText ''displayName'') (CText (ue_DisplayName u)))"

definition credential_parameter_cbor :: "credential_parameter \<Rightarrow> cbor" where
  "credential_parameter_cbor p = CMap [(CText ''type'', CText (cp_Type p)), (CText ''alg'', CInt (cp_Alg p))]"

definition credential_descriptor_cbor :: "credential_descriptor \<Rightarrow> cbor" where
  "credential_descriptor_cbor d =
     CMap ([(CText ''type'', CText (cd_Type d)), (CText ''id'', CBytes (cd_ID d))] @
           omitempty (cd_Transports d = []) (CText ''transports'') (CArray (map CText (cd_Transports d))))"

definition mc_options_cbor :: "mc_options \<Rightarrow> cbor" where
  "mc_options_cbor opts =
     CMap (cbor_flag ''rk'' (mo_ResidentKey opts) @ cbor_flag ''up'' (mo_UserPresence opts) @
           cbor_flag ''uv'' (mo_UserVerification opts))"

definition ga_options_cbor :: "ga_options \<Rightarrow> cbor" where
  "ga_options_cbor opts = CMap (cbor_flag ''up'' (go_UserPresence opts) @ cbor_flag ''uv'' (go_UserVerification opts))"

type_synonym extensions = "(string \<times> cbor) list"

definition extensions_cbor :: "extensions \<Rightarrow> cbor" where
  "extensions_cbor xs = CMap (map (\<lambda>(k, v). (CText k, v)) xs)"

subsection \<open>Responses\<close>

record get_info_wire =
  gi_Versions :: "string list"
  gi_Extensions :: "string list"
  gi_AAGUID :: bytes
  gi_Options :: "string \<rightharpoonup> bool"
  gi_MaxMsgSize :: u64
  gi_PinUVAuthProtocols :: "u64 list"
  gi_MaxCredentialCountInList :: u64
  gi_MaxCredentialIDLength :: u64
  gi_Transports :: "string list"
  gi_Algorithms :: "credential_parameter list"
  gi_MaxSerializedLargeBlobArray :: u64
  gi_ForcePINChange :: bool
  gi_MinPINLength :: u64
  gi_FirmwareVersion :: u64
  gi_MaxCredBlobLength :: u64
  gi_MaxRPIDsForSetMinPINLength :: u64
  gi_PreferredPlatformUVAttempts :: u64
  gi_UVModality :: u64
  gi_Certifications :: "string \<rightharpoonup> u64"
  gi_RemainingDiscoverableCredentials :: u64
  gi_VendorPrototypeConfigCommands :: "u64 list"

record get_info_response = get_info_wire +
  gi_Raw :: "u64 \<rightharpoonup> bytes"

text \<open>\<open>mr_AttestationStatement\<close> is \<open>None\<close> for a nil map.\<close>

record make_credential_response =
  mr_Format :: string
  mr_AuthData :: bytes
  mr_AttestationStatement :: "(string \<times> cbor) list option"
  mr_EnterpriseAttestation :: bool
  mr_LargeBlobKey :: bytes

record get_assertion_response =
  gr_Credential :: credential_descriptor
  gr_AuthData :: bytes
  gr_Signature :: bytes
  gr_User :: "user_entity option"
  gr_NumberOfCredentials :: u64
  gr_UserSelected :: bool
  gr_LargeBlobKey :: bytes

record client_pin_response =
  pr_KeyAgreement :: "cose_key option"
  pr_PinUVAuthToken :: bytes
  pr_PINRetries :: u64
  pr_PowerCycleState :: bool
  pr_UVRetries :: u64

record cred_mgmt_response =
  cr_ExistingCount :: u64
  cr_MaxRemainingCount :: u64
  cr_RP :: "relying_party option"
  cr_RPIDHash :: bytes
  cr_TotalRPs :: u64
  cr_User :: "user_entity option"
  cr_CredentialID :: "credential_descriptor option"
  cr_PublicKey :: "(int \<times> cbor) list"
  cr_TotalCredentials :: u64
  cr_CredProtect :: u64
  cr_LargeBlobKey :: bytes

type_synonym 'r decoder = "bytes \<Rightarrow> 'r \<Rightarrow> 'r \<times> err option"

record cbor_ops =
  cb_marshal :: "cbor \<Rightarrow> bytes res"
  cb_wellformed :: "bytes \<Rightarrow> err option"
  cb_getInfoWire :: "bytes \<Rightarrow> get_info_wire res"
  cb_rawMap :: "bytes \<Rightarrow> (u64 \<rightharpoonup> bytes) res"
  cb_makeCredential :: "make_credential_response decoder"
  cb_getAssertion :: "get_assertion_response decoder"
  cb_clientPIN :: "client_pin_response decoder"
  cb_credMgmt :: "cred_mgmt_response decoder"

subsection \<open>Encoding and decoding\<close>

text \<open>\<open>encodeCommand\<close>; \<open>None\<close> is the nil request.\<close>

definition encodeCommand :: "cbor_ops \<Rightarrow> byte \<Rightarrow> cbor option \<Rightarrow> bytes res" where
  "encodeCommand ops command request =
     (case request of
        None \<Rightarrow> Inr [command]
      | Some v \<Rightarrow>
          (case cb_marshal ops v of
             Inl e \<Rightarrow> Inl (WrapError ''ctap2: encode command'' [e])
           | Inr encoded \<Rightarrow> Inr (command # encoded)))"

text \<open>\<open>decodeCommandResponse\<close>; \<open>None\<close> is the nil target.\<close>

definition decodeCommandResponse :: "'r decoder option \<Rightarrow> 'r decoder" where
  "decodeCommandResponse unmarshal data target =
     (case data of
        [] \<Rightarrow> (target, Some (TextError ''ctap2: response is empty''))
      | status # rest \<Rightarrow>
          if status \<noteq> 0x00 then (target, Some (Ctap2Error status))
          else if rest = [] then (target, None)
          else
            (case unmarshal of
               None \<Rightarrow> (target, None)
             | Some f \<Rightarrow>
                 (case f rest target of
                    (target', Some e) \<Rightarrow> (target', Some (WrapError ''ctap2: decode response'' [e]))
                  | (target', None) \<Rightarrow> (target', None))))"

text \<open>The common shape of the \<open>DecodeResponse\<close> methods: \<open>DecodeInto\<close>, then \<open>decodeCommandResponse\<close>, then
  checks on the target.\<close>

definition decode_checked ::
  "string \<Rightarrow> 'r decoder option \<Rightarrow> ('r \<Rightarrow> err option) \<Rightarrow> bool \<Rightarrow> 'r decoder" where
  "decode_checked operation unmarshal check ok data target =
     (if \<not> ok then (target, Some (TextError (''ctap2: '' @ operation @ '' response target has the wrong type'')))
      else
        (case decodeCommandResponse unmarshal data target of
           (target', Some e) \<Rightarrow> (target', Some e)
         | (target', None) \<Rightarrow> (target', check target')))"

definition ctap2_statusText :: "byte \<Rightarrow> string" where
  "ctap2_statusText code =
     (case map_of
        [(0x00, ''success''), (0x01, ''invalid command''), (0x02, ''invalid parameter''), (0x03, ''invalid length''),
         (0x04, ''invalid sequence''), (0x05, ''timeout''), (0x06, ''channel busy''), (0x0a, ''lock required''),
         (0x0b, ''invalid channel''), (0x11, ''CBOR unexpected type''), (0x12, ''invalid CBOR''),
         (0x14, ''missing parameter''), (0x15, ''limit exceeded''), (0x16, ''unsupported extension''),
         (0x17, ''fingerprint database full''), (0x18, ''large blob storage full''), (0x19, ''credential excluded''),
         (0x21, ''processing''), (0x22, ''invalid credential''), (0x23, ''user action pending''),
         (0x24, ''operation pending''), (0x25, ''no operations''), (0x26, ''unsupported algorithm''),
         (0x27, ''operation denied''), (0x28, ''key store full''), (0x2b, ''unsupported option''),
         (0x2c, ''invalid option''), (0x2d, ''keepalive cancel''), (0x2e, ''no credentials''),
         (0x2f, ''user action timeout''), (0x30, ''not allowed''), (0x31, ''PIN invalid''), (0x32, ''PIN blocked''),
         (0x33, ''PIN authentication invalid''), (0x34, ''PIN authentication blocked''), (0x35, ''PIN not set''),
         (0x36, ''pinUvAuthToken required''), (0x37, ''PIN policy violation''), (0x39, ''request too large''),
         (0x3a, ''action timeout''), (0x3b, ''user presence required''), (0x3c, ''user verification blocked''),
         (0x3d, ''integrity failure''), (0x3e, ''invalid subcommand''), (0x3f, ''user verification invalid''),
         (0x40, ''unauthorized permission''), (0x7f, ''other error''), (0xdf, ''specification-defined error boundary''),
         (0xe0, ''extension-specific error''), (0xef, ''extension-specific error boundary''),
         (0xf0, ''vendor-specific error''), (0xff, ''vendor-specific error boundary'')] code of
        Some message \<Rightarrow> message
      | None \<Rightarrow> ''unknown status'')"

subsection \<open>GetInfo and Reset\<close>

definition CommandGetInfo :: byte where "CommandGetInfo = 0x04"
definition CommandReset :: byte where "CommandReset = 0x07"

definition GetInfoCommand_Encode :: "bytes res" where
  "GetInfoCommand_Encode = Inr [CommandGetInfo]"

definition GetInfoResponse_Validate :: "get_info_response \<Rightarrow> err option" where
  "GetInfoResponse_Validate response =
     (if gi_Versions response = [] then Some (TextError ''ctap2: get info response missing versions'')
      else if length (gi_AAGUID response) \<noteq> 16 then Some (TextError ''ctap2: get info response has invalid AAGUID length'')
      else if gi_Raw response 0x06 \<noteq> None \<and> gi_PinUVAuthProtocols response = []
        then Some (TextError ''ctap2: get info response pinUvAuthProtocols must not be empty'')
      else if gi_Raw response 0x09 \<noteq> None \<and> gi_Transports response = []
        then Some (TextError ''ctap2: get info response transports must not be empty'')
      else if gi_Raw response 0x0A \<noteq> None \<and> gi_Algorithms response = []
        then Some (TextError ''ctap2: get info response algorithms must not be empty'')
      else None)"

text \<open>\<open>UnmarshalCBOR\<close>, which the CBOR package calls for a \<open>GetInfoResponse\<close> after checking that the data is
  well formed.\<close>

definition GetInfoResponse_UnmarshalCBOR :: "cbor_ops \<Rightarrow> get_info_response decoder" where
  "GetInfoResponse_UnmarshalCBOR ops data response =
     (case cb_getInfoWire ops data of
        Inl e \<Rightarrow> (response, Some e)
      | Inr wire \<Rightarrow>
          (case cb_rawMap ops data of
             Inl e \<Rightarrow> (response, Some e)
           | Inr raw \<Rightarrow> (get_info_wire.extend wire \<lparr>gi_Raw = raw\<rparr>, None)))"

definition getInfo_unmarshal :: "cbor_ops \<Rightarrow> get_info_response decoder" where
  "getInfo_unmarshal ops data response =
     (case cb_wellformed ops data of
        Some e \<Rightarrow> (response, Some e)
      | None \<Rightarrow> GetInfoResponse_UnmarshalCBOR ops data response)"

definition GetInfoCommand_DecodeResponse :: "cbor_ops \<Rightarrow> bool \<Rightarrow> get_info_response decoder" where
  "GetInfoCommand_DecodeResponse ops =
     decode_checked ''get info'' (Some (getInfo_unmarshal ops)) GetInfoResponse_Validate"

definition ResetCommand_Encode :: "cbor_ops \<Rightarrow> bytes res" where
  "ResetCommand_Encode ops = encodeCommand ops CommandReset None"

definition ResetCommand_DecodeResponse :: "bool \<Rightarrow> unit decoder" where
  "ResetCommand_DecodeResponse = decode_checked ''reset'' None (\<lambda>_. None)"

subsection \<open>MakeCredential\<close>

definition CommandMakeCredential :: byte where "CommandMakeCredential = 0x01"

record make_credential_command =
  mk_ClientDataHash :: bytes
  mk_RelyingParty :: relying_party
  mk_User :: user_entity
  mk_CredentialParameters :: "credential_parameter list"
  mk_ExcludeList :: "credential_descriptor list"
  mk_Extensions :: extensions
  mk_Options :: "mc_options option"
  mk_PinUVAuthParam :: bytes
  mk_PinUVAuthProtocol :: u64
  mk_EnterpriseAttestation :: u64

definition makeCredentialRequest :: "make_credential_command \<Rightarrow> cbor" where
  "makeCredentialRequest c =
     CMap ([(CInt 1, CBytes (mk_ClientDataHash c)), (CInt 2, relying_party_cbor (mk_RelyingParty c)),
            (CInt 3, user_entity_cbor (mk_User c)),
            (CInt 4, CArray (map credential_parameter_cbor (mk_CredentialParameters c)))] @
           omitempty (mk_ExcludeList c = []) (CInt 5) (CArray (map credential_descriptor_cbor (mk_ExcludeList c))) @
           omitempty (mk_Extensions c = []) (CInt 6) (extensions_cbor (mk_Extensions c)) @
           cbor_ptr_opt 7 mc_options_cbor (mk_Options c) @
           cbor_bytes_opt 8 (mk_PinUVAuthParam c) @ cbor_uint_opt 9 (mk_PinUVAuthProtocol c) @
           cbor_uint_opt 10 (mk_EnterpriseAttestation c))"

definition MakeCredentialCommand_Encode :: "cbor_ops \<Rightarrow> make_credential_command \<Rightarrow> bytes res" where
  "MakeCredentialCommand_Encode ops c =
     (if length (mk_ClientDataHash c) \<noteq> 32 then Inl (TextError ''ctap2: make credential clientDataHash must be 32 bytes'')
      else if rp_id (mk_RelyingParty c) = [] then Inl (TextError ''ctap2: make credential rp.id is required'')
      else if mk_CredentialParameters c = [] then Inl (TextError ''ctap2: make credential pubKeyCredParams is required'')
      else encodeCommand ops CommandMakeCredential (Some (makeCredentialRequest c)))"

definition make_credential_check :: "make_credential_response \<Rightarrow> err option" where
  "make_credential_check target =
     (if mr_Format target = [] then Some (TextError ''ctap2: make credential response missing fmt'')
      else if mr_AuthData target = [] then Some (TextError ''ctap2: make credential response missing authData'')
      else if mr_AttestationStatement target = None then Some (TextError ''ctap2: make credential response missing attStmt'')
      else None)"

definition MakeCredentialCommand_DecodeResponse :: "cbor_ops \<Rightarrow> bool \<Rightarrow> make_credential_response decoder" where
  "MakeCredentialCommand_DecodeResponse ops =
     decode_checked ''make credential'' (Some (cb_makeCredential ops)) make_credential_check"

subsection \<open>GetAssertion\<close>

definition CommandGetAssertion :: byte where "CommandGetAssertion = 0x02"

record get_assertion_command =
  ga_RPID :: string
  ga_ClientDataHash :: bytes
  ga_AllowList :: "credential_descriptor list"
  ga_Extensions :: extensions
  ga_Options :: "ga_options option"
  ga_PinUVAuthParam :: bytes
  ga_PinUVAuthProtocol :: u64

definition getAssertionRequest :: "get_assertion_command \<Rightarrow> cbor" where
  "getAssertionRequest c =
     CMap ([(CInt 1, CText (ga_RPID c)), (CInt 2, CBytes (ga_ClientDataHash c))] @
           omitempty (ga_AllowList c = []) (CInt 3) (CArray (map credential_descriptor_cbor (ga_AllowList c))) @
           omitempty (ga_Extensions c = []) (CInt 4) (extensions_cbor (ga_Extensions c)) @
           cbor_ptr_opt 5 ga_options_cbor (ga_Options c) @
           cbor_bytes_opt 6 (ga_PinUVAuthParam c) @ cbor_uint_opt 7 (ga_PinUVAuthProtocol c))"

definition GetAssertionCommand_Encode :: "cbor_ops \<Rightarrow> get_assertion_command \<Rightarrow> bytes res" where
  "GetAssertionCommand_Encode ops c =
     (if ga_RPID c = [] then Inl (TextError ''ctap2: get assertion rpId is required'')
      else if length (ga_ClientDataHash c) \<noteq> 32 then Inl (TextError ''ctap2: get assertion clientDataHash must be 32 bytes'')
      else encodeCommand ops CommandGetAssertion (Some (getAssertionRequest c)))"

definition get_assertion_check :: "get_assertion_response \<Rightarrow> err option" where
  "get_assertion_check target =
     (if cd_ID (gr_Credential target) = [] then Some (TextError ''ctap2: get assertion response missing credential id'')
      else if gr_AuthData target = [] then Some (TextError ''ctap2: get assertion response missing authData'')
      else if gr_Signature target = [] then Some (TextError ''ctap2: get assertion response missing signature'')
      else None)"

definition GetAssertionCommand_DecodeResponse :: "cbor_ops \<Rightarrow> bool \<Rightarrow> get_assertion_response decoder" where
  "GetAssertionCommand_DecodeResponse ops =
     decode_checked ''get assertion'' (Some (cb_getAssertion ops)) get_assertion_check"

subsection \<open>ClientPIN\<close>

definition CommandClientPIN :: byte where "CommandClientPIN = 0x06"

definition ClientPINGetRetries :: u64 where "ClientPINGetRetries = 0x01"
definition ClientPINGetKeyAgreement :: u64 where "ClientPINGetKeyAgreement = 0x02"
definition ClientPINSetPIN :: u64 where "ClientPINSetPIN = 0x03"
definition ClientPINChangePIN :: u64 where "ClientPINChangePIN = 0x04"
definition ClientPINGetPINToken :: u64 where "ClientPINGetPINToken = 0x05"
definition ClientPINGetPINTokenWithUV :: u64 where "ClientPINGetPINTokenWithUV = 0x06"
definition ClientPINGetPINTokenWithPIN :: u64 where "ClientPINGetPINTokenWithPIN = 0x09"

record client_pin_command =
  pn_PinUVAuthProtocol :: u64
  pn_Subcommand :: u64
  pn_KeyAgreement :: "cose_key option"
  pn_PinUVAuthParam :: bytes
  pn_NewPINEnc :: bytes
  pn_PINHashEnc :: bytes
  pn_Permissions :: byte
  pn_PermissionsRPID :: string

definition NewClientPINCommand :: "u64 \<Rightarrow> u64 \<Rightarrow> client_pin_command" where
  "NewClientPINCommand protocolVersion subcommand =
     \<lparr>pn_PinUVAuthProtocol = protocolVersion, pn_Subcommand = subcommand, pn_KeyAgreement = None,
      pn_PinUVAuthParam = [], pn_NewPINEnc = [], pn_PINHashEnc = [], pn_Permissions = 0, pn_PermissionsRPID = []\<rparr>"

definition clientPINRequest :: "client_pin_command \<Rightarrow> cbor" where
  "clientPINRequest c =
     CMap (cbor_uint_opt 1 (pn_PinUVAuthProtocol c) @ [(CInt 2, CInt (uint (pn_Subcommand c)))] @
           cbor_ptr_opt 3 cose_key_cbor (pn_KeyAgreement c) @ cbor_bytes_opt 4 (pn_PinUVAuthParam c) @
           cbor_bytes_opt 5 (pn_NewPINEnc c) @ cbor_bytes_opt 6 (pn_PINHashEnc c) @
           cbor_uint_opt 9 (ucast (pn_Permissions c)) @
           omitempty (pn_PermissionsRPID c = []) (CInt 10) (CText (pn_PermissionsRPID c)))"

definition ClientPINCommand_Encode :: "cbor_ops \<Rightarrow> client_pin_command \<Rightarrow> bytes res" where
  "ClientPINCommand_Encode ops c =
     (if pn_Subcommand c = 0 then Inl (TextError ''ctap2: client PIN subcommand is required'')
      else
        (case Option.bind (pn_KeyAgreement c) ValidateEC2 of
           Some e \<Rightarrow> Inl (WrapError ''ctap2: client PIN key agreement'' [e])
         | None \<Rightarrow> encodeCommand ops CommandClientPIN (Some (clientPINRequest c))))"

definition client_pin_check :: "client_pin_response \<Rightarrow> err option" where
  "client_pin_check target =
     map_option (\<lambda>e. WrapError ''ctap2: decode client PIN response'' [e]) (Option.bind (pr_KeyAgreement target) ValidateEC2)"

definition ClientPINCommand_DecodeResponse :: "cbor_ops \<Rightarrow> bool \<Rightarrow> client_pin_response decoder" where
  "ClientPINCommand_DecodeResponse ops =
     decode_checked ''client PIN'' (Some (cb_clientPIN ops)) client_pin_check"

subsection \<open>CredentialManagement\<close>

definition CommandCredentialManagement :: byte where "CommandCredentialManagement = 0x0a"
definition CommandCredentialManagementPreview :: byte where "CommandCredentialManagementPreview = 0x41"

definition CredentialManagementGetMetadata :: u64 where "CredentialManagementGetMetadata = 0x01"
definition CredentialManagementEnumerateRPsBegin :: u64 where "CredentialManagementEnumerateRPsBegin = 0x02"
definition CredentialManagementEnumerateRPsGetNext :: u64 where "CredentialManagementEnumerateRPsGetNext = 0x03"
definition CredentialManagementEnumerateCredentialsBegin :: u64 where "CredentialManagementEnumerateCredentialsBegin = 0x04"
definition CredentialManagementEnumerateCredentialsGetNext :: u64 where "CredentialManagementEnumerateCredentialsGetNext = 0x05"
definition CredentialManagementDeleteCredential :: u64 where "CredentialManagementDeleteCredential = 0x06"

record cred_mgmt_params =
  sp_RPIDHash :: bytes
  sp_CredentialID :: "credential_descriptor option"
  sp_User :: "user_entity option"

record cred_mgmt_command =
  cm_CommandCode :: byte
  cm_Subcommand :: u64
  cm_SubcommandParams :: "cred_mgmt_params option"
  cm_PinUVAuthProtocol :: u64
  cm_PinUVAuthParam :: bytes

definition NewCredentialManagementCommand :: "byte \<Rightarrow> u64 \<Rightarrow> cred_mgmt_command" where
  "NewCredentialManagementCommand commandCode subcommand =
     \<lparr>cm_CommandCode = (if commandCode = 0 then CommandCredentialManagement else commandCode),
      cm_Subcommand = subcommand, cm_SubcommandParams = None, cm_PinUVAuthProtocol = 0, cm_PinUVAuthParam = []\<rparr>"

definition CommandByte :: "cred_mgmt_command \<Rightarrow> byte" where
  "CommandByte c = (if cm_CommandCode c = 0 then CommandCredentialManagement else cm_CommandCode c)"

definition cred_mgmt_params_cbor :: "cred_mgmt_params \<Rightarrow> cbor" where
  "cred_mgmt_params_cbor p =
     CMap (cbor_bytes_opt 1 (sp_RPIDHash p) @ cbor_ptr_opt 2 credential_descriptor_cbor (sp_CredentialID p) @
           cbor_ptr_opt 3 user_entity_cbor (sp_User p))"

definition encodedSubcommandParams :: "cbor_ops \<Rightarrow> cred_mgmt_command \<Rightarrow> bytes res" where
  "encodedSubcommandParams ops c =
     (case cm_SubcommandParams c of
        None \<Rightarrow> Inr []
      | Some p \<Rightarrow>
          (case cb_marshal ops (cred_mgmt_params_cbor p) of
             Inl e \<Rightarrow> Inl (WrapError ''ctap2: encode credential management params'' [e])
           | Inr encoded \<Rightarrow> Inr encoded))"

definition AuthenticationMessage :: "cbor_ops \<Rightarrow> cred_mgmt_command \<Rightarrow> bytes res" where
  "AuthenticationMessage ops c =
     (if cm_Subcommand c = 0 then Inl (TextError ''ctap2: credential management subcommand is required'')
      else andThen (encodedSubcommandParams ops c) (\<lambda>encoded. Inr (ucast (cm_Subcommand c) # encoded)))"

definition credentialManagementRequest :: "cred_mgmt_command \<Rightarrow> cbor" where
  "credentialManagementRequest c =
     CMap ([(CInt 1, CInt (uint (cm_Subcommand c)))] @ cbor_ptr_opt 2 cred_mgmt_params_cbor (cm_SubcommandParams c) @
           cbor_uint_opt 3 (cm_PinUVAuthProtocol c) @ cbor_bytes_opt 4 (cm_PinUVAuthParam c))"

definition CredentialManagementCommand_Encode :: "cbor_ops \<Rightarrow> cred_mgmt_command \<Rightarrow> bytes res" where
  "CredentialManagementCommand_Encode ops c =
     (if cm_Subcommand c = 0 then Inl (TextError ''ctap2: credential management subcommand is required'')
      else encodeCommand ops (CommandByte c) (Some (credentialManagementRequest c)))"

definition CredentialManagementCommand_DecodeResponse :: "cbor_ops \<Rightarrow> bool \<Rightarrow> cred_mgmt_response decoder" where
  "CredentialManagementCommand_DecodeResponse ops =
     decode_checked ''credential management'' (Some (cb_credMgmt ops)) (\<lambda>_. None)"

end
