(* ===== verification/PinProtocol.thy ===== *)
theory PinProtocol
  imports GoIO Ctap2
begin

text \<open>
  The PIN/UV authentication protocols: \<open>internal/client/ctap2/protocol.go\<close>. The primitives of Go's crypto packages
  are the parameter \<open>crypto_ops\<close>: SHA-256, HMAC-SHA-256, HKDF, the AES block functions, P-256 keys (a private
  key is opaque, a public key is its 65 byte encoding) and random bytes, which are drawn from the world. CBC
  mode is written out. What the code relies on is the predicate \<open>crypto_ok\<close>.
\<close>

record 'w crypto_ops =
  cy_sha256 :: "bytes \<Rightarrow> bytes"
  cy_hmac :: "bytes \<Rightarrow> bytes \<Rightarrow> bytes"
  cy_hkdf :: "bytes \<Rightarrow> bytes \<Rightarrow> string \<Rightarrow> nat \<Rightarrow> bytes res"
  cy_aes :: "bytes \<Rightarrow> bytes \<Rightarrow> bytes"
  cy_aesInv :: "bytes \<Rightarrow> bytes \<Rightarrow> bytes"
  cy_newPublicKey :: "bytes \<Rightarrow> err option"
  cy_public :: "bytes \<Rightarrow> bytes"
  cy_ecdh :: "bytes \<Rightarrow> bytes \<Rightarrow> bytes res"
  cy_generate :: "'w \<Rightarrow> bytes res \<times> 'w"
  cy_rand :: "nat \<Rightarrow> 'w \<Rightarrow> bytes res \<times> 'w"

subsection \<open>AES-CBC\<close>

definition BlockSize :: nat where "BlockSize = 16"

definition xor_bytes :: "bytes \<Rightarrow> bytes \<Rightarrow> bytes" where
  "xor_bytes a b = map2 (\<lambda>x y. x XOR y) a b"

text \<open>\<open>aes.NewCipher\<close> accepts keys of 16, 24 and 32 bytes.\<close>

definition aes_NewCipher :: "bytes \<Rightarrow> err option" where
  "aes_NewCipher key = (if length key \<in> {16, 24, 32} then None else Some (TextError ''crypto/aes: invalid key size''))"

function cbc_encrypt :: "(bytes \<Rightarrow> bytes) \<Rightarrow> bytes \<Rightarrow> bytes \<Rightarrow> bytes" where
  "cbc_encrypt blk iv p =
     (if length p < BlockSize then []
      else let c = blk (xor_bytes iv (take BlockSize p)) in c @ cbc_encrypt blk c (drop BlockSize p))"
  by pat_completeness auto
termination
  by (relation "measure (\<lambda>(blk, iv, p). length p)") (auto simp: BlockSize_def)

function cbc_decrypt :: "(bytes \<Rightarrow> bytes) \<Rightarrow> bytes \<Rightarrow> bytes \<Rightarrow> bytes" where
  "cbc_decrypt blk iv c =
     (if length c < BlockSize then []
      else xor_bytes iv (blk (take BlockSize c)) @ cbc_decrypt blk (take BlockSize c) (drop BlockSize c))"
  by pat_completeness auto
termination
  by (relation "measure (\<lambda>(blk, iv, c). length c)") (auto simp: BlockSize_def)

declare cbc_encrypt.simps [simp del] cbc_decrypt.simps [simp del]

subsection \<open>Protocol functions\<close>

record pin_session =
  ps_version :: u64
  ps_sharedSecret :: bytes
  ps_keyAgreement :: cose_key

definition SelectPINUVAuthProtocol :: "u64 list \<Rightarrow> u64 res" where
  "SelectPINUVAuthProtocol protocols =
     (if protocols = [] then Inr 1
      else if 2 \<in> set protocols then Inr 2
      else if 1 \<in> set protocols then Inr 1
      else Inl (TextError ''client: supported pinUvAuthProtocol not found''))"

definition leftPadCoordinate :: "bytes \<Rightarrow> bytes" where
  "leftPadCoordinate coordinate =
     (if length coordinate = 32 then coordinate else replicate (32 - length coordinate) 0 @ coordinate)"

definition COSEEC2PublicKey :: "'w crypto_ops \<Rightarrow> cose_key \<Rightarrow> bytes res" where
  "COSEEC2PublicKey cy coseKey =
     (case ValidateEC2 coseKey of
        Some e \<Rightarrow> Inl e
      | None \<Rightarrow>
          let encoded = 0x04 # leftPadCoordinate (ck_X coseKey) @ leftPadCoordinate (ck_Y coseKey) in
          case cy_newPublicKey cy encoded of
            Some e \<Rightarrow> Inl (WrapError ''client: parse COSE EC2 public key'' [e])
          | None \<Rightarrow> Inr encoded)"

definition pinProtocolKDF :: "'w crypto_ops \<Rightarrow> u64 \<Rightarrow> bytes \<Rightarrow> bytes res" where
  "pinProtocolKDF cy protocolVersion sharedPoint =
     (if protocolVersion = 1 then Inr (cy_sha256 cy sharedPoint)
      else if protocolVersion = 2 then
        let salt = replicate 32 0 in
        (case cy_hkdf cy sharedPoint salt ''CTAP2 HMAC key'' 32 of
           Inl e \<Rightarrow> Inl (WrapError ''client: derive pinUvAuthProtocol 2 HMAC key'' [e])
         | Inr hmacKey \<Rightarrow>
             (case cy_hkdf cy sharedPoint salt ''CTAP2 AES key'' 32 of
                Inl e \<Rightarrow> Inl (WrapError ''client: derive pinUvAuthProtocol 2 AES key'' [e])
              | Inr aesKey \<Rightarrow> Inr (hmacKey @ aesKey)))
      else Inl (TextError ''client: unsupported pinUvAuthProtocol''))"

definition PinProtocol1Encrypt :: "'w crypto_ops \<Rightarrow> bytes \<Rightarrow> bytes \<Rightarrow> bytes res" where
  "PinProtocol1Encrypt cy key plaintext =
     (if length plaintext mod BlockSize \<noteq> 0 then Inl (TextError ''client: plaintext length is not a multiple of 16'')
      else
        (case aes_NewCipher key of
           Some e \<Rightarrow> Inl (WrapError ''client: create AES cipher'' [e])
         | None \<Rightarrow> Inr (cbc_encrypt (cy_aes cy key) (replicate BlockSize 0) plaintext)))"

definition PinProtocol1Decrypt :: "'w crypto_ops \<Rightarrow> bytes \<Rightarrow> bytes \<Rightarrow> bytes res" where
  "PinProtocol1Decrypt cy key ciphertext =
     (if length ciphertext mod BlockSize \<noteq> 0 then Inl (TextError ''client: ciphertext length is not a multiple of 16'')
      else
        (case aes_NewCipher key of
           Some e \<Rightarrow> Inl (WrapError ''client: create AES cipher'' [e])
         | None \<Rightarrow> Inr (cbc_decrypt (cy_aesInv cy key) (replicate BlockSize 0) ciphertext)))"

definition pinProtocol2Encrypt :: "'w crypto_ops \<Rightarrow> bytes \<Rightarrow> bytes \<Rightarrow> ('w, bytes) io" where
  "pinProtocol2Encrypt cy key plaintext =
     (if length key < 64 then io_fail (TextError ''client: pinUvAuthProtocol 2 shared secret is too short'')
      else if length plaintext mod BlockSize \<noteq> 0
        then io_fail (TextError ''client: plaintext length is not a multiple of 16'')
      else
        (case aes_NewCipher (slice key 32 64) of
           Some e \<Rightarrow> io_fail (WrapError ''client: create AES cipher'' [e])
         | None \<Rightarrow>
             io_bind (io_ask (cy_rand cy BlockSize)) (\<lambda>r.
             io_bind (io_wrap (\<lambda>e. WrapError ''client: generate pinUvAuthProtocol 2 IV'' [e]) (io_of r)) (\<lambda>iv.
               io_return (iv @ cbc_encrypt (cy_aes cy (slice key 32 64)) iv plaintext)))))"

definition pinProtocol2Decrypt :: "'w crypto_ops \<Rightarrow> bytes \<Rightarrow> bytes \<Rightarrow> bytes res" where
  "pinProtocol2Decrypt cy key ciphertext =
     (if length key < 64 then Inl (TextError ''client: pinUvAuthProtocol 2 shared secret is too short'')
      else if length ciphertext < BlockSize then Inl (TextError ''client: pinUvAuthProtocol 2 ciphertext is too short'')
      else
        let iv = take BlockSize ciphertext; ct = drop BlockSize ciphertext in
        if length ct mod BlockSize \<noteq> 0 then Inl (TextError ''client: ciphertext length is not a multiple of 16'')
        else
          (case aes_NewCipher (slice key 32 64) of
             Some e \<Rightarrow> Inl (WrapError ''client: create AES cipher'' [e])
           | None \<Rightarrow> Inr (cbc_decrypt (cy_aesInv cy (slice key 32 64)) iv ct)))"

definition pinProtocolEncrypt :: "'w crypto_ops \<Rightarrow> u64 \<Rightarrow> bytes \<Rightarrow> bytes \<Rightarrow> ('w, bytes) io" where
  "pinProtocolEncrypt cy protocolVersion key plaintext =
     (if protocolVersion = 1 then io_of (PinProtocol1Encrypt cy key plaintext)
      else if protocolVersion = 2 then pinProtocol2Encrypt cy key plaintext
      else io_fail (TextError ''client: unsupported pinUvAuthProtocol''))"

definition pinProtocolDecrypt :: "'w crypto_ops \<Rightarrow> u64 \<Rightarrow> bytes \<Rightarrow> bytes \<Rightarrow> bytes res" where
  "pinProtocolDecrypt cy protocolVersion key ciphertext =
     (if protocolVersion = 1 then PinProtocol1Decrypt cy key ciphertext
      else if protocolVersion = 2 then pinProtocol2Decrypt cy key ciphertext
      else Inl (TextError ''client: unsupported pinUvAuthProtocol''))"

definition PinProtocol1Authenticate :: "'w crypto_ops \<Rightarrow> bytes \<Rightarrow> bytes \<Rightarrow> bytes" where
  "PinProtocol1Authenticate cy key message = take 16 (cy_hmac cy key message)"

definition pinProtocol2Authenticate :: "'w crypto_ops \<Rightarrow> bytes \<Rightarrow> bytes \<Rightarrow> bytes" where
  "pinProtocol2Authenticate cy key message =
     cy_hmac cy (if length key > 32 then take 32 key else key) message"

definition PinProtocolAuthenticate :: "'w crypto_ops \<Rightarrow> u64 \<Rightarrow> bytes \<Rightarrow> bytes \<Rightarrow> bytes" where
  "PinProtocolAuthenticate cy protocolVersion key message =
     (if protocolVersion = 2 then pinProtocol2Authenticate cy key message
      else PinProtocol1Authenticate cy key message)"

definition PinProtocolAuthParam :: "'w crypto_ops \<Rightarrow> cbor_ops \<Rightarrow> u64 \<Rightarrow> bytes \<Rightarrow> cred_mgmt_command \<Rightarrow> bytes res" where
  "PinProtocolAuthParam cy ops protocolVersion key command =
     andThen (AuthenticationMessage ops command) (\<lambda>message.
       Inr (PinProtocolAuthenticate cy protocolVersion key message))"

definition cose_of_public :: "bytes \<Rightarrow> cose_key" where
  "cose_of_public publicKeyBytes =
     \<lparr>ck_KeyType = COSEKeyTypeEC2, ck_Algorithm = COSEAlgorithmECDHESHKDF256, ck_Curve = COSECurveP256,
      ck_X = slice publicKeyBytes 1 33, ck_Y = slice publicKeyBytes 33 65\<rparr>"

definition newPINProtocolSession :: "'w crypto_ops \<Rightarrow> u64 \<Rightarrow> cose_key \<Rightarrow> ('w, pin_session) io" where
  "newPINProtocolSession cy protocolVersion peerKeyAgreement =
     io_bind (io_of (COSEEC2PublicKey cy peerKeyAgreement)) (\<lambda>peerPublicKey.
     io_bind (io_ask (cy_generate cy)) (\<lambda>r.
     io_bind (io_wrap (\<lambda>e. WrapError ''client: generate key agreement key'' [e]) (io_of r)) (\<lambda>privateKey.
     io_bind (io_wrap (\<lambda>e. WrapError ''client: derive shared secret'' [e])
       (io_of (cy_ecdh cy privateKey peerPublicKey))) (\<lambda>sharedPoint.
     io_bind (io_of (pinProtocolKDF cy protocolVersion sharedPoint)) (\<lambda>sharedSecret.
       io_return \<lparr>ps_version = protocolVersion, ps_sharedSecret = sharedSecret,
                  ps_keyAgreement = cose_of_public (cy_public cy privateKey)\<rparr>)))))"

subsection \<open>What the code relies on\<close>

text \<open>Documented behaviour of the primitives: the AES block functions are inverse to each other on blocks, digests
  and derived keys have their sizes, public keys are uncompressed points that parse, both sides of a key
  agreement get the same value, and random bytes are available.\<close>

definition crypto_ok :: "'w crypto_ops \<Rightarrow> bool" where
  "crypto_ok cy \<longleftrightarrow>
     (\<forall>k b. length k \<in> {16, 24, 32} \<longrightarrow> length b = 16 \<longrightarrow>
        length (cy_aes cy k b) = 16 \<and> cy_aesInv cy k (cy_aes cy k b) = b) \<and>
     (\<forall>m. length (cy_sha256 cy m) = 32) \<and> (\<forall>k m. length (cy_hmac cy k m) = 32) \<and>
     (\<forall>s salt info. \<exists>out. cy_hkdf cy s salt info 32 = Inr out \<and> length out = 32) \<and>
     (\<forall>d. length (cy_public cy d) = 65 \<and> cy_public cy d ! 0 = 4 \<and> cy_newPublicKey cy (cy_public cy d) = None) \<and>
     (\<forall>a b. \<exists>z. cy_ecdh cy a (cy_public cy b) = Inr z \<and> cy_ecdh cy b (cy_public cy a) = Inr z) \<and>
     (\<forall>w. \<exists>iv w'. cy_rand cy 16 w = (Inr iv, w') \<and> length iv = 16) \<and> (\<forall>w. \<exists>d w'. cy_generate cy w = (Inr d, w'))"

lemma crypto_okD:
  assumes "crypto_ok cy"
  shows "length k \<in> {16, 24, 32} \<Longrightarrow> length b = 16 \<Longrightarrow> length (cy_aes cy k b) = 16"
    and "length k \<in> {16, 24, 32} \<Longrightarrow> length b = 16 \<Longrightarrow> cy_aesInv cy k (cy_aes cy k b) = b"
    and "length (cy_sha256 cy m) = 32" and "length (cy_hmac cy k m) = 32"
    and "\<exists>out. cy_hkdf cy s salt info 32 = Inr out \<and> length out = 32"
    and "length (cy_public cy d) = 65" and "cy_public cy d ! 0 = 4" and "cy_newPublicKey cy (cy_public cy d) = None"
    and "\<exists>z. cy_ecdh cy a (cy_public cy b) = Inr z \<and> cy_ecdh cy b (cy_public cy a) = Inr z"
    and "\<exists>iv w'. cy_rand cy 16 w = (Inr iv, w') \<and> length iv = 16" and "\<exists>d w'. cy_generate cy w = (Inr d, w')"
  using assms unfolding crypto_ok_def by blast+

subsection \<open>CBC is inverted\<close>

lemma length_xor_bytes [simp]: "length (xor_bytes a b) = min (length a) (length b)"
  by (simp add: xor_bytes_def)

lemma xor_bytes_cancel: "length a = length b \<Longrightarrow> xor_bytes a (xor_bytes a b) = b"
  unfolding xor_bytes_def
  by (induction a b rule: list_induct2) (simp_all flip: xor.assoc)

lemma cbc_roundtrip:
  assumes blk: "\<And>b. length b = 16 \<Longrightarrow> length (blk b) = 16 \<and> unblk (blk b) = b"
  shows "length iv = 16 \<Longrightarrow> length p mod 16 = 0 \<Longrightarrow>
    cbc_decrypt unblk iv (cbc_encrypt blk iv p) = p \<and> length (cbc_encrypt blk iv p) = length p"
proof (induction "length p" arbitrary: iv p rule: less_induct)
  case less
  show ?case
  proof (cases "length p < 16")
    case True
    then show ?thesis using less(3) by (simp add: cbc_encrypt.simps cbc_decrypt.simps BlockSize_def)
  next
    case False
    define x where "x = xor_bytes iv (take 16 p)"
    define c where "c = cbc_encrypt blk (blk x) (drop 16 p)"
    have x: "length x = 16" using less(2) False by (simp add: x_def)
    have b: "length (blk x) = 16" "unblk (blk x) = x" using blk [OF x] by simp_all
    have "length (drop 16 p) mod 16 = 0" using less(3) False by (simp add: mod_if)
    with less(1) [of "drop 16 p" "blk x"] b(1) False
    have IH: "cbc_decrypt unblk (blk x) c = drop 16 p" "length c = length p - 16" by (simp_all add: c_def)
    have "cbc_encrypt blk iv p = blk x @ c"
      using False by (subst cbc_encrypt.simps) (simp add: BlockSize_def x_def c_def Let_def)
    moreover have "cbc_decrypt unblk iv (blk x @ c) = take 16 p @ drop 16 p"
      using b IH(1) less(2) False
      by (subst cbc_decrypt.simps) (simp add: BlockSize_def x_def xor_bytes_cancel)
    ultimately show ?thesis using b(1) IH(2) False by simp
  qed
qed

text \<open>The key sizes of the two protocols, and what encryption then returns.\<close>

definition secret_ok :: "u64 \<Rightarrow> bytes \<Rightarrow> bool" where
  "secret_ok v key \<longleftrightarrow> v = 1 \<and> length key = 32 \<or> v = 2 \<and> length key = 64"

lemma aes_cbc_roundtrip:
  assumes "crypto_ok cy" "length k \<in> {16, 24, 32}" "length iv = 16" "length p mod 16 = 0"
  shows "cbc_decrypt (cy_aesInv cy k) iv (cbc_encrypt (cy_aes cy k) iv p) = p"
    and "length (cbc_encrypt (cy_aes cy k) iv p) = length p"
proof -
  have "length b = 16 \<Longrightarrow> length (cy_aes cy k b) = 16 \<and> cy_aesInv cy k (cy_aes cy k b) = b" for b
    using crypto_okD(1,2) [OF assms(1,2)] by simp
  from cbc_roundtrip [of "cy_aes cy k" "cy_aesInv cy k", OF this assms(3,4)]
  show "cbc_decrypt (cy_aesInv cy k) iv (cbc_encrypt (cy_aes cy k) iv p) = p"
    and "length (cbc_encrypt (cy_aes cy k) iv p) = length p" by simp_all
qed

lemma pin_encrypt_decrypt:
  assumes ok: "crypto_ok cy" and key: "secret_ok v key" and p: "length p mod 16 = 0"
  obtains ct w' where "pinProtocolEncrypt cy v key p w = Some (Inr ct, w')" "pinProtocolDecrypt cy v key ct = Inr p"
    "p \<noteq> [] \<Longrightarrow> ct \<noteq> []" "w' = w \<or> w' = snd (cy_rand cy 16 w)"
proof (cases "v = 1")
  case True
  then have k: "length key \<in> {16, 24, 32}" using key by (simp add: secret_ok_def)
  let ?ct = "cbc_encrypt (cy_aes cy key) (replicate 16 0) p"
  note rt = aes_cbc_roundtrip [OF ok k, of "replicate 16 0" p, simplified, OF p]
  have "pinProtocolEncrypt cy v key p w = Some (Inr ?ct, w)" "pinProtocolDecrypt cy v key ?ct = Inr p"
    using True k p rt
    by (simp_all add: pinProtocolEncrypt_def pinProtocolDecrypt_def PinProtocol1Encrypt_def PinProtocol1Decrypt_def
        BlockSize_def aes_NewCipher_def)
  with rt(2) that show thesis by fastforce
next
  case False
  then have v: "v = 2" "length key = 64" using key by (auto simp: secret_ok_def)
  let ?k = "slice key 32 64"
  have k: "length ?k \<in> {16, 24, 32}" using v(2) by (simp add: slice_def)
  obtain iv w' where r: "cy_rand cy 16 w = (Inr iv, w')" "length iv = 16" using crypto_okD(10) [OF ok] by blast
  let ?ct = "iv @ cbc_encrypt (cy_aes cy ?k) iv p"
  note rt = aes_cbc_roundtrip [OF ok k r(2) p]
  have "pinProtocolEncrypt cy v key p w = Some (Inr ?ct, w')"
    using v k p r(1)
    by (simp add: pinProtocolEncrypt_def pinProtocol2Encrypt_def BlockSize_def aes_NewCipher_def io_ask_def io_wrap_def
        io_bind_def)
  moreover have "pinProtocolDecrypt cy v key ?ct = Inr p"
    using v k p r(2) rt by (simp add: pinProtocolDecrypt_def pinProtocol2Decrypt_def BlockSize_def aes_NewCipher_def)
  ultimately show thesis using that r by (metis append_is_Nil_conv list.size(3) snd_conv zero_neq_numeral)
qed

subsection \<open>Key agreement\<close>

lemma leftPad_slice: "length (leftPadCoordinate xs) = 32" if "length xs \<le> 32"
  using that by (simp add: leftPadCoordinate_def)

lemma cose_public_roundtrip:
  assumes "crypto_ok cy"
  shows "COSEEC2PublicKey cy (cose_of_public (cy_public cy d)) = Inr (cy_public cy d)"
proof -
  let ?p = "cy_public cy d"
  have p: "length ?p = 65" "?p ! 0 = 4" "cy_newPublicKey cy ?p = None" using crypto_okD(6-8) [OF assms] by simp_all
  have "?p = 4 # slice ?p 1 33 @ slice ?p 33 65"
  proof -
    have "?p = ?p ! 0 # drop 1 ?p" using p(1) by (cases ?p) auto
    moreover have "drop 1 ?p = take 32 (drop 1 ?p) @ drop 32 (drop 1 ?p)" by (simp only: append_take_drop_id)
    ultimately show ?thesis using p(1,2) by (simp add: slice_def)
  qed
  moreover have "length (slice ?p 1 33) = 32" "length (slice ?p 33 65) = 32" using p(1) by (simp_all add: slice_def)
  moreover from this have "slice ?p 1 33 \<noteq> []" "slice ?p 33 65 \<noteq> []" by auto
  ultimately show ?thesis using p(3)
    by (simp add: COSEEC2PublicKey_def cose_of_public_def ValidateEC2_def leftPadCoordinate_def Let_def)
qed

lemma kdf_secret_ok:
  assumes "crypto_ok cy" "v \<in> {1, 2}"
  obtains key where "pinProtocolKDF cy v z = Inr key" "secret_ok v key"
proof (cases "v = 1")
  case True
  then show thesis using that crypto_okD(3) [OF assms(1)] by (simp add: pinProtocolKDF_def secret_ok_def)
next
  case False
  then have v: "v = 2" using assms(2) by simp
  obtain a b where "cy_hkdf cy z (replicate 32 0) ''CTAP2 HMAC key'' 32 = Inr a" "length a = 32"
    "cy_hkdf cy z (replicate 32 0) ''CTAP2 AES key'' 32 = Inr b" "length b = 32"
    using crypto_okD(5) [OF assms(1)] by metis
  then show thesis using that [of "a @ b"] v by (simp add: pinProtocolKDF_def secret_ok_def Let_def)
qed

lemma session_agrees:
  assumes ok: "crypto_ok cy" and v: "v \<in> {1, 2}"
  obtains s a z where "newPINProtocolSession cy v (cose_of_public (cy_public cy d)) w = Some (Inr s, snd (cy_generate cy w))"
    "ps_version s = v" "ps_keyAgreement s = cose_of_public (cy_public cy a)" "secret_ok v (ps_sharedSecret s)"
    "cy_ecdh cy d (cy_public cy a) = Inr z" "pinProtocolKDF cy v z = Inr (ps_sharedSecret s)"
proof -
  obtain a w' where g: "cy_generate cy w = (Inr a, w')" using crypto_okD(11) [OF ok] by blast
  obtain z where z: "cy_ecdh cy a (cy_public cy d) = Inr z" "cy_ecdh cy d (cy_public cy a) = Inr z"
    using crypto_okD(9) [OF ok] by blast
  obtain key where key: "pinProtocolKDF cy v z = Inr key" "secret_ok v key" using kdf_secret_ok [OF ok v] by blast
  have "newPINProtocolSession cy v (cose_of_public (cy_public cy d)) w =
      Some (Inr \<lparr>ps_version = v, ps_sharedSecret = key, ps_keyAgreement = cose_of_public (cy_public cy a)\<rparr>, w')"
    using g z(1) key(1)
    by (simp add: newPINProtocolSession_def cose_public_roundtrip [OF ok] io_ask_def io_wrap_def io_bind_def)
  then show thesis using that z(2) key g by simp
qed

subsection \<open>Properties\<close>

text \<open>Constant primitives that satisfy the laws.\<close>

definition toy_crypto :: "'w crypto_ops" where
  "toy_crypto =
     \<lparr>cy_sha256 = (\<lambda>_. replicate 32 7), cy_hmac = (\<lambda>_ _. replicate 32 9), cy_hkdf = (\<lambda>_ _ _ n. Inr (replicate n 5)),
      cy_aes = (\<lambda>_ b. b), cy_aesInv = (\<lambda>_ b. b), cy_newPublicKey = (\<lambda>_. None), cy_public = (\<lambda>_. 4 # replicate 64 1),
      cy_ecdh = (\<lambda>_ _. Inr [3]), cy_generate = (\<lambda>w. (Inr [], w)), cy_rand = (\<lambda>n w. (Inr (replicate n 2), w))\<rparr>"

lemma toy_crypto_ok: "crypto_ok toy_crypto"
  by (simp add: crypto_ok_def toy_crypto_def)

text \<open>For both PIN/UV protocols the session derived from an authenticator's public key succeeds, the shared
  secret is the one the authenticator derives from the key agreement value the session sends, and a message
  of whole blocks encrypted under it is recovered by decryption.\<close>

theorem pin_session_shared:
  assumes "crypto_ok cy" and "v \<in> {1, 2}" and "length p mod 16 = 0"
  shows "\<exists>s w1 pub z ct w2.
    newPINProtocolSession cy v (cose_of_public (cy_public cy d)) w = Some (Inr s, w1) \<and>
    COSEEC2PublicKey cy (ps_keyAgreement s) = Inr pub \<and> cy_ecdh cy d pub = Inr z \<and>
    pinProtocolKDF cy v z = Inr (ps_sharedSecret s) \<and>
    pinProtocolEncrypt cy v (ps_sharedSecret s) p w1 = Some (Inr ct, w2) \<and>
    pinProtocolDecrypt cy v (ps_sharedSecret s) ct = Inr p"
proof -
  obtain s a z where s: "newPINProtocolSession cy v (cose_of_public (cy_public cy d)) w = Some (Inr s, snd (cy_generate cy w))"
    "ps_keyAgreement s = cose_of_public (cy_public cy a)" "secret_ok v (ps_sharedSecret s)"
    "cy_ecdh cy d (cy_public cy a) = Inr z" "pinProtocolKDF cy v z = Inr (ps_sharedSecret s)"
    using session_agrees [OF assms(1,2)] by metis
  obtain ct w2 where "pinProtocolEncrypt cy v (ps_sharedSecret s) p (snd (cy_generate cy w)) = Some (Inr ct, w2)"
    "pinProtocolDecrypt cy v (ps_sharedSecret s) ct = Inr p"
    using pin_encrypt_decrypt [OF assms(1) s(3) assms(3)] by metis
  with s cose_public_roundtrip [OF assms(1), of a] show ?thesis by auto
qed

theorem pin_session_shared_witness:
  "let cy = (toy_crypto :: unit crypto_ops) in \<exists>s w1 pub z ct w2.
    newPINProtocolSession cy 2 (cose_of_public (cy_public cy [1])) () = Some (Inr s, w1) \<and>
    COSEEC2PublicKey cy (ps_keyAgreement s) = Inr pub \<and> cy_ecdh cy [1] pub = Inr z \<and>
    pinProtocolKDF cy 2 z = Inr (ps_sharedSecret s) \<and>
    pinProtocolEncrypt cy 2 (ps_sharedSecret s) (replicate 16 1) w1 = Some (Inr ct, w2) \<and>
    pinProtocolDecrypt cy 2 (ps_sharedSecret s) ct = Inr (replicate 16 1)"
  using pin_session_shared [OF toy_crypto_ok, of 2 "replicate 16 1" "[1]" "()"] by (simp add: Let_def)

end
