(* ===== verification/Ctap2Manager.thy ===== *)
theory Ctap2Manager
  imports PinProtocol
begin

text \<open>
  The CTAP2 manager: \<open>internal/client/ctap2/manager.go\<close>. It runs PIN and credential management over a raw command
  invoker. The invoker, the crypto primitives and the CBOR package are the parameter \<open>manager\<close>. A
  function that returns only an error has the result \<open>Inr ()\<close> for nil. \<open>info\<close> is \<open>None\<close> for a nil pointer, and
  reading a field of it is a panic. \<open>wipeBytes\<close> overwrites buffers that are not used again; the values here are
  not shared, so it has no counterpart.
\<close>

record 'w manager =
  mg_invoke :: "byte \<Rightarrow> bytes \<Rightarrow> ('w, bytes) io"
  mg_crypto :: "'w crypto_ops"
  mg_cbor :: cbor_ops

record discoverable_credential =
  dc_RP :: relying_party
  dc_RPIDHash :: bytes
  dc_User :: user_entity
  dc_Credential :: credential_descriptor
  dc_CredProtect :: u64
  dc_LargeBlobKey :: bytes

record credential_list =
  ls_ExistingCount :: u64
  ls_MaxRemainingCount :: u64
  ls_Credentials :: "discoverable_credential list"

record pin_retries =
  rt_PINRetries :: u64
  rt_UVRetries :: u64
  rt_PowerCycleState :: bool

record rp_set =
  rs_RP :: relying_party
  rs_RPIDHash :: bytes

record 'w token_source =
  ts_token :: "byte \<Rightarrow> u64 \<Rightarrow> ('w, bytes) io"
  ts_supportsPreview :: bool

definition zero_pin_response :: client_pin_response where
  "zero_pin_response =
     \<lparr>pr_KeyAgreement = None, pr_PinUVAuthToken = [], pr_PINRetries = 0, pr_PowerCycleState = False, pr_UVRetries = 0\<rparr>"

definition zero_cm_response :: cred_mgmt_response where
  "zero_cm_response =
     \<lparr>cr_ExistingCount = 0, cr_MaxRemainingCount = 0, cr_RP = None, cr_RPIDHash = [], cr_TotalRPs = 0, cr_User = None,
      cr_CredentialID = None, cr_PublicKey = [], cr_TotalCredentials = 0, cr_CredProtect = 0, cr_LargeBlobKey = []\<rparr>"

definition clientPINPaddedLength :: nat where "clientPINPaddedLength = 64"
definition clientPINChangeAttempts :: nat where "clientPINChangeAttempts = 3"

subsection \<open>Helpers\<close>

definition optionEnabled :: "get_info_response option \<Rightarrow> string \<Rightarrow> bool" where
  "optionEnabled info key = (case info of None \<Rightarrow> False | Some i \<Rightarrow> gi_Options i key = Some True)"

definition padClientPIN :: "bytes \<Rightarrow> bytes res" where
  "padClientPIN pin =
     (if pin = [] then Inl (TextError ''client: new pin is required'')
      else if length pin > clientPINPaddedLength - 1 then Inl (TextError ''client: pin length exceeds 63 bytes'')
      else Inr (pad_to clientPINPaddedLength pin))"

definition NormalizeCredentialDescriptor :: "credential_descriptor \<Rightarrow> credential_descriptor res" where
  "NormalizeCredentialDescriptor credential =
     (if cd_ID credential = [] then Inl (TextError ''client: credential id is required'')
      else Inr (if cd_Type credential = [] then credential\<lparr>cd_Type := ''public-key''\<rparr> else credential))"

definition retry_status :: "byte set \<Rightarrow> err \<Rightarrow> bool" where
  "retry_status codes e = (case errors_as as_Ctap2Error e of None \<Rightarrow> False | Some code \<Rightarrow> code \<in> codes)"

definition shouldRetryCredentialManagement :: "err \<Rightarrow> bool" where
  "shouldRetryCredentialManagement e = retry_status {0x12} e"

definition shouldRetryClientPINChange :: "err \<Rightarrow> bool" where
  "shouldRetryClientPINChange e = retry_status {0x12} e"

definition shouldRetryWithPreview :: "get_info_response option \<Rightarrow> err \<Rightarrow> bool" where
  "shouldRetryWithPreview info e =
     (optionEnabled info ''credentialMgmtPreview'' \<and>
      retry_status {0x01, 0x02, 0x12, 0x14, 0x2b, 0x2c, 0x36, 0x3e, 0x40} e)"

definition credentialManagementCommandCode :: "get_info_response option \<Rightarrow> byte res" where
  "credentialManagementCommandCode info =
     (if info = None then Inl (TextError ''client: no capable protocol'')
      else if optionEnabled info ''credMgmt'' then Inr CommandCredentialManagement
      else if optionEnabled info ''credentialMgmtPreview'' then Inr CommandCredentialManagementPreview
      else Inl (TextError ''client: credential management is not supported''))"

definition info_protocol :: "get_info_response option \<Rightarrow> u64 res" where
  "info_protocol info =
     (case info of None \<Rightarrow> Inl GoPanic | Some i \<Rightarrow> SelectPINUVAuthProtocol (gi_PinUVAuthProtocols i))"

definition decoded :: "'r \<times> err option \<Rightarrow> 'r res" where
  "decoded p = (case p of (r, None) \<Rightarrow> Inr r | (r, Some e) \<Rightarrow> Inl e)"

text \<open>Encode, \<open>InvokeCTAP2(CommandClientPIN, encoded[1:])\<close>, decode into a fresh response.\<close>

definition invokeClientPIN :: "'w manager \<Rightarrow> client_pin_command \<Rightarrow> ('w, client_pin_response) io" where
  "invokeClientPIN mg command =
     io_bind (io_of (ClientPINCommand_Encode (mg_cbor mg) command)) (\<lambda>encoded.
     io_bind (mg_invoke mg CommandClientPIN (tl encoded)) (\<lambda>responseBytes.
       io_of (decoded (ClientPINCommand_DecodeResponse (mg_cbor mg) True responseBytes zero_pin_response))))"

definition invokeCredentialManagement :: "'w manager \<Rightarrow> cred_mgmt_command \<Rightarrow> ('w, cred_mgmt_response) io" where
  "invokeCredentialManagement mg command =
     io_bind (io_of (CredentialManagementCommand_Encode (mg_cbor mg) command)) (\<lambda>encoded.
     io_bind (mg_invoke mg (CommandByte command) (tl encoded)) (\<lambda>responseBytes.
       io_of (decoded (CredentialManagementCommand_DecodeResponse (mg_cbor mg) True responseBytes zero_cm_response))))"

subsection \<open>ClientPIN\<close>

definition getPINProtocolSession :: "'w manager \<Rightarrow> u64 \<Rightarrow> ('w, pin_session) io" where
  "getPINProtocolSession mg protocolVersion =
     io_bind (invokeClientPIN mg (NewClientPINCommand protocolVersion ClientPINGetKeyAgreement)) (\<lambda>response.
       case pr_KeyAgreement response of
         None \<Rightarrow> io_fail (TextError ''client: authenticator did not return key agreement'')
       | Some key \<Rightarrow> newPINProtocolSession (mg_crypto mg) protocolVersion key)"

definition SetPIN :: "'w manager \<Rightarrow> get_info_response option \<Rightarrow> bytes \<Rightarrow> ('w, unit) io" where
  "SetPIN mg info newPIN =
     io_bind (io_of (info_protocol info)) (\<lambda>protocolVersion.
     io_bind (getPINProtocolSession mg protocolVersion) (\<lambda>session.
     io_bind (io_of (padClientPIN newPIN)) (\<lambda>paddedNewPIN.
     io_bind (pinProtocolEncrypt (mg_crypto mg) (ps_version session) (ps_sharedSecret session) paddedNewPIN) (\<lambda>newPINEnc.
     io_bind (invokeClientPIN mg
       ((NewClientPINCommand protocolVersion ClientPINSetPIN)
          \<lparr>pn_KeyAgreement := Some (ps_keyAgreement session), pn_NewPINEnc := newPINEnc,
           pn_PinUVAuthParam := PinProtocolAuthenticate (mg_crypto mg) (ps_version session) (ps_sharedSecret session) newPINEnc\<rparr>))
       (\<lambda>_. io_return ())))))"

definition GetPINRetries :: "'w manager \<Rightarrow> get_info_response option \<Rightarrow> ('w, pin_retries) io" where
  "GetPINRetries mg info =
     (if \<not> optionEnabled info ''clientPin''
      then io_fail (TextError ''client: authenticator does not have a PIN configured'')
      else
        io_bind (io_of (info_protocol info)) (\<lambda>protocolVersion.
        io_bind (invokeClientPIN mg (NewClientPINCommand protocolVersion ClientPINGetRetries)) (\<lambda>response.
          io_return \<lparr>rt_PINRetries = pr_PINRetries response, rt_UVRetries = pr_UVRetries response,
                     rt_PowerCycleState = pr_PowerCycleState response\<rparr>)))"

definition changePINOnce :: "'w manager \<Rightarrow> get_info_response option \<Rightarrow> bytes \<Rightarrow> bytes \<Rightarrow> ('w, unit) io" where
  "changePINOnce mg info currentPIN newPIN =
     (if \<not> optionEnabled info ''clientPin''
      then io_fail (TextError ''client: authenticator does not have a PIN configured'')
      else
        io_bind (io_of (info_protocol info)) (\<lambda>protocolVersion.
        io_bind (getPINProtocolSession mg protocolVersion) (\<lambda>session.
        io_bind (pinProtocolEncrypt (mg_crypto mg) (ps_version session) (ps_sharedSecret session)
          (take 16 (cy_sha256 (mg_crypto mg) currentPIN))) (\<lambda>pinHashEnc.
        io_bind (io_of (padClientPIN newPIN)) (\<lambda>paddedNewPIN.
        io_bind (pinProtocolEncrypt (mg_crypto mg) (ps_version session) (ps_sharedSecret session) paddedNewPIN) (\<lambda>newPINEnc.
        io_bind (invokeClientPIN mg
          ((NewClientPINCommand protocolVersion ClientPINChangePIN)
             \<lparr>pn_KeyAgreement := Some (ps_keyAgreement session), pn_PINHashEnc := pinHashEnc, pn_NewPINEnc := newPINEnc,
              pn_PinUVAuthParam := PinProtocolAuthenticate (mg_crypto mg) (ps_version session) (ps_sharedSecret session)
                (newPINEnc @ pinHashEnc)\<rparr>))
          (\<lambda>_. io_return ())))))))"

text \<open>The loop of \<open>ChangePIN\<close> with \<open>n\<close> attempts left and \<open>prev\<close> the result of the previous one.\<close>

fun change_pin_loop :: "'w manager \<Rightarrow> get_info_response option \<Rightarrow> bytes \<Rightarrow> bytes \<Rightarrow> nat \<Rightarrow> unit res \<Rightarrow> ('w, unit) io" where
  "change_pin_loop mg info currentPIN newPIN 0 prev = io_of prev"
| "change_pin_loop mg info currentPIN newPIN (Suc n) prev =
     io_bind (io_try (changePINOnce mg info currentPIN newPIN)) (\<lambda>r.
       case r of
         Inr _ \<Rightarrow> io_of r
       | Inl e \<Rightarrow>
           if shouldRetryClientPINChange e then change_pin_loop mg info currentPIN newPIN n r else io_of r)"

definition ChangePIN :: "'w manager \<Rightarrow> get_info_response option \<Rightarrow> bytes \<Rightarrow> bytes \<Rightarrow> ('w, unit) io" where
  "ChangePIN mg info currentPIN newPIN =
     change_pin_loop mg info currentPIN newPIN clientPINChangeAttempts (Inr ())"

subsection \<open>Tokens\<close>

text \<open>The last part of the three token functions: send the command and decrypt the returned token.\<close>

definition token_request :: "'w manager \<Rightarrow> pin_session \<Rightarrow> client_pin_command \<Rightarrow> ('w, bytes) io" where
  "token_request mg session command =
     io_bind (invokeClientPIN mg command) (\<lambda>response.
       if pr_PinUVAuthToken response = []
       then io_fail (TextError ''client: authenticator did not return pinUvAuthToken'')
       else io_of (pinProtocolDecrypt (mg_crypto mg) (ps_version session) (ps_sharedSecret session) (pr_PinUVAuthToken response)))"

definition getPINTokenWithPermissions ::
  "'w manager \<Rightarrow> u64 \<Rightarrow> bytes \<Rightarrow> byte \<Rightarrow> string \<Rightarrow> ('w, bytes) io" where
  "getPINTokenWithPermissions mg protocolVersion pin permissions permissionsRPID =
     io_bind (getPINProtocolSession mg protocolVersion) (\<lambda>session.
     io_bind (pinProtocolEncrypt (mg_crypto mg) (ps_version session) (ps_sharedSecret session)
       (take 16 (cy_sha256 (mg_crypto mg) pin))) (\<lambda>pinHashEnc.
       token_request mg session
         ((NewClientPINCommand protocolVersion ClientPINGetPINTokenWithPIN)
            \<lparr>pn_KeyAgreement := Some (ps_keyAgreement session), pn_PINHashEnc := pinHashEnc,
             pn_Permissions := permissions, pn_PermissionsRPID := permissionsRPID\<rparr>)))"

definition getUVTokenWithPermissions :: "'w manager \<Rightarrow> u64 \<Rightarrow> byte \<Rightarrow> string \<Rightarrow> ('w, bytes) io" where
  "getUVTokenWithPermissions mg protocolVersion permissions permissionsRPID =
     io_bind (getPINProtocolSession mg protocolVersion) (\<lambda>session.
       token_request mg session
         ((NewClientPINCommand protocolVersion ClientPINGetPINTokenWithUV)
            \<lparr>pn_KeyAgreement := Some (ps_keyAgreement session), pn_Permissions := permissions,
             pn_PermissionsRPID := permissionsRPID\<rparr>))"

definition getPINToken :: "'w manager \<Rightarrow> u64 \<Rightarrow> bytes \<Rightarrow> ('w, bytes) io" where
  "getPINToken mg protocolVersion pin =
     io_bind (getPINProtocolSession mg protocolVersion) (\<lambda>session.
     io_bind (pinProtocolEncrypt (mg_crypto mg) (ps_version session) (ps_sharedSecret session)
       (take 16 (cy_sha256 (mg_crypto mg) pin))) (\<lambda>pinHashEnc.
       token_request mg session
         ((NewClientPINCommand protocolVersion ClientPINGetPINToken)
            \<lparr>pn_KeyAgreement := Some (ps_keyAgreement session), pn_PINHashEnc := pinHashEnc\<rparr>)))"

definition PinTokenForPermission ::
  "'w manager \<Rightarrow> get_info_response option \<Rightarrow> bytes \<Rightarrow> byte \<Rightarrow> string \<Rightarrow> ('w, bytes \<times> u64) io" where
  "PinTokenForPermission mg info pin permission permissionsRPID =
     io_bind (io_of (info_protocol info)) (\<lambda>protocolVersion.
     io_bind
       (if optionEnabled info ''pinUvAuthToken''
        then getPINTokenWithPermissions mg protocolVersion pin permission permissionsRPID
        else getPINToken mg protocolVersion pin)
       (\<lambda>pinToken. io_return (pinToken, protocolVersion)))"

definition getCredentialManagementPINToken :: "'w manager \<Rightarrow> byte \<Rightarrow> u64 \<Rightarrow> bytes \<Rightarrow> ('w, bytes) io" where
  "getCredentialManagementPINToken mg commandCode protocolVersion pin =
     (if commandCode = CommandCredentialManagementPreview then getPINToken mg protocolVersion pin
      else getPINTokenWithPermissions mg protocolVersion pin PermissionCredentialManagement [])"

definition pinCredentialManagementTokenSource :: "'w manager \<Rightarrow> bytes \<Rightarrow> 'w token_source" where
  "pinCredentialManagementTokenSource mg pin =
     \<lparr>ts_token = (\<lambda>commandCode protocolVersion. getCredentialManagementPINToken mg commandCode protocolVersion pin),
      ts_supportsPreview = True\<rparr>"

definition builtInUVCredentialManagementTokenSource :: "'w manager \<Rightarrow> 'w token_source" where
  "builtInUVCredentialManagementTokenSource mg =
     \<lparr>ts_token = (\<lambda>_ protocolVersion. getUVTokenWithPermissions mg protocolVersion PermissionCredentialManagement []),
      ts_supportsPreview = False\<rparr>"

subsection \<open>Credential management\<close>

text \<open>A command with the pinUvAuthParam computed from the token.\<close>

definition authorized :: "'w manager \<Rightarrow> u64 \<Rightarrow> bytes \<Rightarrow> cred_mgmt_command \<Rightarrow> cred_mgmt_command res" where
  "authorized mg protocolVersion pinToken command =
     (let command' = command\<lparr>cm_PinUVAuthProtocol := protocolVersion\<rparr> in
      andThen (PinProtocolAuthParam (mg_crypto mg) (mg_cbor mg) protocolVersion pinToken command') (\<lambda>param.
        Inr (command'\<lparr>cm_PinUVAuthParam := param\<rparr>)))"

definition getCredentialMetadata :: "'w manager \<Rightarrow> byte \<Rightarrow> u64 \<Rightarrow> bytes \<Rightarrow> ('w, credential_list) io" where
  "getCredentialMetadata mg commandCode protocolVersion pinToken =
     io_bind (io_of (authorized mg protocolVersion pinToken
       (NewCredentialManagementCommand commandCode CredentialManagementGetMetadata))) (\<lambda>command.
     io_bind (invokeCredentialManagement mg command) (\<lambda>response.
       io_return \<lparr>ls_ExistingCount = cr_ExistingCount response, ls_MaxRemainingCount = cr_MaxRemainingCount response,
                  ls_Credentials = []\<rparr>))"

text \<open>The loops that fetch the entries after the first one, with \<open>n\<close> entries missing.\<close>

fun enumerate_rps_loop :: "'w manager \<Rightarrow> byte \<Rightarrow> nat \<Rightarrow> rp_set list \<Rightarrow> ('w, rp_set list) io" where
  "enumerate_rps_loop mg commandCode 0 result = io_return result"
| "enumerate_rps_loop mg commandCode (Suc n) result =
     io_bind (invokeCredentialManagement mg
       (NewCredentialManagementCommand commandCode CredentialManagementEnumerateRPsGetNext)) (\<lambda>response.
       case cr_RP response of
         None \<Rightarrow> io_fail (TextError ''client: credential management response missing relying party'')
       | Some rp \<Rightarrow>
           enumerate_rps_loop mg commandCode n (result @ [\<lparr>rs_RP = rp, rs_RPIDHash = cr_RPIDHash response\<rparr>]))"

definition missing :: "u64 \<Rightarrow> nat" where
  "missing n = unat (if n = 0 then 1 else n) - 1"

definition enumerateRelyingParties :: "'w manager \<Rightarrow> byte \<Rightarrow> u64 \<Rightarrow> bytes \<Rightarrow> ('w, rp_set list) io" where
  "enumerateRelyingParties mg commandCode protocolVersion pinToken =
     io_bind (io_of (authorized mg protocolVersion pinToken
       (NewCredentialManagementCommand commandCode CredentialManagementEnumerateRPsBegin))) (\<lambda>command.
     io_bind (invokeCredentialManagement mg command) (\<lambda>response.
       case cr_RP response of
         None \<Rightarrow> io_return []
       | Some rp \<Rightarrow>
           enumerate_rps_loop mg commandCode (missing (cr_TotalRPs response))
             [\<lparr>rs_RP = rp, rs_RPIDHash = cr_RPIDHash response\<rparr>]))"

definition discoverableCredentialFromResponse :: "rp_set \<Rightarrow> cred_mgmt_response \<Rightarrow> discoverable_credential res" where
  "discoverableCredentialFromResponse relyingParty response =
     (case (cr_User response, cr_CredentialID response) of
        (Some user, Some credential) \<Rightarrow>
          Inr \<lparr>dc_RP = rs_RP relyingParty, dc_RPIDHash = rs_RPIDHash relyingParty, dc_User = user, dc_Credential = credential,
               dc_CredProtect = cr_CredProtect response, dc_LargeBlobKey = cr_LargeBlobKey response\<rparr>
      | _ \<Rightarrow> Inl (TextError ''client: credential management response is incomplete''))"

fun enumerate_credentials_loop ::
  "'w manager \<Rightarrow> byte \<Rightarrow> rp_set \<Rightarrow> nat \<Rightarrow> discoverable_credential list \<Rightarrow> ('w, discoverable_credential list) io" where
  "enumerate_credentials_loop mg commandCode relyingParty 0 result = io_return result"
| "enumerate_credentials_loop mg commandCode relyingParty (Suc n) result =
     io_bind (invokeCredentialManagement mg
       (NewCredentialManagementCommand commandCode CredentialManagementEnumerateCredentialsGetNext)) (\<lambda>response.
     io_bind (io_of (discoverableCredentialFromResponse relyingParty response)) (\<lambda>credential.
       enumerate_credentials_loop mg commandCode relyingParty n (result @ [credential])))"

definition enumerateCredentials ::
  "'w manager \<Rightarrow> byte \<Rightarrow> u64 \<Rightarrow> bytes \<Rightarrow> rp_set \<Rightarrow> ('w, discoverable_credential list) io" where
  "enumerateCredentials mg commandCode protocolVersion pinToken relyingParty =
     io_bind (io_of (authorized mg protocolVersion pinToken
       ((NewCredentialManagementCommand commandCode CredentialManagementEnumerateCredentialsBegin)
          \<lparr>cm_SubcommandParams :=
             Some \<lparr>sp_RPIDHash = rs_RPIDHash relyingParty, sp_CredentialID = None, sp_User = None\<rparr>\<rparr>))) (\<lambda>command.
     io_bind (invokeCredentialManagement mg command) (\<lambda>response.
     io_bind (io_of (discoverableCredentialFromResponse relyingParty response)) (\<lambda>credential.
       enumerate_credentials_loop mg commandCode relyingParty (missing (cr_TotalCredentials response)) [credential])))"

fun collect_credentials ::
  "'w manager \<Rightarrow> byte \<Rightarrow> u64 \<Rightarrow> bytes \<Rightarrow> rp_set list \<Rightarrow> credential_list \<Rightarrow> ('w, credential_list) io" where
  "collect_credentials mg commandCode protocolVersion pinToken [] result = io_return result"
| "collect_credentials mg commandCode protocolVersion pinToken (rp # rps) result =
     io_bind (enumerateCredentials mg commandCode protocolVersion pinToken rp) (\<lambda>credentials.
       collect_credentials mg commandCode protocolVersion pinToken rps
         (result\<lparr>ls_Credentials := ls_Credentials result @ credentials\<rparr>))"

definition listCredentialsWithCommand ::
  "'w manager \<Rightarrow> byte \<Rightarrow> u64 \<Rightarrow> 'w token_source \<Rightarrow> ('w, credential_list) io" where
  "listCredentialsWithCommand mg commandCode protocolVersion tokenSource =
     io_bind (ts_token tokenSource commandCode protocolVersion) (\<lambda>pinToken.
     io_bind (getCredentialMetadata mg commandCode protocolVersion pinToken) (\<lambda>result.
       if ls_ExistingCount result = 0 then io_return result
       else
         io_bind (enumerateRelyingParties mg commandCode protocolVersion pinToken) (\<lambda>relyingParties.
           collect_credentials mg commandCode protocolVersion pinToken relyingParties result)))"

definition deleteCredentialWithCommand ::
  "'w manager \<Rightarrow> byte \<Rightarrow> u64 \<Rightarrow> credential_descriptor \<Rightarrow> 'w token_source \<Rightarrow> ('w, unit) io" where
  "deleteCredentialWithCommand mg commandCode protocolVersion credential tokenSource =
     io_bind (ts_token tokenSource commandCode protocolVersion) (\<lambda>pinToken.
     io_bind (io_of (authorized mg protocolVersion pinToken
       ((NewCredentialManagementCommand commandCode CredentialManagementDeleteCredential)
          \<lparr>cm_SubcommandParams :=
             Some \<lparr>sp_RPIDHash = [], sp_CredentialID = Some credential, sp_User = None\<rparr>\<rparr>))) (\<lambda>command.
     io_bind (invokeCredentialManagement mg command) (\<lambda>_. io_return ())))"

text \<open>The retry policy that \<open>listCredentials\<close> and \<open>deleteCredential\<close> share: \<open>run\<close> with the selected command
  code, once more after status 0x12, then with the preview command where the error and the options
  allow it.\<close>

definition with_cm_retries ::
  "get_info_response option \<Rightarrow> 'w token_source \<Rightarrow> (byte \<Rightarrow> u64 \<Rightarrow> ('w, 'a) io) \<Rightarrow> ('w, 'a) io" where
  "with_cm_retries info tokenSource run =
     io_bind (io_of (credentialManagementCommandCode info)) (\<lambda>commandCode.
     io_bind (io_of (info_protocol info)) (\<lambda>protocolVersion.
     io_bind (io_try (run commandCode protocolVersion)) (\<lambda>first.
       case first of
         Inr x \<Rightarrow> io_return x
       | Inl e \<Rightarrow>
           io_bind (if shouldRetryCredentialManagement e then io_try (run commandCode protocolVersion) else io_return first)
             (\<lambda>second.
               case second of
                 Inr x \<Rightarrow> io_return x
               | Inl e' \<Rightarrow>
                   if commandCode = CommandCredentialManagement \<and> ts_supportsPreview tokenSource \<and>
                     shouldRetryWithPreview info e'
                   then run CommandCredentialManagementPreview protocolVersion
                   else io_fail e'))))"

definition listCredentials :: "'w manager \<Rightarrow> get_info_response option \<Rightarrow> 'w token_source \<Rightarrow> ('w, credential_list) io" where
  "listCredentials mg info tokenSource =
     with_cm_retries info tokenSource (\<lambda>code v. listCredentialsWithCommand mg code v tokenSource)"

definition ListCredentials :: "'w manager \<Rightarrow> get_info_response option \<Rightarrow> bytes \<Rightarrow> ('w, credential_list) io" where
  "ListCredentials mg info pin = listCredentials mg info (pinCredentialManagementTokenSource mg pin)"

definition ListCredentialsWithBuiltInUV :: "'w manager \<Rightarrow> get_info_response option \<Rightarrow> ('w, credential_list) io" where
  "ListCredentialsWithBuiltInUV mg info = listCredentials mg info (builtInUVCredentialManagementTokenSource mg)"

definition deleteCredential ::
  "'w manager \<Rightarrow> get_info_response option \<Rightarrow> credential_descriptor \<Rightarrow> 'w token_source \<Rightarrow> ('w, unit) io" where
  "deleteCredential mg info credential tokenSource =
     with_cm_retries info tokenSource (\<lambda>code v. deleteCredentialWithCommand mg code v credential tokenSource)"

definition DeleteCredential ::
  "'w manager \<Rightarrow> get_info_response option \<Rightarrow> credential_descriptor \<Rightarrow> bytes \<Rightarrow> ('w, unit) io" where
  "DeleteCredential mg info credential pin = deleteCredential mg info credential (pinCredentialManagementTokenSource mg pin)"

definition DeleteCredentialWithBuiltInUV ::
  "'w manager \<Rightarrow> get_info_response option \<Rightarrow> credential_descriptor \<Rightarrow> ('w, unit) io" where
  "DeleteCredentialWithBuiltInUV mg info credential =
     deleteCredential mg info credential (builtInUVCredentialManagementTokenSource mg)"

end
