(* ===== verification/PinAuthenticator.thy ===== *)
theory PinAuthenticator
  imports Ctap2Manager "HOL-Library.Countable"
begin

text \<open>
  PIN management end to end. A reference authenticator for \<open>authenticatorClientPIN\<close> (key agreement, setPIN,
  changePIN, the two PIN token subcommands) answers the manager's requests; \<open>pin_device_behind\<close> says that
  the manager's invoker reaches it. The lemmas follow the manager's functions; the properties state what a
  user of \<open>SetPIN\<close>, \<open>ChangePIN\<close> and \<open>PinTokenForPermission\<close> gets, and bound the number of commands of a PIN change.
\<close>

subsection \<open>Reading requests\<close>

definition cbor_field :: "int \<Rightarrow> cbor \<Rightarrow> cbor option" where
  "cbor_field k v = (case v of CMap m \<Rightarrow> map_of m (CInt k) | _ \<Rightarrow> None)"

definition cbor_bytes_at :: "int \<Rightarrow> cbor \<Rightarrow> bytes" where
  "cbor_bytes_at k v = (case cbor_field k v of Some (CBytes b) \<Rightarrow> b | _ \<Rightarrow> [])"

definition cbor_int_at :: "int \<Rightarrow> cbor \<Rightarrow> int" where
  "cbor_int_at k v = (case cbor_field k v of Some (CInt n) \<Rightarrow> n | _ \<Rightarrow> 0)"

definition cose_of_cbor :: "cbor \<Rightarrow> cose_key" where
  "cose_of_cbor v =
     \<lparr>ck_KeyType = cbor_int_at 1 v, ck_Algorithm = cbor_int_at 3 v, ck_Curve = cbor_int_at (- 1) v,
      ck_X = cbor_bytes_at (- 2) v, ck_Y = cbor_bytes_at (- 3) v\<rparr>"

lemmas cbor_opt_defs = cbor_bytes_opt_def cbor_uint_opt_def cbor_int_opt_def cbor_ptr_opt_def omitempty_def
lemmas cbor_at_defs = cbor_field_def cbor_bytes_at_def cbor_int_at_def

lemma cose_of_cose_key [simp]: "cose_of_cbor (cose_key_cbor k) = k"
  by (cases k) (simp add: cose_of_cbor_def cose_key_cbor_def cbor_at_defs cbor_opt_defs)

lemma client_pin_fields [simp]:
  "cbor_int_at 1 (clientPINRequest c) = uint (pn_PinUVAuthProtocol c)"
  "cbor_int_at 2 (clientPINRequest c) = uint (pn_Subcommand c)"
  "cbor_field 3 (clientPINRequest c) = map_option cose_key_cbor (pn_KeyAgreement c)"
  "cbor_bytes_at 4 (clientPINRequest c) = pn_PinUVAuthParam c"
  "cbor_bytes_at 5 (clientPINRequest c) = pn_NewPINEnc c"
  "cbor_bytes_at 6 (clientPINRequest c) = pn_PINHashEnc c"
  by (simp_all add: clientPINRequest_def cbor_at_defs cbor_opt_defs split: option.splits)

subsection \<open>The reference authenticator\<close>

record pin_device =
  pd_priv :: bytes
  pd_pinHash :: "bytes option"
  pd_token :: bytes

definition pin_response :: client_pin_response where
  "pin_response = zero_pin_response"

text \<open>The PIN is padded with zero bytes; the authenticator removes them.\<close>

definition strip_zeros :: "bytes \<Rightarrow> bytes" where
  "strip_zeros bs = rev (dropWhile (\<lambda>b. b = 0) (rev bs))"

definition device_secret :: "'w crypto_ops \<Rightarrow> pin_device \<Rightarrow> u64 \<Rightarrow> cbor \<Rightarrow> bytes res" where
  "device_secret cy d v req =
     (case cbor_field 3 req of
        None \<Rightarrow> Inl (TextError ''missing key agreement'')
      | Some key \<Rightarrow>
          andThen (COSEEC2PublicKey cy (cose_of_cbor key)) (\<lambda>pub.
          andThen (cy_ecdh cy (pd_priv d) pub) (pinProtocolKDF cy v)))"

definition store_pin :: "'w crypto_ops \<Rightarrow> u64 \<Rightarrow> bytes \<Rightarrow> bytes \<Rightarrow> pin_device \<Rightarrow> bytes \<times> pin_device" where
  "store_pin cy v key newPINEnc d =
     (case pinProtocolDecrypt cy v key newPINEnc of
        Inl _ \<Rightarrow> ([0x33], d)
      | Inr padded \<Rightarrow>
          if length padded \<noteq> 64 then ([0x02], d)
          else if length (strip_zeros padded) < 4 then ([0x37], d)
          else ([0x00], d\<lparr>pd_pinHash := Some (take 16 (cy_sha256 cy (strip_zeros padded)))\<rparr>))"

definition check_pin :: "'w crypto_ops \<Rightarrow> u64 \<Rightarrow> bytes \<Rightarrow> bytes \<Rightarrow> pin_device \<Rightarrow> bool" where
  "check_pin cy v key pinHashEnc d =
     (case pinProtocolDecrypt cy v key pinHashEnc of Inl _ \<Rightarrow> False | Inr h \<Rightarrow> pd_pinHash d = Some h)"

definition device_encrypt :: "'w crypto_ops \<Rightarrow> u64 \<Rightarrow> bytes \<Rightarrow> bytes \<Rightarrow> bytes" where
  "device_encrypt cy v key p =
     (if v = 1 then cbc_encrypt (cy_aes cy key) (replicate 16 0) p
      else replicate 16 0 @ cbc_encrypt (cy_aes cy (slice key 32 64)) (replicate 16 0) p)"

definition device_answer ::
  "'w crypto_ops \<Rightarrow> (client_pin_response \<Rightarrow> bytes) \<Rightarrow> cbor \<Rightarrow> pin_device \<Rightarrow> bytes \<times> pin_device" where
  "device_answer cy enc req d =
     (let v = word_of_int (cbor_int_at 1 req); sub = cbor_int_at 2 req; param = cbor_bytes_at 4 req;
          newPINEnc = cbor_bytes_at 5 req; pinHashEnc = cbor_bytes_at 6 req
      in if sub = 2 then
           (0x00 # enc (pin_response\<lparr>pr_KeyAgreement := Some (cose_of_public (cy_public cy (pd_priv d)))\<rparr>), d)
         else
           (case device_secret cy d v req of
              Inl _ \<Rightarrow> ([0x02], d)
            | Inr key \<Rightarrow>
                if sub = 3 then
                  if pd_pinHash d \<noteq> None \<or> param \<noteq> PinProtocolAuthenticate cy v key newPINEnc then ([0x33], d)
                  else store_pin cy v key newPINEnc d
                else if sub = 4 then
                  if param \<noteq> PinProtocolAuthenticate cy v key (newPINEnc @ pinHashEnc) then ([0x33], d)
                  else if \<not> check_pin cy v key pinHashEnc d then ([0x31], d)
                  else store_pin cy v key newPINEnc d
                else if sub = 5 \<or> sub = 9 then
                  if \<not> check_pin cy v key pinHashEnc d then ([0x31], d)
                  else (0x00 # enc (pin_response\<lparr>pr_PinUVAuthToken := device_encrypt cy v key (pd_token d)\<rparr>), d)
                else ([0x3e], d)))"

text \<open>The manager's invoker reaches the authenticator in the part \<open>dev\<close> of the world; the platform's random
  numbers are elsewhere. \<open>unm\<close> decodes CBOR and \<open>enc\<close> encodes responses; the CBOR package inverts both.\<close>

definition pin_device_behind ::
  "'w manager \<Rightarrow> ('w \<Rightarrow> pin_device) \<Rightarrow> (bytes \<Rightarrow> cbor option) \<Rightarrow> (client_pin_response \<Rightarrow> bytes) \<Rightarrow> bool" where
  "pin_device_behind mg dev unm enc \<longleftrightarrow>
     crypto_ok (mg_crypto mg) \<and>
     ask_keeps dev (cy_generate (mg_crypto mg)) \<and> (\<forall>n. ask_keeps dev (cy_rand (mg_crypto mg) n)) \<and>
     (\<forall>v. \<exists>bs. cb_marshal (mg_cbor mg) v = Inr bs \<and> unm bs = Some v) \<and>
     (\<forall>r. enc r \<noteq> [] \<and> cb_clientPIN (mg_cbor mg) (enc r) zero_pin_response = (r, None)) \<and>
     (\<forall>p req w. unm p = Some req \<longrightarrow>
        (\<exists>w'. mg_invoke mg CommandClientPIN p w = Some (Inr (fst (device_answer (mg_crypto mg) enc req (dev w))), w') \<and>
              dev w' = snd (device_answer (mg_crypto mg) enc req (dev w))))"

lemma pin_device_behindD:
  assumes "pin_device_behind mg dev unm enc"
  shows "crypto_ok (mg_crypto mg)" and "ask_keeps dev (cy_generate (mg_crypto mg))"
    and "ask_keeps dev (cy_rand (mg_crypto mg) n)"
    and "\<exists>bs. cb_marshal (mg_cbor mg) v = Inr bs \<and> unm bs = Some v"
    and "enc r \<noteq> []" and "cb_clientPIN (mg_cbor mg) (enc r) zero_pin_response = (r, None)"
    and "unm p = Some req \<Longrightarrow>
      \<exists>w'. mg_invoke mg CommandClientPIN p w = Some (Inr (fst (device_answer (mg_crypto mg) enc req (dev w))), w') \<and>
           dev w' = snd (device_answer (mg_crypto mg) enc req (dev w))"
  using assms unfolding pin_device_behind_def by blast+

subsection \<open>One command\<close>

text \<open>The manager's side of a command the authenticator answers with success: \<open>r\<close> is the response it
  encoded, or the zero response for a bare status byte.\<close>

lemma invokeClientPIN_ok:
  assumes dev: "pin_device_behind mg dev unm enc"
    and sub: "pn_Subcommand c \<noteq> 0" and key: "Option.bind (pn_KeyAgreement c) ValidateEC2 = None"
    and ans: "device_answer (mg_crypto mg) enc (clientPINRequest c) (dev w) = (a, d')"
    and a: "a = [0] \<and> r = zero_pin_response \<or> a = 0 # enc r"
    and r: "Option.bind (pr_KeyAgreement r) ValidateEC2 = None"
  shows "\<exists>w'. invokeClientPIN mg c w = Some (Inr r, w') \<and> dev w' = d'"
proof -
  note D = pin_device_behindD [OF dev]
  obtain bs where bs: "cb_marshal (mg_cbor mg) (clientPINRequest c) = Inr bs" "unm bs = Some (clientPINRequest c)"
    using D(4) by blast
  obtain w' where w': "mg_invoke mg CommandClientPIN bs w = Some (Inr a, w')" "dev w' = d'"
    using D(7) [OF bs(2), of w] ans by auto
  have "ClientPINCommand_Encode (mg_cbor mg) c = Inr (CommandClientPIN # bs)"
    using sub key bs(1) by (simp add: ClientPINCommand_Encode_def encodeCommand_def)
  moreover have "decoded (ClientPINCommand_DecodeResponse (mg_cbor mg) True a zero_pin_response) = Inr r"
    using a r D(5,6) [of r]
    by (auto simp: decoded_def ClientPINCommand_DecodeResponse_def decode_checked_def decodeCommandResponse_def
        client_pin_check_def zero_pin_response_def split: option.splits)
  ultimately show ?thesis using w' by (auto simp: invokeClientPIN_def)
qed

lemma cose_of_public_valid: "crypto_ok cy \<Longrightarrow> ValidateEC2 (cose_of_public (cy_public cy d)) = None"
  using cose_public_roundtrip [of cy d] by (auto simp: COSEEC2PublicKey_def split: option.splits)

lemma client_pin_subs:
  "ClientPINGetKeyAgreement \<noteq> 0" "uint ClientPINGetKeyAgreement = 2" "ClientPINSetPIN \<noteq> 0" "uint ClientPINSetPIN = 3"
  "ClientPINChangePIN \<noteq> 0" "uint ClientPINChangePIN = 4" "ClientPINGetPINToken \<noteq> 0" "uint ClientPINGetPINToken = 5"
  "ClientPINGetPINTokenWithPIN \<noteq> 0" "uint ClientPINGetPINTokenWithPIN = 9"
  by (simp_all add: ClientPINGetKeyAgreement_def ClientPINSetPIN_def ClientPINChangePIN_def ClientPINGetPINToken_def
      ClientPINGetPINTokenWithPIN_def)

text \<open>A session as the manager gets it from the authenticator \<open>d\<close>: both sides have the same secret.\<close>

definition session_with :: "'w crypto_ops \<Rightarrow> u64 \<Rightarrow> pin_device \<Rightarrow> pin_session \<Rightarrow> bool" where
  "session_with cy v d s \<longleftrightarrow>
     ps_version s = v \<and> secret_ok v (ps_sharedSecret s) \<and>
     (\<exists>a. ps_keyAgreement s = cose_of_public (cy_public cy a) \<and>
        andThen (cy_ecdh cy (pd_priv d) (cy_public cy a)) (pinProtocolKDF cy v) = Inr (ps_sharedSecret s))"

lemma get_session:
  assumes dev: "pin_device_behind mg dev unm enc" and v: "v \<in> {1, 2}"
  shows "io_yields (\<lambda>w. dev w = d) (getPINProtocolSession mg v) (\<lambda>s w. dev w = d \<and> session_with (mg_crypto mg) v d s)"
  unfolding io_yields_def
proof (intro allI impI)
  fix w assume w: "dev w = d"
  let ?cy = "mg_crypto mg" and ?c = "NewClientPINCommand v ClientPINGetKeyAgreement"
  let ?key = "cose_of_public (cy_public ?cy (pd_priv d))"
  let ?r = "pin_response\<lparr>pr_KeyAgreement := Some ?key\<rparr>"
  note D = pin_device_behindD [OF dev]
  have "device_answer ?cy enc (clientPINRequest ?c) (dev w) = (0 # enc ?r, d)"
    using w by (simp add: device_answer_def NewClientPINCommand_def client_pin_subs)
  from invokeClientPIN_ok [OF dev _ _ this, of ?r] obtain w1 where
    w1: "invokeClientPIN mg ?c w = Some (Inr ?r, w1)" "dev w1 = d"
    using cose_of_public_valid [OF D(1), of "pd_priv d"] by (auto simp: NewClientPINCommand_def client_pin_subs)
  obtain s a z where s: "newPINProtocolSession ?cy v ?key w1 = Some (Inr s, snd (cy_generate ?cy w1))"
    "ps_version s = v" "ps_keyAgreement s = cose_of_public (cy_public ?cy a)" "secret_ok v (ps_sharedSecret s)"
    "cy_ecdh ?cy (pd_priv d) (cy_public ?cy a) = Inr z" "pinProtocolKDF ?cy v z = Inr (ps_sharedSecret s)"
    using session_agrees [OF D(1) v] by metis
  have "dev (snd (cy_generate ?cy w1)) = d" using D(2) w1(2) by (simp add: ask_keeps_def)
  with s w1(1) show "\<exists>s w'. getPINProtocolSession mg v w = Some (Inr s, w') \<and> dev w' = d \<and> session_with ?cy v d s"
    by (auto simp: getPINProtocolSession_def session_with_def intro!: exI [of _ s])
qed

lemma device_secret_session:
  assumes "crypto_ok cy" "session_with cy v d s" "pn_KeyAgreement c = Some (ps_keyAgreement s)"
  shows "device_secret cy d v (clientPINRequest c) = Inr (ps_sharedSecret s)"
  using assms cose_public_roundtrip [OF assms(1)] by (auto simp: device_secret_def session_with_def)

lemma session_key_valid:
  "crypto_ok cy \<Longrightarrow> session_with cy v d s \<Longrightarrow> ValidateEC2 (ps_keyAgreement s) = None"
  using cose_of_public_valid by (auto simp: session_with_def)

lemma encrypt_for_device:
  assumes dev: "pin_device_behind mg dev unm enc" and s: "session_with (mg_crypto mg) v d s" and p: "length p mod 16 = 0"
  shows "io_yields (\<lambda>w. dev w = d) (pinProtocolEncrypt (mg_crypto mg) (ps_version s) (ps_sharedSecret s) p)
    (\<lambda>ct w. dev w = d \<and> pinProtocolDecrypt (mg_crypto mg) v (ps_sharedSecret s) ct = Inr p)"
  unfolding io_yields_def
proof (intro allI impI)
  fix w assume w: "dev w = d"
  note D = pin_device_behindD [OF dev]
  have s': "ps_version s = v" "secret_ok v (ps_sharedSecret s)" using s by (simp_all add: session_with_def)
  obtain ct w' where ct: "pinProtocolEncrypt (mg_crypto mg) v (ps_sharedSecret s) p w = Some (Inr ct, w')"
    "pinProtocolDecrypt (mg_crypto mg) v (ps_sharedSecret s) ct = Inr p" "w' = w \<or> w' = snd (cy_rand (mg_crypto mg) 16 w)"
    using pin_encrypt_decrypt [OF D(1) s'(2) p] by metis
  moreover have "dev w' = d" using ct(3) D(3) [of 16] w by (auto simp: ask_keeps_def)
  ultimately show "\<exists>ct w'. pinProtocolEncrypt (mg_crypto mg) (ps_version s) (ps_sharedSecret s) p w = Some (Inr ct, w') \<and>
      dev w' = d \<and> pinProtocolDecrypt (mg_crypto mg) v (ps_sharedSecret s) ct = Inr p" using s'(1) by auto
qed

subsection \<open>Setting and changing a PIN\<close>

text \<open>A PIN the authenticator accepts and recovers from its padded form: 4 to 63 bytes, no trailing zero.\<close>

definition good_pin :: "bytes \<Rightarrow> bool" where
  "good_pin pin \<longleftrightarrow> 4 \<le> length pin \<and> length pin \<le> 63 \<and> last pin \<noteq> 0"

definition pin_hash :: "'w crypto_ops \<Rightarrow> bytes \<Rightarrow> bytes" where
  "pin_hash cy pin = take 16 (cy_sha256 cy pin)"

lemma good_pin_padded:
  assumes "good_pin pin"
  shows "padClientPIN pin = Inr (pad_to 64 pin)" "strip_zeros (pad_to 64 pin) = pin"
proof -
  have ne: "pin \<noteq> []" "length pin \<le> 63" "last pin \<noteq> 0" using assms by (auto simp: good_pin_def)
  then show "padClientPIN pin = Inr (pad_to 64 pin)" by (simp add: padClientPIN_def clientPINPaddedLength_def)
  obtain b bs where b: "rev pin = b # bs" using ne(1) by (cases "rev pin") auto
  then have "b \<noteq> 0" using ne(3) by (metis hd_rev list.sel(1))
  moreover have "dropWhile (\<lambda>b. b = 0) (replicate n 0 @ rev pin) = dropWhile (\<lambda>b. b = 0) (rev pin)" for n
    by (induction n) simp_all
  ultimately have "dropWhile (\<lambda>b. b = 0) (replicate n 0 @ rev pin) = rev pin" for n using b by simp
  with ne(2) show "strip_zeros (pad_to 64 pin) = pin" by (simp add: strip_zeros_def pad_to_def)
qed

lemma store_pin_padded:
  assumes "good_pin pin" "pinProtocolDecrypt cy v key ct = Inr (pad_to 64 pin)"
  shows "store_pin cy v key ct d = ([0], d\<lparr>pd_pinHash := Some (pin_hash cy pin)\<rparr>)"
  using assms good_pin_padded(2) [OF assms(1)] by (simp add: store_pin_def good_pin_def pin_hash_def)

lemma check_pin_iff:
  "pinProtocolDecrypt cy v key ct = Inr h \<Longrightarrow> check_pin cy v key ct d \<longleftrightarrow> pd_pinHash d = Some h"
  by (simp add: check_pin_def)

lemma length_pin_hash: "crypto_ok cy \<Longrightarrow> length (pin_hash cy pin) = 16"
  by (simp add: pin_hash_def crypto_okD(3))

text \<open>The last command of \<open>SetPIN\<close> and \<open>changePINOnce\<close>, for encryptions of the right contents.\<close>

lemma store_command:
  assumes dev: "pin_device_behind mg dev unm enc" and s: "session_with (mg_crypto mg) v d s"
    and c: "pn_PinUVAuthProtocol c = v" "pn_KeyAgreement c = Some (ps_keyAgreement s)"
    and new: "good_pin pin" "pinProtocolDecrypt (mg_crypto mg) v (ps_sharedSecret s) (pn_NewPINEnc c) = Inr (pad_to 64 pin)"
    and auth: "pn_Subcommand c = ClientPINSetPIN \<and> pd_pinHash d = None \<and>
        pn_PinUVAuthParam c = PinProtocolAuthenticate (mg_crypto mg) v (ps_sharedSecret s) (pn_NewPINEnc c) \<or>
      pn_Subcommand c = ClientPINChangePIN \<and> check_pin (mg_crypto mg) v (ps_sharedSecret s) (pn_PINHashEnc c) d \<and>
        pn_PinUVAuthParam c = PinProtocolAuthenticate (mg_crypto mg) v (ps_sharedSecret s) (pn_NewPINEnc c @ pn_PINHashEnc c)"
  shows "io_yields (\<lambda>w. dev w = d) (io_bind (invokeClientPIN mg c) (\<lambda>_. io_return ()))
    (\<lambda>_ w. dev w = d\<lparr>pd_pinHash := Some (pin_hash (mg_crypto mg) pin)\<rparr>)"
  unfolding io_yields_def
proof (intro allI impI)
  fix w assume w: "dev w = d"
  let ?cy = "mg_crypto mg" and ?d = "d\<lparr>pd_pinHash := Some (pin_hash (mg_crypto mg) pin)\<rparr>"
  note D = pin_device_behindD [OF dev]
  have secret: "device_secret ?cy d v (clientPINRequest c) = Inr (ps_sharedSecret s)"
    by (rule device_secret_session [OF D(1) s c(2)])
  have "device_answer ?cy enc (clientPINRequest c) d = ([0], ?d)"
    using auth secret c(1) store_pin_padded [OF new] by (auto simp: device_answer_def client_pin_subs Let_def)
  from invokeClientPIN_ok [OF dev _ _ this [folded w], of zero_pin_response] obtain w' where
    "invokeClientPIN mg c w = Some (Inr zero_pin_response, w')" "dev w' = ?d"
    using auth c(2) session_key_valid [OF D(1) s] by (auto simp: client_pin_subs zero_pin_response_def w)
  then show "\<exists>x w'. io_bind (invokeClientPIN mg c) (\<lambda>_. io_return ()) w = Some (Inr x, w') \<and> dev w' = ?d" by auto
qed

lemma SetPIN_ok:
  assumes dev: "pin_device_behind mg dev unm enc" and info: "info_protocol info = Inr v" "v \<in> {1, 2}"
    and pin: "good_pin pin" and none: "pd_pinHash d = None"
  shows "io_yields (\<lambda>w. dev w = d) (SetPIN mg info pin) (\<lambda>_ w. dev w = d\<lparr>pd_pinHash := Some (pin_hash (mg_crypto mg) pin)\<rparr>)"
  unfolding io_yields_def
proof (intro allI impI)
  fix w assume w: "dev w = d"
  let ?cy = "mg_crypto mg"
  obtain s w1 where s: "getPINProtocolSession mg v w = Some (Inr s, w1)" "dev w1 = d" "session_with ?cy v d s"
    using io_yieldsD [OF get_session [OF dev info(2)] w] by blast
  obtain ct w2 where ct: "pinProtocolEncrypt ?cy (ps_version s) (ps_sharedSecret s) (pad_to 64 pin) w1 = Some (Inr ct, w2)"
    "dev w2 = d" "pinProtocolDecrypt ?cy v (ps_sharedSecret s) ct = Inr (pad_to 64 pin)"
    using io_yieldsD [OF encrypt_for_device [OF dev s(3), of "pad_to 64 pin"] s(2)] by auto
  have v: "ps_version s = v" using s(3) by (simp add: session_with_def)
  let ?c = "(NewClientPINCommand v ClientPINSetPIN)\<lparr>pn_KeyAgreement := Some (ps_keyAgreement s), pn_NewPINEnc := ct,
    pn_PinUVAuthParam := PinProtocolAuthenticate ?cy v (ps_sharedSecret s) ct\<rparr>"
  have "io_yields (\<lambda>w. dev w = d) (io_bind (invokeClientPIN mg ?c) (\<lambda>_. io_return ()))
    (\<lambda>_ w. dev w = d\<lparr>pd_pinHash := Some (pin_hash ?cy pin)\<rparr>)"
    by (rule store_command [OF dev s(3)]) (use pin none ct(3) in \<open>simp_all add: NewClientPINCommand_def\<close>)
  from io_yieldsD [OF this ct(2)] obtain w3 where
    "io_bind (invokeClientPIN mg ?c) (\<lambda>_. io_return ()) w2 = Some (Inr (), w3)" "dev w3 = d\<lparr>pd_pinHash := Some (pin_hash ?cy pin)\<rparr>"
    by auto
  with s(1) ct(1) v info(1) good_pin_padded(1) [OF pin]
  show "\<exists>x w'. SetPIN mg info pin w = Some (Inr x, w') \<and> dev w' = d\<lparr>pd_pinHash := Some (pin_hash ?cy pin)\<rparr>"
    by (simp add: SetPIN_def)
qed

lemma changePINOnce_ok:
  assumes dev: "pin_device_behind mg dev unm enc" and info: "info_protocol info = Inr v" "v \<in> {1, 2}"
    and opt: "optionEnabled info ''clientPin''"
    and pin: "good_pin pin" and cur: "pd_pinHash d = Some (pin_hash (mg_crypto mg) cur)"
  shows "io_yields (\<lambda>w. dev w = d) (changePINOnce mg info cur pin)
    (\<lambda>_ w. dev w = d\<lparr>pd_pinHash := Some (pin_hash (mg_crypto mg) pin)\<rparr>)"
  unfolding io_yields_def
proof (intro allI impI)
  fix w assume w: "dev w = d"
  let ?cy = "mg_crypto mg"
  note D = pin_device_behindD [OF dev]
  obtain s w1 where s: "getPINProtocolSession mg v w = Some (Inr s, w1)" "dev w1 = d" "session_with ?cy v d s"
    using io_yieldsD [OF get_session [OF dev info(2)] w] by blast
  obtain h w2 where h: "pinProtocolEncrypt ?cy (ps_version s) (ps_sharedSecret s) (pin_hash ?cy cur) w1 = Some (Inr h, w2)"
    "dev w2 = d" "pinProtocolDecrypt ?cy v (ps_sharedSecret s) h = Inr (pin_hash ?cy cur)"
    using io_yieldsD [OF encrypt_for_device [OF dev s(3), of "pin_hash ?cy cur"] s(2)] length_pin_hash [OF D(1)] by auto
  obtain ct w3 where ct: "pinProtocolEncrypt ?cy (ps_version s) (ps_sharedSecret s) (pad_to 64 pin) w2 = Some (Inr ct, w3)"
    "dev w3 = d" "pinProtocolDecrypt ?cy v (ps_sharedSecret s) ct = Inr (pad_to 64 pin)"
    using io_yieldsD [OF encrypt_for_device [OF dev s(3), of "pad_to 64 pin"] h(2)] by auto
  have v: "ps_version s = v" using s(3) by (simp add: session_with_def)
  let ?c = "(NewClientPINCommand v ClientPINChangePIN)\<lparr>pn_KeyAgreement := Some (ps_keyAgreement s), pn_PINHashEnc := h,
    pn_NewPINEnc := ct, pn_PinUVAuthParam := PinProtocolAuthenticate ?cy v (ps_sharedSecret s) (ct @ h)\<rparr>"
  have "io_yields (\<lambda>w. dev w = d) (io_bind (invokeClientPIN mg ?c) (\<lambda>_. io_return ()))
    (\<lambda>_ w. dev w = d\<lparr>pd_pinHash := Some (pin_hash ?cy pin)\<rparr>)"
    by (rule store_command [OF dev s(3)])
      (use pin cur ct(3) check_pin_iff [OF h(3)] in \<open>simp_all add: NewClientPINCommand_def\<close>)
  from io_yieldsD [OF this ct(2)] obtain w4 where
    "io_bind (invokeClientPIN mg ?c) (\<lambda>_. io_return ()) w3 = Some (Inr (), w4)" "dev w4 = d\<lparr>pd_pinHash := Some (pin_hash ?cy pin)\<rparr>"
    by auto
  with s(1) h(1) ct(1) v info(1) opt good_pin_padded(1) [OF pin]
  show "\<exists>x w'. changePINOnce mg info cur pin w = Some (Inr x, w') \<and> dev w' = d\<lparr>pd_pinHash := Some (pin_hash ?cy pin)\<rparr>"
    by (simp add: changePINOnce_def pin_hash_def)
qed

lemma ChangePIN_ok:
  assumes "io_yields P (changePINOnce mg info cur pin) Q"
  shows "io_yields P (ChangePIN mg info cur pin) Q"
  using assms by (fastforce simp: io_yields_def ChangePIN_def clientPINChangeAttempts_def numeral_3_eq_3 io_bind_def io_try_def)

subsection \<open>Tokens\<close>

lemma device_encrypt_decrypt:
  assumes "crypto_ok cy" "secret_ok v key" "length p mod 16 = 0"
  shows "pinProtocolDecrypt cy v key (device_encrypt cy v key p) = Inr p"
    and "p \<noteq> [] \<Longrightarrow> device_encrypt cy v key p \<noteq> []"
proof -
  have k: "v = 1 \<Longrightarrow> length key \<in> {16, 24, 32}" "v \<noteq> 1 \<Longrightarrow> v = 2 \<and> length key = 64 \<and> length (slice key 32 64) \<in> {16, 24, 32}"
    using assms(2) by (auto simp: secret_ok_def slice_def)
  note rt = aes_cbc_roundtrip [OF assms(1) _ _ assms(3), of _ "replicate 16 0", simplified]
  show "pinProtocolDecrypt cy v key (device_encrypt cy v key p) = Inr p"
    using k rt [of key] rt [of "slice key 32 64"] assms(3)
    by (cases "v = 1")
      (auto simp: pinProtocolDecrypt_def PinProtocol1Decrypt_def pinProtocol2Decrypt_def device_encrypt_def BlockSize_def
        aes_NewCipher_def)
  show "p \<noteq> [] \<Longrightarrow> device_encrypt cy v key p \<noteq> []"
    using k rt(2) [of key] by (cases "v = 1") (auto simp: device_encrypt_def)
qed

lemma token_request_ok:
  assumes dev: "pin_device_behind mg dev unm enc" and s: "session_with (mg_crypto mg) v d s"
    and c: "pn_PinUVAuthProtocol c = v" "pn_KeyAgreement c = Some (ps_keyAgreement s)"
      "pn_Subcommand c \<in> {ClientPINGetPINToken, ClientPINGetPINTokenWithPIN}"
    and pin: "check_pin (mg_crypto mg) v (ps_sharedSecret s) (pn_PINHashEnc c) d"
    and token: "pd_token d \<noteq> []" "length (pd_token d) mod 16 = 0"
  shows "io_yields (\<lambda>w. dev w = d) (token_request mg s c) (\<lambda>t w. t = pd_token d \<and> dev w = d)"
  unfolding io_yields_def
proof (intro allI impI)
  fix w assume w: "dev w = d"
  let ?cy = "mg_crypto mg"
  note D = pin_device_behindD [OF dev]
  have s': "ps_version s = v" "secret_ok v (ps_sharedSecret s)" using s by (simp_all add: session_with_def)
  let ?t = "device_encrypt ?cy v (ps_sharedSecret s) (pd_token d)" let ?r = "pin_response\<lparr>pr_PinUVAuthToken := ?t\<rparr>"
  have "device_answer ?cy enc (clientPINRequest c) d = (0 # enc ?r, d)"
    using c device_secret_session [OF D(1) s c(2)] pin by (auto simp: device_answer_def client_pin_subs Let_def)
  from invokeClientPIN_ok [OF dev _ _ this [folded w], of ?r] obtain w' where
    "invokeClientPIN mg c w = Some (Inr ?r, w')" "dev w' = d"
    using c session_key_valid [OF D(1) s] by (auto simp: client_pin_subs pin_response_def zero_pin_response_def w)
  with device_encrypt_decrypt [OF D(1) s'(2) token(2)] token(1) s'(1)
  show "\<exists>t w'. token_request mg s c w = Some (Inr t, w') \<and> t = pd_token d \<and> dev w' = d"
    by (simp add: token_request_def)
qed

lemma PinTokenForPermission_ok:
  assumes dev: "pin_device_behind mg dev unm enc" and info: "info_protocol info = Inr v" "v \<in> {1, 2}"
    and cur: "pd_pinHash d = Some (pin_hash (mg_crypto mg) pin)" and token: "pd_token d \<noteq> []" "length (pd_token d) mod 16 = 0"
  shows "io_yields (\<lambda>w. dev w = d) (PinTokenForPermission mg info pin perm rpid) (\<lambda>t w. t = (pd_token d, v) \<and> dev w = d)"
  unfolding io_yields_def
proof (intro allI impI)
  fix w assume w: "dev w = d"
  let ?cy = "mg_crypto mg"
  note D = pin_device_behindD [OF dev]
  obtain s w1 where s: "getPINProtocolSession mg v w = Some (Inr s, w1)" "dev w1 = d" "session_with ?cy v d s"
    using io_yieldsD [OF get_session [OF dev info(2)] w] by blast
  obtain h w2 where h: "pinProtocolEncrypt ?cy (ps_version s) (ps_sharedSecret s) (pin_hash ?cy pin) w1 = Some (Inr h, w2)"
    "dev w2 = d" "pinProtocolDecrypt ?cy v (ps_sharedSecret s) h = Inr (pin_hash ?cy pin)"
    using io_yieldsD [OF encrypt_for_device [OF dev s(3), of "pin_hash ?cy pin"] s(2)] length_pin_hash [OF D(1)] by auto
  have ok: "\<exists>w3. token_request mg s c w2 = Some (Inr (pd_token d), w3) \<and> dev w3 = d"
    if "pn_PinUVAuthProtocol c = v" "pn_KeyAgreement c = Some (ps_keyAgreement s)" "pn_PINHashEnc c = h"
      "pn_Subcommand c \<in> {ClientPINGetPINToken, ClientPINGetPINTokenWithPIN}" for c
    using io_yieldsD [OF token_request_ok [OF dev s(3) that(1,2,4) _ token] h(2)] check_pin_iff [OF h(3)] cur that(3) by auto
  show "\<exists>t w'. PinTokenForPermission mg info pin perm rpid w = Some (Inr t, w') \<and> t = (pd_token d, v) \<and> dev w' = d"
  proof (cases "optionEnabled info ''pinUvAuthToken''")
    case True
    let ?c = "(NewClientPINCommand v ClientPINGetPINTokenWithPIN)\<lparr>pn_KeyAgreement := Some (ps_keyAgreement s),
      pn_PINHashEnc := h, pn_Permissions := perm, pn_PermissionsRPID := rpid\<rparr>"
    from ok [of ?c] obtain w3 where "token_request mg s ?c w2 = Some (Inr (pd_token d), w3)" "dev w3 = d"
      by (auto simp: NewClientPINCommand_def)
    with True s(1) h(1) info(1) show ?thesis
      by (simp add: PinTokenForPermission_def getPINTokenWithPermissions_def pin_hash_def)
  next
    case False
    let ?c = "(NewClientPINCommand v ClientPINGetPINToken)\<lparr>pn_KeyAgreement := Some (ps_keyAgreement s), pn_PINHashEnc := h\<rparr>"
    from ok [of ?c] obtain w3 where "token_request mg s ?c w2 = Some (Inr (pd_token d), w3)" "dev w3 = d"
      by (auto simp: NewClientPINCommand_def)
    with False s(1) h(1) info(1) show ?thesis
      by (simp add: PinTokenForPermission_def getPINToken_def pin_hash_def)
  qed
qed

subsection \<open>Commands sent\<close>

text \<open>A counter that only the invoker advances, by one for every command.\<close>

definition counts_commands :: "'w manager \<Rightarrow> ('w \<Rightarrow> nat) \<Rightarrow> bool" where
  "counts_commands mg sent \<longleftrightarrow>
     (\<forall>c p. io_costs sent 1 (mg_invoke mg c p) \<and> io_total (mg_invoke mg c p)) \<and>
     ask_keeps sent (cy_generate (mg_crypto mg)) \<and> (\<forall>n. ask_keeps sent (cy_rand (mg_crypto mg) n))"

lemma counts_commandsD:
  assumes "counts_commands mg sent"
  shows "io_costs sent 1 (mg_invoke mg c p)" and "io_total (mg_invoke mg c p)"
    and "ask_keeps sent (cy_generate (mg_crypto mg))" and "ask_keeps sent (cy_rand (mg_crypto mg) n)"
  using assms by (auto simp: counts_commands_def)

lemma io_costs_free: "io_costs f 0 m \<Longrightarrow> (\<And>x. io_costs f n (k x)) \<Longrightarrow> io_costs f n (io_bind m k)"
  using io_costs_bind [of f 0 m n k] by simp

lemma io_costs_option:
  "io_costs f n m \<Longrightarrow> (\<And>x. io_costs f n (k x)) \<Longrightarrow> io_costs f n (case z of None \<Rightarrow> m | Some x \<Rightarrow> k x)"
  by (cases z) simp_all

lemma io_costs_if: "io_costs f n m \<Longrightarrow> io_costs f n m' \<Longrightarrow> io_costs f n (if b then m else m')"
  by simp

lemmas costs_intros = io_costs_free io_costs_prim io_costs_wrap io_costs_ask io_costs_try io_costs_option io_costs_if

lemma client_pin_costs:
  assumes "counts_commands mg sent"
  shows "io_costs sent 1 (invokeClientPIN mg c)"
    and "io_costs sent 0 (newPINProtocolSession (mg_crypto mg) v key)"
    and "io_costs sent 0 (pinProtocolEncrypt (mg_crypto mg) v secret p)"
    and "io_costs sent 1 (getPINProtocolSession mg v)"
proof -
  note D = counts_commandsD [OF assms]
  show inv: "io_costs sent 1 (invokeClientPIN mg c)" for c
  proof -
    have "io_costs sent (0 + (1 + 0)) (invokeClientPIN mg c)"
      unfolding invokeClientPIN_def by (rule io_costs_bind [OF io_costs_prim(3) io_costs_bind [OF D(1) io_costs_prim(3)]])
    then show ?thesis by simp
  qed
  show new: "io_costs sent 0 (newPINProtocolSession (mg_crypto mg) v key)" for key
    unfolding newPINProtocolSession_def by (intro costs_intros D)
  show "io_costs sent 0 (pinProtocolEncrypt (mg_crypto mg) v secret p)"
    unfolding pinProtocolEncrypt_def pinProtocol2Encrypt_def by (intro costs_intros D)
  have "io_costs sent (1 + 0) (getPINProtocolSession mg v)"
    unfolding getPINProtocolSession_def by (rule io_costs_bind [OF inv], intro costs_intros new)
  then show "io_costs sent 1 (getPINProtocolSession mg v)" by simp
qed

lemma changePINOnce_costs:
  assumes "counts_commands mg sent"
  shows "io_costs sent 2 (changePINOnce mg info cur new)"
proof -
  note C = client_pin_costs [OF assms]
  have last: "io_costs sent 1 (io_bind (invokeClientPIN mg c) (\<lambda>_. io_return ()))" for c
    using io_costs_bind [OF C(1) io_costs_prim(1) [of _ 0]] by simp
  have session: "io_costs sent 2 (io_bind (getPINProtocolSession mg v) k)" if "\<And>s. io_costs sent 1 (k s)" for v k
    using io_costs_bind [where k = k, OF C(4) that] by (simp add: numeral_2_eq_2)
  show ?thesis
    unfolding changePINOnce_def by (intro session last costs_intros C(3))
qed

lemma change_pin_loop_costs:
  assumes "counts_commands mg sent"
  shows "io_costs sent (2 * n) (change_pin_loop mg info cur new n prev)"
proof (induction n arbitrary: prev)
  case (Suc n)
  have "io_costs sent (2 + 2 * n) (change_pin_loop mg info cur new (Suc n) prev)"
    unfolding change_pin_loop.simps
  proof (rule io_costs_bind [OF io_costs_try [OF changePINOnce_costs [OF assms]]])
    fix r :: "unit res"
    show "io_costs sent (2 * n) (case r of Inl e \<Rightarrow>
        if shouldRetryClientPINChange e then change_pin_loop mg info cur new n r else io_of r | Inr _ \<Rightarrow> io_of r)"
      using Suc by (cases r) (auto intro: costs_intros)
  qed
  then show ?case by simp
qed (simp add: io_costs_prim)

lemma change_pin_total:
  assumes "counts_commands mg sent"
  shows "io_total (change_pin_loop mg info cur new n prev)"
proof -
  note D = counts_commandsD [OF assms]
  have case_option: "io_total (case z of None \<Rightarrow> m | Some x \<Rightarrow> k x)" if "io_total m" "\<And>x. io_total (k x)"
    for z :: "'c option" and m :: "('w, 'd) io" and k :: "'c \<Rightarrow> ('w, 'd) io" using that by (cases z) simp_all
  have inv: "io_total (invokeClientPIN mg c)" for c
    unfolding invokeClientPIN_def by (intro total_intros D)
  have session: "io_total (getPINProtocolSession mg v)" for v
    unfolding getPINProtocolSession_def newPINProtocolSession_def by (intro total_intros case_option inv)
  have enc: "io_total (pinProtocolEncrypt (mg_crypto mg) v key p)" for v key p
    unfolding pinProtocolEncrypt_def pinProtocol2Encrypt_def by (intro total_intros case_option)
  have once: "io_total (changePINOnce mg info cur new)"
    unfolding changePINOnce_def by (intro total_intros inv session enc)
  show ?thesis
  proof (induction n arbitrary: prev)
    case (Suc n)
    have "io_total (case r of Inl e \<Rightarrow>
        if shouldRetryClientPINChange e then change_pin_loop mg info cur new n r else io_of r | Inr _ \<Rightarrow> io_of r)" for r
      using Suc by (cases r) (auto intro: total_intros)
    then show ?case by (simp only: change_pin_loop.simps) (intro total_intros once)
  qed (simp add: io_total_def)
qed

subsection \<open>Properties\<close>

text \<open>An instance: the world is the authenticator, CBOR values are encoded by an enumeration of them.\<close>

instance cbor :: countable
  by countable_datatype

definition response_cbor :: "client_pin_response \<Rightarrow> cbor" where
  "response_cbor r =
     CArray [case pr_KeyAgreement r of None \<Rightarrow> CBool False | Some k \<Rightarrow> CArray [CInt (ck_KeyType k), CInt (ck_Algorithm k),
               CInt (ck_Curve k), CBytes (ck_X k), CBytes (ck_Y k)],
             CBytes (pr_PinUVAuthToken r), CInt (uint (pr_PINRetries r)), CBool (pr_PowerCycleState r), CInt (uint (pr_UVRetries r))]"

fun response_of_cbor :: "cbor \<Rightarrow> client_pin_response" where
  "response_of_cbor (CArray [k, CBytes t, CInt n, CBool p, CInt u]) =
     \<lparr>pr_KeyAgreement = (case k of CArray [CInt kt, CInt al, CInt cv, CBytes x, CBytes y] \<Rightarrow>
          Some \<lparr>ck_KeyType = kt, ck_Algorithm = al, ck_Curve = cv, ck_X = x, ck_Y = y\<rparr> | _ \<Rightarrow> None),
      pr_PinUVAuthToken = t, pr_PINRetries = word_of_int n, pr_PowerCycleState = p, pr_UVRetries = word_of_int u\<rparr>"
| "response_of_cbor _ = zero_pin_response"

lemma response_of_response: "response_of_cbor (response_cbor r) = r"
  by (cases r) (auto simp: response_cbor_def split: option.splits)

definition enum_bytes :: "cbor \<Rightarrow> bytes" where
  "enum_bytes v = replicate (Suc (to_nat v)) 0"

definition enum_cbor :: "bytes \<Rightarrow> cbor option" where
  "enum_cbor bs = Some (from_nat (length bs - 1))"

definition sample_cbor :: cbor_ops where
  "sample_cbor =
     \<lparr>cb_marshal = (\<lambda>v. Inr (enum_bytes v)), cb_wellformed = (\<lambda>_. None), cb_getInfoWire = (\<lambda>_. Inl GoPanic),
      cb_rawMap = (\<lambda>_. Inl GoPanic), cb_makeCredential = (\<lambda>_ t. (t, None)), cb_getAssertion = (\<lambda>_ t. (t, None)),
      cb_clientPIN = (\<lambda>bs _. (response_of_cbor (the (enum_cbor bs)), None)), cb_credMgmt = (\<lambda>_ t. (t, None))\<rparr>"

definition sample_pin_manager :: "pin_device manager" where
  "sample_pin_manager =
     \<lparr>mg_invoke = (\<lambda>c p d. case device_answer (toy_crypto :: pin_device crypto_ops) (enum_bytes \<circ> response_cbor) (the (enum_cbor p)) d of
        (a, d') \<Rightarrow> Some (Inr a, d')), mg_crypto = toy_crypto, mg_cbor = sample_cbor\<rparr>"

lemma sample_pin_behind: "pin_device_behind sample_pin_manager id enum_cbor (enum_bytes \<circ> response_cbor)"
proof -
  have "ask_keeps id (cy_generate (toy_crypto :: pin_device crypto_ops))"
    and "\<And>n. ask_keeps id (cy_rand (toy_crypto :: pin_device crypto_ops) n)"
    by (simp_all add: ask_keeps_def toy_crypto_def)
  then show ?thesis
    by (simp add: pin_device_behind_def sample_pin_manager_def toy_crypto_ok sample_cbor_def enum_bytes_def enum_cbor_def
        response_of_response split: prod.splits)
qed


text \<open>An authenticator with protocol 2 and the \<open>clientPin\<close> option.\<close>

definition sample_info :: get_info_response where
  "sample_info =
     \<lparr>gi_Versions = [''FIDO_2_1''], gi_Extensions = [], gi_AAGUID = replicate 16 0,
      gi_Options = [''clientPin'' \<mapsto> True], gi_MaxMsgSize = 0, gi_PinUVAuthProtocols = [1, 2], gi_MaxCredentialCountInList = 0,
      gi_MaxCredentialIDLength = 0, gi_Transports = [], gi_Algorithms = [], gi_MaxSerializedLargeBlobArray = 0,
      gi_ForcePINChange = False, gi_MinPINLength = 0, gi_FirmwareVersion = 0, gi_MaxCredBlobLength = 0,
      gi_MaxRPIDsForSetMinPINLength = 0, gi_PreferredPlatformUVAttempts = 0, gi_UVModality = 0, gi_Certifications = Map.empty,
      gi_RemainingDiscoverableCredentials = 0, gi_VendorPrototypeConfigCommands = [], gi_Raw = Map.empty\<rparr>"


text \<open>\<open>ChangePIN\<close> always returns when the commands it sends return, and sends at most six commands (three
  attempts of a key agreement and a changePIN), whatever the authenticator answers.\<close>

theorem change_pin_bounded:
  assumes "counts_commands mg sent"
  shows "\<exists>r w'. ChangePIN mg info currentPIN newPIN w = Some (r, w') \<and> sent w' \<le> sent w + 6"
proof -
  have "io_total (ChangePIN mg info currentPIN newPIN)" "io_costs sent 6 (ChangePIN mg info currentPIN newPIN)"
    using change_pin_total [OF assms, of info currentPIN newPIN 3] change_pin_loop_costs [OF assms, of 3 info currentPIN newPIN]
    by (simp_all add: ChangePIN_def clientPINChangeAttempts_def)
  then show ?thesis by (metis io_costsD io_totalE)
qed

text \<open>An authenticator that answers every command with status 0x12.\<close>

definition busy_manager :: "nat manager" where
  "busy_manager = \<lparr>mg_invoke = (\<lambda>c p n. Some (Inr [0x12], Suc n)), mg_crypto = toy_crypto, mg_cbor = sample_cbor\<rparr>"

theorem change_pin_bounded_witness:
  "\<exists>r w'. ChangePIN busy_manager (Some sample_info) [1] [2] 0 = Some (r, w') \<and> w' \<le> 6"
proof -
  have "counts_commands busy_manager id"
    by (simp add: counts_commands_def busy_manager_def io_costs_def io_total_def ask_keeps_def toy_crypto_def)
  from change_pin_bounded [OF this, of "Some sample_info" "[1]" "[2]" 0] show ?thesis by simp
qed

end
