(* ===== verification/ClientCore.thy ===== *)
theory ClientCore
  imports Transport Ctap1 Ctap2Manager
begin

text \<open>
  The client facade, first half: construction and options (\<open>pkg/client/client.go\<close>, \<open>options.go\<close>,
  \<open>default_invokers.go\<close>), raw dispatch, interaction (\<open>interaction.go\<close>), capability probing and its cache
  (\<open>capabilities.go\<close>), authenticator data and selection policies (\<open>operations.go\<close>), explicit CTAPHID exchange
  (\<open>hid.go\<close>) and closing (\<open>close.go\<close>).

  The session, the middlewares, the raw invokers and the interaction handler are interfaces of the code, so they
  are records of operations over the world. The client's only mutable field, the capability cache, is a field of
  the world: the world is any extension of the record \<open>client_mem\<close>. Exchanges return a payload
  and an error together, as in Go: \<open>trace.go\<close> looks at a payload that comes with an error. The error
  channel of \<open>io\<close> is then only a panic of the callee.
\<close>

subsection \<open>Capabilities\<close>

record ctap1_capabilities =
  c1_Version :: string

record protocol_capabilities =
  pc_CTAP1 :: bool
  pc_CTAP2 :: bool
  pc_Preferred :: string

record authenticator_capabilities =
  au_ResidentKey :: bool
  au_CredentialManagement :: bool
  au_CredentialManagementPreview :: bool

record verification_capabilities =
  vc_ClientPIN :: bool
  vc_BuiltInUV :: bool
  vc_PinUVAuthToken :: bool
  vc_BioEnrollment :: bool
  vc_UVRetriesAvailable :: bool

record interaction_capabilities =
  ic_UserPresence :: bool
  ic_UserVerification :: bool
  ic_BuiltInUV :: bool
  ic_NFCImplicitPresence :: bool

record capabilities =
  cap_Protocols :: protocol_capabilities
  cap_Authenticator :: authenticator_capabilities
  cap_Verification :: verification_capabilities
  cap_Interaction :: interaction_capabilities
  cap_RawCTAP1 :: "ctap1_capabilities option"
  cap_RawCTAP2 :: "get_info_response option"

definition VerificationMethodPIN :: string where "VerificationMethodPIN = ''pin''"
definition VerificationMethodBuiltInUV :: string where "VerificationMethodBuiltInUV = ''built-in-uv''"

definition HasCTAP1 :: "capabilities \<Rightarrow> bool" where
  "HasCTAP1 caps \<longleftrightarrow> cap_RawCTAP1 caps \<noteq> None"

definition HasCTAP2 :: "capabilities \<Rightarrow> bool" where
  "HasCTAP2 caps \<longleftrightarrow> cap_RawCTAP2 caps \<noteq> None"

definition PreferredProtocol :: "capabilities \<Rightarrow> string option" where
  "PreferredProtocol caps =
     (if HasCTAP2 caps then Some FamilyCTAP2 else if HasCTAP1 caps then Some FamilyCTAP1 else None)"

definition optionPresent :: "get_info_response option \<Rightarrow> string \<Rightarrow> bool" where
  "optionPresent info key = (case info of None \<Rightarrow> False | Some i \<Rightarrow> gi_Options i key \<noteq> None)"

definition supportsUserVerification :: "get_info_response option \<Rightarrow> bool" where
  "supportsUserVerification info \<longleftrightarrow> optionPresent info ''clientPin'' \<or> optionPresent info ''uv''"

text \<open>The zero value of the struct, with the raw responses filled in.\<close>

definition raw_capabilities :: "ctap1_capabilities option \<Rightarrow> get_info_response option \<Rightarrow> capabilities" where
  "raw_capabilities rawCTAP1 rawCTAP2 =
     \<lparr>cap_Protocols = \<lparr>pc_CTAP1 = rawCTAP1 \<noteq> None, pc_CTAP2 = rawCTAP2 \<noteq> None, pc_Preferred = []\<rparr>,
      cap_Authenticator = \<lparr>au_ResidentKey = False, au_CredentialManagement = False, au_CredentialManagementPreview = False\<rparr>,
      cap_Verification = \<lparr>vc_ClientPIN = False, vc_BuiltInUV = False, vc_PinUVAuthToken = False,
        vc_BioEnrollment = False, vc_UVRetriesAvailable = False\<rparr>,
      cap_Interaction = \<lparr>ic_UserPresence = False, ic_UserVerification = False, ic_BuiltInUV = False,
        ic_NFCImplicitPresence = False\<rparr>,
      cap_RawCTAP1 = rawCTAP1, cap_RawCTAP2 = rawCTAP2\<rparr>"

definition buildCapabilities ::
  "ctap1_capabilities option \<Rightarrow> get_info_response option \<Rightarrow> device_descriptor \<Rightarrow> capabilities" where
  "buildCapabilities rawCTAP1 rawCTAP2 device =
     (let caps0 = raw_capabilities rawCTAP1 rawCTAP2;
          caps1 = (case PreferredProtocol caps0 of
                     None \<Rightarrow> caps0
                   | Some preferred \<Rightarrow> caps0\<lparr>cap_Protocols := (cap_Protocols caps0)\<lparr>pc_Preferred := preferred\<rparr>\<rparr>);
          caps2 = caps1\<lparr>cap_Interaction := (cap_Interaction caps1)
                    \<lparr>ic_UserPresence := HasCTAP1 caps1 \<or> HasCTAP2 caps1,
                     ic_NFCImplicitPresence := dd_Transport device = KindNFC\<rparr>\<rparr>
      in if rawCTAP2 = None then caps2
         else caps2
           \<lparr>cap_Authenticator :=
              \<lparr>au_ResidentKey = optionPresent rawCTAP2 ''rk'',
               au_CredentialManagement = optionEnabled rawCTAP2 ''credMgmt'' \<or> optionEnabled rawCTAP2 ''credentialMgmtPreview'',
               au_CredentialManagementPreview = optionEnabled rawCTAP2 ''credentialMgmtPreview''\<rparr>,
            cap_Verification :=
              \<lparr>vc_ClientPIN = optionPresent rawCTAP2 ''clientPin'',
               vc_BuiltInUV = optionPresent rawCTAP2 ''uv'',
               vc_PinUVAuthToken = optionEnabled rawCTAP2 ''pinUvAuthToken'',
               vc_BioEnrollment = optionPresent rawCTAP2 ''bioEnroll'',
               vc_UVRetriesAvailable = optionPresent rawCTAP2 ''uv''\<rparr>,
            cap_Interaction := (cap_Interaction caps2)
              \<lparr>ic_UserVerification := supportsUserVerification rawCTAP2,
               ic_BuiltInUV := optionPresent rawCTAP2 ''uv''\<rparr>\<rparr>)"

subsection \<open>Collaborators\<close>

record client_mem =
  cm_caps :: "capabilities option"

type_synonym 'w exchange_func = "bytes \<Rightarrow> ('w, bytes \<times> err option) io"

type_synonym 'w hid_exchange_func = "byte \<Rightarrow> bytes \<Rightarrow> ('w, bytes \<times> err option) io"

text \<open>A session; \<open>None\<close> in an optional field is a failed type assertion to the optional interface.\<close>

record 'w session =
  se_Device :: device_descriptor
  se_Exchange :: "'w exchange_func"
  se_Close :: "'w \<Rightarrow> err option \<times> 'w"
  se_ExchangeHID :: "'w hid_exchange_func option"
  se_CloseContext :: "('w \<Rightarrow> err option \<times> 'w) option"

record 'w raw_invoker =
  ri_Protocol :: string
  ri_InvokeRaw :: "'w exchange_func \<Rightarrow> 'w hid_exchange_func"

record interaction_event =
  ie_Kind :: string
  ie_Operation :: string
  ie_Protocol :: string
  ie_Transport :: string
  ie_Message :: string
  ie_Retryable :: bool

record pin_request =
  pq_Operation :: string
  pq_Protocol :: string
  pq_Transport :: string
  pq_Method :: string
  pq_Message :: string

definition InteractionAwaitingUserPresence :: string where
  "InteractionAwaitingUserPresence = ''awaiting-user-presence''"

definition InteractionAwaitingPIN :: string where
  "InteractionAwaitingPIN = ''awaiting-pin''"

record 'w interaction_handler =
  ih_OnInteraction :: "interaction_event \<Rightarrow> 'w \<Rightarrow> 'w"
  ih_RequestPIN :: "pin_request \<Rightarrow> ('w, bytes) io"

record 'w config =
  cf_middlewares :: "('w exchange_func \<Rightarrow> 'w exchange_func) list"
  cf_hidMiddlewares :: "('w hid_exchange_func \<Rightarrow> 'w hid_exchange_func) list"
  cf_invokers :: "string \<rightharpoonup> 'w raw_invoker"
  cf_interaction :: "'w interaction_handler option"

record 'w client =
  cl_session :: "'w session"
  cl_exchange :: "'w exchange_func"
  cl_hidExchange :: "'w hid_exchange_func"
  cl_invokers :: "string \<rightharpoonup> 'w raw_invoker"
  cl_interaction :: "'w interaction_handler option"

text \<open>What the SDK takes from other packages: cryptography, CBOR, and \<open>x509.ParseCertificate\<close>'s verdict.\<close>

record 'w sdk_libs =
  lb_crypto :: "'w crypto_ops"
  lb_cbor :: cbor_ops
  lb_parseCertificate :: "bytes \<Rightarrow> err option"

text \<open>\<open>x, err := m(); if err != nil { return err }\<close> for a call that returns both.\<close>

definition checked :: "('w, 'a \<times> err option) io \<Rightarrow> ('w, 'a) io" where
  "checked m = io_bind m (\<lambda>(x, e). case e of None \<Rightarrow> io_return x | Some err \<Rightarrow> io_fail err)"

subsection \<open>Options and construction\<close>

type_synonym 'w client_option = "'w config \<Rightarrow> 'w config res"

definition client_sentinel :: "client_error \<Rightarrow> err" where
  "client_sentinel e = Sentinel (SClient e)"

definition WithMiddleware :: "('w exchange_func \<Rightarrow> 'w exchange_func) option \<Rightarrow> 'w client_option" where
  "WithMiddleware wrapper cfg =
     (case wrapper of
        None \<Rightarrow> Inl (client_sentinel ErrMiddlewareRequired)
      | Some m \<Rightarrow> Inr (cfg\<lparr>cf_middlewares := cf_middlewares cfg @ [m]\<rparr>))"

definition WithHIDMiddleware :: "('w hid_exchange_func \<Rightarrow> 'w hid_exchange_func) option \<Rightarrow> 'w client_option" where
  "WithHIDMiddleware wrapper cfg =
     (case wrapper of
        None \<Rightarrow> Inl (client_sentinel ErrMiddlewareRequired)
      | Some m \<Rightarrow> Inr (cfg\<lparr>cf_hidMiddlewares := cf_hidMiddlewares cfg @ [m]\<rparr>))"

definition WithRawInvoker :: "'w raw_invoker option \<Rightarrow> 'w client_option" where
  "WithRawInvoker invoker cfg =
     (case invoker of
        None \<Rightarrow> Inl (client_sentinel ErrRawInvokerRequired)
      | Some i \<Rightarrow>
          let family = ri_Protocol i in
          (case family_Validate family of
             Some e \<Rightarrow> Inl e
           | None \<Rightarrow>
               if cf_invokers cfg family \<noteq> None then Inl (DuplicateRawInvokerError family)
               else Inr (cfg\<lparr>cf_invokers := (cf_invokers cfg)(family \<mapsto> i)\<rparr>)))"

definition WithInteraction :: "'w interaction_handler option \<Rightarrow> 'w client_option" where
  "WithInteraction handler cfg =
     (case handler of
        None \<Rightarrow> Inl (client_sentinel ErrInteractionHandlerRequired)
      | Some h \<Rightarrow> Inr (cfg\<lparr>cf_interaction := Some h\<rparr>))"

definition ctap1RawInvoker :: "'w raw_invoker" where
  "ctap1RawInvoker =
     \<lparr>ri_Protocol = FamilyCTAP1,
      ri_InvokeRaw = (\<lambda>exchange command payload.
        case EncodeRawAPDU command payload of
          Inl e \<Rightarrow> io_return ([], Some e)
        | Inr request \<Rightarrow> exchange request)\<rparr>"

definition ctap2RawInvoker :: "'w raw_invoker" where
  "ctap2RawInvoker =
     \<lparr>ri_Protocol = FamilyCTAP2, ri_InvokeRaw = (\<lambda>exchange command payload. exchange (command # payload))\<rparr>"

definition WithDefaultRawInvokers :: "'w client_option" where
  "WithDefaultRawInvokers cfg =
     andThen (WithRawInvoker (Some ctap1RawInvoker) cfg) (WithRawInvoker (Some ctap2RawInvoker))"

definition WithDefaultCTAP2RawInvoker :: "'w client_option" where
  "WithDefaultCTAP2RawInvoker = WithRawInvoker (Some ctap2RawInvoker)"

definition unsupportedHIDExchange :: err where
  "unsupportedHIDExchange =
     TransportError ''exchange hid'' (Unsupported (TextError ''client: session does not support explicit CTAPHID exchange''))"

text \<open>The loop over the options; a nil option is skipped.\<close>

fun apply_options :: "'w client_option option list \<Rightarrow> 'w config \<Rightarrow> 'w config res" where
  "apply_options [] cfg = Inr cfg"
| "apply_options (None # options) cfg = apply_options options cfg"
| "apply_options (Some option # options) cfg = andThen (option cfg) (apply_options options)"

definition empty_config :: "'w config" where
  "empty_config = \<lparr>cf_middlewares = [], cf_hidMiddlewares = [], cf_invokers = Map.empty, cf_interaction = None\<rparr>"

definition base_hid_exchange :: "'w session \<Rightarrow> 'w hid_exchange_func" where
  "base_hid_exchange session command payload =
     (case se_ExchangeHID session of
        Some exchangeHID \<Rightarrow> exchangeHID command payload
      | None \<Rightarrow> io_return ([], Some unsupportedHIDExchange))"

definition client_New :: "'w session option \<Rightarrow> 'w client_option option list \<Rightarrow> 'w client res" where
  "client_New session options =
     (case session of
        None \<Rightarrow> Inl (client_sentinel ErrSessionRequired)
      | Some s \<Rightarrow>
          andThen (apply_options options empty_config) (\<lambda>cfg.
            Inr \<lparr>cl_session = s, cl_exchange = Chain (se_Exchange s) (cf_middlewares cfg),
                 cl_hidExchange = ChainHID (base_hid_exchange s) (cf_hidMiddlewares cfg),
                 cl_invokers = cf_invokers cfg, cl_interaction = cf_interaction cfg\<rparr>))"

text \<open>\<open>Supported\<close> for a client of this package.\<close>

definition Supported :: "'w client \<Rightarrow> string \<Rightarrow> bool" where
  "Supported cl family \<longleftrightarrow> cl_invokers cl family \<noteq> None"

definition client_Device :: "'w client \<Rightarrow> device_descriptor" where
  "client_Device cl = se_Device (cl_session cl)"

definition client_InvokeRaw :: "'w client \<Rightarrow> string \<Rightarrow> 'w hid_exchange_func" where
  "client_InvokeRaw cl family command payload =
     (case family_Validate family of
        Some e \<Rightarrow> io_return ([], Some e)
      | None \<Rightarrow>
          (case cl_invokers cl family of
             None \<Rightarrow> io_return ([], Some (UnsupportedProtocolError family))
           | Some invoker \<Rightarrow> ri_InvokeRaw invoker (cl_exchange cl) command payload))"

definition client_Close :: "'w client \<Rightarrow> 'w \<Rightarrow> err option \<times> 'w" where
  "client_Close cl = se_Close (cl_session cl)"

definition client_CloseContext :: "'w client \<Rightarrow> 'w \<Rightarrow> err option \<times> 'w" where
  "client_CloseContext cl w =
     (case se_CloseContext (cl_session cl) of
        Some closer \<Rightarrow> closer w
      | None \<Rightarrow> (Some (TransportError ''close client with context''
          (Unsupported (TextError ''client: session does not support context-aware cleanup''))), w))"

text \<open>\<open>ctxErr\<close> answers \<open>ctx.Err()\<close>. The package function \<open>ExchangeHID\<close> asks it before and the method again; \<open>None\<close>
  for \<open>sdk\<close> is a client that is not an \<open>HIDClient\<close>.\<close>

definition client_ExchangeHID :: "('w \<Rightarrow> err option \<times> 'w) \<Rightarrow> 'w client \<Rightarrow> 'w hid_exchange_func" where
  "client_ExchangeHID ctxErr cl command payload =
     io_bind (io_ask ctxErr) (\<lambda>e. case e of
       Some err \<Rightarrow> io_return ([], Some (TransportError ''exchange hid'' err))
     | None \<Rightarrow> cl_hidExchange cl command payload)"

definition ExchangeHID :: "('w \<Rightarrow> err option \<times> 'w) \<Rightarrow> 'w client option \<Rightarrow> 'w hid_exchange_func" where
  "ExchangeHID ctxErr sdk command payload =
     io_bind (io_ask ctxErr) (\<lambda>e. case e of
       Some err \<Rightarrow> io_return ([], Some (TransportError ''exchange hid'' err))
     | None \<Rightarrow>
         (case sdk of
            Some candidate \<Rightarrow> client_ExchangeHID ctxErr candidate command payload
          | None \<Rightarrow> io_return ([], Some unsupportedHIDExchange)))"

definition ctap2Manager :: "'w sdk_libs \<Rightarrow> 'w client \<Rightarrow> 'w manager" where
  "ctap2Manager libs cl =
     \<lparr>mg_invoke = (\<lambda>command payload. checked (client_InvokeRaw cl FamilyCTAP2 command payload)),
      mg_crypto = lb_crypto libs, mg_cbor = lb_cbor libs\<rparr>"

subsection \<open>Interaction\<close>

definition emitInteraction :: "'w client \<Rightarrow> interaction_event \<Rightarrow> ('w, unit) io" where
  "emitInteraction cl event =
     (case cl_interaction cl of
        None \<Rightarrow> io_return ()
      | Some handler \<Rightarrow>
          io_modify (ih_OnInteraction handler
            (if ie_Transport event = [] then event\<lparr>ie_Transport := dd_Transport (client_Device cl)\<rparr> else event)))"

definition requestPIN :: "'w client \<Rightarrow> pin_request \<Rightarrow> ('w, bytes) io" where
  "requestPIN cl req =
     (case cl_interaction cl of
        None \<Rightarrow> io_fail (client_sentinel ErrPINRequired)
      | Some handler \<Rightarrow>
          let req1 = (if pq_Transport req = [] then req\<lparr>pq_Transport := dd_Transport (client_Device cl)\<rparr> else req);
              req2 = (if pq_Message req1 = [] then req1\<lparr>pq_Message := ''Enter authenticator PIN''\<rparr> else req1)
          in io_bind (emitInteraction cl
               \<lparr>ie_Kind = InteractionAwaitingPIN, ie_Operation = pq_Operation req2, ie_Protocol = pq_Protocol req2,
                ie_Transport = pq_Transport req2, ie_Message = pq_Message req2, ie_Retryable = True\<rparr>)
             (\<lambda>_. ih_RequestPIN handler req2))"

subsection \<open>Probing and the capability cache\<close>

definition zero_info :: get_info_response where
  "zero_info =
     \<lparr>gi_Versions = [], gi_Extensions = [], gi_AAGUID = [], gi_Options = Map.empty, gi_MaxMsgSize = 0,
      gi_PinUVAuthProtocols = [], gi_MaxCredentialCountInList = 0, gi_MaxCredentialIDLength = 0, gi_Transports = [],
      gi_Algorithms = [], gi_MaxSerializedLargeBlobArray = 0, gi_ForcePINChange = False, gi_MinPINLength = 0,
      gi_FirmwareVersion = 0, gi_MaxCredBlobLength = 0, gi_MaxRPIDsForSetMinPINLength = 0,
      gi_PreferredPlatformUVAttempts = 0, gi_UVModality = 0, gi_Certifications = Map.empty,
      gi_RemainingDiscoverableCredentials = 0, gi_VendorPrototypeConfigCommands = [], gi_Raw = Map.empty\<rparr>"

text \<open>One probe: no invoker for the family, a failed command and an undecodable answer all mean no support.\<close>

definition probe_family ::
  "'w client \<Rightarrow> string \<Rightarrow> byte \<Rightarrow> (bytes \<Rightarrow> 'r res) \<Rightarrow> ('w, 'r option) io" where
  "probe_family cl family command decode =
     (if cl_invokers cl family = None then io_return None
      else io_bind (client_InvokeRaw cl family command []) (\<lambda>(responseBytes, e).
        io_return (case e of
            Some _ \<Rightarrow> None
          | None \<Rightarrow> (case decode responseBytes of Inl _ \<Rightarrow> None | Inr response \<Rightarrow> Some response))))"

definition decode_info :: "'w sdk_libs \<Rightarrow> bytes \<Rightarrow> get_info_response res" where
  "decode_info libs data = decoded (GetInfoCommand_DecodeResponse (lb_cbor libs) True data zero_info)"

definition decode_version :: "bytes \<Rightarrow> ctap1_capabilities res" where
  "decode_version data = andThen (VersionCommand_DecodeResponse True data) (\<lambda>version. Inr \<lparr>c1_Version = version\<rparr>)"

text \<open>\<open>cloneCapabilities\<close> is a deep copy; copies of values are equal, so it has no counterpart here (the theory
  \<open>DeepCopy\<close> shows that nothing is shared).\<close>

definition client_Capabilities ::
  "('e client_mem_scheme) sdk_libs \<Rightarrow> ('e client_mem_scheme) client \<Rightarrow> ('e client_mem_scheme, capabilities) io" where
  "client_Capabilities libs cl =
     io_bind (io_gets cm_caps) (\<lambda>cached. case cached of
       Some caps \<Rightarrow> io_return caps
     | None \<Rightarrow>
         io_bind (probe_family cl FamilyCTAP2 CommandGetInfo (decode_info libs)) (\<lambda>ctap2Caps.
         io_bind (probe_family cl FamilyCTAP1 CommandVersion decode_version) (\<lambda>ctap1Caps.
           let caps = buildCapabilities ctap1Caps ctap2Caps (client_Device cl) in
           if \<not> HasCTAP1 caps \<and> \<not> HasCTAP2 caps then io_fail (client_sentinel ErrNoCapableProtocol)
           else io_bind (io_modify (\<lambda>w. w\<lparr>cm_caps := Some caps\<rparr>)) (\<lambda>_. io_return caps))))"

definition requireCTAP2Capabilities ::
  "('e client_mem_scheme) sdk_libs \<Rightarrow> ('e client_mem_scheme) client \<Rightarrow> string \<Rightarrow>
   ('e client_mem_scheme, get_info_response option) io" where
  "requireCTAP2Capabilities libs cl operation =
     io_bind (client_Capabilities libs cl) (\<lambda>caps.
       if \<not> HasCTAP2 caps then
         (if HasCTAP1 caps
          then io_fail (TextError (''client: authenticator supports CTAP1 only; '' @ operation @ '' requires CTAP2''))
          else io_fail (client_sentinel ErrNoCapableProtocol))
       else io_return (cap_RawCTAP2 caps))"

subsection \<open>Authenticator data and selection policies\<close>

definition authenticatorDataMinimumLength :: nat where "authenticatorDataMinimumLength = 37"
definition attestedCredentialDataHeaderLength :: nat where "attestedCredentialDataHeaderLength = 18"
definition authenticatorDataFlagUserPresent :: byte where "authenticatorDataFlagUserPresent = 0x01"
definition authenticatorDataFlagUserVerified :: byte where "authenticatorDataFlagUserVerified = 0x04"
definition authenticatorDataFlagAttestedCred :: byte where "authenticatorDataFlagAttestedCred = 0x40"

record parsed_authenticator_data =
  pa_UserPresent :: bool
  pa_UserVerified :: bool
  pa_SignCount :: u32
  pa_CredentialID :: bytes

definition parseAuthenticatorData :: "bytes \<Rightarrow> parsed_authenticator_data res" where
  "parseAuthenticatorData data =
     (if length data < authenticatorDataMinimumLength then Inl (TextError ''client: authenticator data is too short'')
      else
        let flags = data ! 32;
            parsed = \<lparr>pa_UserPresent = flags AND authenticatorDataFlagUserPresent \<noteq> 0,
                      pa_UserVerified = flags AND authenticatorDataFlagUserVerified \<noteq> 0,
                      pa_SignCount = get32 (slice data 33 37), pa_CredentialID = []\<rparr>
        in if flags AND authenticatorDataFlagAttestedCred = 0 then Inr parsed
           else if length data < authenticatorDataMinimumLength + attestedCredentialDataHeaderLength
             then Inl (TextError ''client: authenticator data is missing attested credential data'')
           else
             let offset = authenticatorDataMinimumLength + 16;
                 credentialIDLength = unat (get16 (slice data offset (offset + 2)));
                 offset' = offset + 2
             in if length data < offset' + credentialIDLength
                then Inl (TextError ''client: authenticator data credential id length exceeds payload'')
                else Inr (parsed\<lparr>pa_CredentialID := slice data offset' (offset' + credentialIDLength)\<rparr>))"

definition RequirementDiscouraged :: string where "RequirementDiscouraged = ''discouraged''"
definition RequirementPreferred :: string where "RequirementPreferred = ''preferred''"
definition RequirementRequired :: string where "RequirementRequired = ''required''"
definition UserVerificationDiscouraged :: string where "UserVerificationDiscouraged = ''discouraged''"
definition UserVerificationPreferred :: string where "UserVerificationPreferred = ''preferred''"
definition UserVerificationRequired :: string where "UserVerificationRequired = ''required''"

record authenticator_selection =
  as_UserPresence :: string
  as_UserVerification :: string

definition normalizedUserPresence :: "authenticator_selection \<Rightarrow> string" where
  "normalizedUserPresence selection =
     (if as_UserPresence selection \<in> {RequirementDiscouraged, RequirementRequired} then as_UserPresence selection
      else RequirementPreferred)"

definition normalizedUserVerification :: "authenticator_selection \<Rightarrow> string" where
  "normalizedUserVerification selection =
     (if as_UserVerification selection \<in> {UserVerificationPreferred, UserVerificationRequired}
      then as_UserVerification selection else UserVerificationDiscouraged)"

definition defaultCTAP1AuthenticateControl :: "authenticator_selection \<Rightarrow> byte" where
  "defaultCTAP1AuthenticateControl selection =
     (if normalizedUserPresence selection = RequirementDiscouraged then ControlDontEnforceUserPresenceAndSign
      else ControlEnforceUserPresenceAndSign)"

subsection \<open>The cache\<close>

text \<open>What a capability summary promises: some protocol was detected, the CTAP2 information is valid, and every
  normalized field is the one derived from the raw answers and the device.\<close>

definition caps_sound :: "device_descriptor \<Rightarrow> capabilities \<Rightarrow> bool" where
  "caps_sound device caps \<longleftrightarrow>
     (HasCTAP1 caps \<or> HasCTAP2 caps) \<and>
     (\<forall>info. cap_RawCTAP2 caps = Some info \<longrightarrow> GetInfoResponse_Validate info = None) \<and>
     caps = buildCapabilities (cap_RawCTAP1 caps) (cap_RawCTAP2 caps) device"

definition cache_ok :: "('e client_mem_scheme) client \<Rightarrow> 'e client_mem_scheme \<Rightarrow> bool" where
  "cache_ok cl w \<longleftrightarrow> (\<forall>caps. cm_caps w = Some caps \<longrightarrow> caps_sound (client_Device cl) caps)"

lemma buildCapabilities_raw [simp]:
  "cap_RawCTAP1 (buildCapabilities c1 c2 device) = c1" "cap_RawCTAP2 (buildCapabilities c1 c2 device) = c2"
  by (simp_all add: buildCapabilities_def raw_capabilities_def Let_def split: option.split)

lemma decode_checked_ok:
  "decode_checked operation f check ok data target = (r, None) \<Longrightarrow> check r = None"
  by (auto simp: decode_checked_def split: if_splits prod.splits option.splits)

lemma decode_info_valid: "decode_info libs data = Inr info \<Longrightarrow> GetInfoResponse_Validate info = None"
  by (auto simp: decode_info_def decoded_def GetInfoCommand_DecodeResponse_def split: prod.splits option.splits
      dest: decode_checked_ok)

lemma probe_family_keeps:
  assumes "\<And>i. cl_invokers cl f = Some i \<Longrightarrow> io_keeps cm_caps (ri_InvokeRaw i (cl_exchange cl) c [])"
  shows "io_keeps cm_caps (probe_family cl f c decode)"
proof (rule io_keepsI)
  fix v
  have "io_inv (\<lambda>w. cm_caps w = v) (client_InvokeRaw cl f c [])"
    using assms by (auto simp: client_InvokeRaw_def io_keeps_inv intro!: inv_intros split: option.split)
  then show "io_inv (\<lambda>w. cm_caps w = v) (probe_family cl f c decode)"
    unfolding probe_family_def by (intro inv_intros)
qed

lemma probe_family_result: "probe_family cl f c decode w = Some (Inr (Some x), w') \<Longrightarrow> \<exists>data. decode data = Inr x"
  by (auto simp: probe_family_def io_bind_conv split: if_splits prod.splits option.splits sum.splits)

text \<open>The capability cache. When the exchanges leave the cache alone, \<open>Capabilities\<close> keeps it sound; an answer is
  sound, and from then on the same answer is given without another exchange; a failed probe is not
  cached.\<close>

theorem capabilities_cached:
  assumes keeps: "\<And>f i c. cl_invokers cl f = Some i \<Longrightarrow> io_keeps cm_caps (ri_InvokeRaw i (cl_exchange cl) c [])"
    and ok: "cache_ok cl w" and run: "client_Capabilities libs cl w = Some (r, w')"
  shows "cache_ok cl w' \<and> (case r of
      Inr caps \<Rightarrow> caps_sound (client_Device cl) caps \<and> client_Capabilities libs cl w' = Some (Inr caps, w')
    | Inl e \<Rightarrow> cm_caps w' = None)"
proof (cases "cm_caps w")
  case (Some caps)
  with run have "r = Inr caps" "w' = w" by (auto simp: client_Capabilities_def)
  with ok Some show ?thesis by (auto simp: cache_ok_def client_Capabilities_def)
next
  case None
  let ?p2 = "probe_family cl FamilyCTAP2 CommandGetInfo (decode_info libs)"
  let ?p1 = "probe_family cl FamilyCTAP1 CommandVersion decode_version"
  have k2: "cm_caps w2 = cm_caps w1" if "probe_family cl f c decode w1 = Some (x, w2)" for f c decode w1 w2 and x :: "'z option res"
    by (rule io_keepsD [OF probe_family_keeps that]) (rule keeps)
  from run None consider
      e where "?p2 w = Some (Inl e, w')" "r = Inl e"
    | i2 w1 e where "?p2 w = Some (Inr i2, w1)" "?p1 w1 = Some (Inl e, w')" "r = Inl e"
    | i2 w1 i1 w2 where "?p2 w = Some (Inr i2, w1)" "?p1 w1 = Some (Inr i1, w2)"
        "(if i1 = None \<and> i2 = None then io_fail (client_sentinel ErrNoCapableProtocol)
          else io_bind (io_modify (\<lambda>w. w\<lparr>cm_caps := Some (buildCapabilities i1 i2 (client_Device cl))\<rparr>))
            (\<lambda>_. io_return (buildCapabilities i1 i2 (client_Device cl)))) w2 = Some (r, w')"
    by (auto simp: client_Capabilities_def io_bind_conv Let_def HasCTAP1_def HasCTAP2_def)
  then show ?thesis
  proof cases
    case 1
    with k2 [OF 1(1)] None show ?thesis by (simp add: cache_ok_def)
  next
    case (2 i2 w1 e)
    with k2 [OF 2(1)] k2 [OF 2(2)] None show ?thesis by (simp add: cache_ok_def)
  next
    case (3 i2 w1 i1 w2)
    have none: "cm_caps w2 = None" using k2 [OF 3(1)] k2 [OF 3(2)] None by simp
    let ?caps = "buildCapabilities i1 i2 (client_Device cl)"
    have "GetInfoResponse_Validate info = None" if "i2 = Some info" for info
      using probe_family_result [OF 3(1) [unfolded that]] decode_info_valid by blast
    then have "caps_sound (client_Device cl) ?caps" if "\<not> (i1 = None \<and> i2 = None)"
      using that by (auto simp: caps_sound_def HasCTAP1_def HasCTAP2_def)
    with 3(3) none show ?thesis by (auto simp: cache_ok_def client_Capabilities_def split: if_splits)
  qed
qed

text \<open>A CTAP1 authenticator that answers \<open>U2F_V2\<close> and status 0x9000 to every request.\<close>

definition u2f_session :: "client_mem session" where
  "u2f_session =
     \<lparr>se_Device = \<lparr>dd_ID = ''key'', dd_Transport = KindUSB, dd_Path = [], dd_Manufacturer = [], dd_Product = [],
        dd_SerialNumber = [], dd_VendorID = 0, dd_ProductID = 0\<rparr>,
      se_Exchange = (\<lambda>req. io_return ([0x55, 0x32, 0x46, 0x5f, 0x56, 0x32, 0x90, 0x00], None)),
      se_Close = (\<lambda>w. (None, w)), se_ExchangeHID = None, se_CloseContext = None\<rparr>"

definition u2f_client :: "client_mem client" where
  "u2f_client =
     \<lparr>cl_session = u2f_session, cl_exchange = se_Exchange u2f_session, cl_hidExchange = base_hid_exchange u2f_session,
      cl_invokers = [FamilyCTAP1 \<mapsto> ctap1RawInvoker], cl_interaction = None\<rparr>"

lemma u2f_client_New: "client_New (Some u2f_session) [None, Some (WithRawInvoker (Some ctap1RawInvoker))] = Inr u2f_client"
  by (simp add: client_New_def WithRawInvoker_def ctap1RawInvoker_def family_Validate_def family_IsKnown_def empty_config_def
      u2f_client_def Chain_foldr andThen_def)

definition u2f_caps :: capabilities where
  "u2f_caps = buildCapabilities (Some \<lparr>c1_Version = ''U2F_V2''\<rparr>) None (client_Device u2f_client)"

lemma u2f_capabilities:
  "client_Capabilities libs u2f_client \<lparr>cm_caps = None\<rparr> = Some (Inr u2f_caps, \<lparr>cm_caps = Some u2f_caps\<rparr>)"
proof -
  have v: "decode_version [0x55, 0x32, 0x46, 0x5f, 0x56, 0x32, 0x90, 0x00] = Inr \<lparr>c1_Version = ''U2F_V2''\<rparr>"
    by code_simp
  show ?thesis
    by (simp add: client_Capabilities_def io_bind_def probe_family_def u2f_client_def FamilyCTAP1_def FamilyCTAP2_def
      client_InvokeRaw_def family_Validate_def family_IsKnown_def ctap1RawInvoker_def EncodeRawAPDU_def encodeAPDU_def
      u2f_session_def v u2f_caps_def client_Device_def HasCTAP1_def Let_def)
qed

theorem capabilities_cached_witness:
  "cache_ok u2f_client \<lparr>cm_caps = Some u2f_caps\<rparr> \<and> caps_sound (client_Device u2f_client) u2f_caps \<and>
   (\<forall>libs. client_Capabilities libs u2f_client \<lparr>cm_caps = Some u2f_caps\<rparr> = Some (Inr u2f_caps, \<lparr>cm_caps = Some u2f_caps\<rparr>))"
proof -
  have "io_keeps cm_caps (ri_InvokeRaw i (cl_exchange u2f_client) c [])" if "cl_invokers u2f_client f = Some i" for f i c
    using that by (auto simp: u2f_client_def u2f_session_def ctap1RawInvoker_def io_keeps_def split: if_splits sum.splits)
  from capabilities_cached [of u2f_client, OF this _ u2f_capabilities] show ?thesis by (simp add: cache_ok_def)
qed

subsection \<open>Authenticator data\<close>

lemma flag_bits:
  "(flags :: byte) AND authenticatorDataFlagUserPresent \<noteq> 0 \<longleftrightarrow> bit flags 0"
  "flags AND authenticatorDataFlagUserVerified \<noteq> 0 \<longleftrightarrow> bit flags 2"
  "flags AND authenticatorDataFlagAttestedCred = 0 \<longleftrightarrow> \<not> bit flags 6"
  using and_exp_eq_0_iff_not_bit [of flags 0] and_exp_eq_0_iff_not_bit [of flags 2] and_exp_eq_0_iff_not_bit [of flags 6]
  by (simp_all add: authenticatorDataFlagUserPresent_def authenticatorDataFlagUserVerified_def
      authenticatorDataFlagAttestedCred_def)

text \<open>Authenticator data as the WebAuthn specification lays it out: RP id hash, flags, signature counter, then
  (when bit 6 of the flags is set) AAGUID, credential id length, credential id.\<close>

definition authenticator_data_bytes :: "bytes \<Rightarrow> byte \<Rightarrow> u32 \<Rightarrow> bytes \<Rightarrow> bytes" where
  "authenticator_data_bytes rpIdHash flags count attested = rpIdHash @ flags # be32 count @ attested"

definition attested_bytes :: "bytes \<Rightarrow> bytes \<Rightarrow> bytes \<Rightarrow> bytes" where
  "attested_bytes aaguid cid rest = aaguid @ be16 (word_of_nat (length cid)) @ cid @ rest"

lemma authenticator_data_split:
  assumes "37 \<le> length data"
  shows "data = authenticator_data_bytes (take 32 data) (data ! 32) (get32 (slice data 33 37)) (drop 37 data)"
proof -
  have "data = take 32 data @ data ! 32 # drop 33 data"
    using assms id_take_nth_drop [of 32 data] by (simp add: Suc_numeral)
  moreover have "drop 33 data = slice data 33 37 @ drop 37 data"
    using append_take_drop_id [of 4 "drop 33 data"] by (simp add: slice_def)
  moreover have "be32 (get32 (slice data 33 37)) = slice data 33 37"
    using assms by (intro be32_get32) (simp add: slice_ok_def)
  ultimately show ?thesis by (simp add: authenticator_data_bytes_def)
qed

lemma authenticator_data_fields:
  assumes "length rp = 32" and "d = authenticator_data_bytes rp flags count tail"
  shows "length d = 37 + length tail" and "d ! 32 = flags" and "get32 (slice d 33 37) = count"
    and "slice d (37 + i) (37 + j) = slice tail i j"
  using assms by (simp_all add: authenticator_data_bytes_def nth_append slice_def drop_Cons')

lemma attested_split:
  assumes "18 \<le> length tail" and "unat (get16 (slice tail 16 18)) + 18 \<le> length tail"
  shows "tail = attested_bytes (take 16 tail) (slice tail 18 (18 + unat (get16 (slice tail 16 18))))
    (drop (18 + unat (get16 (slice tail 16 18))) tail)"
proof -
  let ?n = "unat (get16 (slice tail 16 18))"
  have "tail = take 16 tail @ slice tail 16 18 @ slice tail 18 (18 + ?n) @ drop (18 + ?n) tail"
    using append_take_drop_id [of 16 tail] append_take_drop_id [of 2 "drop 16 tail"]
      append_take_drop_id [of ?n "drop 18 tail"] by (simp add: slice_def add.commute)
  moreover have "length (slice tail 18 (18 + ?n)) = ?n" using assms by (simp add: slice_ok_def)
  moreover have "be16 (get16 (slice tail 16 18)) = slice tail 16 18" using assms by (intro be16_get16) (simp add: slice_ok_def)
  ultimately show ?thesis by (simp add: attested_bytes_def)
qed

lemma parse_layout:
  assumes "length rp = 32"
  shows "parseAuthenticatorData (authenticator_data_bytes rp flags count tail) =
    (let p = \<lparr>pa_UserPresent = bit flags 0, pa_UserVerified = bit flags 2, pa_SignCount = count, pa_CredentialID = []\<rparr>;
         n = unat (get16 (slice tail 16 18))
     in if \<not> bit flags 6 then Inr p
        else if length tail < 18 then Inl (TextError ''client: authenticator data is missing attested credential data'')
        else if length tail < 18 + n then Inl (TextError ''client: authenticator data credential id length exceeds payload'')
        else Inr (p\<lparr>pa_CredentialID := slice tail 18 (18 + n)\<rparr>))"
proof -
  note F = authenticator_data_fields [OF assms refl]
  have "slice (authenticator_data_bytes rp flags count tail) 53 55 = slice tail 16 18"
    "slice (authenticator_data_bytes rp flags count tail) 55 (55 + n) = slice tail 18 (18 + n)" for n
    using F(4) [of flags count tail 16 18] F(4) [of flags count tail 18 "18 + n"] by simp_all
  with F(1,2,3) show ?thesis
    by (simp add: parseAuthenticatorData_def Let_def flag_bits authenticatorDataMinimumLength_def
        attestedCredentialDataHeaderLength_def)
qed


end
