(* ===== verification/ClientOps.thy ===== *)
theory ClientOps
  imports ClientCore
begin

text \<open>
  The client facade, second half: registration (\<open>pkg/client/register.go\<close>), authentication
  (\<open>authenticate.go\<close>), reset (\<open>reset.go\<close>), PIN operations and user verification (\<open>pin.go\<close>), discoverable
  credentials (\<open>credentials.go\<close>), the conversions of \<open>credential_types.go\<close>, secrets (\<open>secrets.go\<close>,
  \<open>authorization.go\<close>) and the CTAP2 management surface (\<open>ctap2_surface.go\<close>).
\<close>

subsection \<open>Secrets\<close>

text \<open>A secret is a byte slice. \<open>NewSecret\<close> and \<open>Clone\<close> copy; nil and the empty slice are the same list.\<close>

definition secret_Empty :: "bytes \<Rightarrow> bool" where
  "secret_Empty secret \<longleftrightarrow> secret = []"

text \<open>The bytes of a Go string.\<close>

definition string_bytes :: "string \<Rightarrow> bytes" where
  "string_bytes s = map (\<lambda>c. word_of_nat (of_char c)) s"

definition NewSecretString :: "string \<Rightarrow> bytes" where
  "NewSecretString value = (if value = [] then [] else string_bytes value)"

text \<open>The loop of \<open>Secret.Wipe\<close>: what the slice holds afterwards.\<close>

fun wipe_from :: "bytes \<Rightarrow> nat \<Rightarrow> bytes" where
  "wipe_from secret 0 = secret"
| "wipe_from secret (Suc n) = (wipe_from secret n)[n := 0]"

definition secret_Wipe :: "bytes \<Rightarrow> bytes" where
  "secret_Wipe secret = wipe_from secret (length secret)"

record uv_authorization =
  uv_PIN :: bytes
  uv_Method :: string

definition DefaultUVAuthorization :: uv_authorization where
  "DefaultUVAuthorization = \<lparr>uv_PIN = [], uv_Method = []\<rparr>"

definition PINAuthorization :: "string \<Rightarrow> uv_authorization" where
  "PINAuthorization pin = \<lparr>uv_PIN = NewSecretString pin, uv_Method = VerificationMethodPIN\<rparr>"

definition SecretPINAuthorization :: "bytes \<Rightarrow> uv_authorization" where
  "SecretPINAuthorization pin = \<lparr>uv_PIN = pin, uv_Method = VerificationMethodPIN\<rparr>"

definition BuiltInUVAuthorization :: uv_authorization where
  "BuiltInUVAuthorization = \<lparr>uv_PIN = [], uv_Method = VerificationMethodBuiltInUV\<rparr>"

subsection \<open>Public credential types\<close>

text \<open>The facade's own descriptor and parameter types.\<close>

record client_parameter =
  fp_Type :: string
  fp_Alg :: int

record client_descriptor =
  fd_Type :: string
  fd_ID :: bytes
  fd_Transports :: "string list"

definition credentialParameterToCTAP2 :: "client_parameter \<Rightarrow> credential_parameter" where
  "credentialParameterToCTAP2 parameter = \<lparr>cp_Type = fp_Type parameter, cp_Alg = fp_Alg parameter\<rparr>"

definition credentialParametersToCTAP2 :: "client_parameter list \<Rightarrow> credential_parameter list" where
  "credentialParametersToCTAP2 parameters = (if parameters = [] then [] else map credentialParameterToCTAP2 parameters)"

definition credentialDescriptorToCTAP2 :: "client_descriptor \<Rightarrow> credential_descriptor" where
  "credentialDescriptorToCTAP2 descriptor =
     \<lparr>cd_Type = fd_Type descriptor, cd_ID = fd_ID descriptor, cd_Transports = fd_Transports descriptor\<rparr>"

definition credentialDescriptorsToCTAP2 :: "client_descriptor list \<Rightarrow> credential_descriptor list" where
  "credentialDescriptorsToCTAP2 descriptors =
     (if descriptors = [] then [] else map credentialDescriptorToCTAP2 descriptors)"

definition credentialDescriptorFromCTAP2 :: "credential_descriptor \<Rightarrow> client_descriptor" where
  "credentialDescriptorFromCTAP2 descriptor =
     \<lparr>fd_Type = cd_Type descriptor, fd_ID = cd_ID descriptor, fd_Transports = cd_Transports descriptor\<rparr>"

definition normalizeCredentialDescriptor :: "client_descriptor \<Rightarrow> credential_descriptor res" where
  "normalizeCredentialDescriptor credential = NormalizeCredentialDescriptor (credentialDescriptorToCTAP2 credential)"

subsection \<open>Requests and results\<close>

record client_user =
  us_ID :: bytes
  us_Name :: string
  us_DisplayName :: string

record ctap2_registration_options =
  ro_RPName :: string
  ro_ResidentKey :: bool
  ro_CredentialParameters :: "client_parameter list"
  ro_ExcludeList :: "client_descriptor list"

text \<open>\<open>CTAP1RegistrationOptions\<close> and \<open>CTAP2AuthenticationOptions\<close> have one field each, and stand for it here.\<close>

record registration_request =
  rq_ChallengeHash :: bytes
  rq_RPID :: string
  rq_User :: client_user
  rq_Selection :: authenticator_selection
  rq_CTAP1 :: "bytes option"
  rq_CTAP2 :: "ctap2_registration_options option"

record registration_result =
  rx_Protocol :: string
  rx_CredentialID :: bytes
  rx_AttestationFormat :: string
  rx_UserPresent :: bool
  rx_UserVerified :: bool
  rx_RawCTAP1 :: "ctap1_register_response option"
  rx_RawCTAP2 :: "make_credential_response option"

record ctap1_authentication_options =
  ao_AppIDHash :: bytes
  ao_KeyHandle :: bytes
  ao_Control :: byte

record authentication_request =
  aq_ChallengeHash :: bytes
  aq_RPID :: string
  aq_Selection :: authenticator_selection
  aq_CTAP1 :: "ctap1_authentication_options option"
  aq_CTAP2 :: "client_descriptor list option"

record authentication_result =
  ax_Protocol :: string
  ax_CredentialID :: bytes
  ax_Signature :: bytes
  ax_SignCount :: u32
  ax_UserPresent :: bool
  ax_UserVerified :: bool
  ax_RawCTAP1 :: "ctap1_authenticate_response option"
  ax_RawCTAP2 :: "get_assertion_response option"

definition fidoU2FAttestationFormat :: string where "fidoU2FAttestationFormat = ''fido-u2f''"

definition registrationRPName :: "ctap2_registration_options option \<Rightarrow> string" where
  "registrationRPName options = (case options of None \<Rightarrow> [] | Some o' \<Rightarrow> ro_RPName o')"

definition registrationResidentKey :: "ctap2_registration_options option \<Rightarrow> bool" where
  "registrationResidentKey options = (case options of None \<Rightarrow> False | Some o' \<Rightarrow> ro_ResidentKey o')"

definition registrationCredentialParameters :: "ctap2_registration_options option \<Rightarrow> client_parameter list" where
  "registrationCredentialParameters options = (case options of None \<Rightarrow> [] | Some o' \<Rightarrow> ro_CredentialParameters o')"

definition registrationExcludeList :: "ctap2_registration_options option \<Rightarrow> client_descriptor list" where
  "registrationExcludeList options = (case options of None \<Rightarrow> [] | Some o' \<Rightarrow> ro_ExcludeList o')"

definition authenticationAllowList :: "client_descriptor list option \<Rightarrow> client_descriptor list" where
  "authenticationAllowList options = (case options of None \<Rightarrow> [] | Some allowList \<Rightarrow> allowList)"

definition defaultCredentialParameters :: "client_parameter list \<Rightarrow> credential_parameter list" where
  "defaultCredentialParameters parameters =
     (if parameters = [] then [\<lparr>cp_Type = ''public-key'', cp_Alg = -7\<rparr>] else credentialParametersToCTAP2 parameters)"

definition makeCredentialOptions ::
  "authenticator_selection \<Rightarrow> bool \<Rightarrow> ctap2_registration_options option \<Rightarrow> mc_options option" where
  "makeCredentialOptions selection useBuiltInUV registration =
     (let options = \<lparr>mo_ResidentKey = registrationResidentKey registration,
                     mo_UserPresence = normalizedUserPresence selection = RequirementRequired,
                     mo_UserVerification = useBuiltInUV\<rparr>
      in if \<not> mo_ResidentKey options \<and> \<not> mo_UserPresence options \<and> \<not> mo_UserVerification options then None
         else Some options)"

definition getAssertionOptions :: "authenticator_selection \<Rightarrow> bool \<Rightarrow> ga_options option" where
  "getAssertionOptions selection useBuiltInUV =
     (let options = \<lparr>go_UserPresence = normalizedUserPresence selection = RequirementRequired,
                     go_UserVerification = useBuiltInUV\<rparr>
      in if \<not> go_UserPresence options \<and> \<not> go_UserVerification options then None else Some options)"

subsection \<open>User verification\<close>

text \<open>The result is \<open>useBuiltInUV\<close>, \<open>pinUVAuthParam\<close> and \<open>pinUVAuthProtocol\<close>. The comparison \<open>err == ErrPINRequired\<close> is
  by identity, so a wrapped \<open>ErrPINRequired\<close> does not count.\<close>

definition resolveCTAP2UserVerification ::
  "'w sdk_libs \<Rightarrow> 'w client \<Rightarrow> get_info_response option \<Rightarrow> string \<Rightarrow> authenticator_selection \<Rightarrow> bytes \<Rightarrow> byte \<Rightarrow> string \<Rightarrow>
   ('w, bool \<times> bytes \<times> u64) io" where
  "resolveCTAP2UserVerification libs cl info operation selection challengeHash permission permissionsRPID =
     (let policy = normalizedUserVerification selection in
      if policy = UserVerificationDiscouraged then io_return (False, [], 0)
      else if optionEnabled info ''uv'' then io_return (True, [], 0)
      else if \<not> optionPresent info ''clientPin'' then
        (if policy = UserVerificationRequired
         then io_fail (TextError ''client: authenticator does not support requested user verification'')
         else io_return (False, [], 0))
      else
        io_bind (io_try (requestPIN cl
          \<lparr>pq_Operation = operation, pq_Protocol = FamilyCTAP2, pq_Transport = [], pq_Method = VerificationMethodPIN,
           pq_Message = ''Enter the authenticator PIN to continue '' @ operation @ ''.''\<rparr>)) (\<lambda>r.
        case r of
          Inl e \<Rightarrow>
            if e = client_sentinel ErrPINRequired \<and> policy = UserVerificationPreferred then io_return (False, [], 0)
            else io_fail e
        | Inr pin \<Rightarrow>
            io_bind (PinTokenForPermission (ctap2Manager libs cl) info pin permission permissionsRPID)
              (\<lambda>(pinToken, protocolVersion).
                io_return (False, PinProtocolAuthenticate (lb_crypto libs) protocolVersion pinToken challengeHash,
                           protocolVersion))))"

subsection \<open>Registration\<close>

definition awaiting_presence :: "string \<Rightarrow> string \<Rightarrow> string \<Rightarrow> interaction_event" where
  "awaiting_presence operation protocol message =
     \<lparr>ie_Kind = InteractionAwaitingUserPresence, ie_Operation = operation, ie_Protocol = protocol, ie_Transport = [],
      ie_Message = message, ie_Retryable = True\<rparr>"

definition registerMessage :: string where
  "registerMessage = ''Touch or tap the authenticator to continue registration.''"

definition zero_mc_response :: make_credential_response where
  "zero_mc_response = \<lparr>mr_Format = [], mr_AuthData = [], mr_AttestationStatement = None, mr_EnterpriseAttestation = False,
     mr_LargeBlobKey = []\<rparr>"

definition register_command :: "registration_request \<Rightarrow> bool \<Rightarrow> bytes \<Rightarrow> u64 \<Rightarrow> make_credential_command" where
  "register_command request useBuiltInUV pinUVAuthParam pinUVAuthProtocol =
     \<lparr>mk_ClientDataHash = rq_ChallengeHash request,
      mk_RelyingParty = \<lparr>rp_id = rq_RPID request, rp_Name = registrationRPName (rq_CTAP2 request)\<rparr>,
      mk_User = \<lparr>ue_ID = us_ID (rq_User request), ue_Name = us_Name (rq_User request),
                 ue_DisplayName = us_DisplayName (rq_User request)\<rparr>,
      mk_CredentialParameters = defaultCredentialParameters (registrationCredentialParameters (rq_CTAP2 request)),
      mk_ExcludeList = credentialDescriptorsToCTAP2 (registrationExcludeList (rq_CTAP2 request)),
      mk_Extensions = [],
      mk_Options = makeCredentialOptions (rq_Selection request) useBuiltInUV (rq_CTAP2 request),
      mk_PinUVAuthParam = pinUVAuthParam, mk_PinUVAuthProtocol = pinUVAuthProtocol, mk_EnterpriseAttestation = 0\<rparr>"

definition register_ctap2 ::
  "'w sdk_libs \<Rightarrow> 'w client \<Rightarrow> get_info_response option \<Rightarrow> registration_request \<Rightarrow> ('w, registration_result) io" where
  "register_ctap2 libs cl info request =
     io_bind (resolveCTAP2UserVerification libs cl info ''register'' (rq_Selection request) (rq_ChallengeHash request)
       PermissionMakeCredential (rq_RPID request)) (\<lambda>(useBuiltInUV, pinUVAuthParam, pinUVAuthProtocol).
     io_bind (emitInteraction cl (awaiting_presence ''register'' FamilyCTAP2 registerMessage)) (\<lambda>_.
     io_bind (io_of (MakeCredentialCommand_Encode (lb_cbor libs)
       (register_command request useBuiltInUV pinUVAuthParam pinUVAuthProtocol))) (\<lambda>encoded.
     io_bind (checked (client_InvokeRaw cl FamilyCTAP2 CommandMakeCredential (tl encoded))) (\<lambda>responseBytes.
     io_bind (io_of (decoded (MakeCredentialCommand_DecodeResponse (lb_cbor libs) True responseBytes zero_mc_response))) (\<lambda>response.
     io_bind (io_of (parseAuthenticatorData (mr_AuthData response))) (\<lambda>parsed.
       if pa_CredentialID parsed = [] then io_fail (TextError ''client: ctap2 registration response is missing credential id'')
       else io_return \<lparr>rx_Protocol = FamilyCTAP2, rx_CredentialID = pa_CredentialID parsed,
              rx_AttestationFormat = mr_Format response, rx_UserPresent = pa_UserPresent parsed,
              rx_UserVerified = pa_UserVerified parsed, rx_RawCTAP1 = None, rx_RawCTAP2 = Some response\<rparr>))))))"

definition register_ctap1 :: "'w sdk_libs \<Rightarrow> 'w client \<Rightarrow> registration_request \<Rightarrow> ('w, registration_result) io" where
  "register_ctap1 libs cl request =
     (case rq_CTAP1 request of
        None \<Rightarrow> io_fail (TextError ''client: ctap1 registration requires ctap1 options'')
      | Some appIDHash \<Rightarrow>
          if length (rq_ChallengeHash request) \<noteq> 32
            then io_fail (TextError ''client: ctap1 register challenge hash must be 32 bytes'')
          else if length appIDHash \<noteq> 32 then io_fail (TextError ''client: ctap1 register app id hash must be 32 bytes'')
          else
            io_bind (emitInteraction cl (awaiting_presence ''register'' FamilyCTAP1 registerMessage)) (\<lambda>_.
            io_bind (checked (client_InvokeRaw cl FamilyCTAP1 CommandRegister (rq_ChallengeHash request @ appIDHash))) (\<lambda>responseBytes.
            io_bind (io_of (RegisterCommand_DecodeResponse (lb_parseCertificate libs) True responseBytes)) (\<lambda>response.
              io_return \<lparr>rx_Protocol = FamilyCTAP1, rx_CredentialID = rr_KeyHandle response,
                rx_AttestationFormat = fidoU2FAttestationFormat, rx_UserPresent = True, rx_UserVerified = False,
                rx_RawCTAP1 = Some response, rx_RawCTAP2 = None\<rparr>))))"

definition client_Register ::
  "('e client_mem_scheme) sdk_libs \<Rightarrow> ('e client_mem_scheme) client \<Rightarrow> registration_request \<Rightarrow>
   ('e client_mem_scheme, registration_result) io" where
  "client_Register libs cl request =
     io_bind (client_Capabilities libs cl) (\<lambda>caps.
       if HasCTAP2 caps then register_ctap2 libs cl (cap_RawCTAP2 caps) request
       else if \<not> HasCTAP1 caps then io_fail (client_sentinel ErrNoCapableProtocol)
       else register_ctap1 libs cl request)"

subsection \<open>Authentication\<close>

definition authenticateMessage :: string where
  "authenticateMessage = ''Touch or tap the authenticator to continue authentication.''"

definition zero_ga_response :: get_assertion_response where
  "zero_ga_response = \<lparr>gr_Credential = \<lparr>cd_Type = [], cd_ID = [], cd_Transports = []\<rparr>, gr_AuthData = [], gr_Signature = [],
     gr_User = None, gr_NumberOfCredentials = 0, gr_UserSelected = False, gr_LargeBlobKey = []\<rparr>"

definition authenticate_command :: "authentication_request \<Rightarrow> bool \<Rightarrow> bytes \<Rightarrow> u64 \<Rightarrow> get_assertion_command" where
  "authenticate_command request useBuiltInUV pinUVAuthParam pinUVAuthProtocol =
     \<lparr>ga_RPID = aq_RPID request, ga_ClientDataHash = aq_ChallengeHash request,
      ga_AllowList = credentialDescriptorsToCTAP2 (authenticationAllowList (aq_CTAP2 request)), ga_Extensions = [],
      ga_Options = getAssertionOptions (aq_Selection request) useBuiltInUV,
      ga_PinUVAuthParam = pinUVAuthParam, ga_PinUVAuthProtocol = pinUVAuthProtocol\<rparr>"

definition authenticate_ctap2 ::
  "'w sdk_libs \<Rightarrow> 'w client \<Rightarrow> get_info_response option \<Rightarrow> authentication_request \<Rightarrow> ('w, authentication_result) io" where
  "authenticate_ctap2 libs cl info request =
     io_bind (resolveCTAP2UserVerification libs cl info ''authenticate'' (aq_Selection request) (aq_ChallengeHash request)
       PermissionGetAssertion (aq_RPID request)) (\<lambda>(useBuiltInUV, pinUVAuthParam, pinUVAuthProtocol).
     io_bind (emitInteraction cl (awaiting_presence ''authenticate'' FamilyCTAP2 authenticateMessage)) (\<lambda>_.
     io_bind (io_of (GetAssertionCommand_Encode (lb_cbor libs)
       (authenticate_command request useBuiltInUV pinUVAuthParam pinUVAuthProtocol))) (\<lambda>encoded.
     io_bind (checked (client_InvokeRaw cl FamilyCTAP2 CommandGetAssertion (tl encoded))) (\<lambda>responseBytes.
     io_bind (io_of (decoded (GetAssertionCommand_DecodeResponse (lb_cbor libs) True responseBytes zero_ga_response))) (\<lambda>response.
     io_bind (io_of (parseAuthenticatorData (gr_AuthData response))) (\<lambda>parsed.
       io_return \<lparr>ax_Protocol = FamilyCTAP2, ax_CredentialID = cd_ID (gr_Credential response),
         ax_Signature = gr_Signature response, ax_SignCount = pa_SignCount parsed, ax_UserPresent = pa_UserPresent parsed,
         ax_UserVerified = pa_UserVerified parsed, ax_RawCTAP1 = None, ax_RawCTAP2 = Some response\<rparr>))))))"

text \<open>The payload of the CTAP1 command. \<open>control\<close> is computed for the command value, but \<open>InvokeRaw\<close> is given the
  payload only, so it does not reach the exchange.\<close>

definition ctap1_authenticate_payload :: "bytes \<Rightarrow> ctap1_authentication_options \<Rightarrow> bytes" where
  "ctap1_authenticate_payload challengeHash options =
     challengeHash @ ao_AppIDHash options @ [word_of_nat (length (ao_KeyHandle options))] @ ao_KeyHandle options"

definition ctap1_control :: "authentication_request \<Rightarrow> ctap1_authentication_options \<Rightarrow> byte" where
  "ctap1_control request options =
     (if ao_Control options = 0 then defaultCTAP1AuthenticateControl (aq_Selection request) else ao_Control options)"

definition authenticate_ctap1 :: "'w client \<Rightarrow> authentication_request \<Rightarrow> ('w, authentication_result) io" where
  "authenticate_ctap1 cl request =
     (case aq_CTAP1 request of
        None \<Rightarrow> io_fail (TextError ''client: ctap1 authentication requires ctap1 options'')
      | Some options \<Rightarrow>
          if length (aq_ChallengeHash request) \<noteq> 32
            then io_fail (TextError ''client: ctap1 authenticate challenge hash must be 32 bytes'')
          else if length (ao_AppIDHash options) \<noteq> 32
            then io_fail (TextError ''client: ctap1 authenticate app id hash must be 32 bytes'')
          else if length (ao_KeyHandle options) = 0
            then io_fail (TextError ''client: ctap1 authenticate key handle must not be empty'')
          else
            io_bind (emitInteraction cl (awaiting_presence ''authenticate'' FamilyCTAP1 authenticateMessage)) (\<lambda>_.
            io_bind (checked (client_InvokeRaw cl FamilyCTAP1 CommandAuthenticate
              (ctap1_authenticate_payload (aq_ChallengeHash request) options))) (\<lambda>responseBytes.
            io_bind (io_of (AuthenticateCommand_DecodeResponse True responseBytes)) (\<lambda>response.
              io_return \<lparr>ax_Protocol = FamilyCTAP1, ax_CredentialID = ao_KeyHandle options,
                ax_Signature = ar_Signature response, ax_SignCount = ar_Counter response,
                ax_UserPresent = UserPresent response, ax_UserVerified = False, ax_RawCTAP1 = Some response,
                ax_RawCTAP2 = None\<rparr>))))"

definition client_Authenticate ::
  "('e client_mem_scheme) sdk_libs \<Rightarrow> ('e client_mem_scheme) client \<Rightarrow> authentication_request \<Rightarrow>
   ('e client_mem_scheme, authentication_result) io" where
  "client_Authenticate libs cl request =
     io_bind (client_Capabilities libs cl) (\<lambda>caps.
       if HasCTAP2 caps then authenticate_ctap2 libs cl (cap_RawCTAP2 caps) request
       else if \<not> HasCTAP1 caps then io_fail (client_sentinel ErrNoCapableProtocol)
       else authenticate_ctap1 cl request)"

subsection \<open>Reset and PIN operations\<close>

definition client_Reset ::
  "('e client_mem_scheme) sdk_libs \<Rightarrow> ('e client_mem_scheme) client \<Rightarrow> ('e client_mem_scheme, unit) io" where
  "client_Reset libs cl =
     io_bind (client_Capabilities libs cl) (\<lambda>caps.
       if \<not> HasCTAP2 caps then
         (if HasCTAP1 caps then io_fail (TextError ''client: authenticator supports CTAP1 only; reset requires CTAP2'')
          else io_fail (client_sentinel ErrNoCapableProtocol))
       else
         io_bind (emitInteraction cl
           (awaiting_presence ''reset'' FamilyCTAP2 ''Touch or tap the authenticator to confirm reset.'')) (\<lambda>_.
         io_bind (checked (client_InvokeRaw cl FamilyCTAP2 CommandReset [])) (\<lambda>responseBytes.
           io_of (decoded (ResetCommand_DecodeResponse True responseBytes ())))))"

definition client_SetPIN ::
  "('e client_mem_scheme) sdk_libs \<Rightarrow> ('e client_mem_scheme) client \<Rightarrow> bytes \<Rightarrow> ('e client_mem_scheme, unit) io" where
  "client_SetPIN libs cl newPIN =
     (if secret_Empty newPIN then io_fail (client_sentinel ErrNewPINRequired)
      else io_bind (requireCTAP2Capabilities libs cl ''setting a PIN'') (\<lambda>info.
        SetPIN (ctap2Manager libs cl) info newPIN))"

definition client_GetPINRetries ::
  "('e client_mem_scheme) sdk_libs \<Rightarrow> ('e client_mem_scheme) client \<Rightarrow> ('e client_mem_scheme, pin_retries) io" where
  "client_GetPINRetries libs cl =
     io_bind (requireCTAP2Capabilities libs cl ''reading PIN retry counters'') (\<lambda>info.
       GetPINRetries (ctap2Manager libs cl) info)"

definition client_ChangePIN ::
  "('e client_mem_scheme) sdk_libs \<Rightarrow> ('e client_mem_scheme) client \<Rightarrow> bytes \<Rightarrow> bytes \<Rightarrow> ('e client_mem_scheme, unit) io" where
  "client_ChangePIN libs cl currentPIN newPIN =
     (if secret_Empty currentPIN then io_fail (client_sentinel ErrPINRequired)
      else if secret_Empty newPIN then io_fail (client_sentinel ErrNewPINRequired)
      else io_bind (requireCTAP2Capabilities libs cl ''changing the PIN'') (\<lambda>info.
        ChangePIN (ctap2Manager libs cl) info currentPIN newPIN))"

subsection \<open>Discoverable credentials\<close>

record client_credential =
  ci_RP :: relying_party
  ci_RPIDHash :: bytes
  ci_User :: user_entity
  ci_Credential :: client_descriptor
  ci_CredProtect :: u64
  ci_LargeBlobKey :: bytes

record client_credential_list =
  cx_ExistingCount :: u64
  cx_MaxRemainingCount :: u64
  cx_Credentials :: "client_credential list"

definition client_credential_of :: "discoverable_credential \<Rightarrow> client_credential" where
  "client_credential_of credential =
     \<lparr>ci_RP = dc_RP credential, ci_RPIDHash = dc_RPIDHash credential, ci_User = dc_User credential,
      ci_Credential = credentialDescriptorFromCTAP2 (dc_Credential credential), ci_CredProtect = dc_CredProtect credential,
      ci_LargeBlobKey = dc_LargeBlobKey credential\<rparr>"

definition credentialListResultFromInternal :: "credential_list \<Rightarrow> client_credential_list" where
  "credentialListResultFromInternal result =
     \<lparr>cx_ExistingCount = ls_ExistingCount result, cx_MaxRemainingCount = ls_MaxRemainingCount result,
      cx_Credentials = map client_credential_of (ls_Credentials result)\<rparr>"

definition client_ListCredentials ::
  "('e client_mem_scheme) sdk_libs \<Rightarrow> ('e client_mem_scheme) client \<Rightarrow> bytes \<Rightarrow>
   ('e client_mem_scheme, client_credential_list) io" where
  "client_ListCredentials libs cl pin =
     (if secret_Empty pin then io_fail (client_sentinel ErrPINRequired)
      else io_bind (requireCTAP2Capabilities libs cl ''listing discoverable credentials'') (\<lambda>info.
        io_bind (ListCredentials (ctap2Manager libs cl) info pin) (\<lambda>result.
          io_return (credentialListResultFromInternal result))))"

definition client_listCredentialsWithBuiltInUV ::
  "'w sdk_libs \<Rightarrow> 'w client \<Rightarrow> get_info_response option \<Rightarrow> ('w, client_credential_list) io" where
  "client_listCredentialsWithBuiltInUV libs cl info =
     io_bind (ListCredentialsWithBuiltInUV (ctap2Manager libs cl) info) (\<lambda>result.
       io_return (credentialListResultFromInternal result))"

definition client_DeleteCredential ::
  "('e client_mem_scheme) sdk_libs \<Rightarrow> ('e client_mem_scheme) client \<Rightarrow> client_descriptor \<Rightarrow> bytes \<Rightarrow>
   ('e client_mem_scheme, unit) io" where
  "client_DeleteCredential libs cl credential pin =
     (if secret_Empty pin then io_fail (client_sentinel ErrPINRequired)
      else io_bind (io_of (normalizeCredentialDescriptor credential)) (\<lambda>normalized.
        io_bind (requireCTAP2Capabilities libs cl ''deleting discoverable credentials'') (\<lambda>info.
          DeleteCredential (ctap2Manager libs cl) info normalized pin)))"

definition client_deleteCredentialWithBuiltInUV ::
  "'w sdk_libs \<Rightarrow> 'w client \<Rightarrow> client_descriptor \<Rightarrow> get_info_response option \<Rightarrow> ('w, unit) io" where
  "client_deleteCredentialWithBuiltInUV libs cl credential info =
     io_bind (io_of (normalizeCredentialDescriptor credential)) (\<lambda>normalized.
       DeleteCredentialWithBuiltInUV (ctap2Manager libs cl) info normalized)"

subsection \<open>User verification is enforced\<close>

lemma info_protocol_cases: "info_protocol info = Inr v \<Longrightarrow> v = 1 \<or> v = 2"
  by (auto simp: info_protocol_def SelectPINUVAuthProtocol_def split: option.splits if_splits)

lemma PinProtocolAuthenticate_nonempty:
  assumes "crypto_ok cy" shows "PinProtocolAuthenticate cy v key m \<noteq> []"
proof -
  have "cy_hmac cy k m \<noteq> []" for k using crypto_okD(4) [OF assms, of k m] by auto
  then show ?thesis by (simp add: PinProtocolAuthenticate_def PinProtocol1Authenticate_def pinProtocol2Authenticate_def)
qed

lemma PinTokenForPermission_protocol:
  "PinTokenForPermission mg info pin permission rpid w = Some (Inr (token, v), w') \<Longrightarrow> info_protocol info = Inr v"
  by (auto simp: PinTokenForPermission_def io_bind_conv)

text \<open>What a command that asks for verification carries: the built-in verifier is requested, or the platform
  proves knowledge of the PIN with a parameter over the challenge.\<close>

definition verification_requested :: "bool \<Rightarrow> bytes \<Rightarrow> u64 \<Rightarrow> bool" where
  "verification_requested useBuiltInUV pinUVAuthParam pinUVAuthProtocol \<longleftrightarrow>
     useBuiltInUV \<or> pinUVAuthParam \<noteq> [] \<and> pinUVAuthProtocol \<in> {1, 2}"

lemma resolve_required:
  assumes cy: "crypto_ok (lb_crypto libs)" and req: "as_UserVerification selection = UserVerificationRequired"
    and run: "resolveCTAP2UserVerification libs cl info operation selection hash permission rpid w =
      Some (Inr (builtIn, param, protocol), w')"
  shows "verification_requested builtIn param protocol"
proof -
  have policy: "normalizedUserVerification selection = UserVerificationRequired"
    "UserVerificationRequired \<noteq> UserVerificationDiscouraged" "UserVerificationRequired \<noteq> UserVerificationPreferred"
    using req by (simp_all add: normalizedUserVerification_def UserVerificationRequired_def UserVerificationDiscouraged_def
        UserVerificationPreferred_def)
  show ?thesis
  proof (cases "optionEnabled info ''uv''")
    case True
    with run policy show ?thesis by (simp add: resolveCTAP2UserVerification_def verification_requested_def)
  next
    case False
    with run policy obtain pin token w1 where
      "PinTokenForPermission (ctap2Manager libs cl) info pin permission rpid w1 = Some (Inr (token, protocol), w')"
      and param: "param = PinProtocolAuthenticate (lb_crypto libs) protocol token hash"
      by (auto simp: resolveCTAP2UserVerification_def io_bind_conv Let_def split_sum_ex split: if_splits)
    from info_protocol_cases [OF PinTokenForPermission_protocol [OF this(1)]] param PinProtocolAuthenticate_nonempty [OF cy]
    show ?thesis by (auto simp: verification_requested_def)
  qed
qed

lemma checked_conv: "checked m w = Some (Inr x, w') \<longleftrightarrow> m w = Some (Inr (x, None), w')"
  by (auto simp: checked_def io_bind_conv split: option.splits)

lemma decoded_conv: "decoded p = Inr r \<longleftrightarrow> p = (r, None)"
  by (auto simp: decoded_def split: prod.splits option.splits)

lemma emitInteraction_ok: "emitInteraction cl event w = Some (r, w') \<Longrightarrow> r = Inr ()"
  by (auto simp: emitInteraction_def split: option.splits)

text \<open>C13. A registration that requires user verification succeeds over CTAP2 only through a makeCredential command for
  the given challenge and relying party that requests verification (the built-in verifier, or a PIN/UV
  parameter), and what it returns is the credential id, format and flags of the authenticator's answer to that
  command.\<close>

theorem register_required_verified:
  assumes cy: "crypto_ok (lb_crypto libs)"
    and required: "as_UserVerification (rq_Selection request) = UserVerificationRequired"
    and run: "client_Register libs cl request w = Some (Inr result, w')" and ctap2: "rx_Protocol result = FamilyCTAP2"
  shows "\<exists>command encoded w1 answer response parsed.
    mk_ClientDataHash command = rq_ChallengeHash request \<and> rp_id (mk_RelyingParty command) = rq_RPID request \<and>
    verification_requested (\<exists>options. mk_Options command = Some options \<and> mo_UserVerification options)
      (mk_PinUVAuthParam command) (mk_PinUVAuthProtocol command) \<and>
    MakeCredentialCommand_Encode (lb_cbor libs) command = Inr encoded \<and>
    client_InvokeRaw cl FamilyCTAP2 CommandMakeCredential (tl encoded) w1 = Some (Inr (answer, None), w') \<and>
    MakeCredentialCommand_DecodeResponse (lb_cbor libs) True answer zero_mc_response = (response, None) \<and>
    parseAuthenticatorData (mr_AuthData response) = Inr parsed \<and>
    rx_CredentialID result = pa_CredentialID parsed \<and> rx_CredentialID result \<noteq> [] \<and>
    rx_AttestationFormat result = mr_Format response \<and> rx_UserPresent result = pa_UserPresent parsed \<and>
    rx_UserVerified result = pa_UserVerified parsed"
proof -
  from run obtain caps w0 where "(if HasCTAP2 caps then register_ctap2 libs cl (cap_RawCTAP2 caps) request
      else if \<not> HasCTAP1 caps then io_fail (client_sentinel ErrNoCapableProtocol)
      else register_ctap1 libs cl request) w0 = Some (Inr result, w')"
    by (auto simp: client_Register_def io_bind_conv)
  moreover have "rx_Protocol result = FamilyCTAP1" if "register_ctap1 libs cl request w0 = Some (Inr result, w')"
    using that by (auto simp: register_ctap1_def io_bind_conv split: option.splits if_splits)
  ultimately have reg: "register_ctap2 libs cl (cap_RawCTAP2 caps) request w0 = Some (Inr result, w')"
    using ctap2 by (auto simp: FamilyCTAP1_def FamilyCTAP2_def split: if_splits)
  then obtain builtIn param protocol w1 w2 encoded answer response parsed where
    uv: "resolveCTAP2UserVerification libs cl (cap_RawCTAP2 caps) ''register'' (rq_Selection request) (rq_ChallengeHash request)
      PermissionMakeCredential (rq_RPID request) w0 = Some (Inr (builtIn, param, protocol), w1)"
    and enc: "MakeCredentialCommand_Encode (lb_cbor libs) (register_command request builtIn param protocol) = Inr encoded"
    and inv: "client_InvokeRaw cl FamilyCTAP2 CommandMakeCredential (tl encoded) w2 = Some (Inr (answer, None), w')"
    and dec: "MakeCredentialCommand_DecodeResponse (lb_cbor libs) True answer zero_mc_response = (response, None)"
      "parseAuthenticatorData (mr_AuthData response) = Inr parsed"
    and res: "rx_CredentialID result = pa_CredentialID parsed" "rx_CredentialID result \<noteq> []"
      "rx_AttestationFormat result = mr_Format response" "rx_UserPresent result = pa_UserPresent parsed"
      "rx_UserVerified result = pa_UserVerified parsed"
    by (auto simp: register_ctap2_def io_bind_conv checked_conv decoded_conv split: if_splits)
  let ?c = "register_command request builtIn param protocol"
  have "verification_requested (\<exists>options. mk_Options ?c = Some options \<and> mo_UserVerification options)
      (mk_PinUVAuthParam ?c) (mk_PinUVAuthProtocol ?c)"
    using resolve_required [OF cy required uv]
    by (auto simp: verification_requested_def register_command_def makeCredentialOptions_def Let_def)
  moreover have "mk_ClientDataHash ?c = rq_ChallengeHash request" "rp_id (mk_RelyingParty ?c) = rq_RPID request"
    by (simp_all add: register_command_def)
  ultimately show ?thesis using enc inv dec res by blast
qed

text \<open>An authenticator with a configured built-in verifier; it answers every request with one credential, and the
  CBOR package is one that reads that answer.\<close>

definition uv_response :: make_credential_response where
  "uv_response =
     \<lparr>mr_Format = ''packed'', mr_AuthData = authenticator_data_bytes (replicate 32 7) 0x45 1 (attested_bytes (replicate 16 0) [9, 8] []),
      mr_AttestationStatement = Some [], mr_EnterpriseAttestation = False, mr_LargeBlobKey = []\<rparr>"

definition uv_libs :: "client_mem sdk_libs" where
  "uv_libs =
     \<lparr>lb_crypto = toy_crypto,
      lb_cbor = \<lparr>cb_marshal = (\<lambda>_. Inr [0xa0]), cb_wellformed = (\<lambda>_. None), cb_getInfoWire = (\<lambda>_. Inl GoPanic),
        cb_rawMap = (\<lambda>_. Inl GoPanic), cb_makeCredential = (\<lambda>_ _. (uv_response, None)), cb_getAssertion = (\<lambda>_ t. (t, None)),
        cb_clientPIN = (\<lambda>_ t. (t, None)), cb_credMgmt = (\<lambda>_ t. (t, None))\<rparr>,
      lb_parseCertificate = (\<lambda>_. None)\<rparr>"

definition uv_client :: "client_mem client" where
  "uv_client =
     \<lparr>cl_session = u2f_session, cl_exchange = (\<lambda>req. io_return ([0x00, 0xa0], None)),
      cl_hidExchange = base_hid_exchange u2f_session,
      cl_invokers = [FamilyCTAP2 \<mapsto> ctap2RawInvoker], cl_interaction = None\<rparr>"

definition uv_world :: client_mem where
  "uv_world = \<lparr>cm_caps = Some (buildCapabilities None (Some (zero_info\<lparr>gi_Options := [''uv'' \<mapsto> True]\<rparr>)) (client_Device uv_client))\<rparr>"

definition uv_request :: registration_request where
  "uv_request =
     \<lparr>rq_ChallengeHash = replicate 32 1, rq_RPID = ''example.org'', rq_User = \<lparr>us_ID = [1], us_Name = [], us_DisplayName = []\<rparr>,
      rq_Selection = \<lparr>as_UserPresence = [], as_UserVerification = UserVerificationRequired\<rparr>, rq_CTAP1 = None, rq_CTAP2 = None\<rparr>"

lemma uv_registers:
  "client_Register uv_libs uv_client uv_request uv_world =
     Some (Inr \<lparr>rx_Protocol = FamilyCTAP2, rx_CredentialID = [9, 8], rx_AttestationFormat = ''packed'', rx_UserPresent = True,
       rx_UserVerified = True, rx_RawCTAP1 = None, rx_RawCTAP2 = Some uv_response\<rparr>, uv_world)"
proof -
  have caps: "client_Capabilities uv_libs uv_client uv_world = Some (Inr (the (cm_caps uv_world)), uv_world)"
    by (simp add: client_Capabilities_def uv_world_def)
  have info: "cap_RawCTAP2 (the (cm_caps uv_world)) = Some (zero_info\<lparr>gi_Options := [''uv'' \<mapsto> True]\<rparr>)"
    by (simp add: uv_world_def)
  have uv: "resolveCTAP2UserVerification uv_libs uv_client (Some (zero_info\<lparr>gi_Options := [''uv'' \<mapsto> True]\<rparr>)) ''register''
      (rq_Selection uv_request) h p rpid uv_world = Some (Inr (True, [], 0), uv_world)" for h p rpid
    by (simp add: resolveCTAP2UserVerification_def uv_request_def normalizedUserVerification_def UserVerificationRequired_def
        UserVerificationPreferred_def UserVerificationDiscouraged_def optionEnabled_def)
  have enc: "MakeCredentialCommand_Encode (lb_cbor uv_libs) (register_command uv_request True [] 0) = Inr [CommandMakeCredential, 0xa0]"
    by (simp add: MakeCredentialCommand_Encode_def register_command_def uv_request_def defaultCredentialParameters_def
        registrationCredentialParameters_def encodeCommand_def uv_libs_def)
  have inv: "client_InvokeRaw uv_client FamilyCTAP2 CommandMakeCredential [0xa0] w = Some (Inr ([0x00, 0xa0], None), w)" for w
    by (simp add: client_InvokeRaw_def uv_client_def family_Validate_def family_IsKnown_def ctap2RawInvoker_def)
  have dec: "MakeCredentialCommand_DecodeResponse (lb_cbor uv_libs) True [0x00, 0xa0] zero_mc_response = (uv_response, None)"
    by (simp add: MakeCredentialCommand_DecodeResponse_def decode_checked_def decodeCommandResponse_def uv_libs_def
        make_credential_check_def uv_response_def authenticator_data_bytes_def)
  have emit: "emitInteraction uv_client event w = Some (Inr (), w)" for event w by (simp add: emitInteraction_def uv_client_def)
  have fmt: "mr_Format uv_response = ''packed''" by (simp add: uv_response_def)
  have parse: "parseAuthenticatorData (mr_AuthData uv_response) =
      Inr \<lparr>pa_UserPresent = True, pa_UserVerified = True, pa_SignCount = 1, pa_CredentialID = [9, 8]\<rparr>"
  proof -
    let ?t = "attested_bytes (replicate 16 0) [9, 8] []"
    have "slice ?t 16 18 = be16 2" "slice ?t 18 20 = [9, 8]" "length ?t = 20"
      by (simp_all add: attested_bytes_def slice_def)
    moreover have "bit (0x45 :: byte) 0" "bit (0x45 :: byte) 2" "bit (0x45 :: byte) 6" by code_simp+
    ultimately show ?thesis by (simp add: uv_response_def parse_layout Let_def)
  qed
  show ?thesis
    by (simp add: client_Register_def io_bind_def caps HasCTAP2_def info register_ctap2_def uv enc inv dec parse checked_def
        decoded_def emit fmt)
qed

theorem register_required_verified_witness:
  "\<exists>command encoded w1 answer. mk_ClientDataHash command = replicate 32 1 \<and>
    verification_requested (\<exists>options. mk_Options command = Some options \<and> mo_UserVerification options)
      (mk_PinUVAuthParam command) (mk_PinUVAuthProtocol command) \<and>
    MakeCredentialCommand_Encode (lb_cbor uv_libs) command = Inr encoded \<and>
    client_InvokeRaw uv_client FamilyCTAP2 CommandMakeCredential (tl encoded) w1 = Some (Inr (answer, None), uv_world)"
proof -
  have "crypto_ok (lb_crypto uv_libs)" by (simp add: uv_libs_def toy_crypto_ok)
  moreover have "as_UserVerification (rq_Selection uv_request) = UserVerificationRequired" "rq_ChallengeHash uv_request = replicate 32 1"
    by (simp_all add: uv_request_def)
  ultimately show ?thesis using register_required_verified [OF _ _ uv_registers] by fastforce
qed

subsection \<open>The control byte of a CTAP1 authentication\<close>

text \<open>The APDU of a CTAP1 authentication has P1 = 0, which is none of the control bytes, whatever control the caller
  asks for: the control never influences a run.\<close>

lemma ctap1_control_not_sent:
  assumes "length payload \<le> 0xffff"
  shows "authenticate_ctap1 cl (request\<lparr>aq_CTAP1 := Some (options\<lparr>ao_Control := c\<rparr>)\<rparr>) =
      authenticate_ctap1 cl (request\<lparr>aq_CTAP1 := Some options\<rparr>)"
    and "\<exists>apdu. ri_InvokeRaw ctap1RawInvoker exchange CommandAuthenticate payload = exchange apdu \<and>
      apdu_decode apdu = Some (0, CommandAuthenticate, 0, 0, payload, 65536)"
    and "Control_Validate 0 \<noteq> None"
proof -
  show "authenticate_ctap1 cl (request\<lparr>aq_CTAP1 := Some (options\<lparr>ao_Control := c\<rparr>)\<rparr>) =
      authenticate_ctap1 cl (request\<lparr>aq_CTAP1 := Some options\<rparr>)"
    by (simp add: authenticate_ctap1_def ctap1_authenticate_payload_def)
  obtain apdu where a: "encodeAPDU CommandAuthenticate 0 0 payload maxExtendedResponseLength = Inr apdu"
    using encodeAPDU_total [OF assms] by blast
  with encodeAPDU_decodes [OF a] show "\<exists>apdu. ri_InvokeRaw ctap1RawInvoker exchange CommandAuthenticate payload = exchange apdu \<and>
      apdu_decode apdu = Some (0, CommandAuthenticate, 0, 0, payload, 65536)"
    by (intro exI [of _ apdu]) (simp add: ctap1RawInvoker_def EncodeRawAPDU_def maxExtendedResponseLength_def)
  show "Control_Validate 0 \<noteq> None"
    by (simp add: Control_Validate_def ControlEnforceUserPresenceAndSign_def ControlCheckOnly_def
        ControlDontEnforceUserPresenceAndSign_def)
qed

end
