(* ===== verification/ClientSurface.thy ===== *)
theory ClientSurface
  imports ClientOps
begin

text \<open>
  The CTAP2 management surface (\<open>pkg/client/ctap2_surface.go\<close>), payload tracing (\<open>trace.go\<close>, \<open>hid_trace.go\<close>) and
  the locators that discover devices and open clients (\<open>locator.go\<close>, \<open>default_locator.go\<close>). The surface values
  (\<open>ctap2Surface\<close>, \<open>pinManager\<close>, \<open>credentialManager\<close>, \<open>bioManager\<close>) only hold the client, so their methods take it.
\<close>

subsection \<open>The CTAP2 surface\<close>

record pin_status =
  st_Configured :: bool
  st_Retries :: u64
  st_UVRetries :: u64
  st_PowerCycleNeeded :: bool

record credential_authorization =
  za_Method :: string
  za_PIN :: bytes
  za_Info :: "get_info_response option"

definition credentialManagementOperation :: string where
  "credentialManagementOperation = ''credential management''"

definition client_CTAP2 ::
  "('e client_mem_scheme) sdk_libs \<Rightarrow> ('e client_mem_scheme) client \<Rightarrow>
   ('e client_mem_scheme, ('e client_mem_scheme) client) io" where
  "client_CTAP2 libs cl =
     io_bind (client_Capabilities libs cl) (\<lambda>caps.
       if \<not> HasCTAP2 caps then io_fail (CTAP2UnavailableError (dd_ID (client_Device cl))) else io_return cl)"

definition surface_Info ::
  "('e client_mem_scheme) sdk_libs \<Rightarrow> ('e client_mem_scheme) client \<Rightarrow> ('e client_mem_scheme, get_info_response) io" where
  "surface_Info libs cl =
     io_bind (client_Capabilities libs cl) (\<lambda>caps. case cap_RawCTAP2 caps of
       None \<Rightarrow> io_fail (CTAP2UnavailableError (dd_ID (client_Device cl)))
     | Some info \<Rightarrow> io_return info)"

definition surface_Reset ::
  "('e client_mem_scheme) sdk_libs \<Rightarrow> ('e client_mem_scheme) client \<Rightarrow> ('e client_mem_scheme, unit) io" where
  "surface_Reset = client_Reset"

definition pin_Status ::
  "('e client_mem_scheme) sdk_libs \<Rightarrow> ('e client_mem_scheme) client \<Rightarrow> ('e client_mem_scheme, pin_status) io" where
  "pin_Status libs cl =
     io_bind (requireCTAP2Capabilities libs cl ''reading PIN status'') (\<lambda>info.
       if \<not> optionPresent info ''clientPin'' then io_fail (TextError ''client: authenticator does not support clientPin'')
       else if \<not> optionEnabled info ''clientPin''
         then io_return \<lparr>st_Configured = False, st_Retries = 0, st_UVRetries = 0, st_PowerCycleNeeded = False\<rparr>
       else io_bind (client_GetPINRetries libs cl) (\<lambda>retries.
         io_return \<lparr>st_Configured = True, st_Retries = rt_PINRetries retries, st_UVRetries = rt_UVRetries retries,
                    st_PowerCycleNeeded = rt_PowerCycleState retries\<rparr>))"

definition pin_Set ::
  "('e client_mem_scheme) sdk_libs \<Rightarrow> ('e client_mem_scheme) client \<Rightarrow> bytes \<Rightarrow> ('e client_mem_scheme, unit) io" where
  "pin_Set = client_SetPIN"

definition pin_Change ::
  "('e client_mem_scheme) sdk_libs \<Rightarrow> ('e client_mem_scheme) client \<Rightarrow> bytes \<Rightarrow> bytes \<Rightarrow> ('e client_mem_scheme, unit) io" where
  "pin_Change = client_ChangePIN"

definition resolveCredentialPINAuthorization ::
  "'w client \<Rightarrow> uv_authorization \<Rightarrow> string \<Rightarrow> string \<Rightarrow> ('w, credential_authorization) io" where
  "resolveCredentialPINAuthorization cl authorization operation message =
     io_bind
       (if secret_Empty (uv_PIN authorization)
        then requestPIN cl \<lparr>pq_Operation = operation, pq_Protocol = FamilyCTAP2, pq_Transport = [],
               pq_Method = VerificationMethodPIN, pq_Message = message\<rparr>
        else io_return (uv_PIN authorization))
       (\<lambda>pin. io_return \<lparr>za_Method = VerificationMethodPIN, za_PIN = pin, za_Info = None\<rparr>)"

definition requireCredentialManagementBuiltInUV ::
  "('e client_mem_scheme) sdk_libs \<Rightarrow> ('e client_mem_scheme) client \<Rightarrow>
   ('e client_mem_scheme, get_info_response option) io" where
  "requireCredentialManagementBuiltInUV libs cl =
     io_bind (requireCTAP2Capabilities libs cl credentialManagementOperation) (\<lambda>info.
       if \<not> optionPresent info ''uv'' then
         io_fail (VerificationMethodUnavailableError VerificationMethodBuiltInUV credentialManagementOperation [])
       else if \<not> optionEnabled info ''uv'' then
         io_fail (VerificationMethodUnavailableError VerificationMethodBuiltInUV credentialManagementOperation
           ''authenticator built-in UV is not configured'')
       else if \<not> optionEnabled info ''pinUvAuthToken'' then
         io_fail (VerificationMethodUnavailableError VerificationMethodBuiltInUV credentialManagementOperation
           ''authenticator does not support pinUvAuthToken for built-in UV'')
       else if \<not> optionEnabled info ''credMgmt'' then
         (if optionEnabled info ''credentialMgmtPreview''
          then io_fail (UnsupportedVerificationMethodError VerificationMethodBuiltInUV ''credential management preview'')
          else io_fail (TextError ''client: credential management is not supported''))
       else io_return info)"

definition resolveCredentialAuthorization ::
  "('e client_mem_scheme) sdk_libs \<Rightarrow> ('e client_mem_scheme) client \<Rightarrow> uv_authorization \<Rightarrow> string \<Rightarrow> string \<Rightarrow>
   ('e client_mem_scheme, credential_authorization) io" where
  "resolveCredentialAuthorization libs cl authorization operation message =
     (let method = (if uv_Method authorization = [] then VerificationMethodPIN else uv_Method authorization) in
      if method = VerificationMethodPIN then resolveCredentialPINAuthorization cl authorization operation message
      else if method = VerificationMethodBuiltInUV then
        io_bind (requireCredentialManagementBuiltInUV libs cl) (\<lambda>info.
          io_return \<lparr>za_Method = VerificationMethodBuiltInUV, za_PIN = [], za_Info = info\<rparr>)
      else io_fail (UnsupportedVerificationMethodError method credentialManagementOperation))"

definition credentials_List ::
  "('e client_mem_scheme) sdk_libs \<Rightarrow> ('e client_mem_scheme) client \<Rightarrow> uv_authorization \<Rightarrow>
   ('e client_mem_scheme, client_credential_list) io" where
  "credentials_List libs cl authorization =
     io_bind (resolveCredentialAuthorization libs cl authorization ''list credentials''
       ''Enter authenticator PIN to list discoverable credentials'') (\<lambda>resolved.
       if za_Method resolved = VerificationMethodBuiltInUV
       then client_listCredentialsWithBuiltInUV libs cl (za_Info resolved)
       else client_ListCredentials libs cl (za_PIN resolved))"

definition credentials_Delete ::
  "('e client_mem_scheme) sdk_libs \<Rightarrow> ('e client_mem_scheme) client \<Rightarrow> client_descriptor \<Rightarrow> uv_authorization \<Rightarrow>
   ('e client_mem_scheme, unit) io" where
  "credentials_Delete libs cl credential authorization =
     io_bind (resolveCredentialAuthorization libs cl authorization ''delete credential''
       ''Enter authenticator PIN to delete a discoverable credential'') (\<lambda>resolved.
       if za_Method resolved = VerificationMethodBuiltInUV
       then client_deleteCredentialWithBuiltInUV libs cl credential (za_Info resolved)
       else client_DeleteCredential libs cl credential (za_PIN resolved))"

definition bio_Supported ::
  "('e client_mem_scheme) sdk_libs \<Rightarrow> ('e client_mem_scheme) client \<Rightarrow> ('e client_mem_scheme, bool) io" where
  "bio_Supported libs cl =
     io_bind (requireCTAP2Capabilities libs cl ''reading bio enrollment capabilities'') (\<lambda>info.
       io_return (optionPresent info ''bioEnroll''))"

text \<open>A \<open>BioEnrollment\<close> is its friendly name.\<close>

definition bio_Enrollments ::
  "('e client_mem_scheme) sdk_libs \<Rightarrow> ('e client_mem_scheme) client \<Rightarrow> ('e client_mem_scheme, string list) io" where
  "bio_Enrollments libs cl =
     io_bind (requireCTAP2Capabilities libs cl ''enumerating bio enrollments'') (\<lambda>info.
       if \<not> optionPresent info ''bioEnroll'' then io_fail (TextError ''client: bio enrollment is not supported'')
       else if \<not> optionEnabled info ''bioEnroll'' then io_return []
       else io_fail (TextError ''client: bio enrollment enumeration is not implemented''))"

subsection \<open>Tracing\<close>

text \<open>The recorder's event lists are fields of the world, after the client's cache.\<close>

datatype trace_direction = TraceDirectionRequest | TraceDirectionResponse

record trace_event =
  te_Direction :: trace_direction
  te_Payload :: bytes
  te_Redacted :: bool
  te_Command :: byte
  te_Length :: nat

record hid_trace_event =
  he_Direction :: trace_direction
  he_Command :: byte
  he_Payload :: bytes
  he_Redacted :: bool
  he_Length :: nat

record trace_mem = client_mem +
  tm_events :: "trace_event list"
  tm_hidEvents :: "hid_trace_event list"

definition traceCommand :: "bytes \<Rightarrow> byte" where
  "traceCommand payload = (if length payload = 0 then 0 else payload ! 0)"

definition ctap2CommandClientPIN :: byte where "ctap2CommandClientPIN = 0x06"
definition ctap2CommandCredentialManagement :: byte where "ctap2CommandCredentialManagement = 0x0a"
definition ctap2CommandCredentialManagementPreview :: byte where "ctap2CommandCredentialManagementPreview = 0x41"

definition traceCommandContainsSecrets :: "byte \<Rightarrow> bool" where
  "traceCommandContainsSecrets command \<longleftrightarrow>
     command \<in> {ctap2CommandClientPIN, ctap2CommandCredentialManagement, ctap2CommandCredentialManagementPreview}"

definition recorder_record :: "trace_direction \<Rightarrow> bytes \<Rightarrow> byte \<Rightarrow> bool \<Rightarrow> ('e trace_mem_scheme, unit) io" where
  "recorder_record direction payload command redacted =
     io_modify (\<lambda>w. w\<lparr>tm_events := tm_events w @
       [\<lparr>te_Direction = direction, te_Payload = (if \<not> redacted then payload else []), te_Redacted = redacted,
         te_Command = command, te_Length = length payload\<rparr>]\<rparr>)"

definition recorder_recordHID :: "trace_direction \<Rightarrow> byte \<Rightarrow> bytes \<Rightarrow> bool \<Rightarrow> ('e trace_mem_scheme, unit) io" where
  "recorder_recordHID direction command payload redacted =
     io_modify (\<lambda>w. w\<lparr>tm_hidEvents := tm_hidEvents w @
       [\<lparr>he_Direction = direction, he_Command = command, he_Payload = (if \<not> redacted then payload else []),
         he_Redacted = redacted, he_Length = length payload\<rparr>]\<rparr>)"

definition trace_WrapExchange :: "bool \<Rightarrow> ('e trace_mem_scheme) exchange_func \<Rightarrow> ('e trace_mem_scheme) exchange_func" where
  "trace_WrapExchange redactSecrets nxt req =
     (let command = traceCommand req;
          redact = (redactSecrets \<and> traceCommandContainsSecrets command)
      in io_bind (recorder_record TraceDirectionRequest req command redact) (\<lambda>_.
         io_bind (nxt req) (\<lambda>(response, e).
         io_bind (if length response \<noteq> 0 then recorder_record TraceDirectionResponse response command redact
                  else io_return ()) (\<lambda>_.
           io_return (response, e)))))"

definition trace_WrapHIDExchange ::
  "bool \<Rightarrow> ('e trace_mem_scheme) hid_exchange_func \<Rightarrow> ('e trace_mem_scheme) hid_exchange_func" where
  "trace_WrapHIDExchange redactSecrets nxt command payload =
     io_bind (recorder_recordHID TraceDirectionRequest command payload redactSecrets) (\<lambda>_.
     io_bind (nxt command payload) (\<lambda>(response, e).
     io_bind (if e = None \<or> length response \<noteq> 0 then recorder_recordHID TraceDirectionResponse command response redactSecrets
              else io_return ()) (\<lambda>_.
       io_return (response, e))))"

text \<open>\<open>WithTrace\<close>: \<open>recorder\<close> tells whether the recorder pointer is not nil, \<open>options\<close> are the \<open>RedactSecrets\<close> fields of the
  variadic arguments.\<close>

definition WithTrace :: "bool \<Rightarrow> bool list \<Rightarrow> ('e trace_mem_scheme) client_option" where
  "WithTrace recorder options cfg =
     (if \<not> recorder then Inl (client_sentinel ErrTraceRecorderRequired)
      else
        let redactSecrets = (if length options > 0 then options ! 0 else True) in
        Inr (cfg\<lparr>cf_middlewares := cf_middlewares cfg @ [trace_WrapExchange redactSecrets],
                 cf_hidMiddlewares := cf_hidMiddlewares cfg @ [trace_WrapHIDExchange redactSecrets]\<rparr>))"

definition recorder_Events :: "('e trace_mem_scheme) \<Rightarrow> trace_event list" where
  "recorder_Events w = tm_events w"

definition recorder_HIDEvents :: "('e trace_mem_scheme) \<Rightarrow> hid_trace_event list" where
  "recorder_HIDEvents w = tm_hidEvents w"

subsection \<open>Locators\<close>

definition io_sync :: "('w \<Rightarrow> 'a res \<times> 'w) \<Rightarrow> ('w, 'a) io" where
  "io_sync f w = Some (f w)"

definition NewTransportLocator :: "('w, 'w session) backend option list \<Rightarrow> ('w, 'w session) registry res" where
  "NewTransportLocator backends = NewRegistry backends"

definition locator_List :: "('w, 'w session) registry \<Rightarrow> ('w, device_descriptor list \<times> err option) io" where
  "locator_List registry = io_sync (registry_Discover registry)"

text \<open>The loop over the discovered devices. When the client cannot be built the session is closed, and the
  result of closing is dropped.\<close>

fun locator_open_loop ::
  "('w, 'w session) registry \<Rightarrow> string \<Rightarrow> 'w client_option option list \<Rightarrow> device_descriptor list \<Rightarrow> ('w, 'w client) io" where
  "locator_open_loop registry deviceID options [] = io_fail (DeviceNotFoundError deviceID)"
| "locator_open_loop registry deviceID options (device # devices) =
     (if dd_ID device \<noteq> deviceID then locator_open_loop registry deviceID options devices
      else
        io_bind (io_sync (registry_Open registry device)) (\<lambda>session.
          case client_New (Some session) options of
            Inl e \<Rightarrow> io_bind (io_ask (se_Close session)) (\<lambda>_. io_fail e)
          | Inr cl \<Rightarrow> io_return cl))"

definition locator_Open ::
  "('w, 'w session) registry \<Rightarrow> string \<Rightarrow> 'w client_option option list \<Rightarrow> ('w, 'w client) io" where
  "locator_Open registry deviceID options =
     io_bind (io_sync (registry_Discover registry)) (\<lambda>(devices, e).
       case devices of
         [] \<Rightarrow> (case e of Some err \<Rightarrow> io_fail err | None \<Rightarrow> io_fail (DeviceNotFoundError deviceID))
       | first # rest \<Rightarrow>
           locator_open_loop registry (if deviceID = [] then dd_ID first else deviceID) options devices)"

record transport_preference =
  tp_USB :: bool
  tp_NFC :: bool

definition WithUSB :: "bool \<Rightarrow> transport_preference \<Rightarrow> transport_preference" where
  "WithUSB enabled options = options\<lparr>tp_USB := enabled\<rparr>"

definition WithNFC :: "bool \<Rightarrow> transport_preference \<Rightarrow> transport_preference" where
  "WithNFC enabled options = options\<lparr>tp_NFC := enabled\<rparr>"

definition defaultLocatorOptions :: transport_preference where
  "defaultLocatorOptions = \<lparr>tp_USB = True, tp_NFC = False\<rparr>"

text \<open>\<open>usb\<close> and \<open>nfc\<close> are \<open>newDefaultUSBBackend()\<close> and \<open>newDefaultNFCBackend()\<close>; a nil option is \<open>None\<close>.\<close>

definition NewDefaultLocator ::
  "('w, 'w session) backend \<Rightarrow> ('w, 'w session) backend res \<Rightarrow> (transport_preference \<Rightarrow> transport_preference) option list \<Rightarrow>
   ('w, 'w session) registry res" where
  "NewDefaultLocator usb nfc options =
     (let resolved = foldl (\<lambda>p f. case f of None \<Rightarrow> p | Some option \<Rightarrow> option p) defaultLocatorOptions options;
          backends = (if tp_USB resolved then [Some usb] else [])
      in if tp_NFC resolved then
           andThen nfc (\<lambda>nfcBackend. NewTransportLocator (backends @ [Some nfcBackend]))
         else if backends = [] then Inl (TextError ''client: at least one default transport must be enabled'')
         else NewTransportLocator backends)"

subsection \<open>Options and dispatch\<close>

text \<open>The options of the package. \<open>config\<close> is not exported, so every option comes from these.\<close>

inductive sdk_option :: "('e trace_mem_scheme) client_option \<Rightarrow> bool" where
  sdk_middleware: "sdk_option (WithMiddleware m)"
| sdk_hid_middleware: "sdk_option (WithHIDMiddleware h)"
| sdk_invoker: "sdk_option (WithRawInvoker i)"
| sdk_interaction: "sdk_option (WithInteraction a)"
| sdk_default: "sdk_option WithDefaultRawInvokers"
| sdk_default2: "sdk_option WithDefaultCTAP2RawInvoker"
| sdk_trace: "sdk_option (WithTrace recorder options)"

definition invokers_typed :: "(string \<rightharpoonup> 'w raw_invoker) \<Rightarrow> bool" where
  "invokers_typed invokers \<longleftrightarrow> (\<forall>f i. invokers f = Some i \<longrightarrow> family_IsKnown f \<and> ri_Protocol i = f)"

lemma WithRawInvoker_typed:
  "WithRawInvoker i cfg = Inr cfg' \<Longrightarrow> invokers_typed (cf_invokers cfg) \<Longrightarrow> invokers_typed (cf_invokers cfg')"
  by (auto simp: WithRawInvoker_def invokers_typed_def family_Validate_def Let_def split: option.splits if_splits)

lemma sdk_option_typed:
  assumes "sdk_option opt" and "opt cfg = Inr cfg'" and "invokers_typed (cf_invokers cfg)"
  shows "invokers_typed (cf_invokers cfg')"
  using assms
proof cases
  case sdk_default
  with assms show ?thesis by (auto simp: WithDefaultRawInvokers_def andThen_Inr_conv dest!: WithRawInvoker_typed)
qed (use assms in \<open>auto simp: WithMiddleware_def WithHIDMiddleware_def WithInteraction_def WithDefaultCTAP2RawInvoker_def
    WithTrace_def Let_def split: option.splits if_splits dest: WithRawInvoker_typed\<close>)

lemma apply_options_typed:
  assumes "\<And>opt. Some opt \<in> set options \<Longrightarrow> sdk_option opt"
    and "apply_options options cfg = Inr cfg'" and "invokers_typed (cf_invokers cfg)"
  shows "invokers_typed (cf_invokers cfg')"
  using assms
proof (induction options cfg rule: apply_options.induct)
  case (3 opt options cfg)
  then obtain cfg1 where c: "opt cfg = Inr cfg1" "apply_options options cfg1 = Inr cfg'" by (auto simp: andThen_Inr_conv)
  with 3 show ?case by (auto intro: "3.IH" sdk_option_typed)
qed simp_all


lemma WithRawInvoker_fresh:
  "family_IsKnown (ri_Protocol i) \<Longrightarrow> cf_invokers cfg (ri_Protocol i) = None \<Longrightarrow>
    WithRawInvoker (Some i) cfg = Inr (cfg\<lparr>cf_invokers := (cf_invokers cfg)(ri_Protocol i \<mapsto> i)\<rparr>)"
  by (simp add: WithRawInvoker_def family_Validate_def)

lemma default_invoker_families [simp]:
  "ri_Protocol ctap1RawInvoker = FamilyCTAP1" "ri_Protocol ctap2RawInvoker = FamilyCTAP2" "FamilyCTAP2 \<noteq> FamilyCTAP1"
  by (simp_all add: ctap1RawInvoker_def ctap2RawInvoker_def FamilyCTAP1_def FamilyCTAP2_def)

lemma default_invokers:
  "WithDefaultRawInvokers empty_config =
     Inr (empty_config\<lparr>cf_invokers := [FamilyCTAP1 \<mapsto> ctap1RawInvoker, FamilyCTAP2 \<mapsto> ctap2RawInvoker]\<rparr>)"
  by (simp add: WithDefaultRawInvokers_def WithRawInvoker_fresh family_IsKnown_def empty_config_def)

subsection \<open>Tracing\<close>

definition events_safe :: "'e trace_mem_scheme \<Rightarrow> bool" where
  "events_safe w \<longleftrightarrow> (\<forall>ev \<in> set (tm_events w). traceCommandContainsSecrets (te_Command ev) \<longrightarrow> te_Payload ev = [])"

definition hid_events_safe :: "'e trace_mem_scheme \<Rightarrow> bool" where
  "hid_events_safe w \<longleftrightarrow> (\<forall>ev \<in> set (tm_hidEvents w). he_Payload ev = [])"

lemma trace_exchange_safe:
  assumes "io_keeps tm_events (nxt req)"
  shows "io_inv events_safe (trace_WrapExchange True nxt req)"
proof -
  have "io_inv events_safe (nxt req)" using assms by (auto simp: io_inv_def io_keeps_def events_safe_def)
  moreover have "io_inv events_safe (recorder_record d p c (True \<and> traceCommandContainsSecrets c))" for d p c
    by (auto simp: recorder_record_def io_inv_def events_safe_def)
  ultimately show ?thesis unfolding trace_WrapExchange_def Let_def by (intro inv_intros)
qed

lemma trace_hid_safe:
  assumes "io_keeps tm_hidEvents (nxt command payload)"
  shows "io_inv hid_events_safe (trace_WrapHIDExchange True nxt command payload)"
proof -
  have "io_inv hid_events_safe (nxt command payload)" using assms by (auto simp: io_inv_def io_keeps_def hid_events_safe_def)
  moreover have "io_inv hid_events_safe (recorder_recordHID d c p True)" for d p c
    by (auto simp: recorder_recordHID_def io_inv_def hid_events_safe_def)
  ultimately show ?thesis unfolding trace_WrapHIDExchange_def by (intro inv_intros)
qed

text \<open>What the traced exchange does, step by step.\<close>

lemma trace_exchange_result:
  "trace_WrapExchange red nxt req w =
     (let command = traceCommand req; redact = (red \<and> traceCommandContainsSecrets command);
          event = (\<lambda>d p. \<lparr>te_Direction = d, te_Payload = (if redact then [] else p), te_Redacted = redact,
                          te_Command = command, te_Length = length p\<rparr>)
      in case nxt req (w\<lparr>tm_events := tm_events w @ [event TraceDirectionRequest req]\<rparr>) of
           Some (Inr (response, e), w1) \<Rightarrow>
             Some (Inr (response, e), if response = [] then w1
               else w1\<lparr>tm_events := tm_events w1 @ [event TraceDirectionResponse response]\<rparr>)
         | other \<Rightarrow> other)"
  by (auto simp: trace_WrapExchange_def recorder_record_def io_bind_def Let_def split: option.splits sum.splits prod.splits)


subsection \<open>Locators\<close>

text \<open>The loop acts on the first device with the wanted id.\<close>

lemma locator_open_loop_find:
  "locator_open_loop registry wanted options devices =
     (case List.find (\<lambda>d. dd_ID d = wanted) devices of
        None \<Rightarrow> io_fail (DeviceNotFoundError wanted)
      | Some device \<Rightarrow>
          io_bind (io_sync (registry_Open registry device)) (\<lambda>session.
            case client_New (Some session) options of
              Inl e \<Rightarrow> io_bind (io_ask (se_Close session)) (\<lambda>_. io_fail e)
            | Inr cl \<Rightarrow> io_return cl))"
  by (induction devices) simp_all

lemma locator_open_loop_owns:
  assumes "locator_open_loop registry wanted options devices w = Some (r, w')"
  shows "case r of
      Inr cl \<Rightarrow> \<exists>d s. List.find (\<lambda>d. dd_ID d = wanted) devices = Some d \<and> registry_Open registry d w = (Inr s, w') \<and>
        client_New (Some s) options = Inr cl
    | Inl _ \<Rightarrow> List.find (\<lambda>d. dd_ID d = wanted) devices = None \<and> w' = w \<or>
        (\<exists>d s w2 c. List.find (\<lambda>d. dd_ID d = wanted) devices = Some d \<and> registry_Open registry d w = (Inr s, w2) \<and>
           se_Close s w2 = (c, w')) \<or>
        (\<exists>d x. List.find (\<lambda>d. dd_ID d = wanted) devices = Some d \<and> registry_Open registry d w = (Inl x, w'))"
proof (cases "List.find (\<lambda>d. dd_ID d = wanted) devices")
  case None
  with assms show ?thesis by (auto simp: locator_open_loop_find)
next
  case (Some d)
  obtain q w2 where o: "registry_Open registry d w = (q, w2)" by fastforce
  show ?thesis
  proof (cases q)
    case (Inl x)
    with assms Some o show ?thesis by (auto simp: locator_open_loop_find io_bind_def io_sync_def)
  next
    case (Inr s)
    with assms Some o have "(case client_New (Some s) options of
        Inl e \<Rightarrow> io_bind (io_ask (se_Close s)) (\<lambda>_. io_fail e) | Inr cl \<Rightarrow> io_return cl) w2 = Some (r, w')"
      by (simp add: locator_open_loop_find io_bind_def io_sync_def)
    then consider e c where "client_New (Some s) options = Inl e" "r = Inl e" "se_Close s w2 = (c, w')"
      | cl where "client_New (Some s) options = Inr cl" "r = Inr cl" "w2 = w'"
      by (cases "client_New (Some s) options") (auto simp: io_bind_conv io_ask_conv)
    then show ?thesis using Some o Inr by cases auto
  qed
qed

text \<open>\<open>Locator.Open\<close> never leaks a session: a client it returns is built on the session of the first discovered
  device with the wanted id (the first device when no id is given); when it fails, either no session was
  opened or the one it opened has been closed.\<close>

theorem locator_open_owns:
  assumes run: "locator_Open registry deviceID options w = Some (r, w')"
    and disc: "registry_Discover registry w = (Inr (devices, e), w1)"
  shows "let wanted = (if deviceID = [] then dd_ID (hd devices) else deviceID);
             device = List.find (\<lambda>d. dd_ID d = wanted) devices
    in case r of
      Inr cl \<Rightarrow> \<exists>d s. device = Some d \<and> registry_Open registry d w1 = (Inr s, w') \<and> client_New (Some s) options = Inr cl
    | Inl _ \<Rightarrow> device = None \<and> w' = w1 \<or>
        (\<exists>d s w2 c. device = Some d \<and> registry_Open registry d w1 = (Inr s, w2) \<and> se_Close s w2 = (c, w')) \<or>
        (\<exists>d x. device = Some d \<and> registry_Open registry d w1 = (Inl x, w'))"
proof (cases devices)
  case Nil
  with run disc show ?thesis by (auto simp: locator_Open_def io_sync_def io_bind_def split: option.splits)
next
  case (Cons d ds)
  with run disc have "locator_open_loop registry (if deviceID = [] then dd_ID d else deviceID) options devices w1 = Some (r, w')"
    by (simp add: locator_Open_def io_sync_def io_bind_def)
  moreover have "d = hd devices" using Cons by simp
  ultimately show ?thesis unfolding Let_def by (simp only: locator_open_loop_owns)
qed

text \<open>A sample session over the bare memory, and a backend that opens it.\<close>

definition echo_session :: "trace_mem session" where
  "echo_session =
     \<lparr>se_Device = \<lparr>dd_ID = ''key'', dd_Transport = KindUSB, dd_Path = [], dd_Manufacturer = [], dd_Product = [],
        dd_SerialNumber = [], dd_VendorID = 0, dd_ProductID = 0\<rparr>,
      se_Exchange = (\<lambda>req. io_return (0 # req, None)),
      se_Close = (\<lambda>w. (None, w)), se_ExchangeHID = Some (\<lambda>c p. io_return (p, None)), se_CloseContext = None\<rparr>"

definition echo_client :: "trace_mem client" where
  "echo_client =
     \<lparr>cl_session = echo_session, cl_exchange = trace_WrapExchange True (se_Exchange echo_session),
      cl_hidExchange = trace_WrapHIDExchange True (base_hid_exchange echo_session),
      cl_invokers = [FamilyCTAP1 \<mapsto> ctap1RawInvoker, FamilyCTAP2 \<mapsto> ctap2RawInvoker], cl_interaction = None\<rparr>"

lemma echo_client_New:
  "client_New (Some echo_session) [Some WithDefaultRawInvokers, Some (WithTrace True [])] = Inr echo_client"
  by (simp add: client_New_def default_invokers WithTrace_def Chain_foldr echo_client_def) (simp add: empty_config_def)

definition echo_registry :: "(trace_mem, trace_mem session) registry" where
  "echo_registry =
     \<lparr>rg_backends = [KindUSB \<mapsto> \<lparr>bk_Kind = KindUSB, bk_Discover = (\<lambda>w. (([se_Device echo_session], None), w)),
        bk_Open = (\<lambda>d w. (Inr echo_session, w))\<rparr>], rg_order = [KindUSB]\<rparr>"



theorem locator_open_owns_witness:
  "\<exists>d s. registry_Open echo_registry d \<lparr>cm_caps = None, tm_events = [], tm_hidEvents = []\<rparr> =
      (Inr s, \<lparr>cm_caps = None, tm_events = [], tm_hidEvents = []\<rparr>) \<and> dd_ID d = ''key''"
proof -
  let ?w = "\<lparr>cm_caps = None, tm_events = [], tm_hidEvents = []\<rparr>"
  have d: "registry_Discover echo_registry ?w = (Inr ([se_Device echo_session], None), ?w)"
    by (simp add: registry_Discover_def echo_registry_def)
  have o: "registry_Open echo_registry (se_Device echo_session) ?w = (Inr echo_session, ?w)"
    by (simp add: registry_Open_def echo_registry_def) (simp add: echo_session_def)
  have "locator_Open echo_registry [] [Some WithDefaultRawInvokers, Some (WithTrace True [])] ?w = Some (Inr echo_client, ?w)"
    by (simp add: locator_Open_def locator_open_loop_find io_bind_def io_sync_def d o echo_client_New)
  from locator_open_owns [OF this d] show ?thesis by (auto simp: Let_def echo_session_def)
qed

end
