(* ===== verification/Fidoctl.thy ===== *)
theory Fidoctl
  imports ClientSurface
begin

text \<open>
  The service layer of the command line tool, \<open>internal/cli/fidoctl/app.go\<close>: every command opens a client through the
  locator, runs one operation on it and closes it; a command whose connection is lost waits for the authenticator to
  come back and runs once more. The lines written to the status stream are a field of the world.
  A wait polls the inventory until the device is there or the command's context ends; \<open>tick\<close> is the
  \<open>select\<close> between the ticker (None) and the end of the context (its error). A client is built with an
  empty capability cache, so opening one clears the cache in the world.
\<close>

subsection \<open>The service\<close>

record cli_mem = trace_mem +
  fc_status :: "string list"

record 'w app =
  ap_locator :: "('w, 'w session) registry"
  ap_interactive :: bool
  ap_status :: bool
  ap_defaultMode :: bool

definition app_New :: "('w, 'w session) registry \<Rightarrow> 'w app" where
  "app_New locator = \<lparr>ap_locator = locator, ap_interactive = True, ap_status = False, ap_defaultMode = False\<rparr>"

definition ConfigureInteraction :: "bool \<Rightarrow> bool \<Rightarrow> 'w app \<Rightarrow> 'w app" where
  "ConfigureInteraction interactive status app = app\<lparr>ap_interactive := interactive, ap_status := status\<rparr>"

text \<open>\<open>usb\<close> and \<open>nfc\<close> are the default backends, as for \<open>NewDefaultLocator\<close>.\<close>

definition buildDefaultLocator ::
  "('w, 'w session) backend \<Rightarrow> ('w, 'w session) backend res \<Rightarrow> transport_preference \<Rightarrow> ('w, 'w session) registry res" where
  "buildDefaultLocator usb nfc preference =
     NewDefaultLocator usb nfc [Some (WithUSB (tp_USB preference)), Some (WithNFC (tp_NFC preference))]"

definition ConfigureTransportPreferences ::
  "('w, 'w session) backend \<Rightarrow> ('w, 'w session) backend res \<Rightarrow> transport_preference \<Rightarrow> 'w app \<Rightarrow> 'w app res" where
  "ConfigureTransportPreferences usb nfc preference app =
     (if \<not> ap_defaultMode app then Inr app
      else andThen (buildDefaultLocator usb nfc preference) (\<lambda>locator. Inr (app\<lparr>ap_locator := locator\<rparr>)))"

definition app_NewDefault :: "('w, 'w session) backend \<Rightarrow> ('w, 'w session) backend res \<Rightarrow> 'w app res" where
  "app_NewDefault usb nfc =
     ConfigureTransportPreferences usb nfc \<lparr>tp_USB = True, tp_NFC = False\<rparr>
       \<lparr>ap_locator = \<lparr>rg_backends = Map.empty, rg_order = []\<rparr>, ap_interactive = True, ap_status = False, ap_defaultMode = True\<rparr>"

text \<open>The messages are formats without verbs, or already formatted.\<close>

definition writeStatus :: "('e cli_mem_scheme) app \<Rightarrow> string \<Rightarrow> ('e cli_mem_scheme, unit) io" where
  "writeStatus app message =
     (if \<not> ap_status app then io_return () else io_modify (\<lambda>w. w\<lparr>fc_status := fc_status w @ [message]\<rparr>))"

definition interaction_message :: "interaction_event \<Rightarrow> string" where
  "interaction_message event =
     (if ie_Message event \<noteq> [] then ie_Message event
      else if ie_Kind event = InteractionAwaitingUserPresence then ''Touch or tap the authenticator to continue.''
      else if ie_Kind event = ''awaiting-user-verification'' then ''Complete authenticator verification to continue.''
      else if ie_Kind event = InteractionAwaitingPIN then ''Authenticator PIN is required.''
      else if ie_Kind event = ''reinsert-required'' then ''Reinsert or retap the authenticator to continue.''
      else if ie_Kind event = ''processing'' then ''Processing authenticator request.''
      else [])"

definition OnInteraction :: "('e cli_mem_scheme) app \<Rightarrow> interaction_event \<Rightarrow> ('e cli_mem_scheme, unit) io" where
  "OnInteraction app event =
     (if \<not> ap_interactive app then io_return ()
      else if interaction_message event \<noteq> [] then writeStatus app (interaction_message event) else io_return ())"

definition RequestPIN :: "('e cli_mem_scheme) app \<Rightarrow> pin_request \<Rightarrow> ('e cli_mem_scheme, bytes) io" where
  "RequestPIN app req =
     io_bind (if pq_Message req \<noteq> [] then writeStatus app (pq_Message req) else io_return ()) (\<lambda>_.
       io_fail (client_sentinel ErrPINRequired))"

text \<open>The application as the interaction handler of its clients.\<close>

definition app_handler :: "('e cli_mem_scheme) app \<Rightarrow> ('e cli_mem_scheme) interaction_handler" where
  "app_handler app =
     \<lparr>ih_OnInteraction = (\<lambda>event w. case OnInteraction app event w of Some (r, w') \<Rightarrow> w' | None \<Rightarrow> w),
      ih_RequestPIN = RequestPIN app\<rparr>"

definition openClient ::
  "('e cli_mem_scheme) app \<Rightarrow> string \<Rightarrow> ('e cli_mem_scheme) client_option option list \<Rightarrow>
   ('e cli_mem_scheme, ('e cli_mem_scheme) client) io" where
  "openClient app deviceID options =
     io_bind (locator_Open (ap_locator app) deviceID
       ([Some WithDefaultRawInvokers, Some (WithInteraction (Some (app_handler app)))] @ options)) (\<lambda>candidate.
       io_bind (io_modify (\<lambda>w. w\<lparr>cm_caps := None\<rparr>)) (\<lambda>_. io_return candidate))"

text \<open>\<open>runWithClient\<close>: the result or the error of the operation, and the descriptor of the device once a client was
  opened. The deferred close runs after the operation, whatever it returned.\<close>

definition runWithClient ::
  "('e cli_mem_scheme) app \<Rightarrow> string \<Rightarrow> ('e cli_mem_scheme) client_option option list \<Rightarrow>
   (('e cli_mem_scheme) client \<Rightarrow> ('e cli_mem_scheme, 'a) io) \<Rightarrow> ('e cli_mem_scheme, 'a res \<times> device_descriptor option) io" where
  "runWithClient app deviceID options operation =
     io_bind (io_try (openClient app deviceID options)) (\<lambda>opened. case opened of
       Inl e \<Rightarrow> io_return (Inl e, None)
     | Inr candidate \<Rightarrow>
         io_bind (io_try (operation candidate)) (\<lambda>result.
         io_bind (io_ask (client_Close candidate)) (\<lambda>_.
           io_return (result, Some (client_Device candidate)))))"

subsection \<open>Waiting for a device\<close>

definition samePhysicalDevice :: "device_descriptor \<Rightarrow> device_descriptor \<Rightarrow> bool" where
  "samePhysicalDevice left right \<longleftrightarrow>
     (if dd_SerialNumber left \<noteq> [] \<and> dd_SerialNumber right \<noteq> []
      then dd_Transport left = dd_Transport right \<and> dd_SerialNumber left = dd_SerialNumber right \<and>
        dd_VendorID left = dd_VendorID right \<and> dd_ProductID left = dd_ProductID right
      else dd_Transport left = dd_Transport right \<and> dd_VendorID left = dd_VendorID right \<and>
        dd_ProductID left = dd_ProductID right \<and> dd_Product left = dd_Product right \<and> dd_Manufacturer left = dd_Manufacturer right)"

definition reconnectTargetAvailable :: "device_descriptor list \<Rightarrow> string \<Rightarrow> device_descriptor option \<Rightarrow> bool" where
  "reconnectTargetAvailable devices deviceID previous \<longleftrightarrow>
     devices \<noteq> [] \<and>
     ((case previous of None \<Rightarrow> False | Some p \<Rightarrow> list_ex (\<lambda>device. samePhysicalDevice device p) devices) \<or>
      deviceID = [] \<or> list_ex (\<lambda>device. dd_ID device = deviceID) devices)"

text \<open>An error with no devices is an empty list either way.\<close>

definition listDevices :: "('e cli_mem_scheme) app \<Rightarrow> ('e cli_mem_scheme, device_descriptor list) io" where
  "listDevices app =
     io_bind (locator_List (ap_locator app)) (\<lambda>(devices, e).
       io_return (if e \<noteq> None \<and> devices = [] then [] else devices))"

definition target_visible ::
  "('e cli_mem_scheme) app \<Rightarrow> string \<Rightarrow> device_descriptor option \<Rightarrow> ('e cli_mem_scheme, bool) io" where
  "target_visible app deviceID previous =
     io_bind (listDevices app) (\<lambda>devices. io_return (reconnectTargetAvailable devices deviceID previous))"

text \<open>The polling loop of the waits: until the target's visibility is \<open>want\<close>.\<close>

partial_function (option) wait_until ::
  "('e cli_mem_scheme) app \<Rightarrow> ('e cli_mem_scheme \<Rightarrow> err option \<times> 'e cli_mem_scheme) \<Rightarrow> string \<Rightarrow> bool \<Rightarrow> string \<Rightarrow>
   device_descriptor option \<Rightarrow> ('e cli_mem_scheme, unit) io" where
  "wait_until app tick message want deviceID previous w =
     io_bind (target_visible app deviceID previous) (\<lambda>seen w1.
       if seen = want then io_return () w1
       else io_bind (io_ask tick) (\<lambda>e w2. case e of
           Some err \<Rightarrow> io_fail (WrapError message [err]) w2
         | None \<Rightarrow> wait_until app tick message want deviceID previous w2) w1) w"

text \<open>The status lines and the error prefixes of the waits.\<close>

definition detected_retrying :: string where
  "detected_retrying = ''Authenticator detected again. Retrying the command.''"

definition reset_window_closed :: string where
  "reset_window_closed = ''Authenticator reset was rejected because the reset window is closed. Reinsert or retap the authenticator, then touch it when prompted.''"

definition reset_removed :: string where
  "reset_removed = ''Authenticator removed. Waiting for it to reconnect inside the reset window.''"

definition reset_detected :: string where
  "reset_detected = ''Authenticator detected again. Retrying reset immediately.''"

definition reconnect_failed :: string where
  "reconnect_failed = ''wait for authenticator reconnect: %w''"

definition removal_failed :: string where
  "removal_failed = ''wait for authenticator removal before reset retry: %w''"

definition reset_reconnect_failed :: string where
  "reset_reconnect_failed = ''wait for authenticator reconnect before reset retry: %w''"

definition connection_lost :: string where
  "connection_lost = ''Authenticator connection was lost. Reconnect the device to continue; waiting until the command timeout expires.''"

definition waitForReconnect ::
  "('e cli_mem_scheme) app \<Rightarrow> ('e cli_mem_scheme \<Rightarrow> err option \<times> 'e cli_mem_scheme) \<Rightarrow> string \<Rightarrow>
   device_descriptor option \<Rightarrow> ('e cli_mem_scheme, unit) io" where
  "waitForReconnect app tick deviceID previous =
     wait_until app tick reconnect_failed True deviceID previous"

definition waitForResetWindow ::
  "('e cli_mem_scheme) app \<Rightarrow> ('e cli_mem_scheme \<Rightarrow> err option \<times> 'e cli_mem_scheme) \<Rightarrow> string \<Rightarrow>
   device_descriptor option \<Rightarrow> ('e cli_mem_scheme, unit) io" where
  "waitForResetWindow app tick deviceID previous =
     io_bind (writeStatus app reset_window_closed) (\<lambda>_.
       if previous = None then waitForReconnect app tick deviceID previous
       else
         io_bind (wait_until app tick removal_failed False deviceID previous) (\<lambda>_.
         io_bind (writeStatus app reset_removed) (\<lambda>_.
         io_bind (wait_until app tick reset_reconnect_failed True deviceID previous) (\<lambda>_.
           writeStatus app reset_detected))))"

definition shouldWaitForReconnect :: "'w app \<Rightarrow> err \<Rightarrow> bool" where
  "shouldWaitForReconnect app e \<longleftrightarrow>
     ap_interactive app \<and>
     (errors_as as_DeviceNotFound e \<noteq> None \<or> errors_is e (STransport ErrDisconnected) \<or> errors_is e (STransport ErrTemporary))"

definition ctap2StatusNotAllowed :: byte where "ctap2StatusNotAllowed = 0x30"

definition shouldRetryResetAfterPowerCycle :: "'w app \<Rightarrow> err \<Rightarrow> bool" where
  "shouldRetryResetAfterPowerCycle app e \<longleftrightarrow>
     ap_interactive app \<and> errors_as as_Ctap2Error e = Some ctap2StatusNotAllowed"

definition waitForPostMutationReconnect ::
  "('e cli_mem_scheme) app \<Rightarrow> ('e cli_mem_scheme \<Rightarrow> err option \<times> 'e cli_mem_scheme) \<Rightarrow> string \<Rightarrow>
   device_descriptor option \<Rightarrow> string \<Rightarrow> ('e cli_mem_scheme, unit) io" where
  "waitForPostMutationReconnect app tick deviceID previous operation =
     (if \<not> ap_interactive app \<or> previous = None then io_return ()
      else io_bind (target_visible app deviceID previous) (\<lambda>seen.
        if seen then io_return ()
        else io_bind (writeStatus app (''Waiting for authenticator to reconnect after '' @ operation @ ''.'')) (\<lambda>_.
          io_bind (io_try (waitForReconnect app tick deviceID previous)) (\<lambda>r. case r of
            Inr _ \<Rightarrow> writeStatus app ''Authenticator detected again.''
          | Inl _ \<Rightarrow> io_return ()))))"

subsection \<open>Commands\<close>

definition withClient ::
  "('e cli_mem_scheme) app \<Rightarrow> ('e cli_mem_scheme \<Rightarrow> err option \<times> 'e cli_mem_scheme) \<Rightarrow> string \<Rightarrow>
   ('e cli_mem_scheme) client_option option list \<Rightarrow>
   (('e cli_mem_scheme) client \<Rightarrow> ('e cli_mem_scheme, 'a) io) \<Rightarrow> ('e cli_mem_scheme, 'a) io" where
  "withClient app tick deviceID options operation =
     io_bind (runWithClient app deviceID options operation) (\<lambda>(result, previous). case result of
       Inr x \<Rightarrow> io_return x
     | Inl e \<Rightarrow>
         if \<not> shouldWaitForReconnect app e then io_fail e
         else
           io_bind (writeStatus app connection_lost) (\<lambda>_.
           io_bind (waitForReconnect app tick deviceID previous) (\<lambda>_.
           io_bind (writeStatus app detected_retrying) (\<lambda>_.
           io_bind (runWithClient app deviceID options operation) (\<lambda>(retried, _). io_of retried)))))"

definition ListDevices :: "('e cli_mem_scheme) app \<Rightarrow> ('e cli_mem_scheme, device_descriptor list \<times> err option) io" where
  "ListDevices app = locator_List (ap_locator app)"

record info_result =
  ir_Device :: device_descriptor
  ir_Capabilities :: capabilities
  ir_PINRetries :: "pin_retries option"

record raw_request =
  rq_DeviceID :: string
  rq_Protocol :: string
  rq_Command :: byte
  rq_Payload :: bytes
  rq_UnsafeTrace :: bool

record raw_result =
  rw_Protocol :: string
  rw_Command :: byte
  rw_Response :: bytes

definition pinStatusToRetries :: "pin_status \<Rightarrow> pin_retries" where
  "pinStatusToRetries status =
     \<lparr>rt_PINRetries = st_Retries status, rt_UVRetries = st_UVRetries status, rt_PowerCycleState = st_PowerCycleNeeded status\<rparr>"

definition pin_status_of ::
  "('e cli_mem_scheme) sdk_libs \<Rightarrow> ('e cli_mem_scheme) client \<Rightarrow> ('e cli_mem_scheme, pin_status) io" where
  "pin_status_of libs candidate = io_bind (client_CTAP2 libs candidate) (\<lambda>ctap2. pin_Status libs ctap2)"

text \<open>\<open>shown\<close> is the formatting of an error by the verb \<open>v\<close>.\<close>

definition attachPINRetries ::
  "(err \<Rightarrow> string) \<Rightarrow> ('e cli_mem_scheme) sdk_libs \<Rightarrow> ('e cli_mem_scheme) app \<Rightarrow> ('e cli_mem_scheme) client \<Rightarrow> capabilities \<Rightarrow>
   info_result \<Rightarrow> ('e cli_mem_scheme, info_result) io" where
  "attachPINRetries shown libs app candidate caps result =
     (if \<not> HasCTAP2 caps \<or> \<not> vc_ClientPIN (cap_Verification caps) then io_return result
      else io_bind (io_try (pin_status_of libs candidate)) (\<lambda>r. case r of
        Inl e \<Rightarrow> io_bind (writeStatus app (''warning: unable to read authenticator PIN status: '' @ shown e)) (\<lambda>_. io_return result)
      | Inr status \<Rightarrow>
          io_return (if st_Configured status then result\<lparr>ir_PINRetries := Some (pinStatusToRetries status)\<rparr> else result)))"

definition app_Info where
  "app_Info shown libs app tick deviceID =
     withClient app tick deviceID [] (\<lambda>candidate.
       io_bind (client_Capabilities libs candidate) (\<lambda>caps.
         attachPINRetries shown libs app candidate caps
           \<lparr>ir_Device = client_Device candidate, ir_Capabilities = caps, ir_PINRetries = None\<rparr>))"

definition app_Raw where
  "app_Raw app tick request =
     withClient app tick (rq_DeviceID request) [] (\<lambda>candidate.
       io_bind (checked (client_InvokeRaw candidate (rq_Protocol request) (rq_Command request) (rq_Payload request))) (\<lambda>response.
         io_return \<lparr>rw_Protocol = rq_Protocol request, rw_Command = rq_Command request, rw_Response = response\<rparr>))"

text \<open>\<open>Trace\<close> makes a recorder of its own, which starts empty.\<close>

definition app_Trace where
  "app_Trace app tick request =
     io_bind (io_modify (\<lambda>w. w\<lparr>tm_events := [], tm_hidEvents := []\<rparr>)) (\<lambda>_.
     withClient app tick (rq_DeviceID request) [Some (WithTrace True [\<not> rq_UnsafeTrace request])] (\<lambda>candidate.
       io_bind (checked (client_InvokeRaw candidate (rq_Protocol request) (rq_Command request) (rq_Payload request))) (\<lambda>response.
         io_bind (io_gets recorder_Events) (\<lambda>events. io_return (response, events)))))"

definition app_PINRetries where
  "app_PINRetries libs app tick deviceID =
     withClient app tick deviceID [] (\<lambda>candidate.
       io_bind (pin_status_of libs candidate) (\<lambda>status.
         io_return (client_Device candidate, pinStatusToRetries status)))"

text \<open>\<open>SetPIN\<close> and \<open>ChangePIN\<close> are never retried; they wait for a device that reboots after the change.\<close>

definition mutate_pin where
  "mutate_pin app tick deviceID operation name =
     io_bind (runWithClient app deviceID [] operation) (\<lambda>(result, previous). case result of
       Inl e \<Rightarrow> io_fail e
     | Inr _ \<Rightarrow> waitForPostMutationReconnect app tick deviceID previous name)"

definition app_SetPIN where
  "app_SetPIN libs app tick deviceID newPIN =
     mutate_pin app tick deviceID
       (\<lambda>candidate. io_bind (client_CTAP2 libs candidate) (\<lambda>ctap2. pin_Set libs ctap2 newPIN)) ''PIN setup''"

definition app_ChangePIN where
  "app_ChangePIN libs app tick deviceID currentPIN newPIN =
     mutate_pin app tick deviceID
       (\<lambda>candidate. io_bind (client_CTAP2 libs candidate) (\<lambda>ctap2. pin_Change libs ctap2 currentPIN newPIN)) ''PIN change''"

definition app_Register where
  "app_Register libs app tick deviceID request =
     withClient app tick deviceID [] (\<lambda>candidate. client_Register libs candidate request)"

definition app_Authenticate where
  "app_Authenticate libs app tick deviceID request =
     withClient app tick deviceID [] (\<lambda>candidate. client_Authenticate libs candidate request)"

definition reset_retry ::
  "('e cli_mem_scheme) app \<Rightarrow> ('e cli_mem_scheme \<Rightarrow> err option \<times> 'e cli_mem_scheme) \<Rightarrow> string \<Rightarrow>
   (('e cli_mem_scheme) client \<Rightarrow> ('e cli_mem_scheme, unit) io) \<Rightarrow> ('e cli_mem_scheme, unit) io" where
  "reset_retry app tick deviceID operation =
     io_bind (runWithClient app deviceID [] operation) (\<lambda>(result, previous). case result of
       Inr _ \<Rightarrow> io_return ()
     | Inl e \<Rightarrow>
         if shouldRetryResetAfterPowerCycle app e then
           io_bind (waitForResetWindow app tick deviceID previous) (\<lambda>_.
           io_bind (runWithClient app deviceID [] operation) (\<lambda>(retried, _). io_of retried))
         else if shouldWaitForReconnect app e then
           io_bind (writeStatus app connection_lost) (\<lambda>_.
           io_bind (waitForReconnect app tick deviceID previous) (\<lambda>_.
           io_bind (writeStatus app detected_retrying) (\<lambda>_.
           io_bind (runWithClient app deviceID [] operation) (\<lambda>(retried, _). io_of retried))))
         else io_fail e)"

definition app_Reset where
  "app_Reset libs app tick deviceID =
     reset_retry app tick deviceID (\<lambda>candidate. io_bind (client_CTAP2 libs candidate) (\<lambda>ctap2. surface_Reset libs ctap2))"

definition app_ListCredentials where
  "app_ListCredentials libs app tick deviceID pin =
     withClient app tick deviceID [] (\<lambda>candidate.
       io_bind (client_CTAP2 libs candidate) (\<lambda>ctap2.
       io_bind (credentials_List libs ctap2 \<lparr>uv_PIN = pin, uv_Method = VerificationMethodPIN\<rparr>) (\<lambda>credentials.
         io_return (client_Device candidate, credentials))))"

subsection \<open>Sessions and runs are accounted for\<close>

text \<open>Observations of the environment: \<open>opens\<close> counts the open sessions and \<open>runs\<close> the times an operation was run. The
  backends open one session per successful \<open>Open\<close>, closing it ends it, and nothing else touches the counts.\<close>

definition counted :: "('e cli_mem_scheme \<Rightarrow> nat) \<Rightarrow> ('e cli_mem_scheme \<Rightarrow> nat) \<Rightarrow> 'e cli_mem_scheme \<Rightarrow> 'e cli_mem_scheme \<Rightarrow> bool" where
  "counted opens runs w w' \<longleftrightarrow> opens w' = opens w \<and> runs w' = runs w"

definition sessions_counted ::
  "('e cli_mem_scheme \<Rightarrow> nat) \<Rightarrow> ('e cli_mem_scheme \<Rightarrow> nat) \<Rightarrow> ('e cli_mem_scheme, ('e cli_mem_scheme) session) registry \<Rightarrow> bool" where
  "sessions_counted opens runs locator \<longleftrightarrow>
     (\<forall>w. counted opens runs w (snd (registry_Discover locator w))) \<and>
     (\<forall>d w. case registry_Open locator d w of
        (Inl e, w') \<Rightarrow> counted opens runs w w'
      | (Inr s, w') \<Rightarrow> opens w' = Suc (opens w) \<and> runs w' = runs w \<and>
          (\<forall>v. opens (snd (se_Close s v)) = opens v - 1 \<and> runs (snd (se_Close s v)) = runs v)) \<and>
     (\<forall>w x. counted opens runs w (w\<lparr>cm_caps := x\<rparr>)) \<and> (\<forall>w x. counted opens runs w (w\<lparr>fc_status := x\<rparr>))"

lemma client_New_session: "client_New (Some s) options = Inr cl \<Longrightarrow> cl_session cl = s"
  by (auto simp: client_New_def andThen_def split: sum.splits)

lemma open_loop_counted:
  assumes acc: "sessions_counted opens runs reg" and run: "locator_open_loop reg wanted opts ds v = Some (q, v')"
  shows "case q of
      Inl e \<Rightarrow> counted opens runs v v'
    | Inr cl \<Rightarrow> opens v' = Suc (opens v) \<and> runs v' = runs v \<and>
        (\<forall>u. opens (snd (client_Close cl u)) = opens u - 1 \<and> runs (snd (client_Close cl u)) = runs u)"
proof -
  have opened: "case registry_Open reg d v of
        (Inl e, v') \<Rightarrow> counted opens runs v v'
      | (Inr s, v') \<Rightarrow> opens v' = Suc (opens v) \<and> runs v' = runs v \<and>
          (\<forall>u. opens (snd (se_Close s u)) = opens u - 1 \<and> runs (snd (se_Close s u)) = runs u)" for d v
    using acc by (simp add: sessions_counted_def)
  show ?thesis
  proof (cases q)
    case (Inl e)
    with locator_open_loop_owns [OF run] consider "v' = v" | d s u c where "registry_Open reg d v = (Inr s, u)" "se_Close s u = (c, v')"
      | d x where "registry_Open reg d v = (Inl x, v')" by auto
    then show ?thesis
    proof cases
      case 2
      with opened [where d = d and v = v] Inl show ?thesis by (auto simp: counted_def dest!: spec [of _ u])
    next
      case 3
      with opened [where d = d and v = v] Inl show ?thesis by simp
    qed (use Inl in \<open>simp add: counted_def\<close>)
  next
    case (Inr cl)
    with locator_open_loop_owns [OF run] obtain d s where
      "registry_Open reg d v = (Inr s, v')" "client_New (Some s) opts = Inr cl" by auto
    with opened [where d = d and v = v] Inr client_New_session [of s opts cl] show ?thesis by (simp add: client_Close_def)
  qed
qed

lemma openClient_counted:
  assumes acc: "sessions_counted opens runs (ap_locator app)" and run: "openClient app deviceID options w = Some (r, w')"
  shows "case r of
      Inl e \<Rightarrow> counted opens runs w w'
    | Inr cl \<Rightarrow> opens w' = Suc (opens w) \<and> runs w' = runs w \<and>
        (\<forall>v. opens (snd (client_Close cl v)) = opens v - 1 \<and> runs (snd (client_Close cl v)) = runs v)"
proof -
  let ?reg = "ap_locator app"
  let ?opts = "[Some WithDefaultRawInvokers, Some (WithInteraction (Some (app_handler app)))] @ options"
  have disc: "counted opens runs v (snd (registry_Discover ?reg v))" for v using acc by (simp add: sessions_counted_def)
  have caps: "counted opens runs v (v\<lparr>cm_caps := x\<rparr>)" for v x using acc by (simp add: sessions_counted_def)
  obtain q v where d: "registry_Discover ?reg w = (q, v)" by fastforce
  have v: "counted opens runs w v" using disc [of w] d by simp
  from run obtain q1 v1 where l: "locator_Open ?reg deviceID ?opts w = Some (q1, v1)"
    and r: "case q1 of Inl e \<Rightarrow> r = Inl e \<and> w' = v1 | Inr cl \<Rightarrow> r = Inr cl \<and> w' = v1\<lparr>cm_caps := None\<rparr>"
    unfolding openClient_def io_bind_conv by (fastforce simp: io_bind_conv)
  have "case q1 of
      Inl e \<Rightarrow> counted opens runs w v1
    | Inr cl \<Rightarrow> opens v1 = Suc (opens w) \<and> runs v1 = runs w \<and>
        (\<forall>u. opens (snd (client_Close cl u)) = opens u - 1 \<and> runs (snd (client_Close cl u)) = runs u)"
  proof (cases q)
    case (Inl e)
    with l d v show ?thesis by (auto simp: locator_Open_def io_bind_def io_sync_def)
  next
    case (Inr p)
    obtain ds e where p: "p = (ds, e)" by fastforce
    show ?thesis
    proof (cases ds)
      case Nil
      with l d v Inr p show ?thesis by (auto simp: locator_Open_def io_bind_def io_sync_def split: option.splits)
    next
      case (Cons x xs)
      with l d Inr p have "locator_open_loop ?reg (if deviceID = [] then dd_ID x else deviceID) ?opts ds v = Some (q1, v1)"
        by (simp add: locator_Open_def io_bind_def io_sync_def del: locator_open_loop.simps)
      from open_loop_counted [OF acc this] v show ?thesis by (cases q1) (simp_all add: counted_def)
    qed
  qed
  with r caps [of v1 None] show ?thesis by (cases q1) (auto simp: counted_def)
qed

text \<open>An operation that runs once on its client and leaves the sessions alone.\<close>

definition operation_counted ::
  "('e cli_mem_scheme \<Rightarrow> nat) \<Rightarrow> ('e cli_mem_scheme \<Rightarrow> nat) \<Rightarrow> (('e cli_mem_scheme) client \<Rightarrow> ('e cli_mem_scheme, 'a) io) \<Rightarrow> bool" where
  "operation_counted opens runs operation \<longleftrightarrow>
     (\<forall>cl w r w'. operation cl w = Some (r, w') \<longrightarrow> opens w' = opens w \<and> runs w' = Suc (runs w))"

lemma runWithClient_counted:
  assumes acc: "sessions_counted opens runs (ap_locator app)" and op: "operation_counted opens runs operation"
    and run: "runWithClient app deviceID options operation w = Some (r, w')"
  shows "opens w' = opens w \<and> runs w' \<le> Suc (runs w)"
proof -
  from run obtain q v where o: "openClient app deviceID options w = Some (q, v)"
    and rest: "(case q of
       Inl e \<Rightarrow> io_return (Inl e, None)
     | Inr candidate \<Rightarrow>
         io_bind (io_try (operation candidate)) (\<lambda>result.
         io_bind (io_ask (client_Close candidate)) (\<lambda>_.
           io_return (result, Some (client_Device candidate))))) v = Some (r, w')"
    unfolding runWithClient_def by (auto simp: io_bind_conv)
  show ?thesis
  proof (cases q)
    case (Inl e)
    with openClient_counted [OF acc o] rest show ?thesis by (simp add: counted_def)
  next
    case (Inr cl)
    with rest obtain x u c where "operation cl v = Some (x, u)" "client_Close cl u = (c, w')"
      by (auto simp: io_bind_conv io_ask_conv)
    moreover have "opens v = Suc (opens w)" "runs v = runs w"
      "\<And>u. opens (snd (client_Close cl u)) = opens u - 1 \<and> runs (snd (client_Close cl u)) = runs u"
      using openClient_counted [OF acc o] Inr by auto
    moreover have "opens u = opens v \<and> runs u = Suc (runs v)" using op calculation(1) by (auto simp: operation_counted_def)
    ultimately show ?thesis by (metis diff_Suc_1 order_refl snd_conv)
  qed
qed

text \<open>Waiting and writing status lines preserve what listing, polling and status lines preserve.\<close>

lemma inv_visible:
  "(\<And>w. P w \<Longrightarrow> P (snd (registry_Discover (ap_locator app) w))) \<Longrightarrow> io_inv P (target_visible app deviceID previous)"
  unfolding target_visible_def listDevices_def locator_List_def io_sync_def
  by (intro inv_intros io_invI) (metis option.inject snd_conv)

lemma io_inv_option_eta:
  "(\<And>x. io_inv P (k x)) \<Longrightarrow> io_inv P m \<Longrightarrow> io_inv P (\<lambda>w. case z of None \<Rightarrow> m w | Some x \<Rightarrow> k x w)"
  by (cases z) simp_all

lemma inv_wait_until:
  assumes "\<And>w. P w \<Longrightarrow> P (snd (registry_Discover (ap_locator app) w))" "ask_inv P tick"
  shows "io_inv P (wait_until app tick message want deviceID previous)"
proof -
  have "io_inv P (target_visible app deviceID previous) \<longrightarrow> ask_inv P tick \<longrightarrow> P w \<longrightarrow> P (snd y)"
    if "wait_until app tick message want deviceID previous w = Some y" for w y
  proof (rule wait_until.raw_induct
      [where P = "\<lambda>app tick message want deviceID previous w y.
         io_inv P (target_visible app deviceID previous) \<longrightarrow> ask_inv P tick \<longrightarrow> P w \<longrightarrow> P (snd y)", OF _ that], intro impI, goal_cases)
    case (1 wait app tick message want deviceID previous w y)
    have IH: "io_inv P (wait app tick message want deviceID previous)" using 1(1) [rule_format, OF _ 1(3,4)] by (rule io_invI)
    show ?case
      by (rule io_inv_bindD [where P = P, OF 1(2)]) (intro inv_intros IH 1(3-5) io_inv_option_eta)+
  qed
  with assms show ?thesis by (intro io_invI) (blast intro: inv_visible)
qed

lemma inv_writeStatus: "(\<And>w x. P w \<Longrightarrow> P (w\<lparr>fc_status := x\<rparr>)) \<Longrightarrow> io_inv P (writeStatus app message)"
  unfolding writeStatus_def by (intro inv_intros)

text \<open>The waits leave both counts alone.\<close>

abbreviation count_pair where
  "count_pair opens runs w \<equiv> (opens w, runs w)"

lemma wait_counted:
  assumes "sessions_counted opens runs (ap_locator app)" "ask_keeps (count_pair opens runs) tick"
  shows "io_keeps (count_pair opens runs) (wait_until app tick message want deviceID previous)"
  using assms by (intro io_keepsI inv_wait_until) (auto simp: sessions_counted_def counted_def ask_keeps_inv)

lemma status_counted:
  "sessions_counted opens runs (ap_locator app) \<Longrightarrow> io_keeps (count_pair opens runs) (writeStatus app message)"
  by (intro io_keepsI inv_writeStatus) (auto simp: sessions_counted_def counted_def)

text \<open>What runs after the first attempt: something that leaves the counts alone, then a second attempt.\<close>

lemma retry_counted:
  assumes acc: "sessions_counted opens runs (ap_locator app)" "operation_counted opens runs operation"
    and m: "io_keeps (count_pair opens runs) m"
    and run: "io_bind m (\<lambda>_. io_bind (runWithClient app deviceID options operation) (\<lambda>(retried, _). io_of retried)) w = Some (r, w')"
  shows "opens w' = opens w \<and> runs w' \<le> Suc (runs w)"
proof -
  from run consider e where "m w = Some (Inl e, w')" | x w1 q where "m w = Some (Inr x, w1)"
      "runWithClient app deviceID options operation w1 = Some (q, w')"
    by (auto simp: io_bind_conv split: prod.splits)
  then show ?thesis
  proof cases
    case 1
    from io_keepsD [OF m this] show ?thesis by simp
  next
    case 2
    from io_keepsD [OF m 2(1)] runWithClient_counted [OF acc 2(2)] show ?thesis by simp
  qed
qed

lemma io_bind_assoc: "io_bind (io_bind m k) l = io_bind m (\<lambda>x. io_bind (k x) l)"
  by (auto simp: io_bind_def fun_eq_iff split: sum.splits bind_splits)

lemma withClient_counted:
  assumes acc: "sessions_counted opens runs (ap_locator app)" "operation_counted opens runs operation"
    and tick: "ask_keeps (count_pair opens runs) tick"
    and run: "withClient app tick deviceID options operation w = Some (r, w')"
  shows "opens w' = opens w \<and> runs w' \<le> runs w + 2 \<and> (\<not> ap_interactive app \<longrightarrow> runs w' \<le> Suc (runs w))"
proof -
  let ?wait = "\<lambda>previous. io_bind (writeStatus app connection_lost) (\<lambda>_.
    io_bind (waitForReconnect app tick deviceID previous) (\<lambda>_. writeStatus app detected_retrying))"
  have wait: "io_keeps (count_pair opens runs) (?wait previous)" for previous
    unfolding waitForReconnect_def by (intro keeps_bind status_counted wait_counted acc tick)
  from run consider result previous w1 where "runWithClient app deviceID options operation w = Some (Inr (result, previous), w1)"
      "case result of Inr x \<Rightarrow> w' = w1
        | Inl e \<Rightarrow> if \<not> shouldWaitForReconnect app e then w' = w1
            else io_bind (?wait previous) (\<lambda>_. io_bind (runWithClient app deviceID options operation) (\<lambda>(retried, _). io_of retried)) w1 = Some (r, w')"
    | e where "runWithClient app deviceID options operation w = Some (Inl e, w')"
    unfolding withClient_def io_bind_conv [of _ _ w] io_bind_assoc by (fastforce split: sum.splits if_splits)
  then show ?thesis
  proof cases
    case 1
    note one = runWithClient_counted [OF acc 1(1)]
    show ?thesis
    proof (cases "\<exists>e. result = Inl e \<and> shouldWaitForReconnect app e")
      case True
      with 1(2) retry_counted [OF acc wait, of previous deviceID options w1 r w'] one show ?thesis
        by (auto simp: shouldWaitForReconnect_def)
    qed (use 1(2) one in \<open>auto split: sum.splits if_splits\<close>)
  next
    case 2
    from runWithClient_counted [OF acc 2] show ?thesis by simp
  qed
qed

lemma reset_counted:
  assumes acc: "sessions_counted opens runs (ap_locator app)" "operation_counted opens runs operation"
    and tick: "ask_keeps (count_pair opens runs) tick"
    and run: "reset_retry app tick deviceID operation w = Some (r, w')"
  shows "opens w' = opens w \<and> runs w' \<le> runs w + 2 \<and> (\<not> ap_interactive app \<longrightarrow> runs w' \<le> Suc (runs w))"
proof -
  let ?again = "\<lambda>_. io_bind (runWithClient app deviceID [] operation) (\<lambda>(retried, _). io_of retried)"
  let ?wait = "\<lambda>previous. io_bind (writeStatus app connection_lost) (\<lambda>_.
    io_bind (waitForReconnect app tick deviceID previous) (\<lambda>_. writeStatus app detected_retrying))"
  have wait: "io_keeps (count_pair opens runs) (?wait previous)" for previous
    unfolding waitForReconnect_def by (intro keeps_bind status_counted wait_counted acc tick)
  have window: "io_keeps (count_pair opens runs) (waitForResetWindow app tick deviceID previous)" for previous
    unfolding waitForResetWindow_def waitForReconnect_def
    by (cases previous) (simp_all, (intro keeps_bind status_counted wait_counted acc tick)+)
  show ?thesis
  proof (cases "runWithClient app deviceID [] operation w")
    case None
    with run show ?thesis by (simp add: reset_retry_def)
  next
    case (Some p)
    obtain q w1 where p: "p = (q, w1)" by fastforce
    note one = runWithClient_counted [OF acc Some [unfolded p]]
    show ?thesis
    proof (cases "\<exists>e previous. q = Inr (Inl e, previous)")
      case True
      then obtain e previous where q: "q = Inr (Inl e, previous)" by blast
      have step: "reset_retry app tick deviceID operation w =
          (if shouldRetryResetAfterPowerCycle app e then io_bind (waitForResetWindow app tick deviceID previous) ?again w1
           else if shouldWaitForReconnect app e then io_bind (?wait previous) ?again w1 else io_fail e w1)"
        using Some by (simp add: reset_retry_def p q io_bind_assoc)
      consider "shouldRetryResetAfterPowerCycle app e" "io_bind (waitForResetWindow app tick deviceID previous) ?again w1 = Some (r, w')"
        | "shouldWaitForReconnect app e" "io_bind (?wait previous) ?again w1 = Some (r, w')" | "w' = w1"
        using run unfolding step by (simp only: split: if_splits) (simp_all add: io_fail_def)
      then show ?thesis
      proof cases
        case 1
        with one retry_counted [OF acc window 1(2)] show ?thesis by (simp add: shouldRetryResetAfterPowerCycle_def)
      next
        case 2
        with one retry_counted [OF acc wait 2(2)] show ?thesis by (simp add: shouldWaitForReconnect_def)
      qed (use one in simp)
    next
      case False
      have "w' = w1"
      proof (cases q)
        case (Inl e)
        with run Some p show ?thesis by (simp add: reset_retry_def)
      next
        case (Inr x)
        with False obtain previous where "x = (Inr (), previous)" by (cases x; cases "fst x") auto
        with run Some p Inr show ?thesis by (simp add: reset_retry_def)
      qed
      with one show ?thesis by simp
    qed
  qed
qed

subsection \<open>Every command ends\<close>

text \<open>The context ends: \<open>left\<close> bounds the number of polls before it does, and listing devices does not raise it.\<close>

definition context_ends ::
  "('e cli_mem_scheme \<Rightarrow> nat) \<Rightarrow> ('e cli_mem_scheme) app \<Rightarrow> ('e cli_mem_scheme \<Rightarrow> err option \<times> 'e cli_mem_scheme) \<Rightarrow> bool" where
  "context_ends left app tick \<longleftrightarrow>
     (\<forall>w w'. tick w = (None, w') \<longrightarrow> left w' < left w) \<and> (\<forall>w. left (snd (registry_Discover (ap_locator app) w)) \<le> left w)"

lemma total_locator_loop: "io_total (locator_open_loop reg wanted options ds)"
proof (induction ds)
  case (Cons d ds)
  have "io_total (io_bind (io_sync (registry_Open reg d)) (\<lambda>session.
      case client_New (Some session) options of
        Inl e \<Rightarrow> io_bind (io_ask (se_Close session)) (\<lambda>_. io_fail e)
      | Inr cl \<Rightarrow> io_return cl))"
  proof (intro io_total_bind)
    show "io_total (case client_New (Some s) options of
        Inl e \<Rightarrow> io_bind (io_ask (se_Close s)) (\<lambda>_. io_fail e) | Inr cl \<Rightarrow> io_return cl)" for s
      by (cases "client_New (Some s) options") (auto intro: total_intros)
  qed (simp add: io_total_def io_sync_def)
  with Cons show ?case by simp
qed (simp add: io_total_def)

lemma total_openClient: "io_total (openClient app deviceID options)"
proof -
  have "io_total (locator_Open reg deviceID opts)" for reg opts
    unfolding locator_Open_def
  proof (intro io_total_bind)
    fix x
    show "io_total (case x of (devices, e) \<Rightarrow> case devices of
         [] \<Rightarrow> (case e of Some err \<Rightarrow> io_fail err | None \<Rightarrow> io_fail (DeviceNotFoundError deviceID))
       | first # rest \<Rightarrow> locator_open_loop reg (if deviceID = [] then dd_ID first else deviceID) opts devices)"
      by (cases x) (auto intro: total_intros total_locator_loop simp del: locator_open_loop.simps split: list.split option.split)
  qed (simp add: io_total_def io_sync_def)
  then show ?thesis unfolding openClient_def by (intro total_intros)
qed

lemma total_runWithClient: "(\<And>cl. io_total (operation cl)) \<Longrightarrow> io_total (runWithClient app deviceID options operation)"
  unfolding runWithClient_def
proof (intro io_total_bind io_total_try total_openClient)
  fix opened
  assume op: "\<And>cl. io_total (operation cl)"
  show "io_total (case opened of
       Inl e \<Rightarrow> io_return (Inl e, None)
     | Inr candidate \<Rightarrow>
         io_bind (io_try (operation candidate)) (\<lambda>result.
         io_bind (io_ask (client_Close candidate)) (\<lambda>_. io_return (result, Some (client_Device candidate)))))"
    by (cases opened) (auto intro!: total_intros op)
qed

lemma wait_returns:
  assumes ends: "context_ends left app tick"
  shows "\<exists>r w'. wait_until app tick message want deviceID previous w = Some (r, w')"
proof (induction "left w" arbitrary: w rule: less_induct)
  case less
  let ?reg = "ap_locator app"
  obtain q w1 where d: "registry_Discover ?reg w = (q, w1)" by fastforce
  have le: "left w1 \<le> left w" using ends d unfolding context_ends_def by (metis snd_conv)
  show ?case
  proof (cases q)
    case (Inl e)
    with d show ?thesis
      by (subst wait_until.simps) (simp add: target_visible_def listDevices_def locator_List_def io_sync_def io_bind_def)
  next
    case (Inr p)
    then obtain seen where vis: "target_visible app deviceID previous w = Some (Inr seen, w1)"
      using d by (cases p) (simp add: target_visible_def listDevices_def locator_List_def io_sync_def io_bind_def)
    obtain e w2 where t: "tick w1 = (e, w2)" by fastforce
    show ?thesis
    proof (cases "seen = want \<or> e \<noteq> None")
      case True
      with vis t show ?thesis by (subst wait_until.simps) (auto simp: io_bind_def io_ask_def)
    next
      case False
      then have "left w2 < left w" using ends t le unfolding context_ends_def by (metis order_less_le_trans)
      from less [OF this] vis t False show ?thesis by (subst wait_until.simps) (auto simp: io_bind_def io_ask_def)
    qed
  qed
qed

lemma total_wait: "context_ends left app tick \<Longrightarrow> io_total (wait_until app tick message want deviceID previous)"
  using wait_returns unfolding io_total_def by (metis option.distinct(1))

lemma total_status: "io_total (writeStatus app message)"
  unfolding writeStatus_def by (intro total_intros)

lemma total_cases:
  "(\<And>x. io_total (j x)) \<Longrightarrow> (\<And>x. io_total (k x)) \<Longrightarrow> io_total (case z of Inl x \<Rightarrow> j x | Inr x \<Rightarrow> k x)"
  "(\<And>x y. io_total (l x y)) \<Longrightarrow> io_total (case p of (x, y) \<Rightarrow> l x y)"
  by (cases z; simp) (cases p; simp)

lemma total_withClient:
  assumes "context_ends left app tick" "\<And>cl. io_total (operation cl)"
  shows "io_total (withClient app tick deviceID options operation)"
  unfolding withClient_def waitForReconnect_def
  by (intro total_intros total_cases total_status total_wait [OF assms(1)] total_runWithClient assms(2))

text \<open>When no device was named, a reset retry waits for the removal of every authenticator, not only of the one that
  refused: any visible device counts as the target.\<close>

lemma reset_needs_empty_inventory: "reconnectTargetAvailable devices [] previous \<longleftrightarrow> devices \<noteq> []"
  by (simp add: reconnectTargetAvailable_def)

subsection \<open>Properties\<close>

text \<open>C16. A command never leaks a session and never repeats its effect unnoticed: whatever happens, every client a command opened
  is closed when the command returns, its operation has run at most twice, and at most once when the service
  is not interactive. This holds for the commands that retry after a lost connection and for \<open>Reset\<close>.\<close>

theorem command_closes_clients:
  assumes "sessions_counted opens runs (ap_locator app)" "operation_counted opens runs operation"
    and "ask_keeps (count_pair opens runs) tick"
    and "withClient app tick deviceID options operation w = Some (r, w') \<or> reset_retry app tick deviceID reset w = Some (q, w')"
    and "operation_counted opens runs reset"
  shows "opens w' = opens w \<and> runs w' \<le> runs w + 2 \<and> (\<not> ap_interactive app \<longrightarrow> runs w' \<le> Suc (runs w))"
  using assms(4)
proof
  assume "withClient app tick deviceID options operation w = Some (r, w')"
  then show ?thesis by (rule withClient_counted [OF assms(1-3)])
next
  assume "reset_retry app tick deviceID reset w = Some (q, w')"
  then show ?thesis by (rule reset_counted [OF assms(1,5,3)])
qed


text \<open>A service over one authenticator that refuses every exchange as disconnected, with a context that ends after some polls; the
  world counts open sessions, runs and remaining polls.\<close>

record cli_probe = cli_mem +
  pb_opens :: nat
  pb_runs :: nat
  pb_polls :: nat

definition probe_session :: "cli_probe session" where
  "probe_session =
     \<lparr>se_Device = \<lparr>dd_ID = ''key'', dd_Transport = KindUSB, dd_Path = [], dd_Manufacturer = [], dd_Product = [],
        dd_SerialNumber = [], dd_VendorID = 0, dd_ProductID = 0\<rparr>,
      se_Exchange = (\<lambda>req. io_return ([], Some (Sentinel (STransport ErrDisconnected)))),
      se_Close = (\<lambda>w. (None, w\<lparr>pb_opens := pb_opens w - 1\<rparr>)), se_ExchangeHID = None, se_CloseContext = None\<rparr>"

definition probe_app :: "cli_probe app" where
  "probe_app = app_New
     \<lparr>rg_backends = [KindUSB \<mapsto> \<lparr>bk_Kind = KindUSB, bk_Discover = (\<lambda>w. (([se_Device probe_session], None), w)),
        bk_Open = (\<lambda>d w. (Inr probe_session, w\<lparr>pb_opens := pb_opens w + 1\<rparr>))\<rparr>], rg_order = [KindUSB]\<rparr>"

definition probe_tick :: "cli_probe \<Rightarrow> err option \<times> cli_probe" where
  "probe_tick w =
     (if pb_polls w = 0 then (Some (Sentinel (SContext DeadlineExceeded)), w) else (None, w\<lparr>pb_polls := pb_polls w - 1\<rparr>))"

definition probe_operation :: "cli_probe client \<Rightarrow> (cli_probe, unit) io" where
  "probe_operation cl =
     io_bind (io_modify (\<lambda>w. w\<lparr>pb_runs := pb_runs w + 1\<rparr>)) (\<lambda>_. io_fail (Sentinel (STransport ErrDisconnected)))"

definition probe_world :: cli_probe where
  "probe_world = \<lparr>cm_caps = None, tm_events = [], tm_hidEvents = [], fc_status = [], pb_opens = 0, pb_runs = 0, pb_polls = 3\<rparr>"

lemma probe_counted:
  "sessions_counted pb_opens pb_runs (ap_locator probe_app)" "operation_counted pb_opens pb_runs probe_operation"
  "ask_keeps (count_pair pb_opens pb_runs) probe_tick" "context_ends pb_polls probe_app probe_tick" "io_total (probe_operation cl)"
proof -
  show "sessions_counted pb_opens pb_runs (ap_locator probe_app)"
    by (simp add: sessions_counted_def probe_app_def app_New_def registry_Discover_def registry_Open_def counted_def probe_session_def)
  show "operation_counted pb_opens pb_runs probe_operation"
    by (auto simp: operation_counted_def probe_operation_def io_bind_def)
  show "ask_keeps (count_pair pb_opens pb_runs) probe_tick" by (simp add: ask_keeps_def probe_tick_def)
  show "context_ends pb_polls probe_app probe_tick"
    by (auto simp: context_ends_def probe_tick_def probe_app_def app_New_def registry_Discover_def split: if_splits)
  show "io_total (probe_operation cl)" unfolding probe_operation_def by (intro total_intros)
qed


theorem command_closes_clients_witness:
  "\<exists>r w'. withClient probe_app probe_tick ''key'' [] probe_operation probe_world = Some (r, w') \<and> pb_opens w' = 0 \<and> pb_runs w' \<le> 2"
proof -
  obtain r w' where r: "withClient probe_app probe_tick ''key'' [] probe_operation probe_world = Some (r, w')"
    using total_withClient [OF probe_counted(4) probe_counted(5)] by (rule io_totalE)
  from command_closes_clients [OF probe_counted(1-3) disjI1 [OF r] probe_counted(2)] r show ?thesis
    by (auto simp: probe_world_def)
qed

end
