(* ===== verification/Diagnostics.thy ===== *)
theory Diagnostics
  imports GoErrors GoStrings
begin

text \<open>
  The scenario runner of \<open>internal/diagnostics\<close>: \<open>runner.go\<close> (\<open>Scope\<close>, \<open>Run\<close>, \<open>runScenario\<close>,
  \<open>invoke\<close>), \<open>selection.go\<close> and \<open>evidence.go\<close>. A callback is a function of the state it can reach: the scope and
  the rest of the world. It returns an error (or nil) or panics; the runner waits for it. A
  cleanup closure is named by a number, and what calling it does is an argument. The clock readings and
  the run-time environment that a report carries are not modelled, and \<open>msg\<close> is the
  rendering of an error by its \<open>Error\<close> method.
\<close>

subsection \<open>Data\<close>

definition Deterministic :: string where "Deterministic = []"
definition Hardware :: string where "Hardware = ''hardware''"
definition Strict :: string where "Strict = ''strict''"
definition Interactive :: string where "Interactive = ''interactive''"

record native_diag =
  dg_Operation :: string
  dg_Domain :: string
  dg_Code :: u64
  dg_Message :: string

record cleanup_result =
  cu_Complete :: bool
  cu_Errors :: "string list"

record diag_result =
  dr_ScenarioID :: string
  dr_Layer :: string
  dr_Mode :: string
  dr_Status :: diag_status
  dr_Requirements :: "string list"
  dr_Reason :: string
  dr_Cleanup :: cleanup_result
  dr_Counters :: "string \<rightharpoonup> u64"
  dr_Facts :: "string \<rightharpoonup> bool"
  dr_NativeErrors :: "native_diag list"

record scope =
  so_counters :: "string \<rightharpoonup> u64"
  so_facts :: "string \<rightharpoonup> bool"
  so_nativeErrors :: "native_diag list"
  so_cleanup :: "nat list"

text \<open>What a callback leaves: its error, or the type of the value it panicked with.\<close>

datatype outcome = Returns "err option" | Panics string

record 'w diag_state =
  ds_scope :: scope
  ds_world :: 'w

type_synonym 'w callback = "'w diag_state \<Rightarrow> outcome \<times> 'w diag_state"

text \<open>A nil callback is \<open>None\<close>.\<close>

record 'w scenario =
  sc_ID :: string
  sc_Layer :: string
  sc_Mode :: string
  sc_Requirements :: "string list"
  sc_Timeout :: int
  sc_Run :: "'w callback option"
  sc_Validate :: "(diag_result \<Rightarrow> 'w callback) option"

record diag_options =
  do_Capabilities :: "string \<Rightarrow> bool"
  do_EnabledModes :: "string \<Rightarrow> bool"
  do_CleanupTimeout :: int

text \<open>The contexts the runner polls (the caller's, the scenario's with its timeout, the one for the cleanup with
  its budget, in nanoseconds) and the cleanup closures.\<close>

record 'w diag_env =
  de_ctx_Err :: "'w \<Rightarrow> err option \<times> 'w"
  de_bounded_Err :: "int \<Rightarrow> 'w \<Rightarrow> err option \<times> 'w"
  de_cleanup_Err :: "int \<Rightarrow> 'w \<Rightarrow> err option \<times> 'w"
  de_cleanup :: "nat \<Rightarrow> 'w callback"

subsection \<open>Scope\<close>

definition scope_new :: scope where
  "scope_new = \<lparr>so_counters = Map.empty, so_facts = Map.empty, so_nativeErrors = [], so_cleanup = []\<rparr>"

definition scope_Counter :: "string \<Rightarrow> u64 \<Rightarrow> scope \<Rightarrow> scope" where
  "scope_Counter name value s = s\<lparr>so_counters := (so_counters s)(name \<mapsto> value)\<rparr>"

definition scope_Fact :: "string \<Rightarrow> bool \<Rightarrow> scope \<Rightarrow> scope" where
  "scope_Fact name value s = s\<lparr>so_facts := (so_facts s)(name \<mapsto> value)\<rparr>"

definition scope_Native :: "native_diag \<Rightarrow> scope \<Rightarrow> scope" where
  "scope_Native e s = s\<lparr>so_nativeErrors := so_nativeErrors s @ [e]\<rparr>"

definition scope_Defer :: "nat option \<Rightarrow> scope \<Rightarrow> scope" where
  "scope_Defer cleanup s = (case cleanup of None \<Rightarrow> s | Some f \<Rightarrow> s\<lparr>so_cleanup := so_cleanup s @ [f]\<rparr>)"

definition SkipReason :: "string \<Rightarrow> err" where
  "SkipReason reason = DispositionError Skip reason"

definition InconclusiveReason :: "string \<Rightarrow> err" where
  "InconclusiveReason reason = DispositionError Inconclusive reason"

definition Disposition :: "err \<Rightarrow> diag_status option" where
  "Disposition e = map_option fst (errors_as as_Disposition e)"

subsection \<open>Running\<close>

definition invoke :: "'w callback \<Rightarrow> 'w diag_state \<Rightarrow> err option \<times> 'w diag_state" where
  "invoke callback s =
     (case callback s of
        (Returns e, s') \<Rightarrow> (e, s')
      | (Panics t, s') \<Rightarrow> (Some (TextError (''diagnostics: callback panic ('' @ t @ '')'')), s'))"

definition poll :: "('w \<Rightarrow> err option \<times> 'w) \<Rightarrow> 'w diag_state \<Rightarrow> err option \<times> 'w diag_state" where
  "poll q s = (case q (ds_world s) of (e, w) \<Rightarrow> (e, s\<lparr>ds_world := w\<rparr>))"

text \<open>The loop over the registered cleanups, in the order of the list it is given: the messages of those that fail.\<close>

fun run_cleanups :: "(err \<Rightarrow> string) \<Rightarrow> (nat \<Rightarrow> 'w callback) \<Rightarrow> nat list \<Rightarrow> 'w diag_state \<Rightarrow> string list \<times> 'w diag_state" where
  "run_cleanups msg cleanup [] s = ([], s)"
| "run_cleanups msg cleanup (f # fs) s =
     (let (e, s1) = invoke (cleanup f) s;
          (errs, s2) = run_cleanups msg cleanup fs s1
      in ((case e of None \<Rightarrow> [] | Some x \<Rightarrow> [msg x]) @ errs, s2))"

definition new_result :: "'w scenario \<Rightarrow> diag_result" where
  "new_result sc =
     \<lparr>dr_ScenarioID = sc_ID sc, dr_Layer = sc_Layer sc, dr_Mode = sc_Mode sc, dr_Status = Pass,
      dr_Requirements = sc_Requirements sc, dr_Reason = [], dr_Cleanup = \<lparr>cu_Complete = False, cu_Errors = []\<rparr>,
      dr_Counters = Map.empty, dr_Facts = Map.empty, dr_NativeErrors = []\<rparr>"

definition skipped :: "string \<Rightarrow> diag_result \<Rightarrow> diag_result" where
  "skipped reason r =
     r\<lparr>dr_Status := Skip, dr_Reason := reason, dr_Cleanup := (dr_Cleanup r)\<lparr>cu_Complete := True\<rparr>\<rparr>"

text \<open>The reason to skip a scenario before an attempt.\<close>

definition skip_reason :: "'w scenario \<Rightarrow> diag_options \<Rightarrow> string option" where
  "skip_reason sc opt =
     (if sc_Mode sc \<noteq> Deterministic \<and> \<not> do_EnabledModes opt (sc_Mode sc)
      then Some (''execution mode not requested: '' @ sc_Mode sc)
      else map_option (\<lambda>requirement. ''unavailable requirement: '' @ requirement)
        (List.find (\<lambda>requirement. \<not> do_Capabilities opt requirement) (sc_Requirements sc)))"

text \<open>The attempt: the callback under its timeout, then the context of that timeout.\<close>

definition attempt :: "'w diag_env \<Rightarrow> 'w callback \<Rightarrow> int \<Rightarrow> 'w diag_state \<Rightarrow> err option \<times> 'w diag_state" where
  "attempt env run timeout s =
     (case invoke run s of
        (Some e, s1) \<Rightarrow> (Some e, s1)
      | (None, s1) \<Rightarrow> poll (de_bounded_Err env timeout) s1)"

definition attempted :: "(err \<Rightarrow> string) \<Rightarrow> err option \<Rightarrow> diag_result \<Rightarrow> diag_result" where
  "attempted msg e r =
     (case e of
        None \<Rightarrow> r
      | Some x \<Rightarrow> r\<lparr>dr_Status := (case errors_as as_Disposition x of Some (st, m) \<Rightarrow> st | None \<Rightarrow> Fail), dr_Reason := msg x\<rparr>)"

text \<open>The cleanup under its own budget, last registered first.\<close>

definition cleaned :: "(err \<Rightarrow> string) \<Rightarrow> 'w diag_env \<Rightarrow> int \<Rightarrow> diag_result \<Rightarrow> 'w diag_state \<Rightarrow> diag_result \<times> 'w diag_state" where
  "cleaned msg env budget r s =
     (let (errs, s1) = run_cleanups msg (de_cleanup env) (rev (so_cleanup (ds_scope s))) s;
          (e, s2) = poll (de_cleanup_Err env budget) s1;
          errs' = (case e of Some x \<Rightarrow> if errs = [] then [msg x] else errs | None \<Rightarrow> errs);
          r1 = r\<lparr>dr_Cleanup := \<lparr>cu_Complete = (errs' = []), cu_Errors = errs'\<rparr>\<rparr>
      in (if errs' = [] then r1
          else r1\<lparr>dr_Status := Fail, dr_Reason := (if dr_Reason r1 = [] then ''cleanup failed'' else dr_Reason r1)\<rparr>, s2))"

definition recorded :: "scope \<Rightarrow> diag_result \<Rightarrow> diag_result" where
  "recorded sco r =
     r\<lparr>dr_Counters := so_counters sco, dr_Facts := so_facts sco, dr_NativeErrors := so_nativeErrors sco\<rparr>"

definition validated :: "(err \<Rightarrow> string) \<Rightarrow> (diag_result \<Rightarrow> 'w callback) option \<Rightarrow> diag_result \<Rightarrow> 'w diag_state \<Rightarrow> diag_result \<times> 'w diag_state" where
  "validated msg validate r s =
     (case validate of
        Some v \<Rightarrow>
          if dr_Status r = Pass then
            (case invoke (v r) s of
               (None, s') \<Rightarrow> (r, s')
             | (Some e, s') \<Rightarrow> (r\<lparr>dr_Status := Fail, dr_Reason := ''evidence validation failed: '' @ msg e\<rparr>, s'))
          else (r, s)
      | None \<Rightarrow> (r, s))"

text \<open>\<open>runScenario\<close> for a scenario whose callback is \<open>run\<close>, on the world; the scope is fresh and private to the scenario.\<close>

definition runScenario ::
  "(err \<Rightarrow> string) \<Rightarrow> 'w diag_env \<Rightarrow> 'w scenario \<Rightarrow> 'w callback \<Rightarrow> diag_options \<Rightarrow> 'w \<Rightarrow> diag_result \<times> 'w" where
  "runScenario msg env sc run opt w =
     (case skip_reason sc opt of
        Some reason \<Rightarrow> (skipped reason (new_result sc), w)
      | None \<Rightarrow>
          let (e, s1) = attempt env run (sc_Timeout sc) \<lparr>ds_scope = scope_new, ds_world = w\<rparr>;
              r1 = attempted msg e (new_result sc);
              (r2, s2) = cleaned msg env (do_CleanupTimeout opt) r1 s1;
              (r3, s3) = validated msg (sc_Validate sc) (recorded (ds_scope s2) r2) s2
          in (r3, ds_world s3))"

definition valid_mode :: "string \<Rightarrow> bool" where
  "valid_mode m \<longleftrightarrow> m \<in> {Deterministic, Hardware, Strict, Interactive}"

text \<open>The check of the definitions, with the identifiers seen so far.\<close>

fun check_scenarios :: "string list \<Rightarrow> 'w scenario list \<Rightarrow> err option" where
  "check_scenarios seen [] = None"
| "check_scenarios seen (sc # scs) =
     (if sc_ID sc = [] \<or> sc_Run sc = None \<or> sc_Timeout sc \<le> 0 \<or> sc_ID sc \<in> set seen
      then Some (TextError ''diagnostics: scenarios require unique IDs, positive timeouts and callbacks'')
      else if \<not> valid_mode (sc_Mode sc) then Some (TextError ''diagnostics: unknown execution mode'')
      else check_scenarios (sc_ID sc # seen) scs)"

text \<open>The loop over the scenarios: the results, the error of \<open>finish\<close>, and the world. (A nil callback was refused by the
  check; calling it would panic, and \<open>invoke\<close> would turn that into an error.)\<close>

fun run_all ::
  "(err \<Rightarrow> string) \<Rightarrow> 'w diag_env \<Rightarrow> diag_options \<Rightarrow> 'w scenario list \<Rightarrow> 'w \<Rightarrow> diag_result list \<times> err option \<times> 'w" where
  "run_all msg env opt [] w = (case de_ctx_Err env w of (e, w') \<Rightarrow> ([], e, w'))"
| "run_all msg env opt (sc # scs) w =
     (case de_ctx_Err env w of
        (Some e, w') \<Rightarrow> ([], Some e, w')
      | (None, w') \<Rightarrow>
          let run = (case sc_Run sc of Some f \<Rightarrow> f | None \<Rightarrow> (\<lambda>s. (Panics ''runtime.errorString'', s)));
              (result, w2) = runScenario msg env sc run opt w';
              (results, e, w3) = run_all msg env opt scs w2
          in (result # results, e, w3))"

definition diagnostics_Run ::
  "(err \<Rightarrow> string) \<Rightarrow> 'w diag_env \<Rightarrow> bool \<Rightarrow> 'w scenario list \<Rightarrow> diag_options \<Rightarrow> 'w \<Rightarrow> diag_result list \<times> err option \<times> 'w" where
  "diagnostics_Run msg env ctxNil scenarios opt w =
     (if ctxNil then ([], Some (TextError ''diagnostics: context is required''), w)
      else
        let opt' = (if do_CleanupTimeout opt \<le> 0 then opt\<lparr>do_CleanupTimeout := 2000000000\<rparr> else opt)
        in case check_scenarios [] scenarios of
             Some e \<Rightarrow> ([], Some e, w)
           | None \<Rightarrow> run_all msg env opt' scenarios w)"

subsection \<open>Evidence\<close>

definition evidence_Errorf :: "string \<Rightarrow> err list \<Rightarrow> err list" where
  "evidence_Errorf message errs = errs @ [TextError message]"

definition evidence_RequireFacts :: "diag_result \<Rightarrow> string list \<Rightarrow> err list \<Rightarrow> err list" where
  "evidence_RequireFacts r names errs =
     fold (\<lambda>name es. if dr_Facts r name \<noteq> Some True then evidence_Errorf (''missing evidence '' @ name) es else es) names errs"

definition evidence_Err :: "err list \<Rightarrow> err option" where
  "evidence_Err errs = errors_join (map Some errs)"

subsection \<open>Selection\<close>

fun split_comma :: "string \<Rightarrow> string list" where
  "split_comma [] = [[]]"
| "split_comma (c # cs) =
     (if c = CHR '','' then [] # split_comma cs
      else case split_comma cs of x # xs \<Rightarrow> (c # x) # xs | [] \<Rightarrow> [[c]])"

fun check_ids :: "string list \<Rightarrow> string list \<Rightarrow> bool" where
  "check_ids seen [] = True"
| "check_ids seen (i # is) \<longleftrightarrow> \<not> (i = [] \<or> TrimSpace i \<noteq> i \<or> i \<in> set seen) \<and> check_ids (i # seen) is"

definition ParseScenarioIDs :: "string \<Rightarrow> string list res" where
  "ParseScenarioIDs input =
     (if input = [] then Inr []
      else let ids = split_comma input in
        if check_ids [] ids then Inr ids
        else Inl (TextError ''invalid or duplicate diagnostic scenario selector''))"

fun known_scenarios :: "(string \<rightharpoonup> 'w scenario) \<Rightarrow> 'w scenario list \<Rightarrow> (string \<rightharpoonup> 'w scenario) res" where
  "known_scenarios m [] = Inr m"
| "known_scenarios m (sc # scs) =
     (if m (sc_ID sc) \<noteq> None then Inl (TextError ''duplicate diagnostic scenario definition'')
      else known_scenarios (m(sc_ID sc \<mapsto> sc)) scs)"

fun select_ids :: "(string \<rightharpoonup> 'w scenario) \<Rightarrow> string list \<Rightarrow> string list \<Rightarrow> 'w scenario list res" where
  "select_ids known seen [] = Inr []"
| "select_ids known seen (i # is) =
     (case known i of
        None \<Rightarrow> Inl (TextError ''unknown diagnostic scenario ID'')
      | Some sc \<Rightarrow>
          if i \<in> set seen then Inl (TextError ''duplicate diagnostic scenario ID'')
          else case select_ids known (i # seen) is of Inl e \<Rightarrow> Inl e | Inr scs \<Rightarrow> Inr (sc # scs))"

definition Select :: "'w scenario list \<Rightarrow> string list \<Rightarrow> 'w scenario list res" where
  "Select scenarios ids =
     (if ids = [] then Inr scenarios
      else case known_scenarios Map.empty scenarios of
          Inl e \<Rightarrow> Inl e
        | Inr known \<Rightarrow> select_ids known [] ids)"

subsection \<open>What a run of the cleanups does\<close>

text \<open>The cleanups of a list all return nil, one after the other.\<close>

fun clean_run :: "(nat \<Rightarrow> 'w callback) \<Rightarrow> nat list \<Rightarrow> 'w diag_state \<Rightarrow> 'w diag_state option" where
  "clean_run cleanup [] s = Some s"
| "clean_run cleanup (f # fs) s =
     (case cleanup f s of (Returns None, s') \<Rightarrow> clean_run cleanup fs s' | _ \<Rightarrow> None)"

lemma invoke_nil: "invoke f s = (None, s') \<longleftrightarrow> f s = (Returns None, s')"
  by (auto simp: invoke_def split: prod.splits outcome.splits)

lemma invoke_state [simp]: "snd (invoke f s) = snd (f s)"
  by (auto simp: invoke_def split: prod.splits outcome.splits)

lemma run_cleanups_clean: "run_cleanups msg cleanup fs s = ([], s') \<longleftrightarrow> clean_run cleanup fs s = Some s'"
proof (induction fs arbitrary: s)
  case (Cons f fs)
  obtain e s1 where i: "invoke (cleanup f) s = (e, s1)" by fastforce
  show ?case
  proof (cases e)
    case None
    with i have "cleanup f s = (Returns None, s1)" by (simp add: invoke_nil)
    with Cons [of s1] i None show ?thesis by (auto split: prod.splits)
  next
    case (Some x)
    with i have "\<nexists>s'. cleanup f s = (Returns None, s')" using invoke_nil [of "cleanup f" s] by auto
    with i Some show ?thesis by (auto split: prod.splits outcome.splits option.splits)
  qed
qed simp

text \<open>Every cleanup is called once, whatever the others return.\<close>

lemma run_cleanups_state: "snd (run_cleanups msg cleanup fs s) = fold (\<lambda>f s. snd (cleanup f s)) fs s"
proof (induction fs arbitrary: s)
  case (Cons f fs)
  obtain e s1 errs s2 where r: "invoke (cleanup f) s = (e, s1)" "run_cleanups msg cleanup fs s1 = (errs, s2)" by fastforce
  with invoke_state [of "cleanup f" s] Cons [of s1] show ?case by simp
qed simp

lemma cleaned_state:
  "snd (cleaned msg env budget r s) =
     snd (poll (de_cleanup_Err env budget) (fold (\<lambda>f s. snd (de_cleanup env f s)) (rev (so_cleanup (ds_scope s))) s))"
  using run_cleanups_state [of msg "de_cleanup env" "rev (so_cleanup (ds_scope s))" s]
  by (auto simp: cleaned_def Let_def split: prod.splits)

lemma cleaned_complete:
  "cu_Complete (dr_Cleanup (fst (cleaned msg env budget r s))) \<longleftrightarrow>
     (\<exists>s1 s2. clean_run (de_cleanup env) (rev (so_cleanup (ds_scope s))) s = Some s1 \<and>
       poll (de_cleanup_Err env budget) s1 = (None, s2))"
  using run_cleanups_clean [of msg "de_cleanup env" "rev (so_cleanup (ds_scope s))" s]
  by (auto simp: cleaned_def Let_def split: prod.splits option.splits if_splits) blast+

lemma cleaned_status:
  "dr_Status (fst (cleaned msg env budget r s)) = Pass \<longleftrightarrow>
     dr_Status r = Pass \<and> cu_Complete (dr_Cleanup (fst (cleaned msg env budget r s)))"
  by (auto simp: cleaned_def Let_def split: prod.splits option.splits if_splits)

lemma attempted_status:
  "(\<And>x. e = Some x \<Longrightarrow> Disposition x \<noteq> Some Pass) \<Longrightarrow> dr_Status (attempted msg e (new_result sc)) = Pass \<longleftrightarrow> e = None"
  by (auto simp: attempted_def new_result_def Disposition_def split: option.splits prod.splits)

lemma validated_status:
  "dr_Status (fst (validated msg v r s)) = Pass \<longleftrightarrow>
     dr_Status r = Pass \<and> (\<forall>f. v = Some f \<longrightarrow> (\<exists>s'. f r s = (Returns None, s')))"
  by (auto simp: validated_def invoke_nil split: option.splits prod.splits)
    (metis invoke_nil option.distinct(1) prod.inject)+

text \<open>A result with its verdict taken off, which the validator cannot change.\<close>

definition evidence_of :: "diag_result \<Rightarrow> diag_result" where
  "evidence_of r = r\<lparr>dr_Status := Pass, dr_Reason := []\<rparr>"

lemma validated_evidence: "evidence_of (fst (validated msg v r s)) = evidence_of r"
  by (auto simp: validated_def evidence_of_def split: option.splits prod.splits if_splits)

lemma clean_evidence:
  assumes "dr_Status (fst (cleaned msg env budget (attempted msg None (new_result sc)) s)) = Pass"
  shows "evidence_of (recorded sco (fst (cleaned msg env budget (attempted msg None (new_result sc)) s))) =
    recorded sco (fst (cleaned msg env budget (attempted msg None (new_result sc)) s))"
  using assms by (auto simp: cleaned_def evidence_of_def recorded_def attempted_def new_result_def Let_def split: prod.splits option.splits if_splits)

lemma recorded_simps [simp]:
  "dr_Status (recorded sco r) = dr_Status r" "dr_Cleanup (recorded sco r) = dr_Cleanup r"
  by (simp_all add: recorded_def)

text \<open>The result of a scenario that is attempted, stage by stage.\<close>

lemma runScenario_result:
  assumes "runScenario msg env sc run opt w = (r, w')" "skip_reason sc opt = None"
    and "attempt env run (sc_Timeout sc) \<lparr>ds_scope = scope_new, ds_world = w\<rparr> = (e, s1)"
  defines "c \<equiv> cleaned msg env (do_CleanupTimeout opt) (attempted msg e (new_result sc)) s1"
  shows "r = fst (validated msg (sc_Validate sc) (recorded (ds_scope (snd c)) (fst c)) (snd c))"
  using assms by (simp add: runScenario_def Let_def split: prod.splits)

subsection \<open>Selecting scenarios\<close>

lemma check_ids_iff: "check_ids seen ids \<longleftrightarrow> distinct ids \<and> set ids \<inter> set seen = {} \<and> (\<forall>i \<in> set ids. i \<noteq> [] \<and> TrimSpace i = i)"
  by (induction ids arbitrary: seen) auto

fun join_comma :: "string list \<Rightarrow> string" where
  "join_comma [] = []"
| "join_comma [x] = x"
| "join_comma (x # y # xs) = x @ CHR '','' # join_comma (y # xs)"

lemma split_comma_ne [simp]: "split_comma s \<noteq> []"
  by (induction s) (auto split: list.splits)

lemma join_split: "join_comma (split_comma s) = s"
proof (induction s)
  case (Cons c cs)
  obtain x xs where x: "split_comma cs = x # xs" by (cases "split_comma cs") auto
  with Cons show ?case by (cases xs) auto
qed simp

lemma split_no_comma: "x \<in> set (split_comma s) \<Longrightarrow> CHR '','' \<notin> set x"
  by (induction s arbitrary: x) (auto split: list.splits if_splits)

lemma split_word: "CHR '','' \<notin> set x \<Longrightarrow> split_comma x = [x]"
  by (induction x) auto

lemma split_append: "CHR '','' \<notin> set x \<Longrightarrow> split_comma (x @ CHR '','' # s) = x # split_comma s"
  by (induction x) auto

lemma split_join: "ids \<noteq> [] \<Longrightarrow> \<forall>i \<in> set ids. CHR '','' \<notin> set i \<Longrightarrow> split_comma (join_comma ids) = ids"
  by (induction ids rule: join_comma.induct) (auto simp: split_word split_append)

lemma known_scenarios_ok:
  "known_scenarios m scs = Inr known \<Longrightarrow>
     distinct (map sc_ID scs) \<and> (\<forall>sc \<in> set scs. m (sc_ID sc) = None) \<and> known = m ++ map_of (map (\<lambda>sc. (sc_ID sc, sc)) scs)"
proof (induction scs arbitrary: m)
  case (Cons sc scs)
  then have k: "known_scenarios (m(sc_ID sc \<mapsto> sc)) scs = Inr known" and m: "m (sc_ID sc) = None"
    by (auto split: if_splits)
  have ih: "distinct (map sc_ID scs)" "\<forall>x \<in> set scs. (m(sc_ID sc \<mapsto> sc)) (sc_ID x) = None"
    "known = m(sc_ID sc \<mapsto> sc) ++ map_of (map (\<lambda>sc. (sc_ID sc, sc)) scs)"
    using Cons.IH [OF k] by blast+
  have "sc_ID sc \<notin> sc_ID ` set scs" using ih(2) by force
  then have "sc_ID sc \<notin> dom (map_of (map (\<lambda>sc. (sc_ID sc, sc)) scs))" by (simp add: dom_map_of_conv_image_fst image_image)
  then have "known = m ++ map_of (map (\<lambda>sc. (sc_ID sc, sc)) (sc # scs))"
    unfolding ih(3) by (auto simp: fun_eq_iff map_add_def split: option.splits)
  moreover have "distinct (map sc_ID (sc # scs))" "\<forall>x \<in> set (sc # scs). m (sc_ID x) = None"
    using ih(1,2) m by (auto split: if_splits)
  ultimately show ?case by blast
qed simp

lemma select_ids_ok:
  "select_ids known seen ids = Inr scs \<Longrightarrow> distinct ids \<and> set ids \<inter> set seen = {} \<and> map Some scs = map known ids"
proof (induction ids arbitrary: seen scs)
  case (Cons i ids)
  from Cons.prems obtain sc rest where c: "known i = Some sc" "i \<notin> set seen" "select_ids known (i # seen) ids = Inr rest" "scs = sc # rest"
    by (auto split: option.splits if_splits sum.splits)
  with Cons.IH [OF c(3)] show ?case by auto
qed simp

lemma Select_ids: "Select scs ids = Inr sel \<Longrightarrow> ids \<noteq> [] \<Longrightarrow> map sc_ID sel = ids \<and> set sel \<subseteq> set scs \<and> distinct ids"
proof -
  assume "Select scs ids = Inr sel" "ids \<noteq> []"
  then obtain known where k: "known_scenarios Map.empty scs = Inr known" "select_ids known [] ids = Inr sel"
    by (auto simp: Select_def split: sum.splits)
  have known: "known = map_of (map (\<lambda>sc. (sc_ID sc, sc)) scs)" using known_scenarios_ok [OF k(1)] by simp
  have in_set: "sc \<in> set scs \<and> sc_ID sc = i" if "known i = Some sc" for i sc
    using that map_of_SomeD [of "map (\<lambda>sc. (sc_ID sc, sc)) scs" i sc] by (auto simp: known)
  have m: "map Some sel = map known ids" "distinct ids" using select_ids_ok [OF k(2)] by auto
  have len: "length sel = length ids" using arg_cong [OF m(1), of length] by simp
  have nth: "sel ! j \<in> set scs \<and> sc_ID (sel ! j) = ids ! j" if "j < length sel" for j
    using that len arg_cong [OF m(1), of "\<lambda>xs. xs ! j"] by (intro in_set) simp
  have "map sc_ID sel = ids" by (rule nth_equalityI) (use len nth in auto)
  moreover have "set sel \<subseteq> set scs" using nth by (auto simp: in_set_conv_nth)
  ultimately show ?thesis using m(2) by simp
qed

subsection \<open>The whole run\<close>

text \<open>Scenario definitions that \<open>Run\<close> accepts.\<close>

definition well_formed :: "'w scenario list \<Rightarrow> bool" where
  "well_formed scs \<longleftrightarrow> distinct (map sc_ID scs) \<and>
     (\<forall>sc \<in> set scs. sc_ID sc \<noteq> [] \<and> sc_Run sc \<noteq> None \<and> sc_Timeout sc > 0 \<and> valid_mode (sc_Mode sc))"

lemma check_scenarios_iff:
  "check_scenarios seen scs = None \<longleftrightarrow> well_formed scs \<and> set (map sc_ID scs) \<inter> set seen = {}"
  by (induction scs arbitrary: seen) (auto simp: well_formed_def)

lemma stage_ID:
  "dr_ScenarioID (attempted msg e r) = dr_ScenarioID r" "dr_ScenarioID (fst (cleaned msg env b r s)) = dr_ScenarioID r"
  "dr_ScenarioID (recorded sco r) = dr_ScenarioID r" "dr_ScenarioID (fst (validated msg v r s)) = dr_ScenarioID r"
  "dr_ScenarioID (skipped reason r) = dr_ScenarioID r"
  by (simp_all add: attempted_def cleaned_def recorded_def validated_def skipped_def Let_def split: option.split prod.split)

lemma runScenario_ID: "runScenario msg env sc run opt w = (r, w') \<Longrightarrow> dr_ScenarioID r = sc_ID sc"
proof (cases "skip_reason sc opt")
  case (Some reason)
  moreover assume "runScenario msg env sc run opt w = (r, w')"
  ultimately show ?thesis by (auto simp: runScenario_def stage_ID new_result_def)
next
  case None
  assume run: "runScenario msg env sc run opt w = (r, w')"
  obtain e s1 where att: "attempt env run (sc_Timeout sc) \<lparr>ds_scope = scope_new, ds_world = w\<rparr> = (e, s1)" by fastforce
  show ?thesis unfolding runScenario_result [OF run None att] by (simp add: stage_ID new_result_def)
qed

lemma run_all_results:
  "run_all msg env opt scs w = (rs, e, w') \<Longrightarrow>
     prefix (map dr_ScenarioID rs) (map sc_ID scs) \<and> (e = None \<longrightarrow> length rs = length scs)"
proof (induction scs arbitrary: w rs)
  case Nil
  then show ?case by (auto split: prod.splits)
next
  case (Cons sc scs)
  show ?case
  proof (cases "de_ctx_Err env w")
    case (Pair q w1)
    show ?thesis
    proof (cases q)
      case None
      let ?run = "case sc_Run sc of Some f \<Rightarrow> f | None \<Rightarrow> (\<lambda>s. (Panics ''runtime.errorString'', s))"
      obtain r w2 where r: "runScenario msg env sc ?run opt w1 = (r, w2)" by fastforce
      obtain rest e' w3 where rest: "run_all msg env opt scs w2 = (rest, e', w3)" by (metis prod_cases3)
      have "rs = r # rest" "e' = e" "w3 = w'" using Cons.prems Pair None r rest by (auto simp: Let_def split: prod.splits)
      with Cons.IH [of w2 rest] rest runScenario_ID [OF r] show ?thesis by simp
    qed (use Cons.prems Pair in auto)
  qed
qed

subsection \<open>Properties\<close>


text \<open>A scenario that records a fact, registers two cleanups and passes; the second cleanup must run before the first.\<close>

definition sample_env :: "nat list diag_env" where
  "sample_env =
     \<lparr>de_ctx_Err = (\<lambda>w. (None, w)), de_bounded_Err = (\<lambda>_ w. (None, w)), de_cleanup_Err = (\<lambda>_ w. (None, w)),
      de_cleanup = (\<lambda>f s. (Returns None, s\<lparr>ds_world := ds_world s @ [f]\<rparr>))\<rparr>"

definition sample_run :: "nat list callback" where
  "sample_run s = (Returns None, s\<lparr>ds_scope := scope_Fact ''ok'' True (scope_Defer (Some 2) (scope_Defer (Some 1) (ds_scope s)))\<rparr>)"

definition sample_scenario :: "nat list scenario" where
  "sample_scenario =
     \<lparr>sc_ID = ''a'', sc_Layer = [], sc_Mode = Deterministic, sc_Requirements = [], sc_Timeout = 1, sc_Run = Some sample_run,
      sc_Validate = Some (\<lambda>r s. (Returns (evidence_Err (evidence_RequireFacts r [''ok''] [])), s))\<rparr>"

definition sample_options :: diag_options where
  "sample_options = \<lparr>do_Capabilities = (\<lambda>_. False), do_EnabledModes = (\<lambda>_. False), do_CleanupTimeout = 1\<rparr>"

lemmas sample_diag_defs = sample_env_def sample_run_def sample_scenario_def sample_options_def skip_reason_def Deterministic_def
  attempt_def invoke_def poll_def scope_new_def scope_Fact_def scope_Defer_def


text \<open>The run as a whole: \<open>Run\<close> executes nothing when the context is nil or a definition is malformed (an empty or repeated
  identifier, no callback, a timeout that is not positive, an unknown mode); otherwise it reports each scenario once,
  in order, and stops early only when the caller's context has ended, which it returns.\<close>

theorem diagnostics_run_complete:
  assumes "diagnostics_Run msg env ctxNil scs opt w = (rs, e, w')"
  shows "if ctxNil \<or> \<not> well_formed scs then rs = [] \<and> e \<noteq> None \<and> w' = w
    else prefix (map dr_ScenarioID rs) (map sc_ID scs) \<and> distinct (map dr_ScenarioID rs) \<and> (e = None \<longrightarrow> map dr_ScenarioID rs = map sc_ID scs)"
proof (cases "ctxNil \<or> \<not> well_formed scs")
  case True
  then have "\<exists>x. diagnostics_Run msg env ctxNil scs opt w = ([], Some x, w)"
    using check_scenarios_iff [of "[]" scs] by (cases ctxNil) (auto simp: diagnostics_Run_def)
  with assms True show ?thesis by auto
next
  case False
  then have "check_scenarios [] scs = None" by (simp add: check_scenarios_iff)
  with assms False obtain opt' where "run_all msg env opt' scs w = (rs, e, w')"
    by (auto simp: diagnostics_Run_def Let_def)
  from run_all_results [OF this] have p: "prefix (map dr_ScenarioID rs) (map sc_ID scs)" "e = None \<Longrightarrow> length rs = length scs" by auto
  from p(1) obtain zs where "map sc_ID scs = map dr_ScenarioID rs @ zs" by (auto elim: prefixE)
  moreover from this have "distinct (map dr_ScenarioID rs @ zs)" using False by (simp add: well_formed_def)
  moreover have "zs = []" if "e = None" using p(2) [OF that] arg_cong [OF calculation(1), of length] by simp
  ultimately show ?thesis using False p(1) by auto
qed

theorem diagnostics_run_complete_witness:
  "\<exists>rs w'. diagnostics_Run (\<lambda>_. ''e'') sample_env False [sample_scenario] sample_options [] = (rs, None, w') \<and>
     map dr_ScenarioID rs = [''a'']"
proof -
  obtain rs e w' where r: "diagnostics_Run (\<lambda>_. ''e'') sample_env False [sample_scenario] sample_options [] = (rs, e, w')"
    by (metis prod_cases3)
  have "e = None" using r
    by (auto simp: diagnostics_Run_def valid_mode_def Let_def sample_scenario_def sample_env_def sample_options_def Deterministic_def split: prod.splits)
  with diagnostics_run_complete [OF r] r show ?thesis
    by (auto simp: well_formed_def valid_mode_def sample_scenario_def)
qed

text \<open>Scenario selectors: \<open>ParseScenarioIDs\<close> returns a non-empty list exactly for the comma-separated form of
  distinct identifiers that are not empty and have no comma and no surrounding white space.\<close>

theorem selector_exact:
  assumes "ids \<noteq> []"
  shows "ParseScenarioIDs input = Inr ids \<longleftrightarrow>
    input = join_comma ids \<and> distinct ids \<and> (\<forall>i \<in> set ids. i \<noteq> [] \<and> TrimSpace i = i \<and> CHR '','' \<notin> set i)"
proof
  assume "ParseScenarioIDs input = Inr ids"
  with assms have "ids = split_comma input" "check_ids [] ids" by (auto simp: ParseScenarioIDs_def Let_def split: if_splits)
  then show "input = join_comma ids \<and> distinct ids \<and> (\<forall>i \<in> set ids. i \<noteq> [] \<and> TrimSpace i = i \<and> CHR '','' \<notin> set i)"
    using join_split [of input] split_no_comma [of _ input] by (auto simp: check_ids_iff)
next
  assume r: "input = join_comma ids \<and> distinct ids \<and> (\<forall>i \<in> set ids. i \<noteq> [] \<and> TrimSpace i = i \<and> CHR '','' \<notin> set i)"
  then have "split_comma input = ids" using assms by (simp add: split_join)
  moreover have "input \<noteq> []" using r assms by (cases ids rule: join_comma.cases) auto
  ultimately show "ParseScenarioIDs input = Inr ids" using r by (simp add: ParseScenarioIDs_def check_ids_iff)
qed

end
