(* ===== verification/NativeDriver.thy ===== *)
theory NativeDriver
  imports GoIO HidNative ReportDesc GoPath
begin

text \<open>
  What the native HID drivers share: the error values and the metadata comparison that each of the packages under
  \<open>pkg/hid/internal\<close> declares in the same words, the contract between a driver's \<open>Open\<close> and the portable layer, and rules
  for code that opens and closes native resources.
\<close>

subsection \<open>Values and errors\<close>

definition MaxInventoryDevices :: nat where "MaxInventoryDevices = 128"

abbreviation unknown_text :: "string field" where
  "unknown_text \<equiv> \<lparr>fd_Value = [], fd_Known = False\<rparr>"

abbreviation known :: "'a \<Rightarrow> 'a field" where
  "known v \<equiv> \<lparr>fd_Value = v, fd_Known = True\<rparr>"

definition zero_endpoint :: endpoint where
  "zero_endpoint =
     \<lparr>ep_ID = [], ep_Path = [], ep_VendorID = \<lparr>fd_Value = 0, fd_Known = False\<rparr>,
      ep_ProductID = \<lparr>fd_Value = 0, fd_Known = False\<rparr>,
      ep_Usage = \<lparr>fd_Value = \<lparr>us_Page = 0, us_ID = 0\<rparr>, fd_Known = False\<rparr>,
      ep_Interface = \<lparr>fd_Value = 0, fd_Known = False\<rparr>, ep_Bus = BusUnknown, ep_Serial = unknown_text,
      ep_Manufacturer = unknown_text, ep_Product = unknown_text\<rparr>"

definition driver_unsupported :: "string \<Rightarrow> err" where
  "driver_unsupported message = DriverError ''qualify'' KindUnsupported [] 0 message None"

definition driver_resourceLimit :: "string \<Rightarrow> err" where
  "driver_resourceLimit message = DriverError ''enumerate'' KindResourceLimit [] 0 message None"

definition driver_stale :: "string \<Rightarrow> err" where
  "driver_stale message = DriverError ''open'' KindStaleEndpoint [] 0 message None"

definition driver_error :: "string \<Rightarrow> driver_kind \<Rightarrow> string \<Rightarrow> err" where
  "driver_error op kind message = DriverError op kind [] 0 message None"

definition driver_matches :: "endpoint \<Rightarrow> endpoint \<Rightarrow> bool" where
  "driver_matches want got \<longleftrightarrow>
     (\<not> fd_Known (ep_VendorID want) \<or> ep_VendorID got = ep_VendorID want) \<and>
     (\<not> fd_Known (ep_ProductID want) \<or> ep_ProductID got = ep_ProductID want) \<and>
     (\<not> fd_Known (ep_Usage want) \<or> ep_Usage got = ep_Usage want) \<and>
     (\<not> fd_Known (ep_Interface want) \<or> ep_Interface got = ep_Interface want) \<and>
     (ep_Bus want = BusUnknown \<or> ep_Bus got = ep_Bus want) \<and>
     (\<not> fd_Known (ep_Serial want) \<or> ep_Serial got = ep_Serial want) \<and>
     (\<not> fd_Known (ep_Manufacturer want) \<or> ep_Manufacturer got = ep_Manufacturer want) \<and>
     (\<not> fd_Known (ep_Product want) \<or> ep_Product got = ep_Product want)"

lemma matches_core:
  "driver_matches want got \<Longrightarrow> ep_ID want = ep_ID got \<Longrightarrow> ep_Path want = [] \<or> ep_Path want = ep_Path got \<Longrightarrow>
   matchesEndpoint want got"
  by (auto simp: driver_matches_def matchesEndpoint_def matchesField_def)

subsection \<open>The contract of a driver\<close>

text \<open>What the portable layer checks of a device that a driver's \<open>Open\<close> returns: the metadata agree with the requested
  endpoint and both report sizes are within bounds. A driver that promises it never has a device refused by the layer:
  the worker of \<open>Native.Open\<close> hands the connection over unless its caller has left.\<close>

locale hid_driver =
  fixes driver_open :: "endpoint \<Rightarrow> ('w, 'd) io" and dev_endpoint :: "'d \<Rightarrow> endpoint" and dev_layout :: "'d \<Rightarrow> report_layout"
  assumes accepted: "io_post (driver_open ep) (\<lambda>d. device_accepted ep \<lparr>nd_endpoint = dev_endpoint d, nd_layout = dev_layout d\<rparr>)"
begin

lemma validated:
  "driver_open ep w = Some (Inr d, w') \<Longrightarrow> open_validate ep (Some \<lparr>nd_endpoint = dev_endpoint d, nd_layout = dev_layout d\<rparr>) None = None"
  using io_postD [OF accepted] by (simp add: open_validate_None)

lemma handed_over:
  assumes "driver_open (op_endpoint c) w = Some (Inr d, w')" and "\<not> op_abandoned c"
  shows "op_conn (open_decide (Some \<lparr>nd_endpoint = dev_endpoint d, nd_layout = dev_layout d\<rparr>)
      (open_validate (op_endpoint c) (Some \<lparr>nd_endpoint = dev_endpoint d, nd_layout = dev_layout d\<rparr>) None) c) =
    Some (conn_start (dev_layout d) (op_id c))"
  using assms by (simp add: validated open_decide_def)

end

subsection \<open>Native resources\<close>

text \<open>The native resources in use are a set \<open>fds\<close> of the world. \<open>opens\<close>: a call that fails leaves it alone, and one that
  succeeds adds the resource of its result. \<open>closes\<close>: closing removes the resource of the handle, whatever the error.\<close>

definition opens :: "('w \<Rightarrow> 'r set) \<Rightarrow> ('a \<Rightarrow> 'r) \<Rightarrow> ('w, 'a) io \<Rightarrow> bool" where
  "opens fds sel m \<longleftrightarrow>
     (\<forall>w r w'. m w = Some (r, w') \<longrightarrow>
        (case r of Inl e \<Rightarrow> fds w' = fds w | Inr x \<Rightarrow> sel x \<notin> fds w \<and> fds w' = insert (sel x) (fds w)))"

definition closes :: "('w \<Rightarrow> 'r set) \<Rightarrow> ('h \<Rightarrow> 'r) \<Rightarrow> ('h \<Rightarrow> 'w \<Rightarrow> 'e \<times> 'w) \<Rightarrow> bool" where
  "closes fds con c \<longleftrightarrow> (\<forall>h w. fds (snd (c h w)) = fds w - {con h})"

text \<open>A file that is opened and closed by a deferred call.\<close>

lemma keeps_defer:
  assumes c: "closes fds con c" and a: "opens fds (\<lambda>x. con (h x)) a" and b: "\<And>x. io_keeps fds (b x)"
  shows "io_keeps fds (io_bind a (\<lambda>x. io_defer (c (h x)) (b x)))"
  unfolding io_keeps_def
proof (intro allI impI)
  fix w r w' assume "io_bind a (\<lambda>x. io_defer (c (h x)) (b x)) w = Some (r, w')"
  then consider e where "a w = Some (Inl e, w')"
    | x w1 w2 where "a w = Some (Inr x, w1)" "b x w1 = Some (r, w2)" "w' = snd (c (h x) w2)"
    by (auto simp: io_bind_conv io_defer_conv)
  then show "fds w' = fds w"
  proof cases
    case 1
    with a show ?thesis by (fastforce simp: opens_def)
  next
    case (2 x w1 w2)
    with a have "con (h x) \<notin> fds w" "fds w1 = insert (con (h x)) (fds w)" by (fastforce simp: opens_def)+
    with c 2(3) io_keepsD [OF b 2(2)] show ?thesis by (simp add: closes_def)
  qed
qed

lemma opens_prim: "opens fds sel (io_fail e)"
  by (simp add: opens_def)

lemma opens_if: "opens fds sel m \<Longrightarrow> opens fds sel n \<Longrightarrow> opens fds sel (if b then m else n)"
  by simp

lemma opens_bind: "io_keeps fds m \<Longrightarrow> (\<And>x. opens fds sel (k x)) \<Longrightarrow> opens fds sel (io_bind m k)"
  unfolding opens_def io_keeps_def io_bind_conv by (fastforce split: sum.splits)

lemma opens_wrap: "opens fds sel m \<Longrightarrow> opens fds sel (io_wrap g m)"
  unfolding opens_def io_wrap_conv by (fastforce split: sum.splits)

text \<open>A descriptor that is handed to the result, and closed when the rest fails.\<close>

lemma opens_on_error:
  assumes c: "closes fds con c" and a: "opens fds (\<lambda>x. con (h x)) a"
    and b: "\<And>x. io_keeps fds (b x)" "\<And>x w y w'. b x w = Some (Inr y, w') \<Longrightarrow> sel' y = con (h x)"
  shows "opens fds sel' (io_bind a (\<lambda>x. io_on_error (c (h x)) (b x)))"
  unfolding opens_def
proof (intro allI impI)
  fix w r w' assume "io_bind a (\<lambda>x. io_on_error (c (h x)) (b x)) w = Some (r, w')"
  then consider e where "a w = Some (Inl e, w')" "r = Inl e"
    | x w1 y where "a w = Some (Inr x, w1)" "b x w1 = Some (Inr y, w')" "r = Inr y"
    | x w1 e w2 where "a w = Some (Inr x, w1)" "b x w1 = Some (Inl e, w2)" "r = Inl e" "w' = snd (c (h x) w2)"
    by (auto simp: io_bind_conv io_on_error_conv)
  then show "case r of Inl e \<Rightarrow> fds w' = fds w | Inr x \<Rightarrow> sel' x \<notin> fds w \<and> fds w' = insert (sel' x) (fds w)"
  proof cases
    case 1
    with a show ?thesis by (fastforce simp: opens_def)
  next
    case (2 x w1 y)
    with a have "con (h x) \<notin> fds w" "fds w1 = insert (con (h x)) (fds w)" by (fastforce simp: opens_def)+
    with 2 b(2) [OF 2(2)] io_keepsD [OF b(1) 2(2)] show ?thesis by simp
  next
    case (3 x w1 e w2)
    with a have "con (h x) \<notin> fds w" "fds w1 = insert (con (h x)) (fds w)" by (fastforce simp: opens_def)+
    with 3 c io_keepsD [OF b(1) 3(2)] show ?thesis by (simp add: closes_def)
  qed
qed

text \<open>A descriptor that is only held meanwhile.\<close>

lemma opens_defer:
  assumes c: "closes fds con c" and a: "opens fds (\<lambda>x. con (h x)) a" and b: "\<And>x. opens fds sel' (b x)"
  shows "opens fds sel' (io_bind a (\<lambda>x. io_defer (c (h x)) (b x)))"
  unfolding opens_def
proof (intro allI impI)
  fix w r w' assume "io_bind a (\<lambda>x. io_defer (c (h x)) (b x)) w = Some (r, w')"
  then consider e where "a w = Some (Inl e, w')" "r = Inl e"
    | x w1 w2 where "a w = Some (Inr x, w1)" "b x w1 = Some (r, w2)" "w' = snd (c (h x) w2)"
    by (auto simp: io_bind_conv io_defer_conv)
  then show "case r of Inl e \<Rightarrow> fds w' = fds w | Inr x \<Rightarrow> sel' x \<notin> fds w \<and> fds w' = insert (sel' x) (fds w)"
  proof cases
    case 1
    with a show ?thesis by (fastforce simp: opens_def)
  next
    case (2 x w1 w2)
    with a have "con (h x) \<notin> fds w" "fds w1 = insert (con (h x)) (fds w)" by (fastforce simp: opens_def)+
    moreover have "case r of Inl e \<Rightarrow> fds w2 = fds w1 | Inr y \<Rightarrow> sel' y \<notin> fds w1 \<and> fds w2 = insert (sel' y) (fds w1)"
      using b 2(2) by (simp add: opens_def)
    moreover have "fds w' = fds w2 - {con (h x)}" using c 2(3) by (simp add: closes_def)
    ultimately show ?thesis by (auto split: sum.splits)
  qed
qed

end
