(* ===== verification/GoEncoding.thy ===== *)
theory GoEncoding
  imports GoPath GoStrings
begin

text \<open>
  The text encodings of bytes that the command line accepts and prints: \<open>encoding/hex\<close> and \<open>encoding/base64\<close>, with the
  round trips of their decoders.
\<close>

subsection \<open>encoding/hex\<close>

definition hex_char :: "nat \<Rightarrow> char" where
  "hex_char d = ''0123456789abcdef'' ! d"

definition hex_value :: "char \<Rightarrow> nat option" where
  "hex_value c = (case digit_value c of None \<Rightarrow> None | Some d \<Rightarrow> if d < 16 then Some d else None)"

text \<open>\<open>hex.EncodeToString\<close>, which is also the verb \<open>x\<close> for a byte slice, and \<open>hex.DecodeString\<close>.\<close>

definition hex_encode :: "bytes \<Rightarrow> string" where
  "hex_encode bs = concat (map (\<lambda>b. [hex_char (unat b div 16), hex_char (unat b mod 16)]) bs)"

fun hex_decode :: "string \<Rightarrow> bytes option" where
  "hex_decode [] = Some []"
| "hex_decode [c] = None"
| "hex_decode (c # d # s) =
     (case (hex_value c, hex_value d) of
        (Some h, Some l) \<Rightarrow> map_option (\<lambda>bs. of_nat (h * 16 + l) # bs) (hex_decode s)
      | _ \<Rightarrow> None)"

lemma hex_value_char: "d < 16 \<Longrightarrow> hex_value (hex_char d) = Some d"
proof -
  have "list_all (\<lambda>d. hex_value (hex_char d) = Some d) [0..<16]" by code_simp
  then show "d < 16 \<Longrightarrow> hex_value (hex_char d) = Some d" by (simp add: list_all_iff)
qed

lemma byte_bound: "unat (b :: byte) < 256"
  using unsigned_less [of b] by simp

lemma hex_roundtrip: "hex_decode (hex_encode bs) = Some bs"
proof (induction bs)
  case (Cons b bs)
  have "unat b div 16 < 16" using byte_bound [of b] by linarith
  moreover have "of_nat (unat b div 16 * 16 + unat b mod 16) = b" by simp
  ultimately show ?case using Cons by (simp add: hex_encode_def hex_value_char)
qed (simp add: hex_encode_def)

subsection \<open>encoding/base64\<close>

text \<open>The alphabet: the capitals, the small letters, the digits, plus and slash.\<close>

definition b64_char :: "nat \<Rightarrow> char" where
  "b64_char d = char_of (if d < 26 then d + 65 else if d < 52 then d + 71 else if d < 62 then d - 4 else if d = 62 then 43 else 47)"

definition b64_value :: "char \<Rightarrow> nat option" where
  "b64_value c =
     (let n = of_char c :: nat in
      if 65 \<le> n \<and> n \<le> 90 then Some (n - 65)
      else if 97 \<le> n \<and> n \<le> 122 then Some (n - 71)
      else if 48 \<le> n \<and> n \<le> 57 then Some (n + 4)
      else if n = 43 then Some 62
      else if n = 47 then Some 63
      else None)"

text \<open>The bytes of two, three and four digits.\<close>

definition b64_one :: "nat \<Rightarrow> nat \<Rightarrow> byte" where
  "b64_one a b = of_nat (a * 4 + b div 16)"

definition b64_two :: "nat \<Rightarrow> nat \<Rightarrow> byte" where
  "b64_two b c = of_nat (b mod 16 * 16 + c div 4)"

definition b64_three :: "nat \<Rightarrow> nat \<Rightarrow> byte" where
  "b64_three c d = of_nat (c mod 4 * 64 + d)"

definition b64_tail2 :: "char \<Rightarrow> char \<Rightarrow> bytes option" where
  "b64_tail2 a b = (case (b64_value a, b64_value b) of (Some x, Some y) \<Rightarrow> Some [b64_one x y] | _ \<Rightarrow> None)"

definition b64_tail3 :: "char \<Rightarrow> char \<Rightarrow> char \<Rightarrow> bytes option" where
  "b64_tail3 a b c =
     (case (b64_value a, b64_value b, b64_value c) of
        (Some x, Some y, Some z) \<Rightarrow> Some [b64_one x y, b64_two y z]
      | _ \<Rightarrow> None)"

text \<open>The decoder without and with padding, on a text without line breaks. Bits of the last digit that carry no data are
  ignored.\<close>

fun b64_digits :: "bool \<Rightarrow> string \<Rightarrow> bytes option" where
  "b64_digits padded [] = Some []"
| "b64_digits padded [a] = None"
| "b64_digits padded [a, b] = (if padded then None else b64_tail2 a b)"
| "b64_digits padded [a, b, c] = (if padded then None else b64_tail3 a b c)"
| "b64_digits padded (a # b # c # d # s) =
     (if padded \<and> d = CHR ''='' then
        (if s \<noteq> [] then None else if c = CHR ''='' then b64_tail2 a b else b64_tail3 a b c)
      else case (b64_value a, b64_value b, b64_value c, b64_value d) of
        (Some w, Some x, Some y, Some z) \<Rightarrow>
          map_option (\<lambda>bs. b64_one w x # b64_two x y # b64_three y z # bs) (b64_digits padded s)
      | _ \<Rightarrow> None)"

text \<open>\<open>StdEncoding.DecodeString\<close> and \<open>RawStdEncoding.DecodeString\<close>; both skip line breaks.\<close>

definition b64_decode :: "bool \<Rightarrow> string \<Rightarrow> bytes option" where
  "b64_decode padded s = b64_digits padded (filter (\<lambda>c. c \<noteq> CHR 0x0A \<and> c \<noteq> CHR 0x0D) s)"

text \<open>The encoder, as the reference for the decoder.\<close>

fun b64_encode :: "bool \<Rightarrow> bytes \<Rightarrow> string" where
  "b64_encode padded [] = []"
| "b64_encode padded [x] =
     [b64_char (unat x div 4), b64_char (unat x mod 4 * 16)] @ (if padded then ''=='' else [])"
| "b64_encode padded [x, y] =
     [b64_char (unat x div 4), b64_char (unat x mod 4 * 16 + unat y div 16), b64_char (unat y mod 16 * 4)] @
     (if padded then ''='' else [])"
| "b64_encode padded (x # y # z # bs) =
     [b64_char (unat x div 4), b64_char (unat x mod 4 * 16 + unat y div 16),
      b64_char (unat y mod 16 * 4 + unat z div 64), b64_char (unat z mod 64)] @ b64_encode padded bs"

lemma b64_value_char: "d < 64 \<Longrightarrow> b64_value (b64_char d) = Some d"
  by (auto simp: b64_value_def b64_char_def Let_def of_char_of)

lemma b64_char_plain: "d < 64 \<Longrightarrow> b64_char d \<notin> {CHR ''='', CHR 0x0A, CHR 0x0D}"
proof
  assume "d < 64" "b64_char d \<in> {CHR ''='', CHR 0x0A, CHR 0x0D}"
  with b64_value_char [of d] have "\<exists>c \<in> {CHR ''='', CHR 0x0A, CHR 0x0D}. b64_value c = Some d" by auto
  then show False by (simp add: b64_value_def)
qed

lemma of_nat_byte: "n = unat b \<Longrightarrow> of_nat n = (b :: byte)"
  by simp

text \<open>The digits of up to three bytes are below 64, and the bytes come back.\<close>

lemma b64_digit_bounds:
  "unat (x :: byte) div 4 < 64" "unat x mod 4 * 16 < 64" "unat x mod 4 * 16 + unat (y :: byte) div 16 < 64"
  "unat y mod 16 * 4 < 64" "unat y mod 16 * 4 + unat (z :: byte) div 64 < 64" "unat z mod 64 < 64"
  using byte_bound [of x] byte_bound [of y] byte_bound [of z] by linarith+

lemma b64_bytes:
  "y < 16 \<Longrightarrow> b64_one (unat (x :: byte) div 4) (unat x mod 4 * 16 + y) = x"
  "y < 4 \<Longrightarrow> b64_two (v * 16 + unat x div 16) (unat x mod 16 * 4 + y) = x"
  "b64_three (v * 4 + unat x div 64) (unat x mod 64) = x"
proof -
  assume "y < 16"
  then have "unat x div 4 * 4 + (unat x mod 4 * 16 + y) div 16 = unat x" by simp
  then show "b64_one (unat x div 4) (unat x mod 4 * 16 + y) = x" unfolding b64_one_def by (rule of_nat_byte)
next
  have d: "unat x div 16 < 16" using byte_bound [of x] by linarith
  assume "y < 4"
  then have "(v * 16 + unat x div 16) mod 16 * 16 + (unat x mod 16 * 4 + y) div 4 = unat x" using d by simp
  then show "b64_two (v * 16 + unat x div 16) (unat x mod 16 * 4 + y) = x" unfolding b64_two_def by (rule of_nat_byte)
next
  have d: "unat x div 64 < 4" using byte_bound [of x] by linarith
  then have "(v * 4 + unat x div 64) mod 4 * 64 + unat x mod 64 = unat x" by simp
  then show "b64_three (v * 4 + unat x div 64) (unat x mod 64) = x" unfolding b64_three_def by (rule of_nat_byte)
qed

lemma b64_high_bounds: "unat (x :: byte) div 16 < 16" "unat x div 64 < 4"
  using byte_bound [of x] by linarith+

lemma b64_digits_roundtrip: "b64_digits padded (b64_encode padded bs) = Some bs"
proof (induction padded bs rule: b64_encode.induct)
  case (2 padded x)
  then show ?case
    using b64_bytes(1) [of 0 x] by (simp add: b64_tail2_def b64_value_char b64_digit_bounds)
next
  case (3 padded x y)
  have "b64_char (unat y mod 16 * 4) \<noteq> CHR ''=''" using b64_char_plain [OF b64_digit_bounds(4) [of y]] by simp
  then show ?case
    using b64_bytes(1) [OF b64_high_bounds(1) [of y], of x] b64_bytes(2) [of 0 "unat x mod 4" y]
    by (simp add: b64_tail3_def b64_value_char b64_digit_bounds)
next
  case (4 padded x y z bs)
  have "b64_char (unat z mod 64) \<noteq> CHR ''=''" using b64_char_plain [OF b64_digit_bounds(6) [of z]] by simp
  then show ?case
    using 4 b64_bytes(1) [OF b64_high_bounds(1) [of y], of x] b64_bytes(2) [OF b64_high_bounds(2) [of z], of "unat x mod 4" y]
      b64_bytes(3) [of "unat y mod 16" z]
    by (simp add: b64_value_char b64_digit_bounds)
qed simp

lemma b64_encode_plain: "c \<in> set (b64_encode padded bs) \<Longrightarrow> c \<noteq> CHR 0x0A \<and> c \<noteq> CHR 0x0D"
proof (induction padded bs rule: b64_encode.induct)
  case (2 padded x)
  then show ?case using b64_char_plain [OF b64_digit_bounds(1) [of x]] b64_char_plain [OF b64_digit_bounds(2) [of x]]
    by (auto split: if_splits)
next
  case (3 padded x y)
  then show ?case
    using b64_char_plain [OF b64_digit_bounds(1) [of x]] b64_char_plain [OF b64_digit_bounds(3) [of x y]]
      b64_char_plain [OF b64_digit_bounds(4) [of y]] by (auto split: if_splits)
next
  case (4 padded x y z bs)
  then show ?case
    using b64_char_plain [OF b64_digit_bounds(1) [of x]] b64_char_plain [OF b64_digit_bounds(3) [of x y]]
      b64_char_plain [OF b64_digit_bounds(5) [of y z]] b64_char_plain [OF b64_digit_bounds(6) [of z]] by auto
qed simp

lemma b64_roundtrip: "b64_decode padded (b64_encode padded bs) = Some bs"
proof -
  have "filter (\<lambda>c. c \<noteq> CHR 0x0A \<and> c \<noteq> CHR 0x0D) (b64_encode padded bs) = b64_encode padded bs"
    by (rule filter_True) (use b64_encode_plain in blast)
  then show ?thesis by (simp add: b64_decode_def b64_digits_roundtrip)
qed

subsection \<open>Lines of input\<close>

text \<open>\<open>bufio.Reader.ReadBytes\<close> for a line: the line with its end and the rest of the input; at the end of the
  input the rest itself.\<close>

definition read_line :: "bytes \<Rightarrow> bytes \<times> bytes" where
  "read_line input =
     (if 10 \<in> set input then (takeWhile (\<lambda>b. b \<noteq> 10) input @ [10], tl (dropWhile (\<lambda>b. b \<noteq> 10) input)) else (input, []))"

text \<open>\<open>bytes.TrimRight\<close> with the two characters of a line end.\<close>

definition trim_line :: "bytes \<Rightarrow> bytes" where
  "trim_line bs = rev (dropWhile (\<lambda>b. b = 13 \<or> b = 10) (rev bs))"

lemma read_line_split: "10 \<notin> set xs \<Longrightarrow> read_line (xs @ 10 # ys) = (xs @ [10], ys)"
  by (induction xs) (auto simp: read_line_def)

lemma trim_line_plain: "xs = [] \<or> last xs \<noteq> 13 \<and> last xs \<noteq> 10 \<Longrightarrow> trim_line (xs @ [10]) = xs \<and> trim_line (xs @ [13, 10]) = xs \<and> trim_line xs = xs"
proof (cases xs rule: rev_cases)
  case (snoc ys y)
  then show "xs = [] \<or> last xs \<noteq> 13 \<and> last xs \<noteq> 10 \<Longrightarrow> ?thesis" by (simp add: trim_line_def)
qed (simp add: trim_line_def)

end
