(* ===== verification/DarwinHid.thy ===== *)
theory DarwinHid
  imports NativeDriver GoEncoding "HOL-Library.Char_ord" "HOL-Library.List_Lexorder"
begin

text \<open>
  The macOS HID driver, \<open>pkg/hid/internal/darwin/darwin.go\<close>: endpoint identifiers, the inventory, the open transaction and
  report input and output. The functions of \<open>native.h\<close>, which are written in C, are the fields of \<open>darwin_sys\<close>.
\<close>

subsection \<open>The native functions\<close>

text \<open>\<open>hid_entry\<close> and \<open>hid_inventory\<close>; \<open>de_native\<close> and \<open>di_native\<close> stand for the pointers that are freed, and the texts are what
  \<open>C.GoString\<close> makes of the arrays.\<close>

record darwin_entry =
  de_native :: int
  de_registry_id :: u64
  de_known :: u32
  de_vendor :: u16
  de_product :: u16
  de_interface_number :: int
  de_bus :: int
  de_path :: string
  de_serial :: string
  de_manufacturer :: string
  de_product_name :: string
  de_descriptor :: bytes
  de_descriptor_length :: int

record darwin_inventory =
  di_native :: int
  di_entries :: "darwin_entry list"
  di_complete :: bool
  di_limited :: bool
  di_error :: u32

record darwin_write =
  dw_io :: u32
  dw_setup_error :: int
  dw_restore_error :: int
  dw_submitted :: bool
  dw_completed :: bool

text \<open>A function that allocates answers None or a code when it fails, and one without a result answers None. \<open>dy_connect\<close> fails with
  an IOKit code and a thread error. \<open>dy_read\<close> and \<open>dy_write\<close> may block: None is a call that does not return. \<open>dy_read\<close> answers its
  status, the IOKit code and the report. \<open>dy_disconnect\<close>, which joins the threads of the connection, is taken to return.\<close>

record 'w darwin_sys =
  dy_enumerate :: "bool \<Rightarrow> 'w \<Rightarrow> darwin_inventory option \<times> 'w"
  dy_inventory_free :: "int \<Rightarrow> 'w \<Rightarrow> err option \<times> 'w"
  dy_lookup :: "u64 \<Rightarrow> bool \<Rightarrow> 'w \<Rightarrow> (u32 + darwin_entry) \<times> 'w"
  dy_entry_free :: "int \<Rightarrow> 'w \<Rightarrow> err option \<times> 'w"
  dy_connect :: "darwin_entry \<Rightarrow> report_layout \<Rightarrow> 'w \<Rightarrow> ((u32 \<times> int) + int) \<times> 'w"
  dy_read :: "int \<Rightarrow> int \<Rightarrow> 'w \<Rightarrow> ((int \<times> u32 \<times> bytes) \<times> 'w) option"
  dy_CBytes :: "bytes \<Rightarrow> 'w \<Rightarrow> int option \<times> 'w"
  dy_free :: "int \<Rightarrow> 'w \<Rightarrow> err option \<times> 'w"
  dy_write :: "int \<Rightarrow> bytes \<Rightarrow> 'w \<Rightarrow> (darwin_write \<times> 'w) option"
  dy_disconnect :: "int \<Rightarrow> 'w \<Rightarrow> u32 \<times> 'w"
  dy_error_message :: "u32 \<Rightarrow> string"
  dy_errno_message :: "int \<Rightarrow> string"

definition io_wait :: "('w \<Rightarrow> ('a \<times> 'w) option) \<Rightarrow> ('w, 'a) io" where
  "io_wait q w = map_option (\<lambda>(x, w'). (Inr x, w')) (q w)"

definition kIOReturnNoMemory :: u32 where "kIOReturnNoMemory = 0xe00002bd"
definition kIOReturnNoResources :: u32 where "kIOReturnNoResources = 0xe00002be"
definition kIOReturnNoDevice :: u32 where "kIOReturnNoDevice = 0xe00002c0"
definition kIOReturnNotPrivileged :: u32 where "kIOReturnNotPrivileged = 0xe00002c1"
definition kIOReturnExclusiveAccess :: u32 where "kIOReturnExclusiveAccess = 0xe00002c5"
definition kIOReturnUnsupported :: u32 where "kIOReturnUnsupported = 0xe00002c7"
definition kIOReturnNotOpen :: u32 where "kIOReturnNotOpen = 0xe00002cd"
definition kIOReturnBusy :: u32 where "kIOReturnBusy = 0xe00002d5"
definition kIOReturnOffline :: u32 where "kIOReturnOffline = 0xe00002d7"
definition kIOReturnNotPermitted :: u32 where "kIOReturnNotPermitted = 0xe00002e2"
definition ETIMEDOUT :: int where "ETIMEDOUT = 60"

subsection \<open>Errors\<close>

definition darwin_pthreadError :: "'w darwin_sys \<Rightarrow> string \<Rightarrow> int \<Rightarrow> err" where
  "darwin_pthreadError os op code = DriverError op KindIO ''pthread'' (of_int code) (dy_errno_message os code) None"

definition darwin_ioKind :: "u32 \<Rightarrow> driver_kind" where
  "darwin_ioKind code =
     (if code \<in> {kIOReturnNoDevice, kIOReturnOffline} then KindRemoved
      else if code \<in> {kIOReturnNotPrivileged, kIOReturnNotPermitted} then KindPermission
      else if code \<in> {kIOReturnExclusiveAccess, kIOReturnBusy} then KindBusy
      else if code = kIOReturnUnsupported then KindUnsupported
      else if code \<in> {kIOReturnNoMemory, kIOReturnNoResources} then KindResourceLimit
      else if code = kIOReturnNotOpen then KindClosed
      else KindIO)"

definition darwin_ioError :: "'w darwin_sys \<Rightarrow> string \<Rightarrow> u32 \<Rightarrow> err" where
  "darwin_ioError os op code = DriverError op (darwin_ioKind code) ''iokit'' (ucast code) (dy_error_message os code) None"

subsection \<open>Identifiers\<close>

text \<open>\<open>fmt.Sprintf\<close> with \<open>%016x\<close>: a number with a fixed count of hexadecimal digits.\<close>

fun hex_fixed :: "nat \<Rightarrow> nat \<Rightarrow> string" where
  "hex_fixed 0 n = []"
| "hex_fixed (Suc k) n = hex_fixed k (n div 16) @ [hex_char (n mod 16)]"

definition darwin_endpointID :: "u64 \<Rightarrow> int \<Rightarrow> string" where
  "darwin_endpointID registryID i = ''darwin:'' @ hex_fixed 16 (unat registryID) @ '':'' @ Itoa i"

definition darwin_address :: "string \<Rightarrow> (u64 \<times> int) res" where
  "darwin_address i =
     (case Split (CHR '':'') i of
        [scheme, registry, index] \<Rightarrow>
          if scheme \<noteq> ''darwin'' then Inl (driver_error ''open'' KindInvalidArgument ''invalid endpoint ID'')
          else (case (ParseUint registry 16 64, Atoi index) of
             (Some r, Some n) \<Rightarrow>
               if r = 0 \<or> n < - 1 \<or> darwin_endpointID (of_nat r) n \<noteq> i
               then Inl (driver_error ''open'' KindInvalidArgument ''invalid endpoint ID'')
               else Inr (of_nat r, n)
           | _ \<Rightarrow> Inl (driver_error ''open'' KindInvalidArgument ''invalid endpoint ID''))
      | _ \<Rightarrow> Inl (driver_error ''open'' KindInvalidArgument ''invalid endpoint ID''))"

subsection \<open>Inventory\<close>

text \<open>\<open>driver.Bus(entry.bus)\<close>; the native function only answers the numbers of the buses.\<close>

definition darwin_bus :: "int \<Rightarrow> bus" where
  "darwin_bus n =
     (if n = 0 then BusUnknown else if n = 1 then BusUSB else if n = 2 then BusBluetooth
      else if n = 3 then BusI2C else if n = 4 then BusSPI else BusOther)"

definition darwin_endpoint :: "darwin_entry \<Rightarrow> endpoint" where
  "darwin_endpoint entry =
     (let has = (\<lambda>b. de_known entry AND b \<noteq> 0) in
      \<lparr>ep_ID = [], ep_Path = de_path entry,
       ep_VendorID = \<lparr>fd_Value = de_vendor entry, fd_Known = has 1\<rparr>,
       ep_ProductID = \<lparr>fd_Value = de_product entry, fd_Known = has 2\<rparr>,
       ep_Usage = \<lparr>fd_Value = \<lparr>us_Page = 0, us_ID = 0\<rparr>, fd_Known = False\<rparr>,
       ep_Interface = \<lparr>fd_Value = de_interface_number entry, fd_Known = has 4\<rparr>,
       ep_Bus = darwin_bus (de_bus entry),
       ep_Serial = \<lparr>fd_Value = de_serial entry, fd_Known = has 8\<rparr>,
       ep_Manufacturer = \<lparr>fd_Value = de_manufacturer entry, fd_Known = has 16\<rparr>,
       ep_Product = \<lparr>fd_Value = de_product_name entry, fd_Known = has 32\<rparr>\<rparr>)"

definition darwin_describe :: "darwin_entry \<Rightarrow> collection list \<times> err option" where
  "darwin_describe entry =
     (if de_descriptor_length entry = - 2 then ([], Some (driver_error ''descriptor'' KindResourceLimit ''native descriptor allocation failed''))
      else if de_descriptor_length entry < 1 \<or> de_descriptor_length entry > int MaxDescriptorSize
      then ([], Some (TextError ''report descriptor unavailable or exceeds supported bound''))
      else Inventory (take (nat (de_descriptor_length entry)) (de_descriptor entry)))"

definition darwin_incomplete :: "err \<Rightarrow> hid_snapshot \<Rightarrow> hid_snapshot" where
  "darwin_incomplete e s = s\<lparr>sn_Complete := False, sn_Warnings := sn_Warnings s @ [Some e]\<rparr>"

definition darwin_limit :: err where
  "darwin_limit = driver_error ''enumerate'' KindResourceLimit ''inventory endpoint limit reached''"

text \<open>The collections of an entry; the flag says that the endpoint limit is reached.\<close>

fun darwin_collections :: "darwin_entry \<Rightarrow> collection list \<Rightarrow> hid_snapshot \<Rightarrow> bool \<times> hid_snapshot" where
  "darwin_collections entry [] s = (False, s)"
| "darwin_collections entry (c # cs) s =
     (if length (sn_Endpoints s) = MaxInventoryEndpoints then (True, darwin_incomplete darwin_limit s)
      else darwin_collections entry cs (s\<lparr>sn_Endpoints := sn_Endpoints s @
        [(darwin_endpoint entry)\<lparr>ep_ID := darwin_endpointID (de_registry_id entry) (int (cl_Index c)), ep_Usage := known (cl_Usage c)\<rparr>]\<rparr>))"

text \<open>An entry whose collections cannot be resolved. The message of the cause is left out of the warning's own message.\<close>

definition darwin_unresolved :: "darwin_entry \<Rightarrow> err option \<Rightarrow> hid_snapshot \<Rightarrow> hid_snapshot" where
  "darwin_unresolved entry e s =
     (let base = (darwin_endpoint entry)\<lparr>ep_ID := darwin_endpointID (de_registry_id entry) (- 1)\<rparr>;
          cause = (case e of Some x \<Rightarrow> x | None \<Rightarrow> TextError ''no Application collections in descriptor'')
      in darwin_incomplete (DriverError ''enumerate'' KindIO [] 0 (''cannot resolve Application collections for '' @ ep_ID base) (Some cause))
           (s\<lparr>sn_Endpoints := sn_Endpoints s @ [base]\<rparr>))"

definition darwin_item :: "darwin_entry \<Rightarrow> hid_snapshot \<Rightarrow> bool \<times> hid_snapshot" where
  "darwin_item entry s =
     (if length (sn_Endpoints s) = MaxInventoryEndpoints then (True, darwin_incomplete darwin_limit s)
      else case darwin_describe entry of
        (cs, e) \<Rightarrow>
          if cs = [] then (False, darwin_unresolved entry e s)
          else darwin_collections entry cs (case e of None \<Rightarrow> s | Some x \<Rightarrow> s\<lparr>sn_Warnings := sn_Warnings s @ [Some x]\<rparr>))"

fun darwin_items :: "darwin_entry list \<Rightarrow> hid_snapshot \<Rightarrow> bool \<times> hid_snapshot" where
  "darwin_items [] s = (False, s)"
| "darwin_items (entry # entries) s =
     (let (stop, s') = darwin_item entry s in if stop then (True, s') else darwin_items entries s')"

text \<open>The snapshot of a native inventory. An inventory that stops at the limit is not sorted. \<open>sort.Slice\<close> may put endpoints with the same
  identifier in any order; here they keep theirs.\<close>

definition darwin_snapshot :: "darwin_inventory \<Rightarrow> hid_snapshot" where
  "darwin_snapshot native =
     (let s0 = \<lparr>sn_Endpoints = [], sn_Complete = di_complete native, sn_Warnings = []\<rparr>;
          s1 = (if di_complete native then s0
                else s0\<lparr>sn_Warnings := [Some (driver_error ''enumerate'' (if di_limited native then KindResourceLimit else KindIO)
                       ''native inventory traversal incomplete'')]\<rparr>);
          (stop, s2) = darwin_items (di_entries native) s1
      in if stop then s2 else s2\<lparr>sn_Endpoints := sort_key ep_ID (sn_Endpoints s2)\<rparr>)"

definition darwin_Enumerate :: "'w darwin_sys \<Rightarrow> bool \<Rightarrow> ('w, hid_snapshot \<times> err option) io" where
  "darwin_Enumerate os strings =
     io_bind (io_ask (dy_enumerate os strings)) (\<lambda>r. case r of
       None \<Rightarrow> io_return (\<lparr>sn_Endpoints = [], sn_Complete = False, sn_Warnings = []\<rparr>,
                 Some (driver_error ''enumerate'' KindResourceLimit ''native inventory allocation failed''))
     | Some native \<Rightarrow>
         io_defer (dy_inventory_free os (di_native native))
           (io_return (if di_error native \<noteq> 0
              then (\<lparr>sn_Endpoints = [], sn_Complete = di_complete native, sn_Warnings = []\<rparr>, Some (darwin_ioError os ''enumerate'' (di_error native)))
              else (darwin_snapshot native, None))))"

subsection \<open>Open\<close>

definition equalField :: "'a field \<Rightarrow> 'a field \<Rightarrow> bool" where
  "equalField expected actual \<longleftrightarrow> \<not> fd_Known expected \<or> fd_Known actual \<and> fd_Value expected = fd_Value actual"

definition darwin_matches :: "endpoint \<Rightarrow> endpoint \<Rightarrow> bool" where
  "darwin_matches expected actual \<longleftrightarrow>
     ep_ID expected = ep_ID actual \<and>
     equalField (ep_VendorID expected) (ep_VendorID actual) \<and> equalField (ep_ProductID expected) (ep_ProductID actual) \<and>
     equalField (ep_Usage expected) (ep_Usage actual) \<and> equalField (ep_Interface expected) (ep_Interface actual) \<and>
     equalField (ep_Serial expected) (ep_Serial actual) \<and> equalField (ep_Manufacturer expected) (ep_Manufacturer actual) \<and>
     equalField (ep_Product expected) (ep_Product actual) \<and> (ep_Bus expected = BusUnknown \<or> ep_Bus expected = ep_Bus actual)"

record darwin_device =
  dd_native :: int
  dd_endpoint :: endpoint
  dd_layout :: report_layout

text \<open>The checks between the lookup and the connection.\<close>

definition darwin_select :: "endpoint \<Rightarrow> int \<Rightarrow> darwin_entry \<Rightarrow> (endpoint \<times> report_layout) res" where
  "darwin_select expected index entry =
     (case darwin_describe entry of
        (cs, Some e) \<Rightarrow> Inl (DriverError ''open'' KindUnsupported [] 0 [] (Some e))
      | (cs, None) \<Rightarrow>
          (case List.find (\<lambda>c. int (cl_Index c) = index) cs of
             None \<Rightarrow> Inl (driver_error ''open'' (if index = - 1 then KindUnsupported else KindStaleEndpoint) ''Application collection unavailable'')
           | Some c \<Rightarrow>
               let actual = (darwin_endpoint entry)\<lparr>ep_ID := darwin_endpointID (de_registry_id entry) (int (cl_Index c)), ep_Usage := known (cl_Usage c)\<rparr>
               in if \<not> darwin_matches expected actual then Inl (driver_error ''open'' KindStaleEndpoint ''endpoint descriptor changed'')
                  else if \<not> cl_Supported c \<or> ep_Bus actual \<noteq> BusUSB \<or> cl_Usage c \<noteq> \<lparr>us_Page = 0xf1d0, us_ID = 1\<rparr>
                  then Inl (driver_error ''open'' KindUnsupported ''only unambiguous USB FIDO Input/Output collections are qualified'')
                  else Inr (actual, cl_Layout c)))"

definition darwin_entry_open :: "'w darwin_sys \<Rightarrow> endpoint \<Rightarrow> int \<Rightarrow> darwin_entry \<Rightarrow> ('w, darwin_device) io" where
  "darwin_entry_open os expected index entry =
     io_bind (io_of (darwin_select expected index entry)) (\<lambda>(actual, layout).
     io_bind (io_ask (dy_connect os entry layout)) (\<lambda>r. case r of
       Inl (code, threadError) \<Rightarrow>
         io_fail (if threadError \<noteq> 0 then darwin_pthreadError os ''open'' threadError else darwin_ioError os ''open'' code)
     | Inr connection \<Rightarrow> io_return \<lparr>dd_native = connection, dd_endpoint = actual, dd_layout = layout\<rparr>))"

definition darwin_Open :: "'w darwin_sys \<Rightarrow> endpoint \<Rightarrow> ('w, darwin_device) io" where
  "darwin_Open os expected =
     io_bind (io_of (darwin_address (ep_ID expected))) (\<lambda>(registryID, index).
     io_bind (io_ask (dy_lookup os registryID
         (fd_Known (ep_Serial expected) \<or> fd_Known (ep_Manufacturer expected) \<or> fd_Known (ep_Product expected)))) (\<lambda>r. case r of
       Inl code \<Rightarrow> io_fail (darwin_ioError os ''open'' code)
     | Inr entry \<Rightarrow> io_defer (dy_entry_free os (de_native entry)) (darwin_entry_open os expected index entry)))"

subsection \<open>Reports\<close>

definition darwin_status_error :: "'w darwin_sys \<Rightarrow> int \<Rightarrow> err" where
  "darwin_status_error os status =
     (if status > 0 \<and> status \<noteq> ETIMEDOUT then darwin_pthreadError os ''read'' status
      else if status = ETIMEDOUT then driver_error ''read'' KindTimeout ''input wait timeout''
      else if status = - 2 then driver_error ''read'' KindIO ''native input queue overflow''
      else if status = - 3 then driver_error ''read'' KindIO ''input report length or ID does not match descriptor''
      else if status = - 4 then driver_error ''read'' KindIO ''writer retired after signal mask restoration failure''
      else if status = - 5 then driver_error ''read'' KindClosed ''connection closed''
      else driver_error ''read'' KindIO ''native input wait failed'')"

definition darwin_Read :: "'w darwin_sys \<Rightarrow> darwin_device \<Rightarrow> int \<Rightarrow> ('w, report) io" where
  "darwin_Read os d wait =
     (if wait < 0 then io_fail (driver_error ''read'' KindInvalidArgument ''negative wait'')
      else io_bind (io_wait (dy_read os (dd_native d) wait)) (\<lambda>(status, code, data).
        if code \<noteq> 0 then io_fail (darwin_ioError os ''read'' code)
        else if status \<noteq> 0 then io_fail (darwin_status_error os status)
        else io_return \<lparr>rp_ID = rs_ID (rl_Input (dd_layout d)), rp_Data = data\<rparr>))"

definition darwin_causes :: "'w darwin_sys \<Rightarrow> darwin_write \<Rightarrow> err list" where
  "darwin_causes os r =
     (if dw_io r \<noteq> 0 then [darwin_ioError os ''write'' (dw_io r)] else []) @
     (if dw_setup_error r \<noteq> 0 then [darwin_pthreadError os ''write: block SIGURG'' (dw_setup_error r)] else []) @
     (if dw_restore_error r \<noteq> 0 then [darwin_pthreadError os ''write: restore signal mask'' (dw_restore_error r)] else [])"

definition darwin_Write :: "'w darwin_sys \<Rightarrow> darwin_device \<Rightarrow> report \<Rightarrow> ('w, write_outcome \<times> err option) io" where
  "darwin_Write os d rep =
     (let out = rl_Output (dd_layout d) in
      if rp_ID rep \<noteq> rs_ID out \<or> int (length (rp_Data rep)) \<noteq> rs_Size out
      then io_return (OutcomeNotSubmitted, Some (driver_error ''write'' KindInvalidReport ''output report does not match descriptor''))
      else io_bind (io_ask (dy_CBytes os (rp_Data rep))) (\<lambda>b. case b of
        None \<Rightarrow> io_return (OutcomeNotSubmitted, Some (driver_error ''write'' KindResourceLimit ''output buffer allocation failed''))
      | Some buffer \<Rightarrow>
          io_defer (dy_free os buffer) (io_bind (io_wait (dy_write os (dd_native d) (rp_Data rep))) (\<lambda>native.
            io_return (if dw_completed native then OutcomeCompleted else if dw_submitted native then OutcomeUnknown else OutcomeNotSubmitted,
                       errors_join (map Some (darwin_causes os native)))))))"

text \<open>\<open>Close\<close> also clears the device's pointer.\<close>

definition darwin_Close :: "'w darwin_sys \<Rightarrow> darwin_device \<Rightarrow> 'w \<Rightarrow> (err option \<times> darwin_device) \<times> 'w" where
  "darwin_Close os d w =
     (case dy_disconnect os (dd_native d) w of
        (code, w') \<Rightarrow> ((if code \<noteq> 0 then Some (darwin_ioError os ''close'' code) else None, d\<lparr>dd_native := 0\<rparr>), w'))"

end
