(* ===== verification/DarwinDriver.thy ===== *)
theory DarwinDriver
  imports DarwinHid
begin

text \<open>
  What the macOS HID driver of \<open>DarwinHid\<close> guarantees: the identifiers it prints are exactly those it accepts, an endpoint of
  the inventory leads back to its entry and collection, and no native object is leaked by an inventory, an open transaction
  or a report.
\<close>

subsection \<open>Identifiers\<close>

lemma hex_char_digit: "d < 16 \<Longrightarrow> digit_value (hex_char d) = Some d"
  using hex_value_char [of d] by (auto simp: hex_value_def split: option.splits if_splits)

lemma parse_hex_fixed: "parse_digits 16 0 (hex_fixed k n) = Some (n mod 16 ^ k)"
proof (induction k arbitrary: n)
  case (Suc k)
  have "n div 16 mod 16 ^ k * 16 + n mod 16 = n mod 16 ^ Suc k"
    using mod_mult2_eq [of n 16 "16 ^ k"] by (simp add: mult.commute)
  then show ?case by (simp add: Suc parse_digits_append hex_char_digit)
qed simp

lemma length_hex_fixed [simp]: "length (hex_fixed k n) = k"
  by (induction k arbitrary: n) simp_all

lemma colon_no_digit: "digit_value CHR '':'' = None"
  by (simp add: digit_value_def)

lemma hex_fixed_plain: "CHR '':'' \<notin> set (hex_fixed k n)"
proof (induction k arbitrary: n)
  case (Suc k)
  have "CHR '':'' \<noteq> hex_char (n mod 16)" using hex_char_digit [of "n mod 16"] colon_no_digit by auto
  with Suc show ?case by simp
qed simp

lemma Itoa_plain: "CHR '':'' \<notin> set (Itoa i)"
  using nat_decimal_digits [of "CHR '':''"] by (auto simp: Itoa_def)

lemma ParseUint_hex_fixed: "ParseUint (hex_fixed 16 (unat (r :: u64))) 16 64 = Some (unat r)"
proof -
  have "unat r < 2 ^ 64" using unsigned_less [of r] by simp
  moreover from this have "unat r mod 16 ^ 16 = unat r" by simp
  moreover have "hex_fixed 16 (unat r) \<noteq> []" using length_hex_fixed [of 16 "unat r"] by force
  ultimately show ?thesis by (simp add: ParseUint_def parse_hex_fixed)
qed

lemma Split_endpointID: "Split CHR '':'' (darwin_endpointID r i) = [''darwin'', hex_fixed 16 (unat r), Itoa i]"
  using Split_append [of "CHR '':''" "''darwin''"] Split_append [OF hex_fixed_plain] Split_no [OF Itoa_plain]
  by (simp add: darwin_endpointID_def)

lemma darwin_address_ID:
  assumes "r \<noteq> 0" and "- 1 \<le> i" and "i < 2 ^ 63"
  shows "darwin_address (darwin_endpointID r i) = Inr (r, i)"
proof -
  have "unat r \<noteq> 0" using assms(1) by (simp add: unat_eq_0)
  then show ?thesis using assms Atoi_Itoa [of i] by (simp add: darwin_address_def Split_endpointID ParseUint_hex_fixed)
qed

lemma Atoi_bound: "Atoi s = Some i \<Longrightarrow> i < 2 ^ 63"
  by (auto simp: Atoi_def Let_def split: list.splits bind_splits if_splits)

lemma darwin_address_InrE:
  assumes "darwin_address s = Inr (r, i)"
  obtains rg ix n where "ParseUint rg 16 64 = Some n" "Atoi ix = Some i" "n \<noteq> 0" "- 1 \<le> i" "darwin_endpointID (of_nat n) i = s"
    "r = of_nat n"
proof -
  obtain sc rg ix where sp: "Split CHR '':'' s = [sc, rg, ix]"
    using assms by (simp add: darwin_address_def split: list.splits)
  have sc: "sc = ''darwin''" using assms by (simp add: darwin_address_def sp split: if_splits)
  obtain n m where nm: "ParseUint rg 16 64 = Some n" "Atoi ix = Some m"
    using assms by (simp add: darwin_address_def sp sc split: option.splits)
  have "n \<noteq> 0 \<and> - 1 \<le> m \<and> darwin_endpointID (of_nat n) m = s \<and> r = of_nat n \<and> i = m"
    using assms by (simp add: darwin_address_def sp sc nm split: if_splits)
  with nm that show thesis by blast
qed

lemma darwin_address_InrD:
  assumes "darwin_address s = Inr (r, i)"
  shows "r \<noteq> 0" "- 1 \<le> i" "i < 2 ^ 63" "s = darwin_endpointID r i"
proof -
  from assms obtain rg ix n where p: "ParseUint rg 16 64 = Some n" "Atoi ix = Some i"
    and n: "n \<noteq> 0" "- 1 \<le> i" "darwin_endpointID (of_nat n) i = s" "r = of_nat n" by (rule darwin_address_InrE)
  then show "- 1 \<le> i" "s = darwin_endpointID r i" by simp_all
  show "i < 2 ^ 63" by (rule Atoi_bound [OF p(2)])
  have "n < 2 ^ 64" by (rule ParseUint_bound [OF p(1)])
  then have "unat r = n" by (simp add: n(4) unat_of_nat)
  with n(1) show "r \<noteq> 0" by auto
qed

subsection \<open>Inventory\<close>

text \<open>The reference: the endpoints of an entry, and of an inventory without the limit.\<close>

definition collection_endpoint :: "darwin_entry \<Rightarrow> collection \<Rightarrow> endpoint" where
  "collection_endpoint entry c =
     (darwin_endpoint entry)\<lparr>ep_ID := darwin_endpointID (de_registry_id entry) (int (cl_Index c)), ep_Usage := known (cl_Usage c)\<rparr>"

definition entry_endpoints :: "darwin_entry \<Rightarrow> endpoint list" where
  "entry_endpoints entry =
     (case fst (darwin_describe entry) of
        [] \<Rightarrow> [(darwin_endpoint entry)\<lparr>ep_ID := darwin_endpointID (de_registry_id entry) (- 1)\<rparr>]
      | cs \<Rightarrow> map (collection_endpoint entry) cs)"

definition all_endpoints :: "darwin_entry list \<Rightarrow> endpoint list" where
  "all_endpoints entries = concat (map entry_endpoints entries)"

lemma all_endpoints_simps [simp]:
  "all_endpoints [] = []" "all_endpoints (entry # entries) = entry_endpoints entry @ all_endpoints entries"
  by (simp_all add: all_endpoints_def)

lemma entry_endpoints_nonempty [simp]: "entry_endpoints entry \<noteq> []"
  by (simp add: entry_endpoints_def split: list.splits)

lemma darwin_incomplete_simps [simp]:
  "sn_Endpoints (darwin_incomplete e s) = sn_Endpoints s" "sn_Complete (darwin_incomplete e s) = False"
  by (simp_all add: darwin_incomplete_def)

text \<open>What adding the endpoints \<open>eps\<close> to a snapshot below the limit leaves: the flag, the endpoints and the completeness.\<close>

definition added :: "endpoint list \<Rightarrow> bool \<Rightarrow> hid_snapshot \<Rightarrow> bool \<times> hid_snapshot \<Rightarrow> bool" where
  "added eps whole s r \<longleftrightarrow>
     (fst r \<longleftrightarrow> length (sn_Endpoints s @ eps) > MaxInventoryEndpoints) \<and>
     sn_Endpoints (snd r) = take MaxInventoryEndpoints (sn_Endpoints s @ eps) \<and>
     (sn_Complete (snd r) \<longleftrightarrow> sn_Complete s \<and> whole \<and> \<not> fst r)"

lemma collections_added:
  "length (sn_Endpoints s) \<le> MaxInventoryEndpoints \<Longrightarrow>
   added (map (collection_endpoint entry) cs) True s (darwin_collections entry cs s)"
proof (induction cs arbitrary: s)
  case (Cons c cs)
  show ?case
  proof (cases "length (sn_Endpoints s) = MaxInventoryEndpoints")
    case False
    let ?s = "s\<lparr>sn_Endpoints := sn_Endpoints s @ [collection_endpoint entry c]\<rparr>"
    have "added (map (collection_endpoint entry) cs) True ?s (darwin_collections entry cs ?s)"
      using False Cons.prems by (intro Cons.IH) simp
    with False show ?thesis by (simp add: added_def flip: collection_endpoint_def)
  qed (simp add: added_def)
qed (simp add: added_def)

lemma item_added:
  assumes "length (sn_Endpoints s) \<le> MaxInventoryEndpoints"
  shows "added (entry_endpoints entry) (fst (darwin_describe entry) \<noteq> []) s (darwin_item entry s)"
proof (cases "length (sn_Endpoints s) = MaxInventoryEndpoints")
  case True
  then show ?thesis by (simp add: darwin_item_def added_def)
next
  case room: False
  obtain cs e where d: "darwin_describe entry = (cs, e)" by fastforce
  show ?thesis
  proof (cases cs)
    case Nil
    with room assms d show ?thesis
      by (simp add: darwin_item_def added_def entry_endpoints_def darwin_unresolved_def Let_def)
  next
    case (Cons c cs')
    let ?s = "case e of None \<Rightarrow> s | Some x \<Rightarrow> s\<lparr>sn_Warnings := sn_Warnings s @ [Some x]\<rparr>"
    have s: "sn_Endpoints ?s = sn_Endpoints s" "sn_Complete ?s = sn_Complete s" by (simp_all split: option.splits)
    have "added (map (collection_endpoint entry) cs) True ?s (darwin_collections entry cs ?s)"
      by (rule collections_added) (simp add: s assms)
    with room d Cons show ?thesis by (simp add: darwin_item_def added_def entry_endpoints_def s)
  qed
qed

lemma items_added:
  "length (sn_Endpoints s) \<le> MaxInventoryEndpoints \<Longrightarrow>
   added (all_endpoints entries) (\<forall>entry \<in> set entries. fst (darwin_describe entry) \<noteq> []) s (darwin_items entries s)"
proof (induction entries arbitrary: s)
  case (Cons entry entries)
  obtain stop s' where i: "darwin_item entry s = (stop, s')" by fastforce
  note a = item_added [OF Cons.prems, of entry, unfolded i added_def, simplified]
  show ?case
  proof (cases stop)
    case True
    with a i show ?thesis by (auto simp: added_def)
  next
    case False
    then have "added (all_endpoints entries) (\<forall>entry \<in> set entries. fst (darwin_describe entry) \<noteq> []) s' (darwin_items entries s')"
      using a by (intro Cons.IH) simp
    with a False i show ?thesis by (auto simp: added_def)
  qed
qed (simp add: added_def)

lemma snapshot_endpoints:
  "sn_Endpoints (darwin_snapshot native) =
     (if length (all_endpoints (di_entries native)) \<le> MaxInventoryEndpoints then sort_key ep_ID (all_endpoints (di_entries native))
      else take MaxInventoryEndpoints (all_endpoints (di_entries native)))"
  "sn_Complete (darwin_snapshot native) \<longleftrightarrow>
     di_complete native \<and> length (all_endpoints (di_entries native)) \<le> MaxInventoryEndpoints \<and>
     (\<forall>entry \<in> set (di_entries native). fst (darwin_describe entry) \<noteq> [])"
proof -
  let ?s0 = "\<lparr>sn_Endpoints = [], sn_Complete = di_complete native, sn_Warnings = []\<rparr>"
  let ?s = "if di_complete native then ?s0
            else ?s0\<lparr>sn_Warnings := [Some (driver_error ''enumerate'' (if di_limited native then KindResourceLimit else KindIO)
                   ''native inventory traversal incomplete'')]\<rparr>"
  obtain stop s where i: "darwin_items (di_entries native) ?s = (stop, s)" by fastforce
  have "sn_Endpoints ?s = []" "sn_Complete ?s = di_complete native" by simp_all
  note a = items_added [of ?s "di_entries native", unfolded this added_def i, simplified]
  have "darwin_snapshot native = (if stop then s else s\<lparr>sn_Endpoints := sort_key ep_ID (sn_Endpoints s)\<rparr>)"
    unfolding darwin_snapshot_def Let_def by (simp only: i prod.case)
  with a show "sn_Endpoints (darwin_snapshot native) =
     (if length (all_endpoints (di_entries native)) \<le> MaxInventoryEndpoints then sort_key ep_ID (all_endpoints (di_entries native))
      else take MaxInventoryEndpoints (all_endpoints (di_entries native)))"
    "sn_Complete (darwin_snapshot native) \<longleftrightarrow>
     di_complete native \<and> length (all_endpoints (di_entries native)) \<le> MaxInventoryEndpoints \<and>
     (\<forall>entry \<in> set (di_entries native). fst (darwin_describe entry) \<noteq> [])" by auto
qed

text \<open>Every entry adds one warning at most, and the limit another.\<close>

lemma collections_warnings:
  "length (sn_Warnings (snd (darwin_collections entry cs s))) \<le> length (sn_Warnings s) + (if fst (darwin_collections entry cs s) then 1 else 0)"
proof (induction cs arbitrary: s)
  case (Cons c cs)
  from Cons [of "s\<lparr>sn_Endpoints := sn_Endpoints s @ [collection_endpoint entry c]\<rparr>"] show ?case
    by (auto simp: darwin_incomplete_def simp flip: collection_endpoint_def)
qed simp

lemma item_warnings:
  "length (sn_Warnings (snd (darwin_item entry s))) \<le> length (sn_Warnings s) + (if fst (darwin_item entry s) then 2 else 1)"
  using collections_warnings [of entry "fst (darwin_describe entry)" "case snd (darwin_describe entry) of None \<Rightarrow> s
      | Some x \<Rightarrow> s\<lparr>sn_Warnings := sn_Warnings s @ [Some x]\<rparr>"]
  by (auto simp: darwin_item_def darwin_unresolved_def darwin_incomplete_def Let_def split: prod.splits option.splits if_splits)

lemma items_warnings:
  "length (sn_Warnings (snd (darwin_items entries s))) \<le> length (sn_Warnings s) + length entries + (if fst (darwin_items entries s) then 1 else 0)"
proof (induction entries arbitrary: s)
  case (Cons entry entries)
  obtain stop s' where "darwin_item entry s = (stop, s')" by fastforce
  with item_warnings [of entry s] Cons [of s'] show ?case by (auto simp: Let_def split: if_splits)
qed simp

lemma snapshot_warnings: "length (sn_Warnings (darwin_snapshot native)) \<le> length (di_entries native) + 2"
proof -
  have "length (sn_Warnings (snd (darwin_items (di_entries native) s))) \<le> length (di_entries native) + 2" if "length (sn_Warnings s) \<le> 1" for s
    using items_warnings [of "di_entries native" s] that by (auto split: if_splits)
  then show ?thesis by (auto simp: darwin_snapshot_def Let_def case_prod_unfold)
qed

subsection \<open>What an open device is\<close>

lemma darwin_describe_None:
  assumes "darwin_describe entry = (cs, None)"
  shows "map cl_Index cs = [0..<length cs]" and "i < length cs \<Longrightarrow> cl_Supported (cs ! i) \<Longrightarrow>
    rs_Size (rl_Input (cl_Layout (cs ! i))) \<in> {1..4096} \<and> rs_Size (rl_Output (cl_Layout (cs ! i))) \<in> {1..4096}"
proof -
  from assms obtain data where p: "Parse data = Inr cs"
    by (auto simp: darwin_describe_def Inventory_def split: if_splits sum.splits)
  then obtain q where "parser_inv q" "cs = finish q" by (blast elim: Parse_cases)
  then show "map cl_Index cs = [0..<length cs]" by (simp add: finish_index finish_length)
  show "i < length cs \<Longrightarrow> cl_Supported (cs ! i) \<Longrightarrow>
    rs_Size (rl_Input (cl_Layout (cs ! i))) \<in> {1..4096} \<and> rs_Size (rl_Output (cl_Layout (cs ! i))) \<in> {1..4096}"
    using Parse_supported_size [OF p] by blast
qed

text \<open>In a parsed descriptor the search by index is a look at the position.\<close>

lemma find_index:
  assumes "map cl_Index cs = [0..<length cs]"
  shows "List.find (\<lambda>c. int (cl_Index c) = i) cs = (if 0 \<le> i \<and> nat i < length cs then Some (cs ! nat i) else None)"
proof -
  have idx: "cl_Index (cs ! j) = j" if "j < length cs" for j
    using assms that by (metis add_0 nth_map nth_upt)
  show ?thesis
  proof (cases "0 \<le> i \<and> nat i < length cs")
    case True
    with idx have "List.find (\<lambda>c. int (cl_Index c) = i) cs = Some (cs ! nat i)"
      unfolding find_Some_iff by (intro exI [of _ "nat i"]) auto
    with True show ?thesis by simp
  next
    case False
    have "int (cl_Index c) \<noteq> i" if "c \<in> set cs" for c
      using that False idx by (auto simp: in_set_conv_nth)
    with False show ?thesis by (auto simp: find_None_iff)
  qed
qed

text \<open>What the checks of \<open>Open\<close> are for: the layout of the collection at the index, when it is a supported FIDO collection on USB of
  a descriptor that parses.\<close>

definition fido_layout :: "darwin_entry \<Rightarrow> int \<Rightarrow> report_layout option" where
  "fido_layout entry i =
     (case darwin_describe entry of
        (cs, None) \<Rightarrow>
          if 0 \<le> i \<and> nat i < length cs \<and> cl_Supported (cs ! nat i) \<and> darwin_bus (de_bus entry) = BusUSB \<and>
             cl_Usage (cs ! nat i) = \<lparr>us_Page = 0xf1d0, us_ID = 1\<rparr>
          then Some (cl_Layout (cs ! nat i)) else None
      | _ \<Rightarrow> None)"

lemma darwin_endpoint_bus [simp]: "ep_Bus (darwin_endpoint entry) = darwin_bus (de_bus entry)"
  by (simp add: darwin_endpoint_def Let_def)

lemma fido_layout_size:
  "fido_layout entry i = Some layout \<Longrightarrow> rs_Size (rl_Input layout) \<in> {1..4096} \<and> rs_Size (rl_Output layout) \<in> {1..4096}"
  using darwin_describe_None(2) [of entry _ "nat i"]
  by (auto simp: fido_layout_def split: prod.splits option.splits if_splits)

text \<open>The endpoint that \<open>Open\<close> reports: the metadata of the entry with the identifier and the usage of the selected collection.\<close>

definition fido_endpoint :: "darwin_entry \<Rightarrow> int \<Rightarrow> endpoint" where
  "fido_endpoint entry i =
     (darwin_endpoint entry)\<lparr>ep_ID := darwin_endpointID (de_registry_id entry) i, ep_Usage := known \<lparr>us_Page = 0xf1d0, us_ID = 1\<rparr>\<rparr>"

lemma darwin_select_conv:
  "darwin_select expected i entry = Inr (actual, layout) \<longleftrightarrow>
     fido_layout entry i = Some layout \<and> actual = fido_endpoint entry i \<and> darwin_matches expected actual"
proof -
  obtain cs e where d: "darwin_describe entry = (cs, e)" by fastforce
  show ?thesis
  proof (cases e)
    case None
    have idx: "int (cl_Index (cs ! nat i)) = i" if "0 \<le> i" "nat i < length cs"
      using that darwin_describe_None(1) [of entry cs] d None by (metis add_0 nat_0_le nth_map nth_upt)
    show ?thesis
      using d None find_index [OF darwin_describe_None(1), of entry cs i] idx
      by (auto simp: darwin_select_def fido_layout_def fido_endpoint_def Let_def)
  qed (simp add: darwin_select_def fido_layout_def d)
qed

subsection \<open>Native objects are given back\<close>

datatype darwin_resource =
    DarwinInventory (dr_number: int)
  | DarwinEntry (dr_number: int)
  | DarwinConnection (dr_number: int)
  | DarwinBuffer (dr_number: int)

text \<open>A call that allocates: it answers None or Inl and leaves the objects in use alone, or adds a new one.\<close>

definition allocates :: "('w \<Rightarrow> 'r set) \<Rightarrow> ('a \<Rightarrow> 'r) \<Rightarrow> ('w \<Rightarrow> 'a option \<times> 'w) \<Rightarrow> bool" where
  "allocates res sel q \<longleftrightarrow>
     (\<forall>w r w'. q w = (r, w') \<longrightarrow>
        (case r of None \<Rightarrow> res w' = res w | Some x \<Rightarrow> sel x \<notin> res w \<and> res w' = insert (sel x) (res w)))"

definition grants :: "('w \<Rightarrow> 'r set) \<Rightarrow> ('a \<Rightarrow> 'r) \<Rightarrow> ('w \<Rightarrow> ('e + 'a) \<times> 'w) \<Rightarrow> bool" where
  "grants res sel q \<longleftrightarrow>
     (\<forall>w r w'. q w = (r, w') \<longrightarrow>
        (case r of Inl e \<Rightarrow> res w' = res w | Inr x \<Rightarrow> sel x \<notin> res w \<and> res w' = insert (sel x) (res w)))"

text \<open>What \<open>native.h\<close> promises.\<close>

definition darwin_resources :: "'w darwin_sys \<Rightarrow> ('w \<Rightarrow> darwin_resource set) \<Rightarrow> bool" where
  "darwin_resources os res \<longleftrightarrow>
     (\<forall>b. allocates res (\<lambda>n. DarwinInventory (di_native n)) (dy_enumerate os b)) \<and> closes res DarwinInventory (dy_inventory_free os) \<and>
     (\<forall>i b. grants res (\<lambda>e. DarwinEntry (de_native e)) (dy_lookup os i b)) \<and> closes res DarwinEntry (dy_entry_free os) \<and>
     (\<forall>e l. grants res DarwinConnection (dy_connect os e l)) \<and> closes res DarwinConnection (dy_disconnect os) \<and>
     (\<forall>bs. allocates res DarwinBuffer (dy_CBytes os bs)) \<and> closes res DarwinBuffer (dy_free os) \<and>
     (\<forall>c t. io_keeps res (io_wait (dy_read os c t))) \<and> (\<forall>c bs. io_keeps res (io_wait (dy_write os c bs)))"

lemma darwin_resourcesD:
  assumes "darwin_resources os res"
  shows "allocates res (\<lambda>n. DarwinInventory (di_native n)) (dy_enumerate os b)" "closes res DarwinInventory (dy_inventory_free os)"
    "grants res (\<lambda>e. DarwinEntry (de_native e)) (dy_lookup os i b)" "closes res DarwinEntry (dy_entry_free os)"
    "grants res DarwinConnection (dy_connect os e l)" "closes res DarwinConnection (dy_disconnect os)"
    "allocates res DarwinBuffer (dy_CBytes os bs)" "closes res DarwinBuffer (dy_free os)"
    "io_keeps res (io_wait (dy_read os c t))" "io_keeps res (io_wait (dy_write os c bs))"
  using assms by (simp_all add: darwin_resources_def)

text \<open>An allocation with a deferred release, and one whose failure is an error: the call is then one that \<open>opens\<close>.\<close>

lemma keeps_allocated:
  assumes q: "allocates res (\<lambda>x. con (h x)) q" and c: "closes res con c" and b: "\<And>x. io_keeps res (b x)"
  shows "io_keeps res (io_bind (io_ask q) (\<lambda>r. case r of None \<Rightarrow> io_return y | Some x \<Rightarrow> io_defer (c (h x)) (b x)))"
  unfolding io_keeps_def
proof (intro allI impI)
  fix w r w' assume "io_bind (io_ask q) (\<lambda>r. case r of None \<Rightarrow> io_return y | Some x \<Rightarrow> io_defer (c (h x)) (b x)) w = Some (r, w')"
  then obtain o1 w1 where o1: "q w = (o1, w1)"
    "(case o1 of None \<Rightarrow> io_return y | Some x \<Rightarrow> io_defer (c (h x)) (b x)) w1 = Some (r, w')"
    by (auto simp: io_bind_conv io_ask_conv)
  note a = q [unfolded allocates_def, rule_format, OF o1(1)]
  show "res w' = res w"
  proof (cases o1)
    case (Some x)
    with o1(2) obtain w2 where w2: "b x w1 = Some (r, w2)" "w' = snd (c (h x) w2)" by (auto simp: io_defer_conv)
    with Some a io_keepsD [OF b w2(1)] c show ?thesis by (simp add: closes_def)
  qed (use o1(2) a in simp)
qed

definition io_grant :: "('e \<Rightarrow> err) \<Rightarrow> ('w \<Rightarrow> ('e + 'a) \<times> 'w) \<Rightarrow> ('w, 'a) io" where
  "io_grant f q w = (case q w of (r, w') \<Rightarrow> Some (map_sum f id r, w'))"

lemma io_grant_bind:
  "io_bind (io_ask q) (\<lambda>r. case r of Inl e \<Rightarrow> io_fail (f e) | Inr x \<Rightarrow> k x) = io_bind (io_grant f q) k"
  by (rule ext) (simp add: io_bind_def io_ask_def io_grant_def io_fail_def split: prod.splits sum.splits)

lemma io_grant_conv: "io_grant f q w = Some (r, w') \<longleftrightarrow> (\<exists>x. q w = (x, w') \<and> r = map_sum f id x)"
  by (auto simp: io_grant_def split: prod.splits)

lemma opens_grant:
  assumes "grants res sel q"
  shows "opens res sel (io_grant f q)"
  unfolding opens_def
proof (intro allI impI)
  fix w r w' assume "io_grant f q w = Some (r, w')"
  then obtain x where x: "q w = (x, w')" "r = map_sum f id x" by (auto simp: io_grant_conv)
  with assms [unfolded grants_def, rule_format, OF x(1)]
  show "case r of Inl e \<Rightarrow> res w' = res w | Inr y \<Rightarrow> sel y \<notin> res w \<and> res w' = insert (sel y) (res w)"
    by (cases x) simp_all
qed

lemma darwin_entry_open_opens:
  assumes "darwin_resources os res"
  shows "opens res (\<lambda>d. DarwinConnection (dd_native d)) (darwin_entry_open os expected i entry)"
proof -
  have "opens res (\<lambda>d. DarwinConnection (dd_native d))
      (io_bind (io_grant f (dy_connect os entry layout)) (\<lambda>c. io_return \<lparr>dd_native = c, dd_endpoint = actual, dd_layout = layout\<rparr>))"
    for f actual layout
    using opens_grant [OF darwin_resourcesD(5) [OF assms], of f entry layout]
    by (fastforce simp: opens_def io_bind_conv split: sum.splits)
  then show ?thesis
    unfolding darwin_entry_open_def case_prod_unfold io_grant_bind by (rule opens_bind [OF keeps_prim(3)])
qed

lemma darwin_Open_opens:
  assumes "darwin_resources os res"
  shows "opens res (\<lambda>d. DarwinConnection (dd_native d)) (darwin_Open os expected)"
proof -
  have "opens res (\<lambda>d. DarwinConnection (dd_native d)) (io_bind (io_grant (darwin_ioError os ''open'') (dy_lookup os r b))
      (\<lambda>entry. io_defer (dy_entry_free os (de_native entry)) (darwin_entry_open os expected i entry)))" for r b i
    by (rule opens_defer [OF darwin_resourcesD(4) [OF assms] opens_grant [OF darwin_resourcesD(3) [OF assms]]
        darwin_entry_open_opens [OF assms]])
  then show ?thesis
    unfolding darwin_Open_def case_prod_unfold io_grant_bind by (rule opens_bind [OF keeps_prim(3)])
qed

lemma darwin_Enumerate_keeps: "darwin_resources os res \<Longrightarrow> io_keeps res (darwin_Enumerate os b)"
  unfolding darwin_Enumerate_def
  by (rule keeps_allocated [OF darwin_resourcesD(1) darwin_resourcesD(2)]) (simp_all add: keeps_prim)

lemma darwin_Read_keeps: "darwin_resources os res \<Longrightarrow> io_keeps res (darwin_Read os d t)"
  unfolding darwin_Read_def by (intro keep_intros darwin_resourcesD(9))

lemma darwin_Write_keeps: "darwin_resources os res \<Longrightarrow> io_keeps res (darwin_Write os d rep)"
  unfolding darwin_Write_def Let_def
  by (intro keep_intros keeps_allocated [where h = "\<lambda>x. x", OF darwin_resourcesD(7) darwin_resourcesD(8)] darwin_resourcesD(10) | assumption)+

text \<open>The device of a successful \<open>Open\<close>, as the lookup of its entry determines it.\<close>

lemma darwin_Open_conv:
  assumes "darwin_Open os expected w = Some (Inr d, w')"
  obtains r i entry where "darwin_address (ep_ID expected) = Inr (r, i)" "fido_layout entry i = Some (dd_layout d)"
    "dd_endpoint d = fido_endpoint entry i" "darwin_matches expected (dd_endpoint d)"
proof -
  from assms obtain r i entry w1 w2 where a: "darwin_address (ep_ID expected) = Inr (r, i)"
    and o: "darwin_entry_open os expected i entry w1 = Some (Inr d, w2)"
    by (auto simp: darwin_Open_def io_grant_bind io_bind_conv io_defer_conv io_of_def split: sum.splits)
  from o obtain layout where "darwin_select expected i entry = Inr (dd_endpoint d, layout)" "dd_layout d = layout"
    by (auto simp: darwin_entry_open_def case_prod_unfold io_grant_bind io_bind_conv io_of_def split: sum.splits)
  with a that show thesis by (auto simp: darwin_select_conv)
qed

subsection \<open>An endpoint of the inventory leads back to its collection\<close>

text \<open>An entry that is looked up again: the same registry entry with the same descriptor, whose metadata agree with what was known.\<close>

definition found_again :: "darwin_entry \<Rightarrow> darwin_entry \<Rightarrow> bool" where
  "found_again entry entry' \<longleftrightarrow>
     de_registry_id entry' = de_registry_id entry \<and> de_descriptor entry' = de_descriptor entry \<and>
     de_descriptor_length entry' = de_descriptor_length entry \<and> darwin_matches (darwin_endpoint entry) (darwin_endpoint entry')"

lemma found_again_describe: "found_again entry entry' \<Longrightarrow> darwin_describe entry' = darwin_describe entry"
  by (simp add: found_again_def darwin_describe_def)

lemma describe_index: "c \<in> set (fst (darwin_describe entry)) \<Longrightarrow> cl_Index c < 256"
  using Inventory_index by (auto simp: darwin_describe_def split: if_splits)

lemma entry_endpointE:
  assumes "ep \<in> set (entry_endpoints entry)"
  obtains "ep = (darwin_endpoint entry)\<lparr>ep_ID := darwin_endpointID (de_registry_id entry) (- 1)\<rparr>"
  | c where "c \<in> set (fst (darwin_describe entry))" "ep = collection_endpoint entry c"
  using assms by (cases "fst (darwin_describe entry)") (auto simp: entry_endpoints_def)

lemma matches_collection:
  "found_again entry entry' \<Longrightarrow> darwin_matches (collection_endpoint entry c) (collection_endpoint entry' c)"
  by (simp add: found_again_def darwin_matches_def collection_endpoint_def equalField_def)

lemma fido_collection:
  assumes "darwin_describe entry = (cs, None)" and "c \<in> set cs" and "fido_layout entry (int (cl_Index c)) \<noteq> None"
  shows "fido_endpoint entry (int (cl_Index c)) = collection_endpoint entry c"
proof -
  from assms(2) obtain j where j: "j < length cs" "c = cs ! j" by (auto simp: in_set_conv_nth)
  moreover have "cl_Index (cs ! j) = j" using darwin_describe_None(1) [OF assms(1)] j(1) by (metis add_0 nth_map nth_upt)
  ultimately show ?thesis
    using assms(1,3) by (auto simp: fido_layout_def fido_endpoint_def collection_endpoint_def split: if_splits)
qed

lemma select_error: "fido_layout entry i = None \<Longrightarrow> \<exists>e. darwin_select ep i entry = Inl e"
  using darwin_select_conv [of ep i entry] by (cases "darwin_select ep i entry") auto

lemma fido_layout_negative: "i < 0 \<Longrightarrow> fido_layout entry i = None"
  by (simp add: fido_layout_def split: option.splits prod.splits)

lemma entry_endpoint_reopens:
  assumes id: "de_registry_id entry \<noteq> 0" and ep: "ep \<in> set (entry_endpoints entry)"
  shows "\<exists>i. darwin_address (ep_ID ep) = Inr (de_registry_id entry, i) \<and>
    (\<forall>entry'. found_again entry entry' \<longrightarrow>
       (case fido_layout entry' i of
          None \<Rightarrow> \<exists>e. darwin_select ep i entry' = Inl e
        | Some layout \<Rightarrow> darwin_select ep i entry' = Inr (fido_endpoint entry' i, layout)))"
  using ep
proof (cases rule: entry_endpointE)
  case 1
  have "darwin_address (ep_ID ep) = Inr (de_registry_id entry, - 1)" using darwin_address_ID [OF id, of "- 1"] 1 by simp
  moreover have "\<exists>e. darwin_select ep (- 1) entry' = Inl e" for entry' by (rule select_error) (simp add: fido_layout_negative)
  ultimately show ?thesis by (intro exI [of _ "- 1"]) (simp add: fido_layout_negative)
next
  case (2 c)
  let ?i = "int (cl_Index c)"
  have "darwin_address (ep_ID ep) = Inr (de_registry_id entry, ?i)"
    using darwin_address_ID [OF id, of ?i] describe_index [OF 2(1)] 2(2) by (simp add: collection_endpoint_def)
  moreover have "darwin_select ep ?i entry' = Inr (fido_endpoint entry' ?i, layout)"
    if a: "found_again entry entry'" and l: "fido_layout entry' ?i = Some layout" for entry' layout
  proof -
    obtain cs where cs: "darwin_describe entry' = (cs, None)" using l by (auto simp: fido_layout_def split: prod.splits option.splits)
    have "fido_endpoint entry' ?i = collection_endpoint entry' c"
      by (rule fido_collection [OF cs]) (use 2(1) found_again_describe [OF a, symmetric] cs l in simp_all)
    with l 2(2) matches_collection [OF a, of c] show ?thesis by (simp add: darwin_select_conv)
  qed
  ultimately show ?thesis by (intro exI [of _ ?i]) (auto split: option.splits intro: select_error)
qed

lemma snapshot_subset: "set (sn_Endpoints (darwin_snapshot native)) \<subseteq> (\<Union>entry \<in> set (di_entries native). set (entry_endpoints entry))"
  by (auto simp: snapshot_endpoints(1) all_endpoints_def dest!: in_set_takeD split: if_splits)

subsection \<open>A sample machine\<close>

text \<open>One USB security key; the world is the list of native objects in use, which are numbered.\<close>

definition mac_fresh :: "darwin_resource list \<Rightarrow> int" where
  "mac_fresh w = int (Suc (sum_list (map (nat \<circ> dr_number) w)))"

definition mac_entry :: "int \<Rightarrow> darwin_entry" where
  "mac_entry n =
     \<lparr>de_native = n, de_registry_id = 0x100000abc, de_known = 7, de_vendor = 0x1050, de_product = 0x0407, de_interface_number = 1,
      de_bus = 1, de_path = ''io'', de_serial = [], de_manufacturer = [], de_product_name = [],
      de_descriptor = fido_descriptor, de_descriptor_length = int (length fido_descriptor)\<rparr>"

definition sample_mac :: "darwin_resource list darwin_sys" where
  "sample_mac =
     \<lparr>dy_enumerate = (\<lambda>b w. let n = mac_fresh w in
        (Some \<lparr>di_native = n, di_entries = [mac_entry 0], di_complete = True, di_limited = False, di_error = 0\<rparr>, DarwinInventory n # w)),
      dy_inventory_free = (\<lambda>n w. (None, removeAll (DarwinInventory n) w)),
      dy_lookup = (\<lambda>r b w. if r = 0x100000abc then let n = mac_fresh w in (Inr (mac_entry n), DarwinEntry n # w) else (Inl kIOReturnNoDevice, w)),
      dy_entry_free = (\<lambda>n w. (None, removeAll (DarwinEntry n) w)),
      dy_connect = (\<lambda>e l w. let n = mac_fresh w in (Inr n, DarwinConnection n # w)),
      dy_read = (\<lambda>c t w. Some ((0, 0, replicate 64 0), w)),
      dy_CBytes = (\<lambda>bs w. let n = mac_fresh w in (Some n, DarwinBuffer n # w)),
      dy_free = (\<lambda>n w. (None, removeAll (DarwinBuffer n) w)),
      dy_write = (\<lambda>c bs w. Some (\<lparr>dw_io = 0, dw_setup_error = 0, dw_restore_error = 0, dw_submitted = True, dw_completed = True\<rparr>, w)),
      dy_disconnect = (\<lambda>n w. (0, removeAll (DarwinConnection n) w)),
      dy_error_message = (\<lambda>c. ''no device''), dy_errno_message = (\<lambda>c. ''error'')\<rparr>"

lemma mac_fresh: "x \<in> set w \<Longrightarrow> dr_number x \<noteq> mac_fresh w"
  using member_le_sum_list [of "nat (dr_number x)" "map (nat \<circ> dr_number) w"] by (force simp: mac_fresh_def)

lemma mac_fresh_notin:
  "DarwinInventory (mac_fresh w) \<notin> set w" "DarwinEntry (mac_fresh w) \<notin> set w"
  "DarwinConnection (mac_fresh w) \<notin> set w" "DarwinBuffer (mac_fresh w) \<notin> set w"
  using mac_fresh [of _ w] by (metis darwin_resource.sel)+

lemma sample_mac_resources: "darwin_resources sample_mac set"
  by (auto simp: darwin_resources_def sample_mac_def allocates_def grants_def closes_def io_keeps_def io_wait_def Let_def mac_entry_def
    mac_fresh_notin)

lemma mac_describe:
  "darwin_describe (mac_entry n) =
     ([\<lparr>cl_Index = 0, cl_Usage = \<lparr>us_Page = 0xF1D0, us_ID = 1\<rparr>,
        cl_Layout = \<lparr>rl_Input = \<lparr>rs_ID = 0, rs_Size = 64\<rparr>, rl_Output = \<lparr>rs_ID = 0, rs_Size = 64\<rparr>\<rparr>, cl_Supported = True\<rparr>], None)"
proof -
  have "length fido_descriptor = 16" by (simp add: fido_descriptor_def)
  then show ?thesis by (simp add: darwin_describe_def mac_entry_def MaxDescriptorSize_def Inventory_def Parse_fido)
qed

definition mac_layout :: report_layout where
  "mac_layout = \<lparr>rl_Input = \<lparr>rs_ID = 0, rs_Size = 64\<rparr>, rl_Output = \<lparr>rs_ID = 0, rs_Size = 64\<rparr>\<rparr>"

definition mac_endpoint :: endpoint where
  "mac_endpoint = fido_endpoint (mac_entry 0) 0"

lemma mac_fido: "fido_layout (mac_entry n) 0 = Some mac_layout" "fido_endpoint (mac_entry n) 0 = mac_endpoint"
  by (simp_all add: fido_layout_def mac_describe mac_layout_def mac_endpoint_def)
    (simp_all add: mac_entry_def darwin_bus_def fido_endpoint_def darwin_endpoint_def)

lemma mac_address: "darwin_address (ep_ID mac_endpoint) = Inr (0x100000abc, 0)"
  using darwin_address_ID [of "0x100000abc" 0] by (simp add: mac_endpoint_def fido_endpoint_def mac_entry_def)

lemma mac_select: "darwin_select mac_endpoint 0 (mac_entry n) = Inr (mac_endpoint, mac_layout)"
  by (simp add: darwin_select_conv mac_fido darwin_matches_def equalField_def)

lemma mac_open:
  "darwin_Open sample_mac mac_endpoint [] =
     Some (Inr \<lparr>dd_native = 2, dd_endpoint = mac_endpoint, dd_layout = mac_layout\<rparr>, [DarwinConnection 2])"
proof -
  have calls: "dy_lookup sample_mac 0x100000abc b [] = (Inr (mac_entry 1), [DarwinEntry 1])"
    "dy_connect sample_mac e l [DarwinEntry 1] = (Inr 2, [DarwinConnection 2, DarwinEntry 1])"
    "dy_entry_free sample_mac 1 [DarwinConnection 2, DarwinEntry 1] = (None, [DarwinConnection 2])"
    "de_native (mac_entry 1) = 1" for b e l
    by (simp_all add: sample_mac_def mac_fresh_def mac_entry_def)
  then have "darwin_entry_open sample_mac mac_endpoint 0 (mac_entry 1) [DarwinEntry 1] =
      Some (Inr \<lparr>dd_native = 2, dd_endpoint = mac_endpoint, dd_layout = mac_layout\<rparr>, [DarwinConnection 2, DarwinEntry 1])"
    by (simp add: darwin_entry_open_def mac_select io_bind_def io_of_def io_ask_def io_return_def)
  with calls show ?thesis by (simp add: darwin_Open_def mac_address io_bind_def io_of_def io_ask_def io_defer_eq)
qed

lemma mac_enumerate:
  "dy_enumerate sample_mac b [] =
     (Some \<lparr>di_native = 1, di_entries = [mac_entry 0], di_complete = True, di_limited = False, di_error = 0\<rparr>, [DarwinInventory 1])"
  by (simp add: sample_mac_def mac_fresh_def)

lemma mac_endpoints: "all_endpoints [mac_entry n] = [mac_endpoint]"
  by (simp add: entry_endpoints_def mac_describe collection_endpoint_def mac_endpoint_def fido_endpoint_def)
    (simp add: mac_entry_def darwin_endpoint_def)

subsection \<open>Properties\<close>

text \<open>C20. The macOS open transaction. Whatever the native functions answer, an \<open>Open\<close> that fails gives back every native object,
  and one that succeeds keeps exactly the connection of its device, which \<open>Close\<close> removes; an inventory, a \<open>Read\<close> and a
  \<open>Write\<close> keep none. An open device has the requested identifier, which names a registry entry, is a FIDO collection on USB,
  and passes the checks of \<open>Native.Open\<close> if and only if the path, which the driver does not compare, is the requested one.\<close>

theorem darwin_open_owns:
  assumes os: "darwin_resources os res" and run: "darwin_Open os expected w = Some (r, w')"
  shows "(case r of
      Inl e \<Rightarrow> res w' = res w
    | Inr d \<Rightarrow> DarwinConnection (dd_native d) \<notin> res w \<and> res w' = insert (DarwinConnection (dd_native d)) (res w) \<and>
        (\<forall>v. res (snd (darwin_Close os d v)) = res v - {DarwinConnection (dd_native d)}) \<and>
        (\<exists>n i. darwin_address (ep_ID (dd_endpoint d)) = Inr (n, i)) \<and> ep_ID (dd_endpoint d) = ep_ID expected \<and>
        ep_Bus (dd_endpoint d) = BusUSB \<and> ep_Usage (dd_endpoint d) = known \<lparr>us_Page = 0xf1d0, us_ID = 1\<rparr> \<and>
        (open_validate expected (Some \<lparr>nd_endpoint = dd_endpoint d, nd_layout = dd_layout d\<rparr>) None = None \<longleftrightarrow>
           ep_Path expected = [] \<or> ep_Path expected = ep_Path (dd_endpoint d))) \<and>
    io_keeps res (darwin_Enumerate os strings) \<and> io_keeps res (darwin_Read os dev wait) \<and> io_keeps res (darwin_Write os dev rep)"
proof (intro conjI darwin_Enumerate_keeps [OF os] darwin_Read_keeps [OF os] darwin_Write_keeps [OF os])
  note opened = darwin_Open_opens [OF os, unfolded opens_def, rule_format, OF run]
  show "case r of
      Inl e \<Rightarrow> res w' = res w
    | Inr d \<Rightarrow> DarwinConnection (dd_native d) \<notin> res w \<and> res w' = insert (DarwinConnection (dd_native d)) (res w) \<and>
        (\<forall>v. res (snd (darwin_Close os d v)) = res v - {DarwinConnection (dd_native d)}) \<and>
        (\<exists>n i. darwin_address (ep_ID (dd_endpoint d)) = Inr (n, i)) \<and> ep_ID (dd_endpoint d) = ep_ID expected \<and>
        ep_Bus (dd_endpoint d) = BusUSB \<and> ep_Usage (dd_endpoint d) = known \<lparr>us_Page = 0xf1d0, us_ID = 1\<rparr> \<and>
        (open_validate expected (Some \<lparr>nd_endpoint = dd_endpoint d, nd_layout = dd_layout d\<rparr>) None = None \<longleftrightarrow>
           ep_Path expected = [] \<or> ep_Path expected = ep_Path (dd_endpoint d))"
  proof (cases r)
    case (Inr d)
    from run [unfolded Inr] obtain n i entry where o: "darwin_address (ep_ID expected) = Inr (n, i)"
      "fido_layout entry i = Some (dd_layout d)" "dd_endpoint d = fido_endpoint entry i" "darwin_matches expected (dd_endpoint d)"
      by (rule darwin_Open_conv)
    have "ep_Bus (dd_endpoint d) = BusUSB" "ep_Usage (dd_endpoint d) = known \<lparr>us_Page = 0xf1d0, us_ID = 1\<rparr>"
      using o(2,3) by (auto simp: fido_layout_def fido_endpoint_def split: prod.splits option.splits if_splits)
    moreover have "res (snd (darwin_Close os d v)) = res v - {DarwinConnection (dd_native d)}" for v
      using darwin_resourcesD(6) [OF os] by (simp add: darwin_Close_def closes_def split: prod.splits) (metis snd_conv)
    moreover have "ep_ID (dd_endpoint d) = ep_ID expected" using o(4) by (simp add: darwin_matches_def)
    moreover have "matchesEndpoint expected (dd_endpoint d) \<longleftrightarrow> ep_Path expected = [] \<or> ep_Path expected = ep_Path (dd_endpoint d)"
      using o(4) by (auto simp: matchesEndpoint_def darwin_matches_def matchesField_def equalField_def)
    ultimately show ?thesis
      using Inr opened o(1) fido_layout_size [OF o(2)] by (auto simp: open_validate_None device_accepted_def)
  qed (use opened in simp)
qed

theorem darwin_open_owns_witness:
  "darwin_Open sample_mac mac_endpoint [] =
     Some (Inr \<lparr>dd_native = 2, dd_endpoint = mac_endpoint, dd_layout = mac_layout\<rparr>, [DarwinConnection 2]) \<and>
   open_validate mac_endpoint (Some \<lparr>nd_endpoint = mac_endpoint, nd_layout = mac_layout\<rparr>) None = None \<and>
   set (snd (darwin_Close sample_mac \<lparr>dd_native = 2, dd_endpoint = mac_endpoint, dd_layout = mac_layout\<rparr> [DarwinConnection 2])) = {}"
  using darwin_open_owns [OF sample_mac_resources mac_open] mac_open by simp

text \<open>C21. The macOS inventory is exact. When the native traversal answers, with the 128 entries that
  \<open>HID_MAX_DEVICES\<close> allows at most, \<open>Enumerate\<close> returns one endpoint for every Application
  collection of every entry, and one for an entry whose collections cannot be read, in the order of the identifiers; beyond
  the limit of the portable layer it returns the first ones. It says that it is complete if and only if the traversal was, the
  limit was not passed and the collections of every entry were read, and the portable layer cuts nothing off.\<close>

theorem darwin_inventory_exact:
  assumes "dy_enumerate os strings w = (Some native, w1)" and "di_error native = 0"
    and "length (di_entries native) \<le> MaxInventoryDevices"
  shows "\<exists>s w'. darwin_Enumerate os strings w = Some (Inr (s, None), w') \<and>
    sn_Endpoints s =
      (if length (all_endpoints (di_entries native)) \<le> MaxInventoryEndpoints then sort_key ep_ID (all_endpoints (di_entries native))
       else take MaxInventoryEndpoints (all_endpoints (di_entries native))) \<and>
    (sn_Complete s \<longleftrightarrow> di_complete native \<and> length (all_endpoints (di_entries native)) \<le> MaxInventoryEndpoints \<and>
       (\<forall>entry \<in> set (di_entries native). fst (darwin_describe entry) \<noteq> [])) \<and>
    enumerate_bound (s, None) = (s, None)"
proof -
  have "enumerate_bound (darwin_snapshot native, None) = (darwin_snapshot native, None)"
    using snapshot_warnings [of native] assms(3)
    by (simp add: enumerate_bound_def snapshot_endpoints(1) MaxInventoryDevices_def MaxInventoryEndpoints_def)
  moreover have "darwin_Enumerate os strings w = Some (Inr (darwin_snapshot native, None), snd (dy_inventory_free os (di_native native) w1))"
    using assms by (simp add: darwin_Enumerate_def io_bind_def io_ask_def io_defer_eq)
  ultimately show ?thesis
    using snapshot_endpoints [of native] by (intro exI [of _ "darwin_snapshot native"] exI conjI) assumption+
qed

theorem darwin_inventory_exact_witness:
  "\<exists>s w'. darwin_Enumerate sample_mac False [] = Some (Inr (s, None), w') \<and> sn_Endpoints s = [mac_endpoint] \<and> sn_Complete s"
proof -
  have "1 \<le> MaxInventoryEndpoints" "1 \<le> MaxInventoryDevices" by (simp_all add: MaxInventoryEndpoints_def MaxInventoryDevices_def)
  with darwin_inventory_exact [OF mac_enumerate, of False] show ?thesis by (auto simp: mac_endpoints mac_describe simp del: all_endpoints_simps)
qed

text \<open>Every endpoint of the macOS inventory leads back to the entry and the collection it was made from. When \<open>Open\<close> finds the
  entry again, with the same descriptor and metadata that agree, its checks accept the endpoint if and only if the
  collection is a supported FIDO collection on USB of a descriptor that parses, and select the layout of that collection. An
  identifier is accepted if and only if it is the canonical one of its numbers.\<close>

theorem darwin_inventory_reopens:
  assumes "\<forall>entry \<in> set (di_entries native). de_registry_id entry \<noteq> 0" and "ep \<in> set (sn_Endpoints (darwin_snapshot native))"
  shows "(\<exists>entry \<in> set (di_entries native). \<exists>i. darwin_address (ep_ID ep) = Inr (de_registry_id entry, i) \<and>
      (\<forall>entry'. found_again entry entry' \<longrightarrow>
         (case fido_layout entry' i of
            None \<Rightarrow> \<exists>e. darwin_select ep i entry' = Inl e
          | Some layout \<Rightarrow> darwin_select ep i entry' = Inr (fido_endpoint entry' i, layout)))) \<and>
    (darwin_address t = Inr (n, j) \<longleftrightarrow> n \<noteq> 0 \<and> - 1 \<le> j \<and> j < 2 ^ 63 \<and> t = darwin_endpointID n j)"
proof
  from assms(2) snapshot_subset obtain entry where "entry \<in> set (di_entries native)" "ep \<in> set (entry_endpoints entry)" by blast
  with assms(1) entry_endpoint_reopens show "\<exists>entry \<in> set (di_entries native). \<exists>i. darwin_address (ep_ID ep) = Inr (de_registry_id entry, i) \<and>
      (\<forall>entry'. found_again entry entry' \<longrightarrow>
         (case fido_layout entry' i of
            None \<Rightarrow> \<exists>e. darwin_select ep i entry' = Inl e
          | Some layout \<Rightarrow> darwin_select ep i entry' = Inr (fido_endpoint entry' i, layout)))" by blast
  show "darwin_address t = Inr (n, j) \<longleftrightarrow> n \<noteq> 0 \<and> - 1 \<le> j \<and> j < 2 ^ 63 \<and> t = darwin_endpointID n j"
    using darwin_address_InrD [of t n j] darwin_address_ID [of n j] by blast
qed

theorem darwin_inventory_reopens_witness:
  "darwin_select mac_endpoint 0 (mac_entry 7) = Inr (mac_endpoint, mac_layout)"
proof -
  let ?native = "\<lparr>di_native = 1, di_entries = [mac_entry 0], di_complete = True, di_limited = False, di_error = 0\<rparr>"
  have "mac_endpoint \<in> set (sn_Endpoints (darwin_snapshot ?native))"
    by (simp add: snapshot_endpoints mac_endpoints MaxInventoryEndpoints_def del: all_endpoints_simps)
  moreover have "de_registry_id (mac_entry 0) \<noteq> 0" by (simp add: mac_entry_def)
  moreover have "found_again (mac_entry 0) (mac_entry 7)"
    by (simp add: found_again_def mac_entry_def darwin_endpoint_def darwin_matches_def equalField_def)
  ultimately show ?thesis
    using darwin_inventory_reopens [of ?native mac_endpoint "[]" 0 0] by (auto simp: mac_address mac_fido split: option.splits)
qed

end
