(* ===== verification/DarwinProbe.thy ===== *)
theory DarwinProbe
  imports DarwinDriver
begin

text \<open>
  The probes of the macOS diagnostics build, \<open>pkg/hid/internal/darwin/diagnostics_darwin.go\<close>: configuration, synthetic devices, attaching
  to a native device, waiting for a phase and closing. The functions of \<open>diagnostics_native.h\<close> are parameters. The theorems say who
  owns the native objects and that a wait ends with its context.
\<close>

subsection \<open>Values\<close>

record probe_config =
  cf_InitialSIGURGBlocked :: bool
  cf_BlockUnrelatedSignal :: bool
  cf_InjectSIGURG :: bool
  cf_HoldNative :: bool
  cf_StrictEntry :: bool
  cf_SetupError :: int
  cf_RestoreError :: int
  cf_NativeError :: u32

definition PhaseNative :: byte where "PhaseNative = 1"
definition PhaseWriterExited :: byte where "PhaseWriterExited = 2"
definition PhaseWriterJoined :: byte where "PhaseWriterJoined = 4"
definition PhaseDeviceClosed :: byte where "PhaseDeviceClosed = 8"

record probe_snapshot =
  sp_Generation :: u64
  sp_Writes :: u64
  sp_SetReportCalls :: u64
  sp_KillAttempts :: u64
  sp_KillGeneration :: u64
  sp_EntryGeneration :: u64
  sp_Synthetic :: bool
  sp_Armed :: bool
  sp_Phases :: byte
  sp_KillError :: int
  sp_InitialMaskError :: int
  sp_MaskQueryError :: int
  sp_BeforeSIGURGBlocked :: bool
  sp_BeforeUnrelatedBlocked :: bool
  sp_CriticalSIGURGBlocked :: bool
  sp_PendingSIGURG :: bool
  sp_AfterSIGURGBlocked :: bool
  sp_AfterUnrelatedBlocked :: bool
  sp_MaskRestored :: bool
  sp_SetupError :: int
  sp_RestoreError :: int
  sp_NativeError :: u32
  sp_Submitted :: bool
  sp_Completed :: bool
  sp_WriterExited :: bool
  sp_WriterJoined :: bool
  sp_DeviceClosed :: bool
  sp_EntryConfirmed :: bool
  sp_EntrySIGURGBlocked :: bool
  sp_EntryPendingSIGURG :: bool
  sp_EntryMaskQueryError :: int

definition zero_probe :: probe_snapshot where
  "zero_probe =
     \<lparr>sp_Generation = 0, sp_Writes = 0, sp_SetReportCalls = 0, sp_KillAttempts = 0, sp_KillGeneration = 0, sp_EntryGeneration = 0,
      sp_Synthetic = False, sp_Armed = False, sp_Phases = 0, sp_KillError = 0, sp_InitialMaskError = 0, sp_MaskQueryError = 0,
      sp_BeforeSIGURGBlocked = False, sp_BeforeUnrelatedBlocked = False, sp_CriticalSIGURGBlocked = False, sp_PendingSIGURG = False,
      sp_AfterSIGURGBlocked = False, sp_AfterUnrelatedBlocked = False, sp_MaskRestored = False, sp_SetupError = 0, sp_RestoreError = 0,
      sp_NativeError = 0, sp_Submitted = False, sp_Completed = False, sp_WriterExited = False, sp_WriterJoined = False,
      sp_DeviceClosed = False, sp_EntryConfirmed = False, sp_EntrySIGURGBlocked = False, sp_EntryPendingSIGURG = False,
      sp_EntryMaskQueryError = 0\<rparr>"

text \<open>The native functions. \<open>dp_read\<close> answers the fields of the native snapshot as the Go fields they are copied to. \<open>dp_connect\<close> fails
  with a thread error; \<open>dp_wait\<close> waits for 20 milliseconds at most.\<close>

record 'c probe_sys =
  dp_new :: "'c \<Rightarrow> int option \<times> 'c"
  dp_connect :: "int \<Rightarrow> 'c \<Rightarrow> (int + int) \<times> 'c"
  dp_attach :: "int \<Rightarrow> int \<Rightarrow> 'c \<Rightarrow> int \<times> 'c"
  dp_arm :: "int \<Rightarrow> probe_config \<Rightarrow> 'c \<Rightarrow> int \<times> 'c"
  dp_read :: "int \<Rightarrow> 'c \<Rightarrow> probe_snapshot \<times> 'c"
  dp_wait :: "int \<Rightarrow> byte \<Rightarrow> 'c \<Rightarrow> int \<times> 'c"
  dp_release :: "int \<Rightarrow> 'c \<Rightarrow> 'c"
  dp_close :: "int \<Rightarrow> 'c \<Rightarrow> 'c"

record darwin_probe =
  pb_native :: "int option"
  pb_last :: probe_snapshot

type_synonym 'c probe_state = "darwin_probe \<times> 'c"

subsection \<open>Operations\<close>

definition validateConfig :: "probe_config \<Rightarrow> err option" where
  "validateConfig config =
     (if cf_SetupError config < 0 \<or> cf_SetupError config > 2 ^ 31 - 1 \<or> cf_RestoreError config < 0 \<or> cf_RestoreError config > 2 ^ 31 - 1
      then Some (driver_error ''diagnostic config'' KindInvalidArgument ''fault codes must be nonnegative native integers'')
      else None)"

definition newProbe :: "'c probe_sys \<Rightarrow> 'c \<Rightarrow> (err + darwin_probe) \<times> 'c" where
  "newProbe ps c =
     (case dp_new ps c of
        (None, c') \<Rightarrow> (Inl (driver_error ''diagnostic probe'' KindResourceLimit ''native probe allocation or 64-probe limit''), c')
      | (Some n, c') \<Rightarrow> (Inr \<lparr>pb_native = Some n, pb_last = zero_probe\<rparr>, c'))"

definition probe_snapshotLocked :: "'c probe_sys \<Rightarrow> 'c probe_state \<Rightarrow> probe_snapshot \<times> 'c probe_state" where
  "probe_snapshotLocked ps st =
     (case st of (p, c) \<Rightarrow>
        case pb_native p of
          None \<Rightarrow> (pb_last p, st)
        | Some n \<Rightarrow> (case dp_read ps n c of (s, c') \<Rightarrow> (s, (p\<lparr>pb_last := s\<rparr>, c'))))"

definition Probe_Arm :: "'c darwin_sys \<Rightarrow> 'c probe_sys \<Rightarrow> probe_config \<Rightarrow> 'c probe_state \<Rightarrow> err option \<times> 'c probe_state" where
  "Probe_Arm os ps config st =
     (case validateConfig config of
        Some e \<Rightarrow> (Some e, st)
      | None \<Rightarrow>
          (case st of (p, c) \<Rightarrow>
             case pb_native p of
               None \<Rightarrow> (Some (driver_error ''diagnostic arm'' KindClosed ''probe closed''), st)
             | Some n \<Rightarrow>
                 (case dp_read ps n c of (native, c1) \<Rightarrow>
                    if \<not> sp_Synthetic native \<and> cf_NativeError config \<noteq> 0
                    then (Some (driver_error ''diagnostic arm'' KindInvalidArgument ''native result substitution requires a synthetic device''), (p, c1))
                    else case dp_arm ps n config c1 of
                      (code, c2) \<Rightarrow> (if code \<noteq> 0 then Some (darwin_pthreadError os ''diagnostic arm'' code) else None, (p, c2)))))"

definition Probe_Release :: "'c probe_sys \<Rightarrow> 'c probe_state \<Rightarrow> 'c probe_state" where
  "Probe_Release ps st = (case st of (p, c) \<Rightarrow> case pb_native p of None \<Rightarrow> st | Some n \<Rightarrow> (p, dp_release ps n c))"

definition Probe_Close :: "'c probe_sys \<Rightarrow> 'c probe_state \<Rightarrow> 'c probe_state" where
  "Probe_Close ps st =
     (case pb_native (fst st) of
        None \<Rightarrow> st
      | Some n \<Rightarrow> (case probe_snapshotLocked ps st of (s, (p, c)) \<Rightarrow> (p\<lparr>pb_native := None\<rparr>, dp_close ps n c)))"

definition synthetic_device :: "int \<Rightarrow> u64 \<Rightarrow> darwin_device" where
  "synthetic_device connection generation =
     \<lparr>dd_native = connection,
      dd_endpoint = zero_endpoint\<lparr>ep_ID := ''diagnostic:'' @ nat_decimal (unat generation), ep_Bus := BusUSB,
        ep_Usage := known \<lparr>us_Page = 0xf1d0, us_ID = 1\<rparr>\<rparr>,
      dd_layout = \<lparr>rl_Input = \<lparr>rs_ID = 0, rs_Size = 64\<rparr>, rl_Output = \<lparr>rs_ID = 0, rs_Size = 64\<rparr>\<rparr>\<rparr>"

text \<open>\<open>NewSynthetic\<close>; \<open>synthetic_start\<close> is what follows the new probe.\<close>

definition synthetic_start ::
  "'c darwin_sys \<Rightarrow> 'c probe_sys \<Rightarrow> probe_config \<Rightarrow> darwin_probe \<Rightarrow> int \<Rightarrow> 'c \<Rightarrow> (err + darwin_device \<times> darwin_probe) \<times> 'c" where
  "synthetic_start os ps config probe n c =
     (case dp_connect ps n c of
        (Inl nativeError, c1) \<Rightarrow>
          (Inl (darwin_pthreadError os ''diagnostic synthetic open'' nativeError), snd (Probe_Close ps (probe, c1)))
      | (Inr connection, c1) \<Rightarrow>
          (case probe_snapshotLocked ps (probe, c1) of (state, st1) \<Rightarrow>
             let d = synthetic_device connection (sp_Generation state) in
             case Probe_Arm os ps config st1 of
               (Some e, (p2, c2)) \<Rightarrow> (Inl e, snd (Probe_Close ps (p2, snd (darwin_Close os d c2))))
             | (None, (p2, c2)) \<Rightarrow> (Inr (d, p2), c2)))"

definition NewSynthetic ::
  "'c darwin_sys \<Rightarrow> 'c probe_sys \<Rightarrow> probe_config \<Rightarrow> 'c \<Rightarrow> (err + darwin_device \<times> darwin_probe) \<times> 'c" where
  "NewSynthetic os ps config c =
     (case validateConfig config of
        Some e \<Rightarrow> (Inl e, c)
      | None \<Rightarrow>
          (case newProbe ps c of
             (Inl e, c1) \<Rightarrow> (Inl e, c1)
           | (Inr probe, c1) \<Rightarrow> (case pb_native probe of None \<Rightarrow> (Inl GoPanic, c1) | Some n \<Rightarrow> synthetic_start os ps config probe n c1)))"

text \<open>\<open>Attach\<close>; None stands for a device that is not one of this driver.\<close>

definition Attach :: "'c darwin_sys \<Rightarrow> 'c probe_sys \<Rightarrow> darwin_device option \<Rightarrow> 'c \<Rightarrow> (err + darwin_probe) \<times> 'c" where
  "Attach os ps nativeDevice c =
     (case nativeDevice of
        None \<Rightarrow> (Inl (driver_error ''diagnostic attach'' KindInvalidArgument ''expected an open Darwin native device''), c)
      | Some d \<Rightarrow>
          if dd_native d = 0
          then (Inl (driver_error ''diagnostic attach'' KindInvalidArgument ''expected an open Darwin native device''), c)
          else case newProbe ps c of
            (Inl e, c1) \<Rightarrow> (Inl e, c1)
          | (Inr probe, c1) \<Rightarrow>
              (case pb_native probe of
                 None \<Rightarrow> (Inl GoPanic, c1)
               | Some n \<Rightarrow>
                   (case dp_attach ps (dd_native d) n c1 of
                      (code, c2) \<Rightarrow>
                        if code \<noteq> 0 then (Inl (darwin_pthreadError os ''diagnostic attach'' code), snd (Probe_Close ps (probe, c2)))
                        else (Inr probe, c2))))"

text \<open>\<open>Wait\<close>. \<open>others\<close> stands for the calls of other goroutines that take the lock first.\<close>

partial_function (option) probe_wait_loop ::
  "'c darwin_sys \<Rightarrow> 'c probe_sys \<Rightarrow> ('c \<Rightarrow> err option \<times> 'c) \<Rightarrow> ('c probe_state \<Rightarrow> 'c probe_state) \<Rightarrow> byte \<Rightarrow> 'c probe_state \<Rightarrow>
   ((probe_snapshot \<times> err option) \<times> 'c probe_state) option" where
  "probe_wait_loop os ps ctx others phase st =
     (case ctx (snd st) of
        (Some e, c1) \<Rightarrow> (case probe_snapshotLocked ps (others (fst st, c1)) of (s, st') \<Rightarrow> Some ((s, Some e), st'))
      | (None, c1) \<Rightarrow>
          (let st1 = others (fst st, c1) in
           case pb_native (fst st1) of
             None \<Rightarrow> Some ((pb_last (fst st1), Some (driver_error ''diagnostic wait'' KindClosed ''probe closed'')), st1)
           | Some n \<Rightarrow>
               (case dp_wait ps n phase (snd st1) of (code, c2) \<Rightarrow>
                case probe_snapshotLocked ps (fst st1, c2) of (s, st2) \<Rightarrow>
                  if code = 0 then Some ((s, None), st2)
                  else if code \<noteq> ETIMEDOUT then Some ((s, Some (darwin_pthreadError os ''diagnostic wait'' code)), st2)
                  else probe_wait_loop os ps ctx others phase st2)))"

definition Probe_Wait ::
  "'c darwin_sys \<Rightarrow> 'c probe_sys \<Rightarrow> ('c \<Rightarrow> err option \<times> 'c) option \<Rightarrow> ('c probe_state \<Rightarrow> 'c probe_state) \<Rightarrow> byte \<Rightarrow> 'c probe_state \<Rightarrow>
   ((probe_snapshot \<times> err option) \<times> 'c probe_state) option" where
  "Probe_Wait os ps ctx others phase st =
     (let valid = PhaseNative OR PhaseWriterExited OR PhaseWriterJoined OR PhaseDeviceClosed in
      case ctx of
        Some poll \<Rightarrow>
          if phase = 0 \<or> phase AND NOT valid \<noteq> 0
          then Some ((zero_probe, Some (driver_error ''diagnostic wait'' KindInvalidArgument ''invalid context or phase'')), st)
          else probe_wait_loop os ps poll others phase st
      | None \<Rightarrow> Some ((zero_probe, Some (driver_error ''diagnostic wait'' KindInvalidArgument ''invalid context or phase'')), st))"

subsection \<open>Ownership\<close>

datatype probe_object = ProbeObject int | ProbeConnection int

text \<open>What the native functions promise of the references and connections that the caller holds.\<close>

definition probe_resources :: "'c darwin_sys \<Rightarrow> 'c probe_sys \<Rightarrow> ('c \<Rightarrow> probe_object set) \<Rightarrow> bool" where
  "probe_resources os ps res \<longleftrightarrow>
     allocates res ProbeObject (dp_new ps) \<and> (\<forall>n. grants res ProbeConnection (dp_connect ps n)) \<and>
     (\<forall>d n. ask_keeps res (dp_attach ps d n)) \<and> (\<forall>n f. ask_keeps res (dp_arm ps n f)) \<and> (\<forall>n. ask_keeps res (dp_read ps n)) \<and>
     (\<forall>n c. res (dp_close ps n c) = res c - {ProbeObject n}) \<and> closes res ProbeConnection (dy_disconnect os)"

lemma ask_keepsD: "ask_keeps f q \<Longrightarrow> q w = (r, w') \<Longrightarrow> f w' = f w"
  unfolding ask_keeps_def by (metis snd_conv)

lemma allocatesD:
  "allocates res sel q \<Longrightarrow> q w = (None, w') \<Longrightarrow> res w' = res w"
  "allocates res sel q \<Longrightarrow> q w = (Some x, w') \<Longrightarrow> sel x \<notin> res w \<and> res w' = insert (sel x) (res w)"
  unfolding allocates_def by fastforce+

lemma grantsD:
  "grants res sel q \<Longrightarrow> q w = (Inl e, w') \<Longrightarrow> res w' = res w"
  "grants res sel q \<Longrightarrow> q w = (Inr x, w') \<Longrightarrow> sel x \<notin> res w \<and> res w' = insert (sel x) (res w)"
  unfolding grants_def by fastforce+

lemma probe_resourcesD:
  assumes "probe_resources os ps res"
  shows "dp_new ps c = (None, c') \<Longrightarrow> res c' = res c"
    "dp_new ps c = (Some n, c') \<Longrightarrow> ProbeObject n \<notin> res c \<and> res c' = insert (ProbeObject n) (res c)"
    "dp_connect ps n c = (Inl e, c') \<Longrightarrow> res c' = res c"
    "dp_connect ps n c = (Inr m, c') \<Longrightarrow> ProbeConnection m \<notin> res c \<and> res c' = insert (ProbeConnection m) (res c)"
    "dp_attach ps k n c = (i, c') \<Longrightarrow> res c' = res c" "dp_arm ps n f c = (i, c') \<Longrightarrow> res c' = res c"
    "dp_read ps n c = (s, c') \<Longrightarrow> res c' = res c" "res (dp_close ps n c) = res c - {ProbeObject n}"
    "res (snd (darwin_Close os d c)) = res c - {ProbeConnection (dd_native d)}"
proof -
  have law: "allocates res ProbeObject (dp_new ps)" "\<And>n. grants res ProbeConnection (dp_connect ps n)" "\<And>d n. ask_keeps res (dp_attach ps d n)"
    "\<And>n f. ask_keeps res (dp_arm ps n f)" "\<And>n. ask_keeps res (dp_read ps n)" "closes res ProbeConnection (dy_disconnect os)"
    using assms by (simp_all add: probe_resources_def)
  show "dp_new ps c = (None, c') \<Longrightarrow> res c' = res c"
    "dp_new ps c = (Some n, c') \<Longrightarrow> ProbeObject n \<notin> res c \<and> res c' = insert (ProbeObject n) (res c)"
    by (rule allocatesD [OF law(1)], assumption)+
  show "dp_connect ps n c = (Inl e, c') \<Longrightarrow> res c' = res c"
    "dp_connect ps n c = (Inr m, c') \<Longrightarrow> ProbeConnection m \<notin> res c \<and> res c' = insert (ProbeConnection m) (res c)"
    by (rule grantsD [OF law(2)], assumption)+
  show "dp_attach ps k n c = (i, c') \<Longrightarrow> res c' = res c" "dp_arm ps n f c = (i, c') \<Longrightarrow> res c' = res c"
    "dp_read ps n c = (s, c') \<Longrightarrow> res c' = res c"
    by (rule ask_keepsD [OF law(3)] ask_keepsD [OF law(4)] ask_keepsD [OF law(5)], assumption)+
  show "res (dp_close ps n c) = res c - {ProbeObject n}" using assms by (simp add: probe_resources_def)
  have "res (snd (dy_disconnect os (dd_native d) c)) = res c - {ProbeConnection (dd_native d)}" using law(6) by (simp add: closes_def)
  then show "res (snd (darwin_Close os d c)) = res c - {ProbeConnection (dd_native d)}"
    by (cases "dy_disconnect os (dd_native d) c") (simp add: darwin_Close_def)
qed

lemma probe_snapshot_keeps:
  assumes "probe_resources os ps res" and "probe_snapshotLocked ps (p, c) = (s, (p', c'))"
  shows "res c' = res c" "pb_native p' = pb_native p"
  using assms(2) probe_resourcesD(7) [OF assms(1)] by (auto simp: probe_snapshotLocked_def split: option.splits prod.splits)

lemma Probe_Arm_keeps:
  assumes "probe_resources os ps res" and "Probe_Arm os' ps config (p, c) = (e, (p', c'))"
  shows "res c' = res c" "p' = p"
  using assms(2) probe_resourcesD(6,7) [OF assms(1)]
  by (auto simp: Probe_Arm_def split: option.splits prod.splits if_splits)

lemma Probe_Close_frees:
  assumes "probe_resources os ps res" and "pb_native p = Some n"
  shows "res (snd (Probe_Close ps (p, c))) = res c - {ProbeObject n}"
proof -
  obtain s p' c' where s: "probe_snapshotLocked ps (p, c) = (s, (p', c'))" by (metis surj_pair)
  with probe_snapshot_keeps(1) [OF assms(1) s] assms(2) probe_resourcesD(8) [OF assms(1)] show ?thesis by (simp add: Probe_Close_def)
qed

lemma newProbe_cases:
  assumes "probe_resources os ps res" and "newProbe ps c = (r, c')"
  obtains e where "r = Inl e" "res c' = res c"
  | n where "r = Inr \<lparr>pb_native = Some n, pb_last = zero_probe\<rparr>" "ProbeObject n \<notin> res c" "res c' = insert (ProbeObject n) (res c)"
  using assms(2) probe_resourcesD(1,2) [OF assms(1)] that by (fastforce simp: newProbe_def split: option.splits prod.splits)

lemma synthetic_start_owns:
  assumes law: "probe_resources os ps res" and p: "pb_native probe = Some n" "ProbeObject n \<in> res c"
    and run: "synthetic_start os ps config probe n c = (r, c')"
  shows "case r of Inl e \<Rightarrow> res c' = res c - {ProbeObject n}
    | Inr (d, q) \<Rightarrow> pb_native q = Some n \<and> ProbeConnection (dd_native d) \<notin> res c \<and> res c' = insert (ProbeConnection (dd_native d)) (res c)"
proof (cases "dp_connect ps n c")
  case (Pair x c1)
  show ?thesis
  proof (cases x)
    case (Inl e)
    with Pair run Probe_Close_frees [OF law p(1), of c1] probe_resourcesD(3) [OF law, of n c e c1] show ?thesis
      by (auto simp: synthetic_start_def)
  next
    case (Inr m)
    obtain s p1 c2 where s: "probe_snapshotLocked ps (probe, c1) = (s, (p1, c2))" by (metis surj_pair)
    obtain e p2 c3 where a: "Probe_Arm os ps config (p1, c2) = (e, (p2, c3))" by (metis surj_pair)
    note m = probe_resourcesD(4) [OF law Pair [unfolded Inr]]
    have c3: "res c3 = insert (ProbeConnection m) (res c)" "pb_native p2 = Some n"
      using probe_snapshot_keeps [OF law s] Probe_Arm_keeps [OF law a] m p(1) by auto
    have close: "res (snd (Probe_Close ps (p2, snd (darwin_Close os (synthetic_device m g) c3)))) = res c - {ProbeObject n}" for g
      using Probe_Close_frees [OF law c3(2)] probe_resourcesD(9) [OF law, of "synthetic_device m g"] c3(1) m
      by (auto simp: synthetic_device_def)
    show ?thesis
      using run Pair Inr s a c3 m close by (auto simp: synthetic_start_def Let_def synthetic_device_def split: option.splits)
  qed
qed

lemma NewSynthetic_owns:
  assumes law: "probe_resources os ps res"
  shows "case NewSynthetic os ps config c of
      (Inl e, c') \<Rightarrow> res c' = res c
    | (Inr (d, p), c') \<Rightarrow> validateConfig config = None \<and>
        (\<exists>n. pb_native p = Some n \<and> ProbeObject n \<notin> res c \<and> ProbeConnection (dd_native d) \<notin> res c \<and>
           res c' = {ProbeConnection (dd_native d), ProbeObject n} \<union> res c)"
proof (cases "validateConfig config")
  case None
  obtain r c1 where new: "newProbe ps c = (r, c1)" by fastforce
  from law new show ?thesis
  proof (cases rule: newProbe_cases)
    case (2 n)
    obtain x c' where start: "synthetic_start os ps config \<lparr>pb_native = Some n, pb_last = zero_probe\<rparr> n c1 = (x, c')" by fastforce
    from synthetic_start_owns [OF law _ _ start] 2 None new start show ?thesis
      by (auto simp: NewSynthetic_def split: sum.splits)
  qed (use None new in \<open>simp add: NewSynthetic_def\<close>)
qed (simp add: NewSynthetic_def)

lemma Attach_owns:
  assumes law: "probe_resources os ps res"
  shows "case Attach os ps dev c of
      (Inl e, c') \<Rightarrow> res c' = res c
    | (Inr p, c') \<Rightarrow> \<exists>n. pb_native p = Some n \<and> ProbeObject n \<notin> res c \<and> res c' = insert (ProbeObject n) (res c)"
proof (cases "\<exists>d. dev = Some d \<and> dd_native d \<noteq> 0")
  case True
  then obtain d where d: "dev = Some d" "dd_native d \<noteq> 0" by blast
  obtain r c1 where new: "newProbe ps c = (r, c1)" by fastforce
  from law new show ?thesis
  proof (cases rule: newProbe_cases)
    case (2 n)
    obtain i c2 where a: "dp_attach ps (dd_native d) n c1 = (i, c2)" by fastforce
    with probe_resourcesD(5) [OF law a] Probe_Close_frees [OF law, of "\<lparr>pb_native = Some n, pb_last = zero_probe\<rparr>" n c2] 2 d new
    show ?thesis by (simp add: Attach_def)
  qed (use d new in \<open>simp add: Attach_def\<close>)
qed (auto simp: Attach_def split: option.splits)

subsection \<open>Waiting\<close>

definition probe_context_ends ::
  "('c \<Rightarrow> nat) \<Rightarrow> 'c probe_sys \<Rightarrow> ('c \<Rightarrow> err option \<times> 'c) \<Rightarrow> ('c probe_state \<Rightarrow> 'c probe_state) \<Rightarrow> bool" where
  "probe_context_ends left ps ctx others \<longleftrightarrow>
     (\<forall>c c'. ctx c = (None, c') \<longrightarrow> left c' < left c) \<and> (\<forall>st. left (snd (others st)) \<le> left (snd st)) \<and>
     (\<forall>n f c. left (snd (dp_wait ps n f c)) \<le> left c) \<and> (\<forall>n c. left (snd (dp_read ps n c)) \<le> left c)"

lemma probe_context_endsD:
  assumes "probe_context_ends left ps ctx others"
  shows "ctx c = (None, c') \<Longrightarrow> left c' < left c" "left (snd (others st)) \<le> left (snd st)" "left (snd (dp_wait ps n f c)) \<le> left c"
    "left (snd (dp_read ps n c)) \<le> left c"
  using assms unfolding probe_context_ends_def by blast+

lemma probe_wait_loop_ends:
  assumes ends: "probe_context_ends left ps ctx others"
  shows "probe_wait_loop os ps ctx others phase st \<noteq> None"
proof (induction "left (snd st)" arbitrary: st rule: less_induct)
  case less
  obtain e c1 where e: "ctx (snd st) = (e, c1)" by fastforce
  define st1 where "st1 = others (fst st, c1)"
  have again: "probe_wait_loop os ps ctx others phase st2 \<noteq> None"
    if "e = None" "dp_wait ps n phase (snd st1) = (code, c2)" "probe_snapshotLocked ps (fst st1, c2) = (s, st2)" for n code c2 s st2
  proof (rule less)
    have "left (snd st2) \<le> left c2"
      using that(3) probe_context_endsD(4) [OF ends, of _ c2] by (auto simp: probe_snapshotLocked_def split: option.splits prod.splits) (metis snd_conv)
    also have "\<dots> \<le> left (snd st1)" using probe_context_endsD(3) [OF ends, of n phase "snd st1"] that(2) by simp
    also have "\<dots> \<le> left c1" using probe_context_endsD(2) [OF ends, of "(fst st, c1)"] by (simp add: st1_def)
    also have "\<dots> < left (snd st)" using probe_context_endsD(1) [OF ends] e that(1) by blast
    finally show "left (snd st2) < left (snd st)" .
  qed
  then show ?case
    by (subst probe_wait_loop.simps) (auto simp: e Let_def simp flip: st1_def split: option.splits prod.splits)
qed

subsection \<open>A sample machine\<close>

text \<open>Native objects are numbered; a machine of the production driver supplies the disconnection.\<close>

record probe_machine =
  bm_objects :: "nat list"
  bm_connections :: "nat list"
  bm_polls :: nat

definition bm_next :: "nat list \<Rightarrow> nat" where
  "bm_next ns = Suc (sum_list ns)"

definition sample_probe :: "probe_machine probe_sys" where
  "sample_probe =
     \<lparr>dp_new = (\<lambda>c. let n = bm_next (bm_objects c) in (Some (int n), c\<lparr>bm_objects := n # bm_objects c\<rparr>)),
      dp_connect = (\<lambda>p c. let n = bm_next (bm_connections c) in (Inr (int n), c\<lparr>bm_connections := n # bm_connections c\<rparr>)),
      dp_attach = (\<lambda>d p c. (0, c)), dp_arm = (\<lambda>n f c. (0, c)),
      dp_read = (\<lambda>n c. (zero_probe\<lparr>sp_Generation := 7, sp_Synthetic := True\<rparr>, c)),
      dp_wait = (\<lambda>n f c. (ETIMEDOUT, c)), dp_release = (\<lambda>n c. c),
      dp_close = (\<lambda>n c. c\<lparr>bm_objects := filter (\<lambda>m. int m \<noteq> n) (bm_objects c)\<rparr>)\<rparr>"

definition probe_driver :: "probe_machine darwin_sys" where
  "probe_driver =
     \<lparr>dy_enumerate = (\<lambda>b c. (None, c)), dy_inventory_free = (\<lambda>n c. (None, c)), dy_lookup = (\<lambda>r b c. (Inl kIOReturnNoDevice, c)),
      dy_entry_free = (\<lambda>n c. (None, c)), dy_connect = (\<lambda>e l c. (Inl (kIOReturnNoDevice, 0), c)), dy_read = (\<lambda>n t c. None),
      dy_CBytes = (\<lambda>bs c. (None, c)), dy_free = (\<lambda>n c. (None, c)), dy_write = (\<lambda>n bs c. None),
      dy_disconnect = (\<lambda>n c. (0, c\<lparr>bm_connections := filter (\<lambda>m. int m \<noteq> n) (bm_connections c)\<rparr>)),
      dy_error_message = (\<lambda>c. []), dy_errno_message = (\<lambda>c. [])\<rparr>"

definition bm_res :: "probe_machine \<Rightarrow> probe_object set" where
  "bm_res c = (\<lambda>n. ProbeObject (int n)) ` set (bm_objects c) \<union> (\<lambda>n. ProbeConnection (int n)) ` set (bm_connections c)"

definition sample_config :: probe_config where
  "sample_config =
     \<lparr>cf_InitialSIGURGBlocked = False, cf_BlockUnrelatedSignal = False, cf_InjectSIGURG = True, cf_HoldNative = False, cf_StrictEntry = False,
      cf_SetupError = 0, cf_RestoreError = 0, cf_NativeError = 5\<rparr>"

lemma bm_fresh: "bm_next ns \<notin> set ns"
  using member_le_sum_list [of "bm_next ns" ns] by (auto simp: bm_next_def)

lemma sample_probe_resources: "probe_resources probe_driver sample_probe bm_res"
  using bm_fresh
  by (auto simp: probe_resources_def sample_probe_def probe_driver_def allocates_def grants_def ask_keeps_def closes_def bm_res_def Let_def)

definition bm_poll :: "probe_machine \<Rightarrow> err option \<times> probe_machine" where
  "bm_poll c = (if bm_polls c = 0 then (Some (Sentinel (SContext Canceled)), c) else (None, c\<lparr>bm_polls := bm_polls c - 1\<rparr>))"

lemma sample_probe_ends: "probe_context_ends bm_polls sample_probe bm_poll (\<lambda>st. st)"
  unfolding probe_context_ends_def by (auto simp: sample_probe_def bm_poll_def split: if_splits)

subsection \<open>Properties\<close>

text \<open>Ownership of the diagnostic probes. A \<open>NewSynthetic\<close> that fails, at whatever step, gives back the probe and the connection, and
  one that succeeds returns exactly the two it created; the same holds of the probe of \<open>Attach\<close>. \<open>Close\<close> gives the reference back
  once, a second \<open>Close\<close> does nothing, and a \<open>Wait\<close> returns when its context ends, even if the native phase never comes.\<close>

theorem probe_owned:
  assumes law: "probe_resources os ps res" and ends: "probe_context_ends left ps ctx others"
  shows "(case NewSynthetic os ps config c of
      (Inl e, c') \<Rightarrow> res c' = res c
    | (Inr (d, p), c') \<Rightarrow> validateConfig config = None \<and>
        (\<exists>n. pb_native p = Some n \<and> ProbeObject n \<notin> res c \<and> ProbeConnection (dd_native d) \<notin> res c \<and>
           res c' = {ProbeConnection (dd_native d), ProbeObject n} \<union> res c)) \<and>
    (case Attach os ps dev c of
      (Inl e, c') \<Rightarrow> res c' = res c
    | (Inr p, c') \<Rightarrow> \<exists>n. pb_native p = Some n \<and> ProbeObject n \<notin> res c \<and> res c' = insert (ProbeObject n) (res c)) \<and>
    (case Probe_Close ps (q, c) of
      (q', c') \<Rightarrow> pb_native q' = None \<and> res c' = res c - ProbeObject ` set_option (pb_native q) \<and> Probe_Close ps (q', c') = (q', c')) \<and>
    (\<exists>r st'. Probe_Wait os ps (Some ctx) others phase (q, c) = Some (r, st'))"
proof (intro conjI NewSynthetic_owns [OF law] Attach_owns [OF law])
  show "case Probe_Close ps (q, c) of
      (q', c') \<Rightarrow> pb_native q' = None \<and> res c' = res c - ProbeObject ` set_option (pb_native q) \<and> Probe_Close ps (q', c') = (q', c')"
  proof (cases "pb_native q")
    case (Some n)
    have "pb_native (fst (Probe_Close ps (q, c))) = None" using Some by (auto simp: Probe_Close_def split: prod.splits)
    with Some Probe_Close_frees [OF law Some, of c] show ?thesis by (auto simp: Probe_Close_def split: prod.splits)
  qed (simp add: Probe_Close_def)
  show "\<exists>r st'. Probe_Wait os ps (Some ctx) others phase (q, c) = Some (r, st')"
    using probe_wait_loop_ends [OF ends, of os phase "(q, c)"] by (auto simp: Probe_Wait_def Let_def)
qed

theorem probe_owned_witness:
  "\<exists>d p c'. NewSynthetic probe_driver sample_probe sample_config \<lparr>bm_objects = [], bm_connections = [], bm_polls = 3\<rparr> = (Inr (d, p), c') \<and>
     bm_res c' = {ProbeConnection 1, ProbeObject 1} \<and> bm_res (snd (Probe_Close sample_probe (p, c'))) = {ProbeConnection 1}"
proof -
  obtain d p c' where n: "NewSynthetic probe_driver sample_probe sample_config \<lparr>bm_objects = [], bm_connections = [], bm_polls = 3\<rparr> = (Inr (d, p), c')"
    "dd_native d = 1" "pb_native p = Some 1"
    by (simp add: NewSynthetic_def validateConfig_def sample_config_def newProbe_def synthetic_start_def sample_probe_def Let_def bm_next_def
      probe_snapshotLocked_def Probe_Arm_def synthetic_device_def)
  have "bm_res \<lparr>bm_objects = [], bm_connections = [], bm_polls = 3\<rparr> = {}" by (simp add: bm_res_def)
  with n probe_owned [OF sample_probe_resources sample_probe_ends, where config = sample_config
      and c = "\<lparr>bm_objects = [], bm_connections = [], bm_polls = 3\<rparr>"]
  have c: "bm_res c' = {ProbeConnection 1, ProbeObject 1}" by simp
  from probe_owned [OF sample_probe_resources sample_probe_ends, where c = c' and q = p] n(3) c
  have "bm_res (snd (Probe_Close sample_probe (p, c'))) = {ProbeConnection 1}"
    by (cases "Probe_Close sample_probe (p, c')") (simp, blast)
  with n c show ?thesis by blast
qed

end
