(* ===== verification/PowerObserver.thy ===== *)
theory PowerObserver
  imports DarwinHid
begin

text \<open>
  Power observation of the diagnostics, \<open>internal/diagnostics/power\<close>: the reducer of power events, which is written in C, and the
  observer around it, with its adapter \<open>PowerObserver\<close> of \<open>pkg/hid/internal/darwin\<close>. The native thread that registers for
  notifications is a parameter. The theorems say which event sequences qualify, that a wait ends with its context, and who
  owns the native observer.
\<close>

subsection \<open>Errors\<close>

datatype power_kind =
    PowerIO | PowerClosed | PowerRemoved | PowerPermission | PowerBusy | PowerUnsupported | PowerInvalidArgument | PowerResourceLimit

text \<open>The errors of the package: its own \<open>Error\<close>, what \<open>errors.Join\<close> makes of several, and an error that is passed through, which
  is that of a context and has no list of causes.\<close>

datatype power_err =
    PowerError string power_kind string u64 string "power_err option"
  | PowerJoin "power_err list"
  | PowerForeign err

definition power_failure :: "string \<Rightarrow> power_kind \<Rightarrow> string \<Rightarrow> power_err" where
  "power_failure op kind message = PowerError op kind [] 0 message None"

definition power_join :: "power_err option list \<Rightarrow> power_err option" where
  "power_join es = (case [e. Some e \<leftarrow> es] of [] \<Rightarrow> None | xs \<Rightarrow> Some (PowerJoin xs))"

definition power_ioKind :: "u32 \<Rightarrow> power_kind" where
  "power_ioKind code =
     (if code \<in> {kIOReturnNoDevice, kIOReturnOffline} then PowerRemoved
      else if code \<in> {kIOReturnNotPrivileged, kIOReturnNotPermitted} then PowerPermission
      else if code \<in> {kIOReturnExclusiveAccess, kIOReturnBusy} then PowerBusy
      else if code = kIOReturnUnsupported then PowerUnsupported
      else if code \<in> {kIOReturnNoMemory, kIOReturnNoResources} then PowerResourceLimit
      else if code = kIOReturnNotOpen then PowerClosed
      else PowerIO)"

subsection \<open>Snapshots\<close>

text \<open>\<open>diagnostic_power_snapshot\<close>; its \<open>int\<close> flags are truth values.\<close>

record power_native =
  pn_observer_generation :: u64
  pn_arm_generation :: u64
  pn_will_sleep_generation :: u64
  pn_powered_on_generation :: u64
  pn_sleep_sequence :: u64
  pn_wake_sequence :: u64
  pn_sequence :: u64
  pn_can_sleep_events :: u64
  pn_sleep_events :: u64
  pn_wake_events :: u64
  pn_canceled_events :: u64
  pn_out_of_order_events :: u64
  pn_extra_cycle_events :: u64
  pn_stale_events :: u64
  pn_ack_count :: u64
  pn_ack_errors :: u64
  pn_native_code :: u32
  pn_deregister_code :: u32
  pn_service_close_code :: u32
  pn_ready :: bool
  pn_armed :: bool
  pn_matched :: bool
  pn_closed :: bool
  pn_thread_joined :: bool
  pn_released :: bool
  pn_synthetic :: bool

record power_snapshot =
  po_ObserverGeneration :: u64
  po_ArmGeneration :: u64
  po_WillSleepGeneration :: u64
  po_PoweredOnGeneration :: u64
  po_SleepSequence :: u64
  po_WakeSequence :: u64
  po_CanSleepEvents :: u64
  po_SleepEvents :: u64
  po_WakeEvents :: u64
  po_CanceledEvents :: u64
  po_OutOfOrderEvents :: u64
  po_ExtraCycleEvents :: u64
  po_StaleEvents :: u64
  po_AckCount :: u64
  po_AckErrors :: u64
  po_NativeCode :: u32
  po_DeregisterCode :: u32
  po_ServiceCloseCode :: u32
  po_Ready :: bool
  po_Armed :: bool
  po_Matched :: bool
  po_Closed :: bool
  po_ThreadJoined :: bool
  po_Released :: bool
  po_Synthetic :: bool

definition publicSnapshot :: "power_native \<Rightarrow> power_snapshot" where
  "publicSnapshot s =
     \<lparr>po_ObserverGeneration = pn_observer_generation s, po_ArmGeneration = pn_arm_generation s,
      po_WillSleepGeneration = pn_will_sleep_generation s, po_PoweredOnGeneration = pn_powered_on_generation s,
      po_SleepSequence = pn_sleep_sequence s, po_WakeSequence = pn_wake_sequence s,
      po_CanSleepEvents = pn_can_sleep_events s, po_SleepEvents = pn_sleep_events s, po_WakeEvents = pn_wake_events s,
      po_CanceledEvents = pn_canceled_events s, po_OutOfOrderEvents = pn_out_of_order_events s,
      po_ExtraCycleEvents = pn_extra_cycle_events s, po_StaleEvents = pn_stale_events s, po_AckCount = pn_ack_count s,
      po_AckErrors = pn_ack_errors s, po_NativeCode = pn_native_code s, po_DeregisterCode = pn_deregister_code s,
      po_ServiceCloseCode = pn_service_close_code s, po_Ready = pn_ready s, po_Armed = pn_armed s, po_Matched = pn_matched s,
      po_Closed = pn_closed s, po_ThreadJoined = pn_thread_joined s, po_Released = pn_released s, po_Synthetic = pn_synthetic s\<rparr>"

definition zero_power :: power_native where
  "zero_power =
     \<lparr>pn_observer_generation = 0, pn_arm_generation = 0, pn_will_sleep_generation = 0, pn_powered_on_generation = 0,
      pn_sleep_sequence = 0, pn_wake_sequence = 0, pn_sequence = 0, pn_can_sleep_events = 0, pn_sleep_events = 0, pn_wake_events = 0,
      pn_canceled_events = 0, pn_out_of_order_events = 0, pn_extra_cycle_events = 0, pn_stale_events = 0, pn_ack_count = 0,
      pn_ack_errors = 0, pn_native_code = 0, pn_deregister_code = 0, pn_service_close_code = 0, pn_ready = False, pn_armed = False,
      pn_matched = False, pn_closed = False, pn_thread_joined = False, pn_released = False, pn_synthetic = False\<rparr>"

subsection \<open>The reducer\<close>

definition CanSleep :: byte where "CanSleep = 1"
definition WillSleep :: byte where "WillSleep = 2"
definition PoweredOn :: byte where "PoweredOn = 3"
definition WillNotSleep :: byte where "WillNotSleep = 4"

record power_event =
  pe_Kind :: byte
  pe_ArmGeneration :: u64
  pe_AckCode :: u32

definition first_error :: "u32 \<Rightarrow> u32 \<Rightarrow> u32" where
  "first_error stored e = (if stored = 0 then e else stored)"

definition power_ack :: "byte \<Rightarrow> u32 \<Rightarrow> power_native \<Rightarrow> power_native" where
  "power_ack event ack_code s =
     (if event \<in> {CanSleep, WillSleep} then
        let s1 = s\<lparr>pn_ack_count := pn_ack_count s + 1\<rparr> in
        if ack_code \<noteq> 0
        then s1\<lparr>pn_ack_errors := pn_ack_errors s1 + 1, pn_native_code := first_error (pn_native_code s1) ack_code\<rparr>
        else s1
      else s)"

text \<open>The cases of the switch.\<close>

definition power_can_sleep :: "power_native \<Rightarrow> power_native" where
  "power_can_sleep s =
     (let s1 = s\<lparr>pn_can_sleep_events := pn_can_sleep_events s + 1\<rparr> in
      if pn_can_sleep_events s1 > 1 \<or> pn_sleep_events s1 \<noteq> 0 \<or> pn_wake_events s1 \<noteq> 0
      then s1\<lparr>pn_extra_cycle_events := pn_extra_cycle_events s1 + 1\<rparr> else s1)"

definition power_will_sleep :: "u64 \<Rightarrow> power_native \<Rightarrow> power_native" where
  "power_will_sleep generation s =
     (let s1 = s\<lparr>pn_sleep_events := pn_sleep_events s + 1\<rparr> in
      if pn_sleep_events s1 = 1 \<and> pn_wake_events s1 = 0 \<and> pn_canceled_events s1 = 0
      then s1\<lparr>pn_will_sleep_generation := generation, pn_sleep_sequence := pn_sequence s1\<rparr>
      else s1\<lparr>pn_extra_cycle_events := pn_extra_cycle_events s1 + 1, pn_out_of_order_events := pn_out_of_order_events s1 + 1\<rparr>)"

definition power_powered_on :: "u64 \<Rightarrow> power_native \<Rightarrow> power_native" where
  "power_powered_on generation s =
     (let s1 = s\<lparr>pn_wake_events := pn_wake_events s + 1\<rparr> in
      if pn_wake_events s1 = 1 \<and> pn_sleep_events s1 = 1 \<and> pn_sleep_sequence s1 \<noteq> 0 \<and> pn_canceled_events s1 = 0
      then s1\<lparr>pn_powered_on_generation := generation, pn_wake_sequence := pn_sequence s1\<rparr>
      else let s2 = s1\<lparr>pn_out_of_order_events := pn_out_of_order_events s1 + 1\<rparr> in
           if pn_wake_events s2 > 1 then s2\<lparr>pn_extra_cycle_events := pn_extra_cycle_events s2 + 1\<rparr> else s2)"

definition power_switch :: "u64 \<Rightarrow> byte \<Rightarrow> power_native \<Rightarrow> power_native" where
  "power_switch generation event s =
     (if event = CanSleep then power_can_sleep s
      else if event = WillSleep then power_will_sleep generation s
      else if event = PoweredOn then power_powered_on generation s
      else if event = WillNotSleep then s\<lparr>pn_canceled_events := pn_canceled_events s + 1\<rparr>
      else s\<lparr>pn_out_of_order_events := pn_out_of_order_events s + 1\<rparr>)"

definition power_matches :: "power_native \<Rightarrow> bool" where
  "power_matches s \<longleftrightarrow>
     pn_sleep_events s = 1 \<and> pn_wake_events s = 1 \<and>
     pn_will_sleep_generation s = pn_arm_generation s \<and> pn_powered_on_generation s = pn_arm_generation s \<and>
     pn_sleep_sequence s \<noteq> 0 \<and> pn_wake_sequence s > pn_sleep_sequence s \<and> pn_canceled_events s = 0 \<and>
     pn_out_of_order_events s = 0 \<and> pn_extra_cycle_events s = 0 \<and> pn_stale_events s = 0 \<and> pn_ack_errors s = 0"

definition diagnostic_power_reduce :: "power_native \<Rightarrow> u64 \<Rightarrow> byte \<Rightarrow> u32 \<Rightarrow> power_native" where
  "diagnostic_power_reduce s generation event ack_code =
     (if \<not> pn_armed s then s
      else if generation \<noteq> pn_arm_generation s then s\<lparr>pn_stale_events := pn_stale_events s + 1, pn_matched := False\<rparr>
      else let s1 = power_switch generation event (power_ack event ack_code (s\<lparr>pn_sequence := pn_sequence s + 1\<rparr>))
           in s1\<lparr>pn_matched := power_matches s1\<rparr>)"

definition ReduceEvents :: "u64 \<Rightarrow> power_event list \<Rightarrow> power_snapshot" where
  "ReduceEvents generation events =
     (let native = zero_power\<lparr>pn_synthetic := True, pn_observer_generation := 1, pn_arm_generation := generation\<rparr> in
      if generation = 0 \<or> length events > 256 then publicSnapshot (native\<lparr>pn_native_code := 0xe00002c2\<rparr>)
      else publicSnapshot (foldl (\<lambda>s e. diagnostic_power_reduce s (pe_ArmGeneration e) (pe_Kind e) (pe_AckCode e))
             (native\<lparr>pn_ready := True, pn_armed := True\<rparr>) events))"

text \<open>The builds without a native observer.\<close>

definition power_unsupported :: power_err where
  "power_unsupported = power_failure ''observe'' PowerUnsupported ''native power observation requires Darwin cgo''"

definition unsupported_ReduceEvents :: "u64 \<Rightarrow> power_event list \<Rightarrow> power_snapshot" where
  "unsupported_ReduceEvents generation events = publicSnapshot (zero_power\<lparr>pn_synthetic := True, pn_native_code := 0xe00002c7\<rparr>)"

subsection \<open>Which event sequences qualify\<close>

text \<open>The reference: one cycle, perhaps announced by a question whether the system may sleep, all of the armed generation, with
  every acknowledgement accepted.\<close>

definition power_cycle :: "u64 \<Rightarrow> power_event list \<Rightarrow> bool" where
  "power_cycle g es \<longleftrightarrow>
     map pe_Kind es \<in> {[WillSleep, PoweredOn], [CanSleep, WillSleep, PoweredOn]} \<and>
     list_all (\<lambda>e. pe_ArmGeneration e = g \<and> (pe_Kind e = PoweredOn \<or> pe_AckCode e = 0)) es"

text \<open>The same as an automaton: nothing yet, asked, sleeping, awake; None once the sequence cannot qualify.\<close>

definition phase_next :: "u64 \<Rightarrow> nat \<Rightarrow> power_event \<Rightarrow> nat option" where
  "phase_next g k e =
     (if pe_ArmGeneration e \<noteq> g then None
      else if pe_Kind e = CanSleep \<and> k = 0 \<and> pe_AckCode e = 0 then Some 1
      else if pe_Kind e = WillSleep \<and> k < 2 \<and> pe_AckCode e = 0 then Some 2
      else if pe_Kind e = PoweredOn \<and> k = 2 then Some 3
      else None)"

fun power_phase :: "u64 \<Rightarrow> nat option \<Rightarrow> power_event list \<Rightarrow> nat option" where
  "power_phase g k [] = k"
| "power_phase g k (e # es) = power_phase g (Option.bind k (\<lambda>k. phase_next g k e)) es"

lemma power_phase_None [simp]: "power_phase g None es = None"
  by (induction es) simp_all

lemmas power_kinds = CanSleep_def WillSleep_def PoweredOn_def WillNotSleep_def

lemma power_phase_awake: "power_phase g (Some 3) es = Some 3 \<longleftrightarrow> es = []"
  by (cases es) (auto simp: phase_next_def)

lemma power_phase_sleeping:
  "power_phase g (Some 2) es = Some 3 \<longleftrightarrow> (\<exists>e. es = [e] \<and> pe_Kind e = PoweredOn \<and> pe_ArmGeneration e = g)"
  by (cases es) (auto simp: phase_next_def power_phase_awake power_kinds)

lemma power_phase_asked:
  "k < 2 \<Longrightarrow> k \<noteq> 0 \<Longrightarrow> power_phase g (Some k) es = Some 3 \<longleftrightarrow>
   (\<exists>e es'. es = e # es' \<and> pe_Kind e = WillSleep \<and> pe_ArmGeneration e = g \<and> pe_AckCode e = 0 \<and> power_phase g (Some 2) es' = Some 3)"
  by (cases es) (auto simp: phase_next_def power_kinds)

lemma power_phase_cycle: "power_phase g (Some 0) es = Some 3 \<longleftrightarrow> power_cycle g es"
proof (cases es)
  case (Cons e es')
  then show ?thesis
    by (auto simp: phase_next_def power_cycle_def power_phase_sleeping power_phase_asked power_kinds split: if_splits)
qed (simp add: power_cycle_def)

text \<open>The snapshot after \<open>n\<close> events in a phase. Out of all phases one of five counters is not zero, and stays so, because each
  grows by one at most.\<close>

definition power_bad :: "power_native \<Rightarrow> bool" where
  "power_bad s \<longleftrightarrow> pn_canceled_events s \<noteq> 0 \<or> pn_out_of_order_events s \<noteq> 0 \<or> pn_extra_cycle_events s \<noteq> 0 \<or>
     pn_stale_events s \<noteq> 0 \<or> pn_ack_errors s \<noteq> 0"

definition power_small :: "nat \<Rightarrow> power_native \<Rightarrow> bool" where
  "power_small n s \<longleftrightarrow> unat (pn_canceled_events s) \<le> n \<and> unat (pn_out_of_order_events s) \<le> n \<and> unat (pn_extra_cycle_events s) \<le> n \<and>
     unat (pn_stale_events s) \<le> n \<and> unat (pn_ack_errors s) \<le> n"

definition in_phase :: "u64 \<Rightarrow> nat \<Rightarrow> power_native \<Rightarrow> bool" where
  "in_phase g k s \<longleftrightarrow>
     (if k = 0 then pn_can_sleep_events s = 0 \<and> pn_sleep_events s = 0 \<and> pn_wake_events s = 0 \<and> pn_sequence s = 0
      else if k = 1 then pn_sleep_events s = 0 \<and> pn_wake_events s = 0 \<and> pn_can_sleep_events s = 1 \<and> pn_sequence s = 1
      else if k = 2 then pn_sleep_events s = 1 \<and> pn_wake_events s = 0 \<and> pn_will_sleep_generation s = g \<and>
             pn_sleep_sequence s = pn_sequence s \<and> pn_sequence s \<in> {1, 2}
      else pn_sleep_events s = 1 \<and> pn_wake_events s = 1)"

definition phase_rel :: "u64 \<Rightarrow> nat \<Rightarrow> nat option \<Rightarrow> power_native \<Rightarrow> bool" where
  "phase_rel g n k s \<longleftrightarrow>
     pn_armed s \<and> pn_arm_generation s = g \<and> power_small n s \<and> (pn_matched s \<longleftrightarrow> k = Some 3) \<and>
     (case k of None \<Rightarrow> power_bad s | Some k \<Rightarrow> k \<le> 3 \<and> \<not> power_bad s \<and> in_phase g k s)"

lemma counter_grows:
  assumes "unat (c :: u64) \<le> n" and "n < 2 ^ 64 - 1"
  shows "unat (c + 1) = Suc (unat c)" "c + 1 \<noteq> 0"
proof -
  have "Suc (unat c) < 2 ^ 64" using assms by simp
  then show "unat (c + 1) = Suc (unat c)" by (simp add: unat_word_ariths)
  then show "c + 1 \<noteq> 0" by (metis Zero_not_Suc unat_0)
qed

lemmas power_cases = power_can_sleep_def power_will_sleep_def power_powered_on_def Let_def

lemmas reduce_defs = diagnostic_power_reduce_def power_switch_def power_ack_def power_cases

lemma reduce_frame [simp]:
  "pn_armed (diagnostic_power_reduce s g event ack) = pn_armed s"
  "pn_arm_generation (diagnostic_power_reduce s g event ack) = pn_arm_generation s"
  by (simp_all add: reduce_defs)

text \<open>Each of the five counters stays or grows by one.\<close>

lemma reduce_counters:
  "pn_canceled_events (diagnostic_power_reduce s g event ack) \<in> {pn_canceled_events s, pn_canceled_events s + 1}"
  "pn_out_of_order_events (diagnostic_power_reduce s g event ack) \<in> {pn_out_of_order_events s, pn_out_of_order_events s + 1}"
  "pn_extra_cycle_events (diagnostic_power_reduce s g event ack) \<in> {pn_extra_cycle_events s, pn_extra_cycle_events s + 1}"
  "pn_stale_events (diagnostic_power_reduce s g event ack) \<in> {pn_stale_events s, pn_stale_events s + 1}"
  "pn_ack_errors (diagnostic_power_reduce s g event ack) \<in> {pn_ack_errors s, pn_ack_errors s + 1}"
  by (simp_all add: reduce_defs)

lemma counter_step:
  assumes "d \<in> {c, c + 1}" and "unat (c :: u64) \<le> n" and "n < 2 ^ 64 - 1"
  shows "unat d \<le> Suc n" "c \<noteq> 0 \<Longrightarrow> d \<noteq> 0"
  using assms counter_grows [of c n] by auto

lemma reduce_small:
  assumes "power_small n s" and n: "n < 2 ^ 64 - 1"
  shows "power_small (Suc n) (diagnostic_power_reduce s g event ack)"
  using assms(1) counter_step(1) [OF reduce_counters(1) _ n] counter_step(1) [OF reduce_counters(2) _ n]
    counter_step(1) [OF reduce_counters(3) _ n] counter_step(1) [OF reduce_counters(4) _ n] counter_step(1) [OF reduce_counters(5) _ n]
  by (simp add: power_small_def)

lemma reduce_bad:
  assumes "power_small n s" and n: "n < 2 ^ 64 - 1" and "power_bad s"
  shows "power_bad (diagnostic_power_reduce s g event ack)"
  using assms(1,3) counter_step(2) [OF reduce_counters(1) [of s g event ack] _ n] counter_step(2) [OF reduce_counters(2) [of s g event ack] _ n]
    counter_step(2) [OF reduce_counters(3) [of s g event ack] _ n] counter_step(2) [OF reduce_counters(4) [of s g event ack] _ n]
    counter_step(2) [OF reduce_counters(5) [of s g event ack] _ n]
  by (auto simp: power_small_def power_bad_def)

lemma reduce_matched:
  "pn_armed s \<Longrightarrow> pn_matched (diagnostic_power_reduce s g event ack) \<longleftrightarrow>
     g = pn_arm_generation s \<and> power_matches (diagnostic_power_reduce s g event ack)"
  by (simp add: diagnostic_power_reduce_def Let_def power_matches_def)

lemma reduce_good:
  assumes "phase_rel g n (Some k) s" and "e' = phase_next g k e"
  shows "case e' of
      None \<Rightarrow> power_bad (diagnostic_power_reduce s (pe_ArmGeneration e) (pe_Kind e) (pe_AckCode e))
    | Some k' \<Rightarrow> k' \<le> 3 \<and> \<not> power_bad (diagnostic_power_reduce s (pe_ArmGeneration e) (pe_Kind e) (pe_AckCode e)) \<and>
        in_phase g k' (diagnostic_power_reduce s (pe_ArmGeneration e) (pe_Kind e) (pe_AckCode e)) \<and>
        (power_matches (diagnostic_power_reduce s (pe_ArmGeneration e) (pe_Kind e) (pe_AckCode e)) \<longleftrightarrow> k' = 3)"
proof -
  from assms(1) consider "k = 0" | "k = 1" | "k = 2" | "k = 3" by (force simp: phase_rel_def)
  then show ?thesis
    using assms
    by cases (auto simp: phase_rel_def phase_next_def power_bad_def in_phase_def power_matches_def reduce_defs power_kinds)
qed

lemma reduce_phase:
  assumes r: "phase_rel g n k s" and n: "n < 2 ^ 64 - 1"
  shows "phase_rel g (Suc n) (Option.bind k (\<lambda>k. phase_next g k e))
    (diagnostic_power_reduce s (pe_ArmGeneration e) (pe_Kind e) (pe_AckCode e))"
proof -
  let ?s = "diagnostic_power_reduce s (pe_ArmGeneration e) (pe_Kind e) (pe_AckCode e)"
  have s: "pn_armed s" "pn_arm_generation s = g" "power_small n s" using r by (simp_all add: phase_rel_def)
  have m: "pn_matched ?s \<longleftrightarrow> pe_ArmGeneration e = g \<and> power_matches ?s" using reduce_matched [OF s(1)] s(2) by simp
  have bad: "\<not> power_matches ?s" if "power_bad ?s" using that by (auto simp: power_bad_def power_matches_def)
  note small = reduce_small [OF s(3) n, of "pe_ArmGeneration e" "pe_Kind e" "pe_AckCode e"]
  show ?thesis
  proof (cases k)
    case None
    then have "power_bad s" using r by (simp add: phase_rel_def)
    with None s small m bad reduce_bad [OF s(3) n] show ?thesis by (simp add: phase_rel_def)
  next
    case (Some j)
    show ?thesis
    proof (cases "phase_next g j e")
      case None
      with reduce_good [OF r [unfolded Some] refl, of e] Some s small m bad show ?thesis by (simp add: phase_rel_def)
    next
      case (Some j')
      then have "pe_ArmGeneration e = g" by (auto simp: phase_next_def split: if_splits)
      with reduce_good [OF r [unfolded \<open>k = Some j\<close>] refl, of e] \<open>k = Some j\<close> Some s small m show ?thesis by (simp add: phase_rel_def)
    qed
  qed
qed

lemma reduce_events_phase:
  assumes "phase_rel g n k s" and "n + length es < 2 ^ 64"
  shows "phase_rel g (n + length es) (power_phase g k es)
    (foldl (\<lambda>s e. diagnostic_power_reduce s (pe_ArmGeneration e) (pe_Kind e) (pe_AckCode e)) s es)"
  using assms
proof (induction es arbitrary: n k s)
  case (Cons e es)
  have "phase_rel g (Suc n) (Option.bind k (\<lambda>k. phase_next g k e)) (diagnostic_power_reduce s (pe_ArmGeneration e) (pe_Kind e) (pe_AckCode e))"
    using Cons.prems by (intro reduce_phase) simp_all
  from Cons.IH [OF this] Cons.prems(2) show ?case by simp
qed simp

lemma publicSnapshot_sel:
  "po_Matched (publicSnapshot s) = pn_matched s" "po_Synthetic (publicSnapshot s) = pn_synthetic s"
  by (simp_all add: publicSnapshot_def)

lemma power_cycle_length: "power_cycle g es \<Longrightarrow> length es \<le> 3"
  by (auto simp: power_cycle_def dest: arg_cong [of _ _ length])

text \<open>What arming leaves, and what any events after it make of it.\<close>

definition power_armed :: "u64 \<Rightarrow> u64 \<Rightarrow> power_native" where
  "power_armed obs generation =
     zero_power\<lparr>pn_observer_generation := obs, pn_arm_generation := generation, pn_ready := True, pn_armed := True\<rparr>"

lemma fresh_phase: "phase_rel g 0 (Some 0) (power_armed obs g)" "phase_rel g 0 (Some 0) ((power_armed obs g)\<lparr>pn_synthetic := True\<rparr>)"
  by (simp_all add: phase_rel_def power_armed_def zero_power_def power_small_def power_bad_def in_phase_def)

lemma fresh_matched:
  assumes "phase_rel g 0 (Some 0) s" and "length es < 2 ^ 64"
  shows "pn_matched (foldl (\<lambda>s e. diagnostic_power_reduce s (pe_ArmGeneration e) (pe_Kind e) (pe_AckCode e)) s es) \<longleftrightarrow> power_cycle g es"
  using reduce_events_phase [OF assms(1), of es] assms(2) power_phase_cycle [of g es] by (simp add: phase_rel_def)

lemma reduce_synthetic: "pn_synthetic (diagnostic_power_reduce s g event ack) = pn_synthetic s"
  by (simp add: reduce_defs)

lemma events_synthetic:
  "pn_synthetic (foldl (\<lambda>s e. diagnostic_power_reduce s (pe_ArmGeneration e) (pe_Kind e) (pe_AckCode e)) s es) = pn_synthetic s"
  by (induction es arbitrary: s) (simp_all add: reduce_synthetic)

subsection \<open>The observer\<close>

text \<open>The native side. \<open>ps_state\<close> is the snapshot that the lock of an observer protects; callbacks run while a thread waits
  (\<open>ps_timedwait\<close>) and before it takes the lock (\<open>ps_callbacks\<close>). \<open>ps_new\<close> answers a thread error or the observer with its
  native error, \<open>ps_arm\<close> the code, the generation and the native error, \<open>ps_close\<close> a join error or the last snapshot.\<close>

record 'c power_sys =
  ps_new :: "'c \<Rightarrow> (int + (int \<times> u32)) \<times> 'c"
  ps_arm :: "int \<Rightarrow> 'c \<Rightarrow> (int \<times> u64 \<times> u32) \<times> 'c"
  ps_state :: "int \<Rightarrow> 'c \<Rightarrow> power_native"
  ps_callbacks :: "'c \<Rightarrow> 'c"
  ps_timedwait :: "int \<Rightarrow> 'c \<Rightarrow> int \<times> 'c"
  ps_close :: "int \<Rightarrow> 'c \<Rightarrow> (int + power_native) \<times> 'c"
  ps_mach_error :: "u32 \<Rightarrow> string"
  ps_errno_message :: "int \<Rightarrow> string"

record power_observer =
  pw_native :: "int option"
  pw_last :: power_snapshot

type_synonym 'c power_state = "power_observer \<times> 'c"

definition darwin_EINVAL :: int where "darwin_EINVAL = 22"
definition darwin_ECANCELED :: int where "darwin_ECANCELED = 89"
definition darwin_EPROTO :: int where "darwin_EPROTO = 100"

definition power_pthreadError :: "'c power_sys \<Rightarrow> string \<Rightarrow> int \<Rightarrow> power_err" where
  "power_pthreadError sys op code = PowerError op PowerIO ''pthread'' (of_int code) (ps_errno_message sys code) None"

definition power_ioError :: "'c power_sys \<Rightarrow> string \<Rightarrow> u32 \<Rightarrow> power_err" where
  "power_ioError sys op code = PowerError op (power_ioKind code) ''iokit'' (ucast code) (ps_mach_error sys code) None"

definition powerCleanupError :: "'c power_sys \<Rightarrow> power_snapshot \<Rightarrow> power_err option" where
  "powerCleanupError sys s =
     power_join
       [if po_DeregisterCode s \<noteq> 0 then Some (power_ioError sys ''power observer deregister'' (po_DeregisterCode s)) else None,
        if po_ServiceCloseCode s \<noteq> 0 then Some (power_ioError sys ''power observer service close'' (po_ServiceCloseCode s)) else None]"

definition power_Close :: "'c power_sys \<Rightarrow> 'c power_state \<Rightarrow> power_err option \<times> 'c power_state" where
  "power_Close sys st =
     (case st of (p, c) \<Rightarrow>
        case pw_native p of
          None \<Rightarrow> (powerCleanupError sys (pw_last p), st)
        | Some n \<Rightarrow>
            (case ps_close sys n c of
               (Inl code, c') \<Rightarrow> (Some (power_pthreadError sys ''power observer join'' code), (p, c'))
             | (Inr s, c') \<Rightarrow>
                 (powerCleanupError sys (publicSnapshot s), (\<lparr>pw_native = None, pw_last = publicSnapshot s\<rparr>, c'))))"

definition power_New :: "'c power_sys \<Rightarrow> 'c \<Rightarrow> (power_observer option \<times> power_err option) \<times> 'c" where
  "power_New sys c =
     (case ps_new sys c of
        (Inl code, c1) \<Rightarrow> ((None, Some (power_pthreadError sys ''power observer create'' code)), c1)
      | (Inr (n, nativeError), c1) \<Rightarrow>
          let p = \<lparr>pw_native = Some n, pw_last = publicSnapshot zero_power\<rparr> in
          if nativeError \<noteq> 0
          then (case power_Close sys (p, c1) of
                  (e, (p', c2)) \<Rightarrow> ((None, power_join [Some (power_ioError sys ''power observer register'' nativeError), e]), c2))
          else ((Some p, None), c1))"

definition power_Arm :: "'c power_sys \<Rightarrow> 'c power_state \<Rightarrow> (u64 \<times> power_err option) \<times> 'c power_state" where
  "power_Arm sys st =
     (case st of (p, c) \<Rightarrow>
        case pw_native p of
          None \<Rightarrow> ((0, Some (power_failure ''power observer arm'' PowerClosed ''observer closed'')), st)
        | Some n \<Rightarrow>
            (case ps_arm sys n c of
               ((code, generation, nativeError), c') \<Rightarrow>
                 (if nativeError \<noteq> 0 then (0, Some (power_ioError sys ''power observer arm'' nativeError))
                  else if code \<noteq> 0 then (0, Some (power_pthreadError sys ''power observer arm'' code))
                  else (generation, None), (p, c'))))"

definition power_snapshotLocked :: "'c power_sys \<Rightarrow> 'c power_state \<Rightarrow> power_snapshot \<times> 'c power_state" where
  "power_snapshotLocked sys st =
     (case st of (p, c) \<Rightarrow>
        case pw_native p of
          None \<Rightarrow> (pw_last p, st)
        | Some n \<Rightarrow>
            let c' = ps_callbacks sys c; s = publicSnapshot (ps_state sys n c') in (s, (p\<lparr>pw_last := s\<rparr>, c')))"

text \<open>\<open>diagnostic_power_wait\<close>: the verdict on the snapshot, and the wait before it.\<close>

definition power_verdict :: "bool \<Rightarrow> power_native \<Rightarrow> int" where
  "power_verdict sleepOnly s =
     (if pn_closed s then darwin_ECANCELED
      else if pn_native_code s \<noteq> 0 \<or> pn_out_of_order_events s \<noteq> 0 \<or> pn_extra_cycle_events s \<noteq> 0 \<or> pn_stale_events s \<noteq> 0 \<or>
        pn_canceled_events s \<noteq> 0 then darwin_EPROTO
      else if (if sleepOnly then pn_sleep_events s = 1 else pn_matched s) then 0
      else ETIMEDOUT)"

definition diagnostic_power_wait :: "'c power_sys \<Rightarrow> int \<Rightarrow> u64 \<Rightarrow> bool \<Rightarrow> 'c \<Rightarrow> int \<times> 'c" where
  "diagnostic_power_wait sys n generation sleepOnly c =
     (let c0 = ps_callbacks sys c; s = ps_state sys n c0;
          (e, c1) =
            (if generation = 0 \<or> pn_arm_generation s \<noteq> generation then (darwin_EINVAL, c0)
             else if \<not> pn_closed s \<and> pn_native_code s = 0 \<and> \<not> (if sleepOnly then pn_sleep_events s \<noteq> 0 else pn_matched s)
             then ps_timedwait sys n c0 else (0, c0))
      in if e = 0 \<or> e = ETIMEDOUT then (power_verdict sleepOnly (ps_state sys n c1), c1) else (e, c1))"

definition power_wait_error :: "'c power_sys \<Rightarrow> power_snapshot \<Rightarrow> int \<Rightarrow> power_err" where
  "power_wait_error sys s code =
     (if po_NativeCode s \<noteq> 0 then power_ioError sys ''power observer wait'' (po_NativeCode s)
      else power_failure ''power observer wait''
        (if code = darwin_EINVAL then PowerInvalidArgument else if code = darwin_ECANCELED then PowerClosed else PowerIO)
        ''power event sequence did not qualify for the armed generation'')"

text \<open>The loop of \<open>wait\<close>. \<open>ctx\<close> reads the error of the context, and \<open>others\<close> stands for the calls of other goroutines that take the
  lock of the observer before this one does.\<close>

partial_function (option) power_wait_loop ::
  "'c power_sys \<Rightarrow> ('c \<Rightarrow> err option \<times> 'c) \<Rightarrow> ('c power_state \<Rightarrow> 'c power_state) \<Rightarrow> u64 \<Rightarrow> bool \<Rightarrow> 'c power_state \<Rightarrow>
   ((power_snapshot \<times> power_err option) \<times> 'c power_state) option" where
  "power_wait_loop sys ctx others generation sleepOnly st =
     (case ctx (snd st) of
        (Some e, c1) \<Rightarrow>
          (case power_snapshotLocked sys (others (fst st, c1)) of (s, st') \<Rightarrow> Some ((s, Some (PowerForeign e)), st'))
      | (None, c1) \<Rightarrow>
          (let st1 = others (fst st, c1) in
           case pw_native (fst st1) of
             None \<Rightarrow> Some ((pw_last (fst st1), Some (power_failure ''power observer wait'' PowerClosed ''observer closed'')), st1)
           | Some n \<Rightarrow>
               (case diagnostic_power_wait sys n generation sleepOnly (snd st1) of (code, c2) \<Rightarrow>
                case power_snapshotLocked sys (fst st1, c2) of (s, st2) \<Rightarrow>
                  if code = 0 then Some ((s, None), st2)
                  else if code = ETIMEDOUT then power_wait_loop sys ctx others generation sleepOnly st2
                  else Some ((s, Some (power_wait_error sys s code)), st2))))"

definition power_wait ::
  "'c power_sys \<Rightarrow> ('c \<Rightarrow> err option \<times> 'c) option \<Rightarrow> ('c power_state \<Rightarrow> 'c power_state) \<Rightarrow> u64 \<Rightarrow> bool \<Rightarrow> 'c power_state \<Rightarrow>
   ((power_snapshot \<times> power_err option) \<times> 'c power_state) option" where
  "power_wait sys ctx others generation sleepOnly st =
     (case ctx of
        Some poll \<Rightarrow>
          if generation \<noteq> 0 then power_wait_loop sys poll others generation sleepOnly st
          else Some ((publicSnapshot zero_power,
                 Some (power_failure ''power observer wait'' PowerInvalidArgument ''context and arm generation are required'')), st)
      | None \<Rightarrow>
          Some ((publicSnapshot zero_power,
             Some (power_failure ''power observer wait'' PowerInvalidArgument ''context and arm generation are required'')), st))"

subsection \<open>The adapter of the HID driver\<close>

definition power_driver_kind :: "power_kind \<Rightarrow> driver_kind" where
  "power_driver_kind k =
     (case k of
        PowerClosed \<Rightarrow> KindClosed | PowerRemoved \<Rightarrow> KindRemoved | PowerPermission \<Rightarrow> KindPermission | PowerBusy \<Rightarrow> KindBusy
      | PowerUnsupported \<Rightarrow> KindUnsupported | PowerInvalidArgument \<Rightarrow> KindInvalidArgument | PowerResourceLimit \<Rightarrow> KindResourceLimit
      | PowerIO \<Rightarrow> KindIO)"

fun translate_power :: "power_err \<Rightarrow> err option" where
  "translate_power (PowerError op kind scope code message cause) =
     Some (DriverError op (power_driver_kind kind) scope code message (case cause of None \<Rightarrow> None | Some c \<Rightarrow> translate_power c))"
| "translate_power (PowerJoin causes) = errors_join (map translate_power causes)"
| "translate_power (PowerForeign e) = Some e"

definition translatePowerError :: "power_err option \<Rightarrow> err option" where
  "translatePowerError e = Option.bind e translate_power"

text \<open>The adapter holds an observer, or none when it is the zero value.\<close>

type_synonym 'c hid_power = "power_observer option \<times> 'c"

definition NewPowerObserver :: "'c power_sys \<Rightarrow> 'c \<Rightarrow> (power_observer option \<times> err option) \<times> 'c" where
  "NewPowerObserver sys c =
     (case power_New sys c of ((p, e), c') \<Rightarrow> if e \<noteq> None then ((None, translatePowerError e), c') else ((p, None), c'))"

definition PowerObserver_Arm :: "'c power_sys \<Rightarrow> 'c hid_power \<Rightarrow> (u64 \<times> err option) \<times> 'c hid_power" where
  "PowerObserver_Arm sys st =
     (case fst st of
        None \<Rightarrow> ((0, Some (driver_error ''power observer arm'' KindClosed ''observer closed'')), st)
      | Some p \<Rightarrow> (case power_Arm sys (p, snd st) of ((g, e), (p', c')) \<Rightarrow> ((g, translatePowerError e), (Some p', c'))))"

definition PowerObserver_Snapshot :: "'c power_sys \<Rightarrow> 'c hid_power \<Rightarrow> power_snapshot \<times> 'c hid_power" where
  "PowerObserver_Snapshot sys st =
     (case fst st of
        None \<Rightarrow> (publicSnapshot zero_power, st)
      | Some p \<Rightarrow> (case power_snapshotLocked sys (p, snd st) of (s, (p', c')) \<Rightarrow> (s, (Some p', c'))))"

definition uninitializedWait :: "('c \<Rightarrow> err option \<times> 'c) option \<Rightarrow> u64 \<Rightarrow> 'c \<Rightarrow> (power_snapshot \<times> err option) \<times> 'c" where
  "uninitializedWait ctx generation c =
     (case ctx of
        Some poll \<Rightarrow>
          if generation \<noteq> 0 then
            (case poll c of
               (Some e, c') \<Rightarrow> ((publicSnapshot zero_power, Some e), c')
             | (None, c') \<Rightarrow> ((publicSnapshot zero_power, Some (driver_error ''power observer wait'' KindClosed ''observer closed'')), c'))
          else ((publicSnapshot zero_power,
                 Some (driver_error ''power observer wait'' KindInvalidArgument ''context and arm generation are required'')), c)
      | None \<Rightarrow>
          ((publicSnapshot zero_power,
            Some (driver_error ''power observer wait'' KindInvalidArgument ''context and arm generation are required'')), c))"

text \<open>\<open>Wait\<close> and \<open>WaitSleep\<close>, by the flag.\<close>

definition PowerObserver_Wait ::
  "'c power_sys \<Rightarrow> ('c \<Rightarrow> err option \<times> 'c) option \<Rightarrow> ('c power_state \<Rightarrow> 'c power_state) \<Rightarrow> u64 \<Rightarrow> bool \<Rightarrow> 'c hid_power \<Rightarrow>
   ((power_snapshot \<times> err option) \<times> 'c hid_power) option" where
  "PowerObserver_Wait sys ctx others generation sleepOnly st =
     (case fst st of
        None \<Rightarrow> (case uninitializedWait ctx generation (snd st) of (r, c') \<Rightarrow> Some (r, (None, c')))
      | Some p \<Rightarrow>
          map_option (\<lambda>((s, e), (p', c')). ((s, translatePowerError e), (Some p', c')))
            (power_wait sys ctx others generation sleepOnly (p, snd st)))"

definition PowerObserver_Close :: "'c power_sys \<Rightarrow> 'c hid_power \<Rightarrow> err option \<times> 'c hid_power" where
  "PowerObserver_Close sys st =
     (case fst st of
        None \<Rightarrow> (None, st)
      | Some p \<Rightarrow> (case power_Close sys (p, snd st) of (e, (p', c')) \<Rightarrow> (translatePowerError e, (Some p', c'))))"

subsection \<open>Waiting\<close>

text \<open>A context that ends: every poll without an error uses up some of what is left, and nothing else adds to it.\<close>

definition power_context_ends :: "('c \<Rightarrow> nat) \<Rightarrow> 'c power_sys \<Rightarrow> ('c \<Rightarrow> err option \<times> 'c) \<Rightarrow> ('c power_state \<Rightarrow> 'c power_state) \<Rightarrow> bool" where
  "power_context_ends left sys ctx others \<longleftrightarrow>
     (\<forall>c c'. ctx c = (None, c') \<longrightarrow> left c' < left c) \<and> (\<forall>st. left (snd (others st)) \<le> left (snd st)) \<and>
     (\<forall>c. left (ps_callbacks sys c) \<le> left c) \<and> (\<forall>n c. left (snd (ps_timedwait sys n c)) \<le> left c)"

lemma power_context_endsD:
  assumes "power_context_ends left sys ctx others"
  shows "ctx c = (None, c') \<Longrightarrow> left c' < left c" "left (snd (others st)) \<le> left (snd st)" "left (ps_callbacks sys c) \<le> left c"
    "left (snd (ps_timedwait sys n c)) \<le> left c"
  using assms unfolding power_context_ends_def by blast+

lemma snapshotLocked_left:
  "power_context_ends left sys ctx others \<Longrightarrow> left (snd (snd (power_snapshotLocked sys st))) \<le> left (snd st)"
  using power_context_endsD(3) by (auto simp: power_snapshotLocked_def Let_def split: prod.splits option.splits)

lemma power_wait_left:
  assumes "power_context_ends left sys ctx others"
  shows "left (snd (diagnostic_power_wait sys n g b c)) \<le> left c"
proof -
  have "left (snd (ps_timedwait sys n (ps_callbacks sys c))) \<le> left c"
    using power_context_endsD(3,4) [OF assms] le_trans by blast
  then show ?thesis
    using power_context_endsD(3) [OF assms, of c] by (auto simp: diagnostic_power_wait_def Let_def split: prod.splits)
qed

lemma power_wait_loop_ends:
  assumes ends: "power_context_ends left sys ctx others"
  shows "power_wait_loop sys ctx others g b st \<noteq> None"
proof (induction "left (snd st)" arbitrary: st rule: less_induct)
  case less
  obtain e c1 where e: "ctx (snd st) = (e, c1)" by fastforce
  define st1 where "st1 = others (fst st, c1)"
  have again: "power_wait_loop sys ctx others g b st2 \<noteq> None"
    if "e = None" "diagnostic_power_wait sys n g b (snd st1) = (code, c2)" "power_snapshotLocked sys (fst st1, c2) = (s, st2)" for n code c2 s st2
  proof (rule less)
    have "left (snd st2) \<le> left c2" using snapshotLocked_left [OF ends, of "(fst st1, c2)"] that(3) by simp
    also have "\<dots> \<le> left (snd st1)" using power_wait_left [OF ends, of n g b "snd st1"] that(2) by simp
    also have "\<dots> \<le> left c1" using power_context_endsD(2) [OF ends, of "(fst st, c1)"] by (simp add: st1_def)
    also have "\<dots> < left (snd st)" using power_context_endsD(1) [OF ends] e that(1) by blast
    finally show "left (snd st2) < left (snd st)" .
  qed
  then show ?case
    by (subst power_wait_loop.simps) (auto simp: e Let_def simp flip: st1_def split: option.splits prod.splits)
qed

text \<open>What an answer without an error rests on: at some moment of the call the observer was armed with the generation, and the
  snapshot then, or after the wait that followed, qualified. The snapshot that the caller gets was read after that.\<close>

definition power_qualified :: "'c power_sys \<Rightarrow> u64 \<Rightarrow> bool \<Rightarrow> power_snapshot \<Rightarrow> bool" where
  "power_qualified sys g sleepOnly s \<longleftrightarrow>
     (\<exists>n c0 c1. g \<noteq> 0 \<and> pn_arm_generation (ps_state sys n c0) = g \<and> c1 \<in> {c0, snd (ps_timedwait sys n c0)} \<and>
        power_verdict sleepOnly (ps_state sys n c1) = 0 \<and> s = publicSnapshot (ps_state sys n (ps_callbacks sys c1)))"

lemma power_wait_0:
  assumes "diagnostic_power_wait sys n g b c = (0, c1)"
  shows "\<exists>c0. g \<noteq> 0 \<and> pn_arm_generation (ps_state sys n c0) = g \<and> c1 \<in> {c0, snd (ps_timedwait sys n c0)} \<and>
    power_verdict b (ps_state sys n c1) = 0"
  using assms
  by (intro exI [of _ "ps_callbacks sys c"])
    (auto simp: diagnostic_power_wait_def Let_def darwin_EINVAL_def ETIMEDOUT_def split: prod.splits if_splits)

lemma power_wait_loop_qualified:
  "power_wait_loop sys ctx others g b st = Some ((s, None), st') \<Longrightarrow> power_qualified sys g b s"
proof -
  have "\<forall>s st'. r = ((s, None), st') \<longrightarrow> power_qualified sys g b s" if "power_wait_loop sys ctx others g b st = Some r" for r
  proof (rule power_wait_loop.raw_induct
      [where P = "\<lambda>sys ctx others g b st r. \<forall>s st'. r = ((s, None), st') \<longrightarrow> power_qualified sys g b s", OF _ that], goal_cases)
    case (1 rec sys ctx others g b st r)
    obtain e c1 where e: "ctx (snd st) = (e, c1)" by fastforce
    define st1 where "st1 = others (fst st, c1)"
    show ?case
    proof (cases "e = None \<and> (\<exists>n. pw_native (fst st1) = Some n)")
      case False
      with 1(2) e show ?thesis by (auto simp: Let_def simp flip: st1_def split: option.splits prod.splits)
    next
      case True
      then obtain n where n: "pw_native (fst st1) = Some n" by blast
      obtain code c2 where w: "diagnostic_power_wait sys n g b (snd st1) = (code, c2)" by fastforce
      obtain s2 st2 where s2: "power_snapshotLocked sys (fst st1, c2) = (s2, st2)" by (rule prod.exhaust)
      then have "s2 = publicSnapshot (ps_state sys n (ps_callbacks sys c2))" by (auto simp: power_snapshotLocked_def n Let_def)
      with power_wait_0 [of sys n g b "snd st1" c2] w have "code = 0 \<longrightarrow> power_qualified sys g b s2"
        unfolding power_qualified_def by blast
      with 1 True e n w s2 show ?thesis by (auto simp: Let_def simp flip: st1_def split: if_splits)
    qed
  qed
  then show "power_wait_loop sys ctx others g b st = Some ((s, None), st') \<Longrightarrow> power_qualified sys g b s" by blast
qed

subsection \<open>Ownership\<close>

text \<open>What the native side promises about the observers that exist: \<open>diagnostic_power_new\<close> adds one, \<open>diagnostic_power_close\<close> frees
  it unless its thread cannot be joined.\<close>

definition power_owned :: "'c power_sys \<Rightarrow> ('c \<Rightarrow> int set) \<Rightarrow> bool" where
  "power_owned sys res \<longleftrightarrow>
     (\<forall>c r c'. ps_new sys c = (r, c') \<longrightarrow>
        (case r of Inl e \<Rightarrow> res c' = res c | Inr (n, e) \<Rightarrow> n \<notin> res c \<and> res c' = insert n (res c))) \<and>
     (\<forall>n c r c'. ps_close sys n c = (r, c') \<longrightarrow> (case r of Inl e \<Rightarrow> res c' = res c | Inr s \<Rightarrow> res c' = res c - {n}))"

lemma power_ownedD:
  assumes "power_owned sys res"
  shows "ps_new sys c = (Inl e, c') \<Longrightarrow> res c' = res c" "ps_new sys c = (Inr (n, u), c') \<Longrightarrow> n \<notin> res c \<and> res c' = insert n (res c)"
    "ps_close sys n c = (Inl e, c') \<Longrightarrow> res c' = res c" "ps_close sys n c = (Inr s, c') \<Longrightarrow> res c' = res c - {n}"
  using assms unfolding power_owned_def by fastforce+

lemma power_Close_cases:
  assumes "power_owned sys res" and "power_Close sys (q, c) = (e, (q', c'))"
  obtains "pw_native q = None" "q' = q" "c' = c"
  | n s where "pw_native q = Some n" "q' = \<lparr>pw_native = None, pw_last = publicSnapshot s\<rparr>" "res c' = res c - {n}"
      "e = powerCleanupError sys (publicSnapshot s)"
  | n code where "pw_native q = Some n" "ps_close sys n c = (Inl code, c')" "q' = q" "e \<noteq> None" "res c' = res c"
  using assms(2) power_ownedD(3,4) [OF assms(1)] that
  by (auto simp: power_Close_def split: option.splits prod.splits sum.splits)

lemma power_closed:
  "pw_native q = None \<Longrightarrow> power_snapshotLocked sys (q, c) = (pw_last q, (q, c))"
  "pw_native q = None \<Longrightarrow> power_Close sys (q, c) = (powerCleanupError sys (pw_last q), (q, c))"
  by (simp_all add: power_snapshotLocked_def power_Close_def)

lemma power_join_Some: "power_join (Some e # es) \<noteq> None"
  by (simp add: power_join_def)

text \<open>The adapter gives an IOKit error the kind that the driver gives it.\<close>

lemma power_driver_ioKind: "power_driver_kind (power_ioKind code) = darwin_ioKind code"
  by (simp add: power_ioKind_def darwin_ioKind_def power_driver_kind_def)

text \<open>The adapter loses no error, and the causes of the errors it translates, such as the end of a context, stay visible to
  \<open>errors.Is\<close>. A join that the package builds is never empty.\<close>

fun power_wf :: "power_err \<Rightarrow> bool" where
  "power_wf (PowerError op kind scope code message cause) = (case cause of None \<Rightarrow> True | Some c \<Rightarrow> power_wf c)"
| "power_wf (PowerJoin causes) = (causes \<noteq> [] \<and> list_all power_wf causes)"
| "power_wf (PowerForeign e) = True"

fun power_is :: "power_err \<Rightarrow> sentinel \<Rightarrow> bool" where
  "power_is (PowerError op kind scope code message cause) t = (case cause of None \<Rightarrow> False | Some c \<Rightarrow> power_is c t)"
| "power_is (PowerJoin causes) t = list_ex (\<lambda>e. power_is e t) causes"
| "power_is (PowerForeign e) t = errors_is e t"

lemma power_join_wf: "power_join es = Some e \<Longrightarrow> (\<And>x. Some x \<in> set es \<Longrightarrow> power_wf x) \<Longrightarrow> power_wf e"
proof -
  assume j: "power_join es = Some e" and w: "\<And>x. Some x \<in> set es \<Longrightarrow> power_wf x"
  have "set [e. Some e \<leftarrow> es] = {x. Some x \<in> set es}" by (auto split: option.splits)
  then have "list_all power_wf [e. Some e \<leftarrow> es]" unfolding list_all_iff using w by blast
  with j show ?thesis unfolding power_join_def by (cases "[e. Some e \<leftarrow> es]") auto
qed

lemma errors_is_Driver: "errors_is (DriverError op k scope code m cause) t \<longleftrightarrow> (\<exists>c. cause = Some c \<and> errors_is c t)"
  by (auto simp: errors_is_def split: option.splits)

lemma errors_is_Join: "errors_is (JoinError es) t \<longleftrightarrow> (\<exists>e \<in> set es. errors_is e t)"
  by (auto simp: errors_is_def)

lemma translate_keeps: "power_wf e \<Longrightarrow> \<exists>x. translate_power e = Some x \<and> (\<forall>t. errors_is x t \<longleftrightarrow> power_is e t)"
proof (induction e)
  case (PowerError op kind scope code message cause)
  show ?case
  proof (cases cause)
    case (Some c)
    with PowerError obtain x where "translate_power c = Some x" "\<forall>t. errors_is x t \<longleftrightarrow> power_is c t" by fastforce
    with Some show ?thesis by (simp add: errors_is_Driver)
  qed (simp add: errors_is_Driver)
next
  case (PowerJoin causes)
  have "power_wf c" if "c \<in> set causes" for c
    using PowerJoin.prems that by (simp add: list_all_iff)
  with PowerJoin.IH obtain h where h: "\<And>c. c \<in> set causes \<Longrightarrow> translate_power c = Some (h c) \<and> (\<forall>t. errors_is (h c) t \<longleftrightarrow> power_is c t)"
    by metis
  then have m: "map translate_power causes = map (\<lambda>c. Some (h c)) causes" by simp
  have j: "[e. Some e \<leftarrow> map (\<lambda>c. Some (h c)) causes] = map h causes" by (induction causes) simp_all
  obtain c cs where c: "map h causes = h c # cs" using PowerJoin.prems by (cases causes) auto
  have "translate_power (PowerJoin causes) = errors_join (map (\<lambda>c. Some (h c)) causes)" by (simp only: translate_power.simps m)
  also have "\<dots> = Some (JoinError (map h causes))" unfolding errors_join_def j c by simp
  finally have "translate_power (PowerJoin causes) = Some (JoinError (map h causes))" .
  with h show ?case by (auto simp: errors_is_Join list_ex_iff)
qed simp

subsection \<open>A sample machine\<close>

text \<open>Its observers are numbered; each wait delivers the next pending event to the one snapshot it has.\<close>

record power_machine =
  pm_live :: "nat list"
  pm_state :: power_native
  pm_pending :: "power_event list"
  pm_polls :: nat

definition machine_number :: "power_machine \<Rightarrow> nat" where
  "machine_number c = Suc (sum_list (pm_live c))"

definition machine_wait :: "int \<Rightarrow> power_machine \<Rightarrow> int \<times> power_machine" where
  "machine_wait n c =
     (case pm_pending c of
        [] \<Rightarrow> (ETIMEDOUT, c)
      | e # es \<Rightarrow> (0, c\<lparr>pm_state := diagnostic_power_reduce (pm_state c) (pe_ArmGeneration e) (pe_Kind e) (pe_AckCode e), pm_pending := es\<rparr>))"

definition sample_power :: "power_machine power_sys" where
  "sample_power =
     \<lparr>ps_new = (\<lambda>c. (Inr (int (machine_number c), 0), c\<lparr>pm_live := machine_number c # pm_live c\<rparr>)),
      ps_arm = (\<lambda>n c. ((0, 5, 0), c\<lparr>pm_state := power_armed 1 5\<rparr>)),
      ps_state = (\<lambda>n. pm_state), ps_callbacks = (\<lambda>c. c), ps_timedwait = machine_wait,
      ps_close = (\<lambda>n c. (Inr (pm_state c), c\<lparr>pm_live := filter (\<lambda>m. int m \<noteq> n) (pm_live c)\<rparr>)),
      ps_mach_error = (\<lambda>c. ''iokit''), ps_errno_message = (\<lambda>c. ''errno'')\<rparr>"

definition machine_poll :: "power_machine \<Rightarrow> err option \<times> power_machine" where
  "machine_poll c = (if pm_polls c = 0 then (Some (Sentinel (SContext Canceled)), c) else (None, c\<lparr>pm_polls := pm_polls c - 1\<rparr>))"

definition machine_events :: "power_event list" where
  "machine_events =
     [\<lparr>pe_Kind = WillSleep, pe_ArmGeneration = 5, pe_AckCode = 0\<rparr>, \<lparr>pe_Kind = PoweredOn, pe_ArmGeneration = 5, pe_AckCode = 0\<rparr>]"

definition machine_armed :: power_machine where
  "machine_armed = \<lparr>pm_live = [1], pm_state = power_armed 1 5, pm_pending = machine_events, pm_polls = 9\<rparr>"

lemma machine_left: "pm_polls (snd (machine_wait n c)) = pm_polls c"
  by (simp add: machine_wait_def split: list.splits)

lemma sample_power_ends: "power_context_ends pm_polls sample_power machine_poll (\<lambda>st. st)"
  unfolding power_context_ends_def by (auto simp: sample_power_def machine_poll_def machine_left split: if_splits)

lemma machine_fresh: "machine_number c \<notin> set (pm_live c)"
  using member_le_sum_list [of "machine_number c" "pm_live c"] by (auto simp: machine_number_def)

lemma sample_power_owned: "power_owned sample_power (\<lambda>c. int ` set (pm_live c))"
  using machine_fresh by (auto simp: power_owned_def sample_power_def)

subsection \<open>Properties\<close>

text \<open>C38. Which power events qualify. The reducer calls a cycle matched if and only if the events since arming are exactly one sleep
  and the wake-up after it, perhaps announced by one question whether the system may sleep, all of the armed generation and with
  every required acknowledgement accepted. This holds of \<open>ReduceEvents\<close>, whose snapshots are always marked synthetic, for any list of
  fixture events, and of a live observer for any sequence that its 64 bit counters can count.\<close>

theorem power_cycle_exact:
  "(po_Matched (ReduceEvents g es) \<longleftrightarrow> g \<noteq> 0 \<and> power_cycle g es) \<and> po_Synthetic (ReduceEvents g es) \<and>
   (length es < 2 ^ 64 \<longrightarrow>
      (pn_matched (foldl (\<lambda>s e. diagnostic_power_reduce s (pe_ArmGeneration e) (pe_Kind e) (pe_AckCode e)) (power_armed obs g) es) \<longleftrightarrow>
         power_cycle g es))"
proof (intro conjI impI)
  let ?s = "(power_armed 1 g)\<lparr>pn_synthetic := True\<rparr>"
  have s: "zero_power\<lparr>pn_synthetic := True, pn_observer_generation := 1, pn_arm_generation := g, pn_ready := True, pn_armed := True\<rparr> = ?s"
    by (simp add: power_armed_def)
  have run: "ReduceEvents g es = publicSnapshot (foldl (\<lambda>s e. diagnostic_power_reduce s (pe_ArmGeneration e) (pe_Kind e) (pe_AckCode e)) ?s es)"
    if "g \<noteq> 0" "length es \<le> 256"
    using that s by (simp add: ReduceEvents_def)
  show "po_Matched (ReduceEvents g es) \<longleftrightarrow> g \<noteq> 0 \<and> power_cycle g es"
  proof (cases "g \<noteq> 0 \<and> length es \<le> 256")
    case True
    then have "length es < 2 ^ 64" by simp
    with True fresh_matched [OF fresh_phase(2) [of g 1], of es] run show ?thesis by (simp add: publicSnapshot_sel)
  next
    case False
    with power_cycle_length [of g es] show ?thesis by (auto simp: ReduceEvents_def publicSnapshot_sel zero_power_def)
  qed
  show "po_Synthetic (ReduceEvents g es)"
    by (simp add: ReduceEvents_def publicSnapshot_sel Let_def events_synthetic)
  show "pn_matched (foldl (\<lambda>s e. diagnostic_power_reduce s (pe_ArmGeneration e) (pe_Kind e) (pe_AckCode e)) (power_armed obs g) es) \<longleftrightarrow>
      power_cycle g es" if "length es < 2 ^ 64"
    by (rule fresh_matched [OF fresh_phase(1) that])
qed

theorem power_cycle_exact_witness:
  "po_Matched (ReduceEvents 5 machine_events) \<and>
   pn_matched (foldl (\<lambda>s e. diagnostic_power_reduce s (pe_ArmGeneration e) (pe_Kind e) (pe_AckCode e)) (power_armed 1 5) machine_events)"
proof -
  have "power_cycle 5 machine_events" by (simp add: power_cycle_def machine_events_def)
  then show ?thesis using power_cycle_exact [of 5 machine_events 1] by (simp add: machine_events_def)
qed

text \<open>A wait for a power cycle ends with its context, whatever events arrive and whatever other goroutines do with the observer. An
  answer without an error means that the snapshot of an observer armed with this generation had no native error, no
  out-of-order, extra, stale or cancelled event and was matched, or asleep once; a generation of zero is never accepted.\<close>

theorem power_wait_ends:
  assumes "power_context_ends left sys ctx others"
  shows "\<exists>s e st'. power_wait sys (Some ctx) others g sleepOnly st = Some ((s, e), st') \<and>
    (e = None \<longrightarrow> power_qualified sys g sleepOnly s)"
proof (cases "g = 0")
  case False
  then have w: "power_wait sys (Some ctx) others g sleepOnly st = power_wait_loop sys ctx others g sleepOnly st" by (simp add: power_wait_def)
  with power_wait_loop_ends [OF assms] obtain s e st' where "power_wait sys (Some ctx) others g sleepOnly st = Some ((s, e), st')"
    by (metis not_None_eq surj_pair)
  with w power_wait_loop_qualified show ?thesis by metis
qed (simp add: power_wait_def)

theorem power_wait_ends_witness:
  "\<exists>s e st'. power_wait sample_power (Some machine_poll) (\<lambda>st. st) 5 False (\<lparr>pw_native = Some 1, pw_last = publicSnapshot zero_power\<rparr>, machine_armed) =
     Some ((s, e), st') \<and> (e = None \<longrightarrow> power_qualified sample_power 5 False s)"
  by (rule power_wait_ends [OF sample_power_ends])

text \<open>Ownership of the native power observer. \<open>New\<close> returns either an observer that owns the native one it created, or an error,
  and then nothing was left behind unless the thread of a failed registration could not be joined. \<open>Close\<close> frees it exactly
  once: after a success the observer owns nothing, a further \<open>Close\<close> repeats the same answer without a native call, the last
  snapshot stays readable and \<open>Arm\<close> is refused; when the thread cannot be joined the observer keeps ownership and reports it.\<close>

theorem power_observer_owned:
  assumes own: "power_owned sys res"
  shows "(case power_New sys c of
      ((Some p, e), c') \<Rightarrow> e = None \<and> (\<exists>n. pw_native p = Some n \<and> n \<notin> res c \<and> res c' = insert n (res c))
    | ((None, e), c') \<Rightarrow> e \<noteq> None \<and> (res c' = res c \<or> (\<exists>n code c1. ps_close sys n c1 = (Inl code, c') \<and> n \<notin> res c \<and> res c' = insert n (res c)))) \<and>
    (case power_Close sys (q, c) of
      (e, (q', c')) \<Rightarrow>
        (case pw_native q of None \<Rightarrow> q' = q \<and> c' = c
         | Some n \<Rightarrow> pw_native q' = None \<and> res c' = res c - {n} \<or> q' = q \<and> e \<noteq> None \<and> res c' = res c) \<and>
        (pw_native q' = None \<longrightarrow>
           (pw_native q = None \<or> power_Close sys (q', c') = (e, (q', c'))) \<and>
           power_snapshotLocked sys (q', c') = (pw_last q', (q', c')) \<and>
           power_Arm sys (q', c') = ((0, Some (power_failure ''power observer arm'' PowerClosed ''observer closed'')), (q', c'))))"
proof
  show "case power_New sys c of
      ((Some p, e), c') \<Rightarrow> e = None \<and> (\<exists>n. pw_native p = Some n \<and> n \<notin> res c \<and> res c' = insert n (res c))
    | ((None, e), c') \<Rightarrow> e \<noteq> None \<and> (res c' = res c \<or> (\<exists>n code c1. ps_close sys n c1 = (Inl code, c') \<and> n \<notin> res c \<and> res c' = insert n (res c)))"
  proof (cases "ps_new sys c")
    case (Pair r c1)
    show ?thesis
    proof (cases r)
      case (Inl code)
      with Pair power_ownedD(1) [OF own, of c code c1] show ?thesis by (simp add: power_New_def)
    next
      case (Inr nu)
      obtain n u where nu: "nu = (n, u)" by fastforce
      have new: "n \<notin> res c" "res c1 = insert n (res c)" using power_ownedD(2) [OF own] Pair Inr nu by auto
      obtain e q' c2 where cl: "power_Close sys (\<lparr>pw_native = Some n, pw_last = publicSnapshot zero_power\<rparr>, c1) = (e, (q', c2))"
        by (metis surj_pair)
      from own cl have "res c2 = res c \<or> (\<exists>code. ps_close sys n c1 = (Inl code, c2) \<and> res c2 = insert n (res c))"
        by (cases rule: power_Close_cases) (use new in auto)
      with new(1) have "res c2 = res c \<or> (\<exists>n code c1. ps_close sys n c1 = (Inl code, c2) \<and> n \<notin> res c \<and> res c2 = insert n (res c))"
        by blast
      with Pair Inr nu new cl power_join_Some show ?thesis by (simp add: power_New_def Let_def)
    qed
  qed
  obtain e q' c' where cl: "power_Close sys (q, c) = (e, (q', c'))" by (metis surj_pair)
  from own cl have "(case pw_native q of None \<Rightarrow> q' = q \<and> c' = c
         | Some n \<Rightarrow> pw_native q' = None \<and> res c' = res c - {n} \<or> q' = q \<and> e \<noteq> None \<and> res c' = res c) \<and>
      (pw_native q' = None \<longrightarrow> pw_native q = None \<or> e = powerCleanupError sys (pw_last q'))"
    by (cases rule: power_Close_cases) auto
  with cl show "case power_Close sys (q, c) of
      (e, (q', c')) \<Rightarrow>
        (case pw_native q of None \<Rightarrow> q' = q \<and> c' = c
         | Some n \<Rightarrow> pw_native q' = None \<and> res c' = res c - {n} \<or> q' = q \<and> e \<noteq> None \<and> res c' = res c) \<and>
        (pw_native q' = None \<longrightarrow>
           (pw_native q = None \<or> power_Close sys (q', c') = (e, (q', c'))) \<and>
           power_snapshotLocked sys (q', c') = (pw_last q', (q', c')) \<and>
           power_Arm sys (q', c') = ((0, Some (power_failure ''power observer arm'' PowerClosed ''observer closed'')), (q', c')))"
    by (auto simp: power_closed power_Arm_def)
qed

theorem power_observer_owned_witness:
  "\<exists>e q' c'. power_Close sample_power (\<lparr>pw_native = Some 1, pw_last = publicSnapshot zero_power\<rparr>, machine_armed) = (e, (q', c')) \<and>
     pw_native q' = None \<and> pm_live c' = [] \<and> power_Close sample_power (q', c') = (e, (q', c'))"
proof -
  obtain e q' c' where cl: "power_Close sample_power (\<lparr>pw_native = Some 1, pw_last = publicSnapshot zero_power\<rparr>, machine_armed) = (e, (q', c'))"
    "pw_native q' = None" "pm_live c' = []"
    by (simp add: power_Close_def sample_power_def machine_armed_def)
  with power_observer_owned [OF sample_power_owned, of machine_armed "\<lparr>pw_native = Some 1, pw_last = publicSnapshot zero_power\<rparr>"]
  show ?thesis by simp
qed

end
