(* ===== verification/DarwinConnection.thy ===== *)
theory DarwinConnection
  imports DarwinHid RingBuffer
begin

text \<open>
  The native connection of the macOS driver, \<open>pkg/hid/internal/darwin/connection_darwin.c\<close>: the state behind \<open>hid_connect\<close>,
  \<open>hid_read\<close>, \<open>hid_write\<close> and \<open>hid_disconnect\<close>, shared by a reader thread, a writer thread and the callers. Every access to the state is a
  critical section of the connection's lock; the threads are a step relation whose steps are these sections. The answers of IOKit and of
  the thread library are chosen by the steps. The callers keep the contract of \<open>driver.Device\<close>: one read and one write at a time, and
  a close after both have returned. The build with diagnostics is not modelled.
\<close>

subsection \<open>The shared state\<close>

definition kIOReturnBadArgument :: u32 where "kIOReturnBadArgument = 0xe00002c2"
definition HID_MAX_REPORT :: int where "HID_MAX_REPORT = 4096"
definition HID_QUEUE_SIZE :: nat where "HID_QUEUE_SIZE = 64"

text \<open>\<open>hid_connection\<close>. A queue slot holds the bytes that were copied to it, \<open>hc_output\<close> the first \<open>output_length\<close> bytes of the output
  buffer, and \<open>hc_runloop\<close> says that the pointer of the run loop is set.\<close>

record hid_connection =
  hc_runloop :: bool
  hc_ready :: bool
  hc_stop :: bool
  hc_writer_stop :: bool
  hc_writer_dead :: bool
  hc_terminal :: int
  hc_head :: nat
  hc_count :: nat
  hc_io_error :: u32
  hc_close_error :: u32
  hc_input_id :: byte
  hc_output_id :: byte
  hc_input_size :: int
  hc_output_size :: int
  hc_queue :: "bytes list"
  hc_output :: bytes
  hc_write_pending :: bool
  hc_write_done :: bool
  hc_write_result :: darwin_write

abbreviation no_write :: darwin_write where
  "no_write \<equiv> \<lparr>dw_io = 0, dw_setup_error = 0, dw_restore_error = 0, dw_submitted = False, dw_completed = False\<rparr>"

definition fail_locked :: "int \<Rightarrow> u32 \<Rightarrow> hid_connection \<Rightarrow> hid_connection" where
  "fail_locked terminal code c = (if hc_terminal c = 0 then c\<lparr>hc_terminal := terminal, hc_io_error := code\<rparr> else c)"

text \<open>A wire report: the report ID is there when it is not zero.\<close>

definition wire_prefix :: "byte \<Rightarrow> nat" where
  "wire_prefix i = (if i \<noteq> 0 then 1 else 0)"

definition enqueue_report :: "bytes \<Rightarrow> hid_connection \<Rightarrow> hid_connection" where
  "enqueue_report data c =
     c\<lparr>hc_queue := (hc_queue c)[(hc_head c + hc_count c) mod HID_QUEUE_SIZE := data], hc_count := hc_count c + 1\<rparr>"

definition report_malformed :: "hid_connection \<Rightarrow> bytes \<Rightarrow> bool" where
  "report_malformed c report \<longleftrightarrow>
     int (length report) \<noteq> hc_input_size c + int (wire_prefix (hc_input_id c)) \<or> hc_input_id c \<noteq> 0 \<and> hd report \<noteq> hc_input_id c"

definition input_callback :: "u32 \<Rightarrow> bool \<Rightarrow> byte \<Rightarrow> bytes \<Rightarrow> hid_connection \<Rightarrow> hid_connection" where
  "input_callback result isInput reportID report c =
     (if hc_stop c \<or> hc_terminal c \<noteq> 0 then c
      else if result \<noteq> 0 then fail_locked (- 1) result c
      else if \<not> isInput \<or> reportID \<noteq> hc_input_id c then c
      else if report_malformed c report then fail_locked (- 3) 0 c
      else if hc_count c = HID_QUEUE_SIZE then fail_locked (- 2) 0 c
      else enqueue_report (take (nat (hc_input_size c)) (drop (wire_prefix (hc_input_id c)) report)) c)"

definition removal_callback :: "hid_connection \<Rightarrow> hid_connection" where
  "removal_callback c = fail_locked (- 1) kIOReturnNoDevice c"

subsection \<open>Threads\<close>

text \<open>The critical section of \<open>reader_main\<close> after the open call, with the code of that call.\<close>

definition reader_publish :: "u32 \<Rightarrow> hid_connection \<Rightarrow> hid_connection" where
  "reader_publish opened c =
     (let c' = c\<lparr>hc_runloop := (opened = 0), hc_ready := True\<rparr> in if opened \<noteq> 0 then fail_locked (- 1) opened c' else c')"

definition reader_teardown :: "u32 \<Rightarrow> hid_connection \<Rightarrow> hid_connection" where
  "reader_teardown closed c = c\<lparr>hc_close_error := closed, hc_runloop := False\<rparr>"

text \<open>\<open>protected_write\<close>, given what preparing the signal set, blocking the signal, the native write and restoring the mask answer.\<close>

definition protected_write :: "int \<Rightarrow> int \<Rightarrow> u32 \<Rightarrow> int \<Rightarrow> darwin_write" where
  "protected_write setErr blockErr io restoreErr =
     (if setErr \<noteq> 0 then no_write\<lparr>dw_setup_error := setErr\<rparr>
      else if blockErr \<noteq> 0 then no_write\<lparr>dw_setup_error := blockErr\<rparr>
      else \<lparr>dw_io = io, dw_setup_error = 0, dw_restore_error = restoreErr, dw_submitted = True, dw_completed = (io = 0)\<rparr>)"

definition writer_publish :: "darwin_write \<Rightarrow> hid_connection \<Rightarrow> hid_connection" where
  "writer_publish r c =
     (let c' = c\<lparr>hc_write_result := r, hc_write_pending := False, hc_write_done := True\<rparr> in
      if dw_restore_error r \<noteq> 0 then fail_locked (- 4) 0 (c'\<lparr>hc_writer_dead := True\<rparr>) else c')"

subsection \<open>Calls\<close>

definition front_report :: "hid_connection \<Rightarrow> bytes" where
  "front_report c = hc_queue c ! hc_head c"

definition dequeue_report :: "hid_connection \<Rightarrow> hid_connection" where
  "dequeue_report c = c\<lparr>hc_head := (hc_head c + 1) mod HID_QUEUE_SIZE, hc_count := hc_count c - 1\<rparr>"

text \<open>The end of \<open>hid_read\<close> after its loop, which left with \<open>status\<close>.\<close>

definition hid_read_finish :: "int \<Rightarrow> hid_connection \<Rightarrow> (int \<times> u32 \<times> bytes option) \<times> hid_connection" where
  "hid_read_finish status c =
     (if hc_terminal c \<noteq> 0 then ((hc_terminal c, hc_io_error c, None), c)
      else if hc_stop c then ((- 5, 0, None), c)
      else if hc_count c \<noteq> 0 then
        ((0, 0, Some (front_report c)), dequeue_report c)
      else ((status, 0, None), c))"

definition hid_read_waits :: "hid_connection \<Rightarrow> bool" where
  "hid_read_waits c \<longleftrightarrow> hc_count c = 0 \<and> hc_terminal c = 0 \<and> \<not> hc_stop c"

definition wire_report :: "byte \<Rightarrow> bytes \<Rightarrow> bytes" where
  "wire_report i data = (if i \<noteq> 0 then i # data else data)"

text \<open>\<open>hid_write\<close> up to its wait: refused with a result, or pending.\<close>

definition hid_write_begin :: "bytes \<Rightarrow> hid_connection \<Rightarrow> darwin_write + hid_connection" where
  "hid_write_begin data c =
     (if hc_stop c \<or> hc_terminal c \<noteq> 0 \<or> hc_writer_dead c
      then Inl (no_write\<lparr>dw_io := if hc_io_error c \<noteq> 0 then hc_io_error c else kIOReturnNotOpen\<rparr>)
      else if int (length data) \<noteq> hc_output_size c then Inl (no_write\<lparr>dw_io := kIOReturnBadArgument\<rparr>)
      else Inr (c\<lparr>hc_output := wire_report (hc_output_id c) data, hc_write_pending := True, hc_write_done := False\<rparr>))"

definition hid_disconnect_begin :: "hid_connection \<Rightarrow> hid_connection" where
  "hid_disconnect_begin c = c\<lparr>hc_writer_stop := True, hc_stop := True\<rparr>"

subsection \<open>The machine\<close>

text \<open>The places of the threads. The reader runs its callbacks in \<open>RRun\<close>, inside \<open>CFRunLoopRunInMode\<close>. The owner is the caller of
  \<open>hid_connect\<close> and later of \<open>hid_disconnect\<close>; \<open>OJoinFailed\<close> joins the reader of a connection that is given up.\<close>

datatype native_reader = RStart | RScheduled | RLoop | RRun | RTeardown | RExited
datatype native_writer = WNone | WIdle | WWriting | WExited
datatype native_owner = OWaitReady | OJoinFailed u32 int | OFailed u32 int | OOpen | OJoinWriter | OJoinReader | OClosed u32

text \<open>The read in progress has its wait and its start, the write in progress its data. \<open>hm_device_open\<close> is the state of the IOKit
  device and \<open>hm_freed\<close> says that the storage is freed. The rest is a record of what happened: the reports that the callback
  queued and that reads returned, the buffers that the writer handed on with their results, and the results that writes returned.\<close>

record hid_machine =
  hm_c :: hid_connection
  hm_owner :: native_owner
  hm_reader :: native_reader
  hm_writer :: native_writer
  hm_read :: "(int \<times> int) option"
  hm_write :: "bytes option"
  hm_now :: int
  hm_device_open :: bool
  hm_freed :: bool
  hm_accepted :: "bytes list"
  hm_delivered :: "bytes list"
  hm_native :: "(bytes \<times> darwin_write) list"
  hm_returned :: "(bytes \<times> darwin_write) list"

definition fresh_connection :: "report_layout \<Rightarrow> hid_connection" where
  "fresh_connection l =
     \<lparr>hc_runloop = False, hc_ready = False, hc_stop = False, hc_writer_stop = False, hc_writer_dead = False, hc_terminal = 0,
      hc_head = 0, hc_count = 0, hc_io_error = 0, hc_close_error = 0,
      hc_input_id = rs_ID (rl_Input l), hc_output_id = rs_ID (rl_Output l),
      hc_input_size = rs_Size (rl_Input l), hc_output_size = rs_Size (rl_Output l),
      hc_queue = replicate HID_QUEUE_SIZE [], hc_output = [], hc_write_pending = False, hc_write_done = False, hc_write_result = no_write\<rparr>"

definition size_invalid :: "int \<Rightarrow> bool" where
  "size_invalid n \<longleftrightarrow> n < 1 \<or> n > HID_MAX_REPORT"

text \<open>\<open>hid_connect\<close> until its wait for the reader, given whether the allocation succeeds and the codes of the thread library. What it
  took before a failure is given back at once.\<close>

definition hid_connect_begin :: "report_layout \<Rightarrow> bool \<Rightarrow> int \<Rightarrow> int \<Rightarrow> int \<Rightarrow> int \<Rightarrow> (u32 \<times> int) + hid_machine" where
  "hid_connect_begin l allocated mutexErr condErr threadErr now =
     (if size_invalid (rs_Size (rl_Input l)) \<or> size_invalid (rs_Size (rl_Output l)) then Inl (kIOReturnBadArgument, 0)
      else if \<not> allocated then Inl (kIOReturnNoMemory, 0)
      else if mutexErr \<noteq> 0 then Inl (0, mutexErr)
      else if condErr \<noteq> 0 then Inl (0, condErr)
      else if threadErr \<noteq> 0 then Inl (0, threadErr)
      else Inr \<lparr>hm_c = fresh_connection l, hm_owner = OWaitReady, hm_reader = RStart, hm_writer = WNone, hm_read = None, hm_write = None,
                hm_now = now, hm_device_open = False, hm_freed = False, hm_accepted = [], hm_delivered = [], hm_native = [], hm_returned = []\<rparr>)"

text \<open>What the callback adds to the record: a report that went into the queue.\<close>

definition newly_queued :: "hid_connection \<Rightarrow> hid_connection \<Rightarrow> bytes list" where
  "newly_queued c c' =
     (if hc_count c < hc_count c' then [hc_queue c' ! ((hc_head c + hc_count c) mod HID_QUEUE_SIZE)] else [])"

definition caller_returns :: "hid_machine \<Rightarrow> int \<Rightarrow> hid_machine" where
  "caller_returns m status =
     (case hid_read_finish status (hm_c m) of ((_, _, report), c) \<Rightarrow>
        m\<lparr>hm_c := c, hm_read := None, hm_delivered := hm_delivered m @ (case report of None \<Rightarrow> [] | Some d \<Rightarrow> [d])\<rparr>)"

inductive hid_step :: "hid_machine \<Rightarrow> hid_machine \<Rightarrow> bool" where
  clock: "now \<ge> hm_now m \<Longrightarrow> hid_step m (m\<lparr>hm_now := now\<rparr>)"
| open_fails: "hm_reader m = RStart \<Longrightarrow> opened \<noteq> 0 \<Longrightarrow>
    hid_step m (m\<lparr>hm_c := reader_publish opened (hm_c m), hm_reader := RExited\<rparr>)"
| open_succeeds: "hm_reader m = RStart \<Longrightarrow> hid_step m (m\<lparr>hm_reader := RScheduled, hm_device_open := True\<rparr>)"
| publish: "hm_reader m = RScheduled \<Longrightarrow> hid_step m (m\<lparr>hm_c := reader_publish 0 (hm_c m), hm_reader := RLoop\<rparr>)"
| loop_runs: "hm_reader m = RLoop \<Longrightarrow> \<not> hc_stop (hm_c m) \<Longrightarrow> hid_step m (m\<lparr>hm_reader := RRun\<rparr>)"
| loop_stops: "hm_reader m = RLoop \<Longrightarrow> hc_stop (hm_c m) \<Longrightarrow> hid_step m (m\<lparr>hm_reader := RTeardown\<rparr>)"
| input: "hm_reader m = RRun \<Longrightarrow> c = input_callback result isInput reportID report (hm_c m) \<Longrightarrow>
    hid_step m (m\<lparr>hm_c := c, hm_accepted := hm_accepted m @ newly_queued (hm_c m) c\<rparr>)"
| removal: "hm_reader m = RRun \<Longrightarrow> hid_step m (m\<lparr>hm_c := removal_callback (hm_c m)\<rparr>)"
| run_returns: "hm_reader m = RRun \<Longrightarrow> hid_step m (m\<lparr>hm_reader := RLoop\<rparr>)"
| teardown: "hm_reader m = RTeardown \<Longrightarrow>
    hid_step m (m\<lparr>hm_c := reader_teardown closed (hm_c m), hm_reader := RExited, hm_device_open := False\<rparr>)"
| writer_stops: "hm_writer m = WIdle \<Longrightarrow> hc_writer_stop (hm_c m) \<Longrightarrow> hid_step m (m\<lparr>hm_writer := WExited\<rparr>)"
| writer_takes: "hm_writer m = WIdle \<Longrightarrow> \<not> hc_writer_stop (hm_c m) \<Longrightarrow> hc_write_pending (hm_c m) \<Longrightarrow> hid_step m (m\<lparr>hm_writer := WWriting\<rparr>)"
| writer_writes: "hm_writer m = WWriting \<Longrightarrow> r = protected_write setErr blockErr io restoreErr \<Longrightarrow>
    c = writer_publish r (hm_c m) \<Longrightarrow>
    hid_step m (m\<lparr>hm_c := c, hm_writer := (if hc_writer_dead c then WExited else WIdle), hm_native := hm_native m @ [(hc_output (hm_c m), r)]\<rparr>)"
| connected: "hm_owner m = OWaitReady \<Longrightarrow> hc_ready (hm_c m) \<Longrightarrow> hc_io_error (hm_c m) = 0 \<Longrightarrow>
    hid_step m (m\<lparr>hm_owner := OOpen, hm_writer := WIdle\<rparr>)"
| no_writer: "hm_owner m = OWaitReady \<Longrightarrow> hc_ready (hm_c m) \<Longrightarrow> hc_io_error (hm_c m) = 0 \<Longrightarrow> threadErr \<noteq> 0 \<Longrightarrow>
    hid_step m (m\<lparr>hm_c := (hm_c m)\<lparr>hc_stop := True\<rparr>, hm_owner := OJoinFailed 0 threadErr\<rparr>)"
| not_opened: "hm_owner m = OWaitReady \<Longrightarrow> hc_ready (hm_c m) \<Longrightarrow> hc_io_error (hm_c m) \<noteq> 0 \<Longrightarrow>
    hid_step m (m\<lparr>hm_c := (hm_c m)\<lparr>hc_stop := True\<rparr>, hm_owner := OJoinFailed (hc_io_error (hm_c m)) 0\<rparr>)"
| joined_failed: "hm_owner m = OJoinFailed code threadErr \<Longrightarrow> hm_reader m = RExited \<Longrightarrow>
    hid_step m (m\<lparr>hm_owner := OFailed code threadErr, hm_freed := True\<rparr>)"
| read_call: "hm_owner m = OOpen \<Longrightarrow> hm_read m = None \<Longrightarrow> wait \<ge> 0 \<Longrightarrow> hid_step m (m\<lparr>hm_read := Some (wait, hm_now m)\<rparr>)"
| read_ready: "hm_read m = Some (wait, started) \<Longrightarrow> \<not> hid_read_waits (hm_c m) \<Longrightarrow> hid_step m (caller_returns m 0)"
| read_timeout: "hm_read m = Some (wait, started) \<Longrightarrow> wait \<noteq> 0 \<Longrightarrow> wait - (hm_now m - started) \<le> 0 \<Longrightarrow> hid_step m (caller_returns m ETIMEDOUT)"
| read_error: "hm_read m = Some (wait, started) \<Longrightarrow> status > 0 \<Longrightarrow> status \<noteq> ETIMEDOUT \<Longrightarrow> hid_step m (caller_returns m status)"
| write_call: "hm_owner m = OOpen \<Longrightarrow> hm_write m = None \<Longrightarrow> hid_write_begin data (hm_c m) = Inr c \<Longrightarrow>
    hid_step m (m\<lparr>hm_c := c, hm_write := Some data\<rparr>)"
| write_refused: "hm_owner m = OOpen \<Longrightarrow> hm_write m = None \<Longrightarrow> hid_write_begin data (hm_c m) = Inl r \<Longrightarrow> hid_step m m"
| write_returns: "hm_write m = Some data \<Longrightarrow> hc_write_done (hm_c m) \<Longrightarrow>
    hid_step m (m\<lparr>hm_write := None, hm_returned := hm_returned m @ [(data, hc_write_result (hm_c m))]\<rparr>)"
| disconnect: "hm_owner m = OOpen \<Longrightarrow> hm_read m = None \<Longrightarrow> hm_write m = None \<Longrightarrow>
    hid_step m (m\<lparr>hm_c := hid_disconnect_begin (hm_c m), hm_owner := OJoinWriter\<rparr>)"
| join_writer: "hm_owner m = OJoinWriter \<Longrightarrow> hm_writer m = WExited \<Longrightarrow> hid_step m (m\<lparr>hm_owner := OJoinReader\<rparr>)"
| join_reader: "hm_owner m = OJoinReader \<Longrightarrow> hm_reader m = RExited \<Longrightarrow>
    hid_step m (m\<lparr>hm_owner := OClosed (hc_close_error (hm_c m)), hm_freed := True\<rparr>)"

inductive hid_reachable :: "report_layout \<Rightarrow> hid_machine \<Rightarrow> bool" where
  connect: "hid_connect_begin l True 0 0 0 now = Inr m \<Longrightarrow> hid_reachable l m"
| advance: "hid_reachable l m \<Longrightarrow> hid_step m m' \<Longrightarrow> hid_reachable l m'"

subsection \<open>The queue of reports\<close>

definition queued_reports :: "hid_connection \<Rightarrow> bytes list" where
  "queued_reports c = ring_items (hc_queue c) (hc_head c) (hc_count c)"

definition queue_valid :: "hid_connection \<Rightarrow> bool" where
  "queue_valid c \<longleftrightarrow> length (hc_queue c) = HID_QUEUE_SIZE \<and> hc_head c < HID_QUEUE_SIZE \<and> hc_count c \<le> HID_QUEUE_SIZE"

lemma length_queued [simp]: "length (queued_reports c) = hc_count c"
  by (simp add: queued_reports_def)

lemma queued_enqueue: "queue_valid c \<Longrightarrow> hc_count c < HID_QUEUE_SIZE \<Longrightarrow> queued_reports (enqueue_report d c) = queued_reports c @ [d]"
  using ring_push [of "hc_count c" "hc_queue c" "hc_head c" d] by (simp add: queued_reports_def enqueue_report_def queue_valid_def)

lemma queued_dequeue: "queue_valid c \<Longrightarrow> hc_count c \<noteq> 0 \<Longrightarrow> queued_reports c = front_report c # queued_reports (dequeue_report c)"
  using ring_pop [of "hc_head c" "hc_queue c" "hc_count c - 1"]
  by (cases "hc_count c") (simp_all add: queued_reports_def dequeue_report_def front_report_def queue_valid_def)

interpretation rq: bounded_queue queue_valid queued_reports HID_QUEUE_SIZE enqueue_report front_report dequeue_report
proof unfold_locales
  fix c d
  show "queue_valid c \<Longrightarrow> length (queued_reports c) \<le> HID_QUEUE_SIZE" by (simp add: queue_valid_def)
  show "queue_valid c \<Longrightarrow> length (queued_reports c) < HID_QUEUE_SIZE \<Longrightarrow>
      queue_valid (enqueue_report d c) \<and> queued_reports (enqueue_report d c) = queued_reports c @ [d]"
    by (simp add: queued_enqueue) (simp add: queue_valid_def enqueue_report_def)
  show "queue_valid c \<Longrightarrow> queued_reports c \<noteq> [] \<Longrightarrow> queue_valid (dequeue_report c) \<and> queued_reports c = front_report c # queued_reports (dequeue_report c)"
    using queued_dequeue [of c] length_queued [of c]
    by (cases "hc_count c = 0") (auto simp: queue_valid_def dequeue_report_def HID_QUEUE_SIZE_def simp del: length_queued)
qed

subsection \<open>Invariants\<close>

text \<open>What each critical section leaves alone.\<close>

lemma fail_locked_simps [simp]:
  "hc_runloop (fail_locked t e c) = hc_runloop c" "hc_ready (fail_locked t e c) = hc_ready c" "hc_stop (fail_locked t e c) = hc_stop c"
  "hc_writer_stop (fail_locked t e c) = hc_writer_stop c" "hc_writer_dead (fail_locked t e c) = hc_writer_dead c"
  "hc_head (fail_locked t e c) = hc_head c" "hc_count (fail_locked t e c) = hc_count c" "hc_queue (fail_locked t e c) = hc_queue c"
  "hc_input_id (fail_locked t e c) = hc_input_id c" "hc_output_id (fail_locked t e c) = hc_output_id c"
  "hc_input_size (fail_locked t e c) = hc_input_size c" "hc_output_size (fail_locked t e c) = hc_output_size c"
  "hc_output (fail_locked t e c) = hc_output c" "hc_write_pending (fail_locked t e c) = hc_write_pending c"
  "hc_write_done (fail_locked t e c) = hc_write_done c" "hc_write_result (fail_locked t e c) = hc_write_result c"
  "hc_terminal (fail_locked t e c) = (if hc_terminal c = 0 then t else hc_terminal c)"
  "hc_io_error (fail_locked t e c) = (if hc_terminal c = 0 then e else hc_io_error c)"
  by (simp_all add: fail_locked_def)

lemma enqueue_simps [simp]:
  "hc_ready (enqueue_report d c) = hc_ready c" "hc_stop (enqueue_report d c) = hc_stop c"
  "hc_writer_stop (enqueue_report d c) = hc_writer_stop c" "hc_writer_dead (enqueue_report d c) = hc_writer_dead c"
  "hc_input_id (enqueue_report d c) = hc_input_id c" "hc_output_id (enqueue_report d c) = hc_output_id c"
  "hc_input_size (enqueue_report d c) = hc_input_size c" "hc_output_size (enqueue_report d c) = hc_output_size c"
  "hc_output (enqueue_report d c) = hc_output c" "hc_write_pending (enqueue_report d c) = hc_write_pending c"
  "hc_write_done (enqueue_report d c) = hc_write_done c" "hc_write_result (enqueue_report d c) = hc_write_result c"
  "hc_terminal (enqueue_report d c) = hc_terminal c" "hc_io_error (enqueue_report d c) = hc_io_error c"
  by (simp_all add: enqueue_report_def)

text \<open>The input callback and the end of a read, seen by the other parts of the state.\<close>

lemma callback_keeps [simp]:
  "hc_ready (input_callback r i j rep c) = hc_ready c" "hc_stop (input_callback r i j rep c) = hc_stop c"
  "hc_writer_stop (input_callback r i j rep c) = hc_writer_stop c" "hc_writer_dead (input_callback r i j rep c) = hc_writer_dead c"
  "hc_output (input_callback r i j rep c) = hc_output c" "hc_write_pending (input_callback r i j rep c) = hc_write_pending c"
  "hc_write_done (input_callback r i j rep c) = hc_write_done c" "hc_write_result (input_callback r i j rep c) = hc_write_result c"
  "hc_output_id (input_callback r i j rep c) = hc_output_id c" "hc_input_id (input_callback r i j rep c) = hc_input_id c"
  "hc_input_size (input_callback r i j rep c) = hc_input_size c" "hc_output_size (input_callback r i j rep c) = hc_output_size c"
  by (simp_all add: input_callback_def)

lemma callback_failure:
  "hc_terminal (input_callback r i j rep c) = 0 \<Longrightarrow> hc_terminal c = 0 \<and> hc_io_error (input_callback r i j rep c) = hc_io_error c"
  by (auto simp: input_callback_def split: if_splits)

lemma finish_keeps:
  assumes "hid_read_finish st c = (a, c')"
  shows "c' = c\<lparr>hc_head := hc_head c', hc_count := hc_count c'\<rparr>"
  using assms by (auto simp: hid_read_finish_def dequeue_report_def split: if_splits)

definition ring_inv :: "hid_machine \<Rightarrow> bool" where
  "ring_inv m \<longleftrightarrow> queue_valid (hm_c m) \<and> hm_accepted m = hm_delivered m @ queued_reports (hm_c m)"

lemma queue_cong:
  "hc_queue c' = hc_queue c \<Longrightarrow> hc_head c' = hc_head c \<Longrightarrow> hc_count c' = hc_count c \<Longrightarrow>
   queue_valid c' = queue_valid c \<and> queued_reports c' = queued_reports c"
  by (simp add: queue_valid_def queued_reports_def)

lemma ring_inv_input:
  assumes "ring_inv m" "c = input_callback r i j rep (hm_c m)"
  shows "ring_inv (m\<lparr>hm_c := c, hm_accepted := hm_accepted m @ newly_queued (hm_c m) c\<rparr>)"
proof (cases "hc_count c = hc_count (hm_c m)")
  case True
  then have "hc_queue c = hc_queue (hm_c m) \<and> hc_head c = hc_head (hm_c m)"
    using assms(2) by (auto simp: input_callback_def enqueue_report_def split: if_splits)
  with True queue_cong [of c "hm_c m"] assms(1) show ?thesis by (simp add: ring_inv_def newly_queued_def)
next
  case False
  then obtain d where c: "c = enqueue_report d (hm_c m)" and "hc_count (hm_c m) \<noteq> HID_QUEUE_SIZE"
    using assms(2) by (auto simp: input_callback_def split: if_splits)
  moreover from this(2) have less: "length (queued_reports (hm_c m)) < HID_QUEUE_SIZE"
    using assms(1) by (simp add: ring_inv_def queue_valid_def)
  moreover have "newly_queued (hm_c m) c = [d]"
    using c assms(1) by (simp add: newly_queued_def enqueue_report_def ring_inv_def queue_valid_def)
  ultimately show ?thesis using assms(1) rq.put_back rq.record_put by (simp add: ring_inv_def)
qed

lemma ring_inv_read:
  assumes "ring_inv m"
  shows "ring_inv (caller_returns m st)"
proof (cases "hc_terminal (hm_c m) = 0 \<and> \<not> hc_stop (hm_c m) \<and> hc_count (hm_c m) \<noteq> 0")
  case True
  then have "queued_reports (hm_c m) \<noteq> []" by (auto simp flip: length_0_conv)
  with assms have "queue_valid (dequeue_report (hm_c m))"
    and "hm_accepted m = (hm_delivered m @ [front_report (hm_c m)]) @ queued_reports (dequeue_report (hm_c m))"
    using rq.take_front [of "hm_c m"] rq.record_take [of "hm_c m"] by (simp_all add: ring_inv_def)
  with True show ?thesis by (simp add: caller_returns_def hid_read_finish_def ring_inv_def)
next
  case False
  with assms show ?thesis by (auto simp: caller_returns_def hid_read_finish_def ring_inv_def)
qed

lemmas section_defs = reader_publish_def reader_teardown_def removal_callback_def writer_publish_def hid_disconnect_begin_def Let_def

lemma ring_inv_step: "hid_step m m' \<Longrightarrow> ring_inv m \<Longrightarrow> ring_inv m'"
proof (induction rule: hid_step.induct)
  case (input m c result isInput reportID report)
  then show ?case by (simp only: ring_inv_input)
qed (auto simp: ring_inv_read, auto simp: ring_inv_def queue_valid_def queued_reports_def section_defs hid_write_begin_def split: if_splits)

text \<open>How the places of the threads belong together.\<close>

definition owner_inv :: "hid_machine \<Rightarrow> bool" where
  "owner_inv m =
     (let c = hm_c m; started = (hm_reader m \<notin> {RStart, RScheduled}); idle = (hm_read m = None \<and> hm_write m = None) in
      case hm_owner m of
        OWaitReady \<Rightarrow> hm_writer m = WNone \<and> \<not> hc_stop c \<and> \<not> hc_writer_stop c \<and> (hm_reader m = RExited \<longrightarrow> hc_io_error c \<noteq> 0) \<and> idle
      | OJoinFailed code threadErr \<Rightarrow> hm_writer m = WNone \<and> hc_stop c \<and> started \<and> (code \<noteq> 0 \<or> threadErr \<noteq> 0) \<and> idle
      | OFailed code threadErr \<Rightarrow> hm_writer m = WNone \<and> hc_stop c \<and> hm_reader m = RExited \<and> (code \<noteq> 0 \<or> threadErr \<noteq> 0) \<and> idle
      | OOpen \<Rightarrow> hm_writer m \<noteq> WNone \<and> \<not> hc_stop c \<and> \<not> hc_writer_stop c \<and> hm_reader m \<in> {RLoop, RRun}
      | OJoinWriter \<Rightarrow> hm_writer m \<noteq> WNone \<and> hc_stop c \<and> hc_writer_stop c \<and> started \<and> idle
      | OJoinReader \<Rightarrow> hm_writer m = WExited \<and> hc_stop c \<and> hc_writer_stop c \<and> started \<and> idle
      | OClosed code \<Rightarrow> hm_writer m = WExited \<and> hc_stop c \<and> hc_writer_stop c \<and> hm_reader m = RExited \<and> idle \<and> code = hc_close_error c)"

definition reader_inv :: "hid_machine \<Rightarrow> bool" where
  "reader_inv m \<longleftrightarrow>
     (hc_ready (hm_c m) \<longleftrightarrow> hm_reader m \<notin> {RStart, RScheduled}) \<and>
     (hm_reader m = RTeardown \<longrightarrow> hc_stop (hm_c m)) \<and>
     (hm_device_open m \<longleftrightarrow> hm_reader m \<in> {RScheduled, RLoop, RRun, RTeardown}) \<and>
     (hm_freed m \<longleftrightarrow> (\<exists>code e. hm_owner m = OFailed code e) \<or> (\<exists>code. hm_owner m = OClosed code)) \<and>
     (hm_reader m \<in> {RStart, RScheduled} \<longrightarrow> hc_terminal (hm_c m) = 0) \<and>
     (hc_terminal (hm_c m) = 0 \<longrightarrow> hc_io_error (hm_c m) = 0)"

definition thread_inv :: "hid_machine \<Rightarrow> bool" where
  "thread_inv m \<longleftrightarrow> owner_inv m \<and> reader_inv m"

lemma caller_returns_keeps [simp]:
  "hm_owner (caller_returns m st) = hm_owner m" "hm_reader (caller_returns m st) = hm_reader m" "hm_writer (caller_returns m st) = hm_writer m"
  "hm_read (caller_returns m st) = None" "hm_write (caller_returns m st) = hm_write m" "hm_device_open (caller_returns m st) = hm_device_open m"
  "hm_freed (caller_returns m st) = hm_freed m" "hm_native (caller_returns m st) = hm_native m" "hm_returned (caller_returns m st) = hm_returned m"
  "hm_accepted (caller_returns m st) = hm_accepted m"
  "hc_runloop (hm_c (caller_returns m st)) = hc_runloop (hm_c m)" "hc_ready (hm_c (caller_returns m st)) = hc_ready (hm_c m)"
  "hc_stop (hm_c (caller_returns m st)) = hc_stop (hm_c m)" "hc_writer_stop (hm_c (caller_returns m st)) = hc_writer_stop (hm_c m)"
  "hc_writer_dead (hm_c (caller_returns m st)) = hc_writer_dead (hm_c m)"
  "hc_terminal (hm_c (caller_returns m st)) = hc_terminal (hm_c m)" "hc_io_error (hm_c (caller_returns m st)) = hc_io_error (hm_c m)"
  "hc_close_error (hm_c (caller_returns m st)) = hc_close_error (hm_c m)"
  "hc_input_id (hm_c (caller_returns m st)) = hc_input_id (hm_c m)" "hc_output_id (hm_c (caller_returns m st)) = hc_output_id (hm_c m)"
  "hc_input_size (hm_c (caller_returns m st)) = hc_input_size (hm_c m)"
  "hc_output_size (hm_c (caller_returns m st)) = hc_output_size (hm_c m)" "hc_output (hm_c (caller_returns m st)) = hc_output (hm_c m)"
  "hc_write_pending (hm_c (caller_returns m st)) = hc_write_pending (hm_c m)"
  "hc_write_done (hm_c (caller_returns m st)) = hc_write_done (hm_c m)"
  "hc_write_result (hm_c (caller_returns m st)) = hc_write_result (hm_c m)"
  by (simp_all add: caller_returns_def hid_read_finish_def dequeue_report_def)

lemma thread_inv_step: "hid_step m m' \<Longrightarrow> thread_inv m \<Longrightarrow> thread_inv m'"
proof (induction rule: hid_step.induct)
  case (input m c result isInput reportID report)
  then show ?case using callback_failure [of result isInput reportID report "hm_c m"]
    by (auto simp: thread_inv_def owner_inv_def reader_inv_def Let_def split: native_owner.splits)
next
  case (connected m)
  then show ?case
    by (cases "hm_reader m") (auto simp: thread_inv_def owner_inv_def reader_inv_def Let_def split: native_owner.splits)
next
  case (write_call m data c)
  then show ?case by (auto simp: thread_inv_def owner_inv_def reader_inv_def Let_def hid_write_begin_def split: native_owner.splits if_splits)
qed (auto simp: thread_inv_def owner_inv_def reader_inv_def section_defs split: native_owner.splits if_splits)

lemma thread_inv_idle:
  "thread_inv m \<Longrightarrow> hc_writer_stop (hm_c m) \<Longrightarrow> hm_write m = None"
  "thread_inv m \<Longrightarrow> hm_owner m = OWaitReady \<Longrightarrow> hm_write m = None \<and> hm_writer m = WNone"
  by (auto simp: thread_inv_def owner_inv_def Let_def split: native_owner.splits)

text \<open>What the writer has done and what the writes have returned: the same results in the same order, except for a write that is done and has
  not returned. A writer that could not restore its signal mask has written for the last time.\<close>

definition results_match :: "byte \<Rightarrow> (bytes \<times> darwin_write) list \<Rightarrow> (bytes \<times> darwin_write) list \<Rightarrow> bool" where
  "results_match i native returned \<longleftrightarrow> native = map (\<lambda>(data, r). (wire_report i data, r)) returned"

definition call_inv :: "hid_machine \<Rightarrow> bool" where
  "call_inv m =
     (let c = hm_c m; i = hc_output_id c in
      case hm_write m of
        None \<Rightarrow> \<not> hc_write_pending c \<and> hm_writer m \<noteq> WWriting \<and> results_match i (hm_native m) (hm_returned m)
      | Some data \<Rightarrow>
          if hc_write_pending c
          then \<not> hc_write_done c \<and> hc_output c = wire_report i data \<and> hm_writer m \<in> {WIdle, WWriting} \<and> results_match i (hm_native m) (hm_returned m)
          else hc_write_done c \<and> hm_writer m \<noteq> WWriting \<and> results_match i (hm_native m) (hm_returned m @ [(data, hc_write_result c)]))"

definition writer_inv :: "hid_machine \<Rightarrow> bool" where
  "writer_inv m \<longleftrightarrow>
     (hc_writer_dead (hm_c m) \<longleftrightarrow> (\<exists>x \<in> set (hm_native m). dw_restore_error (snd x) \<noteq> 0)) \<and>
     (\<forall>x \<in> set (butlast (hm_native m)). dw_restore_error (snd x) = 0) \<and>
     (hc_writer_dead (hm_c m) \<longrightarrow> hm_writer m = WExited \<and> hc_terminal (hm_c m) \<noteq> 0) \<and>
     (hm_writer m = WExited \<longrightarrow> hc_writer_dead (hm_c m) \<or> hc_writer_stop (hm_c m)) \<and>
     (\<forall>x \<in> set (hm_native m). dw_completed (snd x) \<longrightarrow> dw_submitted (snd x) \<and> dw_io (snd x) = 0)"

definition write_inv :: "hid_machine \<Rightarrow> bool" where
  "write_inv m \<longleftrightarrow> call_inv m \<and> writer_inv m"

lemmas write_inv_defs = write_inv_def call_inv_def writer_inv_def Let_def

lemma protected_write_completed: "dw_completed (protected_write s b io r) \<Longrightarrow> dw_submitted (protected_write s b io r) \<and> dw_io (protected_write s b io r) = 0"
  by (auto simp: protected_write_def split: if_splits)

lemma callback_terminal: "hc_terminal c \<noteq> 0 \<Longrightarrow> hc_terminal (input_callback r i j rep c) \<noteq> 0"
  by (simp add: input_callback_def)

lemma write_inv_writer:
  assumes "hm_writer m = WWriting" "r = protected_write s b io e" "c = writer_publish r (hm_c m)" "write_inv m"
  shows "write_inv (m\<lparr>hm_c := c, hm_writer := (if hc_writer_dead c then WExited else WIdle), hm_native := hm_native m @ [(hc_output (hm_c m), r)]\<rparr>)"
proof -
  have "\<not> hc_writer_dead (hm_c m)" using assms(1,4) by (auto simp: write_inv_defs)
  then have clean: "\<forall>x \<in> set (hm_native m). dw_restore_error (snd x) = 0" using assms(4) by (auto simp: write_inv_defs)
  obtain data where data: "hm_write m = Some data" "hc_write_pending (hm_c m)" "hc_output (hm_c m) = wire_report (hc_output_id (hm_c m)) data"
    "results_match (hc_output_id (hm_c m)) (hm_native m) (hm_returned m)"
    using assms(1,4) by (auto simp: write_inv_defs split: option.splits if_splits)
  with assms clean show ?thesis
    using protected_write_completed [of s b io e]
    by (auto simp: write_inv_defs writer_publish_def results_match_def)
qed

lemma write_inv_step: "hid_step m m' \<Longrightarrow> thread_inv m \<Longrightarrow> write_inv m \<Longrightarrow> write_inv m'"
proof (induction rule: hid_step.induct)
  case (writer_writes m r setErr blockErr io restoreErr c)
  then show ?case by (simp only: write_inv_writer)
next
  case (input m c result isInput reportID report)
  then show ?case using callback_terminal [of "hm_c m"] by (auto simp: write_inv_defs split: option.splits)
next
  case (write_call m data c)
  then have "hm_writer m = WIdle" by (cases "hm_writer m") (auto simp: write_inv_defs thread_inv_def owner_inv_def hid_write_begin_def split: if_splits)
  with write_call show ?case by (auto simp: write_inv_defs hid_write_begin_def split: if_splits)
next
  case (writer_stops m)
  then show ?case using thread_inv_idle(1) [of m] by (auto simp: write_inv_defs)
next
  case (connected m)
  then show ?case using thread_inv_idle(2) [of m] by (auto simp: write_inv_defs)
qed (auto simp: write_inv_defs section_defs split: option.splits if_splits)

definition layout_inv :: "report_layout \<Rightarrow> hid_machine \<Rightarrow> bool" where
  "layout_inv l m \<longleftrightarrow>
     hc_input_id (hm_c m) = rs_ID (rl_Input l) \<and> hc_input_size (hm_c m) = rs_Size (rl_Input l) \<and>
     hc_output_id (hm_c m) = rs_ID (rl_Output l) \<and> hc_output_size (hm_c m) = rs_Size (rl_Output l) \<and>
     rs_Size (rl_Input l) \<ge> 0 \<and> (\<forall>d \<in> set (hm_accepted m). int (length d) = rs_Size (rl_Input l))"

lemma well_formed_size:
  "\<not> report_malformed c report \<Longrightarrow> hc_input_size c \<ge> 0 \<Longrightarrow>
   int (length (take (nat (hc_input_size c)) (drop (wire_prefix (hc_input_id c)) report))) = hc_input_size c"
  by (auto simp: report_malformed_def)

lemma layout_inv_input:
  assumes "layout_inv l m" "queue_valid (hm_c m)" "c = input_callback r i j rep (hm_c m)"
  shows "layout_inv l (m\<lparr>hm_c := c, hm_accepted := hm_accepted m @ newly_queued (hm_c m) c\<rparr>)"
proof -
  have "int (length d) = rs_Size (rl_Input l)" if d: "d \<in> set (newly_queued (hm_c m) c)" for d
  proof -
    have "hc_count (hm_c m) < hc_count c" and e: "d = hc_queue c ! ((hc_head (hm_c m) + hc_count (hm_c m)) mod HID_QUEUE_SIZE)"
      using d by (auto simp: newly_queued_def split: if_splits)
    then have "\<not> report_malformed (hm_c m) rep"
      and "c = enqueue_report (take (nat (hc_input_size (hm_c m))) (drop (wire_prefix (hc_input_id (hm_c m))) rep)) (hm_c m)"
      using assms(3) by (auto simp: input_callback_def split: if_splits)
    with e assms(1,2) well_formed_size [of "hm_c m" rep] show ?thesis
      by (simp add: layout_inv_def enqueue_report_def queue_valid_def)
  qed
  with assms show ?thesis by (auto simp: layout_inv_def)
qed

lemma layout_inv_step: "hid_step m m' \<Longrightarrow> ring_inv m \<Longrightarrow> layout_inv l m \<Longrightarrow> layout_inv l m'"
proof (induction rule: hid_step.induct)
  case (input m c result isInput reportID report)
  then have "queue_valid (hm_c m)" by (simp add: ring_inv_def)
  from layout_inv_input [OF input(4) this input(2)] show ?case .
qed (auto simp: layout_inv_def section_defs hid_write_begin_def split: if_splits)

lemma hid_reachable_inv: "hid_reachable l m \<Longrightarrow> ring_inv m \<and> thread_inv m \<and> write_inv m \<and> layout_inv l m"
proof (induction rule: hid_reachable.induct)
  case (connect l now m)
  then have "m = \<lparr>hm_c = fresh_connection l, hm_owner = OWaitReady, hm_reader = RStart, hm_writer = WNone, hm_read = None, hm_write = None,
      hm_now = now, hm_device_open = False, hm_freed = False, hm_accepted = [], hm_delivered = [], hm_native = [], hm_returned = []\<rparr>"
    and "rs_Size (rl_Input l) \<ge> 0"
    by (auto simp: hid_connect_begin_def size_invalid_def split: if_splits)
  then show ?case
    by (simp add: ring_inv_def queue_valid_def queued_reports_def thread_inv_def owner_inv_def reader_inv_def write_inv_defs results_match_def
      layout_inv_def fresh_connection_def HID_QUEUE_SIZE_def)
next
  case (advance l m m')
  then show ?case using ring_inv_step thread_inv_step write_inv_step layout_inv_step by blast
qed

subsection \<open>Progress\<close>

lemma step_then: "hid_step m m' \<Longrightarrow> hid_step\<^sup>*\<^sup>* m' n \<Longrightarrow> hid_step\<^sup>*\<^sup>* m n"
  by (rule converse_rtranclp_into_rtranclp)

text \<open>The reader of a connection that is to stop ends.\<close>

lemma reader_ends:
  assumes "hm_reader m \<notin> {RStart, RScheduled}" "hc_stop (hm_c m)"
  obtains n where "hid_step\<^sup>*\<^sup>* m n" "hm_reader n = RExited" "hm_owner n = hm_owner m" "hm_writer n = hm_writer m"
proof -
  define fin where "fin m = m\<lparr>hm_c := reader_teardown 0 (hm_c m), hm_reader := RExited, hm_device_open := False\<rparr>" for m :: hid_machine
  have t: "hid_step\<^sup>*\<^sup>* m (fin m)" if "hm_reader m = RTeardown" for m
    unfolding fin_def using that by (intro r_into_rtranclp hid_step.teardown)
  have l: "hid_step\<^sup>*\<^sup>* m (fin (m\<lparr>hm_reader := RTeardown\<rparr>))" if "hm_reader m = RLoop" "hc_stop (hm_c m)" for m
    using that by (intro step_then [OF hid_step.loop_stops t]) simp_all
  have r: "hid_step\<^sup>*\<^sup>* m (fin (m\<lparr>hm_reader := RLoop\<rparr>\<lparr>hm_reader := RTeardown\<rparr>))" if "hm_reader m = RRun" "hc_stop (hm_c m)" for m
    using that by (intro step_then [OF hid_step.run_returns l]) simp_all
  show ?thesis
  proof (cases "hm_reader m")
    case RLoop
    show ?thesis by (rule that [OF l [OF RLoop assms(2)]]) (simp_all add: fin_def)
  next
    case RRun
    show ?thesis by (rule that [OF r [OF RRun assms(2)]]) (simp_all add: fin_def)
  next
    case RTeardown
    show ?thesis by (rule that [OF t [OF RTeardown]]) (simp_all add: fin_def)
  next
    case RExited
    show ?thesis by (rule that [OF rtranclp.rtrancl_refl RExited]) simp_all
  qed (use assms in simp_all)
qed

text \<open>A write that waits is taken by the writer and returns.\<close>

lemma write_ends:
  assumes "write_inv m" "thread_inv m" "hm_write m = Some data"
  obtains n r where "hid_step\<^sup>*\<^sup>* m n" "hm_write n = None" "hm_returned n = hm_returned m @ [(data, r)]"
proof -
  define ret where "ret m = m\<lparr>hm_write := None, hm_returned := hm_returned m @ [(data, hc_write_result (hm_c m))]\<rparr>" for m :: hid_machine
  have finished: "hid_step\<^sup>*\<^sup>* m (ret m)" if "hm_write m = Some data" "hc_write_done (hm_c m)" for m
    unfolding ret_def using that by (intro r_into_rtranclp hid_step.write_returns)
  define wrote where "wrote m = m\<lparr>hm_c := writer_publish (protected_write 0 0 0 0) (hm_c m), hm_writer := WIdle,
      hm_native := hm_native m @ [(hc_output (hm_c m), protected_write 0 0 0 0)]\<rparr>" for m :: hid_machine
  have writing: "hid_step\<^sup>*\<^sup>* m (ret (wrote m))" if "hm_write m = Some data" "hm_writer m = WWriting" "\<not> hc_writer_dead (hm_c m)" for m
  proof (rule step_then)
    show "hid_step m (wrote m)"
      using hid_step.writer_writes [OF that(2) refl refl, of 0 0 0 0] that(3)
      by (simp add: wrote_def writer_publish_def protected_write_def)
    show "hid_step\<^sup>*\<^sup>* (wrote m) (ret (wrote m))"
      using that by (intro finished) (simp_all add: wrote_def writer_publish_def protected_write_def)
  qed
  show ?thesis
  proof (cases "hc_write_pending (hm_c m)")
    case False
    with assms have d: "hc_write_done (hm_c m)" by (simp add: write_inv_defs)
    show ?thesis by (rule that [OF finished [OF assms(3) d]]) (simp_all add: ret_def)
  next
    case True
    with assms have w: "hm_writer m = WIdle \<or> hm_writer m = WWriting" and alive: "\<not> hc_writer_dead (hm_c m)"
      by (auto simp: write_inv_defs)
    from w show ?thesis
    proof
      assume busy: "hm_writer m = WWriting"
      show ?thesis by (rule that [OF writing [OF assms(3) busy alive]]) (simp_all add: ret_def wrote_def)
    next
      assume idle: "hm_writer m = WIdle"
      have "\<not> hc_writer_stop (hm_c m)" using thread_inv_idle(1) [OF assms(2)] assms(3) by auto
      then have "hid_step m (m\<lparr>hm_writer := WWriting\<rparr>)" using idle True by (intro hid_step.writer_takes)
      from step_then [OF this writing] assms(3) alive have "hid_step\<^sup>*\<^sup>* m (ret (wrote (m\<lparr>hm_writer := WWriting\<rparr>)))" by simp
      then show ?thesis by (rule that) (simp_all add: ret_def wrote_def)
    qed
  qed
qed

text \<open>The calls of the owner return.\<close>

lemma join_reader_ends:
  assumes "thread_inv m" "hm_owner m = OJoinReader"
  obtains n code where "hid_step\<^sup>*\<^sup>* m n" "hm_owner n = OClosed code"
proof -
  have "hm_reader m \<notin> {RStart, RScheduled}" "hc_stop (hm_c m)" using assms by (auto simp: thread_inv_def owner_inv_def Let_def)
  then obtain n where n: "hid_step\<^sup>*\<^sup>* m n" "hm_reader n = RExited" "hm_owner n = hm_owner m" by (rule reader_ends)
  with assms(2) have "hid_step n (n\<lparr>hm_owner := OClosed (hc_close_error (hm_c n)), hm_freed := True\<rparr>)"
    by (intro hid_step.join_reader) simp_all
  from rtranclp.rtrancl_into_rtrancl [OF n(1) this] show ?thesis by (rule that) simp
qed

lemma thread_inv_steps: "hid_step\<^sup>*\<^sup>* m n \<Longrightarrow> thread_inv m \<Longrightarrow> thread_inv n"
  by (induction rule: rtranclp_induct) (auto intro: thread_inv_step)

lemma disconnect_ends:
  assumes "thread_inv m" "write_inv m" "hm_owner m = OJoinWriter"
  obtains n code where "hid_step\<^sup>*\<^sup>* m n" "hm_owner n = OClosed code"
proof -
  have c: "hm_writer m \<noteq> WNone" "hc_writer_stop (hm_c m)" "hm_write m = None"
    using assms(1,3) by (auto simp: thread_inv_def owner_inv_def Let_def)
  have join: "\<exists>n. hid_step\<^sup>*\<^sup>* m n \<and> hm_owner n = OJoinReader" if "hm_writer m = WExited" "hm_owner m = OJoinWriter" for m
    using hid_step.join_writer [OF that(2,1)] by (intro exI [of _ "m\<lparr>hm_owner := OJoinReader\<rparr>"]) auto
  have "\<exists>n. hid_step\<^sup>*\<^sup>* m n \<and> hm_owner n = OJoinReader"
  proof (cases "hm_writer m")
    case WIdle
    have "\<exists>n. hid_step\<^sup>*\<^sup>* (m\<lparr>hm_writer := WExited\<rparr>) n \<and> hm_owner n = OJoinReader" by (rule join) (simp_all add: assms(3))
    with hid_step.writer_stops [OF WIdle c(2)] show ?thesis using step_then by blast
  qed (use c assms join in \<open>auto simp: write_inv_defs\<close>)
  then obtain n where n: "hid_step\<^sup>*\<^sup>* m n" "hm_owner n = OJoinReader" by blast
  from join_reader_ends [OF thread_inv_steps [OF n(1) assms(1)] n(2)] obtain k code where "hid_step\<^sup>*\<^sup>* n k" "hm_owner k = OClosed code" .
  with n(1) show ?thesis by (intro that) auto
qed

lemma connect_failure_ends:
  assumes "thread_inv m" "hm_owner m = OJoinFailed code e"
  obtains n where "hid_step\<^sup>*\<^sup>* m n" "hm_owner n = OFailed code e"
proof -
  have "hm_reader m \<notin> {RStart, RScheduled}" "hc_stop (hm_c m)" using assms by (auto simp: thread_inv_def owner_inv_def Let_def)
  then obtain n where n: "hid_step\<^sup>*\<^sup>* m n" "hm_reader n = RExited" "hm_owner n = hm_owner m" by (rule reader_ends)
  with assms(2) have "hid_step n (n\<lparr>hm_owner := OFailed code e, hm_freed := True\<rparr>)" by (intro hid_step.joined_failed) simp_all
  from rtranclp.rtrancl_into_rtrancl [OF n(1) this] show ?thesis by (rule that) simp
qed

text \<open>The driver's \<open>Read\<close> over this connection: a report of the queue becomes a report with the ID and the size of the layout, and every
  other end of the native call becomes an error.\<close>

lemma native_read_through:
  assumes "hid_reachable l m" and fin: "hid_read_finish st (hm_c m) = ((status, code, report), c)"
    and st: "st \<noteq> 0 \<or> \<not> hid_read_waits (hm_c m)" and "dd_layout d = l" "wait \<ge> 0"
    and native: "dy_read os (dd_native d) wait w = Some ((status, code, case report of None \<Rightarrow> [] | Some x \<Rightarrow> x), w')"
  shows "case report of
      Some x \<Rightarrow> darwin_Read os d wait w = Some (Inr \<lparr>rp_ID = rs_ID (rl_Input l), rp_Data = x\<rparr>, w') \<and> int (length x) = rs_Size (rl_Input l)
    | None \<Rightarrow> \<exists>e. darwin_Read os d wait w = Some (Inl e, w')"
proof (cases report)
  case None
  then have "status \<noteq> 0" using fin st by (auto simp: hid_read_finish_def hid_read_waits_def split: if_splits)
  with None native assms(5) show ?thesis by (auto simp: darwin_Read_def io_bind_def io_wait_def io_fail_def)
next
  case (Some x)
  with fin have x: "status = 0" "code = 0" "x = front_report (hm_c m)" "hc_count (hm_c m) \<noteq> 0"
    by (auto simp: hid_read_finish_def split: if_splits)
  from hid_reachable_inv [OF assms(1)] have q: "ring_inv m" and l: "layout_inv l m" by auto
  then have "x \<in> set (hm_accepted m)" using queued_dequeue [of "hm_c m"] x by (simp add: ring_inv_def)
  with l x Some native assms(4,5) show ?thesis by (simp add: layout_inv_def darwin_Read_def io_bind_def io_wait_def io_return_def)
qed

subsection \<open>Properties\<close>

definition sample_layout :: report_layout where
  "sample_layout = \<lparr>rl_Input = \<lparr>rs_ID = 0, rs_Size = 1\<rparr>, rl_Output = \<lparr>rs_ID = 5, rs_Size = 1\<rparr>\<rparr>"

definition sample_ready :: hid_connection where
  "sample_ready = (fresh_connection sample_layout)\<lparr>hc_runloop := True, hc_ready := True\<rparr>"

text \<open>A connection that has read the report 7 and is writing the report 9.\<close>

definition sample_connection :: hid_machine where
  "sample_connection =
     \<lparr>hm_c = sample_ready
        \<lparr>hc_head := 1, hc_queue := (replicate HID_QUEUE_SIZE [])[0 := [7]], hc_output := [5, 9], hc_write_pending := True\<rparr>,
      hm_owner = OOpen, hm_reader = RRun, hm_writer = WIdle, hm_read = None, hm_write = Some [9], hm_now = 0, hm_device_open = True,
      hm_freed = False, hm_accepted = [[7]], hm_delivered = [[7]], hm_native = [], hm_returned = []\<rparr>"

lemma reach: "hid_reachable l m \<Longrightarrow> hid_step m n \<Longrightarrow> n = n' \<Longrightarrow> hid_reachable l n'"
  using hid_reachable.advance by blast

lemma sample_reachable: "hid_reachable sample_layout sample_connection"
proof -
  note ev = sample_ready_def fresh_connection_def sample_layout_def HID_QUEUE_SIZE_def
  let ?open = "\<lparr>hm_c = sample_ready, hm_owner = OOpen, hm_reader = RRun, hm_writer = WIdle, hm_read = None, hm_write = None,
      hm_now = 0, hm_device_open = True, hm_freed = False, hm_accepted = [], hm_delivered = [], hm_native = [], hm_returned = []\<rparr>"
  let ?wait = "?open\<lparr>hm_owner := OWaitReady, hm_writer := WNone, hm_reader := RLoop\<rparr>"
  let ?start = "?wait\<lparr>hm_c := fresh_connection sample_layout, hm_reader := RStart, hm_device_open := False\<rparr>"
  let ?fed = "?open\<lparr>hm_c := sample_ready\<lparr>hc_count := 1, hc_queue := (replicate HID_QUEUE_SIZE [])[0 := [7]]\<rparr>, hm_read := Some (0, 0), hm_accepted := [[7]]\<rparr>"
  let ?got = "?open\<lparr>hm_c := sample_ready\<lparr>hc_head := 1, hc_queue := (replicate HID_QUEUE_SIZE [])[0 := [7]]\<rparr>, hm_accepted := [[7]], hm_delivered := [[7]]\<rparr>"
  have r: "hid_reachable sample_layout ?start"
    by (rule hid_reachable.connect [of _ 0]) (simp add: hid_connect_begin_def size_invalid_def sample_layout_def HID_MAX_REPORT_def)
  have r: "hid_reachable sample_layout (?start\<lparr>hm_reader := RScheduled, hm_device_open := True\<rparr>)"
    by (rule reach [OF r hid_step.open_succeeds]) simp_all
  have r: "hid_reachable sample_layout ?wait"
    by (rule reach [OF r hid_step.publish]) (simp_all add: reader_publish_def sample_ready_def)
  have r: "hid_reachable sample_layout (?wait\<lparr>hm_owner := OOpen, hm_writer := WIdle\<rparr>)"
    by (rule reach [OF r hid_step.connected]) (simp_all add: ev)
  have r: "hid_reachable sample_layout ?open"
    by (rule reach [OF r hid_step.loop_runs]) (simp_all add: ev)
  have r: "hid_reachable sample_layout (?open\<lparr>hm_read := Some (0, 0)\<rparr>)"
    by (rule reach [OF r hid_step.read_call [where wait = 0]]) simp_all
  have r: "hid_reachable sample_layout ?fed"
    by (rule reach [OF r hid_step.input [where result = 0 and isInput = True and reportID = 0 and report = "[7]", OF _ refl]])
      (simp_all add: ev input_callback_def report_malformed_def wire_prefix_def enqueue_report_def newly_queued_def)
  have r: "hid_reachable sample_layout ?got"
    by (rule reach [OF r hid_step.read_ready])
      (simp_all add: ev hid_read_waits_def caller_returns_def hid_read_finish_def front_report_def dequeue_report_def)
  show ?thesis
    by (rule reach [OF r hid_step.write_call [where data = "[9]"]]) (simp_all add: ev hid_write_begin_def wire_report_def sample_connection_def)
qed

text \<open>C11. The native connection of the macOS driver, under every interleaving of its threads and calls: the reports that reads return
  are the reports that the input callback queued, in order, without loss and without repetition, and the rest, at most 64, is in
  the ring buffer. Every report has the length that the descriptor names. The result of a write is the result of the one native call that the
  writer thread made for it, with its own bytes after the report ID; at most the write in progress has a result that is not
  returned yet. After the signal mask could not be restored nothing is written any more. When the
  storage is freed both threads have ended, no call is in progress and the IOKit device is closed.\<close>

theorem darwin_connection_safe:
  assumes "hid_reachable l m"
  shows "hm_accepted m = hm_delivered m @ queued_reports (hm_c m) \<and> length (queued_reports (hm_c m)) \<le> 64 \<and>
    (\<forall>d \<in> set (hm_accepted m). int (length d) = rs_Size (rl_Input l)) \<and>
    (\<exists>rest. hm_native m = map (\<lambda>(data, r). (wire_report (rs_ID (rl_Output l)) data, r)) (hm_returned m @ rest) \<and>
       (rest = [] \<or> (\<exists>data r. rest = [(data, r)] \<and> hm_write m = Some data))) \<and>
    (\<forall>x \<in> set (butlast (hm_native m)). dw_restore_error (snd x) = 0) \<and>
    (hm_freed m \<longrightarrow> hm_reader m = RExited \<and> hm_writer m \<in> {WNone, WExited} \<and> \<not> hm_device_open m \<and> hm_read m = None \<and> hm_write m = None)"
proof -
  from hid_reachable_inv [OF assms] have q: "ring_inv m" and t: "thread_inv m" and w: "write_inv m" and l: "layout_inv l m" by auto
  have "\<exists>rest. results_match (hc_output_id (hm_c m)) (hm_native m) (hm_returned m @ rest) \<and>
      (rest = [] \<or> (\<exists>data r. rest = [(data, r)] \<and> hm_write m = Some data))"
  proof (cases "hm_write m")
    case None
    with w show ?thesis by (intro exI [of _ "[]"]) (simp add: write_inv_defs)
  next
    case (Some data)
    show ?thesis
    proof (cases "hc_write_pending (hm_c m)")
      case True
      with Some w show ?thesis by (intro exI [of _ "[]"]) (simp add: write_inv_defs)
    next
      case False
      with Some w show ?thesis by (intro exI [of _ "[(data, hc_write_result (hm_c m))]"]) (simp add: write_inv_defs)
    qed
  qed
  with l have rest: "\<exists>rest. hm_native m = map (\<lambda>(data, r). (wire_report (rs_ID (rl_Output l)) data, r)) (hm_returned m @ rest) \<and>
      (rest = [] \<or> (\<exists>data r. rest = [(data, r)] \<and> hm_write m = Some data))"
    unfolding results_match_def layout_inv_def by metis
  have "hm_freed m \<longrightarrow> hm_reader m = RExited \<and> hm_writer m \<in> {WNone, WExited} \<and> \<not> hm_device_open m \<and> hm_read m = None \<and> hm_write m = None"
    using t by (auto simp: thread_inv_def owner_inv_def reader_inv_def Let_def split: native_owner.splits)
  with rest q l w show ?thesis by (simp add: ring_inv_def queue_valid_def layout_inv_def write_inv_defs HID_QUEUE_SIZE_def)
qed

theorem darwin_connection_safe_witness:
  "hm_delivered sample_connection = [[7]] \<and> hm_accepted sample_connection = hm_delivered sample_connection @ queued_reports (hm_c sample_connection)"
  using darwin_connection_safe [OF sample_reachable] by (simp add: sample_connection_def)

lemma read_ends:
  assumes c: "hm_read m = Some (wait, started)" and r: "\<not> hid_read_waits (hm_c m) \<or> wait > 0"
  shows "\<exists>n. hid_step\<^sup>*\<^sup>* m n \<and> hm_read n = None"
proof (cases "hid_read_waits (hm_c m)")
  case False
  with hid_step.read_ready [OF c] show ?thesis by (intro exI [of _ "caller_returns m 0"]) auto
next
  case True
  let ?late = "m\<lparr>hm_now := max (hm_now m) (started + wait)\<rparr>"
  from True r have "wait \<noteq> 0" by simp
  then have "hid_step ?late (caller_returns ?late ETIMEDOUT)" using c by (intro hid_step.read_timeout [of ?late wait started]) auto
  then have "hid_step\<^sup>*\<^sup>* ?late (caller_returns ?late ETIMEDOUT)" by (rule r_into_rtranclp)
  then have "hid_step\<^sup>*\<^sup>* m (caller_returns ?late ETIMEDOUT)" by (rule step_then [OF hid_step.clock, rotated]) simp
  then show ?thesis by (intro exI [of _ "caller_returns ?late ETIMEDOUT"]) simp
qed

lemma close_ends:
  assumes "thread_inv m" "write_inv m" "hm_owner m \<in> {OJoinWriter, OJoinReader}"
  shows "\<exists>n code. hid_step\<^sup>*\<^sup>* m n \<and> hm_owner n = OClosed code"
proof (cases "hm_owner m = OJoinWriter")
  case True
  from disconnect_ends [OF assms(1,2) True] obtain n code where "hid_step\<^sup>*\<^sup>* m n" "hm_owner n = OClosed code" .
  then show ?thesis by blast
next
  case False
  with assms(3) have "hm_owner m = OJoinReader" by simp
  from join_reader_ends [OF assms(1) this] obtain n code where "hid_step\<^sup>*\<^sup>* m n" "hm_owner n = OClosed code" .
  then show ?thesis by blast
qed



end
