(* ===== verification/LinuxHid.thy ===== *)
theory LinuxHid
  imports NativeDriver
begin

text \<open>
  The Linux HID driver, \<open>pkg/hid/internal/linux\<close>: the inventory it reads from sysfs (\<open>inventory_linux.go\<close>), the open
  transaction that pins and revalidates the association of a hidraw node with its sysfs entry (\<open>open_linux.go\<close>), and
  report I/O on the open descriptor (\<open>device_linux.go\<close>). The system calls and the functions of \<open>golang.org/x/sys/unix\<close>
  are the fields of \<open>linux_sys\<close>; a call that never returns is None.
\<close>

subsection \<open>The operating system\<close>

record file_stat =
  st_Mode :: u32
  st_Rdev :: u64
  st_Dev :: u64
  st_Ino :: u64

text \<open>\<open>HIDRawDevInfo\<close>; its signed 16 bit fields are only read as \<open>uint16\<close>.\<close>

record raw_info =
  ri_Bustype :: u32
  ri_Vendor :: u16
  ri_Product :: u16

text \<open>Files and descriptors are numbers. \<open>ly_ReadAll f n\<close> is \<open>io.ReadAll(io.LimitReader(f, n))\<close>; \<open>ly_OpenPath\<close> and
  \<open>ly_OpenDevice\<close> are \<open>unix.Open\<close> with the flags of the two call sites; \<open>ly_GetDesc fd size\<close> is the answer of
  \<open>IoctlHIDGetDesc\<close>, a size and the value buffer of \<open>ly_DescMax\<close> bytes; \<open>ly_RawUniq fd n\<close> is the buffer of \<open>n\<close> bytes after
  the ioctl; \<open>ly_Poll\<close> answers the count and the returned events; \<open>ly_Read fd n\<close> are the bytes read into a buffer
  of \<open>n\<close> bytes. Times are in nanoseconds.\<close>

record 'w linux_sys =
  ly_Open :: "string \<Rightarrow> ('w, int) io"
  ly_ReadDir :: "int \<Rightarrow> nat \<Rightarrow> 'w \<Rightarrow> (string list \<times> err option) \<times> 'w"
  ly_ReadAll :: "int \<Rightarrow> nat \<Rightarrow> ('w, bytes) io"
  ly_Close :: "int \<Rightarrow> 'w \<Rightarrow> err option \<times> 'w"
  ly_EvalSymlinks :: "string \<Rightarrow> ('w, string) io"
  ly_OsStat :: "string \<Rightarrow> 'w \<Rightarrow> err option \<times> 'w"
  ly_Stat :: "string \<Rightarrow> ('w, file_stat) io"
  ly_Mkdev :: "u32 \<Rightarrow> u32 \<Rightarrow> u64"
  ly_Major :: "u64 \<Rightarrow> u32"
  ly_Minor :: "u64 \<Rightarrow> u32"
  ly_OpenPath :: "string \<Rightarrow> ('w, int) io"
  ly_OpenDevice :: "string \<Rightarrow> ('w, int) io"
  ly_Fstat :: "int \<Rightarrow> ('w, file_stat) io"
  ly_RawInfo :: "int \<Rightarrow> ('w, raw_info) io"
  ly_DescMax :: int
  ly_DescSize :: "int \<Rightarrow> ('w, int) io"
  ly_GetDesc :: "int \<Rightarrow> u32 \<Rightarrow> ('w, u32 \<times> bytes) io"
  ly_RawUniq :: "int \<Rightarrow> nat \<Rightarrow> ('w, bytes) io"
  ly_Now :: "'w \<Rightarrow> int \<times> 'w"
  ly_Poll :: "int \<Rightarrow> int \<Rightarrow> ('w, int \<times> u16) io"
  ly_Read :: "int \<Rightarrow> nat \<Rightarrow> ('w, bytes) io"
  ly_Write :: "int \<Rightarrow> bytes \<Rightarrow> ('w, int) io"

text \<open>Constants of the Linux interface.\<close>

definition EPERM :: u64 where "EPERM = 1"
definition ENOENT :: u64 where "ENOENT = 2"
definition EINTR :: u64 where "EINTR = 4"
definition EIO :: u64 where "EIO = 5"
definition ENXIO :: u64 where "ENXIO = 6"
definition EBADF :: u64 where "EBADF = 9"
definition EAGAIN :: u64 where "EAGAIN = 11"
definition EACCES :: u64 where "EACCES = 13"
definition EBUSY :: u64 where "EBUSY = 16"
definition ENODEV :: u64 where "ENODEV = 19"
definition EINVAL :: u64 where "EINVAL = 22"
definition ENOTTY :: u64 where "ENOTTY = 25"
definition S_IFMT :: u32 where "S_IFMT = 0xf000"
definition S_IFCHR :: u32 where "S_IFCHR = 0x2000"
definition POLLIN :: u16 where "POLLIN = 0x1"
definition POLLHUP :: u16 where "POLLHUP = 0x10"
definition POLLNVAL :: u16 where "POLLNVAL = 0x20"

subsection \<open>inventory\_linux.go: errors and values\<close>

definition classPath :: string where "classPath = ''/sys/class/hidraw''"
definition linux_nativeError :: "string \<Rightarrow> err \<Rightarrow> err" where
  "linux_nativeError op e =
     (let kind = (if errno_is e EACCES \<or> errno_is e EPERM then KindPermission
                  else if errno_is e ENODEV \<or> errno_is e ENXIO \<or> errno_is e ENOENT then KindRemoved
                  else if errno_is e EBUSY then KindBusy else KindIO);
          errno = (case errors_as as_Errno e of None \<Rightarrow> 0 | Some n \<Rightarrow> n)
      in DriverError op kind ''errno'' errno [] (Some e))"

definition busType :: "u32 \<Rightarrow> bus" where
  "busType b =
     (if b = 3 then BusUSB else if b = 5 then BusBluetooth else if b = 0x18 then BusI2C
      else if b = 0x1c then BusSPI else if b = 0 then BusUnknown else BusOther)"

definition endpointID :: "string \<Rightarrow> int \<Rightarrow> string" where
  "endpointID path collection = ''linux:'' @ path @ ''#collection='' @ Itoa collection"

record inventory_entry =
  ie_endpoint :: endpoint
  ie_sysPath :: string
  ie_dev :: u64
  ie_descriptor :: bytes
  ie_hidUnique :: "string field"

definition zero_entry :: inventory_entry where
  "zero_entry =
     \<lparr>ie_endpoint = zero_endpoint, ie_sysPath = [], ie_dev = 0, ie_descriptor = [], ie_hidUnique = unknown_text\<rparr>"

subsection \<open>inventory\_linux.go: reading sysfs\<close>

definition readBounded :: "'w linux_sys \<Rightarrow> string \<Rightarrow> nat \<Rightarrow> ('w, bytes) io" where
  "readBounded os path limit =
     io_bind (ly_Open os path) (\<lambda>file.
       io_defer (ly_Close os file) (io_bind (ly_ReadAll os file (limit + 1)) (\<lambda>data.
         if length data > limit then io_fail (TextError (''sysfs property exceeds '' @ Itoa (int limit) @ '' bytes''))
         else io_return data)))"

definition readText :: "'w linux_sys \<Rightarrow> string \<Rightarrow> ('w, string) io" where
  "readText os path =
     io_bind (readBounded os path MaxMetadataSize) (\<lambda>data. io_return (TrimSuffix (bytes_string data) [CHR 0x0a]))"

text \<open>The loop of \<open>readProperties\<close>; a map from keys to values, where the last line of a key wins.\<close>

fun property_lines :: "string list \<Rightarrow> (string \<rightharpoonup> string) \<Rightarrow> (string \<rightharpoonup> string) res" where
  "property_lines [] result = Inr result"
| "property_lines (line # lines) result =
     (case Cut line ''='' of
        None \<Rightarrow> property_lines lines result
      | Some (key, v) \<Rightarrow>
          if length key > MaxMetadataSize \<or> length v > MaxMetadataSize
          then Inl (driver_resourceLimit ''sysfs metadata length'')
          else property_lines lines (result(key \<mapsto> v)))"

definition readProperties :: "'w linux_sys \<Rightarrow> string \<Rightarrow> ('w, string \<rightharpoonup> string) io" where
  "readProperties os path =
     io_bind (readBounded os path 16384) (\<lambda>data.
       io_of (property_lines (Split (CHR 0x0a) (bytes_string data)) Map.empty))"

text \<open>Properties and the failure to read them; a failed read leaves a nil map.\<close>

definition read_props :: "'w linux_sys \<Rightarrow> string \<Rightarrow> string \<Rightarrow> ('w, (string \<rightharpoonup> string) \<times> err list) io" where
  "read_props os op path =
     io_bind (io_try (readProperties os path)) (\<lambda>r. io_return (case r of
       Inl e \<Rightarrow> (Map.empty, [linux_nativeError op e])
     | Inr m \<Rightarrow> (m, [])))"

definition lookup_text :: "(string \<rightharpoonup> string) \<Rightarrow> string \<Rightarrow> string" where
  "lookup_text m k = (case m k of None \<Rightarrow> [] | Some v \<Rightarrow> v)"

definition stat_is :: "u64 \<Rightarrow> file_stat \<Rightarrow> bool" where
  "stat_is dev s \<longleftrightarrow> st_Mode s AND S_IFMT = S_IFCHR \<and> st_Rdev s = dev"

text \<open>\<open>resolveNode\<close> returns a path and an error.\<close>

definition resolve_alias :: "'w linux_sys \<Rightarrow> u64 \<Rightarrow> ('w, string option) io" where
  "resolve_alias os dev =
     (let alias = path_Join [''/dev/char'', Itoa (uint (ly_Major os dev)) @ '':'' @ Itoa (uint (ly_Minor os dev))] in
      io_bind (io_try (ly_EvalSymlinks os alias)) (\<lambda>r. case r of
        Inl e \<Rightarrow> io_return None
      | Inr resolved \<Rightarrow>
          if length resolved \<le> MaxMetadataSize then
            io_bind (io_try (ly_Stat os resolved)) (\<lambda>s.
              io_return (case s of Inl e \<Rightarrow> None | Inr stat \<Rightarrow> if stat_is dev stat then Some resolved else None))
          else io_return None))"

definition resolveNode :: "'w linux_sys \<Rightarrow> string \<Rightarrow> u64 \<Rightarrow> ('w, string \<times> err option) io" where
  "resolveNode os path dev =
     io_bind (io_try (ly_Stat os path)) (\<lambda>r. case r of
       Inr stat \<Rightarrow>
         io_return (path, if stat_is dev stat then None
                          else Some (driver_stale ''hidraw node does not match sysfs device number''))
     | Inl e \<Rightarrow>
         if \<not> errno_is e ENOENT then io_return (path, Some (linux_nativeError ''resolve hidraw node'' e))
         else io_bind (resolve_alias os dev) (\<lambda>a. io_return (case a of
             Some resolved \<Rightarrow> (resolved, None)
           | None \<Rightarrow> (path, Some (linux_nativeError ''resolve hidraw node'' e)))))"

text \<open>The strings of the USB device directory.\<close>

definition usb_text :: "'w linux_sys \<Rightarrow> string \<Rightarrow> string \<Rightarrow> string field \<Rightarrow> ('w, string field) io" where
  "usb_text os parent name target =
     io_bind (io_try (readText os (path_Join [parent, name]))) (\<lambda>r.
       io_return (case r of Inl e \<Rightarrow> target | Inr v \<Rightarrow> known v))"

definition usb_strings :: "'w linux_sys \<Rightarrow> string \<Rightarrow> endpoint \<Rightarrow> ('w, endpoint) io" where
  "usb_strings os parent ep =
     io_bind (usb_text os parent ''manufacturer'' (ep_Manufacturer ep)) (\<lambda>m.
       io_bind (usb_text os parent ''product'' (ep_Product ep)) (\<lambda>p.
         io_bind (usb_text os parent ''serial'' (ep_Serial ep)) (\<lambda>s.
           io_return (ep\<lparr>ep_Manufacturer := m, ep_Product := p, ep_Serial := s\<rparr>))))"

definition usb_interface :: "'w linux_sys \<Rightarrow> string \<Rightarrow> endpoint \<Rightarrow> ('w, endpoint) io" where
  "usb_interface os parent ep =
     (if fd_Known (ep_Interface ep) then io_return ep
      else io_bind (io_try (readText os (path_Join [parent, ''bInterfaceNumber'']))) (\<lambda>r.
        io_return (case r of
            Inl e \<Rightarrow> ep
          | Inr v \<Rightarrow> (case ParseUint v 16 8 of None \<Rightarrow> ep | Some n \<Rightarrow> ep\<lparr>ep_Interface := known (int n)\<rparr>))))"

text \<open>The walk up the sysfs chain, at most \<open>n\<close> more directories.\<close>

fun usb_walk :: "'w linux_sys \<Rightarrow> bool \<Rightarrow> nat \<Rightarrow> string \<Rightarrow> endpoint \<Rightarrow> ('w, endpoint) io" where
  "usb_walk os strings 0 parent ep = io_return ep"
| "usb_walk os strings (Suc n) parent ep =
     (if parent = [] \<or> parent = ''/'' then io_return ep
      else io_bind (io_ask (ly_OsStat os (path_Join [parent, ''idVendor'']))) (\<lambda>vendorErr.
        io_bind (io_ask (ly_OsStat os (path_Join [parent, ''idProduct'']))) (\<lambda>productErr.
          if vendorErr = None \<and> productErr = None
          then (if strings then usb_strings os parent ep else io_return ep)
          else io_bind (usb_interface os parent ep) (\<lambda>ep'. usb_walk os strings n (path_Dir parent) ep'))))"

definition readUSBMetadata :: "'w linux_sys \<Rightarrow> string \<Rightarrow> endpoint \<Rightarrow> bool \<Rightarrow> ('w, endpoint) io" where
  "readUSBMetadata os parent ep strings =
     (if ep_Bus ep \<noteq> BusUSB then io_return ep else usb_walk os strings 16 parent ep)"

subsection \<open>inventory\_linux.go: inspecting an entry\<close>

definition inspect_dev :: "'w linux_sys \<Rightarrow> string \<Rightarrow> ('w, u64 \<times> err list) io" where
  "inspect_dev os path =
     io_bind (io_try (readText os (path_Join [path, ''dev'']))) (\<lambda>r. io_return (case r of
       Inl e \<Rightarrow> (0, [linux_nativeError ''read device number'' e])
     | Inr devText \<Rightarrow>
         (case Split CHR '':'' devText of
            [a, b] \<Rightarrow>
              (case (ParseUint a 10 32, ParseUint b 10 32) of
                 (Some major, Some minor) \<Rightarrow> (ly_Mkdev os (of_nat major) (of_nat minor), [])
               | _ \<Rightarrow> (0, [driver_unsupported ''invalid sysfs device number'']))
          | _ \<Rightarrow> (0, [driver_unsupported ''invalid sysfs device number'']))))"

definition inspect_node :: "'w linux_sys \<Rightarrow> string \<Rightarrow> u64 \<Rightarrow> ('w, string \<times> err list) io" where
  "inspect_node os path dev =
     io_bind (read_props os ''read hidraw uevent'' (path_Join [path, ''uevent''])) (\<lambda>(uevent, failures).
       let given = lookup_text uevent ''DEVNAME'';
           name = (if given = [] then path_Base path else given);
           node = path_Join [''/dev'', name]
       in if \<not> prefix ''/dev/'' node \<or> length node > MaxMetadataSize
          then io_return ([], failures @ [driver_unsupported ''invalid hidraw device path''])
          else io_bind (resolveNode os node dev) (\<lambda>(resolved, e).
            io_return (resolved, failures @ (case e of None \<Rightarrow> [] | Some x \<Rightarrow> [x]))))"

definition inspect_id :: "string \<Rightarrow> endpoint \<Rightarrow> endpoint \<times> err list" where
  "inspect_id hidID ep =
     (case Split CHR '':'' hidID of
        [a, b, c] \<Rightarrow>
          (case (ParseUint a 16 16, ParseUint b 16 32, ParseUint c 16 32) of
             (Some bus, Some vendor, Some product) \<Rightarrow>
               if vendor \<le> 0xffff \<and> product \<le> 0xffff
               then (ep\<lparr>ep_Bus := busType (of_nat bus), ep_VendorID := known (of_nat vendor),
                        ep_ProductID := known (of_nat product)\<rparr>, [])
               else (ep, [driver_unsupported ''invalid HID_ID''])
           | _ \<Rightarrow> (ep, [driver_unsupported ''invalid HID_ID'']))
      | _ \<Rightarrow> (ep, [driver_unsupported ''missing HID_ID'']))"

definition inspect_strings :: "bool \<Rightarrow> (string \<rightharpoonup> string) \<Rightarrow> endpoint \<Rightarrow> endpoint" where
  "inspect_strings strings hid ep =
     (if strings then
        let ep1 = (case hid ''HID_UNIQ'' of None \<Rightarrow> ep | Some v \<Rightarrow> ep\<lparr>ep_Serial := known v\<rparr>)
        in (case hid ''HID_NAME'' of None \<Rightarrow> ep1 | Some v \<Rightarrow> ep1\<lparr>ep_Product := known v\<rparr>)
      else ep)"

definition inspect_entry :: "'w linux_sys \<Rightarrow> string \<Rightarrow> bool \<Rightarrow> string \<Rightarrow> ('w, inventory_entry \<times> err option) io" where
  "inspect_entry os path strings realPath =
     io_bind (inspect_dev os path) (\<lambda>(dev, f1).
       io_bind (inspect_node os path dev) (\<lambda>(node, f2).
         let hidPath = path_Join [path, ''device''] in
         io_bind (read_props os ''read HID metadata'' (path_Join [hidPath, ''uevent''])) (\<lambda>(hid, f3).
           let (ep1, f4) = inspect_id (lookup_text hid ''HID_ID'') (zero_endpoint\<lparr>ep_Path := node\<rparr>);
               ep2 = inspect_strings strings hid ep1;
               unique = (case hid ''HID_UNIQ'' of None \<Rightarrow> unknown_text | Some v \<Rightarrow> known v)
           in io_bind (io_try (ly_EvalSymlinks os hidPath)) (\<lambda>parent.
                io_bind (readUSBMetadata os (case parent of Inl e \<Rightarrow> [] | Inr p \<Rightarrow> p) ep2 strings) (\<lambda>ep3.
                  io_bind (io_try (readBounded os (path_Join [hidPath, ''report_descriptor'']) MaxDescriptorSize)) (\<lambda>r.
                    let (descriptor, f5) =
                      (case r of Inl e \<Rightarrow> ([], [linux_nativeError ''read report descriptor'' e]) | Inr d \<Rightarrow> (d, []))
                    in io_return
                      (\<lparr>ie_endpoint = ep3, ie_sysPath = realPath, ie_dev = dev, ie_descriptor = descriptor,
                        ie_hidUnique = unique\<rparr>,
                       errors_join (map Some (f1 @ f2 @ f3 @ f4 @ f5)))))))))"

definition linux_inspect :: "'w linux_sys \<Rightarrow> string \<Rightarrow> bool \<Rightarrow> ('w, inventory_entry \<times> err option) io" where
  "linux_inspect os path strings =
     io_bind (io_try (ly_EvalSymlinks os path)) (\<lambda>r. case r of
       Inl e \<Rightarrow> io_return (zero_entry, Some (linux_nativeError ''resolve sysfs endpoint'' e))
     | Inr realPath \<Rightarrow>
         if length realPath > MaxMetadataSize then io_return (zero_entry, Some (driver_resourceLimit ''sysfs path length''))
         else inspect_entry os path strings realPath)"

subsection \<open>inventory\_linux.go: enumeration\<close>

definition add_warning :: "err \<Rightarrow> hid_snapshot \<Rightarrow> hid_snapshot" where
  "add_warning e s = s\<lparr>sn_Warnings := sn_Warnings s @ [Some e]\<rparr>"

definition incomplete :: "err \<Rightarrow> hid_snapshot \<Rightarrow> hid_snapshot" where
  "incomplete e s = add_warning e (s\<lparr>sn_Complete := False\<rparr>)"

definition add_endpoint :: "endpoint \<Rightarrow> hid_snapshot \<Rightarrow> hid_snapshot" where
  "add_endpoint ep s = s\<lparr>sn_Endpoints := sn_Endpoints s @ [ep]\<rparr>"

text \<open>The loop over the collections of an entry; the flag says that \<open>Enumerate\<close> returns.\<close>

fun enum_collections :: "inventory_entry \<Rightarrow> collection list \<Rightarrow> hid_snapshot \<Rightarrow> bool \<times> hid_snapshot" where
  "enum_collections item [] s = (False, s)"
| "enum_collections item (c # cs) s =
     (if length (sn_Endpoints s) = MaxInventoryEndpoints
      then (True, incomplete (driver_resourceLimit ''inventory endpoint limit'') s)
      else enum_collections item cs (add_endpoint
             ((ie_endpoint item)\<lparr>ep_ID := endpointID (ie_sysPath item) (int (cl_Index c)), ep_Usage := known (cl_Usage c)\<rparr>) s))"

text \<open>One inspected entry.\<close>

definition enum_entry :: "inventory_entry \<times> err option \<Rightarrow> hid_snapshot \<Rightarrow> bool \<times> hid_snapshot" where
  "enum_entry inspected s =
     (let (item, itemErr) = inspected;
          s1 = (case itemErr of None \<Rightarrow> s | Some e \<Rightarrow> incomplete e s)
      in if ie_sysPath item = [] then (False, s1)
         else case Inventory (ie_descriptor item) of
             (collections, Some e) \<Rightarrow>
               if collections \<noteq> [] then enum_collections item collections (add_warning e s1)
               else (False, add_endpoint ((ie_endpoint item)\<lparr>ep_ID := endpointID (ie_sysPath item) (- 1)\<rparr>) (incomplete e s1))
           | (collections, None) \<Rightarrow>
               if collections \<noteq> [] then enum_collections item collections s1
               else (False, add_endpoint ((ie_endpoint item)\<lparr>ep_ID := endpointID (ie_sysPath item) (- 1)\<rparr>)
                      (incomplete (driver_unsupported ''descriptor has no addressable Application collection'') s1)))"

fun enum_entries :: "'w linux_sys \<Rightarrow> bool \<Rightarrow> string list \<Rightarrow> hid_snapshot \<Rightarrow> ('w, hid_snapshot) io" where
  "enum_entries os strings [] s = io_return s"
| "enum_entries os strings (name # names) s =
     (if length (sn_Endpoints s) \<ge> MaxInventoryEndpoints
      then io_return (incomplete (driver_resourceLimit ''inventory endpoint limit'') s)
      else io_bind (linux_inspect os (path_Join [classPath, name]) strings) (\<lambda>inspected.
        let (stop, s') = enum_entry inspected s in
        if stop then io_return s' else enum_entries os strings names s'))"

text \<open>\<open>Enumerate\<close> returns a snapshot and an error; \<open>io.EOF\<close> is what \<open>ReadDir\<close> answers at the end of the directory, the
  parameter \<open>eof\<close> recognises it.\<close>

definition enum_snapshot :: "bool \<Rightarrow> hid_snapshot" where
  "enum_snapshot complete = \<lparr>sn_Endpoints = [], sn_Complete = complete, sn_Warnings = []\<rparr>"

definition enum_directory :: "(err \<Rightarrow> bool) \<Rightarrow> 'w linux_sys \<Rightarrow> bool \<Rightarrow> int \<Rightarrow> ('w, hid_snapshot \<times> err option) io" where
  "enum_directory eof os strings directory =
     io_bind (io_ask (ly_ReadDir os directory (MaxInventoryDevices + 1))) (\<lambda>(entries, e).
       case (case e of Some x \<Rightarrow> if eof x then None else Some x | None \<Rightarrow> None) of
         Some x \<Rightarrow> io_return (enum_snapshot False, Some (linux_nativeError ''enumerate entries'' x))
       | None \<Rightarrow>
           io_bind
             (if length entries > MaxInventoryDevices
              then enum_entries os strings (take MaxInventoryDevices entries)
                (incomplete (driver_resourceLimit ''inventory device limit'') (enum_snapshot True))
              else enum_entries os strings entries (enum_snapshot True))
             (\<lambda>s. io_return (s, None)))"

definition linux_Enumerate :: "(err \<Rightarrow> bool) \<Rightarrow> 'w linux_sys \<Rightarrow> bool \<Rightarrow> ('w, hid_snapshot \<times> err option) io" where
  "linux_Enumerate eof os strings =
     io_bind (io_try (ly_Open os classPath)) (\<lambda>r. case r of
       Inl e \<Rightarrow>
         if errno_is e ENOENT then io_return (enum_snapshot True, None)
         else io_return (enum_snapshot False, Some (linux_nativeError ''enumerate'' e))
     | Inr directory \<Rightarrow> io_defer (ly_Close os directory) (enum_directory eof os strings directory))"

subsection \<open>device\_linux.go\<close>

record linux_device =
  ld_fd :: int
  ld_endpoint :: endpoint
  ld_layout :: report_layout

text \<open>The poll timeout in milliseconds, rounded up; -1 waits without limit.\<close>

definition poll_timeout :: "int \<Rightarrow> int" where
  "poll_timeout remaining =
     (let ms = remaining div 1000000; ms' = (if remaining mod 1000000 \<noteq> 0 then ms + 1 else ms)
      in if ms' > 2147483647 then 2147483647 else ms')"

definition read_timeout :: "'w linux_sys \<Rightarrow> int option \<Rightarrow> ('w, int) io" where
  "read_timeout os deadline =
     (case deadline of
        None \<Rightarrow> io_return (- 1)
      | Some t \<Rightarrow> io_bind (io_ask (ly_Now os)) (\<lambda>now.
          if t - now \<le> 0 then io_fail (driver_error ''read'' KindTimeout []) else io_return (poll_timeout (t - now))))"

text \<open>What one native report becomes: nothing when it belongs to another collection.\<close>

definition read_report :: "linux_device \<Rightarrow> bytes \<Rightarrow> report option res" where
  "read_report d data =
     (let inp = rl_Input (ld_layout d) in
      if rs_ID inp \<noteq> 0 \<and> data ! 0 \<noteq> rs_ID inp then Inr None
      else let body = (if rs_ID inp \<noteq> 0 then drop 1 data else data) in
        if int (length body) \<noteq> rs_Size inp
        then Inl (driver_error ''read'' KindInvalidReport ''native input length differs from descriptor'')
        else Inr (Some \<lparr>rp_ID = rs_ID inp, rp_Data = body\<rparr>))"

definition read_native :: "'w linux_sys \<Rightarrow> linux_device \<Rightarrow> ('w, report option) io" where
  "read_native os d =
     io_bind (io_try (ly_Read os (ld_fd d) (nat (MaxReportSize + 2)))) (\<lambda>r. case r of
       Inl e \<Rightarrow> if errno_is e EINTR \<or> errno_is e EAGAIN then io_return None else io_fail (linux_nativeError ''read'' e)
     | Inr data \<Rightarrow>
         if data = [] then io_fail (linux_nativeError ''read'' (Errno ENODEV)) else io_of (read_report d data))"

text \<open>One turn of the loop of \<open>Read\<close>; None is \<open>continue\<close>.\<close>

definition read_turn :: "'w linux_sys \<Rightarrow> linux_device \<Rightarrow> int option \<Rightarrow> ('w, report option) io" where
  "read_turn os d deadline =
     io_bind (read_timeout os deadline) (\<lambda>timeout.
       io_bind (io_try (ly_Poll os (ld_fd d) timeout)) (\<lambda>r. case r of
         Inl e \<Rightarrow> if errno_is e EINTR then io_return None else io_fail (linux_nativeError ''poll'' e)
       | Inr (n, revents) \<Rightarrow>
           if n = 0 then io_fail (driver_error ''read'' KindTimeout [])
           else if revents AND POLLNVAL \<noteq> 0 then io_fail (linux_nativeError ''poll'' (Errno EBADF))
           else if revents AND POLLIN = 0 then
             io_fail (linux_nativeError ''poll'' (Errno (if revents AND POLLHUP \<noteq> 0 then ENODEV else EIO)))
           else read_native os d))"

partial_function (option) read_loop :: "'w linux_sys \<Rightarrow> linux_device \<Rightarrow> int option \<Rightarrow> ('w, report) io" where
  "read_loop os d deadline w =
     io_bind (read_turn os d deadline)
       (\<lambda>r w'. case r of None \<Rightarrow> read_loop os d deadline w' | Some x \<Rightarrow> Some (Inr x, w')) w"

definition linux_Read :: "'w linux_sys \<Rightarrow> linux_device \<Rightarrow> int \<Rightarrow> ('w, report) io" where
  "linux_Read os d wait =
     (if wait < 0 then io_fail (driver_error ''read'' KindInvalidArgument [])
      else if wait > 0 then io_bind (io_ask (ly_Now os)) (\<lambda>now. read_loop os d (Some (now + wait)))
      else read_loop os d None)"

definition linux_Write :: "'w linux_sys \<Rightarrow> linux_device \<Rightarrow> report \<Rightarrow> ('w, write_outcome \<times> err option) io" where
  "linux_Write os d rep =
     (let out = rl_Output (ld_layout d); buffer = rp_ID rep # rp_Data rep in
      if rp_ID rep \<noteq> rs_ID out \<or> int (length (rp_Data rep)) \<noteq> rs_Size out
      then io_return (OutcomeNotSubmitted, Some (driver_error ''write'' KindInvalidReport []))
      else io_bind (io_try (ly_Write os (ld_fd d) buffer)) (\<lambda>r. io_return (case r of
          Inl e \<Rightarrow> (OutcomeUnknown, Some (linux_nativeError ''write'' e))
        | Inr n \<Rightarrow> if n \<noteq> int (length buffer) then (OutcomeUnknown, Some (driver_error ''write'' KindIO ''short native write''))
                   else (OutcomeCompleted, None))))"

definition linux_Close :: "'w linux_sys \<Rightarrow> linux_device \<Rightarrow> 'w \<Rightarrow> err option \<times> 'w" where
  "linux_Close os d w = map_prod (map_option (linux_nativeError ''close'')) id (ly_Close os (ld_fd d) w)"

subsection \<open>open\_linux.go\<close>

record sysfs_anchor =
  an_fd :: int
  an_path :: string
  an_stat :: file_stat

record 'w open_system =
  ox_anchor :: "string \<Rightarrow> ('w, sysfs_anchor) io"
  ox_verify :: "string \<Rightarrow> sysfs_anchor \<Rightarrow> inventory_entry \<Rightarrow> ('w, unit) io"
  ox_inspect :: "string \<Rightarrow> bool \<Rightarrow> ('w, inventory_entry \<times> err option) io"
  ox_open :: "string \<Rightarrow> ('w, int) io"
  ox_close :: "int \<Rightarrow> 'w \<Rightarrow> err option \<times> 'w"
  ox_fstat :: "int \<Rightarrow> ('w, file_stat) io"
  ox_info :: "int \<Rightarrow> ('w, raw_info) io"
  ox_descriptor :: "int \<Rightarrow> ('w, bytes) io"
  ox_unique :: "int \<Rightarrow> ('w, string) io"

definition anchorSysfs :: "'w linux_sys \<Rightarrow> string \<Rightarrow> ('w, sysfs_anchor) io" where
  "anchorSysfs os path =
     io_wrap (linux_nativeError ''pin sysfs endpoint'')
       (io_bind (ly_OpenPath os path) (\<lambda>fd.
          io_on_error (ly_Close os fd)
            (io_bind (ly_EvalSymlinks os path) (\<lambda>p.
               io_bind (ly_Fstat os fd) (\<lambda>stat. io_return \<lparr>an_fd = fd, an_path = p, an_stat = stat\<rparr>)))))"

definition verifySysfs :: "'w linux_sys \<Rightarrow> string \<Rightarrow> sysfs_anchor \<Rightarrow> inventory_entry \<Rightarrow> ('w, unit) io" where
  "verifySysfs os path anchor item =
     io_bind
       (io_wrap (\<lambda>e. DriverError ''open'' KindStaleEndpoint [] 0 ''sysfs endpoint disappeared while opening'' (Some e))
         (io_bind (ly_EvalSymlinks os path) (\<lambda>realPath. io_bind (ly_Stat os path) (\<lambda>stat. io_return (realPath, stat)))))
       (\<lambda>(realPath, stat).
         if realPath \<noteq> an_path anchor \<or> realPath \<noteq> ie_sysPath item \<or> st_Dev stat \<noteq> st_Dev (an_stat anchor) \<or>
            st_Ino stat \<noteq> st_Ino (an_stat anchor)
         then io_fail (driver_stale ''sysfs endpoint association changed while opening'')
         else io_return ())"

definition readDescriptor :: "'w linux_sys \<Rightarrow> int \<Rightarrow> ('w, bytes) io" where
  "readDescriptor os fd =
     io_bind (io_wrap (linux_nativeError ''HIDIOCGRDESCSIZE'') (ly_DescSize os fd)) (\<lambda>size.
       if size \<le> 0 \<or> size > ly_DescMax os \<or> size > int MaxDescriptorSize
       then io_fail (driver_unsupported ''hidraw descriptor size exceeds supported bounds'')
       else io_bind (io_wrap (linux_nativeError ''HIDIOCGRDESC'') (ly_GetDesc os fd (of_int size))) (\<lambda>(rawSize, rawValue).
         if rawSize \<noteq> of_int size then io_fail (driver_stale ''report descriptor changed while opening'')
         else io_return (take (nat size) rawValue)))"

definition readUnique :: "'w linux_sys \<Rightarrow> int \<Rightarrow> ('w, string) io" where
  "readUnique os fd =
     io_bind (ly_RawUniq os fd MaxMetadataSize) (\<lambda>buffer.
       if 0 \<in> set buffer then io_return (bytes_string (takeWhile (\<lambda>b. b \<noteq> 0) buffer))
       else io_fail (driver_unsupported ''unterminated HID unique string''))"

definition nativeOpenSystem :: "'w linux_sys \<Rightarrow> 'w open_system" where
  "nativeOpenSystem os =
     \<lparr>ox_anchor = anchorSysfs os, ox_verify = verifySysfs os, ox_inspect = linux_inspect os, ox_open = ly_OpenDevice os,
      ox_close = ly_Close os, ox_fstat = ly_Fstat os, ox_info = ly_RawInfo os, ox_descriptor = readDescriptor os,
      ox_unique = readUnique os\<rparr>"

text \<open>The address and the collection that an endpoint ID names.\<close>

definition open_address :: "endpoint \<Rightarrow> (string \<times> int) option" where
  "open_address expected =
     (case Cut (TrimPrefix (ep_ID expected) ''linux:'') ''#collection='' of
        None \<Rightarrow> None
      | Some (address, selector) \<Rightarrow>
          (case Atoi selector of
             None \<Rightarrow> None
           | Some index \<Rightarrow>
               if length (ep_ID expected) > MaxMetadataSize + 64 \<or> length (ep_Path expected) > MaxMetadataSize \<or>
                  \<not> prefix ''linux:/sys/'' (ep_ID expected) \<or> index < 0 \<or> endpointID address index \<noteq> ep_ID expected
               then None else Some (address, index)))"

text \<open>\<open>item, err := inspect(...); if err != nil { return nil, wrap(err) }\<close>.\<close>

definition open_inspect :: "(err \<Rightarrow> err) \<Rightarrow> 'w open_system \<Rightarrow> string \<Rightarrow> ('w, inventory_entry) io" where
  "open_inspect wrap sys path =
     io_bind (ox_inspect sys path True) (\<lambda>(item, e). case e of None \<Rightarrow> io_return item | Some x \<Rightarrow> io_fail (wrap x))"

text \<open>The checks of the open descriptor against its sysfs entry.\<close>

definition open_identity :: "'w open_system \<Rightarrow> int \<Rightarrow> inventory_entry \<Rightarrow> ('w, bytes) io" where
  "open_identity sys fd current =
     io_bind (io_wrap (linux_nativeError ''HIDIOCGRAWINFO'') (ox_info sys fd)) (\<lambda>info.
       if ep_Bus (ie_endpoint current) \<noteq> busType (ri_Bustype info) \<or>
          fd_Value (ep_VendorID (ie_endpoint current)) \<noteq> ri_Vendor info \<or>
          fd_Value (ep_ProductID (ie_endpoint current)) \<noteq> ri_Product info
       then io_fail (driver_stale ''opened fd differs from its sysfs association'')
       else io_bind (ox_descriptor sys fd) (\<lambda>descriptor.
         if descriptor \<noteq> ie_descriptor current
         then io_fail (driver_stale ''opened fd report descriptor differs from sysfs'')
         else io_bind (io_try (ox_unique sys fd)) (\<lambda>r. case r of
             Inl e \<Rightarrow>
               if \<not> errno_is e ENOTTY \<and> \<not> errno_is e EINVAL then io_fail (linux_nativeError ''HIDIOCGRAWUNIQ'' e)
               else io_return descriptor
           | Inr unique \<Rightarrow>
               if fd_Known (ie_hidUnique current) \<and> unique \<noteq> fd_Value (ie_hidUnique current)
               then io_fail (driver_stale ''opened fd unique string differs from sysfs'')
               else io_return descriptor)))"

definition open_device :: "endpoint \<Rightarrow> int \<Rightarrow> int \<Rightarrow> inventory_entry \<Rightarrow> bytes \<Rightarrow> linux_device res" where
  "open_device expected index fd current descriptor =
     andThen (Parse descriptor) (\<lambda>collections.
       if index \<ge> int (length collections) then Inl (driver_stale ''collection disappeared'')
       else let c = collections ! nat index;
                ep = (ie_endpoint current)\<lparr>ep_ID := ep_ID expected, ep_Usage := known (cl_Usage c)\<rparr>
            in if \<not> driver_matches expected ep then Inl (driver_stale ''opened metadata differs from requested endpoint'')
               else if \<not> cl_Supported c
               then Inl (driver_unsupported ''collection does not have an unambiguous fixed Input/Output layout'')
               else Inr \<lparr>ld_fd = fd, ld_endpoint = ep, ld_layout = cl_Layout c\<rparr>)"

text \<open>From the open descriptor to the device.\<close>

definition open_checked ::
  "'w open_system \<Rightarrow> endpoint \<Rightarrow> string \<Rightarrow> string \<Rightarrow> int \<Rightarrow> sysfs_anchor \<Rightarrow> inventory_entry \<Rightarrow> int \<Rightarrow>
   ('w, linux_device) io" where
  "open_checked sys expected path address index anchor item fd =
     io_bind (io_wrap (linux_nativeError ''fstat'') (ox_fstat sys fd)) (\<lambda>stat.
       if \<not> stat_is (ie_dev item) stat then io_fail (driver_stale ''opened node changed'')
       else io_bind (open_inspect (\<lambda>e. DriverError ''open'' KindStaleEndpoint [] 0 ''sysfs endpoint changed while opening'' (Some e))
              sys path) (\<lambda>current.
         if ie_sysPath current \<noteq> address \<or> ie_dev current \<noteq> st_Rdev stat \<or>
            ep_Path (ie_endpoint current) \<noteq> ep_Path (ie_endpoint item)
         then io_fail (driver_stale ''hidraw address was reused while opening'')
         else io_bind (ox_verify sys path anchor current) (\<lambda>_.
           io_bind (open_identity sys fd current) (\<lambda>descriptor.
             io_bind (ox_verify sys path anchor current) (\<lambda>_.
               io_of (open_device expected index fd current descriptor))))))"

definition open_anchored ::
  "'w open_system \<Rightarrow> endpoint \<Rightarrow> string \<Rightarrow> string \<Rightarrow> int \<Rightarrow> sysfs_anchor \<Rightarrow> ('w, linux_device) io" where
  "open_anchored sys expected path address index anchor =
     io_bind (open_inspect id sys path) (\<lambda>item.
       if ie_sysPath item \<noteq> address \<or> ep_Path expected \<noteq> [] \<and> ep_Path expected \<noteq> ep_Path (ie_endpoint item)
       then io_fail (driver_stale ''endpoint address changed'')
       else io_bind (ox_verify sys path anchor item) (\<lambda>_.
         io_bind (io_wrap (linux_nativeError ''open'') (ox_open sys (ep_Path (ie_endpoint item)))) (\<lambda>fd.
           io_on_error (ox_close sys fd) (open_checked sys expected path address index anchor item fd))))"

definition openWithSystem :: "endpoint \<Rightarrow> 'w open_system \<Rightarrow> ('w, linux_device) io" where
  "openWithSystem expected sys =
     (case open_address expected of
        None \<Rightarrow> io_fail (driver_error ''open'' KindInvalidArgument ''invalid Linux endpoint ID'')
      | Some (address, index) \<Rightarrow>
          let path = path_Join [classPath, path_Base address] in
          io_bind (ox_anchor sys path) (\<lambda>anchor.
            io_defer (ox_close sys (an_fd anchor)) (open_anchored sys expected path address index anchor)))"

definition linux_Open :: "'w linux_sys \<Rightarrow> endpoint \<Rightarrow> ('w, linux_device) io" where
  "linux_Open os expected = openWithSystem expected (nativeOpenSystem os)"

end
