(* ===== verification/LinuxDriver.thy ===== *)
theory LinuxDriver
  imports LinuxHid
begin

text \<open>
  What the Linux HID driver of \<open>LinuxHid\<close> guarantees: descriptors are never leaked, an open device is the one that was
  asked for and passes the checks of the portable layer, an inventory keeps within the limits of that layer, and report
  input follows the layout and the deadline.
\<close>

subsection \<open>Descriptors are given back\<close>

text \<open>What the operating system promises: opening a file adds a fresh descriptor, closing removes it, and no other call
  changes the table.\<close>

definition linux_fds :: "'w linux_sys \<Rightarrow> ('w \<Rightarrow> int set) \<Rightarrow> bool" where
  "linux_fds os fds \<longleftrightarrow>
     (\<forall>p. opens fds (\<lambda>fd. fd) (ly_Open os p)) \<and> (\<forall>p. opens fds (\<lambda>fd. fd) (ly_OpenPath os p)) \<and>
     (\<forall>p. opens fds (\<lambda>fd. fd) (ly_OpenDevice os p)) \<and> closes fds (\<lambda>fd. fd) (ly_Close os) \<and>
     (\<forall>f n. ask_keeps fds (ly_ReadDir os f n)) \<and> (\<forall>f n. io_keeps fds (ly_ReadAll os f n)) \<and>
     (\<forall>p. io_keeps fds (ly_EvalSymlinks os p)) \<and> (\<forall>p. ask_keeps fds (ly_OsStat os p)) \<and>
     (\<forall>p. io_keeps fds (ly_Stat os p)) \<and> (\<forall>f. io_keeps fds (ly_Fstat os f)) \<and>
     (\<forall>f. io_keeps fds (ly_RawInfo os f)) \<and> (\<forall>f. io_keeps fds (ly_DescSize os f)) \<and>
     (\<forall>f n. io_keeps fds (ly_GetDesc os f n)) \<and> (\<forall>f n. io_keeps fds (ly_RawUniq os f n))"

text \<open>The same of the injected open system.\<close>

definition open_fds :: "'w open_system \<Rightarrow> ('w \<Rightarrow> int set) \<Rightarrow> bool" where
  "open_fds sys fds \<longleftrightarrow>
     (\<forall>p. opens fds an_fd (ox_anchor sys p)) \<and> (\<forall>p. opens fds (\<lambda>fd. fd) (ox_open sys p)) \<and> closes fds (\<lambda>fd. fd) (ox_close sys) \<and>
     (\<forall>p a i. io_keeps fds (ox_verify sys p a i)) \<and> (\<forall>p b. io_keeps fds (ox_inspect sys p b)) \<and>
     (\<forall>f. io_keeps fds (ox_fstat sys f)) \<and> (\<forall>f. io_keeps fds (ox_info sys f)) \<and>
     (\<forall>f. io_keeps fds (ox_descriptor sys f)) \<and> (\<forall>f. io_keeps fds (ox_unique sys f))"

lemma linux_fdsD:
  assumes "linux_fds os fds"
  shows "opens fds (\<lambda>fd. fd) (ly_Open os p)" "opens fds (\<lambda>fd. fd) (ly_OpenPath os p)" "opens fds (\<lambda>fd. fd) (ly_OpenDevice os p)"
    "closes fds (\<lambda>fd. fd) (ly_Close os)"
    and linux_fds_keeps: "ask_keeps fds (ly_ReadDir os f n)" "io_keeps fds (ly_ReadAll os f n)" "io_keeps fds (ly_EvalSymlinks os p)"
      "ask_keeps fds (ly_OsStat os p)" "io_keeps fds (ly_Stat os p)" "io_keeps fds (ly_Fstat os f)"
      "io_keeps fds (ly_RawInfo os f)" "io_keeps fds (ly_DescSize os f)" "io_keeps fds (ly_GetDesc os f u)"
      "io_keeps fds (ly_RawUniq os f n)"
  using assms by (simp_all add: linux_fds_def)

lemma readBounded_keeps [keep_intros]: "linux_fds os fds \<Longrightarrow> io_keeps fds (readBounded os p n)"
  unfolding readBounded_def
  by (rule keeps_defer [OF linux_fdsD(4) linux_fdsD(1)]) (intro keep_intros linux_fds_keeps | assumption)+

lemma readText_keeps [keep_intros]: "linux_fds os fds \<Longrightarrow> io_keeps fds (readText os p)"
  unfolding readText_def by (intro keep_intros)

lemma read_props_keeps [keep_intros]: "linux_fds os fds \<Longrightarrow> io_keeps fds (read_props os op p)"
  unfolding read_props_def readProperties_def by (intro keep_intros)

lemma resolveNode_keeps [keep_intros]: "linux_fds os fds \<Longrightarrow> io_keeps fds (resolveNode os p d)"
  unfolding resolveNode_def resolve_alias_def by (intro keep_intros linux_fds_keeps)

lemma usb_walk_keeps: "linux_fds os fds \<Longrightarrow> io_keeps fds (usb_walk os b n p ep)"
proof (induction n arbitrary: p ep)
  case (Suc n)
  have "io_keeps fds (usb_walk os b n q e)" for q e using Suc by blast
  with Suc.prems show ?case
    unfolding usb_walk.simps usb_strings_def usb_text_def usb_interface_def by (intro keep_intros linux_fds_keeps)
qed (simp add: keeps_prim)

lemma linux_inspect_keeps [keep_intros]: "linux_fds os fds \<Longrightarrow> io_keeps fds (linux_inspect os p b)"
  unfolding linux_inspect_def inspect_entry_def inspect_dev_def inspect_node_def readUSBMetadata_def
  by (intro keep_intros linux_fds_keeps usb_walk_keeps)

lemma enum_entries_keeps: "linux_fds os fds \<Longrightarrow> io_keeps fds (enum_entries os b names s)"
proof (induction names arbitrary: s)
  case (Cons name names)
  have "io_keeps fds (enum_entries os b names s')" for s' using Cons by blast
  with Cons.prems show ?case unfolding enum_entries.simps by (intro keep_intros)
qed (simp add: keeps_prim)

lemma linux_Enumerate_keeps:
  assumes os: "linux_fds os fds"
  shows "io_keeps fds (linux_Enumerate eof os b)"
  unfolding io_keeps_def
proof (intro allI impI)
  fix w r w' assume run: "linux_Enumerate eof os b w = Some (r, w')"
  obtain x w1 where x: "ly_Open os classPath w = Some (x, w1)"
    using run by (auto simp: linux_Enumerate_def io_bind_conv)
  have body: "io_keeps fds (enum_directory eof os b d)" for d
    unfolding enum_directory_def using os by (intro keep_intros linux_fds_keeps enum_entries_keeps)
  note opened = linux_fdsD(1) [OF os, of classPath, unfolded opens_def, rule_format, OF x]
  show "fds w' = fds w"
  proof (cases x)
    case (Inl e)
    with run x opened show ?thesis by (auto simp: linux_Enumerate_def io_bind_conv split: if_splits)
  next
    case (Inr d)
    with run x obtain w2 where w2: "enum_directory eof os b d w1 = Some (r, w2)" "w' = snd (ly_Close os d w2)"
      by (auto simp: linux_Enumerate_def io_bind_conv io_defer_conv)
    with Inr opened io_keepsD [OF body w2(1)] linux_fdsD(4) [OF os] show ?thesis by (simp add: closes_def)
  qed
qed

text \<open>The native open system inherits the law from the operating system.\<close>

lemma anchorSysfs_opens: "linux_fds os fds \<Longrightarrow> opens fds an_fd (anchorSysfs os p)"
  unfolding anchorSysfs_def
  by (rule opens_wrap, rule opens_on_error [OF linux_fdsD(4) linux_fdsD(2)])
    (intro keep_intros linux_fds_keeps | assumption | auto simp: io_bind_conv)+

lemma native_open_fds: "linux_fds os fds \<Longrightarrow> open_fds (nativeOpenSystem os) fds"
  unfolding open_fds_def nativeOpenSystem_def verifySysfs_def readDescriptor_def readUnique_def
  by (auto intro!: anchorSysfs_opens keep_intros linux_fds_keeps linux_fdsD)

lemma open_fdsD:
  assumes "open_fds sys fds"
  shows "opens fds an_fd (ox_anchor sys p)" "opens fds (\<lambda>fd. fd) (ox_open sys p)" "closes fds (\<lambda>fd. fd) (ox_close sys)"
    and open_fds_keeps: "io_keeps fds (ox_verify sys p a i)" "io_keeps fds (ox_inspect sys p b)" "io_keeps fds (ox_fstat sys f)"
      "io_keeps fds (ox_info sys f)" "io_keeps fds (ox_descriptor sys f)" "io_keeps fds (ox_unique sys f)"
  using assms by (simp_all add: open_fds_def)

subsection \<open>What an open device is\<close>

text \<open>The facts that the checks on the open descriptor establish.\<close>

definition identity_ok :: "'w open_system \<Rightarrow> int \<Rightarrow> inventory_entry \<Rightarrow> bytes \<Rightarrow> bool" where
  "identity_ok sys fd current descriptor \<longleftrightarrow>
     (\<exists>info. returns (ox_info sys fd) info \<and> ep_Bus (ie_endpoint current) = busType (ri_Bustype info) \<and>
        fd_Value (ep_VendorID (ie_endpoint current)) = ri_Vendor info \<and>
        fd_Value (ep_ProductID (ie_endpoint current)) = ri_Product info) \<and>
     returns (ox_descriptor sys fd) descriptor \<and> ie_descriptor current = descriptor"

definition open_verified :: "'w open_system \<Rightarrow> endpoint \<Rightarrow> linux_device \<Rightarrow> bool" where
  "open_verified sys expected d \<longleftrightarrow>
     (\<exists>address index stat current descriptor collections.
        open_address expected = Some (address, index) \<and> ie_sysPath current = address \<and>
        returns (ox_fstat sys (ld_fd d)) stat \<and> stat_is (ie_dev current) stat \<and>
        identity_ok sys (ld_fd d) current descriptor \<and>
        Parse descriptor = Inr collections \<and> nat index < length collections \<and>
        cl_Supported (collections ! nat index) \<and> ld_layout d = cl_Layout (collections ! nat index) \<and>
        ld_endpoint d = (ie_endpoint current)\<lparr>ep_ID := ep_ID expected, ep_Usage := known (cl_Usage (collections ! nat index))\<rparr>)"

lemma open_address_SomeD:
  assumes "open_address expected = Some (address, index)"
  shows "ep_ID expected = endpointID address index" "0 \<le> index" "prefix ''/sys/'' address"
proof -
  show e: "ep_ID expected = endpointID address index" and "0 \<le> index"
    using assms by (auto simp: open_address_def split: option.splits if_splits)
  have "prefix ''linux:/sys/'' (ep_ID expected)"
    using assms by (auto simp: open_address_def split: option.splits if_splits)
  then have "prefix ''/sys/'' (address @ ''#collection='' @ Itoa index)" unfolding e endpointID_def by simp
  then consider "prefix ''/sys/'' address"
    | us where "''/sys/'' = address @ us" "prefix us (''#collection='' @ Itoa index)"
    by (meson prefix_append)
  then show "prefix ''/sys/'' address"
  proof cases
    case (2 us)
    then have "us = []" by (cases us) (auto simp: Cons_eq_append_conv)
    with 2(1) show ?thesis by simp
  qed
qed

lemma open_device_InrD:
  assumes "open_device expected index fd current descriptor = Inr d"
  obtains cs where "Parse descriptor = Inr cs" "index < int (length cs)" "cl_Supported (cs ! nat index)"
    "d = \<lparr>ld_fd = fd, ld_endpoint = (ie_endpoint current)\<lparr>ep_ID := ep_ID expected, ep_Usage := known (cl_Usage (cs ! nat index))\<rparr>,
          ld_layout = cl_Layout (cs ! nat index)\<rparr>"
    "driver_matches expected (ld_endpoint d)"
  using assms by (auto simp: open_device_def andThen_Inr_conv Let_def split: if_splits)

lemma open_identity_post: "io_post (open_identity sys fd current) (identity_ok sys fd current)"
  unfolding open_identity_def by (intro post_steps) (auto simp: identity_ok_def)

text \<open>What the checks between the open and the return establish.\<close>

definition checked_ok :: "'w open_system \<Rightarrow> endpoint \<Rightarrow> int \<Rightarrow> inventory_entry \<Rightarrow> linux_device \<Rightarrow> bool" where
  "checked_ok sys expected fd item d \<longleftrightarrow>
     ld_fd d = fd \<and> open_verified sys expected d \<and> driver_matches expected (ld_endpoint d) \<and>
     ep_ID (ld_endpoint d) = ep_ID expected \<and> ep_Path (ld_endpoint d) = ep_Path (ie_endpoint item)"

lemma open_device_ok:
  assumes addr: "open_address expected = Some (address, index)" and dev: "open_device expected index fd current descriptor = Inr d"
    and stat: "returns (ox_fstat sys fd) stat" "stat_is (ie_dev item) stat"
    and cur: "ie_sysPath current = address" "ie_dev current = st_Rdev stat" "ep_Path (ie_endpoint current) = ep_Path (ie_endpoint item)"
    and ident: "identity_ok sys fd current descriptor"
  shows "checked_ok sys expected fd item d"
proof -
  obtain cs where d: "Parse descriptor = Inr cs" "index < int (length cs)" "cl_Supported (cs ! nat index)"
    "d = \<lparr>ld_fd = fd, ld_endpoint = (ie_endpoint current)\<lparr>ep_ID := ep_ID expected, ep_Usage := known (cl_Usage (cs ! nat index))\<rparr>,
          ld_layout = cl_Layout (cs ! nat index)\<rparr>" "driver_matches expected (ld_endpoint d)"
    by (rule open_device_InrD [OF dev])
  have "stat_is (ie_dev current) stat" using stat(2) cur(2) by (simp add: stat_is_def)
  moreover have "nat index < length cs" using d(2) open_address_SomeD [OF addr] by (simp add: nat_less_iff)
  ultimately have "open_verified sys expected d"
    unfolding open_verified_def using addr stat(1) cur(1) d(1,3,4) ident
    by (intro exI [of _ address] exI [of _ index] exI [of _ stat] exI [of _ current] exI [of _ descriptor] exI [of _ cs]) simp
  with d(4,5) cur(3) show ?thesis by (simp add: checked_ok_def)
qed

lemma open_checked_post:
  assumes "open_address expected = Some (address, index)"
  shows "io_post (open_checked sys expected path address index anchor item fd) (checked_ok sys expected fd item)"
  unfolding open_checked_def
  by (intro post_prim post_split post_bind [OF post_wrap [OF post_call]] post_bind [OF open_identity_post] post_bind [OF post_call])
    (auto intro: open_device_ok [OF assms])

lemma open_checked_keeps: "open_fds sys fds \<Longrightarrow> io_keeps fds (open_checked sys expected path address index anchor item fd)"
  unfolding open_checked_def open_inspect_def open_identity_def by (intro keep_intros open_fds_keeps)

lemma open_anchored_opens:
  assumes sys: "open_fds sys fds" and addr: "open_address expected = Some (address, index)"
  shows "opens fds ld_fd (open_anchored sys expected path address index anchor)"
proof -
  have fd: "ld_fd d = fd" if "open_checked sys expected path address index anchor item fd w = Some (Inr d, w')" for item fd w d w'
    using io_postD [OF open_checked_post [OF addr] that] by (simp add: checked_ok_def)
  have opened: "opens fds ld_fd (io_bind (io_wrap g (ox_open sys p))
      (\<lambda>fd. io_on_error (ox_close sys fd) (open_checked sys expected path address index anchor item fd)))" for g p item
    by (rule opens_on_error [OF open_fdsD(3) [OF sys] opens_wrap [OF open_fdsD(2) [OF sys]] open_checked_keeps [OF sys] fd])
  have inspected: "io_keeps fds (open_inspect id sys path)"
    unfolding open_inspect_def using sys by (intro keep_intros open_fds_keeps)
  show ?thesis
    unfolding open_anchored_def
    by (intro opens_bind [OF inspected] opens_if opens_prim opens_bind [OF open_fds_keeps(1) [OF sys]] opened)
qed

lemma openWithSystem_opens:
  assumes "open_fds sys fds"
  shows "opens fds ld_fd (openWithSystem expected sys)"
  using assms
  by (auto simp: openWithSystem_def Let_def opens_prim split: option.split intro!: opens_defer open_fdsD open_anchored_opens)

lemma openWithSystem_post:
  "io_post (openWithSystem expected sys) (\<lambda>d. open_verified sys expected d \<and> matchesEndpoint expected (ld_endpoint d))"
proof (cases "open_address expected")
  case (Some ai)
  obtain address index where ai: "open_address expected = Some (address, index)" using Some by (cases ai) simp
  have "io_post (open_anchored sys expected path address index anchor)
      (\<lambda>d. open_verified sys expected d \<and> matchesEndpoint expected (ld_endpoint d))" for path anchor
    unfolding open_anchored_def
  proof (rule post_bind [OF post_call] post_split post_prim post_bind [OF post_wrap [OF post_call]] post_on_error)+
    fix item :: inventory_entry and fd
    assume p: "\<not> (ie_sysPath item \<noteq> address \<or> ep_Path expected \<noteq> [] \<and> ep_Path expected \<noteq> ep_Path (ie_endpoint item))"
    have "open_verified sys expected d \<and> matchesEndpoint expected (ld_endpoint d)"
      if "open_checked sys expected path address index anchor item fd w = Some (Inr d, w')" for w d w'
      using io_postD [OF open_checked_post [OF ai] that] p by (auto simp: checked_ok_def intro: matches_core)
    then show "io_post (open_checked sys expected path address index anchor item fd)
        (\<lambda>d. open_verified sys expected d \<and> matchesEndpoint expected (ld_endpoint d))"
      by (simp add: io_post_def)
  qed
  then show ?thesis using ai by (auto simp: openWithSystem_def Let_def intro!: post_bind [OF post_call] post_defer)
qed (simp add: openWithSystem_def post_prim)

text \<open>The driver keeps the contract of the portable layer.\<close>

lemma linux_Open_accepted:
  "io_post (linux_Open os ep) (\<lambda>d. device_accepted ep \<lparr>nd_endpoint = ld_endpoint d, nd_layout = ld_layout d\<rparr>)"
proof -
  have "device_accepted ep \<lparr>nd_endpoint = ld_endpoint d, nd_layout = ld_layout d\<rparr>"
    if "linux_Open os ep w = Some (Inr d, w')" for w d w'
  proof -
    have v: "open_verified (nativeOpenSystem os) ep d" "matchesEndpoint ep (ld_endpoint d)"
      using io_postD [OF openWithSystem_post that [unfolded linux_Open_def]] by auto
    then obtain descriptor cs i where "Parse descriptor = Inr cs" "i < length cs" "cl_Supported (cs ! i)" "ld_layout d = cl_Layout (cs ! i)"
      unfolding open_verified_def by blast
    with v(2) Parse_supported_size [of descriptor cs i] show ?thesis by (simp add: device_accepted_def)
  qed
  then show ?thesis unfolding io_post_def by blast
qed

interpretation linux: hid_driver "linux_Open os" ld_endpoint ld_layout for os
  by unfold_locales (rule linux_Open_accepted)

subsection \<open>What the inventory contains\<close>

text \<open>Metadata within bounds, and metadata that a filter on vendor, product and usage can decide.\<close>

definition texts_bounded :: "endpoint \<Rightarrow> bool" where
  "texts_bounded ep \<longleftrightarrow>
     length (ep_Path ep) \<le> MaxMetadataSize \<and> length (fd_Value (ep_Serial ep)) \<le> MaxMetadataSize \<and>
     length (fd_Value (ep_Manufacturer ep)) \<le> MaxMetadataSize \<and> length (fd_Value (ep_Product ep)) \<le> MaxMetadataSize"

definition ids_known :: "endpoint \<Rightarrow> bool" where
  "ids_known ep \<longleftrightarrow> fd_Known (ep_VendorID ep) \<and> fd_Known (ep_ProductID ep)"

lemma readText_post: "io_post (readText os p) (\<lambda>t. length t \<le> MaxMetadataSize)"
  unfolding readText_def readBounded_def
  by (rule post_bind [where P = "\<lambda>data. length data \<le> MaxMetadataSize"])
    (auto intro!: post_bind [OF post_call] post_defer post_prim post_split simp: TrimSuffix_def bytes_string_def)

lemma property_lines_bounded:
  "property_lines ls m = Inr m' \<Longrightarrow> \<forall>k v. m k = Some v \<longrightarrow> length v \<le> MaxMetadataSize \<Longrightarrow>
   \<forall>k v. m' k = Some v \<longrightarrow> length v \<le> MaxMetadataSize"
proof (induction ls arbitrary: m)
  case (Cons line ls)
  show ?case
  proof (cases "Cut line ''=''")
    case None
    with Cons show ?thesis by simp
  next
    case (Some kv)
    obtain key val where kv: "kv = (key, val)" by fastforce
    with Some Cons.prems(1) have run: "property_lines ls (m(key \<mapsto> val)) = Inr m'" and "length val \<le> MaxMetadataSize"
      by (auto split: if_splits)
    then have "\<forall>k v. (m(key \<mapsto> val)) k = Some v \<longrightarrow> length v \<le> MaxMetadataSize" using Cons.prems(2) by simp
    from Cons.IH [OF run this] show ?thesis .
  qed
qed simp

lemma read_props_ok: "io_ok (read_props os op p) (\<lambda>(m, f). \<forall>k v. m k = Some v \<longrightarrow> length v \<le> MaxMetadataSize)"
proof -
  have "io_post (readProperties os p) (\<lambda>m. \<forall>k v. m k = Some v \<longrightarrow> length v \<le> MaxMetadataSize)"
    unfolding readProperties_def
    by (intro post_bind [OF post_call] post_prim) (erule property_lines_bounded, simp)
  from ok_try [OF this] show ?thesis
    unfolding read_props_def by (rule ok_bind) (auto intro!: ok_return split: sum.splits)
qed

lemma resolveNode_ok:
  assumes "length p \<le> MaxMetadataSize"
  shows "io_ok (resolveNode os p d) (\<lambda>(q, e). length q \<le> MaxMetadataSize)"
proof -
  have "io_ok (resolve_alias os d) (\<lambda>a. \<forall>q. a = Some q \<longrightarrow> length q \<le> MaxMetadataSize)"
    unfolding resolve_alias_def
    by (intro ok_split ok_bind [OF ok_try [OF post_call]] ok_return) (auto split: sum.splits if_splits)
  then show ?thesis unfolding resolveNode_def
    using assms by (intro ok_split ok_bind [OF ok_try [OF post_call]] ok_return ok_bind [of "resolve_alias os d"])
      (auto split: option.splits)
qed

lemma usb_walk_ok:
  assumes "texts_bounded ep"
  shows "io_ok (usb_walk os b n p ep) (\<lambda>ep'. texts_bounded ep' \<and> (ids_known ep \<longrightarrow> ids_known ep'))"
  using assms
proof (induction n arbitrary: p ep)
  case (Suc n)
  have usb: "io_ok (usb_text os q name t) (\<lambda>f. length (fd_Value f) \<le> MaxMetadataSize)"
    if "length (fd_Value t) \<le> MaxMetadataSize" for q name t
    unfolding usb_text_def by (rule ok_bind [OF ok_try [OF readText_post]]) (use that in \<open>auto intro!: ok_return split: sum.splits\<close>)
  have strings: "io_ok (usb_strings os p ep) (\<lambda>ep'. texts_bounded ep' \<and> (ids_known ep \<longrightarrow> ids_known ep'))"
    unfolding usb_strings_def using Suc.prems
    by (intro ok_bind [OF usb] ok_return) (auto simp: texts_bounded_def ids_known_def)
  have "io_ok (usb_interface os p ep) (\<lambda>ep'. texts_bounded ep' \<and> (ids_known ep \<longrightarrow> ids_known ep'))"
    unfolding usb_interface_def using Suc.prems
    by (intro ok_split ok_bind [OF ok_try [OF post_call]] ok_return)
      (auto simp: texts_bounded_def ids_known_def split: sum.splits option.splits)
  then have rest: "io_ok (io_bind (usb_interface os p ep) (\<lambda>ep'. usb_walk os b n (path_Dir p) ep'))
      (\<lambda>ep'. texts_bounded ep' \<and> (ids_known ep \<longrightarrow> ids_known ep'))"
    by (rule ok_bind) (rule ok_conseq [OF Suc.IH], auto)
  show ?case unfolding usb_walk.simps
    by (intro ok_split ok_bind [OF ok_ask] ok_return strings rest) (use Suc.prems in auto)
qed (simp add: ok_return)

text \<open>What \<open>inspect\<close> answers.\<close>

definition entry_ok :: "inventory_entry \<times> err option \<Rightarrow> bool" where
  "entry_ok r \<longleftrightarrow>
     length (ie_sysPath (fst r)) \<le> MaxMetadataSize \<and> texts_bounded (ie_endpoint (fst r)) \<and>
     (snd r = None \<longrightarrow> ids_known (ie_endpoint (fst r)))"

lemma inspect_id_ok: "inspect_id s ep = (ep', f) \<Longrightarrow> texts_bounded ep \<Longrightarrow> texts_bounded ep' \<and> (f = [] \<longrightarrow> ids_known ep')"
  by (auto simp: inspect_id_def texts_bounded_def ids_known_def split: list.splits option.splits if_splits)

lemma inspect_strings_ok:
  "(\<And>k v. hid k = Some v \<Longrightarrow> length v \<le> MaxMetadataSize) \<Longrightarrow> texts_bounded ep \<Longrightarrow>
   texts_bounded (inspect_strings b hid ep) \<and> (ids_known ep \<longrightarrow> ids_known (inspect_strings b hid ep))"
  by (auto simp: inspect_strings_def texts_bounded_def ids_known_def Let_def split: option.splits)

lemma inspect_node_ok: "io_ok (inspect_node os p d) (\<lambda>(node, f). length node \<le> MaxMetadataSize)"
  unfolding inspect_node_def
  by (rule ok_bind [OF read_props_ok])
    (auto intro!: ok_split ok_return ok_bind [OF resolveNode_ok])

lemma readUSBMetadata_ok:
  "texts_bounded ep \<Longrightarrow> io_ok (readUSBMetadata os p ep b) (\<lambda>ep'. texts_bounded ep' \<and> (ids_known ep \<longrightarrow> ids_known ep'))"
  unfolding readUSBMetadata_def by (intro ok_split usb_walk_ok ok_return) auto

lemma errors_join_None: "errors_join (map Some xs) = None \<longleftrightarrow> xs = []"
  by (induction xs) (auto simp: errors_join_def split: list.splits)

lemma inspect_entry_ok:
  assumes "length realPath \<le> MaxMetadataSize"
  shows "io_ok (inspect_entry os p b realPath) entry_ok"
  unfolding inspect_entry_def
proof (intro ok_split ok_bind [OF ok_try [OF post_call]] ok_bind [where m = "inspect_dev os p", where P = "\<lambda>_. True"]
    ok_bind [OF inspect_node_ok] ok_bind [OF read_props_ok], goal_cases)
  case 1
  show ?case unfolding inspect_dev_def by (intro ok_bind [OF ok_try [OF post_call]] ok_return) simp
next
  case (2 dv dev f1 nd node f2 pr hid f3 ep1 f4 parent)
  then have ep1: "texts_bounded ep1" "f4 = [] \<longrightarrow> ids_known ep1"
    using inspect_id_ok [of "lookup_text hid ''HID_ID''" "zero_endpoint\<lparr>ep_Path := node\<rparr>" ep1 f4]
    by (auto simp: texts_bounded_def zero_endpoint_def)
  have "texts_bounded (inspect_strings b hid ep1) \<and> (ids_known ep1 \<longrightarrow> ids_known (inspect_strings b hid ep1))"
    using 2 ep1 by (intro inspect_strings_ok) auto
  with ep1 assms show ?case
    by (intro ok_bind [OF readUSBMetadata_ok] ok_bind [OF ok_try [OF post_call]] ok_split ok_return)
      (auto simp: entry_ok_def errors_join_None simp del: map_append)
qed

lemma linux_inspect_ok: "io_ok (linux_inspect os p b) entry_ok"
  unfolding linux_inspect_def
  by (intro ok_bind [OF ok_try [OF post_call]] ok_split ok_return inspect_entry_ok)
    (auto simp: entry_ok_def zero_entry_def zero_endpoint_def texts_bounded_def)

text \<open>The invariant of the snapshot while the loops build it, with at most \<open>n\<close> warnings.\<close>

definition inventory_inv :: "nat \<Rightarrow> hid_snapshot \<Rightarrow> bool" where
  "inventory_inv n s \<longleftrightarrow>
     length (sn_Endpoints s) \<le> MaxInventoryEndpoints \<and> length (sn_Warnings s) \<le> n \<and>
     (\<forall>ep \<in> set (sn_Endpoints s).
        length (ep_ID ep) \<le> MaxMetadataSize + 64 \<and> texts_bounded ep \<and>
        (sn_Complete s \<longrightarrow> ids_known ep \<and> fd_Known (ep_Usage ep)))"

lemma inventory_inv_mono: "inventory_inv n s \<Longrightarrow> n \<le> m \<Longrightarrow> inventory_inv m s"
  by (auto simp: inventory_inv_def)

lemma inventory_inv_incomplete: "inventory_inv n s \<Longrightarrow> inventory_inv (Suc n) (incomplete e s)"
  by (auto simp: inventory_inv_def incomplete_def add_warning_def)

lemma inventory_inv_warning: "inventory_inv n s \<Longrightarrow> inventory_inv (Suc n) (add_warning e s)"
  by (auto simp: inventory_inv_def add_warning_def)

lemma inventory_inv_add:
  "inventory_inv n s \<Longrightarrow> length (sn_Endpoints s) < MaxInventoryEndpoints \<Longrightarrow> length (ep_ID ep) \<le> MaxMetadataSize + 64 \<Longrightarrow>
   texts_bounded ep \<Longrightarrow> (sn_Complete s \<Longrightarrow> ids_known ep \<and> fd_Known (ep_Usage ep)) \<Longrightarrow> inventory_inv n (add_endpoint ep s)"
  by (auto simp: inventory_inv_def add_endpoint_def)

lemma endpointID_length:
  assumes "length p \<le> MaxMetadataSize" and "- 1 \<le> i" and "i < 256"
  shows "length (endpointID p i) \<le> MaxMetadataSize + 64"
proof -
  have "length (nat_decimal (nat i)) \<le> 3" using assms(3) by (intro nat_decimal_length [of _ 2, simplified]) simp
  moreover have "length (nat_decimal 1) \<le> 1" using nat_decimal_length [of 1 0] by simp
  moreover have "nat (- i) = 1" if "i < 0" using that assms(2) by simp
  ultimately show ?thesis using assms(1) by (auto simp: endpointID_def Itoa_def)
qed

lemma enum_collections_inv:
  assumes "length (ie_sysPath item) \<le> MaxMetadataSize" and "texts_bounded (ie_endpoint item)"
    and "\<And>c. c \<in> set cs \<Longrightarrow> cl_Index c < 256" and "inventory_inv n s"
    and "sn_Complete s \<Longrightarrow> ids_known (ie_endpoint item)"
  shows "inventory_inv (Suc n) (snd (enum_collections item cs s))"
  using assms(3-)
proof (induction cs arbitrary: s)
  case Nil
  then show ?case by (simp add: inventory_inv_mono)
next
  case (Cons c cs)
  show ?case
  proof (cases "length (sn_Endpoints s) = MaxInventoryEndpoints")
    case True
    with Cons.prems(2) show ?thesis by (simp add: inventory_inv_incomplete)
  next
    case False
    let ?ep = "(ie_endpoint item)\<lparr>ep_ID := endpointID (ie_sysPath item) (int (cl_Index c)), ep_Usage := known (cl_Usage c)\<rparr>"
    have "inventory_inv n (add_endpoint ?ep s)"
      using Cons.prems assms(1,2) False endpointID_length [OF assms(1), of "int (cl_Index c)"]
      by (intro inventory_inv_add) (auto simp: inventory_inv_def texts_bounded_def ids_known_def)
    moreover have "sn_Complete (add_endpoint ?ep s) = sn_Complete s" by (simp add: add_endpoint_def)
    ultimately have "inventory_inv (Suc n) (snd (enum_collections item cs (add_endpoint ?ep s)))"
      using Cons.prems by (intro Cons.IH) auto
    with False show ?thesis by simp
  qed
qed

lemma enum_entry_inv:
  assumes ok: "entry_ok inspected" and inv: "inventory_inv n s" and room: "length (sn_Endpoints s) < MaxInventoryEndpoints"
  shows "inventory_inv (n + 3) (snd (enum_entry inspected s))"
proof -
  obtain item e where i: "inspected = (item, e)" by fastforce
  define s1 where "s1 = (case e of None \<Rightarrow> s | Some e \<Rightarrow> incomplete e s)"
  have s1: "inventory_inv (Suc n) s1" "sn_Endpoints s1 = sn_Endpoints s" "sn_Complete s1 \<Longrightarrow> e = None"
    using inventory_inv_incomplete [OF inv] inventory_inv_mono [OF inv, of "Suc n"]
    by (auto simp: s1_def split: option.splits) (auto simp: incomplete_def add_warning_def split: option.splits)
  obtain cs pe where cs: "Inventory (ie_descriptor item) = (cs, pe)" by fastforce
  have idx: "cl_Index c < 256" if "c \<in> set cs" for c using Inventory_index [of c "ie_descriptor item"] that cs by simp
  have bounds: "length (ie_sysPath item) \<le> MaxMetadataSize" "texts_bounded (ie_endpoint item)" "e = None \<Longrightarrow> ids_known (ie_endpoint item)"
    using ok i by (auto simp: entry_ok_def)
  have unusable: "inventory_inv (n + 3) (add_endpoint ((ie_endpoint item)\<lparr>ep_ID := endpointID (ie_sysPath item) (- 1)\<rparr>) (incomplete x s1))" for x
    using inventory_inv_incomplete [OF s1(1), of x] s1(2) room bounds(1,2) endpointID_length [OF bounds(1), of "- 1"]
    by (intro inventory_inv_add) (auto simp: incomplete_def add_warning_def texts_bounded_def intro: inventory_inv_mono)
  have listed: "inventory_inv (n + 3) (snd (enum_collections item cs s2))"
    if "inventory_inv (n + 2) s2" "sn_Complete s2 \<Longrightarrow> e = None" for s2
    using enum_collections_inv [OF bounds(1,2) idx that(1)] that(2) bounds(3) by (simp add: numeral_eq_Suc)
  have "inventory_inv (n + 2) s1" "inventory_inv (n + 2) (add_warning x s1)" for x
    using s1(1) by (auto simp: inventory_inv_mono inventory_inv_warning)
  moreover have "sn_Complete (add_warning x s1) \<Longrightarrow> e = None" for x using s1(3) by (simp add: add_warning_def)
  ultimately have lists: "inventory_inv (n + 3) (snd (enum_collections item cs s1))"
      "inventory_inv (n + 3) (snd (enum_collections item cs (add_warning x s1)))" for x
    using listed s1(3) by blast+
  have "enum_entry inspected s =
      (if ie_sysPath item = [] then (False, s1)
       else if cs \<noteq> [] then enum_collections item cs (case pe of None \<Rightarrow> s1 | Some x \<Rightarrow> add_warning x s1)
       else (False, add_endpoint ((ie_endpoint item)\<lparr>ep_ID := endpointID (ie_sysPath item) (- 1)\<rparr>)
         (incomplete (case pe of None \<Rightarrow> driver_unsupported ''descriptor has no addressable Application collection'' | Some x \<Rightarrow> x) s1)))"
    unfolding enum_entry_def i by (simp only: Let_def prod.case s1_def [symmetric] cs) (cases pe; simp)
  moreover have "inventory_inv (n + 3) s1" using s1(1) by (rule inventory_inv_mono) simp
  ultimately show ?thesis using lists unusable by (cases pe) simp_all
qed

lemma enum_entries_ok:
  assumes "inventory_inv n s"
  shows "io_ok (enum_entries os b names s) (inventory_inv (Suc (n + 3 * length names)))"
  using assms
proof (induction names arbitrary: n s)
  case Nil
  then show ?case unfolding enum_entries.simps by (intro ok_return) (auto intro: inventory_inv_mono)
next
  case (Cons name names)
  show ?case unfolding enum_entries.simps
  proof (intro ok_split ok_return ok_bind [OF linux_inspect_ok], goal_cases)
    case 1
    with Cons.prems show ?case by (auto intro: inventory_inv_incomplete inventory_inv_mono)
  next
    case (2 x stop s')
    then have "inventory_inv (n + 3) s'" using enum_entry_inv [of x n s] Cons.prems by simp
    then show ?case by (rule inventory_inv_mono) simp
  next
    case (3 x stop s')
    then have "inventory_inv (n + 3) s'" using enum_entry_inv [of x n s] Cons.prems by simp
    from Cons.IH [OF this] show ?case by (simp add: algebra_simps)
  qed
qed

lemma enum_directory_ok:
  "io_ok (enum_directory eof os b d) (\<lambda>(s, e). inventory_inv 1024 s \<and> (e \<noteq> None \<longrightarrow> \<not> sn_Complete s))"
proof -
  have start: "inventory_inv 1 (enum_snapshot c)" for c by (simp add: inventory_inv_def enum_snapshot_def)
  have few: "io_ok (enum_entries os b names s) (inventory_inv 1024)" if "length names \<le> 128" "inventory_inv 2 s" for names s
    using enum_entries_ok [OF that(2)] by (rule ok_conseq) (use that(1) in \<open>auto intro: inventory_inv_mono\<close>)
  have "inventory_inv 1024 (enum_snapshot c)" for c using start by (rule inventory_inv_mono) simp
  moreover have "inventory_inv 2 (enum_snapshot c)" for c using start by (rule inventory_inv_mono) simp
  moreover have "inventory_inv 2 (incomplete e (enum_snapshot c))" for e c using inventory_inv_incomplete [OF start] by (simp add: numeral_2_eq_2)
  ultimately show ?thesis unfolding enum_directory_def
    by (intro ok_bind [OF ok_ask] ok_split ok_return ok_bind [where P = "inventory_inv 1024"] few)
      (auto simp: MaxInventoryDevices_def enum_snapshot_def)
qed

lemma linux_Enumerate_ok:
  "io_ok (linux_Enumerate eof os b) (\<lambda>(s, e). inventory_inv 1024 s \<and> (e \<noteq> None \<longrightarrow> \<not> sn_Complete s))"
  unfolding linux_Enumerate_def
  by (intro ok_bind [OF ok_try [OF post_call]] ok_split ok_return ok_defer enum_directory_ok)
    (auto simp: inventory_inv_def enum_snapshot_def)

subsection \<open>Report input\<close>

text \<open>A report that \<open>Read\<close> returns is a native report of the descriptor, less its identifier.\<close>

definition report_read :: "'w linux_sys \<Rightarrow> linux_device \<Rightarrow> report \<Rightarrow> bool" where
  "report_read os d rep \<longleftrightarrow>
     rp_ID rep = rs_ID (rl_Input (ld_layout d)) \<and> int (length (rp_Data rep)) = rs_Size (rl_Input (ld_layout d)) \<and>
     returns (ly_Read os (ld_fd d) 4098) (if rp_ID rep = 0 then rp_Data rep else rp_ID rep # rp_Data rep)"

lemma read_report_ok:
  assumes "read_report d data = Inr (Some rep)" and "data \<noteq> []" and "returns (ly_Read os (ld_fd d) 4098) data"
  shows "report_read os d rep"
  using assms by (cases data) (auto simp: read_report_def report_read_def Let_def split: if_splits)

lemma read_turn_post: "io_post (read_turn os d deadline) (\<lambda>r. \<forall>rep. r = Some rep \<longrightarrow> report_read os d rep)"
proof -
  have native: "io_post (read_native os d) (\<lambda>r. \<forall>rep. r = Some rep \<longrightarrow> report_read os d rep)"
    unfolding read_native_def
    by (intro post_bind [OF post_try [OF post_call]] post_split post_prim) (auto simp: MaxReportSize_def intro: read_report_ok)
  show ?thesis unfolding read_turn_def
    by (intro post_bind [OF post_call] post_bind [OF post_try [OF post_call]] post_split post_prim native) auto
qed

lemma read_loop_post:
  assumes "read_loop os d deadline w = Some (Inr rep, w')"
  shows "report_read os d rep"
proof -
  have "\<forall>rep. fst y = Inr rep \<longrightarrow> report_read os d rep" if "read_loop os d deadline w = Some y" for y
  proof (rule read_loop.raw_induct [where P = "\<lambda>os d deadline w y. \<forall>rep. fst y = Inr rep \<longrightarrow> report_read os d rep", OF _ that], goal_cases)
    case (1 read_loop os d deadline w y)
    obtain r v where y: "y = (r, v)" by fastforce
    from 1(2) consider e where "r = Inl e" | x w1 where "read_turn os d deadline w = Some (Inr x, w1)"
        "(case x of None \<Rightarrow> read_loop os d deadline w1 | Some z \<Rightarrow> Some (Inr z, w1)) = Some (r, v)"
      by (auto simp: y io_bind_conv)
    then show ?case
    proof cases
      case (2 x w1)
      then show ?thesis using 1(1) [of os d deadline w1 y] io_postD [OF read_turn_post 2(1)] y by (cases x) auto
    qed (simp add: y)
  qed
  from this [OF assms] show ?thesis by simp
qed

text \<open>The three ways a write ends.\<close>

lemma linux_Write_cases:
  assumes "linux_Write os d rep w = Some (Inr (out, e), w')"
  obtains (refused) "\<not> (rp_ID rep = rs_ID (rl_Output (ld_layout d)) \<and> int (length (rp_Data rep)) = rs_Size (rl_Output (ld_layout d)))"
      "out = OutcomeNotSubmitted" "e \<noteq> None" "w' = w"
  | (failed) n where "rp_ID rep = rs_ID (rl_Output (ld_layout d))" "int (length (rp_Data rep)) = rs_Size (rl_Output (ld_layout d))"
      "ly_Write os (ld_fd d) (rp_ID rep # rp_Data rep) w = Some (n, w')" "n \<noteq> Inr (int (length (rp_Data rep)) + 1)"
      "out = OutcomeUnknown" "e \<noteq> None"
  | (completed) "rp_ID rep = rs_ID (rl_Output (ld_layout d))" "int (length (rp_Data rep)) = rs_Size (rl_Output (ld_layout d))"
      "ly_Write os (ld_fd d) (rp_ID rep # rp_Data rep) w = Some (Inr (int (length (rp_Data rep)) + 1), w')"
      "out = OutcomeCompleted" "e = None"
proof (cases "rp_ID rep = rs_ID (rl_Output (ld_layout d)) \<and> int (length (rp_Data rep)) = rs_Size (rl_Output (ld_layout d))")
  case False
  with assms show thesis by (intro refused) (auto simp: linux_Write_def Let_def)
next
  case True
  then have out: "rs_ID (rl_Output (ld_layout d)) = rp_ID rep" "rs_Size (rl_Output (ld_layout d)) = int (length (rp_Data rep))"
    by simp_all
  obtain n where n: "ly_Write os (ld_fd d) (rp_ID rep # rp_Data rep) w = Some (n, w')"
    using assms by (auto simp: linux_Write_def Let_def io_bind_conv out)
  show thesis
  proof (cases "n = Inr (int (length (rp_Data rep)) + 1)")
    case True
    with n assms show thesis by (intro completed) (auto simp: linux_Write_def Let_def io_bind_def io_try_def out)
  next
    case False
    with n assms show thesis
      by (intro failed [of n]) (auto simp: linux_Write_def Let_def io_bind_def io_try_def out split: sum.splits if_splits)
  qed
qed

text \<open>A clock that moves on with every reading, and system calls that return.\<close>

definition clock_advances :: "'w linux_sys \<Rightarrow> ('w \<Rightarrow> int) \<Rightarrow> bool" where
  "clock_advances os clock \<longleftrightarrow>
     (\<forall>w. fst (ly_Now os w) = clock w \<and> clock w < clock (snd (ly_Now os w))) \<and>
     (\<forall>fd t. io_total (ly_Poll os fd t) \<and> (\<forall>v. io_inv (\<lambda>w. v \<le> clock w) (ly_Poll os fd t))) \<and>
     (\<forall>fd n. io_total (ly_Read os fd n) \<and> (\<forall>v. io_inv (\<lambda>w. v \<le> clock w) (ly_Read os fd n)))"

lemma read_turn_total: "clock_advances os clock \<Longrightarrow> io_total (read_turn os d deadline)"
  unfolding read_turn_def read_native_def read_timeout_def clock_advances_def
  by (auto intro!: total_intros split: option.split sum.split prod.split)

lemma read_turn_clock:
  assumes c: "clock_advances os clock" and run: "read_turn os d (Some t) w = Some (Inr x, w')"
  shows "clock w < t" "clock w < clock w'"
proof -
  obtain now w1 where now: "ly_Now os w = (now, w1)" by fastforce
  then have n: "now = clock w" "clock w < clock w1" using c by (auto simp: clock_advances_def) (metis fst_conv, metis snd_conv)
  let ?rest = "\<lambda>timeout. io_bind (io_try (ly_Poll os (ld_fd d) timeout)) (\<lambda>r. case r of
         Inl e \<Rightarrow> if errno_is e EINTR then io_return None else io_fail (linux_nativeError ''poll'' e)
       | Inr (n, revents) \<Rightarrow>
           if n = 0 then io_fail (driver_error ''read'' KindTimeout [])
           else if revents AND POLLNVAL \<noteq> 0 then io_fail (linux_nativeError ''poll'' (Errno EBADF))
           else if revents AND POLLIN = 0 then
             io_fail (linux_nativeError ''poll'' (Errno (if revents AND POLLHUP \<noteq> 0 then ENODEV else EIO)))
           else read_native os d)"
  have run': "now < t" "?rest (poll_timeout (t - now)) w1 = Some (Inr x, w')"
    using run now by (auto simp: read_turn_def read_timeout_def io_bind_conv [of "io_bind _ _"] io_bind_conv [of "io_ask _"] io_ask_def split: if_splits)
  have "io_inv (\<lambda>w. clock w1 \<le> clock w) (?rest timeout)" for timeout
    unfolding read_native_def using c by (intro inv_intros) (auto simp: clock_advances_def)
  from io_invD [OF this _ run'(2)] have "clock w1 \<le> clock w'" by simp
  with n run'(1) show "clock w < t" "clock w < clock w'" by simp_all
qed

lemma read_loop_returns:
  assumes c: "clock_advances os clock"
  shows "\<exists>y. read_loop os d (Some t) w = Some y"
proof (induction "nat (t - clock w)" arbitrary: w rule: less_induct)
  case less
  from read_turn_total [OF c] obtain r w1 where turn: "read_turn os d (Some t) w = Some (r, w1)" by (rule io_totalE)
  show ?case
  proof (cases r)
    case (Inl e)
    with turn show ?thesis by (subst read_loop.simps) simp
  next
    case (Inr x)
    show ?thesis
    proof (cases x)
      case None
      have "nat (t - clock w1) < nat (t - clock w)" using read_turn_clock [OF c turn [unfolded Inr]] by simp
      from less [OF this] turn Inr None show ?thesis by (subst read_loop.simps) simp
    next
      case (Some rep)
      with turn Inr show ?thesis by (subst read_loop.simps) simp
    qed
  qed
qed

lemma poll_timeout_bounds:
  "0 < r \<Longrightarrow> r \<le> 2147483647 * 1000000 \<Longrightarrow> r \<le> poll_timeout r * 1000000 \<and> poll_timeout r * 1000000 < r + 1000000"
proof -
  assume r: "0 < r" "r \<le> 2147483647 * 1000000"
  define q m where "q = r div 1000000" and "m = r mod 1000000"
  have "r = q * 1000000 + m" "0 \<le> m" "m < 1000000" by (simp_all add: q_def m_def)
  then show ?thesis using r by (auto simp: poll_timeout_def Let_def q_def [symmetric] m_def [symmetric])
qed

subsection \<open>A small system\<close>

text \<open>A machine with one hidraw node, a Bluetooth FIDO authenticator. Its world is the table of open files with
  their paths and a clock; the device always has a report of zeros, preceded by an interrupted poll on every second reading of the clock.\<close>

record sample_world =
  sw_files :: "(nat \<times> string) list"
  sw_clock :: int

definition sample_text :: "string \<Rightarrow> bytes" where
  "sample_text = map (\<lambda>c. of_nat (of_char c))"

definition sample_content :: "string \<Rightarrow> bytes option" where
  "sample_content p = map_of
     [(''/sys/class/hidraw/hidraw0/dev'', sample_text ''240:7''),
      (''/sys/class/hidraw/hidraw0/uevent'', sample_text ''DEVNAME=hidraw0''),
      (''/sys/class/hidraw/hidraw0/device/uevent'', sample_text ''HID_ID=0005:00001050:00000407''),
      (''/sys/class/hidraw/hidraw0/device/report_descriptor'', fido_descriptor)] p"

definition sample_open :: "string \<Rightarrow> (sample_world, int) io" where
  "sample_open p w =
     (let fd = Suc (sum_list (map fst (sw_files w))) in Some (Inr (int fd), w\<lparr>sw_files := (fd, p) # sw_files w\<rparr>))"

definition sample_stat :: file_stat where
  "sample_stat = \<lparr>st_Mode = 0x2180, st_Rdev = 247, st_Dev = 5, st_Ino = 9\<rparr>"

definition sample_os :: "sample_world linux_sys" where
  "sample_os =
     \<lparr>ly_Open = (\<lambda>p w. if sample_content p = None \<and> p \<noteq> classPath then Some (Inl (Errno ENOENT), w) else sample_open p w),
      ly_ReadDir = (\<lambda>f n w. (([''hidraw0''], None), w)),
      ly_ReadAll = (\<lambda>f n w. Some (case map_of (sw_files w) (nat f) of
         None \<Rightarrow> Inl (Errno EBADF)
       | Some p \<Rightarrow> (case sample_content p of None \<Rightarrow> Inl (Errno EBADF) | Some data \<Rightarrow> Inr (take n data)), w)),
      ly_Close = (\<lambda>f w. (None, w\<lparr>sw_files := filter (\<lambda>(fd, p). int fd \<noteq> f) (sw_files w)\<rparr>)),
      ly_EvalSymlinks = (\<lambda>p w. Some (if p = ''/sys/class/hidraw/hidraw0'' then Inr ''/sys/devices/bt/hidraw0'' else Inl (Errno ENOENT), w)),
      ly_OsStat = (\<lambda>p w. (Some (Errno ENOENT), w)),
      ly_Stat = (\<lambda>p w. Some (Inr sample_stat, w)),
      ly_Mkdev = (\<lambda>a b. ucast a + ucast b), ly_Major = ucast, ly_Minor = ucast,
      ly_OpenPath = sample_open, ly_OpenDevice = sample_open,
      ly_Fstat = (\<lambda>f w. Some (Inr sample_stat, w)),
      ly_RawInfo = (\<lambda>f w. Some (Inr \<lparr>ri_Bustype = 5, ri_Vendor = 0x1050, ri_Product = 0x0407\<rparr>, w)),
      ly_DescMax = 4096,
      ly_DescSize = (\<lambda>f w. Some (Inr (int (length fido_descriptor)), w)),
      ly_GetDesc = (\<lambda>f n w. Some (Inr (n, fido_descriptor), w)),
      ly_RawUniq = (\<lambda>f n w. Some (Inl (Errno EINVAL), w)),
      ly_Now = (\<lambda>w. (sw_clock w, w\<lparr>sw_clock := sw_clock w + 1\<rparr>)),
      ly_Poll = (\<lambda>f t w. Some (if even (sw_clock w) then Inl (Errno EINTR) else Inr (1, 1), w)),
      ly_Read = (\<lambda>f n w. Some (Inr (replicate 64 0), w)),
      ly_Write = (\<lambda>f b w. Some (Inr (int (length b)), w))\<rparr>"

definition sample_fds :: "sample_world \<Rightarrow> int set" where
  "sample_fds w = (int \<circ> fst) ` set (sw_files w)"

definition sample_hidraw :: endpoint where
  "sample_hidraw = zero_endpoint\<lparr>ep_ID := ''linux:/sys/devices/bt/hidraw0#collection=0'', ep_Path := ''/dev/hidraw0''\<rparr>"

lemma sample_fresh: "(Suc (sum_list (map fst xs)), p) \<notin> set xs" "x \<in> set xs \<Longrightarrow> fst x \<noteq> Suc (sum_list (map fst (xs :: (nat \<times> string) list)))"
proof -
  show "x \<in> set xs \<Longrightarrow> fst x \<noteq> Suc (sum_list (map fst xs))" for x :: "nat \<times> string" and xs
    using member_le_sum_list [of "fst x" "map fst xs"] by auto
  then show "(Suc (sum_list (map fst xs)), p) \<notin> set xs" by fastforce
qed

lemma sample_filter: "filter (\<lambda>(fd, p). int fd \<noteq> int (Suc (sum_list (map fst xs)))) xs = (xs :: (nat \<times> string) list)"
  by (rule filter_True) (use sample_fresh(2) in fastforce)

lemma sample_nat: "nat (1 + int n) = Suc n"
  by simp

lemma sample_zero: "char_of (48 :: nat) = CHR ''0''"
  by code_simp

lemma sample_read:
  "sample_content p = Some data \<Longrightarrow> length data \<le> limit \<Longrightarrow> readBounded sample_os p limit w = Some (Inr data, w)"
  "sample_content p = None \<Longrightarrow> p \<noteq> classPath \<Longrightarrow> readBounded sample_os p limit w = Some (Inl (Errno ENOENT), w)"
  using sample_filter [of "sw_files w"] sample_nat [of "sum_list (map fst (sw_files w))"]
  by (simp_all add: readBounded_def sample_os_def sample_open_def io_bind_def io_defer_eq Let_def)

lemma sample_paths:
  "path_Join [classPath, path_Base ''/sys/devices/bt/hidraw0''] = ''/sys/class/hidraw/hidraw0''"
  "path_Join [''/sys/class/hidraw/hidraw0'', ''dev''] = ''/sys/class/hidraw/hidraw0/dev''"
  "path_Join [''/sys/class/hidraw/hidraw0'', ''uevent''] = ''/sys/class/hidraw/hidraw0/uevent''"
  "path_Join [''/sys/class/hidraw/hidraw0'', ''device''] = ''/sys/class/hidraw/hidraw0/device''"
  "path_Join [''/sys/class/hidraw/hidraw0/device'', ''uevent''] = ''/sys/class/hidraw/hidraw0/device/uevent''"
  "path_Join [''/sys/class/hidraw/hidraw0/device'', ''report_descriptor''] = ''/sys/class/hidraw/hidraw0/device/report_descriptor''"
  "path_Join [''/dev'', ''hidraw0''] = ''/dev/hidraw0''"
  by code_simp+

lemma sample_address: "open_address sample_hidraw = Some (''/sys/devices/bt/hidraw0'', 0)"
  by (simp add: open_address_def sample_hidraw_def TrimPrefix_def Atoi_def ParseUint_def digit_value_def endpointID_def
    Itoa_def nat_decimal.simps digit_char_def MaxMetadataSize_def zero_endpoint_def sample_zero)

lemma sample_contents:
  "sample_content ''/sys/class/hidraw/hidraw0/dev'' = Some (sample_text ''240:7'')"
  "sample_content ''/sys/class/hidraw/hidraw0/uevent'' = Some (sample_text ''DEVNAME=hidraw0'')"
  "sample_content ''/sys/class/hidraw/hidraw0/device/uevent'' = Some (sample_text ''HID_ID=0005:00001050:00000407'')"
  "sample_content ''/sys/class/hidraw/hidraw0/device/report_descriptor'' = Some fido_descriptor"
  by (simp_all add: sample_content_def)

lemma bytes_string_sample: "bytes_string (sample_text s) = s"
proof -
  have "unat (of_nat (of_char c) :: byte) = of_char c" for c :: char
  proof -
    have "(of_char c :: nat) < 256" by (rule nat_of_char_less_256)
    then show ?thesis by (simp add: unat_of_nat)
  qed
  then show ?thesis by (simp add: bytes_string_def sample_text_def comp_def)
qed


definition sample_entry :: inventory_entry where
  "sample_entry =
     \<lparr>ie_endpoint = zero_endpoint\<lparr>ep_Path := ''/dev/hidraw0'', ep_Bus := BusBluetooth, ep_VendorID := known 0x1050, ep_ProductID := known 0x0407\<rparr>,
      ie_sysPath = ''/sys/devices/bt/hidraw0'', ie_dev = 247, ie_descriptor = fido_descriptor, ie_hidUnique = unknown_text\<rparr>"

lemma sample_sizes: "length (sample_text s) = length s" "length fido_descriptor \<le> 100"
  by (simp_all add: sample_text_def fido_descriptor_def)

lemma sample_dev: "inspect_dev sample_os ''/sys/class/hidraw/hidraw0'' w = Some (Inr (247, []), w)"
  by (simp add: inspect_dev_def sample_paths readText_def io_bind_def io_try_def sample_read sample_contents sample_sizes
    MaxMetadataSize_def bytes_string_sample TrimSuffix_def suffix_to_prefix ParseUint_def digit_value_def)
   (simp add: sample_os_def)

lemma sample_resolve: "resolveNode sample_os p 247 w = Some (Inr (p, None), w)"
  by (simp add: resolveNode_def io_bind_def io_try_def sample_os_def stat_is_def sample_stat_def S_IFMT_def S_IFCHR_def)

lemma sample_node: "inspect_node sample_os ''/sys/class/hidraw/hidraw0'' 247 w = Some (Inr (''/dev/hidraw0'', []), w)"
proof -
  have "read_props sample_os op ''/sys/class/hidraw/hidraw0/uevent'' w = Some (Inr ([''DEVNAME'' \<mapsto> ''hidraw0''], []), w)" for op
    by (simp add: read_props_def readProperties_def io_bind_def io_try_def sample_read sample_contents sample_sizes
      MaxMetadataSize_def bytes_string_sample)
  then show ?thesis
    by (simp add: inspect_node_def sample_paths lookup_text_def sample_resolve MaxMetadataSize_def io_bind_def)
qed

lemma sample_props: "read_props sample_os op ''/sys/class/hidraw/hidraw0/device/uevent'' w =
   Some (Inr ([''HID_ID'' \<mapsto> ''0005:00001050:00000407''], []), w)"
  by (simp add: sample_paths read_props_def readProperties_def io_bind_def io_try_def sample_read sample_contents sample_sizes
    MaxMetadataSize_def bytes_string_sample lookup_text_def)

lemma sample_id: "inspect_id ''0005:00001050:00000407'' ep = (ep\<lparr>ep_Bus := BusBluetooth, ep_VendorID := known 0x1050, ep_ProductID := known 0x0407\<rparr>, [])"
  by (simp add: inspect_id_def ParseUint_def digit_value_def busType_def)

lemma sample_inspect: "linux_inspect sample_os ''/sys/class/hidraw/hidraw0'' b w = Some (Inr (sample_entry, None), w)"
proof -
  have e: "ly_EvalSymlinks sample_os ''/sys/class/hidraw/hidraw0'' w = Some (Inr ''/sys/devices/bt/hidraw0'', w)"
    "\<exists>e. ly_EvalSymlinks sample_os ''/sys/class/hidraw/hidraw0/device'' w = Some (Inl e, w)" by (simp_all add: sample_os_def)
  have d: "readBounded sample_os ''/sys/class/hidraw/hidraw0/device/report_descriptor'' MaxDescriptorSize w = Some (Inr fido_descriptor, w)"
    using sample_sizes(2) by (intro sample_read sample_contents) (simp add: MaxDescriptorSize_def)
  show ?thesis
    using e(2) by (auto simp: linux_inspect_def io_bind_def io_try_def e(1) inspect_entry_def sample_paths sample_dev sample_node sample_props
      lookup_text_def sample_id inspect_strings_def readUSBMetadata_def d errors_join_def sample_entry_def zero_endpoint_def MaxMetadataSize_def)
qed


definition sample_opened :: linux_device where
  "sample_opened =
     \<lparr>ld_fd = 2, ld_endpoint = (ie_endpoint sample_entry)\<lparr>ep_ID := ep_ID sample_hidraw, ep_Usage := known \<lparr>us_Page = 0xF1D0, us_ID = 1\<rparr>\<rparr>,
      ld_layout = \<lparr>rl_Input = \<lparr>rs_ID = 0, rs_Size = 64\<rparr>, rl_Output = \<lparr>rs_ID = 0, rs_Size = 64\<rparr>\<rparr>\<rparr>"

abbreviation sample_start :: sample_world where
  "sample_start \<equiv> \<lparr>sw_files = [], sw_clock = 0\<rparr>"

lemma sample_verify:
  "verifySysfs sample_os ''/sys/class/hidraw/hidraw0'' \<lparr>an_fd = 1, an_path = ''/sys/devices/bt/hidraw0'', an_stat = sample_stat\<rparr> sample_entry w =
   Some (Inr (), w)"
  by (simp add: verifySysfs_def io_bind_def io_wrap_def sample_os_def sample_entry_def)

lemma sample_descriptor: "readDescriptor sample_os fd w = Some (Inr fido_descriptor, w)"
  by (simp add: readDescriptor_def io_bind_def io_wrap_def sample_os_def fido_descriptor_def MaxDescriptorSize_def)

lemma sample_identity: "open_identity (nativeOpenSystem sample_os) fd sample_entry w = Some (Inr fido_descriptor, w)"
proof -
  have "ox_info (nativeOpenSystem sample_os) fd w = Some (Inr \<lparr>ri_Bustype = 5, ri_Vendor = 0x1050, ri_Product = 0x0407\<rparr>, w)"
    "ox_descriptor (nativeOpenSystem sample_os) fd w = Some (Inr fido_descriptor, w)"
    "ox_unique (nativeOpenSystem sample_os) fd w = Some (Inl (Errno EINVAL), w)"
    by (simp_all add: nativeOpenSystem_def sample_descriptor) (simp_all add: readUnique_def io_bind_def sample_os_def)
  then show ?thesis
    by (simp add: open_identity_def io_bind_def io_wrap_def io_try_def sample_entry_def zero_endpoint_def busType_def errno_is_def)
qed

lemma sample_device: "open_device sample_hidraw 0 2 sample_entry fido_descriptor = Inr sample_opened"
  by (simp add: open_device_def Parse_fido sample_opened_def sample_hidraw_def driver_matches_def sample_entry_def zero_endpoint_def)

lemma sample_run: "linux_Open sample_os sample_hidraw sample_start = Some (Inr sample_opened, \<lparr>sw_files = [(2, ''/dev/hidraw0'')], sw_clock = 0\<rparr>)"
proof -
  let ?sys = "nativeOpenSystem sample_os" and ?path = "''/sys/class/hidraw/hidraw0''"
  let ?anchor = "\<lparr>an_fd = 1, an_path = ''/sys/devices/bt/hidraw0'', an_stat = sample_stat\<rparr>"
  have anchor: "ox_anchor ?sys ?path sample_start = Some (Inr ?anchor, \<lparr>sw_files = [(1, ?path)], sw_clock = 0\<rparr>)"
    by (simp add: nativeOpenSystem_def anchorSysfs_def io_wrap_def io_bind_def io_on_error_eq sample_os_def sample_open_def)
  have sys: "ox_inspect ?sys ?path True w = Some (Inr (sample_entry, None), w)" "ox_verify ?sys ?path ?anchor sample_entry w = Some (Inr (), w)"
    "ox_fstat ?sys fd w = Some (Inr sample_stat, w)" for w fd
    by (simp_all add: nativeOpenSystem_def sample_inspect sample_verify) (simp add: sample_os_def)
  have opened: "ox_open ?sys ''/dev/hidraw0'' \<lparr>sw_files = [(1, ?path)], sw_clock = 0\<rparr> =
      Some (Inr 2, \<lparr>sw_files = [(2, ''/dev/hidraw0''), (1, ?path)], sw_clock = 0\<rparr>)"
    by (simp add: nativeOpenSystem_def sample_os_def sample_open_def)
  have close: "snd (ox_close ?sys 1 \<lparr>sw_files = [(2, ''/dev/hidraw0''), (1, ?path)], sw_clock = 0\<rparr>) =
      \<lparr>sw_files = [(2, ''/dev/hidraw0'')], sw_clock = 0\<rparr>"
    by (simp add: nativeOpenSystem_def sample_os_def)
  have entry: "ie_sysPath sample_entry = ''/sys/devices/bt/hidraw0''" "ep_Path (ie_endpoint sample_entry) = ''/dev/hidraw0''"
    "ep_Path sample_hidraw = ''/dev/hidraw0''" by (simp_all add: sample_entry_def sample_hidraw_def)
  have "open_checked ?sys sample_hidraw ?path ''/sys/devices/bt/hidraw0'' 0 ?anchor sample_entry 2 w = Some (Inr sample_opened, w)" for w
    by (simp add: open_checked_def io_bind_def io_wrap_def sys open_inspect_def sample_identity sample_device)
      (simp add: stat_is_def sample_entry_def sample_stat_def S_IFMT_def S_IFCHR_def)
  then have "open_anchored ?sys sample_hidraw ?path ''/sys/devices/bt/hidraw0'' 0 ?anchor \<lparr>sw_files = [(1, ?path)], sw_clock = 0\<rparr> =
      Some (Inr sample_opened, \<lparr>sw_files = [(2, ''/dev/hidraw0''), (1, ?path)], sw_clock = 0\<rparr>)"
    using opened entry by (simp add: open_anchored_def open_inspect_def io_bind_def io_wrap_def sys io_on_error_eq)
  then show ?thesis
    unfolding linux_Open_def openWithSystem_def sample_address
    using anchor close by (simp add: sample_paths io_bind_def io_defer_eq Let_def)
qed

lemma sample_linux_fds: "linux_fds sample_os sample_fds"
proof -
  have o: "opens sample_fds (\<lambda>fd. fd) (sample_open p)" for p
    using sample_fresh(2) by (fastforce simp: opens_def sample_open_def sample_fds_def Let_def)
  then have "opens sample_fds (\<lambda>fd. fd) (\<lambda>w. if b then Some (Inl e, w) else sample_open p w)" for p b e
    by (cases b) (simp_all add: opens_def)
  moreover have "closes sample_fds (\<lambda>fd. fd) (\<lambda>f w. (None, w\<lparr>sw_files := filter (\<lambda>(fd, p). int fd \<noteq> f) (sw_files w)\<rparr>))"
    by (force simp: closes_def sample_fds_def)
  ultimately show ?thesis using o by (simp add: linux_fds_def sample_os_def io_keeps_def ask_keeps_def)
qed

lemma sample_clock: "clock_advances sample_os sw_clock"
  by (simp add: clock_advances_def sample_os_def io_total_def io_inv_def)

lemma sample_directory:
  "ly_Open sample_os classPath sample_start = Some (Inr 1, \<lparr>sw_files = [(1, classPath)], sw_clock = 0\<rparr>)"
  "snd (ly_Close sample_os 1 \<lparr>sw_files = [(1, classPath)], sw_clock = 0\<rparr>) = sample_start"
  by (simp_all add: sample_os_def sample_open_def)

lemma sample_listing: "ly_ReadDir sample_os f n w = (([''hidraw0''], None), w)"
  by (simp add: sample_os_def)

definition sample_listed :: hid_snapshot where
  "sample_listed = \<lparr>sn_Endpoints = [ld_endpoint sample_opened], sn_Complete = True, sn_Warnings = []\<rparr>"

lemma sample_enum_entry: "enum_entry (sample_entry, None) (enum_snapshot True) = (False, sample_listed)"
  by (simp add: enum_entry_def Inventory_def Parse_fido enum_snapshot_def MaxInventoryEndpoints_def add_endpoint_def sample_listed_def
      sample_opened_def sample_hidraw_def sample_entry_def)
    (simp add: endpointID_def Itoa_def nat_decimal.simps digit_char_def sample_zero)

lemma sample_enumerate: "linux_Enumerate eof sample_os b sample_start = Some (Inr (sample_listed, None), sample_start)"
proof -
  have join: "path_Join [classPath, ''hidraw0''] = ''/sys/class/hidraw/hidraw0''" by code_simp
  have "enum_entries sample_os b [''hidraw0''] (enum_snapshot True) w = Some (Inr sample_listed, w)" for w
    by (simp add: join io_bind_def sample_inspect sample_enum_entry) (simp add: enum_snapshot_def MaxInventoryEndpoints_def)
  then have "enum_directory eof sample_os b d w = Some (Inr (sample_listed, None), w)" for d w
    by (simp add: enum_directory_def io_bind_def io_ask_def sample_listing MaxInventoryDevices_def del: enum_entries.simps)
  then show ?thesis
    by (simp add: linux_Enumerate_def io_bind_def io_try_def io_defer_eq sample_directory del: One_nat_def)
qed

subsection \<open>Properties\<close>





text \<open>Report input and output on Linux. A report that \<open>Read\<close> returns has the identifier and exactly the size
  of the device's input layout and is, with its identifier in front when it has one, a report that one native read
  returned. \<open>Write\<close> hands an ill-formed report to no system call; a well-formed one is written by one call, with the
  identifier in front, and the outcome is completed exactly when the kernel took all of it.\<close>

theorem linux_report_io:
  "(\<forall>rep w'. linux_Read os d wait w = Some (Inr rep, w') \<longrightarrow> report_read os d rep) \<and>
   (\<forall>out e w'. linux_Write os d rep w = Some (Inr (out, e), w') \<longrightarrow>
      (out = OutcomeNotSubmitted \<longleftrightarrow> \<not> (rp_ID rep = rs_ID (rl_Output (ld_layout d)) \<and> int (length (rp_Data rep)) = rs_Size (rl_Output (ld_layout d)))) \<and>
      (out = OutcomeNotSubmitted \<longrightarrow> w' = w) \<and>
      (out \<noteq> OutcomeNotSubmitted \<longrightarrow> (\<exists>n. ly_Write os (ld_fd d) (rp_ID rep # rp_Data rep) w = Some (n, w') \<and>
         (out = OutcomeCompleted \<longleftrightarrow> n = Inr (int (length (rp_Data rep)) + 1)))) \<and>
      (e = None \<longleftrightarrow> out = OutcomeCompleted))"
proof (intro conjI allI impI)
  fix rep w' assume "linux_Read os d wait w = Some (Inr rep, w')"
  then show "report_read os d rep"
    by (auto simp: linux_Read_def io_bind_conv io_ask_conv intro: read_loop_post split: if_splits)
qed (blast dest: linux_Write_cases)+

text \<open>The device of the sample machine sends zeros and takes every write.\<close>

theorem linux_report_io_witness:
  "\<exists>w'. linux_Write sample_os sample_opened \<lparr>rp_ID = 0, rp_Data = replicate 64 7\<rparr> sample_start = Some (Inr (OutcomeCompleted, None), w') \<and>
     ly_Write sample_os 2 (0 # replicate 64 7) sample_start = Some (Inr 65, w')"
proof -
  obtain w' where w: "linux_Write sample_os sample_opened \<lparr>rp_ID = 0, rp_Data = replicate 64 7\<rparr> sample_start = Some (Inr (OutcomeCompleted, None), w')"
    by (simp add: linux_Write_def sample_opened_def io_bind_def io_try_def) (simp add: sample_os_def)
  from linux_report_io [where os = sample_os and d = sample_opened and w = sample_start and rep = "\<lparr>rp_ID = 0, rp_Data = replicate 64 7\<rparr>"] w
  show ?thesis by (force simp: sample_opened_def)
qed

text \<open>Reading with a deadline ends: when the system calls return and the clock moves on with every reading, a
  \<open>Read\<close> with a positive duration returns, however often it is interrupted or gets reports of other collections; every
  poll waits until the deadline, rounded up to the next millisecond (or for the longest time a poll can wait).\<close>

theorem linux_read_ends:
  assumes "clock_advances os clock" and "0 < wait"
  shows "(\<exists>r w'. linux_Read os d wait w = Some (r, w')) \<and>
    (\<forall>t w v w'. read_timeout os (Some t) w = Some (Inr v, w') \<longrightarrow>
       (let remaining = t - clock w in 0 < remaining \<and> (remaining \<le> 2147483647 * 1000000 \<longrightarrow>
          remaining \<le> v * 1000000 \<and> v * 1000000 < remaining + 1000000)))"
proof (intro conjI allI impI)
  obtain now w1 where now: "ly_Now os w = (now, w1)" by fastforce
  from read_loop_returns [OF assms(1), of d "now + wait" w1] obtain y where "read_loop os d (Some (now + wait)) w1 = Some y" by blast
  with now assms(2) show "\<exists>r w'. linux_Read os d wait w = Some (r, w')"
    by (cases y) (simp add: linux_Read_def io_bind_def io_ask_def)
next
  fix t w v w' assume "read_timeout os (Some t) w = Some (Inr v, w')"
  moreover have "fst (ly_Now os w) = clock w" using assms(1) by (simp add: clock_advances_def)
  ultimately have "0 < t - clock w" "v = poll_timeout (t - clock w)"
    by (auto simp: read_timeout_def io_bind_conv io_ask_conv split: if_splits)
  with poll_timeout_bounds [of "t - clock w"] show "let remaining = t - clock w in 0 < remaining \<and> (remaining \<le> 2147483647 * 1000000 \<longrightarrow>
      remaining \<le> v * 1000000 \<and> v * 1000000 < remaining + 1000000)"
    unfolding Let_def by blast
qed

theorem linux_read_ends_witness: "\<exists>r w'. linux_Read sample_os sample_opened 1000 sample_start = Some (r, w')"
  using linux_read_ends [OF sample_clock, of 1000 sample_opened sample_start] by simp

end
