(* ===== verification/WindowsHid.thy ===== *)
theory WindowsHid
  imports NativeDriver
begin

text \<open>
  The Windows HID driver, \<open>pkg/hid/internal/windows\<close>: the SetupAPI inventory with its early filter
  (\<open>inventory_windows.go\<close>), the HIDClass capabilities (\<open>native_windows.go\<close>), and the open transaction with overlapped
  report input and output (\<open>device_windows.go\<close>). The native procedures and the functions of \<open>golang.org/x/sys/windows\<close> are
  the fields of \<open>win_sys\<close>.
\<close>

subsection \<open>The operating system\<close>

record win_caps =
  wc_Usage :: u16
  wc_UsagePage :: u16
  wc_InputLength :: u16
  wc_OutputLength :: u16

datatype win_string = WinSerial | WinManufacturer | WinProduct

text \<open>A native procedure answers its result, the last error and what it wrote through its pointers. Device information
  sets, handles, preparsed data and events are numbers; an interface (\<open>interfaceData\<close>) is a number too, and
  \<open>wy_Detail\<close> answers the required size, the buffer and the device instance. \<open>wy_Start write handle event buffer\<close> is
  \<open>WriteFile\<close> or \<open>ReadFile\<close>; \<open>wy_Result\<close> is the blocking \<open>GetOverlappedResult\<close>, with the number of bytes and the contents of
  the buffer at completion.\<close>

type_synonym ('w, 'a) win_call = "'w \<Rightarrow> (u64 \<times> u64 \<times> 'a) \<times> 'w"

record 'w win_sys =
  wy_LoadHid :: "'w \<Rightarrow> err option \<times> 'w"
  wy_ClassDevs :: "('w, int) io"
  wy_DestroyList :: "int \<Rightarrow> 'w \<Rightarrow> err option \<times> 'w"
  wy_EnumInterfaces :: "int \<Rightarrow> nat \<Rightarrow> ('w, int) win_call"
  wy_DetailSize :: "int \<Rightarrow> int \<Rightarrow> ('w, u32) win_call"
  wy_Detail :: "int \<Rightarrow> int \<Rightarrow> u32 \<Rightarrow> ('w, u32 \<times> u16 list \<times> u32) win_call"
  wy_Property :: "int \<Rightarrow> int \<Rightarrow> nat \<Rightarrow> ('w, u16 \<times> u32 \<times> u32) win_call"
  wy_DeviceID :: "u32 \<Rightarrow> 'w \<Rightarrow> (u64 \<times> u16 list) \<times> 'w"
  wy_Parent :: "u32 \<Rightarrow> 'w \<Rightarrow> (u64 \<times> u32) \<times> 'w"
  wy_Attributes :: "int \<Rightarrow> ('w, u16 \<times> u16) win_call"
  wy_Preparsed :: "int \<Rightarrow> ('w, int) win_call"
  wy_FreePreparsed :: "int \<Rightarrow> 'w \<Rightarrow> err option \<times> 'w"
  wy_Caps :: "int \<Rightarrow> 'w \<Rightarrow> (u64 \<times> win_caps) \<times> 'w"
  wy_InitReport :: "nat \<Rightarrow> nat \<Rightarrow> int \<Rightarrow> u16 \<Rightarrow> 'w \<Rightarrow> u64 \<times> 'w"
  wy_String :: "int \<Rightarrow> win_string \<Rightarrow> ('w, u16 list) win_call"
  wy_UTF16ToString :: "u16 list \<Rightarrow> string"
  wy_UTF16Ptr :: "string \<Rightarrow> u16 list res"
  wy_CreateFile :: "u16 list \<Rightarrow> u32 \<Rightarrow> bool \<Rightarrow> ('w, int) io"
  wy_CloseHandle :: "int \<Rightarrow> 'w \<Rightarrow> err option \<times> 'w"
  wy_CreateEvent :: "('w, int) io"
  wy_Start :: "bool \<Rightarrow> int \<Rightarrow> int \<Rightarrow> bytes \<Rightarrow> 'w \<Rightarrow> err option \<times> 'w"
  wy_Wait :: "int \<Rightarrow> u32 \<Rightarrow> ('w, u32) io"
  wy_Cancel :: "int \<Rightarrow> int \<Rightarrow> 'w \<Rightarrow> err option \<times> 'w"
  wy_Result :: "int \<Rightarrow> int \<Rightarrow> ('w, u32 \<times> bytes) io"

text \<open>Win32 error codes and constants.\<close>

definition ERROR_FILE_NOT_FOUND :: u64 where "ERROR_FILE_NOT_FOUND = 2"
definition ERROR_PATH_NOT_FOUND :: u64 where "ERROR_PATH_NOT_FOUND = 3"
definition ERROR_ACCESS_DENIED :: u64 where "ERROR_ACCESS_DENIED = 5"
definition ERROR_INVALID_DATA :: u64 where "ERROR_INVALID_DATA = 13"
definition ERROR_GEN_FAILURE :: u64 where "ERROR_GEN_FAILURE = 31"
definition ERROR_SHARING_VIOLATION :: u64 where "ERROR_SHARING_VIOLATION = 32"
definition ERROR_INSUFFICIENT_BUFFER :: u64 where "ERROR_INSUFFICIENT_BUFFER = 122"
definition ERROR_BUSY :: u64 where "ERROR_BUSY = 170"
definition ERROR_NO_MORE_ITEMS :: u64 where "ERROR_NO_MORE_ITEMS = 259"
definition ERROR_NO_SUCH_DEVICE :: u64 where "ERROR_NO_SUCH_DEVICE = 433"
definition ERROR_OPERATION_ABORTED :: u64 where "ERROR_OPERATION_ABORTED = 995"
definition ERROR_IO_PENDING :: u64 where "ERROR_IO_PENDING = 997"
definition ERROR_DEVICE_NOT_CONNECTED :: u64 where "ERROR_DEVICE_NOT_CONNECTED = 1167"
definition ERROR_NOT_FOUND :: u64 where "ERROR_NOT_FOUND = 1168"
definition ERROR_PRIVILEGE_NOT_HELD :: u64 where "ERROR_PRIVILEGE_NOT_HELD = 1314"
definition DEVPROP_TYPE_UINT16 :: u32 where "DEVPROP_TYPE_UINT16 = 5"
definition GENERIC_READ_WRITE :: u32 where "GENERIC_READ_WRITE = 0xc0000000"
definition WAIT_TIMEOUT :: u32 where "WAIT_TIMEOUT = 258"
definition INFINITE :: u32 where "INFINITE = 0xffffffff"

subsection \<open>native\_windows.go\<close>

definition hidpSuccess :: u32 where "hidpSuccess = 0x00110000"
definition hidpReportDoesNotExist :: u32 where "hidpReportDoesNotExist = 0xc0110010"

text \<open>\<open>boolCall\<close>: HidD routines (the flag) return a BOOLEAN, whose upper bits are undefined.\<close>

definition bool_error :: "bool \<Rightarrow> u64 \<Rightarrow> u64 \<Rightarrow> err option" where
  "bool_error boolean result lastError =
     (if (if boolean then result AND 0xff else result) \<noteq> 0 then None
      else if lastError = 0 then Some (Errno ERROR_GEN_FAILURE) else Some (Errno lastError))"

definition boolCall :: "bool \<Rightarrow> ('w, 'a) win_call \<Rightarrow> ('w, 'a) io" where
  "boolCall boolean q =
     io_bind (io_ask q) (\<lambda>(result, lastError, x).
       case bool_error boolean result lastError of None \<Rightarrow> io_return x | Some e \<Rightarrow> io_fail e)"

definition win_nativeError :: "string \<Rightarrow> err \<Rightarrow> err" where
  "win_nativeError op e =
     (let kind = (if errno_is e ERROR_ACCESS_DENIED \<or> errno_is e ERROR_PRIVILEGE_NOT_HELD then KindPermission
                  else if errno_is e ERROR_DEVICE_NOT_CONNECTED \<or> errno_is e ERROR_NO_SUCH_DEVICE \<or>
                          errno_is e ERROR_FILE_NOT_FOUND \<or> errno_is e ERROR_PATH_NOT_FOUND then KindRemoved
                  else if errno_is e ERROR_SHARING_VIOLATION \<or> errno_is e ERROR_BUSY then KindBusy else KindIO);
          code = (case errors_as as_Errno e of None \<Rightarrow> 0 | Some n \<Rightarrow> n)
      in DriverError op kind ''win32'' code [] (Some e))"

definition hidpError :: "string \<Rightarrow> u64 \<Rightarrow> err" where
  "hidpError op status =
     DriverError op KindUnsupported ''hidp'' (ucast (ucast status :: u32)) ''HID parser rejected capabilities'' None"

definition readCaps :: "'w win_sys \<Rightarrow> int \<Rightarrow> ('w, win_caps \<times> int) io" where
  "readCaps os handle =
     io_bind (io_wrap (win_nativeError ''HidD_GetPreparsedData'') (boolCall True (wy_Preparsed os handle))) (\<lambda>preparsed.
       io_bind (io_ask (wy_Caps os preparsed)) (\<lambda>(status, caps).
         if (ucast status :: u32) \<noteq> hidpSuccess
         then io_bind (io_ask (wy_FreePreparsed os preparsed)) (\<lambda>_. io_fail (hidpError ''HidP_GetCaps'' status))
         else io_return (caps, preparsed)))"

text \<open>The probe of the report identifiers: how many exist, and the last one.\<close>

fun report_probe :: "'w win_sys \<Rightarrow> int \<Rightarrow> nat \<Rightarrow> u16 \<Rightarrow> nat list \<Rightarrow> nat \<Rightarrow> report_spec \<Rightarrow> ('w, nat \<times> report_spec) io" where
  "report_probe os preparsed reportType len [] found spec = io_return (found, spec)"
| "report_probe os preparsed reportType len (i # ids) found spec =
     io_bind (io_ask (wy_InitReport os reportType i preparsed len)) (\<lambda>status.
       if (ucast status :: u32) = hidpSuccess
       then report_probe os preparsed reportType len ids (found + 1) \<lparr>rs_ID = of_nat i, rs_Size = uint len - 1\<rparr>
       else if (ucast status :: u32) = hidpReportDoesNotExist then report_probe os preparsed reportType len ids found spec
       else io_fail (hidpError ''HidP_InitializeReportForID'' status))"

definition reportSpec :: "'w win_sys \<Rightarrow> int \<Rightarrow> nat \<Rightarrow> u16 \<Rightarrow> ('w, report_spec) io" where
  "reportSpec os preparsed reportType len =
     (if len < 2 \<or> uint len - 1 > MaxReportSize
      then io_fail (driver_unsupported ''missing or oversized Input/Output report'')
      else io_bind (report_probe os preparsed reportType len [0..<256] 0 \<lparr>rs_ID = 0, rs_Size = 0\<rparr>) (\<lambda>(found, spec).
        if found \<noteq> 1 then io_fail (driver_unsupported ''collection does not have exactly one report ID per direction'')
        else io_return spec))"

text \<open>The text of a zero-terminated buffer.\<close>

definition terminated :: "u16 list \<Rightarrow> u16 list option" where
  "terminated buffer = (if 0 \<in> set buffer then Some (takeWhile (\<lambda>c. c \<noteq> 0) buffer) else None)"

definition stringProperty :: "'w win_sys \<Rightarrow> int \<Rightarrow> win_string \<Rightarrow> ('w, string field) io" where
  "stringProperty os handle which =
     io_bind (io_try (boolCall True (wy_String os handle which))) (\<lambda>r. io_return (case r of
       Inl e \<Rightarrow> unknown_text
     | Inr buffer \<Rightarrow> (case terminated buffer of None \<Rightarrow> unknown_text | Some t \<Rightarrow> known (wy_UTF16ToString os t))))"

definition openPath :: "'w win_sys \<Rightarrow> string \<Rightarrow> u32 \<Rightarrow> bool \<Rightarrow> ('w, int) io" where
  "openPath os path access overlapped =
     (case wy_UTF16Ptr os path of
        Inl e \<Rightarrow> io_fail (DriverError ''open'' KindInvalidArgument [] 0 [] (Some e))
      | Inr wide \<Rightarrow> io_wrap (win_nativeError ''CreateFile'') (wy_CreateFile os wide access overlapped))"

subsection \<open>inventory\_windows.go: metadata\<close>

definition win_endpointID :: "string \<Rightarrow> string" where
  "win_endpointID path = ''windows:'' @ path"

text \<open>\<open>strings.ToUpper\<close> as far as the patterns below can tell: the runes whose upper case is an ASCII letter.\<close>

fun ToUpper :: "string \<Rightarrow> string" where
  "ToUpper [] = []"
| "ToUpper (c # s) =
     (let n = of_char c :: nat in
      case s of
        d # t \<Rightarrow>
          if n = 0xc4 \<and> (of_char d :: nat) = 0xb1 then CHR ''I'' # ToUpper t
          else if n = 0xc5 \<and> (of_char d :: nat) = 0xbf then CHR ''S'' # ToUpper t
          else (if 97 \<le> n \<and> n \<le> 122 then char_of (n - 32) else c) # ToUpper s
      | [] \<Rightarrow> [if 97 \<le> n \<and> n \<le> 122 then char_of (n - 32) else c])"

text \<open>\<open>width\<close> hexadecimal digits after the first occurrence of a tag of four characters.\<close>

definition tagged_hex :: "string \<Rightarrow> nat \<Rightarrow> nat \<Rightarrow> string \<Rightarrow> nat option" where
  "tagged_hex tag width bits upper =
     (case Cut upper tag of
        None \<Rightarrow> None
      | Some (before, after) \<Rightarrow> if width \<le> length after then ParseUint (take width after) 16 bits else None)"

definition hardwareFields :: "string \<Rightarrow> endpoint \<Rightarrow> endpoint" where
  "hardwareFields i ep =
     (let upper = ToUpper i;
          ep1 = (if fd_Known (ep_VendorID ep) then ep
                 else case tagged_hex ''VID_'' 4 16 upper of None \<Rightarrow> ep | Some v \<Rightarrow> ep\<lparr>ep_VendorID := known (of_nat v)\<rparr>);
          ep2 = (if fd_Known (ep_ProductID ep1) then ep1
                 else case tagged_hex ''PID_'' 4 16 upper of None \<Rightarrow> ep1 | Some v \<Rightarrow> ep1\<lparr>ep_ProductID := known (of_nat v)\<rparr>)
      in if fd_Known (ep_Interface ep2) then ep2
         else case tagged_hex ''&MI_'' 2 8 upper of None \<Rightarrow> ep2 | Some v \<Rightarrow> ep2\<lparr>ep_Interface := known (int v)\<rparr>)"

definition instance_fields :: "string \<Rightarrow> endpoint \<Rightarrow> endpoint" where
  "instance_fields i ep =
     (let ep1 = hardwareFields i ep; upper = ToUpper i in
      if ep_Bus ep1 = BusUnknown then
        (if prefix (''USB'' @ [CHR 0x5c]) upper then ep1\<lparr>ep_Bus := BusUSB\<rparr>
         else if prefix (''BTHENUM'' @ [CHR 0x5c]) upper \<or> prefix (''BTHLEDEVICE'' @ [CHR 0x5c]) upper
         then ep1\<lparr>ep_Bus := BusBluetooth\<rparr>
         else ep1)
      else ep1)"

text \<open>The walk from a device instance to its parents, at most \<open>n\<close> of them.\<close>

fun devinfo_walk :: "'w win_sys \<Rightarrow> nat \<Rightarrow> u32 \<Rightarrow> endpoint \<Rightarrow> ('w, endpoint) io" where
  "devinfo_walk os 0 instance' ep = io_return ep"
| "devinfo_walk os (Suc n) instance' ep =
     io_bind (io_ask (wy_DeviceID os instance')) (\<lambda>(status, buffer).
       let ep1 = (case terminated buffer of
                    Some t \<Rightarrow> if status = 0 then instance_fields (wy_UTF16ToString os buffer) ep else ep
                  | None \<Rightarrow> ep)
       in io_bind (io_ask (wy_Parent os instance')) (\<lambda>(status', parent).
            if status' \<noteq> 0 \<or> parent = instance' then io_return ep1 else devinfo_walk os n parent ep1))"

definition metadataFromDevInfo :: "'w win_sys \<Rightarrow> u32 \<Rightarrow> endpoint \<Rightarrow> ('w, endpoint) io" where
  "metadataFromDevInfo os dev ep = devinfo_walk os 16 dev ep"

definition hidUsagePageProperty :: nat where "hidUsagePageProperty = 2"
definition hidUsageIDProperty :: nat where "hidUsageIDProperty = 3"
definition hidVendorIDProperty :: nat where "hidVendorIDProperty = 5"
definition hidProductIDProperty :: nat where "hidProductIDProperty = 6"

definition uint16FromProperty :: "(nat \<Rightarrow> ('w, u16 \<times> u32 \<times> u32) io) \<Rightarrow> nat \<Rightarrow> ('w, u16 field) io" where
  "uint16FromProperty rd property =
     io_bind (io_try (rd property)) (\<lambda>r. io_return (case r of
       Inl e \<Rightarrow> \<lparr>fd_Value = 0, fd_Known = False\<rparr>
     | Inr (v, kind, size') \<Rightarrow>
         if kind \<noteq> DEVPROP_TYPE_UINT16 \<or> size' \<noteq> 2 then \<lparr>fd_Value = 0, fd_Known = False\<rparr> else known v))"

definition usageFromProperties :: "(nat \<Rightarrow> ('w, u16 \<times> u32 \<times> u32) io) \<Rightarrow> ('w, usage field) io" where
  "usageFromProperties rd =
     io_bind (uint16FromProperty rd hidUsagePageProperty) (\<lambda>page.
       io_bind (uint16FromProperty rd hidUsageIDProperty) (\<lambda>i.
         io_return (if \<not> fd_Known page \<or> \<not> fd_Known i
           then \<lparr>fd_Value = \<lparr>us_Page = 0, us_ID = 0\<rparr>, fd_Known = False\<rparr>
           else known \<lparr>us_Page = fd_Value page, us_ID = fd_Value i\<rparr>)))"

definition metadataFromInterfaceProperties :: "endpoint \<Rightarrow> (nat \<Rightarrow> ('w, u16 \<times> u32 \<times> u32) io) \<Rightarrow> ('w, endpoint) io" where
  "metadataFromInterfaceProperties ep rd =
     io_bind (usageFromProperties rd) (\<lambda>u.
       io_bind (uint16FromProperty rd hidVendorIDProperty) (\<lambda>v.
         io_bind (uint16FromProperty rd hidProductIDProperty) (\<lambda>p.
           let ep1 = ep\<lparr>ep_Usage := u\<rparr>;
               ep2 = (if fd_Known v then ep1\<lparr>ep_VendorID := v\<rparr> else ep1)
           in io_return (if fd_Known p then ep2\<lparr>ep_ProductID := p\<rparr> else ep2))))"

definition metadataFromInterface :: "'w win_sys \<Rightarrow> int \<Rightarrow> int \<Rightarrow> endpoint \<Rightarrow> ('w, endpoint) io" where
  "metadataFromInterface os set' iface ep =
     metadataFromInterfaceProperties ep (\<lambda>property. boolCall False (wy_Property os set' iface property))"

text \<open>The usage of an open collection; the preparsed data are only needed for it.\<close>

definition caps_usage :: "'w win_sys \<Rightarrow> int \<Rightarrow> endpoint \<Rightarrow> err list \<Rightarrow> ('w, endpoint \<times> err list) io" where
  "caps_usage os handle ep failures =
     io_bind (io_try (readCaps os handle)) (\<lambda>r. case r of
       Inl e \<Rightarrow> io_return (ep, failures @ [e])
     | Inr cp \<Rightarrow>
         io_bind (io_ask (wy_FreePreparsed os (snd cp))) (\<lambda>_.
           io_return (ep\<lparr>ep_Usage := known \<lparr>us_Page = wc_UsagePage (fst cp), us_ID = wc_Usage (fst cp)\<rparr>\<rparr>, failures)))"

definition handle_strings :: "'w win_sys \<Rightarrow> int \<Rightarrow> endpoint \<Rightarrow> ('w, endpoint) io" where
  "handle_strings os handle ep =
     io_bind (stringProperty os handle WinSerial) (\<lambda>s.
       io_bind (stringProperty os handle WinManufacturer) (\<lambda>m.
         io_bind (stringProperty os handle WinProduct) (\<lambda>p.
           io_return (ep\<lparr>ep_Serial := s, ep_Manufacturer := m, ep_Product := p\<rparr>))))"

text \<open>\<open>metadataFromHandle\<close> updates the endpoint and returns an error.\<close>

definition metadataFromHandle :: "'w win_sys \<Rightarrow> int \<Rightarrow> endpoint \<Rightarrow> bool \<Rightarrow> ('w, endpoint \<times> err option) io" where
  "metadataFromHandle os handle ep strings =
     io_bind (io_try (boolCall True (wy_Attributes os handle))) (\<lambda>attrs.
       let (ep1, f1) = (case attrs of
             Inl e \<Rightarrow> (ep, [win_nativeError ''HidD_GetAttributes'' e])
           | Inr (vendor, product) \<Rightarrow> (ep\<lparr>ep_VendorID := known vendor, ep_ProductID := known product\<rparr>, []))
       in io_bind (caps_usage os handle ep1 f1) (\<lambda>(ep2, failures).
            io_bind (if strings then handle_strings os handle ep2 else io_return ep2) (\<lambda>ep3.
              io_return (ep3, errors_join (map Some failures)))))"

subsection \<open>inventory\_windows.go: enumeration\<close>

text \<open>The path of an interface and its device instance; the buffer starts with the two words of a size field.\<close>

definition detail_path :: "'w win_sys \<Rightarrow> u16 list \<Rightarrow> string res" where
  "detail_path os buffer =
     (case terminated (drop 2 buffer) of
        None \<Rightarrow> Inl (driver_unsupported ''unterminated device interface path'')
      | Some t \<Rightarrow> if t = [] then Inl (driver_unsupported ''empty device interface path'') else Inr (wy_UTF16ToString os t))"

definition interfacePath :: "'w win_sys \<Rightarrow> int \<Rightarrow> int \<Rightarrow> ('w, string \<times> u32) io" where
  "interfacePath os set' iface =
     io_bind (io_ask (wy_DetailSize os set' iface)) (\<lambda>(result, lastError, required).
       case bool_error False result lastError of
         None \<Rightarrow> io_fail (win_nativeError ''size interface detail'' (Errno ERROR_INVALID_DATA))
       | Some e \<Rightarrow>
           if \<not> errno_is e ERROR_INSUFFICIENT_BUFFER then io_fail (win_nativeError ''size interface detail'' e)
           else if required < 6 \<or> unat required > MaxMetadataSize \<or> required mod 2 \<noteq> 0
           then io_fail (driver_unsupported ''invalid device interface path size'')
           else io_bind (io_wrap (win_nativeError ''SetupDiGetDeviceInterfaceDetail'') (boolCall False (wy_Detail os set' iface required)))
             (\<lambda>(required', buffer, dev).
               if required' > of_nat (length buffer * 2)
               then io_fail (driver_unsupported ''device interface path grew during enumeration'')
               else io_bind (io_of (detail_path os buffer)) (\<lambda>path. io_return (path, dev))))"

record 'w inventory_system =
  wi_open :: "string \<Rightarrow> ('w, int) io"
  wi_metadata :: "int \<Rightarrow> endpoint \<Rightarrow> bool \<Rightarrow> ('w, endpoint \<times> err option) io"
  wi_close :: "int \<Rightarrow> 'w \<Rightarrow> err option \<times> 'w"

definition nativeInventorySystem :: "'w win_sys \<Rightarrow> 'w inventory_system" where
  "nativeInventorySystem os =
     \<lparr>wi_open = (\<lambda>path. openPath os path 0 False), wi_metadata = metadataFromHandle os, wi_close = wy_CloseHandle os\<rparr>"

definition win_warning :: "err \<Rightarrow> hid_snapshot \<Rightarrow> hid_snapshot" where
  "win_warning e s = s\<lparr>sn_Warnings := sn_Warnings s @ [Some e]\<rparr>"

definition win_incomplete :: "err \<Rightarrow> hid_snapshot \<Rightarrow> hid_snapshot" where
  "win_incomplete e s = win_warning e (s\<lparr>sn_Complete := False\<rparr>)"

definition win_add :: "endpoint \<Rightarrow> hid_snapshot \<Rightarrow> hid_snapshot" where
  "win_add ep s = s\<lparr>sn_Endpoints := sn_Endpoints s @ [ep]\<rparr>"

text \<open>The interface in the message; the quotation marks of \<open>%q\<close> are left out.\<close>

definition interface_error :: "endpoint \<Rightarrow> err \<Rightarrow> err" where
  "interface_error ep e = WrapError (''HID interface '' @ ep_Path ep) [e]"

text \<open>The inspection of a candidate through its handle: the endpoint, the failure, and the snapshot with the warning of
  a failed close.\<close>

definition inspect_handle ::
  "'w inventory_system \<Rightarrow> endpoint \<Rightarrow> bool \<Rightarrow> hid_snapshot \<Rightarrow> ('w, endpoint \<times> err option \<times> hid_snapshot) io" where
  "inspect_handle sys ep strings s =
     io_bind (io_try (wi_open sys (ep_Path ep))) (\<lambda>r. case r of
       Inl e \<Rightarrow> io_return (ep, Some e, s)
     | Inr handle \<Rightarrow>
         io_bind (wi_metadata sys handle ep strings) (\<lambda>(ep', failure).
           io_bind (io_ask (wi_close sys handle)) (\<lambda>closeErr.
             io_return (ep', failure, case closeErr of
                 None \<Rightarrow> s
               | Some e \<Rightarrow> win_warning (interface_error ep' (win_nativeError ''close inventory handle'' e)) s))))"

definition append_inspected ::
  "'w inventory_system \<Rightarrow> (endpoint \<Rightarrow> bool \<times> bool) option \<Rightarrow> endpoint \<Rightarrow> bool \<Rightarrow> hid_snapshot \<Rightarrow> ('w, hid_snapshot) io" where
  "append_inspected sys select ep strings s =
     io_bind (inspect_handle sys ep strings s) (\<lambda>(ep', failure, s').
       io_return (if (case select of None \<Rightarrow> False | Some sel \<Rightarrow> sel ep' = (False, False)) then s'
         else win_add ep' (case failure of None \<Rightarrow> s' | Some e \<Rightarrow> win_incomplete (interface_error ep' e) s')))"

definition appendInventoryEndpoint ::
  "hid_snapshot \<Rightarrow> endpoint \<Rightarrow> bool \<Rightarrow> (endpoint \<Rightarrow> bool \<times> bool) option \<Rightarrow> 'w inventory_system \<Rightarrow> ('w, hid_snapshot) io" where
  "appendInventoryEndpoint s ep strings select sys =
     (case select of
        None \<Rightarrow> append_inspected sys select ep strings s
      | Some sel \<Rightarrow>
          (case sel ep of
             (match, unknown) \<Rightarrow>
               if unknown then
                 io_return (win_add ep (win_incomplete (driver_error ''enumerate'' KindIO
                   (''cannot determine filtered interface membership without opening '' @ ep_ID ep)) s))
               else if \<not> match then io_return s
               else append_inspected sys select ep strings s))"

text \<open>The metadata that are read without opening the interface.\<close>

definition candidate :: "'w win_sys \<Rightarrow> int \<Rightarrow> int \<Rightarrow> string \<times> u32 \<Rightarrow> ('w, endpoint) io" where
  "candidate os set' iface pd =
     io_bind (metadataFromDevInfo os (snd pd) (zero_endpoint\<lparr>ep_ID := win_endpointID (fst pd), ep_Path := fst pd\<rparr>)) (\<lambda>ep.
       metadataFromInterface os set' iface ep)"

text \<open>One turn of the loop over the interfaces; \<open>next\<close> is the rest of the loop.\<close>

definition win_enum_turn ::
  "'w win_sys \<Rightarrow> bool \<Rightarrow> (endpoint \<Rightarrow> bool \<times> bool) option \<Rightarrow> int \<Rightarrow> nat \<Rightarrow> (hid_snapshot \<Rightarrow> ('w, hid_snapshot) io) \<Rightarrow> hid_snapshot \<Rightarrow>
   ('w, hid_snapshot) io" where
  "win_enum_turn os strings select set' index next s =
     io_bind (io_try (boolCall False (wy_EnumInterfaces os set' index))) (\<lambda>r. case r of
       Inl e \<Rightarrow>
         if errno_is e ERROR_NO_MORE_ITEMS then io_return s
         else io_return (win_incomplete (win_nativeError ''SetupDiEnumDeviceInterfaces'' e) s)
     | Inr iface \<Rightarrow>
         if index \<ge> MaxInventoryDevices then io_return (win_incomplete (driver_resourceLimit ''inventory device limit'') s)
         else io_bind (io_try (interfacePath os set' iface)) (\<lambda>p. case p of
             Inl e \<Rightarrow> next (win_incomplete e s)
           | Inr pd \<Rightarrow>
               io_bind (candidate os set' iface pd) (\<lambda>ep.
                 io_bind (appendInventoryEndpoint s ep strings select (nativeInventorySystem os)) next)))"

fun win_enum_loop ::
  "'w win_sys \<Rightarrow> bool \<Rightarrow> (endpoint \<Rightarrow> bool \<times> bool) option \<Rightarrow> int \<Rightarrow> nat \<Rightarrow> hid_snapshot \<Rightarrow> ('w, hid_snapshot) io" where
  "win_enum_loop os strings select set' 0 s = win_enum_turn os strings select set' MaxInventoryDevices io_return s"
| "win_enum_loop os strings select set' (Suc k) s =
     win_enum_turn os strings select set' (MaxInventoryDevices - Suc k) (win_enum_loop os strings select set' k) s"

definition win_snapshot :: "bool \<Rightarrow> hid_snapshot" where
  "win_snapshot complete = \<lparr>sn_Endpoints = [], sn_Complete = complete, sn_Warnings = []\<rparr>"

definition win_Enumerate :: "'w win_sys \<Rightarrow> bool \<Rightarrow> (endpoint \<Rightarrow> bool \<times> bool) option \<Rightarrow> ('w, hid_snapshot \<times> err option) io" where
  "win_Enumerate os strings select =
     io_bind (io_ask (wy_LoadHid os)) (\<lambda>l. case l of
       Some e \<Rightarrow> io_return (win_snapshot False, Some (win_nativeError ''load hid.dll'' e))
     | None \<Rightarrow>
         io_bind (io_try (wy_ClassDevs os)) (\<lambda>r. case r of
           Inl e \<Rightarrow> io_return (win_snapshot False, Some (win_nativeError ''SetupDiGetClassDevs'' e))
         | Inr set' \<Rightarrow>
             io_defer (wy_DestroyList os set')
               (io_bind (win_enum_loop os strings select set' MaxInventoryDevices (win_snapshot True)) (\<lambda>s. io_return (s, None)))))"

text \<open>\<open>platformEnumerate\<close> of \<open>native_windows.go\<close> in \<open>pkg/hid\<close>.\<close>

definition win_platformEnumerate :: "'w win_sys \<Rightarrow> bool \<Rightarrow> hid_filter \<Rightarrow> ('w, hid_snapshot \<times> err option) io" where
  "win_platformEnumerate os strings f = win_Enumerate os strings (Some (\<lambda>ep. matchFilter ep f))"

text \<open>The address lookup of \<open>Open\<close>.\<close>

definition find_turn ::
  "'w win_sys \<Rightarrow> string \<Rightarrow> int \<Rightarrow> nat \<Rightarrow> (err list \<Rightarrow> ('w, endpoint) io) \<Rightarrow> err list \<Rightarrow> ('w, endpoint) io" where
  "find_turn os path set' index next failures =
     io_bind (io_try (boolCall False (wy_EnumInterfaces os set' index))) (\<lambda>r. case r of
       Inl e \<Rightarrow>
         if errno_is e ERROR_NO_MORE_ITEMS then
           io_fail (if failures \<noteq> [] then DriverError ''open'' KindIO [] 0 ''incomplete native address lookup'' (errors_join (map Some failures))
                    else win_nativeError ''open'' (Errno ERROR_DEVICE_NOT_CONNECTED))
         else io_fail (win_nativeError ''SetupDiEnumDeviceInterfaces'' e)
     | Inr iface \<Rightarrow>
         if index \<ge> MaxInventoryDevices then io_fail (driver_resourceLimit ''inventory device limit'')
         else io_bind (io_try (interfacePath os set' iface)) (\<lambda>p. case p of
             Inl e \<Rightarrow> next (failures @ [e])
           | Inr (candidate', dev) \<Rightarrow>
               if candidate' \<noteq> path then next failures
               else metadataFromDevInfo os dev (zero_endpoint\<lparr>ep_ID := win_endpointID path, ep_Path := path\<rparr>)))"

fun find_loop :: "'w win_sys \<Rightarrow> string \<Rightarrow> int \<Rightarrow> nat \<Rightarrow> err list \<Rightarrow> ('w, endpoint) io" where
  "find_loop os path set' 0 failures =
     find_turn os path set' MaxInventoryDevices (\<lambda>_. io_fail (driver_resourceLimit ''inventory device limit'')) failures"
| "find_loop os path set' (Suc k) failures =
     find_turn os path set' (MaxInventoryDevices - Suc k) (find_loop os path set' k) failures"

definition findInterface :: "'w win_sys \<Rightarrow> string \<Rightarrow> ('w, endpoint) io" where
  "findInterface os path =
     io_bind (io_wrap (win_nativeError ''SetupDiGetClassDevs'') (wy_ClassDevs os)) (\<lambda>set'.
       io_defer (wy_DestroyList os set') (find_loop os path set' MaxInventoryDevices []))"

subsection \<open>device\_windows.go\<close>

record win_device =
  wd_handle :: int
  wd_endpoint :: endpoint
  wd_layout :: report_layout

record 'w win_open_system =
  wo_find :: "string \<Rightarrow> ('w, endpoint) io"
  wo_open :: "string \<Rightarrow> ('w, int) io"
  wo_close :: "int \<Rightarrow> 'w \<Rightarrow> err option \<times> 'w"
  wo_metadata :: "int \<Rightarrow> endpoint \<Rightarrow> bool \<Rightarrow> ('w, endpoint \<times> err option) io"
  wo_layout :: "int \<Rightarrow> ('w, report_layout) io"

definition readLayout :: "'w win_sys \<Rightarrow> int \<Rightarrow> ('w, report_layout) io" where
  "readLayout os handle =
     io_bind (readCaps os handle) (\<lambda>(caps, preparsed).
       io_defer (wy_FreePreparsed os preparsed)
         (io_bind (reportSpec os preparsed 0 (wc_InputLength caps)) (\<lambda>input.
            io_bind (reportSpec os preparsed 1 (wc_OutputLength caps)) (\<lambda>out.
              io_return \<lparr>rl_Input = input, rl_Output = out\<rparr>))))"

definition win_nativeOpenSystem :: "'w win_sys \<Rightarrow> 'w win_open_system" where
  "win_nativeOpenSystem os =
     \<lparr>wo_find = findInterface os, wo_open = (\<lambda>path. openPath os path GENERIC_READ_WRITE True),
      wo_close = wy_CloseHandle os, wo_metadata = metadataFromHandle os, wo_layout = readLayout os\<rparr>"

text \<open>The address that an endpoint ID names.\<close>

definition win_open_address :: "endpoint \<Rightarrow> string option" where
  "win_open_address expected =
     (if \<not> prefix ''windows:'' (ep_ID expected) then None
      else let path = drop 8 (ep_ID expected) in
        if path = [] \<or> length path > MaxMetadataSize \<or> CHR 0x00 \<in> set path \<or> win_endpointID path \<noteq> ep_ID expected then None
        else Some path)"

definition win_open_checked :: "'w win_open_system \<Rightarrow> endpoint \<Rightarrow> endpoint \<Rightarrow> int \<Rightarrow> ('w, win_device) io" where
  "win_open_checked sys expected actual handle =
     io_bind (wo_metadata sys handle actual True) (\<lambda>(actual', e). case e of
       Some x \<Rightarrow> io_fail x
     | None \<Rightarrow>
         if \<not> driver_matches expected actual' then io_fail (driver_stale ''opened metadata differs from requested endpoint'')
         else io_bind (wo_layout sys handle) (\<lambda>layout.
           io_return \<lparr>wd_handle = handle, wd_endpoint = actual', wd_layout = layout\<rparr>))"

definition win_openWithSystem :: "endpoint \<Rightarrow> 'w win_open_system \<Rightarrow> ('w, win_device) io" where
  "win_openWithSystem expected sys =
     (case win_open_address expected of
        None \<Rightarrow> io_fail (driver_error ''open'' KindInvalidArgument ''invalid Windows endpoint ID'')
      | Some path \<Rightarrow>
          if ep_Path expected \<noteq> [] \<and> ep_Path expected \<noteq> path
          then io_fail (driver_stale ''diagnostic path differs from endpoint ID'')
          else io_bind (wo_find sys path) (\<lambda>actual.
            io_bind (wo_open sys path) (\<lambda>handle.
              io_on_error (wo_close sys handle) (win_open_checked sys expected actual handle))))"

definition win_Open :: "'w win_sys \<Rightarrow> endpoint \<Rightarrow> ('w, win_device) io" where
  "win_Open os expected =
     io_bind (io_wrap (win_nativeError ''load hid.dll'') (io_check (wy_LoadHid os))) (\<lambda>_.
       win_openWithSystem expected (win_nativeOpenSystem os))"

text \<open>The wait in milliseconds, rounded up and below the value that means forever.\<close>

definition wait_timeout :: "int \<Rightarrow> u32" where
  "wait_timeout wait =
     (if wait > 0 then
        let ms = wait div 1000000; ms' = (if wait mod 1000000 \<noteq> 0 then ms + 1 else ms)
        in of_int (if ms' \<ge> uint INFINITE then uint INFINITE - 1 else ms')
      else INFINITE)"

text \<open>What \<open>transfer\<close> returns: the bytes done, whether the request was submitted, its error, and the buffer.\<close>

record transfer =
  tr_done :: u32
  tr_submitted :: bool
  tr_error :: "err option"
  tr_buffer :: bytes

definition transfer_failed :: "bool \<Rightarrow> err \<Rightarrow> bytes \<Rightarrow> transfer" where
  "transfer_failed submitted e buffer = \<lparr>tr_done = 0, tr_submitted = submitted, tr_error = Some e, tr_buffer = buffer\<rparr>"

text \<open>A request that is pending: wait, cancel when the wait failed or ended, and join the completion.\<close>

definition transfer_join :: "'w win_sys \<Rightarrow> int \<Rightarrow> int \<Rightarrow> string \<Rightarrow> bytes \<Rightarrow> int \<Rightarrow> ('w, transfer) io" where
  "transfer_join os handle event op buffer wait =
     io_bind (io_try (wy_Wait os event (wait_timeout wait))) (\<lambda>waited.
       let waitErr = (case waited of Inl e \<Rightarrow> Some e | Inr state \<Rightarrow> None);
           timedOut = (case waited of Inl e \<Rightarrow> False | Inr state \<Rightarrow> state = WAIT_TIMEOUT)
       in io_bind
            (if waitErr \<noteq> None \<or> timedOut then
               io_bind (io_ask (wy_Cancel os handle event)) (\<lambda>c.
                 io_return (case c of Some e \<Rightarrow> if errno_is e ERROR_NOT_FOUND then None else Some e | None \<Rightarrow> None))
             else io_return None)
            (\<lambda>cancellationErr.
              io_bind (io_try (wy_Result os handle event)) (\<lambda>r. io_return (case r of
                Inr (done', buffer') \<Rightarrow>
                  \<lparr>tr_done = done', tr_submitted = True,
                   tr_error = (case waitErr of
                       Some e \<Rightarrow> Some (win_nativeError ''wait completion'' e)
                     | None \<Rightarrow> map_option (win_nativeError ''CancelIoEx'') cancellationErr),
                   tr_buffer = buffer'\<rparr>
              | Inl e \<Rightarrow>
                  if timedOut \<and> errno_is e ERROR_OPERATION_ABORTED
                  then transfer_failed True (DriverError op KindTimeout ''win32'' ERROR_OPERATION_ABORTED []
                         (errors_join [Some e, cancellationErr])) buffer
                  else transfer_failed True (win_nativeError op (the (errors_join [Some e, waitErr, cancellationErr]))) buffer))))"

definition transfer_body :: "'w win_sys \<Rightarrow> int \<Rightarrow> int \<Rightarrow> bytes \<Rightarrow> bool \<Rightarrow> int \<Rightarrow> ('w, transfer) io" where
  "transfer_body os handle event buffer write wait =
     (let op = (if write then ''write'' else ''read'') in
      io_bind (io_ask (wy_Start os write handle event buffer)) (\<lambda>e. case e of
        Some x \<Rightarrow>
          if \<not> errno_is x ERROR_IO_PENDING then io_return (transfer_failed True (win_nativeError op x) buffer)
          else transfer_join os handle event op buffer wait
      | None \<Rightarrow>
          io_bind (io_try (wy_Result os handle event)) (\<lambda>r. io_return (case r of
            Inl x \<Rightarrow> transfer_failed True (win_nativeError op x) buffer
          | Inr (done', buffer') \<Rightarrow> \<lparr>tr_done = done', tr_submitted = True, tr_error = None, tr_buffer = buffer'\<rparr>))))"

definition device_transfer :: "'w win_sys \<Rightarrow> win_device \<Rightarrow> bytes \<Rightarrow> bool \<Rightarrow> int \<Rightarrow> ('w, transfer) io" where
  "device_transfer os d buffer write wait =
     io_bind (io_try (wy_CreateEvent os)) (\<lambda>r. case r of
       Inl e \<Rightarrow> io_return (transfer_failed False (win_nativeError ''CreateEvent'' e) buffer)
     | Inr event \<Rightarrow>
         io_bind (transfer_body os (wd_handle d) event buffer write wait) (\<lambda>t.
           io_bind (io_ask (wy_CloseHandle os event)) (\<lambda>c. io_return (case c of
             None \<Rightarrow> t
           | Some e \<Rightarrow> t\<lparr>tr_error := errors_join [tr_error t, Some (win_nativeError ''close I/O event'' e)]\<rparr>))))"

definition win_Read :: "'w win_sys \<Rightarrow> win_device \<Rightarrow> int \<Rightarrow> ('w, report) io" where
  "win_Read os d wait =
     (let input = rl_Input (wd_layout d) in
      if wait < 0 then io_fail (driver_error ''read'' KindInvalidArgument [])
      else io_bind (device_transfer os d (replicate (nat (rs_Size input + 2)) 0) False wait) (\<lambda>t.
        case tr_error t of
          Some e \<Rightarrow> io_fail e
        | None \<Rightarrow>
            if tr_done t \<noteq> of_int (rs_Size input + 1) \<or> tr_buffer t ! 0 \<noteq> rs_ID input
            then io_fail (driver_error ''read'' KindInvalidReport ''native input ID or size differs from capabilities'')
            else io_return \<lparr>rp_ID = tr_buffer t ! 0, rp_Data = slice (tr_buffer t) 1 (unat (tr_done t))\<rparr>))"

definition win_Write :: "'w win_sys \<Rightarrow> win_device \<Rightarrow> report \<Rightarrow> ('w, write_outcome \<times> err option) io" where
  "win_Write os d rep =
     (let out = rl_Output (wd_layout d); buffer = rp_ID rep # rp_Data rep in
      if rp_ID rep \<noteq> rs_ID out \<or> int (length (rp_Data rep)) \<noteq> rs_Size out
      then io_return (OutcomeNotSubmitted, Some (driver_error ''write'' KindInvalidReport []))
      else io_bind (device_transfer os d buffer True 0) (\<lambda>t. io_return
        (if \<not> tr_submitted t then (OutcomeNotSubmitted, tr_error t)
         else if tr_done t = of_nat (length buffer) then (OutcomeCompleted, tr_error t)
         else (OutcomeUnknown, case tr_error t of None \<Rightarrow> Some (driver_error ''write'' KindIO ''short native write'') | Some e \<Rightarrow> Some e))))"

definition win_Close :: "'w win_sys \<Rightarrow> win_device \<Rightarrow> 'w \<Rightarrow> err option \<times> 'w" where
  "win_Close os d w = map_prod (map_option (win_nativeError ''CloseHandle'')) id (wy_CloseHandle os (wd_handle d) w)"

end
