(* ===== verification/WindowsDriver.thy ===== *)
theory WindowsDriver
  imports WindowsHid
begin

text \<open>
  What the Windows HID driver of \<open>WindowsHid\<close> guarantees: native resources are never leaked, an open device is the one
  that was asked for and passes the checks of the portable layer, and a transfer returns only when the kernel has let go
  of its buffer.
\<close>

subsection \<open>Resources are given back\<close>

text \<open>Files and events are closed by the same call.\<close>

datatype win_resource = WinHandle int | WinList int | WinPreparsed int

definition win_resources :: "'w win_sys \<Rightarrow> ('w \<Rightarrow> win_resource set) \<Rightarrow> bool" where
  "win_resources os res \<longleftrightarrow>
     opens res WinList (wy_ClassDevs os) \<and> closes res WinList (wy_DestroyList os) \<and>
     (\<forall>p a b. opens res WinHandle (wy_CreateFile os p a b)) \<and> opens res WinHandle (wy_CreateEvent os) \<and>
     closes res WinHandle (wy_CloseHandle os) \<and>
     (\<forall>h. opens res WinPreparsed (boolCall True (wy_Preparsed os h))) \<and> closes res WinPreparsed (wy_FreePreparsed os) \<and>
     ask_keeps res (wy_LoadHid os) \<and> (\<forall>d i. ask_keeps res (wy_EnumInterfaces os d i)) \<and>
     (\<forall>d i. ask_keeps res (wy_DetailSize os d i)) \<and> (\<forall>d i n. ask_keeps res (wy_Detail os d i n)) \<and>
     (\<forall>d i p. ask_keeps res (wy_Property os d i p)) \<and> (\<forall>d. ask_keeps res (wy_DeviceID os d)) \<and>
     (\<forall>d. ask_keeps res (wy_Parent os d)) \<and> (\<forall>h. ask_keeps res (wy_Attributes os h)) \<and>
     (\<forall>p. ask_keeps res (wy_Caps os p)) \<and> (\<forall>t i p n. ask_keeps res (wy_InitReport os t i p n)) \<and>
     (\<forall>h s. ask_keeps res (wy_String os h s)) \<and> (\<forall>b h v p. ask_keeps res (wy_Start os b h v p)) \<and>
     (\<forall>v t. io_keeps res (wy_Wait os v t)) \<and> (\<forall>h v. ask_keeps res (wy_Cancel os h v)) \<and>
     (\<forall>h v. io_keeps res (wy_Result os h v))"

lemma win_resourcesD:
  assumes "win_resources os res"
  shows "opens res WinList (wy_ClassDevs os)" "closes res WinList (wy_DestroyList os)"
    "opens res WinHandle (wy_CreateFile os p a b)" "opens res WinHandle (wy_CreateEvent os)"
    "closes res WinHandle (wy_CloseHandle os)"
    "opens res WinPreparsed (boolCall True (wy_Preparsed os h))" "closes res WinPreparsed (wy_FreePreparsed os)"
    and win_keeps: "ask_keeps res (wy_LoadHid os)" "ask_keeps res (wy_EnumInterfaces os d i)" "ask_keeps res (wy_DetailSize os d j)"
      "ask_keeps res (wy_Detail os d j u)" "ask_keeps res (wy_Property os d j i)" "ask_keeps res (wy_DeviceID os x)"
      "ask_keeps res (wy_Parent os x)" "ask_keeps res (wy_Attributes os h)" "ask_keeps res (wy_Caps os h)"
      "ask_keeps res (wy_InitReport os i n h y)" "ask_keeps res (wy_String os h s)" "ask_keeps res (wy_Start os b h v p')"
      "io_keeps res (wy_Wait os v x)" "ask_keeps res (wy_Cancel os h v)" "io_keeps res (wy_Result os h v)"
  using assms by (simp_all add: win_resources_def)

lemma boolCall_keeps [keep_intros]: "ask_keeps f q \<Longrightarrow> io_keeps f (boolCall b q)"
  unfolding boolCall_def by (intro keep_intros)

lemma readCaps_eq:
  "readCaps os handle =
     io_bind (io_wrap (win_nativeError ''HidD_GetPreparsedData'') (boolCall True (wy_Preparsed os handle))) (\<lambda>preparsed.
       io_on_error (wy_FreePreparsed os preparsed) (io_bind (io_ask (wy_Caps os preparsed)) (\<lambda>(status, caps).
         if (ucast status :: u32) \<noteq> hidpSuccess then io_fail (hidpError ''HidP_GetCaps'' status)
         else io_return (caps, preparsed))))"
proof -
  have "(\<lambda>preparsed. io_bind (io_ask (wy_Caps os preparsed)) (\<lambda>(status, caps).
         if (ucast status :: u32) \<noteq> hidpSuccess
         then io_bind (io_ask (wy_FreePreparsed os preparsed)) (\<lambda>_. io_fail (hidpError ''HidP_GetCaps'' status))
         else io_return (caps, preparsed))) =
      (\<lambda>preparsed. io_on_error (wy_FreePreparsed os preparsed) (io_bind (io_ask (wy_Caps os preparsed)) (\<lambda>(status, caps).
         if (ucast status :: u32) \<noteq> hidpSuccess then io_fail (hidpError ''HidP_GetCaps'' status)
         else io_return (caps, preparsed))))"
    by (auto simp: fun_eq_iff io_on_error_eq io_bind_def io_ask_def split: prod.splits)
  then show ?thesis unfolding readCaps_def by simp
qed

lemma readCaps_opens: "win_resources os res \<Longrightarrow> opens res (\<lambda>cp. WinPreparsed (snd cp)) (readCaps os h)"
  unfolding readCaps_eq
  by (rule opens_on_error [OF win_resourcesD(7) opens_wrap [OF win_resourcesD(6)]])
    (intro keep_intros win_keeps | assumption | auto simp: io_bind_conv split: if_splits)+

text \<open>A resource that is acquired, used by code that cannot fail, and given back.\<close>

lemma keeps_acquire:
  assumes c: "closes fds con c" and a: "opens fds (\<lambda>x. con (h x)) a" and b: "\<And>x. io_keeps fds (b x)" "\<And>x. io_ok (b x) (\<lambda>_. True)"
    and jk: "\<And>e. io_keeps fds (j e)" "\<And>x y z. io_keeps fds (k x y z)"
  shows "io_keeps fds (io_bind (io_try a) (\<lambda>r. case r of
      Inl e \<Rightarrow> j e | Inr x \<Rightarrow> io_bind (b x) (\<lambda>y. io_bind (io_ask (c (h x))) (\<lambda>z. k x y z))))"
  unfolding io_keeps_def
proof (intro allI impI)
  fix w r w'
  assume "io_bind (io_try a) (\<lambda>r. case r of
      Inl e \<Rightarrow> j e | Inr x \<Rightarrow> io_bind (b x) (\<lambda>y. io_bind (io_ask (c (h x))) (\<lambda>z. k x y z))) w = Some (r, w')"
  then obtain q w1 where q: "a w = Some (q, w1)" "(case q of
      Inl e \<Rightarrow> j e | Inr x \<Rightarrow> io_bind (b x) (\<lambda>y. io_bind (io_ask (c (h x))) (\<lambda>z. k x y z))) w1 = Some (r, w')"
    by (auto simp: io_bind_conv)
  show "fds w' = fds w"
  proof (cases q)
    case (Inl e)
    with q a io_keepsD [OF jk(1), of e w1 r w'] show ?thesis by (fastforce simp: opens_def)
  next
    case (Inr x)
    with q a have x: "con (h x) \<notin> fds w" "fds w1 = insert (con (h x)) (fds w)" by (fastforce simp: opens_def)+
    obtain qy w2 where qy: "b x w1 = Some (qy, w2)" using q(2) Inr by (cases "b x w1") (auto simp: io_bind_def)
    then obtain y where "qy = Inr y" using b(2) [of x, unfolded io_ok_def] by blast
    with qy q(2) Inr have y: "b x w1 = Some (Inr y, w2)" "io_bind (io_ask (c (h x))) (\<lambda>z. k x y z) w2 = Some (r, w')"
      by simp_all
    obtain z w3 where z: "c (h x) w2 = (z, w3)" by fastforce
    then have "k x y z w3 = Some (r, w')" using y(2) by (simp add: io_bind_def io_ask_def)
    then have "fds w' = fds w3" by (rule io_keepsD [OF jk(2)])
    moreover have "fds w3 = fds w2 - {con (h x)}" using c z unfolding closes_def by (metis snd_conv)
    ultimately show ?thesis using x io_keepsD [OF b(1) y(1)] by simp
  qed
qed

lemma ok_prim: "io_ok (io_return x) (\<lambda>_. True)"
  by (simp add: ok_return)

lemma keeps_release:
  assumes "closes fds con c" and "opens fds (\<lambda>x. con (h x)) a" and "\<And>e. io_keeps fds (j e)" and "\<And>x z. io_keeps fds (k x z)"
  shows "io_keeps fds (io_bind (io_try a) (\<lambda>r. case r of Inl e \<Rightarrow> j e | Inr x \<Rightarrow> io_bind (io_ask (c (h x))) (\<lambda>z. k x z)))"
proof -
  have "(\<lambda>r. case r of Inl e \<Rightarrow> j e | Inr x \<Rightarrow> io_bind (io_ask (c (h x))) (\<lambda>z. k x z)) =
      (\<lambda>r. case r of Inl e \<Rightarrow> j e | Inr x \<Rightarrow> io_bind (io_return ()) (\<lambda>_. io_bind (io_ask (c (h x))) (\<lambda>z. k x z)))"
    by (auto simp: fun_eq_iff io_bind_def split: sum.splits)
  then show ?thesis by (simp only:) (rule keeps_acquire [OF assms(1,2)]; simp add: assms(3,4) keeps_prim ok_prim)
qed

lemma caps_usage_keeps [keep_intros]: "win_resources os res \<Longrightarrow> io_keeps res (caps_usage os h ep f)"
  unfolding caps_usage_def by (rule keeps_release [OF win_resourcesD(7) readCaps_opens]) (auto intro: keep_intros)

lemma metadataFromHandle_keeps [keep_intros]: "win_resources os res \<Longrightarrow> io_keeps res (metadataFromHandle os h ep b)"
  unfolding metadataFromHandle_def handle_strings_def stringProperty_def by (intro keep_intros win_keeps)

lemma devinfo_walk_keeps: "win_resources os res \<Longrightarrow> io_keeps res (devinfo_walk os n d ep)"
proof (induction n arbitrary: d ep)
  case (Suc n)
  have "io_keeps res (devinfo_walk os n q e)" for q e using Suc by blast
  with Suc.prems show ?case unfolding devinfo_walk.simps by (intro keep_intros win_keeps)
qed (simp add: keeps_prim)

lemma interfacePath_keeps [keep_intros]: "win_resources os res \<Longrightarrow> io_keeps res (interfacePath os d i)"
  unfolding interfacePath_def by (intro keep_intros win_keeps)

lemma candidate_keeps [keep_intros]: "win_resources os res \<Longrightarrow> io_keeps res (candidate os d i pd)"
  unfolding candidate_def metadataFromDevInfo_def metadataFromInterface_def metadataFromInterfaceProperties_def
    usageFromProperties_def uint16FromProperty_def
  by (intro keep_intros win_keeps devinfo_walk_keeps)

lemma metadataFromHandle_ok: "io_ok (metadataFromHandle os h ep b) (\<lambda>_. True)"
  unfolding metadataFromHandle_def caps_usage_def handle_strings_def stringProperty_def
  by (intro ok_split ok_bind [OF ok_try [OF post_call]] ok_bind [OF ok_ask] ok_prim | rule ok_bind [where P = "\<lambda>_. True"] | simp)+

lemma openPath_opens: "win_resources os res \<Longrightarrow> opens res WinHandle (openPath os p a b)"
  unfolding openPath_def by (auto intro!: opens_wrap win_resourcesD opens_prim split: sum.split)

lemma inspect_handle_keeps [keep_intros]:
  "win_resources os res \<Longrightarrow> io_keeps res (inspect_handle (nativeInventorySystem os) ep b s)"
  unfolding inspect_handle_def nativeInventorySystem_def inventory_system.simps split_def
  by (rule keeps_acquire [OF win_resourcesD(5) openPath_opens]) (intro keep_intros metadataFromHandle_ok | assumption)+

lemma append_keeps [keep_intros]:
  "win_resources os res \<Longrightarrow> io_keeps res (appendInventoryEndpoint s ep b select (nativeInventorySystem os))"
  unfolding appendInventoryEndpoint_def append_inspected_def by (intro keep_intros)

lemma win_enum_turn_keeps:
  assumes "win_resources os res" and "\<And>s. io_keeps res (next s)"
  shows "io_keeps res (win_enum_turn os b select d i next s)"
  unfolding win_enum_turn_def using assms by (intro keep_intros win_keeps)

lemma win_enum_loop_keeps: "win_resources os res \<Longrightarrow> io_keeps res (win_enum_loop os b select d k s)"
proof (induction k arbitrary: s)
  case 0
  then show ?case unfolding win_enum_loop.simps by (intro win_enum_turn_keeps keeps_prim)
next
  case (Suc k)
  then show ?case unfolding win_enum_loop.simps by (intro win_enum_turn_keeps) auto
qed

lemma keeps_try_defer:
  assumes c: "closes fds con c" and a: "opens fds (\<lambda>x. con (h x)) a" and b: "\<And>x. io_keeps fds (b x)" and j: "\<And>e. io_keeps fds (j e)"
  shows "io_keeps fds (io_bind (io_try a) (\<lambda>r. case r of Inl e \<Rightarrow> j e | Inr x \<Rightarrow> io_defer (c (h x)) (b x)))"
  unfolding io_defer_def
  by (rule keeps_acquire [OF c a]) (intro keep_intros b j | auto simp: io_ok_def)+

lemma win_Enumerate_keeps: "win_resources os res \<Longrightarrow> io_keeps res (win_Enumerate os b select)"
  unfolding win_Enumerate_def
  by (intro keep_intros win_keeps keeps_try_defer [OF win_resourcesD(2) win_resourcesD(1)] win_enum_loop_keeps)

lemma find_turn_keeps:
  assumes "win_resources os res" and "\<And>f. io_keeps res (next f)"
  shows "io_keeps res (find_turn os p d i next f)"
  unfolding find_turn_def metadataFromDevInfo_def using assms by (intro keep_intros win_keeps devinfo_walk_keeps)

lemma find_loop_keeps: "win_resources os res \<Longrightarrow> io_keeps res (find_loop os p d k f)"
proof (induction k arbitrary: f)
  case 0
  then show ?case unfolding find_loop.simps by (intro find_turn_keeps keeps_prim)
next
  case (Suc k)
  then show ?case unfolding find_loop.simps by (intro find_turn_keeps) auto
qed

lemma findInterface_keeps: "win_resources os res \<Longrightarrow> io_keeps res (findInterface os p)"
  unfolding findInterface_def
  by (rule keeps_defer [OF win_resourcesD(2) opens_wrap [OF win_resourcesD(1)] find_loop_keeps])

lemma report_probe_keeps: "win_resources os res \<Longrightarrow> io_keeps res (report_probe os p t n ids c spec)"
proof (induction ids arbitrary: c spec)
  case (Cons i ids)
  have "io_keeps res (report_probe os p t n ids c' s')" for c' s' using Cons by blast
  with Cons.prems show ?case unfolding report_probe.simps by (intro keep_intros win_keeps)
qed (simp add: keeps_prim)

lemma readLayout_keeps: "win_resources os res \<Longrightarrow> io_keeps res (readLayout os h)"
  unfolding readLayout_def reportSpec_def split_def
  by (rule keeps_defer [OF win_resourcesD(7) readCaps_opens]) (intro keep_intros report_probe_keeps | assumption)+

lemma win_Open_opens: "win_resources os res \<Longrightarrow> opens res (\<lambda>d. WinHandle (wd_handle d)) (win_Open os expected)"
proof -
  assume os: "win_resources os res"
  let ?sys = "win_nativeOpenSystem os"
  have checked: "io_keeps res (win_open_checked ?sys expected actual h)" for actual h
    unfolding win_open_checked_def win_nativeOpenSystem_def win_open_system.simps using os
    by (intro keep_intros readLayout_keeps)
  have handle: "WinHandle (wd_handle d) = WinHandle h" if "win_open_checked sys expected actual h w = Some (Inr d, w')"
    for sys :: "'a win_open_system" and actual h w d w'
    using that by (auto simp: win_open_checked_def io_bind_conv split: option.splits if_splits)
  have "opens res WinHandle (wo_open ?sys p)" for p
    unfolding win_nativeOpenSystem_def win_open_system.simps by (rule openPath_opens [OF os])
  moreover have "closes res WinHandle (wo_close ?sys)" using win_resourcesD(5) [OF os] by (simp add: win_nativeOpenSystem_def)
  ultimately have opened: "opens res (\<lambda>d. WinHandle (wd_handle d)) (io_bind (wo_open ?sys p) (\<lambda>h.
      io_on_error (wo_close ?sys h) (win_open_checked ?sys expected actual h)))" for p actual
    by (intro opens_on_error [where con = WinHandle and h = "\<lambda>x. x"] checked handle)
  have find: "io_keeps res (wo_find ?sys p)" for p using findInterface_keeps [OF os] by (simp add: win_nativeOpenSystem_def)
  have "opens res (\<lambda>d. WinHandle (wd_handle d)) (win_openWithSystem expected ?sys)"
    by (auto simp: win_openWithSystem_def intro!: opens_prim opens_bind [OF find] opened split: option.split)
  moreover have "io_keeps res (io_check (wy_LoadHid os))"
    using win_keeps(1) [OF os] by (auto simp: io_keeps_def ask_keeps_def io_check_conv) (metis snd_conv)+
  ultimately show ?thesis unfolding win_Open_def by (intro opens_bind keeps_wrap)
qed

subsection \<open>An open device is the requested one\<close>

text \<open>Metadata that are read later never change the address.\<close>

definition same_address :: "endpoint \<Rightarrow> endpoint \<Rightarrow> bool" where
  "same_address a b \<longleftrightarrow> ep_ID b = ep_ID a \<and> ep_Path b = ep_Path a"

lemma hardwareFields_address: "same_address ep (hardwareFields i ep)"
  by (auto simp: hardwareFields_def same_address_def Let_def split: option.splits)

lemma instance_fields_address: "same_address ep (instance_fields i ep)"
  using hardwareFields_address [of ep i] by (auto simp: instance_fields_def same_address_def Let_def)

lemma devinfo_walk_ok: "io_ok (devinfo_walk os n d ep) (same_address ep)"
proof (induction n arbitrary: d ep)
  case (Suc n)
  let ?ep = "\<lambda>status buffer. case terminated buffer of
      Some t \<Rightarrow> if status = 0 then instance_fields (wy_UTF16ToString os buffer) ep else ep | None \<Rightarrow> ep"
  have ep: "same_address ep (?ep status buffer)" for status :: u64 and buffer
    using instance_fields_address [of ep] by (auto simp: same_address_def split: option.split)
  have "io_ok (devinfo_walk os n q (?ep status buffer)) (same_address ep)" for q and status :: u64 and buffer
    using ep [of status buffer] by (intro ok_conseq [OF Suc]) (simp add: same_address_def)
  then show ?case unfolding devinfo_walk.simps by (intro ok_bind [OF ok_ask] ok_split ok_return ep) auto
qed (simp add: ok_return same_address_def)

lemma metadataFromHandle_address: "io_ok (metadataFromHandle os h ep b) (\<lambda>r. same_address ep (fst r))"
proof -
  have caps: "io_ok (caps_usage os h ep' f) (\<lambda>r. same_address ep' (fst r))" for ep' f
    unfolding caps_usage_def
    by (intro ok_split ok_bind [OF ok_try [OF post_call]] ok_bind [OF ok_ask] ok_return) (simp_all add: same_address_def)
  have str: "io_ok (stringProperty os h which) (\<lambda>_. True)" for which
    unfolding stringProperty_def by (intro ok_bind [OF ok_try [OF post_call]] ok_prim)
  have strings: "io_ok (handle_strings os h ep') (same_address ep)" if "same_address ep ep'" for ep'
    unfolding handle_strings_def using that by (intro ok_bind [OF str] ok_return) (simp add: same_address_def)
  show ?thesis unfolding metadataFromHandle_def
    by (intro ok_split ok_bind [OF ok_try [OF post_call]] ok_bind [OF caps] ok_bind [where P = "same_address ep"] ok_return strings)
      (auto simp: same_address_def split: sum.splits)
qed

lemma ok_post: "io_ok m Q \<Longrightarrow> io_post m Q"
  by (auto simp: io_ok_def io_post_def)

lemma find_loop_post: "io_post (find_loop os p d k f) (\<lambda>ep. ep_ID ep = win_endpointID p \<and> ep_Path ep = p)"
proof -
  have meta: "io_post (metadataFromDevInfo os x (zero_endpoint\<lparr>ep_ID := win_endpointID p, ep_Path := p\<rparr>))
      (\<lambda>ep. ep_ID ep = win_endpointID p \<and> ep_Path ep = p)" for x
    unfolding metadataFromDevInfo_def by (rule ok_post, rule ok_conseq [OF devinfo_walk_ok]) (simp add: same_address_def)
  have turn: "io_post (find_turn os p d i next f) (\<lambda>ep. ep_ID ep = win_endpointID p \<and> ep_Path ep = p)"
    if "\<And>f. io_post (next f) (\<lambda>ep. ep_ID ep = win_endpointID p \<and> ep_Path ep = p)" for i "next" f
    unfolding find_turn_def
    by (intro post_bind [OF post_try [OF post_call]] post_split post_prim that meta)
  show ?thesis
  proof (induction k arbitrary: f)
    case 0
    show ?case unfolding find_loop.simps by (intro turn post_prim)
  next
    case (Suc k)
    then show ?case unfolding find_loop.simps by (intro turn)
  qed
qed

lemma report_probe_post:
  "found = 0 \<or> rs_Size spec = uint n - 1 \<Longrightarrow>
   io_post (report_probe os p t n ids found spec) (\<lambda>(found', spec'). found' = 0 \<or> rs_Size spec' = uint n - 1)"
proof (induction ids arbitrary: found spec)
  case Nil
  then show ?case unfolding report_probe.simps by (intro post_prim) simp
next
  case (Cons i ids)
  show ?case unfolding report_probe.simps
    by (intro post_bind [OF post_call] post_split post_prim Cons.IH) (use Cons.prems in simp_all)
qed

lemma reportSpec_post: "io_post (reportSpec os p t n) (\<lambda>spec. rs_Size spec \<in> {1..4096})"
proof -
  have "1 < uint n" if "\<not> n < 2" using that by (simp add: word_less_def)
  then show ?thesis
    unfolding reportSpec_def
    by (intro post_split post_prim post_bind [OF report_probe_post]) (auto simp: MaxReportSize_def)
qed

lemma readLayout_post:
  "io_post (readLayout os h) (\<lambda>l. rs_Size (rl_Input l) \<in> {1..4096} \<and> rs_Size (rl_Output l) \<in> {1..4096})"
  unfolding readLayout_def
  by (intro post_bind [OF post_call] post_split post_defer post_prim) (auto dest: returns_post [OF reportSpec_post])

lemma win_Open_accepted:
  "io_post (win_Open os expected) (\<lambda>d. device_accepted expected \<lparr>nd_endpoint = wd_endpoint d, nd_layout = wd_layout d\<rparr>)"
proof -
  let ?sys = "win_nativeOpenSystem os"
  have find: "io_post (wo_find ?sys p) (\<lambda>ep. ep_ID ep = win_endpointID p \<and> ep_Path ep = p)" for p
    unfolding win_nativeOpenSystem_def win_open_system.simps findInterface_def
    by (rule post_bind [OF post_call]) (rule post_defer [OF find_loop_post])
  have checked: "io_post (win_open_checked ?sys expected actual h)
      (\<lambda>d. device_accepted expected \<lparr>nd_endpoint = wd_endpoint d, nd_layout = wd_layout d\<rparr>)"
    if "ep_ID expected = ep_ID actual" "ep_Path expected = [] \<or> ep_Path expected = ep_Path actual" for actual h
    unfolding win_open_checked_def win_nativeOpenSystem_def win_open_system.simps
    by (intro post_bind [OF ok_post [OF metadataFromHandle_address]] post_split post_prim post_bind [OF readLayout_post])
      (use that in \<open>auto simp: device_accepted_def same_address_def intro!: matches_core\<close>)
  have "io_post (win_openWithSystem expected ?sys)
      (\<lambda>d. device_accepted expected \<lparr>nd_endpoint = wd_endpoint d, nd_layout = wd_layout d\<rparr>)"
    unfolding win_openWithSystem_def
    by (intro post_split post_prim post_bind [OF find] post_bind [OF post_call] post_on_error checked)
      (auto simp: win_open_address_def Let_def split: if_splits)
  then show ?thesis unfolding win_Open_def by (intro post_bind [OF post_call])
qed

interpretation windows: hid_driver "win_Open os" wd_endpoint wd_layout for os
  by unfold_locales (rule win_Open_accepted)

subsection \<open>Overlapped transfers\<close>

text \<open>What the kernel promises of overlapped requests: \<open>pend\<close> are the requests, by handle and event, whose buffer it may
  still use. A start adds its request when it succeeds or is pending; the blocking \<open>GetOverlappedResult\<close> removes it,
  whatever it answers; nothing else changes the set. \<open>starts\<close> counts the calls of \<open>ReadFile\<close> and \<open>WriteFile\<close>.\<close>

definition win_pending :: "'w win_sys \<Rightarrow> ('w \<Rightarrow> (int \<times> int) set) \<Rightarrow> ('w \<Rightarrow> nat) \<Rightarrow> bool" where
  "win_pending os pend starts \<longleftrightarrow>
     (\<forall>b h v p w e w'. wy_Start os b h v p w = (e, w') \<longrightarrow>
        starts w' = Suc (starts w) \<and>
          pend w' = (if e = None \<or> (\<exists>x. e = Some x \<and> errno_is x ERROR_IO_PENDING) then insert (h, v) (pend w) else pend w)) \<and>
     (\<forall>h v w r w'. wy_Result os h v w = Some (r, w') \<longrightarrow> pend w' = pend w - {(h, v)} \<and> starts w' = starts w) \<and>
     (\<forall>v t. io_keeps pend (wy_Wait os v t) \<and> io_keeps starts (wy_Wait os v t)) \<and>
     (\<forall>h v. ask_keeps pend (wy_Cancel os h v) \<and> ask_keeps starts (wy_Cancel os h v)) \<and>
     io_keeps pend (wy_CreateEvent os) \<and> io_keeps starts (wy_CreateEvent os) \<and>
     (\<forall>h. ask_keeps pend (wy_CloseHandle os h) \<and> ask_keeps starts (wy_CloseHandle os h))"

lemma win_pending_start:
  assumes "win_pending os pend starts" and "wy_Start os b h v p w = (e, w')"
  shows "starts w' = Suc (starts w) \<and>
    pend w' = (if e = None \<or> (\<exists>x. e = Some x \<and> errno_is x ERROR_IO_PENDING) then insert (h, v) (pend w) else pend w)"
  using assms(1) [unfolded win_pending_def, THEN conjunct1, rule_format, OF assms(2)] .

text \<open>\<open>joined pend k m\<close>: when \<open>m\<close> returns, the requests in \<open>k\<close> are over and no new one is left behind.\<close>

definition joined :: "('w \<Rightarrow> 'r set) \<Rightarrow> 'r set \<Rightarrow> ('w, 'a) io \<Rightarrow> bool" where
  "joined pend k m \<longleftrightarrow> (\<forall>w r w'. m w = Some (r, w') \<longrightarrow> pend w' \<subseteq> pend w - k)"

lemma joined_bind: "io_keeps pend m \<Longrightarrow> (\<And>x. joined pend k (f x)) \<Longrightarrow> io_ok m (\<lambda>_. True) \<Longrightarrow> joined pend k (io_bind m f)"
  unfolding joined_def io_keeps_def io_bind_conv io_ok_def by blast

lemma transfer_join_ok:
  assumes os: "win_pending os pend starts"
  shows "joined pend {(h, v)} (transfer_join os h v op buffer wait)" "io_keeps starts (transfer_join os h v op buffer wait)"
    "io_ok (transfer_join os h v op buffer wait) tr_submitted"
proof -
  have res: "joined pend {(h, v)} (io_bind (io_try (wy_Result os h v)) (\<lambda>r. io_return (g r)))" for g :: "_ \<Rightarrow> transfer"
    using os by (auto simp: joined_def io_bind_conv win_pending_def)
  have wait: "io_keeps pend (wy_Wait os v t)" "ask_keeps pend (wy_Cancel os h v)" for t
    using os by (simp_all add: win_pending_def)
  show "joined pend {(h, v)} (transfer_join os h v op buffer wait)"
    unfolding transfer_join_def Let_def
    by (intro joined_bind res keep_intros wait ok_split ok_bind [OF ok_ask] ok_prim) (auto simp: io_ok_def)
  have "io_keeps starts (wy_Result os h v)" "io_keeps starts (wy_Wait os v t)" "ask_keeps starts (wy_Cancel os h v)" for t
    using os by (auto simp: win_pending_def io_keeps_def)
  then show "io_keeps starts (transfer_join os h v op buffer wait)"
    unfolding transfer_join_def by (intro keep_intros)
  show "io_ok (transfer_join os h v op buffer wait) tr_submitted"
    unfolding transfer_join_def
    by (intro ok_split ok_bind [OF ok_try [OF post_call]] ok_bind [OF ok_ask] ok_bind [where P = "\<lambda>_. True"] ok_return)
      (auto simp: transfer_failed_def split: sum.split)
qed

text \<open>After a start the body returns with one start counted and nothing left pending.\<close>

lemma transfer_body_ok:
  assumes os: "win_pending os pend starts" and run: "transfer_body os h v buffer b wait w = Some (r, w')"
  shows "pend w' \<subseteq> pend w" "starts w' = Suc (starts w)" "\<exists>t. r = Inr t \<and> tr_submitted t"
proof -
  obtain e w1 where s: "wy_Start os b h v buffer w = (e, w1)" by fastforce
  have st: "starts w1 = Suc (starts w)"
    "pend w1 = (if e = None \<or> (\<exists>x. e = Some x \<and> errno_is x ERROR_IO_PENDING) then insert (h, v) (pend w) else pend w)"
    using win_pending_start [OF os s] by simp_all
  have res: "pend x' = pend x - {(h, v)} \<and> starts x' = starts x" if "wy_Result os h v x = Some (q, x')" for x q x'
    using os that by (simp add: win_pending_def)
  consider (none) "e = None" | (pending) x where "e = Some x" "errno_is x ERROR_IO_PENDING" | (failed) x where "e = Some x" "\<not> errno_is x ERROR_IO_PENDING"
    by (cases e) auto
  then have "pend w' \<subseteq> pend w \<and> starts w' = Suc (starts w) \<and> (\<exists>t. r = Inr t \<and> tr_submitted t)"
  proof cases
    case none
    with run s obtain q where "wy_Result os h v w1 = Some (q, w')" and r: "r = Inr (case q of
        Inl x \<Rightarrow> transfer_failed True (win_nativeError (if b then ''write'' else ''read'') x) buffer
      | Inr (done', buffer') \<Rightarrow> \<lparr>tr_done = done', tr_submitted = True, tr_error = None, tr_buffer = buffer'\<rparr>)"
      by (auto simp: transfer_body_def Let_def io_bind_conv io_ask_def)
    from res [OF this(1)] have "pend w' \<subseteq> pend w" "starts w' = Suc (starts w)" using st none by auto
    moreover have "tr_submitted (case q of
        Inl x \<Rightarrow> transfer_failed True (win_nativeError (if b then ''write'' else ''read'') x) buffer
      | Inr (done', buffer') \<Rightarrow> \<lparr>tr_done = done', tr_submitted = True, tr_error = None, tr_buffer = buffer'\<rparr>)"
      by (simp add: transfer_failed_def split: sum.split prod.split)
    ultimately show ?thesis using r by blast
  next
    case pending
    with run s have j: "transfer_join os h v (if b then ''write'' else ''read'') buffer wait w1 = Some (r, w')"
      by (auto simp: transfer_body_def Let_def io_bind_def io_ask_def)
    note join = transfer_join_ok [OF os, of h v "if b then ''write'' else ''read''" buffer wait]
    have "pend w' \<subseteq> pend w1 - {(h, v)}" using join(1) j unfolding joined_def by blast
    moreover have "starts w' = starts w1" by (rule io_keepsD [OF join(2) j])
    moreover have "\<exists>t. r = Inr t \<and> tr_submitted t" using join(3) j unfolding io_ok_def by blast
    ultimately show ?thesis using pending st by auto
  next
    case failed
    then show ?thesis using run s st by (auto simp: transfer_body_def Let_def io_bind_def io_ask_def transfer_failed_def)
  qed
  then show "pend w' \<subseteq> pend w" "starts w' = Suc (starts w)" "\<exists>t. r = Inr t \<and> tr_submitted t" by blast+
qed

lemma device_transfer_ok:
  assumes os: "win_pending os pend starts" and run: "device_transfer os d buffer b wait w = Some (r, w')"
  shows "\<exists>t. r = Inr t \<and> pend w' \<subseteq> pend w \<and> starts w' = starts w + (if tr_submitted t then 1 else 0) \<and>
    (\<not> tr_submitted t \<longrightarrow> tr_error t \<noteq> None)"
proof -
  have create: "pend x' = pend x \<and> starts x' = starts x" if "wy_CreateEvent os x = Some (q, x')" for x q x'
    using os that by (simp add: win_pending_def io_keeps_def)
  have close: "pend (snd (wy_CloseHandle os v x)) = pend x" "starts (snd (wy_CloseHandle os v x)) = starts x" for v x
    using os by (simp_all add: win_pending_def ask_keeps_def)
  obtain q w1 where q: "wy_CreateEvent os w = Some (q, w1)"
    using run by (auto simp: device_transfer_def io_bind_conv)
  show ?thesis
  proof (cases q)
    case (Inl e)
    with q run have "r = Inr (transfer_failed False (win_nativeError ''CreateEvent'' e) buffer)" "w' = w1"
      by (auto simp: device_transfer_def io_bind_def io_try_def)
    with create [OF q] show ?thesis by (simp add: transfer_failed_def)
  next
    case (Inr v)
    with q run obtain t r2 w2 where "transfer_body os (wd_handle d) v buffer b wait w1 = Some (r2, w2)"
      by (auto simp: device_transfer_def io_bind_conv)
    moreover from transfer_body_ok [OF os this] obtain t where "r2 = Inr t" "tr_submitted t" by blast
    ultimately have b: "transfer_body os (wd_handle d) v buffer b wait w1 = Some (Inr t, w2)" "tr_submitted t" by simp_all
    have "w' = snd (wy_CloseHandle os v w2)" "\<exists>t'. r = Inr t' \<and> tr_submitted t' = tr_submitted t"
      using q Inr run b(1) by (auto simp: device_transfer_def io_bind_def io_try_def io_ask_def split: prod.splits option.splits)
    then show ?thesis using transfer_body_ok(1,2) [OF os b(1)] create [OF q] close b(2) by auto
  qed
qed

lemma transfer_body_keeps: "win_resources os res \<Longrightarrow> io_keeps res (transfer_body os h v buffer b wait)"
  unfolding transfer_body_def transfer_join_def by (intro keep_intros win_keeps)

lemma transfer_body_never_fails: "io_ok (transfer_body os h v buffer b wait) (\<lambda>_. True)"
  unfolding transfer_body_def transfer_join_def
  by (intro ok_split ok_bind [OF ok_try [OF post_call]] ok_bind [OF ok_ask] ok_bind [where P = "\<lambda>_. True"] ok_prim)

lemma device_transfer_keeps: "win_resources os res \<Longrightarrow> io_keeps res (device_transfer os d buffer b wait)"
  unfolding device_transfer_def
  by (rule keeps_acquire [OF win_resourcesD(5) win_resourcesD(4)])
    (intro keep_intros transfer_body_keeps transfer_body_never_fails | assumption)+

subsection \<open>Reports\<close>

text \<open>The report that a completed native read delivered.\<close>

definition win_report_read :: "'w win_sys \<Rightarrow> win_device \<Rightarrow> report \<Rightarrow> bool" where
  "win_report_read os d rep \<longleftrightarrow>
     (let input = rl_Input (wd_layout d) in
      rp_ID rep = rs_ID input \<and>
      (\<exists>event buffer. returns (wy_Result os (wd_handle d) event) (of_int (rs_Size input + 1), buffer) \<and>
         rp_ID rep = buffer ! 0 \<and> rp_Data rep = slice buffer 1 (unat (of_int (rs_Size input + 1) :: u32))))"

lemma device_transfer_read:
  "io_post (device_transfer os d buffer b wait)
     (\<lambda>t. tr_error t = None \<longrightarrow> (\<exists>event. returns (wy_Result os (wd_handle d) event) (tr_done t, tr_buffer t)))"
proof -
  have result: "io_post (io_bind (io_try (wy_Result os h v)) (\<lambda>r. io_return (case r of Inl e \<Rightarrow> j e | Inr (n, p) \<Rightarrow> k n p)))
      (\<lambda>t. tr_error t = None \<longrightarrow> returns (wy_Result os h v) (tr_done t, tr_buffer t))"
    if "\<And>e. tr_error (j e) \<noteq> None" "\<And>n p. tr_done (k n p) = n \<and> tr_buffer (k n p) = p" for h v j k
    using that by (intro post_bind [OF post_try [OF post_call]] post_prim) (auto split: sum.split dest: that(1) [THEN notE])
  have fails: "tr_error (transfer_failed s e p) = Some e" for s e p by (simp add: transfer_failed_def)
  have join: "io_post (transfer_join os h v op buffer wait)
      (\<lambda>t. tr_error t = None \<longrightarrow> returns (wy_Result os h v) (tr_done t, tr_buffer t))" for h v op
    unfolding transfer_join_def Let_def by (rule post_bind [OF post_call], rule post_bind [OF post_call], rule result) (simp_all add: fails)
  have body: "io_post (transfer_body os h v buffer b wait)
      (\<lambda>t. tr_error t = None \<longrightarrow> returns (wy_Result os h v) (tr_done t, tr_buffer t))" for h v
    unfolding transfer_body_def Let_def
    by (rule post_bind [OF post_call]) (intro post_split result join post_prim; simp add: fails)
  have joined: "errors_join [x, Some e] \<noteq> None" for x e by (cases x) (simp_all add: errors_join_def)
  show ?thesis
    unfolding device_transfer_def
    by (intro post_bind [OF post_call] post_split post_bind [OF body] post_prim) (auto simp: fails joined split: option.split)
qed

lemma win_Read_post: "io_post (win_Read os d wait) (win_report_read os d)"
  unfolding win_Read_def Let_def
  by (intro post_split post_prim post_bind [OF device_transfer_read]) (unfold win_report_read_def Let_def, metis report.select_convs)

lemma win_Read_transfer:
  assumes "win_Read os d wait w = Some (r, w')" and "0 \<le> wait"
  obtains t where "device_transfer os d (replicate (nat (rs_Size (rl_Input (wd_layout d)) + 2)) 0) False wait w = Some (t, w')"
    "\<And>rep x. r = Inr rep \<Longrightarrow> t = Inr x \<Longrightarrow> tr_error x = None"
  using assms by (auto simp: win_Read_def Let_def io_bind_conv split: option.splits if_splits)

lemma win_Read_joins:
  assumes res: "win_resources os res" and os: "win_pending os pend starts" and run: "win_Read os d wait w = Some (r, w')"
  shows "res w' = res w \<and> pend w' \<subseteq> pend w \<and> starts w' \<le> Suc (starts w) \<and> (\<forall>rep. r = Inr rep \<longrightarrow> starts w' = Suc (starts w))"
proof (cases "0 \<le> wait")
  case True
  from win_Read_transfer [OF run this] obtain q where
    q: "device_transfer os d (replicate (nat (rs_Size (rl_Input (wd_layout d)) + 2)) 0) False wait w = Some (q, w')"
      "\<And>rep x. r = Inr rep \<Longrightarrow> q = Inr x \<Longrightarrow> tr_error x = None" by blast
  from device_transfer_ok [OF os q(1)] q(2) io_keepsD [OF device_transfer_keeps [OF res] q(1)] show ?thesis by auto
qed (use run in \<open>auto simp: win_Read_def Let_def\<close>)

lemma win_Write_joins:
  assumes res: "win_resources os res" and os: "win_pending os pend starts" and run: "win_Write os d rep w = Some (q, w')"
  shows "\<exists>out e. q = Inr (out, e) \<and> res w' = res w \<and> pend w' \<subseteq> pend w \<and>
    starts w' = starts w + (if out = OutcomeNotSubmitted then 0 else 1) \<and>
    (rp_ID rep \<noteq> rs_ID (rl_Output (wd_layout d)) \<or> int (length (rp_Data rep)) \<noteq> rs_Size (rl_Output (wd_layout d)) \<longrightarrow>
       out = OutcomeNotSubmitted \<and> w' = w) \<and>
    (e = None \<longrightarrow> out = OutcomeCompleted)"
proof (cases "rp_ID rep = rs_ID (rl_Output (wd_layout d)) \<and> int (length (rp_Data rep)) = rs_Size (rl_Output (wd_layout d))")
  case fits: True
  let ?done = "\<lambda>t. tr_done t = of_nat (length (rp_ID rep # rp_Data rep))"
  let ?out = "\<lambda>t. if \<not> tr_submitted t then (OutcomeNotSubmitted, tr_error t) else if ?done t then (OutcomeCompleted, tr_error t)
    else (OutcomeUnknown, case tr_error t of None \<Rightarrow> Some (driver_error ''write'' KindIO ''short native write'') | Some e \<Rightarrow> Some e)"
  obtain q' where t': "device_transfer os d (rp_ID rep # rp_Data rep) True 0 w = Some (q', w')"
    using run fits by (auto simp: win_Write_def Let_def io_bind_conv)
  from device_transfer_ok [OF os this] obtain t where t: "q' = Inr t" "pend w' \<subseteq> pend w"
    "starts w' = starts w + (if tr_submitted t then 1 else 0)" "\<not> tr_submitted t \<longrightarrow> tr_error t \<noteq> None" by blast
  have "q = Inr (?out t)" using t(1) t' run fits unfolding win_Write_def Let_def io_bind_def by simp
  then show ?thesis using t fits io_keepsD [OF device_transfer_keeps [OF res] t'] by (auto split: option.splits)
qed (use run in \<open>auto simp: win_Write_def Let_def\<close>)

end
