(* ===== verification/WindowsInventory.thy ===== *)
theory WindowsInventory
  imports WindowsDriver
begin

text \<open>
  The filtered inventory of the Windows HID driver: what holds of the snapshot after every interface, and which interfaces
  are opened at all.
\<close>

subsection \<open>The filtered inventory\<close>

text \<open>Inspecting an interface through its handle changes known fields only to known fields.\<close>

definition known_more :: "endpoint \<Rightarrow> endpoint \<Rightarrow> bool" where
  "known_more a b \<longleftrightarrow>
     (fd_Known (ep_VendorID a) \<longrightarrow> fd_Known (ep_VendorID b)) \<and> (fd_Known (ep_ProductID a) \<longrightarrow> fd_Known (ep_ProductID b)) \<and>
     (fd_Known (ep_Usage a) \<longrightarrow> fd_Known (ep_Usage b)) \<and> ep_Bus b = ep_Bus a"

lemma known_more_refl [simp]: "known_more a a"
  by (simp add: known_more_def)

lemma known_more_trans: "known_more a b \<Longrightarrow> known_more b c \<Longrightarrow> known_more a c"
  by (simp add: known_more_def)

lemma metadataFromHandle_known: "io_ok (metadataFromHandle os h ep b) (\<lambda>r. known_more ep (fst r))"
proof -
  have caps: "io_ok (caps_usage os h ep' f) (\<lambda>r. known_more ep' (fst r))" for ep' f
    unfolding caps_usage_def
    by (intro ok_split ok_bind [OF ok_try [OF post_call]] ok_bind [OF ok_ask] ok_return) (simp_all add: known_more_def)
  have str: "io_ok (stringProperty os h which) (\<lambda>_. True)" for which
    unfolding stringProperty_def by (intro ok_bind [OF ok_try [OF post_call]] ok_prim)
  have strings: "io_ok (handle_strings os h ep') (known_more ep)" if "known_more ep ep'" for ep'
    unfolding handle_strings_def using that by (intro ok_bind [OF str] ok_return) (simp add: known_more_def)
  show ?thesis unfolding metadataFromHandle_def
    by (intro ok_split ok_bind [OF ok_try [OF post_call]] ok_bind [OF caps] ok_bind [where P = "known_more ep"] ok_return strings)
      (auto simp: known_more_def split: sum.splits)
qed

lemma known_more_determined: "known_more a b \<Longrightarrow> satisfies a f \<Longrightarrow> \<not> undetermined b f"
  by (auto simp: known_more_def satisfies_def undetermined_def constraints_def split: option.splits)

text \<open>What holds of the snapshot after \<open>n\<close> interfaces.\<close>

definition filtered_inv :: "hid_filter \<Rightarrow> nat \<Rightarrow> hid_snapshot \<Rightarrow> bool" where
  "filtered_inv f n s \<longleftrightarrow>
     length (sn_Endpoints s) \<le> n \<and> length (sn_Warnings s) \<le> 2 * n \<and>
     (\<forall>ep \<in> set (sn_Endpoints s). ep_ID ep = win_endpointID (ep_Path ep) \<and> (satisfies ep f \<or> \<not> sn_Complete s \<and> undetermined ep f))"

lemma filtered_inv_steps:
  "filtered_inv f n s \<Longrightarrow> filtered_inv f (Suc n) s"
  "filtered_inv f n s \<Longrightarrow> filtered_inv f (Suc n) (win_incomplete e s)"
  "filtered_inv f n s \<Longrightarrow> undetermined ep f \<Longrightarrow> ep_ID ep = win_endpointID (ep_Path ep) \<Longrightarrow>
   filtered_inv f (Suc n) (win_add ep (win_incomplete e s))"
  by (auto simp: filtered_inv_def win_incomplete_def win_warning_def win_add_def)

lemma candidate_address: "io_ok (candidate os d i pd) (\<lambda>ep. ep_ID ep = win_endpointID (ep_Path ep))"
proof -
  have reads: "io_ok (uint16FromProperty rd p) (\<lambda>_. True)" for rd :: "nat \<Rightarrow> ('a, u16 \<times> u32 \<times> u32) io" and p
    unfolding uint16FromProperty_def by (intro ok_bind [OF ok_try [OF post_call]] ok_prim)
  then have us: "io_ok (usageFromProperties rd) (\<lambda>_. True)" for rd :: "nat \<Rightarrow> ('a, u16 \<times> u32 \<times> u32) io"
    unfolding usageFromProperties_def by (intro ok_bind [OF reads] ok_prim)
  have iface: "io_ok (metadataFromInterface os d i ep) (same_address ep)" for ep
    unfolding metadataFromInterface_def metadataFromInterfaceProperties_def
    by (intro ok_bind [OF us] ok_bind [OF reads] ok_split ok_return) (simp add: same_address_def Let_def)
  show ?thesis unfolding candidate_def metadataFromDevInfo_def
    by (intro ok_bind [OF devinfo_walk_ok] ok_conseq [OF iface]) (simp add: same_address_def)
qed

lemma inspect_handle_ok:
  "io_ok (inspect_handle (nativeInventorySystem os) ep b s)
     (\<lambda>(ep', failure, s'). known_more ep ep' \<and> same_address ep ep' \<and> (s' = s \<or> (\<exists>e. s' = win_warning e s)))"
proof -
  have meta: "io_ok (metadataFromHandle os h ep b) (\<lambda>r. known_more ep (fst r) \<and> same_address ep (fst r))" for h
    using metadataFromHandle_known [of os h ep b] metadataFromHandle_address [of os h ep b] unfolding io_ok_def by blast
  show ?thesis
    unfolding inspect_handle_def nativeInventorySystem_def inventory_system.simps
    by (intro ok_split ok_bind [OF ok_try [OF post_call]] ok_bind [OF meta] ok_bind [OF ok_ask] ok_return)
      (auto simp: same_address_def split: option.split)
qed

lemma append_filtered:
  assumes "filtered_inv f n s" and "ep_ID ep = win_endpointID (ep_Path ep)"
  shows "io_ok (appendInventoryEndpoint s ep b (Some (\<lambda>ep. matchFilter ep f)) (nativeInventorySystem os)) (filtered_inv f (Suc n))"
proof -
  have "filtered_inv f (Suc n) (if matchFilter ep' f = (False, False) then s'
      else win_add ep' (case failure of None \<Rightarrow> s' | Some e \<Rightarrow> win_incomplete (interface_error ep' e) s'))"
    if "satisfies ep f" "known_more ep ep'" "same_address ep ep'" "s' = s \<or> (\<exists>e. s' = win_warning e s)" for ep' s' failure
    using assms that known_more_determined [OF that(2,1)]
    by (auto simp: filtered_inv_def matchFilter_spec win_add_def win_incomplete_def win_warning_def same_address_def split: option.split)
  then have "io_ok (append_inspected (nativeInventorySystem os) (Some (\<lambda>ep. matchFilter ep f)) ep b s) (filtered_inv f (Suc n))"
    if "satisfies ep f"
    unfolding append_inspected_def using that by (intro ok_bind [OF inspect_handle_ok] ok_split ok_return) auto
  with assms show ?thesis
    unfolding appendInventoryEndpoint_def matchFilter_spec option.case prod.case
    by (intro ok_split ok_return) (auto intro: filtered_inv_steps)
qed

lemma win_enum_turn_filtered:
  assumes "\<And>s. filtered_inv f (Suc n) s \<Longrightarrow> io_ok (next s) (filtered_inv f m)" and "filtered_inv f n s" and "n < m"
  shows "io_ok (win_enum_turn os b (Some (\<lambda>ep. matchFilter ep f)) d i next s) (filtered_inv f m)"
proof -
  have "filtered_inv f m s" "filtered_inv f m (win_incomplete e s)" for e
    using assms(2,3) by (auto simp: filtered_inv_def win_incomplete_def win_warning_def)
  with assms(1,2) show ?thesis
    unfolding win_enum_turn_def
    by (intro ok_split ok_bind [OF ok_try [OF post_call]] ok_bind [OF candidate_address] ok_bind [OF append_filtered] ok_return)
      (auto intro: filtered_inv_steps)
qed

lemma win_enum_loop_filtered:
  "filtered_inv f n s \<Longrightarrow> io_ok (win_enum_loop os b (Some (\<lambda>ep. matchFilter ep f)) d k s) (filtered_inv f (n + Suc k))"
proof (induction k arbitrary: n s)
  case 0
  then show ?case unfolding win_enum_loop.simps by (intro win_enum_turn_filtered ok_return) auto
next
  case (Suc k)
  then show ?case unfolding win_enum_loop.simps
    by (intro win_enum_turn_filtered [where n = n]) (use Suc.IH [of "Suc n"] in \<open>auto simp del: win_enum_loop.simps\<close>)
qed

lemma win_platformEnumerate_filtered:
  "io_ok (win_platformEnumerate os b f) (\<lambda>(s, e). filtered_inv f 129 s \<and> (e \<noteq> None \<longrightarrow> \<not> sn_Complete s))"
proof -
  have "filtered_inv f 0 (win_snapshot c)" for c by (simp add: filtered_inv_def win_snapshot_def)
  note loop = win_enum_loop_filtered [OF this [of True], where k = MaxInventoryDevices]
  have "filtered_inv f 129 (win_snapshot c)" for c by (simp add: filtered_inv_def win_snapshot_def)
  then show ?thesis
    unfolding win_platformEnumerate_def win_Enumerate_def
    by (intro ok_split ok_bind [OF ok_ask] ok_bind [OF ok_try [OF post_call]] ok_defer ok_bind [OF loop] ok_return)
      (auto simp: win_snapshot_def MaxInventoryDevices_def)
qed

text \<open>The interfaces that an inventory opens. \<open>opened\<close> is the sequence of the paths given to \<open>CreateFile\<close>; no other call
  changes it.\<close>

definition win_opened :: "'w win_sys \<Rightarrow> ('w \<Rightarrow> u16 list list) \<Rightarrow> bool" where
  "win_opened os opened \<longleftrightarrow>
     (\<forall>p a b w r w'. wy_CreateFile os p a b w = Some (r, w') \<longrightarrow> opened w' = opened w @ [p]) \<and>
     io_keeps opened (wy_ClassDevs os) \<and> (\<forall>d. ask_keeps opened (wy_DestroyList os d)) \<and>
     (\<forall>h. ask_keeps opened (wy_CloseHandle os h)) \<and>
     (\<forall>h. ask_keeps opened (wy_Preparsed os h)) \<and> (\<forall>p. ask_keeps opened (wy_FreePreparsed os p)) \<and>
     ask_keeps opened (wy_LoadHid os) \<and> (\<forall>d i. ask_keeps opened (wy_EnumInterfaces os d i)) \<and>
     (\<forall>d i. ask_keeps opened (wy_DetailSize os d i)) \<and> (\<forall>d i n. ask_keeps opened (wy_Detail os d i n)) \<and>
     (\<forall>d i p. ask_keeps opened (wy_Property os d i p)) \<and> (\<forall>d. ask_keeps opened (wy_DeviceID os d)) \<and>
     (\<forall>d. ask_keeps opened (wy_Parent os d)) \<and> (\<forall>h. ask_keeps opened (wy_Attributes os h)) \<and>
     (\<forall>p. ask_keeps opened (wy_Caps os p)) \<and> (\<forall>h s. ask_keeps opened (wy_String os h s))"

lemma win_openedD:
  assumes "win_opened os opened"
  shows "wy_CreateFile os p a b w = Some (r, w') \<Longrightarrow> opened w' = opened w @ [p]"
    and opened_keeps: "io_keeps opened (wy_ClassDevs os)" "ask_keeps opened (wy_DestroyList os x)" "ask_keeps opened (wy_CloseHandle os h)"
      "ask_keeps opened (wy_Preparsed os h)" "ask_keeps opened (wy_FreePreparsed os x)" "ask_keeps opened (wy_LoadHid os)"
      "ask_keeps opened (wy_EnumInterfaces os x n)" "ask_keeps opened (wy_DetailSize os x y)" "ask_keeps opened (wy_Detail os x y u)"
      "ask_keeps opened (wy_Property os x y n)" "ask_keeps opened (wy_DeviceID os u)" "ask_keeps opened (wy_Parent os u)"
      "ask_keeps opened (wy_Attributes os h)" "ask_keeps opened (wy_Caps os h)" "ask_keeps opened (wy_String os h s)"
  using assms by (auto simp: win_opened_def)

text \<open>\<open>appends log P m\<close>: a run of \<open>m\<close> appends to the log only entries that satisfy \<open>P\<close>.\<close>

definition appends :: "('w \<Rightarrow> 'l list) \<Rightarrow> ('l \<Rightarrow> bool) \<Rightarrow> ('w, 'a) io \<Rightarrow> bool" where
  "appends log P m \<longleftrightarrow> (\<forall>w r w'. m w = Some (r, w') \<longrightarrow> (\<exists>ls. log w' = log w @ ls \<and> list_all P ls))"

lemma appends_keeps: "io_keeps log m \<Longrightarrow> appends log P m"
  unfolding appends_def io_keeps_def by (metis append_Nil2 list.pred_inject(1))

lemma appends_bind:
  assumes "appends log P m" and "\<And>x. returns m x \<Longrightarrow> appends log P (k x)"
  shows "appends log P (io_bind m k)"
  unfolding appends_def
proof (intro allI impI)
  fix w r w' assume "io_bind m k w = Some (r, w')"
  then consider e where "m w = Some (Inl e, w')" | x w1 where "m w = Some (Inr x, w1)" "k x w1 = Some (r, w')"
    by (auto simp: io_bind_conv)
  then show "\<exists>ls. log w' = log w @ ls \<and> list_all P ls"
  proof cases
    case 1
    with assms(1) show ?thesis unfolding appends_def by blast
  next
    case (2 x w1)
    from assms(1) 2(1) obtain l1 where "log w1 = log w @ l1" "list_all P l1" unfolding appends_def by blast
    moreover from assms(2) [of x] returnsI [of m w x w1] 2 obtain l2 where "log w' = log w1 @ l2" "list_all P l2"
      unfolding appends_def by blast
    ultimately show ?thesis by (intro exI [of _ "l1 @ l2"]) simp
  qed
qed

lemma appends_try: "appends log P m \<Longrightarrow> appends log P (io_try m)"
  by (auto simp: appends_def)

lemma appends_wrap: "appends log P m \<Longrightarrow> appends log P (io_wrap g m)"
  by (fastforce simp: appends_def io_wrap_conv)

lemma appends_defer: "appends log P m \<Longrightarrow> ask_keeps log c \<Longrightarrow> appends log P (io_defer c m)"
  by (auto simp: appends_def io_defer_conv ask_keeps_def)

lemma appends_split:
  "(b \<Longrightarrow> appends log P m) \<Longrightarrow> (\<not> b \<Longrightarrow> appends log P n) \<Longrightarrow> appends log P (if b then m else n)"
  "(\<And>x. appends log P (j x)) \<Longrightarrow> (\<And>x. appends log P (k x)) \<Longrightarrow> appends log P (case z of Inl x \<Rightarrow> j x | Inr x \<Rightarrow> k x)"
  "(\<And>x y. p = (x, y) \<Longrightarrow> appends log P (h x y)) \<Longrightarrow> appends log P (case p of (x, y) \<Rightarrow> h x y)"
  "appends log P m \<Longrightarrow> (\<And>x. appends log P (l x)) \<Longrightarrow> appends log P (case q of None \<Rightarrow> m | Some x \<Rightarrow> l x)"
  by (auto split: sum.splits prod.splits option.splits)

lemmas appends_intros = appends_split appends_bind appends_try appends_wrap appends_keeps [OF keeps_prim(1)] appends_keeps [OF keeps_ask]

text \<open>An interface that may be opened: the metadata read without opening it satisfy the filter.\<close>

definition may_open :: "'w win_sys \<Rightarrow> hid_filter \<Rightarrow> u16 list \<Rightarrow> bool" where
  "may_open os f wide \<longleftrightarrow>
     (\<exists>d i pd ep. returns (candidate os d i pd) ep \<and> satisfies ep f \<and> wy_UTF16Ptr os (ep_Path ep) = Inr wide)"

lemma handle_reads_keep:
  assumes "win_opened os opened"
  shows "io_keeps opened (metadataFromHandle os h ep b)" "io_keeps opened (interfacePath os d i)" "io_keeps opened (candidate os d i pd)"
proof -
  have walk: "io_keeps opened (devinfo_walk os n q ep)" for n q ep
  proof (induction n arbitrary: q ep)
    case (Suc n)
    show ?case unfolding devinfo_walk.simps using Suc assms by (intro keep_intros opened_keeps)
  qed (simp add: keeps_prim)
  show "io_keeps opened (candidate os d i pd)"
    unfolding candidate_def metadataFromDevInfo_def metadataFromInterface_def metadataFromInterfaceProperties_def
      usageFromProperties_def uint16FromProperty_def
    using assms by (intro keep_intros opened_keeps walk)
  show "io_keeps opened (metadataFromHandle os h ep b)"
    unfolding metadataFromHandle_def caps_usage_def readCaps_def handle_strings_def stringProperty_def
    using assms by (intro keep_intros opened_keeps)
  show "io_keeps opened (interfacePath os d i)"
    unfolding interfacePath_def using assms by (intro keep_intros opened_keeps)
qed

lemma openPath_appends:
  assumes "win_opened os opened" and "\<And>wide. wy_UTF16Ptr os path = Inr wide \<Longrightarrow> P wide"
  shows "appends opened P (openPath os path a b)"
proof -
  have "appends opened P (wy_CreateFile os wide a b)" if "P wide" for wide
    using win_openedD(1) [OF assms(1)] that unfolding appends_def by (metis list.pred_inject)
  then show ?thesis
    using assms(2) unfolding openPath_def by (auto intro: appends_wrap appends_keeps keeps_prim split: sum.split)
qed

lemma append_appends:
  assumes os: "win_opened os opened" and ep: "returns (candidate os d i pd) ep"
  shows "appends opened (may_open os f)
    (appendInventoryEndpoint s ep b (Some (\<lambda>ep. matchFilter ep f)) (nativeInventorySystem os))"
proof -
  have "appends opened (may_open os f) (openPath os (ep_Path ep) 0 False)" if "satisfies ep f"
    using ep that by (intro openPath_appends [OF os]) (unfold may_open_def, blast)
  then have "appends opened (may_open os f) (append_inspected (nativeInventorySystem os) (Some (\<lambda>ep. matchFilter ep f)) ep b s)"
    if "satisfies ep f"
    unfolding append_inspected_def inspect_handle_def nativeInventorySystem_def inventory_system.simps
    using that by (intro appends_intros appends_keeps [OF handle_reads_keep(1) [OF os]] opened_keeps [OF os])
  then show ?thesis
    unfolding appendInventoryEndpoint_def matchFilter_spec option.case prod.case by (intro appends_intros) auto
qed

lemma win_enum_loop_appends:
  assumes os: "win_opened os opened"
  shows "appends opened (may_open os f) (win_enum_loop os b (Some (\<lambda>ep. matchFilter ep f)) d k s)"
proof -
  have turn: "appends opened (may_open os f) (win_enum_turn os b (Some (\<lambda>ep. matchFilter ep f)) d i next s)"
    if "\<And>s. appends opened (may_open os f) (next s)" for i "next" s
    unfolding win_enum_turn_def boolCall_def
    by (intro appends_intros appends_keeps [OF keeps_prim(2)] appends_keeps [OF handle_reads_keep(2) [OF os]]
      appends_keeps [OF handle_reads_keep(3) [OF os]] append_appends [OF os] opened_keeps [OF os] that)
  show ?thesis
  proof (induction k arbitrary: s)
    case 0
    show ?case unfolding win_enum_loop.simps by (intro turn appends_keeps keeps_prim)
  next
    case (Suc k)
    then show ?case unfolding win_enum_loop.simps by (intro turn)
  qed
qed

lemma win_platformEnumerate_appends: "win_opened os opened \<Longrightarrow> appends opened (may_open os f) (win_platformEnumerate os b f)"
  unfolding win_platformEnumerate_def win_Enumerate_def
  by (intro appends_intros appends_defer win_enum_loop_appends appends_keeps [OF keeps_prim(1)] appends_keeps [OF opened_keeps(1)] opened_keeps)

end
