(* ===== verification/WindowsMachine.thy ===== *)
theory WindowsMachine
  imports WindowsInventory
begin

text \<open>
  The properties of the Windows HID driver, with a sample machine on which the model of the driver runs.
\<close>

subsection \<open>A sample machine\<close>

text \<open>One HID interface with the path \<open>h1\<close>: a security key with reports of 64 bytes. Every native request is pending at
  first. The world holds the open resources, the pending requests, the number of requests and the paths that were opened.\<close>

record win_world =
  ww_handles :: "nat list"
  ww_lists :: "nat list"
  ww_preparsed :: "nat list"
  ww_pending :: "(int \<times> int) list"
  ww_starts :: nat
  ww_opened :: "u16 list list"

abbreviation win_start :: win_world where
  "win_start \<equiv> \<lparr>ww_handles = [], ww_lists = [], ww_preparsed = [], ww_pending = [], ww_starts = 0, ww_opened = []\<rparr>"

definition fresh_number :: "nat list \<Rightarrow> nat" where
  "fresh_number ns = Suc (sum_list ns)"

definition sample_win :: "win_world win_sys" where
  "sample_win =
     \<lparr>wy_LoadHid = (\<lambda>w. (None, w)),
      wy_ClassDevs = (\<lambda>w. let n = fresh_number (ww_lists w) in Some (Inr (int n), w\<lparr>ww_lists := n # ww_lists w\<rparr>)),
      wy_DestroyList = (\<lambda>d w. (None, w\<lparr>ww_lists := filter (\<lambda>n. int n \<noteq> d) (ww_lists w)\<rparr>)),
      wy_EnumInterfaces = (\<lambda>d i w. (if i = 0 then (1, 0, 0) else (0, ERROR_NO_MORE_ITEMS, 0), w)),
      wy_DetailSize = (\<lambda>d i w. ((0, ERROR_INSUFFICIENT_BUFFER, 10), w)),
      wy_Detail = (\<lambda>d i n w. ((1, 0, 10, [8, 0, 104, 49, 0], 7), w)),
      wy_Property = (\<lambda>d i p w. ((1, 0, if p = 2 then 0xF1D0 else if p = 3 then 1 else if p = 5 then 0x1050 else 0x0407, DEVPROP_TYPE_UINT16, 2), w)),
      wy_DeviceID = (\<lambda>d w. ((13, []), w)),
      wy_Parent = (\<lambda>d w. ((13, 0), w)),
      wy_Attributes = (\<lambda>h w. ((1, 0, 0x1050, 0x0407), w)),
      wy_Preparsed = (\<lambda>h w. let n = fresh_number (ww_preparsed w) in ((1, 0, int n), w\<lparr>ww_preparsed := n # ww_preparsed w\<rparr>)),
      wy_FreePreparsed = (\<lambda>p w. (None, w\<lparr>ww_preparsed := filter (\<lambda>n. int n \<noteq> p) (ww_preparsed w)\<rparr>)),
      wy_Caps = (\<lambda>p w. ((0x110000, \<lparr>wc_Usage = 1, wc_UsagePage = 0xF1D0, wc_InputLength = 65, wc_OutputLength = 65\<rparr>), w)),
      wy_InitReport = (\<lambda>t i p n w. (if i = 0 then 0x110000 else 0xc0110010, w)),
      wy_String = (\<lambda>h s w. ((0, ERROR_INVALID_DATA, []), w)),
      wy_UTF16ToString = map (\<lambda>c. char_of (unat c)),
      wy_UTF16Ptr = (\<lambda>s. Inr (map (\<lambda>c. of_nat (of_char c)) s)),
      wy_CreateFile = (\<lambda>p a b w. let n = fresh_number (ww_handles w) in
        Some (Inr (int n), w\<lparr>ww_handles := n # ww_handles w, ww_opened := ww_opened w @ [p]\<rparr>)),
      wy_CloseHandle = (\<lambda>h w. (None, w\<lparr>ww_handles := filter (\<lambda>n. int n \<noteq> h) (ww_handles w)\<rparr>)),
      wy_CreateEvent = (\<lambda>w. let n = fresh_number (ww_handles w) in Some (Inr (int n), w\<lparr>ww_handles := n # ww_handles w\<rparr>)),
      wy_Start = (\<lambda>b h v p w. (Some (Errno ERROR_IO_PENDING), w\<lparr>ww_pending := (h, v) # ww_pending w, ww_starts := Suc (ww_starts w)\<rparr>)),
      wy_Wait = (\<lambda>v t w. Some (Inr 0, w)),
      wy_Cancel = (\<lambda>h v w. (None, w)),
      wy_Result = (\<lambda>h v w. Some (Inr (65, replicate 66 0), w\<lparr>ww_pending := filter (\<lambda>p. p \<noteq> (h, v)) (ww_pending w)\<rparr>))\<rparr>"

definition win_res :: "win_world \<Rightarrow> win_resource set" where
  "win_res w = (WinHandle \<circ> int) ` set (ww_handles w) \<union> (WinList \<circ> int) ` set (ww_lists w) \<union> (WinPreparsed \<circ> int) ` set (ww_preparsed w)"

definition win_pend :: "win_world \<Rightarrow> (int \<times> int) set" where
  "win_pend w = set (ww_pending w)"

lemma fresh_number: "x \<in> set ns \<Longrightarrow> x \<noteq> fresh_number ns"
  using member_le_sum_list [of x ns] by (auto simp: fresh_number_def)

lemma fresh_filter: "filter (\<lambda>n. int n \<noteq> int (fresh_number ns)) ns = ns"
  by (rule filter_True) (simp add: fresh_number)

lemma sample_win_resources: "win_resources sample_win win_res"
proof -
  have calls: "opens win_res WinList (wy_ClassDevs sample_win)" "closes win_res WinList (wy_DestroyList sample_win)"
    "opens win_res WinHandle (wy_CreateFile sample_win p a b)" "opens win_res WinHandle (wy_CreateEvent sample_win)"
    "closes win_res WinHandle (wy_CloseHandle sample_win)" "closes win_res WinPreparsed (wy_FreePreparsed sample_win)"
    "opens win_res WinPreparsed (boolCall True (wy_Preparsed sample_win h))" for p a b h
    by (auto simp: opens_def closes_def win_res_def sample_win_def Let_def boolCall_def bool_error_def io_bind_def io_ask_def
      dest: fresh_number)
  show ?thesis unfolding win_resources_def
    by (intro conjI allI calls) (simp_all add: sample_win_def ask_keeps_def io_keeps_def win_res_def)
qed

lemma sample_win_pending: "win_pending sample_win win_pend ww_starts"
  by (auto simp: win_pending_def sample_win_def io_keeps_def ask_keeps_def win_pend_def errno_is_def errors_is_def Let_def)

lemma sample_win_opened: "win_opened sample_win ww_opened"
  by (simp add: win_opened_def sample_win_def io_keeps_def ask_keeps_def Let_def)

definition sample_interface :: endpoint where
  "sample_interface = zero_endpoint\<lparr>ep_ID := ''windows:h1'', ep_Path := ''h1''\<rparr>"

definition sample_key :: endpoint where
  "sample_key = sample_interface\<lparr>ep_VendorID := known 0x1050, ep_ProductID := known 0x0407, ep_Usage := known \<lparr>us_Page = 0xF1D0, us_ID = 1\<rparr>\<rparr>"

definition sample_win_device :: win_device where
  "sample_win_device =
     \<lparr>wd_handle = 1, wd_endpoint = sample_key,
      wd_layout = \<lparr>rl_Input = \<lparr>rs_ID = 0, rs_Size = 64\<rparr>, rl_Output = \<lparr>rs_ID = 0, rs_Size = 64\<rparr>\<rparr>\<rparr>"

lemma sample_win_chars: "char_of (104 :: nat) = CHR ''h''" "char_of (49 :: nat) = CHR ''1''"
  by code_simp+

lemma sample_win_path: "interfacePath sample_win d i w = Some (Inr (''h1'', 7), w)"
  by (simp add: interfacePath_def sample_win_def io_bind_def io_ask_def io_wrap_def boolCall_def bool_error_def errno_is_def
    detail_path_def terminated_def MaxMetadataSize_def ERROR_INSUFFICIENT_BUFFER_def sample_win_chars)

lemma sample_win_devinfo: "metadataFromDevInfo sample_win x ep w = Some (Inr ep, w)"
  by (simp add: metadataFromDevInfo_def numeral_eq_Suc io_bind_def io_ask_def sample_win_def terminated_def)

lemma sample_win_caps: "readCaps sample_win h w =
   Some (Inr (\<lparr>wc_Usage = 1, wc_UsagePage = 0xF1D0, wc_InputLength = 65, wc_OutputLength = 65\<rparr>, int (fresh_number (ww_preparsed w))),
     w\<lparr>ww_preparsed := fresh_number (ww_preparsed w) # ww_preparsed w\<rparr>)"
  by (simp add: readCaps_def io_wrap_def boolCall_def bool_error_def io_bind_def io_ask_def sample_win_def Let_def hidpSuccess_def)

lemma sample_win_free: "wy_FreePreparsed sample_win (int (fresh_number (ww_preparsed w)))
    (w\<lparr>ww_preparsed := fresh_number (ww_preparsed w) # ww_preparsed w\<rparr>) = (None, w)"
  by (simp add: sample_win_def fresh_filter [simplified])

lemma sample_win_metadata: "metadataFromHandle sample_win h sample_interface b w = Some (Inr (sample_key, None), w)"
proof -
  have str: "stringProperty sample_win h which v = Some (Inr unknown_text, v)" for which v
    by (simp add: stringProperty_def boolCall_def bool_error_def io_bind_def io_try_def io_ask_def sample_win_def ERROR_INVALID_DATA_def)
  have attr: "boolCall True (wy_Attributes sample_win h) v = Some (Inr (0x1050, 0x0407), v)" for v
    by (simp add: boolCall_def bool_error_def io_bind_def io_ask_def sample_win_def)
  have "caps_usage sample_win h ep [] v = Some (Inr (ep\<lparr>ep_Usage := known \<lparr>us_Page = 0xF1D0, us_ID = 1\<rparr>\<rparr>, []), v)" for ep v
    by (simp add: caps_usage_def io_bind_def io_try_def sample_win_caps io_ask_def sample_win_free)
  then show ?thesis
    by (simp add: metadataFromHandle_def io_bind_def io_try_def attr handle_strings_def str errors_join_def)
      (simp add: sample_key_def sample_interface_def zero_endpoint_def)
qed

lemma sample_win_spec: "reportSpec sample_win p t 65 w = Some (Inr \<lparr>rs_ID = 0, rs_Size = 64\<rparr>, w)"
proof -
  have "report_probe sample_win p t 65 ids found spec w = Some (Inr (found, spec), w)" if "0 \<notin> set ids" for ids found spec
    using that by (induction ids) (simp_all add: io_bind_def io_ask_def sample_win_def hidpSuccess_def hidpReportDoesNotExist_def)
  moreover have "wy_InitReport sample_win t 0 p 65 w = (0x110000, w)" by (simp add: sample_win_def)
  moreover have "[0..<256] = 0 # [1..<256]" by (simp add: upt_rec)
  ultimately have "report_probe sample_win p t 65 [0..<256] 0 \<lparr>rs_ID = 0, rs_Size = 0\<rparr> w = Some (Inr (1, \<lparr>rs_ID = 0, rs_Size = 64\<rparr>), w)"
    by (simp add: io_bind_def io_ask_def hidpSuccess_def del: upt_rec_numeral)
  then show ?thesis by (simp add: reportSpec_def MaxReportSize_def io_bind_def del: upt_rec_numeral)
qed

lemma sample_win_layout: "readLayout sample_win h w = Some (Inr (wd_layout sample_win_device), w)"
  by (simp add: readLayout_def io_bind_def sample_win_caps io_defer_eq sample_win_spec sample_win_free)
    (simp add: sample_win_device_def)

lemma sample_win_enum:
  "wy_EnumInterfaces sample_win d 0 w = ((1, 0, 0), w)" "0 < i \<Longrightarrow> wy_EnumInterfaces sample_win d i w = ((0, ERROR_NO_MORE_ITEMS, 0), w)"
  by (simp_all add: sample_win_def)

lemma sample_win_max: "\<exists>k. MaxInventoryDevices = Suc (Suc k)"
  by (rule exI [of _ 126]) (simp add: MaxInventoryDevices_def)

lemma sample_win_list:
  "wy_LoadHid sample_win w = (None, w)" "wy_ClassDevs sample_win win_start = Some (Inr 1, win_start\<lparr>ww_lists := [1]\<rparr>)"
  "wy_DestroyList sample_win 1 (win_start\<lparr>ww_lists := [1], ww_opened := ls\<rparr>) = (None, win_start\<lparr>ww_opened := ls\<rparr>)"
  "wy_DestroyList sample_win 1 (win_start\<lparr>ww_lists := [1]\<rparr>) = (None, win_start)"
  by (simp_all add: sample_win_def Let_def fresh_number_def)

lemma sample_win_find: "findInterface sample_win ''h1'' win_start = Some (Inr sample_interface, win_start)"
proof -
  have turn: "find_turn sample_win ''h1'' d 0 next f w = Some (Inr sample_interface, w)" for d "next" f w
    by (simp add: find_turn_def boolCall_def bool_error_def io_bind_def io_try_def io_ask_def MaxInventoryDevices_def sample_win_enum
      sample_win_path sample_win_devinfo sample_interface_def win_endpointID_def)
  obtain k where k: "MaxInventoryDevices = Suc k" using sample_win_max by blast
  then have "MaxInventoryDevices - Suc k = 0" by linarith
  then have "find_loop sample_win ''h1'' d (Suc k) f w = Some (Inr sample_interface, w)" for d f w
    by (simp add: turn)
  then have "find_loop sample_win ''h1'' d MaxInventoryDevices f w = Some (Inr sample_interface, w)" for d f w
    by (simp only: k)
  then show ?thesis
    by (simp add: findInterface_def io_wrap_def io_bind_def io_defer_eq sample_win_list [simplified])
qed

lemma sample_win_create:
  "openPath sample_win ''h1'' a b w =
   Some (Inr (int (fresh_number (ww_handles w))), w\<lparr>ww_handles := fresh_number (ww_handles w) # ww_handles w, ww_opened := ww_opened w @ [[104, 49]]\<rparr>)"
  by (simp add: openPath_def io_wrap_def sample_win_def Let_def)

lemma sample_win_open:
  "win_Open sample_win sample_interface win_start = Some (Inr sample_win_device, win_start\<lparr>ww_handles := [1], ww_opened := [[104, 49]]\<rparr>)"
proof -
  have address: "win_open_address sample_interface = Some ''h1''" "ep_Path sample_interface = ''h1''"
    by (simp_all add: win_open_address_def sample_interface_def win_endpointID_def MaxMetadataSize_def)
  have "driver_matches sample_interface sample_key"
    by (simp add: driver_matches_def sample_key_def sample_interface_def zero_endpoint_def)
  then have "win_open_checked (win_nativeOpenSystem sample_win) sample_interface sample_interface 1 v = Some (Inr sample_win_device, v)" for v
    by (simp add: win_open_checked_def win_nativeOpenSystem_def io_bind_def sample_win_metadata sample_win_layout)
      (simp add: sample_win_device_def)
  moreover have "wy_LoadHid sample_win win_start = (None, win_start)" by (simp add: sample_win_def)
  ultimately show ?thesis
    by (simp add: win_Open_def io_bind_def io_wrap_def io_check_def win_openWithSystem_def address io_on_error_eq)
      (simp add: win_nativeOpenSystem_def sample_win_find sample_win_create fresh_number_def io_on_error_eq)
qed

lemma sample_win_transfer:
  "device_transfer sample_win d p b t win_start =
   Some (Inr \<lparr>tr_done = 65, tr_submitted = True, tr_error = None, tr_buffer = replicate 66 0\<rparr>, win_start\<lparr>ww_starts := 1\<rparr>)"
proof -
  have start: "wy_Start sample_win b h v p w =
      (Some (Errno ERROR_IO_PENDING), w\<lparr>ww_pending := (h, v) # ww_pending w, ww_starts := Suc (ww_starts w)\<rparr>)" for h v w
    by (simp add: sample_win_def)
  have "wy_Wait sample_win v x w = Some (Inr 0, w)" "wy_Result sample_win h v w =
      Some (Inr (65, replicate 66 0), w\<lparr>ww_pending := filter (\<lambda>p. p \<noteq> (h, v)) (ww_pending w)\<rparr>)" for h v x w
    by (simp_all add: sample_win_def)
  then have "transfer_join sample_win h v op p t w = Some (Inr \<lparr>tr_done = 65, tr_submitted = True, tr_error = None, tr_buffer = replicate 66 0\<rparr>,
      w\<lparr>ww_pending := filter (\<lambda>p. p \<noteq> (h, v)) (ww_pending w)\<rparr>)" for h v op w
    by (simp add: transfer_join_def io_bind_def io_try_def WAIT_TIMEOUT_def)
  then have "transfer_body sample_win h v p b t w = Some (Inr \<lparr>tr_done = 65, tr_submitted = True, tr_error = None, tr_buffer = replicate 66 0\<rparr>,
      w\<lparr>ww_pending := filter (\<lambda>p. p \<noteq> (h, v)) (ww_pending w), ww_starts := Suc (ww_starts w)\<rparr>)" for h v w
    by (simp add: transfer_body_def Let_def io_bind_def io_ask_def start errno_is_def)
  moreover have "wy_CreateEvent sample_win win_start = Some (Inr 1, win_start\<lparr>ww_handles := [1]\<rparr>)"
    "wy_CloseHandle sample_win 1 (win_start\<lparr>ww_handles := [1], ww_starts := 1\<rparr>) = (None, win_start\<lparr>ww_starts := 1\<rparr>)"
    by (simp_all add: sample_win_def Let_def fresh_number_def)
  ultimately show ?thesis by (simp add: device_transfer_def io_bind_def io_try_def io_ask_def)
qed

lemma sample_win_write:
  "win_Write sample_win sample_win_device \<lparr>rp_ID = 0, rp_Data = replicate 64 7\<rparr> win_start =
   Some (Inr (OutcomeCompleted, None), win_start\<lparr>ww_starts := 1\<rparr>)"
  by (simp add: win_Write_def Let_def sample_win_device_def io_bind_def sample_win_transfer)

definition sample_filter_usage :: hid_filter where
  "sample_filter_usage = \<lparr>hf_VendorID = None, hf_ProductID = None, hf_Usage = Some \<lparr>us_Page = 0xF1D0, us_ID = 1\<rparr>, hf_Bus = None\<rparr>"

lemma sample_win_matches: "matchFilter sample_key sample_filter_usage = (True, False)"
  by (simp add: matchFilter_def filter_check_def sample_filter_usage_def sample_key_def)

lemma sample_win_candidate: "candidate sample_win d i (''h1'', x) w = Some (Inr sample_key, w)"
proof -
  have "uint16FromProperty (\<lambda>p. boolCall False (wy_Property sample_win d i p)) p w =
      Some (Inr (known (if p = 2 then 0xF1D0 else if p = 3 then 1 else if p = 5 then 0x1050 else 0x0407)), w)" for p w
    by (simp add: uint16FromProperty_def boolCall_def bool_error_def io_bind_def io_try_def io_ask_def sample_win_def)
  then show ?thesis
    by (simp add: candidate_def io_bind_def sample_win_devinfo metadataFromInterface_def metadataFromInterfaceProperties_def
        usageFromProperties_def hidUsagePageProperty_def hidUsageIDProperty_def hidVendorIDProperty_def hidProductIDProperty_def Let_def)
      (simp add: sample_key_def sample_interface_def win_endpointID_def zero_endpoint_def)
qed

lemma sample_win_again: "metadataFromHandle sample_win h sample_key False w = Some (Inr (sample_key, None), w)"
proof -
  have "boolCall True (wy_Attributes sample_win h) v = Some (Inr (0x1050, 0x0407), v)" for v
    by (simp add: boolCall_def bool_error_def io_bind_def io_ask_def sample_win_def)
  then show ?thesis
    by (simp add: metadataFromHandle_def io_bind_def io_try_def caps_usage_def sample_win_caps io_ask_def sample_win_free errors_join_def)
      (simp add: sample_key_def)
qed

definition sample_win_listed :: hid_snapshot where
  "sample_win_listed = \<lparr>sn_Endpoints = [sample_key], sn_Complete = True, sn_Warnings = []\<rparr>"

lemma sample_win_append:
  "appendInventoryEndpoint (win_snapshot True) sample_key False (Some (\<lambda>ep. matchFilter ep sample_filter_usage)) (nativeInventorySystem sample_win) w =
   Some (Inr sample_win_listed, w\<lparr>ww_opened := ww_opened w @ [[104, 49]]\<rparr>)"
proof -
  have "ep_Path sample_key = ''h1''" by (simp add: sample_key_def sample_interface_def)
  moreover have "wy_CloseHandle sample_win (int (fresh_number (ww_handles w)))
      (w\<lparr>ww_handles := fresh_number (ww_handles w) # ww_handles w, ww_opened := ls\<rparr>) = (None, w\<lparr>ww_opened := ls\<rparr>)" for ls
    by (simp add: sample_win_def fresh_filter [simplified])
  ultimately have "inspect_handle (nativeInventorySystem sample_win) sample_key False (win_snapshot True) w =
      Some (Inr (sample_key, None, win_snapshot True), w\<lparr>ww_opened := ww_opened w @ [[104, 49]]\<rparr>)"
    by (simp add: inspect_handle_def nativeInventorySystem_def io_bind_def io_try_def sample_win_create sample_win_again io_ask_def)
  then show ?thesis
    by (simp add: appendInventoryEndpoint_def sample_win_matches append_inspected_def io_bind_def)
      (simp add: sample_win_listed_def win_snapshot_def win_add_def)
qed

lemma sample_win_enumerate:
  "win_platformEnumerate sample_win False sample_filter_usage win_start =
   Some (Inr (sample_win_listed, None), win_start\<lparr>ww_opened := [[104, 49]]\<rparr>)"
proof -
  let ?sel = "Some (\<lambda>ep. matchFilter ep sample_filter_usage)"
  have first: "win_enum_turn sample_win False ?sel d 0 next (win_snapshot True) w =
      next sample_win_listed (w\<lparr>ww_opened := ww_opened w @ [[104, 49]]\<rparr>)" for d "next" w
    by (simp add: win_enum_turn_def boolCall_def bool_error_def io_bind_def io_try_def io_ask_def sample_win_enum MaxInventoryDevices_def
      sample_win_path sample_win_candidate sample_win_append)
  have rest: "win_enum_turn sample_win False ?sel d i next s w = Some (Inr s, w)" if "0 < i" for d i "next" s w
    using that by (simp add: win_enum_turn_def boolCall_def bool_error_def io_bind_def io_try_def io_ask_def sample_win_enum errno_is_def
      ERROR_NO_MORE_ITEMS_def)
  obtain k where k: "MaxInventoryDevices = Suc (Suc k)" using sample_win_max by blast
  then have "MaxInventoryDevices - Suc (Suc k) = 0" "0 < MaxInventoryDevices - Suc k" by linarith+
  then have "win_enum_loop sample_win False ?sel d (Suc (Suc k)) (win_snapshot True) w =
      Some (Inr sample_win_listed, w\<lparr>ww_opened := ww_opened w @ [[104, 49]]\<rparr>)" for d w
    by (simp add: first rest)
  then have "win_enum_loop sample_win False ?sel d MaxInventoryDevices (win_snapshot True) w =
      Some (Inr sample_win_listed, w\<lparr>ww_opened := ww_opened w @ [[104, 49]]\<rparr>)" for d w
    by (simp only: k)
  then show ?thesis
    by (simp add: win_platformEnumerate_def win_Enumerate_def io_bind_def io_ask_def io_try_def io_defer_eq sample_win_list [simplified])
qed

subsection \<open>Properties\<close>

text \<open>C19. The Windows open transaction. Whatever the system answers, an \<open>Open\<close> that fails gives back every native resource
  (device lists, handles, preparsed data), and one that succeeds keeps exactly the handle of its device, which \<open>Close\<close>
  removes; an inventory keeps none. The checks that \<open>Native.Open\<close> makes on a driver's answer accept the device.\<close>

theorem windows_open_owns:
  assumes os: "win_resources os res" and run: "win_Open os expected w = Some (r, w')"
  shows "(case r of
      Inl e \<Rightarrow> res w' = res w
    | Inr d \<Rightarrow> WinHandle (wd_handle d) \<notin> res w \<and> res w' = insert (WinHandle (wd_handle d)) (res w) \<and>
        (\<forall>v. res (snd (win_Close os d v)) = res v - {WinHandle (wd_handle d)}) \<and>
        open_validate expected (Some \<lparr>nd_endpoint = wd_endpoint d, nd_layout = wd_layout d\<rparr>) None = None) \<and>
    io_keeps res (win_platformEnumerate os strings f)"
proof (intro conjI)
  note opened = win_Open_opens [OF os, unfolded opens_def, rule_format, OF run]
  have "res (snd (win_Close os d v)) = res v - {WinHandle (wd_handle d)}" for d v
    using win_resourcesD(5) [OF os] by (simp add: win_Close_def closes_def)
  then show "case r of
      Inl e \<Rightarrow> res w' = res w
    | Inr d \<Rightarrow> WinHandle (wd_handle d) \<notin> res w \<and> res w' = insert (WinHandle (wd_handle d)) (res w) \<and>
        (\<forall>v. res (snd (win_Close os d v)) = res v - {WinHandle (wd_handle d)}) \<and>
        open_validate expected (Some \<lparr>nd_endpoint = wd_endpoint d, nd_layout = wd_layout d\<rparr>) None = None"
    using opened windows.validated run by (auto split: sum.splits)
  show "io_keeps res (win_platformEnumerate os strings f)"
    unfolding win_platformEnumerate_def by (rule win_Enumerate_keeps [OF os])
qed

theorem windows_open_owns_witness:
  "win_Open sample_win sample_interface win_start = Some (Inr sample_win_device, win_start\<lparr>ww_handles := [1], ww_opened := [[104, 49]]\<rparr>) \<and>
   win_res (win_start\<lparr>ww_handles := [1], ww_opened := [[104, 49]]\<rparr>) = {WinHandle 1} \<and>
   (\<forall>v. win_res (snd (win_Close sample_win sample_win_device v)) = win_res v - {WinHandle 1})"
  using windows_open_owns [OF sample_win_resources sample_win_open] sample_win_open
  by (simp add: win_res_def sample_win_device_def)

text \<open>C6. Overlapped transfers on Windows. When a \<open>Read\<close> or a \<open>Write\<close> returns, the kernel has no request of it left that could
  still use its buffer, its event is closed, and at most one native request was started; a report that \<open>Read\<close> returns has
  the identifier of the input layout and comes from one completed request of its exact size. \<open>Write\<close> always returns an
  outcome: \<open>NotSubmitted\<close> exactly when no request was started, always so for a report that does not fit the layout, and
  the only outcome without an error is a completed one.\<close>

theorem windows_transfer_joins:
  assumes res: "win_resources os res" and os: "win_pending os pend starts"
  shows "(win_Read os d wait w = Some (r, w') \<longrightarrow>
       res w' = res w \<and> pend w' \<subseteq> pend w \<and> starts w' \<le> Suc (starts w) \<and>
       (\<forall>rep. r = Inr rep \<longrightarrow> starts w' = Suc (starts w) \<and> win_report_read os d rep)) \<and>
    (win_Write os d rep w = Some (q, w'') \<longrightarrow>
       (\<exists>out e. q = Inr (out, e) \<and> res w'' = res w \<and> pend w'' \<subseteq> pend w \<and>
          starts w'' = starts w + (if out = OutcomeNotSubmitted then 0 else 1) \<and>
          (rp_ID rep \<noteq> rs_ID (rl_Output (wd_layout d)) \<or> int (length (rp_Data rep)) \<noteq> rs_Size (rl_Output (wd_layout d)) \<longrightarrow>
             out = OutcomeNotSubmitted \<and> w'' = w) \<and>
          (e = None \<longrightarrow> out = OutcomeCompleted)))"
proof (intro conjI impI)
  assume run: "win_Read os d wait w = Some (r, w')"
  show "res w' = res w" "pend w' \<subseteq> pend w" "starts w' \<le> Suc (starts w)"
    using win_Read_joins [OF res os run] by blast+
  show "\<forall>rep. r = Inr rep \<longrightarrow> starts w' = Suc (starts w) \<and> win_report_read os d rep"
    using win_Read_joins [OF res os run] run by (auto intro: io_postD [OF win_Read_post])
next
  assume "win_Write os d rep w = Some (q, w'')"
  from win_Write_joins [OF res os this]
  show "\<exists>out e. q = Inr (out, e) \<and> res w'' = res w \<and> pend w'' \<subseteq> pend w \<and>
      starts w'' = starts w + (if out = OutcomeNotSubmitted then 0 else 1) \<and>
      (rp_ID rep \<noteq> rs_ID (rl_Output (wd_layout d)) \<or> int (length (rp_Data rep)) \<noteq> rs_Size (rl_Output (wd_layout d)) \<longrightarrow>
         out = OutcomeNotSubmitted \<and> w'' = w) \<and>
      (e = None \<longrightarrow> out = OutcomeCompleted)" .
qed

theorem windows_transfer_joins_witness:
  "\<exists>w'. win_Write sample_win sample_win_device \<lparr>rp_ID = 0, rp_Data = replicate 64 7\<rparr> win_start = Some (Inr (OutcomeCompleted, None), w') \<and>
     win_pend w' = {} \<and> ww_starts w' = 1"
proof -
  obtain w' where w: "win_Write sample_win sample_win_device \<lparr>rp_ID = 0, rp_Data = replicate 64 7\<rparr> win_start = Some (Inr (OutcomeCompleted, None), w')"
    using sample_win_write by blast
  with windows_transfer_joins [OF sample_win_resources sample_win_pending, where d = sample_win_device and w = win_start
      and rep = "\<lparr>rp_ID = 0, rp_Data = replicate 64 7\<rparr>" and q = "Inr (OutcomeCompleted, None)" and w'' = w']
  show ?thesis by (auto simp: win_pend_def)
qed



end
