(* ===== verification/PlatformSelect.thy ===== *)
theory PlatformSelect
  imports LinuxDriver WindowsMachine DarwinDriver
begin

text \<open>
  The selection of the driver at build time: \<open>native_linux.go\<close>, \<open>native_darwin.go\<close> and \<open>native_unsupported.go\<close> of \<open>pkg/hid\<close>. Only the
  Windows file, which is part of \<open>WindowsHid\<close>, hands the filter to its driver.
\<close>

definition linux_platformEnumerate :: "(err \<Rightarrow> bool) \<Rightarrow> 'w linux_sys \<Rightarrow> bool \<Rightarrow> hid_filter \<Rightarrow> ('w, hid_snapshot \<times> err option) io" where
  "linux_platformEnumerate eof os strings f = linux_Enumerate eof os strings"

definition linux_platformOpen :: "'w linux_sys \<Rightarrow> endpoint \<Rightarrow> ('w, linux_device) io" where
  "linux_platformOpen os ep = linux_Open os ep"

definition darwin_platformEnumerate :: "'w darwin_sys \<Rightarrow> bool \<Rightarrow> hid_filter \<Rightarrow> ('w, hid_snapshot \<times> err option) io" where
  "darwin_platformEnumerate os strings f = darwin_Enumerate os strings"

definition darwin_platformOpen :: "'w darwin_sys \<Rightarrow> endpoint \<Rightarrow> ('w, darwin_device) io" where
  "darwin_platformOpen os ep = darwin_Open os ep"

definition unsupported_platformEnumerate :: "bool \<Rightarrow> hid_filter \<Rightarrow> ('w, hid_snapshot \<times> err option) io" where
  "unsupported_platformEnumerate strings f =
     io_return (\<lparr>sn_Endpoints = [], sn_Complete = False, sn_Warnings = []\<rparr>, Some (Sentinel (SHid HidUnsupported)))"

definition unsupported_platformOpen :: "endpoint \<Rightarrow> ('w, 'd) io" where
  "unsupported_platformOpen ep = io_fail (Sentinel (SHid HidUnsupported))"

text \<open>The worker of \<open>Native.Enumerate\<close> over the driver of a platform.\<close>

definition platform_inventory :: "(bool \<Rightarrow> hid_filter \<Rightarrow> ('w, hid_snapshot \<times> err option) io) \<Rightarrow> enumerate_options \<Rightarrow> ('w, hid_snapshot \<times> err option) io" where
  "platform_inventory inventory opt =
     io_bind (inventory (eo_ResolveStrings opt) (eo_Filter opt)) (\<lambda>r. io_return (enumerate_worker opt r))"

text \<open>A platform without a driver never shows an empty inventory as complete: the caller gets the category \<open>ErrUnsupported\<close>.\<close>

lemma unsupported_inventory:
  "platform_inventory unsupported_platformEnumerate opt w =
     Some (Inr (\<lparr>sn_Endpoints = [], sn_Complete = False, sn_Warnings = []\<rparr>,
       Some (HidOpError ''enumerate'' [] HidUnsupported None (Sentinel (SHid HidUnsupported)))), w)"
  by (simp add: platform_inventory_def unsupported_platformEnumerate_def io_bind_def io_return_def enumerate_worker_def enumerate_bound_def
    MaxInventoryEndpoints_def operationError_opt_def operationError_Sentinel)

text \<open>An inventory leaves no native resource behind, through the portable layer.\<close>

lemma platform_inventory_keeps:
  "(\<And>b f. io_keeps res (inventory b f)) \<Longrightarrow> io_keeps res (platform_inventory inventory opt)"
  unfolding platform_inventory_def by (intro keep_intros)

lemma darwin_platform_inventory_keeps:
  "darwin_resources os res \<Longrightarrow> io_keeps res (platform_inventory (darwin_platformEnumerate os) opt)"
  by (rule platform_inventory_keeps) (simp add: darwin_platformEnumerate_def darwin_Enumerate_keeps)

lemma windows_platform_inventory_keeps:
  "win_resources os res \<Longrightarrow> io_keeps res (platform_inventory (win_platformEnumerate os) opt)"
  by (rule platform_inventory_keeps) (simp add: win_platformEnumerate_def win_Enumerate_keeps)

lemma linux_platform_inventory_keeps:
  "linux_fds os fds \<Longrightarrow> io_keeps fds (platform_inventory (linux_platformEnumerate eof os) opt)"
  by (rule platform_inventory_keeps) (simp add: linux_platformEnumerate_def linux_Enumerate_keeps)

end
