(* ===== verification/CustomBackends.thy ===== *)
theory CustomBackends
  imports Sessions PcscBackend
begin

text \<open>
  The constructors of the backends over injected connections: \<open>NewBackend\<close> of \<open>pkg/transport/usb/backend.go\<close>,
  \<open>pkg/transport/ble/backend.go\<close> and \<open>pkg/transport/nfc/backend.go\<close>, with the methods of the backends they return. A constructor refuses
  the parameters that its codec refuses, so that \<open>Open\<close> of a constructed backend only fails before or in its opener.
\<close>

subsection \<open>The backends\<close>

type_synonym ('w, 'conn) conn_opener = "device_descriptor \<Rightarrow> 'w \<Rightarrow> 'conn res \<times> 'w"

record ('w, 'conn) usb_backend =
  ub_discoverer :: "'w discoverer"
  ub_opener :: "('w, 'conn) conn_opener"
  ub_channel :: u32
  ub_command :: byte
  ub_reportSize :: int

record ('w, 'conn) ble_backend =
  bb_discoverer :: "'w discoverer"
  bb_opener :: "('w, 'conn) conn_opener"
  bb_mtu :: int

record ('w, 'conn) nfc_backend =
  nb_discoverer :: "'w discoverer"
  nb_opener :: "('w, 'conn) conn_opener"
  nb_class :: byte
  nb_ins :: byte
  nb_p1 :: byte
  nb_p2 :: byte
  nb_chunkSize :: int

text \<open>A nil discoverer or opener is None.\<close>

definition usb_NewBackend ::
  "'w discoverer option \<Rightarrow> ('w, 'conn) conn_opener option \<Rightarrow> u32 \<Rightarrow> byte \<Rightarrow> int \<Rightarrow> ('w, 'conn) usb_backend res" where
  "usb_NewBackend discoverer opener channel command reportSize =
     (case (discoverer, opener) of
        (Some d, Some o') \<Rightarrow>
          andThen (hid_NewCodec channel command reportSize) (\<lambda>_.
            Inr \<lparr>ub_discoverer = d, ub_opener = o', ub_channel = channel, ub_command = command, ub_reportSize = reportSize\<rparr>)
      | _ \<Rightarrow> Inl (TextError ''transport/usb: discoverer and opener are required''))"

definition ble_NewBackend ::
  "'w discoverer option \<Rightarrow> ('w, 'conn) conn_opener option \<Rightarrow> int \<Rightarrow> ('w, 'conn) ble_backend res" where
  "ble_NewBackend discoverer opener mtu =
     (case (discoverer, opener) of
        (Some d, Some o') \<Rightarrow> andThen (ble_NewCodec mtu) (\<lambda>_. Inr \<lparr>bb_discoverer = d, bb_opener = o', bb_mtu = mtu\<rparr>)
      | _ \<Rightarrow> Inl (TextError ''transport/ble: discoverer and opener are required''))"

definition nfc_NewBackend ::
  "'w discoverer option \<Rightarrow> ('w, 'conn) conn_opener option \<Rightarrow> byte \<Rightarrow> byte \<Rightarrow> byte \<Rightarrow> byte \<Rightarrow> int \<Rightarrow> ('w, 'conn) nfc_backend res" where
  "nfc_NewBackend discoverer opener cls instruction parameter1 parameter2 chunkSize =
     (case (discoverer, opener) of
        (Some d, Some o') \<Rightarrow>
          andThen (nfc_NewCodec cls instruction parameter1 parameter2 chunkSize) (\<lambda>_.
            Inr \<lparr>nb_discoverer = d, nb_opener = o', nb_class = cls, nb_ins = instruction, nb_p1 = parameter1, nb_p2 = parameter2,
                 nb_chunkSize = chunkSize\<rparr>)
      | _ \<Rightarrow> Inl (TextError ''transport/nfc: discoverer and opener are required''))"

definition usb_backend_Kind :: "('w, 'conn) usb_backend \<Rightarrow> string" where "usb_backend_Kind b = KindUSB"
definition ble_backend_Kind :: "('w, 'conn) ble_backend \<Rightarrow> string" where "ble_backend_Kind b = KindBLE"
definition nfc_backend_Kind :: "('w, 'conn) nfc_backend \<Rightarrow> string" where "nfc_backend_Kind b = KindNFC"

abbreviation usb_backend_Open where
  "usb_backend_Open close b \<equiv> usb_Open (ub_opener b) close (ub_channel b) (ub_command b) (ub_reportSize b)"

abbreviation ble_backend_Open where
  "ble_backend_Open close b \<equiv> ble_Open (bb_opener b) close (bb_mtu b)"

abbreviation nfc_backend_Open where
  "nfc_backend_Open close b \<equiv> nfc_Open (nb_opener b) close (nb_class b) (nb_ins b) (nb_p1 b) (nb_p2 b) (nb_chunkSize b)"

subsection \<open>What a constructed backend does\<close>

text \<open>A backend whose \<open>Open\<close> is the common one and whose constructor tried the codec.\<close>

locale tried_backend =
  fixes kind op :: string and opener :: "'b \<Rightarrow> ('w, 'conn) conn_opener" and codec :: "'b \<Rightarrow> 'codec res"
    and open_session :: "('conn \<Rightarrow> 'w \<Rightarrow> err option \<times> 'w) \<Rightarrow> 'b \<Rightarrow> device_descriptor \<Rightarrow> 'w \<Rightarrow> (device_descriptor \<times> 'conn \<times> 'codec) res \<times> 'w"
    and built :: "'b \<Rightarrow> bool"
  assumes opens_as: "open_session close b device w = open_as kind op (opener b) close (codec b) device w"
    and tried: "built b \<Longrightarrow> \<exists>c. codec b = Inr c"
begin

text \<open>\<open>Open\<close> is the opener's call, with the kind of the backend: it never closes a connection again, and the descriptor of the session
  has the kind.\<close>

lemma built_open:
  assumes "built b" "dd_Transport device \<in> {[], KindUnknown, kind}" "opener b device w = (r, w')"
  shows "open_session close b device w =
    (case r of Inl e \<Rightarrow> Inl (classified op e) | Inr conn \<Rightarrow> Inr (device\<lparr>dd_Transport := kind\<rparr>, conn, projr (codec b)), w')"
  using assms tried [OF assms(1)] by (auto simp: opens_as open_as_def split: sum.splits)

lemma foreign_open:
  "dd_Transport device \<notin> {[], KindUnknown, kind} \<Longrightarrow> \<exists>e. open_session close b device w = (Inl e, w)"
  by (auto simp: opens_as open_as_def)

end

definition usb_built :: "('w, 'conn) usb_backend \<Rightarrow> bool" where
  "usb_built b \<longleftrightarrow> usb_NewBackend (Some (ub_discoverer b)) (Some (ub_opener b)) (ub_channel b) (ub_command b) (ub_reportSize b) = Inr b"

definition ble_built :: "('w, 'conn) ble_backend \<Rightarrow> bool" where
  "ble_built b \<longleftrightarrow> ble_NewBackend (Some (bb_discoverer b)) (Some (bb_opener b)) (bb_mtu b) = Inr b"

definition nfc_built :: "('w, 'conn) nfc_backend \<Rightarrow> bool" where
  "nfc_built b \<longleftrightarrow>
     nfc_NewBackend (Some (nb_discoverer b)) (Some (nb_opener b)) (nb_class b) (nb_ins b) (nb_p1 b) (nb_p2 b) (nb_chunkSize b) = Inr b"

interpretation ub: tried_backend KindUSB "''open usb session''" ub_opener "\<lambda>b. hid_NewCodec (ub_channel b) (ub_command b) (ub_reportSize b)"
    usb_backend_Open usb_built
  by unfold_locales (auto simp: usb_Open_def usb_built_def usb_NewBackend_def andThen_def split: sum.splits)

interpretation bb: tried_backend KindBLE "''open ble session''" bb_opener "\<lambda>b. ble_NewCodec (bb_mtu b)" ble_backend_Open ble_built
  by unfold_locales (auto simp: ble_Open_def ble_built_def ble_NewBackend_def andThen_def split: sum.splits)

interpretation nb: tried_backend KindNFC "''open nfc session''" nb_opener
    "\<lambda>b. nfc_NewCodec (nb_class b) (nb_ins b) (nb_p1 b) (nb_p2 b) (nb_chunkSize b)" nfc_backend_Open nfc_built
  by unfold_locales (auto simp: nfc_Open_def nfc_built_def nfc_NewBackend_def andThen_def split: sum.splits)

text \<open>A constructor returns a backend exactly when both hooks are there and the codec accepts the parameters.\<close>

lemma NewBackend_built:
  "usb_NewBackend d o' channel command reportSize = Inr b \<Longrightarrow> usb_built b"
  "ble_NewBackend d o' mtu = Inr b' \<Longrightarrow> ble_built b'"
  "nfc_NewBackend d o' cls ins p1 p2 chunkSize = Inr b'' \<Longrightarrow> nfc_built b''"
  by (auto simp: usb_NewBackend_def usb_built_def ble_NewBackend_def ble_built_def nfc_NewBackend_def nfc_built_def andThen_def
    split: option.splits sum.splits)

text \<open>From the constructor to the response, over BLE.\<close>

lemma ble_backend_exchange:
  assumes "ble_NewBackend d o' mtu = Inr b" and "dd_Transport device \<in> {[], KindUnknown, KindBLE}" and "bb_opener b device v = (Inr conn, w)"
    and "packet_conn ctxErr (wr conn) (rd conn) incoming written"
    and "ble_Fragment (projr (ble_NewCodec mtu)) req = Inr ps" "ble_Fragment (projr (ble_NewCodec mtu)) m = Inr rs" "incoming w = rs @ rest"
  shows "\<exists>c w'. ble_backend_Open close b device v = (Inr (device\<lparr>dd_Transport := KindBLE\<rparr>, conn, c), w) \<and>
    ble_Exchange c (wr conn) (rd conn) req w = Some (Inr m, w') \<and> written w' = written w @ ps \<and> incoming w' = rest"
proof -
  have b: "ble_built b" "bb_mtu b = mtu"
    using NewBackend_built(2) [OF assms(1)] assms(1) by (auto simp: ble_NewBackend_def andThen_def split: option.splits sum.splits)
  then obtain c where c: "ble_NewCodec mtu = Inr c" using bb.tried [OF b(1)] by auto
  from bb.built_open [OF b(1) assms(2,3), of close] b(2) c
  have "ble_backend_Open close b device v = (Inr (device\<lparr>dd_Transport := KindBLE\<rparr>, conn, c), w)" by simp
  moreover from ble_exchange_roundtrip [OF assms(4) c] assms(5-7) c
  have "\<exists>w'. ble_Exchange c (wr conn) (rd conn) req w = Some (Inr m, w') \<and> written w' = written w @ ps \<and> incoming w' = rest" by simp
  ultimately show ?thesis by blast
qed

text \<open>The PC/SC backend is the NFC backend over the PC/SC hooks, and its parameters are always accepted.\<close>

lemma pcsc_backend_built:
  "\<exists>b. nfc_NewBackend (Some (pcsc_Discover message f ctxErr)) (Some (pcsc_Open f ctxErr)) defaultAPDUClass defaultAPDUInstruction
       defaultAPDUParameter1 defaultAPDUParameter2 defaultAPDUChunkSize = Inr b \<and>
     NewPCSCBackendWithFactory message ctxErr (Some f) = Inr (nfc_Discover (nb_discoverer b), nfc_backend_Open pcsc_Close b)"
  by (simp add: nfc_NewBackend_def NewPCSCBackendWithFactory_def andThen_def nfc_NewCodec_def defaultAPDUChunkSize_def)

end
