(* ===== verification/DeepCopy.thy ===== *)
theory DeepCopy
  imports ClientCore "HOL-Library.State_Monad"
begin

text \<open>
  Defensive copies: \<open>Clone\<close> of \<open>GetInfoResponse\<close> and \<open>COSEKey\<close> (\<open>pkg/ctap2\<close>), \<open>cloneCapabilities\<close> (\<open>pkg/client/capabilities.go\<close>) and
  \<open>Secret.Clone\<close> with \<open>Wipe\<close> (\<open>pkg/client/secrets.go\<close>). The other theories have values that nobody shares, so a copy is the value itself.
  Here slices, maps and structs behind pointers are cells of a store, and the theorems say why that is right: a copy has the value of the
  original and shares no cell with it.
\<close>

subsection \<open>The store\<close>

type_synonym addr = nat

text \<open>A nil slice, map or pointer is None. The fields of a map are listed in the order in which they are traversed.\<close>

record info_refs =
  ir_Versions :: "addr option"
  ir_Extensions :: "addr option"
  ir_AAGUID :: "addr option"
  ir_Options :: "addr option"
  ir_MaxMsgSize :: u64
  ir_PinUVAuthProtocols :: "addr option"
  ir_MaxCredentialCountInList :: u64
  ir_MaxCredentialIDLength :: u64
  ir_Transports :: "addr option"
  ir_Algorithms :: "addr option"
  ir_MaxSerializedLargeBlobArray :: u64
  ir_ForcePINChange :: bool
  ir_MinPINLength :: u64
  ir_FirmwareVersion :: u64
  ir_MaxCredBlobLength :: u64
  ir_MaxRPIDsForSetMinPINLength :: u64
  ir_PreferredPlatformUVAttempts :: u64
  ir_UVModality :: u64
  ir_Certifications :: "addr option"
  ir_RemainingDiscoverableCredentials :: u64
  ir_VendorPrototypeConfigCommands :: "addr option"
  ir_Raw :: "addr option"

datatype go_cell =
    StringsCell "string list"
  | BytesCell bytes
  | U64sCell "u64 list"
  | ParamsCell "credential_parameter list"
  | BoolMapCell "(string \<times> bool) list"
  | U64MapCell "(string \<times> u64) list"
  | RawMapCell "(u64 \<times> addr option) list"
  | Ctap1Cell ctap1_capabilities
  | InfoCell info_refs

record go_heap =
  gh_next :: addr
  gh_cell :: "addr \<Rightarrow> go_cell"

type_synonym 'a heap_op = "(go_heap, 'a) state"

definition heap_alloc :: "go_cell \<Rightarrow> addr option heap_op" where
  "heap_alloc c = State (\<lambda>h. (Some (gh_next h), h\<lparr>gh_next := gh_next h + 1, gh_cell := (gh_cell h)(gh_next h := c)\<rparr>))"

definition heap_read :: "addr \<Rightarrow> go_cell heap_op" where
  "heap_read a = State (\<lambda>h. (gh_cell h a, h))"

fun cell_empty :: "go_cell \<Rightarrow> bool" where
  "cell_empty (StringsCell xs) = (xs = [])"
| "cell_empty (BytesCell xs) = (xs = [])"
| "cell_empty (U64sCell xs) = (xs = [])"
| "cell_empty (ParamsCell xs) = (xs = [])"
| "cell_empty c = False"

subsection \<open>Copies\<close>

text \<open>\<open>append([]T(nil), xs...)\<close>: a new array, or nil when there is nothing to append.\<close>

definition clone_slice :: "addr option \<Rightarrow> addr option heap_op" where
  "clone_slice r =
     (case r of
        None \<Rightarrow> State_Monad.return None
      | Some a \<Rightarrow> do {
          c \<leftarrow> heap_read a;
          if cell_empty c then State_Monad.return None else heap_alloc c
        })"

text \<open>A new map with the same entries; nil stays nil.\<close>

definition clone_map :: "addr option \<Rightarrow> addr option heap_op" where
  "clone_map r = (case r of None \<Rightarrow> State_Monad.return None | Some a \<Rightarrow> do { c \<leftarrow> heap_read a; heap_alloc c })"

fun clone_entries :: "(u64 \<times> addr option) list \<Rightarrow> (u64 \<times> addr option) list heap_op" where
  "clone_entries [] = State_Monad.return []"
| "clone_entries ((k, v) # es) = do {
     v' \<leftarrow> clone_slice v;
     es' \<leftarrow> clone_entries es;
     State_Monad.return ((k, v') # es')
   }"

definition cloneRawCBORMap :: "addr option \<Rightarrow> addr option heap_op" where
  "cloneRawCBORMap r =
     (case r of
        None \<Rightarrow> State_Monad.return None
      | Some a \<Rightarrow> do {
          c \<leftarrow> heap_read a;
          es \<leftarrow> clone_entries (case c of RawMapCell es \<Rightarrow> es | _ \<Rightarrow> []);
          heap_alloc (RawMapCell es)
        })"

definition info_Clone :: "info_refs \<Rightarrow> info_refs heap_op" where
  "info_Clone i = do {
     versions \<leftarrow> clone_slice (ir_Versions i);
     extensions \<leftarrow> clone_slice (ir_Extensions i);
     aaguid \<leftarrow> clone_slice (ir_AAGUID i);
     options \<leftarrow> clone_map (ir_Options i);
     protocols \<leftarrow> clone_slice (ir_PinUVAuthProtocols i);
     transports \<leftarrow> clone_slice (ir_Transports i);
     algorithms \<leftarrow> clone_slice (ir_Algorithms i);
     certifications \<leftarrow> clone_map (ir_Certifications i);
     commands \<leftarrow> clone_slice (ir_VendorPrototypeConfigCommands i);
     raw \<leftarrow> cloneRawCBORMap (ir_Raw i);
     State_Monad.return (i\<lparr>ir_Versions := versions, ir_Extensions := extensions, ir_AAGUID := aaguid, ir_Options := options,
       ir_PinUVAuthProtocols := protocols, ir_Transports := transports, ir_Algorithms := algorithms,
       ir_Certifications := certifications, ir_VendorPrototypeConfigCommands := commands, ir_Raw := raw\<rparr>)
   }"

text \<open>\<open>GetInfoResponse.Clone\<close> on a pointer, which \<open>cloneGetInfoResponse\<close> calls.\<close>

definition cloneGetInfoResponse :: "addr option \<Rightarrow> addr option heap_op" where
  "cloneGetInfoResponse r =
     (case r of
        None \<Rightarrow> State_Monad.return None
      | Some a \<Rightarrow> do {
          c \<leftarrow> heap_read a;
          case c of InfoCell i \<Rightarrow> do { i' \<leftarrow> info_Clone i; heap_alloc (InfoCell i') } | _ \<Rightarrow> State_Monad.return None
        })"

text \<open>\<open>Capabilities\<close>: the four parts without references, and the raw answers.\<close>

record caps_refs =
  cr_plain :: "protocol_capabilities \<times> authenticator_capabilities \<times> verification_capabilities \<times> interaction_capabilities"
  cr_RawCTAP1 :: "addr option"
  cr_RawCTAP2 :: "addr option"

definition cloneCapabilities :: "caps_refs \<Rightarrow> caps_refs heap_op" where
  "cloneCapabilities caps = do {
     ctap1 \<leftarrow> clone_map (cr_RawCTAP1 caps);
     ctap2 \<leftarrow> cloneGetInfoResponse (cr_RawCTAP2 caps);
     State_Monad.return (caps\<lparr>cr_RawCTAP1 := ctap1, cr_RawCTAP2 := ctap2\<rparr>)
   }"

record cose_refs =
  ce_numbers :: "int \<times> int \<times> int"
  ce_X :: "addr option"
  ce_Y :: "addr option"

definition cose_Clone :: "cose_refs \<Rightarrow> cose_refs heap_op" where
  "cose_Clone key = do {
     x \<leftarrow> clone_slice (ce_X key);
     y \<leftarrow> clone_slice (ce_Y key);
     State_Monad.return (key\<lparr>ce_X := x, ce_Y := y\<rparr>)
   }"

text \<open>A secret is a slice. \<open>Wipe\<close> writes through it.\<close>

definition secret_Clone :: "addr option \<Rightarrow> addr option heap_op" where
  "secret_Clone s = clone_slice s"

definition secret_cell_Wipe :: "addr option \<Rightarrow> unit heap_op" where
  "secret_cell_Wipe s =
     State (\<lambda>h. ((), case s of
        None \<Rightarrow> h
      | Some a \<Rightarrow> (case gh_cell h a of BytesCell bs \<Rightarrow> h\<lparr>gh_cell := (gh_cell h)(a := BytesCell (replicate (length bs) 0))\<rparr> | _ \<Rightarrow> h)))"

subsection \<open>Values\<close>

text \<open>What a reference stands for: a slice without elements is the same value as nil.\<close>

definition content :: "go_heap \<Rightarrow> addr option \<Rightarrow> go_cell option" where
  "content h r = (case r of None \<Rightarrow> None | Some a \<Rightarrow> if cell_empty (gh_cell h a) then None else Some (gh_cell h a))"

definition strings_of :: "go_cell option \<Rightarrow> string list" where
  "strings_of c = (case c of Some (StringsCell xs) \<Rightarrow> xs | _ \<Rightarrow> [])"

definition bytes_of :: "go_cell option \<Rightarrow> bytes" where
  "bytes_of c = (case c of Some (BytesCell xs) \<Rightarrow> xs | _ \<Rightarrow> [])"

definition u64s_of :: "go_cell option \<Rightarrow> u64 list" where
  "u64s_of c = (case c of Some (U64sCell xs) \<Rightarrow> xs | _ \<Rightarrow> [])"

definition params_of :: "go_cell option \<Rightarrow> credential_parameter list" where
  "params_of c = (case c of Some (ParamsCell xs) \<Rightarrow> xs | _ \<Rightarrow> [])"

definition bools_of :: "go_cell option \<Rightarrow> string \<rightharpoonup> bool" where
  "bools_of c = (case c of Some (BoolMapCell xs) \<Rightarrow> map_of xs | _ \<Rightarrow> Map.empty)"

definition u64_map_of :: "go_cell option \<Rightarrow> string \<rightharpoonup> u64" where
  "u64_map_of c = (case c of Some (U64MapCell xs) \<Rightarrow> map_of xs | _ \<Rightarrow> Map.empty)"

definition raw_entries :: "go_heap \<Rightarrow> addr option \<Rightarrow> (u64 \<times> addr option) list" where
  "raw_entries h r = (case r of None \<Rightarrow> [] | Some a \<Rightarrow> (case gh_cell h a of RawMapCell es \<Rightarrow> es | _ \<Rightarrow> []))"

definition raw_value :: "go_heap \<Rightarrow> addr option \<Rightarrow> (u64 \<times> bytes) list" where
  "raw_value h r = map (\<lambda>(k, v). (k, bytes_of (content h v))) (raw_entries h r)"

definition info_value :: "go_heap \<Rightarrow> info_refs \<Rightarrow> get_info_response" where
  "info_value h i =
     \<lparr>gi_Versions = strings_of (content h (ir_Versions i)), gi_Extensions = strings_of (content h (ir_Extensions i)),
      gi_AAGUID = bytes_of (content h (ir_AAGUID i)), gi_Options = bools_of (content h (ir_Options i)), gi_MaxMsgSize = ir_MaxMsgSize i,
      gi_PinUVAuthProtocols = u64s_of (content h (ir_PinUVAuthProtocols i)),
      gi_MaxCredentialCountInList = ir_MaxCredentialCountInList i, gi_MaxCredentialIDLength = ir_MaxCredentialIDLength i,
      gi_Transports = strings_of (content h (ir_Transports i)), gi_Algorithms = params_of (content h (ir_Algorithms i)),
      gi_MaxSerializedLargeBlobArray = ir_MaxSerializedLargeBlobArray i, gi_ForcePINChange = ir_ForcePINChange i,
      gi_MinPINLength = ir_MinPINLength i, gi_FirmwareVersion = ir_FirmwareVersion i, gi_MaxCredBlobLength = ir_MaxCredBlobLength i,
      gi_MaxRPIDsForSetMinPINLength = ir_MaxRPIDsForSetMinPINLength i, gi_PreferredPlatformUVAttempts = ir_PreferredPlatformUVAttempts i,
      gi_UVModality = ir_UVModality i, gi_Certifications = u64_map_of (content h (ir_Certifications i)),
      gi_RemainingDiscoverableCredentials = ir_RemainingDiscoverableCredentials i,
      gi_VendorPrototypeConfigCommands = u64s_of (content h (ir_VendorPrototypeConfigCommands i)),
      gi_Raw = map_of (raw_value h (ir_Raw i))\<rparr>"

definition pointer_info :: "go_heap \<Rightarrow> addr option \<Rightarrow> info_refs option" where
  "pointer_info h r = (case r of None \<Rightarrow> None | Some a \<Rightarrow> (case gh_cell h a of InfoCell i \<Rightarrow> Some i | _ \<Rightarrow> None))"

definition pointer_ctap1 :: "go_heap \<Rightarrow> addr option \<Rightarrow> ctap1_capabilities option" where
  "pointer_ctap1 h r = (case r of None \<Rightarrow> None | Some a \<Rightarrow> (case gh_cell h a of Ctap1Cell c \<Rightarrow> Some c | _ \<Rightarrow> None))"

definition caps_value :: "go_heap \<Rightarrow> caps_refs \<Rightarrow> capabilities" where
  "caps_value h caps =
     (case cr_plain caps of (p, a, v, n) \<Rightarrow>
        \<lparr>cap_Protocols = p, cap_Authenticator = a, cap_Verification = v, cap_Interaction = n,
         cap_RawCTAP1 = pointer_ctap1 h (cr_RawCTAP1 caps), cap_RawCTAP2 = map_option (info_value h) (pointer_info h (cr_RawCTAP2 caps))\<rparr>)"

subsection \<open>What can be reached\<close>

definition raw_reach :: "go_heap \<Rightarrow> addr option \<Rightarrow> addr set" where
  "raw_reach h r = set_option r \<union> (\<Union>(k, v) \<in> set (raw_entries h r). set_option v)"

definition info_reach :: "go_heap \<Rightarrow> info_refs \<Rightarrow> addr set" where
  "info_reach h i =
     set_option (ir_Versions i) \<union> set_option (ir_Extensions i) \<union> set_option (ir_AAGUID i) \<union> set_option (ir_Options i) \<union>
     set_option (ir_PinUVAuthProtocols i) \<union> set_option (ir_Transports i) \<union> set_option (ir_Algorithms i) \<union>
     set_option (ir_Certifications i) \<union> set_option (ir_VendorPrototypeConfigCommands i) \<union> raw_reach h (ir_Raw i)"

definition caps_reach :: "go_heap \<Rightarrow> caps_refs \<Rightarrow> addr set" where
  "caps_reach h caps =
     set_option (cr_RawCTAP1 caps) \<union> set_option (cr_RawCTAP2 caps) \<union>
     (case pointer_info h (cr_RawCTAP2 caps) of None \<Rightarrow> {} | Some i \<Rightarrow> info_reach h i)"

text \<open>Two stores that agree on what a value reaches have the same value there.\<close>

definition agree :: "addr set \<Rightarrow> go_heap \<Rightarrow> go_heap \<Rightarrow> bool" where
  "agree A h h' \<longleftrightarrow> (\<forall>a \<in> A. gh_cell h' a = gh_cell h a)"

lemma agree_subset: "agree A h h' \<Longrightarrow> B \<subseteq> A \<Longrightarrow> agree B h h'"
  by (auto simp: agree_def)

lemma content_agree: "agree (set_option r) h h' \<Longrightarrow> content h' r = content h r"
  by (auto simp: agree_def content_def split: option.splits)

lemma raw_agree:
  assumes "agree (raw_reach h r) h h'"
  shows "raw_value h' r = raw_value h r" "raw_reach h' r = raw_reach h r"
proof -
  have e: "raw_entries h' r = raw_entries h r" using assms by (auto simp: agree_def raw_reach_def raw_entries_def split: option.splits)
  have "content h' v = content h v" if "(k, v) \<in> set (raw_entries h r)" for k v
    by (rule content_agree, rule agree_subset [OF assms]) (use that in \<open>auto simp: raw_reach_def\<close>)
  with e show "raw_value h' r = raw_value h r" by (auto simp: raw_value_def)
  from e show "raw_reach h' r = raw_reach h r" by (simp add: raw_reach_def)
qed

lemma info_agree:
  assumes "agree (info_reach h i) h h'"
  shows "info_value h' i = info_value h i" "info_reach h' i = info_reach h i"
proof -
  have "content h' r = content h r"
    if "r \<in> {ir_Versions i, ir_Extensions i, ir_AAGUID i, ir_Options i, ir_PinUVAuthProtocols i, ir_Transports i, ir_Algorithms i,
      ir_Certifications i, ir_VendorPrototypeConfigCommands i}" for r
    by (rule content_agree, rule agree_subset [OF assms]) (use that in \<open>auto simp: info_reach_def\<close>)
  moreover have "agree (raw_reach h (ir_Raw i)) h h'" by (rule agree_subset [OF assms]) (auto simp: info_reach_def)
  ultimately show "info_value h' i = info_value h i" "info_reach h' i = info_reach h i"
    by (simp_all add: info_value_def info_reach_def raw_agree)
qed

lemma caps_agree:
  assumes "agree (caps_reach h caps) h h'"
  shows "caps_value h' caps = caps_value h caps"
proof -
  have "agree (set_option (cr_RawCTAP1 caps)) h h'" "agree (set_option (cr_RawCTAP2 caps)) h h'"
    by (auto intro!: agree_subset [OF assms] simp: caps_reach_def)
  then have p: "pointer_ctap1 h' (cr_RawCTAP1 caps) = pointer_ctap1 h (cr_RawCTAP1 caps)"
    "pointer_info h' (cr_RawCTAP2 caps) = pointer_info h (cr_RawCTAP2 caps)"
    by (auto simp: agree_def pointer_ctap1_def pointer_info_def split: option.splits)
  have "info_value h' i = info_value h i" if "pointer_info h (cr_RawCTAP2 caps) = Some i" for i
    by (rule info_agree, rule agree_subset [OF assms]) (simp add: caps_reach_def that)
  with p show ?thesis by (cases "pointer_info h (cr_RawCTAP2 caps)") (simp_all add: caps_value_def)
qed

subsection \<open>Copies are new\<close>

text \<open>A store that has grown: new cells at the end and nothing else changed.\<close>

definition grown :: "go_heap \<Rightarrow> go_heap \<Rightarrow> bool" where
  "grown h h' \<longleftrightarrow> gh_next h \<le> gh_next h' \<and> (\<forall>a < gh_next h. gh_cell h' a = gh_cell h a)"

lemma grown_refl [simp]: "grown h h"
  by (simp add: grown_def)

lemma grown_trans: "grown h h' \<Longrightarrow> grown h' h'' \<Longrightarrow> grown h h''"
  by (auto simp: grown_def)

lemma grown_agree: "grown h h' \<Longrightarrow> A \<subseteq> {..<gh_next h} \<Longrightarrow> agree A h h'"
  by (auto simp: grown_def agree_def)

lemma grown_alloc: "run_state (heap_alloc c) h = (r, h') \<Longrightarrow> r = Some (gh_next h) \<and> grown h h' \<and> gh_next h' = gh_next h + 1 \<and> gh_cell h' (gh_next h) = c"
  by (auto simp: heap_alloc_def grown_def)

text \<open>The cells between two stores.\<close>

abbreviation between :: "go_heap \<Rightarrow> go_heap \<Rightarrow> addr set" where
  "between h0 h \<equiv> {gh_next h0..<gh_next h}"

definition copied :: "go_heap \<Rightarrow> addr option \<Rightarrow> go_heap \<Rightarrow> addr option \<Rightarrow> bool" where
  "copied h0 r h r' \<longleftrightarrow> content h r' = content h0 r \<and> set_option r' \<subseteq> between h0 h"

definition raw_copied :: "go_heap \<Rightarrow> addr option \<Rightarrow> go_heap \<Rightarrow> addr option \<Rightarrow> bool" where
  "raw_copied h0 r h r' \<longleftrightarrow> raw_value h r' = raw_value h0 r \<and> raw_reach h r' \<subseteq> between h0 h"

definition info_copied :: "go_heap \<Rightarrow> info_refs \<Rightarrow> go_heap \<Rightarrow> info_refs \<Rightarrow> bool" where
  "info_copied h0 i h i' \<longleftrightarrow> info_value h i' = info_value h0 i \<and> info_reach h i' \<subseteq> between h0 h"

text \<open>A fact that stays true when the store grows.\<close>

definition stable :: "(go_heap \<Rightarrow> bool) \<Rightarrow> bool" where
  "stable F \<longleftrightarrow> (\<forall>h h'. F h \<longrightarrow> grown h h' \<longrightarrow> F h')"

named_theorems stable_intros \<open>facts that stay true when the store grows\<close>

lemma stable_simple [stable_intros]: "stable (\<lambda>h. True)" "stable F \<Longrightarrow> stable G \<Longrightarrow> stable (\<lambda>h. F h \<and> G h)"
  by (auto simp: stable_def)

lemma between_grown: "grown h h' \<Longrightarrow> between h0 h \<subseteq> between h0 h'"
  by (auto simp: grown_def)

lemma stable_copied [stable_intros]: "stable (\<lambda>h. copied h0 r h r')"
  unfolding stable_def copied_def
proof (intro allI impI)
  fix h h'
  assume c: "content h r' = content h0 r \<and> set_option r' \<subseteq> between h0 h" and g: "grown h h'"
  then have "content h' r' = content h r'" by (intro content_agree grown_agree) auto
  with c between_grown [OF g, of h0] show "content h' r' = content h0 r \<and> set_option r' \<subseteq> between h0 h'" by auto
qed

lemma stable_raw_copied [stable_intros]: "stable (\<lambda>h. raw_copied h0 r h r')"
  unfolding stable_def raw_copied_def
proof (intro allI impI)
  fix h h'
  assume c: "raw_value h r' = raw_value h0 r \<and> raw_reach h r' \<subseteq> between h0 h" and g: "grown h h'"
  then have "agree (raw_reach h r') h h'" by (intro grown_agree) auto
  from raw_agree [OF this] c between_grown [OF g, of h0] show "raw_value h' r' = raw_value h0 r \<and> raw_reach h' r' \<subseteq> between h0 h'" by auto
qed

lemma stable_info_copied [stable_intros]: "stable (\<lambda>h. info_copied h0 i h i')"
  unfolding stable_def info_copied_def
proof (intro allI impI)
  fix h h'
  assume c: "info_value h i' = info_value h0 i \<and> info_reach h i' \<subseteq> between h0 h" and g: "grown h h'"
  then have "agree (info_reach h i') h h'" by (intro grown_agree) auto
  from info_agree [OF this] c between_grown [OF g, of h0] show "info_value h' i' = info_value h0 i \<and> info_reach h' i' \<subseteq> between h0 h'" by auto
qed

text \<open>An operation that starts when the store has grown from \<open>h0\<close> and \<open>F\<close> holds, and adds the fact \<open>Q\<close> about its result.\<close>

definition adds :: "go_heap \<Rightarrow> (go_heap \<Rightarrow> bool) \<Rightarrow> 'a heap_op \<Rightarrow> ('a \<Rightarrow> go_heap \<Rightarrow> bool) \<Rightarrow> bool" where
  "adds h0 F m Q \<longleftrightarrow> (\<forall>h x h'. grown h0 h \<longrightarrow> F h \<longrightarrow> run_state m h = (x, h') \<longrightarrow> grown h0 h' \<and> Q x h')"

lemma adds_return: "(\<And>h. grown h0 h \<Longrightarrow> F h \<Longrightarrow> Q x h) \<Longrightarrow> adds h0 F (State_Monad.return x) Q"
  by (auto simp: adds_def)

lemma adds_bind: "adds h0 F m Q \<Longrightarrow> (\<And>x. adds h0 (Q x) (k x) R) \<Longrightarrow> adds h0 F (State_Monad.bind m k) R"
  unfolding adds_def
proof (intro allI impI)
  fix h y h'
  assume m: "\<forall>h x h'. grown h0 h \<longrightarrow> F h \<longrightarrow> run_state m h = (x, h') \<longrightarrow> grown h0 h' \<and> Q x h'"
    and k: "\<And>x. \<forall>h y h'. grown h0 h \<longrightarrow> Q x h \<longrightarrow> run_state (k x) h = (y, h') \<longrightarrow> grown h0 h' \<and> R y h'"
    and g: "grown h0 h" "F h" and run: "run_state (State_Monad.bind m k) h = (y, h')"
  obtain x h1 where x: "run_state m h = (x, h1)" by fastforce
  with run have "run_state (k x) h1 = (y, h')" by simp
  with m g x k show "grown h0 h' \<and> R y h'" by blast
qed

lemma adds_weaken: "adds h0 F m Q \<Longrightarrow> (\<And>x h. Q x h \<Longrightarrow> R x h) \<Longrightarrow> adds h0 F m R"
  unfolding adds_def by blast

lemma adds_alloc:
  assumes "stable F" and "\<And>h a. grown h0 h \<Longrightarrow> F h \<Longrightarrow> gh_next h0 \<le> a \<Longrightarrow> a < gh_next h \<Longrightarrow> gh_cell h a = c \<Longrightarrow> Q (Some a) h"
  shows "adds h0 F (heap_alloc c) (\<lambda>r h. F h \<and> Q r h)"
  unfolding adds_def
proof (intro allI impI)
  fix h x h'
  assume g: "grown h0 h" "F h" and run: "run_state (heap_alloc c) h = (x, h')"
  note a = grown_alloc [OF run]
  then have g': "grown h0 h'" "F h'" using g grown_trans assms(1) unfolding stable_def by blast+
  moreover have "gh_next h0 \<le> gh_next h" using g(1) by (simp add: grown_def)
  ultimately show "grown h0 h' \<and> F h' \<and> Q x h'" using assms(2) [OF g', of "gh_next h"] a by simp
qed

lemma adds_read:
  assumes "a < gh_next h0" "adds h0 F (k (gh_cell h0 a)) Q"
  shows "adds h0 F (State_Monad.bind (heap_read a) k) Q"
  unfolding adds_def
proof (intro allI impI)
  fix h x h'
  assume g: "grown h0 h" "F h" and run: "run_state (State_Monad.bind (heap_read a) k) h = (x, h')"
  have "gh_cell h a = gh_cell h0 a" using g(1) assms(1) by (simp add: grown_def)
  with run have "run_state (k (gh_cell h0 a)) h = (x, h')" by (simp add: heap_read_def)
  with assms(2) g show "grown h0 h' \<and> Q x h'" unfolding adds_def by blast
qed

lemma adds_slice:
  assumes "stable F" "set_option r \<subseteq> {..<gh_next h0}"
  shows "adds h0 F (clone_slice r) (\<lambda>r' h. F h \<and> copied h0 r h r')"
proof (cases r)
  case None
  then show ?thesis by (simp add: clone_slice_def) (rule adds_return, simp add: copied_def content_def)
next
  case (Some a)
  with assms(2) have a: "a < gh_next h0" by simp
  show ?thesis
  proof (cases "cell_empty (gh_cell h0 a)")
    case True
    with Some show ?thesis unfolding clone_slice_def
      by (simp add: adds_read [OF a] adds_return copied_def content_def)
  next
    case False
    with Some show ?thesis unfolding clone_slice_def
      by (simp add: adds_read [OF a] adds_alloc [OF assms(1)] copied_def content_def)
  qed
qed

lemma adds_map:
  assumes "stable F" "set_option r \<subseteq> {..<gh_next h0}"
  shows "adds h0 F (clone_map r) (\<lambda>r' h. F h \<and> copied h0 r h r')"
proof (cases r)
  case None
  then show ?thesis by (simp add: clone_map_def) (rule adds_return, simp add: copied_def content_def)
next
  case (Some a)
  with assms(2) have a: "a < gh_next h0" by simp
  with Some show ?thesis unfolding clone_map_def
    by (simp add: adds_read [OF a] adds_alloc [OF assms(1)] copied_def content_def)
qed

definition entries_copied :: "go_heap \<Rightarrow> (u64 \<times> addr option) list \<Rightarrow> go_heap \<Rightarrow> (u64 \<times> addr option) list \<Rightarrow> bool" where
  "entries_copied h0 es h es' \<longleftrightarrow> list_all2 (\<lambda>(k, v) (k', v'). k' = k \<and> copied h0 v h v') es es'"

lemma stable_entries [stable_intros]: "stable (\<lambda>h. entries_copied h0 es h es')"
  unfolding stable_def entries_copied_def
proof (intro allI impI)
  fix h h'
  assume "list_all2 (\<lambda>(k, v) (k', v'). k' = k \<and> copied h0 v h v') es es'" and g: "grown h h'"
  then show "list_all2 (\<lambda>(k, v) (k', v'). k' = k \<and> copied h0 v h' v') es es'"
    using stable_copied g unfolding stable_def by (auto elim!: list_all2_mono)
qed

lemma adds_entries:
  assumes "stable F" "(\<Union>(k, v) \<in> set es. set_option v) \<subseteq> {..<gh_next h0}"
  shows "adds h0 F (clone_entries es) (\<lambda>es' h. F h \<and> entries_copied h0 es h es')"
  using assms
proof (induction es arbitrary: F)
  case Nil
  then show ?case by (simp add: adds_return entries_copied_def)
next
  case (Cons e es)
  obtain k v where e: "e = (k, v)" by fastforce
  have s: "stable (\<lambda>h. F h \<and> copied h0 v h v')" for v' by (intro stable_intros Cons.prems(1))
  have "adds h0 F (clone_entries (e # es)) (\<lambda>es' h. F h \<and> entries_copied h0 (e # es) h es')"
    unfolding e clone_entries.simps
  proof (rule adds_bind [OF adds_slice [OF Cons.prems(1)]])
    show "set_option v \<subseteq> {..<gh_next h0}" using Cons.prems(2) e by auto
    fix v'
    show "adds h0 (\<lambda>h. F h \<and> copied h0 v h v') (State_Monad.bind (clone_entries es) (\<lambda>es'. State_Monad.return ((k, v') # es')))
        (\<lambda>es' h. F h \<and> entries_copied h0 ((k, v) # es) h es')"
      by (rule adds_bind [OF Cons.IH [OF s]]) (use Cons.prems(2) e in \<open>auto intro!: adds_return simp: entries_copied_def\<close>)
  qed
  then show ?case .
qed

lemma entries_values:
  "entries_copied h0 es h es' \<Longrightarrow>
   map (\<lambda>(k, v). (k, bytes_of (content h v))) es' = map (\<lambda>(k, v). (k, bytes_of (content h0 v))) es \<and>
   (\<Union>(k, v) \<in> set es'. set_option v) \<subseteq> between h0 h"
  unfolding entries_copied_def
  by (induction es es' rule: list_all2_induct) (auto simp: copied_def)

lemma adds_raw:
  assumes "stable F" "raw_reach h0 r \<subseteq> {..<gh_next h0}"
  shows "adds h0 F (cloneRawCBORMap r) (\<lambda>r' h. F h \<and> raw_copied h0 r h r')"
proof (cases r)
  case None
  then show ?thesis by (simp add: cloneRawCBORMap_def) (rule adds_return, simp add: raw_copied_def raw_value_def raw_reach_def raw_entries_def)
next
  case (Some a)
  with assms(2) have a: "a < gh_next h0" by (simp add: raw_reach_def)
  let ?es = "raw_entries h0 r"
  have es: "(case gh_cell h0 a of RawMapCell es \<Rightarrow> es | _ \<Rightarrow> []) = ?es" by (simp add: raw_entries_def Some)
  have "adds h0 F (State_Monad.bind (clone_entries ?es) (\<lambda>es. heap_alloc (RawMapCell es))) (\<lambda>r' h. F h \<and> raw_copied h0 r h r')"
  proof (rule adds_bind [OF adds_entries [OF assms(1)]])
    show "(\<Union>(k, v) \<in> set ?es. set_option v) \<subseteq> {..<gh_next h0}" using assms(2) by (auto simp: raw_reach_def)
    fix es'
    have alloc: "adds h0 (\<lambda>h. F h \<and> entries_copied h0 ?es h es') (heap_alloc (RawMapCell es'))
        (\<lambda>r' h. (F h \<and> entries_copied h0 ?es h es') \<and> raw_copied h0 r h r')"
    proof (rule adds_alloc)
      show "stable (\<lambda>h. F h \<and> entries_copied h0 ?es h es')" by (intro stable_intros assms(1))
      fix h b
      assume "F h \<and> entries_copied h0 ?es h es'" "gh_next h0 \<le> b" "b < gh_next h" "gh_cell h b = RawMapCell es'"
      with entries_values [of h0 ?es h es'] show "raw_copied h0 r h (Some b)"
        by (simp add: raw_copied_def raw_value_def raw_reach_def raw_entries_def)
    qed
    show "adds h0 (\<lambda>h. F h \<and> entries_copied h0 ?es h es') (heap_alloc (RawMapCell es')) (\<lambda>r' h. F h \<and> raw_copied h0 r h r')"
      by (rule adds_weaken [OF alloc]) simp
  qed
  then have *: "adds h0 F (State_Monad.bind (clone_entries (case gh_cell h0 a of RawMapCell es \<Rightarrow> es | _ \<Rightarrow> [])) (\<lambda>es. heap_alloc (RawMapCell es)))
      (\<lambda>r' h. F h \<and> raw_copied h0 r h r')"
    by (simp only: es)
  have "cloneRawCBORMap r = State_Monad.bind (heap_read a)
      (\<lambda>c. State_Monad.bind (clone_entries (case c of RawMapCell es \<Rightarrow> es | _ \<Rightarrow> [])) (\<lambda>es. heap_alloc (RawMapCell es)))"
    by (simp only: cloneRawCBORMap_def Some option.case)
  then show ?thesis by (rule ssubst [where P = "\<lambda>m. adds h0 F m _"]) (rule adds_read [OF a], rule *)
qed

lemma adds_info:
  assumes "stable F" and reach: "info_reach h0 i \<subseteq> {..<gh_next h0}"
  shows "adds h0 F (info_Clone i) (\<lambda>i' h. F h \<and> info_copied h0 i h i')"
proof -
  have refs: "set_option (ir_Versions i) \<subseteq> {..<gh_next h0}" "set_option (ir_Extensions i) \<subseteq> {..<gh_next h0}"
    "set_option (ir_AAGUID i) \<subseteq> {..<gh_next h0}" "set_option (ir_Options i) \<subseteq> {..<gh_next h0}"
    "set_option (ir_PinUVAuthProtocols i) \<subseteq> {..<gh_next h0}" "set_option (ir_Transports i) \<subseteq> {..<gh_next h0}"
    "set_option (ir_Algorithms i) \<subseteq> {..<gh_next h0}" "set_option (ir_Certifications i) \<subseteq> {..<gh_next h0}"
    "set_option (ir_VendorPrototypeConfigCommands i) \<subseteq> {..<gh_next h0}" "raw_reach h0 (ir_Raw i) \<subseteq> {..<gh_next h0}"
    using reach unfolding info_reach_def by blast+
  show ?thesis
    unfolding info_Clone_def
    by ((rule adds_bind, rule adds_slice adds_map adds_raw, intro stable_intros assms(1), rule refs)+, rule adds_return,
      simp add: info_copied_def info_value_def info_reach_def copied_def raw_copied_def)
qed

definition pointer_copied :: "go_heap \<Rightarrow> addr option \<Rightarrow> go_heap \<Rightarrow> addr option \<Rightarrow> bool" where
  "pointer_copied h0 r h r' \<longleftrightarrow>
     set_option r' \<subseteq> between h0 h \<and>
     (case pointer_info h0 r of
        None \<Rightarrow> pointer_info h r' = None
      | Some i \<Rightarrow> (\<exists>i'. pointer_info h r' = Some i' \<and> info_copied h0 i h i'))"

lemma adds_pointer:
  assumes "stable F" "set_option r \<subseteq> {..<gh_next h0}" "\<And>i. pointer_info h0 r = Some i \<Longrightarrow> info_reach h0 i \<subseteq> {..<gh_next h0}"
  shows "adds h0 F (cloneGetInfoResponse r) (\<lambda>r' h. F h \<and> pointer_copied h0 r h r')"
proof (cases "pointer_info h0 r")
  case None
  then have "cloneGetInfoResponse r = State_Monad.return None \<or> (\<exists>a. r = Some a \<and> (\<forall>i. gh_cell h0 a \<noteq> InfoCell i))"
    by (cases r) (auto simp: cloneGetInfoResponse_def pointer_info_def split: go_cell.splits)
  then show ?thesis
  proof
    assume "cloneGetInfoResponse r = State_Monad.return None"
    with None show ?thesis by (simp add: adds_return pointer_copied_def pointer_info_def [of _ None])
  next
    assume "\<exists>a. r = Some a \<and> (\<forall>i. gh_cell h0 a \<noteq> InfoCell i)"
    then obtain a where a: "r = Some a" "\<forall>i. gh_cell h0 a \<noteq> InfoCell i" by blast
    with assms(2) None show ?thesis
      by (cases "gh_cell h0 a") (auto simp: cloneGetInfoResponse_def pointer_copied_def pointer_info_def [of _ None] intro!: adds_read adds_return)
  qed
next
  case (Some i)
  then obtain a where a: "r = Some a" "gh_cell h0 a = InfoCell i" by (cases r) (auto simp: pointer_info_def split: go_cell.splits)
  have alloc: "adds h0 (\<lambda>h. F h \<and> info_copied h0 i h i') (heap_alloc (InfoCell i'))
      (\<lambda>r' h. (F h \<and> info_copied h0 i h i') \<and> pointer_copied h0 r h r')" for i'
    by (rule adds_alloc) (intro stable_intros assms(1), simp add: pointer_copied_def Some pointer_info_def [of _ "Some _"])
  have "adds h0 F (State_Monad.bind (info_Clone i) (\<lambda>i'. heap_alloc (InfoCell i'))) (\<lambda>r' h. F h \<and> pointer_copied h0 r h r')"
    by (rule adds_bind [OF adds_info [OF assms(1,3)]], rule Some) (rule adds_weaken [OF alloc], simp)
  with a assms(2) show ?thesis by (auto simp: cloneGetInfoResponse_def intro!: adds_read)
qed

lemma copied_ctap1: "copied h0 r h r' \<Longrightarrow> pointer_ctap1 h r' = pointer_ctap1 h0 r"
  by (auto simp: copied_def content_def pointer_ctap1_def split: option.splits if_splits go_cell.splits)

lemma caps_copied:
  assumes "caps_reach h caps \<subseteq> {..<gh_next h}" "run_state (cloneCapabilities caps) h = (caps', h')"
  shows "grown h h'" "caps_value h' caps' = caps_value h caps" "caps_reach h' caps' \<subseteq> between h h'"
proof -
  have refs: "set_option (cr_RawCTAP1 caps) \<subseteq> {..<gh_next h}" "set_option (cr_RawCTAP2 caps) \<subseteq> {..<gh_next h}"
    "pointer_info h (cr_RawCTAP2 caps) = Some i \<Longrightarrow> info_reach h i \<subseteq> {..<gh_next h}" for i
    using assms(1) by (auto simp: caps_reach_def)
  have "adds h (\<lambda>h. True) (cloneCapabilities caps) (\<lambda>caps' h'. cr_plain caps' = cr_plain caps \<and>
      copied h (cr_RawCTAP1 caps) h' (cr_RawCTAP1 caps') \<and> pointer_copied h (cr_RawCTAP2 caps) h' (cr_RawCTAP2 caps'))"
    unfolding cloneCapabilities_def
    by (rule adds_bind [OF adds_map], intro stable_intros, rule refs, rule adds_bind [OF adds_pointer], intro stable_intros, rule refs,
      erule refs, rule adds_return, simp)
  with assms(2) have g: "grown h h'" and c: "cr_plain caps' = cr_plain caps" "copied h (cr_RawCTAP1 caps) h' (cr_RawCTAP1 caps')"
    "pointer_copied h (cr_RawCTAP2 caps) h' (cr_RawCTAP2 caps')"
    unfolding adds_def by (metis grown_refl)+
  from g show "grown h h'" .
  from c show "caps_value h' caps' = caps_value h caps" "caps_reach h' caps' \<subseteq> between h h'"
    by (auto simp: caps_value_def caps_reach_def copied_ctap1 pointer_copied_def info_copied_def copied_def
      split: option.splits prod.splits)
qed

text \<open>A key is copied with its coordinates.\<close>

lemma cose_copied:
  assumes "set_option (ce_X key) \<union> set_option (ce_Y key) \<subseteq> {..<gh_next h}" "run_state (cose_Clone key) h = (key', h')"
  shows "ce_numbers key' = ce_numbers key" "copied h (ce_X key) h' (ce_X key')" "copied h (ce_Y key) h' (ce_Y key')"
proof -
  have refs: "set_option (ce_X key) \<subseteq> {..<gh_next h}" "set_option (ce_Y key) \<subseteq> {..<gh_next h}" using assms(1) by auto
  have "adds h (\<lambda>h. True) (cose_Clone key) (\<lambda>key' h'. ce_numbers key' = ce_numbers key \<and>
      copied h (ce_X key) h' (ce_X key') \<and> copied h (ce_Y key) h' (ce_Y key'))"
    unfolding cose_Clone_def
    by ((rule adds_bind [OF adds_slice], intro stable_intros, rule refs)+, rule adds_return, simp)
  with assms(2) show "ce_numbers key' = ce_numbers key" "copied h (ce_X key) h' (ce_X key')" "copied h (ce_Y key) h' (ce_Y key')"
    unfolding adds_def by (metis grown_refl)+
qed

text \<open>Wiping a secret erases its own bytes and leaves a copy of it alone.\<close>

lemma secret_wiped_apart:
  assumes "a < gh_next h" "gh_cell h a = BytesCell bs" "bs \<noteq> []"
    and "run_state (secret_Clone (Some a)) h = (s', h1)" "run_state (secret_cell_Wipe (Some a)) h1 = (u, h2)"
  shows "bytes_of (content h2 s') = bs" "gh_cell h2 a = BytesCell (replicate (length bs) 0)"
  using assms by (auto simp: secret_Clone_def clone_slice_def heap_read_def heap_alloc_def secret_cell_Wipe_def content_def bytes_of_def)

subsection \<open>The cached capabilities\<close>

text \<open>C39. The capabilities that the client hands out are a deep copy of the ones it caches: they have the same value, they reach no cell of the
  store that existed before the copy was made, and so, whatever a caller writes to the copy or to anything made later, the cached capabilities
  keep their value.\<close>

theorem capabilities_isolated:
  assumes "caps_reach h caps \<subseteq> {..<gh_next h}" and "run_state (cloneCapabilities caps) h = (caps', h')"
  shows "caps_value h' caps' = caps_value h caps \<and> caps_reach h' caps' \<inter> {..<gh_next h} = {} \<and>
    (\<forall>h''. (\<forall>a. gh_cell h'' a \<noteq> gh_cell h' a \<longrightarrow> a \<in> caps_reach h' caps' \<or> gh_next h' \<le> a) \<longrightarrow> caps_value h'' caps = caps_value h caps)"
proof (intro conjI allI impI)
  note c = caps_copied [OF assms]
  show "caps_value h' caps' = caps_value h caps" by (rule c)
  show "caps_reach h' caps' \<inter> {..<gh_next h} = {}" using c(3) by auto
  fix h'' :: go_heap
  assume w: "\<forall>a. gh_cell h'' a \<noteq> gh_cell h' a \<longrightarrow> a \<in> caps_reach h' caps' \<or> gh_next h' \<le> a"
  have "gh_cell h'' a = gh_cell h a" if "a \<in> caps_reach h caps" for a
  proof -
    have a: "a < gh_next h" using that assms(1) by auto
    then have "gh_cell h' a = gh_cell h a" "a < gh_next h'" using c(1) by (simp_all add: grown_def)
    moreover have "a \<notin> caps_reach h' caps'" using a c(3) by auto
    ultimately show ?thesis using w by (metis not_le)
  qed
  then show "caps_value h'' caps = caps_value h caps" by (intro caps_agree) (simp add: agree_def)
qed

definition sample_info_refs :: info_refs where
  "sample_info_refs =
     \<lparr>ir_Versions = Some 0, ir_Extensions = None, ir_AAGUID = None, ir_Options = None, ir_MaxMsgSize = 1200, ir_PinUVAuthProtocols = None,
      ir_MaxCredentialCountInList = 0, ir_MaxCredentialIDLength = 0, ir_Transports = None, ir_Algorithms = None,
      ir_MaxSerializedLargeBlobArray = 0, ir_ForcePINChange = False, ir_MinPINLength = 4, ir_FirmwareVersion = 0, ir_MaxCredBlobLength = 0,
      ir_MaxRPIDsForSetMinPINLength = 0, ir_PreferredPlatformUVAttempts = 0, ir_UVModality = 0, ir_Certifications = None,
      ir_RemainingDiscoverableCredentials = 0, ir_VendorPrototypeConfigCommands = None, ir_Raw = Some 1\<rparr>"

definition sample_heap :: go_heap where
  "sample_heap =
     \<lparr>gh_next = 4,
      gh_cell = (\<lambda>a. if a = 0 then StringsCell [''FIDO_2_0''] else if a = 1 then RawMapCell [(1, Some 2)] else if a = 2 then BytesCell [0xA0]
        else InfoCell sample_info_refs)\<rparr>"

definition sample_caps :: caps_refs where
  "sample_caps =
     (let caps = buildCapabilities None None
        \<lparr>dd_ID = [], dd_Transport = KindUSB, dd_Path = [], dd_Manufacturer = [], dd_Product = [], dd_SerialNumber = [], dd_VendorID = 0, dd_ProductID = 0\<rparr>
      in \<lparr>cr_plain = (cap_Protocols caps, cap_Authenticator caps, cap_Verification caps, cap_Interaction caps),
          cr_RawCTAP1 = None, cr_RawCTAP2 = Some 3\<rparr>)"

theorem capabilities_isolated_witness:
  "\<exists>caps' h'. run_state (cloneCapabilities sample_caps) sample_heap = (caps', h') \<and>
     map_option gi_Versions (cap_RawCTAP2 (caps_value h' caps')) = Some [''FIDO_2_0''] \<and> 0 \<notin> caps_reach h' caps'"
proof -
  obtain caps' h' where run: "run_state (cloneCapabilities sample_caps) sample_heap = (caps', h')" by fastforce
  have reach: "caps_reach sample_heap sample_caps \<subseteq> {..<gh_next sample_heap}"
    by (simp add: caps_reach_def sample_caps_def sample_heap_def pointer_info_def info_reach_def raw_reach_def raw_entries_def
      sample_info_refs_def Let_def)
  note iso = capabilities_isolated [OF reach run]
  have "map_option gi_Versions (cap_RawCTAP2 (caps_value sample_heap sample_caps)) = Some [''FIDO_2_0'']"
    by (simp add: caps_value_def sample_caps_def sample_heap_def pointer_info_def info_value_def content_def strings_of_def
      sample_info_refs_def Let_def)
  moreover have "0 < gh_next sample_heap" by (simp add: sample_heap_def)
  ultimately show ?thesis using run iso by auto
qed

end
