(* ===== verification/FileTools.thy ===== *)
theory FileTools
  imports NativeDriver GoEncoding
begin

text \<open>
  Programs that write files: the report of the diagnostics, \<open>internal/diagnostics/report.go\<close>, and the downloader of the specifications,
  \<open>tools/download_fido_specs/main.go\<close>. The file system, HTTP and the JSON encoder are parameters.
\<close>

subsection \<open>The report of the diagnostics\<close>

text \<open>\<open>rf_OpenFile\<close> opens a path for writing, created or truncated, with a mode; \<open>rf_WriteJSON\<close> encodes a report to a file.\<close>

record ('w, 'r) report_files =
  rf_OpenFile :: "string \<Rightarrow> nat \<Rightarrow> ('w, int) io"
  rf_Chmod :: "int \<Rightarrow> nat \<Rightarrow> 'w \<Rightarrow> err option \<times> 'w"
  rf_WriteJSON :: "int \<Rightarrow> 'r \<Rightarrow> 'w \<Rightarrow> err option \<times> 'w"
  rf_Close :: "int \<Rightarrow> 'w \<Rightarrow> err option \<times> 'w"

definition owner_only :: nat where "owner_only = 0x180"

definition path_IsAbs :: "string \<Rightarrow> bool" where
  "path_IsAbs path \<longleftrightarrow> path \<noteq> [] \<and> hd path = CHR ''/''"

definition report_WriteFile :: "('w, 'r) report_files \<Rightarrow> string \<Rightarrow> 'r \<Rightarrow> ('w, err option) io" where
  "report_WriteFile fs path report =
     (if path = [] then io_return None
      else if \<not> path_IsAbs path then io_return (Some (TextError ''diagnostic report path must be absolute''))
      else io_bind (io_try (rf_OpenFile fs path owner_only)) (\<lambda>opened. case opened of
        Inl e \<Rightarrow> io_return (Some (WrapError ''open diagnostic report: %w'' [e]))
      | Inr f \<Rightarrow> io_bind (io_ask (rf_Chmod fs f owner_only)) (\<lambda>restricted. case restricted of
          Some e \<Rightarrow> io_bind (io_ask (rf_Close fs f)) (\<lambda>closeErr.
            io_return (errors_join [Some (WrapError ''restrict diagnostic report permissions: %w'' [e]), closeErr]))
        | None \<Rightarrow> io_bind (io_ask (rf_WriteJSON fs f report)) (\<lambda>writeErr.
            io_bind (io_ask (rf_Close fs f)) (\<lambda>closeErr. io_return (errors_join [writeErr, closeErr]))))))"

subsection \<open>The downloader\<close>

text \<open>The operations of \<open>downloadSpec\<close>. \<open>fe_Do\<close> sends a request for a URL and answers the status and the body; \<open>fe_Copy\<close> copies a body
  to a file. \<open>fe_Print\<close> writes a line to the standard output.\<close>

record 'w fetch_files =
  fe_Stat :: "string \<Rightarrow> 'w \<Rightarrow> err option \<times> 'w"
  fe_IsNotExist :: "err \<Rightarrow> bool"
  fe_MkdirAll :: "string \<Rightarrow> nat \<Rightarrow> 'w \<Rightarrow> err option \<times> 'w"
  fe_NewRequest :: "string \<Rightarrow> 'w \<Rightarrow> err option \<times> 'w"
  fe_Do :: "string \<Rightarrow> ('w, int \<times> int) io"
  fe_BodyClose :: "int \<Rightarrow> 'w \<Rightarrow> err option \<times> 'w"
  fe_Create :: "string \<Rightarrow> ('w, int) io"
  fe_Copy :: "int \<Rightarrow> int \<Rightarrow> 'w \<Rightarrow> err option \<times> 'w"
  fe_FileClose :: "int \<Rightarrow> 'w \<Rightarrow> err option \<times> 'w"
  fe_Print :: "string \<Rightarrow> 'w \<Rightarrow> err option \<times> 'w"

definition fetch_body :: "'w fetch_files \<Rightarrow> string \<Rightarrow> string \<Rightarrow> int \<Rightarrow> int \<Rightarrow> ('w, unit) io" where
  "fetch_body fs url dest status body =
     (if status \<noteq> 200 then io_fail (TextError (''unexpected status '' @ Itoa status))
      else io_bind (fe_Create fs dest) (\<lambda>out. io_defer (fe_FileClose fs out)
        (io_bind (io_check (fe_Copy fs out body)) (\<lambda>_.
         io_bind (io_ask (fe_Print fs (''downloaded '' @ url @ '' -> '' @ dest))) (\<lambda>_. io_return ())))))"

definition downloadSpec :: "'w fetch_files \<Rightarrow> string \<Rightarrow> string \<Rightarrow> ('w, unit) io" where
  "downloadSpec fs url dest =
     io_bind (io_ask (fe_Stat fs dest)) (\<lambda>stat. case stat of
       None \<Rightarrow> io_bind (io_ask (fe_Print fs (''skipping existing file: '' @ dest))) (\<lambda>_. io_return ())
     | Some e \<Rightarrow>
         if \<not> fe_IsNotExist fs e then io_fail e
         else io_bind (io_check (fe_MkdirAll fs (path_Dir dest) 0x1ED)) (\<lambda>_.
              io_bind (io_check (fe_NewRequest fs url)) (\<lambda>_.
              io_bind (fe_Do fs url) (\<lambda>(status, body).
                io_defer (fe_BodyClose fs body) (fetch_body fs url dest status body)))))"

text \<open>The documents, with the files they are kept in.\<close>

definition specs :: "(string \<times> string) list" where
  "specs =
     [(''https://fidoalliance.org/specs/fido-v2.0-ps-20190130/fido-client-to-authenticator-protocol-v2.0-ps-20190130.html'',
        ''docs/raw/fido/ctap/2.0-ps-20190130/fido-client-to-authenticator-protocol-v2.0-ps-20190130.html''),
      (''https://fidoalliance.org/specs/fido-v2.1-ps-20210615/fido-client-to-authenticator-protocol-v2.1-ps-20210615.html'',
        ''docs/raw/fido/ctap/2.1-ps-20210615/fido-client-to-authenticator-protocol-v2.1-ps-20210615.html''),
      (''https://fidoalliance.org/specs/fido-v2.2-ps-20250714/fido-client-to-authenticator-protocol-v2.2-ps-20250714.html'',
        ''docs/raw/fido/ctap/2.2-ps-20250714/fido-client-to-authenticator-protocol-v2.2-ps-20250714.html''),
      (''https://fidoalliance.org/specs/fido-v2.3-ps-20260226/fido-client-to-authenticator-protocol-v2.3-ps-20260226.html'',
        ''docs/raw/fido/ctap/2.3-ps-20260226/fido-client-to-authenticator-protocol-v2.3-ps-20260226.html''),
      (''https://fidoalliance.org/specs/common-specs/fido-glossary-v2.1-ps-20220523.html'',
        ''docs/raw/fido/common-specs/fido-glossary-v2.1-ps-20220523.html''),
      (''https://fidoalliance.org/specs/common-specs/fido-registry-v2.2-ps-20220523.html'',
        ''docs/raw/fido/common-specs/fido-registry-v2.2-ps-20220523.html''),
      (''https://fidoalliance.org/specs/common-specs/fido-security-ref-v2.1-ps-20220523.html'',
        ''docs/raw/fido/common-specs/fido-security-ref-v2.1-ps-20220523.html''),
      (''https://fidoalliance.org/specs/mds/fido-metadata-service-v3.1-ps-20250521.html'',
        ''docs/raw/fido/mds/fido-metadata-service-v3.1-ps-20250521.html''),
      (''https://fidoalliance.org/specs/mds/fido-metadata-statement-v3.1-ps-20250521.html'',
        ''docs/raw/fido/mds/fido-metadata-statement-v3.1-ps-20250521.html''),
      (''https://fidoalliance.org/specs/fido-u2f-v1.2-ps-20170411/fido-u2f-raw-message-formats-v1.2-ps-20170411.html'',
        ''docs/raw/fido/u2f/1.2-ps-20170411/fido-u2f-raw-message-formats-v1.2-ps-20170411.html''),
      (''https://fidoalliance.org/specs/fido-u2f-v1.2-ps-20170411/fido-u2f-overview-v1.2-ps-20170411.html'',
        ''docs/raw/fido/u2f/1.2-ps-20170411/fido-u2f-overview-v1.2-ps-20170411.html''),
      (''https://fidoalliance.org/specs/fido-u2f-v1.2-ps-20170411/fido-u2f-hid-protocol-v1.2-ps-20170411.html'',
        ''docs/raw/fido/u2f/1.2-ps-20170411/fido-u2f-hid-protocol-v1.2-ps-20170411.html'')]"

text \<open>\<open>main\<close>, over the table \<open>specs\<close> in the order in which the map is traversed: None is success and Some the URL that failed.\<close>

fun download_all :: "'w fetch_files \<Rightarrow> (string \<times> string) list \<Rightarrow> ('w, (string \<times> err) option) io" where
  "download_all fs [] = io_bind (io_ask (fe_Print fs ''FIDO raw specs downloaded successfully.'')) (\<lambda>_. io_return None)"
| "download_all fs ((url, dest) # rest) =
     io_bind (io_try (downloadSpec fs url dest)) (\<lambda>r. case r of
       Inl e \<Rightarrow> io_return (Some (url, e))
     | Inr _ \<Rightarrow> download_all fs rest)"

subsection \<open>Files are closed\<close>

text \<open>Handles of files and response bodies that are open.\<close>

datatype tool_handle = ToolFile int | ToolBody int

definition report_handles :: "('w, 'r) report_files \<Rightarrow> ('w \<Rightarrow> tool_handle set) \<Rightarrow> bool" where
  "report_handles fs hs \<longleftrightarrow>
     (\<forall>p m. opens hs ToolFile (rf_OpenFile fs p m)) \<and> closes hs ToolFile (rf_Close fs) \<and>
     (\<forall>f m. ask_keeps hs (rf_Chmod fs f m)) \<and> (\<forall>f r. ask_keeps hs (rf_WriteJSON fs f r))"

definition fetch_handles :: "'w fetch_files \<Rightarrow> ('w \<Rightarrow> tool_handle set) \<Rightarrow> bool" where
  "fetch_handles fs hs \<longleftrightarrow>
     (\<forall>u. opens hs (ToolBody \<circ> snd) (fe_Do fs u)) \<and> closes hs ToolBody (fe_BodyClose fs) \<and>
     (\<forall>d. opens hs ToolFile (fe_Create fs d)) \<and> closes hs ToolFile (fe_FileClose fs) \<and>
     (\<forall>d. ask_keeps hs (fe_Stat fs d)) \<and> (\<forall>d m. ask_keeps hs (fe_MkdirAll fs d m)) \<and> (\<forall>u. ask_keeps hs (fe_NewRequest fs u)) \<and>
     (\<forall>f b. ask_keeps hs (fe_Copy fs f b)) \<and> (\<forall>t. ask_keeps hs (fe_Print fs t))"

lemma report_handlesD:
  assumes "report_handles fs hs"
  shows "opens hs ToolFile (rf_OpenFile fs p m)" "closes hs ToolFile (rf_Close fs)" "ask_keeps hs (rf_Chmod fs f m)"
    "ask_keeps hs (rf_WriteJSON fs f r)"
  using assms by (simp_all add: report_handles_def)

lemma fetch_handlesD:
  assumes "fetch_handles fs hs"
  shows "opens hs (\<lambda>x. ToolBody (snd x)) (fe_Do fs u)" "closes hs ToolBody (fe_BodyClose fs)"
    "opens hs (\<lambda>x. ToolFile x) (fe_Create fs d)" "closes hs ToolFile (fe_FileClose fs)"
    "ask_keeps hs (fe_Stat fs d)" "ask_keeps hs (fe_MkdirAll fs d m)" "ask_keeps hs (fe_NewRequest fs u)"
    "ask_keeps hs (fe_Copy fs f b)" "ask_keeps hs (fe_Print fs t)"
  using assms by (simp_all add: fetch_handles_def comp_def)

text \<open>Every file that is opened is closed, and every response body.\<close>

lemma ask_keeps_world: "ask_keeps f q \<Longrightarrow> q w = (x, w') \<Longrightarrow> f w' = f w"
  unfolding ask_keeps_def by (metis snd_conv)

lemma WriteFile_keeps:
  assumes "report_handles fs hs"
  shows "io_keeps hs (report_WriteFile fs path report)"
  unfolding io_keeps_def
proof (intro allI impI)
  fix w r w'
  assume run: "report_WriteFile fs path report w = Some (r, w')"
  note laws = report_handlesD [OF assms]
  show "hs w' = hs w"
  proof (cases "path = [] \<or> \<not> path_IsAbs path")
    case True
    with run show ?thesis by (auto simp: report_WriteFile_def io_return_def split: if_splits)
  next
    case False
    with run obtain q w1 where q: "rf_OpenFile fs path owner_only w = Some (q, w1)"
      by (auto simp: report_WriteFile_def io_bind_conv)
    show ?thesis
    proof (cases q)
      case (Inl e)
      with q laws(1) have "hs w1 = hs w" by (fastforce simp: opens_def)
      with run False q Inl show ?thesis by (auto simp: report_WriteFile_def io_bind_conv io_return_def)
    next
      case (Inr f)
      with q laws(1) have f: "ToolFile f \<notin> hs w" "hs w1 = insert (ToolFile f) (hs w)" by (fastforce simp: opens_def)+
      have c: "rf_Close fs f v = (y, v') \<Longrightarrow> hs v = hs w1 \<Longrightarrow> hs v' = hs w" for v y v'
        using laws(2) f unfolding closes_def by (metis Diff_insert_absorb snd_conv)
      from run False q Inr obtain v y where "hs v = hs w1" "rf_Close fs f v = (y, w')"
        by (fastforce simp: report_WriteFile_def io_conv io_return_def split: option.splits
          dest: ask_keeps_world [OF laws(3)] ask_keeps_world [OF laws(4)])
      with c show ?thesis by blast
    qed
  qed
qed

lemma keeps_check [keep_intros]: "ask_keeps f q \<Longrightarrow> io_keeps f (io_check q)"
  by (auto simp: io_keeps_def io_check_conv dest: ask_keeps_world)

lemma fetch_body_keeps:
  assumes "fetch_handles fs hs"
  shows "io_keeps hs (fetch_body fs url dest status body)"
  unfolding fetch_body_def
  by (rule keeps_split(4), rule keeps_prim, rule keeps_defer [OF fetch_handlesD(4) fetch_handlesD(3), OF assms assms])
    (intro keep_intros fetch_handlesD [OF assms])

lemma downloadSpec_keeps:
  assumes "fetch_handles fs hs"
  shows "io_keeps hs (downloadSpec fs url dest)"
proof -
  have "io_keeps hs (io_bind (fe_Do fs url) (\<lambda>x. io_defer (fe_BodyClose fs (snd x)) (fetch_body fs url dest (fst x) (snd x))))"
    by (rule keeps_defer [OF fetch_handlesD(2) fetch_handlesD(1), OF assms assms]) (rule fetch_body_keeps [OF assms])
  then have body: "io_keeps hs (io_bind (fe_Do fs url) (\<lambda>(status, body). io_defer (fe_BodyClose fs body) (fetch_body fs url dest status body)))"
    by (simp add: case_prod_unfold)
  show ?thesis unfolding downloadSpec_def
    by (rule body | rule keep_intros | rule fetch_handlesD [OF assms])+
qed

lemma download_all_keeps: "fetch_handles fs hs \<Longrightarrow> io_keeps hs (download_all fs specs')"
  by (induction fs specs' rule: download_all.induct) (auto intro!: keep_intros downloadSpec_keeps fetch_handlesD)

subsection \<open>Interrupted downloads\<close>

text \<open>What a file system promises, for the set \<open>files\<close> of the paths that exist: a file that was created exists, and nothing else of a
  download changes which files exist.\<close>

definition fetch_exists :: "'w fetch_files \<Rightarrow> ('w \<Rightarrow> string set) \<Rightarrow> bool" where
  "fetch_exists fs files \<longleftrightarrow>
     (\<forall>d w. fst (fe_Stat fs d w) = None \<longleftrightarrow> d \<in> files w) \<and>
     (\<forall>d w f w'. fe_Create fs d w = Some (Inr f, w') \<longrightarrow> files w' = insert d (files w)) \<and>
     (\<forall>f b. ask_keeps files (fe_Copy fs f b)) \<and> (\<forall>f. ask_keeps files (fe_FileClose fs f)) \<and> (\<forall>d. ask_keeps files (fe_Stat fs d)) \<and>
     (\<forall>t. ask_keeps files (fe_Print fs t))"

text \<open>A document whose transfer breaks off is left in its file, and the next run takes the file for the document: it reports success without
  downloading anything.\<close>

lemma broken_download_kept:
  assumes "fetch_exists fs files" and "fetch_body fs url dest 200 body w = Some (Inl e, w')"
    and "fe_Create fs dest w = Some (Inr f, w1)"
  shows "\<exists>w''. downloadSpec fs url dest w' = Some (Inr (), w'') \<and> files w'' = files w'"
proof -
  note laws = assms(1) [unfolded fetch_exists_def]
  have keep: "ask_keeps files (fe_Copy fs f b)" "ask_keeps files (fe_FileClose fs f)" "ask_keeps files (fe_Print fs t)"
    "ask_keeps files (fe_Stat fs d)" for f b t d
    using laws by simp_all
  from assms(2,3) obtain w2 where copy: "fe_Copy fs f body w1 = (Some e, w2)" and w': "w' = snd (fe_FileClose fs f w2)"
    by (auto simp: fetch_body_def io_defer_conv io_conv io_return_def)
  have "files w1 = insert dest (files w)" using laws assms(3) by blast
  then have "dest \<in> files w'" using ask_keeps_world [OF keep(1) copy] keep(2) w' by (simp add: ask_keeps_def)
  then obtain w3 where stat: "fe_Stat fs dest w' = (None, w3)" using laws by (metis prod.collapse)
  obtain x w4 where print: "fe_Print fs (''skipping existing file: '' @ dest) w3 = (x, w4)" by fastforce
  have "downloadSpec fs url dest w' = Some (Inr (), w4)"
    using stat print by (simp add: downloadSpec_def io_bind_def io_ask_def io_return_def)
  moreover have "files w4 = files w'" using ask_keeps_world [OF keep(3) print] ask_keeps_world [OF keep(4) stat] by simp
  ultimately show ?thesis by blast
qed

end
