(* ===== verification/ErrorText.thy ===== *)
theory ErrorText
  imports Ctap1 Ctap2 ClientCore GoEncoding GoStrings
begin

text \<open>
  The texts of errors: the method \<open>Error\<close> of every error type of the repository, and what the text of an error reveals of its causes.
  The command line and the PC/SC backend look at these texts. The verb \<open>q\<close> and the errors of code outside the repository are
  parameters. A message of \<open>fmt.Errorf\<close> is kept as its format when it holds the verb \<open>w\<close>, and otherwise as the part before the
  colon and the cause.
\<close>

subsection \<open>Formats\<close>

record text_env =
  tx_quote :: "string \<Rightarrow> string"
  tx_foreign :: "err \<Rightarrow> string"

text \<open>\<open>%x\<close> of a number, and \<open>%02x\<close> of a byte.\<close>

fun nat_hex :: "nat \<Rightarrow> string" where
  "nat_hex n = (if n < 16 then [hex_char n] else nat_hex (n div 16) @ [hex_char (n mod 16)])"

declare nat_hex.simps [simp del]

abbreviation hex2 :: "byte \<Rightarrow> string" where
  "hex2 b \<equiv> hex_encode [b]"

text \<open>Replacing the verbs \<open>w\<close> by texts in order, and counting them.\<close>

fun fmt_w :: "string \<Rightarrow> string list \<Rightarrow> string" where
  "fmt_w [] ts = []"
| "fmt_w [c] ts = [c]"
| "fmt_w (c # d # s) ts =
     (if c = CHR ''%'' \<and> d = CHR ''w'' \<and> ts \<noteq> [] then hd ts @ fmt_w s (tl ts) else c # fmt_w (d # s) ts)"

fun verbs_w :: "string \<Rightarrow> nat" where
  "verbs_w [] = 0"
| "verbs_w [c] = 0"
| "verbs_w (c # d # s) = (if c = CHR ''%'' \<and> d = CHR ''w'' then Suc (verbs_w s) else verbs_w (d # s))"

definition wrap_text :: "string \<Rightarrow> string list \<Rightarrow> string" where
  "wrap_text m ts = (if verbs_w m = 0 then m @ concat (map (\<lambda>t. '': '' @ t) ts) else fmt_w m ts)"

subsection \<open>Sentinels\<close>

definition hid_text :: "hid_error \<Rightarrow> string" where
  "hid_text e =
     (case e of
        HidClosed \<Rightarrow> ''hid: closed'' | HidRemoved \<Rightarrow> ''hid: removed'' | HidPermission \<Rightarrow> ''hid: permission denied'' | HidBusy \<Rightarrow> ''hid: busy''
      | HidUnsupported \<Rightarrow> ''hid: unsupported'' | HidInvalidArgument \<Rightarrow> ''hid: invalid argument'' | HidInvalidReport \<Rightarrow> ''hid: invalid report''
      | HidStaleEndpoint \<Rightarrow> ''hid: stale endpoint'' | HidTimeout \<Rightarrow> ''hid: report wait timeout'' | HidIO \<Rightarrow> ''hid: I/O failure''
      | HidResourceLimit \<Rightarrow> ''hid: resource limit'')"

definition client_text :: "client_error \<Rightarrow> string" where
  "client_text e =
     (case e of
        ErrSessionRequired \<Rightarrow> ''client: session is required'' | ErrRawInvokerRequired \<Rightarrow> ''client: raw invoker is required''
      | ErrMiddlewareRequired \<Rightarrow> ''client: middleware is required'' | ErrInteractionHandlerRequired \<Rightarrow> ''client: interaction handler is required''
      | ErrTraceRecorderRequired \<Rightarrow> ''client: trace recorder is required'' | ErrPINRequired \<Rightarrow> ''client: pin is required''
      | ErrNewPINRequired \<Rightarrow> ''client: new pin is required'' | ErrNoCapableProtocol \<Rightarrow> ''client: no capable protocol detected'')"

definition wirehid_text :: "wirehid_error \<Rightarrow> string" where
  "wirehid_text e =
     (case e of
        PayloadTooLarge \<Rightarrow> ''payload too large'' | InvalidReportSize \<Rightarrow> ''invalid report size'' | InvalidCommand \<Rightarrow> ''invalid HID command''
      | InvalidPacket \<Rightarrow> ''invalid packet'' | MismatchedChannel \<Rightarrow> ''mismatched channel'' | UnexpectedCommand \<Rightarrow> ''unexpected command''
      | UnexpectedSeq \<Rightarrow> ''unexpected continuation sequence'' | IncompletePayload \<Rightarrow> ''incomplete HID payload'')"

definition wirenfc_text :: "wirenfc_error \<Rightarrow> string" where
  "wirenfc_text e =
     (case e of
        InvalidChunkSize \<Rightarrow> ''invalid APDU chunk size'' | InvalidResponse \<Rightarrow> ''invalid APDU response''
      | StatusWord \<Rightarrow> ''unexpected APDU status word'' | IncompleteAPDU \<Rightarrow> ''incomplete APDU response'')"

definition wireble_text :: "wireble_error \<Rightarrow> string" where
  "wireble_text e =
     (case e of
        BlePayloadTooLarge \<Rightarrow> ''payload too large'' | InvalidMTU \<Rightarrow> ''invalid mtu'' | InvalidFragment \<Rightarrow> ''invalid fragment''
      | IncompleteValue \<Rightarrow> ''incomplete BLE payload'')"

definition category_text :: "transport_category \<Rightarrow> string" where
  "category_text c =
     (case c of
        ErrDisconnected \<Rightarrow> ''transport disconnected'' | ErrPermissionDenied \<Rightarrow> ''transport permission denied''
      | ErrTemporary \<Rightarrow> ''transport temporary failure'' | ErrUnsupported \<Rightarrow> ''transport unsupported'')"

definition registry_text :: "registry_error \<Rightarrow> string" where
  "registry_text e =
     (case e of
        ErrBackendRequired \<Rightarrow> ''backend is required'' | ErrDuplicateBackend \<Rightarrow> ''backend already registered''
      | ErrBackendNotFound \<Rightarrow> ''backend not registered'')"

definition context_text :: "context_error \<Rightarrow> string" where
  "context_text e = (case e of Canceled \<Rightarrow> ''context canceled'' | DeadlineExceeded \<Rightarrow> ''context deadline exceeded'')"

definition cli_text :: "cli_error \<Rightarrow> string" where
  "cli_text e = (case e of ErrResetConfirmationRequired \<Rightarrow> ''reset confirmation required'')"

definition sentinel_text :: "sentinel \<Rightarrow> string" where
  "sentinel_text s =
     (case s of
        SWireHid e \<Rightarrow> wirehid_text e | SWireNfc e \<Rightarrow> wirenfc_text e | SWireBle e \<Rightarrow> wireble_text e | STransport c \<Rightarrow> category_text c
      | SRegistry e \<Rightarrow> registry_text e | SHid e \<Rightarrow> hid_text e | SClient e \<Rightarrow> client_text e | SContext e \<Rightarrow> context_text e
      | SCli e \<Rightarrow> cli_text e)"

subsection \<open>The methods\<close>

definition native_text :: "native_error \<Rightarrow> string" where
  "native_text n = ''hid: '' @ ne_domain n @ '' 0x'' @ nat_hex (unat (ne_code n)) @ '': '' @ ne_message n"

definition hid_op_text :: "text_env \<Rightarrow> string \<Rightarrow> string \<Rightarrow> string \<Rightarrow> string" where
  "hid_op_text tx op endpoint detail =
     (if endpoint \<noteq> [] then ''hid: '' @ op @ '' '' @ tx_quote tx endpoint @ '': '' @ detail else ''hid: '' @ op @ '': '' @ detail)"

definition driver_text :: "string \<Rightarrow> string \<Rightarrow> string option \<Rightarrow> string" where
  "driver_text op message cause =
     (if message \<noteq> [] then ''hid native: '' @ op @ '': '' @ message
      else case cause of Some c \<Rightarrow> ''hid native: '' @ op @ '': '' @ c | None \<Rightarrow> ''hid native: '' @ op)"

definition transport_text :: "string \<Rightarrow> string \<Rightarrow> string" where
  "transport_text op t = (if op = [] then ''transport: '' @ t else ''transport: '' @ op @ '': '' @ t)"

definition stage_text :: "exchange_stage \<Rightarrow> string" where
  "stage_text st =
     (case st of StageINIT \<Rightarrow> ''INIT'' | StagePING \<Rightarrow> ''PING'' | StageRequest \<Rightarrow> ''request'' | StageResponse \<Rightarrow> ''response'')"

definition outcome_number :: "write_outcome \<Rightarrow> nat" where
  "outcome_number out = (case out of OutcomeUnknown \<Rightarrow> 0 | OutcomeNotSubmitted \<Rightarrow> 1 | OutcomeCompleted \<Rightarrow> 2)"

definition exchange_text :: "exchange_stage \<Rightarrow> nat \<Rightarrow> write_outcome \<Rightarrow> bool \<Rightarrow> string \<Rightarrow> string" where
  "exchange_text st n out amb cause =
     ''transport/usb: '' @ stage_text st @ '' failed after '' @ nat_decimal n @ '' completed packets (outcome '' @
     nat_decimal (outcome_number out) @ '', ambiguous '' @ (if amb then ''true'' else ''false'') @ ''): '' @ cause"

definition unsupported_method_text :: "text_env \<Rightarrow> string \<Rightarrow> string \<Rightarrow> string" where
  "unsupported_method_text tx method operation =
     (if operation = [] then ''client: verification method '' @ tx_quote tx method @ '' is not supported''
      else ''client: verification method '' @ tx_quote tx method @ '' is not supported for '' @ operation)"

definition unavailable_method_text :: "text_env \<Rightarrow> string \<Rightarrow> string \<Rightarrow> string \<Rightarrow> string" where
  "unavailable_method_text tx method operation reason =
     (let op = (if operation = [] then ''operation'' else operation) in
      if reason \<noteq> [] then ''client: '' @ reason @ '' for '' @ op
      else if method = VerificationMethodBuiltInUV then ''client: authenticator does not support built-in UV for '' @ op
      else ''client: authenticator does not support verification method '' @ tx_quote tx method @ '' for '' @ op)"

definition ctap2_unavailable_text :: "text_env \<Rightarrow> string \<Rightarrow> string" where
  "ctap2_unavailable_text tx i =
     (if i = [] then ''client: authenticator does not support CTAP2''
      else ''client: authenticator '' @ tx_quote tx i @ '' does not support CTAP2'')"

definition status_text :: "byte \<Rightarrow> byte \<Rightarrow> string" where
  "status_text sw1 sw2 = ''wire/nfc: unexpected APDU status word 0x'' @ hex2 sw1 @ hex2 sw2"

definition applet_text :: "byte \<Rightarrow> byte \<Rightarrow> string" where
  "applet_text sw1 sw2 = ''transport/nfc: FIDO applet selection failed with status 0x'' @ hex2 sw1 @ hex2 sw2"

definition ctap1_text :: "u16 \<Rightarrow> string" where
  "ctap1_text sw = ''ctap1: status 0x'' @ hex_encode (be16 sw) @ '': '' @ ctap1_statusText sw"

definition ctap2_text :: "byte \<Rightarrow> string" where
  "ctap2_text code = ''ctap2: status 0x'' @ hex2 code @ '': '' @ ctap2_statusText code"

definition hid_code_text :: "byte \<Rightarrow> string" where
  "hid_code_text code = ''transport/usb: CTAPHID error 0x'' @ hex2 code"

definition invalid_command_text :: "byte \<Rightarrow> string" where
  "invalid_command_text command = ''transport/usb: invalid logical CTAPHID request command 0x'' @ hex2 command"

definition unknown_family_text :: "text_env \<Rightarrow> string \<Rightarrow> string" where
  "unknown_family_text tx family = ''protocol: unknown family '' @ tx_quote tx family"

definition unsupported_protocol_text :: "text_env \<Rightarrow> string \<Rightarrow> string" where
  "unsupported_protocol_text tx family = ''client: protocol '' @ tx_quote tx family @ '' is not configured''"

definition duplicate_invoker_text :: "text_env \<Rightarrow> string \<Rightarrow> string" where
  "duplicate_invoker_text tx family = ''client: protocol '' @ tx_quote tx family @ '' already has a raw invoker''"

definition device_not_found_text :: "text_env \<Rightarrow> string \<Rightarrow> string" where
  "device_not_found_text tx i = ''client: device '' @ tx_quote tx i @ '' was not found''"

lemmas ctap_text_defs = ctap1_text_def ctap2_text_def hid_code_text_def invalid_command_text_def ctap2_unavailable_text_def

fun error_text :: "text_env \<Rightarrow> err \<Rightarrow> string" where
  "error_text tx (Sentinel s) = sentinel_text s"
| "error_text tx (TextError t) = t"
| "error_text tx (WrapError m es) = wrap_text m (map (error_text tx) es)"
| "error_text tx (JoinError es) = join_with [CHR 0x0A] (map (error_text tx) es)"
| "error_text tx (TransportError op e) = transport_text op (error_text tx e)"
| "error_text tx (HidOpError op endpoint k native cause) = hid_op_text tx op endpoint (error_text tx cause)"
| "error_text tx (NativeError n) = native_text n"
| "error_text tx (DriverError op k scope code message cause) = driver_text op message (map_option (error_text tx) cause)"
| "error_text tx (StatusError sw1 sw2) = status_text sw1 sw2"
| "error_text tx (AppletSelectionError sw1 sw2) = applet_text sw1 sw2"
| "error_text tx (Ctap1Error sw) = ctap1_text sw"
| "error_text tx (Ctap2Error code) = ctap2_text code"
| "error_text tx (HIDError code) = hid_code_text code"
| "error_text tx (ExchangeError st n out amb cause) = exchange_text st n out amb (error_text tx cause)"
| "error_text tx (HidLocalWaitError cause) = error_text tx cause"
| "error_text tx (InvalidHIDCommandError command) = invalid_command_text command"
| "error_text tx (UnknownFamilyError family) = unknown_family_text tx family"
| "error_text tx (UnsupportedProtocolError family) = unsupported_protocol_text tx family"
| "error_text tx (DuplicateRawInvokerError family) = duplicate_invoker_text tx family"
| "error_text tx (UnsupportedVerificationMethodError method operation) = unsupported_method_text tx method operation"
| "error_text tx (VerificationMethodUnavailableError method operation reason) = unavailable_method_text tx method operation reason"
| "error_text tx (DeviceNotFoundError i) = device_not_found_text tx i"
| "error_text tx (CTAP2UnavailableError i) = ctap2_unavailable_text tx i"
| "error_text tx (DispositionError st reason) = reason"
| "error_text tx (Errno n) = tx_foreign tx (Errno n)"
| "error_text tx (ForeignError i p t) = tx_foreign tx (ForeignError i p t)"
| "error_text tx GoPanic = tx_foreign tx GoPanic"

subsection \<open>What a text reveals\<close>

text \<open>The causes whose texts are part of the text of an error. The kind and the native code of a HID error are not, nor is the cause of a
  driver error that has a message of its own.\<close>

fun shown_causes :: "err \<Rightarrow> err list" where
  "shown_causes (WrapError m es) = (if verbs_w m = 0 then es else take (verbs_w m) es)"
| "shown_causes (JoinError es) = es"
| "shown_causes (TransportError op e) = [e]"
| "shown_causes (HidOpError op endpoint k native cause) = [cause]"
| "shown_causes (DriverError op k scope code message cause) =
     (if message \<noteq> [] then [] else case cause of None \<Rightarrow> [] | Some c \<Rightarrow> [c])"
| "shown_causes (ExchangeError st n out amb cause) = [cause]"
| "shown_causes (HidLocalWaitError cause) = [cause]"
| "shown_causes e = []"

lemma shown_causes_unwrap: "set (shown_causes e) \<subseteq> set (unwrap e)"
  by (cases e) (auto dest: in_set_takeD split: option.splits)

inductive shown_in :: "err \<Rightarrow> err \<Rightarrow> bool" where
  shown_self: "shown_in e e"
| shown_cause: "c \<in> set (shown_causes e) \<Longrightarrow> shown_in c x \<Longrightarrow> shown_in e x"

text \<open>One text is part of another.\<close>

definition part_of :: "string \<Rightarrow> string \<Rightarrow> bool" where
  "part_of t s \<longleftrightarrow> (\<exists>a b. s = a @ t @ b)"

lemma part_of_intros [intro]:
  "part_of t t" "part_of t s \<Longrightarrow> part_of t (a @ s)" "part_of t s \<Longrightarrow> part_of t (s @ b)" "part_of t s \<Longrightarrow> part_of t (c # s)"
proof -
  show "part_of t t" unfolding part_of_def by (rule exI [of _ "[]"], rule exI [of _ "[]"]) simp
  show "part_of t s \<Longrightarrow> part_of t (a @ s)" unfolding part_of_def by (metis append.assoc)
  show "part_of t s \<Longrightarrow> part_of t (s @ b)" unfolding part_of_def by (metis append.assoc)
  show "part_of t s \<Longrightarrow> part_of t (c # s)" unfolding part_of_def by (metis append_Cons)
qed

lemma part_of_trans: "part_of t s \<Longrightarrow> part_of s r \<Longrightarrow> part_of t r"
  unfolding part_of_def by (metis append.assoc)

lemma fmt_w_shows: "t \<in> set (take (verbs_w m) ts) \<Longrightarrow> part_of t (fmt_w m ts)"
proof (induction m ts rule: fmt_w.induct)
  case (3 c d s ts)
  show ?case
  proof (cases "c = CHR ''%'' \<and> d = CHR ''w'' \<and> ts \<noteq> []")
    case True
    then obtain u us where "ts = u # us" by (cases ts) auto
    with True 3 show ?thesis by auto
  next
    case False
    with 3 have "t \<in> set (take (verbs_w (d # s)) ts)" by (cases ts) (auto split: if_splits)
    with 3(2) False show ?thesis by auto
  qed
qed simp_all

lemma concat_shows: "t \<in> set ts \<Longrightarrow> part_of t (concat (map (\<lambda>t. '': '' @ t) ts))"
  by (induction ts) auto

lemma join_shows: "t \<in> set ts \<Longrightarrow> part_of t (join_with sep ts)"
  by (induction sep ts rule: join_with.induct) auto

lemma wrap_shows: "t \<in> set (if verbs_w m = 0 then ts else take (verbs_w m) ts) \<Longrightarrow> part_of t (wrap_text m ts)"
  using concat_shows fmt_w_shows by (auto simp: wrap_text_def split: if_splits)

text \<open>Each text ends with the text of its cause.\<close>

lemma part_of_if: "part_of t x \<Longrightarrow> part_of t y \<Longrightarrow> part_of t (if b then x else y)"
  by simp

lemma detail_shown:
  "part_of t (transport_text op t)" "part_of t (hid_op_text tx op endpoint t)" "part_of t (driver_text op [] (Some t))"
  "part_of t (exchange_text st n out amb t)"
proof -
  show "part_of t (transport_text op t)" "part_of t (hid_op_text tx op endpoint t)" "part_of t (exchange_text st n out amb t)"
    unfolding transport_text_def hid_op_text_def exchange_text_def
    by (rule part_of_if part_of_intros(2) part_of_intros(1))+
  have "driver_text op [] (Some t) = ''hid native: '' @ op @ '': '' @ t" by (simp add: driver_text_def)
  then show "part_of t (driver_text op [] (Some t))" by (simp only:) (rule part_of_intros(2) part_of_intros(1))+
qed

lemma cause_shown: "c \<in> set (shown_causes e) \<Longrightarrow> part_of (error_text tx c) (error_text tx e)"
proof (cases e)
  case (WrapError m es)
  moreover assume "c \<in> set (shown_causes e)"
  ultimately have "error_text tx c \<in> set (if verbs_w m = 0 then map (error_text tx) es else take (verbs_w m) (map (error_text tx) es))"
    by (auto simp: take_map split: if_splits)
  from wrap_shows [OF this] WrapError show ?thesis by simp
qed (auto intro: join_shows detail_shown split: if_splits option.splits)

lemma shown_text: "shown_in e x \<Longrightarrow> part_of (error_text tx x) (error_text tx e)"
  by (induction rule: shown_in.induct) (auto intro: part_of_trans cause_shown)

lemma shown_in_tree: "shown_in e x \<Longrightarrow> x \<in> set (error_tree e)"
proof (induction rule: shown_in.induct)
  case (shown_cause c e x)
  then have "c \<in> set (unwrap e)" using shown_causes_unwrap by blast
  with shown_cause show ?case by (auto simp: error_tree_unwrap [of e])
qed simp

subsection \<open>Texts that mention CTAP\<close>

lemma contains_fold_part: "contains_fold t p \<Longrightarrow> part_of t s \<Longrightarrow> contains_fold s p"
proof -
  assume "contains_fold t p" "part_of t s"
  then obtain u v a b where "map ascii_lower t = u @ p @ v" "s = a @ t @ b"
    by (auto simp: contains_fold_def part_of_def list_ex_iff suffix_def prefix_def)
  then have "map ascii_lower s = (map ascii_lower a @ u) @ (p @ v @ map ascii_lower b)" by simp
  then have "p @ v @ map ascii_lower b \<in> set (suffixes (map ascii_lower s))" by (simp add: suffix_def)
  then show "contains_fold s p" unfolding contains_fold_def list_ex_iff by (metis prefixI)
qed

text \<open>The errors that report a CTAP status, or name the protocol in their own words.\<close>

fun ctap_error :: "err \<Rightarrow> bool" where
  "ctap_error (Ctap1Error sw) = True"
| "ctap_error (Ctap2Error code) = True"
| "ctap_error (HIDError code) = True"
| "ctap_error (InvalidHIDCommandError command) = True"
| "ctap_error (CTAP2UnavailableError i) = True"
| "ctap_error e = False"

lemma part_prefix: "part_of a (a @ s)"
  by (rule part_of_intros(3)) (rule part_of_intros(1))

lemma ctap_error_text: "ctap_error e \<Longrightarrow> contains_fold (error_text tx e) ''ctap''"
proof -
  have c: "contains_fold ''ctap1: status 0x'' ''ctap''" "contains_fold ''ctap2: status 0x'' ''ctap''"
    "contains_fold ''transport/usb: CTAPHID error 0x'' ''ctap''"
    "contains_fold ''transport/usb: invalid logical CTAPHID request command 0x'' ''ctap''"
    "contains_fold ''client: authenticator does not support CTAP2'' ''ctap''" "contains_fold '' does not support CTAP2'' ''ctap''"
    by code_simp+
  assume "ctap_error e"
  then show ?thesis
    by (cases e) (auto simp: ctap_text_defs simp del: append.simps intro: contains_fold_part [OF c(1)] contains_fold_part [OF c(2)]
      contains_fold_part [OF c(3)] contains_fold_part [OF c(4)] contains_fold_part [OF c(6)] c(5) part_prefix)
qed

lemma ctap_shown: "shown_in e x \<Longrightarrow> ctap_error x \<Longrightarrow> contains_fold (error_text tx e) ''ctap''"
  by (rule contains_fold_part [OF ctap_error_text shown_text])

end
