(* ===== verification/FidoctlMain.thy ===== *)
theory FidoctlMain
  imports Fidoctl ErrorText "HOL-Library.Char_ord" "HOL-Library.List_Lexorder"
begin

text \<open>
  The command line front end, \<open>cmd/fidoctl\<close>: the parsing of flag values (\<open>raw.go\<close>), secrets from the environment or the
  standard input (\<open>secrets.go\<close>), the confirmation of a reset (\<open>reset.go\<close>), what every command prints (\<open>output.go\<close>),
  the commands (\<open>root.go\<close>, \<open>raw.go\<close>, \<open>register.go\<close>, \<open>pin.go\<close>, \<open>credentials.go\<close>, \<open>reset.go\<close>) and the exit code (\<open>errors.go\<close>,
  \<open>main.go\<close>). The package \<open>cobra\<close> turns arguments into a command with its flags, the values of \<open>cli_command\<close> and
  \<open>global_flags\<close>. A text is given to the standard output as its lines, with the lines that pass through a \<open>tabwriter\<close>
  marked and the JSON encoder applied to its value: alignment, JSON syntax and the quotation marks of the verb \<open>q\<close> in messages
  are left out. A secret that was used is wiped (\<open>secret_Wipe\<close>); the wiped bytes are not used again.
\<close>

subsection \<open>raw.go: flag values\<close>

definition ToLower :: "string \<Rightarrow> string" where
  "ToLower = map ascii_lower"

definition parseProtocol :: "string \<Rightarrow> string res" where
  "parseProtocol v =
     (let name = ToLower (TrimSpace v) in
      if name = ''ctap1'' \<or> name = ''u2f'' then Inr FamilyCTAP1
      else if name = ''ctap2'' then Inr FamilyCTAP2
      else Inl (TextError (''unsupported protocol '' @ v)))"

definition parseCommand :: "string \<Rightarrow> byte res" where
  "parseCommand v =
     (if v = [] then Inl (TextError ''command is required'')
      else case ParseUint (TrimPrefix (ToLower v) ''0x'') 16 8 of
        Some n \<Rightarrow>
          if prefix ''0x'' (ToLower v) then Inr (of_nat n)
          else (case ParseUint v 10 8 of Some m \<Rightarrow> Inr (of_nat m) | None \<Rightarrow> Inl (TextError (''invalid command '' @ v)))
      | None \<Rightarrow> (case ParseUint v 10 8 of Some m \<Rightarrow> Inr (of_nat m) | None \<Rightarrow> Inl (TextError (''invalid command '' @ v))))"

definition decodeBinary :: "string \<Rightarrow> bytes res" where
  "decodeBinary v =
     (if v = [] then Inr []
      else case hex_decode v of
        Some bs \<Rightarrow> Inr bs
      | None \<Rightarrow>
          (case b64_decode True v of
             Some bs \<Rightarrow> Inr bs
           | None \<Rightarrow>
               (case b64_decode False v of
                  Some bs \<Rightarrow> Inr bs
                | None \<Rightarrow> Inl (TextError (''invalid binary value '' @ v)))))"

definition decodeOptionalBinary :: "string \<Rightarrow> bytes res" where
  "decodeOptionalBinary v = (if v = [] then Inr [] else decodeBinary v)"

subsection \<open>secrets.go\<close>

record secret_request =
  sq_Value :: string
  sq_EnvName :: string
  sq_DefaultEnv :: string
  sq_ReadStdin :: bool
  sq_Missing :: "err option"
  sq_Label :: string

text \<open>The standard input: the answers of \<open>term.ReadPassword\<close> and how many were used, when it is a terminal, and otherwise the bytes
  that are left with the error that ends them (\<open>None\<close> for \<open>io.EOF\<close>).\<close>

record secret_input =
  si_terminal :: "(nat \<Rightarrow> bytes res) option"
  si_asked :: nat
  si_rest :: bytes
  si_end :: "err option"

definition string_bytes :: "string \<Rightarrow> bytes" where
  "string_bytes = map (\<lambda>c. of_nat (of_char c))"

definition read_failed :: "string \<Rightarrow> err \<Rightarrow> err" where
  "read_failed label e = WrapError (''read '' @ (if label = [] then ''secret'' else label) @ '' from stdin: %w'') [e]"

text \<open>A line of the input that is not a terminal, with the error of the read.\<close>

definition input_line :: "secret_input \<Rightarrow> bytes \<times> err option \<times> secret_input" where
  "input_line i =
     (let (line, rest) = read_line (si_rest i) in
      (line, if 10 \<in> set (si_rest i) then None else si_end i, i\<lparr>si_rest := rest\<rparr>))"

definition readSecret :: "string \<Rightarrow> secret_input \<Rightarrow> bytes res \<times> secret_input" where
  "readSecret label i =
     (case si_terminal i of
        Some answers \<Rightarrow>
          (case answers (si_asked i) of Inl e \<Rightarrow> Inl (read_failed label e) | Inr v \<Rightarrow> Inr (trim_line v), i\<lparr>si_asked := si_asked i + 1\<rparr>)
      | None \<Rightarrow>
          (case input_line i of (line, e, i') \<Rightarrow>
             (case e of Some x \<Rightarrow> Inl (read_failed label x) | None \<Rightarrow> Inr (trim_line line), i')))"

text \<open>\<open>Resolve\<close>: the value, then the environment, then the input; \<open>env\<close> is \<open>os.LookupEnv\<close>.\<close>

definition resolve_env :: "(string \<Rightarrow> string option) \<Rightarrow> secret_request \<Rightarrow> string" where
  "resolve_env env req =
     (let name = (if sq_EnvName req = [] then sq_DefaultEnv req else sq_EnvName req) in
      if name = [] then [] else (case env name of None \<Rightarrow> [] | Some v \<Rightarrow> v))"

definition Resolve :: "(string \<Rightarrow> string option) \<Rightarrow> secret_request \<Rightarrow> secret_input \<Rightarrow> bytes res \<times> secret_input" where
  "Resolve env req i =
     (let missing = (case sq_Missing req of Some e \<Rightarrow> Inl e | None \<Rightarrow> Inr []) in
      if sq_Value req \<noteq> [] then (Inr (string_bytes (sq_Value req)), i)
      else if resolve_env env req \<noteq> [] then (Inr (string_bytes (resolve_env env req)), i)
      else if sq_ReadStdin req then
        (case readSecret (sq_Label req) i of
           (Inl e, i') \<Rightarrow> (Inl e, i')
         | (Inr v, i') \<Rightarrow> (if v \<noteq> [] then Inr v else missing, i'))
      else (missing, i))"

subsection \<open>output.go\<close>

text \<open>A line of text, through a \<open>tabwriter\<close> or not; and what a command writes to the standard output.\<close>

datatype cli_line = Tabbed string | Plain string

datatype cli_value =
    DevicesValue "device_descriptor list" | InfoValue info_result | RawValue raw_result | TraceValue bytes "trace_event list"
  | RetriesValue device_descriptor pin_retries | RegistrationValue registration_result | AuthenticationValue authentication_result
  | CredentialsValue device_descriptor client_credential_list | DoneValue string | VersionValue string | ErrorValue string int string

datatype cli_output = HumanOutput "cli_line list" | JsonOutput cli_value | RawOutput bytes

definition tab :: string where "tab = [CHR 0x09]"

definition deviceLabel :: "device_descriptor \<Rightarrow> string" where
  "deviceLabel d =
     (if dd_Manufacturer d \<noteq> [] \<and> dd_Product d \<noteq> [] then dd_Manufacturer d @ '' '' @ dd_Product d
      else if dd_Product d \<noteq> [] then dd_Product d
      else DisplayName d)"

definition device_row :: "device_descriptor \<Rightarrow> string" where
  "device_row d =
     join_with tab [dd_ID d, dd_Transport d, deviceLabel d, if dd_SerialNumber d \<noteq> [] then dd_SerialNumber d else ''-'']"

definition writeDeviceTable :: "device_descriptor list \<Rightarrow> cli_line list" where
  "writeDeviceTable devices =
     (if devices = [] then [Plain ''No devices found'']
      else Tabbed (join_with tab [''ID'', ''TRANSPORT'', ''PRODUCT'', ''SERIAL'']) # map (Tabbed \<circ> device_row) devices)"

definition show_u64 :: "u64 \<Rightarrow> string" where
  "show_u64 n = nat_decimal (unat n)"

definition formatUint64List :: "u64 list \<Rightarrow> string" where
  "formatUint64List vs = join_with '', '' (map show_u64 vs)"

definition sortedOptionKeys :: "(string \<rightharpoonup> bool) \<Rightarrow> string list" where
  "sortedOptionKeys options = sorted_list_of_set (dom options)"

text \<open>A line of a table, and one that is only there under a condition.\<close>

definition table_line :: "string \<Rightarrow> string \<Rightarrow> cli_line" where
  "table_line name v = Tabbed (name @ tab @ v)"

definition optional_line :: "bool \<Rightarrow> string \<Rightarrow> string \<Rightarrow> cli_line list" where
  "optional_line present name v = (if present then [table_line name v] else [])"

definition retries_lines :: "pin_retries \<Rightarrow> cli_line list" where
  "retries_lines r =
     [table_line ''PIN Retries'' (show_u64 (rt_PINRetries r))] @
     optional_line (rt_UVRetries r > 0) ''UV Retries'' (show_u64 (rt_UVRetries r)) @
     optional_line (rt_PowerCycleState r) ''Power Cycle Required'' ''true''"

definition ctap2_lines :: "get_info_response \<Rightarrow> cli_line list" where
  "ctap2_lines info =
     optional_line (gi_Versions info \<noteq> []) ''CTAP2 Versions'' (join_with '', '' (gi_Versions info)) @
     optional_line (gi_Extensions info \<noteq> []) ''CTAP2 Extensions'' (join_with '', '' (gi_Extensions info)) @
     optional_line (gi_Transports info \<noteq> []) ''CTAP2 Transports'' (join_with '', '' (gi_Transports info)) @
     optional_line (gi_PinUVAuthProtocols info \<noteq> []) ''PIN/UV Protocols'' (formatUint64List (gi_PinUVAuthProtocols info)) @
     optional_line (gi_AAGUID info \<noteq> []) ''AAGUID'' (hex_encode (gi_AAGUID info)) @
     optional_line (gi_MaxMsgSize info > 0) ''Max Message Size'' (show_u64 (gi_MaxMsgSize info)) @
     optional_line (gi_MaxCredentialIDLength info > 0) ''Max Credential ID Length'' (show_u64 (gi_MaxCredentialIDLength info)) @
     optional_line (gi_MaxCredentialCountInList info > 0) ''Max Credential Count'' (show_u64 (gi_MaxCredentialCountInList info))"

definition option_lines :: "(string \<rightharpoonup> bool) \<Rightarrow> cli_line list" where
  "option_lines options =
     (if dom options = {} then []
      else Plain ''Options:'' #
        map (\<lambda>key. Plain (''  '' @ key @ ''='' @ (if options key = Some True then ''true'' else ''false''))) (sortedOptionKeys options))"

definition writeInfoHuman :: "info_result \<Rightarrow> cli_line list" where
  "writeInfoHuman result =
     (let d = ir_Device result; caps = ir_Capabilities result in
      [table_line ''Device'' (DisplayName d), table_line ''ID'' (dd_ID d), table_line ''Transport'' (dd_Transport d),
       table_line ''Preferred'' (case PreferredProtocol caps of Some family \<Rightarrow> family | None \<Rightarrow> ''unknown'')] @
      optional_line (dd_Manufacturer d \<noteq> []) ''Manufacturer'' (dd_Manufacturer d) @
      optional_line (dd_Product d \<noteq> []) ''Product'' (dd_Product d) @
      optional_line (dd_SerialNumber d \<noteq> []) ''Serial'' (dd_SerialNumber d) @
      optional_line (dd_Path d \<noteq> [] \<and> dd_Path d \<noteq> dd_ID d) ''Path'' (dd_Path d) @
      (case cap_RawCTAP1 caps of None \<Rightarrow> [] | Some c \<Rightarrow> [table_line ''CTAP1 Version'' (c1_Version c)]) @
      (case cap_RawCTAP2 caps of None \<Rightarrow> [] | Some info \<Rightarrow> ctap2_lines info) @
      (case ir_PINRetries result of None \<Rightarrow> [] | Some r \<Rightarrow> retries_lines r) @
      (case cap_RawCTAP2 caps of None \<Rightarrow> [] | Some info \<Rightarrow> option_lines (gi_Options info)))"

definition credentialUserLabel :: "client_credential \<Rightarrow> string" where
  "credentialUserLabel c =
     (let u = ci_User c in
      if ue_DisplayName u \<noteq> [] then ue_DisplayName u
      else if ue_Name u \<noteq> [] then ue_Name u
      else if ue_ID u \<noteq> [] then hex_encode (ue_ID u)
      else ''-'')"

definition credential_row :: "client_credential \<Rightarrow> string" where
  "credential_row c =
     join_with tab [rp_id (ci_RP c), credentialUserLabel c, hex_encode (fd_ID (ci_Credential c)),
       if ci_CredProtect c \<noteq> 0 then show_u64 (ci_CredProtect c) else ''-'']"

definition writeCredentialTable :: "client_credential_list \<Rightarrow> cli_line list" where
  "writeCredentialTable result =
     (if cx_Credentials result = [] then [Plain ''No discoverable credentials found'']
      else Tabbed (join_with tab [''RP ID'', ''USER'', ''CREDENTIAL ID'', ''PROTECT'']) # map (Tabbed \<circ> credential_row) (cx_Credentials result))"

definition writePINRetriesHuman :: "device_descriptor \<Rightarrow> pin_retries \<Rightarrow> cli_line list" where
  "writePINRetriesHuman d r = [table_line ''Device'' (DisplayName d), table_line ''ID'' (dd_ID d)] @ retries_lines r"

definition writeValue :: "string \<Rightarrow> cli_value \<Rightarrow> cli_line list \<Rightarrow> cli_output res" where
  "writeValue format v human =
     (if format = ''human'' then Inr (HumanOutput human)
      else if format = ''json'' then Inr (JsonOutput v)
      else Inl (TextError (''unsupported format '' @ format)))"

definition writeRawValue :: "string \<Rightarrow> bytes \<Rightarrow> cli_value \<Rightarrow> cli_line list \<Rightarrow> cli_output res" where
  "writeRawValue format raw v human = (if format = ''raw'' then Inr (RawOutput raw) else writeValue format v human)"

subsection \<open>The commands\<close>

text \<open>\<open>withTimeout\<close>: a command's context ends after its timeout, or never.\<close>

datatype cli_context = Endless | Until int

definition withTimeout :: "int \<Rightarrow> cli_context" where
  "withTimeout timeout = (if timeout \<le> 0 then Endless else Until timeout)"

text \<open>The interface \<open>fidoctl.Service\<close>.\<close>

record 'w cli_service =
  sv_ListDevices :: "cli_context \<Rightarrow> ('w, device_descriptor list \<times> err option) io"
  sv_Info :: "cli_context \<Rightarrow> string \<Rightarrow> ('w, info_result) io"
  sv_Raw :: "cli_context \<Rightarrow> raw_request \<Rightarrow> ('w, raw_result) io"
  sv_Trace :: "cli_context \<Rightarrow> raw_request \<Rightarrow> ('w, bytes \<times> trace_event list) io"
  sv_PINRetries :: "cli_context \<Rightarrow> string \<Rightarrow> ('w, device_descriptor \<times> pin_retries) io"
  sv_SetPIN :: "cli_context \<Rightarrow> string \<Rightarrow> bytes \<Rightarrow> ('w, unit) io"
  sv_ChangePIN :: "cli_context \<Rightarrow> string \<Rightarrow> bytes \<Rightarrow> bytes \<Rightarrow> ('w, unit) io"
  sv_Register :: "cli_context \<Rightarrow> string \<Rightarrow> registration_request \<Rightarrow> ('w, registration_result) io"
  sv_Authenticate :: "cli_context \<Rightarrow> string \<Rightarrow> authentication_request \<Rightarrow> ('w, authentication_result) io"
  sv_Reset :: "cli_context \<Rightarrow> string \<Rightarrow> ('w, unit) io"
  sv_ListCredentials :: "cli_context \<Rightarrow> string \<Rightarrow> bytes \<Rightarrow> ('w, device_descriptor \<times> client_credential_list) io"

record global_flags =
  gf_deviceID :: string
  gf_nfc :: bool
  gf_timeout :: int
  gf_format :: string
  gf_jsonOutput :: bool
  gf_noInteractive :: bool

text \<open>\<open>cliDependencies\<close>: the service, the streams and the environment.\<close>

record 'w cli_deps =
  dp_service :: "'w cli_service"
  dp_stdin :: secret_input
  dp_stdout :: "cli_output \<Rightarrow> ('w, unit) io"
  dp_stderr :: "string \<Rightarrow> 'w \<Rightarrow> err option \<times> 'w"
  dp_env :: "string \<Rightarrow> string option"
  dp_version :: string
  dp_flags :: global_flags

definition context_of :: "'w cli_deps \<Rightarrow> cli_context" where
  "context_of deps = withTimeout (gf_timeout (dp_flags deps))"

definition device_of :: "'w cli_deps \<Rightarrow> string" where
  "device_of deps = gf_deviceID (dp_flags deps)"

text \<open>The end of every command.\<close>

definition print_value :: "'w cli_deps \<Rightarrow> cli_value \<Rightarrow> cli_line list \<Rightarrow> ('w, unit) io" where
  "print_value deps v human = io_bind (io_of (writeValue (gf_format (dp_flags deps)) v human)) (dp_stdout deps)"

definition run_devices :: "'w cli_deps \<Rightarrow> ('w, unit) io" where
  "run_devices deps =
     io_bind (sv_ListDevices (dp_service deps) (context_of deps)) (\<lambda>(devices, e). case e of
       Some x \<Rightarrow>
         if devices = [] then io_fail x
         else io_bind (io_ask (dp_stderr deps ''warning: %v'')) (\<lambda>_.
           print_value deps (DevicesValue devices) (writeDeviceTable devices))
     | None \<Rightarrow> print_value deps (DevicesValue devices) (writeDeviceTable devices))"

definition run_info :: "'w cli_deps \<Rightarrow> ('w, unit) io" where
  "run_info deps =
     io_bind (sv_Info (dp_service deps) (context_of deps) (device_of deps)) (\<lambda>result.
       print_value deps (InfoValue result) (writeInfoHuman result))"

definition run_version :: "'w cli_deps \<Rightarrow> ('w, unit) io" where
  "run_version deps = print_value deps (VersionValue (dp_version deps)) [Plain (''fidoctl '' @ dp_version deps)]"

text \<open>The request of \<open>raw\<close> and \<open>trace\<close>.\<close>

definition raw_request_of :: "'w cli_deps \<Rightarrow> string \<Rightarrow> string \<Rightarrow> string \<Rightarrow> bool \<Rightarrow> raw_request res" where
  "raw_request_of deps protocol command payload unsafe =
     andThen (parseProtocol protocol) (\<lambda>family.
     andThen (parseCommand command) (\<lambda>b.
     andThen (decodeBinary payload) (\<lambda>bs.
       Inr \<lparr>rq_DeviceID = device_of deps, rq_Protocol = family, rq_Command = b, rq_Payload = bs, rq_UnsafeTrace = unsafe\<rparr>)))"

definition run_raw :: "'w cli_deps \<Rightarrow> string \<Rightarrow> string \<Rightarrow> string \<Rightarrow> ('w, unit) io" where
  "run_raw deps protocol command payload =
     io_bind (io_of (raw_request_of deps protocol command payload False)) (\<lambda>request.
     io_bind (sv_Raw (dp_service deps) (context_of deps) request) (\<lambda>result.
     io_bind (io_of (writeRawValue (gf_format (dp_flags deps)) (rw_Response result) (RawValue result)
         [Plain (rw_Protocol result @ '' 0x'' @ hex_encode [rw_Command result] @ '' => '' @ hex_encode (rw_Response result))]))
       (dp_stdout deps)))"

definition direction_text :: "trace_direction \<Rightarrow> string" where
  "direction_text d = (case d of TraceDirectionRequest \<Rightarrow> ''request'' | TraceDirectionResponse \<Rightarrow> ''response'')"

definition trace_line :: "trace_event \<Rightarrow> cli_line" where
  "trace_line event =
     Plain (direction_text (te_Direction event) @
       (if te_Redacted event
        then '' command=0x'' @ hex_encode [te_Command event] @ '' length='' @ nat_decimal (te_Length event) @ '' redacted''
        else '' '' @ hex_encode (te_Payload event)))"

definition run_trace :: "'w cli_deps \<Rightarrow> string \<Rightarrow> string \<Rightarrow> string \<Rightarrow> bool \<Rightarrow> ('w, unit) io" where
  "run_trace deps protocol command payload unsafe =
     io_bind (io_of (raw_request_of deps protocol command payload unsafe)) (\<lambda>request.
     io_bind (sv_Trace (dp_service deps) (context_of deps) request) (\<lambda>(response, events).
       print_value deps (TraceValue response events) (map trace_line events @ [Plain (''response '' @ hex_encode response)])))"

definition run_pin_retries :: "'w cli_deps \<Rightarrow> ('w, unit) io" where
  "run_pin_retries deps =
     io_bind (sv_PINRetries (dp_service deps) (context_of deps) (device_of deps)) (\<lambda>(d, r).
       print_value deps (RetriesValue d r) (writePINRetriesHuman d r))"

definition pin_secret :: "string \<Rightarrow> string \<Rightarrow> bool \<Rightarrow> client_error \<Rightarrow> string \<Rightarrow> secret_request" where
  "pin_secret envName defaultEnv stdin absent label =
     \<lparr>sq_Value = [], sq_EnvName = envName, sq_DefaultEnv = defaultEnv, sq_ReadStdin = stdin,
      sq_Missing = Some (client_sentinel absent), sq_Label = label\<rparr>"

definition run_pin_set :: "'w cli_deps \<Rightarrow> string \<Rightarrow> bool \<Rightarrow> ('w, unit) io" where
  "run_pin_set deps newEnv newStdin =
     io_bind (io_of (fst (Resolve (dp_env deps) (pin_secret newEnv ''FIDO_NEW_PIN'' newStdin ErrNewPINRequired ''new pin'') (dp_stdin deps)))) (\<lambda>pin.
     io_bind (sv_SetPIN (dp_service deps) (context_of deps) (device_of deps) pin) (\<lambda>_.
       print_value deps (DoneValue ''set'') [Plain ''PIN set'']))"

definition run_pin_change :: "'w cli_deps \<Rightarrow> string \<Rightarrow> bool \<Rightarrow> string \<Rightarrow> bool \<Rightarrow> ('w, unit) io" where
  "run_pin_change deps oldEnv oldStdin newEnv newStdin =
     (case Resolve (dp_env deps) (pin_secret oldEnv ''FIDO_PIN'' oldStdin ErrPINRequired ''current pin'') (dp_stdin deps) of
        (Inl e, _) \<Rightarrow> io_fail e
      | (Inr current, input) \<Rightarrow>
          io_bind (io_of (fst (Resolve (dp_env deps) (pin_secret newEnv ''FIDO_NEW_PIN'' newStdin ErrNewPINRequired ''new pin'') input))) (\<lambda>pin.
          io_bind (sv_ChangePIN (dp_service deps) (context_of deps) (device_of deps) current pin) (\<lambda>_.
            print_value deps (DoneValue ''changed'') [Plain ''PIN changed''])))"

text \<open>The flags of \<open>register\<close> and \<open>authenticate\<close>, and their requests.\<close>

record register_flags =
  rf_challenge :: string
  rf_rpID :: string
  rf_rpName :: string
  rf_userID :: string
  rf_userName :: string
  rf_userDisplayName :: string
  rf_appIDHash :: string

definition no_selection :: authenticator_selection where
  "no_selection = \<lparr>as_UserPresence = [], as_UserVerification = []\<rparr>"

definition register_request :: "register_flags \<Rightarrow> registration_request res" where
  "register_request fl =
     andThen (decodeBinary (rf_challenge fl)) (\<lambda>challenge.
     andThen (decodeBinary (rf_userID fl)) (\<lambda>userID.
     andThen (decodeOptionalBinary (rf_appIDHash fl)) (\<lambda>appIDHash.
       Inr \<lparr>rq_ChallengeHash = challenge, rq_RPID = rf_rpID fl,
            rq_User = \<lparr>us_ID = userID, us_Name = rf_userName fl, us_DisplayName = rf_userDisplayName fl\<rparr>, rq_Selection = no_selection,
            rq_CTAP1 = (if appIDHash \<noteq> [] then Some appIDHash else None),
            rq_CTAP2 = (if rf_rpName fl \<noteq> []
              then Some \<lparr>ro_RPName = rf_rpName fl, ro_ResidentKey = False, ro_CredentialParameters = [], ro_ExcludeList = []\<rparr> else None)\<rparr>)))"

definition run_register :: "'w cli_deps \<Rightarrow> register_flags \<Rightarrow> ('w, unit) io" where
  "run_register deps fl =
     io_bind (io_of (register_request fl)) (\<lambda>request.
     io_bind (sv_Register (dp_service deps) (context_of deps) (device_of deps) request) (\<lambda>result.
       print_value deps (RegistrationValue result) [Plain (''registration completed via '' @ rx_Protocol result)]))"

record authenticate_flags =
  af_challenge :: string
  af_rpID :: string
  af_appIDHash :: string
  af_keyHandle :: string

definition authenticate_request :: "authenticate_flags \<Rightarrow> authentication_request res" where
  "authenticate_request fl =
     andThen (decodeBinary (af_challenge fl)) (\<lambda>challenge.
     andThen (decodeOptionalBinary (af_appIDHash fl)) (\<lambda>appIDHash.
     andThen (decodeOptionalBinary (af_keyHandle fl)) (\<lambda>keyHandle.
       Inr \<lparr>aq_ChallengeHash = challenge, aq_RPID = af_rpID fl, aq_Selection = no_selection,
            aq_CTAP1 = (if appIDHash \<noteq> [] \<or> keyHandle \<noteq> []
              then Some \<lparr>ao_AppIDHash = appIDHash, ao_KeyHandle = keyHandle, ao_Control = 0\<rparr> else None),
            aq_CTAP2 = None\<rparr>)))"

definition run_authenticate :: "'w cli_deps \<Rightarrow> authenticate_flags \<Rightarrow> ('w, unit) io" where
  "run_authenticate deps fl =
     io_bind (io_of (authenticate_request fl)) (\<lambda>request.
     io_bind (sv_Authenticate (dp_service deps) (context_of deps) (device_of deps) request) (\<lambda>result.
       print_value deps (AuthenticationValue result) [Plain (''authentication completed via '' @ ax_Protocol result)]))"

definition run_credentials :: "'w cli_deps \<Rightarrow> string \<Rightarrow> bool \<Rightarrow> ('w, unit) io" where
  "run_credentials deps pinEnv pinStdin =
     io_bind (io_of (fst (Resolve (dp_env deps) (pin_secret pinEnv ''FIDO_PIN'' pinStdin ErrPINRequired ''pin'') (dp_stdin deps)))) (\<lambda>pin.
     io_bind (sv_ListCredentials (dp_service deps) (context_of deps) (device_of deps) pin) (\<lambda>(d, result).
       print_value deps (CredentialsValue d result) (writeCredentialTable result)))"

text \<open>\<open>reset.go\<close>; the prompt goes to the standard error.\<close>

definition resetConfirmationValue :: string where "resetConfirmationValue = ''RESET''"

definition reset_refused :: "string \<Rightarrow> err" where
  "reset_refused message = WrapError (''%w: '' @ message) [Sentinel (SCli ErrResetConfirmationRequired)]"

definition confirmReset :: "'w cli_deps \<Rightarrow> bool \<Rightarrow> bool \<Rightarrow> ('w, unit) io" where
  "confirmReset deps interactive force =
     (if force then io_return ()
      else if \<not> interactive then io_fail (reset_refused ''rerun with --yes when using --no-interactive'')
      else io_bind (io_check (dp_stderr deps ''Reset will permanently erase authenticator state. Type RESET to continue: '')) (\<lambda>_.
        case input_line (dp_stdin deps) of (line, e, input) \<Rightarrow>
          (case e of
             Some x \<Rightarrow> io_fail (WrapError ''read reset confirmation: %w'' [x])
           | None \<Rightarrow>
               if TrimSpace (bytes_string line) \<noteq> resetConfirmationValue then io_fail (reset_refused ''destructive reset aborted'')
               else io_return ())))"

definition run_reset :: "'w cli_deps \<Rightarrow> bool \<Rightarrow> ('w, unit) io" where
  "run_reset deps force =
     io_bind (confirmReset deps (\<not> gf_noInteractive (dp_flags deps)) force) (\<lambda>_.
     io_bind (sv_Reset (dp_service deps) (context_of deps) (device_of deps)) (\<lambda>_.
       print_value deps (DoneValue ''reset'') [Plain ''reset completed'']))"

subsection \<open>errors.go and main.go\<close>

definition exitSuccess :: int where "exitSuccess = 0"
definition exitGeneralError :: int where "exitGeneralError = 1"
definition exitUsageError :: int where "exitUsageError = 2"
definition exitDeviceError :: int where "exitDeviceError = 3"
definition exitTimeout :: int where "exitTimeout = 4"
definition exitProtocol :: int where "exitProtocol = 5"

definition as_DeviceNotFound :: "err \<Rightarrow> string option" where
  "as_DeviceNotFound e = (case e of DeviceNotFoundError i \<Rightarrow> Some i | _ \<Rightarrow> None)"

text \<open>\<open>shown\<close> is the message of an error, its method \<open>Error\<close>.\<close>

definition classifyError :: "(err \<Rightarrow> string) \<Rightarrow> err \<Rightarrow> int" where
  "classifyError shown e =
     (if errors_as as_DeviceNotFound e \<noteq> None then exitDeviceError
      else if errors_is e (SContext DeadlineExceeded) then exitTimeout
      else if contains_fold (shown e) ''ctap'' then exitProtocol
      else if errors_is e (SClient ErrPINRequired) \<or> errors_is e (SClient ErrNewPINRequired) then exitUsageError
      else if errors_is e (SCli ErrResetConfirmationRequired) then exitUsageError
      else exitGeneralError)"

definition errorKind :: "int \<Rightarrow> string" where
  "errorKind code =
     (if code = exitUsageError then ''usage''
      else if code = exitDeviceError then ''device''
      else if code = exitTimeout then ''timeout''
      else if code = exitProtocol then ''protocol''
      else ''general'')"

text \<open>The line of an error, or its JSON value, for the standard error.\<close>

definition writeCommandError :: "(err \<Rightarrow> string) \<Rightarrow> string \<Rightarrow> err \<Rightarrow> cli_output" where
  "writeCommandError shown format e =
     (if format = ''json'' then JsonOutput (ErrorValue (shown e) (classifyError shown e) (errorKind (classifyError shown e)))
      else HumanOutput [Plain (''Error: '' @ shown e)])"

text \<open>The commands with their own flags. \<open>HelpCommand\<close> is the root command, which prints the help of \<open>cobra\<close>.\<close>

datatype cli_command =
    DevicesCommand | InfoCommand | VersionCommand | HelpCommand
  | RawCommand string string string | TraceCommand string string string bool
  | PinRetriesCommand | PinSetCommand string bool | PinChangeCommand string bool string bool
  | CliRegisterCommand register_flags | CliAuthenticateCommand authenticate_flags
  | ResetCommand bool | CredentialsListCommand string bool

primrec run_command :: "('w, unit) io \<Rightarrow> 'w cli_deps \<Rightarrow> cli_command \<Rightarrow> ('w, unit) io" where
  "run_command help deps DevicesCommand = run_devices deps"
| "run_command help deps InfoCommand = run_info deps"
| "run_command help deps VersionCommand = run_version deps"
| "run_command help deps HelpCommand = help"
| "run_command help deps (RawCommand protocol command payload) = run_raw deps protocol command payload"
| "run_command help deps (TraceCommand protocol command payload unsafe) = run_trace deps protocol command payload unsafe"
| "run_command help deps PinRetriesCommand = run_pin_retries deps"
| "run_command help deps (PinSetCommand newEnv newStdin) = run_pin_set deps newEnv newStdin"
| "run_command help deps (PinChangeCommand oldEnv oldStdin newEnv newStdin) = run_pin_change deps oldEnv oldStdin newEnv newStdin"
| "run_command help deps (CliRegisterCommand fl) = run_register deps fl"
| "run_command help deps (CliAuthenticateCommand fl) = run_authenticate deps fl"
| "run_command help deps (ResetCommand force) = run_reset deps force"
| "run_command help deps (CredentialsListCommand pinEnv pinStdin) = run_credentials deps pinEnv pinStdin"

text \<open>The service of \<open>app.go\<close>. \<open>tick\<close> polls a command's context.\<close>

definition app_service ::
  "(err \<Rightarrow> string) \<Rightarrow> ('e cli_mem_scheme) sdk_libs \<Rightarrow> (cli_context \<Rightarrow> 'e cli_mem_scheme \<Rightarrow> err option \<times> 'e cli_mem_scheme) \<Rightarrow>
   ('e cli_mem_scheme) app \<Rightarrow> ('e cli_mem_scheme) cli_service" where
  "app_service shown libs tick app =
     \<lparr>sv_ListDevices = (\<lambda>c. ListDevices app), sv_Info = (\<lambda>c. app_Info shown libs app (tick c)),
      sv_Raw = (\<lambda>c. app_Raw app (tick c)), sv_Trace = (\<lambda>c. app_Trace app (tick c)),
      sv_PINRetries = (\<lambda>c. app_PINRetries libs app (tick c)), sv_SetPIN = (\<lambda>c. app_SetPIN libs app (tick c)),
      sv_ChangePIN = (\<lambda>c. app_ChangePIN libs app (tick c)), sv_Register = (\<lambda>c. app_Register libs app (tick c)),
      sv_Authenticate = (\<lambda>c. app_Authenticate libs app (tick c)), sv_Reset = (\<lambda>c. app_Reset libs app (tick c)),
      sv_ListCredentials = (\<lambda>c. app_ListCredentials libs app (tick c))\<rparr>"

text \<open>\<open>PersistentPreRunE\<close>: the flags and the service of a command.\<close>

definition prerun ::
  "('w, 'w session) backend \<Rightarrow> ('w, 'w session) backend res \<Rightarrow> global_flags \<Rightarrow> 'w app \<Rightarrow> global_flags \<times> 'w app res" where
  "prerun usb nfc flags app =
     (if gf_jsonOutput flags then flags\<lparr>gf_format := ''json''\<rparr> else flags,
      andThen (ConfigureTransportPreferences usb nfc \<lparr>tp_USB = True, tp_NFC = gf_nfc flags\<rparr> app) (\<lambda>app'.
        Inr (ConfigureInteraction (\<not> gf_noInteractive flags) True app')))"

text \<open>\<open>main\<close>: the exit code. \<open>report\<close> writes to the standard error, and its error only changes what is printed.\<close>

definition main_exit :: "(err \<Rightarrow> string) \<Rightarrow> (cli_output \<Rightarrow> 'w \<Rightarrow> err option \<times> 'w) \<Rightarrow> string \<Rightarrow> ('w, unit) io \<Rightarrow> ('w, int) io" where
  "main_exit shown report format run =
     io_bind (io_try run) (\<lambda>r. case r of
       Inr _ \<Rightarrow> io_return exitSuccess
     | Inl e \<Rightarrow>
         io_bind (io_ask (report (writeCommandError shown format e))) (\<lambda>failed.
         io_bind (if failed = None then io_return None
                  else io_ask (report (HumanOutput [Plain (''Error: '' @ shown e)]))) (\<lambda>_.
           io_return (classifyError shown e))))"

definition fidoctl_main ::
  "(err \<Rightarrow> string) \<Rightarrow> (cli_output \<Rightarrow> 'e cli_mem_scheme \<Rightarrow> err option \<times> 'e cli_mem_scheme) \<Rightarrow> ('e cli_mem_scheme) sdk_libs \<Rightarrow>
   (cli_context \<Rightarrow> 'e cli_mem_scheme \<Rightarrow> err option \<times> 'e cli_mem_scheme) \<Rightarrow>
   ('e cli_mem_scheme, ('e cli_mem_scheme) session) backend \<Rightarrow> ('e cli_mem_scheme, ('e cli_mem_scheme) session) backend res \<Rightarrow>
   ('e cli_mem_scheme, unit) io \<Rightarrow> ('e cli_mem_scheme) cli_deps \<Rightarrow> cli_command \<Rightarrow> ('e cli_mem_scheme, int) io" where
  "fidoctl_main shown report libs tick usb nfc help deps command =
     (case app_NewDefault usb nfc of
        Inl e \<Rightarrow> io_bind (io_ask (report (writeCommandError shown ''human'' e))) (\<lambda>_. io_return exitGeneralError)
      | Inr app \<Rightarrow>
          (case prerun usb nfc (dp_flags deps) app of (flags, configured) \<Rightarrow>
             main_exit shown report (gf_format flags)
               (case configured of
                  Inl e \<Rightarrow> io_fail e
                | Inr app' \<Rightarrow> run_command help (deps\<lparr>dp_flags := flags, dp_service := app_service shown libs tick app'\<rparr>) command)))"

subsection \<open>What the front end guarantees\<close>

lemma unpadded_digits: "CHR ''='' \<notin> set s \<Longrightarrow> b64_digits True s = None \<or> b64_digits True s = b64_digits False s"
proof (induction "length s" arbitrary: s rule: less_induct)
  case less
  show ?case
  proof (cases "(True, s)" rule: b64_digits.cases)
    case (5 padded a b c d t)
    with less.hyps [of t] less.prems have "b64_digits True t = None \<or> b64_digits True t = b64_digits False t" by simp
    with 5 less.prems show ?thesis by (auto split: option.split)
  qed auto
qed

lemma b64_raw_plain: "CHR ''='' \<notin> set (b64_encode False bs)"
proof (induction False bs rule: b64_encode.induct)
  case (2 x)
  then show ?case using b64_char_plain [OF b64_digit_bounds(1) [of x]] b64_char_plain [OF b64_digit_bounds(2) [of x]] by auto
next
  case (3 x y)
  then show ?case
    using b64_char_plain [OF b64_digit_bounds(1) [of x]] b64_char_plain [OF b64_digit_bounds(3) [of x y]]
      b64_char_plain [OF b64_digit_bounds(4) [of y]] by auto
next
  case (4 x y z bs)
  then show ?case
    using b64_char_plain [OF b64_digit_bounds(1) [of x]] b64_char_plain [OF b64_digit_bounds(3) [of x y]]
      b64_char_plain [OF b64_digit_bounds(5) [of y z]] b64_char_plain [OF b64_digit_bounds(6) [of z]] by auto
qed simp

lemma decode_base64:
  assumes "hex_decode (b64_encode padded bs) = None"
  shows "decodeBinary (b64_encode padded bs) = Inr bs"
proof (cases padded)
  case True
  with assms show ?thesis using b64_roundtrip [of True bs] by (cases "b64_encode True bs") (simp_all add: decodeBinary_def b64_decode_def)
next
  case False
  let ?s = "b64_encode False bs"
  have "filter (\<lambda>c. c \<noteq> CHR 0x0A \<and> c \<noteq> CHR 0x0D) ?s = ?s" by (rule filter_True) (use b64_encode_plain in blast)
  then have "b64_decode True ?s = None \<or> b64_decode True ?s = b64_decode False ?s"
    using unpadded_digits [OF b64_raw_plain [of bs]] by (simp add: b64_decode_def)
  with assms False b64_roundtrip [of False bs] show ?thesis
    by (cases ?s) (auto simp: decodeBinary_def split: option.split)
qed

lemma hex_lower: "d < 16 \<Longrightarrow> ascii_lower (hex_char d) = hex_char d"
proof -
  have "list_all (\<lambda>d. ascii_lower (hex_char d) = hex_char d) [0..<16]" by code_simp
  then show "d < 16 \<Longrightarrow> ascii_lower (hex_char d) = hex_char d" by (simp add: list_all_iff)
qed

lemma hex_digit: "d < 16 \<Longrightarrow> digit_value (hex_char d) = Some d"
  using hex_value_char [of d] by (simp add: hex_value_def split: option.splits if_splits)

lemma parseCommand_hex: "parseCommand (''0x'' @ hex_encode [b]) = Inr b"
proof -
  have d: "unat b div 16 < 16" "unat b mod 16 < 16" using byte_bound [of b] by linarith+
  have "ToLower (''0x'' @ hex_encode [b]) = ''0x'' @ hex_encode [b]"
    using d by (simp add: ToLower_def hex_encode_def hex_lower) (simp add: ascii_lower_def)
  moreover have "ParseUint (hex_encode [b]) 16 8 = Some (unat b)"
    using d byte_bound [of b] by (simp add: hex_encode_def ParseUint_def hex_digit mult.commute)
  ultimately show ?thesis by (simp add: parseCommand_def TrimPrefix_def)
qed

lemma parseCommand_decimal: "parseCommand (nat_decimal (unat b)) = Inr b"
proof -
  have "\<not> prefix ''0x'' (ToLower s)" if "\<And>c. c \<in> set s \<Longrightarrow> 48 \<le> (of_char c :: nat) \<and> (of_char c :: nat) \<le> 57" for s
  proof
    assume "prefix ''0x'' (ToLower s)"
    then obtain c where c: "c \<in> set s" "ascii_lower c = CHR ''x''" 
      by (cases s; cases "tl s") (auto simp: prefix_def ToLower_def)
    from c(2) that [OF c(1)] show False by (auto simp: ascii_lower_def Let_def split: if_splits)
  qed
  then have "\<not> prefix ''0x'' (ToLower (nat_decimal (unat b)))" using nat_decimal_digits by blast
  moreover have "ParseUint (nat_decimal (unat b)) 10 8 = Some (unat b)" using byte_bound [of b] by (simp add: ParseUint_def parse_decimal)
  ultimately show ?thesis by (simp add: parseCommand_def split: option.split)
qed

lemma trimmed_names: "TrimSpace ''ctap1'' = ''ctap1''" "TrimSpace ''ctap2'' = ''ctap2''"
  unfolding TrimSpace_fix by code_simp+

lemma device_found: "errors_as as_DeviceNotFound e \<noteq> None \<longleftrightarrow> (\<exists>i. DeviceNotFoundError i \<in> set (error_tree e))"
proof -
  have "as_DeviceNotFound x = None \<longleftrightarrow> (\<nexists>i. x = DeviceNotFoundError i)" for x by (cases x) (simp_all add: as_DeviceNotFound_def)
  then show ?thesis by (auto simp: errors_as_None)
qed

text \<open>A reset goes ahead when it was forced, or when the user is asked and types the word.\<close>

definition reset_confirmed :: "'w cli_deps \<Rightarrow> bool \<Rightarrow> bool" where
  "reset_confirmed deps force \<longleftrightarrow>
     force \<or> \<not> gf_noInteractive (dp_flags deps) \<and>
       (case input_line (dp_stdin deps) of (line, e, _) \<Rightarrow> e = None \<and> TrimSpace (bytes_string line) = resetConfirmationValue)"

lemma confirmReset_refuses:
  assumes "\<not> reset_confirmed deps force"
  shows "confirmReset deps (\<not> gf_noInteractive (dp_flags deps)) force w = Some (r, w') \<Longrightarrow> \<exists>e. r = Inl e"
  using assms by (auto simp: confirmReset_def reset_confirmed_def io_bind_conv split: if_splits option.splits prod.splits)

lemma confirmReset_accepts:
  "reset_confirmed deps force \<Longrightarrow> confirmReset deps (\<not> gf_noInteractive (dp_flags deps)) force =
     (if force then io_return () else io_check (dp_stderr deps ''Reset will permanently erase authenticator state. Type RESET to continue: ''))"
  by (auto simp: confirmReset_def reset_confirmed_def fun_eq_iff io_bind_def io_check_def split: option.splits prod.splits)

lemma bind_Inl: "(\<And>w r w'. m w = Some (r, w') \<Longrightarrow> \<exists>e. r = Inl e) \<Longrightarrow> io_bind m k = io_bind m j"
  by (fastforce simp: fun_eq_iff io_bind_def split: bind_split sum.split)

text \<open>Both secrets of a PIN change from the input: the first line is the current one, the second the new one.\<close>

lemma pin_change_lines:
  assumes "dp_env deps ''FIDO_PIN'' = None" "dp_env deps ''FIDO_NEW_PIN'' = None"
    and "dp_stdin deps = \<lparr>si_terminal = None, si_asked = 0, si_rest = old @ 10 # new @ 10 # rest, si_end = e\<rparr>"
    and "old \<noteq> []" "new \<noteq> []" "10 \<notin> set old" "10 \<notin> set new" "last old \<noteq> 13" "last new \<noteq> 13"
  shows "run_pin_change deps [] True [] True =
    io_bind (sv_ChangePIN (dp_service deps) (context_of deps) (device_of deps) old new) (\<lambda>_.
      print_value deps (DoneValue ''changed'') [Plain ''PIN changed''])"
proof -
  have plain: "trim_line (xs @ [10]) = xs" if "xs \<noteq> []" "10 \<notin> set xs" "last xs \<noteq> 13" for xs :: bytes
  proof -
    have "last xs \<noteq> 10" using last_in_set [OF that(1)] that(2) by metis
    then show ?thesis using trim_line_plain [of xs] that(3) by blast
  qed
  show ?thesis
    using assms read_line_split [of old "new @ 10 # rest"] read_line_split [of new rest] plain [of old] plain [of new]
    by (simp add: run_pin_change_def Resolve_def resolve_env_def pin_secret_def readSecret_def input_line_def fun_eq_iff io_bind_def)
qed

text \<open>A front end over a service that only resets; the world counts the resets.\<close>

definition sample_front :: "string \<Rightarrow> bool \<Rightarrow> nat cli_deps" where
  "sample_front format noInteractive =
     \<lparr>dp_service = \<lparr>sv_ListDevices = (\<lambda>c. io_fail GoPanic), sv_Info = (\<lambda>c d. io_fail GoPanic), sv_Raw = (\<lambda>c q. io_fail GoPanic),
        sv_Trace = (\<lambda>c q. io_fail GoPanic), sv_PINRetries = (\<lambda>c d. io_fail GoPanic), sv_SetPIN = (\<lambda>c d p. io_fail GoPanic),
        sv_ChangePIN = (\<lambda>c d p q. io_fail GoPanic), sv_Register = (\<lambda>c d q. io_fail GoPanic), sv_Authenticate = (\<lambda>c d q. io_fail GoPanic),
        sv_Reset = (\<lambda>c d n. Some (Inr (), Suc n)), sv_ListCredentials = (\<lambda>c d p. io_fail GoPanic)\<rparr>,
      dp_stdin = \<lparr>si_terminal = None, si_asked = 0, si_rest = [], si_end = None\<rparr>, dp_stdout = (\<lambda>out. io_return ()),
      dp_stderr = (\<lambda>line n. (None, n)), dp_env = (\<lambda>name. None), dp_version = ''dev'',
      dp_flags = \<lparr>gf_deviceID = [], gf_nfc = False, gf_timeout = 0, gf_format = format, gf_jsonOutput = False, gf_noInteractive = noInteractive\<rparr>\<rparr>"

subsection \<open>Properties\<close>

text \<open>The front end reads back what is printed: bytes in hexadecimal always, and bytes in base64, with or without padding, whenever
  the text is not hexadecimal too; a command byte in decimal and in hexadecimal; and the names of the protocols.\<close>

theorem cli_inputs_roundtrip:
  "decodeBinary (hex_encode bs) = Inr bs \<and>
   (hex_decode (b64_encode padded bs) = None \<longrightarrow> decodeBinary (b64_encode padded bs) = Inr bs) \<and>
   parseCommand (nat_decimal (unat b)) = Inr b \<and> parseCommand (''0x'' @ hex_encode [b]) = Inr b \<and>
   parseProtocol FamilyCTAP1 = Inr FamilyCTAP1 \<and> parseProtocol FamilyCTAP2 = Inr FamilyCTAP2"
proof (intro conjI impI decode_base64 parseCommand_hex parseCommand_decimal)
  show "decodeBinary (hex_encode bs) = Inr bs" using hex_roundtrip [of bs] by (cases bs) (simp_all add: decodeBinary_def hex_encode_def)
  show "parseProtocol FamilyCTAP1 = Inr FamilyCTAP1" "parseProtocol FamilyCTAP2 = Inr FamilyCTAP2"
    using trimmed_names by (simp_all add: parseProtocol_def ToLower_def FamilyCTAP1_def FamilyCTAP2_def ascii_lower_def)
qed

theorem cli_inputs_roundtrip_witness:
  "hex_decode (b64_encode True [1, 2, 3, 4]) = None \<and> decodeBinary (b64_encode True [1, 2, 3, 4]) = Inr [1, 2, 3, 4] \<and>
   decodeBinary ''AQIDBA=='' = Inr [1, 2, 3, 4]"
proof -
  have s: "b64_encode True [1, 2, 3, 4] = ''AQIDBA==''" by code_simp
  moreover have "hex_decode ''AQIDBA=='' = None" by code_simp
  ultimately show ?thesis using cli_inputs_roundtrip [of "[1, 2, 3, 4]" True] by simp
qed

text \<open>C18. A reset is confirmed: unless it was forced with \<open>--yes\<close>, or the user is asked and types RESET, the command fails
  without using the service, whatever the service is; a confirmed one calls \<open>Reset\<close> once, after the prompt. The format of the output is only
  looked at after the reset: with a format that is neither human nor json, a reset that succeeds is reported as a failure.\<close>

theorem cli_reset_confirmed:
  "(\<not> reset_confirmed deps force \<longrightarrow>
      run_reset (deps\<lparr>dp_service := other\<rparr>) force = run_reset deps force \<and>
      (\<forall>w r w'. run_reset deps force w = Some (r, w') \<longrightarrow> (\<exists>e. r = Inl e))) \<and>
   (reset_confirmed deps force \<longrightarrow>
      run_reset deps force =
        io_bind (if force then io_return () else io_check (dp_stderr deps ''Reset will permanently erase authenticator state. Type RESET to continue: '')) (\<lambda>_.
        io_bind (sv_Reset (dp_service deps) (context_of deps) (device_of deps)) (\<lambda>_.
          print_value deps (DoneValue ''reset'') [Plain ''reset completed'']))) \<and>
   (gf_format (dp_flags deps) \<notin> {''human'', ''json''} \<longrightarrow> sv_Reset (dp_service deps) (context_of deps) (device_of deps) w = Some (Inr (), w') \<longrightarrow>
      run_reset deps True w = Some (Inl (TextError (''unsupported format '' @ gf_format (dp_flags deps))), w'))"
proof (intro conjI impI)
  assume refused: "\<not> reset_confirmed deps force"
  have same: "confirmReset (deps\<lparr>dp_service := other\<rparr>) i force = confirmReset deps i force" for i by (simp add: confirmReset_def)
  show "run_reset (deps\<lparr>dp_service := other\<rparr>) force = run_reset deps force"
    unfolding run_reset_def using confirmReset_refuses [OF refused] by (simp add: same) (rule bind_Inl)
  show "\<forall>w r w'. run_reset deps force w = Some (r, w') \<longrightarrow> (\<exists>e. r = Inl e)"
    using confirmReset_refuses [OF refused] by (fastforce simp: run_reset_def io_bind_conv)
next
  assume "reset_confirmed deps force"
  then show "run_reset deps force =
      io_bind (if force then io_return () else io_check (dp_stderr deps ''Reset will permanently erase authenticator state. Type RESET to continue: '')) (\<lambda>_.
      io_bind (sv_Reset (dp_service deps) (context_of deps) (device_of deps)) (\<lambda>_.
        print_value deps (DoneValue ''reset'') [Plain ''reset completed'']))"
    by (simp only: run_reset_def confirmReset_accepts)
next
  assume "gf_format (dp_flags deps) \<notin> {''human'', ''json''}" "sv_Reset (dp_service deps) (context_of deps) (device_of deps) w = Some (Inr (), w')"
  then show "run_reset deps True w = Some (Inl (TextError (''unsupported format '' @ gf_format (dp_flags deps))), w')"
    by (simp add: run_reset_def confirmReset_def print_value_def writeValue_def io_bind_def)
qed

text \<open>Without a confirmation nothing happens; with the flag the reset is done, also when its success cannot be printed.\<close>

theorem cli_reset_confirmed_witness:
  "(\<exists>e. run_reset (sample_front ''human'' True) False 0 = Some (Inl e, 0)) \<and>
   run_reset (sample_front ''human'' True) True 0 = Some (Inr (), 1) \<and>
   run_reset (sample_front ''raw'' True) True 0 = Some (Inl (TextError ''unsupported format raw''), 1)"
proof (intro conjI)
  have "\<not> reset_confirmed (sample_front ''human'' True) False" by (simp add: reset_confirmed_def sample_front_def)
  with cli_reset_confirmed [of "sample_front ''human'' True" False]
  have "\<forall>w r w'. run_reset (sample_front ''human'' True) False w = Some (r, w') \<longrightarrow> (\<exists>e. r = Inl e)" by blast
  moreover have "\<exists>r. run_reset (sample_front ''human'' True) False 0 = Some (r, 0)"
    by (simp add: run_reset_def confirmReset_def sample_front_def io_bind_def)
  ultimately show "\<exists>e. run_reset (sample_front ''human'' True) False 0 = Some (Inl e, 0)" by blast
  have "reset_confirmed (sample_front ''human'' True) True" by (simp add: reset_confirmed_def)
  with cli_reset_confirmed [of "sample_front ''human'' True" True] show "run_reset (sample_front ''human'' True) True 0 = Some (Inr (), 1)"
    by (simp add: io_bind_def print_value_def writeValue_def) (simp add: sample_front_def io_bind_def)
  have "sv_Reset (dp_service (sample_front ''raw'' True)) c d 0 = Some (Inr (), 1)" "gf_format (dp_flags (sample_front ''raw'' True)) = ''raw''" for c d
    by (simp_all add: sample_front_def)
  with cli_reset_confirmed [of "sample_front ''raw'' True" True _ 0 1]
  show "run_reset (sample_front ''raw'' True) True 0 = Some (Inl (TextError ''unsupported format raw''), 1)" by simp
qed

text \<open>C37. The exit code says how a command ended: \<open>main\<close> exits with 0 exactly when the command returned without an error, and
  otherwise with 3 when the tree of the error has a missing device, else with 4 when it has a deadline that passed, else with 5 when
  its text mentions CTAP, else with 2 for a missing PIN or a missing confirmation, else with 1. An error whose text shows the
  text of a CTAP status, however annotated, never exits as a usage or general error.\<close>

theorem cli_exit_codes:
  assumes "main_exit (error_text tx) report format run w = Some (r, w')"
  shows "\<exists>q w1. run w = Some (q, w1) \<and> (r = Inr 0 \<longleftrightarrow> q = Inr ()) \<and>
    (\<forall>e. q = Inl e \<longrightarrow> (\<exists>code. r = Inr code \<and> code \<in> {1..5} \<and>
       (code = 3 \<longleftrightarrow> (\<exists>i. DeviceNotFoundError i \<in> set (error_tree e))) \<and>
       (code = 4 \<longleftrightarrow> code \<noteq> 3 \<and> errors_is e (SContext DeadlineExceeded)) \<and>
       (code = 5 \<longleftrightarrow> code \<notin> {3, 4} \<and> contains_fold (error_text tx e) ''ctap'') \<and>
       (code = 2 \<longleftrightarrow> code \<notin> {3, 4, 5} \<and>
          (errors_is e (SClient ErrPINRequired) \<or> errors_is e (SClient ErrNewPINRequired) \<or> errors_is e (SCli ErrResetConfirmationRequired))) \<and>
       (\<forall>x. shown_in e x \<and> ctap_error x \<longrightarrow> code \<in> {3, 4, 5})))"
proof -
  obtain q w1 where q: "run w = Some (q, w1)" using assms by (cases "run w") (auto simp: main_exit_def io_bind_def io_try_def)
  show ?thesis
  proof (cases q)
    case (Inl e)
    with q assms have "r = Inr (classifyError (error_text tx) e)"
      by (auto simp: main_exit_def io_bind_conv io_ask_conv split: if_splits)
    with q Inl device_found [of e] ctap_shown [of e _ tx] show ?thesis
      by (auto simp: classifyError_def exitDeviceError_def exitTimeout_def exitProtocol_def exitUsageError_def exitGeneralError_def)
  next
    case (Inr u)
    with q assms show ?thesis by (auto simp: main_exit_def io_bind_def io_try_def exitSuccess_def)
  qed
qed

theorem cli_exit_codes_witness:
  "main_exit (error_text \<lparr>tx_quote = (\<lambda>s. s), tx_foreign = (\<lambda>e. [])\<rparr>) (\<lambda>out n. (None, n)) ''human'' (run_reset (sample_front ''human'' True) False) 0 =
     Some (Inr 2, 0) \<and>
   (\<exists>e. run_reset (sample_front ''human'' True) False 0 = Some (Inl e, 0) \<and> errors_is e (SCli ErrResetConfirmationRequired) \<and>
      \<not> contains_fold (error_text \<lparr>tx_quote = (\<lambda>s. s), tx_foreign = (\<lambda>e. [])\<rparr> e) ''ctap'')"
proof -
  let ?run = "run_reset (sample_front ''human'' True) False" and ?tx = "\<lparr>tx_quote = (\<lambda>s. s), tx_foreign = (\<lambda>e. [])\<rparr>"
  let ?e = "reset_refused ''rerun with --yes when using --no-interactive''"
  have r: "?run 0 = Some (Inl ?e, 0)"
    by (simp add: run_reset_def confirmReset_def sample_front_def io_bind_def)
  have "error_text ?tx ?e = ''reset confirmation required: rerun with --yes when using --no-interactive''"
    by (simp add: reset_refused_def wrap_text_def sentinel_text_def cli_text_def)
  moreover have "contains_fold ''reset confirmation required: rerun with --yes when using --no-interactive'' ''ctap'' = False" by code_simp
  ultimately have t: "\<not> contains_fold (error_text ?tx ?e) ''ctap''" by simp
  then have m: "main_exit (error_text ?tx) (\<lambda>out n. (None, n)) ''human'' ?run 0 = Some (Inr 2, 0)"
    using r by (simp add: main_exit_def io_bind_def io_try_def io_ask_def classifyError_def errors_as_def reset_refused_def as_DeviceNotFound_def
      errors_is_def exitUsageError_def)
  from cli_exit_codes [OF m] r m t show ?thesis by (auto simp: reset_refused_def errors_is_def)
qed

end
