(* ===== verification/Spec2Isabelle.thy ===== *)
theory Spec2Isabelle
  imports WireHid WireBle WireNfc Transport UsbProtocol UsbSession PcscBackend UsbBackend HidNative ReportDesc
    Ctap1 Ctap2Manager PinAuthenticator CredentialDevice Fidoctl Diagnostics DarwinProbe PowerObserver DarwinConnection PlatformSelect
    CustomBackends DeepCopy FileTools FidoctlMain
begin

text \<open>
  Verification of \<open>fido-go\<close>, a Go SDK for FIDO authenticators.

  \<^bold>\<open>The program.\<close> A client (\<open>pkg/client\<close>) speaks CTAP1 and CTAP2 to an authenticator. A request goes down through
  these parts: a client operation builds a protocol command (\<open>pkg/ctap1\<close>, \<open>pkg/ctap2\<close>) or lets the CTAP2 manager
  (\<open>internal/client/ctap2\<close>) run a PIN or credential dialogue; a raw invoker turns the command into request
  bytes; middleware may observe them; a session of a transport (\<open>pkg/transport\<close>) exchanges them for a
  response. A USB session frames the bytes into CTAPHID reports (\<open>pkg/wire/hid\<close>) and sends them over a HID
  connection (\<open>pkg/hid\<close>), whose goroutines share one native device of a platform driver (\<open>pkg/hid/internal\<close>); BLE and NFC sessions frame them with the codecs of
  \<open>pkg/wire/ble\<close> and \<open>pkg/wire/nfc\<close>. Locators and the registry find devices and open sessions. The command line service
  (\<open>internal/cli/fidoctl\<close>) with its front end (\<open>cmd/fidoctl\<close>) and the diagnostics runner (\<open>internal/diagnostics\<close>) use the SDK from
  outside.

  \<^bold>\<open>The theories\<close>, in the order of their imports, with the sources they translate.

  \<^item> \<open>Prelude\<close>: byte lists, big-endian numbers, slices, \<open>'a res\<close> and its sequencing. \<open>GoStrings\<close>, \<open>GoPath\<close>,
    \<open>GoEncoding\<close>: what the code uses of \<open>strings\<close>, \<open>strconv\<close>, \<open>path/filepath\<close>, \<open>encoding/hex\<close> and \<open>encoding/base64\<close>, with the round trips.
  \<^item> \<open>GoErrors\<close>: error values as trees, \<open>errors.Is\<close>/\<open>errors.As\<close>/\<open>errors.Join\<close>, the categories of \<open>transport/errors.go\<close>,
    \<open>operationError\<close> of \<open>hid/errors.go\<close>. The locale \<open>cause_preserving\<close> is the contract of an annotation (no cause is hidden);
    it is interpreted for every annotation the code uses.
  \<^item> \<open>Framing\<close>: the interface of a codec as the locale \<open>framing\<close>. \<open>WireHid\<close>, \<open>WireBle\<close>, \<open>WireNfc\<close>: the codecs; the first two
    interpret \<open>framing\<close>.
  \<^item> \<open>GoIO\<close>: functions of a world that return a value, an error, or never return; rules for what they preserve and that they return.
  \<^item> \<open>Transport\<close>: descriptors, the registry, middleware chains. \<open>Sessions\<close>: the custom USB, BLE and NFC backends.
    \<open>PcscBackend\<close>: NFC over PC/SC. \<open>CustomBackends\<close>: the constructors of these backends, over the locale \<open>tried_backend\<close>.
  \<^item> \<open>UsbProtocol\<close>: \<open>hid_protocol.go\<close>, \<open>hid_exchange.go\<close> and the handshake retries of \<open>hid_init.go\<close>; the locales
    \<open>packet_source\<close>, \<open>packet_sink\<close>, \<open>packet_conn\<close> say what a connection promises. \<open>UsbSession\<close>: \<open>hid_session.go\<close>, \<open>hid_init.go\<close>,
    \<open>hid_lifetime.go\<close>, \<open>hid_error.go\<close> over the locale \<open>hid_env\<close>. \<open>UsbBackend\<close>: \<open>hid_backend.go\<close>.
  \<^item> \<open>RingBuffer\<close>: the locale \<open>bounded_queue\<close> and ring buffers, which \<open>HidConnection\<close> and \<open>DarwinConnection\<close> interpret it with.
    \<open>HidTypes\<close>: endpoints, filters, inventory and resource admission. \<open>HidConnection\<close>: the connection supervisor as the step
    relation \<open>conn_step\<close>. \<open>HidNative\<close>: \<open>Native.Open\<close> and \<open>Native.Enumerate\<close> with their workers as the step relation
    \<open>native_step\<close>, which runs all opens, enumerations and connections of a process together. \<open>ReportDesc\<close>: the report descriptor
    parser and the fallback scan.
  \<^item> \<open>NativeDriver\<close>: what the native drivers share; the locale \<open>hid_driver\<close> is the contract between a driver's \<open>Open\<close> and the portable layer, and
    \<open>opens\<close>/\<open>closes\<close> are rules for native resources. \<open>LinuxHid\<close>: \<open>pkg/hid/internal/linux\<close> over system calls as parameters; \<open>LinuxDriver\<close>:
    its theorems, the interpretation of \<open>hid_driver\<close> and a sample machine. \<open>WindowsHid\<close>: \<open>pkg/hid/internal/windows\<close> over the native
    procedures; \<open>WindowsDriver\<close>: resources, the interpretation of \<open>hid_driver\<close> and overlapped transfers; \<open>WindowsInventory\<close>: the filtered
    inventory; \<open>WindowsMachine\<close>: a sample machine and the properties. \<open>DarwinHid\<close>: \<open>pkg/hid/internal/darwin/darwin.go\<close> over the C functions
    of \<open>native.h\<close>; \<open>DarwinDriver\<close>: its theorems and a sample machine. It does not interpret \<open>hid_driver\<close>, whose law it only keeps when the
    path is unchanged. \<open>DarwinConnection\<close>: \<open>connection_darwin.c\<close>, the threads and calls behind a connection as the step relation \<open>hid_step\<close>.
    \<open>PlatformSelect\<close>: which driver a build uses. \<open>DarwinProbe\<close>: the probes of the diagnostics build. \<open>PowerObserver\<close>: \<open>internal/diagnostics/power\<close>, with its reducer in C, and the
    adapter of the driver.
  \<^item> \<open>Ctap1\<close>, \<open>Ctap2\<close>: commands and responses. \<open>PinProtocol\<close>: PIN/UV auth protocols one and two. \<open>Ctap2Manager\<close>: the manager.
    \<open>PinAuthenticator\<close>, \<open>CredentialDevice\<close>: reference authenticators, written from the specification's side of the same
    dialogues, and the dialogues run against them.
  \<^item> \<open>ClientCore\<close>, \<open>ClientOps\<close>, \<open>ClientSurface\<close>: the client facade, its operations, and the CTAP2 surface, tracing and locators.
    \<open>DeepCopy\<close>: the defensive copies of the client and of \<open>pkg/ctap2\<close>, over an explicit store.
  \<^item> \<open>Fidoctl\<close>: \<open>internal/cli/fidoctl/app.go\<close>. \<open>ErrorText\<close>: the \<open>Error\<close> methods. \<open>FidoctlMain\<close>: \<open>cmd/fidoctl\<close>, from parsed
    flags to the exit code. \<open>Diagnostics\<close>: \<open>internal/diagnostics\<close> without output and power observation. \<open>FileTools\<close>: the report
    file of the diagnostics and the downloader of the specifications.
  \<^item> This theory: a client on top of a USB session.

  \<^bold>\<open>How code is represented.\<close> A struct is a record, an enumeration a datatype, a byte or a fixed-width integer a word (so that sequence
  numbers and lengths wrap as in the source), an \<open>int\<close> that stays in range an \<open>int\<close> or \<open>nat\<close>. A function that may fail returns
  \<open>err + 'a\<close>; a run-time panic is the error \<open>GoPanic\<close>. An interface is a record of functions, an external package (CBOR,
  cryptography, ASN.1 and X.509, PC/SC, the operating system) a parameter. A context is what it answers when it is polled. Copies of
  slices and structs have no counterpart, because values are not shared; \<open>DeepCopy\<close> has the copies over a store in which they could be. A loop that may run forever is a
  \<open>partial_function\<close> on options, whose None is non-termination; no definition has fuel, and the theorems that something returns are stated as such.
  Concurrent code is a step relation with one step per critical section, native call or channel operation.

  \<^bold>\<open>What is shown.\<close>
  \<^item> Wire: every message that a codec accepts comes back from its fragments, and an assembler is safe on arbitrary packets.
  \<^item> USB: a transaction and a session exchange return the device's response after any keepalives and foreign packets, send
    the request once, report the device's own errors, retire the session when delivery is unknown, stay silent when closed, and retry handshakes a
    bounded number of times. Opening selects exactly one endpoint, and a removal is never guessed from a partial inventory.
  \<^item> HID: invariants of all interleavings. The device is closed once and after its users, reports keep their order, retirement ends
    in cleanup; across the process an endpoint has at most one open handle, an abandoned open is cleaned up by its worker, and its lease can always be
    given back. Descriptors of any bytes are parsed without a panic, and what is called supported is unambiguous.
  \<^item> Native drivers: whatever the operating system answers, an open that fails gives back every descriptor and handle, and a device
    that is opened passed the driver's own checks and those of the portable layer; inventories stay within that layer's bounds and say when they are
    incomplete; a Windows inventory opens only what the filter selects, and a Windows transfer returns only when the kernel has let go of its buffer;
    a macOS inventory is exactly the collections of its entries, and each of its endpoints leads back to its collection. The threads and calls of a macOS connection, in
    every interleaving, hand on reports in order and each write its own result, end before the connection is freed, and leave no call stuck. A power cycle
    qualifies exactly when its events are one sleep and the wake-up after it; probes and power observers are given back.
  \<^item> CTAP: encoders and decoders are exact for the wire forms; both PIN protocols agree with the authenticator's side; PIN management and credential management
    give the right results against the reference authenticators, and bounded numbers of commands.
  \<^item> Client: authenticator data is parsed exactly, the capability cache is sound and shares no memory with its callers, a required user verification is never skipped, tracing never
    records secrets by default, locators never leak sessions, raw invocations are dispatched by family and (through the USB session) become the right CTAPHID message.
  \<^item> NFC, command line and diagnostics: PC/SC handles are balanced; a command closes what it opened, runs its operation at most twice and ends with its
    context; flag values are read back as printed, a reset needs its confirmation, and the exit code says how a command ended, from the texts of its errors; a scenario passes exactly when all its evidence is there.

  \<^bold>\<open>Not modelled.\<close> The inventory of the macOS driver in C, the native side of its probes and the thread of the power observer that registers for
  notifications, the adapters to the external PC/SC package, the flag declarations of \<open>cmd/fidoctl\<close>, table alignment and JSON syntax, the verb \<open>q\<close> and
  the texts of foreign errors (parameters of the error texts), clock readings, and the example program.
\<close>

subsection \<open>A client over a USB session\<close>

text \<open>The world of a client whose session is a USB HID session; a panic stays a panic, any other error is the
  error result of \<open>Exchange\<close>.\<close>

record 'c usb_world = client_mem +
  uw_hid :: "'c hid_session"

definition over_hid :: "('c hid_session, bytes) io \<Rightarrow> ('c usb_world, bytes \<times> err option) io" where
  "over_hid m w =
     (case m (uw_hid w) of
        None \<Rightarrow> None
      | Some (Inl e, h) \<Rightarrow> Some (if e = GoPanic then Inl GoPanic else Inr ([], Some e), w\<lparr>uw_hid := h\<rparr>)
      | Some (Inr x, h) \<Rightarrow> Some (Inr (x, None), w\<lparr>uw_hid := h\<rparr>))"

definition usb_client_close :: "'c hid_env_ops \<Rightarrow> 'c ctx_poll \<Rightarrow> 'c usb_world \<Rightarrow> err option \<times> 'c usb_world" where
  "usb_client_close ops connClose w =
     (case hidSession_CloseContext ops connClose False (uw_hid w) of (e, h) \<Rightarrow> (e, w\<lparr>uw_hid := h\<rparr>))"

definition usb_client_session :: "'c hid_env_ops \<Rightarrow> 'c ctx_poll \<Rightarrow> device_descriptor \<Rightarrow> ('c usb_world) session" where
  "usb_client_session ops connClose device =
     \<lparr>se_Device = device, se_Exchange = (\<lambda>req. over_hid (hidSession_Exchange ops False req)),
      se_Close = usb_client_close ops connClose,
      se_ExchangeHID = Some (\<lambda>command payload. over_hid (hidSession_ExchangeHID ops False command payload)),
      se_CloseContext = Some (usb_client_close ops connClose)\<rparr>"

text \<open>The request bytes and CTAPHID command that a raw invocation must become.\<close>

definition sdk_request :: "string \<Rightarrow> byte \<Rightarrow> bytes \<Rightarrow> byte \<Rightarrow> bytes \<Rightarrow> bool" where
  "sdk_request family command payload hid req \<longleftrightarrow>
     family = FamilyCTAP2 \<and> command \<noteq> 0 \<and> hid = hidCommandCBOR \<and> req = command # payload \<or>
     family = FamilyCTAP1 \<and> command \<in> {CommandRegister, CommandAuthenticate, CommandVersion} \<and> hid = hidCommandMsg \<and>
       EncodeRawAPDU command payload = Inr req"

lemma families_differ [simp]: "FamilyCTAP1 \<noteq> FamilyCTAP2"
  by (simp add: FamilyCTAP1_def FamilyCTAP2_def)

lemma encodeAPDU_prefix: "encodeAPDU command p1 p2 data m = Inr req \<Longrightarrow> \<exists>rest. req = 0 # command # p1 # p2 # rest"
  by (auto simp: encodeAPDU_def encode_short_def encode_extended_def split: if_splits)

lemma sdk_request_command: "sdk_request family command payload hid req \<Longrightarrow> hidCommandForRequest req = hid"
  by (auto simp: sdk_request_def hidCommandForRequest_def isCTAP1APDU_def EncodeRawAPDU_def CommandRegister_def
      CommandAuthenticate_def CommandVersion_def dest!: encodeAPDU_prefix)

lemma sdk_request_invoke:
  assumes "client_New (Some s) [Some WithDefaultRawInvokers] = Inr cl" and "sdk_request family command payload hid req"
  shows "client_InvokeRaw cl family command payload = se_Exchange s req"
proof -
  have "cl_exchange cl = se_Exchange s" "cl_invokers cl = [FamilyCTAP1 \<mapsto> ctap1RawInvoker, FamilyCTAP2 \<mapsto> ctap2RawInvoker]"
    using assms(1) by (auto simp: client_New_def default_invokers Chain_foldr) (auto simp: empty_config_def)
  with assms(2) show ?thesis
    by (auto simp: sdk_request_def client_InvokeRaw_def family_Validate_def family_IsKnown_def ctap1RawInvoker_def
        ctap2RawInvoker_def fun_eq_iff)
qed



end
